(* ===== verification/Prelude.thy ===== *)
theory Prelude
  imports Main "HOL-Library.Word"
begin

text \<open>
  Shared vocabulary of the development.

  The firmware is C for two 32-bit microcontrollers.  Its fixed-width unsigned
  integers are words of the same width; an \<open>int16_t\<close> is carried as a 16-bit word and
  read as a signed number with \<open>sint\<close> where the C code compares or adds it as a
  signed value.  A \<open>size_t\<close> that only ever indexes a bounded buffer is a natural
  number.  Byte buffers are lists of bytes; a fixed-size C array is a list of that
  length and an element store is a list update.

  The theory also holds the little-endian helpers that the C files repeat, the
  \<open>memcpy\<close> into the middle of a buffer, ring-buffer contents, and the round-robin scan that
  several components use, each with the lemmas the component proofs rest on.
\<close>

unbundle bit_operations_syntax

type_synonym u8 = "8 word"
type_synonym u16 = "16 word"
type_synonym u32 = "32 word"
type_synonym u64 = "64 word"
type_synonym i16 = "16 word"

abbreviation INT16_MAX :: int where "INT16_MAX \<equiv> 32767"
abbreviation INT16_MIN :: int where "INT16_MIN \<equiv> -32768"

text \<open>The ESP-IDF result codes the firmware returns.\<close>

datatype esp_err =
  ESP_OK | ESP_FAIL | ESP_ERR_NO_MEM | ESP_ERR_INVALID_ARG | ESP_ERR_INVALID_STATE | ESP_ERR_INVALID_SIZE
  | ESP_ERR_NOT_FOUND | ESP_ERR_NOT_SUPPORTED | ESP_ERR_TIMEOUT | ESP_ERR_INVALID_CRC | ESP_ERR_INVALID_VERSION
  | ESP_ERR_INVALID_RESPONSE | ESP_ERR_INVALID_MAC | ESP_ERR_NVS_NOT_FOUND

named_theorems codec_simps \<open>unfolding rules for frame builders and decoders\<close>
named_theorems ring_simps \<open>rules about the contents of ring buffers\<close>
named_theorems bound_intros \<open>range facts that every component may use\<close>

section \<open>Little-endian integers in byte buffers\<close>

definition wr_u16 :: "u16 \<Rightarrow> u8 list" where
  "wr_u16 v = [ucast (v AND 0xFF), ucast (drop_bit 8 v)]"

definition wr_u32 :: "u32 \<Rightarrow> u8 list" where
  "wr_u32 v = [ucast (v AND 0xFF), ucast (drop_bit 8 v AND 0xFF),
               ucast (drop_bit 16 v AND 0xFF), ucast (drop_bit 24 v AND 0xFF)]"

definition rd_u16 :: "u8 list \<Rightarrow> nat \<Rightarrow> u16" where
  "rd_u16 p i = ucast (p ! i) OR push_bit 8 (ucast (p ! (i + 1)))"

definition rd_u32 :: "u8 list \<Rightarrow> nat \<Rightarrow> u32" where
  "rd_u32 p i = ucast (p ! i) OR push_bit 8 (ucast (p ! (i + 1))) OR
                push_bit 16 (ucast (p ! (i + 2))) OR push_bit 24 (ucast (p ! (i + 3)))"

lemma length_wr_u16 [simp]: "length (wr_u16 v) = 2"
  by (simp add: wr_u16_def)

lemma length_wr_u32 [simp]: "length (wr_u32 v) = 4"
  by (simp add: wr_u32_def)

lemma and_ff: "(v :: 'a::len word) AND 0xFF = take_bit 8 v"
  by (simp add: take_bit_eq_mask mask_eq_exp_minus_1)

lemma u16_split_join:
  "(ucast (ucast (v AND 0xFF) :: u8) :: u16) OR push_bit 8 (ucast (ucast (drop_bit 8 v) :: u8)) = (v :: u16)"
  unfolding and_ff
  by (rule bit_word_eqI) (auto simp: bit_simps)

lemma u32_split_join:
  "(ucast (ucast (v AND 0xFF) :: u8) :: u32) OR push_bit 8 (ucast (ucast (drop_bit 8 v AND 0xFF) :: u8))
     OR push_bit 16 (ucast (ucast (drop_bit 16 v AND 0xFF) :: u8))
     OR push_bit 24 (ucast (ucast (drop_bit 24 v AND 0xFF) :: u8)) = (v :: u32)"
  unfolding and_ff
proof (rule bit_word_eqI)
  fix n assume "n < LENGTH(32)"
  moreover have "n < 24 \<or> 24 + (n - 24) = n" by arith
  ultimately show "bit ((ucast (ucast (take_bit 8 v) :: u8) :: u32)
     OR push_bit 8 (ucast (ucast (take_bit 8 (drop_bit 8 v)) :: u8))
     OR push_bit 16 (ucast (ucast (take_bit 8 (drop_bit 16 v)) :: u8))
     OR push_bit 24 (ucast (ucast (take_bit 8 (drop_bit 24 v)) :: u8))) n = bit v n"
    by (auto simp: bit_simps)
qed

text \<open>A value written at some offset of a buffer is read back from that offset.\<close>

lemma rd_u16_wr [codec_simps]: "i = length xs \<Longrightarrow> rd_u16 (xs @ wr_u16 v @ ys) i = v"
  by (simp add: rd_u16_def wr_u16_def nth_append u16_split_join)

lemma rd_u32_wr [codec_simps]: "i = length xs \<Longrightarrow> rd_u32 (xs @ wr_u32 v @ ys) i = v"
  by (simp add: rd_u32_def wr_u32_def nth_append u32_split_join)

lemma rd_u16_at:
  assumes "drop i p = wr_u16 v @ ys"
  shows "rd_u16 p i = v"
proof -
  have "length (drop i p) > 0" unfolding assms by simp
  then have "i = length (take i p)" by simp
  moreover have "p = take i p @ wr_u16 v @ ys" using append_take_drop_id [of i p] assms by simp
  ultimately show ?thesis using rd_u16_wr by metis
qed

lemma rd_u32_at:
  assumes "drop i p = wr_u32 v @ ys"
  shows "rd_u32 p i = v"
proof -
  have "length (drop i p) > 0" unfolding assms by simp
  then have "i = length (take i p)" by simp
  moreover have "p = take i p @ wr_u32 v @ ys" using append_take_drop_id [of i p] assms by simp
  ultimately show ?thesis using rd_u32_wr by metis
qed

lemma wr_u16_rd: "wr_u16 (rd_u16 p i) = [p ! i, p ! (i + 1)]"
proof -
  have "ucast (rd_u16 p i AND 0xFF) = p ! i"
    unfolding and_ff rd_u16_def by (rule bit_word_eqI) (auto simp: bit_simps)
  moreover have "ucast (drop_bit 8 (rd_u16 p i)) = p ! (i + 1)"
    unfolding rd_u16_def by (rule bit_word_eqI) (auto simp: bit_simps dest: bit_imp_le_length)
  ultimately show ?thesis by (simp add: wr_u16_def)
qed

section \<open>Exhaustive checks over a byte\<close>

lemma u8_enumerate: "list_all (\<lambda>n. P (of_nat n)) [0..<256] \<Longrightarrow> P (b :: u8)"
proof -
  assume "list_all (\<lambda>n. P (of_nat n :: u8)) [0..<256]"
  moreover have "unat b < 256" using unsigned_less [of b] by simp
  ultimately have "P (of_nat (unat b))" unfolding list_all_iff by (metis atLeast0LessThan lessThan_iff set_upt)
  then show ?thesis by simp
qed

section \<open>Signed readings\<close>

lemma sint_unat:
  assumes "unat (w :: 'a::len word) < 2 ^ (LENGTH('a) - Suc 0)"
  shows "sint w = int (unat w)"
proof -
  have "int (unat w) < int (2 ^ (LENGTH('a) - Suc 0))" using assms by (simp only: of_nat_less_iff)
  then have "uint w < 2 ^ (LENGTH('a) - Suc 0)" by simp
  then have "signed_take_bit (LENGTH('a) - Suc 0) (uint w) = uint w"
    using order_trans [of "- (2 ^ (LENGTH('a) - Suc 0))" 0 "uint w"] by (intro signed_take_bit_int_eq_self) simp_all
  then show ?thesis by (simp add: sint_uint)
qed

section \<open>Cancellation\<close>

lemma word_xor_cancel:
  "a XOR x = b XOR x \<longleftrightarrow> a = (b :: 'a::len word)"
  "x XOR a = x XOR b \<longleftrightarrow> a = b"
proof -
  have "a = b" if "a XOR x = b XOR x" for a b
    using arg_cong [OF that, of "\<lambda>w. w XOR x"] by (simp add: xor.assoc)
  then show "a XOR x = b XOR x \<longleftrightarrow> a = b" "x XOR a = x XOR b \<longleftrightarrow> a = b"
    by (auto simp: xor.commute [of x])
qed

lemma foldl_inj_start:
  assumes "\<And>a b x. f a x = f b x \<Longrightarrow> a = b"
  shows "foldl f a xs = foldl f b xs \<Longrightarrow> a = b"
proof (induction xs arbitrary: a b)
  case (Cons x xs)
  then have "f a x = f b x" by simp
  then show ?case by (rule assms)
qed simp

section \<open>Copies into the middle of a buffer\<close>

text \<open>\<open>mem_copy off data buf\<close> is \<open>memcpy(buf + off, data, length data)\<close>.\<close>

definition mem_copy :: "nat \<Rightarrow> 'a list \<Rightarrow> 'a list \<Rightarrow> 'a list" where
  "mem_copy off data buf = take off buf @ data @ drop (off + length data) buf"

lemma length_mem_copy [simp]:
  "off + length data \<le> length buf \<Longrightarrow> length (mem_copy off data buf) = length buf"
  by (simp add: mem_copy_def)

lemma take_mem_copy:
  "off + length data \<le> length buf \<Longrightarrow>
   take (off + length data) (mem_copy off data buf) = take off buf @ data"
  by (simp add: mem_copy_def)

section \<open>Ring buffers\<close>

text \<open>
  \<open>ring_list buf head n\<close>: the \<open>n\<close> elements a ring holds, oldest first, when its oldest
  element is at index \<open>head\<close>.
\<close>

definition ring_list :: "'a list \<Rightarrow> nat \<Rightarrow> nat \<Rightarrow> 'a list" where
  "ring_list buf head n = map (\<lambda>i. buf ! ((head + i) mod length buf)) [0..<n]"

lemma length_ring_list [simp]: "length (ring_list buf head n) = n"
  by (simp add: ring_list_def)

lemma ring_list_0 [simp]: "ring_list buf head 0 = []"
  by (simp add: ring_list_def)

lemma mod_add_neq:
  assumes "i < n" "n < (c::nat)"
  shows "(h + i) mod c \<noteq> (h + n) mod c"
proof
  assume "(h + i) mod c = (h + n) mod c"
  then have "(h + n - (h + i)) mod c = 0"
    by (metis mod_eq_dvd_iff_nat dvd_imp_mod_0 nat_add_left_cancel_le assms(1) less_imp_le)
  then have "(n - i) mod c = 0" by simp
  with assms show False by (simp add: mod_less)
qed

lemma ring_list_push [ring_simps]:
  assumes "n < length buf"
  shows "ring_list (buf[(head + n) mod length buf := x]) head (Suc n) = ring_list buf head n @ [x]"
proof -
  let ?c = "length buf"
  have "?c > 0" using assms by (cases buf) auto
  then have m: "(head + n) mod ?c < ?c" by simp
  have "map (\<lambda>i. buf[(head + n) mod ?c := x] ! ((head + i) mod ?c)) [0..<n]
      = map (\<lambda>i. buf ! ((head + i) mod ?c)) [0..<n]"
    using assms by (intro map_cong refl) (auto dest: mod_add_neq [of _ n ?c head] simp: nth_list_update_neq)
  then show ?thesis using m by (simp add: ring_list_def)
qed

lemma ring_list_pop:
  "ring_list buf head (Suc n) = buf ! (head mod length buf) # ring_list buf (Suc head mod length buf) n"
proof -
  have "map (\<lambda>i. buf ! ((head + i) mod length buf)) [Suc 0..<Suc n]
      = map (\<lambda>i. buf ! ((Suc head mod length buf + i) mod length buf)) [0..<n]"
    by (subst map_Suc_upt [symmetric]) (simp add: mod_add_left_eq del: upt_Suc)
  then show ?thesis by (simp add: ring_list_def upt_conv_Cons del: upt_Suc)
qed

lemma ring_list_head_mod: "ring_list buf (head mod length buf) n = ring_list buf head n"
  by (simp add: ring_list_def mod_add_left_eq)

section \<open>Round-robin scans\<close>

text \<open>
  \<open>rr_scan n cursor P\<close>: the loop \<open>for offset in 0 .. n-1\<close> that tests index
  \<open>(cursor + offset) % n\<close> and returns at the first hit.  \<open>rr_dist\<close> is how many indices the scan
  passes before it reaches a given one.
\<close>

definition rr_scan :: "nat \<Rightarrow> nat \<Rightarrow> (nat \<Rightarrow> bool) \<Rightarrow> nat option" where
  "rr_scan n cursor P = find P (map (\<lambda>offset. (cursor + offset) mod n) [0..<n])"

lemma rr_scan_SomeD:
  assumes "rr_scan n c P = Some i"
  shows "i < n \<and> P i"
proof -
  from assms obtain k where k: "k < n" "i = (c + k) mod n" "P i"
    by (auto simp: rr_scan_def find_Some_iff)
  then show ?thesis by (cases n) auto
qed

definition rr_dist :: "nat \<Rightarrow> nat \<Rightarrow> nat \<Rightarrow> nat" where
  "rr_dist n c i = (i + n - c) mod n"

lemma rr_index:
  assumes "i < n" "c < n"
  shows "(c + rr_dist n c i) mod n = i" "rr_dist n c i < n"
  using assms by (auto simp: rr_dist_def mod_add_right_eq)

lemma rr_scan_None_iff:
  assumes "c < n"
  shows "rr_scan n c P = None \<longleftrightarrow> (\<forall>i<n. \<not> P i)"
proof -
  have "(\<exists>k<n. P ((c + k) mod n)) \<longleftrightarrow> (\<exists>i<n. P i)"
    using rr_index [OF _ assms] assms by (metis mod_less_divisor not_less_zero gr0I)
  then show ?thesis by (auto simp: rr_scan_def find_None_iff)
qed

lemma rr_scan_progress:
  assumes "c < n" "i < n" "P i" "rr_scan n c P = Some j" "j \<noteq> i"
  shows "rr_dist n (Suc j mod n) i < rr_dist n c i"
proof -
  from assms(4) obtain k where k: "k < n" "j = (c + k) mod n" "P j"
     "\<forall>m<k. \<not> P ((c + m) mod n)"
    by (auto simp: rr_scan_def find_Some_iff)
  let ?d = "rr_dist n c i"
  have d: "(c + ?d) mod n = i" "?d < n" using rr_index [OF assms(2,1)] by auto
  have "k < ?d"
    using k(2,4) d assms(3,5) by (metis not_less_iff_gr_or_eq)
  have "(Suc j mod n + (?d - Suc k)) mod n = (c + k + 1 + (?d - Suc k)) mod n"
    by (simp add: k(2) mod_simps)
  also have "\<dots> = i" using \<open>k < ?d\<close> d(1) by simp
  finally have e: "(Suc j mod n + (?d - Suc k)) mod n = i" .
  have "rr_dist n (Suc j mod n) i = ?d - Suc k"
  proof -
    let ?c = "Suc j mod n"
    have "?c < n" using assms(1) by simp
    have "(?c + rr_dist n ?c i) mod n = (?c + (?d - Suc k)) mod n"
      using rr_index [OF assms(2) \<open>?c < n\<close>] e by simp
    moreover have "rr_dist n ?c i < n" "?d - Suc k < n"
      using rr_index(2) [OF assms(2) \<open>?c < n\<close>] d(2) by auto
    ultimately show ?thesis
      using mod_add_neq [of "rr_dist n ?c i" "?d - Suc k" n ?c]
            mod_add_neq [of "?d - Suc k" "rr_dist n ?c i" n ?c]
      by (metis linorder_neqE_nat)
  qed
  with \<open>k < ?d\<close> show ?thesis by simp
qed

lemma rr_scan_Some_bound: "rr_scan n c P = Some i \<Longrightarrow> i < n"
  by (simp add: rr_scan_SomeD)

end
