(* ===== verification/Interfaces.thy ===== *)
theory Interfaces
  imports Prelude
begin

text \<open>
  Interfaces that several components of the firmware implement, stated once as locales:
  a bounded first-in first-out queue and a round-robin server of pending slots.  The
  consequences clients rely on are proved here; the component theories interpret the locales on
  their own operations.
\<close>

section \<open>Bounded FIFO queues\<close>

datatype 'a fifo_op = Put 'a | Get

text \<open>
  Running a sequence of producer and consumer calls: the elements the queue accepted, the
  elements it delivered, and the final queue.
\<close>

fun fifo_run :: "('q \<Rightarrow> 'a \<Rightarrow> 'q \<times> bool) \<Rightarrow> ('q \<Rightarrow> 'q \<times> 'a option) \<Rightarrow> 'q \<Rightarrow> 'a fifo_op list
    \<Rightarrow> 'a list \<times> 'a list \<times> 'q" where
  "fifo_run put get q [] = ([], [], q)"
| "fifo_run put get q (Put x # ops) =
     (let (q', ok) = put q x; (ins, outs, r) = fifo_run put get q' ops
      in ((if ok then x # ins else ins), outs, r))"
| "fifo_run put get q (Get # ops) =
     (let (q', res) = get q; (ins, outs, r) = fifo_run put get q' ops
      in (ins, (case res of None \<Rightarrow> outs | Some y \<Rightarrow> y # outs), r))"

locale bounded_fifo =
  fixes cap :: nat
    and put :: "'q \<Rightarrow> 'a \<Rightarrow> 'q \<times> bool"
    and get :: "'q \<Rightarrow> 'q \<times> 'a option"
    and contents :: "'q \<Rightarrow> 'a list"
    and invar :: "'q \<Rightarrow> bool"
  assumes put_room: "invar q \<Longrightarrow> length (contents q) < cap \<Longrightarrow>
        snd (put q x) \<and> contents (fst (put q x)) = contents q @ [x]"
    and put_full: "invar q \<Longrightarrow> \<not> length (contents q) < cap \<Longrightarrow>
        \<not> snd (put q x) \<and> contents (fst (put q x)) = contents q"
    and get_some: "invar q \<Longrightarrow> contents q = x # xs \<Longrightarrow>
        snd (get q) = Some x \<and> contents (fst (get q)) = xs"
    and get_none: "invar q \<Longrightarrow> contents q = [] \<Longrightarrow>
        snd (get q) = None \<and> contents (fst (get q)) = []"
    and invar_put: "invar q \<Longrightarrow> invar (fst (put q x))"
    and invar_get: "invar q \<Longrightarrow> invar (fst (get q))"
begin

lemma run_order:
  "invar q \<Longrightarrow> fifo_run put get q ops = (ins, outs, r) \<Longrightarrow>
   invar r \<and> contents q @ ins = outs @ contents r"
proof (induction ops arbitrary: q ins outs r)
  case Nil
  then show ?case by simp
next
  case (Cons op ops)
  show ?case
  proof (cases op)
    case (Put x)
    obtain q' ok where p: "put q x = (q', ok)" by (cases "put q x")
    obtain ins' outs' r' where t: "fifo_run put get q' ops = (ins', outs', r')"
      by (metis prod_cases3)
    have "invar q'" using invar_put [OF Cons.prems(1), of x] p by simp
    from Cons.IH [OF this t] have ih: "invar r'" "contents q' @ ins' = outs' @ contents r'" by auto
    have "contents q' = (if ok then contents q @ [x] else contents q)"
      using put_room [OF Cons.prems(1), of x] put_full [OF Cons.prems(1), of x] p
      by (cases "length (contents q) < cap") auto
    with ih Cons.prems(2) Put p t show ?thesis by (auto split: if_splits)
  next
    case Get
    obtain q' res where p: "get q = (q', res)" by (cases "get q")
    obtain ins' outs' r' where t: "fifo_run put get q' ops = (ins', outs', r')"
      by (metis prod_cases3)
    have "invar q'" using invar_get [OF Cons.prems(1)] p by simp
    from Cons.IH [OF this t] have ih: "invar r'" "contents q' @ ins' = outs' @ contents r'" by auto
    have "contents q = (case res of None \<Rightarrow> [] | Some y \<Rightarrow> [y]) @ contents q'"
      using get_some [OF Cons.prems(1)] get_none [OF Cons.prems(1)] p
      by (cases "contents q") auto
    with ih Cons.prems(2) Get p t show ?thesis by (auto split: option.splits)
  qed
qed

end

section \<open>Round-robin service of pending slots\<close>

text \<open>
  \<open>serve s t j\<close>: one service step from \<open>s\<close> to \<open>t\<close> that serves slot \<open>j\<close>.
  \<open>rr_wait serve env i s k t\<close>: a run from \<open>s\<close> to \<open>t\<close> in which \<open>k\<close> slots were served, none of
  them slot \<open>i\<close>, with arbitrary environment steps in between.
\<close>

inductive rr_wait :: "('s \<Rightarrow> 's \<Rightarrow> nat \<Rightarrow> bool) \<Rightarrow> ('s \<Rightarrow> 's \<Rightarrow> bool) \<Rightarrow> nat \<Rightarrow> 's \<Rightarrow> nat \<Rightarrow> 's \<Rightarrow> bool"
  for serve env i where
  rr_start: "rr_wait serve env i s 0 s"
| rr_env: "rr_wait serve env i s k t \<Longrightarrow> env t u \<Longrightarrow> rr_wait serve env i s k u"
| rr_other: "rr_wait serve env i s k t \<Longrightarrow> serve t u j \<Longrightarrow> j \<noteq> i \<Longrightarrow> rr_wait serve env i s (Suc k) u"

lemma rr_first: "serve s t j \<Longrightarrow> j \<noteq> i \<Longrightarrow> rr_wait serve env i s (Suc 0) t"
  using rr_other [OF rr_start, of serve s t j i env] .

locale round_robin =
  fixes slots :: nat
    and pending :: "'s \<Rightarrow> nat \<Rightarrow> bool"
    and cursor :: "'s \<Rightarrow> nat"
    and serve :: "'s \<Rightarrow> 's \<Rightarrow> nat \<Rightarrow> bool"
    and env :: "'s \<Rightarrow> 's \<Rightarrow> bool"
    and invar :: "'s \<Rightarrow> bool"
  assumes serve_scan: "invar s \<Longrightarrow> serve s t j \<Longrightarrow> rr_scan slots (cursor s) (pending s) = Some j"
    and serve_enabled: "invar s \<Longrightarrow> rr_scan slots (cursor s) (pending s) = Some j \<Longrightarrow> \<exists>t. serve s t j"
    and serve_cursor: "invar s \<Longrightarrow> serve s t j \<Longrightarrow> cursor t = Suc j mod slots"
    and serve_keeps: "invar s \<Longrightarrow> serve s t j \<Longrightarrow> i \<noteq> j \<Longrightarrow> i < slots \<Longrightarrow> pending s i \<Longrightarrow> pending t i"
    and invar_serve: "invar s \<Longrightarrow> serve s t j \<Longrightarrow> invar t"
    and cursor_bound: "invar s \<Longrightarrow> cursor s < slots"
    and env_cursor: "invar s \<Longrightarrow> env s t \<Longrightarrow> cursor t = cursor s"
    and env_keeps: "invar s \<Longrightarrow> env s t \<Longrightarrow> i < slots \<Longrightarrow> pending s i \<Longrightarrow> pending t i"
    and invar_env: "invar s \<Longrightarrow> env s t \<Longrightarrow> invar t"
begin

lemma wait_bound:
  assumes "rr_wait serve env i s k t" "invar s" "i < slots" "pending s i"
  shows "invar t \<and> pending t i \<and> rr_dist slots (cursor t) i + k \<le> rr_dist slots (cursor s) i"
  using assms
proof (induction rule: rr_wait.induct)
  case (rr_start s)
  then show ?case by simp
next
  case (rr_env s k t u)
  then show ?case
    using env_cursor [of t u] env_keeps [of t u i] invar_env [of t u] by auto
next
  case (rr_other s k t u j)
  then have t: "invar t" "pending t i"
      "rr_dist slots (cursor t) i + k \<le> rr_dist slots (cursor s) i" by auto
  note scan = serve_scan [OF t(1) rr_other.hyps(2)]
  have "rr_dist slots (Suc j mod slots) i < rr_dist slots (cursor t) i"
    using rr_scan_progress [OF cursor_bound [OF t(1)] rr_other.prems(2), of "pending t", OF t(2) scan]
      rr_other.hyps(3) by simp
  moreover have "invar u" "pending u i" "cursor u = Suc j mod slots"
    using invar_serve [OF t(1) rr_other.hyps(2)]
      serve_keeps [OF t(1) rr_other.hyps(2) _ rr_other.prems(2) t(2)]
      serve_cursor [OF t(1) rr_other.hyps(2)] rr_other.hyps(3) by auto
  ultimately show ?case using t(3) by simp
qed

text \<open>A pending slot is served after at most \<open>slots - 1\<close> services of other slots.\<close>

lemma bounded_waiting:
  assumes "rr_wait serve env i s k t" "invar s" "i < slots" "pending s i"
  shows "k < slots"
proof -
  have "rr_dist slots (cursor s) i < slots"
    using rr_index(2) [OF assms(3) cursor_bound [OF assms(2)]] .
  with wait_bound [OF assms] show ?thesis by simp
qed

text \<open>While some slot is pending, a service step is possible.\<close>

lemma not_stuck:
  assumes "invar s" "i < slots" "pending s i"
  shows "\<exists>t j. serve s t j"
proof -
  have "rr_scan slots (cursor s) (pending s) \<noteq> None"
    using rr_scan_None_iff [OF cursor_bound [OF assms(1)], of "pending s"] assms(2,3) by auto
  then show ?thesis using serve_enabled [OF assms(1)] by blast
qed

end

section \<open>Frame streams\<close>

text \<open>
  A byte-wise receiver: \<open>step\<close> consumes one byte and may report something.  \<open>rx_run\<close> feeds a list of
  bytes and collects the reports.
\<close>

fun rx_run :: "('s \<Rightarrow> 'b \<Rightarrow> 's \<times> 'r option) \<Rightarrow> 's \<Rightarrow> 'b list \<Rightarrow> 's \<times> 'r list" where
  "rx_run step s [] = (s, [])"
| "rx_run step s (b # bs) =
     (let (s1, r) = step s b; (s2, rs) = rx_run step s1 bs
      in (s2, (case r of None \<Rightarrow> rs | Some x \<Rightarrow> x # rs)))"

lemma rx_run_append:
  "rx_run step s (xs @ ys) =
     (let (s1, rs) = rx_run step s xs; (s2, rs') = rx_run step s1 ys in (s2, rs @ rs'))"
  by (induction xs arbitrary: s) (auto simp: Let_def split: prod.splits option.splits)

locale frame_stream =
  fixes step :: "'s \<Rightarrow> 'b \<Rightarrow> 's \<times> 'r option"
    and idle :: "'s \<Rightarrow> bool"
    and wire :: "'f \<Rightarrow> 'b list"
    and report :: "'f \<Rightarrow> 'r"
    and frame :: "'f \<Rightarrow> bool"
  assumes one_frame: "idle s \<Longrightarrow> frame f \<Longrightarrow> \<exists>s'. rx_run step s (wire f) = (s', [report f]) \<and> idle s'"
begin

text \<open>Frames sent back to back are reported exactly once each, in order.\<close>

lemma stream_exact:
  "idle s \<Longrightarrow> (\<forall>f \<in> set fs. frame f) \<Longrightarrow>
   \<exists>s'. rx_run step s (concat (map wire fs)) = (s', map report fs) \<and> idle s'"
proof (induction fs arbitrary: s)
  case (Cons f fs)
  obtain s1 where s1: "rx_run step s (wire f) = (s1, [report f])" "idle s1"
    using one_frame [OF Cons.prems(1), of f] Cons.prems(2) by auto
  obtain s2 where s2: "rx_run step s1 (concat (map wire fs)) = (s2, map report fs)" "idle s2"
    using Cons.IH [OF s1(2)] Cons.prems(2) by auto
  show ?case using s1(1) s2 by (simp add: rx_run_append)
qed simp

end

end
