(* ===== verification/Event_Scheduler.thy ===== *)
theory Event_Scheduler
  imports Interfaces
begin

text \<open>
  The control event scheduler shared by both boards
  (\<open>common/control_event_scheduler\<close>): a 32-entry FIFO for discrete commands and 32
  coalescing slots for continuous controls, served round robin.  The C functions begin with NULL
  checks on their pointer arguments; here the arguments are values, so those branches are absent.
  Statistics counters are \<open>uint32_t\<close> and wrap.
\<close>

section \<open>State and operations\<close>

abbreviation (input) CONTROL_EVENT_FIFO_CAPACITY :: nat where "CONTROL_EVENT_FIFO_CAPACITY \<equiv> 32"
abbreviation (input) CONTROL_EVENT_CONTINUOUS_CAPACITY :: nat where "CONTROL_EVENT_CONTINUOUS_CAPACITY \<equiv> 32"

record control_scheduled_event =
  cse_type :: u8
  cse_id :: u8
  cse_value :: i16

datatype control_event_continuous_mode = CONTROL_EVENT_LATEST_VALUE | CONTROL_EVENT_ACCUMULATE_DELTA

record control_event_scheduler_stats =
  fifo_full :: u32
  continuous_coalesced :: u32
  continuous_slot_full :: u32
  jog_saturated :: u32
  max_fifo_depth :: u32

record control_event_continuous_slot =
  slot_assigned :: bool
  slot_dirty :: bool
  slot_event :: control_scheduled_event

record control_event_scheduler =
  fifo :: "control_scheduled_event list"
  fifo_head :: nat
  fifo_tail :: nat
  fifo_count :: nat
  continuous :: "control_event_continuous_slot list"
  continuous_cursor :: nat
  sched_stats :: control_event_scheduler_stats

definition zero_scheduled_event :: control_scheduled_event where
  "zero_scheduled_event = \<lparr>cse_type = 0, cse_id = 0, cse_value = 0\<rparr>"

definition control_event_scheduler_reset :: control_event_scheduler where
  "control_event_scheduler_reset =
     \<lparr>fifo = replicate CONTROL_EVENT_FIFO_CAPACITY zero_scheduled_event,
      fifo_head = 0, fifo_tail = 0, fifo_count = 0,
      continuous = replicate CONTROL_EVENT_CONTINUOUS_CAPACITY
        \<lparr>slot_assigned = False, slot_dirty = False, slot_event = zero_scheduled_event\<rparr>,
      continuous_cursor = 0,
      sched_stats = \<lparr>fifo_full = 0, continuous_coalesced = 0, continuous_slot_full = 0,
                     jog_saturated = 0, max_fifo_depth = 0\<rparr>\<rparr>"

definition control_event_scheduler_enqueue_discrete ::
    "control_event_scheduler \<Rightarrow> control_scheduled_event \<Rightarrow> control_event_scheduler \<times> bool" where
  "control_event_scheduler_enqueue_discrete s ev =
     (if fifo_count s \<ge> CONTROL_EVENT_FIFO_CAPACITY then
        (s\<lparr>sched_stats := (sched_stats s)\<lparr>fifo_full := fifo_full (sched_stats s) + 1\<rparr>\<rparr>, False)
      else
        let s1 = s\<lparr>fifo := (fifo s)[fifo_tail s := ev],
                   fifo_tail := (fifo_tail s + 1) mod CONTROL_EVENT_FIFO_CAPACITY,
                   fifo_count := fifo_count s + 1\<rparr>;
            s2 = (if fifo_count s1 > unat (max_fifo_depth (sched_stats s1))
                  then s1\<lparr>sched_stats := (sched_stats s1)\<lparr>max_fifo_depth := of_nat (fifo_count s1)\<rparr>\<rparr>
                  else s1)
        in (s2, True))"

definition control_event_scheduler_dequeue_discrete ::
    "control_event_scheduler \<Rightarrow> control_event_scheduler \<times> control_scheduled_event option" where
  "control_event_scheduler_dequeue_discrete s =
     (if fifo_count s = 0 then (s, None)
      else (s\<lparr>fifo_head := (fifo_head s + 1) mod CONTROL_EVENT_FIFO_CAPACITY,
              fifo_count := fifo_count s - 1\<rparr>,
            Some (fifo s ! fifo_head s)))"

definition same_key :: "control_scheduled_event \<Rightarrow> control_scheduled_event \<Rightarrow> bool" where
  "same_key a b \<longleftrightarrow> cse_type a = cse_type b \<and> cse_id a = cse_id b"

text \<open>The search loop: return the slot assigned to the event's key, else the first free slot.\<close>

fun find_continuous_slot ::
    "control_event_continuous_slot list \<Rightarrow> nat \<Rightarrow> nat option \<Rightarrow> control_scheduled_event \<Rightarrow> nat option" where
  "find_continuous_slot [] i free_slot ev = free_slot"
| "find_continuous_slot (slot # rest) i free_slot ev =
     (if slot_assigned slot \<and> same_key (slot_event slot) ev then Some i
      else find_continuous_slot rest (Suc i)
             (if \<not> slot_assigned slot \<and> free_slot = None then Some i else free_slot) ev)"

definition control_event_scheduler_publish_continuous ::
    "control_event_scheduler \<Rightarrow> control_scheduled_event \<Rightarrow> control_event_continuous_mode
     \<Rightarrow> control_event_scheduler \<times> bool" where
  "control_event_scheduler_publish_continuous s ev mode =
     (case find_continuous_slot (continuous s) 0 None ev of
        None \<Rightarrow> (s\<lparr>sched_stats := (sched_stats s)
                   \<lparr>continuous_slot_full := continuous_slot_full (sched_stats s) + 1\<rparr>\<rparr>, False)
      | Some k \<Rightarrow>
          let slot = continuous s ! k;
              fresh = \<lparr>slot_assigned = True, slot_dirty = True, slot_event = ev\<rparr> in
          if \<not> slot_assigned slot then (s\<lparr>continuous := (continuous s)[k := fresh]\<rparr>, True)
          else if \<not> slot_dirty slot then (s\<lparr>continuous := (continuous s)[k := fresh]\<rparr>, True)
          else
            let st = (sched_stats s)\<lparr>continuous_coalesced := continuous_coalesced (sched_stats s) + 1\<rparr> in
            (case mode of
               CONTROL_EVENT_ACCUMULATE_DELTA \<Rightarrow>
                 let sum = sint (cse_value (slot_event slot)) + sint (cse_value ev);
                     v = (if sum > INT16_MAX then 32767 else if sum < INT16_MIN then -32768
                          else word_of_int sum :: i16);
                     st' = (if sum > INT16_MAX \<or> sum < INT16_MIN
                            then st\<lparr>jog_saturated := jog_saturated st + 1\<rparr> else st)
                 in (s\<lparr>continuous := (continuous s)[k := slot\<lparr>slot_event := (slot_event slot)\<lparr>cse_value := v\<rparr>,
                                                      slot_dirty := True\<rparr>],
                       sched_stats := st'\<rparr>, True)
             | CONTROL_EVENT_LATEST_VALUE \<Rightarrow>
                 (s\<lparr>continuous := (continuous s)[k := slot\<lparr>slot_event := ev, slot_dirty := True\<rparr>],
                    sched_stats := st\<rparr>, True)))"

definition slot_pending :: "control_event_scheduler \<Rightarrow> nat \<Rightarrow> bool" where
  "slot_pending s i \<longleftrightarrow> slot_assigned (continuous s ! i) \<and> slot_dirty (continuous s ! i)"

definition control_event_scheduler_take_continuous ::
    "control_event_scheduler \<Rightarrow> control_event_scheduler \<times> control_scheduled_event option" where
  "control_event_scheduler_take_continuous s =
     (case rr_scan CONTROL_EVENT_CONTINUOUS_CAPACITY (continuous_cursor s) (slot_pending s) of
        None \<Rightarrow> (s, None)
      | Some i \<Rightarrow>
          (s\<lparr>continuous := (continuous s)[i := (continuous s ! i)\<lparr>slot_dirty := False\<rparr>],
             continuous_cursor := (i + 1) mod CONTROL_EVENT_CONTINUOUS_CAPACITY\<rparr>,
           Some (slot_event (continuous s ! i))))"

definition control_event_scheduler_get_stats :: "control_event_scheduler \<Rightarrow> control_event_scheduler_stats" where
  "control_event_scheduler_get_stats s = sched_stats s"

section \<open>Invariant\<close>

definition fifo_inv :: "control_event_scheduler \<Rightarrow> bool" where
  "fifo_inv s \<longleftrightarrow> length (fifo s) = 32 \<and> fifo_head s < 32 \<and> fifo_tail s < 32 \<and> fifo_count s \<le> 32 \<and>
     fifo_tail s = (fifo_head s + fifo_count s) mod 32"

definition slots_inv :: "control_event_scheduler \<Rightarrow> bool" where
  "slots_inv s \<longleftrightarrow> length (continuous s) = 32 \<and> continuous_cursor s < 32 \<and>
     (\<forall>i < 32. \<forall>j < 32. slot_assigned (continuous s ! i) \<longrightarrow> slot_assigned (continuous s ! j) \<longrightarrow>
        same_key (slot_event (continuous s ! i)) (slot_event (continuous s ! j)) \<longrightarrow> i = j)"

definition sched_inv :: "control_event_scheduler \<Rightarrow> bool" where
  "sched_inv s \<longleftrightarrow> fifo_inv s \<and> slots_inv s"

definition fifo_contents :: "control_event_scheduler \<Rightarrow> control_scheduled_event list" where
  "fifo_contents s = ring_list (fifo s) (fifo_head s) (fifo_count s)"

lemmas sched_defs =
  control_event_scheduler_enqueue_discrete_def control_event_scheduler_dequeue_discrete_def
  control_event_scheduler_publish_continuous_def control_event_scheduler_take_continuous_def

lemma sched_inv_reset: "sched_inv control_event_scheduler_reset"
  by (auto simp: sched_inv_def fifo_inv_def slots_inv_def control_event_scheduler_reset_def)

subsection \<open>The discrete FIFO\<close>

lemma enqueue_slots [simp]:
  "continuous (fst (control_event_scheduler_enqueue_discrete s ev)) = continuous s"
  "continuous_cursor (fst (control_event_scheduler_enqueue_discrete s ev)) = continuous_cursor s"
  by (auto simp: sched_defs Let_def)

lemma dequeue_slots [simp]:
  "continuous (fst (control_event_scheduler_dequeue_discrete s)) = continuous s"
  "continuous_cursor (fst (control_event_scheduler_dequeue_discrete s)) = continuous_cursor s"
  by (auto simp: sched_defs)

lemma enqueue_room:
  assumes "fifo_inv s" "length (fifo_contents s) < 32"
  shows "snd (control_event_scheduler_enqueue_discrete s ev) \<and>
         fifo_contents (fst (control_event_scheduler_enqueue_discrete s ev)) = fifo_contents s @ [ev]"
  using assms ring_list_push [of "fifo_count s" "fifo s" "fifo_head s" ev]
  by (auto simp: sched_defs fifo_inv_def fifo_contents_def Let_def)

lemma enqueue_full:
  assumes "\<not> length (fifo_contents s) < 32"
  shows "\<not> snd (control_event_scheduler_enqueue_discrete s ev) \<and>
         fifo_contents (fst (control_event_scheduler_enqueue_discrete s ev)) = fifo_contents s"
  using assms by (auto simp: sched_defs fifo_contents_def)

lemma dequeue_contents:
  assumes "fifo_inv s"
  shows "fifo_contents s = (case snd (control_event_scheduler_dequeue_discrete s) of
           None \<Rightarrow> [] | Some e \<Rightarrow> [e]) @ fifo_contents (fst (control_event_scheduler_dequeue_discrete s))"
proof (cases "fifo_count s")
  case 0
  then show ?thesis by (simp add: sched_defs fifo_contents_def)
next
  case (Suc n)
  then show ?thesis
    using assms ring_list_pop [of "fifo s" "fifo_head s" n]
    by (simp add: sched_defs fifo_contents_def fifo_inv_def)
qed

lemma fifo_inv_enqueue: "fifo_inv s \<Longrightarrow> fifo_inv (fst (control_event_scheduler_enqueue_discrete s ev))"
  by (auto simp: fifo_inv_def sched_defs Let_def mod_simps)

lemma fifo_inv_dequeue:
  assumes "fifo_inv s"
  shows "fifo_inv (fst (control_event_scheduler_dequeue_discrete s))"
proof (cases "fifo_count s")
  case 0
  then show ?thesis using assms by (simp add: sched_defs)
next
  case (Suc n)
  then show ?thesis using assms by (simp add: fifo_inv_def sched_defs mod_simps)
qed

interpretation discrete_fifo: bounded_fifo 32
    control_event_scheduler_enqueue_discrete control_event_scheduler_dequeue_discrete
    fifo_contents fifo_inv
proof unfold_locales
  fix q :: control_event_scheduler and x :: control_scheduled_event and xs
  show "fifo_inv q \<Longrightarrow> length (fifo_contents q) < 32 \<Longrightarrow>
      snd (control_event_scheduler_enqueue_discrete q x) \<and>
      fifo_contents (fst (control_event_scheduler_enqueue_discrete q x)) = fifo_contents q @ [x]"
    by (rule enqueue_room)
  show "fifo_inv q \<Longrightarrow> \<not> length (fifo_contents q) < 32 \<Longrightarrow>
      \<not> snd (control_event_scheduler_enqueue_discrete q x) \<and>
      fifo_contents (fst (control_event_scheduler_enqueue_discrete q x)) = fifo_contents q"
    by (rule enqueue_full)
  show "fifo_inv q \<Longrightarrow> fifo_contents q = x # xs \<Longrightarrow>
      snd (control_event_scheduler_dequeue_discrete q) = Some x \<and>
      fifo_contents (fst (control_event_scheduler_dequeue_discrete q)) = xs"
    using dequeue_contents [of q]
    by (auto split: option.splits simp: fifo_contents_def sched_defs split: if_splits)
  show "fifo_inv q \<Longrightarrow> fifo_contents q = [] \<Longrightarrow>
      snd (control_event_scheduler_dequeue_discrete q) = None \<and>
      fifo_contents (fst (control_event_scheduler_dequeue_discrete q)) = []"
    using dequeue_contents [of q] by (auto split: option.splits)
qed (auto intro: fifo_inv_enqueue fifo_inv_dequeue)

subsection \<open>The continuous slots\<close>

text \<open>
  Abstractly the slots are a partial map from control keys to the value still to be delivered.
\<close>

definition event_key :: "control_scheduled_event \<Rightarrow> u8 \<times> u8" where
  "event_key ev = (cse_type ev, cse_id ev)"

definition pending_map :: "control_event_scheduler \<Rightarrow> u8 \<times> u8 \<Rightarrow> i16 option" where
  "pending_map s key = map_option (\<lambda>slot. cse_value (slot_event slot))
     (find (\<lambda>slot. slot_assigned slot \<and> slot_dirty slot \<and> event_key (slot_event slot) = key) (continuous s))"

definition sat_add16 :: "i16 \<Rightarrow> i16 \<Rightarrow> i16" where
  "sat_add16 a b = word_of_int (max INT16_MIN (min INT16_MAX (sint a + sint b)))"

definition key_assigned :: "control_event_scheduler \<Rightarrow> u8 \<times> u8 \<Rightarrow> bool" where
  "key_assigned s key \<longleftrightarrow> (\<exists>i < 32. slot_assigned (continuous s ! i) \<and> event_key (slot_event (continuous s ! i)) = key)"

lemma same_key_iff: "same_key a b \<longleftrightarrow> event_key a = event_key b"
  by (simp add: same_key_def event_key_def)

lemma find_slot_Some:
  "find_continuous_slot ss i fr ev = Some m \<Longrightarrow>
     (\<exists>k < length ss. m = i + k \<and> slot_assigned (ss ! k) \<and> same_key (slot_event (ss ! k)) ev) \<or>
     (\<forall>k < length ss. \<not> (slot_assigned (ss ! k) \<and> same_key (slot_event (ss ! k)) ev)) \<and>
     (fr = Some m \<or> fr = None \<and> (\<exists>k < length ss. m = i + k \<and> \<not> slot_assigned (ss ! k)))"
proof (induction ss i fr ev rule: find_continuous_slot.induct)
  case (1 i fr ev)
  then show ?case by simp
next
  case (2 slot rest i fr ev)
  show ?case
  proof (cases "slot_assigned slot \<and> same_key (slot_event slot) ev")
    case True
    with "2.prems" show ?thesis by (intro disjI1 exI [of _ 0]) simp
  next
    case False
    let ?fr = "if \<not> slot_assigned slot \<and> fr = None then Some i else fr"
    have "find_continuous_slot rest (Suc i) ?fr ev = Some m"
      using "2.prems" unfolding find_continuous_slot.simps if_not_P [OF False] .
    from "2.IH" [OF False this]
    consider k where "k < length rest" "m = Suc i + k" "slot_assigned (rest ! k)"
        "same_key (slot_event (rest ! k)) ev"
      | "\<forall>k < length rest. \<not> (slot_assigned (rest ! k) \<and> same_key (slot_event (rest ! k)) ev)"
        "?fr = Some m \<or> ?fr = None \<and> (\<exists>k < length rest. m = Suc i + k \<and> \<not> slot_assigned (rest ! k))"
      by blast
    then show ?thesis
    proof cases
      case 1
      then show ?thesis by (intro disjI1 exI [of _ "Suc k"]) simp
    next
      case 2
      have "\<forall>k < length (slot # rest). \<not> (slot_assigned ((slot # rest) ! k) \<and>
              same_key (slot_event ((slot # rest) ! k)) ev)"
        using False 2(1) by (auto simp: nth_Cons split: nat.splits)
      moreover have "fr = Some m \<or> fr = None \<and>
          (\<exists>k < length (slot # rest). m = i + k \<and> \<not> slot_assigned ((slot # rest) ! k))"
        using 2(2) by (auto split: if_splits intro: exI [of _ 0] exI [of _ "Suc _"])
      ultimately show ?thesis by blast
    qed
  qed
qed

lemma find_slot_None:
  "find_continuous_slot ss i fr ev = None \<Longrightarrow>
     fr = None \<and> (\<forall>k < length ss. slot_assigned (ss ! k) \<and> \<not> same_key (slot_event (ss ! k)) ev)"
proof (induction ss i fr ev rule: find_continuous_slot.induct)
  case (1 i fr ev)
  then show ?case by simp
next
  case (2 slot rest i fr ev)
  then show ?case by (auto simp: nth_Cons split: nat.splits if_splits)
qed

lemma slots_inv_unique:
  assumes "slots_inv s" "i < 32" "j < 32" "slot_assigned (continuous s ! i)" "slot_assigned (continuous s ! j)"
    and "event_key (slot_event (continuous s ! i)) = event_key (slot_event (continuous s ! j))"
  shows "i = j"
  using assms by (simp add: slots_inv_def same_key_iff)

lemma pending_map_Some:
  assumes "slots_inv s" "k < 32" "slot_pending s k" "event_key (slot_event (continuous s ! k)) = key"
  shows "pending_map s key = Some (cse_value (slot_event (continuous s ! k)))"
proof -
  let ?P = "\<lambda>slot. slot_assigned slot \<and> slot_dirty slot \<and> event_key (slot_event slot) = key"
  have "find ?P (continuous s) = Some (continuous s ! k)"
    unfolding find_Some_iff
  proof (rule exI [of _ k], intro conjI allI impI)
    fix j assume "j < k"
    then show "\<not> ?P (continuous s ! j)" using assms slots_inv_unique [OF assms(1), of j k]
      by (auto simp: slot_pending_def)
  qed (use assms in \<open>auto simp: slots_inv_def slot_pending_def\<close>)
  then show ?thesis by (simp add: pending_map_def)
qed

lemma pending_map_None:
  assumes "slots_inv s" "\<And>k. k < 32 \<Longrightarrow> slot_pending s k \<Longrightarrow> event_key (slot_event (continuous s ! k)) \<noteq> key"
  shows "pending_map s key = None"
  using assms by (auto simp: pending_map_def find_None_iff slots_inv_def slot_pending_def in_set_conv_nth)

lemma pending_map_cases:
  assumes "slots_inv s"
  obtains (pending) k where "k < 32" "slot_pending s k" "event_key (slot_event (continuous s ! k)) = key"
      "pending_map s key = Some (cse_value (slot_event (continuous s ! k)))"
    | (idle) "pending_map s key = None"
      "\<And>k. k < 32 \<Longrightarrow> slot_pending s k \<Longrightarrow> event_key (slot_event (continuous s ! k)) \<noteq> key"
  using pending_map_Some [OF assms] pending_map_None [OF assms] by metis

text \<open>Replacing slot \<open>k\<close> by a slot for a key no other slot is assigned to.\<close>

lemma slots_inv_update:
  assumes "slots_inv s" "k < 32" "slot_assigned slot"
    and "\<And>j. j < 32 \<Longrightarrow> j \<noteq> k \<Longrightarrow> slot_assigned (continuous s ! j) \<Longrightarrow>
           event_key (slot_event (continuous s ! j)) \<noteq> event_key (slot_event slot)"
    and "continuous s' = (continuous s)[k := slot]" "continuous_cursor s' < 32"
  shows "slots_inv s'"
  using assms assms(4) [symmetric] by (auto simp: slots_inv_def nth_list_update same_key_iff)

lemma pending_map_update:
  assumes inv: "slots_inv s" and k: "k < 32" "slot_assigned slot"
    and uniq: "\<And>j. j < 32 \<Longrightarrow> j \<noteq> k \<Longrightarrow> slot_assigned (continuous s ! j) \<Longrightarrow>
           event_key (slot_event (continuous s ! j)) \<noteq> event_key (slot_event slot)"
    and old: "slot_assigned (continuous s ! k) \<Longrightarrow>
           event_key (slot_event (continuous s ! k)) = event_key (slot_event slot)"
    and s': "continuous s' = (continuous s)[k := slot]" "continuous_cursor s' < 32"
  shows "pending_map s' = (pending_map s)(event_key (slot_event slot) :=
           (if slot_dirty slot then Some (cse_value (slot_event slot)) else None))"
proof
  fix key
  have inv': "slots_inv s'" by (rule slots_inv_update [OF inv k uniq s'])
  have len: "length (continuous s) = 32" using inv by (simp add: slots_inv_def)
  have other: "j \<noteq> k \<Longrightarrow> slot_pending s' j = slot_pending s j \<and> continuous s' ! j = continuous s ! j" for j
    using s' by (simp add: slot_pending_def)
  have this_slot: "continuous s' ! k = slot" using s' k len by simp
  show "pending_map s' key = ((pending_map s)(event_key (slot_event slot) :=
           (if slot_dirty slot then Some (cse_value (slot_event slot)) else None))) key"
  proof (cases "key = event_key (slot_event slot)")
    case True
    show ?thesis
    proof (cases "slot_dirty slot")
      case d: True
      with True this_slot k pending_map_Some [OF inv' k(1), of key] show ?thesis
        by (simp add: slot_pending_def)
    next
      case False
      have "pending_map s' key = None"
      proof (rule pending_map_None [OF inv'])
        fix j assume "j < 32" "slot_pending s' j"
        with False this_slot other [of j] uniq [of j] True
        show "event_key (slot_event (continuous s' ! j)) \<noteq> key"
          by (cases "j = k") (auto simp: slot_pending_def)
      qed
      with False True show ?thesis by simp
    qed
  next
    case False
    from inv show ?thesis
    proof (cases rule: pending_map_cases [where key = key])
      case (pending j)
      then have "j \<noteq> k" using old False by (auto simp: slot_pending_def)
      with pending other [of j] pending_map_Some [OF inv', of j key] False show ?thesis by simp
    next
      case idle
      have "pending_map s' key = None"
      proof (rule pending_map_None [OF inv'])
        fix j assume "j < 32" "slot_pending s' j"
        with idle(2) other [of j] this_slot False
        show "event_key (slot_event (continuous s' ! j)) \<noteq> key" by (cases "j = k") auto
      qed
      with idle(1) False show ?thesis by simp
    qed
  qed
qed

text \<open>
  The slot the search returns is either the key's own slot or a free one, and it is the only slot
  that may hold the key.
\<close>

lemma found_slot:
  assumes "slots_inv s" "find_continuous_slot (continuous s) 0 None ev = Some k"
  shows "k < 32"
    and "slot_assigned (continuous s ! k) \<Longrightarrow> event_key (slot_event (continuous s ! k)) = event_key ev"
    and "\<And>j. j < 32 \<Longrightarrow> j \<noteq> k \<Longrightarrow> slot_assigned (continuous s ! j) \<Longrightarrow>
           event_key (slot_event (continuous s ! j)) \<noteq> event_key ev"
proof -
  have len: "length (continuous s) = 32" using assms(1) by (simp add: slots_inv_def)
  consider "k < 32" "slot_assigned (continuous s ! k)" "event_key (slot_event (continuous s ! k)) = event_key ev"
    | "k < 32" "\<not> slot_assigned (continuous s ! k)"
      "\<forall>j < 32. \<not> (slot_assigned (continuous s ! j) \<and> event_key (slot_event (continuous s ! j)) = event_key ev)"
    using find_slot_Some [OF assms(2)] len by (auto simp: same_key_iff)
  then show "k < 32"
    and "slot_assigned (continuous s ! k) \<Longrightarrow> event_key (slot_event (continuous s ! k)) = event_key ev"
    and "\<And>j. j < 32 \<Longrightarrow> j \<noteq> k \<Longrightarrow> slot_assigned (continuous s ! j) \<Longrightarrow>
           event_key (slot_event (continuous s ! j)) \<noteq> event_key ev"
    by (cases; use slots_inv_unique [OF assms(1)] in auto)+
qed

lemma saturation_value:
  "(if x > INT16_MAX then 32767 else if x < INT16_MIN then -32768 else word_of_int x :: i16)
   = word_of_int (max INT16_MIN (min INT16_MAX x))"
  by (auto simp: min_def max_def)

text \<open>
  What a publication leaves in the slots: one slot was replaced by an assigned dirty slot for the
  event's key, holding the value the mode prescribes.
\<close>

lemma publish_slot:
  assumes "slots_inv s" "control_event_scheduler_publish_continuous s ev mode = (s', True)"
  obtains k slot where "find_continuous_slot (continuous s) 0 None ev = Some k"
    "continuous s' = (continuous s)[k := slot]" "continuous_cursor s' = continuous_cursor s"
    "fifo s' = fifo s" "fifo_head s' = fifo_head s" "fifo_tail s' = fifo_tail s" "fifo_count s' = fifo_count s"
    "slot_assigned slot" "slot_dirty slot" "event_key (slot_event slot) = event_key ev"
    "cse_value (slot_event slot) =
       (if slot_pending s k \<and> mode = CONTROL_EVENT_ACCUMULATE_DELTA
        then sat_add16 (cse_value (slot_event (continuous s ! k))) (cse_value ev) else cse_value ev)"
proof -
  from assms(2) obtain k where k: "find_continuous_slot (continuous s) 0 None ev = Some k"
    by (auto simp: sched_defs split: option.splits)
  note f = found_slot(2) [OF assms(1) k]
  let ?old = "continuous s ! k"
  let ?v = "if slot_pending s k \<and> mode = CONTROL_EVENT_ACCUMULATE_DELTA
        then sat_add16 (cse_value (slot_event ?old)) (cse_value ev) else cse_value ev"
  let ?slot = "\<lparr>slot_assigned = True, slot_dirty = True,
     slot_event = \<lparr>cse_type = cse_type ev, cse_id = cse_id ev, cse_value = ?v\<rparr>\<rparr>"
  have ev: "\<lparr>cse_type = cse_type ev, cse_id = cse_id ev, cse_value = cse_value ev\<rparr> = ev" by simp
  have shape: "continuous s' = (continuous s)[k := ?slot] \<and> continuous_cursor s' = continuous_cursor s \<and>
      fifo s' = fifo s \<and> fifo_head s' = fifo_head s \<and> fifo_tail s' = fifo_tail s \<and> fifo_count s' = fifo_count s"
  proof (cases "slot_pending s k")
    case False
    with assms(2) k show ?thesis
      by (auto simp: sched_defs slot_pending_def Let_def ev split: if_splits)
  next
    case True
    then have e: "cse_type (slot_event ?old) = cse_type ev" "cse_id (slot_event ?old) = cse_id ev"
      using f by (auto simp: slot_pending_def event_key_def)
    show ?thesis
    proof (cases mode)
      case CONTROL_EVENT_LATEST_VALUE
      with True assms(2) k show ?thesis
        by (auto simp: sched_defs slot_pending_def Let_def intro!: arg_cong [where f = "list_update _ _"])
    next
      case CONTROL_EVENT_ACCUMULATE_DELTA
      have "?old\<lparr>slot_event := (slot_event ?old)\<lparr>cse_value := v\<rparr>, slot_dirty := True\<rparr> =
          \<lparr>slot_assigned = True, slot_dirty = True, slot_event = \<lparr>cse_type = cse_type ev, cse_id = cse_id ev, cse_value = v\<rparr>\<rparr>" for v
        using True e by (simp add: slot_pending_def)
      with CONTROL_EVENT_ACCUMULATE_DELTA True assms(2) k show ?thesis
        unfolding sched_defs Let_def saturation_value
        by (auto simp: slot_pending_def sat_add16_def split: if_splits)
    qed
  qed
  show ?thesis
    by (rule that [OF k, of ?slot]) (use shape in \<open>auto simp: event_key_def\<close>)
qed

lemma sched_inv_publish:
  assumes "sched_inv s"
  shows "sched_inv (fst (control_event_scheduler_publish_continuous s ev mode))"
proof -
  have si: "slots_inv s" "fifo_inv s" using assms by (auto simp: sched_inv_def)
  obtain s' ok where p: "control_event_scheduler_publish_continuous s ev mode = (s', ok)"
    by (cases "control_event_scheduler_publish_continuous s ev mode")
  show ?thesis
  proof (cases ok)
    case True
    with p have "control_event_scheduler_publish_continuous s ev mode = (s', True)" by simp
    from publish_slot [OF si(1) this] obtain k slot where
      k: "find_continuous_slot (continuous s) 0 None ev = Some k"
      "continuous s' = (continuous s)[k := slot]" "continuous_cursor s' = continuous_cursor s"
      "fifo s' = fifo s" "fifo_head s' = fifo_head s" "fifo_tail s' = fifo_tail s" "fifo_count s' = fifo_count s"
      "slot_assigned slot" "event_key (slot_event slot) = event_key ev" .
    have "slots_inv s'"
      using found_slot(1,3) [OF si(1) k(1)] k(2,3,8,9) si(1)
      by (intro slots_inv_update [OF si(1), of k slot s']) (auto simp: slots_inv_def)
    with k si(2) p show ?thesis by (simp add: sched_inv_def fifo_inv_def)
  next
    case False
    with p si show ?thesis
      by (auto simp: sched_defs sched_inv_def slots_inv_def fifo_inv_def Let_def
               split: option.splits if_splits control_event_continuous_mode.splits)
  qed
qed

lemma publish_pending:
  assumes "sched_inv s" "control_event_scheduler_publish_continuous s ev mode = (s', True)"
  shows "pending_map s' = (pending_map s)(event_key ev \<mapsto>
           (case (mode, pending_map s (event_key ev)) of
              (CONTROL_EVENT_ACCUMULATE_DELTA, Some v) \<Rightarrow> sat_add16 v (cse_value ev)
            | _ \<Rightarrow> cse_value ev))"
proof -
  have si: "slots_inv s" using assms(1) by (simp add: sched_inv_def)
  obtain k slot where k: "find_continuous_slot (continuous s) 0 None ev = Some k"
    "continuous s' = (continuous s)[k := slot]" "continuous_cursor s' = continuous_cursor s"
    "slot_assigned slot" "slot_dirty slot" "event_key (slot_event slot) = event_key ev"
    "cse_value (slot_event slot) =
       (if slot_pending s k \<and> mode = CONTROL_EVENT_ACCUMULATE_DELTA
        then sat_add16 (cse_value (slot_event (continuous s ! k))) (cse_value ev) else cse_value ev)"
    by (rule publish_slot [OF si assms(2)])
  note f = found_slot [OF si k(1)]
  have "pending_map s (event_key ev) =
      (if slot_pending s k then Some (cse_value (slot_event (continuous s ! k))) else None)"
  proof (cases "slot_pending s k")
    case True
    then show ?thesis using pending_map_Some [OF si f(1) True] f(2) by (auto simp: slot_pending_def)
  next
    case False
    have "pending_map s (event_key ev) = None"
    proof (rule pending_map_None [OF si])
      fix j assume "j < 32" "slot_pending s j"
      with False f(3) [of j] show "event_key (slot_event (continuous s ! j)) \<noteq> event_key ev"
        by (cases "j = k") (auto simp: slot_pending_def)
    qed
    with False show ?thesis by simp
  qed
  moreover have "pending_map s' = (pending_map s)(event_key ev \<mapsto> cse_value (slot_event slot))"
    using pending_map_update [OF si f(1) k(4), of s'] f(2,3) k(2,3,5,6) si
    by (simp add: slots_inv_def)
  ultimately show ?thesis
    using k(7) by (cases mode) (auto split: option.splits)
qed

lemma publish_refused:
  assumes "sched_inv s" "control_event_scheduler_publish_continuous s ev mode = (s', False)"
  shows "continuous s' = continuous s"
    and "\<forall>k < 32. slot_assigned (continuous s ! k) \<and> event_key (slot_event (continuous s ! k)) \<noteq> event_key ev"
proof -
  have none: "find_continuous_slot (continuous s) 0 None ev = None"
    using assms(2) by (auto simp: sched_defs Let_def split: option.splits if_splits
        control_event_continuous_mode.splits)
  then show "continuous s' = continuous s" using assms(2) by (auto simp: sched_defs)
  show "\<forall>k < 32. slot_assigned (continuous s ! k) \<and> event_key (slot_event (continuous s ! k)) \<noteq> event_key ev"
    using find_slot_None [OF none] assms(1) by (simp add: sched_inv_def slots_inv_def same_key_iff)
qed

subsection \<open>Taking a continuous event\<close>

definition take_serves :: "control_event_scheduler \<Rightarrow> control_event_scheduler \<Rightarrow> nat \<Rightarrow> bool" where
  "take_serves s t j \<longleftrightarrow> control_event_scheduler_take_continuous s = (t, Some (slot_event (continuous s ! j))) \<and>
     j < 32 \<and> slot_pending s j \<and> \<not> slot_pending t j"

lemma take_serves_scan: "take_serves s t j \<Longrightarrow> rr_scan 32 (continuous_cursor s) (slot_pending s) = Some j"
proof -
  assume t: "take_serves s t j"
  then obtain k where k: "rr_scan 32 (continuous_cursor s) (slot_pending s) = Some k"
    "continuous t = (continuous s)[k := (continuous s ! k)\<lparr>slot_dirty := False\<rparr>]"
    by (auto simp: take_serves_def sched_defs split: option.splits)
  have "k = j"
  proof (rule ccontr)
    assume "k \<noteq> j"
    then have "slot_pending t j = slot_pending s j" using k(2) by (simp add: slot_pending_def)
    then show False using t by (simp add: take_serves_def)
  qed
  then show ?thesis using k(1) by simp
qed

lemma take_serves_take:
  assumes "sched_inv s" "rr_scan 32 (continuous_cursor s) (slot_pending s) = Some j"
  shows "\<exists>t. take_serves s t j"
  using assms rr_scan_SomeD [OF assms(2)]
  by (auto simp: take_serves_def sched_defs slot_pending_def sched_inv_def slots_inv_def)

lemma take_serves_after:
  "take_serves s t j \<Longrightarrow> continuous t = (continuous s)[j := (continuous s ! j)\<lparr>slot_dirty := False\<rparr>] \<and>
     continuous_cursor t = Suc j mod 32"
  using take_serves_scan [of s t j] by (auto simp: take_serves_def sched_defs)

lemma sched_inv_take:
  assumes "sched_inv s"
  shows "sched_inv (fst (control_event_scheduler_take_continuous s))"
proof (cases "rr_scan 32 (continuous_cursor s) (slot_pending s)")
  case None
  then show ?thesis using assms by (simp add: sched_defs)
next
  case (Some i)
  have si: "slots_inv s" "fifo_inv s" using assms by (auto simp: sched_inv_def)
  from Some have p: "i < 32" "slot_pending s i" using rr_scan_SomeD by blast+
  let ?s = "fst (control_event_scheduler_take_continuous s)"
  have "slots_inv ?s"
    by (rule slots_inv_update [OF si(1) p(1), of "(continuous s ! i)\<lparr>slot_dirty := False\<rparr>"])
       (use p Some slots_inv_unique [OF si(1) _ p(1)] in \<open>auto simp: sched_defs slot_pending_def\<close>)
  moreover have "fifo_inv ?s" using si(2) Some by (simp add: sched_defs fifo_inv_def)
  ultimately show ?thesis by (simp add: sched_inv_def)
qed

lemma take_pending:
  assumes "sched_inv s" "control_event_scheduler_take_continuous s = (s', Some e)"
  shows "pending_map s (event_key e) = Some (cse_value e)"
    and "pending_map s' = (pending_map s)(event_key e := None)"
proof -
  have si: "slots_inv s" using assms(1) by (simp add: sched_inv_def)
  from assms(2) obtain i where i: "rr_scan 32 (continuous_cursor s) (slot_pending s) = Some i"
      "e = slot_event (continuous s ! i)"
      "continuous s' = (continuous s)[i := (continuous s ! i)\<lparr>slot_dirty := False\<rparr>]"
      "continuous_cursor s' = (i + 1) mod 32"
    by (auto simp: sched_defs split: option.splits)
  then have p: "i < 32" "slot_pending s i" using rr_scan_SomeD by blast+
  show "pending_map s (event_key e) = Some (cse_value e)"
    using pending_map_Some [OF si p] i(2) by simp
  have a: "slot_assigned ((continuous s ! i)\<lparr>slot_dirty := False\<rparr>)"
    using p(2) by (simp add: slot_pending_def)
  show "pending_map s' = (pending_map s)(event_key e := None)"
    using pending_map_update [OF si p(1) a, of s'] i(2,3,4) slots_inv_unique [OF si _ p(1)] p(2)
    by (auto simp: slot_pending_def)
qed

lemma take_nothing:
  assumes "sched_inv s"
  shows "snd (control_event_scheduler_take_continuous s) = None \<longleftrightarrow> pending_map s = Map.empty"
proof -
  have si: "slots_inv s" and c: "continuous_cursor s < 32"
    using assms by (auto simp: sched_inv_def slots_inv_def)
  have "snd (control_event_scheduler_take_continuous s) = None \<longleftrightarrow> (\<forall>i < 32. \<not> slot_pending s i)"
    using rr_scan_None_iff [OF c, of "slot_pending s"] by (auto simp: sched_defs split: option.splits)
  moreover have "(\<forall>i < 32. \<not> slot_pending s i) \<longleftrightarrow> pending_map s = Map.empty"
  proof
    assume "\<forall>i < 32. \<not> slot_pending s i"
    then show "pending_map s = Map.empty" by (intro ext pending_map_None [OF si]) auto
  next
    assume e: "pending_map s = Map.empty"
    show "\<forall>i < 32. \<not> slot_pending s i"
    proof (intro allI impI notI)
      fix i :: nat assume "i < 32" "slot_pending s i"
      from pending_map_Some [OF si this refl] e show False by simp
    qed
  qed
  ultimately show ?thesis by simp
qed

text \<open>Producers between two takes: any publication or discrete enqueue or dequeue.\<close>

inductive producer_step :: "control_event_scheduler \<Rightarrow> control_event_scheduler \<Rightarrow> bool" where
  publish: "producer_step s (fst (control_event_scheduler_publish_continuous s ev mode))"
| enqueue: "producer_step s (fst (control_event_scheduler_enqueue_discrete s ev))"
| dequeue: "producer_step s (fst (control_event_scheduler_dequeue_discrete s))"

inductive_cases producer_stepE: "producer_step s t"

lemma publish_keeps_pending:
  assumes "sched_inv s" "i < 32" "slot_pending s i"
  shows "slot_pending (fst (control_event_scheduler_publish_continuous s ev mode)) i
    \<and> continuous_cursor (fst (control_event_scheduler_publish_continuous s ev mode)) = continuous_cursor s"
proof -
  have si: "slots_inv s" using assms(1) by (simp add: sched_inv_def)
  obtain s' ok where p: "control_event_scheduler_publish_continuous s ev mode = (s', ok)"
    by (cases "control_event_scheduler_publish_continuous s ev mode")
  show ?thesis
  proof (cases ok)
    case True
    with p have "control_event_scheduler_publish_continuous s ev mode = (s', True)" by simp
    from publish_slot [OF si this] obtain k slot where
      "continuous s' = (continuous s)[k := slot]" "slot_assigned slot"
        "slot_dirty slot" "continuous_cursor s' = continuous_cursor s" .
    with assms p si show ?thesis by (cases "i = k") (auto simp: slot_pending_def slots_inv_def)
  next
    case False
    with p assms show ?thesis
      by (auto simp: sched_defs slot_pending_def Let_def
               split: option.splits if_splits control_event_continuous_mode.splits)
  qed
qed

lemma sched_inv_discrete:
  "sched_inv s \<Longrightarrow> sched_inv (fst (control_event_scheduler_enqueue_discrete s ev))"
  "sched_inv s \<Longrightarrow> sched_inv (fst (control_event_scheduler_dequeue_discrete s))"
  using fifo_inv_enqueue fifo_inv_dequeue by (auto simp: sched_inv_def slots_inv_def)

lemma producer_step_keeps:
  assumes "sched_inv s" "producer_step s t"
  shows "sched_inv t" "i < 32 \<Longrightarrow> slot_pending s i \<Longrightarrow> slot_pending t i"
    "continuous_cursor t = continuous_cursor s"
proof -
  show "sched_inv t"
    using assms(2) by cases (use assms(1) sched_inv_publish sched_inv_discrete in auto)
  show "i < 32 \<Longrightarrow> slot_pending s i \<Longrightarrow> slot_pending t i"
    using assms(2) by cases (use publish_keeps_pending [OF assms(1)] in \<open>auto simp: slot_pending_def\<close>)
  show "continuous_cursor t = continuous_cursor s"
    using assms(2)
    by cases (auto simp: sched_defs Let_def split: option.splits if_splits control_event_continuous_mode.splits)
qed

interpretation continuous_rr: round_robin 32 slot_pending continuous_cursor take_serves producer_step sched_inv
proof unfold_locales
  fix s t :: control_event_scheduler and i j :: nat
  show "take_serves s t j \<Longrightarrow> rr_scan 32 (continuous_cursor s) (slot_pending s) = Some j" by (rule take_serves_scan)
  show "sched_inv s \<Longrightarrow> rr_scan 32 (continuous_cursor s) (slot_pending s) = Some j \<Longrightarrow> \<exists>t. take_serves s t j"
    by (rule take_serves_take)
  show "take_serves s t j \<Longrightarrow> continuous_cursor t = Suc j mod 32" using take_serves_after by blast
  show "take_serves s t j \<Longrightarrow> i \<noteq> j \<Longrightarrow> i < 32 \<Longrightarrow> slot_pending s i \<Longrightarrow> slot_pending t i"
    using take_serves_after [of s t j] by (simp add: slot_pending_def)
  show "sched_inv s \<Longrightarrow> take_serves s t j \<Longrightarrow> sched_inv t"
    using sched_inv_take [of s] by (auto simp: take_serves_def)
  show "sched_inv s \<Longrightarrow> continuous_cursor s < 32"
    by (simp add: sched_inv_def slots_inv_def)
qed (use producer_step_keeps in auto)

subsection \<open>Waiting for a take\<close>

text \<open>Everything the tasks do with the scheduler, and the continuous events the takes deliver.\<close>

datatype sched_op =
  Publish_Continuous control_scheduled_event control_event_continuous_mode
| Enqueue_Discrete control_scheduled_event
| Dequeue_Discrete
| Take_Continuous

fun sched_ops :: "control_event_scheduler \<Rightarrow> sched_op list \<Rightarrow> control_scheduled_event list \<times> control_event_scheduler" where
  "sched_ops s [] = ([], s)"
| "sched_ops s (Publish_Continuous ev mode # ops) = sched_ops (fst (control_event_scheduler_publish_continuous s ev mode)) ops"
| "sched_ops s (Enqueue_Discrete ev # ops) = sched_ops (fst (control_event_scheduler_enqueue_discrete s ev)) ops"
| "sched_ops s (Dequeue_Discrete # ops) = sched_ops (fst (control_event_scheduler_dequeue_discrete s)) ops"
| "sched_ops s (Take_Continuous # ops) =
     (case control_event_scheduler_take_continuous s of
        (s1, None) \<Rightarrow> sched_ops s1 ops
      | (s1, Some ev) \<Rightarrow> (case sched_ops s1 ops of (evs, s2) \<Rightarrow> (ev # evs, s2)))"

definition takes :: "sched_op list \<Rightarrow> nat" where
  "takes ops = length (filter (\<lambda>op. op = Take_Continuous) ops)"

lemma takes_simps [simp]:
  "takes [] = 0" "takes (Take_Continuous # ops) = Suc (takes ops)" "takes (Publish_Continuous ev mode # ops) = takes ops"
  "takes (Enqueue_Discrete ev # ops) = takes ops" "takes (Dequeue_Discrete # ops) = takes ops"
  by (simp_all add: takes_def)

definition waits_at :: "control_event_scheduler \<Rightarrow> nat \<Rightarrow> u8 \<times> u8 \<Rightarrow> bool" where
  "waits_at s i key \<longleftrightarrow> sched_inv s \<and> i < 32 \<and> slot_pending s i \<and> event_key (slot_event (continuous s ! i)) = key"

lemma publish_key:
  assumes "waits_at s i key"
  shows "event_key (slot_event (continuous (fst (control_event_scheduler_publish_continuous s ev mode)) ! i)) = key"
proof -
  have si: "slots_inv s" and a: "slot_assigned (continuous s ! i)" "i < 32" "event_key (slot_event (continuous s ! i)) = key"
    using assms by (auto simp: waits_at_def sched_inv_def slot_pending_def)
  obtain s' ok where p: "control_event_scheduler_publish_continuous s ev mode = (s', ok)" by fastforce
  show ?thesis
  proof (cases ok)
    case True
    with p have "control_event_scheduler_publish_continuous s ev mode = (s', True)" by simp
    from publish_slot [OF si this] obtain k slot where
      k: "find_continuous_slot (continuous s) 0 None ev = Some k" "continuous s' = (continuous s)[k := slot]"
        "event_key (slot_event slot) = event_key ev" .
    then show ?thesis using found_slot [OF si k(1)] a p si by (cases "i = k") (auto simp: slots_inv_def)
  next
    case False
    then show ?thesis using p a publish_refused(1) [of s ev mode s'] assms by (simp add: waits_at_def)
  qed
qed

lemma discrete_slots:
  "continuous (fst (control_event_scheduler_enqueue_discrete s ev)) = continuous s"
  "continuous (fst (control_event_scheduler_dequeue_discrete s)) = continuous s"
  by (auto simp: sched_defs Let_def)

lemma producer_waits:
  assumes "waits_at s i key" "producer_step s t"
  shows "waits_at t i key \<and> rr_dist 32 (continuous_cursor t) i = rr_dist 32 (continuous_cursor s) i"
proof -
  have "event_key (slot_event (continuous t ! i)) = key"
    using assms(2) by cases (use assms(1) publish_key [OF assms(1)] in \<open>auto simp: waits_at_def discrete_slots\<close>)
  then show ?thesis using assms(1) producer_step_keeps [OF _ assms(2)] by (simp add: waits_at_def)
qed

lemma take_waits:
  assumes "waits_at s i key"
  obtains t ev where "control_event_scheduler_take_continuous s = (t, Some ev)"
    "event_key ev = key \<or> waits_at t i key \<and> rr_dist 32 (continuous_cursor t) i < rr_dist 32 (continuous_cursor s) i"
proof -
  from assms have w: "sched_inv s" "i < 32" "slot_pending s i" "event_key (slot_event (continuous s ! i)) = key"
    by (auto simp: waits_at_def)
  obtain t j where t: "take_serves s t j" using continuous_rr.not_stuck [OF w(1-3)] by blast
  show ?thesis
  proof (rule that [of t "slot_event (continuous s ! j)"])
    show "control_event_scheduler_take_continuous s = (t, Some (slot_event (continuous s ! j)))" using t by (simp add: take_serves_def)
    show "event_key (slot_event (continuous s ! j)) = key \<or>
        waits_at t i key \<and> rr_dist 32 (continuous_cursor t) i < rr_dist 32 (continuous_cursor s) i"
    proof (cases "j = i")
      case False
      have "sched_inv t \<and> slot_pending t i \<and> rr_dist 32 (continuous_cursor t) i + Suc 0 \<le> rr_dist 32 (continuous_cursor s) i"
        using continuous_rr.wait_bound [OF rr_first [where serve = take_serves and env = producer_step and i = i and j = j, OF t False] w(1-3)] .
      then show ?thesis using take_serves_after [OF t] False w by (auto simp: waits_at_def)
    qed (use w in simp)
  qed
qed

lemma waits_served:
  "\<lbrakk>waits_at s i key; sched_ops s ops = (evs, t); rr_dist 32 (continuous_cursor s) i < takes ops\<rbrakk> \<Longrightarrow>
   \<exists>ev\<in>set (take (Suc (rr_dist 32 (continuous_cursor s) i)) evs). event_key ev = key"
proof (induction ops arbitrary: s evs)
  case (Cons op ops)
  have prod: ?case if "producer_step s u" "sched_ops s (op # ops) = sched_ops u ops" "takes (op # ops) = takes ops" for u
    using producer_waits [OF Cons.prems(1) that(1)] Cons.IH [of u evs] Cons.prems that by auto
  show ?case
  proof (cases op)
    case (Publish_Continuous ev mode)
    show ?thesis by (rule prod [OF producer_step.publish [of s ev mode]]) (simp_all add: Publish_Continuous)
  next
    case (Enqueue_Discrete ev)
    show ?thesis by (rule prod [OF producer_step.enqueue [of s ev]]) (simp_all add: Enqueue_Discrete)
  next
    case Dequeue_Discrete
    show ?thesis by (rule prod [OF producer_step.dequeue [of s]]) (simp_all add: Dequeue_Discrete)
  next
    case Take_Continuous
    obtain u ev where u: "control_event_scheduler_take_continuous s = (u, Some ev)"
      "event_key ev = key \<or> waits_at u i key \<and> rr_dist 32 (continuous_cursor u) i < rr_dist 32 (continuous_cursor s) i"
      by (rule take_waits [OF Cons.prems(1)])
    obtain evs1 where e: "evs = ev # evs1" "sched_ops u ops = (evs1, t)"
      using Cons.prems(2) u(1) by (auto simp: Take_Continuous split: prod.splits)
    show ?thesis
    proof (cases "event_key ev = key")
      case False
      then have w: "waits_at u i key" "Suc (rr_dist 32 (continuous_cursor u) i) \<le> rr_dist 32 (continuous_cursor s) i" using u(2) by auto
      then obtain ev' where "ev' \<in> set (take (Suc (rr_dist 32 (continuous_cursor u) i)) evs1)" "event_key ev' = key"
        using Cons.IH [OF w(1) e(2)] Cons.prems(3) by (auto simp: Take_Continuous)
      then show ?thesis using set_take_subset_set_take [OF w(2), of evs1] e(1) by auto
    qed (use e in simp)
  qed
qed simp

lemma pending_map_slot:
  assumes "slots_inv s" "pending_map s key \<noteq> None"
  shows "\<exists>i < 32. slot_pending s i \<and> event_key (slot_event (continuous s ! i)) = key"
proof (rule ccontr)
  assume "\<not> ?thesis"
  then have "pending_map s key = None" by (intro pending_map_None [OF assms(1)]) auto
  with assms(2) show False by simp
qed

lemma sched_ops_inv: "\<lbrakk>sched_inv s; sched_ops s ops = (evs, t)\<rbrakk> \<Longrightarrow> sched_inv t"
proof (induction s ops arbitrary: evs rule: sched_ops.induct)
  case (5 s ops)
  then show ?case using sched_inv_take [of s] by (auto split: prod.splits option.splits)
qed (use sched_inv_publish sched_inv_discrete in auto)

section \<open>Runs of the continuous slots\<close>

text \<open>
  A run of publications and takes: the publications that were accepted, the events that were delivered and the
  scheduler at the end.
\<close>

datatype continuous_op = Publish control_scheduled_event control_event_continuous_mode | Take

fun continuous_run :: "control_event_scheduler \<Rightarrow> continuous_op list \<Rightarrow>
    control_scheduled_event list \<times> control_scheduled_event list \<times> control_event_scheduler" where
  "continuous_run s [] = ([], [], s)"
| "continuous_run s (Publish ev mode # ops) =
     (let (s1, ok) = control_event_scheduler_publish_continuous s ev mode;
          (ins, outs, r) = continuous_run s1 ops
      in ((if ok then ev # ins else ins), outs, r))"
| "continuous_run s (Take # ops) =
     (let (s1, res) = control_event_scheduler_take_continuous s;
          (ins, outs, r) = continuous_run s1 ops
      in (ins, (case res of None \<Rightarrow> outs | Some ev \<Rightarrow> ev # outs), r))"

definition motion :: "u8 \<times> u8 \<Rightarrow> control_scheduled_event list \<Rightarrow> int" where
  "motion key evs = (\<Sum>ev\<leftarrow>filter (\<lambda>ev. event_key ev = key) evs. sint (cse_value ev))"

definition travel :: "u8 \<times> u8 \<Rightarrow> continuous_op list \<Rightarrow> int" where
  "travel key ops = (\<Sum>op\<leftarrow>ops. case op of Publish ev mode \<Rightarrow> if event_key ev = key then \<bar>sint (cse_value ev)\<bar> else 0 | Take \<Rightarrow> 0)"

definition owed :: "control_event_scheduler \<Rightarrow> u8 \<times> u8 \<Rightarrow> int" where
  "owed s key = (case pending_map s key of None \<Rightarrow> 0 | Some v \<Rightarrow> sint v)"

definition accumulates :: "u8 \<times> u8 \<Rightarrow> continuous_op \<Rightarrow> bool" where
  "accumulates key op = (case op of Publish ev mode \<Rightarrow> event_key ev = key \<longrightarrow> mode = CONTROL_EVENT_ACCUMULATE_DELTA | Take \<Rightarrow> True)"

lemma sat_add16_exact:
  assumes "\<bar>sint a + sint b\<bar> \<le> 32767"
  shows "sint (sat_add16 a b) = sint a + sint b"
proof -
  let ?x = "sint a + sint b"
  have "max INT16_MIN (min INT16_MAX ?x) = ?x" using assms by simp
  moreover have "sint (word_of_int ?x :: i16) = ?x" using assms unfolding int_word_sint by simp
  ultimately show ?thesis by (simp add: sat_add16_def)
qed

lemma travel_nonneg: "0 \<le> travel key ops"
  unfolding travel_def by (induction ops) (auto split: continuous_op.splits)

lemma publish_refused_pending:
  assumes "sched_inv s" "control_event_scheduler_publish_continuous s ev mode = (s', False)"
  shows "pending_map s' = pending_map s"
  using publish_refused(1) [OF assms] by (simp add: pending_map_def fun_eq_iff)

lemma publish_owed:
  assumes "sched_inv s" "control_event_scheduler_publish_continuous s ev mode = (s', ok)"
    "accumulates key (Publish ev mode)" "\<bar>owed s key\<bar> + (if event_key ev = key then \<bar>sint (cse_value ev)\<bar> else 0) \<le> 32767"
  shows "owed s' key = owed s key + (if ok \<and> event_key ev = key then sint (cse_value ev) else 0)"
proof (cases ok)
  case True
  show ?thesis
  proof (cases "event_key ev = key")
    case k: True
    then have m: "mode = CONTROL_EVENT_ACCUMULATE_DELTA" using assms(3) by (simp add: accumulates_def)
    show ?thesis
    proof (cases "pending_map s key")
      case None
      then show ?thesis using publish_pending [of s ev mode s'] assms(1,2) True k m by (simp add: owed_def)
    next
      case (Some v)
      then have "\<bar>sint v + sint (cse_value ev)\<bar> \<le> 32767" using assms(4) k by (simp add: owed_def)
      then show ?thesis
        using publish_pending [of s ev mode s'] assms(1,2) True k m Some by (simp add: owed_def sat_add16_exact)
    qed
  next
    case False
    then show ?thesis using publish_pending [of s ev mode s'] assms(1,2) True by (simp add: owed_def)
  qed
next
  case False
  then show ?thesis using publish_refused_pending assms(1,2) by (simp add: owed_def)
qed

lemma take_owed:
  assumes "sched_inv s" "control_event_scheduler_take_continuous s = (s', res)"
  shows "owed s key = (case res of None \<Rightarrow> 0 | Some ev \<Rightarrow> if event_key ev = key then sint (cse_value ev) else 0) + owed s' key"
proof (cases res)
  case None
  then have "pending_map s = Map.empty" using take_nothing [OF assms(1)] assms(2) by simp
  moreover have "s' = s" using assms(2) None by (simp add: sched_defs split: option.splits)
  ultimately show ?thesis using None by (simp add: owed_def)
next
  case (Some ev)
  then have t: "control_event_scheduler_take_continuous s = (s', Some ev)" using assms(2) by simp
  from take_pending [OF assms(1) t] Some show ?thesis by (auto simp: owed_def)
qed

lemma run_conserves:
  assumes "sched_inv s" "continuous_run s ops = (ins, outs, r)" "\<forall>op \<in> set ops. accumulates key op"
    "\<bar>owed s key\<bar> + travel key ops \<le> 32767"
  shows "owed s key + motion key ins = motion key outs + owed r key"
  using assms
proof (induction ops arbitrary: s ins outs r)
  case Nil
  then show ?case by (simp add: motion_def)
next
  case (Cons op ops)
  show ?case
  proof (cases op)
    case (Publish ev mode)
    obtain s1 ok where p: "control_event_scheduler_publish_continuous s ev mode = (s1, ok)" by fastforce
    obtain ins' outs' r' where t: "continuous_run s1 ops = (ins', outs', r')" by (metis prod_cases3)
    have e: "ins = (if ok then ev # ins' else ins')" "outs = outs'" "r = r'"
      using Cons.prems(2) p t Publish by auto
    have tr: "travel key (op # ops) = (if event_key ev = key then \<bar>sint (cse_value ev)\<bar> else 0) + travel key ops"
      by (simp add: travel_def Publish)
    have b: "\<bar>owed s key\<bar> + (if event_key ev = key then \<bar>sint (cse_value ev)\<bar> else 0) \<le> 32767"
      using Cons.prems(4) travel_nonneg [of key ops] unfolding tr by linarith
    have acc: "accumulates key (Publish ev mode)" using Cons.prems(3) Publish by simp
    note o = publish_owed [OF Cons.prems(1) p acc b]
    have i: "sched_inv s1" using sched_inv_publish [OF Cons.prems(1), of ev mode] p by simp
    have "\<bar>owed s1 key\<bar> + travel key ops \<le> 32767" using o Cons.prems(4) unfolding tr by (auto split: if_splits)
    with Cons.IH [OF i t] Cons.prems(3) have "owed s1 key + motion key ins' = motion key outs' + owed r' key" by simp
    then show ?thesis using o e by (auto simp: motion_def)
  next
    case Take
    obtain s1 res where p: "control_event_scheduler_take_continuous s = (s1, res)" by fastforce
    obtain ins' outs' r' where t: "continuous_run s1 ops = (ins', outs', r')" by (metis prod_cases3)
    have e: "ins = ins'" "outs = (case res of None \<Rightarrow> outs' | Some ev \<Rightarrow> ev # outs')" "r = r'"
      using Cons.prems(2) p t Take by auto
    note o = take_owed [OF Cons.prems(1) p, of key]
    have i: "sched_inv s1" using sched_inv_take [OF Cons.prems(1)] p by simp
    have z: "owed s1 key = owed s key \<or> owed s1 key = 0"
    proof (cases res)
      case (Some ev)
      then show ?thesis
        using take_pending(2) [of s s1 ev] Cons.prems(1) p by (auto simp: owed_def)
    qed (use o in simp)
    have "travel key (op # ops) = travel key ops" by (simp add: travel_def Take)
    then have "\<bar>owed s1 key\<bar> + travel key ops \<le> 32767" using z Cons.prems(4) by auto
    with Cons.IH [OF i t] Cons.prems(3) have "owed s1 key + motion key ins' = motion key outs' + owed r' key" by simp
    then show ?thesis using o e by (auto simp: motion_def split: option.splits)
  qed
qed

section \<open>Properties\<close>

text \<open>
  Claim C7.  Discrete commands are delivered in the order in which they were accepted, none lost and none twice:
  after any sequence of enqueue and dequeue calls from the reset state, what was accepted is what was delivered
  followed by what is still queued.
\<close>

theorem discrete_commands_in_order:
  "case fifo_run control_event_scheduler_enqueue_discrete control_event_scheduler_dequeue_discrete
     control_event_scheduler_reset ops of
     (accepted, delivered, s) \<Rightarrow> accepted = delivered @ fifo_contents s \<and> length (fifo_contents s) \<le> 32"
proof -
  obtain a d s where r: "fifo_run control_event_scheduler_enqueue_discrete control_event_scheduler_dequeue_discrete
      control_event_scheduler_reset ops = (a, d, s)" by (metis prod_cases3)
  have "fifo_inv control_event_scheduler_reset" using sched_inv_reset by (simp add: sched_inv_def)
  moreover have "fifo_contents control_event_scheduler_reset = []" by code_simp
  ultimately have "fifo_inv s" "a = d @ fifo_contents s" using discrete_fifo.run_order [OF _ r] by simp_all
  moreover from this have "length (fifo_contents s) \<le> 32" by (simp add: fifo_contents_def ring_list_def fifo_inv_def)
  ultimately show ?thesis by (simp add: r)
qed

text \<open>
  Claim C19.  Publishing a continuous control refines an update of the map of values still owed to the consumer: a
  latest-value control overwrites, a delta is added with saturation at the 16-bit bounds, every other control is untouched.
\<close>

theorem publish_continuous_refines_map:
  assumes "sched_inv s" "control_event_scheduler_publish_continuous s ev mode = (s', True)"
  shows "sched_inv s' \<and> pending_map s' = (pending_map s)(event_key ev \<mapsto>
           (case (mode, pending_map s (event_key ev)) of
              (CONTROL_EVENT_ACCUMULATE_DELTA, Some v) \<Rightarrow> sat_add16 v (cse_value ev)
            | _ \<Rightarrow> cse_value ev))"
  using publish_pending [OF assms] sched_inv_publish [OF assms(1), of ev mode] assms(2) by simp

abbreviation (input) jog_event :: "i16 \<Rightarrow> control_scheduled_event" where
  "jog_event v \<equiv> \<lparr>cse_type = 3, cse_id = 0, cse_value = v\<rparr>"

abbreviation (input) pitch_event :: "i16 \<Rightarrow> control_scheduled_event" where
  "pitch_event v \<equiv> \<lparr>cse_type = 4, cse_id = 0, cse_value = v\<rparr>"

abbreviation (input) one_jog :: control_event_scheduler where
  "one_jog \<equiv> fst (control_event_scheduler_publish_continuous control_event_scheduler_reset (jog_event 5) CONTROL_EVENT_ACCUMULATE_DELTA)"

lemma pending_map_reset: "pending_map control_event_scheduler_reset = Map.empty"
proof
  fix key
  have "find (\<lambda>slot. slot_assigned slot \<and> slot_dirty slot \<and> event_key (slot_event slot) = key)
      (continuous control_event_scheduler_reset) = None"
    unfolding find_None_iff by (simp add: control_event_scheduler_reset_def)
  then show "pending_map control_event_scheduler_reset key = None" by (simp add: pending_map_def)
qed

lemma one_jog_pending: "sched_inv one_jog" "pending_map one_jog = [(3, 0) \<mapsto> 5]"
proof -
  have ok: "control_event_scheduler_publish_continuous control_event_scheduler_reset (jog_event 5) CONTROL_EVENT_ACCUMULATE_DELTA
      = (one_jog, True)" by code_simp
  from publish_pending [OF sched_inv_reset ok] pending_map_reset show "pending_map one_jog = [(3, 0) \<mapsto> 5]" by (simp add: event_key_def)
  show "sched_inv one_jog" by (rule sched_inv_publish [OF sched_inv_reset])
qed

theorem publish_continuous_refines_map_witness:
  "\<exists>s'. control_event_scheduler_publish_continuous one_jog (jog_event 7) CONTROL_EVENT_ACCUMULATE_DELTA = (s', True)
     \<and> pending_map s' (3, 0) = Some 12"
proof -
  let ?s = "fst (control_event_scheduler_publish_continuous one_jog (jog_event 7) CONTROL_EVENT_ACCUMULATE_DELTA)"
  have ok: "control_event_scheduler_publish_continuous one_jog (jog_event 7) CONTROL_EVENT_ACCUMULATE_DELTA = (?s, True)"
    by code_simp
  have "sat_add16 5 7 = 12" by code_simp
  then have "pending_map ?s (3, 0) = Some 12"
    using publish_continuous_refines_map [OF one_jog_pending(1) ok] unfolding one_jog_pending(2)
    by (simp add: event_key_def)
  with ok show ?thesis by blast
qed

text \<open>
  Taking a continuous event delivers exactly the value owed for its control and clears that debt only; it
  delivers nothing exactly when nothing is owed.
\<close>

lemma take_continuous_refines_map:
  assumes "sched_inv s"
  shows "case control_event_scheduler_take_continuous s of
     (s', None) \<Rightarrow> s' = s \<and> pending_map s = Map.empty
   | (s', Some ev) \<Rightarrow> sched_inv s' \<and> pending_map s (event_key ev) = Some (cse_value ev) \<and>
        pending_map s' = (pending_map s)(event_key ev := None)"
proof -
  obtain s' r where t: "control_event_scheduler_take_continuous s = (s', r)" by fastforce
  show ?thesis
  proof (cases r)
    case None
    then have "s' = s" using t by (simp add: sched_defs split: option.splits)
    with None t take_nothing [OF assms] show ?thesis by simp
  next
    case (Some ev)
    then show ?thesis using t take_pending [OF assms, of s' ev] sched_inv_take [OF assms] by simp
  qed
qed

text \<open>
  Claim C20.  No continuous control starves. Once a value of a control is accepted, whatever the tasks do next with the
  scheduler, the first 32 continuous events that takes deliver include one of that control, as soon as 32 takes have been made.
\<close>

theorem continuous_no_starvation:
  assumes "sched_ops control_event_scheduler_reset before = (evs0, s)"
    and "control_event_scheduler_publish_continuous s ev mode = (s1, True)"
    and "sched_ops s1 ops = (evs, t)" "32 \<le> takes ops"
  shows "\<exists>e\<in>set (take 32 evs). event_key e = event_key ev"
proof -
  have s: "sched_inv s" by (rule sched_ops_inv [OF sched_inv_reset assms(1)])
  have s1: "sched_inv s1" using sched_inv_publish [OF s, of ev mode] assms(2) by simp
  then have si: "slots_inv s1" by (simp add: sched_inv_def)
  have "pending_map s1 (event_key ev) \<noteq> None" using publish_pending [OF s assms(2)] by simp
  from pending_map_slot [OF si this] obtain i where i: "waits_at s1 i (event_key ev)" using s1 unfolding waits_at_def by blast
  then have d: "Suc (rr_dist 32 (continuous_cursor s1) i) \<le> 32"
    using rr_index(2) [of i 32 "continuous_cursor s1"] si by (auto simp: waits_at_def slots_inv_def)
  from waits_served [OF i assms(3)] d assms(4) obtain e where
    "e \<in> set (take (Suc (rr_dist 32 (continuous_cursor s1) i)) evs)" "event_key e = event_key ev" by auto
  then show ?thesis using set_take_subset_set_take [OF d, of evs] by blast
qed

theorem continuous_no_starvation_witness:
  "event_key (pitch_event 9) \<in> event_key ` set (take 32 (fst (sched_ops
      (fst (control_event_scheduler_publish_continuous one_jog (pitch_event 9) CONTROL_EVENT_LATEST_VALUE)) (replicate 32 Take_Continuous))))"
proof -
  have a: "sched_ops control_event_scheduler_reset [Publish_Continuous (jog_event 5) CONTROL_EVENT_ACCUMULATE_DELTA] = ([], one_jog)"
    by simp
  let ?s = "fst (control_event_scheduler_publish_continuous one_jog (pitch_event 9) CONTROL_EVENT_LATEST_VALUE)"
  have b: "control_event_scheduler_publish_continuous one_jog (pitch_event 9) CONTROL_EVENT_LATEST_VALUE = (?s, True)" by code_simp
  have c: "sched_ops ?s (replicate 32 Take_Continuous) =
      (fst (sched_ops ?s (replicate 32 Take_Continuous)), snd (sched_ops ?s (replicate 32 Take_Continuous)))" by simp
  have "\<exists>e\<in>set (take 32 (fst (sched_ops ?s (replicate 32 Take_Continuous)))). event_key e = event_key (pitch_event 9)"
    by (rule continuous_no_starvation [OF a b c]) (simp add: takes_def)
  then show ?thesis by (metis image_eqI)
qed

text \<open>
  Claim C8.  Relative motion is conserved: over any run from the reset state in which a control is only published as a
  delta and travels at most 32767 steps in all, the deltas accepted add up to the deltas delivered plus the one pending.
\<close>

theorem motion_conserved:
  assumes "\<forall>op \<in> set ops. accumulates key op" "travel key ops \<le> 32767"
  shows "case continuous_run control_event_scheduler_reset ops of
     (accepted, delivered, s) \<Rightarrow> motion key accepted = motion key delivered + owed s key"
proof -
  obtain a d s where r: "continuous_run control_event_scheduler_reset ops = (a, d, s)" by (metis prod_cases3)
  have "owed control_event_scheduler_reset key = 0" by (simp add: owed_def pending_map_reset)
  with run_conserves [OF sched_inv_reset r assms(1)] assms(2) r show ?thesis by simp
qed

theorem motion_conserved_witness:
  "case continuous_run control_event_scheduler_reset
      [Publish (jog_event 5) CONTROL_EVENT_ACCUMULATE_DELTA, Publish (jog_event (-7)) CONTROL_EVENT_ACCUMULATE_DELTA, Take,
       Publish (jog_event 3) CONTROL_EVENT_ACCUMULATE_DELTA] of
     (accepted, delivered, s) \<Rightarrow> motion (3, 0) accepted = motion (3, 0) delivered + owed s (3, 0)"
  by (rule motion_conserved) code_simp+

end
