(* ===== verification/Control_Ids.thy ===== *)
theory Control_Ids
  imports Prelude
begin

text \<open>
  The vocabulary of the board-to-board protocol (\<open>control_link.h\<close>): frame types, semantic
  control ids, LED ids, and the packed pad and extended-action values.  The values are the bytes
  that travel on the wire; both boards' headers define the same numbers.  Of the enumerations, those
  stored in \<open>uint8_t\<close> fields are bytes here too.
\<close>

section \<open>Constants\<close>

abbreviation (input) CTRL_TYPE_BUTTON :: u8 where "CTRL_TYPE_BUTTON \<equiv> 1"
abbreviation (input) CTRL_TYPE_ENCODER :: u8 where "CTRL_TYPE_ENCODER \<equiv> 0x2"
abbreviation (input) CTRL_TYPE_PITCH :: u8 where "CTRL_TYPE_PITCH \<equiv> 0x3"
abbreviation (input) CTRL_TYPE_HEARTBEAT :: u8 where "CTRL_TYPE_HEARTBEAT \<equiv> 0x4"
abbreviation (input) CTRL_TYPE_LED :: u8 where "CTRL_TYPE_LED \<equiv> 0x81"
abbreviation (input) CTRL_TYPE_STATE :: u8 where "CTRL_TYPE_STATE \<equiv> 0x82"

abbreviation (input) CTRL_DECK_1 :: u8 where "CTRL_DECK_1 \<equiv> 0"
abbreviation (input) CTRL_DECK_2 :: u8 where "CTRL_DECK_2 \<equiv> 1"
abbreviation (input) CTRL_DECK_NONE :: u8 where "CTRL_DECK_NONE \<equiv> 0xff"

abbreviation (input) CTRL_DECK_CTL_PLAY :: u8 where "CTRL_DECK_CTL_PLAY \<equiv> 0"
abbreviation (input) CTRL_DECK_CTL_CUE :: u8 where "CTRL_DECK_CTL_CUE \<equiv> 1"
abbreviation (input) CTRL_DECK_CTL_JOG_SCRATCH :: u8 where "CTRL_DECK_CTL_JOG_SCRATCH \<equiv> 0x2"
abbreviation (input) CTRL_DECK_CTL_JOG_BEND :: u8 where "CTRL_DECK_CTL_JOG_BEND \<equiv> 0x3"
abbreviation (input) CTRL_DECK_CTL_JOG_TOUCH :: u8 where "CTRL_DECK_CTL_JOG_TOUCH \<equiv> 0x4"
abbreviation (input) CTRL_DECK_CTL_TEMPO :: u8 where "CTRL_DECK_CTL_TEMPO \<equiv> 0x5"
abbreviation (input) CTRL_DECK_CTL_SHIFT :: u8 where "CTRL_DECK_CTL_SHIFT \<equiv> 0x6"
abbreviation (input) CTRL_DECK_CTL_TO_START :: u8 where "CTRL_DECK_CTL_TO_START \<equiv> 0x7"
abbreviation (input) CTRL_DECK_CTL_SYNC :: u8 where "CTRL_DECK_CTL_SYNC \<equiv> 0x8"
abbreviation (input) CTRL_DECK_CTL_TEMPO_RANGE :: u8 where "CTRL_DECK_CTL_TEMPO_RANGE \<equiv> 0x9"
abbreviation (input) CTRL_DECK_CTL_LOOP_IN :: u8 where "CTRL_DECK_CTL_LOOP_IN \<equiv> 0xa"
abbreviation (input) CTRL_DECK_CTL_LOOP_OUT :: u8 where "CTRL_DECK_CTL_LOOP_OUT \<equiv> 0xb"
abbreviation (input) CTRL_DECK_CTL_RELOOP_EXIT :: u8 where "CTRL_DECK_CTL_RELOOP_EXIT \<equiv> 0xc"
abbreviation (input) CTRL_DECK_CTL_LOOP_HALVE :: u8 where "CTRL_DECK_CTL_LOOP_HALVE \<equiv> 0xd"
abbreviation (input) CTRL_DECK_CTL_LOOP_DOUBLE :: u8 where "CTRL_DECK_CTL_LOOP_DOUBLE \<equiv> 0xe"
abbreviation (input) CTRL_DECK_CTL_BEAT_JUMP_BACK :: u8 where "CTRL_DECK_CTL_BEAT_JUMP_BACK \<equiv> 0xf"
abbreviation (input) CTRL_DECK_CTL_BEAT_JUMP_FORWARD :: u8 where "CTRL_DECK_CTL_BEAT_JUMP_FORWARD \<equiv> 0x10"
abbreviation (input) CTRL_DECK_CTL_PAD_MODE_HOT_CUE :: u8 where "CTRL_DECK_CTL_PAD_MODE_HOT_CUE \<equiv> 0x11"
abbreviation (input) CTRL_DECK_CTL_PAD_MODE_BEAT_LOOP :: u8 where "CTRL_DECK_CTL_PAD_MODE_BEAT_LOOP \<equiv> 0x12"
abbreviation (input) CTRL_DECK_CTL_PAD_MODE_BEAT_JUMP :: u8 where "CTRL_DECK_CTL_PAD_MODE_BEAT_JUMP \<equiv> 0x13"
abbreviation (input) CTRL_DECK_CTL_PAD_MODE_KEY_SHIFT :: u8 where "CTRL_DECK_CTL_PAD_MODE_KEY_SHIFT \<equiv> 0x14"
abbreviation (input) CTRL_DECK_CTL_PAD_ACTION :: u8 where "CTRL_DECK_CTL_PAD_ACTION \<equiv> 0x15"
abbreviation (input) CTRL_DECK_CTL_PAD_MODE_KEYBOARD :: u8 where "CTRL_DECK_CTL_PAD_MODE_KEYBOARD \<equiv> 0x16"
abbreviation (input) CTRL_DECK_CTL_PAD_MODE_PAD_FX1 :: u8 where "CTRL_DECK_CTL_PAD_MODE_PAD_FX1 \<equiv> 0x17"
abbreviation (input) CTRL_DECK_CTL_PAD_MODE_PAD_FX2 :: u8 where "CTRL_DECK_CTL_PAD_MODE_PAD_FX2 \<equiv> 0x18"
abbreviation (input) CTRL_DECK_CTL_PAD_MODE_SAMPLER :: u8 where "CTRL_DECK_CTL_PAD_MODE_SAMPLER \<equiv> 0x19"
abbreviation (input) CTRL_DECK_CTL_JOG_SEARCH :: u8 where "CTRL_DECK_CTL_JOG_SEARCH \<equiv> 0x1a"
abbreviation (input) CTRL_DECK_CTL_JOG_SEARCH_TOUCH :: u8 where "CTRL_DECK_CTL_JOG_SEARCH_TOUCH \<equiv> 0x1b"
abbreviation (input) CTRL_DECK_CTL_EXT_ACTION :: u8 where "CTRL_DECK_CTL_EXT_ACTION \<equiv> 0x1c"
abbreviation (input) CTRL_DECK_CTL_LOOP_SIZE :: u8 where "CTRL_DECK_CTL_LOOP_SIZE \<equiv> 0x1d"
abbreviation (input) CTRL_NS_DECK1 :: u8 where "CTRL_NS_DECK1 \<equiv> 0x10"
abbreviation (input) CTRL_NS_DECK2 :: u8 where "CTRL_NS_DECK2 \<equiv> 0x30"
abbreviation (input) CTRL_NS_MIXER :: u8 where "CTRL_NS_MIXER \<equiv> 0x50"
abbreviation (input) CTRL_NS_BROWSER :: u8 where "CTRL_NS_BROWSER \<equiv> 0x60"
abbreviation (input) CTRL_NS_SYSTEM :: u8 where "CTRL_NS_SYSTEM \<equiv> 0x70"
abbreviation (input) LED_CUE :: u8 where "LED_CUE \<equiv> 0"
abbreviation (input) LED_PLAY :: u8 where "LED_PLAY \<equiv> 1"
abbreviation (input) LED_BEAT :: u8 where "LED_BEAT \<equiv> 0x2"
abbreviation (input) LED_END :: u8 where "LED_END \<equiv> 0x3"
abbreviation (input) LED_PFL :: u8 where "LED_PFL \<equiv> 0x4"
abbreviation (input) LED_VU_METER :: u8 where "LED_VU_METER \<equiv> 0x5"
abbreviation (input) LED_COUNT :: u8 where "LED_COUNT \<equiv> 0x6"
abbreviation (input) LED_PAD_MODE_HOT_CUE :: u8 where "LED_PAD_MODE_HOT_CUE \<equiv> 0x6"
abbreviation (input) LED_PAD_MODE_KEYBOARD :: u8 where "LED_PAD_MODE_KEYBOARD \<equiv> 0x7"
abbreviation (input) LED_PAD_MODE_PAD_FX1 :: u8 where "LED_PAD_MODE_PAD_FX1 \<equiv> 0x8"
abbreviation (input) LED_PAD_MODE_PAD_FX2 :: u8 where "LED_PAD_MODE_PAD_FX2 \<equiv> 0x9"
abbreviation (input) LED_PAD_MODE_BEAT_JUMP :: u8 where "LED_PAD_MODE_BEAT_JUMP \<equiv> 0xa"
abbreviation (input) LED_PAD_MODE_BEAT_LOOP :: u8 where "LED_PAD_MODE_BEAT_LOOP \<equiv> 0xb"
abbreviation (input) LED_PAD_MODE_SAMPLER :: u8 where "LED_PAD_MODE_SAMPLER \<equiv> 0xc"
abbreviation (input) LED_PAD_MODE_KEY_SHIFT :: u8 where "LED_PAD_MODE_KEY_SHIFT \<equiv> 0xd"
abbreviation (input) LED_SYNC :: u8 where "LED_SYNC \<equiv> 0xe"
abbreviation (input) LED_LOOP_IN :: u8 where "LED_LOOP_IN \<equiv> 0xf"
abbreviation (input) LED_LOOP_OUT :: u8 where "LED_LOOP_OUT \<equiv> 0x10"
abbreviation (input) LED_BEAT_LOOP_PAD_1 :: u8 where "LED_BEAT_LOOP_PAD_1 \<equiv> 0x11"
abbreviation (input) LED_BEAT_LOOP_PAD_2 :: u8 where "LED_BEAT_LOOP_PAD_2 \<equiv> 0x12"
abbreviation (input) LED_BEAT_LOOP_PAD_3 :: u8 where "LED_BEAT_LOOP_PAD_3 \<equiv> 0x13"
abbreviation (input) LED_BEAT_LOOP_PAD_4 :: u8 where "LED_BEAT_LOOP_PAD_4 \<equiv> 0x14"
abbreviation (input) LED_BEAT_LOOP_PAD_5 :: u8 where "LED_BEAT_LOOP_PAD_5 \<equiv> 0x15"
abbreviation (input) LED_BEAT_LOOP_PAD_6 :: u8 where "LED_BEAT_LOOP_PAD_6 \<equiv> 0x16"
abbreviation (input) LED_BEAT_LOOP_PAD_7 :: u8 where "LED_BEAT_LOOP_PAD_7 \<equiv> 0x17"
abbreviation (input) LED_BEAT_LOOP_PAD_8 :: u8 where "LED_BEAT_LOOP_PAD_8 \<equiv> 0x18"
abbreviation (input) LED_PAD_FX1_PAD_1 :: u8 where "LED_PAD_FX1_PAD_1 \<equiv> 0x19"
abbreviation (input) LED_PAD_FX1_PAD_2 :: u8 where "LED_PAD_FX1_PAD_2 \<equiv> 0x1a"
abbreviation (input) LED_PAD_FX1_PAD_3 :: u8 where "LED_PAD_FX1_PAD_3 \<equiv> 0x1b"
abbreviation (input) LED_PAD_FX1_PAD_4 :: u8 where "LED_PAD_FX1_PAD_4 \<equiv> 0x1c"
abbreviation (input) LED_PAD_FX1_PAD_5 :: u8 where "LED_PAD_FX1_PAD_5 \<equiv> 0x1d"
abbreviation (input) LED_PAD_FX1_PAD_6 :: u8 where "LED_PAD_FX1_PAD_6 \<equiv> 0x1e"
abbreviation (input) LED_PAD_FX1_PAD_7 :: u8 where "LED_PAD_FX1_PAD_7 \<equiv> 0x1f"
abbreviation (input) LED_PAD_FX1_PAD_8 :: u8 where "LED_PAD_FX1_PAD_8 \<equiv> 0x20"
abbreviation (input) LED_PAD_FX2_PAD_1 :: u8 where "LED_PAD_FX2_PAD_1 \<equiv> 0x21"
abbreviation (input) LED_PAD_FX2_PAD_2 :: u8 where "LED_PAD_FX2_PAD_2 \<equiv> 0x22"
abbreviation (input) LED_PAD_FX2_PAD_3 :: u8 where "LED_PAD_FX2_PAD_3 \<equiv> 0x23"
abbreviation (input) LED_PAD_FX2_PAD_4 :: u8 where "LED_PAD_FX2_PAD_4 \<equiv> 0x24"
abbreviation (input) LED_PAD_FX2_PAD_5 :: u8 where "LED_PAD_FX2_PAD_5 \<equiv> 0x25"
abbreviation (input) LED_PAD_FX2_PAD_6 :: u8 where "LED_PAD_FX2_PAD_6 \<equiv> 0x26"
abbreviation (input) LED_PAD_FX2_PAD_7 :: u8 where "LED_PAD_FX2_PAD_7 \<equiv> 0x27"
abbreviation (input) LED_PAD_FX2_PAD_8 :: u8 where "LED_PAD_FX2_PAD_8 \<equiv> 0x28"
abbreviation (input) LED_SMART_CFX :: u8 where "LED_SMART_CFX \<equiv> 0x29"
abbreviation (input) LED_SMART_FADER :: u8 where "LED_SMART_FADER \<equiv> 0x2a"
abbreviation (input) LED_BEAT_FX_ON :: u8 where "LED_BEAT_FX_ON \<equiv> 0x2b"
abbreviation (input) LED_HOT_CUE_PAD_1 :: u8 where "LED_HOT_CUE_PAD_1 \<equiv> 0x2c"
abbreviation (input) LED_HOT_CUE_PAD_2 :: u8 where "LED_HOT_CUE_PAD_2 \<equiv> 0x2d"
abbreviation (input) LED_HOT_CUE_PAD_3 :: u8 where "LED_HOT_CUE_PAD_3 \<equiv> 0x2e"
abbreviation (input) LED_HOT_CUE_PAD_4 :: u8 where "LED_HOT_CUE_PAD_4 \<equiv> 0x2f"
abbreviation (input) LED_HOT_CUE_PAD_5 :: u8 where "LED_HOT_CUE_PAD_5 \<equiv> 0x30"
abbreviation (input) LED_HOT_CUE_PAD_6 :: u8 where "LED_HOT_CUE_PAD_6 \<equiv> 0x31"
abbreviation (input) LED_HOT_CUE_PAD_7 :: u8 where "LED_HOT_CUE_PAD_7 \<equiv> 0x32"
abbreviation (input) LED_HOT_CUE_PAD_8 :: u8 where "LED_HOT_CUE_PAD_8 \<equiv> 0x33"
abbreviation (input) LED_MASTER_CUE :: u8 where "LED_MASTER_CUE \<equiv> 0x34"
abbreviation (input) LED_CENSOR :: u8 where "LED_CENSOR \<equiv> 0x35"
abbreviation (input) LED_CUE_SHIFT :: u8 where "LED_CUE_SHIFT \<equiv> 0x36"
abbreviation (input) LED_LOOP_ADJUST_IN :: u8 where "LED_LOOP_ADJUST_IN \<equiv> 0x37"
abbreviation (input) LED_LOOP_ADJUST_OUT :: u8 where "LED_LOOP_ADJUST_OUT \<equiv> 0x38"
abbreviation (input) LED_TRACK_LOAD_DECK1 :: u8 where "LED_TRACK_LOAD_DECK1 \<equiv> 0x39"
abbreviation (input) LED_TRACK_LOAD_DECK2 :: u8 where "LED_TRACK_LOAD_DECK2 \<equiv> 0x3a"
abbreviation (input) LED_BEAT_JUMP_PAD_1 :: u8 where "LED_BEAT_JUMP_PAD_1 \<equiv> 0x3b"
abbreviation (input) LED_BEAT_JUMP_PAD_2 :: u8 where "LED_BEAT_JUMP_PAD_2 \<equiv> 0x3c"
abbreviation (input) LED_BEAT_JUMP_PAD_3 :: u8 where "LED_BEAT_JUMP_PAD_3 \<equiv> 0x3d"
abbreviation (input) LED_BEAT_JUMP_PAD_4 :: u8 where "LED_BEAT_JUMP_PAD_4 \<equiv> 0x3e"
abbreviation (input) LED_BEAT_JUMP_PAD_5 :: u8 where "LED_BEAT_JUMP_PAD_5 \<equiv> 0x3f"
abbreviation (input) LED_BEAT_JUMP_PAD_6 :: u8 where "LED_BEAT_JUMP_PAD_6 \<equiv> 0x40"
abbreviation (input) LED_BEAT_JUMP_PAD_7 :: u8 where "LED_BEAT_JUMP_PAD_7 \<equiv> 0x41"
abbreviation (input) LED_BEAT_JUMP_PAD_8 :: u8 where "LED_BEAT_JUMP_PAD_8 \<equiv> 0x42"
abbreviation (input) LED_BEAT_JUMP_SHIFT_HELPER_7 :: u8 where "LED_BEAT_JUMP_SHIFT_HELPER_7 \<equiv> 0x43"
abbreviation (input) LED_BEAT_JUMP_SHIFT_HELPER_8 :: u8 where "LED_BEAT_JUMP_SHIFT_HELPER_8 \<equiv> 0x44"
abbreviation (input) LED_REMOTE_COUNT :: u8 where "LED_REMOTE_COUNT \<equiv> 0x45"

abbreviation (input) CTRL_PAD_MODE_HOT_CUE :: u8 where "CTRL_PAD_MODE_HOT_CUE \<equiv> 0"
abbreviation (input) CTRL_PAD_MODE_BEAT_LOOP :: u8 where "CTRL_PAD_MODE_BEAT_LOOP \<equiv> 1"
abbreviation (input) CTRL_PAD_MODE_BEAT_JUMP :: u8 where "CTRL_PAD_MODE_BEAT_JUMP \<equiv> 0x2"
abbreviation (input) CTRL_PAD_MODE_KEY_SHIFT :: u8 where "CTRL_PAD_MODE_KEY_SHIFT \<equiv> 0x3"
abbreviation (input) CTRL_PAD_MODE_KEYBOARD :: u8 where "CTRL_PAD_MODE_KEYBOARD \<equiv> 0x4"
abbreviation (input) CTRL_PAD_MODE_PAD_FX1 :: u8 where "CTRL_PAD_MODE_PAD_FX1 \<equiv> 0x5"
abbreviation (input) CTRL_PAD_MODE_PAD_FX2 :: u8 where "CTRL_PAD_MODE_PAD_FX2 \<equiv> 0x6"
abbreviation (input) CTRL_PAD_MODE_SAMPLER :: u8 where "CTRL_PAD_MODE_SAMPLER \<equiv> 0x7"

abbreviation (input) CTRL_DECK_EXT_ACTION_CENSOR :: u8 where "CTRL_DECK_EXT_ACTION_CENSOR \<equiv> 0"
abbreviation (input) CTRL_DECK_EXT_ACTION_SYNC_MASTER :: u8 where "CTRL_DECK_EXT_ACTION_SYNC_MASTER \<equiv> 1"
abbreviation (input) CTRL_DECK_EXT_ACTION_RELOOP_STOP :: u8 where "CTRL_DECK_EXT_ACTION_RELOOP_STOP \<equiv> 0x2"
abbreviation (input) CTRL_DECK_EXT_ACTION_LOOP_ADJUST_IN :: u8 where "CTRL_DECK_EXT_ACTION_LOOP_ADJUST_IN \<equiv> 0x3"
abbreviation (input) CTRL_DECK_EXT_ACTION_LOOP_ADJUST_OUT :: u8 where "CTRL_DECK_EXT_ACTION_LOOP_ADJUST_OUT \<equiv> 0x4"
abbreviation (input) CTRL_DECK_EXT_ACTION_QUANTIZE :: u8 where "CTRL_DECK_EXT_ACTION_QUANTIZE \<equiv> 0x5"
abbreviation (input) CTRL_DECK_EXT_ACTION_SYNC_OFF :: u8 where "CTRL_DECK_EXT_ACTION_SYNC_OFF \<equiv> 0x6"
abbreviation (input) CTRL_ID_FLX4_CONNECTION :: u8 where "CTRL_ID_FLX4_CONNECTION \<equiv> 0x70"
abbreviation (input) CTRL_ID_SMART_CFX :: u8 where "CTRL_ID_SMART_CFX \<equiv> 0x71"
abbreviation (input) CTRL_ID_SMART_FADER :: u8 where "CTRL_ID_SMART_FADER \<equiv> 0x72"
abbreviation (input) CTRL_ID_BEAT_FX_SELECT_NEXT :: u8 where "CTRL_ID_BEAT_FX_SELECT_NEXT \<equiv> 0x73"
abbreviation (input) CTRL_ID_BEAT_FX_SELECT_PREV :: u8 where "CTRL_ID_BEAT_FX_SELECT_PREV \<equiv> 0x74"
abbreviation (input) CTRL_ID_BEAT_FX_BEAT_DEC :: u8 where "CTRL_ID_BEAT_FX_BEAT_DEC \<equiv> 0x75"
abbreviation (input) CTRL_ID_BEAT_FX_BEAT_INC :: u8 where "CTRL_ID_BEAT_FX_BEAT_INC \<equiv> 0x76"
abbreviation (input) CTRL_ID_BEAT_FX_TARGET :: u8 where "CTRL_ID_BEAT_FX_TARGET \<equiv> 0x77"
abbreviation (input) CTRL_ID_BEAT_FX_DEPTH :: u8 where "CTRL_ID_BEAT_FX_DEPTH \<equiv> 0x78"
abbreviation (input) CTRL_ID_BEAT_FX_ON :: u8 where "CTRL_ID_BEAT_FX_ON \<equiv> 0x79"
abbreviation (input) CTRL_ID_BEAT_FX_CLEAR :: u8 where "CTRL_ID_BEAT_FX_CLEAR \<equiv> 0x7a"
abbreviation (input) CTRL_ID_MASTER_VOLUME :: u8 where "CTRL_ID_MASTER_VOLUME \<equiv> 0x7b"
abbreviation (input) CTRL_ID_MASTER_CUE :: u8 where "CTRL_ID_MASTER_CUE \<equiv> 0x7c"
abbreviation (input) CTRL_ID_HEADPHONE_LEVEL :: u8 where "CTRL_ID_HEADPHONE_LEVEL \<equiv> 0x7d"
abbreviation (input) CTRL_ID_SMART_CFX_SHIFT :: u8 where "CTRL_ID_SMART_CFX_SHIFT \<equiv> 0x7e"
abbreviation (input) CTRL_ID_SMART_FADER_SHIFT :: u8 where "CTRL_ID_SMART_FADER_SHIFT \<equiv> 0x7f"
abbreviation (input) CTRL_ID_BEAT_FX_BEAT_DEC_SHIFT :: u8 where "CTRL_ID_BEAT_FX_BEAT_DEC_SHIFT \<equiv> 0x83"
abbreviation (input) CTRL_ID_BEAT_FX_BEAT_INC_SHIFT :: u8 where "CTRL_ID_BEAT_FX_BEAT_INC_SHIFT \<equiv> 0x84"
abbreviation (input) CTRL_ID_S3_DEBUG_AP :: u8 where "CTRL_ID_S3_DEBUG_AP \<equiv> 0x85"
abbreviation (input) CTRL_ID_S3_BOOT_CHALLENGE :: u8 where "CTRL_ID_S3_BOOT_CHALLENGE \<equiv> 0x86"
abbreviation (input) CTRL_ID_S3_BOOT_ACK :: u8 where "CTRL_ID_S3_BOOT_ACK \<equiv> 0x87"
abbreviation (input) CTRL_ID_S3_DEBUG_TOKEN_HI :: u8 where "CTRL_ID_S3_DEBUG_TOKEN_HI \<equiv> 0x88"
abbreviation (input) CTRL_ID_S3_DEBUG_TOKEN_LO :: u8 where "CTRL_ID_S3_DEBUG_TOKEN_LO \<equiv> 0x89"
abbreviation (input) CTRL_BULK_TYPE_CONTROLLER_DESCRIPTOR :: u8 where "CTRL_BULK_TYPE_CONTROLLER_DESCRIPTOR \<equiv> 1"
abbreviation (input) CTRL_BULK_TYPE_PROFILE_BEGIN :: u8 where "CTRL_BULK_TYPE_PROFILE_BEGIN \<equiv> 0x2"
abbreviation (input) CTRL_BULK_TYPE_PROFILE_CHUNK :: u8 where "CTRL_BULK_TYPE_PROFILE_CHUNK \<equiv> 0x3"
abbreviation (input) CTRL_BULK_TYPE_PROFILE_END :: u8 where "CTRL_BULK_TYPE_PROFILE_END \<equiv> 0x4"
abbreviation (input) CTRL_BULK_TYPE_PROFILE_ACK :: u8 where "CTRL_BULK_TYPE_PROFILE_ACK \<equiv> 0x5"
abbreviation (input) CTRL_BULK_TYPE_PROFILE_NACK :: u8 where "CTRL_BULK_TYPE_PROFILE_NACK \<equiv> 0x6"
abbreviation (input) CTRL_BULK_TYPE_PROFILE_ACTIVATE :: u8 where "CTRL_BULK_TYPE_PROFILE_ACTIVATE \<equiv> 0x7"
abbreviation (input) CTRL_BULK_TYPE_PROFILE_STATUS :: u8 where "CTRL_BULK_TYPE_PROFILE_STATUS \<equiv> 0x8"
abbreviation (input) CTRL_BULK_TYPE_PROFILE_CLEAR :: u8 where "CTRL_BULK_TYPE_PROFILE_CLEAR \<equiv> 0x9"
abbreviation (input) CTRL_BULK_TYPE_FIRMWARE_REPORT :: u8 where "CTRL_BULK_TYPE_FIRMWARE_REPORT \<equiv> 0xa"

abbreviation (input) CTRL_PROFILE_NACK_NONE :: u8 where "CTRL_PROFILE_NACK_NONE \<equiv> 0"
abbreviation (input) CTRL_PROFILE_NACK_SIZE :: u8 where "CTRL_PROFILE_NACK_SIZE \<equiv> 1"
abbreviation (input) CTRL_PROFILE_NACK_STATE :: u8 where "CTRL_PROFILE_NACK_STATE \<equiv> 0x2"
abbreviation (input) CTRL_PROFILE_NACK_OFFSET :: u8 where "CTRL_PROFILE_NACK_OFFSET \<equiv> 0x3"
abbreviation (input) CTRL_PROFILE_NACK_CRC :: u8 where "CTRL_PROFILE_NACK_CRC \<equiv> 0x4"
abbreviation (input) CTRL_PROFILE_NACK_PARSE :: u8 where "CTRL_PROFILE_NACK_PARSE \<equiv> 0x5"

abbreviation (input) CTRL_PROFILE_STATE_IDLE :: u8 where "CTRL_PROFILE_STATE_IDLE \<equiv> 0"
abbreviation (input) CTRL_PROFILE_STATE_RECEIVING :: u8 where "CTRL_PROFILE_STATE_RECEIVING \<equiv> 1"
abbreviation (input) CTRL_PROFILE_STATE_STORED :: u8 where "CTRL_PROFILE_STATE_STORED \<equiv> 0x2"
abbreviation (input) CTRL_PROFILE_STATE_ACTIVE :: u8 where "CTRL_PROFILE_STATE_ACTIVE \<equiv> 0x3"
abbreviation (input) CTRL_PROFILE_STATE_ERROR :: u8 where "CTRL_PROFILE_STATE_ERROR \<equiv> 0x4"

abbreviation (input) CTRL_FLX4_DISCONNECTED :: u8 where "CTRL_FLX4_DISCONNECTED \<equiv> 0"
abbreviation (input) CTRL_FLX4_CONNECTED :: u8 where "CTRL_FLX4_CONNECTED \<equiv> 1"
abbreviation (input) CTRL_ID_DECK1_PLAY :: u8 where "CTRL_ID_DECK1_PLAY \<equiv> 0x10"
abbreviation (input) CTRL_ID_DECK1_CUE :: u8 where "CTRL_ID_DECK1_CUE \<equiv> 0x11"
abbreviation (input) CTRL_ID_DECK1_JOG_SCRATCH :: u8 where "CTRL_ID_DECK1_JOG_SCRATCH \<equiv> 0x12"
abbreviation (input) CTRL_ID_DECK1_JOG_BEND :: u8 where "CTRL_ID_DECK1_JOG_BEND \<equiv> 0x13"
abbreviation (input) CTRL_ID_DECK1_JOG_TOUCH :: u8 where "CTRL_ID_DECK1_JOG_TOUCH \<equiv> 0x14"
abbreviation (input) CTRL_ID_DECK1_TEMPO :: u8 where "CTRL_ID_DECK1_TEMPO \<equiv> 0x15"
abbreviation (input) CTRL_ID_DECK1_SHIFT :: u8 where "CTRL_ID_DECK1_SHIFT \<equiv> 0x16"
abbreviation (input) CTRL_ID_DECK1_TO_START :: u8 where "CTRL_ID_DECK1_TO_START \<equiv> 0x17"
abbreviation (input) CTRL_ID_DECK1_SYNC :: u8 where "CTRL_ID_DECK1_SYNC \<equiv> 0x18"
abbreviation (input) CTRL_ID_DECK1_TEMPO_RANGE :: u8 where "CTRL_ID_DECK1_TEMPO_RANGE \<equiv> 0x19"
abbreviation (input) CTRL_ID_DECK1_LOOP_IN :: u8 where "CTRL_ID_DECK1_LOOP_IN \<equiv> 0x1a"
abbreviation (input) CTRL_ID_DECK1_LOOP_OUT :: u8 where "CTRL_ID_DECK1_LOOP_OUT \<equiv> 0x1b"
abbreviation (input) CTRL_ID_DECK1_RELOOP_EXIT :: u8 where "CTRL_ID_DECK1_RELOOP_EXIT \<equiv> 0x1c"
abbreviation (input) CTRL_ID_DECK1_LOOP_HALVE :: u8 where "CTRL_ID_DECK1_LOOP_HALVE \<equiv> 0x1d"
abbreviation (input) CTRL_ID_DECK1_LOOP_DOUBLE :: u8 where "CTRL_ID_DECK1_LOOP_DOUBLE \<equiv> 0x1e"
abbreviation (input) CTRL_ID_DECK1_BEAT_JUMP_BACK :: u8 where "CTRL_ID_DECK1_BEAT_JUMP_BACK \<equiv> 0x1f"
abbreviation (input) CTRL_ID_DECK1_BEAT_JUMP_FORWARD :: u8 where "CTRL_ID_DECK1_BEAT_JUMP_FORWARD \<equiv> 0x20"
abbreviation (input) CTRL_ID_DECK1_PAD_MODE_HOT_CUE :: u8 where "CTRL_ID_DECK1_PAD_MODE_HOT_CUE \<equiv> 0x21"
abbreviation (input) CTRL_ID_DECK1_PAD_MODE_BEAT_LOOP :: u8 where "CTRL_ID_DECK1_PAD_MODE_BEAT_LOOP \<equiv> 0x22"
abbreviation (input) CTRL_ID_DECK1_PAD_MODE_BEAT_JUMP :: u8 where "CTRL_ID_DECK1_PAD_MODE_BEAT_JUMP \<equiv> 0x23"
abbreviation (input) CTRL_ID_DECK1_PAD_MODE_KEY_SHIFT :: u8 where "CTRL_ID_DECK1_PAD_MODE_KEY_SHIFT \<equiv> 0x24"
abbreviation (input) CTRL_ID_DECK1_PAD_ACTION :: u8 where "CTRL_ID_DECK1_PAD_ACTION \<equiv> 0x25"
abbreviation (input) CTRL_ID_DECK1_PAD_MODE_KEYBOARD :: u8 where "CTRL_ID_DECK1_PAD_MODE_KEYBOARD \<equiv> 0x26"
abbreviation (input) CTRL_ID_DECK1_PAD_MODE_PAD_FX1 :: u8 where "CTRL_ID_DECK1_PAD_MODE_PAD_FX1 \<equiv> 0x27"
abbreviation (input) CTRL_ID_DECK1_PAD_MODE_PAD_FX2 :: u8 where "CTRL_ID_DECK1_PAD_MODE_PAD_FX2 \<equiv> 0x28"
abbreviation (input) CTRL_ID_DECK1_PAD_MODE_SAMPLER :: u8 where "CTRL_ID_DECK1_PAD_MODE_SAMPLER \<equiv> 0x29"
abbreviation (input) CTRL_ID_DECK1_JOG_SEARCH :: u8 where "CTRL_ID_DECK1_JOG_SEARCH \<equiv> 0x2a"
abbreviation (input) CTRL_ID_DECK1_JOG_SEARCH_TOUCH :: u8 where "CTRL_ID_DECK1_JOG_SEARCH_TOUCH \<equiv> 0x2b"
abbreviation (input) CTRL_ID_DECK1_EXT_ACTION :: u8 where "CTRL_ID_DECK1_EXT_ACTION \<equiv> 0x2c"
abbreviation (input) CTRL_ID_DECK1_LOOP_SIZE :: u8 where "CTRL_ID_DECK1_LOOP_SIZE \<equiv> 0x2d"
abbreviation (input) CTRL_ID_DECK2_PLAY :: u8 where "CTRL_ID_DECK2_PLAY \<equiv> 0x30"
abbreviation (input) CTRL_ID_DECK2_CUE :: u8 where "CTRL_ID_DECK2_CUE \<equiv> 0x31"
abbreviation (input) CTRL_ID_DECK2_JOG_SCRATCH :: u8 where "CTRL_ID_DECK2_JOG_SCRATCH \<equiv> 0x32"
abbreviation (input) CTRL_ID_DECK2_JOG_BEND :: u8 where "CTRL_ID_DECK2_JOG_BEND \<equiv> 0x33"
abbreviation (input) CTRL_ID_DECK2_JOG_TOUCH :: u8 where "CTRL_ID_DECK2_JOG_TOUCH \<equiv> 0x34"
abbreviation (input) CTRL_ID_DECK2_TEMPO :: u8 where "CTRL_ID_DECK2_TEMPO \<equiv> 0x35"
abbreviation (input) CTRL_ID_DECK2_SHIFT :: u8 where "CTRL_ID_DECK2_SHIFT \<equiv> 0x36"
abbreviation (input) CTRL_ID_DECK2_TO_START :: u8 where "CTRL_ID_DECK2_TO_START \<equiv> 0x37"
abbreviation (input) CTRL_ID_DECK2_SYNC :: u8 where "CTRL_ID_DECK2_SYNC \<equiv> 0x38"
abbreviation (input) CTRL_ID_DECK2_TEMPO_RANGE :: u8 where "CTRL_ID_DECK2_TEMPO_RANGE \<equiv> 0x39"
abbreviation (input) CTRL_ID_DECK2_LOOP_IN :: u8 where "CTRL_ID_DECK2_LOOP_IN \<equiv> 0x3a"
abbreviation (input) CTRL_ID_DECK2_LOOP_OUT :: u8 where "CTRL_ID_DECK2_LOOP_OUT \<equiv> 0x3b"
abbreviation (input) CTRL_ID_DECK2_RELOOP_EXIT :: u8 where "CTRL_ID_DECK2_RELOOP_EXIT \<equiv> 0x3c"
abbreviation (input) CTRL_ID_DECK2_LOOP_HALVE :: u8 where "CTRL_ID_DECK2_LOOP_HALVE \<equiv> 0x3d"
abbreviation (input) CTRL_ID_DECK2_LOOP_DOUBLE :: u8 where "CTRL_ID_DECK2_LOOP_DOUBLE \<equiv> 0x3e"
abbreviation (input) CTRL_ID_DECK2_BEAT_JUMP_BACK :: u8 where "CTRL_ID_DECK2_BEAT_JUMP_BACK \<equiv> 0x3f"
abbreviation (input) CTRL_ID_DECK2_BEAT_JUMP_FORWARD :: u8 where "CTRL_ID_DECK2_BEAT_JUMP_FORWARD \<equiv> 0x40"
abbreviation (input) CTRL_ID_DECK2_PAD_MODE_HOT_CUE :: u8 where "CTRL_ID_DECK2_PAD_MODE_HOT_CUE \<equiv> 0x41"
abbreviation (input) CTRL_ID_DECK2_PAD_MODE_BEAT_LOOP :: u8 where "CTRL_ID_DECK2_PAD_MODE_BEAT_LOOP \<equiv> 0x42"
abbreviation (input) CTRL_ID_DECK2_PAD_MODE_BEAT_JUMP :: u8 where "CTRL_ID_DECK2_PAD_MODE_BEAT_JUMP \<equiv> 0x43"
abbreviation (input) CTRL_ID_DECK2_PAD_MODE_KEY_SHIFT :: u8 where "CTRL_ID_DECK2_PAD_MODE_KEY_SHIFT \<equiv> 0x44"
abbreviation (input) CTRL_ID_DECK2_PAD_ACTION :: u8 where "CTRL_ID_DECK2_PAD_ACTION \<equiv> 0x45"
abbreviation (input) CTRL_ID_DECK2_PAD_MODE_KEYBOARD :: u8 where "CTRL_ID_DECK2_PAD_MODE_KEYBOARD \<equiv> 0x46"
abbreviation (input) CTRL_ID_DECK2_PAD_MODE_PAD_FX1 :: u8 where "CTRL_ID_DECK2_PAD_MODE_PAD_FX1 \<equiv> 0x47"
abbreviation (input) CTRL_ID_DECK2_PAD_MODE_PAD_FX2 :: u8 where "CTRL_ID_DECK2_PAD_MODE_PAD_FX2 \<equiv> 0x48"
abbreviation (input) CTRL_ID_DECK2_PAD_MODE_SAMPLER :: u8 where "CTRL_ID_DECK2_PAD_MODE_SAMPLER \<equiv> 0x49"
abbreviation (input) CTRL_ID_DECK2_JOG_SEARCH :: u8 where "CTRL_ID_DECK2_JOG_SEARCH \<equiv> 0x4a"
abbreviation (input) CTRL_ID_DECK2_JOG_SEARCH_TOUCH :: u8 where "CTRL_ID_DECK2_JOG_SEARCH_TOUCH \<equiv> 0x4b"
abbreviation (input) CTRL_ID_DECK2_EXT_ACTION :: u8 where "CTRL_ID_DECK2_EXT_ACTION \<equiv> 0x4c"
abbreviation (input) CTRL_ID_DECK2_LOOP_SIZE :: u8 where "CTRL_ID_DECK2_LOOP_SIZE \<equiv> 0x4d"
abbreviation (input) CTRL_ID_CH1_VOLUME :: u8 where "CTRL_ID_CH1_VOLUME \<equiv> 0x50"
abbreviation (input) CTRL_ID_CH2_VOLUME :: u8 where "CTRL_ID_CH2_VOLUME \<equiv> 0x51"
abbreviation (input) CTRL_ID_CROSSFADER :: u8 where "CTRL_ID_CROSSFADER \<equiv> 0x52"
abbreviation (input) CTRL_ID_DECK1_PFL :: u8 where "CTRL_ID_DECK1_PFL \<equiv> 0x53"
abbreviation (input) CTRL_ID_DECK2_PFL :: u8 where "CTRL_ID_DECK2_PFL \<equiv> 0x54"
abbreviation (input) CTRL_ID_CH1_TRIM :: u8 where "CTRL_ID_CH1_TRIM \<equiv> 0x55"
abbreviation (input) CTRL_ID_CH2_TRIM :: u8 where "CTRL_ID_CH2_TRIM \<equiv> 0x56"
abbreviation (input) CTRL_ID_CH1_EQ_HIGH :: u8 where "CTRL_ID_CH1_EQ_HIGH \<equiv> 0x57"
abbreviation (input) CTRL_ID_CH2_EQ_HIGH :: u8 where "CTRL_ID_CH2_EQ_HIGH \<equiv> 0x58"
abbreviation (input) CTRL_ID_CH1_EQ_MID :: u8 where "CTRL_ID_CH1_EQ_MID \<equiv> 0x59"
abbreviation (input) CTRL_ID_CH2_EQ_MID :: u8 where "CTRL_ID_CH2_EQ_MID \<equiv> 0x5a"
abbreviation (input) CTRL_ID_CH1_EQ_LOW :: u8 where "CTRL_ID_CH1_EQ_LOW \<equiv> 0x5b"
abbreviation (input) CTRL_ID_CH2_EQ_LOW :: u8 where "CTRL_ID_CH2_EQ_LOW \<equiv> 0x5c"
abbreviation (input) CTRL_ID_CH1_FILTER :: u8 where "CTRL_ID_CH1_FILTER \<equiv> 0x5d"
abbreviation (input) CTRL_ID_CH2_FILTER :: u8 where "CTRL_ID_CH2_FILTER \<equiv> 0x5e"
abbreviation (input) CTRL_ID_HEADPHONE_MIX :: u8 where "CTRL_ID_HEADPHONE_MIX \<equiv> 0x5f"
abbreviation (input) CTRL_ID_BROWSE_DELTA :: u8 where "CTRL_ID_BROWSE_DELTA \<equiv> 0x60"
abbreviation (input) CTRL_ID_LOAD_DECK1 :: u8 where "CTRL_ID_LOAD_DECK1 \<equiv> 0x61"
abbreviation (input) CTRL_ID_LOAD_DECK2 :: u8 where "CTRL_ID_LOAD_DECK2 \<equiv> 0x62"
abbreviation (input) CTRL_ID_BROWSE_PRESS :: u8 where "CTRL_ID_BROWSE_PRESS \<equiv> 0x63"
abbreviation (input) CTRL_ID_BROWSE_SHIFT_DELTA :: u8 where "CTRL_ID_BROWSE_SHIFT_DELTA \<equiv> 0x64"
abbreviation (input) CTRL_ID_BROWSE_SHIFT_PRESS :: u8 where "CTRL_ID_BROWSE_SHIFT_PRESS \<equiv> 0x65"
abbreviation (input) CTRL_ID_SHIFT_LOAD_DECK1 :: u8 where "CTRL_ID_SHIFT_LOAD_DECK1 \<equiv> 0x66"
abbreviation (input) CTRL_ID_SHIFT_LOAD_DECK2 :: u8 where "CTRL_ID_SHIFT_LOAD_DECK2 \<equiv> 0x67"

section \<open>Packed values\<close>

definition CTRL_PAD_ACTION_VALUE :: "u8 \<Rightarrow> u8 \<Rightarrow> bool \<Rightarrow> bool \<Rightarrow> i16" where
  "CTRL_PAD_ACTION_VALUE mode pad shifted pressed =
     ucast (pad AND 0x07) OR push_bit 3 (ucast (mode AND 0x07)) OR
     (if shifted then 0x40 else 0) OR (if pressed then 0x80 else 0)"

definition CTRL_PAD_ACTION_PAD :: "i16 \<Rightarrow> u8" where
  "CTRL_PAD_ACTION_PAD value = ucast (value AND 0x07)"

definition CTRL_PAD_ACTION_MODE :: "i16 \<Rightarrow> u8" where
  "CTRL_PAD_ACTION_MODE value = ucast (drop_bit 3 value AND 0x07)"

definition CTRL_PAD_ACTION_SHIFTED :: "i16 \<Rightarrow> bool" where
  "CTRL_PAD_ACTION_SHIFTED value \<longleftrightarrow> value AND 0x40 \<noteq> 0"

definition CTRL_PAD_ACTION_PRESSED :: "i16 \<Rightarrow> bool" where
  "CTRL_PAD_ACTION_PRESSED value \<longleftrightarrow> value AND 0x80 \<noteq> 0"

definition CTRL_DECK_EXT_VALUE :: "u8 \<Rightarrow> bool \<Rightarrow> i16" where
  "CTRL_DECK_EXT_VALUE action pressed = ucast (action AND 0x7F) OR (if pressed then 0x80 else 0)"

definition CTRL_DECK_EXT_ACTION :: "i16 \<Rightarrow> u8" where
  "CTRL_DECK_EXT_ACTION value = ucast (value AND 0x7F)"

definition CTRL_DECK_EXT_PRESSED :: "i16 \<Rightarrow> bool" where
  "CTRL_DECK_EXT_PRESSED value \<longleftrightarrow> value AND 0x80 \<noteq> 0"

section \<open>Decoding a semantic id\<close>

definition control_link_id_is_deck :: "u8 \<Rightarrow> bool" where
  "control_link_id_is_deck cid \<longleftrightarrow>
     (cid \<ge> CTRL_NS_DECK1 \<and> cid < CTRL_NS_DECK1 + 0x20) \<or>
     (cid \<ge> CTRL_NS_DECK2 \<and> cid < CTRL_NS_DECK2 + 0x20)"

definition control_link_id_deck :: "u8 \<Rightarrow> u8" where
  "control_link_id_deck cid =
     (if cid \<ge> CTRL_NS_DECK1 \<and> cid < CTRL_NS_DECK1 + 0x20 then CTRL_DECK_1
      else if cid \<ge> CTRL_NS_DECK2 \<and> cid < CTRL_NS_DECK2 + 0x20 then CTRL_DECK_2
      else CTRL_DECK_NONE)"

definition control_link_id_control :: "u8 \<Rightarrow> u8" where
  "control_link_id_control cid =
     (if cid \<ge> CTRL_NS_DECK1 \<and> cid < CTRL_NS_DECK1 + 0x20 then cid - CTRL_NS_DECK1
      else if cid \<ge> CTRL_NS_DECK2 \<and> cid < CTRL_NS_DECK2 + 0x20 then cid - CTRL_NS_DECK2
      else cid)"

definition control_link_id_is_deck_jog :: "u8 \<Rightarrow> bool" where
  "control_link_id_is_deck_jog cid \<longleftrightarrow>
     (if \<not> control_link_id_is_deck cid then False
      else let ctl = control_link_id_control cid in
        ctl = CTRL_DECK_CTL_JOG_SCRATCH \<or> ctl = CTRL_DECK_CTL_JOG_BEND \<or>
        ctl = CTRL_DECK_CTL_JOG_SEARCH \<or> ctl = CTRL_DECK_CTL_LOOP_SIZE)"

lemma mask7: "(0x07 :: 'a::len word) = mask 3"
  by (simp add: mask_eq_exp_minus_1)

lemma mask7f: "(0x7F :: 'a::len word) = mask 7"
  by (simp add: mask_eq_exp_minus_1)

lemma and_flag_iff:
  "(v AND 0x40 = 0) \<longleftrightarrow> \<not> bit (v :: i16) 6"
  "(v AND 0x80 = 0) \<longleftrightarrow> \<not> bit (v :: i16) 7"
  by (simp_all add: bit_iff_and_push_bit_not_eq_0)

lemma flag_push_bit:
  "(if b then 0x40 else 0 :: i16) = push_bit 6 (of_bool b)"
  "(if b then 0x80 else 0 :: i16) = push_bit 7 (of_bool b)"
  by simp_all

lemma bit_pad_action [simp]:
  "bit (CTRL_PAD_ACTION_VALUE mode pad shifted pressed) n \<longleftrightarrow>
     (n < 3 \<and> bit pad n) \<or> (3 \<le> n \<and> n < 6 \<and> bit mode (n - 3)) \<or> (n = 6 \<and> shifted) \<or> (n = 7 \<and> pressed)"
proof -
  consider "n < 3" | "n = 3" | "n = 4" | "n = 5" | "n = 6" | "n = 7" | "7 < n" by linarith
  then show ?thesis
    unfolding CTRL_PAD_ACTION_VALUE_def flag_push_bit mask7 by cases (simp_all add: bit_simps, linarith)
qed

text \<open>The packed pad value keeps its four fields apart.\<close>

lemma pad_action_fields:
  "CTRL_PAD_ACTION_PAD (CTRL_PAD_ACTION_VALUE mode pad shifted pressed) = pad AND 0x07"
  "CTRL_PAD_ACTION_MODE (CTRL_PAD_ACTION_VALUE mode pad shifted pressed) = mode AND 0x07"
  "CTRL_PAD_ACTION_SHIFTED (CTRL_PAD_ACTION_VALUE mode pad shifted pressed) = shifted"
  "CTRL_PAD_ACTION_PRESSED (CTRL_PAD_ACTION_VALUE mode pad shifted pressed) = pressed"
proof -
  show "CTRL_PAD_ACTION_PAD (CTRL_PAD_ACTION_VALUE mode pad shifted pressed) = pad AND 0x07"
    unfolding CTRL_PAD_ACTION_PAD_def mask7 by (rule bit_word_eqI) (auto simp: bit_simps)
  show "CTRL_PAD_ACTION_MODE (CTRL_PAD_ACTION_VALUE mode pad shifted pressed) = mode AND 0x07"
    unfolding CTRL_PAD_ACTION_MODE_def mask7 by (rule bit_word_eqI) (auto simp: bit_simps)
qed (simp_all add: CTRL_PAD_ACTION_SHIFTED_def CTRL_PAD_ACTION_PRESSED_def and_flag_iff)

lemma ext_value_fields:
  "CTRL_DECK_EXT_ACTION (CTRL_DECK_EXT_VALUE action pressed) = action AND 0x7F"
  "CTRL_DECK_EXT_PRESSED (CTRL_DECK_EXT_VALUE action pressed) = pressed"
proof -
  have b: "bit (CTRL_DECK_EXT_VALUE action pressed) n \<longleftrightarrow> (n < 7 \<and> bit action n) \<or> (n = 7 \<and> pressed)" for n
    unfolding CTRL_DECK_EXT_VALUE_def flag_push_bit mask7f by (auto simp: bit_simps)
  show "CTRL_DECK_EXT_ACTION (CTRL_DECK_EXT_VALUE action pressed) = action AND 0x7F"
    unfolding CTRL_DECK_EXT_ACTION_def mask7f by (rule bit_word_eqI) (auto simp: bit_simps b)
  show "CTRL_DECK_EXT_PRESSED (CTRL_DECK_EXT_VALUE action pressed) = pressed"
    by (simp add: CTRL_DECK_EXT_PRESSED_def and_flag_iff b)
qed

end
