(* ===== verification/Held_State.thy ===== *)
theory Held_State
  imports Control_Ids
begin

text \<open>
  Durable held-control state (\<open>control_state_reconciler.h\<close>), used by the S3 translator and by
  the P4 receiver.  Each held control has a fixed slot.  A slot remembers the last observed level, the
  last level handed to the next stage and whether the two differ.  \<open>control_held_state_key\<close> returns -1
  for a control that is not held; here that is \<open>None\<close>.
\<close>

section \<open>State and operations\<close>

abbreviation (input) CONTROL_HELD_SIMPLE_COUNT :: nat where "CONTROL_HELD_SIMPLE_COUNT \<equiv> 6"
abbreviation (input) CONTROL_HELD_PER_DECK_PAD_COUNT :: nat where "CONTROL_HELD_PER_DECK_PAD_COUNT \<equiv> 24"
abbreviation (input) CONTROL_HELD_STATE_COUNT :: nat where "CONTROL_HELD_STATE_COUNT \<equiv> 54"

record control_held_state_slot =
  observed :: bool
  scheduled_valid :: bool
  dirty :: bool
  held_id :: u8
  desired_value :: i16
  scheduled_value :: i16
  sequence :: u8

type_synonym control_held_state_reconciler = "control_held_state_slot list"

definition control_held_state_key :: "u8 \<Rightarrow> i16 \<Rightarrow> nat option" where
  "control_held_state_key cid value =
     (if cid = CTRL_ID_DECK1_JOG_TOUCH then Some 0
      else if cid = CTRL_ID_DECK2_JOG_TOUCH then Some 1
      else if cid = CTRL_ID_DECK1_SHIFT then Some 2
      else if cid = CTRL_ID_DECK2_SHIFT then Some 3
      else if cid = CTRL_ID_DECK1_EXT_ACTION then
        (if CTRL_DECK_EXT_ACTION value = CTRL_DECK_EXT_ACTION_CENSOR then Some 4 else None)
      else if cid = CTRL_ID_DECK2_EXT_ACTION then
        (if CTRL_DECK_EXT_ACTION value = CTRL_DECK_EXT_ACTION_CENSOR then Some 5 else None)
      else if cid = CTRL_ID_DECK1_PAD_ACTION \<or> cid = CTRL_ID_DECK2_PAD_ACTION then
        let mode = CTRL_PAD_ACTION_MODE value;
            pad = CTRL_PAD_ACTION_PAD value;
            deck_offset = (if cid = CTRL_ID_DECK2_PAD_ACTION then CONTROL_HELD_PER_DECK_PAD_COUNT else 0);
            key = (\<lambda>mode_offset. Some (CONTROL_HELD_SIMPLE_COUNT + deck_offset + mode_offset + unat pad))
        in if mode = CTRL_PAD_MODE_PAD_FX1 then key 0
           else if mode = CTRL_PAD_MODE_PAD_FX2 then key 8
           else if mode = CTRL_PAD_MODE_BEAT_LOOP \<and> CTRL_PAD_ACTION_SHIFTED value then key 16
           else None
      else None)"

definition control_held_state_release_value :: "u8 \<Rightarrow> i16 \<Rightarrow> i16" where
  "control_held_state_release_value cid value =
     (if cid = CTRL_ID_DECK1_EXT_ACTION \<or> cid = CTRL_ID_DECK2_EXT_ACTION then value AND 0x7F
      else if cid = CTRL_ID_DECK1_PAD_ACTION \<or> cid = CTRL_ID_DECK2_PAD_ACTION then value AND NOT 0x80
      else 0)"

definition control_held_state_reset :: control_held_state_reconciler where
  "control_held_state_reset = replicate CONTROL_HELD_STATE_COUNT
     \<lparr>observed = False, scheduled_valid = False, dirty = False, held_id = 0,
      desired_value = 0, scheduled_value = 0, sequence = 0\<rparr>"

definition observe_slot :: "control_held_state_slot \<Rightarrow> u8 \<Rightarrow> i16 \<Rightarrow> u8 \<Rightarrow> control_held_state_slot" where
  "observe_slot slot cid value sq =
     slot\<lparr>observed := True, held_id := cid, desired_value := value, sequence := sq,
          dirty := (\<not> scheduled_valid slot \<or> scheduled_value slot \<noteq> value)\<rparr>"

definition control_held_state_observe ::
    "control_held_state_reconciler \<Rightarrow> u8 \<Rightarrow> i16 \<Rightarrow> u8 \<Rightarrow> control_held_state_reconciler \<times> nat option" where
  "control_held_state_observe state cid value sq =
     (case control_held_state_key cid value of
        None \<Rightarrow> (state, None)
      | Some key \<Rightarrow> (state[key := observe_slot (state ! key) cid value sq], Some key))"

definition control_held_state_mark_scheduled ::
    "control_held_state_reconciler \<Rightarrow> int \<Rightarrow> i16 \<Rightarrow> control_held_state_reconciler" where
  "control_held_state_mark_scheduled state key value =
     (if key < 0 \<or> key \<ge> int CONTROL_HELD_STATE_COUNT then state
      else let slot = state ! nat key in
        state[nat key := slot\<lparr>scheduled_valid := True, scheduled_value := value,
                               dirty := (desired_value slot \<noteq> value)\<rparr>])"

text \<open>
  Both iterators walk the slots from \<open>*cursor\<close>; the result is the new cursor and, on success, the
  index of the slot found, from which the C code copies the fields out.
\<close>

definition next_from :: "(control_held_state_slot \<Rightarrow> bool) \<Rightarrow> control_held_state_reconciler \<Rightarrow> nat
    \<Rightarrow> nat \<times> nat option" where
  "next_from P state cursor =
     (case find (\<lambda>i. P (state ! i)) [cursor..<CONTROL_HELD_STATE_COUNT] of
        Some i \<Rightarrow> (i + 1, Some i)
      | None \<Rightarrow> (CONTROL_HELD_STATE_COUNT, None))"

definition control_held_state_next_dirty ::
    "control_held_state_reconciler \<Rightarrow> nat \<Rightarrow> nat \<times> (nat \<times> u8 \<times> i16 \<times> u8) option" where
  "control_held_state_next_dirty state cursor =
     (let (cursor', found) = next_from (\<lambda>slot. observed slot \<and> dirty slot) state cursor
      in (cursor', map_option (\<lambda>i. let slot = state ! i in
                     (i, held_id slot, desired_value slot, sequence slot)) found))"

definition control_held_state_next_observed ::
    "control_held_state_reconciler \<Rightarrow> nat \<Rightarrow> nat \<times> (u8 \<times> i16) option" where
  "control_held_state_next_observed state cursor =
     (let (cursor', found) = next_from observed state cursor
      in (cursor', map_option (\<lambda>i. (held_id (state ! i), desired_value (state ! i))) found))"

definition release_slot :: "u8 \<Rightarrow> control_held_state_slot \<Rightarrow> control_held_state_slot" where
  "release_slot sq slot =
     (if \<not> observed slot then slot
      else let v = control_held_state_release_value (held_id slot) (desired_value slot)
           in slot\<lparr>desired_value := v, sequence := sq,
                   dirty := (\<not> scheduled_valid slot \<or> scheduled_value slot \<noteq> v)\<rparr>)"

definition control_held_state_release_all ::
    "control_held_state_reconciler \<Rightarrow> u8 \<Rightarrow> control_held_state_reconciler" where
  "control_held_state_release_all state sq = map (release_slot sq) state"

section \<open>Keys\<close>

lemma unat_pad_less: "unat (CTRL_PAD_ACTION_PAD v) < 8"
proof -
  have "CTRL_PAD_ACTION_PAD v = take_bit 3 (ucast v)"
    unfolding CTRL_PAD_ACTION_PAD_def mask7 by (rule bit_word_eqI) (auto simp: bit_simps)
  then have "unat (CTRL_PAD_ACTION_PAD v) = take_bit 3 (unat (ucast v :: u8))"
    by (simp add: unsigned_take_bit_eq)
  then show ?thesis using take_bit_nat_less_exp [of 3 "unat (ucast v :: u8)"] by simp
qed

text \<open>Every key indexes the slot array.\<close>

lemma key_bound: "control_held_state_key cid v = Some k \<Longrightarrow> k < CONTROL_HELD_STATE_COUNT"
  using unat_pad_less [of v]
  by (auto simp: control_held_state_key_def Let_def split: if_splits)

lemma pad_bits:
  "bit (CTRL_PAD_ACTION_MODE v) n \<longleftrightarrow> n < 3 \<and> bit v (3 + n)"
  "bit (CTRL_PAD_ACTION_PAD v) n \<longleftrightarrow> n < 3 \<and> bit v n"
  "CTRL_PAD_ACTION_SHIFTED v \<longleftrightarrow> bit v 6"
  "CTRL_PAD_ACTION_PRESSED v \<longleftrightarrow> bit v 7"
  unfolding CTRL_PAD_ACTION_SHIFTED_def CTRL_PAD_ACTION_PRESSED_def
    CTRL_PAD_ACTION_MODE_def CTRL_PAD_ACTION_PAD_def and_flag_iff mask7
  by (auto simp: bit_simps)

lemma release_pad_fields:
  "CTRL_PAD_ACTION_MODE (v AND NOT 0x80) = CTRL_PAD_ACTION_MODE v"
  "CTRL_PAD_ACTION_PAD (v AND NOT 0x80) = CTRL_PAD_ACTION_PAD v"
  "CTRL_PAD_ACTION_SHIFTED (v AND NOT 0x80) = CTRL_PAD_ACTION_SHIFTED v"
  "\<not> CTRL_PAD_ACTION_PRESSED (v AND NOT 0x80)"
proof -
  have b: "bit (v AND NOT 0x80) n \<longleftrightarrow> n \<noteq> 7 \<and> bit v n" for n
  proof -
    have "bit (0x80 :: i16) n \<longleftrightarrow> n = 7"
      using bit_push_bit_iff [of 7 "1 :: i16" n] by (auto simp: bit_1_iff)
    then show ?thesis unfolding bit_and_iff bit_not_iff by (auto dest: bit_imp_le_length)
  qed
  show "CTRL_PAD_ACTION_MODE (v AND NOT 0x80) = CTRL_PAD_ACTION_MODE v"
    by (rule bit_word_eqI, unfold pad_bits b) auto
  show "CTRL_PAD_ACTION_PAD (v AND NOT 0x80) = CTRL_PAD_ACTION_PAD v"
    by (rule bit_word_eqI, unfold pad_bits b) auto
  show "CTRL_PAD_ACTION_SHIFTED (v AND NOT 0x80) = CTRL_PAD_ACTION_SHIFTED v"
    "\<not> CTRL_PAD_ACTION_PRESSED (v AND NOT 0x80)"
    unfolding pad_bits b by auto
qed

text \<open>
  Two events share a slot only when they come from the same control: same id and, for pads, same
  mode and pad.
\<close>

lemma key_inj:
  assumes "control_held_state_key cid v = Some k" "control_held_state_key cid' v' = Some k"
  shows "cid = cid' \<and> (cid \<in> {CTRL_ID_DECK1_PAD_ACTION, CTRL_ID_DECK2_PAD_ACTION} \<longrightarrow>
           CTRL_PAD_ACTION_MODE v = CTRL_PAD_ACTION_MODE v' \<and> CTRL_PAD_ACTION_PAD v = CTRL_PAD_ACTION_PAD v')"
  using assms unat_pad_less [of v] unat_pad_less [of v']
  by (auto simp: control_held_state_key_def Let_def split: if_splits) (simp_all add: word_unat_eq_iff)

text \<open>Releasing a held control stays in its slot.\<close>

lemma release_key:
  assumes "control_held_state_key cid v = Some k"
  shows "control_held_state_key cid (control_held_state_release_value cid v) = Some k"
proof (cases "cid = CTRL_ID_DECK1_PAD_ACTION \<or> cid = CTRL_ID_DECK2_PAD_ACTION")
  case True
  define r where "r = v AND NOT 0x80"
  have r: "CTRL_PAD_ACTION_MODE r = CTRL_PAD_ACTION_MODE v" "CTRL_PAD_ACTION_PAD r = CTRL_PAD_ACTION_PAD v"
    "CTRL_PAD_ACTION_SHIFTED r = CTRL_PAD_ACTION_SHIFTED v"
    unfolding r_def by (rule release_pad_fields)+
  from True have v: "control_held_state_release_value cid v = r"
    unfolding r_def control_held_state_release_value_def by auto
  show ?thesis
    unfolding v using True assms by (auto simp: control_held_state_key_def Let_def r split: if_splits)
next
  case False
  with assms show ?thesis
    by (auto simp: control_held_state_key_def control_held_state_release_value_def
          CTRL_DECK_EXT_ACTION_def split: if_splits)
qed

section \<open>Invariant\<close>

text \<open>
  A slot is dirty exactly when the observed level has not been handed on, and it holds a control
  that belongs to it.
\<close>

definition held_slot_ok :: "nat \<Rightarrow> control_held_state_slot \<Rightarrow> bool" where
  "held_slot_ok k slot \<longleftrightarrow>
     (observed slot \<longrightarrow>
        control_held_state_key (held_id slot) (desired_value slot) = Some k \<and>
        (dirty slot \<longleftrightarrow> \<not> scheduled_valid slot \<or> scheduled_value slot \<noteq> desired_value slot))"

definition held_inv :: "control_held_state_reconciler \<Rightarrow> bool" where
  "held_inv state \<longleftrightarrow> length state = CONTROL_HELD_STATE_COUNT \<and>
     (\<forall>k < CONTROL_HELD_STATE_COUNT. held_slot_ok k (state ! k))"

lemma held_inv_update:
  "held_inv state \<Longrightarrow> (k < CONTROL_HELD_STATE_COUNT \<Longrightarrow> held_slot_ok k slot) \<Longrightarrow> held_inv (state[k := slot])"
  by (cases "k < CONTROL_HELD_STATE_COUNT") (auto simp: held_inv_def nth_list_update)

lemma held_inv_reset: "held_inv control_held_state_reset"
  by (simp add: held_inv_def held_slot_ok_def control_held_state_reset_def)

lemma held_inv_observe:
  "held_inv state \<Longrightarrow> held_inv (fst (control_held_state_observe state cid v sq))"
  by (auto simp: control_held_state_observe_def held_slot_ok_def observe_slot_def
      split: option.splits intro!: held_inv_update)

lemma held_inv_mark:
  "held_inv state \<Longrightarrow> held_inv (control_held_state_mark_scheduled state key v)"
  unfolding control_held_state_mark_scheduled_def Let_def
  by (auto intro!: held_inv_update) (auto simp: held_slot_ok_def held_inv_def)

lemma held_inv_release:
  "held_inv state \<Longrightarrow> held_inv (control_held_state_release_all state sq)"
  by (auto simp: control_held_state_release_all_def held_inv_def held_slot_ok_def release_slot_def
      Let_def release_key)

end
