(* ===== verification/Ctrl_Bulk.thy ===== *)
theory Ctrl_Bulk
  imports Control_Ids
begin

text \<open>
  The variable-length 0xA6 bulk frame layer (\<open>ctrl_bulk.c\<close>, byte-identical on both boards):
  CRC-16, frame builders, the streaming parser and the decoders.

  A builder writes into \<open>out[0..cap)\<close> and returns the frame length, or 0 when the buffer is too small;
  here it returns the bytes written, \<open>None\<close> standing for 0.  The decoders read a frame of
  \<open>frame_len\<close> bytes at the start of a buffer and return \<open>None\<close> where the C code returns \<open>false\<close>.
\<close>

section \<open>CRC-16\<close>

definition crc16_shift :: "u16 \<Rightarrow> u16" where
  "crc16_shift crc = (let shifted = push_bit 1 crc in
     if crc AND 0x8000 \<noteq> 0 then shifted XOR 0x1021 else shifted)"

definition crc16_byte :: "u16 \<Rightarrow> u8 \<Rightarrow> u16" where
  "crc16_byte crc d = (crc16_shift ^^ 8) (crc XOR push_bit 8 (ucast d))"

definition bulk_crc16 :: "u8 list \<Rightarrow> u16" where
  "bulk_crc16 data = foldl crc16_byte 0xFFFF data"

section \<open>Builders\<close>

abbreviation (input) CTRL_BULK_FRAME_START :: u8 where "CTRL_BULK_FRAME_START \<equiv> 0xA6"
abbreviation (input) CTRL_BULK_MAX_PAYLOAD :: nat where "CTRL_BULK_MAX_PAYLOAD \<equiv> 128"
abbreviation (input) CTRL_BULK_HEADER_LEN :: nat where "CTRL_BULK_HEADER_LEN \<equiv> 4"
abbreviation (input) CTRL_BULK_CRC_LEN :: nat where "CTRL_BULK_CRC_LEN \<equiv> 2"
abbreviation (input) CTRL_BULK_MAX_FRAME :: nat where "CTRL_BULK_MAX_FRAME \<equiv> 134"
abbreviation (input) CTRL_DESC_PRODUCT_MAX :: nat where "CTRL_DESC_PRODUCT_MAX \<equiv> 32"
abbreviation (input) CTRL_DESC_PAYLOAD_LEN :: nat where "CTRL_DESC_PAYLOAD_LEN \<equiv> 42"
abbreviation (input) CTRL_FW_VERSION_MAX :: nat where "CTRL_FW_VERSION_MAX \<equiv> 32"
abbreviation (input) CTRL_FW_REPORT_LEN :: nat where "CTRL_FW_REPORT_LEN \<equiv> 34"
abbreviation (input) CTRL_PROFILE_BEGIN_LEN :: nat where "CTRL_PROFILE_BEGIN_LEN \<equiv> 12"
abbreviation (input) CTRL_PROFILE_CHUNK_HDR :: nat where "CTRL_PROFILE_CHUNK_HDR \<equiv> 4"
abbreviation (input) CTRL_PROFILE_CHUNK_MAX :: nat where "CTRL_PROFILE_CHUNK_MAX \<equiv> 124"
abbreviation (input) CTRL_PROFILE_STATUS_LEN :: nat where "CTRL_PROFILE_STATUS_LEN \<equiv> 5"

record ctrl_firmware_report =
  fw_slot :: u8
  fw_state :: u8
  fw_version :: "u8 list"

record ctrl_descriptor_report =
  desc_vid :: u16
  desc_pid :: u16
  desc_caps :: u16
  desc_epoch :: u32
  desc_product :: "u8 list"

text \<open>
  The payload already stands behind the header when the C function is called; it fills in the header
  and appends the CRC of everything after the start byte.
\<close>

definition bulk_finalize :: "u8 \<Rightarrow> u8 \<Rightarrow> u8 list \<Rightarrow> u8 list" where
  "bulk_finalize ty sq payload =
     (let body = [ty, sq, of_nat (length payload)] @ payload
      in [CTRL_BULK_FRAME_START] @ body @ wr_u16 (bulk_crc16 body))"

text \<open>A NUL-terminated string copied into a zero-filled field of \<open>n\<close> bytes.\<close>

definition nul_padded :: "nat \<Rightarrow> u8 list \<Rightarrow> u8 list" where
  "nul_padded n s = (let t = takeWhile (\<lambda>c. c \<noteq> 0) (take n s) in t @ replicate (n - length t) 0)"

definition ctrl_bulk_build_descriptor_frame :: "nat \<Rightarrow> u8 \<Rightarrow> ctrl_descriptor_report \<Rightarrow> u8 list option" where
  "ctrl_bulk_build_descriptor_frame cap sq rep =
     (if cap < CTRL_BULK_HEADER_LEN + CTRL_DESC_PAYLOAD_LEN + CTRL_BULK_CRC_LEN then None
      else Some (bulk_finalize CTRL_BULK_TYPE_CONTROLLER_DESCRIPTOR sq
        (wr_u16 (desc_vid rep) @ wr_u16 (desc_pid rep) @ wr_u16 (desc_caps rep) @
         wr_u32 (desc_epoch rep) @ nul_padded CTRL_DESC_PRODUCT_MAX (desc_product rep))))"

definition ctrl_bulk_build_profile_begin ::
    "nat \<Rightarrow> u8 \<Rightarrow> u32 \<Rightarrow> u32 \<Rightarrow> u16 \<Rightarrow> u16 \<Rightarrow> u8 list option" where
  "ctrl_bulk_build_profile_begin cap sq total_size crc32 vid pid =
     (if cap < CTRL_BULK_HEADER_LEN + CTRL_PROFILE_BEGIN_LEN + CTRL_BULK_CRC_LEN then None
      else Some (bulk_finalize CTRL_BULK_TYPE_PROFILE_BEGIN sq
        (wr_u32 total_size @ wr_u32 crc32 @ wr_u16 vid @ wr_u16 pid)))"

definition ctrl_bulk_build_profile_chunk :: "nat \<Rightarrow> u8 \<Rightarrow> u32 \<Rightarrow> u8 list \<Rightarrow> u8 list option" where
  "ctrl_bulk_build_profile_chunk cap sq offset data =
     (if length data = 0 \<or> length data > CTRL_PROFILE_CHUNK_MAX then None
      else if cap < CTRL_BULK_HEADER_LEN + (CTRL_PROFILE_CHUNK_HDR + length data) + CTRL_BULK_CRC_LEN then None
      else Some (bulk_finalize CTRL_BULK_TYPE_PROFILE_CHUNK sq (wr_u32 offset @ data)))"

definition ctrl_bulk_build_profile_simple :: "nat \<Rightarrow> u8 \<Rightarrow> u8 \<Rightarrow> u8 list option" where
  "ctrl_bulk_build_profile_simple cap sq ty =
     (if cap < CTRL_BULK_HEADER_LEN + CTRL_BULK_CRC_LEN then None
      else Some (bulk_finalize ty sq []))"

definition ctrl_bulk_build_profile_ack :: "nat \<Rightarrow> u8 \<Rightarrow> u8 \<Rightarrow> u8 list option" where
  "ctrl_bulk_build_profile_ack cap sq acked_type =
     (if cap < CTRL_BULK_HEADER_LEN + 1 + CTRL_BULK_CRC_LEN then None
      else Some (bulk_finalize CTRL_BULK_TYPE_PROFILE_ACK sq [acked_type]))"

definition ctrl_bulk_build_profile_nack :: "nat \<Rightarrow> u8 \<Rightarrow> u8 \<Rightarrow> u8 \<Rightarrow> u8 list option" where
  "ctrl_bulk_build_profile_nack cap sq nacked_type reason =
     (if cap < CTRL_BULK_HEADER_LEN + 2 + CTRL_BULK_CRC_LEN then None
      else Some (bulk_finalize CTRL_BULK_TYPE_PROFILE_NACK sq [nacked_type, reason]))"

definition ctrl_bulk_build_profile_status :: "nat \<Rightarrow> u8 \<Rightarrow> u8 \<Rightarrow> u16 \<Rightarrow> u16 \<Rightarrow> u8 list option" where
  "ctrl_bulk_build_profile_status cap sq st vid pid =
     (if cap < CTRL_BULK_HEADER_LEN + CTRL_PROFILE_STATUS_LEN + CTRL_BULK_CRC_LEN then None
      else Some (bulk_finalize CTRL_BULK_TYPE_PROFILE_STATUS sq ([st] @ wr_u16 vid @ wr_u16 pid)))"

definition ctrl_bulk_build_firmware_report :: "nat \<Rightarrow> u8 \<Rightarrow> ctrl_firmware_report \<Rightarrow> u8 list option" where
  "ctrl_bulk_build_firmware_report cap sq rep =
     (if cap < CTRL_BULK_HEADER_LEN + CTRL_FW_REPORT_LEN + CTRL_BULK_CRC_LEN then None
      else Some (bulk_finalize CTRL_BULK_TYPE_FIRMWARE_REPORT sq
        ([fw_slot rep, fw_state rep] @ nul_padded CTRL_FW_VERSION_MAX (fw_version rep))))"

section \<open>Streaming parser\<close>

record ctrl_bulk_parser =
  bp_buf :: "u8 list"
  bp_pos :: nat
  bp_total_len :: nat

definition ctrl_bulk_parser_reset :: "ctrl_bulk_parser \<Rightarrow> ctrl_bulk_parser" where
  "ctrl_bulk_parser_reset p = p\<lparr>bp_pos := 0, bp_total_len := 0\<rparr>"

definition ctrl_bulk_parser_feed :: "ctrl_bulk_parser \<Rightarrow> u8 \<Rightarrow> ctrl_bulk_parser \<times> int" where
  "ctrl_bulk_parser_feed p b =
     (if bp_pos p = 0 then
        if b \<noteq> CTRL_BULK_FRAME_START then (p, 0)
        else (p\<lparr>bp_buf := (bp_buf p)[0 := b], bp_pos := 1, bp_total_len := 0\<rparr>, 0)
      else
        let p1 = p\<lparr>bp_buf := (bp_buf p)[bp_pos p := b], bp_pos := bp_pos p + 1\<rparr>;
            len = unat (bp_buf p1 ! 3) in
        if bp_pos p1 = CTRL_BULK_HEADER_LEN \<and> len > CTRL_BULK_MAX_PAYLOAD
        then (ctrl_bulk_parser_reset p1, -1)
        else
          let p2 = (if bp_pos p1 = CTRL_BULK_HEADER_LEN
                    then p1\<lparr>bp_total_len := CTRL_BULK_HEADER_LEN + len + CTRL_BULK_CRC_LEN\<rparr> else p1) in
          if bp_total_len p2 = 0 \<or> bp_pos p2 < bp_total_len p2 then (p2, 0)
          else
            let frame_len = bp_total_len p2;
                crc_span = frame_len - 1 - CTRL_BULK_CRC_LEN;
                expect = rd_u16 (bp_buf p2) (frame_len - 2);
                got = bulk_crc16 (take crc_span (drop 1 (bp_buf p2)))
            in (ctrl_bulk_parser_reset p2, if got = expect then int frame_len else -1))"

text \<open>The parser the C statics start as: a zeroed buffer, idle.\<close>

definition ctrl_bulk_parser_zero :: ctrl_bulk_parser where
  "ctrl_bulk_parser_zero = \<lparr>bp_buf = replicate CTRL_BULK_MAX_FRAME 0, bp_pos = 0, bp_total_len = 0\<rparr>"

fun bulk_feed_all :: "ctrl_bulk_parser \<Rightarrow> u8 list \<Rightarrow> ctrl_bulk_parser \<times> int list" where
  "bulk_feed_all p [] = (p, [])"
| "bulk_feed_all p (b # bs) =
     (let (p1, r) = ctrl_bulk_parser_feed p b; (p2, rs) = bulk_feed_all p1 bs in (p2, r # rs))"

section \<open>Decoders\<close>

definition frame_type_len :: "u8 list \<Rightarrow> nat \<Rightarrow> u8 \<Rightarrow> nat \<Rightarrow> bool" where
  "frame_type_len frame frame_len ty payload_len \<longleftrightarrow>
     frame_len = CTRL_BULK_HEADER_LEN + payload_len + CTRL_BULK_CRC_LEN \<and>
     frame ! 0 = CTRL_BULK_FRAME_START \<and> frame ! 1 = ty \<and> unat (frame ! 3) = payload_len"

definition ctrl_bulk_decode_descriptor :: "u8 list \<Rightarrow> nat \<Rightarrow> ctrl_descriptor_report option" where
  "ctrl_bulk_decode_descriptor frame frame_len =
     (if \<not> frame_type_len frame frame_len CTRL_BULK_TYPE_CONTROLLER_DESCRIPTOR CTRL_DESC_PAYLOAD_LEN then None
      else Some \<lparr>desc_vid = rd_u16 frame 4, desc_pid = rd_u16 frame 6, desc_caps = rd_u16 frame 8,
                 desc_epoch = rd_u32 frame 10,
                 desc_product = take CTRL_DESC_PRODUCT_MAX (drop 14 frame) @ [0]\<rparr>)"

definition ctrl_bulk_decode_profile_begin :: "u8 list \<Rightarrow> nat \<Rightarrow> (u32 \<times> u32 \<times> u16 \<times> u16) option" where
  "ctrl_bulk_decode_profile_begin frame frame_len =
     (if \<not> frame_type_len frame frame_len CTRL_BULK_TYPE_PROFILE_BEGIN CTRL_PROFILE_BEGIN_LEN then None
      else Some (rd_u32 frame 4, rd_u32 frame 8, rd_u16 frame 12, rd_u16 frame 14))"

definition ctrl_bulk_decode_profile_chunk :: "u8 list \<Rightarrow> nat \<Rightarrow> (u32 \<times> u8 list) option" where
  "ctrl_bulk_decode_profile_chunk frame frame_len =
     (if frame ! 0 \<noteq> CTRL_BULK_FRAME_START \<or> frame ! 1 \<noteq> CTRL_BULK_TYPE_PROFILE_CHUNK then None
      else let payload = unat (frame ! 3) in
        if frame_len \<noteq> CTRL_BULK_HEADER_LEN + payload + CTRL_BULK_CRC_LEN \<or> payload \<le> CTRL_PROFILE_CHUNK_HDR
        then None
        else Some (rd_u32 frame 4, take (payload - CTRL_PROFILE_CHUNK_HDR) (drop 8 frame)))"

definition ctrl_bulk_decode_profile_ack :: "u8 list \<Rightarrow> nat \<Rightarrow> u8 option" where
  "ctrl_bulk_decode_profile_ack frame frame_len =
     (if \<not> frame_type_len frame frame_len CTRL_BULK_TYPE_PROFILE_ACK 1 then None else Some (frame ! 4))"

definition ctrl_bulk_decode_profile_nack :: "u8 list \<Rightarrow> nat \<Rightarrow> (u8 \<times> u8) option" where
  "ctrl_bulk_decode_profile_nack frame frame_len =
     (if \<not> frame_type_len frame frame_len CTRL_BULK_TYPE_PROFILE_NACK 2 then None
      else Some (frame ! 4, frame ! 5))"

definition ctrl_bulk_decode_profile_status :: "u8 list \<Rightarrow> nat \<Rightarrow> (u8 \<times> u16 \<times> u16) option" where
  "ctrl_bulk_decode_profile_status frame frame_len =
     (if \<not> frame_type_len frame frame_len CTRL_BULK_TYPE_PROFILE_STATUS CTRL_PROFILE_STATUS_LEN then None
      else Some (frame ! 4, rd_u16 frame 5, rd_u16 frame 7))"

definition ctrl_bulk_decode_firmware_report :: "u8 list \<Rightarrow> nat \<Rightarrow> ctrl_firmware_report option" where
  "ctrl_bulk_decode_firmware_report frame frame_len =
     (if \<not> frame_type_len frame frame_len CTRL_BULK_TYPE_FIRMWARE_REPORT CTRL_FW_REPORT_LEN then None
      else Some \<lparr>fw_slot = frame ! 4, fw_state = frame ! 5,
                 fw_version = take CTRL_FW_VERSION_MAX (drop 6 frame) @ [0]\<rparr>)"

section \<open>Error detection of the CRC\<close>

lemma crc16_bits:
  "bit (crc16_shift c) n \<longleftrightarrow>
     (n < 16 \<and> 0 < n \<and> bit c (n - 1)) \<noteq> (bit c 15 \<and> bit (0x1021 :: u16) n)"
proof -
  have t: "c AND 0x8000 \<noteq> 0 \<longleftrightarrow> bit c 15" by (simp add: bit_iff_and_push_bit_not_eq_0)
  show ?thesis
    unfolding crc16_shift_def Let_def t
    by (cases "bit c 15"; simp only: if_True if_False bit_xor_iff bit_push_bit_iff)
       (auto simp: bit_imp_le_length)
qed

lemma crc16_shift_inj: "crc16_shift a = crc16_shift b \<Longrightarrow> a = b"
proof (rule bit_word_eqI)
  fix n assume e: "crc16_shift a = crc16_shift b" and n: "n < LENGTH(16)"
  have top: "bit a 15 = bit b 15"
    using arg_cong [OF e, of "\<lambda>w. bit w 0"] unfolding crc16_bits by simp
  show "bit a n = bit b n"
  proof (cases "n = 15")
    case False
    then show ?thesis
      using arg_cong [OF e, of "\<lambda>w. bit w (Suc n)"] n top unfolding crc16_bits by auto
  qed (use top in simp)
qed

lemma crc16_shifts_inj: "(crc16_shift ^^ k) a = (crc16_shift ^^ k) b \<Longrightarrow> a = b"
  by (induction k) (auto dest: crc16_shift_inj)

lemma crc16_byte_inj_crc: "crc16_byte a d = crc16_byte b d \<Longrightarrow> a = b"
  unfolding crc16_byte_def by (drule crc16_shifts_inj) (simp add: word_xor_cancel)

lemma crc16_byte_inj_data: "crc16_byte a d = crc16_byte a d' \<Longrightarrow> d = d'"
proof -
  assume "crc16_byte a d = crc16_byte a d'"
  then have "a XOR push_bit 8 (ucast d) = a XOR push_bit 8 (ucast d')"
    unfolding crc16_byte_def by (rule crc16_shifts_inj)
  then have e: "(push_bit 8 (ucast d) :: u16) = push_bit 8 (ucast d')"
    by (simp only: word_xor_cancel)
  show "d = d'"
  proof (rule bit_word_eqI)
    fix n assume "n < LENGTH(8)"
    then show "bit d n = bit d' n"
      using arg_cong [OF e, of "\<lambda>w. bit w (n + 8)"] by (simp add: bit_push_bit_iff bit_ucast_iff)
  qed
qed

text \<open>Changing one byte of the protected span changes the CRC.\<close>

lemma bulk_crc16_one_byte:
  "bulk_crc16 (xs @ [a] @ ys) = bulk_crc16 (xs @ [b] @ ys) \<longleftrightarrow> a = b"
proof
  assume "bulk_crc16 (xs @ [a] @ ys) = bulk_crc16 (xs @ [b] @ ys)"
  then have "foldl crc16_byte (crc16_byte (foldl crc16_byte 0xFFFF xs) a) ys =
             foldl crc16_byte (crc16_byte (foldl crc16_byte 0xFFFF xs) b) ys"
    by (simp add: bulk_crc16_def)
  then have "crc16_byte (foldl crc16_byte 0xFFFF xs) a = crc16_byte (foldl crc16_byte 0xFFFF xs) b"
    by (rule foldl_inj_start [rotated]) (rule crc16_byte_inj_crc)
  then show "a = b" by (rule crc16_byte_inj_data)
qed simp

section \<open>The shape of a frame\<close>

lemma length_bulk_finalize [simp]: "length (bulk_finalize ty sq payload) = 6 + length payload"
  by (simp add: bulk_finalize_def Let_def)

lemma bulk_finalize_nth [simp]:
  "bulk_finalize ty sq payload ! 0 = CTRL_BULK_FRAME_START"
  "bulk_finalize ty sq payload ! Suc 0 = ty"
  "bulk_finalize ty sq payload ! 2 = sq"
  "bulk_finalize ty sq payload ! 3 = of_nat (length payload)"
  by (simp_all add: bulk_finalize_def Let_def numeral_2_eq_2 numeral_3_eq_3)

lemma bulk_finalize_drop4: "drop 4 (bulk_finalize ty sq payload) =
    payload @ wr_u16 (bulk_crc16 ([ty, sq, of_nat (length payload)] @ payload))"
  by (simp add: bulk_finalize_def Let_def)

lemma unat_len_byte: "n \<le> 128 \<Longrightarrow> unat (of_nat n :: u8) = n"
  by (simp add: unat_of_nat take_bit_nat_eq_self)

text \<open>What a validated frame looks like, as a predicate on its bytes.\<close>

definition bulk_frame :: "u8 list \<Rightarrow> bool" where
  "bulk_frame f \<longleftrightarrow> (\<exists>ty sq payload. length payload \<le> CTRL_BULK_MAX_PAYLOAD \<and>
     f = bulk_finalize ty sq payload)"

lemma bulk_frame_intro:
  assumes len: "length f = 6 + unat (f ! 3)" and bound: "unat (f ! 3) \<le> 128"
    and start: "f ! 0 = CTRL_BULK_FRAME_START"
    and crc: "bulk_crc16 (take (length f - 3) (drop 1 f)) = rd_u16 f (length f - 2)"
  shows "bulk_frame f"
proof -
  let ?n = "unat (f ! 3)"
  let ?pl = "take ?n (drop 4 f)"
  have pl: "length ?pl = ?n" using len by simp
  have hd: "take 4 f = [f ! 0, f ! 1, f ! 2, f ! 3]"
    using len by (simp add: take_Suc_conv_app_nth numeral_eq_Suc)
  have body: "take (length f - 3) (drop 1 f) = [f ! 1, f ! 2, f ! 3] @ ?pl"
  proof -
    have "take (length f - 3) (drop 1 f) = drop 1 (take 4 f @ ?pl)"
      by (simp add: len drop_take flip: take_add)
    then show ?thesis by (simp add: hd)
  qed
  have tl: "drop (4 + ?n) f = [f ! (4 + ?n), f ! (5 + ?n)]"
    using len by (simp add: Cons_nth_drop_Suc [symmetric] eval_nat_numeral)
  have r: "rd_u16 f (4 + ?n) = bulk_crc16 ([f ! 1, f ! 2, f ! 3] @ ?pl)"
    using crc body len by simp
  have w: "drop (4 + ?n) f = wr_u16 (bulk_crc16 ([f ! 1, f ! 2, f ! 3] @ ?pl))"
    unfolding tl r [symmetric] wr_u16_rd by (simp add: add.commute)
  have dec: "take 4 f @ ?pl @ drop (4 + ?n) f = f"
    using append_take_drop_id [of ?n "drop 4 f"] by (simp add: add.commute)
  have "bulk_finalize (f ! 1) (f ! 2) ?pl = take 4 f @ ?pl @ drop (4 + ?n) f"
    unfolding w hd bulk_finalize_def Let_def pl start by simp
  then show ?thesis using pl bound unfolding dec bulk_frame_def by metis
qed

section \<open>Parser invariant and soundness\<close>

text \<open>
  The parser never writes outside its 134-byte buffer: between calls the write position is below the
  announced frame length, which is at most the buffer size.
\<close>

definition bulk_parser_inv :: "ctrl_bulk_parser \<Rightarrow> bool" where
  "bulk_parser_inv p \<longleftrightarrow> length (bp_buf p) = CTRL_BULK_MAX_FRAME \<and>
     (bp_pos p > 0 \<longrightarrow> bp_buf p ! 0 = CTRL_BULK_FRAME_START) \<and>
     (if bp_total_len p = 0 then bp_pos p < 4
      else 4 \<le> bp_pos p \<and> bp_pos p < bp_total_len p \<and>
           bp_total_len p = 6 + unat (bp_buf p ! 3) \<and> bp_total_len p \<le> CTRL_BULK_MAX_FRAME)"

lemma bulk_parser_inv_zero: "bulk_parser_inv ctrl_bulk_parser_zero"
  by (simp add: bulk_parser_inv_def ctrl_bulk_parser_zero_def)

lemma bulk_parser_inv_bound: "bulk_parser_inv p \<Longrightarrow> bp_pos p < length (bp_buf p)"
  by (auto simp: bulk_parser_inv_def split: if_splits)

lemma parser_feed_cases:
  assumes "ctrl_bulk_parser_feed p b = (p', r)" "bulk_parser_inv p"
  obtains (skip) "bp_pos p = 0" "b \<noteq> CTRL_BULK_FRAME_START" "p' = p" "r = 0"
    | (start) "bp_pos p = 0" "b = CTRL_BULK_FRAME_START" "r = 0"
        "p' = p\<lparr>bp_buf := (bp_buf p)[0 := b], bp_pos := 1, bp_total_len := 0\<rparr>"
    | (oversize) "bp_pos p = 3" "unat b > CTRL_BULK_MAX_PAYLOAD" "r = -1"
        "p' = p\<lparr>bp_buf := (bp_buf p)[3 := b], bp_pos := 0, bp_total_len := 0\<rparr>"
    | (header) "bp_pos p > 0" "bp_pos p < 3" "r = 0"
        "p' = p\<lparr>bp_buf := (bp_buf p)[bp_pos p := b], bp_pos := bp_pos p + 1\<rparr>"
    | (length_byte) "bp_pos p = 3" "unat b \<le> CTRL_BULK_MAX_PAYLOAD" "r = 0"
        "p' = p\<lparr>bp_buf := (bp_buf p)[3 := b], bp_pos := 4, bp_total_len := 6 + unat b\<rparr>"
    | (body) "4 \<le> bp_pos p" "bp_pos p + 1 < bp_total_len p" "r = 0"
        "p' = p\<lparr>bp_buf := (bp_buf p)[bp_pos p := b], bp_pos := bp_pos p + 1\<rparr>"
    | (last) "4 \<le> bp_pos p" "bp_pos p + 1 = bp_total_len p"
        "p' = p\<lparr>bp_buf := (bp_buf p)[bp_pos p := b], bp_pos := 0, bp_total_len := 0\<rparr>"
        "r = (if bulk_crc16 (take (bp_total_len p - 3) (drop 1 (bp_buf p'))) =
                 rd_u16 (bp_buf p') (bp_total_len p - 2) then int (bp_total_len p) else -1)"
proof -
  let ?q = "bp_pos p"
  have len: "length (bp_buf p) = 134" using assms(2) by (simp add: bulk_parser_inv_def)
  consider "?q = 0" | "0 < ?q" "?q < 3" | "?q = 3" | "4 \<le> ?q" by linarith
  then show ?thesis
  proof cases
    case 1
    with assms(1) show ?thesis
      by (cases "b = CTRL_BULK_FRAME_START") (auto simp: ctrl_bulk_parser_feed_def intro: skip start)
  next
    case 2
    then have "bp_total_len p = 0" using assms(2) by (auto simp: bulk_parser_inv_def split: if_splits)
    with 2 assms(1) show ?thesis
      by (intro header) (auto simp: ctrl_bulk_parser_feed_def Let_def)
  next
    case 3
    then have t: "bp_total_len p = 0" using assms(2) by (auto simp: bulk_parser_inv_def split: if_splits)
    show ?thesis
    proof (cases "unat b > 128")
      case True
      with 3 t len assms(1) show ?thesis
        by (intro oversize) (auto simp: ctrl_bulk_parser_feed_def ctrl_bulk_parser_reset_def Let_def)
    next
      case False
      with 3 t len assms(1) show ?thesis
        by (intro length_byte) (auto simp: ctrl_bulk_parser_feed_def Let_def)
    qed
  next
    case 4
    then have t: "bp_total_len p > 0" "?q < bp_total_len p"
      using assms(2) by (auto simp: bulk_parser_inv_def split: if_splits)
    show ?thesis
    proof (cases "?q + 1 = bp_total_len p")
      case True
      with 4 t len assms(1) show ?thesis
        by (intro last) (auto simp: ctrl_bulk_parser_feed_def ctrl_bulk_parser_reset_def Let_def diff_diff_eq numeral_3_eq_3)
    next
      case False
      with 4 t assms(1) show ?thesis
        by (intro body) (auto simp: ctrl_bulk_parser_feed_def Let_def)
    qed
  qed
qed

lemma bulk_parser_inv_feed:
  assumes "bulk_parser_inv p"
  shows "bulk_parser_inv (fst (ctrl_bulk_parser_feed p b))"
proof -
  obtain p' r where f: "ctrl_bulk_parser_feed p b = (p', r)" by (cases "ctrl_bulk_parser_feed p b")
  from f assms have "bulk_parser_inv p'"
    by (cases rule: parser_feed_cases) (use assms in \<open>auto simp: bulk_parser_inv_def split: if_splits\<close>)
  with f show ?thesis by simp
qed

text \<open>A positive result announces exactly a well-formed frame at the start of the buffer.\<close>

lemma bulk_parser_sound:
  assumes "bulk_parser_inv p" "ctrl_bulk_parser_feed p b = (p', r)" "r \<noteq> 0" "r \<noteq> -1"
  shows "\<exists>n. r = int n \<and> n \<le> CTRL_BULK_MAX_FRAME \<and> bulk_frame (take n (bp_buf p')) \<and>
           length (take n (bp_buf p')) = n \<and> bp_pos p' = 0"
  using assms(2,1)
proof (cases rule: parser_feed_cases)
  case last
  let ?n = "bp_total_len p" and ?f = "take (bp_total_len p) (bp_buf p')"
  have i: "?n = 6 + unat (bp_buf p ! 3)" "?n \<le> 134" "length (bp_buf p) = 134"
    "bp_buf p ! 0 = CTRL_BULK_FRAME_START"
    using assms(1) last(1,2) by (auto simp: bulk_parser_inv_def split: if_splits)
  have b: "length (bp_buf p') = 134" "bp_buf p' ! 3 = bp_buf p ! 3" "bp_buf p' ! 0 = bp_buf p ! 0"
    using last(1,3) i by auto
  have crc: "r = int ?n" "bulk_crc16 (take (?n - 3) (drop 1 (bp_buf p'))) = rd_u16 (bp_buf p') (?n - 2)"
    using last(4) assms(3,4) by (auto split: if_splits)
  have l: "length ?f = ?n" using i b by simp
  have "bulk_frame ?f"
  proof (rule bulk_frame_intro)
    have "take (?n - 3) (drop 1 ?f) = take (?n - 3) (drop 1 (bp_buf p'))"
      by (simp add: drop_take min_def)
    moreover have "rd_u16 ?f (?n - 2) = rd_u16 (bp_buf p') (?n - 2)"
      using i by (simp add: rd_u16_def)
    ultimately show "bulk_crc16 (take (length ?f - 3) (drop 1 ?f)) = rd_u16 ?f (length ?f - 2)"
      unfolding l using crc(2) by simp
  qed (use i b in auto)
  with crc(1) i(2) l last(3) show ?thesis by (intro exI [of _ ?n]) simp
qed (use assms(3,4) in auto)

section \<open>Parser completeness\<close>

text \<open>\<open>bulk_fed f k p\<close>: the idle parser has consumed the first \<open>k\<close> bytes of frame \<open>f\<close>.\<close>

definition bulk_fed :: "u8 list \<Rightarrow> nat \<Rightarrow> ctrl_bulk_parser \<Rightarrow> bool" where
  "bulk_fed f k p \<longleftrightarrow> bulk_parser_inv p \<and> bp_pos p = k \<and> take k (bp_buf p) = take k f \<and>
     bp_total_len p = (if k < 4 then 0 else length f)"

lemma take_update_Suc:
  "k < length xs \<Longrightarrow> k < length f \<Longrightarrow> take k xs = take k f \<Longrightarrow> take (Suc k) (xs[k := f ! k]) = take (Suc k) f"
  by (simp add: take_Suc_conv_app_nth)

text \<open>Bytes of the shape of a frame: a start byte, a length byte in range and as many bytes as it announces.\<close>

definition bulk_shape :: "u8 list \<Rightarrow> bool" where
  "bulk_shape f \<longleftrightarrow> f ! 0 = CTRL_BULK_FRAME_START \<and> unat (f ! 3) \<le> CTRL_BULK_MAX_PAYLOAD \<and> length f = 6 + unat (f ! 3)"

lemma bulk_frame_shape: "bulk_frame f \<Longrightarrow> bulk_shape f"
  by (auto simp: bulk_frame_def bulk_shape_def unat_len_byte)

lemma bulk_fed_step:
  assumes "bulk_fed f k p" "bulk_shape f" "Suc k < length f"
  shows "\<exists>p'. ctrl_bulk_parser_feed p (f ! k) = (p', 0) \<and> bulk_fed f (Suc k) p'"
proof -
  have f: "f ! 0 = CTRL_BULK_FRAME_START" "unat (f ! 3) \<le> 128" "length f = 6 + unat (f ! 3)"
    using assms(2) by (auto simp: bulk_shape_def)
  have p: "bulk_parser_inv p" "bp_pos p = k" "take k (bp_buf p) = take k f"
      "bp_total_len p = (if k < 4 then 0 else length f)"
    using assms(1) by (auto simp: bulk_fed_def)
  have l: "length (bp_buf p) = 134" using p(1) by (simp add: bulk_parser_inv_def)
  obtain p' r where e: "ctrl_bulk_parser_feed p (f ! k) = (p', r)" by (cases "ctrl_bulk_parser_feed p (f ! k)")
  have inv: "bulk_parser_inv p'" using bulk_parser_inv_feed [OF p(1), of "f ! k"] e by simp
  have t: "take (Suc k) ((bp_buf p)[k := f ! k]) = take (Suc k) f"
    using take_update_Suc [of k "bp_buf p" f] p(3) l assms(3) f by simp
  from e p(1) have "r = 0 \<and> bulk_fed f (Suc k) p'"
  proof (cases rule: parser_feed_cases)
    case skip
    with p f show ?thesis by simp
  next
    case start
    with p inv t f show ?thesis by (simp add: bulk_fed_def)
  next
    case oversize
    with p f show ?thesis by simp
  next
    case header
    with p inv t show ?thesis by (auto simp: bulk_fed_def)
  next
    case length_byte
    with p inv t f show ?thesis by (simp add: bulk_fed_def)
  next
    case body
    with p inv t show ?thesis by (auto simp: bulk_fed_def)
  next
    case last
    with p assms(3) show ?thesis by (simp split: if_splits)
  qed
  with e show ?thesis by auto
qed

lemma bulk_fed_last:
  assumes "bulk_fed f (length f - 1) p" "bulk_frame f"
  shows "\<exists>p'. ctrl_bulk_parser_feed p (last f) = (p', int (length f)) \<and>
           take (length f) (bp_buf p') = f \<and> bulk_parser_inv p' \<and> bp_pos p' = 0"
proof -
  from assms(2) obtain ty sq pl where f: "f = bulk_finalize ty sq pl" "length pl \<le> 128"
    by (auto simp: bulk_frame_def)
  define k where "k = length f - 1"
  have k: "Suc k = length f" "4 \<le> k" "k < 134" using f by (auto simp: k_def)
  have last: "last f = f ! k" using k by (metis k_def last_conv_nth list.size(3) nat.distinct(1))
  have p: "bulk_parser_inv p" "bp_pos p = k" "take k (bp_buf p) = take k f" "bp_total_len p = length f"
    using assms(1) k by (auto simp: bulk_fed_def k_def)
  have l: "length (bp_buf p) = 134" using p(1) by (simp add: bulk_parser_inv_def)
  obtain p' r where e: "ctrl_bulk_parser_feed p (f ! k) = (p', r)" by (cases "ctrl_bulk_parser_feed p (f ! k)")
  have t: "take (length f) ((bp_buf p)[k := f ! k]) = f"
    using take_update_Suc [of k "bp_buf p" f] p(3) l k by simp
  have inv: "bulk_parser_inv p'" using bulk_parser_inv_feed [OF p(1), of "f ! k"] e by simp
  from e p(1) show ?thesis
  proof (cases rule: parser_feed_cases)
    case last
    let ?n = "length f"
    have b: "take ?n (bp_buf p') = f" using last(3) p t by simp
    have d: "take (?n - 3) (drop 1 (bp_buf p')) = [ty, sq, of_nat (length pl)] @ pl"
    proof -
      have "take (?n - 3) (drop 1 (bp_buf p')) = take (?n - 3) (drop 1 (take ?n (bp_buf p')))"
        by (simp add: drop_take)
      also have "\<dots> = [ty, sq, of_nat (length pl)] @ pl"
        unfolding b using f by (simp add: bulk_finalize_def Let_def)
      finally show ?thesis .
    qed
    have "rd_u16 (bp_buf p') (?n - 2) = rd_u16 (take ?n (bp_buf p')) (?n - 2)"
      using k by (simp add: rd_u16_def)
    also have "\<dots> = bulk_crc16 ([ty, sq, of_nat (length pl)] @ pl)"
      unfolding b using rd_u16_wr [of "length f - 2" "[CTRL_BULK_FRAME_START, ty, sq, of_nat (length pl)] @ pl"
          "bulk_crc16 ([ty, sq, of_nat (length pl)] @ pl)" "[]"] f
      by (simp add: bulk_finalize_def Let_def)
    finally have "r = int ?n" using last(4) d p by simp
    with e last(3) b inv \<open>last f = f ! k\<close> show ?thesis by simp
  qed (use p k in auto)
qed

lemma bulk_feed_all_append:
  "bulk_feed_all p (xs @ ys) =
     (let (p1, rs) = bulk_feed_all p xs; (p2, rs') = bulk_feed_all p1 ys in (p2, rs @ rs'))"
  by (induction xs arbitrary: p) (auto simp: Let_def split: prod.splits)

lemma bulk_feed_prefix:
  assumes "bulk_shape f" "bulk_parser_inv p" "bp_pos p = 0" "k < length f"
  shows "\<exists>p'. bulk_feed_all p (take k f) = (p', replicate k 0) \<and> bulk_fed f k p'"
  using assms(4)
proof (induction k)
  case 0
  then show ?case using assms(2,3) by (auto simp: bulk_fed_def bulk_parser_inv_def split: if_splits)
next
  case (Suc k)
  then obtain p1 where p1: "bulk_feed_all p (take k f) = (p1, replicate k 0)" "bulk_fed f k p1" by auto
  obtain p2 where p2: "ctrl_bulk_parser_feed p1 (f ! k) = (p2, 0)" "bulk_fed f (Suc k) p2"
    using bulk_fed_step [OF p1(2) assms(1)] Suc.prems by auto
  have "bulk_feed_all p (take (Suc k) f) = (p2, replicate k 0 @ [0])"
    using Suc.prems p1(1) p2(1) by (simp add: take_Suc_conv_app_nth bulk_feed_all_append)
  with p2(2) show ?case by (simp add: replicate_append_same)
qed

text \<open>An idle parser fed a well-formed frame reports it with its last byte, not before.\<close>

lemma bulk_parser_complete:
  assumes "bulk_frame f" "bulk_parser_inv p" "bp_pos p = 0"
  shows "\<exists>p'. bulk_feed_all p f = (p', replicate (length f - 1) 0 @ [int (length f)]) \<and>
           take (length f) (bp_buf p') = f \<and> bulk_parser_inv p' \<and> bp_pos p' = 0"
proof -
  have len: "length f > 0"
    using assms(1) unfolding bulk_frame_def by (metis add_gr_0 length_bulk_finalize zero_less_numeral)
  then obtain p1 where p1: "bulk_feed_all p (take (length f - 1) f) = (p1, replicate (length f - 1) 0)"
      "bulk_fed f (length f - 1) p1"
    using bulk_feed_prefix [OF bulk_frame_shape [OF assms(1)] assms(2,3), of "length f - 1"] by auto
  obtain p2 where p2: "ctrl_bulk_parser_feed p1 (last f) = (p2, int (length f))"
      "take (length f) (bp_buf p2) = f" "bulk_parser_inv p2" "bp_pos p2 = 0"
    using bulk_fed_last [OF p1(2) assms(1)] by auto
  have "bulk_feed_all p (take (length f - 1) f @ [last f]) = (p2, replicate (length f - 1) 0 @ [int (length f)])"
    using p1(1) p2(1) by (simp add: bulk_feed_all_append)
  moreover have "take (length f - 1) f @ [last f] = f"
    using len by (metis append_butlast_last_id butlast_conv_take length_greater_0_conv)
  ultimately show ?thesis using p2 by auto
qed

section \<open>Round trips\<close>

text \<open>
  Each decoder applied to a buffer that starts with the frame its builder made returns what was put in;
  the bytes after the frame do not matter.
\<close>

lemma bulk_finalize_drop:
  "drop (4 + k) (bulk_finalize ty sq payload @ rest) =
     drop k (payload @ wr_u16 (bulk_crc16 ([ty, sq, of_nat (length payload)] @ payload)) @ rest)"
proof -
  have "drop 4 (bulk_finalize ty sq payload @ rest) =
      payload @ wr_u16 (bulk_crc16 ([ty, sq, of_nat (length payload)] @ payload)) @ rest"
    by (simp add: bulk_finalize_def Let_def)
  then show ?thesis by (metis add.commute drop_drop)
qed

lemma frame_type_len_finalize:
  "length payload \<le> 128 \<Longrightarrow>
   frame_type_len (bulk_finalize ty sq payload @ rest) n ty' m \<longleftrightarrow>
     n = 6 + m \<and> ty' = ty \<and> m = length payload"
  by (auto simp: frame_type_len_def nth_append unat_len_byte)

lemma bulk_payload_nth:
  "k < length payload \<Longrightarrow> (bulk_finalize ty sq payload @ rest) ! (4 + k) = payload ! k"
  using bulk_finalize_drop [of 0 ty sq payload rest]
    nth_drop [of 4 "bulk_finalize ty sq payload @ rest" k]
  by (simp add: nth_append)

lemma length_nul_padded [simp]: "length (nul_padded n s) = n"
proof -
  have "length (takeWhile (\<lambda>c. c \<noteq> 0) (take n s)) \<le> n"
    by (rule le_trans [OF length_takeWhile_le]) simp
  then show ?thesis by (simp add: nul_padded_def Let_def)
qed

lemma begin_roundtrip:
  assumes "ctrl_bulk_build_profile_begin cap sq tot crc vid pid = Some f"
  shows "ctrl_bulk_decode_profile_begin (f @ rest) (length f) = Some (tot, crc, vid, pid)"
proof -
  let ?pl = "wr_u32 tot @ wr_u32 crc @ wr_u16 vid @ wr_u16 pid"
  have f: "f = bulk_finalize CTRL_BULK_TYPE_PROFILE_BEGIN sq ?pl"
    using assms by (auto simp: ctrl_bulk_build_profile_begin_def split: if_splits)
  note d = bulk_finalize_drop [of _ CTRL_BULK_TYPE_PROFILE_BEGIN sq ?pl rest]
  have "rd_u32 (f @ rest) 4 = tot" using d [of 0] unfolding f by (intro rd_u32_at) simp
  moreover have "rd_u32 (f @ rest) 8 = crc" using d [of 4] unfolding f by (intro rd_u32_at) simp
  moreover have "rd_u16 (f @ rest) 12 = vid" using d [of 8] unfolding f by (intro rd_u16_at) simp
  moreover have "rd_u16 (f @ rest) 14 = pid" using d [of 10] unfolding f by (intro rd_u16_at) simp
  ultimately show ?thesis
    using frame_type_len_finalize [of ?pl CTRL_BULK_TYPE_PROFILE_BEGIN sq rest] f
    by (simp add: ctrl_bulk_decode_profile_begin_def)
qed

lemma chunk_roundtrip:
  assumes "ctrl_bulk_build_profile_chunk cap sq offset data = Some f"
  shows "ctrl_bulk_decode_profile_chunk (f @ rest) (length f) = Some (offset, data)"
proof -
  let ?pl = "wr_u32 offset @ data"
  have f: "f = bulk_finalize CTRL_BULK_TYPE_PROFILE_CHUNK sq ?pl" and l: "0 < length data" "length data \<le> 124"
    using assms by (auto simp: ctrl_bulk_build_profile_chunk_def split: if_splits)
  note d = bulk_finalize_drop [of _ CTRL_BULK_TYPE_PROFILE_CHUNK sq ?pl rest]
  have "rd_u32 (f @ rest) 4 = offset" using d [of 0] unfolding f by (intro rd_u32_at) simp
  moreover have "take (length data) (drop 8 (f @ rest)) = data" using d [of 4] unfolding f by simp
  moreover have "unat ((f @ rest) ! 3) = 4 + length data"
    using l by (simp add: f nth_append unat_len_byte del: of_nat_add)
  ultimately show ?thesis
    using l by (simp add: ctrl_bulk_decode_profile_chunk_def f nth_append Let_def)
qed

lemma descriptor_roundtrip:
  assumes "ctrl_bulk_build_descriptor_frame cap sq rep = Some f"
  shows "ctrl_bulk_decode_descriptor (f @ rest) (length f) =
    Some (rep\<lparr>desc_product := nul_padded CTRL_DESC_PRODUCT_MAX (desc_product rep) @ [0]\<rparr>)"
proof -
  let ?pl = "wr_u16 (desc_vid rep) @ wr_u16 (desc_pid rep) @ wr_u16 (desc_caps rep) @
         wr_u32 (desc_epoch rep) @ nul_padded CTRL_DESC_PRODUCT_MAX (desc_product rep)"
  have f: "f = bulk_finalize CTRL_BULK_TYPE_CONTROLLER_DESCRIPTOR sq ?pl"
    using assms by (auto simp: ctrl_bulk_build_descriptor_frame_def split: if_splits)
  note d = bulk_finalize_drop [of _ CTRL_BULK_TYPE_CONTROLLER_DESCRIPTOR sq ?pl rest]
  have "rd_u16 (f @ rest) 4 = desc_vid rep" using d [of 0] unfolding f by (intro rd_u16_at) simp
  moreover have "rd_u16 (f @ rest) 6 = desc_pid rep" using d [of 2] unfolding f by (intro rd_u16_at) simp
  moreover have "rd_u16 (f @ rest) 8 = desc_caps rep" using d [of 4] unfolding f by (intro rd_u16_at) simp
  moreover have "rd_u32 (f @ rest) 10 = desc_epoch rep" using d [of 6] unfolding f by (intro rd_u32_at) simp
  moreover have "take 32 (drop 14 (f @ rest)) = nul_padded 32 (desc_product rep)"
    using d [of 10] unfolding f by simp
  ultimately show ?thesis
    using frame_type_len_finalize [of ?pl CTRL_BULK_TYPE_CONTROLLER_DESCRIPTOR sq rest] f
    by (simp add: ctrl_bulk_decode_descriptor_def)
qed

lemma reply_roundtrips:
  "ctrl_bulk_build_profile_ack cap sq ty = Some f \<Longrightarrow>
     ctrl_bulk_decode_profile_ack (f @ rest) (length f) = Some ty"
  "ctrl_bulk_build_profile_nack cap sq ty reason = Some f \<Longrightarrow>
     ctrl_bulk_decode_profile_nack (f @ rest) (length f) = Some (ty, reason)"
  "ctrl_bulk_build_profile_status cap sq st vid pid = Some f \<Longrightarrow>
     ctrl_bulk_decode_profile_status (f @ rest) (length f) = Some (st, vid, pid)"
proof -
  have ack: "(bulk_finalize a sq [x] @ rest) ! 4 = x" for a x
    using bulk_payload_nth [of 0 "[x]" a sq rest] by simp
  have nack: "(bulk_finalize a sq [x, y] @ rest) ! 4 = x" "(bulk_finalize a sq [x, y] @ rest) ! 5 = y" for a x y
    using bulk_payload_nth [of 0 "[x, y]" a sq rest] bulk_payload_nth [of 1 "[x, y]" a sq rest] by simp_all
  show "ctrl_bulk_build_profile_ack cap sq ty = Some f \<Longrightarrow>
     ctrl_bulk_decode_profile_ack (f @ rest) (length f) = Some ty"
    by (auto simp: ctrl_bulk_build_profile_ack_def ctrl_bulk_decode_profile_ack_def ack
        frame_type_len_finalize split: if_splits)
  show "ctrl_bulk_build_profile_nack cap sq ty reason = Some f \<Longrightarrow>
     ctrl_bulk_decode_profile_nack (f @ rest) (length f) = Some (ty, reason)"
    by (auto simp: ctrl_bulk_build_profile_nack_def ctrl_bulk_decode_profile_nack_def nack
        frame_type_len_finalize split: if_splits)
  assume "ctrl_bulk_build_profile_status cap sq st vid pid = Some f"
  then have f: "f = bulk_finalize CTRL_BULK_TYPE_PROFILE_STATUS sq ([st] @ wr_u16 vid @ wr_u16 pid)"
    by (auto simp: ctrl_bulk_build_profile_status_def split: if_splits)
  note d = bulk_finalize_drop [of _ CTRL_BULK_TYPE_PROFILE_STATUS sq "[st] @ wr_u16 vid @ wr_u16 pid" rest]
  have "rd_u16 (f @ rest) 5 = vid" using d [of 1] unfolding f by (intro rd_u16_at) simp
  moreover have "rd_u16 (f @ rest) 7 = pid" using d [of 3] unfolding f by (intro rd_u16_at) simp
  moreover have "(f @ rest) ! 4 = st"
    using bulk_payload_nth [of 0 "[st] @ wr_u16 vid @ wr_u16 pid" CTRL_BULK_TYPE_PROFILE_STATUS sq rest] f
    by simp
  ultimately show "ctrl_bulk_decode_profile_status (f @ rest) (length f) = Some (st, vid, pid)"
    using frame_type_len_finalize [of "[st] @ wr_u16 vid @ wr_u16 pid" CTRL_BULK_TYPE_PROFILE_STATUS sq rest] f
    by (simp add: ctrl_bulk_decode_profile_status_def)
qed

lemma firmware_roundtrip:
  assumes "ctrl_bulk_build_firmware_report cap sq rep = Some f"
  shows "ctrl_bulk_decode_firmware_report (f @ rest) (length f) =
    Some (rep\<lparr>fw_version := nul_padded CTRL_FW_VERSION_MAX (fw_version rep) @ [0]\<rparr>)"
proof -
  let ?pl = "[fw_slot rep, fw_state rep] @ nul_padded CTRL_FW_VERSION_MAX (fw_version rep)"
  have f: "f = bulk_finalize CTRL_BULK_TYPE_FIRMWARE_REPORT sq ?pl"
    using assms by (auto simp: ctrl_bulk_build_firmware_report_def split: if_splits)
  note b = bulk_payload_nth [of _ ?pl CTRL_BULK_TYPE_FIRMWARE_REPORT sq rest]
  have "(f @ rest) ! 4 = fw_slot rep" "(f @ rest) ! 5 = fw_state rep" using b [of 0] b [of 1] f by simp_all
  moreover have "take 32 (drop 6 (f @ rest)) = nul_padded 32 (fw_version rep)"
    using bulk_finalize_drop [of 2 CTRL_BULK_TYPE_FIRMWARE_REPORT sq ?pl rest] unfolding f by simp
  ultimately show ?thesis
    using frame_type_len_finalize [of ?pl CTRL_BULK_TYPE_FIRMWARE_REPORT sq rest] f
    by (simp add: ctrl_bulk_decode_firmware_report_def)
qed

text \<open>Every builder makes a well-formed frame that fits the buffer it was given.\<close>

lemma built_frames:
  "ctrl_bulk_build_descriptor_frame cap sq rep = Some f \<Longrightarrow> bulk_frame f \<and> length f \<le> cap"
  "ctrl_bulk_build_profile_begin cap sq tot crc vid pid = Some f \<Longrightarrow> bulk_frame f \<and> length f \<le> cap"
  "ctrl_bulk_build_profile_chunk cap sq offset data = Some f \<Longrightarrow> bulk_frame f \<and> length f \<le> cap"
  "ctrl_bulk_build_profile_simple cap sq ty = Some f \<Longrightarrow> bulk_frame f \<and> length f \<le> cap"
  "ctrl_bulk_build_profile_ack cap sq ty = Some f \<Longrightarrow> bulk_frame f \<and> length f \<le> cap"
  "ctrl_bulk_build_profile_nack cap sq ty reason = Some f \<Longrightarrow> bulk_frame f \<and> length f \<le> cap"
  "ctrl_bulk_build_profile_status cap sq st vid pid = Some f \<Longrightarrow> bulk_frame f \<and> length f \<le> cap"
  "ctrl_bulk_build_firmware_report cap sq fw = Some f \<Longrightarrow> bulk_frame f \<and> length f \<le> cap"
proof -
  have fin: "bulk_frame (bulk_finalize ty sq pl)" if "length pl \<le> 128" for ty sq pl
    using that by (auto simp: bulk_frame_def)
  show "ctrl_bulk_build_descriptor_frame cap sq rep = Some f \<Longrightarrow> bulk_frame f \<and> length f \<le> cap"
    "ctrl_bulk_build_profile_begin cap sq tot crc vid pid = Some f \<Longrightarrow> bulk_frame f \<and> length f \<le> cap"
    "ctrl_bulk_build_profile_chunk cap sq offset data = Some f \<Longrightarrow> bulk_frame f \<and> length f \<le> cap"
    "ctrl_bulk_build_profile_simple cap sq ty = Some f \<Longrightarrow> bulk_frame f \<and> length f \<le> cap"
    "ctrl_bulk_build_profile_ack cap sq ty = Some f \<Longrightarrow> bulk_frame f \<and> length f \<le> cap"
    "ctrl_bulk_build_profile_nack cap sq ty reason = Some f \<Longrightarrow> bulk_frame f \<and> length f \<le> cap"
    "ctrl_bulk_build_profile_status cap sq st vid pid = Some f \<Longrightarrow> bulk_frame f \<and> length f \<le> cap"
    "ctrl_bulk_build_firmware_report cap sq fw = Some f \<Longrightarrow> bulk_frame f \<and> length f \<le> cap"
    by (auto simp: ctrl_bulk_build_descriptor_frame_def ctrl_bulk_build_profile_begin_def
        ctrl_bulk_build_profile_chunk_def ctrl_bulk_build_profile_simple_def
        ctrl_bulk_build_profile_ack_def ctrl_bulk_build_profile_nack_def
        ctrl_bulk_build_profile_status_def ctrl_bulk_build_firmware_report_def
        split: if_splits intro!: fin)
qed

section \<open>Corruption\<close>

lemma wr_u16_inj: "wr_u16 a = wr_u16 b \<Longrightarrow> a = b"
  using rd_u16_wr [of 0 "[]" a "[]"] rd_u16_wr [of 0 "[]" b "[]"] by simp

definition crc_framed :: "u8 list \<Rightarrow> u8 list" where
  "crc_framed body = CTRL_BULK_FRAME_START # body @ wr_u16 (bulk_crc16 body)"

lemma bulk_frame_body:
  assumes "bulk_frame f"
  obtains body where "f = crc_framed body"
proof -
  from assms obtain ty sq payload where "f = bulk_finalize ty sq payload" by (auto simp: bulk_frame_def)
  then have "f = crc_framed ([ty, sq, of_nat (length payload)] @ payload)"
    by (simp add: bulk_finalize_def crc_framed_def Let_def)
  then show thesis by (rule that)
qed

lemma bulk_crc16_update:
  assumes "i < length xs" "bulk_crc16 (xs[i := b]) = bulk_crc16 xs"
  shows "b = xs ! i"
  using bulk_crc16_one_byte [of "take i xs" b "drop (Suc i) xs" "xs ! i"] assms
  by (simp add: upd_conv_take_nth_drop id_take_nth_drop [symmetric])

lemma crc_framed_update:
  assumes "(crc_framed body)[i := b] = crc_framed body'" "i < length (crc_framed body)"
  shows "b = crc_framed body ! i"
proof (cases i)
  case 0
  then show ?thesis using assms(1) by (simp add: crc_framed_def)
next
  case (Suc k)
  let ?c = "wr_u16 (bulk_crc16 body)"
  have "length (crc_framed body) = length (crc_framed body')" using assms(1) by (metis length_list_update)
  then have len: "length body' = length body" by (simp add: crc_framed_def)
  have u: "(body @ ?c)[k := b] = body' @ wr_u16 (bulk_crc16 body')"
    using assms(1) Suc by (simp add: crc_framed_def)
  show ?thesis
  proof (cases "k < length body")
    case True
    then have "body' = body[k := b] \<and> wr_u16 (bulk_crc16 body') = ?c" using u len by (simp add: list_update_append)
    then have "bulk_crc16 (body[k := b]) = bulk_crc16 body" by (auto dest: wr_u16_inj)
    from bulk_crc16_update [OF True this] show ?thesis using Suc True by (simp add: crc_framed_def nth_append)
  next
    case False
    then have e: "body' = body \<and> ?c[k - length body := b] = wr_u16 (bulk_crc16 body')"
      using u len by (auto simp: list_update_append)
    have "k - length body < length ?c" using assms(2) Suc False by (simp add: crc_framed_def)
    then have "?c ! (k - length body) = b" using e by (metis nth_list_update_eq)
    then show ?thesis using Suc False by (simp add: crc_framed_def nth_append)
  qed
qed

text \<open>A checksum that does not match is an error of the last byte, and the parser is at rest again.\<close>

lemma bulk_parser_rejects:
  assumes "bulk_shape f" "\<not> bulk_frame f" "bulk_parser_inv p" "bp_pos p = 0"
  shows "\<exists>p'. bulk_feed_all p f = (p', replicate (length f - 1) 0 @ [-1]) \<and> bulk_parser_inv p' \<and> bp_pos p' = 0"
proof -
  define k where "k = length f - 1"
  have k: "Suc k = length f" "4 \<le> k" "k < 134" using assms(1) by (auto simp: k_def bulk_shape_def)
  obtain p1 where p1: "bulk_feed_all p (take k f) = (p1, replicate k 0)" "bulk_fed f k p1"
    using bulk_feed_prefix [OF assms(1,3,4), of k] k by auto
  have i1: "bulk_parser_inv p1" "bp_pos p1 = k" "bp_total_len p1 = length f" "take k (bp_buf p1) = take k f" "length (bp_buf p1) = 134"
    using p1(2) k by (auto simp: bulk_fed_def bulk_parser_inv_def split: if_splits)
  obtain p2 r where p2: "ctrl_bulk_parser_feed p1 (f ! k) = (p2, r)" by fastforce
  have "(r = int (length f) \<or> r = -1) \<and> bp_pos p2 = 0 \<and> take (length f) (bp_buf p2) = f"
    using p2 i1(1)
  proof (cases rule: parser_feed_cases)
    case last
    then show ?thesis using i1 k take_update_Suc [of k "bp_buf p1" f] by auto
  qed (use i1 k in auto)
  then have r: "r = int (length f) \<or> r = -1" "bp_pos p2 = 0" "take (length f) (bp_buf p2) = f" by auto
  have "r = -1"
  proof (rule ccontr)
    assume n: "r \<noteq> -1"
    then have "r \<noteq> 0" using r(1) k by auto
    from bulk_parser_sound [OF i1(1) p2 this n] r show False using n assms(2) by auto
  qed
  moreover have "bulk_parser_inv p2" using bulk_parser_inv_feed [OF i1(1), of "f ! k"] p2 by simp
  moreover have "f = take k f @ [f ! k]" using k by (metis lessI take_Suc_conv_app_nth take_all_iff order_refl)
  then have "bulk_feed_all p f = (p2, replicate k 0 @ [r])"
    using p1(1) p2 by (metis (mono_tags, lifting) bulk_feed_all.simps bulk_feed_all_append case_prod_conv)
  ultimately show ?thesis using r(2) by (auto simp: k_def)
qed

lemma bulk_feed_inv: "bulk_parser_inv p \<Longrightarrow> bulk_parser_inv (fst (bulk_feed_all p bs))"
proof (induction bs arbitrary: p)
  case (Cons b bs)
  then show ?case using bulk_parser_inv_feed [OF Cons.prems, of b] by (simp add: Let_def split: prod.split) (metis fst_conv)
qed simp

section \<open>Properties\<close>

text \<open>
  The parser reports every corruption of one byte behind the start byte, the length byte excepted: whatever it received
  before, when it is at rest and gets a built frame with one wrong byte (message type, sequence number, payload or checksum), it
  announces nothing, reports an error with the last byte, and takes the frame when it is sent again. (A wrong length byte
  can make other bytes of the frame pass as its checksum.)
\<close>

theorem single_byte_corruption_rejected:
  assumes "bulk_feed_all ctrl_bulk_parser_zero before = (p, rs)" "bp_pos p = 0"
    and "length payload \<le> CTRL_BULK_MAX_PAYLOAD" "f = bulk_finalize ty sq payload"
    and "i < length f" "i \<noteq> 0" "i \<noteq> 3" "b \<noteq> f ! i"
  shows "case bulk_feed_all p (f[i := b]) of (p1, r1) \<Rightarrow>
     r1 = replicate (length f - 1) 0 @ [-1] \<and>
     (case bulk_feed_all p1 f of (p2, r2) \<Rightarrow> r2 = replicate (length f - 1) 0 @ [int (length f)] \<and> take (length f) (bp_buf p2) = f)"
proof -
  have inv: "bulk_parser_inv p" using bulk_feed_inv [OF bulk_parser_inv_zero, of before] assms(1) by simp
  have f: "bulk_frame f" using assms(3,4) by (auto simp: bulk_frame_def)
  have "bulk_shape (f[i := b])" using bulk_frame_shape [OF f] assms(5-7) by (simp add: bulk_shape_def)
  moreover have "\<not> bulk_frame (f[i := b])"
  proof
    assume "bulk_frame (f[i := b])"
    then obtain body' where "f[i := b] = crc_framed body'" by (rule bulk_frame_body)
    moreover obtain body where "f = crc_framed body" using f by (rule bulk_frame_body)
    ultimately show False using crc_framed_update [of body i b body'] assms(5,8) by simp
  qed
  ultimately obtain p1 where p1: "bulk_feed_all p (f[i := b]) = (p1, replicate (length f - 1) 0 @ [-1])" "bulk_parser_inv p1" "bp_pos p1 = 0"
    using bulk_parser_rejects [OF _ _ inv assms(2)] by force
  then show ?thesis using bulk_parser_complete [OF f p1(2,3)] by auto
qed

text \<open>A PROFILE_END frame with a wrong sequence number.\<close>

theorem single_byte_corruption_rejected_witness:
  "case bulk_feed_all ctrl_bulk_parser_zero ((bulk_finalize CTRL_BULK_TYPE_PROFILE_END 7 [])[2 := 8]) of
     (p1, r1) \<Rightarrow> r1 = [0, 0, 0, 0, 0, -1]"
proof -
  let ?f = "bulk_finalize CTRL_BULK_TYPE_PROFILE_END 7 []"
  have a: "bulk_feed_all ctrl_bulk_parser_zero [] = (ctrl_bulk_parser_zero, [])" by simp
  have b: "2 < length ?f" "8 \<noteq> ?f ! 2" by (simp_all add: bulk_finalize_def Let_def)
  show ?thesis
    using single_byte_corruption_rejected [OF a _ _ refl b(1) _ _ b(2)]
    by (auto simp: ctrl_bulk_parser_zero_def eval_nat_numeral split: prod.splits)
qed

text \<open>
  Claim C28.  Encoding and decoding agree for every message type of the bulk protocol: what a board
  builds, the other board's decoder reads back field by field, whatever follows in the receive buffer.
\<close>

theorem bulk_messages_roundtrip:
  "(ctrl_bulk_build_profile_begin cap sq tot crc vid pid = Some f \<longrightarrow>
      ctrl_bulk_decode_profile_begin (f @ rest) (length f) = Some (tot, crc, vid, pid)) \<and>
   (ctrl_bulk_build_profile_chunk cap sq offset data = Some f \<longrightarrow>
      ctrl_bulk_decode_profile_chunk (f @ rest) (length f) = Some (offset, data)) \<and>
   (ctrl_bulk_build_descriptor_frame cap sq rep = Some f \<longrightarrow>
      ctrl_bulk_decode_descriptor (f @ rest) (length f) =
        Some (rep\<lparr>desc_product := nul_padded CTRL_DESC_PRODUCT_MAX (desc_product rep) @ [0]\<rparr>)) \<and>
   (ctrl_bulk_build_profile_ack cap sq ty = Some f \<longrightarrow>
      ctrl_bulk_decode_profile_ack (f @ rest) (length f) = Some ty) \<and>
   (ctrl_bulk_build_profile_nack cap sq ty reason = Some f \<longrightarrow>
      ctrl_bulk_decode_profile_nack (f @ rest) (length f) = Some (ty, reason)) \<and>
   (ctrl_bulk_build_profile_status cap sq st vid pid = Some f \<longrightarrow>
      ctrl_bulk_decode_profile_status (f @ rest) (length f) = Some (st, vid, pid)) \<and>
   (ctrl_bulk_build_firmware_report cap sq fw = Some f \<longrightarrow>
      ctrl_bulk_decode_firmware_report (f @ rest) (length f) =
        Some (fw\<lparr>fw_version := nul_padded CTRL_FW_VERSION_MAX (fw_version fw) @ [0]\<rparr>))"
  by (intro conjI impI) (rule begin_roundtrip chunk_roundtrip descriptor_roundtrip reply_roundtrips firmware_roundtrip, assumption)+

theorem bulk_messages_roundtrip_witness:
  "\<exists>f. ctrl_bulk_build_profile_chunk CTRL_BULK_MAX_FRAME 9 600 [1, 2, 3] = Some f \<and>
       ctrl_bulk_decode_profile_chunk (f @ [0]) (length f) = Some (600, [1, 2, 3])"
proof -
  have "ctrl_bulk_build_profile_chunk CTRL_BULK_MAX_FRAME 9 600 [1, 2, 3] \<noteq> None"
    by (simp add: ctrl_bulk_build_profile_chunk_def)
  then obtain f where f: "ctrl_bulk_build_profile_chunk CTRL_BULK_MAX_FRAME 9 600 [1, 2, 3] = Some f" by blast
  have "ctrl_bulk_decode_profile_chunk (f @ [0]) (length f) = Some (600, [1, 2, 3])"
    by (rule bulk_messages_roundtrip [THEN conjunct2, THEN conjunct1, THEN mp, OF f])
  with f show ?thesis by blast
qed

end
