(* ===== verification/Frame_Rx.thy ===== *)
theory Frame_Rx
  imports Ctrl_Bulk Interfaces
begin

text \<open>
  The fixed 7-byte 0xA5 frames and the receiver both boards run over the byte stream
  (\<open>parse_rx_byte\<close> on the S3, \<open>parse_byte\<close> on the P4).  The two C functions differ only in what
  they do with a frame or an error; this common part is \<open>rx_step\<close>, which reports
  what happened, and the board theories add the reactions.
\<close>

section \<open>Fixed frames\<close>

abbreviation (input) CTRL_FRAME_LEN :: nat where "CTRL_FRAME_LEN \<equiv> 7"
abbreviation (input) CTRL_FRAME_START :: u8 where "CTRL_FRAME_START \<equiv> 0xA5"

record fixed_frame_build =
  ff_type :: u8
  ff_id :: u8
  ff_value :: i16

definition build_fixed_frame :: "nat \<Rightarrow> u8 \<Rightarrow> fixed_frame_build \<Rightarrow> u8 list option" where
  "build_fixed_frame capacity sq fixed =
     (if capacity < CTRL_FRAME_LEN then None
      else let v = ff_value fixed; lo = ucast (v AND 0xFF); hi = ucast (drop_bit 8 v AND 0xFF)
           in Some [CTRL_FRAME_START, ff_type fixed, ff_id fixed, lo, hi, sq,
                    ff_type fixed XOR ff_id fixed XOR lo XOR hi XOR sq])"

section \<open>The receiver\<close>

record rx_state =
  rx_buf :: "u8 list"
  rx_pos :: nat

record rx_demux =
  dm_fixed :: rx_state
  dm_bulk :: ctrl_bulk_parser

datatype rx_report = FixedFrame "u8 list" | BulkFrame "u8 list" nat | FixedError | BulkError

text \<open>After a checksum error the bytes from the next start byte on, if any, are kept.\<close>

definition rx_resync :: "u8 list \<Rightarrow> rx_state" where
  "rx_resync buf =
     (case find (\<lambda>i. buf ! i = CTRL_FRAME_START) [1..<CTRL_FRAME_LEN] of
        None \<Rightarrow> \<lparr>rx_buf = buf, rx_pos = 0\<rparr>
      | Some i \<Rightarrow> \<lparr>rx_buf = mem_copy 0 (drop i buf) buf, rx_pos = CTRL_FRAME_LEN - i\<rparr>)"

definition rx_step :: "rx_demux \<Rightarrow> u8 \<Rightarrow> rx_demux \<times> rx_report option" where
  "rx_step d b =
     (let st = dm_fixed d; bp = dm_bulk d in
      if rx_pos st = 0 \<and> (bp_pos bp > 0 \<or> b = CTRL_BULK_FRAME_START) then
        let (bp', r) = ctrl_bulk_parser_feed bp b in
        (d\<lparr>dm_bulk := bp'\<rparr>,
         if r > 0 then Some (BulkFrame (bp_buf bp') (nat r)) else if r < 0 then Some BulkError else None)
      else if rx_pos st = 0 \<and> b \<noteq> CTRL_FRAME_START then (d, None)
      else
        let buf = (rx_buf st)[rx_pos st := b]; pos = rx_pos st + 1 in
        if pos < CTRL_FRAME_LEN then (d\<lparr>dm_fixed := \<lparr>rx_buf = buf, rx_pos = pos\<rparr>\<rparr>, None)
        else if buf ! 1 XOR buf ! 2 XOR buf ! 3 XOR buf ! 4 XOR buf ! 5 \<noteq> buf ! 6
        then (d\<lparr>dm_fixed := rx_resync buf\<rparr>, Some FixedError)
        else (d\<lparr>dm_fixed := \<lparr>rx_buf = buf, rx_pos = 0\<rparr>\<rparr>, Some (FixedFrame buf)))"

definition rx_demux_zero :: rx_demux where
  "rx_demux_zero = \<lparr>dm_fixed = \<lparr>rx_buf = replicate CTRL_FRAME_LEN 0, rx_pos = 0\<rparr>, dm_bulk = ctrl_bulk_parser_zero\<rparr>"

section \<open>Invariant\<close>

definition rx_fixed_ok :: "rx_state \<Rightarrow> bool" where
  "rx_fixed_ok st \<longleftrightarrow> length (rx_buf st) = CTRL_FRAME_LEN \<and> rx_pos st < CTRL_FRAME_LEN \<and>
     (rx_pos st > 0 \<longrightarrow> rx_buf st ! 0 = CTRL_FRAME_START)"

definition rx_demux_inv :: "rx_demux \<Rightarrow> bool" where
  "rx_demux_inv d \<longleftrightarrow> bulk_parser_inv (dm_bulk d) \<and> rx_fixed_ok (dm_fixed d) \<and>
     (bp_pos (dm_bulk d) > 0 \<longrightarrow> rx_pos (dm_fixed d) = 0)"

lemma rx_demux_inv_zero: "rx_demux_inv rx_demux_zero"
  by (simp add: rx_demux_inv_def rx_fixed_ok_def rx_demux_zero_def bulk_parser_inv_zero ctrl_bulk_parser_zero_def
      bulk_parser_inv_def)

lemma rx_resync_ok:
  assumes "length buf = CTRL_FRAME_LEN"
  shows "rx_fixed_ok (rx_resync buf)"
proof (cases "find (\<lambda>i. buf ! i = CTRL_FRAME_START) [1..<CTRL_FRAME_LEN]")
  case None
  then show ?thesis using assms by (simp add: rx_resync_def rx_fixed_ok_def)
next
  case (Some i)
  then obtain k where k: "k < length [1..<CTRL_FRAME_LEN]" "i = [1..<CTRL_FRAME_LEN] ! k" "buf ! i = CTRL_FRAME_START"
    by (auto simp: find_Some_iff)
  then have "1 \<le> i" "i < 7" by auto
  with Some k assms show ?thesis
    by (simp add: rx_resync_def rx_fixed_ok_def mem_copy_def nth_append)
qed

lemma rx_demux_inv_step:
  assumes "rx_demux_inv d"
  shows "rx_demux_inv (fst (rx_step d b))"
proof (cases "rx_pos (dm_fixed d) = 0 \<and> (bp_pos (dm_bulk d) > 0 \<or> b = CTRL_BULK_FRAME_START)")
  case True
  then show ?thesis
    using assms bulk_parser_inv_feed [of "dm_bulk d" b]
    by (auto simp: rx_step_def rx_demux_inv_def Let_def split: prod.splits)
next
  case False
  let ?st = "dm_fixed d"
  have f: "rx_fixed_ok ?st" "bulk_parser_inv (dm_bulk d)" using assms by (auto simp: rx_demux_inv_def)
  have idle: "bp_pos (dm_bulk d) = 0" using False assms by (auto simp: rx_demux_inv_def)
  have start: "rx_pos ?st = 0 \<Longrightarrow> b = CTRL_FRAME_START \<Longrightarrow> ((rx_buf ?st)[0 := b]) ! 0 = CTRL_FRAME_START"
    using f(1) by (simp add: rx_fixed_ok_def)
  have "rx_fixed_ok (rx_resync ((rx_buf ?st)[rx_pos ?st := b]))"
    using f(1) by (intro rx_resync_ok) (simp add: rx_fixed_ok_def)
  with False f idle show ?thesis
    unfolding rx_step_def Let_def
    by (cases "rx_pos ?st = 0") (auto simp: rx_demux_inv_def rx_fixed_ok_def)
qed

section \<open>Exact delivery\<close>

datatype link_frame = Fixed u8 fixed_frame_build | Bulk "u8 list"

text \<open>The frames a board may put on the wire and their bytes.\<close>

definition link_frame_ok :: "link_frame \<Rightarrow> bool" where
  "link_frame_ok f = (case f of Fixed sq ff \<Rightarrow> True | Bulk bs \<Rightarrow> bulk_frame bs)"

definition link_wire :: "link_frame \<Rightarrow> u8 list" where
  "link_wire f = (case f of Fixed sq ff \<Rightarrow> the (build_fixed_frame CTRL_FRAME_LEN sq ff) | Bulk bs \<Rightarrow> bs)"

text \<open>
  A bulk frame is reported as the start of the parser buffer; \<open>strip\<close> drops the stale bytes behind it.
\<close>

definition strip :: "rx_report \<Rightarrow> rx_report" where
  "strip r = (case r of BulkFrame buf n \<Rightarrow> BulkFrame (take n buf) n | _ \<Rightarrow> r)"

definition link_report :: "link_frame \<Rightarrow> rx_report" where
  "link_report f = (case f of Fixed sq ff \<Rightarrow> FixedFrame (link_wire f) | Bulk bs \<Rightarrow> BulkFrame bs (length bs))"

definition link_step :: "rx_demux \<Rightarrow> u8 \<Rightarrow> rx_demux \<times> rx_report option" where
  "link_step d b = (let (d', r) = rx_step d b in (d', map_option strip r))"

definition rx_idle :: "rx_demux \<Rightarrow> bool" where
  "rx_idle d \<longleftrightarrow> rx_demux_inv d \<and> rx_pos (dm_fixed d) = 0 \<and> bp_pos (dm_bulk d) = 0"

lemma list7: "length xs = 7 \<longleftrightarrow> (\<exists>a b c d e f g. xs = [a, b, c, d, e, f, g])"
  by (auto simp: length_Suc_conv numeral_eq_Suc)

lemma link_step_fixed:
  assumes "0 < rx_pos (dm_fixed d) \<or> b = CTRL_FRAME_START \<and> bp_pos (dm_bulk d) = 0" "rx_pos (dm_fixed d) < 6"
  shows "link_step d b = (d\<lparr>dm_fixed := \<lparr>rx_buf = (rx_buf (dm_fixed d))[rx_pos (dm_fixed d) := b],
            rx_pos = Suc (rx_pos (dm_fixed d))\<rparr>\<rparr>, None)"
  using assms by (auto simp: link_step_def rx_step_def Let_def)

lemma fixed_frame_run:
  assumes "rx_idle d" "build_fixed_frame cap sq ff = Some bs"
  shows "\<exists>d'. rx_run link_step d bs = (d', [FixedFrame bs]) \<and> rx_idle d'"
proof -
  define ty where "ty = ff_type ff"
  define cid where "cid = ff_id ff"
  define lo :: u8 where "lo = ucast (ff_value ff AND 0xFF)"
  define hi :: u8 where "hi = ucast (drop_bit 8 (ff_value ff) AND 0xFF)"
  define chk where "chk = ty XOR cid XOR lo XOR hi XOR sq"
  have bs: "bs = [CTRL_FRAME_START, ty, cid, lo, hi, sq, chk]"
    using assms(2) unfolding build_fixed_frame_def Let_def chk_def ty_def cid_def lo_def hi_def
    by (auto split: if_splits)
  let ?st = "dm_fixed d"
  have i: "rx_pos ?st = 0" "bp_pos (dm_bulk d) = 0" "bulk_parser_inv (dm_bulk d)" "length (rx_buf ?st) = 7"
    using assms(1) by (auto simp: rx_idle_def rx_demux_inv_def rx_fixed_ok_def)
  obtain a b c e f g h where buf: "rx_buf ?st = [a, b, c, e, f, g, h]"
    using i(4) unfolding list7 by (elim exE)
  let ?d = "d\<lparr>dm_fixed := \<lparr>rx_buf = [CTRL_FRAME_START, ty, cid, lo, hi, sq, h], rx_pos = 6\<rparr>\<rparr>"
  let ?s = "\<lambda>k xs. d\<lparr>dm_fixed := \<lparr>rx_buf = xs, rx_pos = k\<rparr>\<rparr>"
  have "link_step d CTRL_FRAME_START = (?s 1 [CTRL_FRAME_START, b, c, e, f, g, h], None)"
    using i by (simp add: link_step_fixed buf)
  moreover have "link_step (?s 1 [CTRL_FRAME_START, b, c, e, f, g, h]) ty = (?s 2 [CTRL_FRAME_START, ty, c, e, f, g, h], None)"
    "link_step (?s 2 [CTRL_FRAME_START, ty, c, e, f, g, h]) cid = (?s 3 [CTRL_FRAME_START, ty, cid, e, f, g, h], None)"
    "link_step (?s 3 [CTRL_FRAME_START, ty, cid, e, f, g, h]) lo = (?s 4 [CTRL_FRAME_START, ty, cid, lo, f, g, h], None)"
    "link_step (?s 4 [CTRL_FRAME_START, ty, cid, lo, f, g, h]) hi = (?s 5 [CTRL_FRAME_START, ty, cid, lo, hi, g, h], None)"
    "link_step (?s 5 [CTRL_FRAME_START, ty, cid, lo, hi, g, h]) sq = (?d, None)"
    by (simp_all add: link_step_fixed)
  ultimately have six: "rx_run link_step d [CTRL_FRAME_START, ty, cid, lo, hi, sq] = (?d, [])"
    by (simp only: rx_run.simps Let_def prod.case option.case)
  have last: "link_step ?d chk = (d\<lparr>dm_fixed := \<lparr>rx_buf = bs, rx_pos = 0\<rparr>\<rparr>, Some (FixedFrame bs))"
    by (simp add: link_step_def rx_step_def Let_def strip_def bs chk_def)
  have "rx_run link_step d ([CTRL_FRAME_START, ty, cid, lo, hi, sq] @ [chk]) =
      (d\<lparr>dm_fixed := \<lparr>rx_buf = bs, rx_pos = 0\<rparr>\<rparr>, [FixedFrame bs])"
    unfolding rx_run_append six using last by simp
  moreover have "rx_idle (d\<lparr>dm_fixed := \<lparr>rx_buf = bs, rx_pos = 0\<rparr>\<rparr>)"
    using i bs by (simp add: rx_idle_def rx_demux_inv_def rx_fixed_ok_def)
  ultimately show ?thesis unfolding bs by auto
qed

lemma bulk_frame_first: "bulk_frame f \<Longrightarrow> \<exists>rest. f = CTRL_BULK_FRAME_START # rest \<and> rest \<noteq> []"
  by (auto simp: bulk_frame_def bulk_finalize_def Let_def)

text \<open>While the bulk parser is mid-frame, or at a start byte, the receiver is the bulk parser.\<close>

lemma link_step_bulk:
  assumes "rx_pos (dm_fixed d) = 0" "bp_pos (dm_bulk d) > 0 \<or> b = CTRL_BULK_FRAME_START"
    and "ctrl_bulk_parser_feed (dm_bulk d) b = (bp', r)"
  shows "link_step d b = (d\<lparr>dm_bulk := bp'\<rparr>,
     if r > 0 then Some (BulkFrame (take (nat r) (bp_buf bp')) (nat r)) else if r < 0 then Some BulkError else None)"
  using assms by (simp add: link_step_def rx_step_def strip_def)

lemma bulk_prefix_run:
  assumes "bulk_frame f" "rx_idle d" "k < length f"
  shows "\<exists>bp'. rx_run link_step d (take k f) = (d\<lparr>dm_bulk := bp'\<rparr>, []) \<and> bulk_fed f k bp'"
  using assms(3)
proof (induction k)
  case 0
  have "bulk_fed f 0 (dm_bulk d)"
    using assms(2) by (auto simp: bulk_fed_def rx_idle_def rx_demux_inv_def bulk_parser_inv_def split: if_splits)
  then show ?case by (intro exI [of _ "dm_bulk d"]) simp
next
  case (Suc k)
  then obtain bp where bp: "rx_run link_step d (take k f) = (d\<lparr>dm_bulk := bp\<rparr>, [])" "bulk_fed f k bp" by auto
  obtain bp' where s: "ctrl_bulk_parser_feed bp (f ! k) = (bp', 0)" "bulk_fed f (Suc k) bp'"
    using bulk_fed_step [OF bp(2) bulk_frame_shape [OF assms(1)]] Suc.prems by auto
  have "bp_pos bp > 0 \<or> f ! k = CTRL_BULK_FRAME_START"
    using bp(2) bulk_frame_first [OF assms(1)] by (cases k) (auto simp: bulk_fed_def)
  then have "link_step (d\<lparr>dm_bulk := bp\<rparr>) (f ! k) = (d\<lparr>dm_bulk := bp'\<rparr>, None)"
    using link_step_bulk [of "d\<lparr>dm_bulk := bp\<rparr>" "f ! k" bp' 0] s(1) assms(2) by (simp add: rx_idle_def)
  with bp(1) s(2) Suc.prems show ?case
    by (intro exI [of _ bp']) (simp add: take_Suc_conv_app_nth rx_run_append)
qed

lemma bulk_frame_run:
  assumes "bulk_frame f" "rx_idle d"
  shows "\<exists>d'. rx_run link_step d f = (d', [BulkFrame f (length f)]) \<and> rx_idle d'"
proof -
  from bulk_frame_first [OF assms(1)] have len: "2 \<le> length f" by (auto simp: Suc_le_eq)
  then have lt: "length f - 1 < length f" and ne: "f \<noteq> []" by auto
  obtain bp where bp: "rx_run link_step d (take (length f - 1) f) = (d\<lparr>dm_bulk := bp\<rparr>, [])" "bulk_fed f (length f - 1) bp"
    using bulk_prefix_run [OF assms lt] by auto
  obtain bp' where e: "ctrl_bulk_parser_feed bp (last f) = (bp', int (length f))" "take (length f) (bp_buf bp') = f"
      "bulk_parser_inv bp'" "bp_pos bp' = 0"
    using bulk_fed_last [OF bp(2) assms(1)] by auto
  have "link_step (d\<lparr>dm_bulk := bp\<rparr>) (last f) = (d\<lparr>dm_bulk := bp'\<rparr>, Some (BulkFrame f (length f)))"
    using link_step_bulk [of "d\<lparr>dm_bulk := bp\<rparr>" "last f" bp' "int (length f)"] e bp(2) len assms(2) ne
    by (simp add: rx_idle_def bulk_fed_def)
  moreover have "take (length f - 1) f @ [last f] = f"
    using len by (metis append_butlast_last_id butlast_conv_take list.size(3) not_numeral_le_zero)
  ultimately have "rx_run link_step d f = (d\<lparr>dm_bulk := bp'\<rparr>, [BulkFrame f (length f)])"
    using bp(1) rx_run_append [of link_step d "take (length f - 1) f" "[last f]"] by simp
  moreover have "rx_idle (d\<lparr>dm_bulk := bp'\<rparr>)" using assms(2) e by (simp add: rx_idle_def rx_demux_inv_def)
  ultimately show ?thesis by blast
qed

interpretation link_stream: frame_stream link_step rx_idle link_wire link_report link_frame_ok
proof unfold_locales
  fix s f assume s: "rx_idle s" "link_frame_ok f"
  show "\<exists>s'. rx_run link_step s (link_wire f) = (s', [link_report f]) \<and> rx_idle s'"
  proof (cases f)
    case (Fixed sq ff)
    then have "build_fixed_frame CTRL_FRAME_LEN sq ff = Some (link_wire f)"
      by (simp add: link_wire_def build_fixed_frame_def Let_def)
    from fixed_frame_run [OF s(1) this] Fixed show ?thesis by (simp add: link_report_def)
  next
    case (Bulk bs)
    with s bulk_frame_run [of bs s] show ?thesis by (simp add: link_frame_ok_def link_wire_def link_report_def)
  qed
qed

section \<open>Self-healing\<close>

text \<open>
  Whatever garbage the receiver is in the middle of, a run of filler bytes (neither start byte) brings
  it back to idle: at most 133 bytes for a bulk frame and at most 7 for a fixed one.
  \<open>quiet n d\<close>: the fixed parser's last \<open>min n pos\<close> bytes are filler.
\<close>

definition filler :: "u8 \<Rightarrow> bool" where
  "filler b \<longleftrightarrow> b \<noteq> CTRL_FRAME_START \<and> b \<noteq> CTRL_BULK_FRAME_START"

definition quiet :: "nat \<Rightarrow> rx_demux \<Rightarrow> bool" where
  "quiet n d \<longleftrightarrow> rx_demux_inv d \<and>
     (\<forall>i < rx_pos (dm_fixed d). rx_pos (dm_fixed d) \<le> i + n \<longrightarrow> rx_buf (dm_fixed d) ! i \<noteq> CTRL_FRAME_START)"

lemma quiet_small: "quiet n d \<Longrightarrow> 0 < rx_pos (dm_fixed d) \<Longrightarrow> n < rx_pos (dm_fixed d)"
  by (auto simp: quiet_def rx_demux_inv_def rx_fixed_ok_def not_less)

lemma resync_quiet:
  assumes "length buf = CTRL_FRAME_LEN" "\<forall>i < 7. 7 \<le> i + n \<longrightarrow> buf ! i \<noteq> CTRL_FRAME_START"
  shows "\<forall>i < rx_pos (rx_resync buf). rx_pos (rx_resync buf) \<le> i + n \<longrightarrow> rx_buf (rx_resync buf) ! i \<noteq> CTRL_FRAME_START"
proof (cases "find (\<lambda>i. buf ! i = CTRL_FRAME_START) [1..<CTRL_FRAME_LEN]")
  case (Some k)
  then have "1 \<le> k" "k < 7" by (auto simp: find_Some_iff)
  then show ?thesis
    using Some assms by (auto simp: rx_resync_def mem_copy_def nth_append)
qed (simp add: rx_resync_def)

lemma quiet_step:
  assumes "quiet n d" "filler b" "bp_pos (dm_bulk d) = 0"
  shows "quiet (Suc n) (fst (rx_step d b)) \<and> bp_pos (dm_bulk (fst (rx_step d b))) = 0"
proof (cases "rx_pos (dm_fixed d) = 0")
  case True
  then show ?thesis using assms by (auto simp: rx_step_def filler_def quiet_def Let_def)
next
  case False
  let ?st = "dm_fixed d" and ?buf = "(rx_buf (dm_fixed d))[rx_pos (dm_fixed d) := b]"
  have inv: "rx_demux_inv (fst (rx_step d b))" using rx_demux_inv_step assms(1) by (simp add: quiet_def)
  have f: "length (rx_buf ?st) = 7" "rx_pos ?st < 7"
    using assms(1) by (auto simp: quiet_def rx_demux_inv_def rx_fixed_ok_def)
  have q: "\<forall>i < Suc (rx_pos ?st). Suc (rx_pos ?st) \<le> i + Suc n \<longrightarrow> ?buf ! i \<noteq> CTRL_FRAME_START"
    using assms(1,2) f by (auto simp: quiet_def filler_def nth_list_update less_Suc_eq)
  show ?thesis
  proof (cases "rx_pos ?st < 6")
    case True
    with False q inv assms(3) show ?thesis by (auto simp: rx_step_def quiet_def Let_def)
  next
    case six: False
    then have "rx_pos ?st = 6" using f by simp
    with q have "\<forall>i < 7. 7 \<le> i + Suc n \<longrightarrow> ?buf ! i \<noteq> CTRL_FRAME_START" by simp
    from resync_quiet [OF _ this] f have r: "\<forall>i < rx_pos (rx_resync ?buf).
        rx_pos (rx_resync ?buf) \<le> i + Suc n \<longrightarrow> rx_buf (rx_resync ?buf) ! i \<noteq> CTRL_FRAME_START" by simp
    with False six inv assms(3) f show ?thesis by (auto simp: rx_step_def quiet_def Let_def)
  qed
qed

lemma quiet_run:
  assumes "quiet n d" "\<forall>b \<in> set bs. filler b" "bp_pos (dm_bulk d) = 0"
  shows "quiet (n + length bs) (fst (rx_run rx_step d bs)) \<and> bp_pos (dm_bulk (fst (rx_run rx_step d bs))) = 0"
  using assms
proof (induction bs arbitrary: n d)
  case (Cons b bs)
  then have "quiet (Suc n) (fst (rx_step d b))" "bp_pos (dm_bulk (fst (rx_step d b))) = 0"
    using quiet_step [of n d b] by auto
  from Cons.IH [OF this(1) _ this(2)] Cons.prems(2) show ?case by (simp add: split_beta)
qed simp

lemma fixed_heals:
  assumes "rx_demux_inv d" "bp_pos (dm_bulk d) = 0" "\<forall>b \<in> set bs. filler b" "7 \<le> length bs"
  shows "rx_idle (fst (rx_run rx_step d bs))"
proof -
  have "quiet 0 d" using assms(1) by (auto simp: quiet_def)
  from quiet_run [OF this assms(3,2)]
  have q: "quiet (length bs) (fst (rx_run rx_step d bs))" "bp_pos (dm_bulk (fst (rx_run rx_step d bs))) = 0" by auto
  moreover have "rx_pos (dm_fixed (fst (rx_run rx_step d bs))) < 7"
    using q(1) by (auto simp: quiet_def rx_demux_inv_def rx_fixed_ok_def)
  ultimately show ?thesis
    using quiet_small [OF q(1)] assms(4) by (force simp: rx_idle_def quiet_def)
qed

text \<open>Bytes a bulk frame in progress still expects, at most.\<close>

definition bulk_left :: "ctrl_bulk_parser \<Rightarrow> nat" where
  "bulk_left bp = (if bp_pos bp = 0 then 0 else CTRL_BULK_MAX_FRAME - bp_pos bp)"

lemma bulk_left_feed:
  assumes "bulk_parser_inv bp" "b \<noteq> CTRL_BULK_FRAME_START"
  shows "bulk_left (fst (ctrl_bulk_parser_feed bp b)) \<le> bulk_left bp - 1"
proof -
  obtain bp' r where e: "ctrl_bulk_parser_feed bp b = (bp', r)" by (cases "ctrl_bulk_parser_feed bp b")
  from e assms(1) show ?thesis
    by (cases rule: parser_feed_cases) (use e assms(2) in \<open>auto simp: bulk_left_def\<close>)
qed

lemma filler_heals:
  assumes "rx_demux_inv d" "\<forall>b \<in> set bs. filler b" "bulk_left (dm_bulk d) + 7 \<le> length bs"
  shows "rx_idle (fst (rx_run rx_step d bs))"
  using assms
proof (induction bs arbitrary: d)
  case (Cons b bs)
  show ?case
  proof (cases "bp_pos (dm_bulk d) = 0")
    case True
    then show ?thesis using fixed_heals [OF Cons.prems(1) True Cons.prems(2)] Cons.prems(3) by (simp add: bulk_left_def)
  next
    case False
    let ?d = "fst (rx_step d b)"
    have z: "rx_pos (dm_fixed d) = 0" "bulk_parser_inv (dm_bulk d)"
      using Cons.prems(1) False by (auto simp: rx_demux_inv_def)
    have bulk: "dm_bulk ?d = fst (ctrl_bulk_parser_feed (dm_bulk d) b)"
      using z False by (simp add: rx_step_def split_beta)
    have "0 < bulk_left (dm_bulk d)"
      using False bulk_parser_inv_bound [OF z(2)] z(2) by (simp add: bulk_left_def bulk_parser_inv_def)
    with bulk_left_feed [OF z(2), of b] Cons.prems(2,3) bulk
    have "bulk_left (dm_bulk ?d) + 7 \<le> length bs" by (simp add: filler_def)
    with Cons.IH [of ?d] rx_demux_inv_step [OF Cons.prems(1), of b] Cons.prems(2) show ?thesis
      by (simp add: split_beta)
  qed
qed simp

lemma link_run_state: "fst (rx_run link_step d bs) = fst (rx_run rx_step d bs)"
  by (induction bs arbitrary: d) (simp_all add: link_step_def split_beta)

lemma bulk_left_bound: "bulk_parser_inv bp \<Longrightarrow> bulk_left bp \<le> 133"
  by (cases "bp_pos bp") (simp_all add: bulk_left_def)

section \<open>Properties\<close>

text \<open>
  Claim C1.  Exact delivery: from an idle receiver, any sequence of well-formed fixed and bulk frames put on the wire
  back to back is reported frame by frame, in order, with nothing added, and the receiver is idle again.
\<close>

theorem frames_delivered_exactly:
  assumes "rx_idle d" "\<forall>f \<in> set fs. link_frame_ok f"
  shows "\<exists>d'. rx_run link_step d (concat (map link_wire fs)) = (d', map link_report fs) \<and> rx_idle d'"
  using link_stream.stream_exact [OF assms] .

abbreviation (input) sample_frames :: "link_frame list" where
  "sample_frames \<equiv> [Fixed 1 \<lparr>ff_type = 1, ff_id = 2, ff_value = -3\<rparr>,
     Bulk (the (ctrl_bulk_build_profile_simple CTRL_BULK_MAX_FRAME 7 CTRL_BULK_TYPE_PROFILE_END)),
     Fixed 0xA5 \<lparr>ff_type = 0xA5, ff_id = 0xA6, ff_value = 9\<rparr>]"

lemma idle_zero: "rx_idle rx_demux_zero"
  using rx_demux_inv_zero by (simp add: rx_idle_def rx_demux_zero_def ctrl_bulk_parser_zero_def)

lemma sample_ok: "\<forall>f \<in> set sample_frames. link_frame_ok f"
proof -
  have "ctrl_bulk_build_profile_simple CTRL_BULK_MAX_FRAME 7 CTRL_BULK_TYPE_PROFILE_END \<noteq> None" by code_simp
  then have "bulk_frame (the (ctrl_bulk_build_profile_simple CTRL_BULK_MAX_FRAME 7 CTRL_BULK_TYPE_PROFILE_END))"
    using built_frames(4) by (metis option.collapse)
  then show ?thesis by (simp add: link_frame_ok_def)
qed

theorem frames_delivered_exactly_witness:
  "\<exists>d'. rx_run link_step rx_demux_zero (concat (map link_wire sample_frames)) = (d', map link_report sample_frames) \<and> rx_idle d'"
  by (rule frames_delivered_exactly [OF idle_zero sample_ok])

text \<open>
  Claim C22.  The receiver recovers from any garbage: whatever partial or corrupt data it holds, 140 bytes that are no
  start bytes make it idle, and every frame sent after them is delivered exactly.
\<close>

theorem receiver_self_heals:
  assumes "rx_demux_inv d" "\<forall>b \<in> set junk. filler b" "140 \<le> length junk" "\<forall>f \<in> set fs. link_frame_ok f"
  shows "\<exists>d' noise. rx_run link_step d (junk @ concat (map link_wire fs)) = (d', noise @ map link_report fs) \<and> rx_idle d'"
proof -
  have "bulk_left (dm_bulk d) + 7 \<le> length junk"
    using bulk_left_bound [of "dm_bulk d"] assms(1,3) by (simp add: rx_demux_inv_def)
  then have i: "rx_idle (fst (rx_run link_step d junk))"
    using filler_heals [OF assms(1,2)] by (simp add: link_run_state)
  obtain d1 noise where n: "rx_run link_step d junk = (d1, noise)" by fastforce
  obtain d2 where "rx_run link_step d1 (concat (map link_wire fs)) = (d2, map link_report fs)" "rx_idle d2"
    using link_stream.stream_exact [of d1 fs] i n assms(4) by auto
  with n show ?thesis by (auto simp: rx_run_append)
qed

theorem receiver_self_heals_witness:
  "\<exists>d' noise. rx_run link_step (fst (rx_run rx_step rx_demux_zero [0xA5, 1, 2]))
     (replicate 140 0 @ concat (map link_wire sample_frames)) = (d', noise @ map link_report sample_frames) \<and> rx_idle d'"
proof -
  have "rx_demux_inv (fst (rx_run rx_step rx_demux_zero [0xA5, 1, 2]))"
    using rx_demux_inv_zero by (simp add: split_beta rx_demux_inv_step)
  moreover have "\<forall>b \<in> set (replicate 140 0). filler b" by (simp add: filler_def)
  ultimately show ?thesis
    using receiver_self_heals [OF _ _ _ sample_ok, of _ "replicate 140 0"] by simp
qed

text \<open>
  Claim C23.  Memory safety of the receiver: for every byte stream, the write positions of both parsers stay inside
  their buffers (7 and 134 bytes), never both are in the middle of a frame, and a reported bulk frame is well formed.
\<close>

theorem receiver_stays_in_bounds:
  "case rx_run rx_step rx_demux_zero bs of
     (d, rs) \<Rightarrow> length (rx_buf (dm_fixed d)) = 7 \<and> rx_pos (dm_fixed d) < 7 \<and>
       length (bp_buf (dm_bulk d)) = CTRL_BULK_MAX_FRAME \<and> bp_pos (dm_bulk d) < CTRL_BULK_MAX_FRAME \<and>
       (rx_pos (dm_fixed d) = 0 \<or> bp_pos (dm_bulk d) = 0) \<and>
       list_all (\<lambda>r. case r of BulkFrame buf n \<Rightarrow> n \<le> length buf \<and> bulk_frame (take n buf) | _ \<Rightarrow> True) rs"
proof -
  let ?good = "\<lambda>r. case r of BulkFrame buf n \<Rightarrow> n \<le> length buf \<and> bulk_frame (take n buf) | _ \<Rightarrow> True"
  have good: "?good r" if "rx_demux_inv d" "rx_step d b = (d', Some r)" for d d' b r
  proof -
    obtain bp' x where f: "ctrl_bulk_parser_feed (dm_bulk d) b = (bp', x)" by fastforce
    have i: "bulk_parser_inv (dm_bulk d)" using that(1) by (simp add: rx_demux_inv_def)
    show ?thesis
    proof (cases "rx_pos (dm_fixed d) = 0 \<and> (bp_pos (dm_bulk d) > 0 \<or> b = CTRL_BULK_FRAME_START)")
      case True
      then show ?thesis
        using that(2) bulk_parser_sound [OF i f] f by (cases "x > 0") (auto simp: rx_step_def split: if_splits)
    next
      case False
      then show ?thesis using that(2) unfolding rx_step_def Let_def by (auto split: if_splits)
    qed
  qed
  have "rx_demux_inv d \<Longrightarrow> rx_demux_inv (fst (rx_run rx_step d bs)) \<and> list_all ?good (snd (rx_run rx_step d bs))" for d
  proof (induction bs arbitrary: d)
    case (Cons b bs)
    obtain d1 r where s: "rx_step d b = (d1, r)" by fastforce
    have "rx_demux_inv d1" using rx_demux_inv_step [OF Cons.prems, of b] s by simp
    with Cons.IH [of d1] good [OF Cons.prems, of b d1] s show ?case by (auto simp: split_beta split: option.splits)
  qed simp
  note all = this [OF rx_demux_inv_zero]
  obtain d rs where run: "rx_run rx_step rx_demux_zero bs = (d, rs)" by fastforce
  with all have r: "rx_demux_inv d" "list_all ?good rs" by simp_all
  have "bp_pos (dm_bulk d) < CTRL_BULK_MAX_FRAME" "length (bp_buf (dm_bulk d)) = CTRL_BULK_MAX_FRAME"
    using bulk_parser_inv_bound [of "dm_bulk d"] r(1) by (auto simp: rx_demux_inv_def bulk_parser_inv_def)
  moreover have "length (rx_buf (dm_fixed d)) = 7" "rx_pos (dm_fixed d) < 7" "rx_pos (dm_fixed d) = 0 \<or> bp_pos (dm_bulk d) = 0"
    using r(1) by (auto simp: rx_demux_inv_def rx_fixed_ok_def)
  ultimately show ?thesis unfolding run using r(2) by simp
qed

end
