(* ===== verification/Cp_Xfer.thy ===== *)
theory Cp_Xfer
  imports Control_Ids
begin

text \<open>
  The profile transfer receiver (\<open>cp_xfer.c\<close>) and its CRC-32.  The C receiver holds a pointer to a
  caller-owned buffer; here the receiver records whether that pointer is set and the buffer's bytes are
  passed in and returned beside it.  \<open>memcpy\<close> into the buffer is \<open>mem_copy\<close>.
\<close>

section \<open>CRC-32\<close>

definition crc32_shift :: "u32 \<Rightarrow> u32" where
  "crc32_shift crc = drop_bit 1 crc XOR (0xEDB88320 AND - (crc AND 1))"

definition crc32_byte :: "u32 \<Rightarrow> u8 \<Rightarrow> u32" where
  "crc32_byte crc d = (crc32_shift ^^ 8) (crc XOR ucast d)"

definition cp_xfer_crc32 :: "u8 list \<Rightarrow> u32" where
  "cp_xfer_crc32 data = foldl crc32_byte 0xFFFFFFFF data XOR 0xFFFFFFFF"

section \<open>Receiver\<close>

record cp_xfer_rx =
  rx_has_buf :: bool
  rx_cap :: nat
  rx_state :: u8
  rx_vid :: u16
  rx_pid :: u16
  rx_total :: u32
  rx_crc :: u32
  rx_received :: u32

definition cp_xfer_rx_init :: "bool \<Rightarrow> nat \<Rightarrow> cp_xfer_rx" where
  "cp_xfer_rx_init has_buf cap =
     \<lparr>rx_has_buf = has_buf, rx_cap = cap, rx_state = CTRL_PROFILE_STATE_IDLE, rx_vid = 0, rx_pid = 0,
      rx_total = 0, rx_crc = 0, rx_received = 0\<rparr>"

definition cp_xfer_rx_begin :: "cp_xfer_rx \<Rightarrow> u32 \<Rightarrow> u32 \<Rightarrow> u16 \<Rightarrow> u16 \<Rightarrow> cp_xfer_rx \<times> u8" where
  "cp_xfer_rx_begin rx total_size crc vid pid =
     (if total_size = 0 \<or> \<not> rx_has_buf rx \<or> unat total_size > rx_cap rx
      then (rx\<lparr>rx_state := CTRL_PROFILE_STATE_ERROR\<rparr>, CTRL_PROFILE_NACK_SIZE)
      else (rx\<lparr>rx_total := total_size, rx_crc := crc, rx_vid := vid, rx_pid := pid, rx_received := 0,
               rx_state := CTRL_PROFILE_STATE_RECEIVING\<rparr>, CTRL_PROFILE_NACK_NONE))"

definition cp_xfer_rx_chunk :: "cp_xfer_rx \<Rightarrow> u8 list \<Rightarrow> u32 \<Rightarrow> u8 list \<Rightarrow> cp_xfer_rx \<times> u8 list \<times> u8" where
  "cp_xfer_rx_chunk rx mem offset data =
     (if rx_state rx \<noteq> CTRL_PROFILE_STATE_RECEIVING then (rx, mem, CTRL_PROFILE_NACK_STATE)
      else if length data = 0 \<or> offset \<noteq> rx_received rx \<or> offset + of_nat (length data) > rx_total rx
      then (rx\<lparr>rx_state := CTRL_PROFILE_STATE_ERROR\<rparr>, mem, CTRL_PROFILE_NACK_OFFSET)
      else (rx\<lparr>rx_received := rx_received rx + of_nat (length data)\<rparr>,
            mem_copy (unat offset) data mem, CTRL_PROFILE_NACK_NONE))"

definition cp_xfer_rx_end :: "cp_xfer_rx \<Rightarrow> u8 list \<Rightarrow> cp_xfer_rx \<times> u8" where
  "cp_xfer_rx_end rx mem =
     (if rx_state rx \<noteq> CTRL_PROFILE_STATE_RECEIVING then (rx, CTRL_PROFILE_NACK_STATE)
      else if rx_received rx \<noteq> rx_total rx \<or> cp_xfer_crc32 (take (unat (rx_total rx)) mem) \<noteq> rx_crc rx
      then (rx\<lparr>rx_state := CTRL_PROFILE_STATE_ERROR\<rparr>, CTRL_PROFILE_NACK_CRC)
      else (rx\<lparr>rx_state := CTRL_PROFILE_STATE_STORED\<rparr>, CTRL_PROFILE_NACK_NONE))"

section \<open>Error detection of the CRC\<close>

lemma crc32_bits:
  "bit (crc32_shift c) n \<longleftrightarrow> bit c (Suc n) \<noteq> (bit c 0 \<and> bit (0xEDB88320 :: u32) n)"
proof -
  have m: "- (c AND 1) = (if bit c 0 then mask 32 else 0)"
  proof (cases "bit c 0")
    case True
    then have "c AND 1 = 1" by (simp add: bit_0 and_one_eq odd_iff_mod_2_eq_one)
    then show ?thesis using True by (simp add: mask_eq_exp_minus_1)
  next
    case False
    then have "c AND 1 = 0" by (simp add: bit_0 and_one_eq even_iff_mod_2_eq_zero)
    then show ?thesis using False by simp
  qed
  have "bit (0xEDB88320 :: u32) n \<Longrightarrow> n < 32" by (auto dest: bit_imp_le_length)
  then show ?thesis
    unfolding crc32_shift_def m
    by (cases "bit c 0"; simp only: if_True if_False bit_xor_iff bit_drop_bit_eq bit_and_iff bit_mask_iff comp_apply)
       auto
qed

lemma crc32_shift_inj: "crc32_shift a = crc32_shift b \<Longrightarrow> a = b"
proof (rule bit_word_eqI)
  fix n assume e: "crc32_shift a = crc32_shift b" and n: "n < LENGTH(32)"
  have big: "\<not> bit (w :: u32) 32" for w by (auto dest: bit_imp_le_length)
  have "bit (0xEDB88320 :: u32) 31" by simp
  then have low: "bit a 0 = bit b 0"
    using arg_cong [OF e, of "\<lambda>w. bit w 31"] big unfolding crc32_bits by simp
  show "bit a n = bit b n"
  proof (cases n)
    case (Suc m)
    then show ?thesis
      using arg_cong [OF e, of "\<lambda>w. bit w m"] low unfolding crc32_bits by auto
  qed (use low in simp)
qed

lemma crc32_shifts_inj: "(crc32_shift ^^ k) a = (crc32_shift ^^ k) b \<Longrightarrow> a = b"
  by (induction k) (auto dest: crc32_shift_inj)

lemma crc32_byte_inj_crc: "crc32_byte a d = crc32_byte b d \<Longrightarrow> a = b"
  unfolding crc32_byte_def by (drule crc32_shifts_inj) (simp add: word_xor_cancel)

lemma crc32_byte_inj_data: "crc32_byte a d = crc32_byte a d' \<Longrightarrow> d = d'"
proof -
  assume "crc32_byte a d = crc32_byte a d'"
  then have "a XOR ucast d = a XOR ucast d'"
    unfolding crc32_byte_def by (rule crc32_shifts_inj)
  then have e: "(ucast d :: u32) = ucast d'" by (simp only: word_xor_cancel)
  show "d = d'"
  proof (rule bit_word_eqI)
    fix n assume "n < LENGTH(8)"
    then show "bit d n = bit d' n"
      using arg_cong [OF e, of "\<lambda>w. bit w n"] by (simp add: bit_ucast_iff)
  qed
qed

text \<open>Changing one byte of a blob changes its CRC-32.\<close>

lemma crc32_one_byte:
  "cp_xfer_crc32 (xs @ [a] @ ys) = cp_xfer_crc32 (xs @ [b] @ ys) \<longleftrightarrow> a = b"
proof
  assume "cp_xfer_crc32 (xs @ [a] @ ys) = cp_xfer_crc32 (xs @ [b] @ ys)"
  then have "foldl crc32_byte (crc32_byte (foldl crc32_byte 0xFFFFFFFF xs) a) ys =
             foldl crc32_byte (crc32_byte (foldl crc32_byte 0xFFFFFFFF xs) b) ys"
    by (simp add: cp_xfer_crc32_def word_xor_cancel)
  then have "crc32_byte (foldl crc32_byte 0xFFFFFFFF xs) a = crc32_byte (foldl crc32_byte 0xFFFFFFFF xs) b"
    by (rule foldl_inj_start [rotated]) (rule crc32_byte_inj_crc)
  then show "a = b" by (rule crc32_byte_inj_data)
qed simp

section \<open>Receiver invariant\<close>

text \<open>
  While receiving, the announced size fits the buffer and the write position is within it.  \<open>got\<close> is
  the sequence of bytes accepted since the last \<open>BEGIN\<close>.
\<close>

definition rx_inv :: "cp_xfer_rx \<Rightarrow> u8 list \<Rightarrow> u8 list \<Rightarrow> bool" where
  "rx_inv rx mem got \<longleftrightarrow>
     (rx_has_buf rx \<longrightarrow> length mem = rx_cap rx \<and> rx_cap rx < 2 ^ 31) \<and>
     (rx_state rx \<in> {CTRL_PROFILE_STATE_RECEIVING, CTRL_PROFILE_STATE_STORED} \<longrightarrow>
        rx_has_buf rx \<and> 0 < rx_total rx \<and> unat (rx_total rx) \<le> rx_cap rx \<and>
        unat (rx_received rx) = length got \<and> length got \<le> unat (rx_total rx) \<and>
        take (length got) mem = got) \<and>
     (rx_state rx = CTRL_PROFILE_STATE_STORED \<longrightarrow>
        length got = unat (rx_total rx) \<and> cp_xfer_crc32 got = rx_crc rx)"

lemma rx_inv_init: "(has_buf \<longrightarrow> length mem = cap \<and> cap < 2 ^ 31) \<Longrightarrow> rx_inv (cp_xfer_rx_init has_buf cap) mem []"
  by (simp add: rx_inv_def cp_xfer_rx_init_def)

lemma rx_inv_begin:
  assumes "rx_inv rx mem got" "cp_xfer_rx_begin rx tot crc vid pid = (rx', nack)"
  shows "rx_inv rx' mem (if nack = CTRL_PROFILE_NACK_NONE then [] else got)"
proof (cases "tot = 0 \<or> \<not> rx_has_buf rx \<or> unat tot > rx_cap rx")
  case True
  with assms(2) have r: "nack \<noteq> CTRL_PROFILE_NACK_NONE" "rx' = rx\<lparr>rx_state := CTRL_PROFILE_STATE_ERROR\<rparr>"
    by (auto simp: cp_xfer_rx_begin_def)
  with assms(1) show ?thesis by (simp add: rx_inv_def)
next
  case False
  with assms(2) have r: "nack = CTRL_PROFILE_NACK_NONE"
      "rx' = rx\<lparr>rx_total := tot, rx_crc := crc, rx_vid := vid, rx_pid := pid, rx_received := 0,
                rx_state := CTRL_PROFILE_STATE_RECEIVING\<rparr>"
    by (auto simp: cp_xfer_rx_begin_def)
  with False assms(1) show ?thesis by (simp add: rx_inv_def word_gt_0)
qed

text \<open>An accepted chunk lies inside the buffer; a refused one leaves the buffer alone.\<close>

lemma rx_inv_chunk:
  assumes inv: "rx_inv rx mem got" and step: "cp_xfer_rx_chunk rx mem offset data = (rx', mem', nack)"
    and len: "length data < 2 ^ 31"
  shows "rx_inv rx' mem' (if nack = CTRL_PROFILE_NACK_NONE then got @ data else got) \<and>
         (if nack = CTRL_PROFILE_NACK_NONE
          then unat offset = length got \<and> length got + length data \<le> unat (rx_total rx) \<and>
               unat offset + length data \<le> length mem
          else mem' = mem)"
proof (cases "nack = CTRL_PROFILE_NACK_NONE")
  case False
  with inv step show ?thesis by (auto simp: rx_inv_def cp_xfer_rx_chunk_def split: if_splits)
next
  case True
  with step have c: "rx_state rx = CTRL_PROFILE_STATE_RECEIVING" "offset = rx_received rx"
      "offset + of_nat (length data) \<le> rx_total rx"
      "rx' = rx\<lparr>rx_received := rx_received rx + of_nat (length data)\<rparr>"
      "mem' = mem_copy (unat offset) data mem"
    by (auto simp: cp_xfer_rx_chunk_def split: if_splits)
  have i: "rx_has_buf rx" "unat (rx_total rx) \<le> rx_cap rx" "unat (rx_received rx) = length got"
      "length got \<le> unat (rx_total rx)" "take (length got) mem = got" "length mem = rx_cap rx"
      "rx_cap rx < 2 ^ 31" "0 < rx_total rx"
    using inv c(1) by (auto simp: rx_inv_def)
  have "unat (offset + of_nat (length data)) = length got + length data"
    using c(2) i len by (simp add: unat_word_ariths unat_of_nat take_bit_nat_eq_self)
  then have fit: "length got + length data \<le> unat (rx_total rx)"
      "unat (rx_received rx + of_nat (length data)) = length got + length data"
    using c(2,3) by (simp_all add: word_le_nat_alt)
  have t: "take (length got + length data) mem' = got @ data"
    using take_mem_copy [of "unat offset" data mem] c(2,5) i fit by simp
  have "length mem' = length mem" using c(2,5) i fit by simp
  with True c i fit t show ?thesis by (simp add: rx_inv_def)
qed

lemma rx_inv_end:
  assumes "rx_inv rx mem got" "cp_xfer_rx_end rx mem = (rx', nack)"
  shows "rx_inv rx' mem got \<and> (nack = CTRL_PROFILE_NACK_NONE \<longleftrightarrow>
           rx_state rx = CTRL_PROFILE_STATE_RECEIVING \<and> rx_received rx = rx_total rx \<and>
           cp_xfer_crc32 got = rx_crc rx) \<and>
         (nack = CTRL_PROFILE_NACK_NONE \<longrightarrow> rx_state rx' = CTRL_PROFILE_STATE_STORED)"
proof (cases "rx_state rx = CTRL_PROFILE_STATE_RECEIVING \<and> rx_received rx = rx_total rx")
  case True
  with assms(1) have "take (unat (rx_total rx)) mem = got" "length got = unat (rx_total rx)"
    by (auto simp: rx_inv_def)
  with True assms show ?thesis by (auto simp: rx_inv_def cp_xfer_rx_end_def split: if_splits)
next
  case False
  with assms show ?thesis by (auto simp: rx_inv_def cp_xfer_rx_end_def split: if_splits)
qed

end
