(* ===== verification/Controller_Profile.thy ===== *)
theory Controller_Profile
  imports Cp_Xfer
begin

text \<open>
  S3CP controller profiles (\<open>controller_profile.c\<close>): the validating parser of the binary
  profile, the table-driven MIDI mapper with its runtime state, input snapshots and LED lookup; and the
  single active profile with the connection it is bound to (\<open>controller_profile_runtime.c\<close>).

  The C function \<open>cp_crc32\<close> has the same body as \<open>cp_xfer_crc32\<close>.  The arrays of \<open>cp_profile_t\<close> have room for
  320 and 160 entries; the model's lists hold the entries that were parsed.  The critical sections of
  the runtime are single steps.
\<close>

section \<open>Format\<close>

abbreviation (input) CP_VERSION :: u16 where "CP_VERSION \<equiv> 2"
abbreviation (input) CP_HEADER_SIZE :: nat where "CP_HEADER_SIZE \<equiv> 32"
abbreviation (input) CP_INPUT_ENTRY_SIZE :: nat where "CP_INPUT_ENTRY_SIZE \<equiv> 16"
abbreviation (input) CP_OUTPUT_ENTRY_SIZE :: nat where "CP_OUTPUT_ENTRY_SIZE \<equiv> 12"
abbreviation (input) CP_MAX_INPUTS :: nat where "CP_MAX_INPUTS \<equiv> 320"
abbreviation (input) CP_MAX_OUTPUTS :: nat where "CP_MAX_OUTPUTS \<equiv> 160"
abbreviation (input) CP_MAX_PAIR_SLOTS :: nat where "CP_MAX_PAIR_SLOTS \<equiv> 40"
abbreviation (input) CP_IN_NOTE_BUTTON :: u8 where "CP_IN_NOTE_BUTTON \<equiv> 0"
abbreviation (input) CP_IN_NOTE_VALUE :: u8 where "CP_IN_NOTE_VALUE \<equiv> 1"
abbreviation (input) CP_IN_CC_REL64 :: u8 where "CP_IN_CC_REL64 \<equiv> 2"
abbreviation (input) CP_IN_CC_REL_2C :: u8 where "CP_IN_CC_REL_2C \<equiv> 3"
abbreviation (input) CP_IN_CC14_MSB :: u8 where "CP_IN_CC14_MSB \<equiv> 4"
abbreviation (input) CP_IN_CC14_LSB :: u8 where "CP_IN_CC14_LSB \<equiv> 5"
abbreviation (input) CP_IN_CC7_ABS :: u8 where "CP_IN_CC7_ABS \<equiv> 6"
abbreviation (input) CP_IN_NOTE_STATE_PAIR :: u8 where "CP_IN_NOTE_STATE_PAIR \<equiv> 7"
abbreviation (input) CP_OUT_CC_VALUE :: u8 where "CP_OUT_CC_VALUE \<equiv> 1"
abbreviation (input) CP_DECK_ANY :: u8 where "CP_DECK_ANY \<equiv> 0xFF"
abbreviation (input) CP_PAIR_SLOT_NONE :: u8 where "CP_PAIR_SLOT_NONE \<equiv> 0xFF"

definition CP_MAGIC :: "u8 list" where "CP_MAGIC = [0x53, 0x33, 0x43, 0x50]"

datatype cp_error = CP_ERR_ARG | CP_ERR_MAGIC | CP_ERR_VERSION | CP_ERR_SIZE | CP_ERR_CRC | CP_ERR_BOUNDS

record cp_input_entry =
  match_status :: u8
  match_data1 :: u8
  raw_type :: u8
  pair_slot :: u8
  semantic_type :: u8
  semantic_id :: u8
  in_flags :: u16
  base_value :: i16
  press_mask :: u16
  in_lut :: "8 word list"

record cp_output_entry =
  out_led_id :: u8
  out_deck :: u8
  out_kind :: u8
  out_status :: u8
  out_data1 :: u8
  off_value :: u8
  on_value :: u8
  blink_value :: u8

record cp_profile =
  cp_vid :: u16
  cp_pid :: u16
  cp_flags :: u32
  input_count :: u16
  output_count :: u16
  pair_slot_count :: u8
  cp_decks :: u8
  cp_inputs :: "cp_input_entry list"
  cp_outputs :: "cp_output_entry list"

record cp_event =
  ev_type :: u8
  ev_id :: u8
  ev_value :: i16

record cp_pair_slot =
  ps_msb :: u8
  ps_lsb :: u8
  msb_valid :: bool
  lsb_valid :: bool
  pair_bits :: u8

record cp_runtime =
  rt_slots :: "cp_pair_slot list"
  cc7_value :: "i16 list"
  cc7_valid :: "bool list"

section \<open>Parser\<close>

definition parse_input :: "u8 list \<Rightarrow> nat \<Rightarrow> cp_input_entry" where
  "parse_input data p =
     \<lparr>match_status = data ! p, match_data1 = data ! (p + 1), raw_type = data ! (p + 2), pair_slot = data ! (p + 3),
      semantic_type = data ! (p + 4), semantic_id = data ! (p + 5), in_flags = rd_u16 data (p + 6),
      base_value = rd_u16 data (p + 8), press_mask = rd_u16 data (p + 10),
      in_lut = [data ! (p + 12), data ! (p + 13), data ! (p + 14), data ! (p + 15)]\<rparr>"

definition input_bad :: "u8 \<Rightarrow> cp_input_entry \<Rightarrow> bool" where
  "input_bad slot_count e \<longleftrightarrow>
     raw_type e > CP_IN_NOTE_STATE_PAIR \<or>
     (raw_type e = CP_IN_CC14_MSB \<or> raw_type e = CP_IN_CC14_LSB \<or> raw_type e = CP_IN_NOTE_STATE_PAIR) \<and>
     (pair_slot e = CP_PAIR_SLOT_NONE \<or> pair_slot e \<ge> slot_count)"

fun parse_inputs :: "u8 list \<Rightarrow> u8 \<Rightarrow> nat \<Rightarrow> nat \<Rightarrow> cp_error + cp_input_entry list" where
  "parse_inputs data slot_count p 0 = Inr []"
| "parse_inputs data slot_count p (Suc n) =
     (let e = parse_input data p in
      if input_bad slot_count e then Inl CP_ERR_BOUNDS
      else case parse_inputs data slot_count (p + CP_INPUT_ENTRY_SIZE) n of
             Inl err \<Rightarrow> Inl err | Inr es \<Rightarrow> Inr (e # es))"

definition parse_output :: "u8 list \<Rightarrow> nat \<Rightarrow> cp_output_entry" where
  "parse_output data p =
     \<lparr>out_led_id = data ! p, out_deck = data ! (p + 1), out_kind = data ! (p + 2), out_status = data ! (p + 3),
      out_data1 = data ! (p + 4), off_value = data ! (p + 5), on_value = data ! (p + 6), blink_value = data ! (p + 7)\<rparr>"

fun parse_outputs :: "u8 list \<Rightarrow> nat \<Rightarrow> nat \<Rightarrow> cp_error + cp_output_entry list" where
  "parse_outputs data p 0 = Inr []"
| "parse_outputs data p (Suc n) =
     (let e = parse_output data p in
      if out_kind e > CP_OUT_CC_VALUE then Inl CP_ERR_BOUNDS
      else case parse_outputs data (p + CP_OUTPUT_ENTRY_SIZE) n of
             Inl err \<Rightarrow> Inl err | Inr es \<Rightarrow> Inr (e # es))"

definition cp_profile_parse :: "u8 list \<Rightarrow> cp_error + cp_profile" where
  "cp_profile_parse data =
     (let len = length data in
      if len < CP_HEADER_SIZE then Inl CP_ERR_SIZE
      else if take 4 data \<noteq> CP_MAGIC then Inl CP_ERR_MAGIC
      else
        let version = rd_u16 data 4; header_size = rd_u16 data 6;
            profile_size = rd_u32 data 8; crc = rd_u32 data 12 in
        if version \<noteq> CP_VERSION \<or> unat header_size \<noteq> CP_HEADER_SIZE then Inl CP_ERR_VERSION
        else if unat profile_size \<noteq> len \<or> unat profile_size < CP_HEADER_SIZE then Inl CP_ERR_SIZE
        else if cp_xfer_crc32 (take (unat profile_size - 16) (drop 16 data)) \<noteq> crc then Inl CP_ERR_CRC
        else
          let ic = rd_u16 data 24; oc = rd_u16 data 26; sc = data ! 28 in
          if unat ic > CP_MAX_INPUTS \<or> unat oc > CP_MAX_OUTPUTS \<or> unat sc > CP_MAX_PAIR_SLOTS then Inl CP_ERR_BOUNDS
          else if CP_HEADER_SIZE + unat ic * CP_INPUT_ENTRY_SIZE + unat oc * CP_OUTPUT_ENTRY_SIZE \<noteq> len
          then Inl CP_ERR_SIZE
          else case parse_inputs data sc CP_HEADER_SIZE (unat ic) of
              Inl err \<Rightarrow> Inl err
            | Inr ins \<Rightarrow>
                (case parse_outputs data (CP_HEADER_SIZE + unat ic * CP_INPUT_ENTRY_SIZE) (unat oc) of
                   Inl err \<Rightarrow> Inl err
                 | Inr outs \<Rightarrow>
                     Inr \<lparr>cp_vid = rd_u16 data 16, cp_pid = rd_u16 data 18, cp_flags = rd_u32 data 20,
                          input_count = ic, output_count = oc, pair_slot_count = sc, cp_decks = data ! 29,
                          cp_inputs = ins, cp_outputs = outs\<rparr>))"

section \<open>Runtime\<close>

definition zero_pair_slot :: cp_pair_slot where
  "zero_pair_slot = \<lparr>ps_msb = 0, ps_lsb = 0, msb_valid = False, lsb_valid = False, pair_bits = 0\<rparr>"

definition cp_runtime_init :: cp_runtime where
  "cp_runtime_init = \<lparr>rt_slots = replicate CP_MAX_PAIR_SLOTS zero_pair_slot,
     cc7_value = replicate CP_MAX_INPUTS 0, cc7_valid = replicate CP_MAX_INPUTS False\<rparr>"

definition rel64_delta :: "u8 \<Rightarrow> i16" where
  "rel64_delta data2 = ucast data2 - 64"

definition rel_2c_delta :: "u8 \<Rightarrow> i16" where
  "rel_2c_delta data2 = (let d = data2 AND 0x7F in
     if d = 0x00 \<or> d = 0x40 then 0 else if d < 0x40 then ucast d else ucast d - 0x80)"

definition pair_value :: "cp_pair_slot \<Rightarrow> i16 option" where
  "pair_value slot =
     (if \<not> msb_valid slot \<or> \<not> lsb_valid slot then None
      else Some (push_bit 7 (ucast (ps_msb slot AND 0x7F)) OR ucast (ps_lsb slot AND 0x7F)))"

text \<open>What the mapper does once entry \<open>i\<close> has matched the message.\<close>

definition process_entry :: "cp_runtime \<Rightarrow> nat \<Rightarrow> cp_input_entry \<Rightarrow> u8 \<Rightarrow> cp_runtime \<times> i16 option" where
  "process_entry rt i e data2 =
     (let pressed = data2 > 0; slot = rt_slots rt ! unat (pair_slot e) in
      if raw_type e = CP_IN_NOTE_BUTTON then (rt, Some (if pressed then 1 else 0))
      else if raw_type e = CP_IN_NOTE_VALUE then
        (rt, Some (base_value e OR (if pressed then press_mask e else 0)))
      else if raw_type e = CP_IN_CC_REL64 then
        (let delta = rel64_delta data2 in (rt, if delta = 0 then None else Some delta))
      else if raw_type e = CP_IN_CC_REL_2C then
        (let delta = rel_2c_delta data2 in (rt, if delta = 0 then None else Some delta))
      else if raw_type e = CP_IN_CC14_MSB \<or> raw_type e = CP_IN_CC14_LSB then
        (let slot' = (if raw_type e = CP_IN_CC14_MSB
                      then slot\<lparr>ps_msb := data2 AND 0x7F, msb_valid := True\<rparr>
                      else slot\<lparr>ps_lsb := data2 AND 0x7F, lsb_valid := True\<rparr>)
         in (rt\<lparr>rt_slots := (rt_slots rt)[unat (pair_slot e) := slot']\<rparr>, pair_value slot'))
      else if raw_type e = CP_IN_CC7_ABS then
        (let v = ucast (data2 AND 0x7F) in
         (rt\<lparr>cc7_value := (cc7_value rt)[i := v], cc7_valid := (cc7_valid rt)[i := True]\<rparr>, Some v))
      else if raw_type e = CP_IN_NOTE_STATE_PAIR then
        (let b = (if in_flags e AND 0x0002 \<noteq> 0 then 0x02 else 0x01);
             slot' = slot\<lparr>pair_bits := (if pressed then pair_bits slot OR b else pair_bits slot AND NOT b)\<rparr>;
             v = in_lut e ! unat (pair_bits slot' AND 0x03)
         in (rt\<lparr>rt_slots := (rt_slots rt)[unat (pair_slot e) := slot']\<rparr>,
             if sint v < 0 then None else Some (scast v)))
      else (rt, None))"

text \<open>Note-off messages become note-on with velocity zero.\<close>

definition normalize_note_off :: "u8 \<Rightarrow> u8 \<Rightarrow> u8 \<times> u8" where
  "normalize_note_off status data2 =
     (if status AND 0xF0 = 0x80 then (0x90 OR (status AND 0x0F), 0) else (status, data2))"

definition cp_runtime_process :: "cp_profile \<Rightarrow> cp_runtime \<Rightarrow> u8 \<Rightarrow> u8 \<Rightarrow> u8 \<Rightarrow> cp_runtime \<times> cp_event option" where
  "cp_runtime_process profile rt status0 data1 data20 =
     (let (status, data2) = normalize_note_off status0 data20 in
      case find (\<lambda>i. match_status (cp_inputs profile ! i) = status \<and> match_data1 (cp_inputs profile ! i) = data1)
             [0..<unat (input_count profile)] of
        None \<Rightarrow> (rt, None)
      | Some i \<Rightarrow>
          let e = cp_inputs profile ! i; (rt', v) = process_entry rt i e data2
          in (rt', map_option (\<lambda>v. \<lparr>ev_type = semantic_type e, ev_id = semantic_id e, ev_value = v\<rparr>) v))"

text \<open>The value a replay-flagged absolute control reports, if it has been seen.\<close>

definition snapshot_entry :: "cp_profile \<Rightarrow> cp_runtime \<Rightarrow> nat \<Rightarrow> cp_event option" where
  "snapshot_entry profile rt i =
     (let e = cp_inputs profile ! i in
      if in_flags e AND 0x0001 = 0 then None
      else map_option (\<lambda>v. \<lparr>ev_type = semantic_type e, ev_id = semantic_id e, ev_value = v\<rparr>)
        (if raw_type e = CP_IN_CC14_MSB then pair_value (rt_slots rt ! unat (pair_slot e))
         else if raw_type e = CP_IN_CC7_ABS \<and> cc7_valid rt ! i then Some (cc7_value rt ! i)
         else None))"

text \<open>
  Emission calls back for each event in order and stops when the callback refuses one.  The callback's
  answer may depend on the events it has already seen; the result lists the accepted events.
\<close>

fun emit_events :: "('ev list \<Rightarrow> 'ev \<Rightarrow> bool) \<Rightarrow> 'ev list \<Rightarrow> 'ev list \<Rightarrow> 'ev list" where
  "emit_events cb sent [] = sent"
| "emit_events cb sent (e # es) = (if cb sent e then emit_events cb (sent @ [e]) es else sent)"

definition cp_runtime_emit_snapshot ::
    "cp_profile \<Rightarrow> cp_runtime \<Rightarrow> (cp_event list \<Rightarrow> cp_event \<Rightarrow> bool) \<Rightarrow> cp_event list" where
  "cp_runtime_emit_snapshot profile rt cb =
     emit_events cb [] (List.map_filter (snapshot_entry profile rt) [0..<unat (input_count profile)])"

fun collect_loop :: "cp_profile \<Rightarrow> cp_runtime \<Rightarrow> nat \<Rightarrow> nat list \<Rightarrow> cp_event list \<Rightarrow> cp_event list" where
  "collect_loop profile rt capacity [] events = events"
| "collect_loop profile rt capacity (i # is) events =
     (if length events < capacity
      then collect_loop profile rt capacity is
             (case snapshot_entry profile rt i of None \<Rightarrow> events | Some ev \<Rightarrow> events @ [ev])
      else events)"

definition cp_runtime_collect_snapshot :: "cp_profile \<Rightarrow> cp_runtime \<Rightarrow> nat \<Rightarrow> cp_event list" where
  "cp_runtime_collect_snapshot profile rt capacity =
     collect_loop profile rt capacity [0..<unat (input_count profile)] []"

definition cp_profile_map_led :: "cp_profile \<Rightarrow> u8 \<Rightarrow> u8 \<Rightarrow> u8 \<Rightarrow> u8 list option" where
  "cp_profile_map_led profile led deck st =
     (case find (\<lambda>i. out_led_id (cp_outputs profile ! i) = led \<and>
                    \<not> (out_deck (cp_outputs profile ! i) \<noteq> CP_DECK_ANY \<and> out_deck (cp_outputs profile ! i) \<noteq> deck))
            [0..<unat (output_count profile)] of
        None \<Rightarrow> None
      | Some i \<Rightarrow>
          let o' = cp_outputs profile ! i in
          Some [out_status o', out_data1 o',
                if out_kind o' = CP_OUT_CC_VALUE then st AND 0x7F
                else if st = 0 then off_value o' else if st = 2 then blink_value o' else on_value o'])"

section \<open>The active profile\<close>

record profile_runtime =
  s_profile :: cp_profile
  s_runtime :: cp_runtime
  s_active :: bool
  s_bound_vid :: u16
  s_bound_pid :: u16
  s_bound_epoch :: u32

definition controller_profile_runtime_init :: "profile_runtime \<Rightarrow> profile_runtime" where
  "controller_profile_runtime_init s = s\<lparr>s_active := False, s_bound_vid := 0, s_bound_pid := 0, s_bound_epoch := 0\<rparr>"

definition controller_profile_runtime_clear :: "profile_runtime \<Rightarrow> profile_runtime" where
  "controller_profile_runtime_clear s =
     s\<lparr>s_active := False, s_runtime := cp_runtime_init, s_bound_vid := 0, s_bound_pid := 0, s_bound_epoch := 0\<rparr>"

text \<open>A \<open>NULL\<close> blob is \<open>None\<close>.\<close>

definition controller_profile_runtime_activate ::
    "profile_runtime \<Rightarrow> u8 list option \<Rightarrow> u16 \<Rightarrow> u16 \<Rightarrow> u32 \<Rightarrow> profile_runtime \<times> bool" where
  "controller_profile_runtime_activate s blob vid pid connection_epoch =
     (case blob of
        None \<Rightarrow> (controller_profile_runtime_clear s, True)
      | Some data \<Rightarrow>
          if length data = 0 then (controller_profile_runtime_clear s, True)
          else case cp_profile_parse data of
              Inl err \<Rightarrow> (s, False)
            | Inr parsed \<Rightarrow>
                if connection_epoch = 0 \<or> cp_vid parsed \<noteq> vid \<or> cp_pid parsed \<noteq> pid then (s, False)
                else (s\<lparr>s_profile := parsed, s_runtime := cp_runtime_init, s_bound_vid := vid,
                        s_bound_pid := pid, s_bound_epoch := connection_epoch, s_active := True\<rparr>, True))"

definition controller_profile_runtime_bound_to :: "profile_runtime \<Rightarrow> u16 \<Rightarrow> u16 \<Rightarrow> u32 \<Rightarrow> bool" where
  "controller_profile_runtime_bound_to s vid pid connection_epoch \<longleftrightarrow>
     s_active s \<and> connection_epoch \<noteq> 0 \<and> s_bound_vid s = vid \<and> s_bound_pid s = pid \<and>
     s_bound_epoch s = connection_epoch"

definition controller_profile_runtime_active :: "profile_runtime \<Rightarrow> bool" where
  "controller_profile_runtime_active s = s_active s"

definition controller_profile_runtime_map :: "profile_runtime \<Rightarrow> u8 \<Rightarrow> u8 \<Rightarrow> u8 \<Rightarrow> profile_runtime \<times> cp_event option" where
  "controller_profile_runtime_map s status data1 data2 =
     (if s_active s then
        let (rt', ev) = cp_runtime_process (s_profile s) (s_runtime s) status data1 data2
        in (s\<lparr>s_runtime := rt'\<rparr>, ev)
      else (s, None))"

definition controller_profile_runtime_map_led :: "profile_runtime \<Rightarrow> u8 \<Rightarrow> u8 \<Rightarrow> u8 \<Rightarrow> u8 list option" where
  "controller_profile_runtime_map_led s led deck st =
     (if s_active s then
        map_option (\<lambda>midi. [drop_bit 4 (midi ! 0), midi ! 0, midi ! 1, midi ! 2])
          (cp_profile_map_led (s_profile s) led deck st)
      else None)"

definition controller_profile_runtime_emit_snapshot ::
    "profile_runtime \<Rightarrow> (cp_event list \<Rightarrow> cp_event \<Rightarrow> bool) \<Rightarrow> cp_event list" where
  "controller_profile_runtime_emit_snapshot s cb =
     emit_events cb [] (if s_active s then cp_runtime_collect_snapshot (s_profile s) (s_runtime s) CP_MAX_INPUTS else [])"

section \<open>What the parser guarantees\<close>

definition profile_ok :: "cp_profile \<Rightarrow> bool" where
  "profile_ok p \<longleftrightarrow> length (cp_inputs p) = unat (input_count p) \<and> length (cp_outputs p) = unat (output_count p) \<and>
     unat (input_count p) \<le> CP_MAX_INPUTS \<and> unat (output_count p) \<le> CP_MAX_OUTPUTS \<and>
     unat (pair_slot_count p) \<le> CP_MAX_PAIR_SLOTS \<and>
     (\<forall>e \<in> set (cp_inputs p). \<not> input_bad (pair_slot_count p) e \<and> length (in_lut e) = 4) \<and>
     (\<forall>o' \<in> set (cp_outputs p). out_kind o' \<le> CP_OUT_CC_VALUE)"

lemma parse_inputs_iff:
  "parse_inputs data sc p n = Inr es \<longleftrightarrow>
     es = map (\<lambda>k. parse_input data (p + 16 * k)) [0..<n] \<and> (\<forall>e \<in> set es. \<not> input_bad sc e)"
proof (induction n arbitrary: p es)
  case (Suc n)
  have m: "map (\<lambda>k. parse_input data (p + 16 * k)) [0..<Suc n] =
      parse_input data p # map (\<lambda>k. parse_input data (p + 16 + 16 * k)) [0..<n]"
    by (subst upt_conv_Cons) (simp_all add: map_Suc_upt [symmetric] add.assoc del: upt_Suc)
  show ?case
    unfolding parse_inputs.simps Let_def m
    using Suc.IH [of "p + 16"] by (auto split: sum.splits)
qed auto

lemma parse_outputs_iff:
  "parse_outputs data p n = Inr es \<longleftrightarrow>
     es = map (\<lambda>k. parse_output data (p + 12 * k)) [0..<n] \<and> (\<forall>e \<in> set es. out_kind e \<le> CP_OUT_CC_VALUE)"
proof (induction n arbitrary: p es)
  case (Suc n)
  have m: "map (\<lambda>k. parse_output data (p + 12 * k)) [0..<Suc n] =
      parse_output data p # map (\<lambda>k. parse_output data (p + 12 + 12 * k)) [0..<n]"
    by (subst upt_conv_Cons) (simp_all add: map_Suc_upt [symmetric] add.assoc del: upt_Suc)
  show ?case
    unfolding parse_outputs.simps Let_def m
    using Suc.IH [of "p + 12"] by (auto split: sum.splits simp: not_less)
qed auto

text \<open>The header checks of the parser, in one predicate.\<close>

definition header_ok :: "u8 list \<Rightarrow> bool" where
  "header_ok data \<longleftrightarrow> CP_HEADER_SIZE \<le> length data \<and> take 4 data = CP_MAGIC \<and>
     rd_u16 data 4 = CP_VERSION \<and> unat (rd_u16 data 6) = CP_HEADER_SIZE \<and> unat (rd_u32 data 8) = length data \<and>
     cp_xfer_crc32 (drop 16 data) = rd_u32 data 12 \<and>
     unat (rd_u16 data 24) \<le> CP_MAX_INPUTS \<and> unat (rd_u16 data 26) \<le> CP_MAX_OUTPUTS \<and>
     unat (data ! 28) \<le> CP_MAX_PAIR_SLOTS \<and>
     CP_HEADER_SIZE + unat (rd_u16 data 24) * CP_INPUT_ENTRY_SIZE +
       unat (rd_u16 data 26) * CP_OUTPUT_ENTRY_SIZE = length data"

lemma cp_profile_parse_iff:
  "cp_profile_parse data = Inr prof \<longleftrightarrow> header_ok data \<and>
     (\<exists>ins outs. parse_inputs data (data ! 28) CP_HEADER_SIZE (unat (rd_u16 data 24)) = Inr ins \<and>
        parse_outputs data (CP_HEADER_SIZE + unat (rd_u16 data 24) * CP_INPUT_ENTRY_SIZE) (unat (rd_u16 data 26)) = Inr outs \<and>
        prof = \<lparr>cp_vid = rd_u16 data 16, cp_pid = rd_u16 data 18, cp_flags = rd_u32 data 20,
                input_count = rd_u16 data 24, output_count = rd_u16 data 26, pair_slot_count = data ! 28,
                cp_decks = data ! 29, cp_inputs = ins, cp_outputs = outs\<rparr>)"
  unfolding cp_profile_parse_def header_ok_def Let_def
  by (auto simp: not_less not_le split: sum.splits if_splits)

lemma parse_profile_ok:
  assumes "cp_profile_parse data = Inr p"
  shows "profile_ok p"
proof -
  from assms obtain ins outs where h: "header_ok data"
    and i: "parse_inputs data (data ! 28) CP_HEADER_SIZE (unat (rd_u16 data 24)) = Inr ins"
    and o: "parse_outputs data (CP_HEADER_SIZE + unat (rd_u16 data 24) * CP_INPUT_ENTRY_SIZE) (unat (rd_u16 data 26)) = Inr outs"
    and p: "p = \<lparr>cp_vid = rd_u16 data 16, cp_pid = rd_u16 data 18, cp_flags = rd_u32 data 20,
                input_count = rd_u16 data 24, output_count = rd_u16 data 26, pair_slot_count = data ! 28,
                cp_decks = data ! 29, cp_inputs = ins, cp_outputs = outs\<rparr>"
    unfolding cp_profile_parse_iff by blast
  have "length ins = unat (rd_u16 data 24)" "\<forall>e \<in> set ins. \<not> input_bad (data ! 28) e \<and> length (in_lut e) = 4"
    using i unfolding parse_inputs_iff by (auto simp: parse_input_def)
  moreover have "length outs = unat (rd_u16 data 26)" "\<forall>e \<in> set outs. out_kind e \<le> CP_OUT_CC_VALUE"
    using o unfolding parse_outputs_iff by auto
  ultimately show ?thesis using h p by (simp add: profile_ok_def header_ok_def)
qed

section \<open>Runtime invariant and event values\<close>

definition runtime_ok :: "cp_runtime \<Rightarrow> bool" where
  "runtime_ok rt \<longleftrightarrow> length (rt_slots rt) = CP_MAX_PAIR_SLOTS \<and> length (cc7_value rt) = CP_MAX_INPUTS \<and>
     length (cc7_valid rt) = CP_MAX_INPUTS"

lemma runtime_ok_init: "runtime_ok cp_runtime_init"
  by (simp add: runtime_ok_def cp_runtime_init_def)

lemma runtime_ok_entry: "runtime_ok rt \<Longrightarrow> runtime_ok (fst (process_entry rt i e d))"
  by (simp add: runtime_ok_def process_entry_def Let_def)

lemma runtime_ok_process: "runtime_ok rt \<Longrightarrow> runtime_ok (fst (cp_runtime_process p rt st d1 d2))"
  using runtime_ok_entry
  by (auto simp: cp_runtime_process_def Let_def split: option.splits prod.splits) (metis fst_conv)

text \<open>The entry the mapper selects is the first one with the message's address.\<close>

lemma process_match:
  assumes "cp_runtime_process p rt st0 d1 d20 = (rt', Some ev)"
  obtains i st d v where "normalize_note_off st0 d20 = (st, d)" "i < unat (input_count p)"
    "match_status (cp_inputs p ! i) = st" "match_data1 (cp_inputs p ! i) = d1"
    "\<And>j. j < i \<Longrightarrow> \<not> (match_status (cp_inputs p ! j) = st \<and> match_data1 (cp_inputs p ! j) = d1)"
    "process_entry rt i (cp_inputs p ! i) d = (rt', Some v)"
    "ev = \<lparr>ev_type = semantic_type (cp_inputs p ! i), ev_id = semantic_id (cp_inputs p ! i), ev_value = v\<rparr>"
proof -
  obtain st d where n: "normalize_note_off st0 d20 = (st, d)" by (cases "normalize_note_off st0 d20")
  let ?P = "\<lambda>i. match_status (cp_inputs p ! i) = st \<and> match_data1 (cp_inputs p ! i) = d1"
  from assms n obtain i where f: "find ?P [0..<unat (input_count p)] = Some i"
    by (auto simp: cp_runtime_process_def split: option.splits)
  have i: "i < unat (input_count p)" "?P i" "\<And>j. j < i \<Longrightarrow> \<not> ?P j"
    using f by (auto simp: find_Some_iff)
  obtain rt1 v where e: "process_entry rt i (cp_inputs p ! i) d = (rt1, v)"
    by (cases "process_entry rt i (cp_inputs p ! i) d")
  from assms n f e obtain w where "rt1 = rt'" "v = Some w"
      "ev = \<lparr>ev_type = semantic_type (cp_inputs p ! i), ev_id = semantic_id (cp_inputs p ! i), ev_value = w\<rparr>"
    by (auto simp: cp_runtime_process_def Let_def)
  with n i e that show thesis by blast
qed

lemma and7f_less: "unat (ucast ((d :: u8) AND 0x7F) :: i16) < 128"
proof -
  have "unat (d AND 0x7F) \<le> 127"
    using word_and_le1 [of d "0x7F"] by (simp add: word_le_nat_alt and.commute)
  then show ?thesis by (simp add: unsigned_ucast_eq take_bit_nat_eq_self)
qed

lemma pair_value_bound: "pair_value slot = Some v \<Longrightarrow> unat v < 16384"
proof -
  assume "pair_value slot = Some v"
  then have v: "v = push_bit 7 (ucast (ps_msb slot AND 0x7F)) OR ucast (ps_lsb slot AND 0x7F)"
    by (auto simp: pair_value_def split: if_splits)
  have "v = take_bit 14 v"
    unfolding v mask7f by (rule bit_word_eqI) (auto simp: bit_simps)
  then have "unat v = take_bit 14 (unat v)" by (metis unsigned_take_bit_eq)
  then show ?thesis using take_bit_nat_less_exp [of 14 "unat v"] by simp
qed

text \<open>
  The range of an emitted value by kind of control: a button is 0 or 1, an absolute 7-bit control is
  below 128, a 14-bit pair is below 16384, a relative control never reports a zero movement, and a state
  pair never reports a negative value.
\<close>

definition value_ok :: "u8 \<Rightarrow> i16 \<Rightarrow> bool" where
  "value_ok raw v \<longleftrightarrow>
     (raw = CP_IN_NOTE_BUTTON \<longrightarrow> v = 0 \<or> v = 1) \<and>
     (raw = CP_IN_CC_REL64 \<or> raw = CP_IN_CC_REL_2C \<longrightarrow> v \<noteq> 0) \<and>
     (raw = CP_IN_CC7_ABS \<longrightarrow> unat v < 128) \<and>
     (raw = CP_IN_CC14_MSB \<or> raw = CP_IN_CC14_LSB \<longrightarrow> unat v < 16384) \<and>
     (raw = CP_IN_NOTE_STATE_PAIR \<longrightarrow> 0 \<le> sint v \<and> sint v < 128)"

lemma scast_nonneg:
  assumes "\<not> sint (v :: 8 word) < 0"
  shows "0 \<le> sint (scast v :: i16) \<and> sint (scast v :: i16) < 128"
proof -
  have "sint v < 2 ^ 7" using sint_lt [of v] by simp
  then have "sint (scast v :: i16) = sint v"
    using assms by (simp add: signed_scast_eq signed_take_bit_int_eq_self)
  with \<open>sint v < 2 ^ 7\<close> assms show ?thesis by simp
qed

lemma entry_value_ok:
  assumes "process_entry rt i e d = (rt', Some v)"
  shows "value_ok (raw_type e) v"
  using assms and7f_less [of d] pair_value_bound scast_nonneg
  by (auto simp: process_entry_def value_ok_def Let_def split: if_splits)

lemma entry_raw_bound:
  "profile_ok p \<Longrightarrow> i < unat (input_count p) \<Longrightarrow> raw_type (cp_inputs p ! i) \<le> CP_IN_NOTE_STATE_PAIR"
  by (metis input_bad_def not_less nth_mem profile_ok_def)

text \<open>A pair control's slot index is inside the runtime's slot array.\<close>

lemma entry_slot_bound:
  assumes "profile_ok p" "i < unat (input_count p)"
    "raw_type (cp_inputs p ! i) \<in> {CP_IN_CC14_MSB, CP_IN_CC14_LSB, CP_IN_NOTE_STATE_PAIR}"
  shows "unat (pair_slot (cp_inputs p ! i)) < CP_MAX_PAIR_SLOTS"
proof -
  have "cp_inputs p ! i \<in> set (cp_inputs p)" using assms(1,2) by (simp add: profile_ok_def)
  then have "\<not> input_bad (pair_slot_count p) (cp_inputs p ! i)" using assms(1) by (simp add: profile_ok_def)
  then have "pair_slot (cp_inputs p ! i) < pair_slot_count p"
    using assms(3) by (auto simp: input_bad_def)
  then show ?thesis using assms(1) by (simp add: profile_ok_def word_less_nat_alt)
qed

section \<open>Absolute controls\<close>

text \<open>
  The two halves of a 14-bit control: whichever half arrives second completes the value, most
  significant seven bits first.
\<close>

lemma pair_value_join:
  assumes "msb_valid slot" "lsb_valid slot"
  shows "pair_value slot = Some (of_nat (128 * unat (ps_msb slot AND 0x7F) + unat (ps_lsb slot AND 0x7F)))"
proof -
  let ?m = "ps_msb slot AND 0x7F" and ?l = "ps_lsb slot AND 0x7F"
  have "push_bit 7 (ucast ?m) OR ucast ?l = push_bit 7 (ucast ?m) + (ucast ?l :: i16)"
    by (rule disjunctive_add [symmetric], unfold mask7f) (auto simp: bit_simps)
  also have "\<dots> = of_nat (128 * unat ?m + unat ?l)"
    by (simp add: push_bit_eq_mult mult.commute of_nat_unat)
  finally show ?thesis using assms by (simp add: pair_value_def)
qed

lemma cc14_second_half:
  assumes "runtime_ok rt" "unat (pair_slot em) < 40" "raw_type em = CP_IN_CC14_MSB"
    and "raw_type el = CP_IN_CC14_LSB" "pair_slot el = pair_slot em"
  shows "snd (process_entry (fst (process_entry rt i em m)) j el l) =
           Some (of_nat (128 * unat (m AND 0x7F) + unat (l AND 0x7F)))"
    and "snd (process_entry (fst (process_entry rt j el l)) i em m) =
           Some (of_nat (128 * unat (m AND 0x7F) + unat (l AND 0x7F)))"
proof -
  have len: "unat (pair_slot em) < length (rt_slots rt)" using assms(1,2) by (simp add: runtime_ok_def)
  show "snd (process_entry (fst (process_entry rt i em m)) j el l) =
           Some (of_nat (128 * unat (m AND 0x7F) + unat (l AND 0x7F)))"
    using assms(3-5) len by (simp add: process_entry_def Let_def pair_value_join and.assoc)
  show "snd (process_entry (fst (process_entry rt j el l)) i em m) =
           Some (of_nat (128 * unat (m AND 0x7F) + unat (l AND 0x7F)))"
    using assms(3-5) len by (simp add: process_entry_def Let_def pair_value_join and.assoc)
qed

text \<open>Note-off messages and note-on messages with velocity zero are one release.\<close>

lemma note_off_release:
  "cp_runtime_process p rt (0x80 OR (ch AND 0x0F)) d1 vel = cp_runtime_process p rt (0x90 OR (ch AND 0x0F)) d1 0"
proof -
  have "(0x80 OR (ch AND 0x0F)) AND 0xF0 = (0x80 :: u8)" "(0x90 OR (ch AND 0x0F)) AND 0xF0 = (0x90 :: u8)"
    "(0x80 OR (ch AND 0x0F)) AND 0x0F = ch AND (0x0F :: u8)"
    by (simp_all add: bit.conj_disj_distrib2 and.assoc)
  then show ?thesis by (simp add: cp_runtime_process_def normalize_note_off_def)
qed

section \<open>Snapshots\<close>

lemma emit_all: "emit_events (\<lambda>_ _. True) sent es = sent @ es"
  by (induction es arbitrary: sent) auto

lemma emit_prefix: "\<exists>n. emit_events cb sent es = sent @ take n es"
proof (induction es arbitrary: sent)
  case (Cons e es)
  show ?case
  proof (cases "cb sent e")
    case True
    with Cons [of "sent @ [e]"] obtain n where "emit_events cb (sent @ [e]) es = sent @ [e] @ take n es" by auto
    with True have "emit_events cb sent (e # es) = sent @ take (Suc n) (e # es)" by simp
    then show ?thesis by blast
  qed (auto intro: exI [of _ 0])
qed simp

lemma collect_loop_take:
  "length evs \<le> capacity \<Longrightarrow>
   collect_loop p rt capacity is evs = take capacity (evs @ List.map_filter (snapshot_entry p rt) is)"
  by (induction p rt capacity "is" evs rule: collect_loop.induct)
     (auto simp: List.map_filter_simps take_Cons' split: option.splits)

lemma length_map_filter_le: "length (List.map_filter f xs) \<le> length xs"
  by (induction xs) (auto simp: List.map_filter_simps split: option.splits)

text \<open>The buffer of 320 events is large enough for every valid profile, so collecting drops nothing.\<close>

lemma collect_complete:
  assumes "profile_ok p"
  shows "cp_runtime_collect_snapshot p rt CP_MAX_INPUTS =
           List.map_filter (snapshot_entry p rt) [0..<unat (input_count p)]"
proof -
  have "length (List.map_filter (snapshot_entry p rt) [0..<unat (input_count p)]) \<le> 320"
    using length_map_filter_le [of "snapshot_entry p rt" "[0..<unat (input_count p)]"] assms
    by (simp add: profile_ok_def)
  then show ?thesis by (simp add: cp_runtime_collect_snapshot_def collect_loop_take)
qed

section \<open>The active profile\<close>

definition active_ok :: "profile_runtime \<Rightarrow> bool" where
  "active_ok s \<longleftrightarrow> (s_active s \<longrightarrow> profile_ok (s_profile s) \<and> runtime_ok (s_runtime s) \<and>
     cp_vid (s_profile s) = s_bound_vid s \<and> cp_pid (s_profile s) = s_bound_pid s \<and> s_bound_epoch s \<noteq> 0)"

lemma active_ok_init: "active_ok (controller_profile_runtime_init s)"
  by (simp add: active_ok_def controller_profile_runtime_init_def)

lemma active_ok_clear: "active_ok (controller_profile_runtime_clear s)"
  by (simp add: active_ok_def controller_profile_runtime_clear_def)

lemma active_ok_activate:
  "active_ok s \<Longrightarrow> active_ok (fst (controller_profile_runtime_activate s blob vid pid epoch))"
  using active_ok_clear [of s] parse_profile_ok runtime_ok_init
  by (auto simp: controller_profile_runtime_activate_def active_ok_def split: option.splits sum.splits)

lemma active_ok_map: "active_ok s \<Longrightarrow> active_ok (fst (controller_profile_runtime_map s st d1 d2))"
  using runtime_ok_process [of "s_runtime s" "s_profile s" st d1 d2]
  by (auto simp: controller_profile_runtime_map_def active_ok_def split: prod.splits)

section \<open>Properties\<close>

text \<open>
  Claim C30.  A profile the parser accepts is safe to run: its tables have exactly the announced sizes and fit the
  limits, every entry has a known kind, and every entry that uses a pair slot names one that exists.
\<close>

theorem parsed_profile_is_safe:
  assumes "cp_profile_parse data = Inr p"
  shows "length (cp_inputs p) = unat (input_count p) \<and> length (cp_outputs p) = unat (output_count p) \<and>
     unat (input_count p) \<le> CP_MAX_INPUTS \<and> unat (output_count p) \<le> CP_MAX_OUTPUTS \<and>
     unat (pair_slot_count p) \<le> CP_MAX_PAIR_SLOTS \<and>
     length data = 32 + 16 * unat (input_count p) + 12 * unat (output_count p) \<and>
     list_all (\<lambda>e. raw_type e \<le> CP_IN_NOTE_STATE_PAIR \<and>
       (raw_type e \<in> {CP_IN_CC14_MSB, CP_IN_CC14_LSB, CP_IN_NOTE_STATE_PAIR} \<longrightarrow> pair_slot e < pair_slot_count p)) (cp_inputs p) \<and>
     list_all (\<lambda>o'. out_kind o' \<le> CP_OUT_CC_VALUE) (cp_outputs p)"
proof -
  have h: "header_ok data" using assms unfolding cp_profile_parse_iff by blast
  have c: "rd_u16 data 24 = input_count p" "rd_u16 data 26 = output_count p"
    using assms unfolding cp_profile_parse_iff by auto
  show ?thesis
    using parse_profile_ok [OF assms] h
    by (auto simp: profile_ok_def header_ok_def list_all_iff input_bad_def c)
qed

text \<open>A profile with one 14-bit control: its most and least significant halves, bound to pair slot 0.\<close>

definition sample_body :: "u8 list" where
  "sample_body = wr_u16 0x2B73 @ wr_u16 0x0033 @ wr_u32 0 @ wr_u16 2 @ wr_u16 0 @ [1, 2, 0, 0] @
     [0xB0, 0x13, CP_IN_CC14_MSB, 0, 5, 9] @ wr_u16 1 @ wr_u16 0 @ wr_u16 0 @ [0, 0, 0, 0] @
     [0xB0, 0x33, CP_IN_CC14_LSB, 0, 5, 9] @ wr_u16 1 @ wr_u16 0 @ wr_u16 0 @ [0, 0, 0, 0]"

definition sample_profile :: "u8 list" where
  "sample_profile = CP_MAGIC @ wr_u16 CP_VERSION @ wr_u16 32 @ wr_u32 64 @ wr_u32 (cp_xfer_crc32 sample_body) @ sample_body"

lemma length_CP_MAGIC [simp]: "length CP_MAGIC = 4"
  by (simp add: CP_MAGIC_def)

lemma sample_header: "header_ok sample_profile"
proof -
  have l: "length sample_profile = 64" by (simp add: sample_profile_def sample_body_def)
  have "drop 4 sample_profile = wr_u16 CP_VERSION @ wr_u16 32 @ wr_u32 64 @ wr_u32 (cp_xfer_crc32 sample_body) @ sample_body"
    "drop 6 sample_profile = wr_u16 32 @ wr_u32 64 @ wr_u32 (cp_xfer_crc32 sample_body) @ sample_body"
    "drop 8 sample_profile = wr_u32 64 @ wr_u32 (cp_xfer_crc32 sample_body) @ sample_body"
    "drop 12 sample_profile = wr_u32 (cp_xfer_crc32 sample_body) @ sample_body"
    "drop 16 sample_profile = sample_body"
    by (simp_all add: sample_profile_def)
  note d = this
  have "drop 24 sample_profile = drop 8 sample_body" "drop 26 sample_profile = drop 10 sample_body"
    "drop 28 sample_profile = drop 12 sample_body"
    unfolding d(5) [symmetric] drop_drop by simp_all
  note e = this
  have "drop 8 sample_body = wr_u16 2 @ drop 10 sample_body" "drop 10 sample_body = wr_u16 0 @ drop 12 sample_body"
    "drop 12 sample_body = 1 # drop 13 sample_body"
    by (simp_all add: sample_body_def wr_u16_def wr_u32_def)
  note b = this
  have s: "sample_profile ! 28 = 1"
    using e(3) l unfolding b(3) by (simp add: Cons_nth_drop_Suc [symmetric])
  have "take 4 sample_profile = CP_MAGIC" by (simp add: sample_profile_def)
  then show ?thesis
    unfolding header_ok_def
    using rd_u16_at [OF d(1)] rd_u16_at [OF d(2)] rd_u32_at [OF d(3)] rd_u32_at [OF d(4)] l d(5) s
      rd_u16_at [OF e(1) [unfolded b(1)]] rd_u16_at [OF e(2) [unfolded b(2)]] by simp
qed

lemma sample_fields:
  "rd_u16 sample_profile 24 = 2" "rd_u16 sample_profile 26 = 0" "sample_profile ! 28 = 1"
  "sample_profile ! 34 = CP_IN_CC14_MSB" "sample_profile ! 35 = 0"
  "sample_profile ! 50 = CP_IN_CC14_LSB" "sample_profile ! 51 = 0"
  by (simp_all add: sample_profile_def sample_body_def wr_u16_def wr_u32_def rd_u16_def CP_MAGIC_def)

lemma sample_parses: "\<exists>p. cp_profile_parse sample_profile = Inr p \<and> input_count p = 2 \<and> length (cp_inputs p) = 2"
proof -
  have u: "[0..<2] = [0, 1 :: nat]" by (simp add: upt_rec)
  have "parse_inputs sample_profile 1 32 2 = Inr [parse_input sample_profile 32, parse_input sample_profile 48]"
    unfolding parse_inputs_iff u
    by (simp add: input_bad_def parse_input_def sample_fields)
  moreover have "parse_outputs sample_profile 64 0 = Inr []" by simp
  ultimately show ?thesis
    unfolding cp_profile_parse_iff using sample_header by (simp add: sample_fields)
qed

theorem parsed_profile_is_safe_witness:
  "\<exists>p. cp_profile_parse sample_profile = Inr p \<and> input_count p = 2 \<and>
     list_all (\<lambda>e. raw_type e \<in> {CP_IN_CC14_MSB, CP_IN_CC14_LSB, CP_IN_NOTE_STATE_PAIR} \<longrightarrow> pair_slot e < pair_slot_count p) (cp_inputs p)"
proof -
  obtain p where p: "cp_profile_parse sample_profile = Inr p" "input_count p = 2" using sample_parses by blast
  from parsed_profile_is_safe [OF p(1)] p show ?thesis by (auto simp: list_all_iff)
qed

text \<open>
  Every event the runtime produces from a MIDI message is in the range of its kind: buttons are 0 or 1,
  relative controls never report zero motion, absolute controls stay within 7 or 14 bits, and the event
  carries the semantic type and id of the first table entry that matches the message.
\<close>

lemma runtime_event_in_range:
  assumes "cp_runtime_process p rt st d1 d2 = (rt', Some ev)" "runtime_ok rt"
  shows "runtime_ok rt' \<and> (\<exists>i < unat (input_count p). let e = cp_inputs p ! i in
     match_status e = fst (normalize_note_off st d2) \<and> match_data1 e = d1 \<and>
     ev_type ev = semantic_type e \<and> ev_id ev = semantic_id e \<and> value_ok (raw_type e) (ev_value ev) \<and>
     (\<forall>j < i. \<not> (match_status (cp_inputs p ! j) = match_status e \<and> match_data1 (cp_inputs p ! j) = d1)))"
  using assms(1)
proof (cases rule: process_match)
  case (1 i st' d v)
  have "runtime_ok rt'" using runtime_ok_process [OF assms(2), of p st d1 d2] assms(1) by simp
  moreover have "value_ok (raw_type (cp_inputs p ! i)) v" by (rule entry_value_ok [OF 1(6)])
  ultimately show ?thesis using 1 by (auto simp: Let_def intro!: exI [of _ i])
qed

end
