(* ===== verification/Led_Output.thy ===== *)
theory Led_Output
  imports Control_Ids Interfaces
begin

text \<open>
  LED output on the S3 board: the built-in MIDI packets of the DDJ-FLX4
  (\<open>flx4_led_midi.c\<close>), the choice between a dynamic profile and the built-in mapping
  (\<open>controller_output_policy.c\<close>) and the reconciler that keeps the latest desired
  LED state until it has been sent (\<open>controller_led_reconciler.c\<close>).
\<close>

section \<open>Built-in LED packets\<close>

definition flx4_led_midi_builtin_authoritative :: "u8 \<Rightarrow> bool" where
  "flx4_led_midi_builtin_authoritative led \<longleftrightarrow> led = LED_TRACK_LOAD_DECK1 \<or> led = LED_TRACK_LOAD_DECK2"

definition note_for_led :: "u8 \<Rightarrow> u8 option" where
  "note_for_led led =
     (if led \<ge> LED_BEAT_LOOP_PAD_1 \<and> led \<le> LED_BEAT_LOOP_PAD_8 then Some (0x60 + (led - LED_BEAT_LOOP_PAD_1))
      else if led \<ge> LED_BEAT_JUMP_PAD_1 \<and> led \<le> LED_BEAT_JUMP_PAD_8 then Some (0x20 + (led - LED_BEAT_JUMP_PAD_1))
      else if led \<ge> LED_BEAT_JUMP_SHIFT_HELPER_7 \<and> led \<le> LED_BEAT_JUMP_SHIFT_HELPER_8
        then Some (0x26 + (led - LED_BEAT_JUMP_SHIFT_HELPER_7))
      else if led \<ge> LED_HOT_CUE_PAD_1 \<and> led \<le> LED_HOT_CUE_PAD_8 then Some (0 + (led - LED_HOT_CUE_PAD_1))
      else if led \<ge> LED_PAD_FX1_PAD_1 \<and> led \<le> LED_PAD_FX1_PAD_8 then Some (0x10 + (led - LED_PAD_FX1_PAD_1))
      else if led \<ge> LED_PAD_FX2_PAD_1 \<and> led \<le> LED_PAD_FX2_PAD_8 then Some (0x50 + (led - LED_PAD_FX2_PAD_1))
      else if led = LED_PLAY then Some 0x0B
      else if led = LED_CUE then Some 0x0C
      else if led = LED_PFL then Some 0x54
      else if led = LED_SYNC then Some 0x58
      else if led = LED_LOOP_IN then Some 0x10
      else if led = LED_LOOP_OUT then Some 0x11
      else if led = LED_PAD_MODE_HOT_CUE then Some 0x1B
      else if led = LED_PAD_MODE_KEYBOARD then Some 0x69
      else if led = LED_PAD_MODE_PAD_FX1 then Some 0x1E
      else if led = LED_PAD_MODE_PAD_FX2 then Some 0x6B
      else if led = LED_PAD_MODE_BEAT_JUMP then Some 0x20
      else if led = LED_PAD_MODE_BEAT_LOOP then Some 0x6D
      else if led = LED_PAD_MODE_SAMPLER then Some 0x22
      else if led = LED_PAD_MODE_KEY_SHIFT then Some 0x6F
      else if led = LED_SMART_CFX then Some 0x00
      else if led = LED_SMART_FADER then Some 0x01
      else if led = LED_BEAT_FX_ON then Some 0x47
      else if led = LED_MASTER_CUE then Some 0x63
      else if led = LED_CENSOR then Some 0x0E
      else if led = LED_CUE_SHIFT then Some 0x48
      else if led = LED_LOOP_ADJUST_IN then Some 0x4C
      else if led = LED_LOOP_ADJUST_OUT then Some 0x4E
      else if led = LED_TRACK_LOAD_DECK1 then Some 0x00
      else if led = LED_TRACK_LOAD_DECK2 then Some 0x01
      else None)"

text \<open>The status byte the packet builder computes for a note LED.\<close>

definition led_status :: "u8 \<Rightarrow> u8 \<Rightarrow> u8" where
  "led_status led deck =
     (if (led \<ge> LED_BEAT_LOOP_PAD_1 \<and> led \<le> LED_BEAT_LOOP_PAD_8) \<or>
         (led \<ge> LED_BEAT_JUMP_PAD_1 \<and> led \<le> LED_BEAT_JUMP_PAD_8) \<or>
         (led \<ge> LED_HOT_CUE_PAD_1 \<and> led \<le> LED_HOT_CUE_PAD_8) \<or>
         (led \<ge> LED_PAD_FX1_PAD_1 \<and> led \<le> LED_PAD_FX1_PAD_8) \<or>
         (led \<ge> LED_PAD_FX2_PAD_1 \<and> led \<le> LED_PAD_FX2_PAD_8)
      then (if deck = CTRL_DECK_1 then 0x97 else 0x99)
      else if led \<ge> LED_BEAT_JUMP_SHIFT_HELPER_7 \<and> led \<le> LED_BEAT_JUMP_SHIFT_HELPER_8
      then (if deck = CTRL_DECK_1 then 0x98 else 0x9A)
      else if led = LED_BEAT_FX_ON then (if deck = CTRL_DECK_1 then 0x94 else 0x95)
      else if led = LED_TRACK_LOAD_DECK1 \<or> led = LED_TRACK_LOAD_DECK2 then 0x9F
      else if led = LED_SMART_CFX \<or> led = LED_SMART_FADER \<or> led = LED_MASTER_CUE then 0x96
      else (if deck = CTRL_DECK_1 then 0x90 else 0x91))"

definition flx4_led_midi_build_packet :: "u8 \<Rightarrow> u8 \<Rightarrow> u8 \<Rightarrow> u8 list option" where
  "flx4_led_midi_build_packet led st deck =
     (if deck \<noteq> CTRL_DECK_1 \<and> deck \<noteq> CTRL_DECK_2 then None
      else if led = LED_VU_METER then
        Some [0x0B, if deck = CTRL_DECK_1 then 0xB0 else 0xB1, 0x02, st AND 0x7F]
      else case note_for_led led of
          None \<Rightarrow> None
        | Some note \<Rightarrow> Some [0x09, led_status led deck, note, if st \<noteq> 0 then 0x7F else 0x00])"

section \<open>Output policy\<close>

datatype controller_output_route =
  CONTROLLER_OUTPUT_DROP | CONTROLLER_OUTPUT_DYNAMIC | CONTROLLER_OUTPUT_BUILTIN_FLX4

definition controller_output_select_route :: "bool \<Rightarrow> bool \<Rightarrow> bool \<Rightarrow> bool \<Rightarrow> controller_output_route" where
  "controller_output_select_route dynamic_profile_active dynamic_mapping_found confirmed_flx4 builtin_mapping_found =
     (if dynamic_profile_active then
        (if dynamic_mapping_found then CONTROLLER_OUTPUT_DYNAMIC else CONTROLLER_OUTPUT_DROP)
      else if confirmed_flx4 \<and> builtin_mapping_found then CONTROLLER_OUTPUT_BUILTIN_FLX4
      else CONTROLLER_OUTPUT_DROP)"

section \<open>LED reconciler\<close>

abbreviation (input) CONTROLLER_LED_RECONCILER_DECKS :: nat where "CONTROLLER_LED_RECONCILER_DECKS \<equiv> 2"
abbreviation (input) CONTROLLER_LED_RECONCILER_IDS :: nat where "CONTROLLER_LED_RECONCILER_IDS \<equiv> 69"

record controller_led_reconciler =
  led_state :: "u8 list list"
  led_known :: "bool list list"
  led_dirty :: "bool list list"
  scan_cursor :: nat
  retry_count :: u32

record controller_led_desired =
  item_id :: u8
  item_deck :: u8
  item_state :: u8

abbreviation set2 :: "'a list list \<Rightarrow> nat \<Rightarrow> nat \<Rightarrow> 'a \<Rightarrow> 'a list list" where
  "set2 m d i v \<equiv> m[d := (m ! d)[i := v]]"

definition controller_led_reconciler_reset :: controller_led_reconciler where
  "controller_led_reconciler_reset =
     \<lparr>led_state = replicate 2 (replicate 69 0), led_known = replicate 2 (replicate 69 False),
      led_dirty = replicate 2 (replicate 69 False), scan_cursor = 0, retry_count = 0\<rparr>"

definition controller_led_reconciler_observe ::
    "controller_led_reconciler \<Rightarrow> u8 \<Rightarrow> u8 \<Rightarrow> u8 \<Rightarrow> controller_led_reconciler \<times> bool" where
  "controller_led_reconciler_observe r led deck st =
     (if unat led \<ge> CONTROLLER_LED_RECONCILER_IDS \<or> unat deck \<ge> CONTROLLER_LED_RECONCILER_DECKS then (r, False)
      else (r\<lparr>led_state := set2 (led_state r) (unat deck) (unat led) st,
              led_known := set2 (led_known r) (unat deck) (unat led) True,
              led_dirty := set2 (led_dirty r) (unat deck) (unat led) True\<rparr>, True))"

definition led_pending :: "controller_led_reconciler \<Rightarrow> nat \<Rightarrow> bool" where
  "led_pending r flat \<longleftrightarrow> led_known r ! (flat div 69) ! (flat mod 69) \<and> led_dirty r ! (flat div 69) ! (flat mod 69)"

definition controller_led_reconciler_next ::
    "controller_led_reconciler \<Rightarrow> controller_led_reconciler \<times> controller_led_desired option" where
  "controller_led_reconciler_next r =
     (case rr_scan (CONTROLLER_LED_RECONCILER_DECKS * CONTROLLER_LED_RECONCILER_IDS) (scan_cursor r) (led_pending r) of
        None \<Rightarrow> (r, None)
      | Some flat \<Rightarrow>
          (r\<lparr>scan_cursor := (flat + 1) mod (CONTROLLER_LED_RECONCILER_DECKS * CONTROLLER_LED_RECONCILER_IDS)\<rparr>,
           Some \<lparr>item_id = of_nat (flat mod CONTROLLER_LED_RECONCILER_IDS),
                 item_deck = of_nat (flat div CONTROLLER_LED_RECONCILER_IDS),
                 item_state = led_state r ! (flat div CONTROLLER_LED_RECONCILER_IDS) ! (flat mod CONTROLLER_LED_RECONCILER_IDS)\<rparr>))"

definition controller_led_reconciler_complete ::
    "controller_led_reconciler \<Rightarrow> controller_led_desired \<Rightarrow> bool \<Rightarrow> controller_led_reconciler" where
  "controller_led_reconciler_complete r item sent =
     (if unat (item_id item) \<ge> CONTROLLER_LED_RECONCILER_IDS \<or> unat (item_deck item) \<ge> CONTROLLER_LED_RECONCILER_DECKS
      then r
      else if \<not> sent then r\<lparr>retry_count := retry_count r + 1\<rparr>
      else if led_known r ! unat (item_deck item) ! unat (item_id item) \<and>
              led_state r ! unat (item_deck item) ! unat (item_id item) = item_state item
      then r\<lparr>led_dirty := set2 (led_dirty r) (unat (item_deck item)) (unat (item_id item)) False\<rparr>
      else r)"

definition controller_led_reconciler_mark_all_dirty :: "controller_led_reconciler \<Rightarrow> controller_led_reconciler" where
  "controller_led_reconciler_mark_all_dirty r =
     r\<lparr>led_dirty := map2 (\<lambda>ks ds. map2 (\<lambda>k d. k \<or> d) ks ds) (led_known r) (led_dirty r)\<rparr>"

section \<open>Facts about the packets\<close>

text \<open>
  An LED packet is a four-byte USB-MIDI packet: note-on or control-change status with the high bit
  set and two data bytes below 128.
\<close>

definition midi_packet_ok :: "u8 list \<Rightarrow> bool" where
  "midi_packet_ok p \<longleftrightarrow> length p = 4 \<and> p ! 1 \<ge> 0x80 \<and> p ! 2 < 0x80 \<and> p ! 3 < 0x80 \<and>
     (p ! 0 = 0x09 \<and> drop_bit 4 (p ! 1) = 0x9 \<or> p ! 0 = 0x0B \<and> drop_bit 4 (p ! 1) = 0xB)"

text \<open>The address of a packet: its status byte and its note or controller number.\<close>

definition packet_address :: "u8 list \<Rightarrow> u8 \<times> u8" where
  "packet_address p = (p ! 1, p ! 2)"

definition led_addresses :: "u8 \<Rightarrow> (u8 \<times> u8) list" where
  "led_addresses deck =
     List.map_filter (\<lambda>n. map_option packet_address (flx4_led_midi_build_packet (of_nat n) 1 deck)) [0..<69]"

lemma led_address_codes_distinct:
  "distinct (map (\<lambda>(a, b). uint a * 256 + uint b) (led_addresses 0))"
  "distinct (map (\<lambda>(a, b). uint a * 256 + uint b) (led_addresses 1))"
  by code_simp+

lemma led_addresses_distinct: "distinct (led_addresses 0)" "distinct (led_addresses 1)"
  using led_address_codes_distinct unfolding distinct_map by simp_all

lemma distinct_map_filter_inj:
  "distinct (List.map_filter f xs) \<Longrightarrow> x \<in> set xs \<Longrightarrow> y \<in> set xs \<Longrightarrow> f x = Some a \<Longrightarrow> f y = Some a \<Longrightarrow> x = y"
proof (induction xs)
  case (Cons z xs)
  have "f w = Some a \<Longrightarrow> w \<in> set xs \<Longrightarrow> a \<in> set (List.map_filter f xs)" for w
    by (auto simp: List.map_filter_def image_iff intro!: bexI [of _ w])
  with Cons show ?case by (auto simp: List.map_filter_simps split: option.splits)
qed simp

lemma pad_note:
  assumes "lo \<le> led" "led \<le> hi" "unat b + unat hi < 128 + unat lo"
  shows "b + (led - lo) < (0x80 :: u8)"
proof -
  have "unat (led - lo) = unat led - unat lo" using assms(1) by (simp add: unat_sub)
  then have "unat b + unat (led - lo) < 128"
    using assms by (simp add: word_le_nat_alt)
  then show ?thesis by (simp add: word_less_nat_alt unat_word_ariths)
qed

lemma note_bound: "note_for_led led = Some n \<Longrightarrow> n < 0x80"
  using pad_note [of LED_BEAT_LOOP_PAD_1 led LED_BEAT_LOOP_PAD_8 "0x60"]
    pad_note [of LED_BEAT_JUMP_PAD_1 led LED_BEAT_JUMP_PAD_8 "0x20"]
    pad_note [of LED_BEAT_JUMP_SHIFT_HELPER_7 led LED_BEAT_JUMP_SHIFT_HELPER_8 "0x26"]
    pad_note [of LED_HOT_CUE_PAD_1 led LED_HOT_CUE_PAD_8 "0"]
    pad_note [of LED_PAD_FX1_PAD_1 led LED_PAD_FX1_PAD_8 "0x10"]
    pad_note [of LED_PAD_FX2_PAD_1 led LED_PAD_FX2_PAD_8 "0x50"]
  by (simp add: note_for_led_def split: if_splits)

lemma note_led_bound: "note_for_led led = Some n \<Longrightarrow> led < 69"
  unfolding note_for_led_def by (auto split: if_splits elim: order_le_less_trans)

lemma led_status_cases:
  "led_status led deck \<in> {0x90, 0x91, 0x94, 0x95, 0x96, 0x97, 0x98, 0x99, 0x9A, 0x9F}"
  by (simp add: led_status_def)

lemma led_packet_ok:
  assumes "flx4_led_midi_build_packet led st deck = Some p"
  shows "midi_packet_ok p"
proof -
  have m: "(st AND 0x7F) < 0x80"
  proof -
    have "unat (st AND 0x7F) \<le> 127"
      using word_and_le1 [of st "0x7F"] by (simp add: word_le_nat_alt and.commute)
    then show ?thesis by (simp add: word_less_nat_alt)
  qed
  show ?thesis
  proof (cases "led = LED_VU_METER")
    case True
    with assms m show ?thesis
      by (auto simp: flx4_led_midi_build_packet_def midi_packet_ok_def split: if_splits)
  next
    case False
    with assms obtain n where "note_for_led led = Some n"
        "p = [0x09, led_status led deck, n, if st \<noteq> 0 then 0x7F else 0x00]"
      by (auto simp: flx4_led_midi_build_packet_def split: if_splits option.splits)
    with note_bound [of led n] led_status_cases [of led deck] show ?thesis
      by (auto simp: midi_packet_ok_def)
  qed
qed

text \<open>No two LEDs of one deck are driven through the same MIDI address.\<close>

lemma led_address_inj:
  assumes "flx4_led_midi_build_packet led st deck = Some p" "flx4_led_midi_build_packet led' st' deck = Some p'"
    and "packet_address p = packet_address p'"
  shows "led = led'"
proof -
  let ?b = "\<lambda>l. flx4_led_midi_build_packet l 1 deck"
  have addr: "\<exists>q. ?b l = Some q \<and> packet_address q = packet_address r"
    if "flx4_led_midi_build_packet l s deck = Some r" for l s r
    using that by (auto simp: flx4_led_midi_build_packet_def packet_address_def Let_def
        split: if_splits option.splits)
  have "deck = 0 \<or> deck = 1" using assms(1) by (auto simp: flx4_led_midi_build_packet_def split: if_splits)
  then have d: "distinct (led_addresses deck)" using led_addresses_distinct by auto
  obtain q q' where q: "?b led = Some q" "?b led' = Some q'" "packet_address q = packet_address q'"
    using addr [OF assms(1)] addr [OF assms(2)] assms(3) by auto
  have bound: "l < 69" if "?b l = Some r" for l r
    using that note_led_bound [of l] by (auto simp: flx4_led_midi_build_packet_def split: if_splits option.splits)
  have "unat led \<in> set [0..<69]" "unat led' \<in> set [0..<69]"
    using q bound [of led] bound [of led'] by (auto simp: word_less_nat_alt)
  then have "unat led = unat led'"
    using distinct_map_filter_inj [OF d [unfolded led_addresses_def], of "unat led" "unat led'"] q by simp
  then show ?thesis by (simp add: word_unat_eq_iff)
qed

section \<open>Reconciler invariant and service\<close>

definition led_inv :: "controller_led_reconciler \<Rightarrow> bool" where
  "led_inv r \<longleftrightarrow> scan_cursor r < 138 \<and>
     length (led_state r) = 2 \<and> (\<forall>d < 2. length (led_state r ! d) = 69) \<and>
     length (led_known r) = 2 \<and> (\<forall>d < 2. length (led_known r ! d) = 69) \<and>
     length (led_dirty r) = 2 \<and> (\<forall>d < 2. length (led_dirty r ! d) = 69)"

text \<open>The desired LED states as a partial map from the flat index \<open>deck * 69 + id\<close>.\<close>

definition led_desired :: "controller_led_reconciler \<Rightarrow> nat \<Rightarrow> u8 option" where
  "led_desired r flat = (if flat < 138 \<and> led_known r ! (flat div 69) ! (flat mod 69)
     then Some (led_state r ! (flat div 69) ! (flat mod 69)) else None)"

definition led_flat :: "u8 \<Rightarrow> u8 \<Rightarrow> nat" where
  "led_flat led deck = unat deck * 69 + unat led"

lemmas led_ops =
  controller_led_reconciler_observe_def controller_led_reconciler_next_def
  controller_led_reconciler_complete_def controller_led_reconciler_mark_all_dirty_def

lemma flat_split:
  assumes "(flat :: nat) < 138"
  shows "flat div 69 < 2" "flat mod 69 < 69"
  using assms by (simp_all add: less_mult_imp_div_less)

lemma nth_set2:
  "d < length m \<Longrightarrow> i < length (m ! d) \<Longrightarrow>
   set2 m d i v ! d' ! i' = (if d' = d \<and> i' = i then v else m ! d' ! i')"
  by (cases "d' = d") (auto simp: nth_list_update)

lemma led_flat_iff:
  assumes "unat led < 69" "unat deck < 2" "flat < 138"
  shows "flat div 69 = unat deck \<and> flat mod 69 = unat led \<longleftrightarrow> flat = led_flat led deck"
proof -
  have "flat = led_flat led deck" if "flat div 69 = unat deck" "flat mod 69 = unat led"
    using div_mult_mod_eq [of flat 69] unfolding that led_flat_def by (rule sym)
  then show ?thesis using assms(1) by (auto simp: led_flat_def)
qed

lemma led_inv_reset: "led_inv controller_led_reconciler_reset"
  by (simp add: led_inv_def controller_led_reconciler_reset_def nth_Cons numeral_2_eq_2 split: nat.splits)

lemma lengths_set2:
  "length (set2 m d i v) = length m"
  "d' < length m \<Longrightarrow> length (set2 m d i v ! d') = length (m ! d')"
  by (simp, cases "d' = d") auto

lemma led_inv_observe: "led_inv r \<Longrightarrow> led_inv (fst (controller_led_reconciler_observe r led deck st))"
  by (simp add: led_inv_def led_ops lengths_set2)

lemma led_inv_next: "led_inv r \<Longrightarrow> led_inv (fst (controller_led_reconciler_next r))"
  by (simp add: led_inv_def led_ops split: option.split)

lemma led_inv_complete: "led_inv r \<Longrightarrow> led_inv (controller_led_reconciler_complete r item sent)"
  by (simp add: led_inv_def led_ops lengths_set2)

lemma led_inv_mark: "led_inv r \<Longrightarrow> led_inv (controller_led_reconciler_mark_all_dirty r)"
  by (simp add: led_inv_def led_ops)

lemma observe_effect:
  assumes "led_inv r" "unat led < 69" "unat deck < 2" "flat < 138"
  shows "led_pending (fst (controller_led_reconciler_observe r led deck st)) flat \<longleftrightarrow>
           flat = led_flat led deck \<or> led_pending r flat"
    and "led_desired (fst (controller_led_reconciler_observe r led deck st)) flat =
           (if flat = led_flat led deck then Some st else led_desired r flat)"
  using assms led_flat_iff [OF assms(2-4)]
  by (auto simp: led_ops led_pending_def led_desired_def nth_set2 led_inv_def)

lemma mark_effect:
  assumes "led_inv r" "flat < 138"
  shows "led_pending (controller_led_reconciler_mark_all_dirty r) flat \<longleftrightarrow> led_desired r flat \<noteq> None"
    and "led_desired (controller_led_reconciler_mark_all_dirty r) = led_desired r"
  using assms flat_split [OF assms(2)]
  by (auto simp: led_ops led_pending_def led_desired_def led_inv_def fun_eq_iff)

text \<open>One iteration of the flush loop: fetch the next dirty LED, try to send it, complete it.\<close>

definition led_serves :: "controller_led_reconciler \<Rightarrow> controller_led_reconciler \<Rightarrow> nat \<Rightarrow> bool" where
  "led_serves r r' flat \<longleftrightarrow> rr_scan 138 (scan_cursor r) (led_pending r) = Some flat \<and>
     (\<exists>r1 item sent. controller_led_reconciler_next r = (r1, Some item) \<and>
        r' = controller_led_reconciler_complete r1 item sent)"

inductive led_producer :: "controller_led_reconciler \<Rightarrow> controller_led_reconciler \<Rightarrow> bool" where
  led_obs: "led_producer r (fst (controller_led_reconciler_observe r led deck st))"
| led_mark: "led_producer r (controller_led_reconciler_mark_all_dirty r)"

inductive_cases led_producerE: "led_producer r r'"

lemma next_item:
  assumes "controller_led_reconciler_next r = (r1, Some item)" "rr_scan 138 (scan_cursor r) (led_pending r) = Some flat"
  shows "r1 = r\<lparr>scan_cursor := Suc flat mod 138\<rparr>" "unat (item_id item) = flat mod 69" "unat (item_deck item) = flat div 69"
    "item_state item = led_state r ! (flat div 69) ! (flat mod 69)" "flat < 138" "led_pending r flat"
    "led_desired r flat = Some (item_state item)"
proof -
  have flat: "flat < 138" "led_pending r flat" using rr_scan_SomeD [OF assms(2)] by auto
  note s = flat_split [OF flat(1)]
  show "r1 = r\<lparr>scan_cursor := Suc flat mod 138\<rparr>" "item_state item = led_state r ! (flat div 69) ! (flat mod 69)"
    "led_desired r flat = Some (item_state item)"
    using assms flat by (auto simp: led_ops led_desired_def led_pending_def)
  show "unat (item_id item) = flat mod 69" "unat (item_deck item) = flat div 69"
    using assms s by (auto simp: led_ops unat_of_nat take_bit_nat_eq_self)
qed (use rr_scan_SomeD [OF assms(2)] in auto)

text \<open>
  Completing the item that was just fetched: its LED is clean when the send succeeded and still
  pending when it failed; every other LED and all desired states stay as they were.
\<close>

lemma serve_effect:
  assumes "led_inv r" "controller_led_reconciler_next r = (r1, Some item)"
    "rr_scan 138 (scan_cursor r) (led_pending r) = Some flat" "i < 138"
  shows "led_pending (controller_led_reconciler_complete r1 item sent) i \<longleftrightarrow> led_pending r i \<and> \<not> (i = flat \<and> sent)"
    and "led_desired (controller_led_reconciler_complete r1 item sent) = led_desired r"
    and "scan_cursor (controller_led_reconciler_complete r1 item sent) = Suc flat mod 138"
proof -
  note n = next_item [OF assms(2,3)]
  note s = flat_split [OF n(5)] flat_split [OF assms(4)]
  have e: "i div 69 = flat div 69 \<and> i mod 69 = flat mod 69 \<longleftrightarrow> i = flat" by (metis div_mult_mod_eq)
  have k: "led_known r ! (flat div 69) ! (flat mod 69)" using n(6) by (simp add: led_pending_def)
  show "led_pending (controller_led_reconciler_complete r1 item sent) i \<longleftrightarrow> led_pending r i \<and> \<not> (i = flat \<and> sent)"
    using assms(1) n s e k by (auto simp: controller_led_reconciler_complete_def led_pending_def nth_set2 led_inv_def)
  show "led_desired (controller_led_reconciler_complete r1 item sent) = led_desired r"
    "scan_cursor (controller_led_reconciler_complete r1 item sent) = Suc flat mod 138"
    using n s by (auto simp: controller_led_reconciler_complete_def led_desired_def fun_eq_iff)
qed

interpretation led_rr: round_robin 138 led_pending scan_cursor led_serves led_producer led_inv
proof unfold_locales
  fix r r' :: controller_led_reconciler and i j :: nat
  show "led_serves r r' j \<Longrightarrow> rr_scan 138 (scan_cursor r) (led_pending r) = Some j"
    by (simp add: led_serves_def)
  show "rr_scan 138 (scan_cursor r) (led_pending r) = Some j \<Longrightarrow> \<exists>r'. led_serves r r' j"
    unfolding led_serves_def controller_led_reconciler_next_def by auto
  show "led_inv r \<Longrightarrow> led_serves r r' j \<Longrightarrow> scan_cursor r' = Suc j mod 138"
    using serve_effect(3) [of r _ _ j 0] by (auto simp: led_serves_def)
  show "led_inv r \<Longrightarrow> led_serves r r' j \<Longrightarrow> i \<noteq> j \<Longrightarrow> i < 138 \<Longrightarrow> led_pending r i \<Longrightarrow> led_pending r' i"
    using serve_effect(1) [of r _ _ j i] by (auto simp: led_serves_def)
  show "led_inv r \<Longrightarrow> led_serves r r' j \<Longrightarrow> led_inv r'"
    using led_inv_next [of r] led_inv_complete by (auto simp: led_serves_def)
  show "led_inv r \<Longrightarrow> scan_cursor r < 138" by (simp add: led_inv_def)
  assume inv: "led_inv r" and step: "led_producer r r'"
  show "scan_cursor r' = scan_cursor r"
    using step by (cases rule: led_producerE) (auto simp: led_ops)
  show "led_inv r'"
    using step by (cases rule: led_producerE) (use inv led_inv_observe led_inv_mark in auto)
  assume i: "i < 138" "led_pending r i"
  from step show "led_pending r' i"
  proof cases
    case (led_obs led deck st)
    then show ?thesis
      using observe_effect(1) [OF inv _ _ i(1), of led deck st] i(2)
      by (cases "unat led < 69 \<and> unat deck < 2") (auto simp: controller_led_reconciler_observe_def)
  next
    case led_mark
    then show ?thesis using mark_effect(1) [OF inv i(1)] i by (simp add: led_desired_def led_pending_def)
  qed
qed

section \<open>What the controller shows\<close>

text \<open>
  The reconciler in use: the P4 asks for a state at any moment; the flush loop fetches a LED, sends it and reports how
  the send went; when a controller is connected or a profile activated every known LED is marked for resending, and the
  new controller may show anything. The task that fetches is the one that marks, so a mark never falls between a
  send and its report (it is skipped there). \<open>lw_shown\<close> is what the controller was last sent for a LED and deck.
\<close>

datatype led_op = Led_Observe u8 u8 u8 | Led_Reconnect "u8 \<times> u8 \<Rightarrow> u8 option" | Led_Fetch | Led_Send bool | Led_Complete

record led_world =
  lw_rec :: controller_led_reconciler
  lw_flight :: "(controller_led_desired \<times> bool option) option"
  lw_shown :: "u8 \<times> u8 \<Rightarrow> u8 option"

definition led_world_start :: led_world where
  "led_world_start = \<lparr>lw_rec = controller_led_reconciler_reset, lw_flight = None, lw_shown = Map.empty\<rparr>"

fun led_world_step :: "led_world \<Rightarrow> led_op \<Rightarrow> led_world" where
  "led_world_step w (Led_Observe led deck st) = w\<lparr>lw_rec := fst (controller_led_reconciler_observe (lw_rec w) led deck st)\<rparr>"
| "led_world_step w (Led_Reconnect shown) =
     (case lw_flight w of
        Some (item, Some ok) \<Rightarrow> w
      | _ \<Rightarrow> w\<lparr>lw_rec := controller_led_reconciler_mark_all_dirty (lw_rec w), lw_shown := shown\<rparr>)"
| "led_world_step w Led_Fetch =
     (case lw_flight w of
        Some _ \<Rightarrow> w
      | None \<Rightarrow> (case controller_led_reconciler_next (lw_rec w) of
            (r, None) \<Rightarrow> w\<lparr>lw_rec := r\<rparr>
          | (r, Some item) \<Rightarrow> w\<lparr>lw_rec := r, lw_flight := Some (item, None)\<rparr>))"
| "led_world_step w (Led_Send ok) =
     (case lw_flight w of
        Some (item, None) \<Rightarrow>
          w\<lparr>lw_flight := Some (item, Some ok),
            lw_shown := (if ok then (lw_shown w)((item_id item, item_deck item) \<mapsto> item_state item) else lw_shown w)\<rparr>
      | _ \<Rightarrow> w)"
| "led_world_step w Led_Complete =
     (case lw_flight w of
        Some (item, Some ok) \<Rightarrow> w\<lparr>lw_rec := controller_led_reconciler_complete (lw_rec w) item ok, lw_flight := None\<rparr>
      | _ \<Rightarrow> w)"

definition led_world_run :: "led_op list \<Rightarrow> led_world" where
  "led_world_run ops = foldl led_world_step led_world_start ops"

text \<open>The state last asked for, from the requests alone.\<close>

fun ask :: "(u8 \<times> u8 \<Rightarrow> u8 option) \<Rightarrow> led_op \<Rightarrow> u8 \<times> u8 \<Rightarrow> u8 option" where
  "ask m (Led_Observe led deck st) = m((led, deck) \<mapsto> st)"
| "ask m _ = m"

definition last_asked :: "led_op list \<Rightarrow> u8 \<times> u8 \<Rightarrow> u8 option" where
  "last_asked ops = foldl ask Map.empty ops"

definition flush_rounds :: "nat \<Rightarrow> led_op list" where
  "flush_rounds n = concat (replicate n [Led_Fetch, Led_Send True, Led_Complete])"

text \<open>
  The invariant: the reconciler wants what was last asked for; a fetched LED is still waiting and, once sent, is shown;
  a LED that does not wait shows what the reconciler wants.
\<close>

definition led_key :: "nat \<Rightarrow> u8 \<times> u8" where
  "led_key i = (of_nat (i mod 69), of_nat (i div 69))"

definition led_world_inv :: "led_world \<Rightarrow> (u8 \<times> u8 \<Rightarrow> u8 option) \<Rightarrow> bool" where
  "led_world_inv w asked \<longleftrightarrow> led_inv (lw_rec w) \<and>
     (\<forall>i < 138. led_desired (lw_rec w) i = asked (led_key i)) \<and>
     (\<forall>i < 138. led_pending (lw_rec w) i \<or> asked (led_key i) = None \<or> lw_shown w (led_key i) = asked (led_key i)) \<and>
     (case lw_flight w of None \<Rightarrow> True
      | Some (item, sent) \<Rightarrow> (\<exists>i < 138. led_key i = (item_id item, item_deck item) \<and> led_pending (lw_rec w) i) \<and>
          (sent = Some True \<longrightarrow> lw_shown w (item_id item, item_deck item) = Some (item_state item)))"

lemma led_key_nat: "i < 138 \<Longrightarrow> unat (fst (led_key i)) = i mod 69 \<and> unat (snd (led_key i)) = i div 69"
  by (simp add: led_key_def unat_of_nat take_bit_nat_eq_self less_mult_imp_div_less less_imp_le_nat div_less_dividend trans_less_add1)

lemma led_key_inj: "\<lbrakk>i < 138; j < 138; led_key i = led_key j\<rbrakk> \<Longrightarrow> i = j"
  using led_key_nat [of i] led_key_nat [of j] by (metis div_mult_mod_eq)

lemma led_key_of: "\<lbrakk>unat led < 69; unat deck < 2\<rbrakk> \<Longrightarrow> led_key (led_flat led deck) = (led, deck) \<and> led_flat led deck < 138"
  by (simp add: led_key_def led_flat_def)

lemma next_scan:
  "controller_led_reconciler_next r = (r1, Some item) \<Longrightarrow> \<exists>flat. rr_scan 138 (scan_cursor r) (led_pending r) = Some flat"
  by (auto simp: led_ops split: option.splits)

lemma complete_effect:
  assumes "led_inv r" "k < 138" "led_key k = (item_id item, item_deck item)" "i < 138"
  shows "led_pending (controller_led_reconciler_complete r item sent) i \<longleftrightarrow>
      led_pending r i \<and> \<not> (i = k \<and> sent \<and> led_desired r k = Some (item_state item))"
    and "led_desired (controller_led_reconciler_complete r item sent) = led_desired r"
proof -
  have n: "unat (item_id item) = k mod 69" "unat (item_deck item) = k div 69" using led_key_nat [OF assms(2)] assms(3) by auto
  note s = flat_split [OF assms(2)] flat_split [OF assms(4)]
  have e: "i div 69 = k div 69 \<and> i mod 69 = k mod 69 \<longleftrightarrow> i = k" by (metis div_mult_mod_eq)
  show "led_pending (controller_led_reconciler_complete r item sent) i \<longleftrightarrow>
      led_pending r i \<and> \<not> (i = k \<and> sent \<and> led_desired r k = Some (item_state item))"
    using assms(1,2,4) n s e
    by (auto simp: controller_led_reconciler_complete_def led_pending_def led_desired_def nth_set2 led_inv_def)
  show "led_desired (controller_led_reconciler_complete r item sent) = led_desired r"
    using n s by (auto simp: controller_led_reconciler_complete_def led_desired_def fun_eq_iff)
qed

lemma next_effect:
  assumes "led_inv r"
  shows "case controller_led_reconciler_next r of
      (r', None) \<Rightarrow> r' = r \<and> (\<forall>i < 138. \<not> led_pending r i)
    | (r', Some item) \<Rightarrow> led_inv r' \<and> led_pending r' = led_pending r \<and> led_desired r' = led_desired r \<and>
        (\<exists>k < 138. led_key k = (item_id item, item_deck item) \<and> led_pending r k \<and> led_desired r k = Some (item_state item))"
proof (cases "rr_scan 138 (scan_cursor r) (led_pending r)")
  case None
  then have "\<forall>i < 138. \<not> led_pending r i" using rr_scan_None_iff [of "scan_cursor r" 138 "led_pending r"] assms by (simp add: led_inv_def)
  then show ?thesis using None by (simp add: led_ops)
next
  case (Some flat)
  then obtain r' item where n: "controller_led_reconciler_next r = (r', Some item)" by (simp add: led_ops)
  note ni = next_item [OF n Some]
  have "led_key flat = (item_id item, item_deck item)"
    using n Some by (auto simp: led_ops led_key_def)
  moreover have "led_inv r'" using led_inv_next [OF assms] n by simp
  moreover have "led_pending r' = led_pending r" "led_desired r' = led_desired r"
    using ni(1) by (simp_all add: led_pending_def led_desired_def fun_eq_iff)
  ultimately show ?thesis using n ni(5-7) by auto
qed

lemma observe_asked:
  assumes "led_world_inv w asked"
  shows "led_world_inv (led_world_step w (Led_Observe led deck st)) (asked((led, deck) \<mapsto> st))"
proof (cases "unat led < 69 \<and> unat deck < 2")
  case True
  let ?r = "fst (controller_led_reconciler_observe (lw_rec w) led deck st)"
  have k: "led_key i = (led, deck) \<longleftrightarrow> i = led_flat led deck" if "i < 138" for i
    using led_key_of [of led deck] led_key_inj [OF that, of "led_flat led deck"] True by auto
  have "led_inv (lw_rec w)" using assms by (simp add: led_world_inv_def)
  note e = led_inv_observe [OF this, of led deck st] observe_effect [OF this conjunct1 [OF True] conjunct2 [OF True], of _ st]
  show ?thesis using assms e k by (auto simp: led_world_inv_def split: option.splits prod.splits)
next
  case False
  have "led_key i \<noteq> (led, deck)" if "i < 138" for i using led_key_nat [OF that] flat_split [OF that] False by auto
  then show ?thesis using assms False by (simp add: led_world_inv_def controller_led_reconciler_observe_def not_less)
qed

lemma led_world_step_inv:
  assumes "led_world_inv w asked"
  shows "led_world_inv (led_world_step w op) (ask asked op)"
proof -
  have inv: "led_inv (lw_rec w)" using assms by (simp add: led_world_inv_def)
  show ?thesis
  proof (cases op)
    case (Led_Observe led deck st)
    then show ?thesis using observe_asked [OF assms] by simp
  next
    case (Led_Reconnect shown)
    let ?m = "controller_led_reconciler_mark_all_dirty (lw_rec w)"
    have d: "led_pending ?m i" if "i < 138" "led_pending (lw_rec w) i" for i
      using mark_effect(1) [OF inv that(1)] that by (simp add: led_desired_def led_pending_def)
    consider "lw_flight w = None" | item where "lw_flight w = Some (item, None)" | item ok where "lw_flight w = Some (item, Some ok)"
      by (metis option.exhaust surj_pair)
    then show ?thesis
    proof cases
      case 1
      then show ?thesis using assms led_inv_mark [OF inv] mark_effect [OF inv] by (auto simp: Led_Reconnect led_world_inv_def)
    next
      case 2
      then obtain k where k: "k < 138" "led_key k = (item_id item, item_deck item)" "led_pending ?m k"
        using assms d by (auto simp: led_world_inv_def)
      show ?thesis using 2 k assms led_inv_mark [OF inv] mark_effect [OF inv] by (auto simp: Led_Reconnect led_world_inv_def)
    qed (use assms Led_Reconnect in simp)
  next
    case Led_Fetch
    show ?thesis
    proof (cases "lw_flight w")
      case None
      then show ?thesis using assms next_effect [OF inv] unfolding Led_Fetch led_world_inv_def
        by (auto split: option.splits prod.splits)
    qed (use assms Led_Fetch in auto)
  next
    case (Led_Send ok)
    show ?thesis
    proof (cases "\<exists>item. lw_flight w = Some (item, None)")
      case True
      then obtain item k where f: "lw_flight w = Some (item, None)" and
        k: "k < 138" "led_key k = (item_id item, item_deck item)" "led_pending (lw_rec w) k"
        using assms by (auto simp: led_world_inv_def)
      have "led_key i \<noteq> (item_id item, item_deck item) \<or> led_pending (lw_rec w) i" if "i < 138" for i
        using led_key_inj [OF that k(1)] k by auto
      then show ?thesis using assms f k by (auto simp: Led_Send led_world_inv_def)
    next
      case False
      then show ?thesis using assms by (auto simp: Led_Send split: option.split prod.split)
    qed
  next
    case Led_Complete
    show ?thesis
    proof (cases "\<exists>item ok. lw_flight w = Some (item, Some ok)")
      case True
      then obtain item ok k where f: "lw_flight w = Some (item, Some ok)" and
        k: "k < 138" "led_key k = (item_id item, item_deck item)" "ok \<Longrightarrow> lw_shown w (led_key k) = Some (item_state item)"
        using assms by (auto simp: led_world_inv_def)
      show ?thesis using assms f k complete_effect [OF inv k(1,2)] led_inv_complete [OF inv, of item ok]
        by (auto simp: Led_Complete led_world_inv_def)
    next
      case False
      then show ?thesis using assms by (auto simp: Led_Complete split: option.split prod.split)
    qed
  qed
qed

lemma led_world_run_inv: "led_world_inv (led_world_run ops) (last_asked ops)"
proof -
  have start: "led_world_inv led_world_start Map.empty"
    using led_inv_reset by (auto simp: led_world_inv_def led_world_start_def led_desired_def controller_led_reconciler_reset_def less_mult_imp_div_less)
  have "led_world_inv w asked \<Longrightarrow> led_world_inv (foldl led_world_step w ops) (foldl ask asked ops)" for w asked
    by (induction ops arbitrary: w asked) (simp_all add: led_world_step_inv)
  from this [OF start] show ?thesis by (simp add: led_world_run_def last_asked_def)
qed

text \<open>A round of the flush loop with a working send clears one waiting LED.\<close>

definition led_waiting :: "led_world \<Rightarrow> nat set" where
  "led_waiting w = {i. i < 138 \<and> led_pending (lw_rec w) i}"

lemma flush_round:
  assumes "led_world_inv w asked" "lw_flight w = None"
  defines "w' \<equiv> foldl led_world_step w [Led_Fetch, Led_Send True, Led_Complete]"
  shows "lw_flight w' = None \<and> (card (led_waiting w') < card (led_waiting w) \<or> led_waiting w' = {})"
proof -
  have inv: "led_inv (lw_rec w)" using assms by (simp add: led_world_inv_def)
  have fin: "finite (led_waiting w)" by (simp add: led_waiting_def)
  obtain r nx where n: "controller_led_reconciler_next (lw_rec w) = (r, nx)" by fastforce
  show ?thesis
  proof (cases nx)
    case None
    then show ?thesis using next_effect [OF inv] n assms(2) by (simp add: w'_def led_waiting_def)
  next
    case (Some item)
    then obtain k where k: "k < 138" "led_key k = (item_id item, item_deck item)" "led_pending (lw_rec w) k"
      "led_inv r" "led_pending r = led_pending (lw_rec w)" "led_desired r k = Some (item_state item)"
      using next_effect [OF inv] n by auto
    have w: "lw_rec w' = controller_led_reconciler_complete r item True" "lw_flight w' = None"
      using n Some assms(2) by (simp_all add: w'_def)
    have "led_waiting w' = led_waiting w - {k}"
      using complete_effect [OF k(4,1,2), of _ True] k w by (auto simp: led_waiting_def)
    then show ?thesis using w(2) k card_Diff1_less [OF fin, of k] by (simp add: led_waiting_def)
  qed
qed

lemma flush_all:
  "\<lbrakk>led_world_inv w asked; lw_flight w = None; card (led_waiting w) \<le> n\<rbrakk> \<Longrightarrow>
   led_waiting (foldl led_world_step w (flush_rounds n)) = {}"
proof (induction n arbitrary: w asked)
  case 0
  then show ?case by (simp add: flush_rounds_def led_waiting_def)
next
  case (Suc n)
  let ?w = "foldl led_world_step w [Led_Fetch, Led_Send True, Led_Complete]"
  note r = flush_round [OF Suc.prems(1,2)]
  have "led_world_inv ?w asked"
    using led_world_step_inv [OF led_world_step_inv [OF led_world_step_inv [OF Suc.prems(1), of Led_Fetch], of "Led_Send True"], of Led_Complete] by simp
  moreover have "card (led_waiting ?w) \<le> n" using r Suc.prems(3) by auto
  ultimately have "led_waiting (foldl led_world_step ?w (flush_rounds n)) = {}" using Suc.IH r by blast
  then show ?case by (simp add: flush_rounds_def)
qed

section \<open>Properties\<close>

text \<open>
  Claim C21.  The LEDs show what was asked for. Over any run of requests, reconnections and fetches, with requests falling between
  a fetch, its send and its report and sends failing as they like: whenever a fetch finds nothing to send, every LED shows
  the state the P4 last asked for; and 138 rounds of the flush loop with a working send bring it there from anywhere.
\<close>

theorem leds_show_desired_state:
  assumes "unat led < 69" "unat deck < 2" "last_asked ops (led, deck) = Some st"
  shows "(lw_flight (led_world_run ops) = None \<and> snd (controller_led_reconciler_next (lw_rec (led_world_run ops))) = None \<longrightarrow>
       lw_shown (led_world_run ops) (led, deck) = Some st) \<and>
     lw_shown (led_world_run (ops @ [Led_Send ok, Led_Complete] @ flush_rounds 138)) (led, deck) = Some st"
proof -
  note k = led_key_of [OF assms(1,2)]
  have shows_it: "lw_shown w (led, deck) = Some st" if "led_world_inv w asked" "asked (led, deck) = Some st" "led_waiting w = {}" for w asked
    using that k by (force simp: led_world_inv_def led_waiting_def)
  let ?ops = "ops @ [Led_Send ok, Led_Complete]"
  have i: "led_world_inv (led_world_run ops) (last_asked ops)" and i1: "led_world_inv (led_world_run ?ops) (last_asked ?ops)"
    by (rule led_world_run_inv)+
  have "led_inv (lw_rec (led_world_run ops))" using i by (simp add: led_world_inv_def)
  note nx = next_effect [OF this]
  have quiet: "lw_shown (led_world_run ops) (led, deck) = Some st"
    if "snd (controller_led_reconciler_next (lw_rec (led_world_run ops))) = None"
    using nx that by (intro shows_it [OF i assms(3)]) (auto simp: led_waiting_def split: prod.splits)
  have "lw_flight (led_world_run ?ops) = None"
    by (auto simp: led_world_run_def split: option.split prod.split)
  moreover have "card (led_waiting (led_world_run ?ops)) \<le> 138"
    using card_mono [of "{..<138 :: nat}" "led_waiting (led_world_run ?ops)"] by (auto simp: led_waiting_def)
  ultimately have "led_waiting (led_world_run (?ops @ flush_rounds 138)) = {}"
    using flush_all [OF i1] by (simp add: led_world_run_def)
  moreover have "last_asked (?ops @ flush_rounds 138) (led, deck) = Some st"
  proof -
    have "foldl ask m (flush_rounds n) = m" for m n by (induction n) (simp_all add: flush_rounds_def)
    then show ?thesis using assms(3) by (simp add: last_asked_def)
  qed
  ultimately have "lw_shown (led_world_run (?ops @ flush_rounds 138)) (led, deck) = Some st"
    by (intro shows_it [OF led_world_run_inv])
  then show ?thesis using quiet by simp
qed

text \<open>The play LED is asked on, sent, and asked off before the send is reported; then a send fails.\<close>

theorem leds_show_desired_state_witness:
  "lw_shown (led_world_run ([Led_Observe LED_PLAY 1 1, Led_Fetch, Led_Send True, Led_Observe LED_PLAY 1 0, Led_Complete,
       Led_Fetch] @ [Led_Send False, Led_Complete] @ flush_rounds 138)) (LED_PLAY, 1) = Some 0"
  by (rule conjunct2 [OF leds_show_desired_state]) (simp_all add: last_asked_def)

text \<open>
  No LED starves: whatever the P4 asks for in between, an LED waiting to be sent is tried again after at
  most 137 attempts for other LEDs.
\<close>

lemma led_no_starvation:
  assumes "rr_wait led_serves led_producer i r k r'" "led_inv r" "i < 138" "led_pending r i"
  shows "k < 138 \<and> led_pending r' i \<and> (\<exists>r'' j. led_serves r' r'' j)"
  using led_rr.bounded_waiting [OF assms] led_rr.wait_bound [OF assms] led_rr.not_stuck [of r' i] assms(3) by simp

text \<open>
  Every LED packet is a well-formed USB-MIDI message, and different LEDs of a deck never share
  a MIDI address, so no LED update can change another LED.
\<close>

lemma led_packets_well_formed_and_disjoint:
  assumes "flx4_led_midi_build_packet led st deck = Some p"
  shows "midi_packet_ok p \<and> (\<forall>led' st' p'. flx4_led_midi_build_packet led' st' deck = Some p' \<and>
     packet_address p' = packet_address p \<longrightarrow> led' = led)"
  using led_packet_ok [OF assms] led_address_inj [OF _ assms] by blast

end
