(* ===== verification/S3_Link.thy ===== *)
theory S3_Link
  imports Frame_Rx Controller_Profile Led_Output
begin

text \<open>
  The S3 end of the control link (\<open>control_link_uart.c\<close>, \<open>control_link_tx_serializer.c\<close>):
  serialised transmission, LED frames, the profile transfer handler and the receive loop.  Statics of
  the C file are the fields of \<open>s3_link\<close>.

  What the C code asks of the UART driver, the heap, the USB host and the mutex is a parameter \<open>s3_env\<close>:
  the answers may depend on everything written or sent so far.  \<open>sl_wire\<close> and \<open>sl_midi\<close>
  record the frames handed to the UART and the packets handed to the USB host, oldest first;
  \<open>env_malloc\<close> is the initial content of the allocated buffer, \<open>None\<close> when the allocation fails;
  \<open>sl_calls\<close> records calls into the debug access point and the boot-health callback.  Log output and the status LED
  are left out.
\<close>

section \<open>Environment and state\<close>

record midi_connection =
  conn_vid :: u16
  conn_pid :: u16
  conn_epoch :: u32

record s3_env =
  env_lock :: bool
  env_write :: "u8 list list \<Rightarrow> u8 list \<Rightarrow> int"
  env_conn :: "midi_connection option"
  env_malloc :: "(nat \<Rightarrow> u8) option"
  env_send_packet :: "u8 list list \<Rightarrow> u8 list \<Rightarrow> bool"
  env_builtin_flx4 :: bool

datatype s3_call = DebugApRequest bool | StateCallback u8 i16

record control_link_tx_serializer =
  next_sequence :: u8

record control_link_tx_result =
  res_sequence :: u8
  res_expected :: nat
  res_written :: int

record s3_link =
  sl_tx :: control_link_tx_serializer
  sl_write_fail :: u32
  sl_led :: controller_led_reconciler
  sl_rx :: rx_demux
  sl_xfer :: cp_xfer_rx
  sl_buf_set :: bool
  sl_mem :: "u8 list"
  sl_stored :: bool
  sl_len :: nat
  sl_vid :: u16
  sl_pid :: u16
  sl_epoch :: u32
  sl_activate_cb :: bool
  sl_state_cb :: bool
  sl_runtime :: profile_runtime
  sl_wire :: "u8 list list"
  sl_midi :: "u8 list list"
  sl_calls :: "s3_call list"

abbreviation (input) S3_PROFILE_BUF_CAP :: nat where "S3_PROFILE_BUF_CAP \<equiv> 16384"

section \<open>Transmission\<close>

definition control_link_tx_serializer_init :: control_link_tx_serializer where
  "control_link_tx_serializer_init = \<lparr>next_sequence = 0\<rparr>"

text \<open>
  One transaction: take the lock, allocate a sequence number, build, write, unlock.  The result also
  carries the frame that was handed to the writer.
\<close>

definition control_link_tx_serializer_send ::
    "control_link_tx_serializer \<Rightarrow> nat \<Rightarrow> bool \<Rightarrow> (u8 list \<Rightarrow> int) \<Rightarrow> (nat \<Rightarrow> u8 \<Rightarrow> u8 list option)
     \<Rightarrow> control_link_tx_serializer \<times> u8 list option \<times> control_link_tx_result \<times> bool" where
  "control_link_tx_serializer_send tx capacity lock write build =
     (if capacity = 0 \<or> \<not> lock
      then (tx, None, \<lparr>res_sequence = 0, res_expected = 0, res_written = 0\<rparr>, False)
      else
        let sq = next_sequence tx;
            tx' = tx\<lparr>next_sequence := sq + 1\<rparr>;
            frame = build capacity sq;
            expected = (case frame of None \<Rightarrow> 0 | Some f \<Rightarrow> length f);
            written = (case frame of None \<Rightarrow> 0 | Some f \<Rightarrow> if length f > 0 then write f else 0)
        in (tx', (if expected > 0 then frame else None),
            \<lparr>res_sequence = sq, res_expected = expected, res_written = written\<rparr>,
            expected > 0 \<and> written = int expected))"

definition tx_send :: "s3_env \<Rightarrow> s3_link \<Rightarrow> nat \<Rightarrow> (nat \<Rightarrow> u8 \<Rightarrow> u8 list option) \<Rightarrow> s3_link \<times> bool" where
  "tx_send env s capacity build =
     (let (tx', frame, result, ok) =
        control_link_tx_serializer_send (sl_tx s) capacity (env_lock env) (env_write env (sl_wire s)) build;
          s1 = s\<lparr>sl_tx := tx', sl_wire := sl_wire s @ (case frame of None \<Rightarrow> [] | Some f \<Rightarrow> [f])\<rparr>
      in (if ok then s1 else s1\<lparr>sl_write_fail := sl_write_fail s1 + 1\<rparr>, ok))"

definition send_fixed_frame :: "s3_env \<Rightarrow> s3_link \<Rightarrow> u8 \<Rightarrow> u8 \<Rightarrow> i16 \<Rightarrow> s3_link \<times> bool" where
  "send_fixed_frame env s ty cid v =
     tx_send env s CTRL_FRAME_LEN (\<lambda>cap sq. build_fixed_frame cap sq \<lparr>ff_type = ty, ff_id = cid, ff_value = v\<rparr>)"

definition control_link_send_heartbeat :: "s3_env \<Rightarrow> u64 \<Rightarrow> s3_link \<Rightarrow> s3_link" where
  "control_link_send_heartbeat env time_us s =
     (let uptime_s = ucast (time_us div 1000000) :: u32
      in fst (send_fixed_frame env s CTRL_TYPE_HEARTBEAT 0 (ucast (uptime_s AND 0xFFFF))))"

definition control_link_send_semantic :: "s3_env \<Rightarrow> s3_link \<Rightarrow> u8 \<Rightarrow> u8 \<Rightarrow> i16 \<Rightarrow> s3_link \<times> bool" where
  "control_link_send_semantic env s ty cid v = send_fixed_frame env s ty cid v"

definition control_link_send_descriptor_report :: "s3_env \<Rightarrow> s3_link \<Rightarrow> ctrl_descriptor_report \<Rightarrow> s3_link \<times> bool" where
  "control_link_send_descriptor_report env s rep =
     tx_send env s CTRL_BULK_MAX_FRAME (\<lambda>cap sq. ctrl_bulk_build_descriptor_frame cap sq rep)"

definition control_link_send_firmware_report :: "s3_env \<Rightarrow> s3_link \<Rightarrow> ctrl_firmware_report \<Rightarrow> s3_link \<times> bool" where
  "control_link_send_firmware_report env s rep =
     tx_send env s CTRL_BULK_MAX_FRAME (\<lambda>cap sq. ctrl_bulk_build_firmware_report cap sq rep)"

definition send_profile_reply_ack :: "s3_env \<Rightarrow> s3_link \<Rightarrow> u8 \<Rightarrow> s3_link" where
  "send_profile_reply_ack env s acked_type =
     fst (tx_send env s CTRL_BULK_MAX_FRAME (\<lambda>cap sq. ctrl_bulk_build_profile_ack cap sq acked_type))"

definition send_profile_reply_nack :: "s3_env \<Rightarrow> s3_link \<Rightarrow> u8 \<Rightarrow> u8 \<Rightarrow> s3_link" where
  "send_profile_reply_nack env s nacked_type reason =
     fst (tx_send env s CTRL_BULK_MAX_FRAME (\<lambda>cap sq. ctrl_bulk_build_profile_nack cap sq nacked_type reason))"

section \<open>LED output\<close>

text \<open>The packet to send, if any, and whether dropping the LED is intended.\<close>

definition build_controller_led_packet :: "s3_env \<Rightarrow> s3_link \<Rightarrow> u8 \<Rightarrow> u8 \<Rightarrow> u8 \<Rightarrow> u8 list option \<times> bool" where
  "build_controller_led_packet env s led deck st =
     (let dynamic_active = controller_profile_runtime_active (sl_runtime s);
          dynamic_packet = (if dynamic_active then controller_profile_runtime_map_led (sl_runtime s) led deck st else None);
          confirmed_flx4 = env_builtin_flx4 env;
          builtin_packet = (if \<not> dynamic_active \<and> confirmed_flx4 then flx4_led_midi_build_packet led st deck else None);
          route = controller_output_select_route dynamic_active (dynamic_packet \<noteq> None) confirmed_flx4 (builtin_packet \<noteq> None)
      in (if route \<noteq> CONTROLLER_OUTPUT_DROP
          then (if dynamic_packet \<noteq> None then dynamic_packet else builtin_packet) else None,
          route = CONTROLLER_OUTPUT_DROP \<and> (dynamic_active \<or> confirmed_flx4)))"

definition flx4_midi_host_send_packet :: "s3_env \<Rightarrow> s3_link \<Rightarrow> u8 list \<Rightarrow> s3_link \<times> bool" where
  "flx4_midi_host_send_packet env s packet =
     (s\<lparr>sl_midi := sl_midi s @ [packet]\<rparr>, env_send_packet env (sl_midi s) packet)"

text \<open>The body of the flush loop for one fetched LED.\<close>

definition flush_one :: "s3_env \<Rightarrow> s3_link \<Rightarrow> controller_led_desired \<Rightarrow> s3_link" where
  "flush_one env s item =
     (let (packet, intentional_drop) = build_controller_led_packet env s (item_id item) (item_deck item) (item_state item);
          (s1, complete) = (case packet of None \<Rightarrow> (s, intentional_drop)
                                         | Some p \<Rightarrow> flx4_midi_host_send_packet env s p)
      in s1\<lparr>sl_led := controller_led_reconciler_complete (sl_led s1) item complete\<rparr>)"

fun flush_pending_controller_leds :: "s3_env \<Rightarrow> nat \<Rightarrow> s3_link \<Rightarrow> s3_link" where
  "flush_pending_controller_leds env 0 s = s"
| "flush_pending_controller_leds env (Suc budget) s =
     (case controller_led_reconciler_next (sl_led s) of
        (r, None) \<Rightarrow> s\<lparr>sl_led := r\<rparr>
      | (r, Some item) \<Rightarrow> flush_pending_controller_leds env budget (flush_one env (s\<lparr>sl_led := r\<rparr>) item))"

definition handle_p4_frame :: "s3_env \<Rightarrow> s3_link \<Rightarrow> u8 list \<Rightarrow> s3_link" where
  "handle_p4_frame env s f =
     (let ty = f ! 1; cid = f ! 2; st = f ! 3; deck = f ! 4;
          v = ucast (f ! 3) OR push_bit 8 (ucast (f ! 4)) :: i16 in
      if ty = CTRL_TYPE_LED then
        if deck = CTRL_DECK_1 \<or> deck = CTRL_DECK_2 then
          if cid = LED_VU_METER then
            (case build_controller_led_packet env s cid deck st of
               (Some packet, _) \<Rightarrow> fst (flx4_midi_host_send_packet env s packet)
             | (None, _) \<Rightarrow> s)
          else
            let (r, ok) = controller_led_reconciler_observe (sl_led s) cid deck st in
            if ok then flush_pending_controller_leds env 1 (s\<lparr>sl_led := r\<rparr>) else s
        else s
      else if ty = CTRL_TYPE_STATE then
        if cid = CTRL_ID_S3_DEBUG_AP then s\<lparr>sl_calls := sl_calls s @ [DebugApRequest (st \<noteq> 0)]\<rparr>
        else if sl_state_cb s then s\<lparr>sl_calls := sl_calls s @ [StateCallback cid v]\<rparr>
        else s
      else s)"

section \<open>Profile transfer\<close>

text \<open>The activation callback the application registers (\<open>flx4_profile_activate_cb\<close>).\<close>

definition flx4_profile_activate_cb ::
    "s3_env \<Rightarrow> profile_runtime \<Rightarrow> u8 list option \<Rightarrow> u16 \<Rightarrow> u16 \<Rightarrow> u32 \<Rightarrow> profile_runtime \<times> bool" where
  "flx4_profile_activate_cb env rt blob vid pid epoch =
     (case blob of
        None \<Rightarrow> (controller_profile_runtime_clear rt, True)
      | Some data \<Rightarrow>
          if length data = 0 then (controller_profile_runtime_clear rt, True)
          else case env_conn env of
              None \<Rightarrow> (rt, False)
            | Some c \<Rightarrow>
                if conn_vid c \<noteq> vid \<or> conn_pid c \<noteq> pid \<or> conn_epoch c \<noteq> epoch then (rt, False)
                else controller_profile_runtime_activate rt (Some data) vid pid epoch)"

definition handle_profile_begin :: "s3_env \<Rightarrow> s3_link \<Rightarrow> u8 list \<Rightarrow> nat \<Rightarrow> s3_link" where
  "handle_profile_begin env s frame frame_len =
     (case ctrl_bulk_decode_profile_begin frame frame_len of
        None \<Rightarrow> send_profile_reply_nack env s CTRL_BULK_TYPE_PROFILE_BEGIN CTRL_PROFILE_NACK_STATE
      | Some (tot, crc, vid, pid) \<Rightarrow>
          (case env_conn env of
             None \<Rightarrow> send_profile_reply_nack env s CTRL_BULK_TYPE_PROFILE_BEGIN CTRL_PROFILE_NACK_STATE
           | Some c \<Rightarrow>
               if conn_vid c \<noteq> vid \<or> conn_pid c \<noteq> pid
               then send_profile_reply_nack env s CTRL_BULK_TYPE_PROFILE_BEGIN CTRL_PROFILE_NACK_STATE
               else if \<not> sl_buf_set s \<and> env_malloc env = None
               then send_profile_reply_nack env s CTRL_BULK_TYPE_PROFILE_BEGIN CTRL_PROFILE_NACK_SIZE
               else
                 let s1 = (if sl_buf_set s then s
                           else s\<lparr>sl_buf_set := True, sl_mem := map (the (env_malloc env)) [0..<S3_PROFILE_BUF_CAP]\<rparr>);
                     (rx, reason) = cp_xfer_rx_begin (cp_xfer_rx_init (sl_buf_set s1) S3_PROFILE_BUF_CAP) tot crc vid pid;
                     s2 = s1\<lparr>sl_stored := False, sl_xfer := rx\<rparr>
                 in if reason = CTRL_PROFILE_NACK_NONE
                    then send_profile_reply_ack env (s2\<lparr>sl_epoch := conn_epoch c\<rparr>) CTRL_BULK_TYPE_PROFILE_BEGIN
                    else send_profile_reply_nack env s2 CTRL_BULK_TYPE_PROFILE_BEGIN reason))"

definition handle_profile_chunk :: "s3_env \<Rightarrow> s3_link \<Rightarrow> u8 list \<Rightarrow> nat \<Rightarrow> s3_link" where
  "handle_profile_chunk env s frame frame_len =
     (case ctrl_bulk_decode_profile_chunk frame frame_len of
        None \<Rightarrow> send_profile_reply_nack env s CTRL_BULK_TYPE_PROFILE_CHUNK CTRL_PROFILE_NACK_OFFSET
      | Some (offset, data) \<Rightarrow>
          let (rx, mem, reason) = cp_xfer_rx_chunk (sl_xfer s) (sl_mem s) offset data;
              s1 = s\<lparr>sl_xfer := rx, sl_mem := mem\<rparr>
          in if reason \<noteq> CTRL_PROFILE_NACK_NONE
             then send_profile_reply_nack env s1 CTRL_BULK_TYPE_PROFILE_CHUNK reason else s1)"

definition handle_profile_end :: "s3_env \<Rightarrow> s3_link \<Rightarrow> s3_link" where
  "handle_profile_end env s =
     (let (rx, reason) = cp_xfer_rx_end (sl_xfer s) (sl_mem s); s1 = s\<lparr>sl_xfer := rx\<rparr> in
      if reason = CTRL_PROFILE_NACK_NONE
      then send_profile_reply_ack env
             (s1\<lparr>sl_stored := True, sl_len := unat (rx_total rx), sl_vid := rx_vid rx, sl_pid := rx_pid rx\<rparr>)
             CTRL_BULK_TYPE_PROFILE_END
      else send_profile_reply_nack env s1 CTRL_BULK_TYPE_PROFILE_END reason)"

definition handle_profile_activate :: "s3_env \<Rightarrow> s3_link \<Rightarrow> s3_link" where
  "handle_profile_activate env s =
     (if \<not> sl_stored s
      then send_profile_reply_nack env s CTRL_BULK_TYPE_PROFILE_ACTIVATE CTRL_PROFILE_NACK_STATE
      else
        let (rt, ok) = (if sl_activate_cb s
                        then flx4_profile_activate_cb env (sl_runtime s)
                               (if sl_buf_set s then Some (take (sl_len s) (sl_mem s)) else None)
                               (sl_vid s) (sl_pid s) (sl_epoch s)
                        else (sl_runtime s, True));
            s1 = s\<lparr>sl_runtime := rt\<rparr>
        in if ok
           then send_profile_reply_ack env (s1\<lparr>sl_led := controller_led_reconciler_mark_all_dirty (sl_led s1)\<rparr>)
                  CTRL_BULK_TYPE_PROFILE_ACTIVATE
           else send_profile_reply_nack env s1 CTRL_BULK_TYPE_PROFILE_ACTIVATE CTRL_PROFILE_NACK_PARSE)"

definition handle_profile_clear :: "s3_env \<Rightarrow> s3_link \<Rightarrow> s3_link" where
  "handle_profile_clear env s =
     (let s1 = s\<lparr>sl_stored := False, sl_len := 0, sl_epoch := 0,
                 sl_xfer := cp_xfer_rx_init (sl_buf_set s) S3_PROFILE_BUF_CAP\<rparr>;
          s2 = (if sl_activate_cb s1
                then s1\<lparr>sl_runtime := fst (flx4_profile_activate_cb env (sl_runtime s1) None 0 0 0)\<rparr> else s1)
      in send_profile_reply_ack env (s2\<lparr>sl_led := controller_led_reconciler_mark_all_dirty (sl_led s2)\<rparr>)
           CTRL_BULK_TYPE_PROFILE_CLEAR)"

definition handle_profile_frame :: "s3_env \<Rightarrow> s3_link \<Rightarrow> u8 list \<Rightarrow> nat \<Rightarrow> s3_link" where
  "handle_profile_frame env s frame frame_len =
     (let ty = frame ! 1 in
      if ty = CTRL_BULK_TYPE_PROFILE_BEGIN then handle_profile_begin env s frame frame_len
      else if ty = CTRL_BULK_TYPE_PROFILE_CHUNK then handle_profile_chunk env s frame frame_len
      else if ty = CTRL_BULK_TYPE_PROFILE_END then handle_profile_end env s
      else if ty = CTRL_BULK_TYPE_PROFILE_ACTIVATE then handle_profile_activate env s
      else if ty = CTRL_BULK_TYPE_PROFILE_CLEAR then handle_profile_clear env s
      else s)"

definition control_link_get_stored_profile :: "s3_link \<Rightarrow> (u8 list \<times> u16 \<times> u16) option" where
  "control_link_get_stored_profile s =
     (if \<not> sl_stored s then None else Some (take (sl_len s) (sl_mem s), sl_vid s, sl_pid s))"

section \<open>Receive loop\<close>

definition parse_rx_byte :: "s3_env \<Rightarrow> s3_link \<Rightarrow> u8 \<Rightarrow> s3_link" where
  "parse_rx_byte env s b =
     (let (d, r) = rx_step (sl_rx s) b; s1 = s\<lparr>sl_rx := d\<rparr> in
      case r of
        Some (FixedFrame f) \<Rightarrow> handle_p4_frame env s1 f
      | Some (BulkFrame f n) \<Rightarrow> handle_profile_frame env s1 f n
      | _ \<Rightarrow> s1)"

text \<open>One iteration of the RX task: the bytes read, then the LED retry budget.\<close>

definition uart_rx_iteration :: "s3_env \<Rightarrow> s3_link \<Rightarrow> u8 list \<Rightarrow> s3_link" where
  "uart_rx_iteration env s bytes = flush_pending_controller_leds env 4 (foldl (parse_rx_byte env) s bytes)"

text \<open>The statics after \<open>control_link_init\<close>, given the runtime state the application set up.\<close>

definition control_link_init :: "bool \<Rightarrow> bool \<Rightarrow> profile_runtime \<Rightarrow> s3_link" where
  "control_link_init activate_cb state_cb rt =
     \<lparr>sl_tx = control_link_tx_serializer_init, sl_write_fail = 0, sl_led = controller_led_reconciler_reset,
      sl_rx = rx_demux_zero, sl_xfer = cp_xfer_rx_init False 0, sl_buf_set = False, sl_mem = [],
      sl_stored = False, sl_len = 0, sl_vid = 0, sl_pid = 0, sl_epoch = 0, sl_activate_cb = activate_cb,
      sl_state_cb = state_cb, sl_runtime = rt, sl_wire = [], sl_midi = [], sl_calls = []\<rparr>"

section \<open>Frames and state\<close>

text \<open>Sending touches only the transmitter's own fields.\<close>

lemma tx_send_keeps [simp]:
  "sl_led (fst (tx_send env s cap build)) = sl_led s"
  "sl_rx (fst (tx_send env s cap build)) = sl_rx s"
  "sl_xfer (fst (tx_send env s cap build)) = sl_xfer s"
  "sl_buf_set (fst (tx_send env s cap build)) = sl_buf_set s"
  "sl_mem (fst (tx_send env s cap build)) = sl_mem s"
  "sl_stored (fst (tx_send env s cap build)) = sl_stored s"
  "sl_len (fst (tx_send env s cap build)) = sl_len s"
  "sl_vid (fst (tx_send env s cap build)) = sl_vid s"
  "sl_pid (fst (tx_send env s cap build)) = sl_pid s"
  "sl_epoch (fst (tx_send env s cap build)) = sl_epoch s"
  "sl_activate_cb (fst (tx_send env s cap build)) = sl_activate_cb s"
  "sl_state_cb (fst (tx_send env s cap build)) = sl_state_cb s"
  "sl_runtime (fst (tx_send env s cap build)) = sl_runtime s"
  "sl_midi (fst (tx_send env s cap build)) = sl_midi s"
  "sl_calls (fst (tx_send env s cap build)) = sl_calls s"
  by (simp_all add: tx_send_def Let_def split: prod.splits)

lemma reply_ack_keeps [simp]:
  "sl_led (send_profile_reply_ack env s ty) = sl_led s"
  "sl_rx (send_profile_reply_ack env s ty) = sl_rx s"
  "sl_xfer (send_profile_reply_ack env s ty) = sl_xfer s"
  "sl_buf_set (send_profile_reply_ack env s ty) = sl_buf_set s"
  "sl_mem (send_profile_reply_ack env s ty) = sl_mem s"
  "sl_stored (send_profile_reply_ack env s ty) = sl_stored s"
  "sl_len (send_profile_reply_ack env s ty) = sl_len s"
  "sl_vid (send_profile_reply_ack env s ty) = sl_vid s"
  "sl_pid (send_profile_reply_ack env s ty) = sl_pid s"
  "sl_epoch (send_profile_reply_ack env s ty) = sl_epoch s"
  "sl_activate_cb (send_profile_reply_ack env s ty) = sl_activate_cb s"
  "sl_state_cb (send_profile_reply_ack env s ty) = sl_state_cb s"
  "sl_runtime (send_profile_reply_ack env s ty) = sl_runtime s"
  "sl_midi (send_profile_reply_ack env s ty) = sl_midi s"
  "sl_calls (send_profile_reply_ack env s ty) = sl_calls s"
  by (simp_all add: send_profile_reply_ack_def)

lemma reply_nack_keeps [simp]:
  "sl_led (send_profile_reply_nack env s ty reason) = sl_led s"
  "sl_rx (send_profile_reply_nack env s ty reason) = sl_rx s"
  "sl_xfer (send_profile_reply_nack env s ty reason) = sl_xfer s"
  "sl_buf_set (send_profile_reply_nack env s ty reason) = sl_buf_set s"
  "sl_mem (send_profile_reply_nack env s ty reason) = sl_mem s"
  "sl_stored (send_profile_reply_nack env s ty reason) = sl_stored s"
  "sl_len (send_profile_reply_nack env s ty reason) = sl_len s"
  "sl_vid (send_profile_reply_nack env s ty reason) = sl_vid s"
  "sl_pid (send_profile_reply_nack env s ty reason) = sl_pid s"
  "sl_epoch (send_profile_reply_nack env s ty reason) = sl_epoch s"
  "sl_activate_cb (send_profile_reply_nack env s ty reason) = sl_activate_cb s"
  "sl_state_cb (send_profile_reply_nack env s ty reason) = sl_state_cb s"
  "sl_runtime (send_profile_reply_nack env s ty reason) = sl_runtime s"
  "sl_midi (send_profile_reply_nack env s ty reason) = sl_midi s"
  "sl_calls (send_profile_reply_nack env s ty reason) = sl_calls s"
  by (simp_all add: send_profile_reply_nack_def)

lemma flush_one_shape: "\<exists>b m. flush_one env s item =
    s\<lparr>sl_midi := m, sl_led := controller_led_reconciler_complete (sl_led s) item b\<rparr>"
proof -
  obtain packet drop where b: "build_controller_led_packet env s (item_id item) (item_deck item) (item_state item) = (packet, drop)"
    by fastforce
  show ?thesis
  proof (cases packet)
    case None
    then have "flush_one env s item = s\<lparr>sl_midi := sl_midi s, sl_led := controller_led_reconciler_complete (sl_led s) item drop\<rparr>"
      using b by (simp add: flush_one_def)
    then show ?thesis by blast
  next
    case (Some p)
    then have "flush_one env s item = s\<lparr>sl_midi := sl_midi s @ [p],
        sl_led := controller_led_reconciler_complete (sl_led s) item (env_send_packet env (sl_midi s) p)\<rparr>"
      using b by (simp add: flush_one_def flx4_midi_host_send_packet_def)
    then show ?thesis by blast
  qed
qed

lemma flush_shape: "\<exists>r m. flush_pending_controller_leds env n s = s\<lparr>sl_led := r, sl_midi := m\<rparr>"
proof (induction n arbitrary: s)
  case 0
  have "s = s\<lparr>sl_led := sl_led s, sl_midi := sl_midi s\<rparr>" by simp
  then show ?case by (metis flush_pending_controller_leds.simps(1))
next
  case (Suc n)
  obtain r nx where nx: "controller_led_reconciler_next (sl_led s) = (r, nx)" by fastforce
  show ?case
  proof (cases nx)
    case None
    then have "flush_pending_controller_leds env (Suc n) s = s\<lparr>sl_led := r, sl_midi := sl_midi s\<rparr>"
      using nx by simp
    then show ?thesis by blast
  next
    case (Some item)
    obtain b m where one: "flush_one env (s\<lparr>sl_led := r\<rparr>) item =
        s\<lparr>sl_midi := m, sl_led := controller_led_reconciler_complete r item b\<rparr>"
      using flush_one_shape [of env "s\<lparr>sl_led := r\<rparr>" item] by auto
    obtain r' m' where "flush_pending_controller_leds env n (flush_one env (s\<lparr>sl_led := r\<rparr>) item) =
        (flush_one env (s\<lparr>sl_led := r\<rparr>) item)\<lparr>sl_led := r', sl_midi := m'\<rparr>"
      using Suc by blast
    with one nx Some have "flush_pending_controller_leds env (Suc n) s = s\<lparr>sl_led := r', sl_midi := m'\<rparr>" by simp
    then show ?thesis by blast
  qed
qed

lemma p4_frame_cases:
  obtains (same) "handle_p4_frame env s f = s"
    | (vu) x where "handle_p4_frame env s f = s\<lparr>sl_midi := x\<rparr>"
    | (led) "handle_p4_frame env s f = flush_pending_controller_leds env 1
              (s\<lparr>sl_led := fst (controller_led_reconciler_observe (sl_led s) (f ! 2) (f ! 4) (f ! 3))\<rparr>)"
    | (call) x where "handle_p4_frame env s f = s\<lparr>sl_calls := x\<rparr>"
proof (cases "f ! 1 = CTRL_TYPE_LED")
  case True
  show ?thesis
  proof (cases "f ! 4 = CTRL_DECK_1 \<or> f ! 4 = CTRL_DECK_2")
    case deck: True
    show ?thesis
    proof (cases "f ! 2 = LED_VU_METER")
      case vu_led: True
      obtain pk dr where b: "build_controller_led_packet env s LED_VU_METER (f ! 4) (f ! 3) = (pk, dr)" by fastforce
      show ?thesis
      proof (cases pk)
        case None
        then have "handle_p4_frame env s f = s"
          using True deck vu_led b unfolding handle_p4_frame_def Let_def by simp
        then show ?thesis by (rule same)
      next
        case (Some p)
        then have "handle_p4_frame env s f = s\<lparr>sl_midi := sl_midi s @ [p]\<rparr>"
          using True deck vu_led b unfolding handle_p4_frame_def Let_def by (simp add: flx4_midi_host_send_packet_def)
        then show ?thesis by (rule vu)
      qed
    next
      case other: False
      obtain r ok where o: "controller_led_reconciler_observe (sl_led s) (f ! 2) (f ! 4) (f ! 3) = (r, ok)" by fastforce
      have "handle_p4_frame env s f = (if ok then flush_pending_controller_leds env 1 (s\<lparr>sl_led := r\<rparr>) else s)"
        unfolding handle_p4_frame_def Let_def o using True deck other by auto
      with same led o show ?thesis by (cases ok) auto
    qed
  next
    case False
    then show ?thesis using True by (intro same) (simp add: handle_p4_frame_def)
  qed
next
  case False
  then show ?thesis
    by (cases "f ! 1 = CTRL_TYPE_STATE"; cases "f ! 2 = CTRL_ID_S3_DEBUG_AP"; cases "sl_state_cb s")
       (auto simp: handle_p4_frame_def Let_def intro: same call)
qed

lemma p4_frame_shape: "\<exists>r m c. handle_p4_frame env s f = s\<lparr>sl_led := r, sl_midi := m, sl_calls := c\<rparr>"
proof (cases rule: p4_frame_cases [of env s f])
  case same
  then show ?thesis
    by (intro exI [of _ "sl_led s"] exI [of _ "sl_midi s"] exI [of _ "sl_calls s"]) simp
next
  case (vu x)
  then show ?thesis by (intro exI [of _ "sl_led s"] exI [of _ x] exI [of _ "sl_calls s"]) simp
next
  case led
  obtain r m where "handle_p4_frame env s f = s\<lparr>sl_led := r, sl_midi := m\<rparr>"
    unfolding led using flush_shape [of env 1 "s\<lparr>sl_led := x\<rparr>" for x] by fastforce
  then show ?thesis by (intro exI [of _ r] exI [of _ m] exI [of _ "sl_calls s"]) simp
next
  case (call x)
  then show ?thesis by (intro exI [of _ "sl_led s"] exI [of _ "sl_midi s"] exI [of _ x]) simp
qed

text \<open>LED and state frames never touch the profile transfer.\<close>

lemma p4_frame_keeps [simp]:
  "sl_rx (handle_p4_frame env s f) = sl_rx s"
  "sl_xfer (handle_p4_frame env s f) = sl_xfer s"
  "sl_buf_set (handle_p4_frame env s f) = sl_buf_set s"
  "sl_mem (handle_p4_frame env s f) = sl_mem s"
  "sl_stored (handle_p4_frame env s f) = sl_stored s"
  "sl_len (handle_p4_frame env s f) = sl_len s"
  "sl_vid (handle_p4_frame env s f) = sl_vid s"
  "sl_pid (handle_p4_frame env s f) = sl_pid s"
  "sl_epoch (handle_p4_frame env s f) = sl_epoch s"
  "sl_activate_cb (handle_p4_frame env s f) = sl_activate_cb s"
  "sl_state_cb (handle_p4_frame env s f) = sl_state_cb s"
  "sl_runtime (handle_p4_frame env s f) = sl_runtime s"
  using p4_frame_shape [of env s f] by auto

lemma led_inv_flush: "led_inv (sl_led s) \<Longrightarrow> led_inv (sl_led (flush_pending_controller_leds env n s))"
proof (induction n arbitrary: s)
  case (Suc n)
  obtain r nx where nx: "controller_led_reconciler_next (sl_led s) = (r, nx)" by fastforce
  then have r: "led_inv r" using led_inv_next [OF Suc.prems] by simp
  show ?case
  proof (cases nx)
    case (Some item)
    have "led_inv (sl_led (flush_one env (s\<lparr>sl_led := r\<rparr>) item))"
      using flush_one_shape [of env "s\<lparr>sl_led := r\<rparr>" item] led_inv_complete [OF r] by auto
    with Suc.IH nx Some show ?thesis by simp
  qed (use nx r in simp)
qed simp

lemma led_inv_p4_frame:
  assumes "led_inv (sl_led s)"
  shows "led_inv (sl_led (handle_p4_frame env s f))"
proof (cases rule: p4_frame_cases [of env s f])
  case led
  show ?thesis
    unfolding led by (rule led_inv_flush) (use led_inv_observe [OF assms] in simp)
qed (use assms in simp_all)

section \<open>Invariant of the transfer\<close>

text \<open>
  \<open>transfer_ok s got\<close>: the receiver's invariant holds with \<open>got\<close> the bytes accepted since the last
  \<open>BEGIN\<close>, the buffer is the 16 KiB allocation whenever the receiver uses it, and a profile marked as stored
  is exactly those bytes with the checksum that \<open>BEGIN\<close> announced.
\<close>

definition transfer_ok :: "s3_link \<Rightarrow> u8 list \<Rightarrow> bool" where
  "transfer_ok s got \<longleftrightarrow> rx_inv (sl_xfer s) (sl_mem s) got \<and>
     (rx_has_buf (sl_xfer s) \<longrightarrow> sl_buf_set s \<and> rx_cap (sl_xfer s) = S3_PROFILE_BUF_CAP) \<and>
     (sl_buf_set s \<longrightarrow> length (sl_mem s) = S3_PROFILE_BUF_CAP) \<and>
     (sl_stored s \<longrightarrow> rx_state (sl_xfer s) = CTRL_PROFILE_STATE_STORED \<and> sl_len s = unat (rx_total (sl_xfer s)) \<and>
        sl_vid s = rx_vid (sl_xfer s) \<and> sl_pid s = rx_pid (sl_xfer s))"

definition s3_inv :: "s3_link \<Rightarrow> bool" where
  "s3_inv s \<longleftrightarrow> (\<exists>got. transfer_ok s got) \<and> rx_demux_inv (sl_rx s) \<and> led_inv (sl_led s) \<and> active_ok (sl_runtime s)"

lemma transfer_ok_cong:
  "sl_xfer s' = sl_xfer s \<Longrightarrow> sl_mem s' = sl_mem s \<Longrightarrow> sl_buf_set s' = sl_buf_set s \<Longrightarrow> sl_stored s' = sl_stored s \<Longrightarrow>
   sl_len s' = sl_len s \<Longrightarrow> sl_vid s' = sl_vid s \<Longrightarrow> sl_pid s' = sl_pid s \<Longrightarrow> transfer_ok s' got = transfer_ok s got"
  by (simp add: transfer_ok_def)

lemma transfer_ok_replies [simp]:
  "transfer_ok (send_profile_reply_ack env s ty) got = transfer_ok s got"
  "transfer_ok (send_profile_reply_nack env s ty reason) got = transfer_ok s got"
  by (rule transfer_ok_cong; simp)+

lemma decode_chunk_length:
  assumes "ctrl_bulk_decode_profile_chunk frame n = Some (offset, data)"
  shows "length data < 256"
proof -
  have "length data \<le> unat (frame ! 3)"
    using assms by (auto simp: ctrl_bulk_decode_profile_chunk_def Let_def split: if_splits)
  also have "\<dots> < 256" using unsigned_less [of "frame ! 3"] by simp
  finally show ?thesis .
qed

lemma transfer_ok_begin:
  assumes "transfer_ok s got"
  shows "\<exists>got'. transfer_ok (handle_profile_begin env s frame n) got'"
proof (cases "ctrl_bulk_decode_profile_begin frame n")
  case None
  then show ?thesis using assms by (auto simp: handle_profile_begin_def)
next
  case (Some q)
  obtain tot crc vid pid where q: "q = (tot, crc, vid, pid)" by (cases q)
  show ?thesis
  proof (cases "\<exists>c. env_conn env = Some c \<and> conn_vid c = vid \<and> conn_pid c = pid \<and> (sl_buf_set s \<or> env_malloc env \<noteq> None)")
    case False
    then have "\<exists>reason. handle_profile_begin env s frame n = send_profile_reply_nack env s CTRL_BULK_TYPE_PROFILE_BEGIN reason"
      using Some q by (auto simp: handle_profile_begin_def split: option.splits)
    then show ?thesis using assms by auto
  next
    case True
    then obtain c where c: "env_conn env = Some c" "conn_vid c = vid" "conn_pid c = pid" "sl_buf_set s \<or> env_malloc env \<noteq> None"
      by auto
    let ?s1 = "if sl_buf_set s then s else s\<lparr>sl_buf_set := True, sl_mem := map (the (env_malloc env)) [0..<16384]\<rparr>"
    have s1: "sl_buf_set ?s1" "length (sl_mem ?s1) = 16384" using assms by (auto simp: transfer_ok_def)
    obtain rx reason where b: "cp_xfer_rx_begin (cp_xfer_rx_init True 16384) tot crc vid pid = (rx, reason)" by fastforce
    have "rx_inv (cp_xfer_rx_init True 16384) (sl_mem ?s1) []" using s1 by (intro rx_inv_init) simp
    from rx_inv_begin [OF this b] have inv: "rx_inv rx (sl_mem ?s1) []" by (simp split: if_splits)
    have "transfer_ok (?s1\<lparr>sl_stored := False, sl_xfer := rx\<rparr>) []"
      using inv s1 b by (auto simp: transfer_ok_def cp_xfer_rx_begin_def cp_xfer_rx_init_def split: if_splits)
    then have "transfer_ok (?s1\<lparr>sl_stored := False, sl_xfer := rx, sl_epoch := e\<rparr>) []" for e
      by (subst transfer_ok_cong) simp_all
    with \<open>transfer_ok (?s1\<lparr>sl_stored := False, sl_xfer := rx\<rparr>) []\<close> have
      "transfer_ok (handle_profile_begin env s frame n) []"
      unfolding handle_profile_begin_def Some q option.case prod.case c(1) Let_def
      using c(2-4) b s1(1) by (auto split: if_splits)
    then show ?thesis by blast
  qed
qed

text \<open>
  A chunk frame extends the received bytes by its data or leaves them unchanged; in either case every
  write stays inside the buffer.
\<close>

lemma transfer_ok_chunk:
  assumes "transfer_ok s got"
  shows "\<exists>got'. transfer_ok (handle_profile_chunk env s frame n) got'"
proof (cases "ctrl_bulk_decode_profile_chunk frame n")
  case None
  then show ?thesis using assms by (auto simp: handle_profile_chunk_def)
next
  case (Some q)
  obtain offset data where q: "q = (offset, data)" by (cases q)
  obtain rx mem reason where c: "cp_xfer_rx_chunk (sl_xfer s) (sl_mem s) offset data = (rx, mem, reason)"
    using prod_cases3 by blast
  have len: "length data < 2 ^ 31" using decode_chunk_length [of frame n offset data] Some q by simp
  have inv: "rx_inv (sl_xfer s) (sl_mem s) got" using assms by (simp add: transfer_ok_def)
  let ?got = "if reason = CTRL_PROFILE_NACK_NONE then got @ data else got"
  have r: "rx_inv rx mem ?got" "length mem = length (sl_mem s)"
    using rx_inv_chunk [OF inv c len] c by (auto simp: cp_xfer_rx_chunk_def split: if_splits)
  have "rx_state (sl_xfer s) = CTRL_PROFILE_STATE_STORED \<Longrightarrow> rx = sl_xfer s" "rx_has_buf rx = rx_has_buf (sl_xfer s)"
      "rx_cap rx = rx_cap (sl_xfer s)"
    using c by (auto simp: cp_xfer_rx_chunk_def split: if_splits)
  with r assms have "transfer_ok (s\<lparr>sl_xfer := rx, sl_mem := mem\<rparr>) ?got"
    by (auto simp: transfer_ok_def)
  then show ?thesis
    using Some q c by (auto simp: handle_profile_chunk_def Let_def)
qed

lemma transfer_ok_end:
  assumes "transfer_ok s got"
  shows "transfer_ok (handle_profile_end env s) got"
proof -
  obtain rx reason where e: "cp_xfer_rx_end (sl_xfer s) (sl_mem s) = (rx, reason)" by fastforce
  have inv: "rx_inv (sl_xfer s) (sl_mem s) got" using assms by (simp add: transfer_ok_def)
  note r = rx_inv_end [OF inv e]
  have keep: "rx_has_buf rx = rx_has_buf (sl_xfer s)" "rx_cap rx = rx_cap (sl_xfer s)" "rx_total rx = rx_total (sl_xfer s)"
      "rx_vid rx = rx_vid (sl_xfer s)" "rx_pid rx = rx_pid (sl_xfer s)"
      "rx_state (sl_xfer s) = CTRL_PROFILE_STATE_STORED \<Longrightarrow> rx = sl_xfer s"
    using e by (auto simp: cp_xfer_rx_end_def split: if_splits)
  show ?thesis
  proof (cases "reason = CTRL_PROFILE_NACK_NONE")
    case True
    with r keep assms show ?thesis by (simp add: handle_profile_end_def e transfer_ok_def)
  next
    case False
    with r keep assms show ?thesis by (auto simp: handle_profile_end_def e transfer_ok_def)
  qed
qed

lemma transfer_ok_activate:
  "transfer_ok s got \<Longrightarrow> transfer_ok (handle_profile_activate env s) got"
  by (auto simp: handle_profile_activate_def Let_def transfer_ok_def split: prod.split)

lemma transfer_ok_clear:
  assumes "transfer_ok s got"
  shows "transfer_ok (handle_profile_clear env s) []"
proof -
  have "rx_inv (cp_xfer_rx_init (sl_buf_set s) 16384) (sl_mem s) []"
    using assms by (intro rx_inv_init) (simp add: transfer_ok_def)
  with assms show ?thesis
    by (auto simp: handle_profile_clear_def Let_def transfer_ok_def cp_xfer_rx_init_def)
qed

lemma begin_keeps [simp]:
  "sl_rx (handle_profile_begin env s f n) = sl_rx s"
  "sl_led (handle_profile_begin env s f n) = sl_led s"
  "sl_runtime (handle_profile_begin env s f n) = sl_runtime s"
  "sl_activate_cb (handle_profile_begin env s f n) = sl_activate_cb s"
  by (auto simp: handle_profile_begin_def Let_def split: option.split prod.split)

lemma chunk_keeps [simp]:
  "sl_rx (handle_profile_chunk env s f n) = sl_rx s"
  "sl_led (handle_profile_chunk env s f n) = sl_led s"
  "sl_runtime (handle_profile_chunk env s f n) = sl_runtime s"
  "sl_epoch (handle_profile_chunk env s f n) = sl_epoch s"
  "sl_activate_cb (handle_profile_chunk env s f n) = sl_activate_cb s"
  "sl_stored (handle_profile_chunk env s f n) = sl_stored s"
  by (auto simp: handle_profile_chunk_def Let_def split: option.split prod.split)

lemma end_keeps [simp]:
  "sl_rx (handle_profile_end env s) = sl_rx s"
  "sl_led (handle_profile_end env s) = sl_led s"
  "sl_runtime (handle_profile_end env s) = sl_runtime s"
  "sl_epoch (handle_profile_end env s) = sl_epoch s"
  "sl_mem (handle_profile_end env s) = sl_mem s"
  "sl_buf_set (handle_profile_end env s) = sl_buf_set s"
  "sl_activate_cb (handle_profile_end env s) = sl_activate_cb s"
  by (auto simp: handle_profile_end_def Let_def split: prod.split)

lemma activate_keeps [simp]:
  "sl_rx (handle_profile_activate env s) = sl_rx s"
  by (auto simp: handle_profile_activate_def Let_def split: prod.split)

lemma clear_keeps [simp]:
  "sl_rx (handle_profile_clear env s) = sl_rx s"
  "sl_led (handle_profile_clear env s) = controller_led_reconciler_mark_all_dirty (sl_led s)"
  by (auto simp: handle_profile_clear_def Let_def)

lemma profile_frame_rx [simp]: "sl_rx (handle_profile_frame env s f n) = sl_rx s"
  by (simp add: handle_profile_frame_def Let_def)

lemma active_ok_cb:
  "active_ok rt \<Longrightarrow> active_ok (fst (flx4_profile_activate_cb env rt blob vid pid epoch))"
  using active_ok_clear [of rt] active_ok_activate [of rt]
  by (auto simp: flx4_profile_activate_cb_def split: option.split)

lemma runtime_activate:
  "active_ok (sl_runtime s) \<Longrightarrow> active_ok (sl_runtime (handle_profile_activate env s))"
  using active_ok_cb [of "sl_runtime s" env]
  by (auto simp: handle_profile_activate_def Let_def split: prod.split) (metis fst_conv)+

lemma runtime_clear:
  "active_ok (sl_runtime s) \<Longrightarrow> active_ok (sl_runtime (handle_profile_clear env s))"
  using active_ok_cb [of "sl_runtime s" env]
  by (auto simp: handle_profile_clear_def Let_def)

lemma led_activate: "led_inv (sl_led s) \<Longrightarrow> led_inv (sl_led (handle_profile_activate env s))"
  using led_inv_mark [of "sl_led s"]
  by (auto simp: handle_profile_activate_def Let_def split: prod.split)

lemma s3_inv_profile_frame:
  assumes "s3_inv s"
  shows "s3_inv (handle_profile_frame env s f n)"
proof -
  obtain got where g: "transfer_ok s got" using assms by (auto simp: s3_inv_def)
  have i: "rx_demux_inv (sl_rx s)" "led_inv (sl_led s)" "active_ok (sl_runtime s)" using assms by (auto simp: s3_inv_def)
  have "\<exists>got'. transfer_ok (handle_profile_frame env s f n) got'"
    using transfer_ok_begin [OF g, of env f n] transfer_ok_chunk [OF g, of env f n] transfer_ok_end [OF g, of env]
      transfer_ok_activate [OF g, of env] transfer_ok_clear [OF g, of env] g
    by (auto simp: handle_profile_frame_def Let_def)
  moreover have "led_inv (sl_led (handle_profile_frame env s f n))"
    using i(2) led_activate [OF i(2)] led_inv_mark [OF i(2)] by (simp add: handle_profile_frame_def Let_def)
  moreover have "active_ok (sl_runtime (handle_profile_frame env s f n))"
    using i(3) runtime_activate [OF i(3)] runtime_clear [OF i(3)] by (simp add: handle_profile_frame_def Let_def)
  ultimately show ?thesis using i(1) by (simp add: s3_inv_def)
qed

lemma s3_inv_p4_frame:
  assumes "s3_inv s"
  shows "s3_inv (handle_p4_frame env s f)"
proof -
  have "transfer_ok (handle_p4_frame env s f) got = transfer_ok s got" for got
    by (rule transfer_ok_cong) simp_all
  then show ?thesis using assms led_inv_p4_frame by (auto simp: s3_inv_def)
qed

lemma s3_inv_rx_update:
  "s3_inv s \<Longrightarrow> rx_demux_inv d \<Longrightarrow> s3_inv (s\<lparr>sl_rx := d\<rparr>)"
  by (simp add: s3_inv_def transfer_ok_def)

lemma s3_inv_byte:
  assumes "s3_inv s"
  shows "s3_inv (parse_rx_byte env s b)"
proof -
  obtain d r where e: "rx_step (sl_rx s) b = (d, r)" by fastforce
  have "rx_demux_inv d" using rx_demux_inv_step [of "sl_rx s" b] assms e by (simp add: s3_inv_def)
  then have "s3_inv (s\<lparr>sl_rx := d\<rparr>)" using assms s3_inv_rx_update by blast
  then show ?thesis
    using s3_inv_p4_frame s3_inv_profile_frame
    by (auto simp: parse_rx_byte_def e Let_def split: option.split rx_report.split)
qed

lemma s3_inv_bytes: "s3_inv s \<Longrightarrow> s3_inv (foldl (parse_rx_byte env) s bs)"
  by (induction bs arbitrary: s) (auto intro: s3_inv_byte)

lemma s3_inv_init: "active_ok rt \<Longrightarrow> s3_inv (control_link_init acb scb rt)"
  by (auto simp: s3_inv_def control_link_init_def transfer_ok_def rx_demux_inv_zero led_inv_reset
      cp_xfer_rx_init_def rx_inv_def intro!: exI [of _ "[]"])

section \<open>Activation\<close>

lemma activate_runtime:
  assumes "sl_runtime (handle_profile_activate env s) \<noteq> sl_runtime s" "s_active (sl_runtime (handle_profile_activate env s))"
  obtains c p where "sl_stored s" "sl_buf_set s" "env_conn env = Some c"
    "cp_profile_parse (take (sl_len s) (sl_mem s)) = Inr p" "s_profile (sl_runtime (handle_profile_activate env s)) = p"
    "cp_vid p = conn_vid c" "cp_pid p = conn_pid c" "sl_epoch s = conn_epoch c"
    "controller_profile_runtime_bound_to (sl_runtime (handle_profile_activate env s)) (conn_vid c) (conn_pid c) (conn_epoch c)"
proof -
  let ?blob = "if sl_buf_set s then Some (take (sl_len s) (sl_mem s)) else None"
  let ?r = "flx4_profile_activate_cb env (sl_runtime s) ?blob (sl_vid s) (sl_pid s) (sl_epoch s)"
  have st: "sl_stored s" and cb: "sl_activate_cb s" and rt: "sl_runtime (handle_profile_activate env s) = fst ?r"
    using assms(1) by (auto simp: handle_profile_activate_def Let_def split: if_splits prod.splits)
  have na: "\<not> s_active (controller_profile_runtime_clear (sl_runtime s))" by (simp add: controller_profile_runtime_clear_def)
  have ch: "fst ?r \<noteq> sl_runtime s" "s_active (fst ?r)" using assms rt by simp_all
  have buf: "sl_buf_set s" using ch na by (auto simp: flx4_profile_activate_cb_def split: if_splits)
  define d0 where "d0 = take (sl_len s) (sl_mem s)"
  have r: "?r = flx4_profile_activate_cb env (sl_runtime s) (Some d0) (sl_vid s) (sl_pid s) (sl_epoch s)"
    using buf by (simp add: d0_def)
  have d: "length d0 \<noteq> 0" using ch na unfolding r by (auto simp: flx4_profile_activate_cb_def split: if_splits)
  then obtain c where c: "env_conn env = Some c" "conn_vid c = sl_vid s" "conn_pid c = sl_pid s" "conn_epoch c = sl_epoch s"
      "fst ?r = fst (controller_profile_runtime_activate (sl_runtime s) (Some d0) (sl_vid s) (sl_pid s) (sl_epoch s))"
    using ch(1) unfolding r by (auto simp: flx4_profile_activate_cb_def split: option.splits if_splits)
  then obtain p where p: "cp_profile_parse d0 = Inr p" "cp_vid p = sl_vid s" "cp_pid p = sl_pid s" "sl_epoch s \<noteq> 0"
      "fst ?r = (sl_runtime s)\<lparr>s_profile := p, s_runtime := cp_runtime_init, s_bound_vid := sl_vid s,
                        s_bound_pid := sl_pid s, s_bound_epoch := sl_epoch s, s_active := True\<rparr>"
    using ch(1) d unfolding controller_profile_runtime_activate_def by (auto split: sum.splits if_splits)
  show thesis
    by (rule that [OF st buf c(1) p(1) [unfolded d0_def]]) (use rt p c in \<open>simp_all add: controller_profile_runtime_bound_to_def\<close>)
qed

lemma frame_runtime:
  "sl_runtime (handle_profile_frame env s f n) =
     (if f ! 1 = CTRL_BULK_TYPE_PROFILE_ACTIVATE then sl_runtime (handle_profile_activate env s)
      else if f ! 1 = CTRL_BULK_TYPE_PROFILE_CLEAR then sl_runtime (handle_profile_clear env s)
      else sl_runtime s)"
  by (simp add: handle_profile_frame_def Let_def)

lemma clear_runtime:
  "sl_runtime (handle_profile_clear env s) =
     (if sl_activate_cb s then controller_profile_runtime_clear (sl_runtime s) else sl_runtime s)"
  by (simp add: handle_profile_clear_def flx4_profile_activate_cb_def Let_def)

lemma byte_cases:
  obtains (idle) "parse_rx_byte env s b = s\<lparr>sl_rx := fst (rx_step (sl_rx s) b)\<rparr>"
  | (fixed) f where "parse_rx_byte env s b = handle_p4_frame env (s\<lparr>sl_rx := fst (rx_step (sl_rx s) b)\<rparr>) f"
  | (bulk) f n where "parse_rx_byte env s b = handle_profile_frame env (s\<lparr>sl_rx := fst (rx_step (sl_rx s) b)\<rparr>) f n"
proof -
  obtain d r where r: "rx_step (sl_rx s) b = (d, r)" by fastforce
  show thesis
  proof (cases r)
    case None
    then show ?thesis using idle r by (simp add: parse_rx_byte_def)
  next
    case (Some x)
    then show ?thesis using idle fixed bulk r by (cases x) (auto simp: parse_rx_byte_def)
  qed
qed

section \<open>Properties\<close>

text \<open>
  Claim C11.  Whatever bytes arrive and however the UART, the heap and the USB host behave in between, the S3 only ever
  holds verified profiles: a stored profile fits the 16 KiB buffer and has the checksum announced for it, and
  an active one has passed the parser, is well formed and is bound to a vendor, product and nonzero connection epoch.
\<close>

theorem s3_holds_only_verified_profiles:
  "let s = foldl (\<lambda>s (env, b). parse_rx_byte env s b)
             (control_link_init acb scb (controller_profile_runtime_init rt)) trace
   in (case control_link_get_stored_profile s of
         None \<Rightarrow> True
       | Some (blob, vid, pid) \<Rightarrow> 0 < length blob \<and> length blob \<le> 16384 \<and> cp_xfer_crc32 blob = rx_crc (sl_xfer s) \<and>
           vid = rx_vid (sl_xfer s) \<and> pid = rx_pid (sl_xfer s)) \<and>
      (if controller_profile_runtime_active (sl_runtime s)
       then profile_ok (s_profile (sl_runtime s)) \<and> runtime_ok (s_runtime (sl_runtime s)) \<and>
            controller_profile_runtime_bound_to (sl_runtime s) (cp_vid (s_profile (sl_runtime s)))
              (cp_pid (s_profile (sl_runtime s))) (s_bound_epoch (sl_runtime s))
       else True)"
proof -
  have run: "s3_inv s \<Longrightarrow> s3_inv (foldl (\<lambda>s (env, b). parse_rx_byte env s b) s trace)" for s
    by (induction trace arbitrary: s) (auto simp: s3_inv_byte)
  define s where "s = foldl (\<lambda>s (env, b). parse_rx_byte env s b)
             (control_link_init acb scb (controller_profile_runtime_init rt)) trace"
  have inv: "s3_inv s" unfolding s_def by (rule run [OF s3_inv_init [OF active_ok_init]])
  then obtain got where t: "transfer_ok s got" by (auto simp: s3_inv_def)
  have stored: "case control_link_get_stored_profile s of
         None \<Rightarrow> True
       | Some (blob, vid, pid) \<Rightarrow> 0 < length blob \<and> length blob \<le> 16384 \<and> cp_xfer_crc32 blob = rx_crc (sl_xfer s) \<and>
           vid = rx_vid (sl_xfer s) \<and> pid = rx_pid (sl_xfer s)"
  proof (cases "sl_stored s")
    case True
    then have "take (sl_len s) (sl_mem s) = got" "0 < length got" "length got \<le> 16384" "cp_xfer_crc32 got = rx_crc (sl_xfer s)"
      using t by (auto simp: transfer_ok_def rx_inv_def unat_gt_0)
    then show ?thesis using True t by (simp add: control_link_get_stored_profile_def transfer_ok_def)
  qed (simp add: control_link_get_stored_profile_def)
  have "active_ok (sl_runtime s)" using inv by (simp add: s3_inv_def)
  then show ?thesis
    using stored unfolding s_def [symmetric]
    by (simp add: Let_def active_ok_def controller_profile_runtime_active_def controller_profile_runtime_bound_to_def)
qed

text \<open>
  Claim C12.  Activation is atomic and never for the wrong controller: a received byte that changes the runtime to an
  active profile completes an activation request for a stored transfer, the stored bytes parse to that profile, and
  its vendor, product and the epoch of the transfer are those of the controller connected at this moment.
\<close>

theorem activation_matches_connection:
  assumes "sl_runtime (parse_rx_byte env s b) \<noteq> sl_runtime s" "s_active (sl_runtime (parse_rx_byte env s b))"
  shows "\<exists>c blob vid pid p. env_conn env = Some c \<and> control_link_get_stored_profile s = Some (blob, vid, pid) \<and>
     cp_profile_parse blob = Inr p \<and> s_profile (sl_runtime (parse_rx_byte env s b)) = p \<and>
     cp_vid p = conn_vid c \<and> cp_pid p = conn_pid c \<and> sl_epoch s = conn_epoch c \<and>
     controller_profile_runtime_bound_to (sl_runtime (parse_rx_byte env s b)) (conn_vid c) (conn_pid c) (conn_epoch c)"
proof (cases rule: byte_cases [of env s b])
  case idle
  then show ?thesis using assms(1) by simp
next
  case (fixed f)
  then show ?thesis using assms(1) by simp
next
  case (bulk f n)
  let ?s = "s\<lparr>sl_rx := fst (rx_step (sl_rx s) b)\<rparr>"
  have na: "\<not> s_active (controller_profile_runtime_clear rt)" for rt by (simp add: controller_profile_runtime_clear_def)
  have r: "sl_runtime (parse_rx_byte env s b) = sl_runtime (handle_profile_activate env ?s)"
    using assms na unfolding bulk frame_runtime clear_runtime by (auto split: if_splits)
  have "sl_runtime (handle_profile_activate env ?s) \<noteq> sl_runtime ?s" "s_active (sl_runtime (handle_profile_activate env ?s))"
    using assms unfolding r by simp_all
  then show ?thesis
    unfolding r by (rule activate_runtime) (auto simp: control_link_get_stored_profile_def)
qed

text \<open>A receiver that has seen all but the last byte of a frame.\<close>

lemma last_byte_completes:
  assumes "bulk_frame f"
  obtains d buf where "snd (rx_step d (last f)) = Some (BulkFrame buf (length f))" "take (length f) buf = f"
proof -
  from bulk_frame_first [OF assms] have len: "2 \<le> length f" by (auto simp: Suc_le_eq)
  then have lt: "length f - 1 < length f" by simp
  obtain bp where bp: "bulk_fed f (length f - 1) bp"
    using bulk_prefix_run [OF assms idle_zero lt] by blast
  obtain bp' where e: "ctrl_bulk_parser_feed bp (last f) = (bp', int (length f))" "take (length f) (bp_buf bp') = f"
    using bulk_fed_last [OF bp assms] by blast
  let ?d = "rx_demux_zero\<lparr>dm_bulk := bp\<rparr>"
  have "0 < bp_pos bp" using bp len by (auto simp: bulk_fed_def)
  then have "snd (rx_step ?d (last f)) = Some (BulkFrame (bp_buf bp') (length f))"
    using e(1) len by (cases f) (simp_all add: rx_step_def rx_demux_zero_def)
  then show thesis using e(2) by (rule that)
qed

abbreviation (input) sample_env :: s3_env where
  "sample_env \<equiv> \<lparr>env_lock = True, env_write = (\<lambda>_ f. int (length f)),
     env_conn = Some \<lparr>conn_vid = 0x2B73, conn_pid = 0x0033, conn_epoch = 4\<rparr>,
     env_malloc = Some (\<lambda>_. 0), env_send_packet = (\<lambda>_ _. True), env_builtin_flx4 = False\<rparr>"

definition sample_stored :: "rx_demux \<Rightarrow> profile_runtime \<Rightarrow> s3_link" where
  "sample_stored d rt = (control_link_init True False (controller_profile_runtime_init rt))
     \<lparr>sl_buf_set := True, sl_mem := sample_profile, sl_stored := True, sl_len := 64,
      sl_vid := 0x2B73, sl_pid := 0x0033, sl_epoch := 4, sl_rx := d\<rparr>"

lemma sample_profile_ids: "length sample_profile = 64" "rd_u16 sample_profile 16 = 0x2B73" "rd_u16 sample_profile 18 = 0x0033"
proof -
  show "length sample_profile = 64" by (simp add: sample_profile_def sample_body_def)
  have "drop 16 sample_profile = wr_u16 0x2B73 @ wr_u16 0x0033 @ drop 4 sample_body"
    "drop 18 sample_profile = wr_u16 0x0033 @ drop 4 sample_body"
    by (simp_all add: sample_profile_def sample_body_def)
  from rd_u16_at [OF this(1)] rd_u16_at [OF this(2)]
  show "rd_u16 sample_profile 16 = 0x2B73" "rd_u16 sample_profile 18 = 0x0033" .
qed

lemma sample_activates:
  "s_active (sl_runtime (handle_profile_activate sample_env (sample_stored d rt)))"
proof -
  obtain p where p: "cp_profile_parse sample_profile = Inr p" using sample_parses by blast
  then have "cp_vid p = 0x2B73" "cp_pid p = 0x0033"
    unfolding cp_profile_parse_iff by (auto simp: sample_profile_ids)
  with p show ?thesis
    by (simp add: handle_profile_activate_def sample_stored_def control_link_init_def flx4_profile_activate_cb_def
        controller_profile_runtime_activate_def sample_profile_ids)
qed

theorem activation_matches_connection_witness:
  "\<exists>env s b c. s_active (sl_runtime (parse_rx_byte env s b)) \<and> \<not> s_active (sl_runtime s) \<and> env_conn env = Some c \<and>
     controller_profile_runtime_bound_to (sl_runtime (parse_rx_byte env s b)) (conn_vid c) (conn_pid c) (conn_epoch c)"
proof -
  obtain f where f: "ctrl_bulk_build_profile_simple CTRL_BULK_MAX_FRAME 9 CTRL_BULK_TYPE_PROFILE_ACTIVATE = Some f"
    by (simp add: ctrl_bulk_build_profile_simple_def)
  then have ty: "f ! 1 = CTRL_BULK_TYPE_PROFILE_ACTIVATE" "length f = 6" by (auto simp: ctrl_bulk_build_profile_simple_def)
  obtain d buf where r: "snd (rx_step d (last f)) = Some (BulkFrame buf (length f))" "take (length f) buf = f"
    by (rule last_byte_completes [OF conjunct1 [OF built_frames(4) [OF f]]])
  have b: "buf ! 1 = CTRL_BULK_TYPE_PROFILE_ACTIVATE" using r(2) ty by (metis nth_take one_less_numeral_iff semiring_norm(76))
  fix rt :: profile_runtime
  let ?s = "sample_stored d rt" and ?d' = "fst (rx_step d (last f))"
  have s: "parse_rx_byte sample_env ?s (last f) = handle_profile_frame sample_env (sample_stored ?d' rt) buf (length f)"
    using r(1) by (simp add: parse_rx_byte_def split_beta sample_stored_def)
  then have act: "s_active (sl_runtime (parse_rx_byte sample_env ?s (last f)))"
    using sample_activates [of ?d' rt] b by (simp add: handle_profile_frame_def)
  have na: "\<not> s_active (sl_runtime ?s)" by (simp add: sample_stored_def control_link_init_def controller_profile_runtime_init_def)
  then have ch: "sl_runtime (parse_rx_byte sample_env ?s (last f)) \<noteq> sl_runtime ?s" using act by auto
  from activation_matches_connection [OF ch act] act na show ?thesis by blast
qed

end
