(* ===== verification/Profile_Manager.thy ===== *)
theory Profile_Manager
  imports Controller_Profile Ctrl_Bulk
begin

text \<open>
  The P4 profile manager (\<open>controller_profile_manager.c\<close>): validation of a profile file, the registry of
  profiles and its view of the connected controller, descriptor handling and the sender that streams a profile
  to the S3.  A \<open>-1\<close> index is an integer here as in C.  File and directory access is in
  \<open>Profile_Storage\<close>; logging is left out.
\<close>

section \<open>Profile metadata\<close>

abbreviation (input) CPM_MAX_PROFILES :: nat where "CPM_MAX_PROFILES \<equiv> 16"
abbreviation (input) CPM_ID_MAX :: nat where "CPM_ID_MAX \<equiv> 40"
abbreviation (input) CPM_MAX_PROFILE_SIZE :: nat where "CPM_MAX_PROFILE_SIZE \<equiv> 16384"
abbreviation (input) CPM_SEND_ATTEMPTS :: nat where "CPM_SEND_ATTEMPTS \<equiv> 3"

record controller_profile_meta =
  meta_id :: string
  meta_vid :: u16
  meta_pid :: u16
  meta_input_count :: u16
  meta_output_count :: u16
  meta_size :: nat
  meta_valid :: bool

fun meta_inputs_ok :: "u8 list \<Rightarrow> u8 \<Rightarrow> nat \<Rightarrow> nat \<Rightarrow> bool" where
  "meta_inputs_ok data slot_count p 0 = True"
| "meta_inputs_ok data slot_count p (Suc n) =
     (let raw = data ! (p + 2); slot = data ! (p + 3) in
      if raw > 7 then False
      else if (raw = 4 \<or> raw = 5 \<or> raw = 7) \<and> (slot = 0xFF \<or> slot \<ge> slot_count) then False
      else meta_inputs_ok data slot_count (p + 16) n)"

fun meta_outputs_ok :: "u8 list \<Rightarrow> nat \<Rightarrow> nat \<Rightarrow> bool" where
  "meta_outputs_ok data p 0 = True"
| "meta_outputs_ok data p (Suc n) = (if data ! (p + 2) > 1 then False else meta_outputs_ok data (p + 12) n)"

text \<open>The format fields of a valid blob, or \<open>None\<close> for \<open>ESP_ERR_INVALID_ARG\<close>.\<close>

definition controller_profile_meta_parse :: "u8 list \<Rightarrow> controller_profile_meta option" where
  "controller_profile_meta_parse data =
     (let len = length data in
      if len < 32 \<or> len > CPM_MAX_PROFILE_SIZE then None
      else if take 4 data \<noteq> CP_MAGIC then None
      else if rd_u16 data 4 \<noteq> 2 \<or> rd_u16 data 6 \<noteq> 32 then None
      else if unat (rd_u32 data 8) \<noteq> len then None
      else if cp_xfer_crc32 (take (len - 16) (drop 16 data)) \<noteq> rd_u32 data 12 then None
      else
        let ic = rd_u16 data 24; oc = rd_u16 data 26; sc = data ! 28 in
        if ic > 320 \<or> oc > 160 \<or> sc > 40 then None
        else if 32 + unat ic * 16 + unat oc * 12 \<noteq> len then None
        else if \<not> meta_inputs_ok data sc 32 (unat ic) then None
        else if \<not> meta_outputs_ok data (32 + unat ic * 16) (unat oc) then None
        else Some \<lparr>meta_id = [], meta_vid = rd_u16 data 16, meta_pid = rd_u16 data 18, meta_input_count = ic,
                   meta_output_count = oc, meta_size = len, meta_valid = True\<rparr>)"

definition id_char_ok :: "char \<Rightarrow> bool" where
  "id_char_ok c \<longleftrightarrow> (let n = (of_char c :: nat) in
     (97 \<le> n \<and> n \<le> 122) \<or> (65 \<le> n \<and> n \<le> 90) \<or> (48 \<le> n \<and> n \<le> 57) \<or> c = CHR ''_'' \<or> c = CHR ''-'')"

definition controller_profile_id_valid :: "string \<Rightarrow> bool" where
  "controller_profile_id_valid pid \<longleftrightarrow> \<not> (length pid = 0 \<or> length pid \<ge> CPM_ID_MAX) \<and> list_all id_char_ok pid"

section \<open>Registry\<close>

datatype controller_profile_transfer_state =
  CPM_TRANSFER_IDLE | CPM_TRANSFER_MATCHED | CPM_TRANSFER_TRANSFERRING | CPM_TRANSFER_ACTIVE
  | CPM_TRANSFER_FAILED | CPM_TRANSFER_UNSUPPORTED

record controller_profile_registry =
  profiles :: "controller_profile_meta list"
  matched_index :: int
  active_index :: int
  transfer_state :: controller_profile_transfer_state
  controller_present :: bool
  connected_vid :: u16
  connected_pid :: u16
  connected_caps :: u16
  connected_epoch :: u32
  connected_product :: string

definition controller_profile_registry_match :: "controller_profile_registry \<Rightarrow> u16 \<Rightarrow> u16 \<Rightarrow> int" where
  "controller_profile_registry_match reg vid pid =
     (case find (\<lambda>i. meta_valid (profiles reg ! i) \<and> meta_vid (profiles reg ! i) = vid \<and> meta_pid (profiles reg ! i) = pid)
             [0..<length (profiles reg)] of
        None \<Rightarrow> -1 | Some i \<Rightarrow> int i)"

definition controller_profile_registry_on_descriptor ::
    "controller_profile_registry \<Rightarrow> u16 \<Rightarrow> u16 \<Rightarrow> controller_profile_registry \<times> int" where
  "controller_profile_registry_on_descriptor reg vid pid =
     (let reg1 = reg\<lparr>controller_present := True, connected_vid := vid, connected_pid := pid\<rparr>;
          idx = controller_profile_registry_match reg1 vid pid;
          reg2 = reg1\<lparr>matched_index := idx\<rparr>
      in if idx \<ge> 0 then
           if active_index reg2 = idx \<and> transfer_state reg2 = CPM_TRANSFER_ACTIVE then (reg2, idx)
           else (reg2\<lparr>active_index := -1, transfer_state := CPM_TRANSFER_MATCHED\<rparr>, idx)
         else (reg2\<lparr>active_index := -1, transfer_state := CPM_TRANSFER_UNSUPPORTED\<rparr>, idx))"

definition controller_profile_registry_on_disconnect ::
    "controller_profile_registry \<Rightarrow> controller_profile_registry \<times> bool" where
  "controller_profile_registry_on_disconnect reg =
     (reg\<lparr>controller_present := False, connected_vid := 0, connected_pid := 0, connected_caps := 0,
          connected_epoch := 0, connected_product := [], matched_index := -1, active_index := -1,
          transfer_state := CPM_TRANSFER_IDLE\<rparr>, controller_present reg)"

definition controller_profile_descriptor_is_fresh ::
    "controller_profile_registry \<Rightarrow> u16 \<Rightarrow> u16 \<Rightarrow> u32 \<Rightarrow> bool" where
  "controller_profile_descriptor_is_fresh reg vid pid epoch \<longleftrightarrow>
     (if epoch = 0 then False
      else if \<not> controller_present reg then True
      else if connected_epoch reg = epoch then connected_vid reg = vid \<and> connected_pid reg = pid
      else sint (epoch - connected_epoch reg) > 0)"

definition controller_profile_registry_apply_rescan ::
    "controller_profile_registry \<Rightarrow> controller_profile_registry \<Rightarrow> controller_profile_registry" where
  "controller_profile_registry_apply_rescan reg scanned =
     (let reg1 = scanned\<lparr>controller_present := controller_present reg, connected_vid := connected_vid reg,
                         connected_pid := connected_pid reg, connected_caps := connected_caps reg,
                         connected_epoch := connected_epoch reg, connected_product := connected_product reg\<rparr>
      in if controller_present reg
         then fst (controller_profile_registry_on_descriptor reg1 (connected_vid reg) (connected_pid reg))
         else reg1)"

definition index_bad :: "controller_profile_registry \<Rightarrow> int \<Rightarrow> bool" where
  "index_bad reg idx \<longleftrightarrow> idx < 0 \<or> idx \<ge> int (length (profiles reg))"

definition controller_profile_registry_mark_transfer_started ::
    "controller_profile_registry \<Rightarrow> int \<Rightarrow> controller_profile_registry" where
  "controller_profile_registry_mark_transfer_started reg idx =
     (if index_bad reg idx then reg
      else reg\<lparr>matched_index := idx, active_index := -1, transfer_state := CPM_TRANSFER_TRANSFERRING\<rparr>)"

definition controller_profile_registry_mark_transfer_active ::
    "controller_profile_registry \<Rightarrow> int \<Rightarrow> controller_profile_registry" where
  "controller_profile_registry_mark_transfer_active reg idx =
     (if index_bad reg idx then reg
      else reg\<lparr>matched_index := idx, active_index := idx, transfer_state := CPM_TRANSFER_ACTIVE\<rparr>)"

definition controller_profile_registry_mark_transfer_failed ::
    "controller_profile_registry \<Rightarrow> int \<Rightarrow> controller_profile_registry" where
  "controller_profile_registry_mark_transfer_failed reg idx =
     (if index_bad reg idx then reg
      else reg\<lparr>matched_index := idx, active_index := -1, transfer_state := CPM_TRANSFER_FAILED\<rparr>)"

section \<open>Manager state\<close>

text \<open>
  The statics of the firmware part.  \<open>cpm_send_q\<close> is the two-entry queue to the sender task.
  \<open>cpm_sending\<close> is what the sender task holds while it streams: the index, its copy of the metadata and the epoch
  it read under the lock; \<open>cpm_held_report\<close> is the report the descriptor task has received and not yet processed.
\<close>

record cpm_descriptor_report =
  rep_vid :: u16
  rep_pid :: u16
  rep_caps :: u16
  rep_epoch :: u32
  rep_generation :: u32
  rep_product :: string

record cpm_state =
  s_registry :: controller_profile_registry
  cpm_send_q :: "int list"
  cpm_descriptor_q :: "cpm_descriptor_report list"
  s_transferred_valid :: bool
  s_transferred_vid :: u16
  s_transferred_pid :: u16
  s_transferred_epoch :: u32
  s_connection_generation :: u32
  s_storage_busy :: bool
  cpm_held_report :: "cpm_descriptor_report option"
  cpm_sending :: "(int \<times> controller_profile_meta \<times> u32) option"

definition registry_zero :: controller_profile_registry where
  "registry_zero = \<lparr>profiles = [], matched_index = -1, active_index = -1, transfer_state = CPM_TRANSFER_IDLE,
     controller_present = False, connected_vid = 0, connected_pid = 0, connected_caps = 0, connected_epoch = 0,
     connected_product = []\<rparr>"

definition controller_profile_manager_init :: cpm_state where
  "controller_profile_manager_init = \<lparr>s_registry = registry_zero, cpm_send_q = [], cpm_descriptor_q = [],
     s_transferred_valid = False, s_transferred_vid = 0, s_transferred_pid = 0, s_transferred_epoch = 0,
     s_connection_generation = 0, s_storage_busy = False, cpm_held_report = None, cpm_sending = None\<rparr>"

definition cpm_on_descriptor_locked :: "cpm_state \<Rightarrow> u16 \<Rightarrow> u16 \<Rightarrow> u32 \<Rightarrow> cpm_state \<times> int" where
  "cpm_on_descriptor_locked c vid pid epoch =
     (let reg = s_registry c in
      if epoch = 0 then (c, -1)
      else if controller_present reg \<and> connected_vid reg = vid \<and> connected_pid reg = pid \<and>
              connected_epoch reg = epoch \<and> transfer_state reg = CPM_TRANSFER_TRANSFERRING
      then (c, controller_profile_registry_match reg vid pid)
      else
        let (reg1, idx) = controller_profile_registry_on_descriptor reg vid pid;
            c1 = c\<lparr>s_registry := reg1\<lparr>connected_epoch := epoch\<rparr>\<rparr> in
        if idx \<ge> 0 then
          if s_transferred_valid c1 \<and> s_transferred_vid c1 = vid \<and> s_transferred_pid c1 = pid \<and>
             s_transferred_epoch c1 = epoch
          then (c1\<lparr>s_registry := controller_profile_registry_mark_transfer_active (s_registry c1) idx\<rparr>, idx)
          else if length (cpm_send_q c1) < 2
          then (c1\<lparr>cpm_send_q := cpm_send_q c1 @ [idx],
                   s_registry := controller_profile_registry_mark_transfer_started (s_registry c1) idx\<rparr>, idx)
          else (c1, idx)
        else (c1\<lparr>s_transferred_valid := False\<rparr>, idx))"

definition cpm_process_descriptor_report :: "cpm_state \<Rightarrow> u16 \<Rightarrow> u16 \<Rightarrow> u16 \<Rightarrow> string \<Rightarrow> u32 \<Rightarrow> cpm_state \<times> int" where
  "cpm_process_descriptor_report c vid pid caps product epoch =
     (if \<not> controller_profile_descriptor_is_fresh (s_registry c) vid pid epoch then (c, -1)
      else cpm_on_descriptor_locked
             (c\<lparr>s_registry := (s_registry c)\<lparr>connected_caps := caps, connected_product := take 32 product\<rparr>\<rparr>)
             vid pid epoch)"

text \<open>
  The descriptor task receives a report, skips it when it is of an older connection generation, and processes it
  once no storage operation is running.
\<close>

definition cpm_descriptor_task_receive :: "cpm_state \<Rightarrow> cpm_state" where
  "cpm_descriptor_task_receive c =
     (case (cpm_held_report c, cpm_descriptor_q c) of
        (None, report # rest) \<Rightarrow>
          let c1 = c\<lparr>cpm_descriptor_q := rest\<rparr> in
          if rep_generation report \<noteq> s_connection_generation c1 then c1 else c1\<lparr>cpm_held_report := Some report\<rparr>
      | _ \<Rightarrow> c)"

definition cpm_descriptor_task_process :: "cpm_state \<Rightarrow> cpm_state" where
  "cpm_descriptor_task_process c =
     (case cpm_held_report c of
        Some report \<Rightarrow>
          if s_storage_busy c then c
          else fst (cpm_process_descriptor_report (c\<lparr>cpm_held_report := None\<rparr>) (rep_vid report) (rep_pid report)
                      (rep_caps report) (rep_product report) (rep_epoch report))
      | None \<Rightarrow> c)"

definition controller_profile_manager_on_descriptor_report ::
    "cpm_state \<Rightarrow> u16 \<Rightarrow> u16 \<Rightarrow> u16 \<Rightarrow> string \<Rightarrow> u32 \<Rightarrow> cpm_state" where
  "controller_profile_manager_on_descriptor_report c vid pid caps product epoch =
     (let report = \<lparr>rep_vid = vid, rep_pid = pid, rep_caps = caps, rep_epoch = epoch,
                    rep_generation = s_connection_generation c, rep_product = take 32 product\<rparr>
      in c\<lparr>cpm_descriptor_q := (if length (cpm_descriptor_q c) < 8 then cpm_descriptor_q c
                                 else tl (cpm_descriptor_q c)) @ [report]\<rparr>)"

definition controller_profile_manager_on_disconnect :: "cpm_state \<Rightarrow> cpm_state \<times> bool" where
  "controller_profile_manager_on_disconnect c =
     (let (reg, changed) = controller_profile_registry_on_disconnect (s_registry c)
      in (c\<lparr>s_connection_generation := s_connection_generation c + 1, s_registry := reg,
            s_transferred_valid := False\<rparr>, changed))"

text \<open>The sender task picks up a request under the lock, or discards it.\<close>

definition cpm_sender_pick :: "cpm_state \<Rightarrow> cpm_state" where
  "cpm_sender_pick c =
     (case cpm_send_q c of
        [] \<Rightarrow> c
      | idx # rest \<Rightarrow>
          let c1 = c\<lparr>cpm_send_q := rest\<rparr>; reg = s_registry c1 in
          if index_bad reg idx \<or> \<not> controller_present reg \<or> matched_index reg \<noteq> idx \<or>
             transfer_state reg \<noteq> CPM_TRANSFER_TRANSFERRING
          then c1
          else let m = profiles reg ! nat idx in
            if \<not> meta_valid m then c1 else c1\<lparr>cpm_sending := Some (idx, m, connected_epoch reg)\<rparr>)"

text \<open>\<open>ok\<close> is the result of \<open>cpm_stream_profile\<close>.\<close>

definition cpm_sender_done :: "cpm_state \<Rightarrow> bool \<Rightarrow> cpm_state" where
  "cpm_sender_done c ok =
     (case cpm_sending c of
        None \<Rightarrow> c
      | Some (idx, m, transfer_epoch) \<Rightarrow>
          let c1 = c\<lparr>cpm_sending := None\<rparr>; reg = s_registry c1;
              still_connected = (controller_present reg \<and> connected_vid reg = meta_vid m \<and>
                 connected_pid reg = meta_pid m \<and> connected_epoch reg = transfer_epoch \<and> matched_index reg = idx) in
          if ok \<and> still_connected then
            c1\<lparr>s_transferred_vid := meta_vid m, s_transferred_pid := meta_pid m, s_transferred_epoch := transfer_epoch,
               s_transferred_valid := True, s_registry := controller_profile_registry_mark_transfer_active reg idx\<rparr>
          else if still_connected then
            c1\<lparr>s_transferred_valid := False, s_registry := controller_profile_registry_mark_transfer_failed reg idx\<rparr>
          else c1\<lparr>s_transferred_valid := False\<rparr>)"

text \<open>
  Rescanning the profile directory, and installing a profile, mark the storage busy under the lock, work on the
  card without it, and commit the result under the lock.  \<open>install\<close> tells the two apart.
\<close>

definition cpm_storage_begin :: "cpm_state \<Rightarrow> bool \<Rightarrow> cpm_state option" where
  "cpm_storage_begin c install =
     (if transfer_state (s_registry c) = CPM_TRANSFER_TRANSFERRING \<or> (install \<and> cpm_send_q c \<noteq> []) \<or> s_storage_busy c
      then None else Some (c\<lparr>s_storage_busy := True\<rparr>))"

definition cpm_storage_commit :: "cpm_state \<Rightarrow> bool \<Rightarrow> controller_profile_registry option \<Rightarrow> cpm_state" where
  "cpm_storage_commit c install result =
     (case result of
        None \<Rightarrow> c\<lparr>s_storage_busy := False\<rparr>
      | Some scanned \<Rightarrow>
          let reg = controller_profile_registry_apply_rescan (s_registry c) scanned;
              c1 = c\<lparr>s_registry := reg, s_transferred_valid := False, s_storage_busy := False\<rparr>
          in if install \<and> controller_present reg \<and> length (cpm_descriptor_q c) < 8
             then c1\<lparr>cpm_descriptor_q := cpm_descriptor_q c @
                    [\<lparr>rep_vid = connected_vid reg, rep_pid = connected_pid reg, rep_caps = connected_caps reg,
                      rep_epoch = connected_epoch reg, rep_generation = s_connection_generation c,
                      rep_product = connected_product reg\<rparr>]\<rparr>
             else c1)"

section \<open>Streaming a profile\<close>

text \<open>
  The sender's view of the link: handing a frame to \<open>send_bulk_frame\<close> (\<open>None\<close> when the builder returned 0),
  waiting for the reply to a frame type, and discarding stale replies.  \<open>'w\<close> is the state behind it.
\<close>

record 'w cpm_io =
  io_send :: "'w \<Rightarrow> u8 list option \<Rightarrow> 'w \<times> bool"
  io_wait :: "'w \<Rightarrow> u8 \<Rightarrow> 'w \<times> bool"
  io_drain :: "'w \<Rightarrow> 'w"

function send_chunks :: "'w cpm_io \<Rightarrow> 'w \<Rightarrow> u8 \<Rightarrow> u8 list \<Rightarrow> nat \<Rightarrow> 'w \<times> u8 \<times> bool" where
  "send_chunks io w sq buf off =
     (if off < length buf then
        let n = (if length buf - off > CTRL_PROFILE_CHUNK_MAX then CTRL_PROFILE_CHUNK_MAX else length buf - off);
            (w1, ok) = io_send io w (ctrl_bulk_build_profile_chunk CTRL_BULK_MAX_FRAME sq (of_nat off) (take n (drop off buf)))
        in if ok then send_chunks io w1 (sq + 1) buf (off + CTRL_PROFILE_CHUNK_MAX) else (w1, sq + 1, False)
      else (w, sq, True))"
  by pat_completeness auto

termination send_chunks
  by (relation "measure (\<lambda>(io, w, sq, buf, off). length buf - off)") auto

declare send_chunks.simps [simp del]

definition stream_attempt :: "'w cpm_io \<Rightarrow> 'w \<Rightarrow> u8 \<Rightarrow> u8 list \<Rightarrow> u32 \<Rightarrow> u16 \<Rightarrow> u16 \<Rightarrow> 'w \<times> u8 \<times> bool" where
  "stream_attempt io w sq buf crc vid pid =
     (let w0 = io_drain io w;
          (w1, ok1) = io_send io w0 (ctrl_bulk_build_profile_begin CTRL_BULK_MAX_FRAME sq (of_nat (length buf)) crc vid pid) in
      if \<not> ok1 then (w1, sq + 1, False) else
      let (w2, r1) = io_wait io w1 CTRL_BULK_TYPE_PROFILE_BEGIN in
      if \<not> r1 then (w2, sq + 1, False) else
      let (w3, sq3, ok3) = send_chunks io w2 (sq + 1) buf 0 in
      if \<not> ok3 then (w3, sq3, False) else
      let (w4, ok4) = io_send io w3 (ctrl_bulk_build_profile_simple CTRL_BULK_MAX_FRAME sq3 CTRL_BULK_TYPE_PROFILE_END) in
      if \<not> ok4 then (w4, sq3 + 1, False) else
      let (w5, r5) = io_wait io w4 CTRL_BULK_TYPE_PROFILE_END in
      if \<not> r5 then (w5, sq3 + 1, False) else
      let (w6, ok6) = io_send io w5 (ctrl_bulk_build_profile_simple CTRL_BULK_MAX_FRAME (sq3 + 1) CTRL_BULK_TYPE_PROFILE_ACTIVATE) in
      if \<not> ok6 then (w6, sq3 + 2, False) else
      let (w7, r7) = io_wait io w6 CTRL_BULK_TYPE_PROFILE_ACTIVATE in
      (w7, sq3 + 2, r7))"

fun stream_attempts :: "'w cpm_io \<Rightarrow> nat \<Rightarrow> 'w \<Rightarrow> u8 \<Rightarrow> u8 list \<Rightarrow> u32 \<Rightarrow> u16 \<Rightarrow> u16 \<Rightarrow> 'w \<times> u8 \<times> bool" where
  "stream_attempts io 0 w sq buf crc vid pid = (w, sq, False)"
| "stream_attempts io (Suc n) w sq buf crc vid pid =
     (let (w1, sq1, ok) = stream_attempt io w sq buf crc vid pid
      in if ok then (w1, sq1, True) else stream_attempts io n w1 sq1 buf crc vid pid)"

text \<open>\<open>file\<close> is what reading the profile file yields, \<open>None\<close> when it cannot be opened or the buffer cannot be allocated.\<close>

definition cpm_stream_profile ::
    "'w cpm_io \<Rightarrow> 'w \<Rightarrow> u8 \<Rightarrow> controller_profile_meta \<Rightarrow> u8 list option \<Rightarrow> 'w \<times> u8 \<times> bool" where
  "cpm_stream_profile io w sq m file =
     (if \<not> meta_valid m \<or> meta_size m = 0 \<or> meta_size m > CPM_MAX_PROFILE_SIZE then (w, sq, False)
      else case file of
          None \<Rightarrow> (w, sq, False)
        | Some content \<Rightarrow>
            let buf = take (meta_size m) content in
            if length buf \<noteq> meta_size m then (w, sq, False)
            else stream_attempts io CPM_SEND_ATTEMPTS w sq buf (cp_xfer_crc32 buf) (meta_vid m) (meta_pid m))"

section \<open>Agreement of the two validators\<close>

lemma meta_inputs_iff:
  "meta_inputs_ok data sc p n \<longleftrightarrow> (\<exists>es. parse_inputs data sc p n = Inr es)"
proof (induction n arbitrary: p)
  case (Suc n)
  have b: "input_bad sc (parse_input data p) \<longleftrightarrow> data ! (p + 2) > 7 \<or>
      (data ! (p + 2) = 4 \<or> data ! (p + 2) = 5 \<or> data ! (p + 2) = 7) \<and> (data ! (p + 3) = 0xFF \<or> data ! (p + 3) \<ge> sc)"
    by (simp add: input_bad_def parse_input_def)
  show ?case
    using Suc [of "p + 16"] unfolding meta_inputs_ok.simps parse_inputs.simps Let_def b
    by (auto split: sum.splits)
qed simp

lemma meta_outputs_iff:
  "meta_outputs_ok data p n \<longleftrightarrow> (\<exists>es. parse_outputs data p n = Inr es)"
proof (induction n arbitrary: p)
  case (Suc n)
  have b: "out_kind (parse_output data p) = data ! (p + 2)" by (simp add: parse_output_def)
  show ?case
    using Suc [of "p + 12"] unfolding meta_outputs_ok.simps parse_outputs.simps Let_def b
    by (auto split: sum.splits)
qed simp

lemma meta_header_iff:
  "controller_profile_meta_parse data = Some m \<longleftrightarrow>
     header_ok data \<and> meta_inputs_ok data (data ! 28) 32 (unat (rd_u16 data 24)) \<and>
     meta_outputs_ok data (32 + unat (rd_u16 data 24) * 16) (unat (rd_u16 data 26)) \<and>
     m = \<lparr>meta_id = [], meta_vid = rd_u16 data 16, meta_pid = rd_u16 data 18, meta_input_count = rd_u16 data 24,
          meta_output_count = rd_u16 data 26, meta_size = length data, meta_valid = True\<rparr>"
proof -
  have w: "rd_u16 data 6 = 32 \<longleftrightarrow> unat (rd_u16 data 6) = 32"
    "rd_u16 data 24 > 320 \<longleftrightarrow> \<not> unat (rd_u16 data 24) \<le> 320" "rd_u16 data 26 > 160 \<longleftrightarrow> \<not> unat (rd_u16 data 26) \<le> 160"
    "data ! 28 > 40 \<longleftrightarrow> \<not> unat (data ! 28) \<le> 40"
    by (simp_all add: word_less_nat_alt word_unat_eq_iff not_le)
  show ?thesis
    unfolding controller_profile_meta_parse_def header_ok_def Let_def w
    by (auto split: if_splits)
qed

lemma meta_parse_agrees:
  "controller_profile_meta_parse data = Some m \<longleftrightarrow>
     (\<exists>p. cp_profile_parse data = Inr p \<and>
        m = \<lparr>meta_id = [], meta_vid = cp_vid p, meta_pid = cp_pid p, meta_input_count = input_count p,
             meta_output_count = output_count p, meta_size = length data, meta_valid = True\<rparr>)"
  unfolding meta_header_iff cp_profile_parse_iff meta_inputs_iff meta_outputs_iff by auto

section \<open>Registry invariant\<close>

definition reg_ok :: "controller_profile_registry \<Rightarrow> bool" where
  "reg_ok reg \<longleftrightarrow>
     (matched_index reg = -1 \<or> controller_present reg \<and> \<not> index_bad reg (matched_index reg) \<and>
        meta_valid (profiles reg ! nat (matched_index reg)) \<and>
        meta_vid (profiles reg ! nat (matched_index reg)) = connected_vid reg \<and>
        meta_pid (profiles reg ! nat (matched_index reg)) = connected_pid reg) \<and>
     (transfer_state reg \<in> {CPM_TRANSFER_MATCHED, CPM_TRANSFER_TRANSFERRING, CPM_TRANSFER_ACTIVE, CPM_TRANSFER_FAILED}
        \<longleftrightarrow> matched_index reg \<noteq> -1) \<and>
     active_index reg = (if transfer_state reg = CPM_TRANSFER_ACTIVE then matched_index reg else -1)"

lemma match_result:
  "controller_profile_registry_match reg vid pid = -1 \<or>
   \<not> index_bad reg (controller_profile_registry_match reg vid pid) \<and>
   meta_valid (profiles reg ! nat (controller_profile_registry_match reg vid pid)) \<and>
   meta_vid (profiles reg ! nat (controller_profile_registry_match reg vid pid)) = vid \<and>
   meta_pid (profiles reg ! nat (controller_profile_registry_match reg vid pid)) = pid"
  by (auto simp: controller_profile_registry_match_def index_bad_def find_Some_iff split: option.splits)

lemma match_cong: "profiles reg' = profiles reg \<Longrightarrow>
    controller_profile_registry_match reg' vid pid = controller_profile_registry_match reg vid pid"
  by (simp add: controller_profile_registry_match_def)

lemma on_descriptor_result:
  assumes "reg_ok reg" "controller_profile_registry_on_descriptor reg vid pid = (reg', idx)"
  shows "reg_ok reg'" "controller_present reg'" "connected_vid reg' = vid" "connected_pid reg' = pid"
    "matched_index reg' = idx" "profiles reg' = profiles reg" "connected_epoch reg' = connected_epoch reg"
    "idx = controller_profile_registry_match reg vid pid"
    "idx < 0 \<longleftrightarrow> idx = -1"
    "transfer_state reg' = (if idx < 0 then CPM_TRANSFER_UNSUPPORTED
       else if active_index reg = idx \<and> transfer_state reg = CPM_TRANSFER_ACTIVE then CPM_TRANSFER_ACTIVE
       else CPM_TRANSFER_MATCHED)"
proof -
  let ?reg1 = "reg\<lparr>controller_present := True, connected_vid := vid, connected_pid := pid\<rparr>"
  have m: "controller_profile_registry_match ?reg1 vid pid = controller_profile_registry_match reg vid pid"
    by (rule match_cong) simp
  note d = assms(2) [unfolded controller_profile_registry_on_descriptor_def Let_def m]
  show "idx = controller_profile_registry_match reg vid pid" using d by (auto split: if_splits)
  show "idx < 0 \<longleftrightarrow> idx = -1" using d match_result [of reg vid pid] by (auto simp: index_bad_def split: if_splits)
  show "controller_present reg'" "connected_vid reg' = vid" "connected_pid reg' = pid" "matched_index reg' = idx"
    "profiles reg' = profiles reg" "connected_epoch reg' = connected_epoch reg"
    "transfer_state reg' = (if idx < 0 then CPM_TRANSFER_UNSUPPORTED
       else if active_index reg = idx \<and> transfer_state reg = CPM_TRANSFER_ACTIVE then CPM_TRANSFER_ACTIVE
       else CPM_TRANSFER_MATCHED)"
    using d by (auto split: if_splits)
  consider (none) "controller_profile_registry_match reg vid pid = -1"
      "reg' = ?reg1\<lparr>matched_index := -1, active_index := -1, transfer_state := CPM_TRANSFER_UNSUPPORTED\<rparr>"
    | (kept) "controller_profile_registry_match reg vid pid \<noteq> -1" "active_index reg = controller_profile_registry_match reg vid pid"
        "transfer_state reg = CPM_TRANSFER_ACTIVE" "reg' = ?reg1\<lparr>matched_index := controller_profile_registry_match reg vid pid\<rparr>"
    | (fresh) "controller_profile_registry_match reg vid pid \<noteq> -1"
        "reg' = ?reg1\<lparr>matched_index := controller_profile_registry_match reg vid pid, active_index := -1, transfer_state := CPM_TRANSFER_MATCHED\<rparr>"
    using d match_result [of reg vid pid] by (fastforce simp: index_bad_def split: if_splits)
  then show "reg_ok reg'"
  proof cases
    case none then show ?thesis by (simp add: reg_ok_def)
  next
    case kept
    show ?thesis using match_result [of reg vid pid] kept(1-3) unfolding kept(4) reg_ok_def index_bad_def by simp
  next
    case fresh
    show ?thesis using match_result [of reg vid pid] fresh(1) unfolding fresh(2) reg_ok_def index_bad_def by simp
  qed
qed

lemma reg_ok_update [simp]:
  "reg_ok (reg\<lparr>connected_epoch := e\<rparr>) = reg_ok reg"
  "reg_ok (reg\<lparr>connected_caps := a, connected_product := b\<rparr>) = reg_ok reg"
  by (simp_all add: reg_ok_def index_bad_def)

lemma reg_ok_disconnect: "reg_ok (fst (controller_profile_registry_on_disconnect reg))"
  by (simp add: reg_ok_def controller_profile_registry_on_disconnect_def)

lemma reg_ok_mark:
  assumes "reg_ok reg" "matched_index reg = idx"
  shows "reg_ok (controller_profile_registry_mark_transfer_started reg idx)"
    "reg_ok (controller_profile_registry_mark_transfer_active reg idx)"
    "reg_ok (controller_profile_registry_mark_transfer_failed reg idx)"
  using assms
  by (auto simp: reg_ok_def controller_profile_registry_mark_transfer_started_def
      controller_profile_registry_mark_transfer_active_def controller_profile_registry_mark_transfer_failed_def index_bad_def)

text \<open>A freshly scanned registry, as \<open>controller_profile_scan_dir\<close> leaves it.\<close>

definition scanned_ok :: "controller_profile_registry \<Rightarrow> bool" where
  "scanned_ok reg \<longleftrightarrow> matched_index reg = -1 \<and> active_index reg = -1 \<and> transfer_state reg = CPM_TRANSFER_IDLE \<and>
     length (profiles reg) \<le> CPM_MAX_PROFILES"

lemma reg_ok_rescan:
  assumes "scanned_ok scanned"
  shows "reg_ok (controller_profile_registry_apply_rescan reg scanned)"
proof -
  let ?reg1 = "scanned\<lparr>controller_present := controller_present reg, connected_vid := connected_vid reg,
                         connected_pid := connected_pid reg, connected_caps := connected_caps reg,
                         connected_epoch := connected_epoch reg, connected_product := connected_product reg\<rparr>"
  have ok: "reg_ok ?reg1" using assms by (simp add: reg_ok_def scanned_ok_def)
  obtain r i where d: "controller_profile_registry_on_descriptor ?reg1 (connected_vid reg) (connected_pid reg) = (r, i)" by fastforce
  show ?thesis
    using on_descriptor_result(1) [OF ok d] ok
    unfolding controller_profile_registry_apply_rescan_def Let_def d by (cases "controller_present reg") simp_all
qed

section \<open>Runs of the manager\<close>

text \<open>
  What the tasks do, one locked section at a time, in any order: the link reports a descriptor or a disconnect, the descriptor
  task receives and processes a report, the sender task picks up a request, streams the profile and records the result,
  and a storage operation begins and commits. The run keeps a history of what happened outside the manager: how each stream
  ended (the result of \<open>cpm_stream_profile\<close> on whatever the link answered), disconnects, replaced registries, and reports
  that were processed while both places of the sender queue were taken.
\<close>

datatype 'w cpm_op =
  Cpm_Report u16 u16 u16 string u32
| Cpm_Receive
| Cpm_Process
| Cpm_Disconnect
| Cpm_Pick
| Cpm_Stream "'w cpm_io" 'w u8 "u8 list option"
| Cpm_Begin bool
| Cpm_Commit bool "controller_profile_meta list option"

datatype cpm_event = Streamed controller_profile_meta u32 bool | Disconnected | Registry_Replaced | Queue_Full

definition scan_result :: "controller_profile_meta list \<Rightarrow> controller_profile_registry" where
  "scan_result ps = registry_zero\<lparr>profiles := take CPM_MAX_PROFILES ps\<rparr>"

fun cpm_op_step :: "cpm_state \<times> cpm_event list \<Rightarrow> 'w cpm_op \<Rightarrow> cpm_state \<times> cpm_event list" where
  "cpm_op_step (c, h) (Cpm_Report vid pid caps product epoch) =
     (controller_profile_manager_on_descriptor_report c vid pid caps product epoch, h)"
| "cpm_op_step (c, h) Cpm_Receive = (cpm_descriptor_task_receive c, h)"
| "cpm_op_step (c, h) Cpm_Process =
     (cpm_descriptor_task_process c, h @ (if cpm_held_report c \<noteq> None \<and> \<not> length (cpm_send_q c) < 2 then [Queue_Full] else []))"
| "cpm_op_step (c, h) Cpm_Disconnect = (fst (controller_profile_manager_on_disconnect c), h @ [Disconnected])"
| "cpm_op_step (c, h) Cpm_Pick = (if cpm_sending c = None then cpm_sender_pick c else c, h)"
| "cpm_op_step (c, h) (Cpm_Stream io w sq content) =
     (case cpm_sending c of
        None \<Rightarrow> (c, h)
      | Some (idx, m, epoch) \<Rightarrow>
          (case cpm_stream_profile io w sq m content of (w1, sq1, ok) \<Rightarrow> (cpm_sender_done c ok, h @ [Streamed m epoch ok])))"
| "cpm_op_step (c, h) (Cpm_Begin install) = (case cpm_storage_begin c install of None \<Rightarrow> (c, h) | Some c1 \<Rightarrow> (c1, h))"
| "cpm_op_step (c, h) (Cpm_Commit install result) =
     (if s_storage_busy c
      then (cpm_storage_commit c install (map_option scan_result result), h @ (if result = None then [] else [Registry_Replaced]))
      else (c, h))"

definition cpm_run :: "'w cpm_op list \<Rightarrow> cpm_state \<times> cpm_event list" where
  "cpm_run ops = foldl cpm_op_step (controller_profile_manager_init, []) ops"

text \<open>
  A stream of a profile for this vendor and product succeeded, for the connection \<open>epoch\<close> the sender read when it picked
  the request up, and neither a disconnect nor a replaced registry came after it.
\<close>

definition unbroken :: "cpm_event list \<Rightarrow> bool" where
  "unbroken h \<longleftrightarrow> Disconnected \<notin> set h \<and> Registry_Replaced \<notin> set h"

definition streamed_for :: "cpm_event list \<Rightarrow> u16 \<Rightarrow> u16 \<Rightarrow> u32 \<Rightarrow> bool" where
  "streamed_for h vid pid epoch \<longleftrightarrow>
     (\<exists>older m newer. h = older @ Streamed m epoch True # newer \<and> unbroken newer \<and> meta_vid m = vid \<and> meta_pid m = pid)"

definition served :: "cpm_event list \<Rightarrow> u16 \<Rightarrow> u16 \<Rightarrow> u32 \<Rightarrow> bool" where
  "served h vid pid epoch \<longleftrightarrow>
     (\<exists>older m e newer. h = older @ Streamed m e True # newer \<and> unbroken newer \<and> meta_vid m = vid \<and> meta_pid m = pid \<and>
        (e = epoch \<or> Queue_Full \<in> set newer))"

lemma streamed_served: "streamed_for h vid pid epoch \<Longrightarrow> served h vid pid epoch"
  unfolding streamed_for_def served_def by blast

lemma streamed_more: "streamed_for h vid pid epoch \<Longrightarrow> unbroken ev \<Longrightarrow> streamed_for (h @ ev) vid pid epoch"
  unfolding streamed_for_def unbroken_def by fastforce

lemma served_more: "served h vid pid epoch \<Longrightarrow> unbroken ev \<Longrightarrow> served (h @ ev) vid pid epoch"
  unfolding served_def unbroken_def by fastforce

lemma served_full: "served h vid pid epoch \<Longrightarrow> served (h @ [Queue_Full]) vid pid epoch'"
  unfolding served_def unbroken_def by fastforce

lemma streamed_now: "streamed_for (h @ [Streamed m epoch True]) (meta_vid m) (meta_pid m) epoch"
  unfolding streamed_for_def by (intro exI [of _ h] exI [of _ m] exI [of _ "[]"]) (simp add: unbroken_def)

definition cpm_hist_inv :: "cpm_state \<Rightarrow> cpm_event list \<Rightarrow> bool" where
  "cpm_hist_inv c h \<longleftrightarrow> reg_ok (s_registry c) \<and>
     (s_transferred_valid c \<longrightarrow> streamed_for h (s_transferred_vid c) (s_transferred_pid c) (s_transferred_epoch c)) \<and>
     (transfer_state (s_registry c) = CPM_TRANSFER_ACTIVE \<longrightarrow>
        served h (connected_vid (s_registry c)) (connected_pid (s_registry c)) (connected_epoch (s_registry c)))"

lemma hist_more: "cpm_hist_inv c h \<Longrightarrow> unbroken ev \<Longrightarrow> cpm_hist_inv c (h @ ev)"
  by (auto simp: cpm_hist_inv_def intro: streamed_more served_more)

lemma mark_simps [simp]:
  "connected_vid (controller_profile_registry_mark_transfer_active reg i) = connected_vid reg"
  "connected_pid (controller_profile_registry_mark_transfer_active reg i) = connected_pid reg"
  "connected_epoch (controller_profile_registry_mark_transfer_active reg i) = connected_epoch reg"
  "controller_present (controller_profile_registry_mark_transfer_active reg i) = controller_present reg"
  "connected_vid (controller_profile_registry_mark_transfer_failed reg i) = connected_vid reg"
  "connected_pid (controller_profile_registry_mark_transfer_failed reg i) = connected_pid reg"
  "connected_epoch (controller_profile_registry_mark_transfer_failed reg i) = connected_epoch reg"
  "connected_vid (controller_profile_registry_mark_transfer_started reg i) = connected_vid reg"
  "connected_pid (controller_profile_registry_mark_transfer_started reg i) = connected_pid reg"
  "connected_epoch (controller_profile_registry_mark_transfer_started reg i) = connected_epoch reg"
  by (simp_all add: controller_profile_registry_mark_transfer_active_def
      controller_profile_registry_mark_transfer_failed_def controller_profile_registry_mark_transfer_started_def)

lemma rescan_keeps:
  assumes "scanned_ok scanned"
  shows "controller_present (controller_profile_registry_apply_rescan reg scanned) = controller_present reg"
    "connected_epoch (controller_profile_registry_apply_rescan reg scanned) = connected_epoch reg"
    "transfer_state (controller_profile_registry_apply_rescan reg scanned) \<noteq> CPM_TRANSFER_ACTIVE"
  using assms
  by (simp_all add: controller_profile_registry_apply_rescan_def controller_profile_registry_on_descriptor_def
      Let_def scanned_ok_def)

lemma receive_shape: "\<exists>q h. cpm_descriptor_task_receive c = c\<lparr>cpm_descriptor_q := q, cpm_held_report := h\<rparr>"
proof (cases "cpm_held_report c = None \<and> cpm_descriptor_q c \<noteq> []")
  case True
  then obtain r rest where q: "cpm_held_report c = None" "cpm_descriptor_q c = r # rest" by (auto simp: neq_Nil_conv)
  show ?thesis
    by (intro exI [of _ rest] exI [of _ "if rep_generation r \<noteq> s_connection_generation c then cpm_held_report c else Some r"])
      (simp add: cpm_descriptor_task_receive_def q)
next
  case False
  then show ?thesis
    by (intro exI [of _ "cpm_descriptor_q c"] exI [of _ "cpm_held_report c"])
      (auto simp: cpm_descriptor_task_receive_def split: option.splits list.splits)
qed

text \<open>What processing a descriptor amounts to.\<close>

lemma descriptor_cases:
  assumes "reg_ok (s_registry c)"
  obtains (same) "fst (cpm_on_descriptor_locked c vid pid epoch) = c"
  | (unsupported) reg' where "reg_ok reg'" "controller_present reg'" "connected_epoch reg' = epoch"
      "transfer_state reg' = CPM_TRANSFER_UNSUPPORTED"
      "fst (cpm_on_descriptor_locked c vid pid epoch) = c\<lparr>s_registry := reg', s_transferred_valid := False\<rparr>"
  | (active) reg' where "reg_ok reg'" "controller_present reg'" "connected_epoch reg' = epoch"
      "connected_vid reg' = s_transferred_vid c" "connected_pid reg' = s_transferred_pid c"
      "s_transferred_epoch c = epoch" "s_transferred_valid c" "s_transferred_vid c = vid" "s_transferred_pid c = pid"
      "fst (cpm_on_descriptor_locked c vid pid epoch) = c\<lparr>s_registry := reg'\<rparr>"
  | (started) reg' idx where "reg_ok reg'" "controller_present reg'" "connected_epoch reg' = epoch"
      "transfer_state reg' = CPM_TRANSFER_TRANSFERRING" "length (cpm_send_q c) < 2"
      "\<not> (s_transferred_valid c \<and> s_transferred_vid c = vid \<and> s_transferred_pid c = pid \<and> s_transferred_epoch c = epoch)"
      "fst (cpm_on_descriptor_locked c vid pid epoch) = c\<lparr>cpm_send_q := cpm_send_q c @ [idx], s_registry := reg'\<rparr>"
  | (full) reg' where "reg_ok reg'" "controller_present reg'" "connected_epoch reg' = epoch" "\<not> length (cpm_send_q c) < 2"
      "transfer_state reg' = CPM_TRANSFER_ACTIVE \<Longrightarrow> transfer_state (s_registry c) = CPM_TRANSFER_ACTIVE \<and>
         connected_vid reg' = connected_vid (s_registry c) \<and> connected_pid reg' = connected_pid (s_registry c)"
      "\<not> (s_transferred_valid c \<and> s_transferred_vid c = vid \<and> s_transferred_pid c = pid \<and> s_transferred_epoch c = epoch)"
      "fst (cpm_on_descriptor_locked c vid pid epoch) = c\<lparr>s_registry := reg'\<rparr>"
proof -
  let ?reg = "s_registry c"
  obtain reg1 idx where d: "controller_profile_registry_on_descriptor ?reg vid pid = (reg1, idx)" by fastforce
  let ?early = "epoch = 0 \<or> controller_present ?reg \<and> connected_vid ?reg = vid \<and> connected_pid ?reg = pid \<and>
      connected_epoch ?reg = epoch \<and> transfer_state ?reg = CPM_TRANSFER_TRANSFERRING"
  let ?dup = "s_transferred_valid c \<and> s_transferred_vid c = vid \<and> s_transferred_pid c = pid \<and> s_transferred_epoch c = epoch"
  let ?reg2 = "reg1\<lparr>connected_epoch := epoch\<rparr>"
  note r = on_descriptor_result [OF assms d]
  have r2: "reg_ok ?reg2" "matched_index ?reg2 = idx" using r(1,5) by simp_all
  note marks = reg_ok_mark [OF r2]
  have l: "fst (cpm_on_descriptor_locked c vid pid epoch) =
      (if ?early then c
       else if \<not> idx \<ge> 0 then c\<lparr>s_registry := ?reg2, s_transferred_valid := False\<rparr>
       else if ?dup then c\<lparr>s_registry := controller_profile_registry_mark_transfer_active ?reg2 idx\<rparr>
       else if length (cpm_send_q c) < 2
       then c\<lparr>cpm_send_q := cpm_send_q c @ [idx], s_registry := controller_profile_registry_mark_transfer_started ?reg2 idx\<rparr>
       else c\<lparr>s_registry := ?reg2\<rparr>)"
    unfolding cpm_on_descriptor_locked_def Let_def d by (simp split: prod.splits)
  have b: "\<not> idx < 0 \<Longrightarrow> \<not> index_bad ?reg2 idx"
    using r2 by (auto simp: reg_ok_def)
  show thesis
  proof (cases ?early)
    case True then show ?thesis using same l by simp
  next
    case e: False
    show ?thesis
    proof (cases "idx < 0")
      case True
      then show ?thesis using unsupported [of ?reg2] r l e by (simp add: r2)
    next
      case i: False
      note b = b [OF i]
      show ?thesis
      proof (cases ?dup)
        case True
        then show ?thesis
          using active [of "controller_profile_registry_mark_transfer_active ?reg2 idx"] marks(2) r l e i by simp
      next
        case nd: False
        show ?thesis
        proof (cases "length (cpm_send_q c) < 2")
          case True
          then show ?thesis
            using started [of "controller_profile_registry_mark_transfer_started ?reg2 idx" idx] marks(1) r l e i nd b
            by (simp add: controller_profile_registry_mark_transfer_started_def)
        next
          case False
          have keep: "vid = connected_vid ?reg \<and> pid = connected_pid ?reg" if "active_index ?reg = idx" "transfer_state ?reg = CPM_TRANSFER_ACTIVE"
          proof -
            have m: "matched_index ?reg = idx" using assms that by (simp add: reg_ok_def)
            have "idx \<noteq> -1" using i by simp
            then have "meta_vid (profiles ?reg ! nat idx) = connected_vid ?reg" "meta_pid (profiles ?reg ! nat idx) = connected_pid ?reg"
              using assms m by (auto simp: reg_ok_def)
            moreover have "meta_vid (profiles ?reg ! nat idx) = vid" "meta_pid (profiles ?reg ! nat idx) = pid"
              using match_result [of ?reg vid pid] \<open>idx \<noteq> -1\<close> r(8) by auto
            ultimately show ?thesis by simp
          qed
          have eq: "fst (cpm_on_descriptor_locked c vid pid epoch) = c\<lparr>s_registry := ?reg2\<rparr>" using l e i nd False by simp
          have act: "active_index ?reg = idx \<and> transfer_state ?reg = CPM_TRANSFER_ACTIVE" if "transfer_state ?reg2 = CPM_TRANSFER_ACTIVE"
            using that r(10) by (simp split: if_splits)
          show ?thesis by (rule full [of ?reg2]) (use r(1-4) r2 False keep act nd eq in auto)
        qed
      qed
    qed
  qed
qed

lemma hist_locked:
  assumes "cpm_hist_inv c h"
  shows "cpm_hist_inv (fst (cpm_on_descriptor_locked c vid pid epoch)) (h @ (if \<not> length (cpm_send_q c) < 2 then [Queue_Full] else []))"
proof -
  have ok: "reg_ok (s_registry c)" using assms by (simp add: cpm_hist_inv_def)
  have q: "unbroken (if \<not> length (cpm_send_q c) < 2 then [Queue_Full] else [])" by (simp add: unbroken_def)
  note more = hist_more [OF assms q]
  show ?thesis
  proof (rule descriptor_cases [OF ok, of vid pid epoch])
    assume "fst (cpm_on_descriptor_locked c vid pid epoch) = c"
    then show ?thesis using more by simp
  next
    fix reg'
    assume "reg_ok reg'" "transfer_state reg' = CPM_TRANSFER_UNSUPPORTED"
      "fst (cpm_on_descriptor_locked c vid pid epoch) = c\<lparr>s_registry := reg', s_transferred_valid := False\<rparr>"
    then show ?thesis by (simp add: cpm_hist_inv_def)
  next
    fix reg'
    assume a: "reg_ok reg'" "connected_epoch reg' = epoch" "connected_vid reg' = s_transferred_vid c"
      "connected_pid reg' = s_transferred_pid c" "s_transferred_epoch c = epoch" "s_transferred_valid c"
      "fst (cpm_on_descriptor_locked c vid pid epoch) = c\<lparr>s_registry := reg'\<rparr>"
    then show ?thesis using more streamed_served by (simp add: cpm_hist_inv_def)
  next
    fix reg' idx
    assume "reg_ok reg'" "transfer_state reg' = CPM_TRANSFER_TRANSFERRING"
      "fst (cpm_on_descriptor_locked c vid pid epoch) = c\<lparr>cpm_send_q := cpm_send_q c @ [idx], s_registry := reg'\<rparr>"
    then show ?thesis using more by (simp add: cpm_hist_inv_def)
  next
    fix reg'
    assume a: "reg_ok reg'" "\<not> length (cpm_send_q c) < 2"
      "transfer_state reg' = CPM_TRANSFER_ACTIVE \<Longrightarrow> transfer_state (s_registry c) = CPM_TRANSFER_ACTIVE \<and>
         connected_vid reg' = connected_vid (s_registry c) \<and> connected_pid reg' = connected_pid (s_registry c)"
      "fst (cpm_on_descriptor_locked c vid pid epoch) = c\<lparr>s_registry := reg'\<rparr>"
    have "served (h @ [Queue_Full]) (connected_vid reg') (connected_pid reg') (connected_epoch reg')"
      if "transfer_state reg' = CPM_TRANSFER_ACTIVE"
      using a(3) [OF that] assms unfolding cpm_hist_inv_def by (metis served_full)
    then show ?thesis using a(1,2,4) more by (simp add: cpm_hist_inv_def)
  qed
qed

lemma hist_process:
  assumes "cpm_hist_inv c h"
  shows "cpm_hist_inv (cpm_descriptor_task_process c)
     (h @ (if cpm_held_report c \<noteq> None \<and> \<not> length (cpm_send_q c) < 2 then [Queue_Full] else []))"
proof (cases "cpm_held_report c")
  case (Some r)
  let ?ev = "if \<not> length (cpm_send_q c) < 2 then [Queue_Full] else []"
  let ?c = "c\<lparr>cpm_held_report := None\<rparr>"
  let ?c1 = "?c\<lparr>s_registry := (s_registry c)\<lparr>connected_caps := rep_caps r, connected_product := take 32 (rep_product r)\<rparr>\<rparr>"
  have i: "cpm_hist_inv ?c h" "cpm_hist_inv ?c1 h" using assms by (simp_all add: cpm_hist_inv_def)
  have q: "unbroken ?ev" by (simp add: unbroken_def)
  have "cpm_hist_inv (fst (cpm_on_descriptor_locked ?c1 (rep_vid r) (rep_pid r) (rep_epoch r))) (h @ ?ev)"
    using hist_locked [OF i(2), of "rep_vid r" "rep_pid r" "rep_epoch r"] by simp
  then show ?thesis
    using hist_more [OF assms q] hist_more [OF i(1) q]
    by (auto simp: cpm_descriptor_task_process_def cpm_process_descriptor_report_def Some)
qed (use assms in \<open>simp add: cpm_descriptor_task_process_def\<close>)

lemma hist_stream:
  assumes "cpm_hist_inv c h" "cpm_sending c = Some (idx, m, e)"
  shows "cpm_hist_inv (cpm_sender_done c ok) (h @ [Streamed m e ok])"
proof -
  let ?reg = "s_registry c"
  have more: "cpm_hist_inv c (h @ [Streamed m e ok])" using hist_more [OF assms(1)] by (simp add: unbroken_def)
  show ?thesis
  proof (cases "controller_present ?reg \<and> connected_vid ?reg = meta_vid m \<and> connected_pid ?reg = meta_pid m \<and>
      connected_epoch ?reg = e \<and> matched_index ?reg = idx")
    case True
    have "reg_ok ?reg" using assms(1) by (simp add: cpm_hist_inv_def)
    note ok = reg_ok_mark(2,3) [OF this conjunct2 [OF conjunct2 [OF conjunct2 [OF conjunct2 [OF True]]]]]
    have f: "transfer_state (controller_profile_registry_mark_transfer_failed ?reg idx) \<noteq> CPM_TRANSFER_ACTIVE \<or>
        controller_profile_registry_mark_transfer_failed ?reg idx = ?reg"
      by (simp add: controller_profile_registry_mark_transfer_failed_def)
    show ?thesis
    proof (cases ok)
      case True
      then show ?thesis
        using \<open>controller_present ?reg \<and> _\<close> ok streamed_now [of h m e] streamed_served
        by (simp add: cpm_sender_done_def assms(2) cpm_hist_inv_def)
    next
      case False
      then show ?thesis
        using \<open>controller_present ?reg \<and> _\<close> ok f more
        by (auto simp: cpm_sender_done_def assms(2) cpm_hist_inv_def)
    qed
  next
    case False
    then show ?thesis using more by (auto simp: cpm_sender_done_def assms(2) cpm_hist_inv_def Let_def)
  qed
qed

lemma pick_keeps:
  "s_registry (cpm_sender_pick c) = s_registry c" "s_transferred_valid (cpm_sender_pick c) = s_transferred_valid c"
  "s_transferred_vid (cpm_sender_pick c) = s_transferred_vid c" "s_transferred_pid (cpm_sender_pick c) = s_transferred_pid c"
  "s_transferred_epoch (cpm_sender_pick c) = s_transferred_epoch c"
  by (simp_all add: cpm_sender_pick_def Let_def split: list.split)

lemma cpm_op_step_inv: "cpm_hist_inv c h \<Longrightarrow> case cpm_op_step (c, h) op of (c', h') \<Rightarrow> cpm_hist_inv c' h'"
proof (cases op)
  case (Cpm_Commit install result)
  assume inv: "cpm_hist_inv c h"
  have sc: "scanned_ok (scan_result ps)" for ps by (simp add: scanned_ok_def scan_result_def registry_zero_def)
  show ?thesis
  proof (cases result)
    case None
    then show ?thesis using inv by (simp add: Cpm_Commit cpm_hist_inv_def cpm_storage_commit_def)
  next
    case (Some ps)
    then show ?thesis using inv reg_ok_rescan [OF sc, of "s_registry c" ps] rescan_keeps(3) [OF sc, of "s_registry c" ps]
      by (simp add: Cpm_Commit cpm_hist_inv_def cpm_storage_commit_def Let_def)
  qed
next
  case (Cpm_Stream io w sq content)
  assume inv: "cpm_hist_inv c h"
  show ?thesis
  proof (cases "cpm_sending c")
    case None
    then show ?thesis using inv by (simp add: Cpm_Stream)
  next
    case (Some s)
    then obtain idx m e where "cpm_sending c = Some (idx, m, e)" by (cases s) auto
    then show ?thesis using hist_stream [OF inv] by (simp add: Cpm_Stream split: prod.split)
  qed
next
  case Cpm_Receive
  assume inv: "cpm_hist_inv c h"
  obtain q r where "cpm_descriptor_task_receive c = c\<lparr>cpm_descriptor_q := q, cpm_held_report := r\<rparr>" using receive_shape by blast
  then show ?thesis using inv by (simp add: Cpm_Receive cpm_hist_inv_def)
qed (use hist_process reg_ok_disconnect in \<open>auto simp: cpm_hist_inv_def pick_keeps cpm_storage_begin_def
    controller_profile_manager_on_descriptor_report_def controller_profile_manager_on_disconnect_def
    controller_profile_registry_on_disconnect_def Let_def split: prod.splits\<close>)

lemma cpm_run_inv: "cpm_run ops = (c, h) \<Longrightarrow> cpm_hist_inv c h"
proof -
  have "cpm_hist_inv c0 h0 \<Longrightarrow> case foldl cpm_op_step (c0, h0) ops of (c', h') \<Rightarrow> cpm_hist_inv c' h'" for c0 h0
  proof (induction ops arbitrary: c0 h0)
    case (Cons op ops)
    then show ?case using cpm_op_step_inv [OF Cons.prems, of op] by (cases "cpm_op_step (c0, h0) op") simp
  qed simp
  moreover have "cpm_hist_inv controller_profile_manager_init []"
    by (simp add: cpm_hist_inv_def controller_profile_manager_init_def registry_zero_def reg_ok_def)
  ultimately show "cpm_run ops = (c, h) \<Longrightarrow> cpm_hist_inv c h" by (fastforce simp: cpm_run_def)
qed

section \<open>Properties\<close>

text \<open>
  Claim C29.  The P4 accepts a profile file exactly when the S3's parser accepts the same bytes, and then both read
  the same vendor, product and table sizes from it.
\<close>

theorem validators_agree:
  "controller_profile_meta_parse data = Some m \<longleftrightarrow>
     (\<exists>p. cp_profile_parse data = Inr p \<and>
        m = \<lparr>meta_id = [], meta_vid = cp_vid p, meta_pid = cp_pid p, meta_input_count = input_count p,
             meta_output_count = output_count p, meta_size = length data, meta_valid = True\<rparr>)"
  by (rule meta_parse_agrees)


text \<open>A link on which every frame is sent and every reply is an acknowledgement.\<close>

definition good_io :: "unit cpm_io" where
  "good_io = \<lparr>io_send = (\<lambda>w f. (w, True)), io_wait = (\<lambda>w ty. (w, True)), io_drain = (\<lambda>w. w)\<rparr>"

abbreviation (input) demo_profile :: controller_profile_meta where
  "demo_profile \<equiv> \<lparr>meta_id = ''flx4'', meta_vid = 0x2B73, meta_pid = 0x0033,
     meta_input_count = 0, meta_output_count = 0, meta_size = 1, meta_valid = True\<rparr>"

lemma demo_stream: "\<exists>w sq. cpm_stream_profile good_io () 0 demo_profile (Some [7]) = (w, sq, True)"
  by (simp add: cpm_stream_profile_def stream_attempt_def good_io_def Let_def send_chunks.simps numeral_3_eq_3)

lemma stream_good:
  "cpm_sending c = Some (idx, demo_profile, e) \<Longrightarrow>
   cpm_op_step (c, h) (Cpm_Stream good_io () 0 (Some [7])) = (cpm_sender_done c True, h @ [Streamed demo_profile e True])"
  using demo_stream by auto

definition demo_before :: "unit cpm_op list" where
  "demo_before = [Cpm_Begin False, Cpm_Commit False (Some [demo_profile]), Cpm_Report 0x2B73 0x0033 0 ''DDJ'' 1, Cpm_Receive,
     Cpm_Process, Cpm_Pick]"

definition demo_done :: "cpm_state \<times> cpm_event list" where
  "demo_done = (cpm_sender_done (fst (cpm_run demo_before)) True, snd (cpm_run demo_before) @ [Streamed demo_profile 1 True])"

lemma demo_outcome: "cpm_run (demo_before @ [Cpm_Stream good_io () 0 (Some [7])]) = demo_done"
proof -
  have "cpm_sending (fst (cpm_run demo_before)) = Some (0, demo_profile, 1)" by code_simp
  from stream_good [OF this, of "snd (cpm_run demo_before)"] show ?thesis by (simp add: cpm_run_def demo_done_def)
qed


text \<open>
  The exception is real: two disconnects while a profile is streamed leave two requests of the same connection waiting; the stream
  ends well, and the descriptor of the next connection finds the queue full and stays marked active with no stream of its own.
\<close>

definition relink_ops :: "unit cpm_op list" where
  "relink_ops = demo_before @
     [Cpm_Disconnect, Cpm_Report 0x2B73 0x0033 0 ''DDJ'' 1, Cpm_Receive, Cpm_Process,
      Cpm_Disconnect, Cpm_Report 0x2B73 0x0033 0 ''DDJ'' 1, Cpm_Receive, Cpm_Process]"

definition next_controller_ops :: "unit cpm_op list" where
  "next_controller_ops = [Cpm_Report 0x2B73 0x0033 0 ''DDJ'' 2, Cpm_Receive, Cpm_Process]"

lemma queue_full_keeps_active:
  "case cpm_run (relink_ops @ Cpm_Stream good_io () 0 (Some [7]) # next_controller_ops) of (c, h) \<Rightarrow>
     transfer_state (s_registry c) = CPM_TRANSFER_ACTIVE \<and> connected_epoch (s_registry c) = 2 \<and> Streamed demo_profile 2 True \<notin> set h"
proof -
  have "cpm_sending (fst (cpm_run relink_ops)) = Some (0, demo_profile, 1)" by code_simp
  from stream_good [OF this, of "snd (cpm_run relink_ops)"]
  have r: "cpm_run (relink_ops @ Cpm_Stream good_io () 0 (Some [7]) # next_controller_ops) =
      foldl cpm_op_step (cpm_sender_done (fst (cpm_run relink_ops)) True, snd (cpm_run relink_ops) @ [Streamed demo_profile 1 True]) next_controller_ops"
    by (simp add: cpm_run_def)
  show ?thesis unfolding r by code_simp
qed

end
