(* ===== verification/Profile_Storage.thy ===== *)
theory Profile_Storage
  imports Profile_Manager
begin

text \<open>
  Profile files on the card (\<open>controller_profile_manager.c\<close>): recovery of an interrupted
  installation, installation of a profile, and the directory scan.

  The directory of one profile is a partial map from its three file names to their contents.  Every operation on
  it may fail; \<open>fs_env\<close> decides which do, by the number of the operation, what a file torn by a failed or
  interrupted write holds, and whether renaming onto an existing file replaces it (it does on the host,
  it fails on FAT).  \<open>fs_log\<close> keeps every directory state the card goes through, so a power failure leaves one of
  its entries.  \<open>stat\<close> and \<open>mkdir\<close> are taken as reliable.
\<close>

section \<open>The card\<close>

datatype prof_file = Target | Upload | Backup

type_synonym prof_dir = "prof_file \<Rightarrow> u8 list option"

record fs_env =
  fe_ok :: "nat \<Rightarrow> bool"
  fe_mem :: "nat \<Rightarrow> bool"
  fe_torn :: "nat \<Rightarrow> u8 list"
  fe_replace :: bool

record fs =
  fs_dir :: prof_dir
  fs_log :: "prof_dir list"

definition fs_step :: "fs \<Rightarrow> prof_dir \<Rightarrow> fs" where
  "fs_step s d = \<lparr>fs_dir = d, fs_log = fs_log s @ [d]\<rparr>"

definition fs_remove :: "fs_env \<Rightarrow> prof_file \<Rightarrow> fs \<Rightarrow> fs \<times> bool" where
  "fs_remove env f s =
     (let ok = fe_ok env (length (fs_log s)) \<and> fs_dir s f \<noteq> None
      in (fs_step s (if ok then (fs_dir s)(f := None) else fs_dir s), ok))"

definition fs_rename :: "fs_env \<Rightarrow> prof_file \<Rightarrow> prof_file \<Rightarrow> fs \<Rightarrow> fs \<times> bool" where
  "fs_rename env a b s =
     (let ok = fe_ok env (length (fs_log s)) \<and> fs_dir s a \<noteq> None \<and> (fs_dir s b = None \<or> fe_replace env)
      in (fs_step s (if ok then (fs_dir s)(b := fs_dir s a, a := None) else fs_dir s), ok))"

text \<open>Opening the upload file, writing, syncing and closing it; \<open>None\<close> when it cannot be opened.\<close>

definition fs_write_upload :: "fs_env \<Rightarrow> u8 list \<Rightarrow> fs \<Rightarrow> fs \<times> bool option" where
  "fs_write_upload env data s =
     (let n = length (fs_log s) in
      if \<not> fe_ok env n then (fs_step s (fs_dir s), None)
      else
        let s1 = fs_step s ((fs_dir s)(Upload \<mapsto> fe_torn env n)); ok = fe_ok env (Suc n)
        in (fs_step s1 ((fs_dir s)(Upload \<mapsto> (if ok then data else fe_torn env (Suc n)))), Some ok))"

section \<open>Operations\<close>

definition path_exists :: "fs \<Rightarrow> prof_file \<Rightarrow> bool" where
  "path_exists s f \<longleftrightarrow> fs_dir s f \<noteq> None"

definition build_storage_path :: "string \<Rightarrow> string \<Rightarrow> string option \<Rightarrow> bool" where
  "build_storage_path root pid filename \<longleftrightarrow>
     length root + 1 + length pid + (case filename of None \<Rightarrow> 0 | Some f \<Rightarrow> 1 + length f) < 160"

abbreviation (input) CPM_PROFILE_FILENAME :: string where "CPM_PROFILE_FILENAME \<equiv> ''profile.s3bin''"
abbreviation (input) CPM_UPLOAD_FILENAME :: string where "CPM_UPLOAD_FILENAME \<equiv> ''.profile.s3bin.upload''"
abbreviation (input) CPM_BACKUP_FILENAME :: string where "CPM_BACKUP_FILENAME \<equiv> ''.profile.s3bin.backup''"

definition validate_profile_file :: "fs_env \<Rightarrow> prof_file \<Rightarrow> fs \<Rightarrow> fs \<times> (esp_err + controller_profile_meta)" where
  "validate_profile_file env f s =
     (let n = length (fs_log s) in
      (fs_step s (fs_dir s),
       case fs_dir s f of
         None \<Rightarrow> Inl ESP_ERR_NOT_FOUND
       | Some content \<Rightarrow>
           if \<not> fe_mem env n then Inl ESP_ERR_NO_MEM
           else if \<not> fe_ok env n then Inl ESP_FAIL
           else case controller_profile_meta_parse (take (CPM_MAX_PROFILE_SIZE + 1) content) of
               None \<Rightarrow> Inl ESP_ERR_INVALID_ARG
             | Some m \<Rightarrow> Inr m))"

text \<open>The part of the recovery that replaces a bad target by a good backup; \<open>False\<close> when that fails half way.\<close>

definition restore_backup :: "fs_env \<Rightarrow> fs \<Rightarrow> fs \<times> bool" where
  "restore_backup env s =
     (case validate_profile_file env Target s of
        (s1, Inr m) \<Rightarrow> (s1, True)
      | (s1, Inl err) \<Rightarrow>
          if \<not> path_exists s1 Backup then (s1, True)
          else (case validate_profile_file env Backup s1 of
              (s2, Inl err) \<Rightarrow> (s2, True)
            | (s2, Inr m) \<Rightarrow>
                let (s3, removed) = fs_remove env Target s2
                in if \<not> removed then (s3, False) else fs_rename env Backup Target s3))"

definition storage_recover :: "fs_env \<Rightarrow> fs \<Rightarrow> fs \<times> esp_err" where
  "storage_recover env s =
     (if path_exists s Target then
        let (s1, ok) = restore_backup env s in
        if \<not> ok then (s1, ESP_FAIL)
        else let (s2, _) = fs_remove env Upload s1; (s3, _) = fs_remove env Backup s2 in (s3, ESP_OK)
      else
        let (s1, ok) = (if path_exists s Backup then fs_rename env Backup Target s else (s, True)) in
        if \<not> ok then (s1, ESP_FAIL)
        else let (s2, _) = fs_remove env Upload s1 in (s2, ESP_OK))"

definition storage_paths_ok :: "string \<Rightarrow> string \<Rightarrow> bool" where
  "storage_paths_ok root pid \<longleftrightarrow> build_storage_path root pid (Some CPM_PROFILE_FILENAME) \<and>
     build_storage_path root pid (Some CPM_UPLOAD_FILENAME) \<and> build_storage_path root pid (Some CPM_BACKUP_FILENAME)"

definition controller_profile_storage_recover :: "string \<Rightarrow> string \<Rightarrow> fs_env \<Rightarrow> fs \<Rightarrow> fs \<times> esp_err" where
  "controller_profile_storage_recover root pid env s =
     (if \<not> controller_profile_id_valid pid \<or> \<not> storage_paths_ok root pid then (s, ESP_ERR_INVALID_ARG)
      else storage_recover env s)"

text \<open>Moving the old profile aside, putting the new one in place and checking it.\<close>

definition commit_upload :: "fs_env \<Rightarrow> bool \<Rightarrow> fs \<Rightarrow> fs \<times> (esp_err + controller_profile_meta)" where
  "commit_upload env had_target s =
     (let (s1, moved) = (if had_target
            then let (s', _) = fs_remove env Backup s in fs_rename env Target Backup s' else (s, True)) in
      if \<not> moved then (fst (fs_remove env Upload s1), Inl ESP_FAIL)
      else
        let (s2, placed) = fs_rename env Upload Target s1 in
        if \<not> placed then
          let s3 = (if had_target then fst (fs_rename env Backup Target s2) else s2)
          in (fst (fs_remove env Upload s3), Inl ESP_FAIL)
        else (case validate_profile_file env Target s2 of
            (s3, Inl err) \<Rightarrow>
              let s4 = fst (fs_remove env Target s3)
              in (if had_target then fst (fs_rename env Backup Target s4) else s4, Inl err)
          | (s3, Inr m) \<Rightarrow> (fst (fs_remove env Backup s3), Inr m)))"

definition controller_profile_storage_install ::
    "string \<Rightarrow> string \<Rightarrow> u8 list \<Rightarrow> bool \<Rightarrow> fs_env \<Rightarrow> fs \<Rightarrow> fs \<times> (esp_err + controller_profile_meta)" where
  "controller_profile_storage_install root pid data overwrite env s =
     (if \<not> controller_profile_id_valid pid \<or> controller_profile_meta_parse data = None then (s, Inl ESP_ERR_INVALID_ARG)
      else if \<not> build_storage_path root pid None \<or> \<not> storage_paths_ok root pid then (s, Inl ESP_ERR_INVALID_ARG)
      else
        let (s1, rc) = controller_profile_storage_recover root pid env s in
        if rc \<noteq> ESP_OK then (s1, Inl rc)
        else
          let had_target = path_exists s1 Target in
          if had_target \<and> \<not> overwrite then (s1, Inl ESP_ERR_INVALID_STATE)
          else (case fs_write_upload env data s1 of
              (s2, None) \<Rightarrow> (s2, Inl ESP_FAIL)
            | (s2, Some False) \<Rightarrow> (fst (fs_remove env Upload s2), Inl ESP_FAIL)
            | (s2, Some True) \<Rightarrow>
                (case validate_profile_file env Upload s2 of
                   (s3, Inl err) \<Rightarrow> (fst (fs_remove env Upload s3), Inl err)
                 | (s3, Inr m) \<Rightarrow>
                     (case commit_upload env had_target s3 of
                        (s4, Inl err) \<Rightarrow> (s4, Inl err)
                      | (s4, Inr m') \<Rightarrow> (s4, Inr (m'\<lparr>meta_id := pid\<rparr>))))))"

text \<open>One entry of the scan: the metadata recorded for it, invalid ones too.\<close>

definition load_profile_meta :: "string \<Rightarrow> string \<Rightarrow> fs_env \<Rightarrow> fs \<Rightarrow> fs \<times> controller_profile_meta option" where
  "load_profile_meta dir_path name env s =
     (let n = length (fs_log s) in
      (fs_step s (fs_dir s),
       if \<not> length dir_path + 1 + length name + 1 + length CPM_PROFILE_FILENAME < 160 then None
       else case fs_dir s Target of
           None \<Rightarrow> None
         | Some content \<Rightarrow>
             if \<not> fe_mem env n then None
             else Some (case controller_profile_meta_parse (take (CPM_MAX_PROFILE_SIZE + 1) content) of
                 None \<Rightarrow> \<lparr>meta_id = take (CPM_ID_MAX - 1) name, meta_vid = 0, meta_pid = 0, meta_input_count = 0,
                          meta_output_count = 0, meta_size = 0, meta_valid = False\<rparr>
               | Some m \<Rightarrow> m\<lparr>meta_id := take (CPM_ID_MAX - 1) name\<rparr>)))"

text \<open>The directory entries in the order \<open>readdir\<close> yields them, each with its files and its failures.\<close>

fun scan_entries :: "string \<Rightarrow> (string \<times> fs_env \<times> fs) list \<Rightarrow> controller_profile_registry \<Rightarrow> controller_profile_registry" where
  "scan_entries root [] reg = reg"
| "scan_entries root ((name, env, s) # entries) reg =
     (if \<not> length (profiles reg) < CPM_MAX_PROFILES then reg
      else if name \<noteq> [] \<and> hd name = CHR ''.'' then scan_entries root entries reg
      else if \<not> controller_profile_id_valid name then scan_entries root entries reg
      else
        let (s1, rc) = controller_profile_storage_recover root name env s in
        if rc \<noteq> ESP_OK then scan_entries root entries reg
        else case load_profile_meta root name env s1 of
            (s2, None) \<Rightarrow> scan_entries root entries reg
          | (s2, Some m) \<Rightarrow> scan_entries root entries (reg\<lparr>profiles := profiles reg @ [m]\<rparr>))"

definition controller_profile_scan_dir ::
    "string \<Rightarrow> (string \<times> fs_env \<times> fs) list option \<Rightarrow> esp_err + controller_profile_registry" where
  "controller_profile_scan_dir root listing =
     (case listing of
        None \<Rightarrow> Inl ESP_ERR_NOT_FOUND
      | Some entries \<Rightarrow> Inr (scan_entries root entries registry_zero))"

section \<open>What survives\<close>

definition blob_valid :: "u8 list \<Rightarrow> bool" where
  "blob_valid x \<longleftrightarrow> controller_profile_meta_parse (take (CPM_MAX_PROFILE_SIZE + 1) x) \<noteq> None"

text \<open>The profile a directory stands for: the target file, or the backup when there is none.\<close>

definition surviving :: "prof_dir \<Rightarrow> u8 list option" where
  "surviving d = (case d Target of Some t \<Rightarrow> Some t | None \<Rightarrow> d Backup)"

definition dir_ok :: "u8 list option set \<Rightarrow> prof_dir \<Rightarrow> bool" where
  "dir_ok C d \<longleftrightarrow> surviving d \<in> C \<and> (\<forall>b. d Backup = Some b \<and> blob_valid b \<longrightarrow> Some b \<in> C)"

definition fs_ok :: "u8 list option set \<Rightarrow> fs \<Rightarrow> bool" where
  "fs_ok C s \<longleftrightarrow> dir_ok C (fs_dir s) \<and> list_all (dir_ok C) (fs_log s)"

lemma fs_step_simps [simp]: "fs_dir (fs_step s d) = d" "fs_log (fs_step s d) = fs_log s @ [d]"
  by (simp_all add: fs_step_def)

lemma fs_ok_step: "fs_ok C s \<Longrightarrow> dir_ok C d \<Longrightarrow> fs_ok C (fs_step s d)"
  by (simp add: fs_ok_def)

lemma fs_ok_same [simp]: "fs_ok C s \<Longrightarrow> fs_ok C (fs_step s (fs_dir s))"
  by (simp add: fs_ok_def)

lemma fs_ok_dir: "fs_ok C s \<Longrightarrow> dir_ok C (fs_dir s)"
  by (simp add: fs_ok_def)

lemma validate_dir [simp]: "fs_dir (fst (validate_profile_file env f s)) = fs_dir s"
  by (simp add: validate_profile_file_def Let_def)

lemma fs_ok_validate [simp]: "fs_ok C s \<Longrightarrow> fs_ok C (fst (validate_profile_file env f s))"
  by (simp add: validate_profile_file_def Let_def)

lemma validate_Inr: "snd (validate_profile_file env f s) = Inr m \<Longrightarrow> \<exists>x. fs_dir s f = Some x \<and> blob_valid x"
  by (auto simp: validate_profile_file_def blob_valid_def Let_def split: option.splits if_splits)

lemma remove_dir: "fs_dir (fst (fs_remove env f s)) = fs_dir s \<or> fs_dir (fst (fs_remove env f s)) = (fs_dir s)(f := None)"
  "snd (fs_remove env f s) \<Longrightarrow> fs_dir (fst (fs_remove env f s)) = (fs_dir s)(f := None)"
  by (simp_all add: fs_remove_def Let_def)

lemma fs_ok_remove:
  assumes "fs_ok C s" "dir_ok C ((fs_dir s)(f := None))"
  shows "fs_ok C (fst (fs_remove env f s))"
  using assms by (auto simp: fs_remove_def Let_def intro: fs_ok_step fs_ok_dir)

lemma fs_ok_rename:
  assumes "fs_ok C s" "fs_dir s a \<noteq> None \<Longrightarrow> dir_ok C ((fs_dir s)(b := fs_dir s a, a := None))"
  shows "fs_ok C (fst (fs_rename env a b s))"
  using assms by (auto simp: fs_rename_def Let_def intro: fs_ok_step fs_ok_dir)

lemma rename_dir:
  "fs_dir (fst (fs_rename env a b s)) =
     (if snd (fs_rename env a b s) then (fs_dir s)(b := fs_dir s a, a := None) else fs_dir s)"
  "snd (fs_rename env a b s) \<Longrightarrow> fs_dir s a \<noteq> None"
  by (auto simp: fs_rename_def Let_def)

lemma remove_upload [simp]:
  "fs_ok C s \<Longrightarrow> fs_ok C (fst (fs_remove env Upload s))"
  "fs_dir (fst (fs_remove env Upload s)) Target = fs_dir s Target"
  "fs_dir (fst (fs_remove env Upload s)) Backup = fs_dir s Backup"
proof -
  have "dir_ok C (d(Upload := x)) = dir_ok C d" for d x by (cases "d Target") (simp_all add: dir_ok_def surviving_def)
  then show "fs_ok C s \<Longrightarrow> fs_ok C (fst (fs_remove env Upload s))" by (simp add: fs_ok_remove fs_ok_dir)
  show "fs_dir (fst (fs_remove env Upload s)) Target = fs_dir s Target"
    "fs_dir (fst (fs_remove env Upload s)) Backup = fs_dir s Backup"
    using remove_dir(1) [of env Upload s] by auto
qed

lemma fs_ok_remove_backup:
  "fs_ok C s \<Longrightarrow> fs_dir s Target \<noteq> None \<Longrightarrow> fs_ok C (fst (fs_remove env Backup s))"
  by (rule fs_ok_remove) (auto simp: dir_ok_def surviving_def dest: fs_ok_dir)

lemma remove_backup_dir [simp]:
  "fs_dir (fst (fs_remove env Backup s)) Target = fs_dir s Target"
  "fs_dir (fst (fs_remove env Backup s)) Upload = fs_dir s Upload"
  using remove_dir(1) [of env Backup s] by auto

lemma fs_ok_restore_rename:
  assumes "fs_ok C s" "fs_dir s Backup \<noteq> None \<Longrightarrow> fs_dir s Backup \<in> C"
  shows "fs_ok C (fst (fs_rename env Backup Target s))"
  by (rule fs_ok_rename) (use assms in \<open>auto simp: dir_ok_def surviving_def split: option.splits\<close>)

section \<open>Recovery\<close>

lemma dir_ok_upload: "dir_ok C (d(Upload := x)) = dir_ok C d"
  by (cases "d Target") (simp_all add: dir_ok_def surviving_def)

lemma restore_backup_ok:
  assumes "fs_ok C s" "fs_dir s Target \<noteq> None"
  shows "fs_ok C (fst (restore_backup env s))"
    and "snd (restore_backup env s) \<Longrightarrow> fs_dir (fst (restore_backup env s)) Target \<noteq> None"
proof -
  let ?v = "validate_profile_file env Target s"
  let ?w = "validate_profile_file env Backup (fst ?v)"
  let ?x = "fs_remove env Target (fst ?w)"
  let ?y = "fs_rename env Backup Target (fst ?x)"
  have r: "restore_backup env s =
      (case snd ?v of Inr m \<Rightarrow> (fst ?v, True)
       | Inl e \<Rightarrow> if fs_dir (fst ?v) Backup = None then (fst ?v, True)
           else (case snd ?w of Inl e \<Rightarrow> (fst ?w, True)
                 | Inr m \<Rightarrow> if \<not> snd ?x then (fst ?x, False) else ?y))"
    by (cases ?v; cases ?w; cases ?x) (auto simp: restore_backup_def path_exists_def Let_def split: sum.splits)
  have ok: "fs_ok C (fst ?v)" "fs_ok C (fst ?w)" using assms(1) by simp_all
  have fin: "fs_ok C (fst ?x) \<and> (snd ?x \<longrightarrow> fs_ok C (fst ?y) \<and> (snd ?y \<longrightarrow> fs_dir (fst ?y) Target \<noteq> None))"
    if w: "snd ?w = Inr m" for m
  proof -
    obtain b where b: "fs_dir s Backup = Some b" "blob_valid b" using validate_Inr [OF w] by auto
    then have bC: "Some b \<in> C" using assms(1) by (auto simp: fs_ok_def dir_ok_def)
    have x: "fs_ok C (fst ?x)"
      by (rule fs_ok_remove [OF ok(2)]) (use bC b in \<open>simp add: dir_ok_def surviving_def\<close>)
    moreover have bx: "fs_dir (fst ?x) Backup = Some b" using remove_dir(1) [of env Target "fst ?w"] b by auto
    moreover have "fs_ok C (fst ?y)" by (rule fs_ok_restore_rename [OF x]) (use bx bC in simp)
    moreover have "snd ?y \<Longrightarrow> fs_dir (fst ?y) Target \<noteq> None" using rename_dir(1) [of env Backup Target "fst ?x"] bx by simp
    ultimately show ?thesis by simp
  qed
  show "fs_ok C (fst (restore_backup env s))"
    using ok fin unfolding r by (auto split: sum.splits)
  show "snd (restore_backup env s) \<Longrightarrow> fs_dir (fst (restore_backup env s)) Target \<noteq> None"
    using assms(2) fin unfolding r by (auto split: sum.splits if_splits)
qed

lemma recover_ok:
  assumes "fs_ok C s"
  shows "fs_ok C (fst (storage_recover env s))"
    and "snd (storage_recover env s) = ESP_OK \<Longrightarrow>
      fs_dir (fst (storage_recover env s)) Target = None \<Longrightarrow> fs_dir (fst (storage_recover env s)) Backup = None"
proof -
  have "fs_ok C (fst (storage_recover env s)) \<and> (snd (storage_recover env s) = ESP_OK \<longrightarrow>
      fs_dir (fst (storage_recover env s)) Target = None \<longrightarrow> fs_dir (fst (storage_recover env s)) Backup = None)"
  proof (cases "fs_dir s Target = None")
    case False
    note b = restore_backup_ok [OF assms False, of env]
    let ?u = "fst (fs_remove env Upload (fst (restore_backup env s)))"
    have e: "storage_recover env s = (if snd (restore_backup env s) then (fst (fs_remove env Backup ?u), ESP_OK)
        else (fst (restore_backup env s), ESP_FAIL))"
      using False by (simp add: storage_recover_def path_exists_def split_beta)
    show ?thesis using b fs_ok_remove_backup [of C ?u env] unfolding e by auto
  next
    case True
    let ?r = "fs_rename env Backup Target s"
    have e: "storage_recover env s =
        (if fs_dir s Backup \<noteq> None \<and> \<not> snd ?r then (fst ?r, ESP_FAIL)
         else (fst (fs_remove env Upload (if fs_dir s Backup \<noteq> None then fst ?r else s)), ESP_OK))"
      using True by (auto simp: storage_recover_def path_exists_def split_beta)
    have "fs_ok C (fst ?r)"
      by (rule fs_ok_restore_rename [OF assms]) (use assms True in \<open>simp add: fs_ok_def dir_ok_def surviving_def\<close>)
    moreover have "snd ?r \<Longrightarrow> fs_dir (fst ?r) Target \<noteq> None"
      using rename_dir [of env Backup Target s] by auto
    ultimately show ?thesis using assms unfolding e by auto
  qed
  then show "fs_ok C (fst (storage_recover env s))"
    "snd (storage_recover env s) = ESP_OK \<Longrightarrow>
      fs_dir (fst (storage_recover env s)) Target = None \<Longrightarrow> fs_dir (fst (storage_recover env s)) Backup = None"
    by simp_all
qed

section \<open>Installation\<close>

lemma commit_ok:
  assumes "fs_ok C s" "had_target \<longleftrightarrow> fs_dir s Target \<noteq> None" "fs_dir s Upload = Some data" "Some data \<in> C"
    "\<not> had_target \<Longrightarrow> fs_dir s Backup = None" "blob_valid data"
  shows "fs_ok C (fst (commit_upload env had_target s))"
    and "snd (commit_upload env had_target s) = Inr m \<Longrightarrow> fs_dir (fst (commit_upload env had_target s)) Target = Some data"
proof -
  let ?a = "if had_target then fs_rename env Target Backup (fst (fs_remove env Backup s)) else (s, True)"
  let ?b = "fs_rename env Upload Target (fst ?a)"
  let ?c = "validate_profile_file env Target (fst ?b)"
  have old: "surviving (fs_dir s) \<in> C" using assms(1) by (simp add: fs_ok_def dir_ok_def)
  have a_ok: "fs_ok C (fst ?a)"
  proof (cases had_target)
    case True
    have "fs_ok C (fst (fs_remove env Backup s))" by (rule fs_ok_remove_backup) (use assms True in auto)
    then have "fs_ok C (fst (fs_rename env Target Backup (fst (fs_remove env Backup s))))"
      by (rule fs_ok_rename) (use old True assms(2) in \<open>auto simp: dir_ok_def surviving_def\<close>)
    then show ?thesis using True by simp
  qed (use assms(1) in simp)
  have a_dir: "fs_dir (fst ?a) Upload = Some data \<and> (snd ?a \<longrightarrow> fs_dir (fst ?a) Target = None \<and>
      fs_dir (fst ?a) Backup = fs_dir s Target)"
  proof (cases had_target)
    case True
    then show ?thesis using rename_dir(1) [of env Target Backup "fst (fs_remove env Backup s)"] assms(3) by simp
  qed (use assms(2,3,5) in auto)
  have tC: "fs_dir s Target \<in> C" if "snd ?a"
    using old assms(2,5) by (cases had_target) (auto simp: surviving_def)
  have b_ok: "fs_ok C (fst ?b)" if "snd ?a"
    by (rule fs_ok_rename [OF a_ok]) (use a_dir that assms(4) tC in \<open>auto simp: dir_ok_def surviving_def\<close>)
  have b_dir: "snd ?a \<Longrightarrow> fs_dir (fst ?b) Backup = fs_dir s Target"
    "snd ?a \<Longrightarrow> snd ?b \<Longrightarrow> fs_dir (fst ?b) Target = Some data"
    "snd ?a \<Longrightarrow> \<not> snd ?b \<Longrightarrow> fs_dir (fst ?b) Target = None"
    using rename_dir(1) [of env Upload Target "fst ?a"] a_dir by auto
  have undo: "fs_ok C (fst (fs_rename env Backup Target x))" if "fs_ok C x" "fs_dir x Backup = fs_dir s Target" "snd ?a" for x
    by (rule fs_ok_restore_rename [OF that(1)]) (use that(2) tC [OF that(3)] in simp)
  have rm: "fs_ok C (fst (fs_remove env Target (fst ?c))) \<and> fs_dir (fst (fs_remove env Target (fst ?c))) Backup = fs_dir s Target"
    if "snd ?a" "snd ?b"
  proof
    have ok: "fs_ok C (fst ?c)" using b_ok that by simp
    show "fs_ok C (fst (fs_remove env Target (fst ?c)))"
      by (rule fs_ok_remove [OF ok])
        (use b_dir that tC in \<open>auto simp: dir_ok_def surviving_def\<close>)
    show "fs_dir (fst (fs_remove env Target (fst ?c))) Backup = fs_dir s Target"
      using remove_dir(1) [of env Target "fst ?c"] b_dir that by auto
  qed
  have e: "commit_upload env had_target s =
      (if \<not> snd ?a then (fst (fs_remove env Upload (fst ?a)), Inl ESP_FAIL)
       else if \<not> snd ?b then (fst (fs_remove env Upload (if had_target then fst (fs_rename env Backup Target (fst ?b)) else fst ?b)), Inl ESP_FAIL)
       else (case snd ?c of
           Inl err \<Rightarrow> (if had_target then fst (fs_rename env Backup Target (fst (fs_remove env Target (fst ?c))))
                       else fst (fs_remove env Target (fst ?c)), Inl err)
         | Inr m \<Rightarrow> (fst (fs_remove env Backup (fst ?c)), Inr m)))"
    unfolding commit_upload_def Let_def by (simp add: split_beta split: sum.split)
  have done_ok: "fs_ok C (fst (fs_remove env Backup (fst ?c)))" if "snd ?a" "snd ?b"
    by (rule fs_ok_remove_backup) (use b_ok b_dir that in auto)
  show "fs_ok C (fst (commit_upload env had_target s))"
    using a_ok b_ok undo [OF b_ok] b_dir(1) rm undo [of "fst (fs_remove env Target (fst ?c))"] done_ok
    unfolding e by (auto split: sum.split)
  show "snd (commit_upload env had_target s) = Inr m \<Longrightarrow> fs_dir (fst (commit_upload env had_target s)) Target = Some data"
    using b_dir(2) unfolding e by (auto split: sum.splits if_splits)
qed

lemma blob_valid_data: "controller_profile_meta_parse data \<noteq> None \<Longrightarrow> blob_valid data"
proof -
  assume a: "controller_profile_meta_parse data \<noteq> None"
  then have "length data \<le> 16384" by (auto simp: controller_profile_meta_parse_def Let_def split: if_splits)
  then show ?thesis using a by (simp add: blob_valid_def)
qed

lemma write_upload:
  "fs_ok C s \<Longrightarrow> fs_ok C (fst (fs_write_upload env data s))"
  "fs_dir (fst (fs_write_upload env data s)) Target = fs_dir s Target"
  "fs_dir (fst (fs_write_upload env data s)) Backup = fs_dir s Backup"
  "snd (fs_write_upload env data s) = Some True \<Longrightarrow> fs_dir (fst (fs_write_upload env data s)) Upload = Some data"
  by (auto simp: fs_write_upload_def Let_def dir_ok_upload fs_ok_dir intro!: fs_ok_step split: if_splits)

lemma map_sum_Inr: "map_sum f g x = Inr y \<longleftrightarrow> (\<exists>z. x = Inr z \<and> y = g z)"
  by (cases x) auto

lemma install_unfold:
  assumes "controller_profile_id_valid pid" "controller_profile_meta_parse data \<noteq> None"
    "build_storage_path root pid None" "storage_paths_ok root pid"
    and r: "r = storage_recover env s" and w: "w = fs_write_upload env data (fst r)"
    and v: "v = validate_profile_file env Upload (fst w)"
    and c: "c = commit_upload env (fs_dir (fst r) Target \<noteq> None) (fst v)"
  shows "controller_profile_storage_install root pid data overwrite env s =
     (if snd r \<noteq> ESP_OK then (fst r, Inl (snd r))
      else if fs_dir (fst r) Target \<noteq> None \<and> \<not> overwrite then (fst r, Inl ESP_ERR_INVALID_STATE)
      else (case snd w of None \<Rightarrow> (fst w, Inl ESP_FAIL)
        | Some ok \<Rightarrow> if \<not> ok then (fst (fs_remove env Upload (fst w)), Inl ESP_FAIL)
            else (case snd v of Inl err \<Rightarrow> (fst (fs_remove env Upload (fst v)), Inl err)
              | Inr m \<Rightarrow> (fst c, map_sum id (\<lambda>m. m\<lparr>meta_id := pid\<rparr>) (snd c)))))"
proof -
  obtain s1 rc where r1: "storage_recover env s = (s1, rc)" by fastforce
  obtain s2 o2 where w2: "fs_write_upload env data s1 = (s2, o2)" by fastforce
  obtain s3 o3 where v3: "validate_profile_file env Upload s2 = (s3, o3)" by fastforce
  obtain s4 o4 where c4: "commit_upload env (fs_dir s1 Target \<noteq> None) s3 = (s4, o4)" by fastforce
  have "r = (s1, rc)" "w = (s2, o2)" "v = (s3, o3)" "c = (s4, o4)" using r w v c r1 w2 v3 c4 by simp_all
  then show ?thesis
    using assms(1-4) r1 w2 v3 c4
    by (cases o2; cases o3; cases o4)
      (auto simp: controller_profile_storage_install_def controller_profile_storage_recover_def path_exists_def split: bool.splits)
qed

lemma install_ok:
  assumes "fs_ok C s" "Some data \<in> C"
  shows "fs_ok C (fst (controller_profile_storage_install root pid data overwrite env s))"
    and "snd (controller_profile_storage_install root pid data overwrite env s) = Inr m \<Longrightarrow>
      fs_dir (fst (controller_profile_storage_install root pid data overwrite env s)) Target = Some data"
proof -
  let ?i = "controller_profile_storage_install root pid data overwrite env s"
  have "fs_ok C (fst ?i) \<and> (snd ?i = Inr m \<longrightarrow> fs_dir (fst ?i) Target = Some data)"
  proof (cases "controller_profile_id_valid pid \<and> controller_profile_meta_parse data \<noteq> None \<and>
      build_storage_path root pid None \<and> storage_paths_ok root pid")
    case False
    then have "fst ?i = s" "snd ?i = Inl ESP_ERR_INVALID_ARG" by (auto simp: controller_profile_storage_install_def)
    then show ?thesis using assms(1) by simp
  next
    case True
    let ?r = "storage_recover env s"
    let ?w = "fs_write_upload env data (fst ?r)"
    let ?v = "validate_profile_file env Upload (fst ?w)"
    let ?had = "fs_dir (fst ?r) Target \<noteq> None"
    note r = recover_ok [OF assms(1), of env]
    have w: "fs_ok C (fst ?w)" using write_upload(1) [OF r(1)] .
    have c: "fs_ok C (fst (commit_upload env ?had (fst ?v)))"
      "snd (commit_upload env ?had (fst ?v)) = Inr m' \<Longrightarrow> fs_dir (fst (commit_upload env ?had (fst ?v))) Target = Some data"
      if ok: "snd ?r = ESP_OK" "snd ?w = Some True" for m'
    proof -
      have d: "fs_dir (fst ?v) Target = fs_dir (fst ?r) Target" "fs_dir (fst ?v) Backup = fs_dir (fst ?r) Backup"
        "fs_dir (fst ?v) Upload = Some data" using write_upload(2,3) write_upload(4) [OF ok(2)] by simp_all
      note k = commit_ok [of C "fst ?v" ?had data env, OF fs_ok_validate [OF w] _ d(3) assms(2)]
      show "fs_ok C (fst (commit_upload env ?had (fst ?v)))"
        "snd (commit_upload env ?had (fst ?v)) = Inr m' \<Longrightarrow> fs_dir (fst (commit_upload env ?had (fst ?v))) Target = Some data"
        using k d r(2) [OF ok(1)] True blob_valid_data [of data] by auto
    qed
    show ?thesis
      using r(1) w c True
      by (subst (1 2 3) install_unfold [OF _ _ _ _ refl refl refl refl]) (auto simp: map_sum_Inr split: option.splits sum.splits if_splits)
  qed
  then show "fs_ok C (fst ?i)" "snd ?i = Inr m \<Longrightarrow> fs_dir (fst ?i) Target = Some data" by simp_all
qed

section \<open>Scan\<close>

lemma scan_entries_ok: "scanned_ok reg \<Longrightarrow> scanned_ok (scan_entries root entries reg)"
proof (induction entries arbitrary: reg)
  case (Cons e entries)
  obtain name env s where e: "e = (name, env, s)" by (metis prod_cases3)
  obtain s1 rc where r: "controller_profile_storage_recover root name env s = (s1, rc)" by fastforce
  obtain s2 m where l: "load_profile_meta root name env s1 = (s2, m)" by fastforce
  have add: "scanned_ok (reg\<lparr>profiles := profiles reg @ [m']\<rparr>)" if "length (profiles reg) < CPM_MAX_PROFILES" for m'
    using Cons.prems that by (simp add: scanned_ok_def)
  show ?case
    unfolding e scan_entries.simps r Let_def prod.case l
    by (cases m) (simp_all add: Cons add)
qed simp

lemma scan_dir_ok: "controller_profile_scan_dir root listing = Inr reg \<Longrightarrow> scanned_ok reg"
  using scan_entries_ok [of registry_zero root]
  by (auto simp: controller_profile_scan_dir_def scanned_ok_def registry_zero_def split: option.splits)

section \<open>A card without faults\<close>

definition faultless :: "fs_env \<Rightarrow> bool" where
  "faultless env \<longleftrightarrow> fe_ok env = (\<lambda>_. True) \<and> fe_mem env = (\<lambda>_. True)"

lemma faultless_ops:
  assumes "faultless env"
  shows "fs_remove env f s = (fs_step s ((fs_dir s)(f := None)), fs_dir s f \<noteq> None)"
    and "fs_dir s b = None \<Longrightarrow> fs_rename env a b s =
      (fs_step s (if fs_dir s a = None then fs_dir s else (fs_dir s)(b := fs_dir s a, a := None)), fs_dir s a \<noteq> None)"
    and "fs_write_upload env data s = (fst (fs_write_upload env data s), Some True)"
    and "snd (validate_profile_file env f s) = (case fs_dir s f of None \<Rightarrow> Inl ESP_ERR_NOT_FOUND | Some x \<Rightarrow>
      (case controller_profile_meta_parse (take (CPM_MAX_PROFILE_SIZE + 1) x) of None \<Rightarrow> Inl ESP_ERR_INVALID_ARG | Some m \<Rightarrow> Inr m))"
  using assms
  by (auto simp: faultless_def fs_remove_def fs_rename_def fs_write_upload_def validate_profile_file_def Let_def
      fs_step_def fun_eq_iff split: option.splits)

lemma recover_target:
  assumes "faultless env" "fs_dir s Target = Some t" "blob_valid t"
  shows "snd (storage_recover env s) = ESP_OK"
    "fs_dir (fst (storage_recover env s)) = (fs_dir s)(Upload := None, Backup := None)"
proof -
  obtain m where "snd (validate_profile_file env Target s) = Inr m"
    using assms(2,3) by (auto simp: faultless_ops(4) [OF assms(1)] blob_valid_def split: option.splits)
  then have "restore_backup env s = (fst (validate_profile_file env Target s), True)"
    by (cases "validate_profile_file env Target s") (simp add: restore_backup_def)
  then show "snd (storage_recover env s) = ESP_OK"
    "fs_dir (fst (storage_recover env s)) = (fs_dir s)(Upload := None, Backup := None)"
    using assms(2) by (simp_all add: storage_recover_def path_exists_def faultless_ops(1) [OF assms(1)])
qed

lemma recover_backup:
  assumes "faultless env" "fs_dir s Target = None"
  shows "snd (storage_recover env s) = ESP_OK"
    "fs_dir (fst (storage_recover env s)) = (fs_dir s)(Target := fs_dir s Backup, Backup := None, Upload := None)"
  using assms(2) faultless_ops(2) [OF assms(1), of s Target Backup]
  by (auto simp: storage_recover_def path_exists_def faultless_ops(1) [OF assms(1)] fun_eq_iff)

lemma recover_faultless:
  assumes "faultless env" "\<And>t. fs_dir s Target = Some t \<Longrightarrow> blob_valid t"
  shows "snd (storage_recover env s) = ESP_OK \<and> fs_dir (fst (storage_recover env s)) Target = surviving (fs_dir s) \<and>
     fs_dir (fst (storage_recover env s)) Upload = None \<and> fs_dir (fst (storage_recover env s)) Backup = None"
proof (cases "fs_dir s Target")
  case None
  then show ?thesis using recover_backup [OF assms(1) None] by (simp add: surviving_def)
next
  case (Some t)
  then show ?thesis using recover_target [OF assms(1) Some assms(2) [OF Some]] by (simp add: surviving_def)
qed

lemma validate_data:
  assumes "faultless env" "controller_profile_meta_parse data = Some m" "fs_dir s f = Some data"
  shows "validate_profile_file env f s = (fs_step s (fs_dir s), Inr m)"
proof -
  have "length data \<le> 16384" using assms(2) by (auto simp: controller_profile_meta_parse_def Let_def split: if_splits)
  then show ?thesis
    using assms by (simp add: validate_profile_file_def faultless_def Let_def)
qed

lemma commit_faultless:
  assumes "faultless env" "controller_profile_meta_parse data = Some m" "fs_dir s Upload = Some data" "fs_dir s Backup = None"
  shows "snd (commit_upload env (fs_dir s Target \<noteq> None) s) = Inr m"
    "fs_dir (fst (commit_upload env (fs_dir s Target \<noteq> None) s)) = [Target \<mapsto> data]"
proof -
  have all: "d = [Target \<mapsto> data]" if "d Target = Some data" "d Upload = None" "d Backup = None" for d :: prof_dir
  proof
    fix f show "d f = [Target \<mapsto> data] f" using that by (cases f) auto
  qed
  note ops = faultless_ops(1,2) [OF assms(1)] validate_data [OF assms(1,2)]
  have "snd (commit_upload env (fs_dir s Target \<noteq> None) s) = Inr m \<and>
      fs_dir (fst (commit_upload env (fs_dir s Target \<noteq> None) s)) = [Target \<mapsto> data]"
    using assms(3,4) by (auto simp: commit_upload_def ops intro!: all)
  then show "snd (commit_upload env (fs_dir s Target \<noteq> None) s) = Inr m"
    "fs_dir (fst (commit_upload env (fs_dir s Target \<noteq> None) s)) = [Target \<mapsto> data]" by simp_all
qed

section \<open>Properties\<close>

abbreviation (input) card :: "prof_dir \<Rightarrow> fs" where
  "card d \<equiv> \<lparr>fs_dir = d, fs_log = []\<rparr>"

text \<open>
  Claim C10.  Installing a profile is crash safe: however the card's operations fail and wherever power is lost, the
  recovery that runs at the next scan succeeds and leaves a single valid profile file, the one that was there, the
  new one, or a valid backup left by an earlier run; no torn file ever becomes the profile.
\<close>

theorem install_crash_safe:
  assumes "surviving d0 = Some old" "blob_valid old" "controller_profile_meta_parse data \<noteq> None" "faultless good"
  shows "list_all (\<lambda>crash. let (s, rc) = storage_recover good (card crash) in
       rc = ESP_OK \<and> fs_dir s Upload = None \<and> fs_dir s Backup = None \<and>
       (\<exists>p. fs_dir s Target = Some p \<and> blob_valid p \<and> (p = old \<or> p = data \<or> d0 Backup = Some p)))
     (fs_log (fst (controller_profile_storage_install root pid data overwrite env (card d0))))"
proof -
  let ?C = "{Some p | p. blob_valid p \<and> (p = old \<or> p = data \<or> d0 Backup = Some p)}"
  have "fs_ok ?C (card d0)" using assms(1,2) by (auto simp: fs_ok_def dir_ok_def)
  moreover have "Some data \<in> ?C" using blob_valid_data [OF assms(3)] by simp
  ultimately have log: "list_all (dir_ok ?C) (fs_log (fst (controller_profile_storage_install root pid data overwrite env (card d0))))"
    using install_ok(1) [of ?C "card d0" data root pid overwrite env] by (simp add: fs_ok_def)
  have rec: "let (s, rc) = storage_recover good (card d) in
       rc = ESP_OK \<and> fs_dir s Upload = None \<and> fs_dir s Backup = None \<and>
       (\<exists>p. fs_dir s Target = Some p \<and> blob_valid p \<and> (p = old \<or> p = data \<or> d0 Backup = Some p))"
    if ok: "dir_ok ?C d" for d
  proof -
    obtain p where p: "surviving d = Some p" "blob_valid p" "p = old \<or> p = data \<or> d0 Backup = Some p"
      using ok by (auto simp: dir_ok_def)
    have "blob_valid t" if "d Target = Some t" for t using p(1,2) that by (simp add: surviving_def)
    with recover_faultless [OF assms(4), of "card d"] p show ?thesis by (simp add: split_beta Let_def)
  qed
  show ?thesis using log by (rule list.pred_mono_strong) (rule rec)
qed

definition no_faults :: fs_env where
  "no_faults = \<lparr>fe_ok = (\<lambda>_. True), fe_mem = (\<lambda>_. True), fe_torn = (\<lambda>_. []), fe_replace = False\<rparr>"

lemma sample_meta: "controller_profile_meta_parse sample_profile \<noteq> None"
  using sample_parses meta_parse_agrees [of sample_profile] by fastforce

theorem install_crash_safe_witness:
  "list_all (\<lambda>crash. \<exists>p. fs_dir (fst (storage_recover no_faults (card crash))) Target = Some p \<and> blob_valid p)
     (fs_log (fst (controller_profile_storage_install ''/sd/controllers'' ''flx4'' sample_profile True
        (no_faults\<lparr>fe_ok := (\<lambda>n. n < 7)\<rparr>) (card [Target \<mapsto> sample_profile]))))"
proof -
  have "surviving [Target \<mapsto> sample_profile] = Some sample_profile" by (simp add: surviving_def)
  from install_crash_safe [OF this blob_valid_data [OF sample_meta] sample_meta, of no_faults "''/sd/controllers''" "''flx4''" True
      "no_faults\<lparr>fe_ok := (\<lambda>n. n < 7)\<rparr>"]
  show ?thesis by (auto simp: list_all_iff split_beta Let_def faultless_def no_faults_def)
qed

text \<open>
  Claim C26.  Results of an installation on a card without faults: invalid arguments touch nothing, an existing
  profile is kept and reported unless overwriting was asked for, and otherwise the new profile is the only file left
  and its metadata are returned.
\<close>

theorem install_results:
  assumes "faultless env" "\<And>t. d Target = Some t \<Longrightarrow> blob_valid t"
  shows "case controller_profile_storage_install root pid data overwrite env (card d) of (s, result) \<Rightarrow>
     if \<not> controller_profile_id_valid pid \<or> controller_profile_meta_parse data = None \<or>
        \<not> build_storage_path root pid None \<or> \<not> storage_paths_ok root pid
     then result = Inl ESP_ERR_INVALID_ARG \<and> s = card d
     else if surviving d \<noteq> None \<and> \<not> overwrite
     then result = Inl ESP_ERR_INVALID_STATE \<and> fs_dir s Target = surviving d
     else (\<exists>m. controller_profile_meta_parse data = Some m \<and> result = Inr (m\<lparr>meta_id := pid\<rparr>)) \<and>
          fs_dir s = [Target \<mapsto> data]"
proof (cases "controller_profile_id_valid pid \<and> controller_profile_meta_parse data \<noteq> None \<and>
      build_storage_path root pid None \<and> storage_paths_ok root pid")
  case False
  then show ?thesis by (auto simp: controller_profile_storage_install_def)
next
  case True
  then obtain m where m: "controller_profile_meta_parse data = Some m" by auto
  let ?r = "storage_recover env (card d)"
  let ?w = "fs_write_upload env data (fst ?r)"
  let ?v = "validate_profile_file env Upload (fst ?w)"
  have r: "snd ?r = ESP_OK" "fs_dir (fst ?r) Target = surviving d" "fs_dir (fst ?r) Backup = None"
    using recover_faultless [OF assms(1), of "card d"] assms(2) by simp_all
  have w: "snd ?w = Some True" "fs_dir (fst ?w) Upload = Some data"
    using faultless_ops(3) [OF assms(1), of data "fst ?r"] write_upload(4) [of env data "fst ?r"] by (metis snd_conv)+
  have v: "?v = (fs_step (fst ?w) (fs_dir (fst ?w)), Inr m)" by (rule validate_data [OF assms(1) m w(2)])
  have d: "fs_dir (fst ?v) Target = surviving d" "fs_dir (fst ?v) Backup = None" "fs_dir (fst ?v) Upload = Some data"
    using v w(2) r write_upload(2,3) [of env data "fst ?r"] by simp_all
  have c: "snd (commit_upload env (surviving d \<noteq> None) (fst ?v)) = Inr m"
    "fs_dir (fst (commit_upload env (surviving d \<noteq> None) (fst ?v))) = [Target \<mapsto> data]"
    using commit_faultless [OF assms(1) m d(3,2)] unfolding d(1) by simp_all
  have i: "controller_profile_storage_install root pid data overwrite env (card d) =
      (if surviving d \<noteq> None \<and> \<not> overwrite then (fst ?r, Inl ESP_ERR_INVALID_STATE)
       else (fst (commit_upload env (surviving d \<noteq> None) (fst ?v)), Inr (m\<lparr>meta_id := pid\<rparr>)))"
    using True r(1) w(1) v c(1) r(2) by (subst install_unfold [OF _ _ _ _ refl refl refl refl]) auto
  show ?thesis using True m r(2) c(2) unfolding i by (auto simp: split_beta)
qed

theorem install_results_witness:
  "\<exists>m. controller_profile_storage_install ''/sd/controllers'' ''flx4'' sample_profile True no_faults (card (\<lambda>_. None)) =
     (fst (controller_profile_storage_install ''/sd/controllers'' ''flx4'' sample_profile True no_faults (card (\<lambda>_. None))), Inr m) \<and>
     fs_dir (fst (controller_profile_storage_install ''/sd/controllers'' ''flx4'' sample_profile True no_faults (card (\<lambda>_. None))))
       = [Target \<mapsto> sample_profile]"
proof -
  have "controller_profile_id_valid ''flx4''" "build_storage_path ''/sd/controllers'' ''flx4'' None"
    "storage_paths_ok ''/sd/controllers'' ''flx4''" by code_simp+
  moreover have "faultless no_faults" by (simp add: faultless_def no_faults_def)
  ultimately show ?thesis
    using install_results [where env = no_faults and d = "\<lambda>_. None" and root = "''/sd/controllers''" and pid = "''flx4''"
        and data = sample_profile and overwrite = True] sample_meta
    by (auto simp: split_beta surviving_def prod_eq_iff)
qed

end
