(* ===== verification/Held_Delivery.thy ===== *)
theory Held_Delivery
  imports Held_State
begin

text \<open>
  Delivery of held levels to the next stage.  Both boards run the same loop: walk the dirty slots, hand each desired
  level on, mark it scheduled, and stop at the first refusal.  The S3 hands levels to the UART, the P4 to
  the deck queue.  This theory states what such a stage shows of the slots (\<open>held_view\<close>, \<open>held_wanted\<close>) and proves the
  loop once, in the locale \<open>held_flush\<close>.
\<close>

section \<open>Views of the slots\<close>

text \<open>\<open>held_view h level\<close>: the levels the next stage has seen are the scheduled values of the slots.\<close>

definition held_view :: "control_held_state_reconciler \<Rightarrow> (nat \<Rightarrow> i16 option) \<Rightarrow> bool" where
  "held_view h level \<longleftrightarrow> held_inv h \<and>
     (\<forall>k < CONTROL_HELD_STATE_COUNT. scheduled_valid (h ! k) \<longrightarrow> observed (h ! k)) \<and>
     (\<forall>k < CONTROL_HELD_STATE_COUNT. level k = (if scheduled_valid (h ! k) then Some (scheduled_value (h ! k)) else None))"

text \<open>The control and level a slot wants the next stage to have.\<close>

definition held_wanted :: "control_held_state_reconciler \<Rightarrow> nat \<Rightarrow> (u8 \<times> i16) option" where
  "held_wanted h k = (if observed (h ! k) then Some (held_id (h ! k), desired_value (h ! k)) else None)"

definition held_clean :: "control_held_state_reconciler \<Rightarrow> nat \<Rightarrow> bool" where
  "held_clean h n \<longleftrightarrow> (\<forall>i<n. i < CONTROL_HELD_STATE_COUNT \<longrightarrow> \<not> (observed (h ! i) \<and> dirty (h ! i)))"

definition released :: "(u8 \<times> i16) option \<Rightarrow> (u8 \<times> i16) option" where
  "released w = map_option (\<lambda>(cid, v). (cid, control_held_state_release_value cid v)) w"

lemma held_viewD: "held_view h level \<Longrightarrow> length h = CONTROL_HELD_STATE_COUNT \<and> held_inv h"
  by (simp add: held_view_def held_inv_def)

lemma held_view_cong: "held_view h level \<Longrightarrow> (\<And>k. level' k = level k) \<Longrightarrow> held_view h level'"
  by (simp add: held_view_def)

lemma held_view_reset: "held_view control_held_state_reset (\<lambda>k. None)"
  using held_inv_reset by (simp add: held_view_def control_held_state_reset_def)

lemma held_wanted_reset: "k < CONTROL_HELD_STATE_COUNT \<Longrightarrow> held_wanted control_held_state_reset k = None"
  by (simp add: held_wanted_def control_held_state_reset_def)

text \<open>Once nothing is dirty, the next stage has what is wanted.\<close>

lemma held_view_clean:
  assumes "held_view h level" "held_clean h CONTROL_HELD_STATE_COUNT" "k < CONTROL_HELD_STATE_COUNT"
  shows "level k = map_option snd (held_wanted h k)"
proof -
  have "held_slot_ok k (h ! k)" "\<not> (observed (h ! k) \<and> dirty (h ! k))" "scheduled_valid (h ! k) \<longrightarrow> observed (h ! k)"
    "level k = (if scheduled_valid (h ! k) then Some (scheduled_value (h ! k)) else None)"
    using assms by (auto simp: held_view_def held_inv_def held_clean_def)
  then show ?thesis by (auto simp: held_slot_ok_def held_wanted_def)
qed

section \<open>Marking, observing, releasing\<close>

lemma mark_fields:
  assumes "k < CONTROL_HELD_STATE_COUNT" "length h = CONTROL_HELD_STATE_COUNT"
  shows "dirty (control_held_state_mark_scheduled h (int k) (desired_value (h ! k)) ! i) \<longleftrightarrow> i \<noteq> k \<and> dirty (h ! i)"
    "observed (control_held_state_mark_scheduled h (int k) v ! i) = observed (h ! i)"
    "held_wanted (control_held_state_mark_scheduled h (int k) v) = held_wanted h"
  using assms by (auto simp: control_held_state_mark_scheduled_def Let_def nth_list_update held_wanted_def fun_eq_iff)

lemma held_view_mark:
  assumes "held_view h level" "k < CONTROL_HELD_STATE_COUNT" "observed (h ! k)"
    "\<And>j. level' j = (if j = k then Some v else level j)"
  shows "held_view (control_held_state_mark_scheduled h (int k) v) level'"
proof -
  have len: "length h = CONTROL_HELD_STATE_COUNT" and inv: "held_inv h" using held_viewD [OF assms(1)] by auto
  have "held_inv (control_held_state_mark_scheduled h (int k) v)" by (rule held_inv_mark [OF inv])
  then show ?thesis
    using assms len
    by (auto simp: held_view_def control_held_state_mark_scheduled_def Let_def nth_list_update split: if_splits)
qed

lemma held_view_observe:
  fixes h cid v k sq
  assumes "held_view h level" "control_held_state_key cid v = Some k"
  defines "h' \<equiv> h[k := observe_slot (h ! k) cid v sq]"
  shows "control_held_state_observe h cid v sq = (h', Some k)" "held_view h' level" "k < CONTROL_HELD_STATE_COUNT"
    "observed (h' ! k)" "held_wanted h' j = (if j = k then Some (cid, v) else held_wanted h j)"
proof -
  show "control_held_state_observe h cid v sq = (h', Some k)" using assms(2) by (simp add: control_held_state_observe_def h'_def)
  show bound: "k < CONTROL_HELD_STATE_COUNT" by (rule key_bound [OF assms(2)])
  have len: "length h = CONTROL_HELD_STATE_COUNT" and inv: "held_inv h" using held_viewD [OF assms(1)] by auto
  have "held_inv h'"
    using held_inv_observe [OF inv, of cid v sq] assms(2) by (simp add: control_held_state_observe_def h'_def)
  then show "held_view h' level"
    using assms(1) bound len by (auto simp: held_view_def h'_def nth_list_update observe_slot_def)
  show "observed (h' ! k)" "held_wanted h' j = (if j = k then Some (cid, v) else held_wanted h j)"
    using bound len by (auto simp: h'_def nth_list_update observe_slot_def held_wanted_def)
qed

lemma held_view_release:
  assumes "held_view h level"
  shows "held_view (control_held_state_release_all h sq) level"
    "k < CONTROL_HELD_STATE_COUNT \<Longrightarrow> held_wanted (control_held_state_release_all h sq) k = released (held_wanted h k)"
proof -
  have len: "length h = CONTROL_HELD_STATE_COUNT" and inv: "held_inv h" using held_viewD [OF assms] by auto
  have "held_inv (control_held_state_release_all h sq)" by (rule held_inv_release [OF inv])
  then show "held_view (control_held_state_release_all h sq) level"
    using assms len by (auto simp: held_view_def control_held_state_release_all_def release_slot_def Let_def)
  show "held_wanted (control_held_state_release_all h sq) k = released (held_wanted h k)" if "k < CONTROL_HELD_STATE_COUNT"
    using that len by (simp add: held_wanted_def released_def control_held_state_release_all_def release_slot_def Let_def)
qed

section \<open>The iterators\<close>

lemma next_dirty_advances:
  assumes "control_held_state_next_dirty state cursor = (cursor', Some (key, cid, v, sq))"
  shows "cursor \<le> key" "key < CONTROL_HELD_STATE_COUNT" "cursor' = key + 1"
    "observed (state ! key)" "dirty (state ! key)"
    "cid = held_id (state ! key)" "v = desired_value (state ! key)" "sq = sequence (state ! key)"
    "\<forall>i. cursor \<le> i \<longrightarrow> i < key \<longrightarrow> \<not> (observed (state ! i) \<and> dirty (state ! i))"
proof -
  let ?P = "\<lambda>i. observed (state ! i) \<and> dirty (state ! i)"
  have f: "find ?P [cursor..<CONTROL_HELD_STATE_COUNT] = Some key" "cursor' = key + 1"
    and e: "cid = held_id (state ! key)" "v = desired_value (state ! key)" "sq = sequence (state ! key)"
    using assms by (auto simp: control_held_state_next_dirty_def next_from_def Let_def split: option.splits prod.splits)
  from f(1) obtain k where k: "k < CONTROL_HELD_STATE_COUNT - cursor" "key = cursor + k" "?P key"
      "\<forall>j<k. \<not> ?P (cursor + j)"
    by (auto simp: find_Some_iff)
  have "\<not> ?P i" if "cursor \<le> i" "i < key" for i
    using k(4) that k(2) by (metis le_Suc_ex nat_add_left_cancel_less)
  with k f(2) e show "cursor \<le> key" "key < CONTROL_HELD_STATE_COUNT" "cursor' = key + 1"
    "observed (state ! key)" "dirty (state ! key)"
    "cid = held_id (state ! key)" "v = desired_value (state ! key)" "sq = sequence (state ! key)"
    "\<forall>i. cursor \<le> i \<longrightarrow> i < key \<longrightarrow> \<not> ?P i" by auto
qed

lemma next_dirty_none:
  assumes "control_held_state_next_dirty state cursor = (cursor', None)" "held_clean state cursor"
  shows "held_clean state CONTROL_HELD_STATE_COUNT"
proof -
  have "\<forall>i. cursor \<le> i \<longrightarrow> i < CONTROL_HELD_STATE_COUNT \<longrightarrow> \<not> (observed (state ! i) \<and> dirty (state ! i))"
    using assms(1)
    by (auto simp: control_held_state_next_dirty_def next_from_def find_None_iff split: option.splits prod.splits)
  with assms(2) show ?thesis unfolding held_clean_def by (metis not_le)
qed

lemma next_dirty_measure:
  "(cursor', Some (key, cid, v, sq)) = control_held_state_next_dirty state cursor \<Longrightarrow>
   CONTROL_HELD_STATE_COUNT - cursor' < CONTROL_HELD_STATE_COUNT - cursor"
  using next_dirty_advances(1,2,3) [of state cursor cursor' key cid v sq] by simp

lemma next_dirty_key:
  assumes "held_view h level" "control_held_state_next_dirty h cursor = (cursor', Some (key, cid, v, sq))"
  shows "control_held_state_key cid v = Some key"
proof -
  note n = next_dirty_advances [OF assms(2)]
  have "held_slot_ok key (h ! key)" using assms(1) n(2) by (simp add: held_view_def held_inv_def)
  then show ?thesis using n by (simp add: held_slot_ok_def)
qed

section \<open>The loop\<close>

text \<open>
  The interface of a stage that takes levels: \<open>send s cid v sq\<close> offers one level, \<open>level s k\<close> is the last level of
  control \<open>k\<close> the stage took, \<open>accepting s\<close> says that it takes everything from now on, and \<open>frame n s t\<close> is a relation that
  every step with its \<open>n\<close> offers respects.  \<open>flush\<close> is the loop over the dirty slots from a cursor.
\<close>

locale held_flush =
  fixes held :: "'s \<Rightarrow> control_held_state_reconciler"
    and put :: "'s \<Rightarrow> control_held_state_reconciler \<Rightarrow> 's"
    and send :: "'s \<Rightarrow> u8 \<Rightarrow> i16 \<Rightarrow> u8 \<Rightarrow> 's \<times> bool"
    and level :: "'s \<Rightarrow> nat \<Rightarrow> i16 option"
    and accepting :: "'s \<Rightarrow> bool"
    and frame :: "nat \<Rightarrow> 's \<Rightarrow> 's \<Rightarrow> bool"
    and flush :: "nat \<Rightarrow> 's \<Rightarrow> 's \<times> bool"
  assumes flush_rec: "flush cursor s =
       (case control_held_state_next_dirty (held s) cursor of
          (_, None) \<Rightarrow> (s, True)
        | (cursor', Some (key, cid, v, sq)) \<Rightarrow>
            (case send s cid v sq of (s1, ok) \<Rightarrow>
               if \<not> ok then (s1, False)
               else flush cursor' (put s1 (control_held_state_mark_scheduled (held s1) (int key) v))))"
    and send_held: "held (fst (send s cid v sq)) = held s"
    and put_held: "held (put s h) = h"
    and put_level: "level (put s h) k = level s k"
    and send_level: "control_held_state_key cid v = Some k \<Longrightarrow>
       level (fst (send s cid v sq)) j = (if snd (send s cid v sq) \<and> j = k then Some v else level s j)"
    and accepts: "accepting s \<Longrightarrow> snd (send s cid v sq) \<and> accepting (put (fst (send s cid v sq)) h)"
    and frame_refl: "frame n s s"
    and frame_trans: "frame m s t \<Longrightarrow> frame n t u \<Longrightarrow> m + n \<le> l \<Longrightarrow> frame l s u"
    and frame_fail: "control_held_state_key cid v = Some k \<Longrightarrow> \<not> snd (send s cid v sq) \<Longrightarrow> frame 1 s (fst (send s cid v sq))"
    and frame_send: "control_held_state_key cid v = Some k \<Longrightarrow> snd (send s cid v sq) \<Longrightarrow>
       frame 1 s (put (fst (send s cid v sq)) (control_held_state_mark_scheduled (held s) (int k) v))"
begin

lemma round:
  assumes "held_view (held s) (level s)" "control_held_state_next_dirty (held s) cursor = (cursor', Some (key, cid, v, sq))"
    "snd (send s cid v sq)" "held_clean (held s) cursor"
  defines "t \<equiv> put (fst (send s cid v sq)) (control_held_state_mark_scheduled (held s) (int key) v)"
  shows "flush cursor s = flush cursor' t" "held_view (held t) (level t)" "frame 1 s t"
    "held_wanted (held t) = held_wanted (held s)" "held_clean (held t) cursor'"
proof -
  note n = next_dirty_advances [OF assms(2)] and key = next_dirty_key [OF assms(1,2)]
  have len: "length (held s) = CONTROL_HELD_STATE_COUNT" using held_viewD [OF assms(1)] by simp
  have h: "held t = control_held_state_mark_scheduled (held s) (int key) v" by (simp add: t_def put_held)
  show "flush cursor s = flush cursor' t"
    using assms(2,3) by (simp add: flush_rec [of cursor s] t_def send_held split_beta)
  show "held_view (held t) (level t)"
    unfolding h by (rule held_view_mark [OF assms(1) n(2,4)]) (simp add: t_def put_level send_level [OF key] assms(3))
  show "frame 1 s t" unfolding t_def by (rule frame_send [OF key assms(3)])
  show "held_wanted (held t) = held_wanted (held s)" unfolding h by (rule mark_fields(3) [OF n(2) len])
  show "held_clean (held t) cursor'"
    unfolding held_clean_def h
  proof (intro allI impI)
    fix i assume i: "i < cursor'" "i < CONTROL_HELD_STATE_COUNT"
    then have "i < cursor \<or> cursor \<le> i \<and> i < key \<or> i = key" using n(3) by linarith
    then show "\<not> (observed (control_held_state_mark_scheduled (held s) (int key) v ! i) \<and>
                  dirty (control_held_state_mark_scheduled (held s) (int key) v ! i))"
      unfolding n(7) mark_fields(1,2) [OF n(2) len] using assms(4) n(9) i(2) unfolding held_clean_def by blast
  qed
qed

text \<open>The loop keeps the view, changes no wanted level, and tells truthfully whether every dirty level was taken.\<close>

lemma flush_ok:
  assumes "held_view (held s) (level s)" "held_clean (held s) cursor"
  shows "case flush cursor s of (t, ok) \<Rightarrow>
     held_view (held t) (level t) \<and> frame (CONTROL_HELD_STATE_COUNT - cursor) s t \<and>
     held_wanted (held t) = held_wanted (held s) \<and>
     (ok \<longrightarrow> held_clean (held t) CONTROL_HELD_STATE_COUNT) \<and> (accepting s \<longrightarrow> ok)"
  using assms
proof (induction "CONTROL_HELD_STATE_COUNT - cursor" arbitrary: cursor s rule: less_induct)
  case less
  obtain cursor' found where nd: "control_held_state_next_dirty (held s) cursor = (cursor', found)" by fastforce
  show ?case
  proof (cases found)
    case None
    then show ?thesis
      using less.prems(1) nd next_dirty_none [OF _ less.prems(2)] by (simp add: flush_rec [of cursor s] frame_refl)
  next
    case (Some item)
    obtain key cid v sq where "item = (key, cid, v, sq)" by (cases item)
    note nd = nd [unfolded Some this]
    note n = next_dirty_advances [OF nd] and key = next_dirty_key [OF less.prems(1) nd]
    have budget: "1 + (CONTROL_HELD_STATE_COUNT - cursor') \<le> CONTROL_HELD_STATE_COUNT - cursor"
      "CONTROL_HELD_STATE_COUNT - cursor' < CONTROL_HELD_STATE_COUNT - cursor" using n(1-3) by auto
    show ?thesis
    proof (cases "snd (send s cid v sq)")
      case False
      have "frame (CONTROL_HELD_STATE_COUNT - cursor) s (fst (send s cid v sq))"
        by (rule frame_trans [OF frame_fail [OF key False] frame_refl [of 0]]) (use n(1,2) in simp)
      moreover have "level (fst (send s cid v sq)) j = level s j" for j using send_level [OF key] False by simp
      then have "held_view (held s) (level (fst (send s cid v sq)))" by (rule held_view_cong [OF less.prems(1)])
      moreover have "\<not> accepting s" using accepts False by blast
      ultimately show ?thesis using nd False by (simp add: flush_rec [of cursor s] send_held split_beta)
    next
      case True
      note r = round [OF less.prems(1) nd True less.prems(2)]
      let ?t = "put (fst (send s cid v sq)) (control_held_state_mark_scheduled (held s) (int key) v)"
      obtain t ok where t: "flush cursor' ?t = (t, ok)" by fastforce
      note ih = less.hyps [OF budget(2) r(2,5), unfolded t prod.case]
      show ?thesis
        unfolding r(1) t prod.case using ih r(4) frame_trans [OF r(3) _ budget(1), of t] accepts [of s] by simp
    qed
  qed
qed

end

end
