(* ===== verification/P4_Link.thy ===== *)
theory P4_Link
  imports Held_Delivery Frame_Rx
begin

text \<open>
  The P4 end of the control link (\<open>control_link_uart.c\<close> and \<open>control_link_rx_stats.c\<close> of the main deck):
  LED, state and profile senders, the receive statistics, the reactions to the frames of the S3, and the delivery of
  control events to the deck queue under backpressure.

  The deck queue and the UART are parameters, \<open>p4_env\<close>: \<open>env_queue n\<close> tells whether the \<open>n\<close>-th call of
  \<open>xQueueSend\<close> finds room within its time limit, and \<open>env_uart n\<close> is what the \<open>n\<close>-th \<open>uart_write_bytes\<close>
  returns.  \<open>pl_sends\<close> and \<open>pl_writes\<close> count those calls; \<open>pl_events\<close> and \<open>pl_wire\<close> record the events
  the queue accepted and the frames handed to the UART, oldest first.  \<open>pl_calls\<close> records the calls of the registered
  callbacks.  Logging and its rate limit are left out, and so are the critical sections around single
  reads and writes of the statistics.
\<close>

section \<open>Events and state\<close>

datatype ctrl_event_type =
  CTRL_EV_BUTTON | CTRL_EV_JOG | CTRL_EV_BROWSE | CTRL_EV_PITCH | CTRL_EV_HEARTBEAT | CTRL_EV_STATE

record ctrl_event =
  ev_type :: ctrl_event_type
  ev_id :: u8
  ev_value :: i16
  ev_seq :: u8
  ev_deck :: u8
  ev_control :: u8

record control_link_rx_stats =
  rx_frames :: u32
  sequence_gaps :: u32
  event_checksum_errors :: u32
  bulk_frames :: u32
  bulk_crc_errors :: u32
  last_sequence :: u8
  sequence_valid :: bool

record pending_value =
  pv_valid :: bool
  pv_event :: ctrl_event

datatype p4_call =
  DescriptorReport ctrl_descriptor_report | ControllerState bool | ProfileReply bool u8 u8

record p4_env =
  env_queue :: "nat \<Rightarrow> bool"
  env_uart :: "nat \<Rightarrow> int"

record p4_link =
  pl_queue_set :: bool
  pl_seq :: u8
  pl_write_fail :: u32
  pl_event_drop :: u32
  pl_coalesce :: u32
  pl_edge_timeout :: u32
  pl_descriptor_cb :: bool
  pl_controller_state_cb :: bool
  pl_profile_reply_cb :: bool
  pl_firmware :: ctrl_firmware_report
  pl_firmware_received :: bool
  pl_stats :: control_link_rx_stats
  pl_rx :: rx_demux
  pl_values :: "pending_value list"
  pl_delta_valid :: "bool list"
  pl_delta :: "int list"
  pl_held :: control_held_state_reconciler
  pl_first_key :: nat
  pl_sends :: nat
  pl_events :: "ctrl_event list"
  pl_writes :: nat
  pl_wire :: "u8 list list"
  pl_calls :: "p4_call list"

section \<open>Receive statistics\<close>

definition control_link_rx_stats_reset :: control_link_rx_stats where
  "control_link_rx_stats_reset =
     \<lparr>rx_frames = 0, sequence_gaps = 0, event_checksum_errors = 0, bulk_frames = 0, bulk_crc_errors = 0,
      last_sequence = 0, sequence_valid = False\<rparr>"

definition control_link_rx_stats_record_frame :: "control_link_rx_stats \<Rightarrow> u8 \<Rightarrow> bool \<Rightarrow> control_link_rx_stats" where
  "control_link_rx_stats_record_frame stats sq bulk =
     (let s1 = (if sequence_valid stats \<and> sq \<noteq> last_sequence stats + 1
                then stats\<lparr>sequence_gaps := sequence_gaps stats + 1\<rparr> else stats);
          s2 = s1\<lparr>last_sequence := sq, sequence_valid := True, rx_frames := rx_frames s1 + 1\<rparr>
      in if bulk then s2\<lparr>bulk_frames := bulk_frames s2 + 1\<rparr> else s2)"

definition control_link_rx_stats_record_error :: "control_link_rx_stats \<Rightarrow> bool \<Rightarrow> control_link_rx_stats" where
  "control_link_rx_stats_record_error stats bulk =
     (if bulk then stats\<lparr>bulk_crc_errors := bulk_crc_errors stats + 1\<rparr>
      else stats\<lparr>event_checksum_errors := event_checksum_errors stats + 1\<rparr>)"

definition control_link_get_rx_stats :: "p4_link \<Rightarrow> control_link_rx_stats" where
  "control_link_get_rx_stats s = pl_stats s"

definition record_rx_frame :: "p4_link \<Rightarrow> u8 \<Rightarrow> bool \<Rightarrow> p4_link" where
  "record_rx_frame s sq bulk = s\<lparr>pl_stats := control_link_rx_stats_record_frame (pl_stats s) sq bulk\<rparr>"

definition record_rx_error :: "p4_link \<Rightarrow> bool \<Rightarrow> p4_link" where
  "record_rx_error s bulk = s\<lparr>pl_stats := control_link_rx_stats_record_error (pl_stats s) bulk\<rparr>"

section \<open>Senders\<close>

definition uart_write_bytes :: "p4_env \<Rightarrow> p4_link \<Rightarrow> u8 list \<Rightarrow> p4_link \<times> int" where
  "uart_write_bytes env s frame =
     (s\<lparr>pl_writes := pl_writes s + 1, pl_wire := pl_wire s @ [frame]\<rparr>, env_uart env (pl_writes s))"

text \<open>A builder that returns length 0 is \<open>None\<close> here.\<close>

definition send_bulk_frame :: "p4_env \<Rightarrow> p4_link \<Rightarrow> u8 list option \<Rightarrow> p4_link \<times> esp_err" where
  "send_bulk_frame env s frame =
     (case frame of
        None \<Rightarrow> (s, ESP_ERR_INVALID_SIZE)
      | Some f \<Rightarrow>
          let (s1, written) = uart_write_bytes env s f in
          if written = int (length f) then (s1, ESP_OK)
          else (s1\<lparr>pl_write_fail := pl_write_fail s1 + 1\<rparr>, ESP_FAIL))"

definition next_seq :: "p4_link \<Rightarrow> p4_link \<times> u8" where
  "next_seq s = (s\<lparr>pl_seq := pl_seq s + 1\<rparr>, pl_seq s)"

definition send_frame :: "p4_env \<Rightarrow> p4_link \<Rightarrow> u8 \<Rightarrow> u8 \<Rightarrow> i16 \<Rightarrow> p4_link" where
  "send_frame env s ty cid v =
     (let (s0, sq) = next_seq s;
          lo = ucast (v AND 0xFF); hi = ucast (drop_bit 8 v AND 0xFF);
          frame = [CTRL_FRAME_START, ty, cid, lo, hi, sq, ty XOR cid XOR lo XOR hi XOR sq];
          (s1, written) = uart_write_bytes env s0 frame
      in if written \<noteq> int CTRL_FRAME_LEN then s1\<lparr>pl_write_fail := pl_write_fail s1 + 1\<rparr> else s1)"

definition control_link_send_led_deck :: "p4_env \<Rightarrow> p4_link \<Rightarrow> u8 \<Rightarrow> u8 \<Rightarrow> u8 \<Rightarrow> p4_link" where
  "control_link_send_led_deck env s led st deck =
     send_frame env s CTRL_TYPE_LED led (ucast st OR push_bit 8 (ucast deck))"

definition control_link_send_led :: "p4_env \<Rightarrow> p4_link \<Rightarrow> u8 \<Rightarrow> u8 \<Rightarrow> p4_link" where
  "control_link_send_led env s led st = control_link_send_led_deck env s led st 0"

definition control_link_send_state :: "p4_env \<Rightarrow> p4_link \<Rightarrow> u8 \<Rightarrow> i16 \<Rightarrow> p4_link" where
  "control_link_send_state env s cid v = send_frame env s CTRL_TYPE_STATE cid v"

definition control_link_send_profile_begin ::
    "p4_env \<Rightarrow> p4_link \<Rightarrow> u32 \<Rightarrow> u32 \<Rightarrow> u16 \<Rightarrow> u16 \<Rightarrow> p4_link \<times> esp_err" where
  "control_link_send_profile_begin env s total_size crc32 vid pid =
     (let (s0, sq) = next_seq s
      in send_bulk_frame env s0 (ctrl_bulk_build_profile_begin CTRL_BULK_MAX_FRAME sq total_size crc32 vid pid))"

definition control_link_send_profile_chunk :: "p4_env \<Rightarrow> p4_link \<Rightarrow> u32 \<Rightarrow> u8 list \<Rightarrow> p4_link \<times> esp_err" where
  "control_link_send_profile_chunk env s offset data =
     (let (s0, sq) = next_seq s
      in send_bulk_frame env s0 (ctrl_bulk_build_profile_chunk CTRL_BULK_MAX_FRAME sq offset data))"

definition control_link_send_profile_simple :: "p4_env \<Rightarrow> p4_link \<Rightarrow> u8 \<Rightarrow> p4_link \<times> esp_err" where
  "control_link_send_profile_simple env s ty =
     (let (s0, sq) = next_seq s
      in send_bulk_frame env s0 (ctrl_bulk_build_profile_simple CTRL_BULK_MAX_FRAME sq ty))"

definition control_link_get_s3_firmware_report :: "p4_link \<Rightarrow> ctrl_firmware_report \<times> bool" where
  "control_link_get_s3_firmware_report s = (pl_firmware s, pl_firmware_received s)"

definition control_link_set_descriptor_report_cb :: "bool \<Rightarrow> p4_link \<Rightarrow> p4_link" where
  "control_link_set_descriptor_report_cb cb s = s\<lparr>pl_descriptor_cb := cb\<rparr>"

definition control_link_set_controller_state_cb :: "bool \<Rightarrow> p4_link \<Rightarrow> p4_link" where
  "control_link_set_controller_state_cb cb s = s\<lparr>pl_controller_state_cb := cb\<rparr>"

definition control_link_set_profile_reply_cb :: "bool \<Rightarrow> p4_link \<Rightarrow> p4_link" where
  "control_link_set_profile_reply_cb cb s = s\<lparr>pl_profile_reply_cb := cb\<rparr>"

section \<open>Delivery to the deck queue\<close>

definition xQueueSend :: "p4_env \<Rightarrow> p4_link \<Rightarrow> ctrl_event \<Rightarrow> p4_link \<times> bool" where
  "xQueueSend env s ev =
     (let ok = env_queue env (pl_sends s); s1 = s\<lparr>pl_sends := pl_sends s + 1\<rparr>
      in (if ok then s1\<lparr>pl_events := pl_events s1 @ [ev]\<rparr> else s1, ok))"

definition event_is_droppable_ping :: "ctrl_event \<Rightarrow> bool" where
  "event_is_droppable_ping ev \<longleftrightarrow> ev_type ev = CTRL_EV_HEARTBEAT"

definition event_is_relative_delta :: "ctrl_event \<Rightarrow> bool" where
  "event_is_relative_delta ev \<longleftrightarrow> ev_type ev = CTRL_EV_JOG \<or> ev_type ev = CTRL_EV_BROWSE"

definition event_is_continuous_value :: "ctrl_event \<Rightarrow> bool" where
  "event_is_continuous_value ev =
     (if ev_type ev = CTRL_EV_STATE then True
      else if ev_type ev = CTRL_EV_JOG \<or> ev_type ev = CTRL_EV_BROWSE \<or> ev_type ev = CTRL_EV_PITCH then True
      else if ev_type ev \<noteq> CTRL_EV_BUTTON then False
      else ev_id ev \<in> {CTRL_ID_CH1_VOLUME, CTRL_ID_CH2_VOLUME, CTRL_ID_CROSSFADER, CTRL_ID_CH1_TRIM, CTRL_ID_CH2_TRIM,
         CTRL_ID_CH1_EQ_HIGH, CTRL_ID_CH2_EQ_HIGH, CTRL_ID_CH1_EQ_MID, CTRL_ID_CH2_EQ_MID, CTRL_ID_CH1_EQ_LOW,
         CTRL_ID_CH2_EQ_LOW, CTRL_ID_CH1_FILTER, CTRL_ID_CH2_FILTER, CTRL_ID_MASTER_VOLUME, CTRL_ID_HEADPHONE_MIX})"

definition clamp_jog_delta :: "int \<Rightarrow> i16" where
  "clamp_jog_delta v =
     (if v > INT16_MAX then word_of_int INT16_MAX else if v < INT16_MIN then word_of_int INT16_MIN else word_of_int v)"

definition held_event :: "u8 \<Rightarrow> i16 \<Rightarrow> u8 \<Rightarrow> ctrl_event" where
  "held_event cid v sq =
     \<lparr>ev_type = CTRL_EV_BUTTON, ev_id = cid, ev_value = v, ev_seq = sq,
      ev_deck = control_link_id_deck cid, ev_control = control_link_id_control cid\<rparr>"

text \<open>The while loop over the dirty held controls, from the iterator position \<open>cursor\<close>.\<close>

function flush_held_from :: "p4_env \<Rightarrow> nat \<Rightarrow> p4_link \<Rightarrow> p4_link \<times> bool" where
  "flush_held_from env cursor s =
     (case control_held_state_next_dirty (pl_held s) cursor of
        (_, None) \<Rightarrow> (s, True)
      | (cursor', Some (key, cid, v, sq)) \<Rightarrow>
          let (s1, ok) = xQueueSend env s (held_event cid v sq) in
          if \<not> ok then (s1, False)
          else flush_held_from env cursor'
                 (s1\<lparr>pl_held := control_held_state_mark_scheduled (pl_held s1) (int key) v\<rparr>))"
  by pat_completeness auto

termination flush_held_from
  by (relation "measure (\<lambda>(env, cursor, s). CONTROL_HELD_STATE_COUNT - cursor)")
    (auto intro: next_dirty_measure)

declare flush_held_from.simps [simp del]

definition flush_pending_held_states :: "p4_env \<Rightarrow> p4_link \<Rightarrow> p4_link \<times> bool" where
  "flush_pending_held_states env s = flush_held_from env 0 s"

definition store_pending_continuous :: "p4_link \<Rightarrow> ctrl_event \<Rightarrow> p4_link" where
  "store_pending_continuous s ev =
     (let key = unat (ev_id ev);
          s0 = (if key < pl_first_key s then s\<lparr>pl_first_key := key\<rparr> else s);
          s1 = (if event_is_relative_delta ev then
                  let sum0 = pl_delta s0 ! key + sint (ev_value ev);
                      sum1 = (if sum0 > INT16_MAX then INT16_MAX else sum0);
                      sum2 = (if sum1 < INT16_MIN then INT16_MIN else sum1)
                  in s0\<lparr>pl_delta := (pl_delta s0)[key := sum2],
                        pl_values := (pl_values s0)[key := (pl_values s0 ! key)\<lparr>pv_event := ev\<rparr>],
                        pl_delta_valid := (pl_delta_valid s0)[key := True]\<rparr>
                else s0\<lparr>pl_values := (pl_values s0)[key := \<lparr>pv_valid = True, pv_event = ev\<rparr>]\<rparr>)
      in s1\<lparr>pl_coalesce := pl_coalesce s1 + 1\<rparr>)"

text \<open>
  One key of the flush loop.  The result tells whether the queue took everything; on failure the C function
  stores the key as the new hint and returns.
\<close>

definition flush_delta :: "p4_env \<Rightarrow> nat \<Rightarrow> p4_link \<Rightarrow> p4_link \<times> bool" where
  "flush_delta env key s =
     (if pl_delta_valid s ! key then
        let ev = (pv_event (pl_values s ! key))\<lparr>ev_value := clamp_jog_delta (pl_delta s ! key)\<rparr>;
            (s1, ok) = xQueueSend env s ev in
        if \<not> ok then (s1\<lparr>pl_first_key := key\<rparr>, False)
        else (s1\<lparr>pl_delta_valid := (pl_delta_valid s1)[key := False], pl_delta := (pl_delta s1)[key := 0]\<rparr>, True)
      else (s, True))"

definition flush_value :: "p4_env \<Rightarrow> nat \<Rightarrow> p4_link \<Rightarrow> p4_link \<times> bool" where
  "flush_value env key s =
     (if pv_valid (pl_values s ! key) then
        let (s1, ok) = xQueueSend env s (pv_event (pl_values s ! key)) in
        if \<not> ok then (s1\<lparr>pl_first_key := key\<rparr>, False)
        else (s1\<lparr>pl_values := (pl_values s1)[key := (pl_values s1 ! key)\<lparr>pv_valid := False\<rparr>]\<rparr>, True)
      else (s, True))"

fun flush_keys :: "p4_env \<Rightarrow> nat list \<Rightarrow> nat \<Rightarrow> p4_link \<Rightarrow> p4_link" where
  "flush_keys env [] first_remaining s = s\<lparr>pl_first_key := first_remaining\<rparr>"
| "flush_keys env (key # keys) first_remaining s =
     (let (s1, ok1) = flush_delta env key s in
      if \<not> ok1 then s1 else
      let (s2, ok2) = flush_value env key s1 in
      if \<not> ok2 then s2 else
      flush_keys env keys
        (if first_remaining = 256 \<and> (pl_delta_valid s2 ! key \<or> pv_valid (pl_values s2 ! key)) then key else first_remaining) s2)"

definition flush_pending_control_events :: "p4_env \<Rightarrow> p4_link \<Rightarrow> p4_link" where
  "flush_pending_control_events env s =
     (if \<not> pl_queue_set s then s
      else let (s1, ok) = flush_pending_held_states env s in
        if \<not> ok then s1 else flush_keys env [pl_first_key s1..<256] 256 s1)"

definition enqueue_control_event :: "p4_env \<Rightarrow> p4_link \<Rightarrow> ctrl_event \<Rightarrow> p4_link \<times> bool" where
  "enqueue_control_event env s ev =
     (if \<not> pl_queue_set s then (s, False)
      else if event_is_droppable_ping ev then xQueueSend env s ev
      else if event_is_continuous_value ev then
        let (s1, ok) = xQueueSend env s ev in
        if ok then (s1, True) else (store_pending_continuous s1 ev, True)
      else
        let (held, held_key) = (if ev_type ev = CTRL_EV_BUTTON
                                then control_held_state_observe (pl_held s) (ev_id ev) (ev_value ev) (ev_seq ev)
                                else (pl_held s, None));
            s1 = s\<lparr>pl_held := held\<rparr> in
        if held_key \<noteq> None \<and> \<not> dirty (held ! the held_key)
        then (s1\<lparr>pl_coalesce := pl_coalesce s1 + 1\<rparr>, True)
        else
          let (s2, ok) = xQueueSend env s1 ev in
          if ok then
            (case held_key of
               None \<Rightarrow> (s2, True)
             | Some key \<Rightarrow> (s2\<lparr>pl_held := control_held_state_mark_scheduled (pl_held s2) (int key) (ev_value ev)\<rparr>, True))
          else
            let s3 = s2\<lparr>pl_edge_timeout := pl_edge_timeout s2 + 1\<rparr> in
            if held_key \<noteq> None then (s3\<lparr>pl_coalesce := pl_coalesce s3 + 1\<rparr>, True) else (s3, False))"

section \<open>Frames of the S3\<close>

text \<open>The event of a frame; \<open>None\<close> for an unknown type or encoder.\<close>

definition frame_event_type :: "u8 \<Rightarrow> u8 \<Rightarrow> ctrl_event_type option" where
  "frame_event_type ty cid =
     (if ty = CTRL_TYPE_BUTTON then Some CTRL_EV_BUTTON
      else if ty = CTRL_TYPE_ENCODER then
        (if cid = 0 \<or> control_link_id_is_deck_jog cid then Some CTRL_EV_JOG
         else if cid = 1 \<or> cid = CTRL_ID_BROWSE_DELTA \<or> cid = CTRL_ID_BROWSE_SHIFT_DELTA then Some CTRL_EV_BROWSE
         else None)
      else if ty = CTRL_TYPE_PITCH then Some CTRL_EV_PITCH
      else if ty = CTRL_TYPE_HEARTBEAT then Some CTRL_EV_HEARTBEAT
      else if ty = CTRL_TYPE_STATE then Some CTRL_EV_STATE
      else None)"

definition frame_event :: "u8 list \<Rightarrow> ctrl_event_type \<Rightarrow> ctrl_event" where
  "frame_event f ty =
     \<lparr>ev_type = ty, ev_id = f ! 2, ev_value = ucast (f ! 3) OR push_bit 8 (ucast (f ! 4)), ev_seq = f ! 5,
      ev_deck = control_link_id_deck (f ! 2), ev_control = control_link_id_control (f ! 2)\<rparr>"

text \<open>What happens to an event after its type is known.\<close>

definition dispatch_event :: "p4_env \<Rightarrow> p4_link \<Rightarrow> ctrl_event \<Rightarrow> p4_link" where
  "dispatch_event env s ev =
     (let connection = (ev_type ev = CTRL_EV_STATE \<and> ev_id ev = CTRL_ID_FLX4_CONNECTION);
          s1 = (if connection \<and> (ev_value ev = ucast CTRL_FLX4_CONNECTED \<or> ev_value ev = ucast CTRL_FLX4_DISCONNECTED) \<and>
                   pl_controller_state_cb s
                then s\<lparr>pl_calls := pl_calls s @ [ControllerState (ev_value ev = ucast CTRL_FLX4_CONNECTED)]\<rparr> else s);
          s2 = (if connection \<and> ev_value ev = ucast CTRL_FLX4_DISCONNECTED
                then s1\<lparr>pl_held := control_held_state_release_all (pl_held s1) (ev_seq ev)\<rparr> else s1);
          (s3, ok) = enqueue_control_event env (flush_pending_control_events env s2) ev
      in if \<not> ok then s3\<lparr>pl_event_drop := pl_event_drop s3 + 1\<rparr> else s3)"

definition dispatch_frame :: "p4_env \<Rightarrow> p4_link \<Rightarrow> u8 list \<Rightarrow> p4_link" where
  "dispatch_frame env s f =
     (case frame_event_type (f ! 1) (f ! 2) of
        None \<Rightarrow> s
      | Some ty \<Rightarrow>
          let ev = frame_event f ty in
          if ty = CTRL_EV_STATE \<and> ev_id ev = CTRL_ID_S3_BOOT_CHALLENGE
          then control_link_send_state env s CTRL_ID_S3_BOOT_ACK (ev_value ev)
          else dispatch_event env s ev)"

definition handle_bulk_frame :: "p4_link \<Rightarrow> u8 list \<Rightarrow> nat \<Rightarrow> p4_link" where
  "handle_bulk_frame s frame frame_len =
     (let ty = frame ! 1 in
      if ty = CTRL_BULK_TYPE_CONTROLLER_DESCRIPTOR then
        (case ctrl_bulk_decode_descriptor frame frame_len of
           None \<Rightarrow> s
         | Some rep \<Rightarrow> if pl_descriptor_cb s then s\<lparr>pl_calls := pl_calls s @ [DescriptorReport rep]\<rparr> else s)
      else if ty = CTRL_BULK_TYPE_PROFILE_ACK then
        (case ctrl_bulk_decode_profile_ack frame frame_len of
           None \<Rightarrow> s
         | Some acked \<Rightarrow> if pl_profile_reply_cb s
             then s\<lparr>pl_calls := pl_calls s @ [ProfileReply True acked CTRL_PROFILE_NACK_NONE]\<rparr> else s)
      else if ty = CTRL_BULK_TYPE_PROFILE_NACK then
        (case ctrl_bulk_decode_profile_nack frame frame_len of
           None \<Rightarrow> s
         | Some (nacked, reason) \<Rightarrow> if pl_profile_reply_cb s
             then s\<lparr>pl_calls := pl_calls s @ [ProfileReply False nacked reason]\<rparr> else s)
      else if ty = CTRL_BULK_TYPE_PROFILE_STATUS then s
      else if ty = CTRL_BULK_TYPE_FIRMWARE_REPORT then
        (case ctrl_bulk_decode_firmware_report frame frame_len of
           None \<Rightarrow> s
         | Some rep \<Rightarrow> s\<lparr>pl_firmware := rep, pl_firmware_received := True\<rparr>)
      else s)"

definition parse_byte :: "p4_env \<Rightarrow> p4_link \<Rightarrow> u8 \<Rightarrow> p4_link" where
  "parse_byte env s b =
     (let (d, r) = rx_step (pl_rx s) b; s1 = s\<lparr>pl_rx := d\<rparr> in
      case r of
        None \<Rightarrow> s1
      | Some (BulkFrame f n) \<Rightarrow> handle_bulk_frame (record_rx_frame s1 (f ! 2) True) f n
      | Some BulkError \<Rightarrow> record_rx_error s1 True
      | Some FixedError \<Rightarrow> record_rx_error s1 False
      | Some (FixedFrame f) \<Rightarrow> dispatch_frame env (record_rx_frame s1 (f ! 5) False) f)"

text \<open>One pass of the receive task over the bytes the driver returned (at most 64).\<close>

definition uart_rx_pump :: "p4_env \<Rightarrow> p4_link \<Rightarrow> u8 list \<Rightarrow> p4_link" where
  "uart_rx_pump env s bytes = flush_pending_control_events env (foldl (parse_byte env) s bytes)"

section \<open>Start-up\<close>

definition zero_event :: ctrl_event where
  "zero_event = \<lparr>ev_type = CTRL_EV_BUTTON, ev_id = 0, ev_value = 0, ev_seq = 0, ev_deck = 0, ev_control = 0\<rparr>"

text \<open>The results of the driver calls of \<open>control_link_init\<close>, in order.\<close>

record p4_init_env =
  init_driver_install :: esp_err
  init_param_config :: esp_err
  init_set_pin :: esp_err
  init_task_create :: bool

definition p4_control_link_init :: "p4_init_env \<Rightarrow> bool \<Rightarrow> p4_link \<Rightarrow> p4_link \<times> esp_err" where
  "p4_control_link_init env queue s =
     (if \<not> queue then (s, ESP_ERR_INVALID_ARG)
      else
        let s1 = s\<lparr>pl_queue_set := True, pl_stats := control_link_rx_stats_reset,
              pl_rx := (pl_rx s)\<lparr>dm_bulk := ctrl_bulk_parser_reset (dm_bulk (pl_rx s))\<rparr>,
              pl_values := replicate 256 \<lparr>pv_valid = False, pv_event = zero_event\<rparr>,
              pl_delta_valid := replicate 256 False, pl_delta := replicate 256 0,
              pl_held := control_held_state_reset, pl_first_key := 256, pl_edge_timeout := 0\<rparr>
        in (s1, if init_driver_install env \<noteq> ESP_OK then init_driver_install env
                else if init_param_config env \<noteq> ESP_OK then init_param_config env
                else if init_set_pin env \<noteq> ESP_OK then init_set_pin env
                else if \<not> init_task_create env then ESP_ERR_NO_MEM
                else ESP_OK))"

text \<open>The zero-initialised statics before \<open>control_link_init\<close>.\<close>

definition p4_link_zero :: p4_link where
  "p4_link_zero = \<lparr>pl_queue_set = False, pl_seq = 0, pl_write_fail = 0, pl_event_drop = 0, pl_coalesce = 0,
     pl_edge_timeout = 0, pl_descriptor_cb = False, pl_controller_state_cb = False, pl_profile_reply_cb = False,
     pl_firmware = \<lparr>fw_slot = 0, fw_state = 0, fw_version = []\<rparr>, pl_firmware_received = False,
     pl_stats = control_link_rx_stats_reset, pl_rx = rx_demux_zero,
     pl_values = replicate 256 \<lparr>pv_valid = False, pv_event = zero_event\<rparr>,
     pl_delta_valid = replicate 256 False, pl_delta = replicate 256 0, pl_held = replicate CONTROL_HELD_STATE_COUNT
       \<lparr>observed = False, scheduled_valid = False, dirty = False, held_id = 0,
        desired_value = 0, scheduled_value = 0, sequence = 0\<rparr>,
     pl_first_key = 256, pl_sends = 0, pl_events = [], pl_writes = 0, pl_wire = [], pl_calls = []\<rparr>"

section \<open>Invariant\<close>

lemma xQueueSend_simps [simp]:
  "snd (xQueueSend env s ev) = env_queue env (pl_sends s)"
  "pl_sends (fst (xQueueSend env s ev)) = pl_sends s + 1"
  "pl_events (fst (xQueueSend env s ev)) = pl_events s @ (if env_queue env (pl_sends s) then [ev] else [])"
  "pl_held (fst (xQueueSend env s ev)) = pl_held s"
  "pl_values (fst (xQueueSend env s ev)) = pl_values s"
  "pl_delta (fst (xQueueSend env s ev)) = pl_delta s"
  "pl_delta_valid (fst (xQueueSend env s ev)) = pl_delta_valid s"
  "pl_first_key (fst (xQueueSend env s ev)) = pl_first_key s"
  "pl_queue_set (fst (xQueueSend env s ev)) = pl_queue_set s"
  by (simp_all add: xQueueSend_def Let_def)

lemma xQueueSend_case [simp]:
  "(case xQueueSend env s ev of (t, ok) \<Rightarrow> f t ok) = f (fst (xQueueSend env s ev)) (env_queue env (pl_sends s))"
  by (simp add: xQueueSend_def Let_def)

text \<open>
  \<open>deck_level k evs\<close>: the level of held control \<open>k\<close> that a consumer of the events \<open>evs\<close> last saw.
\<close>

definition level_event :: "nat \<Rightarrow> ctrl_event \<Rightarrow> bool" where
  "level_event k ev \<longleftrightarrow> ev_type ev = CTRL_EV_BUTTON \<and> control_held_state_key (ev_id ev) (ev_value ev) = Some k"

definition deck_level :: "nat \<Rightarrow> ctrl_event list \<Rightarrow> i16 option" where
  "deck_level k evs = foldl (\<lambda>l ev. if level_event k ev then Some (ev_value ev) else l) None evs"

lemma deck_level_snoc [simp]:
  "deck_level k (evs @ [ev]) = (if level_event k ev then Some (ev_value ev) else deck_level k evs)"
  by (simp add: deck_level_def)

definition pending :: "p4_link \<Rightarrow> nat \<Rightarrow> bool" where
  "pending s k \<longleftrightarrow> pl_delta_valid s ! k \<or> pv_valid (pl_values s ! k)"

definition pend_ok :: "nat \<Rightarrow> ctrl_event \<Rightarrow> bool" where
  "pend_ok k ev \<longleftrightarrow> event_is_continuous_value ev \<and> unat (ev_id ev) = k"

definition p4_held_ok :: "p4_link \<Rightarrow> bool" where
  "p4_held_ok s \<longleftrightarrow> held_view (pl_held s) (\<lambda>k. deck_level k (pl_events s))"

definition p4_pend_ok :: "p4_link \<Rightarrow> bool" where
  "p4_pend_ok s \<longleftrightarrow> length (pl_values s) = 256 \<and> length (pl_delta s) = 256 \<and> length (pl_delta_valid s) = 256 \<and>
     (\<forall>k<256. pending s k \<longrightarrow> pend_ok k (pv_event (pl_values s ! k))) \<and>
     (\<forall>k<256. INT16_MIN \<le> pl_delta s ! k \<and> pl_delta s ! k \<le> INT16_MAX) \<and>
     (\<forall>k<256. \<not> pl_delta_valid s ! k \<longrightarrow> pl_delta s ! k = 0)"

definition hint_ok :: "p4_link \<Rightarrow> bool" where
  "hint_ok s \<longleftrightarrow> pl_first_key s \<le> 256 \<and> (\<forall>k<256. pending s k \<longrightarrow> pl_first_key s \<le> k)"

definition p4_inv :: "p4_link \<Rightarrow> bool" where
  "p4_inv s \<longleftrightarrow> pl_queue_set s \<and> p4_held_ok s \<and> p4_pend_ok s \<and> hint_ok s"

lemma continuous_not_held:
  "event_is_continuous_value ev \<Longrightarrow> ev_type ev = CTRL_EV_BUTTON \<Longrightarrow> control_held_state_key (ev_id ev) v = None"
  by (auto simp: event_is_continuous_value_def control_held_state_key_def split: if_splits)

lemma continuous_no_level [simp]:
  "event_is_continuous_value ev \<Longrightarrow> \<not> level_event k (ev\<lparr>ev_value := v\<rparr>)"
  "event_is_continuous_value ev \<Longrightarrow> \<not> level_event k ev"
  using continuous_not_held [of ev] by (auto simp: level_event_def)

lemma clamp_jog_delta_exact: "INT16_MIN \<le> d \<Longrightarrow> d \<le> INT16_MAX \<Longrightarrow> sint (clamp_jog_delta d) = d"
  by (simp add: clamp_jog_delta_def sint_sbintrunc' signed_take_bit_int_eq_self)

subsection \<open>Held controls\<close>

text \<open>
  \<open>held_frame n s t\<close>: \<open>t\<close> differs from \<open>s\<close> only in up to \<open>n\<close> levels handed to the queue and the marks of their slots.
\<close>

definition held_frame :: "nat \<Rightarrow> p4_link \<Rightarrow> p4_link \<Rightarrow> bool" where
  "held_frame n s t \<longleftrightarrow> pl_values t = pl_values s \<and> pl_delta t = pl_delta s \<and> pl_delta_valid t = pl_delta_valid s \<and>
     pl_first_key t = pl_first_key s \<and> pl_queue_set t = pl_queue_set s \<and> pl_sends s \<le> pl_sends t \<and>
     pl_sends t \<le> pl_sends s + n \<and>
     (\<exists>es. pl_events t = pl_events s @ es \<and> (\<forall>ev \<in> set es. \<exists>k. level_event k ev))"

lemma held_frame_trans:
  assumes "held_frame m s t" "held_frame n t u" "m + n \<le> l"
  shows "held_frame l s u"
proof -
  obtain es fs where "pl_events t = pl_events s @ es" "\<forall>ev \<in> set es. \<exists>k. level_event k ev"
    "pl_events u = pl_events t @ fs" "\<forall>ev \<in> set fs. \<exists>k. level_event k ev"
    using assms unfolding held_frame_def by blast
  then have "pl_events u = pl_events s @ (es @ fs) \<and> (\<forall>ev \<in> set (es @ fs). \<exists>k. level_event k ev)" by auto
  moreover have "pl_sends s \<le> pl_sends u" "pl_sends u \<le> pl_sends s + l" using assms by (auto simp: held_frame_def)
  ultimately show ?thesis using assms(1,2) unfolding held_frame_def by metis
qed

lemma level_held_event: "control_held_state_key cid v = Some k \<Longrightarrow> level_event j (held_event cid v sq) \<longleftrightarrow> j = k"
  by (auto simp: level_event_def held_event_def)

text \<open>The deck queue is a stage in the sense of \<open>held_flush\<close>; it accepts from call \<open>pl_sends s\<close> on.\<close>

interpretation p4_held: held_flush pl_held "\<lambda>s h. s\<lparr>pl_held := h\<rparr>"
    "\<lambda>s cid v sq. xQueueSend env s (held_event cid v sq)" "\<lambda>s k. deck_level k (pl_events s)"
    "\<lambda>s. \<forall>n \<ge> pl_sends s. env_queue env n" held_frame "flush_held_from env" for env
proof (unfold_locales, goal_cases)
  case (1 cursor s)
  show ?case by (subst flush_held_from.simps) (simp add: Let_def)
next
  case (5 cid v k s sq j)
  then show ?case by (simp add: level_held_event) (simp add: held_event_def)
next
  case (8 m s t n u l)
  then show ?case by (rule held_frame_trans)
next
  case (10 cid v k s sq)
  then show ?case
    by (auto simp: held_frame_def level_held_event intro!: exI [of _ "[held_event cid v sq]"])
qed (auto simp: held_frame_def)

subsection \<open>Pending continuous values\<close>

text \<open>\<open>motion c evs\<close>: the movement of control \<open>c\<close> in a list of events; \<open>owed c s\<close> adds what is still held back.\<close>

definition motion :: "u8 \<Rightarrow> ctrl_event list \<Rightarrow> int" where
  "motion c evs = sum_list (map (\<lambda>ev. sint (ev_value ev)) (filter (\<lambda>ev. ev_id ev = c) evs))"

definition owed :: "u8 \<Rightarrow> p4_link \<Rightarrow> int" where
  "owed c s = motion c (pl_events s) + pl_delta s ! unat c"

lemma motion_append [simp]: "motion c (xs @ ys) = motion c xs + motion c ys"
  by (simp add: motion_def)

lemma motion_single [simp]: "motion c [] = 0" "motion c [ev] = (if ev_id ev = c then sint (ev_value ev) else 0)"
  by (simp_all add: motion_def)

definition pend_frame :: "nat \<Rightarrow> p4_link \<Rightarrow> p4_link \<Rightarrow> bool" where
  "pend_frame n s t \<longleftrightarrow> pl_held t = pl_held s \<and> pl_queue_set t = pl_queue_set s \<and>
     pl_sends s \<le> pl_sends t \<and> pl_sends t \<le> pl_sends s + n \<and>
     (\<forall>k. deck_level k (pl_events t) = deck_level k (pl_events s)) \<and>
     (\<forall>j<256. pending t j \<longrightarrow> pending s j) \<and> (\<forall>j<256. pl_delta t ! j = pl_delta s ! j \<or> pl_delta t ! j = 0) \<and>
     (\<forall>j<256. pv_valid (pl_values t ! j) \<longrightarrow> pv_valid (pl_values s ! j)) \<and>
     (\<forall>c. pv_valid (pl_values s ! unat c) \<or> owed c t = owed c s)"

lemma pend_frame_refl: "pend_frame n s s"
  by (simp add: pend_frame_def)

lemma unat_u8_bound [simp]: "unat (c :: u8) < 256"
  using unsigned_less [of c] by simp

lemma pend_frame_trans:
  assumes "pend_frame m s t" "pend_frame n t u" "m + n \<le> l"
  shows "pend_frame l s u"
proof -
  have "pl_sends s \<le> pl_sends u" "pl_sends u \<le> pl_sends s + l" using assms by (auto simp: pend_frame_def)
  moreover have "pv_valid (pl_values s ! unat c) \<or> owed c u = owed c s" for c
    using assms(1,2) unat_u8_bound [of c] unfolding pend_frame_def by metis
  moreover have "\<forall>j<256. pl_delta u ! j = pl_delta s ! j \<or> pl_delta u ! j = 0"
    using assms(1,2) unfolding pend_frame_def by metis
  ultimately show ?thesis using assms(1,2) unfolding pend_frame_def by simp
qed

lemma pend_okD:
  assumes "p4_pend_ok s" "k < 256" "pending s k"
  shows "event_is_continuous_value (pv_event (pl_values s ! k))" "ev_id (pv_event (pl_values s ! k)) = of_nat k"
proof -
  have p: "pend_ok k (pv_event (pl_values s ! k))" using assms by (simp add: p4_pend_ok_def)
  then show "event_is_continuous_value (pv_event (pl_values s ! k))" by (simp add: pend_ok_def)
  have "of_nat (unat (ev_id (pv_event (pl_values s ! k)))) = (of_nat k :: u8)" using p by (simp add: pend_ok_def)
  then show "ev_id (pv_event (pl_values s ! k)) = of_nat k" by simp
qed

lemma of_nat_u8_eq: "k < 256 \<Longrightarrow> (of_nat k :: u8) = c \<longleftrightarrow> k = unat c"
  by (auto simp: unat_of_nat)

lemma flush_delta_ok:
  assumes "p4_pend_ok s" "key < 256"
  shows "case flush_delta env key s of (t, ok) \<Rightarrow>
     p4_pend_ok t \<and> pend_frame 1 s t \<and> (\<forall>j<256. j \<noteq> key \<longrightarrow> pending t j = pending s j) \<and> pl_values t = pl_values s \<and>
     (if ok then \<not> pl_delta_valid t ! key else pl_first_key t = key \<and> \<not> env_queue env (pl_sends s))"
proof (cases "pl_delta_valid s ! key")
  case False
  then show ?thesis using assms(1) by (simp add: flush_delta_def pend_frame_refl)
next
  case True
  then have pd: "pending s key" by (simp add: pending_def)
  note ev = pend_okD [OF assms pd]
  have d: "sint (clamp_jog_delta (pl_delta s ! key)) = pl_delta s ! key"
    using assms by (intro clamp_jog_delta_exact) (auto simp: p4_pend_ok_def)
  have len: "length (pl_delta s) = 256" "length (pl_delta_valid s) = 256" using assms(1) by (auto simp: p4_pend_ok_def)
  show ?thesis
  proof (cases "env_queue env (pl_sends s)")
    case False
    with True assms(1) show ?thesis
      by (simp add: flush_delta_def Let_def pend_frame_def p4_pend_ok_def pending_def owed_def)
  next
    case q: True
    show ?thesis
      using True q assms ev d len
      by (auto simp: flush_delta_def Let_def pend_frame_def p4_pend_ok_def pending_def owed_def nth_list_update
          of_nat_u8_eq)
  qed
qed

lemma flush_value_ok:
  assumes "p4_pend_ok s" "key < 256"
  shows "case flush_value env key s of (t, ok) \<Rightarrow>
     p4_pend_ok t \<and> pend_frame 1 s t \<and> (\<forall>j<256. j \<noteq> key \<longrightarrow> pending t j = pending s j) \<and>
     pl_delta_valid t = pl_delta_valid s \<and>
     (if ok then \<not> pv_valid (pl_values t ! key) else pl_first_key t = key \<and> \<not> env_queue env (pl_sends s))"
proof (cases "pv_valid (pl_values s ! key)")
  case False
  then show ?thesis using assms(1) by (simp add: flush_value_def pend_frame_refl)
next
  case True
  then have pd: "pending s key" by (simp add: pending_def)
  note ev = pend_okD [OF assms pd]
  have len: "length (pl_values s) = 256" using assms(1) by (auto simp: p4_pend_ok_def)
  show ?thesis
  proof (cases "env_queue env (pl_sends s)")
    case False
    with True assms(1) show ?thesis
      by (simp add: flush_value_def Let_def pend_frame_def p4_pend_ok_def pending_def owed_def)
  next
    case q: True
    show ?thesis
      using True q assms ev len
      by (auto simp: flush_value_def Let_def pend_frame_def p4_pend_ok_def pending_def owed_def nth_list_update
          of_nat_u8_eq)
  qed
qed

text \<open>The loop over the keys: nothing below the current key is pending, so the stored hint is exact.\<close>

lemma flush_keys_ok:
  assumes "p4_pend_ok s" "\<forall>j<key. \<not> pending s j" "key \<le> 256"
  shows "p4_pend_ok (flush_keys env [key..<256] 256 s) \<and> hint_ok (flush_keys env [key..<256] 256 s) \<and>
     pend_frame (2 * (256 - key)) s (flush_keys env [key..<256] 256 s) \<and>
     ((\<forall>j<256. \<not> pending (flush_keys env [key..<256] 256 s) j) \<or> (\<exists>n \<ge> pl_sends s. \<not> env_queue env n))"
  using assms
proof (induction "256 - key" arbitrary: key s)
  case 0
  then show ?case by (auto simp: hint_ok_def pending_def p4_pend_ok_def pend_frame_def owed_def)
next
  case (Suc m)
  then have key: "key < 256" by simp
  then have upt: "[key..<256] = key # [Suc key..<256]" by (simp add: upt_conv_Cons)
  obtain s1 ok1 where s1: "flush_delta env key s = (s1, ok1)" by fastforce
  note d = flush_delta_ok [OF Suc.prems(1) key, of env, unfolded s1 prod.case]
  obtain s2 ok2 where s2: "flush_value env key s1 = (s2, ok2)" by fastforce
  have p1: "p4_pend_ok s1" using d by simp
  note v = flush_value_ok [OF p1 key, of env, unfolded s2 prod.case]
  have fr1: "pend_frame 1 s s1" and fr2: "pend_frame 1 s1 s2" using d v by auto
  have low: "\<not> pending s1 j" "\<not> pending s2 j" if "j < key" for j
    using Suc.prems(2) d v that key by auto
  have sends: "pl_sends s \<le> pl_sends s1" using fr1 by (simp add: pend_frame_def)
  have fail: "hint_ok t" if "pl_first_key t = key" "\<And>j. j < key \<Longrightarrow> \<not> pending t j" for t
    using that key unfolding hint_ok_def by (metis less_imp_le not_le)
  show ?case
  proof (cases "ok1 \<and> ok2")
    case False
    have "pend_frame (2 * (256 - key)) s s1" "pend_frame (2 * (256 - key)) s s2"
      using pend_frame_trans [OF fr1 pend_frame_refl [of 0]] pend_frame_trans [OF fr1 fr2] key by auto
    with False show ?thesis
      unfolding upt using d v fail low sends
      by (cases ok1) (auto simp: s1 s2 Let_def)
  next
    case True
    then have np: "\<not> pending s2 key" using d v by (simp add: pending_def)
    then have low': "\<forall>j<Suc key. \<not> pending s2 j" using low(2) by (auto simp: less_Suc_eq)
    have rest: "flush_keys env (key # [Suc key..<256]) 256 s = flush_keys env [Suc key..<256] 256 s2"
      using True np by (simp add: s1 s2 pending_def)
    have fr: "pend_frame 2 s s2" by (rule pend_frame_trans [OF fr1 fr2]) simp
    have "m = 256 - Suc key" "p4_pend_ok s2" "Suc key \<le> 256" using Suc.hyps(2) v key by auto
    note ih = Suc.hyps(1) [OF this(1,2) low' this(3)]
    have "pl_sends s \<le> pl_sends s2" using fr by (simp add: pend_frame_def)
    then have "(\<exists>n \<ge> pl_sends s2. \<not> env_queue env n) \<Longrightarrow> \<exists>n \<ge> pl_sends s. \<not> env_queue env n" by (metis order_trans)
    moreover have "pend_frame (2 * (256 - key)) s (flush_keys env [Suc key..<256] 256 s2)"
      by (rule pend_frame_trans [OF fr]) (use ih key in auto)
    ultimately show ?thesis unfolding upt rest using ih by blast
  qed
qed

subsection \<open>A complete flush\<close>

definition not_held :: "u8 \<Rightarrow> bool" where
  "not_held c \<longleftrightarrow> (\<forall>v. control_held_state_key c v = None)"

lemma held_frame_owed:
  assumes "held_frame n s t" "not_held c"
  shows "owed c t = owed c s"
proof -
  obtain es where es: "pl_events t = pl_events s @ es" "\<forall>ev \<in> set es. \<exists>k. level_event k ev"
    using assms(1) unfolding held_frame_def by blast
  have "ev_id ev \<noteq> c" if "ev \<in> set es" for ev using es(2) that assms(2) by (fastforce simp: level_event_def not_held_def)
  then have "filter (\<lambda>ev. ev_id ev = c) es = []" by (simp add: filter_empty_conv)
  then show ?thesis using assms(1) es(1) by (simp add: owed_def motion_def held_frame_def)
qed

abbreviation FLUSH_BUDGET :: nat where "FLUSH_BUDGET \<equiv> CONTROL_HELD_STATE_COUNT + 512"

definition keeps_motion :: "u8 \<Rightarrow> p4_link \<Rightarrow> p4_link \<Rightarrow> bool" where
  "keeps_motion c s t \<longleftrightarrow> (\<not> pv_valid (pl_values s ! unat c) \<longrightarrow> owed c t = owed c s \<and> \<not> pv_valid (pl_values t ! unat c) \<and>
     \<bar>pl_delta t ! unat c\<bar> \<le> \<bar>pl_delta s ! unat c\<bar>)"

lemma p4_flush_ok:
  fixes env s
  assumes "p4_inv s"
  defines "t \<equiv> flush_pending_control_events env s"
  shows "p4_inv t" "held_wanted (pl_held t) = held_wanted (pl_held s)" "pl_sends s \<le> pl_sends t" "pl_sends t \<le> pl_sends s + FLUSH_BUDGET"
    "not_held c \<Longrightarrow> keeps_motion c s t"
    "\<forall>n \<ge> pl_sends s. env_queue env n \<Longrightarrow>
       held_clean (pl_held t) CONTROL_HELD_STATE_COUNT \<and> (\<forall>j<256. \<not> pending t j)"
proof -
  have s: "pl_queue_set s" "p4_held_ok s" "p4_pend_ok s" "hint_ok s" using assms(1) by (auto simp: p4_inv_def)
  obtain s1 ok where s1: "flush_held_from env 0 s = (s1, ok)" by fastforce
  note h = p4_held.flush_ok [OF s(2) [unfolded p4_held_ok_def], of 0 env, unfolded s1 prod.case]
  have h1: "p4_held_ok s1" and fr: "held_frame CONTROL_HELD_STATE_COUNT s s1"
    and wanted: "held_wanted (pl_held s1) = held_wanted (pl_held s)"
    using h by (auto simp: held_clean_def p4_held_ok_def)
  have same: "pl_values s1 = pl_values s" "pl_delta s1 = pl_delta s" "pl_delta_valid s1 = pl_delta_valid s"
    "pl_first_key s1 = pl_first_key s" "pl_queue_set s1 = pl_queue_set s" "pl_sends s \<le> pl_sends s1"
    "pl_sends s1 \<le> pl_sends s + CONTROL_HELD_STATE_COUNT"
    using fr by (auto simp: held_frame_def)
  have pd: "pending s1 = pending s" using same by (auto simp: fun_eq_iff pending_def)
  have p1: "p4_pend_ok s1" "hint_ok s1" using s(3,4) same pd by (auto simp: p4_pend_ok_def hint_ok_def)
  let ?u = "flush_keys env [pl_first_key s1..<256] 256 s1"
  have t: "t = (if ok then ?u else s1)"
    using s(1) by (simp add: t_def flush_pending_control_events_def flush_pending_held_states_def s1)
  have "\<forall>j<pl_first_key s1. \<not> pending s1 j" "pl_first_key s1 \<le> 256"
    using p1(2) unfolding hint_ok_def by (meson less_le_trans not_le, simp)
  note k = flush_keys_ok [OF p1(1) this, of env]
  have pf: "pend_frame 512 s1 ?u" using pend_frame_trans [of _ s1 ?u 0 ?u 512] k pend_frame_refl [of 0 ?u] by auto
  then have u: "p4_held_ok ?u" "pl_held ?u = pl_held s1" "pl_sends s1 \<le> pl_sends ?u" "pl_sends ?u \<le> pl_sends s1 + 512"
      "pl_queue_set ?u = pl_queue_set s1"
    using h1 unfolding pend_frame_def p4_held_ok_def by auto
  show "p4_inv t" unfolding t using k u s(1) h1 p1 same(5) by (auto simp: p4_inv_def)
  show "held_wanted (pl_held t) = held_wanted (pl_held s)" unfolding t using wanted u(2) by simp
  show "pl_sends s \<le> pl_sends t" "pl_sends t \<le> pl_sends s + FLUSH_BUDGET" unfolding t using same(6,7) u(3,4) by auto
  show "keeps_motion c s t" if "not_held c"
  proof -
    have "pl_delta ?u ! unat c = pl_delta s1 ! unat c \<or> pl_delta ?u ! unat c = 0"
      using pf unat_u8_bound [of c] unfolding pend_frame_def by blast
    then have "\<bar>pl_delta ?u ! unat c\<bar> \<le> \<bar>pl_delta s1 ! unat c\<bar>" by auto
    then show ?thesis
      unfolding t keeps_motion_def using held_frame_owed [OF fr that] pf same(1,2) unat_u8_bound [of c]
      unfolding pend_frame_def by auto
  qed
  show "held_clean (pl_held t) CONTROL_HELD_STATE_COUNT \<and> (\<forall>j<256. \<not> pending t j)"
    if acc: "\<forall>n \<ge> pl_sends s. env_queue env n"
  proof -
    have ok: "ok" "held_clean (pl_held s1) CONTROL_HELD_STATE_COUNT" using h acc by (auto simp: held_clean_def)
    moreover have "\<forall>n \<ge> pl_sends s1. env_queue env n" using acc same(6) by auto
    ultimately show ?thesis unfolding t using k u(2) by auto
  qed
qed

subsection \<open>One event\<close>

lemma store_fields:
  "pl_held (store_pending_continuous s ev) = pl_held s"
  "pl_events (store_pending_continuous s ev) = pl_events s"
  "pl_sends (store_pending_continuous s ev) = pl_sends s"
  "pl_queue_set (store_pending_continuous s ev) = pl_queue_set s"
  "pl_first_key (store_pending_continuous s ev) = min (unat (ev_id ev)) (pl_first_key s)"
  "pl_values (store_pending_continuous s ev) = (pl_values s)[unat (ev_id ev) :=
     \<lparr>pv_valid = pv_valid (pl_values s ! unat (ev_id ev)) \<or> \<not> event_is_relative_delta ev, pv_event = ev\<rparr>]"
  "pl_delta_valid (store_pending_continuous s ev) =
     (if event_is_relative_delta ev then (pl_delta_valid s)[unat (ev_id ev) := True] else pl_delta_valid s)"
  "pl_delta (store_pending_continuous s ev) =
     (if event_is_relative_delta ev then (pl_delta s)[unat (ev_id ev) :=
        max INT16_MIN (min INT16_MAX (pl_delta s ! unat (ev_id ev) + sint (ev_value ev)))] else pl_delta s)"
proof -
  have p: "p\<lparr>pv_event := ev\<rparr> = \<lparr>pv_valid = pv_valid p, pv_event = ev\<rparr>" for p :: pending_value by (cases p) simp
  show "pl_values (store_pending_continuous s ev) = (pl_values s)[unat (ev_id ev) :=
     \<lparr>pv_valid = pv_valid (pl_values s ! unat (ev_id ev)) \<or> \<not> event_is_relative_delta ev, pv_event = ev\<rparr>]"
    by (cases "event_is_relative_delta ev") (simp_all add: store_pending_continuous_def Let_def p)
qed (simp_all add: store_pending_continuous_def Let_def min_def max_def)

lemma store_inv:
  assumes "p4_inv s" "event_is_continuous_value ev"
  shows "p4_inv (store_pending_continuous s ev)"
proof -
  have "p4_pend_ok (store_pending_continuous s ev)"
    using assms by (auto simp: p4_inv_def p4_pend_ok_def store_fields pending_def pend_ok_def nth_list_update)
  moreover have "hint_ok (store_pending_continuous s ev)"
    using assms unfolding p4_inv_def hint_ok_def p4_pend_ok_def pending_def store_fields
    by (auto simp: nth_list_update min_le_iff_disj split: if_splits)
  ultimately show ?thesis using assms(1) by (simp add: p4_inv_def p4_held_ok_def store_fields)
qed

lemma p4_inv_cong:
  assumes "p4_inv s" "pl_queue_set t = pl_queue_set s" "pl_held t = pl_held s" "pl_values t = pl_values s"
    "pl_delta t = pl_delta s" "pl_delta_valid t = pl_delta_valid s" "pl_first_key t = pl_first_key s"
    "\<forall>k. deck_level k (pl_events t) = deck_level k (pl_events s)"
  shows "p4_inv t"
  using assms by (simp add: p4_inv_def p4_held_ok_def p4_pend_ok_def hint_ok_def pending_def)

lemma send_inv:
  "p4_inv s \<Longrightarrow> (\<And>k. \<not> level_event k ev) \<Longrightarrow> p4_inv (fst (xQueueSend env s ev))"
  by (rule p4_inv_cong [of s]) auto

text \<open>The level of a held control after an event, as the controller reports it.\<close>

definition disconnect_event :: "ctrl_event \<Rightarrow> bool" where
  "disconnect_event ev \<longleftrightarrow> ev_type ev = CTRL_EV_STATE \<and> ev_id ev = CTRL_ID_FLX4_CONNECTION \<and>
     ev_value ev = ucast CTRL_FLX4_DISCONNECTED"

definition wanted_step :: "nat \<Rightarrow> (u8 \<times> i16) option \<Rightarrow> ctrl_event \<Rightarrow> (u8 \<times> i16) option" where
  "wanted_step k w ev =
     (if level_event k ev then Some (ev_id ev, ev_value ev)
      else if disconnect_event ev then released w
      else w)"

lemma level_event_unique: "level_event j ev \<Longrightarrow> level_event k ev \<longleftrightarrow> k = j"
  by (auto simp: level_event_def)

lemma p4_inv_held:
  "p4_inv s \<Longrightarrow> held_view h (\<lambda>k. deck_level k (pl_events s)) \<Longrightarrow> p4_inv (s\<lparr>pl_held := h\<rparr>)"
  by (simp add: p4_inv_def p4_held_ok_def p4_pend_ok_def hint_ok_def pending_def)

text \<open>Where a held level ends up.\<close>

lemma enqueue_level:
  assumes "p4_inv s" "level_event k ev" "\<not> event_is_continuous_value ev"
  shows "case enqueue_control_event env s ev of (t, ok) \<Rightarrow>
     p4_inv t \<and> ok \<and> pl_sends s \<le> pl_sends t \<and> pl_sends t \<le> pl_sends s + 1 \<and>
     (\<forall>j. held_wanted (pl_held t) j = (if j = k then Some (ev_id ev, ev_value ev) else held_wanted (pl_held s) j)) \<and>
     pl_values t = pl_values s \<and> pl_delta t = pl_delta s \<and>
     (\<exists>es. pl_events t = pl_events s @ es \<and> set es \<subseteq> {ev})"
proof -
  have q: "pl_queue_set s" and ty: "\<not> event_is_droppable_ping ev" "ev_type ev = CTRL_EV_BUTTON"
    and key: "control_held_state_key (ev_id ev) (ev_value ev) = Some k"
    and v: "held_view (pl_held s) (\<lambda>k. deck_level k (pl_events s))"
    using assms(1,2) by (auto simp: p4_inv_def p4_held_ok_def level_event_def event_is_droppable_ping_def)
  note o = held_view_observe [OF v key]
  let ?h = "(pl_held s)[k := observe_slot (pl_held s ! k) (ev_id ev) (ev_value ev) (ev_seq ev)]"
  let ?s1 = "s\<lparr>pl_held := ?h\<rparr>"
  let ?m = "control_held_state_mark_scheduled ?h (int k) (ev_value ev)"
  let ?t1 = "?s1\<lparr>pl_coalesce := pl_coalesce s + 1\<rparr>"
  let ?s2 = "fst (xQueueSend env ?s1 ev)"
  let ?t2 = "?s2\<lparr>pl_held := ?m\<rparr>"
  let ?t3 = "?s2\<lparr>pl_edge_timeout := pl_edge_timeout ?s2 + 1, pl_coalesce := pl_coalesce ?s2 + 1\<rparr>"
  have res: "enqueue_control_event env s ev =
    (if \<not> dirty (?h ! k) then ?t1 else if env_queue env (pl_sends s) then ?t2 else ?t3, True)"
    using q ty assms(3) o(1) by (simp add: enqueue_control_event_def Let_def)
  have i: "p4_inv ?s1" by (rule p4_inv_held [OF assms(1) o(2)])
  have i1: "p4_inv ?t1" by (rule p4_inv_cong [OF i]) auto
  have i3: "p4_inv ?t3" if "\<not> env_queue env (pl_sends s)" by (rule p4_inv_cong [OF i]) (use that in auto)
  have i2: "p4_inv ?t2" if acc: "env_queue env (pl_sends s)"
  proof -
    have "held_view ?m (\<lambda>k. deck_level k (pl_events ?s2))"
      by (rule held_view_mark [OF o(2-4)]) (use acc level_event_unique [OF assms(2)] in simp)
    then show ?thesis using i by (simp add: p4_inv_def p4_held_ok_def p4_pend_ok_def hint_ok_def pending_def)
  qed
  have "length ?h = CONTROL_HELD_STATE_COUNT" using held_viewD [OF o(2)] by simp
  then have w: "held_wanted ?m = held_wanted ?h" by (rule mark_fields(3) [OF o(3)])
  show ?thesis unfolding res prod.case using i1 i2 i3 o(5) w by auto
qed

definition moves :: "u8 \<Rightarrow> ctrl_event \<Rightarrow> int" where
  "moves c ev = (if ev_id ev = c then sint (ev_value ev) else 0)"

text \<open>
  \<open>moved c s t d\<close>: control \<open>c\<close>, of which only deltas have been seen, gained \<open>d\<close> in total.
\<close>

definition moved :: "u8 \<Rightarrow> p4_link \<Rightarrow> p4_link \<Rightarrow> int \<Rightarrow> bool" where
  "moved c s t d \<longleftrightarrow> \<not> pv_valid (pl_values t ! unat c) \<and> owed c t = owed c s + d \<and>
     \<bar>pl_delta t ! unat c\<bar> \<le> \<bar>pl_delta s ! unat c\<bar> + \<bar>d\<bar>"

lemma relative_continuous: "event_is_relative_delta ev \<Longrightarrow> event_is_continuous_value ev \<and> \<not> event_is_droppable_ping ev"
  by (auto simp: event_is_relative_delta_def event_is_continuous_value_def event_is_droppable_ping_def)

lemma enqueue_no_level:
  assumes "p4_inv s" "\<And>k. \<not> level_event k ev"
  shows "case enqueue_control_event env s ev of (t, ok) \<Rightarrow>
     t = (if event_is_continuous_value ev \<and> \<not> event_is_droppable_ping ev \<and> \<not> env_queue env (pl_sends s)
          then store_pending_continuous (fst (xQueueSend env s ev)) ev
          else (fst (xQueueSend env s ev))\<lparr>pl_edge_timeout := pl_edge_timeout t\<rparr>)"
proof -
  have q: "pl_queue_set s" using assms(1) by (simp add: p4_inv_def)
  have n: "control_held_state_key (ev_id ev) (ev_value ev) = None" if "ev_type ev = CTRL_EV_BUTTON"
    using assms(2) that by (auto simp: level_event_def)
  have h: "(if ev_type ev = CTRL_EV_BUTTON
       then control_held_state_observe (pl_held s) (ev_id ev) (ev_value ev) (ev_seq ev) else (pl_held s, None)) = (pl_held s, None)"
    using n by (simp add: control_held_state_observe_def)
  show ?thesis using q unfolding enqueue_control_event_def h Let_def by simp
qed

lemma enqueue_other:
  assumes "p4_inv s" "\<And>k. \<not> level_event k ev"
  shows "case enqueue_control_event env s ev of (t, ok) \<Rightarrow>
     p4_inv t \<and> pl_sends s \<le> pl_sends t \<and> pl_sends t \<le> pl_sends s + 1 \<and> pl_held t = pl_held s \<and>
     (\<forall>c. \<not> pv_valid (pl_values s ! unat c) \<longrightarrow>
        (ev_id ev = c \<longrightarrow> event_is_relative_delta ev \<and> \<bar>pl_delta s ! unat c + sint (ev_value ev)\<bar> \<le> INT16_MAX) \<longrightarrow>
        moved c s t (moves c ev))"
proof -
  let ?s1 = "fst (xQueueSend env s ev)"
  obtain t ok where t: "enqueue_control_event env s ev = (t, ok)" by fastforce
  note e = enqueue_no_level [OF assms, of env, unfolded t prod.case]
  have i1: "p4_inv ?s1" using send_inv [OF assms] by blast
  have len: "length (pl_delta s) = 256" "length (pl_values s) = 256" using assms(1) by (auto simp: p4_inv_def p4_pend_ok_def)
  show ?thesis
  proof (cases "event_is_continuous_value ev \<and> \<not> event_is_droppable_ping ev \<and> \<not> env_queue env (pl_sends s)")
    case True
    with e have t': "t = store_pending_continuous ?s1 ev" by simp
    have "p4_inv t" unfolding t' using store_inv [OF i1] True by blast
    moreover have "moved c s t (moves c ev)"
      if "\<not> pv_valid (pl_values s ! unat c)"
        "ev_id ev = c \<longrightarrow> event_is_relative_delta ev \<and> \<bar>pl_delta s ! unat c + sint (ev_value ev)\<bar> \<le> INT16_MAX" for c
      using that True len
      by (auto simp: t' moved_def moves_def store_fields owed_def nth_list_update word_unat_eq_iff split: if_splits)
    ultimately show ?thesis unfolding t prod.case by (simp add: t' store_fields)
  next
    case False
    then obtain x where t': "t = ?s1\<lparr>pl_edge_timeout := x\<rparr>" using e by metis
    have "p4_inv t" unfolding t' by (rule p4_inv_cong [OF i1]) auto
    moreover have "moved c s t (moves c ev)"
      if "\<not> pv_valid (pl_values s ! unat c)" "ev_id ev = c \<longrightarrow> event_is_relative_delta ev" for c
      using that False relative_continuous [of ev]
      by (auto simp: t' moved_def moves_def owed_def)
    ultimately show ?thesis unfolding t prod.case by (simp add: t')
  qed
qed

text \<open>The part of \<open>dispatch_event\<close> before the flush.\<close>

definition note_connection :: "p4_link \<Rightarrow> ctrl_event \<Rightarrow> p4_link" where
  "note_connection s ev =
     (let connection = (ev_type ev = CTRL_EV_STATE \<and> ev_id ev = CTRL_ID_FLX4_CONNECTION);
          s1 = (if connection \<and> (ev_value ev = ucast CTRL_FLX4_CONNECTED \<or> ev_value ev = ucast CTRL_FLX4_DISCONNECTED) \<and>
                   pl_controller_state_cb s
                then s\<lparr>pl_calls := pl_calls s @ [ControllerState (ev_value ev = ucast CTRL_FLX4_CONNECTED)]\<rparr> else s)
      in if connection \<and> ev_value ev = ucast CTRL_FLX4_DISCONNECTED
         then s1\<lparr>pl_held := control_held_state_release_all (pl_held s1) (ev_seq ev)\<rparr> else s1)"

lemma dispatch_event_eq:
  "dispatch_event env s ev =
     (case enqueue_control_event env (flush_pending_control_events env (note_connection s ev)) ev of
        (s3, ok) \<Rightarrow> if \<not> ok then s3\<lparr>pl_event_drop := pl_event_drop s3 + 1\<rparr> else s3)"
  by (simp add: dispatch_event_def note_connection_def Let_def split_beta)

lemma note_connection_fields [simp]:
  "pl_values (note_connection s ev) = pl_values s" "pl_delta (note_connection s ev) = pl_delta s"
  "pl_events (note_connection s ev) = pl_events s" "pl_sends (note_connection s ev) = pl_sends s"
  "owed c (note_connection s ev) = owed c s"
  by (auto simp: note_connection_def Let_def owed_def)

lemma note_connection_ok:
  assumes "p4_inv s"
  shows "p4_inv (note_connection s ev)" "k < CONTROL_HELD_STATE_COUNT \<Longrightarrow>
     held_wanted (pl_held (note_connection s ev)) k =
       (if disconnect_event ev then released (held_wanted (pl_held s) k) else held_wanted (pl_held s) k)"
proof -
  define s1 where "s1 = (if ev_type ev = CTRL_EV_STATE \<and> ev_id ev = CTRL_ID_FLX4_CONNECTION \<and>
      (ev_value ev = ucast CTRL_FLX4_CONNECTED \<or> ev_value ev = ucast CTRL_FLX4_DISCONNECTED) \<and> pl_controller_state_cb s
    then s\<lparr>pl_calls := pl_calls s @ [ControllerState (ev_value ev = ucast CTRL_FLX4_CONNECTED)]\<rparr> else s)"
  have n: "note_connection s ev =
     (if disconnect_event ev then s1\<lparr>pl_held := control_held_state_release_all (pl_held s1) (ev_seq ev)\<rparr> else s1)"
    by (simp add: note_connection_def s1_def disconnect_event_def Let_def)
  have i: "p4_inv s1" by (rule p4_inv_cong [OF assms]) (auto simp: s1_def)
  then have v: "held_view (pl_held s1) (\<lambda>k. deck_level k (pl_events s1))" by (simp add: p4_inv_def p4_held_ok_def)
  have w: "pl_held s1 = pl_held s" by (simp add: s1_def)
  note r = held_view_release [OF v]
  show "p4_inv (note_connection s ev)" unfolding n using i p4_inv_held [OF i r(1)] by simp
  show "held_wanted (pl_held (note_connection s ev)) k =
      (if disconnect_event ev then released (held_wanted (pl_held s) k) else held_wanted (pl_held s) k)"
    if "k < CONTROL_HELD_STATE_COUNT"
    unfolding n using r(2) [OF that] w by simp
qed

lemma level_not_disconnect: "level_event k ev \<Longrightarrow> \<not> disconnect_event ev"
  by (simp add: level_event_def disconnect_event_def)

text \<open>One dispatched event: the invariant, the wanted levels, the work done and the motion.\<close>

lemma dispatch_ok:
  assumes "p4_inv s"
  shows "p4_inv (dispatch_event env s ev) \<and>
     (\<forall>k<CONTROL_HELD_STATE_COUNT. held_wanted (pl_held (dispatch_event env s ev)) k = wanted_step k (held_wanted (pl_held s) k) ev) \<and>
     pl_sends s \<le> pl_sends (dispatch_event env s ev) \<and>
     pl_sends (dispatch_event env s ev) \<le> pl_sends s + FLUSH_BUDGET + 1"
proof -
  let ?s2 = "note_connection s ev"
  let ?f = "flush_pending_control_events env ?s2"
  note n = note_connection_ok [OF assms, where ev = ev]
  note f = p4_flush_ok [OF n(1), where env = env]
  obtain t ok where t: "enqueue_control_event env ?f ev = (t, ok)" by fastforce
  have d: "dispatch_event env s ev = (if \<not> ok then t\<lparr>pl_event_drop := pl_event_drop t + 1\<rparr> else t)"
    by (simp add: dispatch_event_eq t)
  have "p4_inv t \<and> pl_sends ?f \<le> pl_sends t \<and> pl_sends t \<le> pl_sends ?f + 1 \<and>
     (\<forall>k<CONTROL_HELD_STATE_COUNT. held_wanted (pl_held t) k = wanted_step k (held_wanted (pl_held s) k) ev)"
  proof (cases "\<exists>k. level_event k ev")
    case True
    then obtain k where k: "level_event k ev" by blast
    then have "\<not> event_is_continuous_value ev" using continuous_no_level(2) by blast
    note e = enqueue_level [OF f(1) k this, of env, unfolded t prod.case]
    show ?thesis using e n(2) f(2) level_not_disconnect [OF k] level_event_unique [OF k] by (auto simp: wanted_step_def)
  next
    case False
    then have nl: "\<And>k. \<not> level_event k ev" by blast
    note e = enqueue_other [OF f(1) nl, of env, unfolded t prod.case]
    then show ?thesis using n(2) f(2) nl by (auto simp: wanted_step_def)
  qed
  moreover have "p4_inv (t\<lparr>pl_event_drop := x\<rparr>)" if "p4_inv t" for x by (rule p4_inv_cong [OF that]) auto
  ultimately show ?thesis unfolding d using f(3,4) by auto
qed

lemma dispatch_motion:
  assumes "p4_inv s" "not_held c" "\<not> pv_valid (pl_values s ! unat c)"
    "ev_id ev = c \<Longrightarrow> event_is_relative_delta ev"
    "\<bar>pl_delta s ! unat c\<bar> + \<bar>moves c ev\<bar> \<le> INT16_MAX"
  shows "moved c s (dispatch_event env s ev) (moves c ev)"
proof -
  let ?s2 = "note_connection s ev"
  let ?f = "flush_pending_control_events env ?s2"
  note n = note_connection_ok [OF assms(1), where ev = ev]
  note f = p4_flush_ok [OF n(1), where env = env]
  have km: "owed c ?f = owed c s" "\<not> pv_valid (pl_values ?f ! unat c)"
    and less: "\<bar>pl_delta ?f ! unat c\<bar> \<le> \<bar>pl_delta s ! unat c\<bar>"
    using f(5) [OF assms(2)] assms(3) by (auto simp: keeps_motion_def)
  obtain t ok where t: "enqueue_control_event env ?f ev = (t, ok)" by fastforce
  have d: "dispatch_event env s ev = (if \<not> ok then t\<lparr>pl_event_drop := pl_event_drop t + 1\<rparr> else t)"
    by (simp add: dispatch_event_eq t)
  have "moved c ?f t (moves c ev)"
  proof (cases "\<exists>k. level_event k ev")
    case True
    then obtain k where k: "level_event k ev" by blast
    then have "\<not> event_is_continuous_value ev" using continuous_no_level(2) by blast
    note e = enqueue_level [OF f(1) k this, of env, unfolded t prod.case]
    obtain es where es: "pl_events t = pl_events ?f @ es" "set es \<subseteq> {ev}" using e by blast
    have "ev_id ev \<noteq> c" using k assms(2) by (auto simp: level_event_def not_held_def)
    then have "filter (\<lambda>ev. ev_id ev = c) es = []" using es(2) by (auto simp: filter_empty_conv)
    then show ?thesis using e es(1) km(2) \<open>ev_id ev \<noteq> c\<close> by (simp add: moved_def moves_def owed_def motion_def)
  next
    case False
    then have "\<And>k. \<not> level_event k ev" by blast
    note e = enqueue_other [OF f(1) this, of env, unfolded t prod.case]
    show ?thesis using e km(2) assms(4,5) less by (auto simp: moves_def)
  qed
  then show ?thesis unfolding d using km(1) less by (auto simp: moved_def owed_def)
qed

section \<open>Runs\<close>

text \<open>The event a frame stands for; boot challenges are answered by the link itself.\<close>

definition deck_event :: "u8 list \<Rightarrow> ctrl_event option" where
  "deck_event f =
     (case frame_event_type (f ! 1) (f ! 2) of
        None \<Rightarrow> None
      | Some ty \<Rightarrow> if ty = CTRL_EV_STATE \<and> f ! 2 = CTRL_ID_S3_BOOT_CHALLENGE then None else Some (frame_event f ty))"

lemma send_frame_inv:
  "p4_inv s \<Longrightarrow> p4_inv (send_frame env s ty cid v)"
  "pl_held (send_frame env s ty cid v) = pl_held s" "pl_sends (send_frame env s ty cid v) = pl_sends s"
  "pl_events (send_frame env s ty cid v) = pl_events s" "pl_delta (send_frame env s ty cid v) = pl_delta s"
  "pl_values (send_frame env s ty cid v) = pl_values s"
  by (auto simp: send_frame_def next_seq_def uart_write_bytes_def Let_def intro!: p4_inv_cong [of s])

lemma dispatch_frame_cases:
  "case deck_event f of
     Some ev \<Rightarrow> dispatch_frame env s f = dispatch_event env s ev
   | None \<Rightarrow> dispatch_frame env s f = s \<or> dispatch_frame env s f = send_frame env s CTRL_TYPE_STATE CTRL_ID_S3_BOOT_ACK
                (ucast (f ! 3) OR push_bit 8 (ucast (f ! 4)))"
  by (auto simp: deck_event_def dispatch_frame_def frame_event_def control_link_send_state_def split: option.splits)

definition frames_run :: "p4_env \<Rightarrow> p4_link \<Rightarrow> u8 list list \<Rightarrow> p4_link" where
  "frames_run env s frames = foldl (dispatch_frame env) s frames"

definition held_want :: "nat \<Rightarrow> u8 list list \<Rightarrow> (u8 \<times> i16) option" where
  "held_want k frames = foldl (wanted_step k) None (List.map_filter deck_event frames)"

lemma dispatch_frame_ok:
  assumes "p4_inv s"
  shows "p4_inv (dispatch_frame env s f)" "pl_sends s \<le> pl_sends (dispatch_frame env s f)"
    "pl_sends (dispatch_frame env s f) \<le> pl_sends s + FLUSH_BUDGET + 1"
    "k < CONTROL_HELD_STATE_COUNT \<Longrightarrow> held_wanted (pl_held (dispatch_frame env s f)) k =
       (case deck_event f of None \<Rightarrow> held_wanted (pl_held s) k | Some ev \<Rightarrow> wanted_step k (held_wanted (pl_held s) k) ev)"
  using dispatch_frame_cases [where f = f and env = env and s = s] dispatch_ok [OF assms, of env] assms
  by (auto split: option.splits simp: send_frame_inv)

lemma frames_run_ok:
  assumes "p4_inv s" "k < CONTROL_HELD_STATE_COUNT"
  shows "p4_inv (frames_run env s frames) \<and> pl_sends (frames_run env s frames) \<le> pl_sends s + length frames * (FLUSH_BUDGET + 1) \<and>
     held_wanted (pl_held (frames_run env s frames)) k = foldl (wanted_step k) (held_wanted (pl_held s) k) (List.map_filter deck_event frames)"
  using assms(1)
proof (induction frames arbitrary: s)
  case (Cons f frames)
  note d = dispatch_frame_ok [OF Cons.prems, where env = env and f = f]
  from Cons.IH [OF d(1)] d(3) d(4) [OF assms(2)] show ?case
    by (auto simp: frames_run_def map_filter_simps split: option.splits)
qed (simp add: frames_run_def map_filter_simps)

definition p4_started :: p4_link where
  "p4_started = fst (p4_control_link_init \<lparr>init_driver_install = ESP_OK, init_param_config = ESP_OK,
     init_set_pin = ESP_OK, init_task_create = True\<rparr> True p4_link_zero)"

lemma p4_started_fields:
  "pl_queue_set p4_started" "pl_held p4_started = control_held_state_reset"
  "pl_values p4_started = replicate 256 \<lparr>pv_valid = False, pv_event = zero_event\<rparr>"
  "pl_delta_valid p4_started = replicate 256 False" "pl_delta p4_started = replicate 256 0"
  "pl_first_key p4_started = 256" "pl_events p4_started = []" "pl_sends p4_started = 0"
  by (simp_all add: p4_started_def p4_control_link_init_def p4_link_zero_def)

lemma p4_started_inv: "p4_inv p4_started" "owed c p4_started = 0"
  using held_view_reset
  by (auto simp: p4_inv_def p4_held_ok_def p4_pend_ok_def hint_ok_def pending_def p4_started_fields owed_def deck_level_def)

text \<open>Motion over a run: what was received is what was delivered plus what is still held back.\<close>

lemma frames_motion:
  assumes "p4_inv s" "not_held c" "\<not> pv_valid (pl_values s ! unat c)"
    "\<forall>ev \<in> set (List.map_filter deck_event frames). ev_id ev = c \<longrightarrow> event_is_relative_delta ev"
    "\<bar>pl_delta s ! unat c\<bar> + sum_list (map (\<lambda>ev. \<bar>moves c ev\<bar>) (List.map_filter deck_event frames)) \<le> INT16_MAX"
  shows "owed c (frames_run env s frames) = owed c s + motion c (List.map_filter deck_event frames) \<and>
     \<not> pv_valid (pl_values (frames_run env s frames) ! unat c)"
  using assms
proof (induction frames arbitrary: s)
  case Nil
  then show ?case by (simp add: frames_run_def map_filter_simps)
next
  case (Cons f frames)
  let ?t = "dispatch_frame env s f"
  have run: "frames_run env s (f # frames) = frames_run env ?t frames" by (simp add: frames_run_def)
  note d = dispatch_frame_ok(1) [OF Cons.prems(1), where env = env and f = f]
  have nn: "0 \<le> sum_list (map (\<lambda>ev. \<bar>moves c ev\<bar>) evs)" for evs by (intro sum_list_nonneg) auto
  show ?case
  proof (cases "deck_event f")
    case None
    then have t: "owed c ?t = owed c s" "pl_values ?t = pl_values s" "pl_delta ?t = pl_delta s"
      using dispatch_frame_cases [where f = f and env = env and s = s] by (auto simp: send_frame_inv owed_def)
    show ?thesis
      unfolding run using Cons.IH [OF d Cons.prems(2)] Cons.prems(3-5) None t by (simp add: map_filter_simps)
  next
    case (Some ev)
    then have t: "?t = dispatch_event env s ev"
      using dispatch_frame_cases [where f = f and env = env and s = s] by simp
    have b: "\<bar>pl_delta s ! unat c\<bar> + \<bar>moves c ev\<bar> \<le> INT16_MAX"
      using Cons.prems(5) nn [of "List.map_filter deck_event frames"] Some by (simp add: map_filter_simps)
    have m: "moved c s ?t (moves c ev)"
      unfolding t by (rule dispatch_motion [OF Cons.prems(1-3) _ b]) (use Cons.prems(4) Some in \<open>simp add: map_filter_simps\<close>)
    have mv: "motion c (ev # evs) = moves c ev + motion c evs" for evs by (simp add: motion_def moves_def)
    show ?thesis
      unfolding run using Cons.IH [OF d Cons.prems(2)] Cons.prems(4,5) Some m
      by (auto simp: map_filter_simps moved_def mv)
  qed
qed

lemma pending_none_delta: "p4_pend_ok s \<Longrightarrow> \<forall>j<256. \<not> pending s j \<Longrightarrow> owed c s = motion c (pl_events s)"
  using unat_u8_bound [of c] by (auto simp: p4_pend_ok_def pending_def owed_def)

section \<open>Properties\<close>

text \<open>
  Claim C2.  No held control sticks: whatever the queue refused while the frames arrived, after one flush with room in
  the queue the last level the deck received for every held control is the last level the controller reported,
  or its release when the controller was unplugged.
\<close>

theorem held_levels_reach_deck:
  assumes "\<forall>n \<ge> pl_sends (frames_run env p4_started frames). env_queue env n" "k < CONTROL_HELD_STATE_COUNT"
  shows "deck_level k (pl_events (flush_pending_control_events env (frames_run env p4_started frames)))
     = map_option snd (held_want k frames)"
proof -
  let ?s = "frames_run env p4_started frames"
  let ?t = "flush_pending_control_events env ?s"
  have r: "p4_inv ?s" "held_wanted (pl_held ?s) k = held_want k frames"
    using frames_run_ok [OF p4_started_inv(1) assms(2), of env frames] held_wanted_reset [OF assms(2)]
    by (auto simp: held_want_def p4_started_fields)
  note f = p4_flush_ok [OF r(1), where env = env]
  have "held_view (pl_held ?t) (\<lambda>k. deck_level k (pl_events ?t))" using f(1) by (simp add: p4_inv_def p4_held_ok_def)
  from held_view_clean [OF this _ assms(2)] show ?thesis using f(2) f(6) [OF assms(1)] r(2) by simp
qed

text \<open>A jog touch whose release meets a full queue: the release is delivered later.\<close>

definition sample_touch :: "u8 list list" where
  "sample_touch = [[0xA5, 1, 0x14, 1, 0, 0, 0], [0xA5, 1, 0x14, 0, 0, 1, 0]]"

definition busy_queue :: p4_env where
  "busy_queue = \<lparr>env_queue = (\<lambda>n. n \<noteq> 1), env_uart = (\<lambda>n. 7)\<rparr>"

lemma sample_touch_run:
  "pl_sends (frames_run busy_queue p4_started sample_touch) = 2"
  "map_option snd (held_want 0 sample_touch) = Some 0"
  by code_simp+

theorem held_levels_reach_deck_witness:
  "deck_level 0 (pl_events (flush_pending_control_events busy_queue (frames_run busy_queue p4_started sample_touch))) = Some 0"
  using held_levels_reach_deck [of busy_queue sample_touch 0] sample_touch_run by (simp add: busy_queue_def)

text \<open>
  Claim C13.  No movement is lost on the way to the deck: for a jog or browse control whose total travel stays within 16
  bits, the movement delivered after a flush with room in the queue is exactly the movement received, however
  often the queue was full in between.
\<close>

theorem deck_motion_exact:
  assumes "not_held c" "list_all (\<lambda>ev. if ev_id ev = c then event_is_relative_delta ev else True) (List.map_filter deck_event frames)"
    "sum_list (map (\<lambda>ev. \<bar>moves c ev\<bar>) (List.map_filter deck_event frames)) \<le> INT16_MAX"
    "\<forall>n \<ge> pl_sends (frames_run env p4_started frames). env_queue env n"
  shows "motion c (pl_events (flush_pending_control_events env (frames_run env p4_started frames)))
     = motion c (List.map_filter deck_event frames)"
proof -
  let ?s = "frames_run env p4_started frames"
  let ?t = "flush_pending_control_events env ?s"
  have "\<forall>ev \<in> set (List.map_filter deck_event frames). ev_id ev = c \<longrightarrow> event_is_relative_delta ev"
    using assms(2) by (auto simp: list_all_iff split: if_splits)
  then have m: "owed c ?s = motion c (List.map_filter deck_event frames)" "\<not> pv_valid (pl_values ?s ! unat c)"
    using frames_motion [OF p4_started_inv(1) assms(1), of frames env] assms(3) p4_started_inv(2)
    by (auto simp: p4_started_fields)
  have "p4_inv ?s" using frames_run_ok [OF p4_started_inv(1), of 0 env frames] by simp
  note f = p4_flush_ok [OF this, where env = env]
  have "owed c ?t = owed c ?s" using f(5) [OF assms(1)] m(2) by (simp add: keeps_motion_def)
  moreover have "owed c ?t = motion c (pl_events ?t)"
    using pending_none_delta f(1) f(6) [OF assms(4)] by (simp add: p4_inv_def)
  ultimately show ?thesis using m(1) by simp
qed

definition sample_jog :: "u8 list list" where
  "sample_jog = [[0xA5, 2, 0x12, 5, 0, 0, 0], [0xA5, 2, 0x12, 0xFE, 0xFF, 1, 0]]"

lemma sample_jog_run:
  "pl_sends (frames_run \<lparr>env_queue = (\<lambda>n. 2 < n), env_uart = (\<lambda>n. 7)\<rparr> p4_started sample_jog) = 3"
  "list_all (\<lambda>ev. if ev_id ev = 0x12 then event_is_relative_delta ev else True) (List.map_filter deck_event sample_jog)"
  "sum_list (map (\<lambda>ev. \<bar>moves 0x12 ev\<bar>) (List.map_filter deck_event sample_jog)) = 7"
  "motion 0x12 (List.map_filter deck_event sample_jog) = 3"
  by code_simp+

theorem deck_motion_exact_witness:
  "motion 0x12 (pl_events (flush_pending_control_events \<lparr>env_queue = (\<lambda>n. 2 < n), env_uart = (\<lambda>n. 7)\<rparr>
     (frames_run \<lparr>env_queue = (\<lambda>n. 2 < n), env_uart = (\<lambda>n. 7)\<rparr> p4_started sample_jog))) = 3"
proof -
  have "not_held 0x12" by (simp add: not_held_def control_held_state_key_def)
  then show ?thesis
    using deck_motion_exact [where c = "0x12" and frames = sample_jog and
        env = "\<lparr>env_queue = (\<lambda>n. 2 < n), env_uart = (\<lambda>n. 7)\<rparr>"] sample_jog_run by simp
qed

text \<open>
  A pending absolute value can be delivered after a newer one: the flush before an event meets a full queue, room
  appears, the new value is sent directly, and the old one stays pending for the next flush.
\<close>

theorem stale_fader_value_stays_pending:
  "let s = frames_run \<lparr>env_queue = (\<lambda>n. 1 < n), env_uart = (\<lambda>n. 7)\<rparr> p4_started
        [[0xA5, CTRL_TYPE_PITCH, CTRL_ID_CROSSFADER, 10, 0, 0, 0], [0xA5, CTRL_TYPE_PITCH, CTRL_ID_CROSSFADER, 20, 0, 1, 0]];
       old = pl_values s ! unat CTRL_ID_CROSSFADER
   in map ev_value (pl_events s) = [20] \<and> pv_valid old \<and> ev_value (pv_event old) = 10"
  by code_simp

text \<open>The jog and the pitch events with id 0 share a pending slot: the pitch value is lost and the jog is pending twice.\<close>

theorem jog_overwrites_pending_pitch:
  "let s = frames_run \<lparr>env_queue = (\<lambda>n. False), env_uart = (\<lambda>n. 7)\<rparr> p4_started
        [[0xA5, CTRL_TYPE_PITCH, 0, 100, 0, 0, 0], [0xA5, CTRL_TYPE_ENCODER, 0, 5, 0, 1, 0]];
       slot = pl_values s ! 0
   in pv_valid slot \<and> pl_delta_valid s ! 0 \<and> pl_delta s ! 0 = 5 \<and>
      ev_type (pv_event slot) = CTRL_EV_JOG \<and> ev_value (pv_event slot) = 5"
  by code_simp

section \<open>The receive loop\<close>

lemma record_inv [simp]:
  "p4_inv s \<Longrightarrow> p4_inv (record_rx_frame s sq b)" "p4_inv s \<Longrightarrow> p4_inv (record_rx_error s b)"
  "p4_inv s \<Longrightarrow> p4_inv (s\<lparr>pl_rx := d\<rparr>)"
  "pl_sends (record_rx_frame s sq b) = pl_sends s" "pl_sends (record_rx_error s b) = pl_sends s"
  by (auto simp: record_rx_frame_def record_rx_error_def intro: p4_inv_cong)

lemma handle_bulk_inv:
  "p4_inv s \<Longrightarrow> p4_inv (handle_bulk_frame s f n)" "pl_sends (handle_bulk_frame s f n) = pl_sends s"
  by (auto simp: handle_bulk_frame_def Let_def split: option.splits prod.splits intro: p4_inv_cong)

lemma parse_byte_ok:
  assumes "p4_inv s"
  shows "p4_inv (parse_byte env s b) \<and> pl_sends (parse_byte env s b) \<le> pl_sends s + (FLUSH_BUDGET + 1)"
proof -
  obtain d r where r: "rx_step (pl_rx s) b = (d, r)" by fastforce
  let ?s1 = "s\<lparr>pl_rx := d\<rparr>"
  have "p4_inv ?s1" "pl_sends ?s1 = pl_sends s" using assms by simp_all
  then show ?thesis
    using dispatch_frame_ok(1,3) [of "record_rx_frame ?s1 sq False" for sq] handle_bulk_inv
    by (auto simp: parse_byte_def r Let_def add.commute [of "pl_sends s"] split: option.splits rx_report.splits)
qed

lemma parse_bytes_ok:
  "p4_inv s \<Longrightarrow> p4_inv (foldl (parse_byte env) s bs) \<and>
     pl_sends (foldl (parse_byte env) s bs) \<le> pl_sends s + length bs * (FLUSH_BUDGET + 1)"
proof (induction bs arbitrary: s)
  case (Cons b bs)
  note p = parse_byte_ok [OF Cons.prems, of env b]
  note ih = Cons.IH [of "parse_byte env s b"]
  show ?case using p ih by (auto intro: order_trans)
qed simp

lemma pump_ok:
  assumes "p4_inv s"
  shows "p4_inv (uart_rx_pump env s bs) \<and>
     pl_sends (uart_rx_pump env s bs) \<le> pl_sends s + (length bs + 1) * (FLUSH_BUDGET + 1)"
proof -
  note p = parse_bytes_ok [OF assms, of env bs]
  note f = p4_flush_ok [of "foldl (parse_byte env) s bs", where env = env]
  show ?thesis unfolding uart_rx_pump_def using p f(1,4) by auto
qed

text \<open>
  Claim C14.  The receive task never loses itself in its backlog: for every byte stream and every behaviour of the
  queue, the passes of the receive loop make a number of queue operations bounded by the bytes read, and the scan
  hint never lies above a pending slot, so no pending value is skipped.
\<close>

theorem receive_passes_bounded:
  "let s = foldl (uart_rx_pump env) p4_started chunks in
     pl_sends s \<le> (length (concat chunks) + length chunks) * (FLUSH_BUDGET + 1) \<and>
     list_all (\<lambda>k. if pending s k then pl_first_key s \<le> k else True) [0..<256]"
proof -
  have "p4_inv (foldl (uart_rx_pump env) s chunks) \<and> pl_sends (foldl (uart_rx_pump env) s chunks)
      \<le> pl_sends s + (length (concat chunks) + length chunks) * (FLUSH_BUDGET + 1)" if "p4_inv s" for s
    using that
  proof (induction chunks arbitrary: s)
    case (Cons bs chunks)
    note p = pump_ok [OF Cons.prems, of env bs]
    note ih = Cons.IH [of "uart_rx_pump env s bs"]
    show ?case using p ih by (auto intro: order_trans)
  qed simp
  from this [OF p4_started_inv(1)] show ?thesis
    by (auto simp: p4_started_fields p4_inv_def hint_ok_def list_all_iff Let_def)
qed

end
