(* ===== verification/Flx4_Map.thy ===== *)
theory Flx4_Map
  imports Held_State
begin

text \<open>
  The built-in translation of the DDJ-FLX4's MIDI messages to semantic control events (\<open>flx4_map.c\<close>): deck buttons, jog
  wheels, 14-bit faders that arrive as two controller messages, pads, beat effects, and the replay of the known fader
  positions.  A function that returns \<open>false\<close> in C returns no event here.
\<close>

section \<open>MIDI vocabulary\<close>

abbreviation (input) FLX4_STATUS_D1_BTN :: u8 where "FLX4_STATUS_D1_BTN \<equiv> 0x90"
abbreviation (input) FLX4_STATUS_D2_BTN :: u8 where "FLX4_STATUS_D2_BTN \<equiv> 0x91"
abbreviation (input) FLX4_STATUS_GLOBAL_BTN :: u8 where "FLX4_STATUS_GLOBAL_BTN \<equiv> 0x96"
abbreviation (input) FLX4_STATUS_BEAT_FX_CH1 :: u8 where "FLX4_STATUS_BEAT_FX_CH1 \<equiv> 0x94"
abbreviation (input) FLX4_STATUS_BEAT_FX_CH2 :: u8 where "FLX4_STATUS_BEAT_FX_CH2 \<equiv> 0x95"
abbreviation (input) FLX4_STATUS_PAD_D1 :: u8 where "FLX4_STATUS_PAD_D1 \<equiv> 0x97"
abbreviation (input) FLX4_STATUS_PAD_D1_SHIFT :: u8 where "FLX4_STATUS_PAD_D1_SHIFT \<equiv> 0x98"
abbreviation (input) FLX4_STATUS_PAD_D2 :: u8 where "FLX4_STATUS_PAD_D2 \<equiv> 0x99"
abbreviation (input) FLX4_STATUS_PAD_D2_SHIFT :: u8 where "FLX4_STATUS_PAD_D2_SHIFT \<equiv> 0x9a"
abbreviation (input) FLX4_STATUS_D1_CC :: u8 where "FLX4_STATUS_D1_CC \<equiv> 0xb0"
abbreviation (input) FLX4_STATUS_D2_CC :: u8 where "FLX4_STATUS_D2_CC \<equiv> 0xb1"
abbreviation (input) FLX4_STATUS_BEAT_FX_CC :: u8 where "FLX4_STATUS_BEAT_FX_CC \<equiv> 0xb4"
abbreviation (input) FLX4_STATUS_MASTER_CC :: u8 where "FLX4_STATUS_MASTER_CC \<equiv> 0xb6"
abbreviation (input) FLX4_BTN_PLAY :: u8 where "FLX4_BTN_PLAY \<equiv> 0xb"
abbreviation (input) FLX4_BTN_CENSOR :: u8 where "FLX4_BTN_CENSOR \<equiv> 0xe"
abbreviation (input) FLX4_BTN_CUE :: u8 where "FLX4_BTN_CUE \<equiv> 0xc"
abbreviation (input) FLX4_BTN_JOG_TOUCH :: u8 where "FLX4_BTN_JOG_TOUCH \<equiv> 0x36"
abbreviation (input) FLX4_BTN_SHIFT :: u8 where "FLX4_BTN_SHIFT \<equiv> 0x3f"
abbreviation (input) FLX4_BTN_CUE_SHIFT :: u8 where "FLX4_BTN_CUE_SHIFT \<equiv> 0x48"
abbreviation (input) FLX4_BTN_SYNC :: u8 where "FLX4_BTN_SYNC \<equiv> 0x58"
abbreviation (input) FLX4_BTN_SYNC_MASTER :: u8 where "FLX4_BTN_SYNC_MASTER \<equiv> 0x5c"
abbreviation (input) FLX4_BTN_TEMPO_RANGE :: u8 where "FLX4_BTN_TEMPO_RANGE \<equiv> 0x60"
abbreviation (input) FLX4_BTN_LOOP_IN :: u8 where "FLX4_BTN_LOOP_IN \<equiv> 0x10"
abbreviation (input) FLX4_BTN_LOOP_OUT :: u8 where "FLX4_BTN_LOOP_OUT \<equiv> 0x11"
abbreviation (input) FLX4_BTN_RELOOP_EXIT :: u8 where "FLX4_BTN_RELOOP_EXIT \<equiv> 0x4d"
abbreviation (input) FLX4_BTN_RELOOP_STOP :: u8 where "FLX4_BTN_RELOOP_STOP \<equiv> 0x50"
abbreviation (input) FLX4_BTN_LOOP_ADJUST_IN :: u8 where "FLX4_BTN_LOOP_ADJUST_IN \<equiv> 0x4c"
abbreviation (input) FLX4_BTN_LOOP_ADJUST_OUT :: u8 where "FLX4_BTN_LOOP_ADJUST_OUT \<equiv> 0x4e"
abbreviation (input) FLX4_BTN_LOOP_HALVE :: u8 where "FLX4_BTN_LOOP_HALVE \<equiv> 0x51"
abbreviation (input) FLX4_BTN_LOOP_DOUBLE :: u8 where "FLX4_BTN_LOOP_DOUBLE \<equiv> 0x53"
abbreviation (input) FLX4_BTN_BEAT_JUMP_BACK :: u8 where "FLX4_BTN_BEAT_JUMP_BACK \<equiv> 0x3e"
abbreviation (input) FLX4_BTN_BEAT_JUMP_FORWARD :: u8 where "FLX4_BTN_BEAT_JUMP_FORWARD \<equiv> 0x3d"
abbreviation (input) FLX4_BTN_QUANTIZE :: u8 where "FLX4_BTN_QUANTIZE \<equiv> 0x68"
abbreviation (input) FLX4_BTN_PAD_HOT_CUE :: u8 where "FLX4_BTN_PAD_HOT_CUE \<equiv> 0x1b"
abbreviation (input) FLX4_BTN_PAD_KEYBOARD :: u8 where "FLX4_BTN_PAD_KEYBOARD \<equiv> 0x69"
abbreviation (input) FLX4_BTN_PAD_FX1 :: u8 where "FLX4_BTN_PAD_FX1 \<equiv> 0x1e"
abbreviation (input) FLX4_BTN_PAD_FX2 :: u8 where "FLX4_BTN_PAD_FX2 \<equiv> 0x6b"
abbreviation (input) FLX4_BTN_PAD_BEAT_LOOP :: u8 where "FLX4_BTN_PAD_BEAT_LOOP \<equiv> 0x6d"
abbreviation (input) FLX4_BTN_PAD_BEAT_JUMP :: u8 where "FLX4_BTN_PAD_BEAT_JUMP \<equiv> 0x20"
abbreviation (input) FLX4_BTN_PAD_SAMPLER :: u8 where "FLX4_BTN_PAD_SAMPLER \<equiv> 0x22"
abbreviation (input) FLX4_BTN_PAD_KEY_SHIFT :: u8 where "FLX4_BTN_PAD_KEY_SHIFT \<equiv> 0x6f"
abbreviation (input) FLX4_BTN_LOAD_D1 :: u8 where "FLX4_BTN_LOAD_D1 \<equiv> 0x46"
abbreviation (input) FLX4_BTN_LOAD_D2 :: u8 where "FLX4_BTN_LOAD_D2 \<equiv> 0x47"
abbreviation (input) FLX4_BTN_LOAD_D1_SHIFT :: u8 where "FLX4_BTN_LOAD_D1_SHIFT \<equiv> 0x68"
abbreviation (input) FLX4_BTN_LOAD_D2_SHIFT :: u8 where "FLX4_BTN_LOAD_D2_SHIFT \<equiv> 0x7a"
abbreviation (input) FLX4_BTN_PFL :: u8 where "FLX4_BTN_PFL \<equiv> 0x54"
abbreviation (input) FLX4_BTN_BROWSE_PRESS :: u8 where "FLX4_BTN_BROWSE_PRESS \<equiv> 0x41"
abbreviation (input) FLX4_BTN_BROWSE_SHIFT_PRESS :: u8 where "FLX4_BTN_BROWSE_SHIFT_PRESS \<equiv> 0x42"
abbreviation (input) FLX4_BTN_SMART_CFX :: u8 where "FLX4_BTN_SMART_CFX \<equiv> 0"
abbreviation (input) FLX4_BTN_SMART_FADER :: u8 where "FLX4_BTN_SMART_FADER \<equiv> 1"
abbreviation (input) FLX4_BTN_SMART_CFX_SHIFT :: u8 where "FLX4_BTN_SMART_CFX_SHIFT \<equiv> 0x8"
abbreviation (input) FLX4_BTN_SMART_FADER_SHIFT :: u8 where "FLX4_BTN_SMART_FADER_SHIFT \<equiv> 0x9"
abbreviation (input) FLX4_BTN_BEAT_FX_TARGET_CH1 :: u8 where "FLX4_BTN_BEAT_FX_TARGET_CH1 \<equiv> 0x10"
abbreviation (input) FLX4_BTN_BEAT_FX_TARGET_CH2 :: u8 where "FLX4_BTN_BEAT_FX_TARGET_CH2 \<equiv> 0x11"
abbreviation (input) FLX4_BTN_BEAT_FX_CLEAR :: u8 where "FLX4_BTN_BEAT_FX_CLEAR \<equiv> 0x43"
abbreviation (input) FLX4_BTN_BEAT_FX_ON :: u8 where "FLX4_BTN_BEAT_FX_ON \<equiv> 0x47"
abbreviation (input) FLX4_BTN_BEAT_FX_BEAT_DEC :: u8 where "FLX4_BTN_BEAT_FX_BEAT_DEC \<equiv> 0x4a"
abbreviation (input) FLX4_BTN_BEAT_FX_BEAT_INC :: u8 where "FLX4_BTN_BEAT_FX_BEAT_INC \<equiv> 0x4b"
abbreviation (input) FLX4_BTN_BEAT_FX_BEAT_DEC_SHIFT :: u8 where "FLX4_BTN_BEAT_FX_BEAT_DEC_SHIFT \<equiv> 0x66"
abbreviation (input) FLX4_BTN_BEAT_FX_BEAT_INC_SHIFT :: u8 where "FLX4_BTN_BEAT_FX_BEAT_INC_SHIFT \<equiv> 0x6b"
abbreviation (input) FLX4_BTN_BEAT_FX_SELECT_NEXT :: u8 where "FLX4_BTN_BEAT_FX_SELECT_NEXT \<equiv> 0x63"
abbreviation (input) FLX4_BTN_BEAT_FX_SELECT_PREV :: u8 where "FLX4_BTN_BEAT_FX_SELECT_PREV \<equiv> 0x64"
abbreviation (input) FLX4_BTN_MASTER_CUE :: u8 where "FLX4_BTN_MASTER_CUE \<equiv> 0x63"
abbreviation (input) FLX4_BTN_MASTER_CUE_SHIFT :: u8 where "FLX4_BTN_MASTER_CUE_SHIFT \<equiv> 0x78"
abbreviation (input) FLX4_BTN_JOG_SEARCH_TOUCH :: u8 where "FLX4_BTN_JOG_SEARCH_TOUCH \<equiv> 0x67"
abbreviation (input) FLX4_CC_JOG_SIDE_BEND :: u8 where "FLX4_CC_JOG_SIDE_BEND \<equiv> 0x21"
abbreviation (input) FLX4_CC_JOG_SCRATCH :: u8 where "FLX4_CC_JOG_SCRATCH \<equiv> 0x22"
abbreviation (input) FLX4_CC_JOG_BEND :: u8 where "FLX4_CC_JOG_BEND \<equiv> 0x23"
abbreviation (input) FLX4_CC_JOG_SEARCH :: u8 where "FLX4_CC_JOG_SEARCH \<equiv> 0x29"
abbreviation (input) FLX4_CC_TEMPO_MSB :: u8 where "FLX4_CC_TEMPO_MSB \<equiv> 0"
abbreviation (input) FLX4_CC_TEMPO_LSB :: u8 where "FLX4_CC_TEMPO_LSB \<equiv> 0x20"
abbreviation (input) FLX4_CC_CH_VOL_MSB :: u8 where "FLX4_CC_CH_VOL_MSB \<equiv> 0x13"
abbreviation (input) FLX4_CC_CH_VOL_LSB :: u8 where "FLX4_CC_CH_VOL_LSB \<equiv> 0x33"
abbreviation (input) FLX4_CC_TRIM_MSB :: u8 where "FLX4_CC_TRIM_MSB \<equiv> 0x4"
abbreviation (input) FLX4_CC_TRIM_LSB :: u8 where "FLX4_CC_TRIM_LSB \<equiv> 0x24"
abbreviation (input) FLX4_CC_EQ_HIGH_MSB :: u8 where "FLX4_CC_EQ_HIGH_MSB \<equiv> 0x7"
abbreviation (input) FLX4_CC_EQ_HIGH_LSB :: u8 where "FLX4_CC_EQ_HIGH_LSB \<equiv> 0x27"
abbreviation (input) FLX4_CC_EQ_MID_MSB :: u8 where "FLX4_CC_EQ_MID_MSB \<equiv> 0xb"
abbreviation (input) FLX4_CC_EQ_MID_LSB :: u8 where "FLX4_CC_EQ_MID_LSB \<equiv> 0x2b"
abbreviation (input) FLX4_CC_EQ_LOW_MSB :: u8 where "FLX4_CC_EQ_LOW_MSB \<equiv> 0xf"
abbreviation (input) FLX4_CC_EQ_LOW_LSB :: u8 where "FLX4_CC_EQ_LOW_LSB \<equiv> 0x2f"
abbreviation (input) FLX4_CC_HEADPHONE_MIX_MSB :: u8 where "FLX4_CC_HEADPHONE_MIX_MSB \<equiv> 0xc"
abbreviation (input) FLX4_CC_HEADPHONE_MIX_LSB :: u8 where "FLX4_CC_HEADPHONE_MIX_LSB \<equiv> 0x2c"
abbreviation (input) FLX4_CC_HEADPHONE_LEVEL_MSB :: u8 where "FLX4_CC_HEADPHONE_LEVEL_MSB \<equiv> 0xd"
abbreviation (input) FLX4_CC_HEADPHONE_LEVEL_LSB :: u8 where "FLX4_CC_HEADPHONE_LEVEL_LSB \<equiv> 0x2d"
abbreviation (input) FLX4_CC_MASTER_LEVEL_MSB :: u8 where "FLX4_CC_MASTER_LEVEL_MSB \<equiv> 0x8"
abbreviation (input) FLX4_CC_MASTER_LEVEL_LSB :: u8 where "FLX4_CC_MASTER_LEVEL_LSB \<equiv> 0x28"
abbreviation (input) FLX4_CC_FILTER_CH1_MSB :: u8 where "FLX4_CC_FILTER_CH1_MSB \<equiv> 0x17"
abbreviation (input) FLX4_CC_FILTER_CH1_LSB :: u8 where "FLX4_CC_FILTER_CH1_LSB \<equiv> 0x37"
abbreviation (input) FLX4_CC_FILTER_CH2_MSB :: u8 where "FLX4_CC_FILTER_CH2_MSB \<equiv> 0x18"
abbreviation (input) FLX4_CC_FILTER_CH2_LSB :: u8 where "FLX4_CC_FILTER_CH2_LSB \<equiv> 0x38"
abbreviation (input) FLX4_CC_CROSSFADER_MSB :: u8 where "FLX4_CC_CROSSFADER_MSB \<equiv> 0x1f"
abbreviation (input) FLX4_CC_CROSSFADER_LSB :: u8 where "FLX4_CC_CROSSFADER_LSB \<equiv> 0x3f"
abbreviation (input) FLX4_CC_BROWSE :: u8 where "FLX4_CC_BROWSE \<equiv> 0x40"
abbreviation (input) FLX4_CC_BROWSE_SHIFT :: u8 where "FLX4_CC_BROWSE_SHIFT \<equiv> 0x64"
abbreviation (input) FLX4_CC_BEAT_FX_DEPTH :: u8 where "FLX4_CC_BEAT_FX_DEPTH \<equiv> 0x2"

abbreviation (input) CTRL_BEAT_FX_TARGET_CH1 :: u8 where "CTRL_BEAT_FX_TARGET_CH1 \<equiv> 0"
abbreviation (input) CTRL_BEAT_FX_TARGET_CH2 :: u8 where "CTRL_BEAT_FX_TARGET_CH2 \<equiv> 1"
abbreviation (input) CTRL_BEAT_FX_TARGET_BOTH :: u8 where "CTRL_BEAT_FX_TARGET_BOTH \<equiv> 2"

section \<open>State\<close>

record flx4_control_event =
  fe_type :: u8
  fe_id :: u8
  fe_value :: i16

record flx4_14bit_state =
  msb :: u8
  lsb :: u8
  msb_valid :: bool
  lsb_valid :: bool

record flx4_map_state =
  fm_tempo :: "flx4_14bit_state list"
  fm_channel_volume :: "flx4_14bit_state list"
  fm_trim :: "flx4_14bit_state list"
  fm_eq_high :: "flx4_14bit_state list"
  fm_eq_mid :: "flx4_14bit_state list"
  fm_eq_low :: "flx4_14bit_state list"
  fm_filter :: "flx4_14bit_state list"
  fm_headphone_mix :: flx4_14bit_state
  fm_headphone_level :: flx4_14bit_state
  fm_master_volume :: flx4_14bit_state
  fm_crossfader :: flx4_14bit_state
  fm_beat_fx_depth :: u8
  fm_beat_fx_depth_valid :: bool
  fm_beat_fx_target_ch1 :: bool
  fm_beat_fx_target_ch2 :: bool

record flx4_midi_message =
  mm_len :: u8
  mm_status :: u8
  mm_data1 :: u8
  mm_data2 :: u8

definition zero_14bit :: flx4_14bit_state where
  "zero_14bit = \<lparr>msb = 0, lsb = 0, msb_valid = False, lsb_valid = False\<rparr>"

definition flx4_map_init :: flx4_map_state where
  "flx4_map_init = \<lparr>fm_tempo = [zero_14bit, zero_14bit], fm_channel_volume = [zero_14bit, zero_14bit],
     fm_trim = [zero_14bit, zero_14bit], fm_eq_high = [zero_14bit, zero_14bit], fm_eq_mid = [zero_14bit, zero_14bit],
     fm_eq_low = [zero_14bit, zero_14bit], fm_filter = [zero_14bit, zero_14bit], fm_headphone_mix = zero_14bit,
     fm_headphone_level = zero_14bit, fm_master_volume = zero_14bit, fm_crossfader = zero_14bit,
     fm_beat_fx_depth = 0, fm_beat_fx_depth_valid = False, fm_beat_fx_target_ch1 = False, fm_beat_fx_target_ch2 = False\<rparr>"

section \<open>Events\<close>

definition emit_button :: "u8 \<Rightarrow> u8 \<Rightarrow> flx4_control_event" where
  "emit_button cid v = \<lparr>fe_type = CTRL_TYPE_BUTTON, fe_id = cid, fe_value = (if v \<noteq> 0 then 1 else 0)\<rparr>"

definition emit_button_value :: "u8 \<Rightarrow> i16 \<Rightarrow> flx4_control_event" where
  "emit_button_value cid v = \<lparr>fe_type = CTRL_TYPE_BUTTON, fe_id = cid, fe_value = v\<rparr>"

definition emit_deck_ext_action :: "bool \<Rightarrow> u8 \<Rightarrow> u8 \<Rightarrow> flx4_control_event" where
  "emit_deck_ext_action deck1 action pressed =
     emit_button_value (if deck1 then CTRL_ID_DECK1_EXT_ACTION else CTRL_ID_DECK2_EXT_ACTION)
       (CTRL_DECK_EXT_VALUE action (pressed \<noteq> 0))"

definition emit_encoder :: "u8 \<Rightarrow> i16 \<Rightarrow> flx4_control_event option" where
  "emit_encoder cid v = (if v = 0 then None else Some \<lparr>fe_type = CTRL_TYPE_ENCODER, fe_id = cid, fe_value = v\<rparr>)"

definition update_14bit :: "flx4_14bit_state \<Rightarrow> bool \<Rightarrow> u8 \<Rightarrow> u8 \<Rightarrow> flx4_14bit_state \<times> flx4_control_event option" where
  "update_14bit slot is_msb d cid =
     (let d = d AND 0x7F;
          slot = (if is_msb then slot\<lparr>msb := d, msb_valid := True\<rparr> else slot\<lparr>lsb := d, lsb_valid := True\<rparr>)
      in (slot, if \<not> msb_valid slot \<or> \<not> lsb_valid slot then None
                else Some \<lparr>fe_type = CTRL_TYPE_PITCH, fe_id = cid,
                           fe_value = push_bit 7 (ucast (msb slot)) OR ucast (lsb slot)\<rparr>))"

definition get_14bit_value :: "flx4_14bit_state \<Rightarrow> i16 option" where
  "get_14bit_value slot =
     (if \<not> msb_valid slot \<or> \<not> lsb_valid slot then None
      else Some (push_bit 7 (ucast (msb slot AND 0x7F)) OR ucast (lsb slot AND 0x7F)))"

definition relative_delta :: "u8 \<Rightarrow> i16" where
  "relative_delta v = ucast v - 64"

definition relative_twos_complement_delta :: "u8 \<Rightarrow> i16" where
  "relative_twos_complement_delta v =
     (let v = v AND 0x7F in
      if v = 0 \<or> v = 0x40 then 0 else if v < 0x40 then ucast v else ucast v - 0x80)"

section \<open>Message maps\<close>

definition map_deck_button :: "u8 \<Rightarrow> u8 \<Rightarrow> u8 \<Rightarrow> flx4_control_event option" where
  "map_deck_button status data1 data2 =
     (let deck1 = (status = FLX4_STATUS_D1_BTN);
          pressed = (if data2 > 0 then 1 else 0);
          button = (\<lambda>id1 id2. Some (emit_button (if deck1 then id1 else id2) pressed));
          ext = (\<lambda>action. Some (emit_deck_ext_action deck1 action pressed)) in
      if data1 = FLX4_BTN_PLAY then button CTRL_ID_DECK1_PLAY CTRL_ID_DECK2_PLAY
      else if data1 = FLX4_BTN_CENSOR then ext CTRL_DECK_EXT_ACTION_CENSOR
      else if data1 = FLX4_BTN_CUE then button CTRL_ID_DECK1_CUE CTRL_ID_DECK2_CUE
      else if data1 = FLX4_BTN_SHIFT then button CTRL_ID_DECK1_SHIFT CTRL_ID_DECK2_SHIFT
      else if data1 = FLX4_BTN_CUE_SHIFT then button CTRL_ID_DECK1_TO_START CTRL_ID_DECK2_TO_START
      else if data1 = FLX4_BTN_SYNC then button CTRL_ID_DECK1_SYNC CTRL_ID_DECK2_SYNC
      else if data1 = FLX4_BTN_SYNC_MASTER then ext CTRL_DECK_EXT_ACTION_SYNC_MASTER
      else if data1 = FLX4_BTN_TEMPO_RANGE then button CTRL_ID_DECK1_TEMPO_RANGE CTRL_ID_DECK2_TEMPO_RANGE
      else if data1 = FLX4_BTN_LOOP_IN then button CTRL_ID_DECK1_LOOP_IN CTRL_ID_DECK2_LOOP_IN
      else if data1 = FLX4_BTN_LOOP_OUT then button CTRL_ID_DECK1_LOOP_OUT CTRL_ID_DECK2_LOOP_OUT
      else if data1 = FLX4_BTN_RELOOP_EXIT then button CTRL_ID_DECK1_RELOOP_EXIT CTRL_ID_DECK2_RELOOP_EXIT
      else if data1 = FLX4_BTN_RELOOP_STOP then ext CTRL_DECK_EXT_ACTION_RELOOP_STOP
      else if data1 = FLX4_BTN_LOOP_ADJUST_IN then ext CTRL_DECK_EXT_ACTION_LOOP_ADJUST_IN
      else if data1 = FLX4_BTN_LOOP_ADJUST_OUT then ext CTRL_DECK_EXT_ACTION_LOOP_ADJUST_OUT
      else if data1 = FLX4_BTN_LOOP_HALVE then button CTRL_ID_DECK1_LOOP_HALVE CTRL_ID_DECK2_LOOP_HALVE
      else if data1 = FLX4_BTN_LOOP_DOUBLE then button CTRL_ID_DECK1_LOOP_DOUBLE CTRL_ID_DECK2_LOOP_DOUBLE
      else if data1 = FLX4_BTN_BEAT_JUMP_BACK then button CTRL_ID_DECK1_BEAT_JUMP_BACK CTRL_ID_DECK2_BEAT_JUMP_BACK
      else if data1 = FLX4_BTN_BEAT_JUMP_FORWARD then button CTRL_ID_DECK1_BEAT_JUMP_FORWARD CTRL_ID_DECK2_BEAT_JUMP_FORWARD
      else if data1 = FLX4_BTN_QUANTIZE then ext CTRL_DECK_EXT_ACTION_QUANTIZE
      else if data1 = FLX4_BTN_PAD_HOT_CUE then button CTRL_ID_DECK1_PAD_MODE_HOT_CUE CTRL_ID_DECK2_PAD_MODE_HOT_CUE
      else if data1 = FLX4_BTN_PAD_KEYBOARD then None
      else if data1 = FLX4_BTN_PAD_FX1 then button CTRL_ID_DECK1_PAD_MODE_PAD_FX1 CTRL_ID_DECK2_PAD_MODE_PAD_FX1
      else if data1 = FLX4_BTN_PAD_FX2 then button CTRL_ID_DECK1_PAD_MODE_PAD_FX2 CTRL_ID_DECK2_PAD_MODE_PAD_FX2
      else if data1 = FLX4_BTN_PAD_BEAT_LOOP then button CTRL_ID_DECK1_PAD_MODE_BEAT_LOOP CTRL_ID_DECK2_PAD_MODE_BEAT_LOOP
      else if data1 = FLX4_BTN_PAD_BEAT_JUMP then button CTRL_ID_DECK1_PAD_MODE_BEAT_JUMP CTRL_ID_DECK2_PAD_MODE_BEAT_JUMP
      else if data1 = FLX4_BTN_PAD_SAMPLER then None
      else if data1 = FLX4_BTN_PAD_KEY_SHIFT then None
      else if data1 = FLX4_BTN_JOG_TOUCH then button CTRL_ID_DECK1_JOG_TOUCH CTRL_ID_DECK2_JOG_TOUCH
      else if data1 = FLX4_BTN_JOG_SEARCH_TOUCH then button CTRL_ID_DECK1_JOG_SEARCH_TOUCH CTRL_ID_DECK2_JOG_SEARCH_TOUCH
      else if data1 = FLX4_BTN_PFL then button CTRL_ID_DECK1_PFL CTRL_ID_DECK2_PFL
      else None)"

definition map_deck_cc :: "flx4_map_state \<Rightarrow> u8 \<Rightarrow> u8 \<Rightarrow> u8 \<Rightarrow> flx4_map_state \<times> flx4_control_event option" where
  "map_deck_cc state status data1 data2 =
     (let deck = (if status = FLX4_STATUS_D1_CC then 0 else 1);
          pick = (\<lambda>id1 id2. if deck = 0 then id1 else id2) in
      if data1 = FLX4_CC_JOG_SCRATCH then
        (state, emit_encoder (pick CTRL_ID_DECK1_JOG_SCRATCH CTRL_ID_DECK2_JOG_SCRATCH) (relative_delta data2))
      else if data1 = FLX4_CC_JOG_BEND \<or> data1 = FLX4_CC_JOG_SIDE_BEND then
        (state, emit_encoder (pick CTRL_ID_DECK1_JOG_BEND CTRL_ID_DECK2_JOG_BEND) (relative_delta data2))
      else if data1 = FLX4_CC_JOG_SEARCH then
        (state, emit_encoder (pick CTRL_ID_DECK1_JOG_SEARCH CTRL_ID_DECK2_JOG_SEARCH) (relative_delta data2))
      else if data1 = FLX4_CC_TEMPO_MSB then
        (let (slot, ev) = update_14bit (fm_tempo state ! deck) True data2 (pick CTRL_ID_DECK1_TEMPO CTRL_ID_DECK2_TEMPO)
         in (state\<lparr>fm_tempo := (fm_tempo state)[deck := slot]\<rparr>, ev))
      else if data1 = FLX4_CC_TEMPO_LSB then
        (let (slot, ev) = update_14bit (fm_tempo state ! deck) False data2 (pick CTRL_ID_DECK1_TEMPO CTRL_ID_DECK2_TEMPO)
         in (state\<lparr>fm_tempo := (fm_tempo state)[deck := slot]\<rparr>, ev))
      else if data1 = FLX4_CC_CH_VOL_MSB then
        (let (slot, ev) = update_14bit (fm_channel_volume state ! deck) True data2 (pick CTRL_ID_CH1_VOLUME CTRL_ID_CH2_VOLUME)
         in (state\<lparr>fm_channel_volume := (fm_channel_volume state)[deck := slot]\<rparr>, ev))
      else if data1 = FLX4_CC_CH_VOL_LSB then
        (let (slot, ev) = update_14bit (fm_channel_volume state ! deck) False data2 (pick CTRL_ID_CH1_VOLUME CTRL_ID_CH2_VOLUME)
         in (state\<lparr>fm_channel_volume := (fm_channel_volume state)[deck := slot]\<rparr>, ev))
      else if data1 = FLX4_CC_TRIM_MSB then
        (let (slot, ev) = update_14bit (fm_trim state ! deck) True data2 (pick CTRL_ID_CH1_TRIM CTRL_ID_CH2_TRIM)
         in (state\<lparr>fm_trim := (fm_trim state)[deck := slot]\<rparr>, ev))
      else if data1 = FLX4_CC_TRIM_LSB then
        (let (slot, ev) = update_14bit (fm_trim state ! deck) False data2 (pick CTRL_ID_CH1_TRIM CTRL_ID_CH2_TRIM)
         in (state\<lparr>fm_trim := (fm_trim state)[deck := slot]\<rparr>, ev))
      else if data1 = FLX4_CC_EQ_HIGH_MSB then
        (let (slot, ev) = update_14bit (fm_eq_high state ! deck) True data2 (pick CTRL_ID_CH1_EQ_HIGH CTRL_ID_CH2_EQ_HIGH)
         in (state\<lparr>fm_eq_high := (fm_eq_high state)[deck := slot]\<rparr>, ev))
      else if data1 = FLX4_CC_EQ_HIGH_LSB then
        (let (slot, ev) = update_14bit (fm_eq_high state ! deck) False data2 (pick CTRL_ID_CH1_EQ_HIGH CTRL_ID_CH2_EQ_HIGH)
         in (state\<lparr>fm_eq_high := (fm_eq_high state)[deck := slot]\<rparr>, ev))
      else if data1 = FLX4_CC_EQ_MID_MSB then
        (let (slot, ev) = update_14bit (fm_eq_mid state ! deck) True data2 (pick CTRL_ID_CH1_EQ_MID CTRL_ID_CH2_EQ_MID)
         in (state\<lparr>fm_eq_mid := (fm_eq_mid state)[deck := slot]\<rparr>, ev))
      else if data1 = FLX4_CC_EQ_MID_LSB then
        (let (slot, ev) = update_14bit (fm_eq_mid state ! deck) False data2 (pick CTRL_ID_CH1_EQ_MID CTRL_ID_CH2_EQ_MID)
         in (state\<lparr>fm_eq_mid := (fm_eq_mid state)[deck := slot]\<rparr>, ev))
      else if data1 = FLX4_CC_EQ_LOW_MSB then
        (let (slot, ev) = update_14bit (fm_eq_low state ! deck) True data2 (pick CTRL_ID_CH1_EQ_LOW CTRL_ID_CH2_EQ_LOW)
         in (state\<lparr>fm_eq_low := (fm_eq_low state)[deck := slot]\<rparr>, ev))
      else if data1 = FLX4_CC_EQ_LOW_LSB then
        (let (slot, ev) = update_14bit (fm_eq_low state ! deck) False data2 (pick CTRL_ID_CH1_EQ_LOW CTRL_ID_CH2_EQ_LOW)
         in (state\<lparr>fm_eq_low := (fm_eq_low state)[deck := slot]\<rparr>, ev))
      else (state, None))"

definition emit_beat_fx_target_from_state :: "flx4_map_state \<Rightarrow> flx4_control_event option" where
  "emit_beat_fx_target_from_state state =
     (if fm_beat_fx_target_ch1 state \<and> fm_beat_fx_target_ch2 state
      then Some (emit_button_value CTRL_ID_BEAT_FX_TARGET (ucast CTRL_BEAT_FX_TARGET_BOTH))
      else if fm_beat_fx_target_ch1 state
      then Some (emit_button_value CTRL_ID_BEAT_FX_TARGET (ucast CTRL_BEAT_FX_TARGET_CH1))
      else if fm_beat_fx_target_ch2 state
      then Some (emit_button_value CTRL_ID_BEAT_FX_TARGET (ucast CTRL_BEAT_FX_TARGET_CH2))
      else None)"

definition map_beat_fx_button :: "flx4_map_state \<Rightarrow> u8 \<Rightarrow> u8 \<Rightarrow> u8 \<Rightarrow> flx4_map_state \<times> flx4_control_event option" where
  "map_beat_fx_button state status data1 data2 =
     (let pressed = (if data2 > 0 then 1 else 0) in
      if data1 = FLX4_BTN_BEAT_FX_SELECT_NEXT then (state, Some (emit_button CTRL_ID_BEAT_FX_SELECT_NEXT pressed))
      else if data1 = FLX4_BTN_BEAT_FX_SELECT_PREV then (state, Some (emit_button CTRL_ID_BEAT_FX_SELECT_PREV pressed))
      else if data1 = FLX4_BTN_BEAT_FX_BEAT_DEC then (state, Some (emit_button CTRL_ID_BEAT_FX_BEAT_DEC pressed))
      else if data1 = FLX4_BTN_BEAT_FX_BEAT_INC then (state, Some (emit_button CTRL_ID_BEAT_FX_BEAT_INC pressed))
      else if data1 = FLX4_BTN_BEAT_FX_BEAT_DEC_SHIFT then (state, Some (emit_button CTRL_ID_BEAT_FX_BEAT_DEC_SHIFT pressed))
      else if data1 = FLX4_BTN_BEAT_FX_BEAT_INC_SHIFT then (state, Some (emit_button CTRL_ID_BEAT_FX_BEAT_INC_SHIFT pressed))
      else if data1 = FLX4_BTN_BEAT_FX_ON then (state, Some (emit_button CTRL_ID_BEAT_FX_ON pressed))
      else if data1 = FLX4_BTN_BEAT_FX_CLEAR then (state, Some (emit_button CTRL_ID_BEAT_FX_CLEAR pressed))
      else if data1 = FLX4_BTN_BEAT_FX_TARGET_CH1 then
        (if status \<noteq> FLX4_STATUS_BEAT_FX_CH1 then (state, None)
         else let state = state\<lparr>fm_beat_fx_target_ch1 := (pressed \<noteq> (0 :: u8))\<rparr> in (state, emit_beat_fx_target_from_state state))
      else if data1 = FLX4_BTN_BEAT_FX_TARGET_CH2 then
        (if status \<noteq> FLX4_STATUS_BEAT_FX_CH2 then (state, None)
         else let state = state\<lparr>fm_beat_fx_target_ch2 := (pressed \<noteq> 0)\<rparr> in (state, emit_beat_fx_target_from_state state))
      else (state, None))"

definition map_beat_fx_cc :: "flx4_map_state \<Rightarrow> u8 \<Rightarrow> u8 \<Rightarrow> flx4_map_state \<times> flx4_control_event option" where
  "map_beat_fx_cc state data1 data2 =
     (if data1 \<noteq> FLX4_CC_BEAT_FX_DEPTH then (state, None)
      else let state = state\<lparr>fm_beat_fx_depth := data2 AND 0x7F, fm_beat_fx_depth_valid := True\<rparr>
           in (state, Some \<lparr>fe_type = CTRL_TYPE_PITCH, fe_id = CTRL_ID_BEAT_FX_DEPTH, fe_value = ucast (fm_beat_fx_depth state)\<rparr>))"

definition map_master_cc :: "flx4_map_state \<Rightarrow> u8 \<Rightarrow> u8 \<Rightarrow> flx4_map_state \<times> flx4_control_event option" where
  "map_master_cc state data1 data2 =
     (if data1 = FLX4_CC_BROWSE then (state, emit_encoder CTRL_ID_BROWSE_DELTA (relative_twos_complement_delta data2))
      else if data1 = FLX4_CC_BROWSE_SHIFT then
        (state, emit_encoder CTRL_ID_BROWSE_SHIFT_DELTA (relative_twos_complement_delta data2))
      else if data1 = FLX4_CC_CROSSFADER_MSB then
        (let (slot, ev) = update_14bit (fm_crossfader state) True data2 CTRL_ID_CROSSFADER in (state\<lparr>fm_crossfader := slot\<rparr>, ev))
      else if data1 = FLX4_CC_CROSSFADER_LSB then
        (let (slot, ev) = update_14bit (fm_crossfader state) False data2 CTRL_ID_CROSSFADER in (state\<lparr>fm_crossfader := slot\<rparr>, ev))
      else if data1 = FLX4_CC_HEADPHONE_MIX_MSB then
        (let (slot, ev) = update_14bit (fm_headphone_mix state) True data2 CTRL_ID_HEADPHONE_MIX in (state\<lparr>fm_headphone_mix := slot\<rparr>, ev))
      else if data1 = FLX4_CC_HEADPHONE_MIX_LSB then
        (let (slot, ev) = update_14bit (fm_headphone_mix state) False data2 CTRL_ID_HEADPHONE_MIX in (state\<lparr>fm_headphone_mix := slot\<rparr>, ev))
      else if data1 = FLX4_CC_HEADPHONE_LEVEL_MSB then
        (let (slot, ev) = update_14bit (fm_headphone_level state) True data2 CTRL_ID_HEADPHONE_LEVEL in (state\<lparr>fm_headphone_level := slot\<rparr>, ev))
      else if data1 = FLX4_CC_HEADPHONE_LEVEL_LSB then
        (let (slot, ev) = update_14bit (fm_headphone_level state) False data2 CTRL_ID_HEADPHONE_LEVEL in (state\<lparr>fm_headphone_level := slot\<rparr>, ev))
      else if data1 = FLX4_CC_MASTER_LEVEL_MSB then
        (let (slot, ev) = update_14bit (fm_master_volume state) True data2 CTRL_ID_MASTER_VOLUME in (state\<lparr>fm_master_volume := slot\<rparr>, ev))
      else if data1 = FLX4_CC_MASTER_LEVEL_LSB then
        (let (slot, ev) = update_14bit (fm_master_volume state) False data2 CTRL_ID_MASTER_VOLUME in (state\<lparr>fm_master_volume := slot\<rparr>, ev))
      else if data1 = FLX4_CC_FILTER_CH1_MSB then
        (let (slot, ev) = update_14bit (fm_filter state ! 0) True data2 CTRL_ID_CH1_FILTER
         in (state\<lparr>fm_filter := (fm_filter state)[0 := slot]\<rparr>, ev))
      else if data1 = FLX4_CC_FILTER_CH1_LSB then
        (let (slot, ev) = update_14bit (fm_filter state ! 0) False data2 CTRL_ID_CH1_FILTER
         in (state\<lparr>fm_filter := (fm_filter state)[0 := slot]\<rparr>, ev))
      else if data1 = FLX4_CC_FILTER_CH2_MSB then
        (let (slot, ev) = update_14bit (fm_filter state ! 1) True data2 CTRL_ID_CH2_FILTER
         in (state\<lparr>fm_filter := (fm_filter state)[1 := slot]\<rparr>, ev))
      else if data1 = FLX4_CC_FILTER_CH2_LSB then
        (let (slot, ev) = update_14bit (fm_filter state ! 1) False data2 CTRL_ID_CH2_FILTER
         in (state\<lparr>fm_filter := (fm_filter state)[1 := slot]\<rparr>, ev))
      else (state, None))"

definition map_pad_message :: "u8 \<Rightarrow> u8 \<Rightarrow> u8 \<Rightarrow> flx4_control_event option" where
  "map_pad_message status data1 data2 =
     (let deck1 = (status = FLX4_STATUS_PAD_D1 \<or> status = FLX4_STATUS_PAD_D1_SHIFT);
          shifted = (status = FLX4_STATUS_PAD_D1_SHIFT \<or> status = FLX4_STATUS_PAD_D2_SHIFT);
          emit = (\<lambda>mode pad. Some (emit_button_value (if deck1 then CTRL_ID_DECK1_PAD_ACTION else CTRL_ID_DECK2_PAD_ACTION)
                                     (CTRL_PAD_ACTION_VALUE mode pad shifted (data2 > 0)))) in
      if data1 \<le> 0x07 then emit CTRL_PAD_MODE_HOT_CUE data1
      else if 0x10 \<le> data1 \<and> data1 \<le> 0x17 then emit CTRL_PAD_MODE_PAD_FX1 (data1 - 0x10)
      else if 0x20 \<le> data1 \<and> data1 \<le> 0x27 then emit CTRL_PAD_MODE_BEAT_JUMP (data1 - 0x20)
      else if 0x30 \<le> data1 \<and> data1 \<le> 0x47 then None
      else if 0x50 \<le> data1 \<and> data1 \<le> 0x57 then emit CTRL_PAD_MODE_PAD_FX2 (data1 - 0x50)
      else if 0x60 \<le> data1 \<and> data1 \<le> 0x67 then emit CTRL_PAD_MODE_BEAT_LOOP (data1 - 0x60)
      else None)"

definition map_global_button :: "u8 \<Rightarrow> u8 \<Rightarrow> flx4_control_event option" where
  "map_global_button data1 data2 =
     (
      if data1 = FLX4_BTN_SMART_CFX then Some (emit_button CTRL_ID_SMART_CFX (if data2 > 0 then 1 else 0))
      else if data1 = FLX4_BTN_SMART_FADER then Some (emit_button CTRL_ID_SMART_FADER (if data2 > 0 then 1 else 0))
      else if data1 = FLX4_BTN_SMART_CFX_SHIFT then Some (emit_button CTRL_ID_SMART_CFX_SHIFT (if data2 > 0 then 1 else 0))
      else if data1 = FLX4_BTN_SMART_FADER_SHIFT then Some (emit_button CTRL_ID_SMART_FADER_SHIFT (if data2 > 0 then 1 else 0))
      else if data1 = FLX4_BTN_BROWSE_PRESS then Some (emit_button CTRL_ID_BROWSE_PRESS (if data2 > 0 then 1 else 0))
      else if data1 = FLX4_BTN_BROWSE_SHIFT_PRESS then Some (emit_button CTRL_ID_BROWSE_SHIFT_PRESS (if data2 > 0 then 1 else 0))
      else if data1 = FLX4_BTN_LOAD_D1 then Some (emit_button CTRL_ID_LOAD_DECK1 (if data2 > 0 then 1 else 0))
      else if data1 = FLX4_BTN_LOAD_D2 then Some (emit_button CTRL_ID_LOAD_DECK2 (if data2 > 0 then 1 else 0))
      else if data1 = FLX4_BTN_LOAD_D1_SHIFT then Some (emit_button CTRL_ID_SHIFT_LOAD_DECK1 (if data2 > 0 then 1 else 0))
      else if data1 = FLX4_BTN_LOAD_D2_SHIFT then Some (emit_button CTRL_ID_SHIFT_LOAD_DECK2 (if data2 > 0 then 1 else 0))
      else if data1 = FLX4_BTN_MASTER_CUE \<or> data1 = FLX4_BTN_MASTER_CUE_SHIFT
      then Some (emit_button CTRL_ID_MASTER_CUE (if data2 > 0 then 1 else 0))
      else None)"

definition flx4_map_message :: "flx4_map_state \<Rightarrow> flx4_midi_message \<Rightarrow> flx4_map_state \<times> flx4_control_event option" where
  "flx4_map_message state msg =
     (let status = mm_status msg; data1 = mm_data1 msg; data2 = mm_data2 msg in
      if mm_len msg < 3 then (state, None)
      else if status = FLX4_STATUS_BEAT_FX_CH1 \<or> status = FLX4_STATUS_BEAT_FX_CH2
      then map_beat_fx_button state status data1 data2
      else if status = FLX4_STATUS_D1_BTN \<or> status = FLX4_STATUS_D2_BTN then (state, map_deck_button status data1 data2)
      else if status = FLX4_STATUS_GLOBAL_BTN then (state, map_global_button data1 data2)
      else if status = FLX4_STATUS_PAD_D1 \<or> status = FLX4_STATUS_PAD_D1_SHIFT \<or> status = FLX4_STATUS_PAD_D2 \<or>
              status = FLX4_STATUS_PAD_D2_SHIFT
      then (state, map_pad_message status data1 data2)
      else if status = FLX4_STATUS_D1_CC \<or> status = FLX4_STATUS_D2_CC then map_deck_cc state status data1 data2
      else if status = FLX4_STATUS_BEAT_FX_CC then map_beat_fx_cc state data1 data2
      else if status = FLX4_STATUS_MASTER_CC then map_master_cc state data1 data2
      else (state, None))"

section \<open>Snapshot\<close>

text \<open>
  The snapshot calls a callback for every known fader until it returns \<open>false\<close>.  \<open>cb s ty cid v\<close> is the
  callback on the state \<open>s\<close> behind its context pointer.
\<close>

type_synonym 's snapshot_cb = "'s \<Rightarrow> u8 \<Rightarrow> u8 \<Rightarrow> i16 \<Rightarrow> 's \<times> bool"

definition emit_snapshot_14bit :: "flx4_14bit_state \<Rightarrow> u8 \<Rightarrow> 's snapshot_cb \<Rightarrow> 's \<Rightarrow> nat \<Rightarrow> 's \<times> nat \<times> bool" where
  "emit_snapshot_14bit slot cid cb s count =
     (case get_14bit_value slot of
        None \<Rightarrow> (s, count, True)
      | Some v \<Rightarrow> (case cb s CTRL_TYPE_PITCH cid v of (s1, ok) \<Rightarrow> if ok then (s1, count + 1, True) else (s1, count, False)))"

definition snapshot_slots :: "flx4_map_state \<Rightarrow> (flx4_14bit_state \<times> u8) list" where
  "snapshot_slots state =
     [(fm_channel_volume state ! 0, CTRL_ID_CH1_VOLUME), (fm_channel_volume state ! 1, CTRL_ID_CH2_VOLUME),
      (fm_crossfader state, CTRL_ID_CROSSFADER),
      (fm_trim state ! 0, CTRL_ID_CH1_TRIM), (fm_trim state ! 1, CTRL_ID_CH2_TRIM),
      (fm_eq_high state ! 0, CTRL_ID_CH1_EQ_HIGH), (fm_eq_high state ! 1, CTRL_ID_CH2_EQ_HIGH),
      (fm_eq_mid state ! 0, CTRL_ID_CH1_EQ_MID), (fm_eq_mid state ! 1, CTRL_ID_CH2_EQ_MID),
      (fm_eq_low state ! 0, CTRL_ID_CH1_EQ_LOW), (fm_eq_low state ! 1, CTRL_ID_CH2_EQ_LOW),
      (fm_filter state ! 0, CTRL_ID_CH1_FILTER), (fm_filter state ! 1, CTRL_ID_CH2_FILTER),
      (fm_master_volume state, CTRL_ID_MASTER_VOLUME), (fm_headphone_mix state, CTRL_ID_HEADPHONE_MIX),
      (fm_headphone_level state, CTRL_ID_HEADPHONE_LEVEL)]"

text \<open>The chain of emissions joined by \<open>||\<close>: it ends at the first callback that returns \<open>false\<close>.\<close>

fun emit_slots :: "'s snapshot_cb \<Rightarrow> (flx4_14bit_state \<times> u8) list \<Rightarrow> 's \<Rightarrow> nat \<Rightarrow> 's \<times> nat \<times> bool" where
  "emit_slots cb [] s count = (s, count, True)"
| "emit_slots cb ((slot, cid) # slots) s count =
     (case emit_snapshot_14bit slot cid cb s count of
        (s1, count1, ok) \<Rightarrow> if ok then emit_slots cb slots s1 count1 else (s1, count1, False))"

definition flx4_map_emit_snapshot :: "flx4_map_state \<Rightarrow> 's snapshot_cb \<Rightarrow> 's \<Rightarrow> 's \<times> nat" where
  "flx4_map_emit_snapshot state cb s =
     (case emit_slots cb (snapshot_slots state) s 0 of
        (s1, count, ok) \<Rightarrow>
          if \<not> ok then (s1, count)
          else if fm_beat_fx_depth_valid state
          then (case cb s1 CTRL_TYPE_PITCH CTRL_ID_BEAT_FX_DEPTH (ucast (fm_beat_fx_depth state AND 0x7F)) of
                  (s2, ok2) \<Rightarrow> if ok2 then (s2, count + 1) else (s2, count))
          else (s1, count))"

section \<open>Well-formed states\<close>

definition slot7 :: "flx4_14bit_state \<Rightarrow> bool" where
  "slot7 slot \<longleftrightarrow> msb slot AND 0x7F = msb slot \<and> lsb slot AND 0x7F = lsb slot"

definition pair_ok :: "flx4_14bit_state list \<Rightarrow> bool" where
  "pair_ok xs \<longleftrightarrow> length xs = 2 \<and> slot7 (xs ! 0) \<and> slot7 (xs ! 1)"

definition map_ok :: "flx4_map_state \<Rightarrow> bool" where
  "map_ok s \<longleftrightarrow> pair_ok (fm_tempo s) \<and> pair_ok (fm_channel_volume s) \<and> pair_ok (fm_trim s) \<and>
     pair_ok (fm_eq_high s) \<and> pair_ok (fm_eq_mid s) \<and> pair_ok (fm_eq_low s) \<and> pair_ok (fm_filter s) \<and>
     slot7 (fm_headphone_mix s) \<and> slot7 (fm_headphone_level s) \<and> slot7 (fm_master_volume s) \<and> slot7 (fm_crossfader s)"

lemma pair_ok_length: "pair_ok xs \<Longrightarrow> length xs = 2"
  by (simp add: pair_ok_def)

lemma pair_ok_nth: "pair_ok xs \<Longrightarrow> slot7 (xs ! 0)" "pair_ok xs \<Longrightarrow> slot7 (xs ! Suc 0)"
  by (simp_all add: pair_ok_def)

lemma pair_ok_update: "pair_ok xs \<Longrightarrow> slot7 y \<Longrightarrow> pair_ok (xs[i := y])"
  by (cases "i < 2") (auto simp: pair_ok_def nth_list_update)

lemma map_ok_init: "map_ok flx4_map_init"
  by (simp add: map_ok_def pair_ok_def slot7_def flx4_map_init_def zero_14bit_def)

lemma slot7_update: "slot7 slot \<Longrightarrow> slot7 (fst (update_14bit slot m d c))"
  by (simp add: slot7_def update_14bit_def Let_def and.assoc)

lemma pair_ok_update_14bit: "pair_ok xs \<Longrightarrow> i < 2 \<Longrightarrow> pair_ok (xs[i := fst (update_14bit (xs ! i) m d c)])"
  by (rule pair_ok_update) (auto simp: less_2_cases_iff intro: slot7_update pair_ok_nth)

lemma map_ok_update_14bit:
  "map_ok s \<Longrightarrow> i < 2 \<Longrightarrow> map_ok (s\<lparr>fm_tempo := (fm_tempo s)[i := fst (update_14bit (fm_tempo s ! i) m d c)]\<rparr>)"
  "map_ok s \<Longrightarrow> i < 2 \<Longrightarrow> map_ok (s\<lparr>fm_channel_volume := (fm_channel_volume s)[i := fst (update_14bit (fm_channel_volume s ! i) m d c)]\<rparr>)"
  "map_ok s \<Longrightarrow> i < 2 \<Longrightarrow> map_ok (s\<lparr>fm_trim := (fm_trim s)[i := fst (update_14bit (fm_trim s ! i) m d c)]\<rparr>)"
  "map_ok s \<Longrightarrow> i < 2 \<Longrightarrow> map_ok (s\<lparr>fm_eq_high := (fm_eq_high s)[i := fst (update_14bit (fm_eq_high s ! i) m d c)]\<rparr>)"
  "map_ok s \<Longrightarrow> i < 2 \<Longrightarrow> map_ok (s\<lparr>fm_eq_mid := (fm_eq_mid s)[i := fst (update_14bit (fm_eq_mid s ! i) m d c)]\<rparr>)"
  "map_ok s \<Longrightarrow> i < 2 \<Longrightarrow> map_ok (s\<lparr>fm_eq_low := (fm_eq_low s)[i := fst (update_14bit (fm_eq_low s ! i) m d c)]\<rparr>)"
  "map_ok s \<Longrightarrow> i < 2 \<Longrightarrow> map_ok (s\<lparr>fm_filter := (fm_filter s)[i := fst (update_14bit (fm_filter s ! i) m d c)]\<rparr>)"
  "map_ok s \<Longrightarrow> map_ok (s\<lparr>fm_headphone_mix := fst (update_14bit (fm_headphone_mix s) m d c)\<rparr>)"
  "map_ok s \<Longrightarrow> map_ok (s\<lparr>fm_headphone_level := fst (update_14bit (fm_headphone_level s) m d c)\<rparr>)"
  "map_ok s \<Longrightarrow> map_ok (s\<lparr>fm_master_volume := fst (update_14bit (fm_master_volume s) m d c)\<rparr>)"
  "map_ok s \<Longrightarrow> map_ok (s\<lparr>fm_crossfader := fst (update_14bit (fm_crossfader s) m d c)\<rparr>)"
  by (simp_all add: map_ok_def pair_ok_update_14bit slot7_update)

lemma map_ok_cc:
  "map_ok s \<Longrightarrow> map_ok (fst (map_deck_cc s st d1 d2))" "map_ok s \<Longrightarrow> map_ok (fst (map_master_cc s d1 d2))"
  unfolding map_deck_cc_def map_master_cc_def Let_def split_beta by (simp_all add: map_ok_update_14bit)

lemma map_ok_beat:
  "map_ok s \<Longrightarrow> map_ok (fst (map_beat_fx_button s st d1 d2))" "map_ok s \<Longrightarrow> map_ok (fst (map_beat_fx_cc s d1 d2))"
  by (simp_all add: map_beat_fx_button_def map_beat_fx_cc_def Let_def map_ok_def)

lemma map_ok_step: "map_ok s \<Longrightarrow> map_ok (fst (flx4_map_message s msg))"
  by (simp add: flx4_map_message_def Let_def map_ok_cc map_ok_beat)

definition map_run :: "flx4_map_state \<Rightarrow> flx4_midi_message list \<Rightarrow> flx4_map_state" where
  "map_run s msgs = foldl (\<lambda>s msg. fst (flx4_map_message s msg)) s msgs"

lemma map_ok_run: "map_ok s \<Longrightarrow> map_ok (map_run s msgs)"
  by (induction msgs arbitrary: s) (auto simp: map_run_def map_ok_step)

section \<open>Fourteen-bit controls\<close>

lemma bits_14:
  fixes v :: i16
  assumes "v = v AND 0x3FFF"
  shows "push_bit 7 (ucast (ucast (drop_bit 7 v) AND 0x7F :: u8)) OR ucast (ucast (v AND 0x7F) AND 0x7F :: u8) = v"
proof -
  have m: "(0x3FFF :: i16) = mask 14" by (simp add: mask_eq_exp_minus_1)
  have b: "bit v n \<Longrightarrow> n < 14" for n
    using assms unfolding m by (metis bit_and_iff bit_mask_iff)
  show ?thesis
  proof (rule bit_word_eqI)
    fix n assume "n < LENGTH(16)"
    have "7 \<le> n \<Longrightarrow> 7 + (n - 7) = n" by simp
    then show "bit (push_bit 7 (ucast (ucast (drop_bit 7 v) AND 0x7F :: u8) :: i16) OR ucast (ucast (v AND 0x7F) AND 0x7F :: u8)) n = bit v n"
      using b [of n] \<open>n < LENGTH(16)\<close> unfolding mask7f by (auto simp: bit_simps)
  qed
qed

definition hi7 :: "i16 \<Rightarrow> u8" where "hi7 v = ucast (drop_bit 7 v)"
definition lo7 :: "i16 \<Rightarrow> u8" where "lo7 v = ucast (v AND 0x7F)"

lemma and_7f_7f: "((x :: u8) AND 0x7F) AND 0x7F = x AND 0x7F"
  by (simp add: and.assoc)

lemma update_pair:
  assumes "v = v AND 0x3FFF"
  shows "snd (update_14bit (fst (update_14bit slot True (hi7 v) c)) False (lo7 v) c) =
       Some \<lparr>fe_type = CTRL_TYPE_PITCH, fe_id = c, fe_value = v\<rparr>"
    "get_14bit_value (fst (update_14bit (fst (update_14bit slot True (hi7 v) c)) False (lo7 v) c)) = Some v"
  using bits_14 [OF assms] by (simp_all add: update_14bit_def get_14bit_value_def Let_def hi7_def lo7_def and_7f_7f)

text \<open>
  The controls of 14 bits: status byte, controller numbers of the two halves, control id, and whether the snapshot after a reconnect
  reports the control.  It leaves out the two tempo faders.
\<close>

definition faders :: "(u8 \<times> u8 \<times> u8 \<times> u8 \<times> bool) list" where
  "faders =
     [(0xB0, 0x00, 0x20, CTRL_ID_DECK1_TEMPO, False), (0xB1, 0x00, 0x20, CTRL_ID_DECK2_TEMPO, False),
      (0xB0, 0x13, 0x33, CTRL_ID_CH1_VOLUME, True), (0xB1, 0x13, 0x33, CTRL_ID_CH2_VOLUME, True), (0xB6, 0x1F, 0x3F, CTRL_ID_CROSSFADER, True),
      (0xB0, 0x04, 0x24, CTRL_ID_CH1_TRIM, True), (0xB1, 0x04, 0x24, CTRL_ID_CH2_TRIM, True),
      (0xB0, 0x07, 0x27, CTRL_ID_CH1_EQ_HIGH, True), (0xB1, 0x07, 0x27, CTRL_ID_CH2_EQ_HIGH, True),
      (0xB0, 0x0B, 0x2B, CTRL_ID_CH1_EQ_MID, True), (0xB1, 0x0B, 0x2B, CTRL_ID_CH2_EQ_MID, True),
      (0xB0, 0x0F, 0x2F, CTRL_ID_CH1_EQ_LOW, True), (0xB1, 0x0F, 0x2F, CTRL_ID_CH2_EQ_LOW, True),
      (0xB6, 0x17, 0x37, CTRL_ID_CH1_FILTER, True), (0xB6, 0x18, 0x38, CTRL_ID_CH2_FILTER, True),
      (0xB6, 0x08, 0x28, CTRL_ID_MASTER_VOLUME, True), (0xB6, 0x0C, 0x2C, CTRL_ID_HEADPHONE_MIX, True),
      (0xB6, 0x0D, 0x2D, CTRL_ID_HEADPHONE_LEVEL, True)]"

definition cc_message :: "u8 \<Rightarrow> u8 \<Rightarrow> u8 \<Rightarrow> flx4_midi_message" where
  "cc_message st cc d = \<lparr>mm_len = 3, mm_status = st, mm_data1 = cc, mm_data2 = d\<rparr>"

text \<open>A callback that takes every event, and what the snapshot reports to it.\<close>

definition record_event :: "(u8 \<times> u8 \<times> i16) list snapshot_cb" where
  "record_event log ty cid v = (log @ [(ty, cid, v)], True)"

definition replayed :: "flx4_map_state \<Rightarrow> (u8 \<times> u8 \<times> i16) list" where
  "replayed s = fst (flx4_map_emit_snapshot s record_event [])"

definition slot_report :: "flx4_14bit_state \<times> u8 \<Rightarrow> (u8 \<times> u8 \<times> i16) list" where
  "slot_report p = (case p of (slot, cid) \<Rightarrow> case get_14bit_value slot of None \<Rightarrow> [] | Some v \<Rightarrow> [(CTRL_TYPE_PITCH, cid, v)])"

lemma emit_slots_log: "\<exists>m. emit_slots record_event slots log n = (log @ concat (map slot_report slots), m, True)"
proof (induction slots arbitrary: log n)
  case (Cons p slots)
  obtain slot cid where p: "p = (slot, cid)" by (cases p)
  show ?case
  proof (cases "get_14bit_value slot")
    case None
    then show ?thesis using Cons.IH [of log n] by (simp add: p emit_snapshot_14bit_def slot_report_def)
  next
    case (Some v)
    have r: "record_event log CTRL_TYPE_PITCH cid v = (log @ [(CTRL_TYPE_PITCH, cid, v)], True)" by (simp add: record_event_def)
    show ?thesis using Some Cons.IH [of "log @ [(CTRL_TYPE_PITCH, cid, v)]" "n + 1"]
      by (simp add: p emit_snapshot_14bit_def slot_report_def r)
  qed
qed simp

lemma replayed_slots:
  "replayed s = concat (map slot_report (snapshot_slots s)) @
     (if fm_beat_fx_depth_valid s then [(CTRL_TYPE_PITCH, CTRL_ID_BEAT_FX_DEPTH, ucast (fm_beat_fx_depth s AND 0x7F))] else [])"
proof -
  obtain m where "emit_slots record_event (snapshot_slots s) [] 0 = (concat (map slot_report (snapshot_slots s)), m, True)"
    using emit_slots_log [of "snapshot_slots s" "[]" 0] by auto
  then show ?thesis by (simp add: replayed_def flx4_map_emit_snapshot_def record_event_def)
qed

lemma slot_report_of: "filter (\<lambda>(_, c, _). c = cid) (slot_report (slot, cid')) = (if cid' = cid then slot_report (slot, cid') else [])"
  by (simp add: slot_report_def split: option.splits)

section \<open>Emitted events\<close>

definition pitch14 :: "i16 \<Rightarrow> bool" where
  "pitch14 v \<longleftrightarrow> v = v AND 0x3FFF"

lemma pitch14_range: "pitch14 v \<Longrightarrow> 0 \<le> sint v \<and> sint v < 16384"
proof -
  assume "pitch14 v"
  then have "v = take_bit 14 v" by (simp add: pitch14_def take_bit_eq_mask mask_eq_exp_minus_1)
  then have "uint v = take_bit 14 (uint v)" by (metis unsigned_take_bit_eq)
  then have u: "uint v < 2 ^ 14" by (metis take_bit_int_less_exp)
  have "sint v = uint v" using u by (simp add: sint_uint signed_take_bit_int_eq_self_iff order_trans [OF _ uint_ge_0])
  then show ?thesis using u by simp
qed

definition encoder_ids :: "u8 list" where
  "encoder_ids = [CTRL_ID_DECK1_JOG_SCRATCH, CTRL_ID_DECK1_JOG_BEND, CTRL_ID_DECK1_JOG_SEARCH, CTRL_ID_DECK2_JOG_SCRATCH,
     CTRL_ID_DECK2_JOG_BEND, CTRL_ID_DECK2_JOG_SEARCH, CTRL_ID_BROWSE_DELTA, CTRL_ID_BROWSE_SHIFT_DELTA]"

text \<open>The events the map may emit.\<close>

definition flx4_event_ok :: "flx4_control_event \<Rightarrow> bool" where
  "flx4_event_ok ev \<longleftrightarrow>
     fe_type ev = CTRL_TYPE_BUTTON \<or>
     fe_type ev = CTRL_TYPE_ENCODER \<and> fe_id ev \<in> set encoder_ids \<and> fe_value ev \<noteq> 0 \<or>
     fe_type ev = CTRL_TYPE_PITCH \<and> pitch14 (fe_value ev)"

lemma pitch14_join:
  assumes "m AND 0x7F = (m :: u8)" "l AND 0x7F = l"
  shows "pitch14 (push_bit 7 (ucast m) OR ucast l)"
proof -
  have m: "(0x3FFF :: i16) = mask 14" by (simp add: mask_eq_exp_minus_1)
  have b: "bit m n \<Longrightarrow> n < 7" "bit l n \<Longrightarrow> n < 7" for n
    using assms unfolding mask7f by (metis bit_and_iff bit_mask_iff)+
  show ?thesis
    unfolding pitch14_def m
    by (rule bit_word_eqI) (auto simp: bit_simps dest: b)
qed

definition emits_ok :: "flx4_control_event option \<Rightarrow> bool" where
  "emits_ok e \<longleftrightarrow> (case e of None \<Rightarrow> True | Some ev \<Rightarrow> flx4_event_ok ev)"

lemma update_emits: "slot7 slot \<Longrightarrow> emits_ok (snd (update_14bit slot m d c))"
  using pitch14_join [of "msb (fst (update_14bit slot m d c))" "lsb (fst (update_14bit slot m d c))"] slot7_update [of slot m d c]
  by (simp add: update_14bit_def Let_def emits_ok_def flx4_event_ok_def slot7_def)

lemma emit_encoder_emits: "c \<in> set encoder_ids \<Longrightarrow> emits_ok (emit_encoder c w)"
  by (simp add: emit_encoder_def emits_ok_def flx4_event_ok_def)

lemma emits_simps [simp]:
  "emits_ok None" "emits_ok (Some (emit_button c v))" "emits_ok (Some (emit_button_value c w))"
  "emits_ok (Some (emit_deck_ext_action d a p))"
  by (simp_all add: emits_ok_def emit_button_def emit_button_value_def emit_deck_ext_action_def flx4_event_ok_def)

lemma cc_emits:
  "map_ok s \<Longrightarrow> emits_ok (snd (map_deck_cc s st d1 d2))" "map_ok s \<Longrightarrow> emits_ok (snd (map_master_cc s d1 d2))"
  unfolding map_deck_cc_def map_master_cc_def Let_def
  by (simp_all add: map_ok_def split_beta update_emits emit_encoder_emits encoder_ids_def pair_ok_nth)

lemma button_emits:
  "emits_ok (map_deck_button st d1 d2)" "emits_ok (map_global_button d1 d2)" "emits_ok (map_pad_message st d1 d2)"
  by (simp_all add: map_deck_button_def map_global_button_def map_pad_message_def Let_def)

lemma depth_pitch14: "pitch14 (ucast (d AND 0x7F :: u8))"
  using pitch14_join [of 0 "d AND 0x7F"] by (simp add: and.assoc)

lemma beat_fx_emits: "emits_ok (snd (map_beat_fx_button s st d1 d2))" "emits_ok (snd (map_beat_fx_cc s d1 d2))"
  using depth_pitch14 [of d2]
  by (simp_all add: map_beat_fx_button_def map_beat_fx_cc_def emit_beat_fx_target_from_state_def Let_def)
    (simp add: emits_ok_def flx4_event_ok_def)

lemma flx4_map_emits: "map_ok s \<Longrightarrow> emits_ok (snd (flx4_map_message s msg))"
  by (simp add: flx4_map_message_def Let_def cc_emits button_emits beat_fx_emits)

section \<open>Press and release\<close>

definition held_press :: "flx4_control_event \<Rightarrow> bool" where
  "held_press e \<longleftrightarrow> fe_type e = CTRL_TYPE_BUTTON \<and> control_held_state_key (fe_id e) (fe_value e) \<noteq> None"

text \<open>\<open>released_by p r\<close>: if \<open>p\<close> presses a held control, \<open>r\<close> is its release.\<close>

definition released_by :: "flx4_control_event option \<Rightarrow> flx4_control_event option \<Rightarrow> bool" where
  "released_by p r = (case p of None \<Rightarrow> True | Some e \<Rightarrow>
     if held_press e then r = Some \<lparr>fe_type = CTRL_TYPE_BUTTON, fe_id = fe_id e,
                                    fe_value = control_held_state_release_value (fe_id e) (fe_value e)\<rparr> else True)"

lemma released_by_button:
  "c \<notin> {CTRL_ID_DECK1_EXT_ACTION, CTRL_ID_DECK2_EXT_ACTION, CTRL_ID_DECK1_PAD_ACTION, CTRL_ID_DECK2_PAD_ACTION} \<Longrightarrow>
   released_by (Some (emit_button c 1)) (Some (emit_button c 0))"
  by (simp add: released_by_def emit_button_def control_held_state_release_value_def)

lemma bit_0x80: "bit (0x80 :: i16) n \<longleftrightarrow> n = 7"
  using bit_push_bit_iff [of 7 "1 :: i16" n] by (auto simp: bit_1_iff)

lemma pad_release_value:
  "CTRL_PAD_ACTION_VALUE mode pad shifted True AND NOT 0x80 = CTRL_PAD_ACTION_VALUE mode pad shifted False"
proof (rule bit_word_eqI)
  fix n :: nat assume "n < LENGTH(16)"
  then show "bit (CTRL_PAD_ACTION_VALUE mode pad shifted True AND NOT 0x80) n =
      bit (CTRL_PAD_ACTION_VALUE mode pad shifted False) n"
    unfolding bit_and_iff bit_not_iff bit_0x80 by auto
qed

lemma released_by_ext:
  "released_by (Some (emit_deck_ext_action d a 1)) (Some (emit_deck_ext_action d a 0))"
proof -
  have "CTRL_DECK_EXT_VALUE a True AND 0x7F = CTRL_DECK_EXT_VALUE a False"
    unfolding CTRL_DECK_EXT_VALUE_def mask7f if_True if_False
    by (rule bit_word_eqI, unfold bit_and_iff bit_or_iff bit_0x80) (auto simp: bit_simps)
  then show ?thesis
    by (simp add: released_by_def emit_deck_ext_action_def emit_button_value_def control_held_state_release_value_def)
qed

lemma released_by_pad:
  "c = CTRL_ID_DECK1_PAD_ACTION \<or> c = CTRL_ID_DECK2_PAD_ACTION \<Longrightarrow>
   released_by (Some (emit_button_value c (CTRL_PAD_ACTION_VALUE m p sh True)))
     (Some (emit_button_value c (CTRL_PAD_ACTION_VALUE m p sh False)))"
  using pad_release_value [of m p sh]
  by (simp add: released_by_def emit_button_value_def control_held_state_release_value_def) auto

lemma released_by_deck:
  assumes "d2 > 0"
  shows "released_by (map_deck_button st d1 d2) (map_deck_button st d1 0)"
    "released_by (map_pad_message st d1 d2) (map_pad_message st d1 0)"
proof -
  have n: "released_by None None" by (simp add: released_by_def)
  show "released_by (map_deck_button st d1 d2) (map_deck_button st d1 0)"
    using assms by (simp add: map_deck_button_def Let_def released_by_button released_by_ext n)
  show "released_by (map_pad_message st d1 d2) (map_pad_message st d1 0)"
    using assms by (simp add: map_pad_message_def Let_def released_by_pad n)
qed

lemma released_by_not_held: "\<not> held_press e \<Longrightarrow> released_by (Some e) r"
  by (simp add: released_by_def)

lemma released_by_encoder: "released_by (emit_encoder c w) r" "released_by (snd (update_14bit slot m d c)) r" "released_by None r"
  by (auto simp: released_by_def emit_encoder_def held_press_def update_14bit_def Let_def)

lemma released_by_cc:
  "released_by (snd (map_deck_cc s st d1 d2)) r" "released_by (snd (map_master_cc s d1 d2)) r" "released_by (snd (map_beat_fx_cc s d1 d2)) r"
  unfolding map_deck_cc_def map_master_cc_def map_beat_fx_cc_def Let_def split_beta
  by (simp_all add: released_by_encoder) (simp add: released_by_def held_press_def)

lemma no_held_button:
  "c \<notin> {CTRL_ID_DECK1_JOG_TOUCH, CTRL_ID_DECK2_JOG_TOUCH, CTRL_ID_DECK1_SHIFT, CTRL_ID_DECK2_SHIFT,
     CTRL_ID_DECK1_EXT_ACTION, CTRL_ID_DECK2_EXT_ACTION, CTRL_ID_DECK1_PAD_ACTION, CTRL_ID_DECK2_PAD_ACTION} \<Longrightarrow>
   released_by (Some (emit_button c v)) r \<and> released_by (Some (emit_button_value c w)) r"
  by (simp add: released_by_def held_press_def emit_button_def emit_button_value_def control_held_state_key_def)

lemma released_by_other:
  "released_by (snd (map_beat_fx_button s st d1 d2)) r" "released_by (map_global_button d1 d2) r"
  unfolding map_beat_fx_button_def map_global_button_def emit_beat_fx_target_from_state_def Let_def
  by (simp_all add: no_held_button released_by_encoder(3))

lemma released_by_message:
  "mm_data2 msg > 0 \<Longrightarrow> released_by (snd (flx4_map_message s msg)) (snd (flx4_map_message s' (msg\<lparr>mm_data2 := 0\<rparr>)))"
  by (simp add: flx4_map_message_def Let_def released_by_cc released_by_other released_by_deck released_by_encoder(3))
text \<open>The effect of each fader message.\<close>

lemma fader_messages:
  "flx4_map_message s (cc_message 0xB0 0x00 d) =
     (let r = update_14bit (fm_tempo s ! 0) True d CTRL_ID_DECK1_TEMPO in (s\<lparr>fm_tempo := (fm_tempo s)[0 := fst r]\<rparr>, snd r))"
  "flx4_map_message s (cc_message 0xB0 0x20 d) =
     (let r = update_14bit (fm_tempo s ! 0) False d CTRL_ID_DECK1_TEMPO in (s\<lparr>fm_tempo := (fm_tempo s)[0 := fst r]\<rparr>, snd r))"
  "flx4_map_message s (cc_message 0xB1 0x00 d) =
     (let r = update_14bit (fm_tempo s ! 1) True d CTRL_ID_DECK2_TEMPO in (s\<lparr>fm_tempo := (fm_tempo s)[1 := fst r]\<rparr>, snd r))"
  "flx4_map_message s (cc_message 0xB1 0x20 d) =
     (let r = update_14bit (fm_tempo s ! 1) False d CTRL_ID_DECK2_TEMPO in (s\<lparr>fm_tempo := (fm_tempo s)[1 := fst r]\<rparr>, snd r))"
  "flx4_map_message s (cc_message 0xB0 0x13 d) =
     (let r = update_14bit (fm_channel_volume s ! 0) True d CTRL_ID_CH1_VOLUME in (s\<lparr>fm_channel_volume := (fm_channel_volume s)[0 := fst r]\<rparr>, snd r))"
  "flx4_map_message s (cc_message 0xB0 0x33 d) =
     (let r = update_14bit (fm_channel_volume s ! 0) False d CTRL_ID_CH1_VOLUME in (s\<lparr>fm_channel_volume := (fm_channel_volume s)[0 := fst r]\<rparr>, snd r))"
  "flx4_map_message s (cc_message 0xB1 0x13 d) =
     (let r = update_14bit (fm_channel_volume s ! 1) True d CTRL_ID_CH2_VOLUME in (s\<lparr>fm_channel_volume := (fm_channel_volume s)[1 := fst r]\<rparr>, snd r))"
  "flx4_map_message s (cc_message 0xB1 0x33 d) =
     (let r = update_14bit (fm_channel_volume s ! 1) False d CTRL_ID_CH2_VOLUME in (s\<lparr>fm_channel_volume := (fm_channel_volume s)[1 := fst r]\<rparr>, snd r))"
  "flx4_map_message s (cc_message 0xB6 0x1F d) =
     (let r = update_14bit (fm_crossfader s) True d CTRL_ID_CROSSFADER in (s\<lparr>fm_crossfader := fst r\<rparr>, snd r))"
  "flx4_map_message s (cc_message 0xB6 0x3F d) =
     (let r = update_14bit (fm_crossfader s) False d CTRL_ID_CROSSFADER in (s\<lparr>fm_crossfader := fst r\<rparr>, snd r))"
  "flx4_map_message s (cc_message 0xB0 0x04 d) =
     (let r = update_14bit (fm_trim s ! 0) True d CTRL_ID_CH1_TRIM in (s\<lparr>fm_trim := (fm_trim s)[0 := fst r]\<rparr>, snd r))"
  "flx4_map_message s (cc_message 0xB0 0x24 d) =
     (let r = update_14bit (fm_trim s ! 0) False d CTRL_ID_CH1_TRIM in (s\<lparr>fm_trim := (fm_trim s)[0 := fst r]\<rparr>, snd r))"
  "flx4_map_message s (cc_message 0xB1 0x04 d) =
     (let r = update_14bit (fm_trim s ! 1) True d CTRL_ID_CH2_TRIM in (s\<lparr>fm_trim := (fm_trim s)[1 := fst r]\<rparr>, snd r))"
  "flx4_map_message s (cc_message 0xB1 0x24 d) =
     (let r = update_14bit (fm_trim s ! 1) False d CTRL_ID_CH2_TRIM in (s\<lparr>fm_trim := (fm_trim s)[1 := fst r]\<rparr>, snd r))"
  "flx4_map_message s (cc_message 0xB0 0x07 d) =
     (let r = update_14bit (fm_eq_high s ! 0) True d CTRL_ID_CH1_EQ_HIGH in (s\<lparr>fm_eq_high := (fm_eq_high s)[0 := fst r]\<rparr>, snd r))"
  "flx4_map_message s (cc_message 0xB0 0x27 d) =
     (let r = update_14bit (fm_eq_high s ! 0) False d CTRL_ID_CH1_EQ_HIGH in (s\<lparr>fm_eq_high := (fm_eq_high s)[0 := fst r]\<rparr>, snd r))"
  "flx4_map_message s (cc_message 0xB1 0x07 d) =
     (let r = update_14bit (fm_eq_high s ! 1) True d CTRL_ID_CH2_EQ_HIGH in (s\<lparr>fm_eq_high := (fm_eq_high s)[1 := fst r]\<rparr>, snd r))"
  "flx4_map_message s (cc_message 0xB1 0x27 d) =
     (let r = update_14bit (fm_eq_high s ! 1) False d CTRL_ID_CH2_EQ_HIGH in (s\<lparr>fm_eq_high := (fm_eq_high s)[1 := fst r]\<rparr>, snd r))"
  "flx4_map_message s (cc_message 0xB0 0x0B d) =
     (let r = update_14bit (fm_eq_mid s ! 0) True d CTRL_ID_CH1_EQ_MID in (s\<lparr>fm_eq_mid := (fm_eq_mid s)[0 := fst r]\<rparr>, snd r))"
  "flx4_map_message s (cc_message 0xB0 0x2B d) =
     (let r = update_14bit (fm_eq_mid s ! 0) False d CTRL_ID_CH1_EQ_MID in (s\<lparr>fm_eq_mid := (fm_eq_mid s)[0 := fst r]\<rparr>, snd r))"
  "flx4_map_message s (cc_message 0xB1 0x0B d) =
     (let r = update_14bit (fm_eq_mid s ! 1) True d CTRL_ID_CH2_EQ_MID in (s\<lparr>fm_eq_mid := (fm_eq_mid s)[1 := fst r]\<rparr>, snd r))"
  "flx4_map_message s (cc_message 0xB1 0x2B d) =
     (let r = update_14bit (fm_eq_mid s ! 1) False d CTRL_ID_CH2_EQ_MID in (s\<lparr>fm_eq_mid := (fm_eq_mid s)[1 := fst r]\<rparr>, snd r))"
  "flx4_map_message s (cc_message 0xB0 0x0F d) =
     (let r = update_14bit (fm_eq_low s ! 0) True d CTRL_ID_CH1_EQ_LOW in (s\<lparr>fm_eq_low := (fm_eq_low s)[0 := fst r]\<rparr>, snd r))"
  "flx4_map_message s (cc_message 0xB0 0x2F d) =
     (let r = update_14bit (fm_eq_low s ! 0) False d CTRL_ID_CH1_EQ_LOW in (s\<lparr>fm_eq_low := (fm_eq_low s)[0 := fst r]\<rparr>, snd r))"
  "flx4_map_message s (cc_message 0xB1 0x0F d) =
     (let r = update_14bit (fm_eq_low s ! 1) True d CTRL_ID_CH2_EQ_LOW in (s\<lparr>fm_eq_low := (fm_eq_low s)[1 := fst r]\<rparr>, snd r))"
  "flx4_map_message s (cc_message 0xB1 0x2F d) =
     (let r = update_14bit (fm_eq_low s ! 1) False d CTRL_ID_CH2_EQ_LOW in (s\<lparr>fm_eq_low := (fm_eq_low s)[1 := fst r]\<rparr>, snd r))"
  "flx4_map_message s (cc_message 0xB6 0x17 d) =
     (let r = update_14bit (fm_filter s ! 0) True d CTRL_ID_CH1_FILTER in (s\<lparr>fm_filter := (fm_filter s)[0 := fst r]\<rparr>, snd r))"
  "flx4_map_message s (cc_message 0xB6 0x37 d) =
     (let r = update_14bit (fm_filter s ! 0) False d CTRL_ID_CH1_FILTER in (s\<lparr>fm_filter := (fm_filter s)[0 := fst r]\<rparr>, snd r))"
  "flx4_map_message s (cc_message 0xB6 0x18 d) =
     (let r = update_14bit (fm_filter s ! 1) True d CTRL_ID_CH2_FILTER in (s\<lparr>fm_filter := (fm_filter s)[1 := fst r]\<rparr>, snd r))"
  "flx4_map_message s (cc_message 0xB6 0x38 d) =
     (let r = update_14bit (fm_filter s ! 1) False d CTRL_ID_CH2_FILTER in (s\<lparr>fm_filter := (fm_filter s)[1 := fst r]\<rparr>, snd r))"
  "flx4_map_message s (cc_message 0xB6 0x08 d) =
     (let r = update_14bit (fm_master_volume s) True d CTRL_ID_MASTER_VOLUME in (s\<lparr>fm_master_volume := fst r\<rparr>, snd r))"
  "flx4_map_message s (cc_message 0xB6 0x28 d) =
     (let r = update_14bit (fm_master_volume s) False d CTRL_ID_MASTER_VOLUME in (s\<lparr>fm_master_volume := fst r\<rparr>, snd r))"
  "flx4_map_message s (cc_message 0xB6 0x0C d) =
     (let r = update_14bit (fm_headphone_mix s) True d CTRL_ID_HEADPHONE_MIX in (s\<lparr>fm_headphone_mix := fst r\<rparr>, snd r))"
  "flx4_map_message s (cc_message 0xB6 0x2C d) =
     (let r = update_14bit (fm_headphone_mix s) False d CTRL_ID_HEADPHONE_MIX in (s\<lparr>fm_headphone_mix := fst r\<rparr>, snd r))"
  "flx4_map_message s (cc_message 0xB6 0x0D d) =
     (let r = update_14bit (fm_headphone_level s) True d CTRL_ID_HEADPHONE_LEVEL in (s\<lparr>fm_headphone_level := fst r\<rparr>, snd r))"
  "flx4_map_message s (cc_message 0xB6 0x2D d) =
     (let r = update_14bit (fm_headphone_level s) False d CTRL_ID_HEADPHONE_LEVEL in (s\<lparr>fm_headphone_level := fst r\<rparr>, snd r))"
  by (simp_all add: cc_message_def flx4_map_message_def map_deck_cc_def map_master_cc_def Let_def split_beta)

section \<open>Properties\<close>

text \<open>
  Claim C17.  The positions of all 14-bit controls survive the translation: whatever was received before, the two halves of a
  position produce exactly that position as an event of the right control; and the snapshot a reconnect replays
  (\<open>flx4_map_emit_snapshot\<close>, to a callback that takes everything) then reports that position once and no other of the control, but
  for the two tempo faders, of which it never reports anything.
\<close>

theorem faders_exact:
  "let s = map_run flx4_map_init msgs; v = w AND 0x3FFF in
   list_all (\<lambda>(st, hi, lo, cid, in_snapshot).
     let s1 = fst (flx4_map_message s (cc_message st hi (hi7 v)));
         (s2, ev) = flx4_map_message s1 (cc_message st lo (lo7 v))
     in ev = Some \<lparr>fe_type = CTRL_TYPE_PITCH, fe_id = cid, fe_value = v\<rparr> \<and>
        filter (\<lambda>(_, c, _). c = cid) (replayed s2) = (if in_snapshot then [(CTRL_TYPE_PITCH, cid, v)] else [])) faders"
proof -
  define s where "s = map_run flx4_map_init msgs"
  define v where "v = w AND 0x3FFF"
  have v: "v = v AND 0x3FFF" by (simp add: v_def and.assoc)
  have ok: "map_ok s" unfolding s_def by (rule map_ok_run [OF map_ok_init])
  have len: "length (fm_tempo s) = 2" "length (fm_channel_volume s) = 2" "length (fm_trim s) = 2" "length (fm_eq_high s) = 2" "length (fm_eq_mid s) = 2"
    "length (fm_eq_low s) = 2" "length (fm_filter s) = 2"
    using ok by (auto simp: map_ok_def pair_ok_length)
  note u = update_pair [OF v]
  show ?thesis
    unfolding s_def [symmetric] v_def [symmetric] Let_def faders_def
    by (simp add: fader_messages Let_def u len replayed_slots snapshot_slots_def slot_report_of) (simp add: slot_report_def u)
qed

text \<open>
  Claim C18.  Every event the map emits is well formed: an encoder event comes from a known encoder and is not empty, a
  fader value is a 14-bit number; and releasing a held control (jog touch, shift, censor, effect and roll
  pads) emits exactly the release level of its press, so that a lost release and an unplugged controller look the same
  downstream.
\<close>

theorem map_events_sound:
  "let s = map_run flx4_map_init msgs in
     (case snd (flx4_map_message s msg) of None \<Rightarrow> True | Some ev \<Rightarrow> flx4_event_ok ev) \<and>
     (if mm_data2 msg > 0
      then released_by (snd (flx4_map_message s msg)) (snd (flx4_map_message s' (msg\<lparr>mm_data2 := 0\<rparr>))) else True)"
proof -
  define s where "s = map_run flx4_map_init msgs"
  have "map_ok s" unfolding s_def by (rule map_ok_run [OF map_ok_init])
  then have "emits_ok (snd (flx4_map_message s msg))" by (rule flx4_map_emits)
  moreover have "released_by (snd (flx4_map_message s msg)) (snd (flx4_map_message s' (msg\<lparr>mm_data2 := 0\<rparr>)))"
    if "mm_data2 msg > 0"
    by (rule released_by_message [OF that])
  ultimately show ?thesis by (simp add: s_def emits_ok_def Let_def)
qed

end
