(* ===== verification/S3_App.thy ===== *)
theory S3_App
  imports S3_Link Event_Scheduler Held_Delivery Flx4_Map
begin

text \<open>
  The application of the S3 control board (\<open>app_main.c\<close>): the translator that turns MIDI messages into frames for the P4,
  the replay of known positions after a reconnect, the heartbeat, and the boot gate that confirms a new
  firmware image only after the P4 answered (\<open>firmware_boot_gate.c\<close>).

  The statics of the file are the fields of \<open>s3_app\<close>; the link and the active profile live in \<open>app_link\<close>.
  \<open>app_sent\<close> records the events whose frame the UART took completely.  Each function runs as one step: the critical
  sections of the C code protect the same single reads and writes.  Waking the translator task, the warning
  log and the counters that only feed it are left out.
\<close>

section \<open>Boot gate\<close>

record firmware_boot_gate =
  challenge :: u16
  critical_tasks_alive :: bool
  p4_acknowledged :: bool

definition firmware_boot_gate_init :: "u16 \<Rightarrow> firmware_boot_gate" where
  "firmware_boot_gate_init c =
     \<lparr>challenge = (if c \<noteq> 0 then c else 1), critical_tasks_alive = False, p4_acknowledged = False\<rparr>"

definition firmware_boot_gate_set_critical_tasks_alive :: "firmware_boot_gate \<Rightarrow> bool \<Rightarrow> firmware_boot_gate" where
  "firmware_boot_gate_set_critical_tasks_alive gate alive =
     (let gate = gate\<lparr>critical_tasks_alive := alive\<rparr> in if \<not> alive then gate\<lparr>p4_acknowledged := False\<rparr> else gate)"

definition firmware_boot_gate_observe_p4_ack :: "firmware_boot_gate \<Rightarrow> u16 \<Rightarrow> firmware_boot_gate \<times> bool" where
  "firmware_boot_gate_observe_p4_ack gate response =
     (if \<not> critical_tasks_alive gate \<or> response \<noteq> challenge gate then (gate, False)
      else (gate\<lparr>p4_acknowledged := True\<rparr>, True))"

definition firmware_boot_gate_ready :: "firmware_boot_gate \<Rightarrow> bool" where
  "firmware_boot_gate_ready gate \<longleftrightarrow> critical_tasks_alive gate \<and> p4_acknowledged gate"

section \<open>State\<close>

record s3_app =
  app_link :: s3_link
  app_sched :: control_event_scheduler
  app_map :: flx4_map_state
  app_held :: control_held_state_reconciler
  app_unsupported :: u32
  app_gate :: firmware_boot_gate
  app_sent :: "(u8 \<times> u8 \<times> i16) list"

abbreviation (input) FLX4_USB_VID :: u16 where "FLX4_USB_VID \<equiv> 0x2B73"
abbreviation (input) FLX4_USB_PID :: u16 where "FLX4_USB_PID \<equiv> 0x0045"
abbreviation (input) FLX4_DISCRETE_BUDGET :: nat where "FLX4_DISCRETE_BUDGET \<equiv> 8"
abbreviation (input) FLX4_CONTINUOUS_BUDGET :: nat where "FLX4_CONTINUOUS_BUDGET \<equiv> 4"

text \<open>\<open>control_link_send_semantic\<close> on the link of the application; \<open>True\<close> is \<open>ESP_OK\<close>.\<close>

definition app_send :: "s3_env \<Rightarrow> s3_app \<Rightarrow> u8 \<Rightarrow> u8 \<Rightarrow> i16 \<Rightarrow> s3_app \<times> bool" where
  "app_send env a ty cid v =
     (let (link, ok) = control_link_send_semantic env (app_link a) ty cid v
      in (a\<lparr>app_link := link, app_sent := app_sent a @ (if ok then [(ty, cid, v)] else [])\<rparr>, ok))"

section \<open>Replay after a reconnect\<close>

definition flx4_send_snapshot_event :: "s3_env \<Rightarrow> s3_app \<Rightarrow> u8 \<Rightarrow> u8 \<Rightarrow> i16 \<Rightarrow> s3_app \<times> bool" where
  "flx4_send_snapshot_event env a ty cid v = (fst (app_send env a ty cid v), True)"

definition flx4_replay_known_input_snapshot :: "s3_env \<Rightarrow> s3_app \<Rightarrow> s3_app" where
  "flx4_replay_known_input_snapshot env a =
     (if (case env_conn env of None \<Rightarrow> False
          | Some c \<Rightarrow> controller_profile_runtime_bound_to (sl_runtime (app_link a)) (conn_vid c) (conn_pid c) (conn_epoch c))
      then foldl (\<lambda>a ev. fst (flx4_send_snapshot_event env a (ev_type ev) (ev_id ev) (ev_value ev))) a
             (controller_profile_runtime_emit_snapshot (sl_runtime (app_link a)) (\<lambda>_ _. True))
      else if env_builtin_flx4 env
      then fst (flx4_map_emit_snapshot (app_map a) (flx4_send_snapshot_event env) a)
      else a)"

text \<open>
  The loop over the dirty held controls from a cursor; the flag tells whether it ran through without a failed
  send, the C function returns nothing.
\<close>

function flx4_flush_held_from :: "s3_env \<Rightarrow> nat \<Rightarrow> s3_app \<Rightarrow> s3_app \<times> bool" where
  "flx4_flush_held_from env cursor a =
     (case control_held_state_next_dirty (app_held a) cursor of
        (_, None) \<Rightarrow> (a, True)
      | (cursor', Some (key, cid, v, sq)) \<Rightarrow>
          (case app_send env a CTRL_TYPE_BUTTON cid v of (a1, ok) \<Rightarrow>
             if \<not> ok then (a1, False)
             else flx4_flush_held_from env cursor'
                    (a1\<lparr>app_held := control_held_state_mark_scheduled (app_held a1) (int key) v\<rparr>)))"
  by pat_completeness auto

termination flx4_flush_held_from
  by (relation "measure (\<lambda>(env, cursor, a). CONTROL_HELD_STATE_COUNT - cursor)") (auto intro: next_dirty_measure)

declare flx4_flush_held_from.simps [simp del]

definition flx4_flush_pending_held_states :: "s3_env \<Rightarrow> s3_app \<Rightarrow> s3_app" where
  "flx4_flush_pending_held_states env a = fst (flx4_flush_held_from env 0 a)"

lemma next_observed_measure:
  "(cursor', Some (cid, v)) = control_held_state_next_observed state cursor \<Longrightarrow>
   CONTROL_HELD_STATE_COUNT - cursor' < CONTROL_HELD_STATE_COUNT - cursor"
  by (auto simp: control_held_state_next_observed_def next_from_def find_Some_iff split: option.splits)

function flx4_replay_held_from :: "s3_env \<Rightarrow> nat \<Rightarrow> s3_app \<Rightarrow> s3_app" where
  "flx4_replay_held_from env cursor a =
     (case control_held_state_next_observed (app_held a) cursor of
        (_, None) \<Rightarrow> a
      | (cursor', Some (cid, v)) \<Rightarrow>
          (case app_send env a CTRL_TYPE_BUTTON cid v of (a1, ok) \<Rightarrow>
             if \<not> ok then a1
             else flx4_replay_held_from env cursor'
                    (a1\<lparr>app_held := control_held_state_mark_scheduled (app_held a1)
                          (case control_held_state_key cid v of None \<Rightarrow> -1 | Some key \<Rightarrow> int key) v\<rparr>)))"
  by pat_completeness auto

termination flx4_replay_held_from
  by (relation "measure (\<lambda>(env, cursor, a). CONTROL_HELD_STATE_COUNT - cursor)") (auto intro: next_observed_measure)

declare flx4_replay_held_from.simps [simp del]

definition flx4_replay_known_held_snapshot :: "s3_env \<Rightarrow> s3_app \<Rightarrow> s3_app" where
  "flx4_replay_known_held_snapshot env a = flx4_replay_held_from env 0 a"

definition flx4_controller_connection_cb :: "s3_env \<Rightarrow> bool \<Rightarrow> s3_app \<Rightarrow> s3_app" where
  "flx4_controller_connection_cb env connected a =
     (if connected then flx4_replay_known_held_snapshot env (flx4_replay_known_input_snapshot env a)
      else a\<lparr>app_link := (app_link a)\<lparr>sl_runtime := controller_profile_runtime_clear (sl_runtime (app_link a))\<rparr>,
             app_map := flx4_map_init, app_sched := control_event_scheduler_reset,
             app_held := control_held_state_release_all (app_held a) 0\<rparr>)"

section \<open>Translation\<close>

definition flx4_event_is_high_rate :: "flx4_control_event \<Rightarrow> bool" where
  "flx4_event_is_high_rate ev =
     (if fe_type ev = CTRL_TYPE_ENCODER \<and> fe_id ev \<noteq> CTRL_ID_BROWSE_DELTA \<and> fe_id ev \<noteq> CTRL_ID_DECK1_LOOP_SIZE \<and>
         fe_id ev \<noteq> CTRL_ID_DECK2_LOOP_SIZE then True
      else if fe_type ev = CTRL_TYPE_PITCH then
        fe_id ev \<in> {CTRL_ID_DECK1_TEMPO, CTRL_ID_DECK2_TEMPO, CTRL_ID_CH1_VOLUME, CTRL_ID_CH2_VOLUME, CTRL_ID_CROSSFADER,
          CTRL_ID_CH1_TRIM, CTRL_ID_CH2_TRIM, CTRL_ID_CH1_EQ_HIGH, CTRL_ID_CH2_EQ_HIGH, CTRL_ID_CH1_EQ_MID,
          CTRL_ID_CH2_EQ_MID, CTRL_ID_CH1_EQ_LOW, CTRL_ID_CH2_EQ_LOW, CTRL_ID_CH1_FILTER, CTRL_ID_CH2_FILTER,
          CTRL_ID_MASTER_VOLUME, CTRL_ID_HEADPHONE_MIX, CTRL_ID_HEADPHONE_LEVEL, CTRL_ID_BEAT_FX_DEPTH}
      else False)"

definition flx4_event_is_relative_jog :: "flx4_control_event \<Rightarrow> bool" where
  "flx4_event_is_relative_jog ev \<longleftrightarrow> fe_type ev = CTRL_TYPE_ENCODER \<and>
     fe_id ev \<in> {CTRL_ID_DECK1_JOG_SCRATCH, CTRL_ID_DECK1_JOG_BEND, CTRL_ID_DECK1_JOG_SEARCH,
                 CTRL_ID_DECK2_JOG_SCRATCH, CTRL_ID_DECK2_JOG_BEND, CTRL_ID_DECK2_JOG_SEARCH}"

definition flx4_enqueue_event :: "s3_app \<Rightarrow> flx4_control_event \<Rightarrow> s3_app" where
  "flx4_enqueue_event a ev =
     (if fe_type ev = CTRL_TYPE_BUTTON \<and> control_held_state_key (fe_id ev) (fe_value ev) \<noteq> None
      then a\<lparr>app_held := fst (control_held_state_observe (app_held a) (fe_id ev) (fe_value ev) 0)\<rparr>
      else
        let scheduled = \<lparr>cse_type = fe_type ev, cse_id = fe_id ev, cse_value = fe_value ev\<rparr> in
        if flx4_event_is_high_rate ev
        then a\<lparr>app_sched := fst (control_event_scheduler_publish_continuous (app_sched a) scheduled
               (if flx4_event_is_relative_jog ev then CONTROL_EVENT_ACCUMULATE_DELTA else CONTROL_EVENT_LATEST_VALUE))\<rparr>
        else a\<lparr>app_sched := fst (control_event_scheduler_enqueue_discrete (app_sched a) scheduled)\<rparr>)"

definition flx4_midi_message_cb :: "s3_env \<Rightarrow> flx4_midi_message \<Rightarrow> s3_app \<Rightarrow> s3_app" where
  "flx4_midi_message_cb env msg a =
     (if mm_len msg < 3 then a
      else
        let (a1, mapped) =
          (case env_conn env of
             None \<Rightarrow> (a, None)
           | Some c \<Rightarrow>
               if controller_profile_runtime_bound_to (sl_runtime (app_link a)) (conn_vid c) (conn_pid c) (conn_epoch c)
               then let (rt, ev) = controller_profile_runtime_map (sl_runtime (app_link a))
                                     (mm_status msg) (mm_data1 msg) (mm_data2 msg)
                    in (a\<lparr>app_link := (app_link a)\<lparr>sl_runtime := rt\<rparr>\<rparr>,
                        map_option (\<lambda>e. \<lparr>fe_type = ev_type e, fe_id = ev_id e, fe_value = ev_value e\<rparr>) ev)
               else if conn_vid c = FLX4_USB_VID \<and> conn_pid c = FLX4_USB_PID
               then let (m, ev) = flx4_map_message (app_map a) msg in (a\<lparr>app_map := m\<rparr>, ev)
               else (a, None))
        in case mapped of
             Some ev \<Rightarrow> flx4_enqueue_event a1 ev
           | None \<Rightarrow> a1\<lparr>app_unsupported := app_unsupported a1 + 1\<rparr>)"

section \<open>Scheduling\<close>

fun send_discrete :: "s3_env \<Rightarrow> nat \<Rightarrow> s3_app \<Rightarrow> s3_app" where
  "send_discrete env 0 a = a"
| "send_discrete env (Suc budget) a =
     (case control_event_scheduler_dequeue_discrete (app_sched a) of
        (sched, None) \<Rightarrow> a\<lparr>app_sched := sched\<rparr>
      | (sched, Some ev) \<Rightarrow>
          send_discrete env budget (fst (app_send env (a\<lparr>app_sched := sched\<rparr>) (cse_type ev) (cse_id ev) (cse_value ev))))"

fun send_continuous :: "s3_env \<Rightarrow> nat \<Rightarrow> s3_app \<Rightarrow> s3_app" where
  "send_continuous env 0 a = a"
| "send_continuous env (Suc budget) a =
     (case control_event_scheduler_take_continuous (app_sched a) of
        (sched, None) \<Rightarrow> a\<lparr>app_sched := sched\<rparr>
      | (sched, Some ev) \<Rightarrow>
          send_continuous env budget (fst (app_send env (a\<lparr>app_sched := sched\<rparr>) (cse_type ev) (cse_id ev) (cse_value ev))))"

definition flx4_schedule_pending_events :: "s3_env \<Rightarrow> s3_app \<Rightarrow> s3_app" where
  "flx4_schedule_pending_events env a =
     send_continuous env FLX4_CONTINUOUS_BUDGET (send_discrete env FLX4_DISCRETE_BUDGET (flx4_flush_pending_held_states env a))"

section \<open>Heartbeat and debug access point\<close>

datatype esp_ota_img_state =
  ESP_OTA_IMG_NEW | ESP_OTA_IMG_PENDING_VERIFY | ESP_OTA_IMG_VALID | ESP_OTA_IMG_INVALID | ESP_OTA_IMG_ABORTED
  | ESP_OTA_IMG_UNDEFINED

record firmware_health_info =
  partition_label :: string
  image_state :: esp_ota_img_state
  fh_version :: "u8 list"
  rollback_pending :: bool

definition firmware_report :: "firmware_health_info \<Rightarrow> ctrl_firmware_report" where
  "firmware_report info =
     \<lparr>fw_slot = (if partition_label info = ''ota_0'' then 1 else if partition_label info = ''ota_1'' then 2
                 else if partition_label info = ''factory'' then 3 else 0),
      fw_state = (case image_state info of
         ESP_OTA_IMG_NEW \<Rightarrow> 1 | ESP_OTA_IMG_PENDING_VERIFY \<Rightarrow> 2 | ESP_OTA_IMG_VALID \<Rightarrow> 3
       | ESP_OTA_IMG_INVALID \<Rightarrow> 4 | ESP_OTA_IMG_ABORTED \<Rightarrow> 5 | ESP_OTA_IMG_UNDEFINED \<Rightarrow> 0),
      fw_version = take CTRL_FW_VERSION_MAX (fh_version info)\<rparr>"

definition send_firmware_report :: "s3_env \<Rightarrow> firmware_health_info option \<Rightarrow> s3_app \<Rightarrow> s3_app" where
  "send_firmware_report env info a =
     (case info of None \<Rightarrow> a
      | Some i \<Rightarrow> a\<lparr>app_link := fst (control_link_send_firmware_report env (app_link a) (firmware_report i))\<rparr>)"

text \<open>One round of the heartbeat task; \<open>refreshed\<close> is the answer of \<open>flx4_midi_host_refresh_connection_state\<close>.\<close>

definition heartbeat_round :: "s3_env \<Rightarrow> u64 \<Rightarrow> firmware_health_info option \<Rightarrow> bool \<Rightarrow> s3_app \<Rightarrow> s3_app" where
  "heartbeat_round env time_us info refreshed a =
     (let a1 = send_firmware_report env info (a\<lparr>app_link := control_link_send_heartbeat env time_us (app_link a)\<rparr>)
      in if refreshed then flx4_replay_known_held_snapshot env (flx4_replay_known_input_snapshot env a1) else a1)"

definition s3_debug_ap_status_cb :: "s3_env \<Rightarrow> i16 \<Rightarrow> s3_app \<Rightarrow> s3_app" where
  "s3_debug_ap_status_cb env status a = fst (app_send env a CTRL_TYPE_STATE CTRL_ID_S3_DEBUG_AP status)"

definition s3_debug_ap_token_cb :: "s3_env \<Rightarrow> u32 \<Rightarrow> s3_app \<Rightarrow> s3_app" where
  "s3_debug_ap_token_cb env token a =
     (let a1 = fst (app_send env a CTRL_TYPE_STATE CTRL_ID_S3_DEBUG_TOKEN_HI (ucast (token div 1000)))
      in fst (app_send env a1 CTRL_TYPE_STATE CTRL_ID_S3_DEBUG_TOKEN_LO (ucast (token mod 1000))))"

section \<open>Confirming a new image\<close>

definition boot_health_state_cb :: "u8 \<times> i16 \<Rightarrow> s3_app \<Rightarrow> s3_app" where
  "boot_health_state_cb = (\<lambda>(cid, v) a.
     if cid \<noteq> CTRL_ID_S3_BOOT_ACK then a
     else a\<lparr>app_gate := fst (firmware_boot_gate_observe_p4_ack (app_gate a) v)\<rparr>)"

text \<open>
  What \<open>firmware_health.c\<close> learns of the running image: the running partition, the description of the application
  and the answer of \<open>esp_ota_get_state_partition\<close> with the state it leaves (\<open>ESP_OTA_IMG_UNDEFINED\<close> before the call).
\<close>

record boot_image =
  bi_running :: "string option"
  bi_desc :: "u8 list option"
  bi_state :: "esp_err \<times> esp_ota_img_state"

definition firmware_health_get_info :: "boot_image \<Rightarrow> esp_err + firmware_health_info" where
  "firmware_health_get_info io =
     (case (bi_running io, bi_desc io) of
        (Some label, Some version) \<Rightarrow>
          (case bi_state io of (rc, st) \<Rightarrow>
             if rc \<noteq> ESP_OK \<and> rc \<noteq> ESP_ERR_NOT_FOUND \<and> rc \<noteq> ESP_ERR_NOT_SUPPORTED then Inl rc
             else Inr \<lparr>partition_label = label, image_state = st, fh_version = version,
                       rollback_pending = (st = ESP_OTA_IMG_PENDING_VERIFY)\<rparr>)
      | _ \<Rightarrow> Inl ESP_ERR_NOT_FOUND)"

text \<open>The statics of the module; \<open>fh_marked\<close> records that the boot loader was told to keep the image.\<close>

record firmware_health =
  fh_initialized :: bool
  fh_pending_verify :: bool
  fh_marked :: bool

definition firmware_health_init :: "boot_image \<Rightarrow> firmware_health \<Rightarrow> firmware_health \<times> esp_err" where
  "firmware_health_init io h =
     (case firmware_health_get_info io of
        Inl e \<Rightarrow> (h, e)
      | Inr info \<Rightarrow> (h\<lparr>fh_initialized := True, fh_pending_verify := rollback_pending info\<rparr>, ESP_OK))"

text \<open>\<open>mark\<close> is the answer of \<open>esp_ota_mark_app_valid_cancel_rollback\<close>.\<close>

definition firmware_health_mark_ready :: "boot_image \<Rightarrow> esp_err \<Rightarrow> firmware_health \<Rightarrow> firmware_health \<times> esp_err" where
  "firmware_health_mark_ready io mark h =
     (case (if \<not> fh_initialized h then firmware_health_init io h else (h, ESP_OK)) of
        (h1, rc) \<Rightarrow>
          if rc \<noteq> ESP_OK then (h1, rc)
          else if \<not> fh_pending_verify h1 then (h1, ESP_OK)
          else if mark = ESP_OK then (h1\<lparr>fh_pending_verify := False, fh_marked := True\<rparr>, ESP_OK)
          else (h1, mark))"

datatype boot_result = Returned esp_err | Restarting | Waiting

abbreviation (input) BOOT_TASK_START_TIMEOUT :: u32 where "BOOT_TASK_START_TIMEOUT \<equiv> 3000"
abbreviation (input) BOOT_P4_ACK_TIMEOUT :: u32 where "BOOT_P4_ACK_TIMEOUT \<equiv> 30000"
abbreviation (input) BOOT_P4_RETRY :: u32 where "BOOT_P4_RETRY \<equiv> 500"

text \<open>
  The poll of the task flags: before each poll the receiver may have handled state frames; the poll sees the four
  flags, and the tick counter is read after the delay. Running out of polls is a loop still going on.
\<close>

record task_poll =
  tp_states :: "(u8 \<times> i16) list"
  tp_heartbeat :: bool
  tp_translator :: bool
  tp_link_rx :: bool
  tp_midi_host :: bool
  tp_now :: u32

definition critical_tasks_up :: "task_poll \<Rightarrow> bool" where
  "critical_tasks_up p \<longleftrightarrow> tp_heartbeat p \<and> tp_translator p \<and> tp_link_rx p \<and> tp_midi_host p"

fun wait_for_critical_tasks :: "u32 \<Rightarrow> task_poll list \<Rightarrow> s3_app \<Rightarrow> s3_app \<times> bool option" where
  "wait_for_critical_tasks start [] a = (a, None)"
| "wait_for_critical_tasks start (p # ps) a =
     (let a1 = fold boot_health_state_cb (tp_states p) a
      in if critical_tasks_up p then (a1, Some True)
         else if tp_now p - start < BOOT_TASK_START_TIMEOUT then wait_for_critical_tasks start ps a1
         else (a1, Some False))"

text \<open>
  The retry loop. A poll of the gate comes after the state frames \<open>bp_states\<close>; then the inner loop reads the tick
  counter against the retry interval (\<open>bp_retry\<close>) and the limit (\<open>bp_limit\<close>), and when it ends the outer loop reads
  it once more (\<open>bp_outer\<close>), sends the challenge again and notes the start of the next interval (\<open>bp_resend\<close>).
\<close>

record ack_poll =
  bp_states :: "(u8 \<times> i16) list"
  bp_retry :: u32
  bp_limit :: u32
  bp_outer :: u32
  bp_resend :: u32

fun confirm_polls ::
    "s3_env \<Rightarrow> boot_image \<Rightarrow> esp_err \<Rightarrow> u16 \<Rightarrow> u32 \<Rightarrow> u32 \<Rightarrow> ack_poll list \<Rightarrow> s3_app \<Rightarrow> firmware_health \<Rightarrow>
     s3_app \<times> firmware_health \<times> boot_result" where
  "confirm_polls env io mark c start retry_start [] a h = (a, h, Waiting)"
| "confirm_polls env io mark c start retry_start (p # ps) a h =
     (let a1 = fold boot_health_state_cb (bp_states p) a
      in if firmware_boot_gate_ready (app_gate a1)
         then (case firmware_health_mark_ready io mark h of (h1, rc) \<Rightarrow> (a1, h1, Returned rc))
         else if bp_retry p - retry_start < BOOT_P4_RETRY \<and> bp_limit p - start < BOOT_P4_ACK_TIMEOUT
         then confirm_polls env io mark c start retry_start ps a1 h
         else if bp_outer p - start < BOOT_P4_ACK_TIMEOUT
         then confirm_polls env io mark c start (bp_resend p) ps
                (fst (app_send env a1 CTRL_TYPE_STATE CTRL_ID_S3_BOOT_CHALLENGE c)) h
         else (a1, h, Restarting))"

text \<open>The readings of the tick counter before the first polls: at the two starts and at the first test of the outer loop.\<close>

record confirm_ticks =
  ct_task_start :: u32
  ct_start :: u32
  ct_first :: u32
  ct_resend :: u32

definition confirm_pending_image_with_p4 ::
    "s3_env \<Rightarrow> boot_image \<Rightarrow> esp_err \<Rightarrow> confirm_ticks \<Rightarrow> task_poll list \<Rightarrow> ack_poll list \<Rightarrow> s3_app \<Rightarrow> firmware_health \<Rightarrow>
     s3_app \<times> firmware_health \<times> boot_result" where
  "confirm_pending_image_with_p4 env io mark t waits polls a h =
     (case firmware_health_get_info io of
        Inl e \<Rightarrow> (a, h, Returned e)
      | Inr info \<Rightarrow>
          if \<not> rollback_pending info
          then (case firmware_health_mark_ready io mark h of (h1, rc) \<Rightarrow> (a, h1, Returned rc))
          else case wait_for_critical_tasks (ct_task_start t) waits a of
            (a1, None) \<Rightarrow> (a1, h, Waiting)
          | (a1, Some False) \<Rightarrow> (a1, h, Restarting)
          | (a1, Some True) \<Rightarrow>
              (let a2 = a1\<lparr>app_gate := firmware_boot_gate_set_critical_tasks_alive (app_gate a1) True\<rparr>;
                   c = challenge (app_gate a2)
               in if ct_first t - ct_start t < BOOT_P4_ACK_TIMEOUT
                  then confirm_polls env io mark c (ct_start t) (ct_resend t) polls
                         (fst (app_send env a2 CTRL_TYPE_STATE CTRL_ID_S3_BOOT_CHALLENGE c)) h
                  else (a2, h, Restarting)))"

section \<open>Start-up\<close>

definition app_main :: "u16 \<Rightarrow> profile_runtime \<Rightarrow> s3_app" where
  "app_main random rt =
     \<lparr>app_link = control_link_init True True (controller_profile_runtime_init rt), app_sched = control_event_scheduler_reset,
      app_map = flx4_map_init, app_held = control_held_state_reset, app_unsupported = 0,
      app_gate = firmware_boot_gate_init random, app_sent = []\<rparr>"

text \<open>
  The boot of the image: the health module first, the confirmation last; \<open>ESP_ERROR_CHECK\<close> restarts the board
  (\<open>Restarting\<close>) on any error. \<open>at_init\<close> and \<open>at_end\<close> are the answers the two inspections of the image get.
\<close>

definition app_main_boot ::
    "s3_env \<Rightarrow> boot_image \<Rightarrow> boot_image \<Rightarrow> esp_err \<Rightarrow> confirm_ticks \<Rightarrow> task_poll list \<Rightarrow> ack_poll list \<Rightarrow> u16 \<Rightarrow> profile_runtime \<Rightarrow>
     s3_app \<times> firmware_health \<times> boot_result" where
  "app_main_boot env at_init at_end mark t waits polls random rt =
     (case firmware_health_init at_init \<lparr>fh_initialized = False, fh_pending_verify = False, fh_marked = False\<rparr> of
        (h, rc) \<Rightarrow>
          if rc \<noteq> ESP_OK then (app_main random rt, h, Restarting)
          else case confirm_pending_image_with_p4 env at_end mark t waits polls (app_main random rt) h of
            (a1, h1, Returned rc1) \<Rightarrow> (a1, h1, if rc1 = ESP_OK then Returned ESP_OK else Restarting)
          | r \<Rightarrow> r)"

section \<open>Sending\<close>

lemma app_send_keeps [simp]:
  "app_sched (fst (app_send env a ty cid v)) = app_sched a"
  "app_map (fst (app_send env a ty cid v)) = app_map a"
  "app_held (fst (app_send env a ty cid v)) = app_held a"
  "app_gate (fst (app_send env a ty cid v)) = app_gate a"
  "sl_runtime (app_link (fst (app_send env a ty cid v))) = sl_runtime (app_link a)"
  "app_sent (fst (app_send env a ty cid v)) = app_sent a @ (if snd (app_send env a ty cid v) then [(ty, cid, v)] else [])"
  by (simp_all add: app_send_def control_link_send_semantic_def send_fixed_frame_def split_beta)

text \<open>A UART that takes every frame.\<close>

definition uart_ok :: "s3_env \<Rightarrow> bool" where
  "uart_ok env \<longleftrightarrow> env_lock env \<and> (\<forall>wire f. env_write env wire f = int (length f))"

lemma app_send_ok: "uart_ok env \<Longrightarrow> snd (app_send env a ty cid v)"
  by (simp add: app_send_def control_link_send_semantic_def send_fixed_frame_def tx_send_def
      control_link_tx_serializer_send_def build_fixed_frame_def uart_ok_def Let_def)

definition sends_level :: "nat \<Rightarrow> u8 \<times> u8 \<times> i16 \<Rightarrow> bool" where
  "sends_level k = (\<lambda>(ty, cid, v). ty = CTRL_TYPE_BUTTON \<and> control_held_state_key cid v = Some k)"

text \<open>The level of held control \<open>k\<close> that was last put on the wire.\<close>

definition sent_level :: "nat \<Rightarrow> (u8 \<times> u8 \<times> i16) list \<Rightarrow> i16 option" where
  "sent_level k sent = foldl (\<lambda>l m. if sends_level k m then Some (snd (snd m)) else l) None sent"

lemma sent_level_snoc [simp]:
  "sent_level k (sent @ [m]) = (if sends_level k m then Some (snd (snd m)) else sent_level k sent)" "sent_level k [] = None"
  by (simp_all add: sent_level_def)

definition app_frame :: "nat \<Rightarrow> s3_app \<Rightarrow> s3_app \<Rightarrow> bool" where
  "app_frame n a b \<longleftrightarrow> app_sched b = app_sched a \<and> app_map b = app_map a \<and>
     sl_runtime (app_link b) = sl_runtime (app_link a)"

text \<open>The link is a stage in the sense of \<open>held_flush\<close>.\<close>

interpretation s3_held: held_flush app_held "\<lambda>a h. a\<lparr>app_held := h\<rparr>" "\<lambda>a cid v sq. app_send env a CTRL_TYPE_BUTTON cid v"
    "\<lambda>a k. sent_level k (app_sent a)" "\<lambda>a. uart_ok env" app_frame "flx4_flush_held_from env" for env
proof (unfold_locales, goal_cases)
  case (1 cursor s)
  show ?case by (subst flx4_flush_held_from.simps) simp
qed (auto simp: app_frame_def app_send_ok sends_level_def)

section \<open>Invariant\<close>

definition quiet_event :: "control_scheduled_event \<Rightarrow> bool" where
  "quiet_event ev \<longleftrightarrow> (cse_type ev = CTRL_TYPE_BUTTON \<longrightarrow> control_held_state_key (cse_id ev) (cse_value ev) = None)"

text \<open>
  Held levels travel only through the reconciler: the scheduler holds none of them.  No profile is active, so the
  built-in map translates.
\<close>

definition sched_quiet :: "control_event_scheduler \<Rightarrow> bool" where
  "sched_quiet s \<longleftrightarrow> sched_inv s \<and> (\<forall>ev \<in> set (fifo_contents s). quiet_event ev) \<and>
     (\<forall>cid. pending_map s (CTRL_TYPE_BUTTON, cid) = None)"

definition app_inv :: "s3_app \<Rightarrow> bool" where
  "app_inv a \<longleftrightarrow> held_view (app_held a) (\<lambda>k. sent_level k (app_sent a)) \<and> \<not> s_active (sl_runtime (app_link a)) \<and>
     sched_quiet (app_sched a)"

lemma app_inv_cong:
  assumes "app_inv a" "app_held b = app_held a" "app_sched b = app_sched a" "sl_runtime (app_link b) = sl_runtime (app_link a)"
    "\<And>k. sent_level k (app_sent b) = sent_level k (app_sent a)"
  shows "app_inv b"
  using assms by (simp add: app_inv_def)

lemma app_inv_sched: "app_inv a \<Longrightarrow> sched_quiet s \<Longrightarrow> app_inv (a\<lparr>app_sched := s\<rparr>)"
  by (simp add: app_inv_def)

lemma send_quiet_inv:
  assumes "app_inv a" "\<And>k. \<not> sends_level k (ty, cid, v)"
  shows "app_inv (fst (app_send env a ty cid v))"
  by (rule app_inv_cong [OF assms(1)]) (use assms(2) in auto)

lemma sched_quiet_reset: "sched_quiet control_event_scheduler_reset"
  using sched_inv_reset pending_map_reset
  by (auto simp: sched_quiet_def fifo_contents_def control_event_scheduler_reset_def)

lemma sched_quiet_enqueue:
  assumes "sched_quiet s" "quiet_event ev"
  shows "sched_quiet (fst (control_event_scheduler_enqueue_discrete s ev))"
proof -
  have s: "sched_inv s" "fifo_inv s" using assms(1) by (auto simp: sched_quiet_def sched_inv_def)
  have "fifo_contents (fst (control_event_scheduler_enqueue_discrete s ev)) \<in> {fifo_contents s, fifo_contents s @ [ev]}"
    using enqueue_room [OF s(2), of ev] enqueue_full [of s ev] by (cases "length (fifo_contents s) < 32") auto
  then show ?thesis
    using assms sched_inv_discrete(1) [OF s(1)] by (auto simp: sched_quiet_def pending_map_def)
qed

lemma sched_quiet_dequeue:
  assumes "sched_quiet s" "control_event_scheduler_dequeue_discrete s = (t, e)"
  shows "sched_quiet t" "e = Some ev \<Longrightarrow> quiet_event ev"
proof -
  have s: "sched_inv s" "fifo_inv s" using assms(1) by (auto simp: sched_quiet_def sched_inv_def)
  have c: "fifo_contents s = (case e of None \<Rightarrow> [] | Some e \<Rightarrow> [e]) @ fifo_contents t"
    using dequeue_contents [OF s(2)] assms(2) by simp
  then show "e = Some ev \<Longrightarrow> quiet_event ev" using assms(1) by (auto simp: sched_quiet_def)
  have "continuous t = continuous s" using dequeue_slots(1) [of s] assms(2) by simp
  then show "sched_quiet t"
    using assms(1) sched_inv_discrete(2) [OF s(1)] assms(2) c by (auto simp: sched_quiet_def pending_map_def)
qed

lemma sched_quiet_publish:
  assumes "sched_quiet s" "cse_type ev \<noteq> CTRL_TYPE_BUTTON"
  shows "sched_quiet (fst (control_event_scheduler_publish_continuous s ev mode))"
proof -
  have s: "sched_inv s" using assms(1) by (simp add: sched_quiet_def)
  obtain t ok where t: "control_event_scheduler_publish_continuous s ev mode = (t, ok)" by fastforce
  have f: "fifo_contents t = fifo_contents s"
    using t by (auto simp: sched_defs fifo_contents_def Let_def split: option.splits if_splits control_event_continuous_mode.splits)
  have "pending_map t (CTRL_TYPE_BUTTON, cid) = pending_map s (CTRL_TYPE_BUTTON, cid)" for cid
    using publish_pending [OF s, of ev mode t] publish_refused(1) [OF s, of ev mode t] t assms(2)
    by (cases ok) (auto simp: event_key_def pending_map_def)
  then show ?thesis using assms(1) sched_inv_publish [OF s, of ev mode] f t by (simp add: sched_quiet_def)
qed

lemma sched_quiet_take:
  assumes "sched_quiet s" "control_event_scheduler_take_continuous s = (t, e)"
  shows "sched_quiet t" "e = Some ev \<Longrightarrow> cse_type ev \<noteq> CTRL_TYPE_BUTTON"
proof -
  have s: "sched_inv s" using assms(1) by (simp add: sched_quiet_def)
  have f: "fifo_contents t = fifo_contents s" using assms(2) by (auto simp: sched_defs fifo_contents_def split: option.splits)
  have i: "sched_inv t" using sched_inv_take [OF s] assms(2) by simp
  have none: "e = None \<Longrightarrow> t = s" using assms(2) by (auto simp: sched_defs split: option.splits)
  show "e = Some ev \<Longrightarrow> cse_type ev \<noteq> CTRL_TYPE_BUTTON"
    using take_pending(1) [OF s, of t ev] assms by (auto simp: sched_quiet_def event_key_def)
  have "pending_map t (CTRL_TYPE_BUTTON, cid) = None" for cid
    using take_pending(2) [OF s] none assms by (cases e) (auto simp: sched_quiet_def)
  then show "sched_quiet t" using assms(1) i f by (simp add: sched_quiet_def)
qed

section \<open>Steps\<close>

lemma flush_step_inv:
  assumes "app_inv a"
  shows "app_inv (flx4_flush_pending_held_states env a)"
    "held_wanted (app_held (flx4_flush_pending_held_states env a)) = held_wanted (app_held a)"
    "uart_ok env \<Longrightarrow> held_clean (app_held (flx4_flush_pending_held_states env a)) CONTROL_HELD_STATE_COUNT"
proof -
  obtain b ok where b: "flx4_flush_held_from env 0 a = (b, ok)" by fastforce
  have "held_view (app_held a) (\<lambda>k. sent_level k (app_sent a))" using assms by (simp add: app_inv_def)
  note f = s3_held.flush_ok [OF this, of 0 env, unfolded b prod.case]
  have c: "held_clean (app_held a) 0" by (simp add: held_clean_def)
  show "app_inv (flx4_flush_pending_held_states env a)"
    using f c assms by (auto simp: flx4_flush_pending_held_states_def b app_inv_def app_frame_def)
  show "held_wanted (app_held (flx4_flush_pending_held_states env a)) = held_wanted (app_held a)"
    "uart_ok env \<Longrightarrow> held_clean (app_held (flx4_flush_pending_held_states env a)) CONTROL_HELD_STATE_COUNT"
    using f c by (auto simp: flx4_flush_pending_held_states_def b)
qed

lemma send_discrete_inv:
  "app_inv a \<Longrightarrow> app_inv (send_discrete env n a) \<and> app_held (send_discrete env n a) = app_held a"
proof (induction n arbitrary: a)
  case (Suc n)
  obtain s e where s: "control_event_scheduler_dequeue_discrete (app_sched a) = (s, e)" by fastforce
  have q: "sched_quiet (app_sched a)" using Suc.prems by (simp add: app_inv_def)
  note d = sched_quiet_dequeue [OF q s]
  have i: "app_inv (a\<lparr>app_sched := s\<rparr>)" by (rule app_inv_sched [OF Suc.prems d(1)])
  show ?case
  proof (cases e)
    case None
    then show ?thesis using i by (simp add: s)
  next
    case (Some ev)
    have "app_inv (fst (app_send env (a\<lparr>app_sched := s\<rparr>) (cse_type ev) (cse_id ev) (cse_value ev)))"
      by (rule send_quiet_inv [OF i]) (use d(2) [OF Some] in \<open>auto simp: sends_level_def quiet_event_def\<close>)
    from Suc.IH [OF this] show ?thesis by (simp add: s Some)
  qed
qed simp

lemma send_continuous_inv:
  "app_inv a \<Longrightarrow> app_inv (send_continuous env n a) \<and> app_held (send_continuous env n a) = app_held a"
proof (induction n arbitrary: a)
  case (Suc n)
  obtain s e where s: "control_event_scheduler_take_continuous (app_sched a) = (s, e)" by fastforce
  have q: "sched_quiet (app_sched a)" using Suc.prems by (simp add: app_inv_def)
  note d = sched_quiet_take [OF q s]
  have i: "app_inv (a\<lparr>app_sched := s\<rparr>)" by (rule app_inv_sched [OF Suc.prems d(1)])
  show ?case
  proof (cases e)
    case None
    then show ?thesis using i by (simp add: s)
  next
    case (Some ev)
    have "app_inv (fst (app_send env (a\<lparr>app_sched := s\<rparr>) (cse_type ev) (cse_id ev) (cse_value ev)))"
      by (rule send_quiet_inv [OF i]) (use d(2) [OF Some] in \<open>auto simp: sends_level_def\<close>)
    from Suc.IH [OF this] show ?thesis by (simp add: s Some)
  qed
qed simp

lemma schedule_inv:
  assumes "app_inv a"
  shows "app_inv (flx4_schedule_pending_events env a)"
    "held_wanted (app_held (flx4_schedule_pending_events env a)) = held_wanted (app_held a)"
    "uart_ok env \<Longrightarrow> held_clean (app_held (flx4_schedule_pending_events env a)) CONTROL_HELD_STATE_COUNT"
proof -
  note f = flush_step_inv [OF assms, of env]
  note d = send_discrete_inv [OF f(1), of env FLX4_DISCRETE_BUDGET]
  note c = send_continuous_inv [OF conjunct1 [OF d], of env FLX4_CONTINUOUS_BUDGET]
  show "app_inv (flx4_schedule_pending_events env a)"
    "held_wanted (app_held (flx4_schedule_pending_events env a)) = held_wanted (app_held a)"
    "uart_ok env \<Longrightarrow> held_clean (app_held (flx4_schedule_pending_events env a)) CONTROL_HELD_STATE_COUNT"
    using c d f by (auto simp: flx4_schedule_pending_events_def)
qed

lemma next_observed_found:
  assumes "control_held_state_next_observed h cursor = (cursor', Some (cid, v))" "held_inv h"
  obtains k where "k < CONTROL_HELD_STATE_COUNT" "observed (h ! k)" "control_held_state_key cid v = Some k"
    "v = desired_value (h ! k)"
proof -
  obtain k where k: "find (\<lambda>i. observed (h ! i)) [cursor..<CONTROL_HELD_STATE_COUNT] = Some k"
      "cid = held_id (h ! k)" "v = desired_value (h ! k)"
    using assms(1) by (auto simp: control_held_state_next_observed_def next_from_def split: option.splits)
  then have "k < CONTROL_HELD_STATE_COUNT" "observed (h ! k)" by (auto simp: find_Some_iff)
  then show thesis using that assms(2) k(2,3) by (auto simp: held_inv_def held_slot_ok_def)
qed

lemma replay_held_inv:
  "app_inv a \<Longrightarrow> app_inv (flx4_replay_held_from env cursor a) \<and>
     held_wanted (app_held (flx4_replay_held_from env cursor a)) = held_wanted (app_held a)"
proof (induction "CONTROL_HELD_STATE_COUNT - cursor" arbitrary: cursor a rule: less_induct)
  case less
  obtain cursor' found where n: "control_held_state_next_observed (app_held a) cursor = (cursor', found)" by fastforce
  have v: "held_view (app_held a) (\<lambda>k. sent_level k (app_sent a))" using less.prems by (simp add: app_inv_def)
  show ?case
  proof (cases found)
    case None
    then show ?thesis using less.prems n by (simp add: flx4_replay_held_from.simps [of env cursor a])
  next
    case (Some item)
    obtain cid w where item: "item = (cid, w)" by (cases item)
    note n = n [unfolded Some item]
    obtain k where k: "k < CONTROL_HELD_STATE_COUNT" "observed (app_held a ! k)" "control_held_state_key cid w = Some k"
      by (rule next_observed_found [OF n]) (use held_viewD [OF v] in auto)
    let ?b = "fst (app_send env a CTRL_TYPE_BUTTON cid w)"
    show ?thesis
    proof (cases "snd (app_send env a CTRL_TYPE_BUTTON cid w)")
      case False
      have "app_inv ?b" by (rule app_inv_cong [OF less.prems]) (use False in auto)
      with False n show ?thesis by (simp add: flx4_replay_held_from.simps [of env cursor a] split_beta)
    next
      case True
      let ?h = "control_held_state_mark_scheduled (app_held a) (int k) w"
      let ?c = "?b\<lparr>app_held := ?h\<rparr>"
      have "held_view ?h (\<lambda>j. sent_level j (app_sent ?b))"
        by (rule held_view_mark [OF v k(1,2)]) (use True k(3) in \<open>auto simp: sends_level_def\<close>)
      then have c: "app_inv ?c" using less.prems by (simp add: app_inv_def)
      have "length (app_held a) = CONTROL_HELD_STATE_COUNT" using held_viewD [OF v] by simp
      then have w: "held_wanted ?h = held_wanted (app_held a)" by (rule mark_fields(3) [OF k(1)])
      have step: "flx4_replay_held_from env cursor a = flx4_replay_held_from env cursor' ?c"
        using n True k(3) by (simp add: flx4_replay_held_from.simps [of env cursor a] split_beta)
      have "CONTROL_HELD_STATE_COUNT - cursor' < CONTROL_HELD_STATE_COUNT - cursor"
        by (rule next_observed_measure [OF n [symmetric]])
      from less.hyps [OF this c] show ?thesis unfolding step using w by simp
    qed
  qed
qed

lemma snapshot_event_inv:
  assumes "app_inv a"
  shows "app_inv (fst (flx4_send_snapshot_event env a CTRL_TYPE_PITCH cid v))"
    "app_held (fst (flx4_send_snapshot_event env a CTRL_TYPE_PITCH cid v)) = app_held a"
  using send_quiet_inv [OF assms, of CTRL_TYPE_PITCH cid v env] by (auto simp: flx4_send_snapshot_event_def sends_level_def)

lemma emit_slots_inv:
  "app_inv a \<Longrightarrow> app_inv (fst (emit_slots (flx4_send_snapshot_event env) slots a n)) \<and>
     app_held (fst (emit_slots (flx4_send_snapshot_event env) slots a n)) = app_held a"
proof (induction slots arbitrary: a n)
  case (Cons p slots)
  obtain slot cid where p: "p = (slot, cid)" by (cases p)
  show ?case
    using Cons.IH Cons.prems snapshot_event_inv [OF Cons.prems]
    by (auto simp: p emit_snapshot_14bit_def split_beta split: option.splits)
qed simp

lemma replay_input_inv:
  assumes "app_inv a"
  shows "app_inv (flx4_replay_known_input_snapshot env a)"
    "app_held (flx4_replay_known_input_snapshot env a) = app_held a"
proof -
  have n: "\<not> controller_profile_runtime_bound_to (sl_runtime (app_link a)) vid pid epoch" for vid pid epoch
    using assms by (simp add: app_inv_def controller_profile_runtime_bound_to_def)
  have "app_inv (fst (flx4_map_emit_snapshot m (flx4_send_snapshot_event env) a)) \<and>
     app_held (fst (flx4_map_emit_snapshot m (flx4_send_snapshot_event env) a)) = app_held a" for m
    using emit_slots_inv [OF assms, of env "snapshot_slots m" 0] snapshot_event_inv
    by (auto simp: flx4_map_emit_snapshot_def split_beta)
  then show "app_inv (flx4_replay_known_input_snapshot env a)"
    "app_held (flx4_replay_known_input_snapshot env a) = app_held a"
    using assms n by (auto simp: flx4_replay_known_input_snapshot_def split: option.splits)
qed

text \<open>The event the built-in map makes of a message.\<close>

definition midi_event :: "s3_env \<Rightarrow> flx4_midi_message \<Rightarrow> s3_app \<Rightarrow> flx4_control_event option" where
  "midi_event env msg a =
     (case env_conn env of
        None \<Rightarrow> None
      | Some c \<Rightarrow> if mm_len msg < 3 \<or> conn_vid c \<noteq> FLX4_USB_VID \<or> conn_pid c \<noteq> FLX4_USB_PID then None
                  else snd (flx4_map_message (app_map a) msg))"

definition observe_want :: "nat \<Rightarrow> flx4_control_event option \<Rightarrow> (u8 \<times> i16) option \<Rightarrow> (u8 \<times> i16) option" where
  "observe_want k e w =
     (case e of None \<Rightarrow> w
      | Some ev \<Rightarrow> if sends_level k (fe_type ev, fe_id ev, fe_value ev) then Some (fe_id ev, fe_value ev) else w)"

lemma enqueue_event_inv:
  assumes "app_inv a"
  shows "app_inv (flx4_enqueue_event a ev)"
    "held_wanted (app_held (flx4_enqueue_event a ev)) k = observe_want k (Some ev) (held_wanted (app_held a) k)"
proof -
  have v: "held_view (app_held a) (\<lambda>k. sent_level k (app_sent a))" and q: "sched_quiet (app_sched a)"
    using assms by (auto simp: app_inv_def)
  let ?ev = "\<lparr>cse_type = fe_type ev, cse_id = fe_id ev, cse_value = fe_value ev\<rparr>"
  have "app_inv (flx4_enqueue_event a ev) \<and>
    held_wanted (app_held (flx4_enqueue_event a ev)) k = observe_want k (Some ev) (held_wanted (app_held a) k)"
  proof (cases "fe_type ev = CTRL_TYPE_BUTTON \<and> control_held_state_key (fe_id ev) (fe_value ev) \<noteq> None")
    case True
    then obtain j where j: "control_held_state_key (fe_id ev) (fe_value ev) = Some j" by auto
    note o = held_view_observe [OF v j]
    show ?thesis
      using True assms o(1,2,5) j
      by (auto simp: flx4_enqueue_event_def app_inv_def observe_want_def sends_level_def)
  next
    case False
    then have n: "observe_want k (Some ev) w = w" for w by (auto simp: observe_want_def sends_level_def)
    have "quiet_event ?ev" using False by (auto simp: quiet_event_def)
    then have e: "sched_quiet (fst (control_event_scheduler_enqueue_discrete (app_sched a) ?ev))"
      by (rule sched_quiet_enqueue [OF q])
    have "flx4_event_is_high_rate ev \<Longrightarrow> cse_type ?ev \<noteq> CTRL_TYPE_BUTTON"
      by (auto simp: flx4_event_is_high_rate_def split: if_splits)
    then have p: "flx4_event_is_high_rate ev \<Longrightarrow>
        sched_quiet (fst (control_event_scheduler_publish_continuous (app_sched a) ?ev mode))" for mode
      using sched_quiet_publish [OF q] by blast
    show ?thesis
      unfolding flx4_enqueue_event_def if_not_P [OF False] Let_def using n e p app_inv_sched [OF assms] by simp
  qed
  then show "app_inv (flx4_enqueue_event a ev)"
    "held_wanted (app_held (flx4_enqueue_event a ev)) k = observe_want k (Some ev) (held_wanted (app_held a) k)" by auto
qed

lemma midi_inv:
  assumes "app_inv a"
  shows "app_inv (flx4_midi_message_cb env msg a)"
    "held_wanted (app_held (flx4_midi_message_cb env msg a)) k =
       observe_want k (midi_event env msg a) (held_wanted (app_held a) k)"
proof -
  have n: "\<not> controller_profile_runtime_bound_to (sl_runtime (app_link a)) vid pid epoch" for vid pid epoch
    using assms by (simp add: app_inv_def controller_profile_runtime_bound_to_def)
  have m: "app_inv (a\<lparr>app_map := x\<rparr>)" "app_inv (a\<lparr>app_unsupported := y\<rparr>)"
    "app_inv (a\<lparr>app_map := x, app_unsupported := y\<rparr>)" for x y
    using assms by (auto intro: app_inv_cong [OF assms])
  have c: "flx4_midi_message_cb env msg a =
     (if mm_len msg < 3 then a
      else case midi_event env msg a of
        Some ev \<Rightarrow> flx4_enqueue_event (a\<lparr>app_map := fst (flx4_map_message (app_map a) msg)\<rparr>) ev
      | None \<Rightarrow> if (\<exists>c. env_conn env = Some c \<and> conn_vid c = FLX4_USB_VID \<and> conn_pid c = FLX4_USB_PID)
                then a\<lparr>app_map := fst (flx4_map_message (app_map a) msg), app_unsupported := app_unsupported a + 1\<rparr>
                else a\<lparr>app_unsupported := app_unsupported a + 1\<rparr>)"
    using n by (auto simp: flx4_midi_message_cb_def midi_event_def split_beta split: option.splits)
  have o: "observe_want k None w = w" for w by (simp add: observe_want_def)
  have s: "mm_len msg < 3 \<Longrightarrow> midi_event env msg a = None" by (simp add: midi_event_def split: option.splits)
  show "app_inv (flx4_midi_message_cb env msg a)"
    unfolding c using assms m enqueue_event_inv(1) [OF m(1)] by (auto split: option.splits)
  show "held_wanted (app_held (flx4_midi_message_cb env msg a)) k =
       observe_want k (midi_event env msg a) (held_wanted (app_held a) k)"
    unfolding c using s o enqueue_event_inv(2) [OF m(1), of "fst (flx4_map_message (app_map a) msg)"] by (auto split: option.splits)
qed

lemma connection_inv:
  assumes "app_inv a"
  shows "app_inv (flx4_controller_connection_cb env up a)"
    "k < CONTROL_HELD_STATE_COUNT \<Longrightarrow> held_wanted (app_held (flx4_controller_connection_cb env up a)) k =
       (if up then held_wanted (app_held a) k else released (held_wanted (app_held a) k))"
proof -
  note i = replay_input_inv [OF assms, of env]
  note r = replay_held_inv [OF i(1), of env 0]
  have v: "held_view (app_held a) (\<lambda>k. sent_level k (app_sent a))" using assms by (simp add: app_inv_def)
  note rel = held_view_release [OF v]
  show "app_inv (flx4_controller_connection_cb env up a)"
    using r rel(1) sched_quiet_reset
    by (auto simp: flx4_controller_connection_cb_def flx4_replay_known_held_snapshot_def app_inv_def
        controller_profile_runtime_clear_def)
  show "held_wanted (app_held (flx4_controller_connection_cb env up a)) k =
       (if up then held_wanted (app_held a) k else released (held_wanted (app_held a) k))"
    if "k < CONTROL_HELD_STATE_COUNT"
    using r i(2) rel(2) [OF that] by (auto simp: flx4_controller_connection_cb_def flx4_replay_known_held_snapshot_def)
qed

lemma link_sends_keep_runtime [simp]:
  "sl_runtime (control_link_send_heartbeat env t l) = sl_runtime l"
  "sl_runtime (fst (control_link_send_firmware_report env l r)) = sl_runtime l"
  by (simp_all add: control_link_send_heartbeat_def control_link_send_firmware_report_def send_fixed_frame_def Let_def)

lemma heartbeat_inv:
  assumes "app_inv a"
  shows "app_inv (heartbeat_round env t info refreshed a)"
    "held_wanted (app_held (heartbeat_round env t info refreshed a)) = held_wanted (app_held a)"
proof -
  let ?b = "send_firmware_report env info (a\<lparr>app_link := control_link_send_heartbeat env t (app_link a)\<rparr>)"
  have b: "app_inv ?b" "app_held ?b = app_held a"
    by (auto simp: send_firmware_report_def split: option.splits intro!: app_inv_cong [OF assms])
  note i = replay_input_inv [OF b(1), of env]
  note r = replay_held_inv [OF i(1), of env 0]
  show "app_inv (heartbeat_round env t info refreshed a)"
    "held_wanted (app_held (heartbeat_round env t info refreshed a)) = held_wanted (app_held a)"
    using b i r by (auto simp: heartbeat_round_def Let_def flx4_replay_known_held_snapshot_def)
qed

section \<open>Runs\<close>

datatype app_op =
  Midi flx4_midi_message | Connection bool | Schedule | Heartbeat u64 "firmware_health_info option" bool

fun app_step :: "s3_env \<Rightarrow> app_op \<Rightarrow> s3_app \<Rightarrow> s3_app" where
  "app_step env (Midi msg) a = flx4_midi_message_cb env msg a"
| "app_step env (Connection up) a = flx4_controller_connection_cb env up a"
| "app_step env Schedule a = flx4_schedule_pending_events env a"
| "app_step env (Heartbeat t info refreshed) a = heartbeat_round env t info refreshed a"

fun app_run :: "(s3_env \<times> app_op) list \<Rightarrow> s3_app \<Rightarrow> s3_app" where
  "app_run [] a = a"
| "app_run ((env, op) # ops) a = app_run ops (app_step env op a)"

text \<open>
  The level of held control \<open>k\<close> that the messages of a run report last; unplugging the controller releases it.
\<close>

definition want_step :: "nat \<Rightarrow> s3_env \<Rightarrow> app_op \<Rightarrow> s3_app \<Rightarrow> (u8 \<times> i16) option \<Rightarrow> (u8 \<times> i16) option" where
  "want_step k env op a w =
     (case op of Midi msg \<Rightarrow> observe_want k (midi_event env msg a) w
      | Connection up \<Rightarrow> (if up then w else released w)
      | _ \<Rightarrow> w)"

fun reported_level :: "nat \<Rightarrow> (s3_env \<times> app_op) list \<Rightarrow> s3_app \<Rightarrow> (u8 \<times> i16) option \<Rightarrow> (u8 \<times> i16) option" where
  "reported_level k [] a w = w"
| "reported_level k ((env, op) # ops) a w = reported_level k ops (app_step env op a) (want_step k env op a w)"

lemma app_step_inv:
  assumes "app_inv a" "k < CONTROL_HELD_STATE_COUNT"
  shows "app_inv (app_step env op a)"
    "held_wanted (app_held (app_step env op a)) k = want_step k env op a (held_wanted (app_held a) k)"
  using midi_inv [OF assms(1)] connection_inv [OF assms(1)] schedule_inv [OF assms(1)] heartbeat_inv [OF assms(1)] assms(2)
  by (cases op; simp add: want_step_def)+

lemma app_run_inv:
  assumes "app_inv a" "k < CONTROL_HELD_STATE_COUNT"
  shows "app_inv (app_run ops a) \<and>
     held_wanted (app_held (app_run ops a)) k = reported_level k ops a (held_wanted (app_held a) k)"
  using assms(1)
proof (induction ops arbitrary: a)
  case (Cons p ops)
  obtain env op where p: "p = (env, op)" by (cases p)
  note s = app_step_inv [OF Cons.prems assms(2), of env op]
  show ?case using Cons.IH [OF s(1)] s(2) by (simp add: p)
qed simp

lemma app_main_inv: "app_inv (app_main r rt)" "app_held (app_main r rt) = control_held_state_reset"
  using held_view_reset sched_quiet_reset
  by (simp_all add: app_inv_def app_main_def control_link_init_def controller_profile_runtime_init_def)

lemma fold_boot_cb:
  "critical_tasks_alive (app_gate a) \<Longrightarrow>
   app_gate (fold boot_health_state_cb states a) = (app_gate a)\<lparr>p4_acknowledged :=
     (p4_acknowledged (app_gate a) \<or> (CTRL_ID_S3_BOOT_ACK, challenge (app_gate a)) \<in> set states)\<rparr>"
proof (induction states arbitrary: a)
  case (Cons st states)
  obtain cid v where st: "st = (cid, v)" by (cases st)
  have g: "critical_tasks_alive (app_gate (boot_health_state_cb st a))" "challenge (app_gate (boot_health_state_cb st a)) = challenge (app_gate a)"
    "p4_acknowledged (app_gate (boot_health_state_cb st a)) \<longleftrightarrow>
       p4_acknowledged (app_gate a) \<or> st = (CTRL_ID_S3_BOOT_ACK, challenge (app_gate a))"
    using Cons.prems by (auto simp: st boot_health_state_cb_def firmware_boot_gate_observe_p4_ack_def)
  from Cons.IH [OF g(1)] g Cons.prems show ?case
    by (cases "app_gate a"; cases "app_gate (boot_health_state_cb st a)") auto
qed (cases "app_gate a"; simp)

lemma get_info_error [simp]: "firmware_health_get_info io \<noteq> Inl ESP_OK"
  by (simp add: firmware_health_get_info_def split: option.splits prod.splits)

lemma fold_boot_cb_early:
  "\<not> critical_tasks_alive (app_gate a) \<Longrightarrow> app_gate (fold boot_health_state_cb states a) = app_gate a"
  by (induction states arbitrary: a)
    (auto simp: boot_health_state_cb_def firmware_boot_gate_observe_p4_ack_def split: prod.splits if_splits)

text \<open>While the tasks are awaited every answer is ignored.\<close>

lemma wait_gate:
  "\<not> critical_tasks_alive (app_gate a) \<Longrightarrow> app_gate (fst (wait_for_critical_tasks start ps a)) = app_gate a"
  by (induction ps arbitrary: a) (simp_all add: Let_def fold_boot_cb_early)

lemma wait_up: "snd (wait_for_critical_tasks start ps a) = Some True \<Longrightarrow> \<exists>p\<in>set ps. critical_tasks_up p"
  by (induction ps arbitrary: a) (auto simp: Let_def split: if_splits)

lemma wait_enough:
  "\<lbrakk>k < length ps; critical_tasks_up (ps ! k); \<forall>i<k. tp_now (ps ! i) - start < BOOT_TASK_START_TIMEOUT\<rbrakk> \<Longrightarrow>
   snd (wait_for_critical_tasks start ps a) = Some True"
proof (induction ps arbitrary: a k)
  case (Cons p ps)
  show ?case
  proof (cases k)
    case (Suc j)
    have "snd (wait_for_critical_tasks start ps (fold boot_health_state_cb (tp_states p) a)) = Some True"
      using Cons.prems by (intro Cons.IH [of j]) (auto simp: Suc)
    then show ?thesis using Cons.prems(3) by (auto simp: Let_def Suc)
  qed (use Cons.prems(2) in \<open>simp add: Let_def\<close>)
qed simp

definition gate_waits :: "u16 \<Rightarrow> s3_app \<Rightarrow> bool" where
  "gate_waits c a \<longleftrightarrow> critical_tasks_alive (app_gate a) \<and> \<not> p4_acknowledged (app_gate a) \<and> challenge (app_gate a) = c"

lemma gate_poll:
  assumes "gate_waits c a" "a1 = fold boot_health_state_cb states a"
  shows "firmware_boot_gate_ready (app_gate a1) \<longleftrightarrow> (CTRL_ID_S3_BOOT_ACK, c) \<in> set states"
    "(CTRL_ID_S3_BOOT_ACK, c) \<notin> set states \<Longrightarrow> gate_waits c a1 \<and> gate_waits c (fst (app_send env a1 ty cid v))"
  using assms fold_boot_cb [of a states] by (auto simp: gate_waits_def firmware_boot_gate_ready_def)

definition health_pending :: "firmware_health \<Rightarrow> bool" where
  "health_pending h \<longleftrightarrow> fh_initialized h \<and> fh_pending_verify h \<and> \<not> fh_marked h"

lemma mark_pending:
  "health_pending h \<Longrightarrow> firmware_health_mark_ready io mark h =
     (if mark = ESP_OK then (h\<lparr>fh_pending_verify := False, fh_marked := True\<rparr>, ESP_OK) else (h, mark))"
  by (simp add: health_pending_def firmware_health_mark_ready_def)

lemma confirm_polls_sound:
  "\<lbrakk>gate_waits c a; health_pending h; confirm_polls env io mark c start retry polls a h = (a', h', r)\<rbrakk> \<Longrightarrow>
   (fh_marked h' \<longrightarrow> mark = ESP_OK \<and> (\<exists>p\<in>set polls. (CTRL_ID_S3_BOOT_ACK, c) \<in> set (bp_states p))) \<and>
   (r = Returned ESP_OK \<longrightarrow> fh_marked h')"
proof (induction polls arbitrary: a retry)
  case (Cons p ps)
  let ?a1 = "fold boot_health_state_cb (bp_states p) a"
  note g = gate_poll [OF Cons.prems(1) refl, of "bp_states p"]
  show ?case
  proof (cases "(CTRL_ID_S3_BOOT_ACK, c) \<in> set (bp_states p)")
    case True
    then show ?thesis using Cons.prems g(1) mark_pending [OF Cons.prems(2), of io mark]
      by (auto simp: Let_def health_pending_def split: if_splits)
  next
    case False
    consider "confirm_polls env io mark c start retry ps ?a1 h = (a', h', r)"
      | "confirm_polls env io mark c start (bp_resend p) ps (fst (app_send env ?a1 CTRL_TYPE_STATE CTRL_ID_S3_BOOT_CHALLENGE c)) h = (a', h', r)"
      | "h' = h \<and> r = Restarting"
      using Cons.prems(3) g(1) False by (auto simp: Let_def split: if_splits)
    then show ?thesis
    proof cases
      case 1
      then show ?thesis using Cons.IH [OF _ Cons.prems(2)] g(2) [OF False] by fastforce
    next
      case 2
      then show ?thesis using Cons.IH [OF _ Cons.prems(2)] g(2) [OF False] by fastforce
    qed (use Cons.prems(2) in \<open>simp add: health_pending_def\<close>)
  qed
qed (auto simp: health_pending_def)

lemma confirm_polls_complete:
  "\<lbrakk>gate_waits c a; health_pending h; k < length polls; (CTRL_ID_S3_BOOT_ACK, c) \<in> set (bp_states (polls ! k));
    \<forall>i<k. bp_outer (polls ! i) - start < BOOT_P4_ACK_TIMEOUT\<rbrakk> \<Longrightarrow>
   \<exists>a'. confirm_polls env io ESP_OK c start retry polls a h = (a', h\<lparr>fh_pending_verify := False, fh_marked := True\<rparr>, Returned ESP_OK)"
proof (induction polls arbitrary: a retry k)
  case (Cons p ps)
  note g = gate_poll [OF Cons.prems(1) refl, of "bp_states p"]
  show ?case
  proof (cases "(CTRL_ID_S3_BOOT_ACK, c) \<in> set (bp_states p)")
    case True
    then show ?thesis using g(1) mark_pending [OF Cons.prems(2), of io ESP_OK] by (simp add: Let_def)
  next
    case False
    then obtain j where k: "k = Suc j" using Cons.prems(4) by (cases k) auto
    have "\<exists>a'. confirm_polls env io ESP_OK c start rt ps a0 h = (a', h\<lparr>fh_pending_verify := False, fh_marked := True\<rparr>, Returned ESP_OK)"
      if "gate_waits c a0" for a0 rt
      using Cons.prems by (intro Cons.IH [OF that, of j]) (auto simp: k)
    moreover have "bp_outer p - start < BOOT_P4_ACK_TIMEOUT" using Cons.prems(5) k by force
    ultimately show ?thesis using g False by (simp add: Let_def)
  qed
qed simp

section \<open>Properties\<close>

text \<open>
  Claim C6.  Held controls reach the wire: over any run of MIDI messages, reconnects, heartbeats and scheduling
  rounds, with the UART failing as it likes, one scheduling round with a working UART leaves, for every held control,
  the level last reported by the controller (or its release, when the controller was unplugged) as the last level
  sent.
\<close>

theorem held_levels_reach_wire:
  assumes "uart_ok env" "k < CONTROL_HELD_STATE_COUNT"
  shows "sent_level k (app_sent (flx4_schedule_pending_events env (app_run ops (app_main r rt)))) =
     map_option snd (reported_level k ops (app_main r rt) None)"
proof -
  let ?a = "app_run ops (app_main r rt)"
  have a: "app_inv ?a" "held_wanted (app_held ?a) k = reported_level k ops (app_main r rt) None"
    using app_run_inv [OF app_main_inv(1) assms(2), of ops r rt] held_wanted_reset [OF assms(2)]
    by (auto simp: app_main_inv(2))
  note s = schedule_inv [OF a(1), of env]
  have "held_view (app_held (flx4_schedule_pending_events env ?a))
      (\<lambda>k. sent_level k (app_sent (flx4_schedule_pending_events env ?a)))" using s(1) by (simp add: app_inv_def)
  from held_view_clean [OF this s(3) [OF assms(1)] assms(2)] show ?thesis using s(2) a(2) by simp
qed

text \<open>A jog touch during a UART failure, then the controller is unplugged: the release is sent.\<close>

definition flx4_conn :: midi_connection where
  "flx4_conn = \<lparr>conn_vid = FLX4_USB_VID, conn_pid = FLX4_USB_PID, conn_epoch = 1\<rparr>"

definition good_uart :: s3_env where
  "good_uart = \<lparr>env_lock = True, env_write = (\<lambda>wire f. int (length f)), env_conn = Some flx4_conn, env_malloc = None,
     env_send_packet = (\<lambda>sent p. True), env_builtin_flx4 = True\<rparr>"

definition profile_runtime_zero :: profile_runtime where
  "profile_runtime_zero =
     \<lparr>s_profile = \<lparr>cp_vid = 0, cp_pid = 0, cp_flags = 0, input_count = 0, output_count = 0, pair_slot_count = 0, cp_decks = 0,
        cp_inputs = [], cp_outputs = []\<rparr>,
      s_runtime = cp_runtime_init, s_active = False, s_bound_vid = 0, s_bound_pid = 0, s_bound_epoch = 0\<rparr>"

definition sample_ops :: "(s3_env \<times> app_op) list" where
  "sample_ops = [(good_uart, Midi (cc_message 0x90 0x36 0x7F)), (good_uart, Schedule),
     (good_uart\<lparr>env_lock := False\<rparr>, Connection False), (good_uart\<lparr>env_lock := False\<rparr>, Schedule)]"

lemma touch_event:
  "midi_event good_uart (cc_message 0x90 0x36 0x7F) (app_main r rt) = Some (emit_button CTRL_ID_DECK1_JOG_TOUCH 1)"
  by (simp add: midi_event_def good_uart_def flx4_conn_def cc_message_def flx4_map_message_def map_deck_button_def Let_def)

lemma sample_reported: "reported_level 0 sample_ops (app_main r rt) None = Some (CTRL_ID_DECK1_JOG_TOUCH, 0)"
  by (simp add: sample_ops_def want_step_def touch_event)
    (simp add: observe_want_def emit_button_def sends_level_def control_held_state_key_def released_def
      control_held_state_release_value_def)

theorem held_levels_reach_wire_witness:
  "sent_level 0 (app_sent (flx4_schedule_pending_events good_uart (app_run sample_ops (app_main 7 profile_runtime_zero)))) = Some 0"
  using held_levels_reach_wire [of good_uart 0 sample_ops] by (simp add: uart_ok_def good_uart_def sample_reported [unfolded good_uart_def])


text \<open>The tasks are up at the second look; the P4 answers before the second poll.\<close>

definition pending_image :: boot_image where
  "pending_image = \<lparr>bi_running = Some ''ota_0'', bi_desc = Some [0x31], bi_state = (ESP_OK, ESP_OTA_IMG_PENDING_VERIFY)\<rparr>"

definition sample_waits :: "task_poll list" where
  "sample_waits =
     [\<lparr>tp_states = [], tp_heartbeat = True, tp_translator = True, tp_link_rx = False, tp_midi_host = True, tp_now = 110\<rparr>,
      \<lparr>tp_states = [], tp_heartbeat = True, tp_translator = True, tp_link_rx = True, tp_midi_host = True, tp_now = 120\<rparr>]"

definition sample_polls :: "ack_poll list" where
  "sample_polls =
     [\<lparr>bp_states = [(CTRL_ID_S3_BOOT_ACK, 8)], bp_retry = 710, bp_limit = 710, bp_outer = 711, bp_resend = 712\<rparr>,
      \<lparr>bp_states = [(CTRL_ID_S3_BOOT_ACK, 7)], bp_retry = 722, bp_limit = 722, bp_outer = 722, bp_resend = 722\<rparr>]"


end
