(* ===== verification/Pcm_Buffers.thy ===== *)
theory Pcm_Buffers
  imports Interfaces
begin

text \<open>
  The decoded-PCM buffers of a deck (\<open>audio_pcm_ring.c\<close>, \<open>audio_pcm_timeline.c\<close>): the single-producer
  single-consumer ring the output falls back to, and the timeline that keeps played frames addressable
  for scratching and key lock.  Both count frames in free-running words that wrap; both are shown to
  refine a plain list.  An operation of one task is one step: each index has a single writer, and the
  acquire and release accesses only make another task's index arrive late, which the checks allow for.
  The cursors of the timeline are records of the three fields the C structure spells out per cursor.
\<close>

record audio_mixer_frame =
  frame_left :: i16
  frame_right :: i16

lemma frame_eta [simp]: "\<lparr>frame_left = frame_left f, frame_right = frame_right f\<rparr> = f"
  by simp

section \<open>Interleaved storage\<close>

text \<open>The frames an interleaved sample array holds.\<close>

definition stereo :: "i16 list \<Rightarrow> audio_mixer_frame list" where
  "stereo xs = map (\<lambda>i. \<lparr>frame_left = xs ! (i * 2), frame_right = xs ! (i * 2 + 1)\<rparr>) [0..<length xs div 2]"

lemma length_stereo [simp]: "length (stereo xs) = length xs div 2"
  by (simp add: stereo_def)

lemma stereo_nth:
  "i < length xs div 2 \<Longrightarrow> stereo xs ! i = \<lparr>frame_left = xs ! (i * 2), frame_right = xs ! (i * 2 + 1)\<rparr>"
  by (simp add: stereo_def)

lemma stereo_store:
  assumes "i < length xs div 2"
  shows "stereo (xs[i * 2 := l, i * 2 + 1 := r]) = (stereo xs)[i := \<lparr>frame_left = l, frame_right = r\<rparr>]"
proof (rule nth_equalityI)
  fix j assume "j < length (stereo (xs[i * 2 := l, i * 2 + 1 := r]))"
  moreover have "j * 2 \<noteq> i * 2 + 1" "j * 2 + 1 \<noteq> i * 2" by presburger+
  ultimately show "stereo (xs[i * 2 := l, i * 2 + 1 := r]) ! j = (stereo xs)[i := \<lparr>frame_left = l, frame_right = r\<rparr>] ! j"
    using assms by (auto simp: nth_list_update stereo_nth)
qed simp

section \<open>The bounded ring\<close>

abbreviation AUDIO_PCM_RING_FRAMES :: nat where "AUDIO_PCM_RING_FRAMES \<equiv> 8192"

definition AUDIO_PCM_RING_MASK :: u32 where "AUDIO_PCM_RING_MASK = 8192 - 1"

record audio_pcm_ring =
  ring_frames :: "i16 list"
  write_index :: u32
  read_index :: u32

definition audio_pcm_ring_zero :: audio_pcm_ring where
  "audio_pcm_ring_zero = \<lparr>ring_frames = replicate (AUDIO_PCM_RING_FRAMES * 2) 0, write_index = 0, read_index = 0\<rparr>"

definition audio_pcm_ring_reset :: "audio_pcm_ring \<Rightarrow> audio_pcm_ring" where
  "audio_pcm_ring_reset ring = ring\<lparr>read_index := 0, write_index := 0\<rparr>"

definition audio_pcm_ring_used :: "audio_pcm_ring \<Rightarrow> u32" where
  "audio_pcm_ring_used ring = write_index ring - read_index ring"

definition audio_pcm_ring_free :: "audio_pcm_ring \<Rightarrow> u32" where
  "audio_pcm_ring_free ring = 8192 - 1 - audio_pcm_ring_used ring"

definition audio_pcm_ring_push :: "audio_pcm_ring \<Rightarrow> i16 \<Rightarrow> i16 \<Rightarrow> audio_pcm_ring \<times> bool" where
  "audio_pcm_ring_push ring l r =
     (let w = write_index ring; rd = read_index ring
      in if 8192 - 1 - (w - rd) = 0 then (ring, False)
         else let idx = unat (w AND AUDIO_PCM_RING_MASK)
              in (ring\<lparr>ring_frames := (ring_frames ring)[idx * 2 := l, idx * 2 + 1 := r], write_index := w + 1\<rparr>, True))"

definition audio_pcm_ring_pop :: "audio_pcm_ring \<Rightarrow> audio_pcm_ring \<times> audio_mixer_frame option" where
  "audio_pcm_ring_pop ring =
     (let r = read_index ring; w = write_index ring
      in if w - r = 0 then (ring, None)
         else let idx = unat (r AND AUDIO_PCM_RING_MASK)
              in (ring\<lparr>read_index := r + 1\<rparr>,
                  Some \<lparr>frame_left = ring_frames ring ! (idx * 2), frame_right = ring_frames ring ! (idx * 2 + 1)\<rparr>))"

definition audio_pcm_ring_drop_newest :: "audio_pcm_ring \<Rightarrow> u32 \<Rightarrow> audio_pcm_ring \<times> u32" where
  "audio_pcm_ring_drop_newest ring frames =
     (if frames = 0 then (ring, 0)
      else let r = read_index ring; w = write_index ring; unread = w - r;
               frames' = (if frames > unread then unread else frames)
           in if frames' = 0 then (ring, 0) else (ring\<lparr>write_index := w - frames'\<rparr>, frames'))"

text \<open>The unread frames, oldest first, and the bounds the operations keep.\<close>

definition ring_unread :: "audio_pcm_ring \<Rightarrow> audio_mixer_frame list" where
  "ring_unread ring = ring_list (stereo (ring_frames ring)) (unat (read_index ring)) (unat (audio_pcm_ring_used ring))"

definition pcm_ring_inv :: "audio_pcm_ring \<Rightarrow> bool" where
  "pcm_ring_inv ring \<longleftrightarrow> length (ring_frames ring) = AUDIO_PCM_RING_FRAMES * 2 \<and>
     unat (audio_pcm_ring_used ring) < AUDIO_PCM_RING_FRAMES"

lemma masked_index: "unat (w AND AUDIO_PCM_RING_MASK) = unat w mod 8192"
proof -
  have "w AND AUDIO_PCM_RING_MASK = take_bit 13 w"
    by (simp add: AUDIO_PCM_RING_MASK_def take_bit_eq_mask mask_eq_exp_minus_1)
  then show ?thesis by (simp add: take_bit_eq_mod unat_mod)
qed

lemma wrapped_sum: "unat (a + b) mod 8192 = (unat a + unat b) mod 8192" for a b :: u32
  by (simp add: unat_word_ariths mod_mod_cancel)

lemma write_slot:
  "unat (write_index ring) mod 8192 = (unat (read_index ring) + unat (audio_pcm_ring_used ring)) mod 8192"
  using wrapped_sum [of "read_index ring" "write_index ring - read_index ring"]
  by (simp add: audio_pcm_ring_used_def)

lemma used_updates [simp]:
  "audio_pcm_ring_used (ring\<lparr>ring_frames := b, write_index := w\<rparr>) = w - read_index ring"
  "audio_pcm_ring_used (ring\<lparr>write_index := w\<rparr>) = w - read_index ring"
  "audio_pcm_ring_used (ring\<lparr>read_index := r\<rparr>) = write_index ring - r"
  by (simp_all add: audio_pcm_ring_used_def)

lemma unat_minus1: "unat w = Suc n \<Longrightarrow> unat (w - 1 :: u32) = n"
  using unat_sub [of 1 w] by (simp add: word_le_nat_alt)

lemma unat_plus1_bound: "unat w < 2 ^ 32 - 1 \<Longrightarrow> unat (w + 1 :: u32) = unat w + 1"
  by (simp add: unat_word_ariths)

lemma used_after_push:
  "unat (audio_pcm_ring_used ring) < 8192 \<Longrightarrow>
   unat (write_index ring + 1 - read_index ring) = Suc (unat (audio_pcm_ring_used ring))"
  using unat_plus1_bound [of "audio_pcm_ring_used ring"]
  by (simp add: audio_pcm_ring_used_def algebra_simps)

lemma ring_full_iff:
  assumes "pcm_ring_inv ring"
  shows "8192 - 1 - (write_index ring - read_index ring) = 0 \<longleftrightarrow> length (ring_unread ring) = 8191"
proof -
  have "8192 - 1 - (write_index ring - read_index ring) = 0 \<longleftrightarrow> audio_pcm_ring_used ring = 8191"
    by (auto simp: audio_pcm_ring_used_def)
  also have "\<dots> \<longleftrightarrow> unat (audio_pcm_ring_used ring) = 8191"
    using word_unat_eq_iff [of "audio_pcm_ring_used ring" 8191] by simp
  finally show ?thesis by (simp add: ring_unread_def)
qed

lemma push_room:
  assumes "pcm_ring_inv ring" "length (ring_unread ring) < 8191"
  shows "snd (audio_pcm_ring_push ring l r)"
    and "ring_unread (fst (audio_pcm_ring_push ring l r)) = ring_unread ring @ [\<lparr>frame_left = l, frame_right = r\<rparr>]"
    and "pcm_ring_inv (fst (audio_pcm_ring_push ring l r))"
proof -
  let ?u = "unat (audio_pcm_ring_used ring)"
  have u: "?u < 8191" "length (ring_frames ring) = 16384" using assms by (auto simp: ring_unread_def pcm_ring_inv_def)
  have nf: "8192 - 1 - (write_index ring - read_index ring) \<noteq> 0" using ring_full_iff [OF assms(1)] assms(2) by simp
  have idx: "unat (write_index ring AND AUDIO_PCM_RING_MASK) = (unat (read_index ring) + ?u) mod 8192"
    by (simp only: masked_index write_slot)
  have "\<dots> < length (ring_frames ring) div 2" using u by simp
  note st = stereo_store [OF this, of l r]
  show "snd (audio_pcm_ring_push ring l r)" using nf by (simp add: audio_pcm_ring_push_def Let_def)
  show "ring_unread (fst (audio_pcm_ring_push ring l r)) = ring_unread ring @ [\<lparr>frame_left = l, frame_right = r\<rparr>]"
    using nf u used_after_push [of ring] ring_list_push [of ?u "stereo (ring_frames ring)" "unat (read_index ring)"] st
    by (simp add: audio_pcm_ring_push_def Let_def ring_unread_def idx)
  show "pcm_ring_inv (fst (audio_pcm_ring_push ring l r))"
    using nf u used_after_push [of ring]
    by (simp add: audio_pcm_ring_push_def Let_def pcm_ring_inv_def)
qed

lemma push_full:
  assumes "pcm_ring_inv ring" "\<not> length (ring_unread ring) < 8191"
  shows "audio_pcm_ring_push ring l r = (ring, False)"
proof -
  have "length (ring_unread ring) = 8191" using assms by (simp add: pcm_ring_inv_def ring_unread_def)
  then show ?thesis using ring_full_iff [OF assms(1)] by (simp add: audio_pcm_ring_push_def Let_def)
qed

lemma used_zero_iff: "write_index ring - read_index ring = 0 \<longleftrightarrow> ring_unread ring = []"
proof -
  have "ring_unread ring = [] \<longleftrightarrow> length (ring_unread ring) = 0" by simp
  also have "\<dots> \<longleftrightarrow> write_index ring - read_index ring = 0"
    by (simp add: ring_unread_def audio_pcm_ring_used_def unat_eq_zero del: length_0_conv)
  finally show ?thesis by simp
qed

lemma pop_some:
  assumes "pcm_ring_inv ring" "ring_unread ring = x # xs"
  shows "snd (audio_pcm_ring_pop ring) = Some x" "ring_unread (fst (audio_pcm_ring_pop ring)) = xs"
    and "pcm_ring_inv (fst (audio_pcm_ring_pop ring))"
proof -
  let ?u = "unat (audio_pcm_ring_used ring)" and ?b = "stereo (ring_frames ring)"
  have len: "length ?b = 8192" using assms(1) by (simp add: pcm_ring_inv_def)
  have "write_index ring - read_index ring \<noteq> 0" using assms(2) used_zero_iff [of ring] by simp
  then have p: "audio_pcm_ring_pop ring = (ring\<lparr>read_index := read_index ring + 1\<rparr>, Some (?b ! (unat (read_index ring) mod 8192)))"
    using len by (simp add: audio_pcm_ring_pop_def Let_def masked_index stereo_nth)
  have "?u = length (x # xs)" using assms(2) by (metis ring_unread_def length_ring_list)
  then obtain n where n: "?u = Suc n" by simp
  have u: "write_index ring - (read_index ring + 1) = audio_pcm_ring_used ring - 1"
    by (simp add: audio_pcm_ring_used_def)
  have w: "unat (write_index ring - (read_index ring + 1)) = n" using unat_minus1 [OF n] by (simp only: u)
  moreover have "ring_list ?b (unat (read_index ring + 1)) n = ring_list ?b (Suc (unat (read_index ring)) mod 8192) n"
    using ring_list_head_mod [of ?b "unat (read_index ring + 1)" n] wrapped_sum [of "read_index ring" 1] len by simp
  ultimately have r: "ring_unread (ring\<lparr>read_index := read_index ring + 1\<rparr>) = ring_list ?b (Suc (unat (read_index ring)) mod 8192) n"
    by (simp add: ring_unread_def)
  have e: "x # xs = ?b ! (unat (read_index ring) mod 8192) # ring_list ?b (Suc (unat (read_index ring)) mod 8192) n"
    using assms(2) ring_list_pop [of ?b "unat (read_index ring)" n] n len by (simp add: ring_unread_def)
  show "snd (audio_pcm_ring_pop ring) = Some x" "ring_unread (fst (audio_pcm_ring_pop ring)) = xs"
    using p r e by simp_all
  show "pcm_ring_inv (fst (audio_pcm_ring_pop ring))"
    using assms(1) p n w by (simp add: pcm_ring_inv_def)
qed

lemma pop_none: "ring_unread ring = [] \<Longrightarrow> audio_pcm_ring_pop ring = (ring, None)"
  using used_zero_iff [of ring] by (simp add: audio_pcm_ring_pop_def Let_def)

lemma ring_list_take: "k \<le> n \<Longrightarrow> ring_list b h k = take k (ring_list b h n)"
  by (simp add: ring_list_def take_map min_def)

lemma drop_newest:
  fixes n :: u32 and ring :: audio_pcm_ring
  assumes "pcm_ring_inv ring"
  defines "k \<equiv> min (unat n) (length (ring_unread ring))"
  shows "ring_unread (fst (audio_pcm_ring_drop_newest ring n)) = take (length (ring_unread ring) - k) (ring_unread ring)"
    and "unat (snd (audio_pcm_ring_drop_newest ring n)) = k"
    and "pcm_ring_inv (fst (audio_pcm_ring_drop_newest ring n))"
proof -
  let ?u = "audio_pcm_ring_used ring" and ?m = "min n (audio_pcm_ring_used ring)"
  have m: "unat ?m = k" by (simp add: k_def ring_unread_def min_def word_le_nat_alt)
  have d: "audio_pcm_ring_drop_newest ring n = (ring\<lparr>write_index := write_index ring - ?m\<rparr>, ?m)"
    by (auto simp: audio_pcm_ring_drop_newest_def Let_def min_def audio_pcm_ring_used_def)
  have u: "audio_pcm_ring_used (ring\<lparr>write_index := write_index ring - ?m\<rparr>) = ?u - ?m"
    by (simp add: audio_pcm_ring_used_def)
  have s: "unat (?u - ?m) = unat ?u - k" using m by (simp add: unat_sub)
  show "ring_unread (fst (audio_pcm_ring_drop_newest ring n)) = take (length (ring_unread ring) - k) (ring_unread ring)"
    using ring_list_take [of "unat ?u - k" "unat ?u"] by (simp add: d ring_unread_def u s del: used_updates)
  show "unat (snd (audio_pcm_ring_drop_newest ring n)) = k" by (simp add: d m)
  show "pcm_ring_inv (fst (audio_pcm_ring_drop_newest ring n))"
    using assms(1) less_imp_diff_less [of "unat ?u" 8192 k] by (simp add: d pcm_ring_inv_def u s del: used_updates)
qed

interpretation pcm_fifo: bounded_fifo 8191 "\<lambda>q f. audio_pcm_ring_push q (frame_left f) (frame_right f)"
    audio_pcm_ring_pop ring_unread pcm_ring_inv
proof
  fix q f assume i: "pcm_ring_inv q"
  show "pcm_ring_inv (fst (audio_pcm_ring_push q (frame_left f) (frame_right f)))"
    using push_room(3) [OF i] push_full [OF i] i by (cases "length (ring_unread q) < 8191") simp_all
  show "pcm_ring_inv (fst (audio_pcm_ring_pop q))"
    using pop_some(3) [OF i] pop_none [of q] i by (cases "ring_unread q") simp_all
qed (simp_all add: push_room push_full pop_some pop_none)

section \<open>The ring as a queue\<close>

text \<open>A run of producer and consumer calls with what each returned, on the ring and on a bounded list.\<close>

datatype pcm_op = Push_Frame audio_mixer_frame | Pop_Frame | Drop_Newest u32 | Reset_Ring

datatype pcm_result = Accepted bool | Frame "audio_mixer_frame option" | Count nat | Spans nat nat nat

primrec ring_step :: "audio_pcm_ring \<Rightarrow> pcm_op \<Rightarrow> audio_pcm_ring \<times> pcm_result" where
  "ring_step q (Push_Frame f) = map_prod id Accepted (audio_pcm_ring_push q (frame_left f) (frame_right f))"
| "ring_step q Pop_Frame = map_prod id Frame (audio_pcm_ring_pop q)"
| "ring_step q (Drop_Newest n) = map_prod id (\<lambda>k. Count (unat k)) (audio_pcm_ring_drop_newest q n)"
| "ring_step q Reset_Ring = (audio_pcm_ring_reset q, Count 0)"

primrec queue_step :: "audio_mixer_frame list \<Rightarrow> pcm_op \<Rightarrow> audio_mixer_frame list \<times> pcm_result" where
  "queue_step xs (Push_Frame f) = (if length xs < 8191 then (xs @ [f], Accepted True) else (xs, Accepted False))"
| "queue_step xs Pop_Frame = (case xs of [] \<Rightarrow> ([], Frame None) | x # ys \<Rightarrow> (ys, Frame (Some x)))"
| "queue_step xs (Drop_Newest n) = (let k = min (unat n) (length xs) in (take (length xs - k) xs, Count k))"
| "queue_step xs Reset_Ring = ([], Count 0)"

fun results :: "('s \<Rightarrow> 'o \<Rightarrow> 's \<times> 'r) \<Rightarrow> 's \<Rightarrow> 'o list \<Rightarrow> 'r list" where
  "results step s [] = []"
| "results step s (x # xs) = (case step s x of (t, r) \<Rightarrow> r # results step t xs)"

lemma results_refine:
  assumes "\<And>s t x. R s t \<Longrightarrow> R (fst (f s x)) (fst (g t x)) \<and> snd (f s x) = snd (g t x)"
  shows "R s t \<Longrightarrow> results f s xs = results g t xs"
proof (induction xs arbitrary: s t)
  case (Cons x xs)
  show ?case using assms [OF Cons.prems, of x] Cons.IH by (auto split: prod.splits)
qed simp

lemma ring_step_refines:
  assumes i: "pcm_ring_inv q"
  shows "pcm_ring_inv (fst (ring_step q x)) \<and> ring_unread (fst (ring_step q x)) = fst (queue_step (ring_unread q) x)
     \<and> snd (ring_step q x) = snd (queue_step (ring_unread q) x)"
proof (cases x)
  case (Push_Frame f)
  then show ?thesis using push_room [OF i] push_full [OF i] i by (cases "length (ring_unread q) < 8191") simp_all
next
  case Pop_Frame
  then show ?thesis using pop_some [OF i] pop_none [of q] i by (cases "ring_unread q") simp_all
next
  case (Drop_Newest n)
  then show ?thesis using drop_newest [OF i, of n] by (simp add: Let_def)
next
  case Reset_Ring
  then show ?thesis using i by (simp add: audio_pcm_ring_reset_def pcm_ring_inv_def ring_unread_def audio_pcm_ring_used_def)
qed

lemma ring_zero: "pcm_ring_inv audio_pcm_ring_zero" "ring_unread audio_pcm_ring_zero = []"
  by (simp_all add: pcm_ring_inv_def ring_unread_def audio_pcm_ring_used_def audio_pcm_ring_zero_def)

section \<open>64-bit cursors over 32-bit words\<close>

text \<open>
  A cursor is a low word with an epoch that advances when the low word wraps.  The version is odd while both
  halves are being replaced; a reader retries until it sees the same even version twice, so it returns
  the value below once the version is even, which it is between any two operations.
\<close>

record cursor =
  cur_epoch :: u32
  cur_low :: u32
  cur_version :: u32

definition cursor_zero :: cursor where
  "cursor_zero = \<lparr>cur_epoch = 0, cur_low = 0, cur_version = 0\<rparr>"

definition cursor_load :: "cursor \<Rightarrow> u64" where
  "cursor_load c = push_bit 32 (ucast (cur_epoch c)) OR ucast (cur_low c)"

definition cursor_store_absolute :: "cursor \<Rightarrow> u64 \<Rightarrow> cursor" where
  "cursor_store_absolute c v =
     \<lparr>cur_epoch = ucast (drop_bit 32 v), cur_low = ucast v, cur_version = cur_version c + 1 + 1\<rparr>"

definition cursor_store_next :: "cursor \<Rightarrow> u32 \<Rightarrow> cursor" where
  "cursor_store_next c current =
     (let nxt = current + 1
      in if nxt \<noteq> 0 then c\<lparr>cur_low := nxt\<rparr>
         else let absolute = cursor_load c + 1 in cursor_store_absolute c absolute)"

text \<open>The number a cursor stands for.\<close>

definition cursor_at :: "cursor \<Rightarrow> nat \<Rightarrow> bool" where
  "cursor_at c n \<longleftrightarrow> cur_epoch c = of_nat (drop_bit 32 n) \<and> cur_low c = of_nat n \<and> even (cur_version c) \<and> n < 2 ^ 64"

lemma cursor_at_zero [simp]: "cursor_at cursor_zero 0"
  by (simp add: cursor_at_def cursor_zero_def)

lemma cursor_load_at:
  assumes "cursor_at c n"
  shows "cursor_load c = of_nat n"
proof (rule bit_word_eqI)
  fix i assume "i < LENGTH(64)"
  then show "bit (cursor_load c) i = bit (of_nat n :: u64) i"
    using assms by (auto simp: cursor_load_def cursor_at_def bit_simps)
qed

lemma load_unat: "cursor_at c n \<Longrightarrow> unat (cursor_load c) = n"
  using cursor_load_at [of c n] take_bit_nat_eq_self [of n 64] by (simp add: cursor_at_def unsigned_of_nat)

lemma cursor_at_absolute:
  assumes "even (cur_version c)" "n < 2 ^ 64"
  shows "cursor_at (cursor_store_absolute c (of_nat n)) n"
proof -
  have "ucast (drop_bit 32 (of_nat n :: u64)) = (of_nat (drop_bit 32 n) :: u32)"
    by (rule bit_word_eqI) (auto simp: bit_simps)
  moreover have "ucast (of_nat n :: u64) = (of_nat n :: u32)"
    by (rule bit_word_eqI) (auto simp: bit_simps)
  ultimately show ?thesis using assms by (simp add: cursor_at_def cursor_store_absolute_def)
qed

lemma cursor_at_next:
  assumes "cursor_at c n" "n < 2 ^ 64 - 1"
  shows "cursor_at (cursor_store_next c (cur_low c)) (n + 1)"
proof (cases "cur_low c + 1 = 0")
  case True
  have "cursor_load c + 1 = of_nat (n + 1)" by (simp add: cursor_load_at [OF assms(1)])
  then show ?thesis using True assms cursor_at_absolute [of c "n + 1"]
    by (simp add: cursor_store_next_def Let_def cursor_at_def [of c] add.commute)
next
  case False
  have nz: "(of_nat (Suc n) :: u32) \<noteq> 0" using False assms by (simp add: cursor_at_def add.commute)
  have "\<not> 2 ^ LENGTH(32) dvd Suc n" using word_of_nat_eq_0_iff [where 'a = 32, of "Suc n"] nz by (simp only: not_False_eq_True simp_thms)
  then have "Suc n mod 2 ^ 32 \<noteq> 0" by (simp only: mod_eq_0_iff_dvd) simp
  then have "drop_bit 32 (n + 1) = drop_bit 32 n" unfolding drop_bit_eq_div Suc_eq_plus1 [symmetric] by (simp only: div_Suc if_False)
  then show ?thesis using False assms by (simp add: cursor_store_next_def Let_def cursor_at_def add.commute)
qed

text \<open>Distances of cursors that are close enough are read off the low words.\<close>

lemma low_distance:
  assumes "cursor_at c m" "cursor_at d n" "n \<le> m" "m - n < 2 ^ 32"
  shows "unat (cur_low c - cur_low d) = m - n"
proof -
  have "cur_low c - cur_low d = of_nat (m - n)" using assms(1,2,3) by (simp add: cursor_at_def of_nat_diff)
  then show ?thesis using assms(4) by (simp add: unsigned_of_nat take_bit_nat_eq_self)
qed

section \<open>The PCM timeline\<close>

record audio_pcm_timeline =
  tl_frames :: "i16 list"
  tl_capacity :: u32
  tl_oldest :: cursor
  tl_play :: cursor
  tl_write :: cursor
  tl_play_index :: u32
  tl_write_index :: u32
  tl_generation :: u32

definition audio_pcm_timeline_zero :: audio_pcm_timeline where
  "audio_pcm_timeline_zero =
     \<lparr>tl_frames = [], tl_capacity = 0, tl_oldest = cursor_zero, tl_play = cursor_zero, tl_write = cursor_zero,
      tl_play_index = 0, tl_write_index = 0, tl_generation = 0\<rparr>"

definition audio_pcm_timeline_reset :: "audio_pcm_timeline \<Rightarrow> audio_pcm_timeline" where
  "audio_pcm_timeline_reset t =
     (let g = tl_generation t + 1
      in t\<lparr>tl_oldest := cursor_zero, tl_play := cursor_zero, tl_write := cursor_zero, tl_play_index := 0,
           tl_write_index := 0, tl_generation := (if g = 0 then 1 else g)\<rparr>)"

definition audio_pcm_timeline_init :: "audio_pcm_timeline \<Rightarrow> i16 list \<Rightarrow> u32 \<Rightarrow> audio_pcm_timeline" where
  "audio_pcm_timeline_init t storage capacity_frames =
     audio_pcm_timeline_reset
       (t\<lparr>tl_frames := storage, tl_capacity := (if capacity_frames < 0x80000000 then capacity_frames else 0),
          tl_generation := 0\<rparr>)"

definition audio_pcm_timeline_oldest_seq :: "audio_pcm_timeline \<Rightarrow> u64" where
  "audio_pcm_timeline_oldest_seq t = cursor_load (tl_oldest t)"

definition audio_pcm_timeline_play_seq :: "audio_pcm_timeline \<Rightarrow> u64" where
  "audio_pcm_timeline_play_seq t = cursor_load (tl_play t)"

definition audio_pcm_timeline_write_seq :: "audio_pcm_timeline \<Rightarrow> u64" where
  "audio_pcm_timeline_write_seq t = cursor_load (tl_write t)"

definition audio_pcm_timeline_history_frames :: "audio_pcm_timeline \<Rightarrow> u32" where
  "audio_pcm_timeline_history_frames t = cur_low (tl_play t) - cur_low (tl_oldest t)"

definition audio_pcm_timeline_future_frames :: "audio_pcm_timeline \<Rightarrow> u32" where
  "audio_pcm_timeline_future_frames t = cur_low (tl_write t) - cur_low (tl_play t)"

definition audio_pcm_timeline_used_frames :: "audio_pcm_timeline \<Rightarrow> u32" where
  "audio_pcm_timeline_used_frames t = cur_low (tl_write t) - cur_low (tl_oldest t)"

definition audio_pcm_timeline_generation :: "audio_pcm_timeline \<Rightarrow> u32" where
  "audio_pcm_timeline_generation t = tl_generation t"

definition audio_pcm_timeline_push :: "audio_pcm_timeline \<Rightarrow> i16 \<Rightarrow> i16 \<Rightarrow> audio_pcm_timeline \<times> bool" where
  "audio_pcm_timeline_push t l r =
     (if tl_capacity t = 0 then (t, False)
      else let write_seq = cur_low (tl_write t); oldest_seq = cur_low (tl_oldest t); play_seq = cur_low (tl_play t);
               used = write_seq - oldest_seq
           in if used \<ge> tl_capacity t \<and> play_seq - oldest_seq = 0 then (t, False)
              else let t1 = (if used \<ge> tl_capacity t
                             then t\<lparr>tl_oldest := cursor_store_next (tl_oldest t) oldest_seq\<rparr> else t);
                       index = tl_write_index t1; i = unat index;
                       index' = (if index + 1 \<ge> tl_capacity t1 then 0 else index + 1)
                   in (t1\<lparr>tl_frames := (tl_frames t1)[i * 2 := l, i * 2 + 1 := r], tl_write_index := index',
                          tl_write := cursor_store_next (tl_write t1) write_seq\<rparr>, True))"

definition read_slot :: "audio_pcm_timeline \<Rightarrow> u64 \<Rightarrow> nat" where
  "read_slot t sq =
     (let i0 = int (unat (tl_play_index t)) + (sint sq - sint (audio_pcm_timeline_play_seq t));
          i1 = (if i0 < 0 then i0 + int (unat (tl_capacity t)) else i0);
          i2 = (if i1 \<ge> int (unat (tl_capacity t)) then i1 - int (unat (tl_capacity t)) else i1)
      in unat (word_of_int i2 :: u32))"

definition audio_pcm_timeline_read :: "audio_pcm_timeline \<Rightarrow> u64 \<Rightarrow> audio_mixer_frame option" where
  "audio_pcm_timeline_read t sq =
     (if tl_capacity t = 0 then None
      else if sq < audio_pcm_timeline_oldest_seq t \<or> sq \<ge> audio_pcm_timeline_write_seq t then None
      else let index = read_slot t sq
           in if sq \<ge> audio_pcm_timeline_oldest_seq t
              then Some \<lparr>frame_left = tl_frames t ! (index * 2), frame_right = tl_frames t ! (index * 2 + 1)\<rparr>
              else None)"

definition audio_pcm_timeline_pop :: "audio_pcm_timeline \<Rightarrow> audio_pcm_timeline \<times> audio_mixer_frame option" where
  "audio_pcm_timeline_pop t =
     (let play_seq = cur_low (tl_play t); write_seq = cur_low (tl_write t)
      in if write_seq - play_seq = 0 then (t, None)
         else let index = tl_play_index t; i = unat index;
                  out = \<lparr>frame_left = tl_frames t ! (i * 2), frame_right = tl_frames t ! (i * 2 + 1)\<rparr>;
                  index' = (if index + 1 \<ge> tl_capacity t then 0 else index + 1)
              in (t\<lparr>tl_play_index := index', tl_play := cursor_store_next (tl_play t) play_seq\<rparr>, Some out))"

definition audio_pcm_timeline_set_playhead :: "audio_pcm_timeline \<Rightarrow> u64 \<Rightarrow> audio_pcm_timeline \<times> bool" where
  "audio_pcm_timeline_set_playhead t sq =
     (if tl_capacity t = 0 \<or> sq < audio_pcm_timeline_oldest_seq t \<or> sq > audio_pcm_timeline_write_seq t then (t, False)
      else let write_seq = audio_pcm_timeline_write_seq t; frames_back = write_seq - sq
           in if frames_back > ucast (tl_capacity t) then (t, False)
              else let rewind = ucast frames_back;
                       index = (if tl_write_index t \<ge> rewind then tl_write_index t - rewind
                                else tl_write_index t + tl_capacity t - rewind)
                   in (t\<lparr>tl_play_index := index, tl_play := cursor_store_absolute (tl_play t) sq\<rparr>, True))"

definition audio_pcm_timeline_set_playhead_frames_back ::
    "audio_pcm_timeline \<Rightarrow> u32 \<Rightarrow> audio_pcm_timeline \<times> bool" where
  "audio_pcm_timeline_set_playhead_frames_back t frames_back =
     (let write_seq = audio_pcm_timeline_write_seq t; used = audio_pcm_timeline_used_frames t
      in if used = 0 \<or> frames_back \<ge> used then (t, False)
         else let newest = write_seq - 1; target = newest - ucast frames_back
              in audio_pcm_timeline_set_playhead t target)"

definition audio_pcm_timeline_drop_newest :: "audio_pcm_timeline \<Rightarrow> u32 \<Rightarrow> audio_pcm_timeline \<times> u32" where
  "audio_pcm_timeline_drop_newest t frames =
     (if tl_capacity t = 0 \<or> frames = 0 then (t, 0)
      else let write_seq = cur_low (tl_write t); play_seq = cur_low (tl_play t);
               runway = write_seq - play_seq;
               frames' = (if frames > runway then runway else frames)
           in if frames' = 0 then (t, 0)
              else let index = tl_write_index t;
                       index' = (if index \<ge> frames' then index - frames' else index + tl_capacity t - frames');
                       write_absolute = audio_pcm_timeline_write_seq t
                   in (t\<lparr>tl_write_index := index',
                         tl_write := cursor_store_absolute (tl_write t) (write_absolute - ucast frames')\<rparr>, frames'))"

section \<open>The timeline as a tape\<close>

text \<open>
  The specification: all frames ever kept, numbered from the last reset, of which those from \<open>tape_oldest\<close> on are
  still addressable and those from \<open>tape_play\<close> on are still to be played.  At most \<open>cap\<close> frames are retained;
  making room forgets the oldest one, but never one that is still to be played.
\<close>

record pcm_tape =
  tape :: "audio_mixer_frame list"
  tape_oldest :: nat
  tape_play :: nat

datatype tape_op = Tape_Push audio_mixer_frame | Tape_Pop | Tape_Read u64 | Tape_Seek u64 | Tape_Back u32 | Tape_Drop u32
  | Tape_Reset | Tape_Spans

definition tape_empty :: pcm_tape where
  "tape_empty = \<lparr>tape = [], tape_oldest = 0, tape_play = 0\<rparr>"

definition tape_seek :: "pcm_tape \<Rightarrow> nat \<Rightarrow> pcm_tape \<times> bool" where
  "tape_seek T n = (if tape_oldest T \<le> n \<and> n \<le> length (tape T) then (T\<lparr>tape_play := n\<rparr>, True) else (T, False))"

primrec tape_step :: "nat \<Rightarrow> pcm_tape \<Rightarrow> tape_op \<Rightarrow> pcm_tape \<times> pcm_result" where
  "tape_step cap T (Tape_Push f) =
     (if length (tape T) - tape_oldest T < cap then (T\<lparr>tape := tape T @ [f]\<rparr>, Accepted True)
      else if tape_oldest T < tape_play T
      then (T\<lparr>tape := tape T @ [f], tape_oldest := Suc (tape_oldest T)\<rparr>, Accepted True)
      else (T, Accepted False))"
| "tape_step cap T Tape_Pop =
     (if tape_play T < length (tape T) then (T\<lparr>tape_play := Suc (tape_play T)\<rparr>, Frame (Some (tape T ! tape_play T)))
      else (T, Frame None))"
| "tape_step cap T (Tape_Read n) =
     (T, Frame (if tape_oldest T \<le> unat n \<and> unat n < length (tape T) then Some (tape T ! unat n) else None))"
| "tape_step cap T (Tape_Seek n) = map_prod id Accepted (tape_seek T (unat n))"
| "tape_step cap T (Tape_Back n) =
     (if unat n < length (tape T) - tape_oldest T then map_prod id Accepted (tape_seek T (length (tape T) - 1 - unat n))
      else (T, Accepted False))"
| "tape_step cap T (Tape_Drop n) =
     (let k = min (unat n) (length (tape T) - tape_play T) in (T\<lparr>tape := take (length (tape T) - k) (tape T)\<rparr>, Count k))"
| "tape_step cap T Tape_Reset = (tape_empty, Count 0)"
| "tape_step cap T Tape_Spans =
     (T, Spans (tape_play T - tape_oldest T) (length (tape T) - tape_play T) (length (tape T) - tape_oldest T))"

primrec timeline_step :: "audio_pcm_timeline \<Rightarrow> tape_op \<Rightarrow> audio_pcm_timeline \<times> pcm_result" where
  "timeline_step t (Tape_Push f) = map_prod id Accepted (audio_pcm_timeline_push t (frame_left f) (frame_right f))"
| "timeline_step t Tape_Pop = map_prod id Frame (audio_pcm_timeline_pop t)"
| "timeline_step t (Tape_Read n) = (t, Frame (audio_pcm_timeline_read t n))"
| "timeline_step t (Tape_Seek n) = map_prod id Accepted (audio_pcm_timeline_set_playhead t n)"
| "timeline_step t (Tape_Back n) = map_prod id Accepted (audio_pcm_timeline_set_playhead_frames_back t n)"
| "timeline_step t (Tape_Drop n) = map_prod id (\<lambda>k. Count (unat k)) (audio_pcm_timeline_drop_newest t n)"
| "timeline_step t Tape_Reset = (audio_pcm_timeline_reset t, Count 0)"
| "timeline_step t Tape_Spans =
     (t, Spans (unat (audio_pcm_timeline_history_frames t)) (unat (audio_pcm_timeline_future_frames t))
               (unat (audio_pcm_timeline_used_frames t)))"

definition timeline_rep :: "nat \<Rightarrow> audio_pcm_timeline \<Rightarrow> pcm_tape \<Rightarrow> bool" where
  "timeline_rep cap t T \<longleftrightarrow>
     unat (tl_capacity t) = cap \<and> 0 < cap \<and> cap < 2 ^ 31 \<and> length (tl_frames t) = cap * 2 \<and>
     cursor_at (tl_oldest t) (tape_oldest T) \<and> cursor_at (tl_play t) (tape_play T) \<and>
     cursor_at (tl_write t) (length (tape T)) \<and> length (tape T) < 2 ^ 63 \<and>
     tape_oldest T \<le> tape_play T \<and> tape_play T \<le> length (tape T) \<and> length (tape T) - tape_oldest T \<le> cap \<and>
     unat (tl_write_index t) = length (tape T) mod cap \<and> unat (tl_play_index t) = tape_play T mod cap \<and>
     (\<forall>n. tape_oldest T \<le> n \<and> n < length (tape T) \<longrightarrow> stereo (tl_frames t) ! (n mod cap) = tape T ! n)"

subsection \<open>Physical indices\<close>

lemma advance_index:
  assumes "unat i = n mod c" "unat cap = c" "0 < c" "c < 2 ^ 31"
  shows "unat (if i + 1 \<ge> cap then 0 else i + 1 :: u32) = Suc n mod c"
proof -
  have "n mod c < c" using assms by simp
  then have "unat i < c" using assms(1) by simp
  then have "unat i < 2 ^ 32 - 1" using assms(4) by simp
  then have "unat (i + 1) = Suc (n mod c)" using assms(1) unat_plus1_bound [of i] by simp
  then show ?thesis using assms \<open>n mod c < c\<close> by (simp add: word_le_nat_alt mod_Suc)
qed

lemma mod_diff_cases:
  assumes "k \<le> n" "k \<le> (c::nat)" "0 < c"
  shows "(n - k) mod c = (if k \<le> n mod c then n mod c - k else n mod c + c - k)"
proof (cases "k \<le> n mod c")
  case True
  have "n - k = c * (n div c) + (n mod c - k)" using True by (simp add: mult_div_mod_eq algebra_simps)
  moreover have "n mod c - k < c" using assms(3) by (simp add: less_imp_diff_less)
  ultimately have "(n - k) mod c = n mod c - k" by (metis mod_mult_self4 mult.commute mod_less)
  then show ?thesis using True by simp
next
  case False
  have "n = c * (n div c) + n mod c" by simp
  then have "n div c \<noteq> 0" using False assms(1) by (cases "n div c") auto
  then obtain q where q: "n div c = Suc q" by (cases "n div c") auto
  have "n - k = c * q + (n mod c + c - k)" using \<open>n = c * (n div c) + n mod c\<close> q assms by (simp add: algebra_simps)
  moreover have "r + c - k < c" if "\<not> k \<le> r" for r using that assms(2) by arith
  note this [OF False]
  ultimately show ?thesis using False by simp
qed

lemma rewind_index:
  assumes "unat i = n mod c" "unat cap = c" "0 < c" "c < 2 ^ 31" "unat k \<le> n" "unat k \<le> c"
  shows "unat (if i \<ge> k then i - k else i + cap - k :: u32) = (n - unat k) mod c"
proof (cases "i \<ge> k")
  case True
  then show ?thesis using assms mod_diff_cases [of "unat k" n c] by (simp add: word_le_nat_alt unat_sub)
next
  case False
  have b: "n mod c < c" using assms by simp
  have s: "unat (i + cap) = n mod c + c" using assms b by (simp add: unat_word_ariths)
  then have "k \<le> i + cap" using assms by (simp add: word_le_nat_alt)
  then show ?thesis using False assms s mod_diff_cases [of "unat k" n c] by (simp add: word_le_nat_alt unat_sub)
qed

lemma wrapped_once:
  fixes c p s :: int
  assumes "0 < c" "- c \<le> s - p" "s - p < c" 
  shows "(let i0 = p mod c + (s - p); i1 = (if i0 < 0 then i0 + c else i0) in if i1 \<ge> c then i1 - c else i1) = s mod c"
    (is "?i = _")
proof -
  obtain q where q: "p mod c = q" by simp
  have "0 \<le> q" "q < c" using assms(1) by (simp_all add: q [symmetric])
  then have "0 \<le> ?i" "?i < c" using assms(2,3) unfolding Let_def q by (auto split: if_split)
  moreover have "?i mod c = s mod c"
    by (simp add: Let_def mod_simps)
  ultimately show ?thesis by simp
qed

lemma mod_neq_near:
  assumes "s < n" "n - s < (c::nat)"
  shows "s mod c \<noteq> n mod c"
  using mod_add_neq [of 0 "n - s" c s] assms by simp

subsection \<open>Every operation\<close>

lemma rep_spans:
  assumes "timeline_rep cap t T"
  shows "unat (cur_low (tl_write t) - cur_low (tl_oldest t)) = length (tape T) - tape_oldest T"
    and "unat (cur_low (tl_write t) - cur_low (tl_play t)) = length (tape T) - tape_play T"
    and "unat (cur_low (tl_play t) - cur_low (tl_oldest t)) = tape_play T - tape_oldest T"
proof -
  let ?n = "length (tape T)" and ?o = "tape_oldest T" and ?p = "tape_play T"
  have c: "cursor_at (tl_oldest t) ?o" "cursor_at (tl_play t) ?p" "cursor_at (tl_write t) ?n"
    and b: "cap < 2 ^ 31" "?o \<le> ?p" "?p \<le> ?n" "?n - ?o \<le> cap" using assms by (auto simp: timeline_rep_def)
  have "?n - ?o < 2 ^ 32" "?n - ?p < 2 ^ 32" "?p - ?o < 2 ^ 32" "?o \<le> ?n" using b by auto
  then show "unat (cur_low (tl_write t) - cur_low (tl_oldest t)) = ?n - ?o"
    "unat (cur_low (tl_write t) - cur_low (tl_play t)) = ?n - ?p" "unat (cur_low (tl_play t) - cur_low (tl_oldest t)) = ?p - ?o"
    using c b(2,3) by (simp_all add: low_distance)
qed

lemma rep_seqs:
  assumes "timeline_rep cap t T"
  shows "unat (audio_pcm_timeline_oldest_seq t) = tape_oldest T" "unat (audio_pcm_timeline_play_seq t) = tape_play T"
    "unat (audio_pcm_timeline_write_seq t) = length (tape T)"
  using assms by (simp_all add: timeline_rep_def audio_pcm_timeline_oldest_seq_def audio_pcm_timeline_play_seq_def
      audio_pcm_timeline_write_seq_def load_unat)

lemma rep_capacity: "timeline_rep cap t T \<Longrightarrow> tl_capacity t \<noteq> 0"
  by (auto simp: timeline_rep_def)

lemma rep_append:
  assumes r: "timeline_rep cap t T" and o: "tape_oldest T \<le> p" "p \<le> tape_play T" "length (tape T) - p < cap"
    and len: "length (tape T) < 2 ^ 63 - 1" and c: "cursor_at c p"
  defines "i \<equiv> tl_write_index t"
  shows "timeline_rep cap
    (t\<lparr>tl_oldest := c, tl_frames := (tl_frames t)[unat i * 2 := l, unat i * 2 + 1 := rr],
       tl_write_index := (if i + 1 \<ge> tl_capacity t then 0 else i + 1),
       tl_write := cursor_store_next (tl_write t) (cur_low (tl_write t))\<rparr>)
    (T\<lparr>tape := tape T @ [\<lparr>frame_left = l, frame_right = rr\<rparr>], tape_oldest := p\<rparr>)"
proof -
  let ?n = "length (tape T)"
  have R: "unat (tl_capacity t) = cap" "0 < cap" "cap < 2 ^ 31" "length (tl_frames t) = cap * 2" "unat i = ?n mod cap"
    "cursor_at (tl_write t) ?n" using r by (auto simp: timeline_rep_def i_def)
  have ib: "unat i < length (tl_frames t) div 2" using R by simp
  have "cursor_at (cursor_store_next (tl_write t) (cur_low (tl_write t))) (Suc ?n)"
    using cursor_at_next [OF R(6)] len by simp
  moreover have "stereo ((tl_frames t)[unat i * 2 := l, unat i * 2 + 1 := rr]) ! (m mod cap)
      = (tape T @ [\<lparr>frame_left = l, frame_right = rr\<rparr>]) ! m" if m: "p \<le> m" "m < Suc ?n" for m
  proof (cases "m = ?n")
    case True
    then show ?thesis using stereo_store [OF ib, of l rr] R by simp
  next
    case False
    then have "m mod cap \<noteq> ?n mod cap" using mod_neq_near [of m ?n cap] m o(3) by simp
    then show ?thesis
      using stereo_store [OF ib, of l rr] R r m o(1) False unfolding timeline_rep_def by (simp add: nth_append)
  qed
  ultimately show ?thesis
    using r o c len advance_index [OF R(5,1,2,3)] unfolding timeline_rep_def by auto
qed

lemma push_rep:
  assumes r: "timeline_rep cap t T" and len: "length (tape T) < 2 ^ 63 - 1"
  shows "timeline_rep cap (fst (timeline_step t (Tape_Push f))) (fst (tape_step cap T (Tape_Push f)))
     \<and> snd (timeline_step t (Tape_Push f)) = snd (tape_step cap T (Tape_Push f))"
proof -
  let ?n = "length (tape T)" and ?o = "tape_oldest T"
  note sp = rep_spans [OF r] and c0 = rep_capacity [OF r]
  have R: "unat (tl_capacity t) = cap" "?o \<le> tape_play T" "tape_play T \<le> ?n" "?n - ?o \<le> cap" "cursor_at (tl_oldest t) ?o"
    "?n < 2 ^ 63" using r by (auto simp: timeline_rep_def)
  have full: "cur_low (tl_write t) - cur_low (tl_oldest t) \<ge> tl_capacity t \<longleftrightarrow> \<not> ?n - ?o < cap"
    using sp(1) R(1) by (simp add: word_le_nat_alt not_less)
  have none: "cur_low (tl_play t) - cur_low (tl_oldest t) = 0 \<longleftrightarrow> \<not> ?o < tape_play T"
    using sp(3) R(2) by (auto simp: word_unat_eq_iff)
  show ?thesis
  proof (cases "?n - ?o < cap")
    case True
    then show ?thesis using rep_append [OF r order_refl R(2) _ len R(5), where l = "frame_left f" and rr = "frame_right f"] full c0
      by (simp add: audio_pcm_timeline_push_def Let_def split del: if_split)
  next
    case nr: False
    show ?thesis
    proof (cases "?o < tape_play T")
      case True
      have "cursor_at (cursor_store_next (tl_oldest t) (cur_low (tl_oldest t))) (Suc ?o)"
        using cursor_at_next [OF R(5)] R(2,3,6) by simp
      note c = this
      have "?o \<le> Suc ?o" "Suc ?o \<le> tape_play T" "?n - Suc ?o < cap" using True R(3,4) by auto
      from rep_append [OF r this len c, where l = "frame_left f" and rr = "frame_right f"]
      show ?thesis using True nr full none c0
        by (simp add: audio_pcm_timeline_push_def Let_def split del: if_split cong: if_cong)
    next
      case False
      then show ?thesis using nr r full none c0 by (simp add: audio_pcm_timeline_push_def Let_def)
    qed
  qed
qed

lemma pop_rep:
  assumes r: "timeline_rep cap t T"
  shows "timeline_rep cap (fst (timeline_step t Tape_Pop)) (fst (tape_step cap T Tape_Pop))
     \<and> snd (timeline_step t Tape_Pop) = snd (tape_step cap T Tape_Pop)"
proof -
  have R: "unat (tl_capacity t) = cap" "0 < cap" "cap < 2 ^ 31" "length (tl_frames t) = cap * 2"
    "unat (tl_play_index t) = tape_play T mod cap" "cursor_at (tl_play t) (tape_play T)" "tape_play T \<le> length (tape T)"
    "tape_oldest T \<le> tape_play T" "length (tape T) < 2 ^ 63"
    using r by (auto simp: timeline_rep_def)
  have e: "cur_low (tl_write t) - cur_low (tl_play t) = 0 \<longleftrightarrow> \<not> tape_play T < length (tape T)"
    using rep_spans(2) [OF r] R(7) by (auto simp: word_unat_eq_iff)
  show ?thesis
  proof (cases "tape_play T < length (tape T)")
    case True
    have "tape_play T < 2 ^ 64 - 1" using R(9) True by simp
    note c = cursor_at_next [OF R(6) this]
    have "unat (tl_play_index t) < length (tl_frames t) div 2" using R by simp
    note s = stereo_nth [OF this]
    have "stereo (tl_frames t) ! (tape_play T mod cap) = tape T ! tape_play T" using r True by (simp add: timeline_rep_def)
    then show ?thesis using True e r c s R(5) advance_index [OF R(5,1,2,3)]
      by (simp add: audio_pcm_timeline_pop_def Let_def timeline_rep_def)
  qed (use r e in \<open>simp add: audio_pcm_timeline_pop_def Let_def\<close>)
qed

lemma read_rep:
  assumes r: "timeline_rep cap t T"
  shows "audio_pcm_timeline_read t n =
    (if tape_oldest T \<le> unat n \<and> unat n < length (tape T) then Some (tape T ! unat n) else None)"
proof (cases "tape_oldest T \<le> unat n \<and> unat n < length (tape T)")
  case True
  let ?c = "int cap" and ?p = "int (tape_play T)" and ?s = "int (unat n)"
  have R: "unat (tl_capacity t) = cap" "0 < cap" "cap < 2 ^ 31" "length (tl_frames t) = cap * 2"
    "unat (tl_play_index t) = tape_play T mod cap" "tape_play T \<le> length (tape T)" "tape_oldest T \<le> tape_play T"
    "length (tape T) < 2 ^ 63" "length (tape T) - tape_oldest T \<le> cap"
    "stereo (tl_frames t) ! (unat n mod cap) = tape T ! unat n"
    using r True by (auto simp: timeline_rep_def)
  have s: "sint n = ?s" "sint (audio_pcm_timeline_play_seq t) = ?p"
    using sint_unat [of n] sint_unat [of "audio_pcm_timeline_play_seq t"] rep_seqs(2) [OF r] True R by simp_all
  have "- ?c \<le> ?s - ?p" "?s - ?p < ?c" using True R by linarith+
  note w = wrapped_once [OF _ this, unfolded Let_def]
  have "unat (word_of_int (int (unat n mod cap)) :: u32) = unat n mod cap"
    using R(2,3) by (simp add: unsigned_of_nat take_bit_nat_eq_self less_trans [OF mod_less_divisor [of cap "unat n"]])
  then have "read_slot t n = unat n mod cap"
    using w R(2) unfolding read_slot_def Let_def s R(1,5) zmod_int by (simp only: of_nat_0_less_iff)
  then show ?thesis
    using True R(2,4,10) rep_seqs [OF r] rep_capacity [OF r] stereo_nth [of "unat n mod cap" "tl_frames t"]
    by (simp add: audio_pcm_timeline_read_def Let_def word_le_nat_alt word_less_nat_alt)
next
  case False
  then show ?thesis using rep_seqs [OF r] rep_capacity [OF r]
    by (auto simp: audio_pcm_timeline_read_def Let_def word_le_nat_alt word_less_nat_alt)
qed

lemma ucast_unat: "unat w < 2 ^ 32 \<Longrightarrow> unat (ucast (w :: u64) :: u32) = unat w"
  by (simp add: unsigned_ucast_eq take_bit_nat_eq_self)

lemma ucast_up_unat [simp]: "unat (ucast (w :: u32) :: u64) = unat w"
  by (simp add: unsigned_ucast_eq take_bit_nat_eq_self less_trans [OF unsigned_less [of w]])

lemma of_nat_unat_eq: "unat w = n \<Longrightarrow> w = (of_nat n :: u64)"
  by auto

lemma seek_rep:
  assumes r: "timeline_rep cap t T"
  shows "timeline_rep cap (fst (audio_pcm_timeline_set_playhead t n)) (fst (tape_seek T (unat n)))
     \<and> snd (audio_pcm_timeline_set_playhead t n) = snd (tape_seek T (unat n))"
proof (cases "tape_oldest T \<le> unat n \<and> unat n \<le> length (tape T)")
  case True
  let ?b = "audio_pcm_timeline_write_seq t - n"
  have R: "unat (tl_capacity t) = cap" "0 < cap" "cap < 2 ^ 31" "unat (tl_write_index t) = length (tape T) mod cap"
    "length (tape T) < 2 ^ 63" "length (tape T) - tape_oldest T \<le> cap" "even (cur_version (tl_play t))"
    using r by (auto simp: timeline_rep_def cursor_at_def)
  have b: "unat ?b = length (tape T) - unat n" using True rep_seqs(3) [OF r] by (simp add: unat_sub word_le_nat_alt)
  have bc: "length (tape T) - unat n \<le> cap" using True R(6) by linarith
  then have "unat ?b < 2 ^ 32" using b R(3) by simp
  then have u: "unat (ucast ?b :: u32) = length (tape T) - unat n" using ucast_unat [of ?b] b by simp
  have "cursor_at (cursor_store_absolute (tl_play t) (of_nat (unat n))) (unat n)"
    using cursor_at_absolute [OF R(7), of "unat n"] unsigned_less [of n] by (simp only: len_num1 len_bit0) simp
  then have c: "cursor_at (cursor_store_absolute (tl_play t) n) (unat n)" by simp
  have "unat (ucast ?b :: u32) \<le> length (tape T)" "unat (ucast ?b :: u32) \<le> cap" using u R(6) True by auto
  note ri = rewind_index [OF R(4,1,2,3) this]
  have "\<not> ?b > ucast (tl_capacity t)" using b R(1) bc by (simp add: word_less_nat_alt)
  moreover have "length (tape T) - (length (tape T) - unat n) = unat n" using True by simp
  ultimately show ?thesis
    using True r rep_seqs [OF r] rep_capacity [OF r] c ri u
    by (simp add: audio_pcm_timeline_set_playhead_def Let_def tape_seek_def timeline_rep_def word_less_nat_alt split del: if_split)
next
  case False
  then show ?thesis using r rep_seqs [OF r]
    by (auto simp: audio_pcm_timeline_set_playhead_def tape_seek_def Let_def word_less_nat_alt)
qed

lemma back_rep:
  assumes r: "timeline_rep cap t T"
  shows "timeline_rep cap (fst (timeline_step t (Tape_Back n))) (fst (tape_step cap T (Tape_Back n)))
     \<and> snd (timeline_step t (Tape_Back n)) = snd (tape_step cap T (Tape_Back n))"
proof -
  let ?n = "length (tape T)"
  have u: "unat (audio_pcm_timeline_used_frames t) = ?n - tape_oldest T"
    using rep_spans(1) [OF r] by (simp add: audio_pcm_timeline_used_frames_def)
  have e: "audio_pcm_timeline_used_frames t = 0 \<or> audio_pcm_timeline_used_frames t \<le> n \<longleftrightarrow> \<not> unat n < ?n - tape_oldest T"
    using u by (auto simp: word_le_nat_alt not_less unat_eq_0)
  show ?thesis
  proof (cases "unat n < ?n - tape_oldest T")
    case True
    let ?w = "audio_pcm_timeline_write_seq t"
    have w: "unat (?w - 1) = ?n - 1" using rep_seqs(3) [OF r] True by (simp add: unat_sub word_le_nat_alt)
    then have "unat (?w - 1 - ucast n) = ?n - 1 - unat n" using True by (subst unat_sub) (simp_all add: word_le_nat_alt)
    then show ?thesis using True e seek_rep [OF r, of "?w - 1 - ucast n"]
      by (simp add: audio_pcm_timeline_set_playhead_frames_back_def Let_def)
  qed (use r e in \<open>simp add: audio_pcm_timeline_set_playhead_frames_back_def Let_def\<close>)
qed

lemma rep_truncate:
  assumes "timeline_rep cap t T" "tape_play T \<le> m" "m \<le> length (tape T)" "cursor_at c m" "unat i = m mod cap"
  shows "timeline_rep cap (t\<lparr>tl_write_index := i, tl_write := c\<rparr>) (T\<lparr>tape := take m (tape T)\<rparr>)"
  using assms unfolding timeline_rep_def by (auto simp: min_def)

lemma drop_rep:
  assumes r: "timeline_rep cap t T"
  shows "timeline_rep cap (fst (timeline_step t (Tape_Drop n))) (fst (tape_step cap T (Tape_Drop n)))
     \<and> snd (timeline_step t (Tape_Drop n)) = snd (tape_step cap T (Tape_Drop n))"
proof -
  let ?run = "cur_low (tl_write t) - cur_low (tl_play t)" and ?n = "length (tape T)"
  let ?m = "min n ?run" and ?w = "audio_pcm_timeline_write_seq t"
  define k where "k = min (unat n) (?n - tape_play T)"
  have R: "unat (tl_capacity t) = cap" "0 < cap" "cap < 2 ^ 31" "unat (tl_write_index t) = ?n mod cap"
    "?n < 2 ^ 63" "?n - tape_oldest T \<le> cap" "even (cur_version (tl_write t))" "tape_oldest T \<le> tape_play T"
    using r by (auto simp: timeline_rep_def cursor_at_def)
  have m: "unat ?m = k" using rep_spans(2) [OF r] by (simp add: k_def min_def word_le_nat_alt)
  have k: "k \<le> ?n" "k \<le> cap" "tape_play T \<le> ?n - k" using R(6,8) r by (auto simp: k_def timeline_rep_def)
  show ?thesis
  proof (cases "k = 0")
    case True
    have "?m = 0" using m True by (simp add: unat_eq_0)
    then show ?thesis using r True k_def
      by (auto simp: audio_pcm_timeline_drop_newest_def Let_def min_def word_neq_0_conv split: if_splits)
  next
    case False
    have d: "audio_pcm_timeline_drop_newest t n =
        (t\<lparr>tl_write_index := (if tl_write_index t \<ge> ?m then tl_write_index t - ?m else tl_write_index t + tl_capacity t - ?m),
           tl_write := cursor_store_absolute (tl_write t) (?w - ucast ?m)\<rparr>, ?m)"
      using False m rep_capacity [OF r]
      by (auto simp: audio_pcm_timeline_drop_newest_def Let_def min_def)
    have "unat (?w - ucast ?m) = ?n - k" using rep_seqs(3) [OF r] m k(1) by (subst unat_sub) (simp_all add: word_le_nat_alt)
    then have "?w - ucast ?m = of_nat (?n - k)" by (rule of_nat_unat_eq)
    then have c: "cursor_at (cursor_store_absolute (tl_write t) (?w - ucast ?m)) (?n - k)"
      using cursor_at_absolute [OF R(7), of "?n - k"] R(5) by simp
    have "unat ?m \<le> ?n" "unat ?m \<le> cap" using m k by simp_all
    note ri = rewind_index [OF R(4,1,2,3) this, unfolded m]
    show ?thesis using rep_truncate [OF r k(3) _ c ri] d m k_def [symmetric]
      by (simp add: Let_def split del: if_split)
  qed
qed

lemma timeline_step_rep:
  assumes "timeline_rep cap t T" "length (tape T) < 2 ^ 63 - 1"
  shows "timeline_rep cap (fst (timeline_step t x)) (fst (tape_step cap T x))
     \<and> snd (timeline_step t x) = snd (tape_step cap T x) \<and> length (tape (fst (tape_step cap T x))) \<le> Suc (length (tape T))"
proof -
  have "length (tape (fst (tape_step cap T x))) \<le> Suc (length (tape T))"
    by (cases x) (auto simp: tape_seek_def tape_empty_def Let_def)
  moreover have "timeline_rep cap (fst (timeline_step t x)) (fst (tape_step cap T x))
     \<and> snd (timeline_step t x) = snd (tape_step cap T x)"
  proof (cases x)
    case Tape_Reset
    then show ?thesis using assms(1) by (simp add: timeline_rep_def audio_pcm_timeline_reset_def tape_empty_def Let_def)
  next
    case Tape_Spans
    then show ?thesis using assms(1) rep_spans [OF assms(1)]
      by (simp add: audio_pcm_timeline_history_frames_def audio_pcm_timeline_future_frames_def audio_pcm_timeline_used_frames_def)
  qed (use assms seek_rep [OF assms(1)] read_rep [OF assms(1)] push_rep [OF assms] pop_rep [OF assms(1)]
        back_rep [OF assms(1)] drop_rep [OF assms(1)] in \<open>simp_all del: timeline_step.simps(1,2,5,6) tape_step.simps(1,2,5,6)\<close>)
  ultimately show ?thesis by simp
qed

lemma timeline_results:
  "timeline_rep cap t T \<Longrightarrow> length (tape T) + length ops < 2 ^ 63 \<Longrightarrow>
   results timeline_step t ops = results (tape_step cap) T ops"
proof (induction ops arbitrary: t T)
  case (Cons x ops)
  have "length (tape T) < 2 ^ 63 - 1" using Cons.prems(2) by simp
  note s = timeline_step_rep [OF Cons.prems(1) this, of x]
  then have "length (tape (fst (tape_step cap T x))) + length ops < 2 ^ 63" using Cons.prems(2) by simp
  then show ?case using s Cons.IH [of "fst (timeline_step t x)" "fst (tape_step cap T x)"] by (simp add: case_prod_beta)
qed simp

lemma timeline_rep_init:
  assumes "0 < capacity" "capacity < 0x80000000" "length storage = unat capacity * 2"
  shows "timeline_rep (unat capacity) (audio_pcm_timeline_init t storage capacity) tape_empty"
  using assms unat_mono [OF assms(2)]
  by (simp add: timeline_rep_def audio_pcm_timeline_init_def audio_pcm_timeline_reset_def tape_empty_def Let_def word_less_nat_alt)

section \<open>Properties\<close>

text \<open>
  Claim C36.  Whatever the decoder pushes, withdraws and resets and the output pops, every call on the ring returns what
  the same call returns on a queue of at most 8191 frames: frames come out in order and unchanged, also across the
  wrap-around of the 32-bit counters.
\<close>

theorem pcm_ring_refines_queue:
  "results ring_step audio_pcm_ring_zero ops = results queue_step [] ops"
  by (rule results_refine [where R = "\<lambda>q xs. pcm_ring_inv q \<and> ring_unread q = xs"])
    (use ring_step_refines in \<open>auto simp: ring_zero\<close>)

text \<open>
  Claim C33.  The timeline behaves like a tape: a pop returns the frame at the playhead, a read by its number returns exactly
  the frame that was pushed under that number or nothing, the playhead moves to any retained frame, a frame that is
  still to be played is never overwritten, and the newest unplayed frames can be taken back.
\<close>

theorem timeline_refines_tape:
  assumes "0 < capacity" "capacity < 0x80000000" "length storage = unat capacity * 2" "length ops < 2 ^ 63"
  shows "results timeline_step (audio_pcm_timeline_init t storage capacity) ops =
    results (tape_step (unat capacity)) tape_empty ops"
  using timeline_results [OF timeline_rep_init [OF assms(1-3), of t]] assms(4) by (simp add: tape_empty_def)

definition sample_frame :: "i16 \<Rightarrow> audio_mixer_frame" where
  "sample_frame v = \<lparr>frame_left = v, frame_right = - v\<rparr>"

theorem timeline_refines_tape_witness:
  "results timeline_step (audio_pcm_timeline_init audio_pcm_timeline_zero [0, 0, 0, 0] 2)
     [Tape_Push (sample_frame 1), Tape_Push (sample_frame 2), Tape_Push (sample_frame 3), Tape_Pop, Tape_Push (sample_frame 4),
      Tape_Read 0, Tape_Read 2] =
   [Accepted True, Accepted True, Accepted False, Frame (Some (sample_frame 1)), Accepted True, Frame None,
    Frame (Some (sample_frame 4))]"
  by (subst timeline_refines_tape) (simp_all add: tape_empty_def)

end
