(* ===== verification/Wav_File.thy ===== *)
theory Wav_File
  imports Prelude
begin

text \<open>
  WAV files: the format detection (\<open>audio_format.c\<close>), the decoder the decks play WAV tracks with
  (\<open>audio_wav_decoder.c\<close>, \<open>audio_decoder.c\<close>) and the header helpers of the master recorder
  (\<open>audio_recorder_wav.c\<close>).  A file is its bytes with a read position; reading stops at the end of the
  file.  A \<open>long\<close> has 32 bits on the RV32 target and is a word read with \<open>sint\<close>.  Samples are the
  little-endian 16-bit words of the target's memory.
\<close>

section \<open>Files open for reading\<close>

record in_file =
  f_data :: "u8 list"
  f_pos :: nat

definition fread :: "nat \<Rightarrow> in_file \<Rightarrow> in_file \<times> u8 list" where
  "fread n fp = (let got = take n (drop (f_pos fp) (f_data fp)) in (fp\<lparr>f_pos := f_pos fp + length got\<rparr>, got))"

definition read_exact :: "nat \<Rightarrow> in_file \<Rightarrow> in_file \<times> u8 list option" where
  "read_exact n fp = (let (fp', got) = fread n fp in (fp', if length got = n then Some got else None))"

definition seek_file :: "u32 \<Rightarrow> in_file \<Rightarrow> in_file \<times> bool" where
  "seek_file off fp = (if sint off < 0 then (fp, False) else (fp\<lparr>f_pos := unat off\<rparr>, True))"

definition tell_file :: "in_file \<Rightarrow> u32" where
  "tell_file fp = of_nat (f_pos fp)"

section \<open>Format detection\<close>

datatype audio_format = AUDIO_FORMAT_UNKNOWN | AUDIO_FORMAT_MP3 | AUDIO_FORMAT_WAV | AUDIO_FORMAT_FLAC

text \<open>The bytes of the tags the code compares with.\<close>

definition tag_RIFF :: "u8 list" where "tag_RIFF = [0x52, 0x49, 0x46, 0x46]"
definition tag_WAVE :: "u8 list" where "tag_WAVE = [0x57, 0x41, 0x56, 0x45]"
definition tag_fmt :: "u8 list" where "tag_fmt = [0x66, 0x6D, 0x74, 0x20]"
definition tag_data :: "u8 list" where "tag_data = [0x64, 0x61, 0x74, 0x61]"

lemmas tag_defs = tag_RIFF_def tag_WAVE_def tag_fmt_def tag_data_def

definition audio_format_detect_header :: "u8 list \<Rightarrow> audio_format" where
  "audio_format_detect_header data =
     (let len = length data
      in if len < 3 then AUDIO_FORMAT_UNKNOWN
         else if len \<ge> 12 \<and> take 4 data = tag_RIFF \<and> take 4 (drop 8 data) = tag_WAVE then AUDIO_FORMAT_WAV
         else if len \<ge> 4 \<and> take 4 data = [0x66, 0x4C, 0x61, 0x43] then AUDIO_FORMAT_FLAC
         else if take 3 data = [0x49, 0x44, 0x33] then AUDIO_FORMAT_MP3
         else if len \<ge> 2 \<and> data ! 0 = 0xFF \<and> data ! 1 AND 0xE0 = 0xE0 then AUDIO_FORMAT_MP3
         else AUDIO_FORMAT_UNKNOWN)"

definition ascii_lower :: "char \<Rightarrow> char" where
  "ascii_lower a = (if (of_char a :: nat) \<ge> 65 \<and> (of_char a :: nat) \<le> 90 then char_of (of_char a + 32 :: nat) else a)"

definition ascii_ieq :: "char \<Rightarrow> char \<Rightarrow> bool" where
  "ascii_ieq a b \<longleftrightarrow> ascii_lower a = ascii_lower b"

definition ends_with_ext :: "string \<Rightarrow> string \<Rightarrow> bool" where
  "ends_with_ext path ext =
     (if length path < length ext then False
      else list_all2 ascii_ieq (drop (length path - length ext) path) ext)"

definition audio_format_detect_path :: "string \<Rightarrow> audio_format" where
  "audio_format_detect_path path =
     (if ends_with_ext path ''.mp3'' then AUDIO_FORMAT_MP3
      else if ends_with_ext path ''.wav'' \<or> ends_with_ext path ''.wave'' then AUDIO_FORMAT_WAV
      else if ends_with_ext path ''.flac'' then AUDIO_FORMAT_FLAC
      else AUDIO_FORMAT_UNKNOWN)"

primrec audio_format_name :: "audio_format \<Rightarrow> string" where
  "audio_format_name AUDIO_FORMAT_MP3 = ''MP3''"
| "audio_format_name AUDIO_FORMAT_WAV = ''WAV''"
| "audio_format_name AUDIO_FORMAT_FLAC = ''FLAC''"
| "audio_format_name AUDIO_FORMAT_UNKNOWN = ''UNKNOWN''"

section \<open>The WAV decoder\<close>

abbreviation (input) WAV_READ_FRAMES :: nat where "WAV_READ_FRAMES \<equiv> 512"

record wav_decoder_impl =
  w_fp :: in_file
  data_offset :: u32
  data_size :: u32
  block_align :: u16
  channels :: u16
  bits_per_sample :: u16
  current_frame :: nat
  total_frames :: nat

record audio_decoder_info =
  info_format :: audio_format
  info_sample_rate :: u32
  info_channels :: u8
  info_bits_per_sample :: u8
  info_total_frames :: nat

text \<open>The locals of the chunk loop.\<close>

record wav_scan =
  have_fmt :: bool
  have_data :: bool
  audio_format_tag :: u16
  scan_sample_rate :: u32

definition wav_chunk :: "u8 list \<Rightarrow> u32 \<Rightarrow> wav_decoder_impl \<Rightarrow> wav_scan \<Rightarrow> (wav_decoder_impl \<times> wav_scan) option" where
  "wav_chunk chunk chunk_payload w sc =
     (let chunk_size = rd_u32 chunk 4
      in if take 4 chunk = tag_fmt then
           (if chunk_size < 16 then None
            else case read_exact 16 (w_fp w) of
              (fp, None) \<Rightarrow> None
            | (fp, Some fmt) \<Rightarrow>
                Some (w\<lparr>w_fp := fp, channels := rd_u16 fmt 2, block_align := rd_u16 fmt 12, bits_per_sample := rd_u16 fmt 14\<rparr>,
                      sc\<lparr>audio_format_tag := rd_u16 fmt 0, scan_sample_rate := rd_u32 fmt 4, have_fmt := True\<rparr>))
         else if take 4 chunk = tag_data then
           Some (w\<lparr>data_offset := chunk_payload, data_size := chunk_size\<rparr>, sc\<lparr>have_data := True\<rparr>)
         else Some (w, sc))"

text \<open>
  The chunk loop.  Nothing in it bounds the number of rounds, so it is a partial function: the value
  \<open>None\<close> is a loop that never ends.
\<close>

partial_function (option) wav_chunks ::
    "wav_decoder_impl \<Rightarrow> wav_scan \<Rightarrow> (esp_err + wav_decoder_impl \<times> wav_scan) option" where
  "wav_chunks w sc =
     (if have_data sc then Some (Inr (w, sc))
      else case read_exact 8 (w_fp w) of
        (fp, None) \<Rightarrow> Some (Inr (w\<lparr>w_fp := fp\<rparr>, sc))
      | (fp, Some chunk) \<Rightarrow>
          let chunk_size = rd_u32 chunk 4; chunk_payload = tell_file fp
          in if sint chunk_payload < 0 then Some (Inl ESP_FAIL)
             else case wav_chunk chunk chunk_payload (w\<lparr>w_fp := fp\<rparr>) sc of
               None \<Rightarrow> Some (Inl ESP_FAIL)
             | Some (w1, sc1) \<Rightarrow>
                 (case seek_file (chunk_payload + chunk_size + (chunk_size AND 1)) (w_fp w1) of
                    (fp1, ok) \<Rightarrow> if ok then wav_chunks (w1\<lparr>w_fp := fp1\<rparr>) sc1 else Some (Inl ESP_FAIL)))"

definition wav_parse :: "wav_decoder_impl \<Rightarrow> (esp_err + wav_decoder_impl \<times> audio_decoder_info) option" where
  "wav_parse w =
     (case read_exact 12 (w_fp w) of
        (fp, None) \<Rightarrow> Some (Inl ESP_FAIL)
      | (fp, Some hdr) \<Rightarrow>
          if audio_format_detect_header hdr \<noteq> AUDIO_FORMAT_WAV then Some (Inl ESP_ERR_NOT_SUPPORTED)
          else Option.bind (wav_chunks (w\<lparr>w_fp := fp\<rparr>)
                  \<lparr>have_fmt = False, have_data = False, audio_format_tag = 0, scan_sample_rate = 0\<rparr>)
            (\<lambda>r. Some (case r of
                 Inl e \<Rightarrow> Inl e
               | Inr (w1, sc) \<Rightarrow>
                   if \<not> have_fmt sc \<or> \<not> have_data sc \<or> audio_format_tag sc \<noteq> 1 then Inl ESP_ERR_NOT_SUPPORTED
                   else if channels w1 \<noteq> 1 \<and> channels w1 \<noteq> 2 \<or> bits_per_sample w1 \<noteq> 16 then Inl ESP_ERR_NOT_SUPPORTED
                   else if block_align w1 \<noteq> channels w1 * 2 \<or> block_align w1 = 0 then Inl ESP_FAIL
                   else
                     let w2 = w1\<lparr>total_frames := unat (data_size w1) div unat (block_align w1)\<rparr>;
                         info = \<lparr>info_format = AUDIO_FORMAT_WAV, info_sample_rate = scan_sample_rate sc,
                                 info_channels = ucast (channels w2), info_bits_per_sample = ucast (bits_per_sample w2),
                                 info_total_frames = total_frames w2\<rparr>
                     in (case seek_file (data_offset w2) (w_fp w2) of
                           (fp2, True) \<Rightarrow> Inr (w2\<lparr>w_fp := fp2\<rparr>, info)
                         | (fp2, False) \<Rightarrow> Inl ESP_FAIL))))"

definition audio_wav_decoder_open :: "u8 list option \<Rightarrow> (esp_err + wav_decoder_impl \<times> audio_decoder_info) option" where
  "audio_wav_decoder_open contents =
     (case contents of None \<Rightarrow> Some (Inl ESP_ERR_NOT_FOUND)
      | Some data \<Rightarrow>
          wav_parse \<lparr>w_fp = \<lparr>f_data = data, f_pos = 0\<rparr>, data_offset = 0, data_size = 0, block_align = 0, channels = 0,
                     bits_per_sample = 0, current_frame = 0, total_frames = 0\<rparr>)"

text \<open>The sample pairs of the frames in a block that was read.\<close>

definition wav_frames :: "wav_decoder_impl \<Rightarrow> u8 list \<Rightarrow> nat \<Rightarrow> i16 list" where
  "wav_frames w blk n =
     concat (map (\<lambda>i. let p = i * unat (block_align w)
                      in if channels w = 1 then [rd_u16 blk p, rd_u16 blk p] else [rd_u16 blk p, rd_u16 blk (p + 2)]) [0..<n])"

function wav_read_loop :: "wav_decoder_impl \<Rightarrow> nat \<Rightarrow> nat \<Rightarrow> i16 list \<Rightarrow> wav_decoder_impl \<times> nat \<times> i16 list" where
  "wav_read_loop w frames_requested produced out =
     (if produced < frames_requested \<and> current_frame w < total_frames w then
        let remaining = frames_requested - produced;
            batch0 = (if remaining < WAV_READ_FRAMES then remaining else WAV_READ_FRAMES);
            frames_left = total_frames w - current_frame w;
            batch = (if batch0 > frames_left then frames_left else batch0);
            (fp, got) = fread (batch * unat (block_align w)) (w_fp w);
            got_frames = length got div unat (block_align w);
            w1 = w\<lparr>w_fp := fp\<rparr>
        in if got_frames = 0 then (w1, produced, out)
           else wav_read_loop (w1\<lparr>current_frame := current_frame w1 + got_frames\<rparr>) frames_requested (produced + got_frames)
                  (out @ wav_frames w got got_frames)
      else (w, produced, out))"
  by pat_completeness auto

termination
  by (relation "measure (\<lambda>(w, requested, produced, out). requested - produced)") auto

definition wav_read_pcm_s16 :: "wav_decoder_impl \<Rightarrow> nat \<Rightarrow> wav_decoder_impl \<times> i16 list \<times> esp_err" where
  "wav_read_pcm_s16 w frames_requested =
     (let (w1, produced, out) = wav_read_loop w frames_requested 0 []
      in (w1, out, if produced > 0 then ESP_OK else ESP_ERR_NOT_FOUND))"

definition audio_decoder_read_pcm_s16 :: "wav_decoder_impl \<Rightarrow> nat \<Rightarrow> wav_decoder_impl \<times> i16 list \<times> esp_err" where
  "audio_decoder_read_pcm_s16 w frames_requested =
     (if frames_requested = 0 then (w, [], ESP_OK) else wav_read_pcm_s16 w frames_requested)"

definition wav_seek_frame :: "wav_decoder_impl \<Rightarrow> u64 \<Rightarrow> wav_decoder_impl \<times> esp_err" where
  "wav_seek_frame w frame_index =
     (let frame = (if unat frame_index > total_frames w then total_frames w else unat frame_index);
          off64 = unat (data_offset w) + frame * unat (block_align w)
      in if off64 > 2 ^ 31 - 1 then (w, ESP_ERR_NOT_SUPPORTED)
         else case seek_file (of_nat off64) (w_fp w) of
           (fp, False) \<Rightarrow> (w, ESP_FAIL)
         | (fp, True) \<Rightarrow> (w\<lparr>w_fp := fp, current_frame := frame\<rparr>, ESP_OK))"

section \<open>Recorder headers\<close>

abbreviation (input) AUDIO_RECORDER_WAV_HEADER_BYTES :: nat where "AUDIO_RECORDER_WAV_HEADER_BYTES \<equiv> 44"
definition AUDIO_RECORDER_WAV_CHANNELS :: u16 where "AUDIO_RECORDER_WAV_CHANNELS = 2"
definition AUDIO_RECORDER_WAV_BITS :: u16 where "AUDIO_RECORDER_WAV_BITS = 16"
abbreviation (input) AUDIO_RECORDER_WAV_FRAME_BYTES :: nat where "AUDIO_RECORDER_WAV_FRAME_BYTES \<equiv> 4"

definition audio_recorder_wav_build_header :: "u32 \<Rightarrow> u32 \<Rightarrow> u8 list" where
  "audio_recorder_wav_build_header sample_rate data_bytes =
     (let block_align = 4; byte_rate = sample_rate * ucast AUDIO_RECORDER_WAV_CHANNELS * (ucast AUDIO_RECORDER_WAV_BITS div 8)
      in tag_RIFF @ wr_u32 (36 + data_bytes) @ tag_WAVE @ tag_fmt @ wr_u32 16 @ wr_u16 1 @ wr_u16 AUDIO_RECORDER_WAV_CHANNELS
         @ wr_u32 sample_rate @ wr_u32 byte_rate @ wr_u16 block_align @ wr_u16 AUDIO_RECORDER_WAV_BITS
         @ tag_data @ wr_u32 data_bytes)"

definition audio_recorder_wav_patch_sizes :: "u8 list \<Rightarrow> u32 \<Rightarrow> u8 list" where
  "audio_recorder_wav_patch_sizes header data_bytes =
     mem_copy 40 (wr_u32 data_bytes) (mem_copy 4 (wr_u32 (36 + data_bytes)) header)"

definition audio_recorder_wav_recover_data_bytes :: "nat \<Rightarrow> u32 option" where
  "audio_recorder_wav_recover_data_bytes file_size =
     (if file_size \<le> AUDIO_RECORDER_WAV_HEADER_BYTES then None
      else let d0 = file_size - AUDIO_RECORDER_WAV_HEADER_BYTES;
               d = d0 - d0 mod AUDIO_RECORDER_WAV_FRAME_BYTES
           in if d = 0 \<or> d > 0xFFFFFFFF then None else Some (of_nat d))"

section \<open>Sample bytes\<close>

definition pcm_bytes :: "i16 list \<Rightarrow> u8 list" where
  "pcm_bytes samples = concat (map wr_u16 samples)"

lemma pcm_bytes_simps [simp]:
  "pcm_bytes [] = []" "pcm_bytes (s # ss) = wr_u16 s @ pcm_bytes ss" "pcm_bytes (xs @ ys) = pcm_bytes xs @ pcm_bytes ys"
  by (simp_all add: pcm_bytes_def)

lemma length_pcm_bytes [simp]: "length (pcm_bytes ss) = 2 * length ss"
  by (induction ss) simp_all

lemma take_pcm_bytes: "take (2 * n) (pcm_bytes ss) = pcm_bytes (take n ss)"
proof (induction ss arbitrary: n)
  case (Cons s ss)
  then show ?case by (cases n) simp_all
qed simp

lemma drop_pcm_bytes: "drop (2 * n) (pcm_bytes ss) = pcm_bytes (drop n ss)"
proof (induction ss arbitrary: n)
  case (Cons s ss)
  then show ?case by (cases n) simp_all
qed simp

lemma rd_pcm_bytes:
  assumes "i < length ss"
  shows "rd_u16 (pcm_bytes ss @ ys) (2 * i) = ss ! i"
proof -
  have "ss = take i ss @ ss ! i # drop (Suc i) ss" using assms by (rule id_take_nth_drop)
  then have "pcm_bytes ss = pcm_bytes (take i ss) @ wr_u16 (ss ! i) @ pcm_bytes (drop (Suc i) ss)"
    by (metis pcm_bytes_simps(2,3))
  then show ?thesis using rd_u16_wr [of "2 * i" "pcm_bytes (take i ss)" "ss ! i" "pcm_bytes (drop (Suc i) ss) @ ys"] assms by simp
qed

lemma wav_frames_stereo:
  assumes "channels w = 2" "block_align w = 4" "length ss = 2 * n"
  shows "wav_frames w (pcm_bytes ss) n = ss"
proof -
  have f: "wav_frames w (pcm_bytes ss) n = concat (map (\<lambda>i. [ss ! (2 * i), ss ! (2 * i + 1)]) [0..<n])"
    unfolding wav_frames_def
  proof (rule arg_cong [where f = concat], rule map_cong)
    fix i assume "i \<in> set [0..<n]"
    then have "2 * i < length ss" "2 * i + 1 < length ss" using assms(3) by auto
    then show "(let p = i * unat (block_align w) in if channels w = 1 then [rd_u16 (pcm_bytes ss) p, rd_u16 (pcm_bytes ss) p]
        else [rd_u16 (pcm_bytes ss) p, rd_u16 (pcm_bytes ss) (p + 2)]) = [ss ! (2 * i), ss ! (2 * i + 1)]"
      using rd_pcm_bytes [of "2 * i" ss "[]"] rd_pcm_bytes [of "2 * i + 1" ss "[]"] assms(1,2) by (simp add: Let_def mult.commute)
  qed simp
  have "concat (map (\<lambda>i. [ss ! (2 * i), ss ! (2 * i + 1)]) [0..<m]) = take (2 * m) ss" if "m \<le> n" for m
    using that assms(3)
  proof (induction m)
    case (Suc m)
    then show ?case by (simp add: take_Suc_conv_app_nth)
  qed simp
  from this [of n] f assms(3) show ?thesis by simp
qed

section \<open>Reading a stereo file\<close>

text \<open>
  A decoder that stands at frame \<open>current_frame\<close> of a 16-bit stereo file with the interleaved samples \<open>ss\<close>; the file may
  continue after them.
\<close>

definition stereo_ready :: "wav_decoder_impl \<Rightarrow> i16 list \<Rightarrow> bool" where
  "stereo_ready w ss \<longleftrightarrow> channels w = 2 \<and> block_align w = 4 \<and> length ss = 2 * total_frames w \<and>
     current_frame w \<le> total_frames w \<and>
     (\<exists>pre post. f_data (w_fp w) = pre @ pcm_bytes ss @ post \<and> length pre = unat (data_offset w) \<and>
        f_pos (w_fp w) = length pre + 4 * current_frame w)"

lemma stereo_fread:
  assumes "stereo_ready w ss" "current_frame w + n \<le> total_frames w"
  shows "fread (n * 4) (w_fp w) =
     ((w_fp w)\<lparr>f_pos := f_pos (w_fp w) + 4 * n\<rparr>, pcm_bytes (take (2 * n) (drop (2 * current_frame w) ss)))"
proof -
  obtain pre post where f: "f_data (w_fp w) = pre @ pcm_bytes ss @ post" "f_pos (w_fp w) = length pre + 4 * current_frame w"
    using assms(1) by (auto simp: stereo_ready_def)
  have l: "length ss = 2 * total_frames w" using assms(1) by (simp add: stereo_ready_def)
  let ?c = "current_frame w"
  have d: "drop (4 * ?c) (pcm_bytes ss) = pcm_bytes (drop (2 * ?c) ss)"
    using drop_pcm_bytes [of "2 * ?c" ss] by simp
  have "drop (4 * ?c) (pcm_bytes ss @ post) = pcm_bytes (drop (2 * ?c) ss) @ post"
    using d l assms(2) by simp
  moreover have "take (n * 4) (pcm_bytes (drop (2 * ?c) ss) @ post) = pcm_bytes (take (2 * n) (drop (2 * ?c) ss))"
    using take_pcm_bytes [of "2 * n" "drop (2 * ?c) ss"] l assms(2) by (simp add: mult.commute)
  ultimately have "take (n * 4) (drop (f_pos (w_fp w)) (f_data (w_fp w))) = pcm_bytes (take (2 * n) (drop (2 * ?c) ss))"
    using f by (simp add: add.commute)
  moreover have "length (take (2 * n) (drop (2 * ?c) ss)) = 2 * n" using l assms(2) by simp
  ultimately show ?thesis by (simp add: fread_def Let_def)
qed

lemma stereo_advance:
  assumes "stereo_ready w ss" "current_frame w + n \<le> total_frames w"
  shows "stereo_ready (w\<lparr>w_fp := (w_fp w)\<lparr>f_pos := f_pos (w_fp w) + 4 * n\<rparr>, current_frame := current_frame w + n\<rparr>) ss"
  using assms by (auto simp: stereo_ready_def)

lemma read_loop_stereo:
  assumes "stereo_ready w ss" "produced \<le> req"
  shows "\<exists>w'. wav_read_loop w req produced out =
     (w', produced + min (req - produced) (total_frames w - current_frame w),
      out @ take (2 * (req - produced)) (drop (2 * current_frame w) ss))
     \<and> stereo_ready w' ss \<and> total_frames w' = total_frames w
     \<and> current_frame w' = current_frame w + min (req - produced) (total_frames w - current_frame w)"
  using assms
proof (induction "req - produced" arbitrary: w produced out rule: less_induct)
  case less
  let ?c = "current_frame w" and ?t = "total_frames w"
  have l: "length ss = 2 * ?t" "?c \<le> ?t" "channels w = 2" "block_align w = 4" using less.prems(1) by (auto simp: stereo_ready_def)
  show ?case
  proof (cases "produced < req \<and> ?c < ?t")
    case False
    then show ?thesis using less.prems l by (subst wav_read_loop.simps) auto
  next
    case True
    define n where "n = min (min (req - produced) 512) (?t - ?c)"
    have n: "0 < n" "n \<le> req - produced" "?c + n \<le> ?t" using True by (auto simp: n_def)
    let ?blk = "take (2 * n) (drop (2 * ?c) ss)"
    let ?w = "w\<lparr>w_fp := (w_fp w)\<lparr>f_pos := f_pos (w_fp w) + 4 * n\<rparr>, current_frame := ?c + n\<rparr>"
    have len: "length ?blk = 2 * n" using l n by simp
    have "(if (if req - produced < 512 then req - produced else 512) > ?t - ?c then ?t - ?c
        else (if req - produced < 512 then req - produced else 512)) = n" by (auto simp: n_def)
    moreover have "wav_frames w (pcm_bytes ?blk) n = ?blk" using wav_frames_stereo [OF l(3,4) len] .
    ultimately have step: "wav_read_loop w req produced out = wav_read_loop ?w req (produced + n) (out @ ?blk)"
      using True stereo_fread [OF less.prems(1) n(3)] len n(1) l(4) by (subst wav_read_loop.simps) (simp add: Let_def)
    have "req - (produced + n) < req - produced" "produced + n \<le> req" using n True by auto
    from less.hyps [OF this(1) stereo_advance [OF less.prems(1) n(3)] this(2), of "out @ ?blk"]
    obtain w' where w': "wav_read_loop ?w req (produced + n) (out @ ?blk) =
        (w', produced + n + min (req - (produced + n)) (?t - (?c + n)), (out @ ?blk) @ take (2 * (req - (produced + n))) (drop (2 * (?c + n)) ss))"
      "stereo_ready w' ss" "total_frames w' = ?t" "current_frame w' = ?c + n + min (req - (produced + n)) (?t - (?c + n))"
      by auto
    have m: "n + min (req - (produced + n)) (?t - (?c + n)) = min (req - produced) (?t - ?c)" using n by arith
    have "2 * (req - produced) = 2 * n + 2 * (req - (produced + n))" using n by arith
    then have "?blk @ take (2 * (req - (produced + n))) (drop (2 * (?c + n)) ss) = take (2 * (req - produced)) (drop (2 * ?c) ss)"
      by (simp only: take_add drop_drop distrib_left) (simp add: add.commute)
    then show ?thesis using step w' m by (simp add: add.assoc)
  qed
qed

lemma read_stereo:
  assumes "stereo_ready w ss"
  shows "\<exists>w' rc. audio_decoder_read_pcm_s16 w n = (w', take (2 * n) (drop (2 * current_frame w) ss), rc) \<and> stereo_ready w' ss
     \<and> total_frames w' = total_frames w \<and> current_frame w' = current_frame w + min n (total_frames w - current_frame w)"
  using read_loop_stereo [OF assms, of 0 n "[]"] assms
  by (cases "n = 0") (auto simp: audio_decoder_read_pcm_s16_def wav_read_pcm_s16_def)

section \<open>Opening a recorded file\<close>

lemma tag_lengths [simp]: "length tag_RIFF = 4" "length tag_WAVE = 4" "length tag_fmt = 4" "length tag_data = 4"
  by (simp_all add: tag_defs)

lemma length_build_header [simp]: "length (audio_recorder_wav_build_header rate n) = 44"
  by (simp add: audio_recorder_wav_build_header_def Let_def)

lemma read_exact_at:
  "f_data fp = pre @ bs @ post \<Longrightarrow> f_pos fp = length pre \<Longrightarrow> length bs = n \<Longrightarrow>
   read_exact n fp = (fp\<lparr>f_pos := length pre + n\<rparr>, Some bs)"
  by (simp add: read_exact_def fread_def Let_def)

lemma patch_header:
  "audio_recorder_wav_patch_sizes (audio_recorder_wav_build_header rate m) n = audio_recorder_wav_build_header rate n"
  by (simp add: audio_recorder_wav_patch_sizes_def audio_recorder_wav_build_header_def Let_def mem_copy_def)

lemma recover_data_bytes:
  assumes "n < 2 ^ 32" "k = 44 + n"
  shows "audio_recorder_wav_recover_data_bytes k = (if n div 4 = 0 then None else Some (of_nat (4 * (n div 4))))"
proof -
  have "n - n mod 4 = 4 * (n div 4)" by (simp add: minus_mod_eq_mult_div)
  then show ?thesis using assms by (auto simp: audio_recorder_wav_recover_data_bytes_def Let_def)
qed

definition wav_zero :: "u8 list \<Rightarrow> nat \<Rightarrow> wav_decoder_impl" where
  "wav_zero data pos = \<lparr>w_fp = \<lparr>f_data = data, f_pos = pos\<rparr>, data_offset = 0, data_size = 0, block_align = 0, channels = 0,
     bits_per_sample = 0, current_frame = 0, total_frames = 0\<rparr>"

definition scan_start :: wav_scan where
  "scan_start = \<lparr>have_fmt = False, have_data = False, audio_format_tag = 0, scan_sample_rate = 0\<rparr>"

definition fmt_body :: "u32 \<Rightarrow> u8 list" where
  "fmt_body rate = wr_u16 1 @ wr_u16 2 @ wr_u32 rate @ wr_u32 (rate * 2 * 2) @ wr_u16 4 @ wr_u16 16"

lemma length_fmt_body [simp]: "length (fmt_body rate) = 16"
  by (simp add: fmt_body_def)

lemma fmt_fields:
  "rd_u16 (fmt_body rate) 0 = 1" "rd_u16 (fmt_body rate) 2 = 2" "rd_u32 (fmt_body rate) 4 = rate"
  "rd_u16 (fmt_body rate) 12 = 4" "rd_u16 (fmt_body rate) 14 = 16"
  by (rule rd_u16_at rd_u32_at, simp add: fmt_body_def; fail)+

lemma header_shape:
  "audio_recorder_wav_build_header rate n =
     (tag_RIFF @ wr_u32 (36 + n) @ tag_WAVE) @ (tag_fmt @ wr_u32 16) @ fmt_body rate @ (tag_data @ wr_u32 n)"
  by (simp add: audio_recorder_wav_build_header_def Let_def fmt_body_def AUDIO_RECORDER_WAV_CHANNELS_def AUDIO_RECORDER_WAV_BITS_def)

lemma detect_riff: "audio_format_detect_header (tag_RIFF @ wr_u32 n @ tag_WAVE) = AUDIO_FORMAT_WAV"
  by (simp add: audio_format_detect_header_def Let_def)

lemma chunk_size_field: "length tag = 4 \<Longrightarrow> rd_u32 (tag @ wr_u32 n) 4 = n"
  using rd_u32_wr [of 4 tag n "[]"] by simp

lemma unat_of_nat32: "n < 2 ^ 32 \<Longrightarrow> unat (of_nat n :: u32) = n"
  by (simp add: unsigned_of_nat take_bit_nat_eq_self)

lemma sint_small32: "unat (w :: u32) < 2 ^ 31 \<Longrightarrow> \<not> sint w < 0"
  using sint_unat [of w] by simp

lemma fmt_round:
  assumes "data = pre @ (tag_fmt @ wr_u32 16) @ fmt_body rate @ post" "length pre = 12"
  shows "wav_chunks (wav_zero data 12) scan_start =
     wav_chunks ((wav_zero data 36)\<lparr>channels := 2, block_align := 4, bits_per_sample := 16\<rparr>)
       \<lparr>have_fmt = True, have_data = False, audio_format_tag = 1, scan_sample_rate = rate\<rparr>"
proof -
  let ?fp = "\<lambda>p. \<lparr>f_data = data, f_pos = p\<rparr>"
  have r8: "read_exact 8 (?fp 12) = (?fp 20, Some (tag_fmt @ wr_u32 16))"
    using read_exact_at [of "?fp 12" pre "tag_fmt @ wr_u32 16" "fmt_body rate @ post" 8] assms by simp
  have r16: "read_exact 16 (?fp 20) = (?fp 36, Some (fmt_body rate))"
    using read_exact_at [of "?fp 20" "pre @ tag_fmt @ wr_u32 16" "fmt_body rate" post 16] assms by simp
  have sz: "rd_u32 (tag_fmt @ wr_u32 16) 4 = 16" by (simp add: chunk_size_field)
  have k: "wav_chunk (tag_fmt @ wr_u32 16) 20 (wav_zero data 20) scan_start =
      Some ((wav_zero data 36)\<lparr>channels := 2, block_align := 4, bits_per_sample := 16\<rparr>,
            \<lparr>have_fmt = True, have_data = False, audio_format_tag = 1, scan_sample_rate = rate\<rparr>)"
    using r16 by (simp add: wav_chunk_def Let_def sz fmt_fields wav_zero_def scan_start_def)
  show ?thesis
    by (subst wav_chunks.simps)
      (use k r8 in \<open>simp add: sz wav_zero_def scan_start_def tell_file_def seek_file_def Let_def\<close>)
qed

lemma data_round:
  assumes "data = pre @ (tag_data @ wr_u32 n) @ post" "length pre = 36" "even n" "unat n < 2 ^ 31 - 44"
  shows "wav_chunks ((wav_zero data 36)\<lparr>channels := c, block_align := a, bits_per_sample := b\<rparr>)
       \<lparr>have_fmt = True, have_data = False, audio_format_tag = f, scan_sample_rate = rate\<rparr> =
     Some (Inr ((wav_zero data (44 + unat n))\<lparr>channels := c, block_align := a, bits_per_sample := b, data_offset := 44, data_size := n\<rparr>,
       \<lparr>have_fmt = True, have_data = True, audio_format_tag = f, scan_sample_rate = rate\<rparr>))"
proof -
  let ?fp = "\<lambda>p. \<lparr>f_data = data, f_pos = p\<rparr>"
  have r8: "read_exact 8 (?fp 36) = (?fp 44, Some (tag_data @ wr_u32 n))"
    using read_exact_at [of "?fp 36" pre "tag_data @ wr_u32 n" post 8] assms by simp
  have u: "unat (44 + n) = 44 + unat n" using assms(4) by (simp add: unat_word_ariths)
  then have s: "\<not> sint (44 + n) < 0" using assms(4) by (intro sint_small32) simp
  have ev: "n AND 1 = 0" using assms(3) by (simp add: and_one_eq even_iff_mod_2_eq_zero)
  have t: "tag_data \<noteq> tag_fmt" by (simp add: tag_defs)
  show ?thesis
    apply (subst wav_chunks.simps)
    using r8 t s u ev
    apply (simp add: wav_zero_def tell_file_def seek_file_def Let_def wav_chunk_def chunk_size_field)
    apply (subst wav_chunks.simps, simp)
    done
qed

definition recorded_file :: "u32 \<Rightarrow> i16 list \<Rightarrow> u8 list" where
  "recorded_file rate ss = audio_recorder_wav_build_header rate (of_nat (2 * length ss)) @ pcm_bytes ss"

definition recorded_info :: "u32 \<Rightarrow> nat \<Rightarrow> audio_decoder_info" where
  "recorded_info rate n = \<lparr>info_format = AUDIO_FORMAT_WAV, info_sample_rate = rate, info_channels = 2,
     info_bits_per_sample = 16, info_total_frames = n\<rparr>"

lemma open_recorded:
  assumes "length ss = 2 * n" "n < 2 ^ 29 - 11"
  shows "\<exists>w. audio_wav_decoder_open (Some (recorded_file rate ss @ post)) = Some (Inr (w, recorded_info rate n))
     \<and> stereo_ready w ss \<and> current_frame w = 0 \<and> total_frames w = n \<and> data_offset w = 44"
proof -
  define sz :: u32 where "sz = of_nat (4 * n)"
  define data where "data = recorded_file rate ss @ post"
  let ?fp = "\<lambda>p. \<lparr>f_data = data, f_pos = p\<rparr>"
  let ?head = "tag_RIFF @ wr_u32 (36 + sz) @ tag_WAVE"
  have "4 * n < 2 ^ 32" using assms(2) by simp
  then have u: "unat sz = 4 * n" unfolding sz_def by (rule unat_of_nat32)
  have ev: "even sz" by (simp add: sz_def)
  have "data = ?head @ (tag_fmt @ wr_u32 16) @ fmt_body rate @ (tag_data @ wr_u32 sz) @ pcm_bytes ss @ post"
    by (simp add: data_def recorded_file_def header_shape sz_def assms(1))
  note d = this
  have r12: "read_exact 12 (?fp 0) = (?fp 12, Some ?head)"
    using read_exact_at [of "?fp 0" "[]" ?head _ 12] d by simp
  have ch: "wav_chunks (wav_zero data 12) scan_start =
     Some (Inr ((wav_zero data (44 + 4 * n))\<lparr>channels := 2, block_align := 4, bits_per_sample := 16, data_offset := 44, data_size := sz\<rparr>,
       \<lparr>have_fmt = True, have_data = True, audio_format_tag = 1, scan_sample_rate = rate\<rparr>))"
    using fmt_round [OF d] data_round [of data "?head @ (tag_fmt @ wr_u32 16) @ fmt_body rate" sz "pcm_bytes ss @ post"] d ev u assms(2)
    by simp
  let ?w = "(wav_zero data 44)\<lparr>channels := 2, block_align := 4, bits_per_sample := 16, data_offset := 44, data_size := sz, total_frames := n\<rparr>"
  have "audio_wav_decoder_open (Some data) = Some (Inr (?w, recorded_info rate n))"
    using r12 ch u
    by (simp add: audio_wav_decoder_open_def wav_parse_def detect_riff wav_zero_def scan_start_def seek_file_def Let_def recorded_info_def)
  moreover have "stereo_ready ?w ss"
  proof -
    have "\<exists>pre post. f_data (w_fp ?w) = pre @ pcm_bytes ss @ post \<and> length pre = unat (data_offset ?w) \<and>
        f_pos (w_fp ?w) = length pre + 4 * current_frame ?w"
      by (rule exI [of _ "?head @ (tag_fmt @ wr_u32 16) @ fmt_body rate @ (tag_data @ wr_u32 sz)"], rule exI [of _ post])
        (simp add: wav_zero_def d)
    then show ?thesis unfolding stereo_ready_def using assms(1) by (simp add: wav_zero_def)
  qed
  ultimately show ?thesis by (intro exI [of _ ?w]) (simp add: data_def wav_zero_def)
qed

text \<open>Reading a whole file through the decoder: open it and ask for \<open>n\<close> frames from frame \<open>k\<close> on.\<close>

definition play_wav :: "u8 list \<Rightarrow> u64 \<Rightarrow> nat \<Rightarrow> (audio_decoder_info \<times> i16 list) option" where
  "play_wav data k n =
     (case audio_wav_decoder_open (Some data) of
        Some (Inr (w, info)) \<Rightarrow>
          (case wav_seek_frame w k of (w1, ESP_OK) \<Rightarrow> Some (info, fst (snd (audio_decoder_read_pcm_s16 w1 n))) | _ \<Rightarrow> None)
      | _ \<Rightarrow> None)"

lemma seek_stereo:
  assumes "stereo_ready w ss" "unat (data_offset w) + 4 * total_frames w < 2 ^ 31"
  shows "\<exists>w'. wav_seek_frame w k = (w', ESP_OK) \<and> stereo_ready w' ss \<and> current_frame w' = min (unat k) (total_frames w)"
proof -
  define f where "f = min (unat k) (total_frames w)"
  let ?o = "unat (data_offset w) + f * 4"
  have a: "unat (block_align w) = 4" using assms(1) by (simp add: stereo_ready_def)
  have m: "(if unat k > total_frames w then total_frames w else unat k) = f" by (simp add: f_def min_def)
  have "?o < 2 ^ 31" using assms(2) by (simp add: f_def)
  then have "?o < 2 ^ 32" by simp
  then have "unat (of_nat ?o :: u32) = ?o" by (rule unat_of_nat32)
  moreover then have "\<not> sint (of_nat ?o :: u32) < 0" using \<open>?o < 2 ^ 31\<close> by (intro sint_small32) simp
  ultimately have "seek_file (of_nat ?o) (w_fp w) = ((w_fp w)\<lparr>f_pos := ?o\<rparr>, True)" by (simp only: seek_file_def if_False)
  moreover have "\<not> ?o > 2 ^ 31 - 1" using \<open>?o < 2 ^ 31\<close> by simp
  ultimately have "wav_seek_frame w k = (w\<lparr>w_fp := (w_fp w)\<lparr>f_pos := ?o\<rparr>, current_frame := f\<rparr>, ESP_OK)"
    by (simp only: wav_seek_frame_def Let_def m a if_False prod.case bool.case)
  moreover have "stereo_ready (w\<lparr>w_fp := (w_fp w)\<lparr>f_pos := ?o\<rparr>, current_frame := f\<rparr>) ss"
    using assms(1) by (auto simp: stereo_ready_def f_def)
  ultimately show ?thesis by (simp add: f_def)
qed

lemma play_recorded:
  assumes "length ss = 2 * m" "m < 2 ^ 29 - 11"
  shows "play_wav (recorded_file rate ss @ post) k n = Some (recorded_info rate m, take (2 * n) (drop (2 * unat k) ss))"
proof -
  obtain w where w: "audio_wav_decoder_open (Some (recorded_file rate ss @ post)) = Some (Inr (w, recorded_info rate m))"
    "stereo_ready w ss" "total_frames w = m" "data_offset w = 44" using open_recorded [OF assms] by blast
  have "unat (data_offset w) + 4 * total_frames w < 2 ^ 31" using w(3,4) assms(2) by simp
  from seek_stereo [OF w(2) this, of k] obtain w1 where w1: "wav_seek_frame w k = (w1, ESP_OK)" "stereo_ready w1 ss"
    "current_frame w1 = min (unat k) m" using w(3) by auto
  have "drop (2 * min (unat k) m) ss = drop (2 * unat k) ss" using assms(1) by (simp add: min_def)
  then show ?thesis using w w1 read_stereo [OF w1(2), of n] by (auto simp: play_wav_def)
qed

section \<open>A chunk that is never left\<close>

lemma loop_read:
  assumes "drop p data = tag @ wr_u32 s @ rest" "length tag = 4"
  shows "read_exact 8 \<lparr>f_data = data, f_pos = p\<rparr> = (\<lparr>f_data = data, f_pos = p + 8\<rparr>, Some (tag @ wr_u32 s))"
  using assms by (simp add: read_exact_def fread_def Let_def)

text \<open>The size is added to the position as a signed number: \<open>0xFFFFFFF8\<close> goes back by eight.\<close>

lemma loop_seek:
  assumes "p + 8 < 2 ^ 31"
  shows "seek_file (tell_file \<lparr>f_data = data, f_pos = p + 8\<rparr> + 0xFFFFFFF8 + (0xFFFFFFF8 AND 1)) fp = (fp\<lparr>f_pos := p\<rparr>, True)"
    "\<not> sint (tell_file \<lparr>f_data = data, f_pos = p + 8\<rparr>) < 0"
proof -
  have o: "(of_nat (p + 8) :: u32) + 0xFFFFFFF8 + (0xFFFFFFF8 AND 1) = of_nat p" by simp
  have u: "unat (of_nat p :: u32) = p" "unat (of_nat (p + 8) :: u32) = p + 8"
    using assms by - (rule unat_of_nat32, simp)+
  have "\<not> sint (of_nat p :: u32) < 0" "\<not> sint (of_nat (p + 8) :: u32) < 0" using u assms by (auto intro!: sint_small32)
  then show "seek_file (tell_file \<lparr>f_data = data, f_pos = p + 8\<rparr> + 0xFFFFFFF8 + (0xFFFFFFF8 AND 1)) fp = (fp\<lparr>f_pos := p\<rparr>, True)"
    "\<not> sint (tell_file \<lparr>f_data = data, f_pos = p + 8\<rparr>) < 0"
    using u(1) unfolding tell_file_def in_file.simps o by (simp_all only: seek_file_def if_False not_False_eq_True)
qed

lemma loop_chunk:
  assumes "length tag = 4" "tag \<noteq> tag_data" "f_data (w_fp w) = data" "f_pos (w_fp w) = p + 8" "\<not> have_data sc"
    "drop (p + 8) data = rest" "tag = tag_fmt \<longrightarrow> 16 \<le> length rest"
  shows "\<exists>w1 sc1. wav_chunk (tag @ wr_u32 0xFFFFFFF8) x w sc = Some (w1, sc1) \<and> f_data (w_fp w1) = data \<and> \<not> have_data sc1"
proof -
  have "rd_u32 (tag @ wr_u32 0xFFFFFFF8) 4 = 0xFFFFFFF8" using assms(1) by (intro chunk_size_field) simp
  then show ?thesis using assms by (auto simp: wav_chunk_def Let_def read_exact_def fread_def word_less_nat_alt)
qed

lemma loop_round:
  fixes w :: wav_decoder_impl
  assumes "drop p data = tag @ wr_u32 0xFFFFFFF8 @ rest" "length tag = 4" "tag \<noteq> tag_data" "tag = tag_fmt \<longrightarrow> 16 \<le> length rest" "p + 8 < 2 ^ 31"
    and w: "f_data (w_fp w) = data" "f_pos (w_fp w) = p" "\<not> have_data sc"
  shows "\<exists>w' sc'. f_data (w_fp w') = data \<and> f_pos (w_fp w') = p \<and> \<not> have_data sc' \<and>
    (\<forall>rec. (if have_data sc then Some (Inr (w, sc))
      else case read_exact 8 (w_fp w) of
        (fp, None) \<Rightarrow> Some (Inr (w\<lparr>w_fp := fp\<rparr>, sc))
      | (fp, Some chunk) \<Rightarrow>
          let chunk_size = rd_u32 chunk 4; chunk_payload = tell_file fp
          in if sint chunk_payload < 0 then Some (Inl ESP_FAIL)
             else case wav_chunk chunk chunk_payload (w\<lparr>w_fp := fp\<rparr>) sc of
               None \<Rightarrow> Some (Inl ESP_FAIL)
             | Some (w1, sc1) \<Rightarrow>
                 (case seek_file (chunk_payload + chunk_size + (chunk_size AND 1)) (w_fp w1) of
                    (fp1, ok) \<Rightarrow> if ok then rec (w1\<lparr>w_fp := fp1\<rparr>) sc1 else Some (Inl ESP_FAIL))) = rec w' sc')"
proof -
  have fp: "w_fp w = \<lparr>f_data = data, f_pos = p\<rparr>" using w(1,2) by simp
  let ?w = "w\<lparr>w_fp := \<lparr>f_data = data, f_pos = p + 8\<rparr>\<rparr>"
  have rest: "drop (p + 8) data = rest" using arg_cong [OF assms(1), of "drop 8"] assms(2) by (simp add: add.commute)
  obtain w1 sc1 where c: "wav_chunk (tag @ wr_u32 0xFFFFFFF8) (tell_file \<lparr>f_data = data, f_pos = p + 8\<rparr>) ?w sc = Some (w1, sc1)"
    "f_data (w_fp w1) = data" "\<not> have_data sc1"
    using loop_chunk [OF assms(2,3) _ _ w(3) rest assms(4), of ?w "tell_file \<lparr>f_data = data, f_pos = p + 8\<rparr>"] by force
  have sz: "rd_u32 (tag @ wr_u32 0xFFFFFFF8) 4 = 0xFFFFFFF8" using assms(2) by (intro chunk_size_field) simp
  show ?thesis
    by (intro exI [of _ "w1\<lparr>w_fp := (w_fp w1)\<lparr>f_pos := p\<rparr>\<rparr>"] exI [of _ sc1])
      (simp add: w(3) fp loop_read [OF assms(1,2)] Let_def sz loop_seek [OF assms(5), simplified] c)
qed

section \<open>Properties\<close>

text \<open>
  Opening a WAV file can run forever.  The size field of a chunk is added to the file position as a signed 32-bit number,
  so a chunk of the claimed size \<open>0xFFFFFFF8\<close> leads back to its own header: whatever the loop has read before, once it comes to such a
  chunk it never ends, unless the chunk is the data chunk, or a format chunk cut off by the end of the file.
\<close>

theorem wav_parse_may_loop:
  fixes w :: wav_decoder_impl
  assumes chunk: "drop (f_pos (w_fp w)) (f_data (w_fp w)) = tag @ wr_u32 0xFFFFFFF8 @ rest" "length tag = 4"
    and tag: "tag \<noteq> tag_data" "tag = tag_fmt \<longrightarrow> 16 \<le> length rest" and pos: "f_pos (w_fp w) + 8 < 2 ^ 31" and more: "\<not> have_data sc"
  shows "wav_chunks w sc = None"
proof (rule ccontr)
  define data p where "data = f_data (w_fp w)" and "p = f_pos (w_fp w)"
  note round = loop_round [OF chunk(1) [folded data_def p_def] chunk(2) tag pos [folded p_def]]
  assume "wav_chunks w sc \<noteq> None"
  then obtain r where "wav_chunks w sc = Some r" by auto
  then have "\<not> (f_data (w_fp w) = data \<and> f_pos (w_fp w) = p \<and> \<not> have_data sc)"
  proof (rule wav_chunks.raw_induct [rotated, where P = "\<lambda>w sc y. \<not> (f_data (w_fp w) = data \<and> f_pos (w_fp w) = p \<and> \<not> have_data sc)"], goal_cases)
    case (1 rec w sc y)
    show ?case
    proof
      assume at: "f_data (w_fp w) = data \<and> f_pos (w_fp w) = p \<and> \<not> have_data sc"
      from round [of w sc] at obtain w' sc' where w': "f_data (w_fp w') = data" "f_pos (w_fp w') = p" "\<not> have_data sc'" "rec w' sc' = Some y"
        using 1(2) by auto
      from 1(1) [OF w'(4)] w'(1-3) show False by blast
    qed
  qed
  then show False using more by (simp add: data_def p_def)
qed

theorem wav_parse_may_loop_witness:
  "audio_wav_decoder_open (Some (tag_RIFF @ wr_u32 20 @ tag_WAVE @ [0x4A, 0x55, 0x4E, 0x4B] @ wr_u32 0xFFFFFFF8 @ [0, 0, 0, 0])) = None"
proof -
  let ?d = "tag_RIFF @ wr_u32 20 @ tag_WAVE @ [0x4A, 0x55, 0x4E, 0x4B] @ wr_u32 0xFFFFFFF8 @ [0, 0, 0, 0]"
  have "wav_chunks (wav_zero ?d 12) scan_start = None"
    by (rule wav_parse_may_loop [where tag = "[0x4A, 0x55, 0x4E, 0x4B]" and rest = "[0, 0, 0, 0]"])
      (simp_all add: wav_zero_def scan_start_def tag_defs)
  then show ?thesis
    by (simp add: audio_wav_decoder_open_def wav_parse_def read_exact_def fread_def Let_def detect_riff wav_zero_def scan_start_def)
qed

end
