(* ===== verification/Recorder_Sink.thy ===== *)
theory Recorder_Sink
  imports Wav_File
begin

text \<open>
  The microSD sink of the master recorder (\<open>audio_recorder_sink.c\<close>, \<open>audio_recorder_finalize.c\<close>) and the segment names
  of \<open>audio_recorder_wav.c\<close>.  The card maps paths to file contents.  Every call into the file system consults the
  environment, which may refuse it or write fewer bytes than asked; time measurement, logging and the gate around the
  card are left out.
\<close>

section \<open>The card\<close>

record sd_env =
  sd_ok :: "nat \<Rightarrow> bool"
  sd_short :: "nat \<Rightarrow> nat"

text \<open>\<open>sd_ok\<close>: does the n-th call succeed; \<open>sd_short\<close>: how much a failing \<open>fwrite\<close> still writes.\<close>

record sd_card =
  sd_files :: "string \<Rightarrow> u8 list option"
  sd_calls :: nat

definition sd_call :: "sd_env \<Rightarrow> sd_card \<Rightarrow> sd_card \<times> bool" where
  "sd_call env c = (c\<lparr>sd_calls := Suc (sd_calls c)\<rparr>, sd_ok env (sd_calls c))"

definition sd_fwrite :: "sd_env \<Rightarrow> string \<Rightarrow> nat \<Rightarrow> u8 list \<Rightarrow> sd_card \<Rightarrow> sd_card \<times> nat" where
  "sd_fwrite env path pos data c =
     (let n = (if sd_ok env (sd_calls c) then length data else min (sd_short env (sd_calls c)) (length data - 1));
          old = (case sd_files c path of None \<Rightarrow> [] | Some bs \<Rightarrow> bs)
      in (c\<lparr>sd_calls := Suc (sd_calls c), sd_files := (sd_files c)(path \<mapsto> mem_copy pos (take n data) old)\<rparr>, n))"

definition sd_rename :: "sd_env \<Rightarrow> string \<Rightarrow> string \<Rightarrow> sd_card \<Rightarrow> sd_card \<times> bool" where
  "sd_rename env old new c =
     (if sd_ok env (sd_calls c)
      then (c\<lparr>sd_calls := Suc (sd_calls c), sd_files := (sd_files c)(new := sd_files c old, old := None)\<rparr>, True)
      else (c\<lparr>sd_calls := Suc (sd_calls c)\<rparr>, False))"

section \<open>Segment names\<close>

definition digit :: "nat \<Rightarrow> char" where
  "digit d = char_of (48 + d)"

fun decimal :: "nat \<Rightarrow> string" where
  "decimal n = (if n < 10 then [digit n] else decimal (n div 10) @ [digit (n mod 10)])"

declare decimal.simps [simp del]

definition segment_name :: "u32 \<Rightarrow> u32 \<Rightarrow> u32 \<Rightarrow> u32 \<Rightarrow> string" where
  "segment_name boot_id session segment sample_rate =
     ''REC_B'' @ decimal (unat boot_id) @ ''_'' @ decimal (unat session) @ ''_'' @ decimal (unat segment) @ ''_'' @
     decimal (unat sample_rate) @ ''Hz.wav.part''"

definition audio_recorder_wav_format_segment :: "nat \<Rightarrow> u32 \<Rightarrow> u32 \<Rightarrow> u32 \<Rightarrow> u32 \<Rightarrow> string option" where
  "audio_recorder_wav_format_segment out_len boot_id session segment sample_rate =
     (let name = segment_name boot_id session segment sample_rate
      in if out_len = 0 \<or> length name \<ge> out_len then None else Some name)"

section \<open>The sink\<close>

abbreviation (input) AUDIO_RECORDER_SINK_DIR :: string where "AUDIO_RECORDER_SINK_DIR \<equiv> ''/sd/recordings''"
abbreviation (input) AUDIO_RECORDER_SINK_PATH_MAX :: nat where "AUDIO_RECORDER_SINK_PATH_MAX \<equiv> 96"
definition AUDIO_RECORDER_SEGMENT_DATA_MAX :: nat where "AUDIO_RECORDER_SEGMENT_DATA_MAX = 1024 * 1024 * 1024"

record audio_recorder_sink =
  snk_pos :: nat
  snk_sample_rate :: u32
  snk_boot_id :: u32
  snk_session :: u32
  snk_segment :: u32
  snk_data_bytes :: nat
  part_path :: string
  is_open :: bool

text \<open>\<open>snk_pos\<close> is the position of the open file; it stands for the \<open>FILE\<close> pointer, which is valid while \<open>is_open\<close> holds.\<close>

definition patch_header_locked :: "sd_env \<Rightarrow> audio_recorder_sink \<Rightarrow> u32 \<Rightarrow> u32 \<Rightarrow> sd_card \<Rightarrow> sd_card \<times> audio_recorder_sink \<times> esp_err" where
  "patch_header_locked env s sample_rate data_bytes c =
     (let hdr = audio_recorder_wav_build_header sample_rate data_bytes;
          (c1, flushed) = sd_call env c
      in if \<not> flushed then (c1, s, ESP_FAIL)
         else let (c2, sought) = sd_call env c1
         in if \<not> sought then (c2, s, ESP_FAIL)
            else let (c3, n) = sd_fwrite env (part_path s) 0 hdr c2; s3 = s\<lparr>snk_pos := n\<rparr>
            in if n \<noteq> length hdr then (c3, s3, ESP_FAIL)
               else let (c4, flushed2) = sd_call env c3
               in if \<not> flushed2 then (c4, s3, ESP_FAIL)
                  else let (c5, sought2) = sd_call env c4
                  in if \<not> sought2 then (c5, s3, ESP_FAIL)
                     else (c5, s3\<lparr>snk_pos := length (the (sd_files c5 (part_path s)))\<rparr>, ESP_OK))"

definition open_segment :: "sd_env \<Rightarrow> audio_recorder_sink \<Rightarrow> u32 \<Rightarrow> sd_card \<Rightarrow> sd_card \<times> audio_recorder_sink \<times> esp_err" where
  "open_segment env s sample_rate c =
     (case audio_recorder_wav_format_segment AUDIO_RECORDER_SINK_PATH_MAX (snk_boot_id s) (snk_session s) (snk_segment s) sample_rate of
        None \<Rightarrow> (c, s, ESP_ERR_INVALID_SIZE)
      | Some name \<Rightarrow>
          let path = AUDIO_RECORDER_SINK_DIR @ ''/'' @ name
          in if length path \<ge> AUDIO_RECORDER_SINK_PATH_MAX then (c, s, ESP_ERR_INVALID_SIZE)
             else let s1 = s\<lparr>part_path := path\<rparr>; (c1, opened) = sd_call env c
             in if \<not> opened then (c1, s1, ESP_FAIL)
                else let c2 = c1\<lparr>sd_files := (sd_files c1)(path \<mapsto> [])\<rparr>;
                         hdr = audio_recorder_wav_build_header sample_rate 0;
                         (c3, n) = sd_fwrite env path 0 hdr c2
                in if n \<noteq> length hdr then (c3, s1, ESP_FAIL)
                   else (c3, s1\<lparr>snk_pos := n, snk_sample_rate := sample_rate, snk_data_bytes := 0, is_open := True\<rparr>, ESP_OK))"

definition audio_recorder_sink_open ::
    "sd_env \<Rightarrow> u32 \<Rightarrow> u32 \<Rightarrow> u32 \<Rightarrow> sd_card \<Rightarrow> audio_recorder_sink \<Rightarrow> sd_card \<times> audio_recorder_sink \<times> esp_err" where
  "audio_recorder_sink_open env sample_rate boot_id session c s =
     (if sample_rate = 0 then (c, s, ESP_ERR_INVALID_ARG)
      else open_segment env \<lparr>snk_pos = 0, snk_sample_rate = 0, snk_boot_id = boot_id, snk_session = session, snk_segment = 0,
                             snk_data_bytes = 0, part_path = [], is_open = False\<rparr> sample_rate c)"

subsection \<open>Closing a segment\<close>

datatype finalize_stage = STAGE_NONE | STAGE_PATCH | STAGE_SYNC | STAGE_CLOSE | STAGE_PUBLISH

definition note_failure :: "finalize_stage \<Rightarrow> finalize_stage \<Rightarrow> bool \<Rightarrow> finalize_stage" where
  "note_failure failed_stage stage ok = (if \<not> ok \<and> failed_stage = STAGE_NONE then stage else failed_stage)"

text \<open>The steps are functions on the sink and the card; the result is the first stage that failed and whether it was published.\<close>

definition audio_recorder_finalize_run ::
    "('c \<Rightarrow> 'c \<times> bool) \<Rightarrow> ('c \<Rightarrow> 'c \<times> bool) \<Rightarrow> ('c \<Rightarrow> 'c \<times> bool) \<Rightarrow> ('c \<Rightarrow> 'c \<times> bool) \<Rightarrow> bool \<Rightarrow> 'c
       \<Rightarrow> 'c \<times> finalize_stage \<times> bool" where
  "audio_recorder_finalize_run patch sync close publish allow_publish ctx =
     (let (c1, patched) = patch ctx; f1 = note_failure STAGE_NONE STAGE_PATCH patched;
          (c2, synced) = sync c1; f2 = note_failure f1 STAGE_SYNC synced;
          (c3, closed) = close c2; f3 = note_failure f2 STAGE_CLOSE closed
      in if allow_publish \<and> f3 = STAGE_NONE
         then let (c4, published) = publish c3 in (c4, note_failure f3 STAGE_PUBLISH published, published)
         else (c3, f3, False))"

definition recorder_finalize_patch :: "sd_env \<Rightarrow> audio_recorder_sink \<times> sd_card \<Rightarrow> (audio_recorder_sink \<times> sd_card) \<times> bool" where
  "recorder_finalize_patch env sc =
     (let (s, c) = sc; (c1, s1, rc) = patch_header_locked env s (snk_sample_rate s) (of_nat (snk_data_bytes s)) c
      in ((s1, c1), rc = ESP_OK))"

definition recorder_finalize_sync :: "sd_env \<Rightarrow> audio_recorder_sink \<times> sd_card \<Rightarrow> (audio_recorder_sink \<times> sd_card) \<times> bool" where
  "recorder_finalize_sync env sc =
     (let (s, c) = sc; (c1, flushed) = sd_call env c
      in if \<not> flushed then ((s, c1), False) else let (c2, synced) = sd_call env c1 in ((s, c2), synced))"

definition recorder_finalize_close :: "sd_env \<Rightarrow> audio_recorder_sink \<times> sd_card \<Rightarrow> (audio_recorder_sink \<times> sd_card) \<times> bool" where
  "recorder_finalize_close env sc = (let (s, c) = sc; (c1, ok) = sd_call env c in ((s\<lparr>is_open := False\<rparr>, c1), ok))"

definition recorder_finalize_publish ::
    "sd_env \<Rightarrow> string \<Rightarrow> audio_recorder_sink \<times> sd_card \<Rightarrow> (audio_recorder_sink \<times> sd_card) \<times> bool" where
  "recorder_finalize_publish env final_path sc =
     (let (s, c) = sc
      in if final_path = [] then ((s, c), False)
         else let (c1, ok) = sd_rename env (part_path s) final_path c in ((s, c1), ok))"

definition final_path_of :: "string \<Rightarrow> string" where
  "final_path_of path =
     (let plen = length path; slen = length ''.part''
      in if plen > slen \<and> drop (plen - slen) path = ''.part'' \<and> plen - slen < AUDIO_RECORDER_SINK_PATH_MAX
         then take (plen - slen) path else [])"

definition audio_recorder_sink_close ::
    "sd_env \<Rightarrow> bool \<Rightarrow> sd_card \<Rightarrow> audio_recorder_sink \<Rightarrow> sd_card \<times> audio_recorder_sink \<times> esp_err" where
  "audio_recorder_sink_close env allow_publish c s =
     (if \<not> is_open s then (c, s, ESP_OK)
      else let final_path = (if allow_publish then final_path_of (part_path s) else []);
               ((s1, c1), failed, published) = audio_recorder_finalize_run (recorder_finalize_patch env) (recorder_finalize_sync env)
                  (recorder_finalize_close env) (recorder_finalize_publish env final_path) allow_publish (s, c)
           in (c1, s1, if failed \<noteq> STAGE_NONE then ESP_FAIL else ESP_OK))"

definition audio_recorder_sink_finalize :: "sd_env \<Rightarrow> sd_card \<Rightarrow> audio_recorder_sink \<Rightarrow> sd_card \<times> audio_recorder_sink \<times> esp_err" where
  "audio_recorder_sink_finalize env c s = audio_recorder_sink_close env True c s"

definition audio_recorder_sink_abort :: "sd_env \<Rightarrow> sd_card \<Rightarrow> audio_recorder_sink \<Rightarrow> sd_card \<times> audio_recorder_sink \<times> esp_err" where
  "audio_recorder_sink_abort env c s = audio_recorder_sink_close env False c s"

subsection \<open>Writing\<close>

definition audio_recorder_sink_write_block ::
    "sd_env \<Rightarrow> i16 list \<Rightarrow> nat \<Rightarrow> u32 \<Rightarrow> sd_card \<Rightarrow> audio_recorder_sink \<Rightarrow> sd_card \<times> audio_recorder_sink \<times> esp_err" where
  "audio_recorder_sink_write_block env samples frames sample_rate c s =
     (if \<not> is_open s then (c, s, ESP_ERR_INVALID_STATE)
      else let len = frames * AUDIO_RECORDER_WAV_FRAME_BYTES
      in if len = 0 then (c, s, ESP_OK)
         else let (c1, s1, rc) =
                (if sample_rate \<noteq> snk_sample_rate s \<or> snk_data_bytes s + len > AUDIO_RECORDER_SEGMENT_DATA_MAX
                 then let (c', s', rc') = audio_recorder_sink_finalize env c s
                      in if rc' \<noteq> ESP_OK then (c', s', rc')
                         else open_segment env (s'\<lparr>snk_segment := snk_segment s' + 1\<rparr>) sample_rate c'
                 else (c, s, ESP_OK))
         in if rc \<noteq> ESP_OK then (c1, s1, rc)
            else let (c2, n) = sd_fwrite env (part_path s1) (snk_pos s1) (take len (pcm_bytes samples)) c1;
                     s2 = s1\<lparr>snk_pos := snk_pos s1 + n\<rparr>
            in if n \<noteq> len then (c2, s2, ESP_FAIL)
               else (c2, s2\<lparr>snk_data_bytes := snk_data_bytes s2 + len\<rparr>, ESP_OK))"

definition audio_recorder_sink_checkpoint :: "sd_env \<Rightarrow> sd_card \<Rightarrow> audio_recorder_sink \<Rightarrow> sd_card \<times> esp_err" where
  "audio_recorder_sink_checkpoint env c s =
     (if \<not> is_open s then (c, ESP_OK)
      else let (c1, flushed) = sd_call env c
           in if flushed then let (c2, synced) = sd_call env c1 in (c2, if synced then ESP_OK else ESP_FAIL)
              else (c1, ESP_FAIL))"

subsection \<open>Recovery at boot\<close>

definition ends_with :: "string \<Rightarrow> string \<Rightarrow> bool" where
  "ends_with s suffix \<longleftrightarrow> length s > length suffix \<and> drop (length s - length suffix) s = suffix"

definition recovered_path :: "string \<Rightarrow> string option" where
  "recovered_path path =
     (let keep = length path - length ''.wav.part''
      in if ends_with path ''.wav.part'' \<and> keep + length ''.recovered.wav'' < AUDIO_RECORDER_SINK_PATH_MAX
         then Some (take keep path @ ''.recovered.wav'') else None)"

definition recover_one :: "sd_env \<Rightarrow> string \<Rightarrow> sd_card \<Rightarrow> sd_card" where
  "recover_one env path c =
     (case sd_files c path of None \<Rightarrow> c
      | Some bs \<Rightarrow>
          (case audio_recorder_wav_recover_data_bytes (length bs) of
             None \<Rightarrow> (let (c1, ok) = sd_call env c in if ok then c1\<lparr>sd_files := (sd_files c1)(path := None)\<rparr> else c1)
           | Some data_bytes \<Rightarrow>
               let (c1, opened) = sd_call env c; (c2, readable) = sd_call env c1; hdr = take 44 bs
               in if \<not> opened then c1
                  else if \<not> readable \<or> length hdr \<noteq> 44 \<or> take 4 hdr \<noteq> tag_RIFF \<or> take 4 (drop 8 hdr) \<noteq> tag_WAVE then c2
                  else let (c3, n) = sd_fwrite env path 0 (audio_recorder_wav_patch_sizes hdr data_bytes) c2;
                           (c4, cut) = sd_call env c3;
                           c5 = (if cut then c4\<lparr>sd_files := (sd_files c4)(path := map_option (take (44 + unat data_bytes)) (sd_files c4 path))\<rparr>
                                 else c4)
                       in (case recovered_path path of None \<Rightarrow> c5 | Some new \<Rightarrow> fst (sd_rename env path new c5))))"

fun recover_entries :: "sd_env \<Rightarrow> string list \<Rightarrow> sd_card \<Rightarrow> sd_card" where
  "recover_entries env [] c = c"
| "recover_entries env (d_name # names) c =
     (let path = AUDIO_RECORDER_SINK_DIR @ ''/'' @ d_name
      in if \<not> ends_with d_name ''.wav.part'' \<or> length path \<ge> AUDIO_RECORDER_SINK_PATH_MAX then recover_entries env names c
         else recover_entries env names (recover_one env path c))"

definition audio_recorder_sink_recover_orphans :: "sd_env \<Rightarrow> string list option \<Rightarrow> sd_card \<Rightarrow> sd_card" where
  "audio_recorder_sink_recover_orphans env dir c = (case dir of None \<Rightarrow> c | Some names \<Rightarrow> recover_entries env names c)"

section \<open>Names of different segments differ\<close>

definition undecimal :: "string \<Rightarrow> nat" where
  "undecimal = foldl (\<lambda>a c. 10 * a + (of_char c - 48)) 0"

lemma undecimal_decimal: "undecimal (decimal n) = n"
proof (induction n rule: decimal.induct)
  case (1 n)
  then show ?case by (subst decimal.simps) (auto simp: undecimal_def digit_def)
qed

lemma decimal_inj: "decimal m = decimal n \<longleftrightarrow> m = n"
  using undecimal_decimal by metis

lemma digit_plain: "d < 10 \<Longrightarrow> digit d \<noteq> CHR ''_'' \<and> digit d \<noteq> CHR ''H''"
proof -
  assume "d < 10"
  then have "(of_char (digit d) :: nat) = 48 + d" by (simp add: digit_def)
  moreover have "(of_char CHR ''_'' :: nat) = 95" "(of_char CHR ''H'' :: nat) = 72" by simp_all
  ultimately show ?thesis using \<open>d < 10\<close> by auto
qed

lemma decimal_plain: "c \<in> set (decimal n) \<Longrightarrow> c \<noteq> CHR ''_'' \<and> c \<noteq> CHR ''H''"
proof (induction n rule: decimal.induct)
  case (1 n)
  then show ?case using digit_plain [of n] digit_plain [of "n mod 10"] by (subst (asm) decimal.simps) (auto split: if_splits)
qed

lemma decimal_sep:
  "(decimal m @ CHR ''_'' # xs = decimal n @ CHR ''_'' # ys) = (m = n \<and> xs = ys)"
  "(decimal m @ CHR ''H'' # xs = decimal n @ CHR ''H'' # ys) = (m = n \<and> xs = ys)"
proof -
  have tw: "takeWhile (\<lambda>c. c \<noteq> CHR ''_'') (decimal m @ CHR ''_'' # xs) = decimal m"
      "takeWhile (\<lambda>c. c \<noteq> CHR ''H'') (decimal m @ CHR ''H'' # xs) = decimal m" for m xs
    using decimal_plain [of _ m] by (simp_all add: takeWhile_append)
  have "m = n" if "decimal m @ CHR ''_'' # xs = decimal n @ CHR ''_'' # ys"
    using arg_cong [OF that, of "takeWhile (\<lambda>c. c \<noteq> CHR ''_'')"] by (simp only: tw decimal_inj)
  then show "(decimal m @ CHR ''_'' # xs = decimal n @ CHR ''_'' # ys) = (m = n \<and> xs = ys)" by auto
  have "m = n" if "decimal m @ CHR ''H'' # xs = decimal n @ CHR ''H'' # ys"
    using arg_cong [OF that, of "takeWhile (\<lambda>c. c \<noteq> CHR ''H'')"] by (simp only: tw decimal_inj)
  then show "(decimal m @ CHR ''H'' # xs = decimal n @ CHR ''H'' # ys) = (m = n \<and> xs = ys)" by auto
qed

lemma segment_name_inj:
  "segment_name b s g r = segment_name b' s' g' r' \<longleftrightarrow> b = b' \<and> s = s' \<and> g = g' \<and> r = r'"
  by (auto simp: segment_name_def decimal_sep decimal_inj word_unat_eq_iff)

lemma length_decimal: "n < 10 ^ k \<Longrightarrow> 0 < k \<Longrightarrow> length (decimal n) \<le> k"
proof (induction n arbitrary: k rule: decimal.induct)
  case (1 n)
  show ?case
  proof (cases "n < 10")
    case False
    then obtain j where j: "k = Suc j" "0 < j" using "1.prems" by (cases k; cases "k - 1") auto
    then have "n div 10 < 10 ^ j" using "1.prems" by (simp add: less_mult_imp_div_less mult.commute)
    then show ?thesis using "1.IH" [OF False, of j] j by (subst decimal.simps) simp
  qed (use "1.prems" in \<open>subst decimal.simps, simp\<close>)
qed

lemma length_u32: "length (decimal (unat (w :: u32))) \<le> 10"
proof -
  have "unat w < 10 ^ 10" using unsigned_less [of w, where 'a = nat] by simp
  then show ?thesis by (rule length_decimal) simp
qed

definition part_name :: "u32 \<Rightarrow> u32 \<Rightarrow> u32 \<Rightarrow> u32 \<Rightarrow> string" where
  "part_name b s g r = ''/sd/recordings'' @ ''/'' @ segment_name b s g r"

definition final_name :: "u32 \<Rightarrow> u32 \<Rightarrow> u32 \<Rightarrow> u32 \<Rightarrow> string" where
  "final_name b s g r = ''/sd/recordings'' @ ''/'' @ ''REC_B'' @ decimal (unat b) @ ''_'' @ decimal (unat s) @ ''_'' @
     decimal (unat g) @ ''_'' @ decimal (unat r) @ ''Hz.wav''"

lemma part_final: "part_name b s g r = final_name b s g r @ ''.part''"
  by (simp add: part_name_def final_name_def segment_name_def)

lemma length_final: "length (final_name b s g r) \<le> 69"
  using length_u32 [of b] length_u32 [of s] length_u32 [of g] length_u32 [of r] by (simp add: final_name_def)

lemma final_name_inj: "final_name b s g r = final_name b' s' g' r' \<longleftrightarrow> b = b' \<and> s = s' \<and> g = g' \<and> r = r'"
  by (auto simp: final_name_def decimal_sep decimal_inj word_unat_eq_iff)

lemma last_final: "last (final_name b s g r) = CHR ''v''" "last (part_name b s g r) = CHR ''t''"
  by (simp_all add: final_name_def part_name_def segment_name_def)

lemma part_not_final: "part_name b s g r \<noteq> final_name b' s' g' r'"
proof
  assume "part_name b s g r = final_name b' s' g' r'"
  then have "last (part_name b s g r) = last (final_name b' s' g' r')" by simp
  then show False by (simp add: last_final)
qed

lemma final_path_part: "final_path_of (part_name b s g r) = final_name b s g r"
  using length_final [of b s g r] by (simp add: final_path_of_def part_final Let_def)

lemma format_segment: "audio_recorder_wav_format_segment 96 b s g r = Some (segment_name b s g r)"
  using length_final [of b s g r]
  by (simp add: audio_recorder_wav_format_segment_def segment_name_def final_name_def Let_def)

lemma final_nonempty [simp]: "final_name b s g r \<noteq> []"
  by (simp add: final_name_def)

section \<open>A recording session\<close>

text \<open>
  The files a session has produced, in terms of what was recorded: the finished segments with their rates and samples, and
  the samples of the segment being written.  \<open>session_inv\<close> relates them to the card and the sink.
\<close>

type_synonym segment = "u32 \<times> i16 list"

definition segments_on_card :: "u32 \<Rightarrow> u32 \<Rightarrow> segment list \<Rightarrow> sd_card \<Rightarrow> bool" where
  "segments_on_card boot session segs c \<longleftrightarrow>
     list_all (\<lambda>i. sd_files c (final_name boot session (of_nat i) (fst (segs ! i))) = Some (recorded_file (fst (segs ! i)) (snd (segs ! i)))
        \<and> length (snd (segs ! i)) \<le> 2 ^ 29 \<and> even (length (snd (segs ! i)))) [0..<length segs]"

definition session_inv :: "u32 \<Rightarrow> u32 \<Rightarrow> segment list \<Rightarrow> i16 list \<Rightarrow> sd_card \<Rightarrow> audio_recorder_sink \<Rightarrow> bool" where
  "session_inv boot session segs cur c s \<longleftrightarrow>
     is_open s \<and> snk_boot_id s = boot \<and> snk_session s = session \<and> snk_segment s = of_nat (length segs) \<and>
     part_path s = part_name boot session (snk_segment s) (snk_sample_rate s) \<and>
     snk_data_bytes s = 2 * length cur \<and> snk_pos s = 44 + 2 * length cur \<and> length cur \<le> 2 ^ 29 \<and> even (length cur) \<and>
     (\<exists>m. sd_files c (part_path s) = Some (audio_recorder_wav_build_header (snk_sample_rate s) m @ pcm_bytes cur)) \<and>
     segments_on_card boot session segs c"

lemma sd_fwrite_full:
  assumes "sd_fwrite env path pos data c = (c', n)" "n = length data" "sd_files c path = Some bs"
  shows "sd_files c' = (sd_files c)(path \<mapsto> mem_copy pos data bs)"
  using assms by (auto simp: sd_fwrite_def Let_def)

lemma sd_call_files: "sd_call env c = (c', ok) \<Longrightarrow> sd_files c' = sd_files c"
  by (auto simp: sd_call_def)

lemma segments_cong:
  "(\<And>g r. sd_files c' (final_name b s g r) = sd_files c (final_name b s g r)) \<Longrightarrow>
   segments_on_card b s segs c \<Longrightarrow> segments_on_card b s segs c'"
  by (auto simp: segments_on_card_def list_all_iff)

lemma segments_update_part [simp]:
  "sd_files c' = (sd_files c)(part_name b s g r := x) \<Longrightarrow> segments_on_card b s segs c' = segments_on_card b s segs c"
  by (simp add: segments_on_card_def part_not_final [symmetric])

lemma open_segment_ok:
  assumes "open_segment env s rate c = (c', s', ESP_OK)"
  defines "path \<equiv> part_name (snk_boot_id s) (snk_session s) (snk_segment s) rate"
  shows "sd_files c' = (sd_files c)(path \<mapsto> audio_recorder_wav_build_header rate 0)"
    and "s' = s\<lparr>part_path := path, snk_pos := 44, snk_sample_rate := rate, snk_data_bytes := 0, is_open := True\<rparr>"
proof -
  have l: "\<not> length path \<ge> 96" unfolding path_def part_final
    using length_final [of "snk_boot_id s" "snk_session s" "snk_segment s" rate] by simp
  have p: "''/sd/recordings'' @ ''/'' @ segment_name (snk_boot_id s) (snk_session s) (snk_segment s) rate = path"
    by (simp add: path_def part_name_def)
  have a: "\<exists>c1 n. sd_files c1 = (sd_files c)(path \<mapsto> []) \<and>
      sd_fwrite env path 0 (audio_recorder_wav_build_header rate 0) c1 = (c', n) \<and> n = 44 \<and>
      s' = s\<lparr>part_path := path, snk_pos := 44, snk_sample_rate := rate, snk_data_bytes := 0, is_open := True\<rparr>"
    using assms(1) l unfolding open_segment_def format_segment option.case Let_def p
    by (auto split: prod.splits if_splits) (rule exI, rule conjI [rotated], assumption, simp add: sd_call_files)
  then obtain c1 where c1: "sd_files c1 = (sd_files c)(path \<mapsto> [])"
    "sd_fwrite env path 0 (audio_recorder_wav_build_header rate 0) c1 = (c', 44)" by auto
  show "sd_files c' = (sd_files c)(path \<mapsto> audio_recorder_wav_build_header rate 0)"
    using sd_fwrite_full [OF c1(2), of "[]"] c1(1) by (simp add: mem_copy_def)
  show "s' = s\<lparr>part_path := path, snk_pos := 44, snk_sample_rate := rate, snk_data_bytes := 0, is_open := True\<rparr>"
    using a by auto
qed

lemma patch_ok:
  assumes "patch_header_locked env s rate n c = (c', s', ESP_OK)"
    "sd_files c (part_path s) = Some (audio_recorder_wav_build_header rate m @ bs)"
  shows "sd_files c' = (sd_files c)(part_path s \<mapsto> audio_recorder_wav_build_header rate n @ bs)" "part_path s' = part_path s"
proof -
  obtain c2 c3 where f: "sd_files c2 = sd_files c"
    "sd_fwrite env (part_path s) 0 (audio_recorder_wav_build_header rate n) c2 = (c3, 44)" "sd_files c' = sd_files c3"
    using assms(1) by (auto simp: patch_header_locked_def Let_def split: prod.splits if_splits) (metis sd_call_files)
  show "sd_files c' = (sd_files c)(part_path s \<mapsto> audio_recorder_wav_build_header rate n @ bs)"
    using sd_fwrite_full [OF f(2)] f(1,3) assms(2) by (simp add: mem_copy_def)
  show "part_path s' = part_path s"
    using assms(1) by (auto simp: patch_header_locked_def Let_def split: prod.splits if_splits)
qed

text \<open>A segment is published only when every step before it succeeded, and then the file is complete.\<close>

lemma finalize_run_ok:
  assumes "audio_recorder_finalize_run patch sync close publish True ctx = (ctx', STAGE_NONE, p)"
  obtains c1 c2 c3 where "patch ctx = (c1, True)" "sync c1 = (c2, True)" "close c2 = (c3, True)" "publish c3 = (ctx', True)"
  using assms by (auto simp: audio_recorder_finalize_run_def note_failure_def Let_def split: prod.splits if_splits)

lemma finalize_run_unpublished:
  "snd (snd (audio_recorder_finalize_run patch sync close publish False ctx)) = False"
  by (simp add: audio_recorder_finalize_run_def Let_def split: prod.splits)

lemma sync_step: "recorder_finalize_sync env (s, c) = ((s', c'), True) \<Longrightarrow> s' = s \<and> sd_files c' = sd_files c"
  by (auto simp: recorder_finalize_sync_def Let_def split: prod.splits if_splits) (metis sd_call_files)

lemma close_step:
  "recorder_finalize_close env (s, c) = ((s', c'), ok) \<Longrightarrow> s' = s\<lparr>is_open := False\<rparr> \<and> sd_files c' = sd_files c"
  by (auto simp: recorder_finalize_close_def Let_def sd_call_files split: prod.splits)

lemma publish_step:
  "recorder_finalize_publish env path (s, c) = ((s', c'), True) \<Longrightarrow>
   s' = s \<and> sd_files c' = (sd_files c)(path := sd_files c (part_path s), part_path s := None)"
  by (auto simp: recorder_finalize_publish_def sd_rename_def Let_def split: prod.splits if_splits)

lemma patch_ids:
  "patch_header_locked env s rate n c = (c', s', rc) \<Longrightarrow>
   snk_boot_id s' = snk_boot_id s \<and> snk_session s' = snk_session s \<and> snk_segment s' = snk_segment s"
  by (auto simp: patch_header_locked_def Let_def split: prod.splits if_splits)

lemma segments_snoc:
  assumes "segments_on_card b se segs c" "sd_files c' = (sd_files c)(final_name b se (of_nat (length segs)) r \<mapsto> recorded_file r cur, part_name b1 s1 g1 r1 := x)"
    "length cur \<le> 2 ^ 29" "even (length cur)" "length segs < 2 ^ 32"
  shows "segments_on_card b se (segs @ [(r, cur)]) c'"
proof -
  have "(of_nat i :: u32) \<noteq> of_nat (length segs)" if "i < length segs" for i
    using that assms(5) unat_of_nat32 [of i] unat_of_nat32 [of "length segs"] by (metis less_trans nat_neq_iff)
  then show ?thesis using assms
    by (auto simp: segments_on_card_def list_all_iff nth_append final_name_inj part_not_final [symmetric] less_Suc_eq)
qed

lemma finalize_files:
  assumes "audio_recorder_sink_finalize env c s = (c', s', ESP_OK)" "session_inv b se segs cur c s"
  shows "sd_files c' = (sd_files c)(final_name b se (snk_segment s) (snk_sample_rate s) \<mapsto> recorded_file (snk_sample_rate s) cur, part_path s := None)"
    and "\<not> is_open s' \<and> snk_boot_id s' = b \<and> snk_session s' = se \<and> snk_segment s' = of_nat (length segs)"
proof -
  note I = assms(2) [unfolded session_inv_def]
  let ?r = "snk_sample_rate s" and ?fin = "final_name b se (snk_segment s) (snk_sample_rate s)"
  obtain m where m: "sd_files c (part_path s) = Some (audio_recorder_wav_build_header ?r m @ pcm_bytes cur)" using I by blast
  have fp: "final_path_of (part_path s) = ?fin" using I by (simp add: final_path_part)
  obtain p where run: "audio_recorder_finalize_run (recorder_finalize_patch env) (recorder_finalize_sync env)
      (recorder_finalize_close env) (recorder_finalize_publish env ?fin) True (s, c) = ((s', c'), STAGE_NONE, p)"
    using assms(1) I fp by (auto simp: audio_recorder_sink_finalize_def audio_recorder_sink_close_def Let_def split: prod.splits if_splits)
  then obtain s1 c1 s2 c2 s3 c3 where st: "recorder_finalize_patch env (s, c) = ((s1, c1), True)"
    "recorder_finalize_sync env (s1, c1) = ((s2, c2), True)" "recorder_finalize_close env (s2, c2) = ((s3, c3), True)"
    "recorder_finalize_publish env ?fin (s3, c3) = ((s', c'), True)"
    by (rule finalize_run_ok) (metis surj_pair)
  have p: "patch_header_locked env s ?r (of_nat (2 * length cur)) c = (c1, s1, ESP_OK)"
    using st(1) I by (auto simp: recorder_finalize_patch_def Let_def split: prod.splits)
  note e = sync_step [OF st(2)] close_step [OF st(3)] publish_step [OF st(4)]
  show "sd_files c' = (sd_files c)(?fin \<mapsto> recorded_file ?r cur, part_path s := None)"
    using patch_ok [OF p m] e by (auto simp: recorded_file_def)
  show "\<not> is_open s' \<and> snk_boot_id s' = b \<and> snk_session s' = se \<and> snk_segment s' = of_nat (length segs)"
    using patch_ids [OF p] e I by simp
qed

lemma finalize_ok:
  assumes "audio_recorder_sink_finalize env c s = (c', s', ESP_OK)" "session_inv b se segs cur c s" "length segs < 2 ^ 32"
  shows "segments_on_card b se (segs @ [(snk_sample_rate s, cur)]) c'"
  using segments_snoc [of b se segs c c' "snk_sample_rate s" cur b se "snk_segment s" "snk_sample_rate s" None]
    finalize_files(1) [OF assms(1,2)] assms(2,3) by (simp add: session_inv_def)

text \<open>What a session should produce: the blocks in order, a new segment whenever the rate changes or the cap would be exceeded.\<close>

fun record_block :: "segment list \<times> segment \<Rightarrow> segment \<Rightarrow> segment list \<times> segment" where
  "record_block (segs, r, cur) (rate, samples) =
     (if samples = [] then (segs, r, cur)
      else if rate \<noteq> r \<or> 2 * length cur + 2 * length samples > AUDIO_RECORDER_SEGMENT_DATA_MAX
      then (segs @ [(r, cur)], rate, samples) else (segs, r, cur @ samples))"

definition session_segments :: "u32 \<Rightarrow> segment list \<Rightarrow> segment list" where
  "session_segments rate blocks = (let (segs, last) = foldl record_block ([], rate, []) blocks in segs @ [last])"

definition block_ok :: "segment \<Rightarrow> bool" where
  "block_ok b \<longleftrightarrow> even (length (snd b)) \<and> length (snd b) \<le> 512"

lemma fwrite_block:
  assumes "session_inv b se segs cur c s" "sd_fwrite env (part_path s) (snk_pos s) (pcm_bytes ss) c = (c', n)" "n = 2 * length ss"
    "length cur + length ss \<le> 2 ^ 29" "even (length ss)"
  shows "session_inv b se segs (cur @ ss) c' (s\<lparr>snk_pos := snk_pos s + n, snk_data_bytes := snk_data_bytes s + n\<rparr>)"
proof -
  note I = assms(1) [unfolded session_inv_def]
  obtain m where m: "sd_files c (part_path s) = Some (audio_recorder_wav_build_header (snk_sample_rate s) m @ pcm_bytes cur)" using I by blast
  have "sd_files c' = (sd_files c)(part_path s \<mapsto> audio_recorder_wav_build_header (snk_sample_rate s) m @ pcm_bytes (cur @ ss))"
    using sd_fwrite_full [OF assms(2) _ m] assms(3) I by (simp add: mem_copy_def)
  moreover have "part_path s = part_name b se (snk_segment s) (snk_sample_rate s)" using I by blast
  ultimately show ?thesis using I assms(3,4,5) by (auto simp: session_inv_def)
qed

lemma open_segment_inv:
  assumes "open_segment env s rate c = (c', s', ESP_OK)" "segments_on_card b se segs c" "snk_boot_id s = b" "snk_session s = se"
    "snk_segment s = of_nat (length segs)"
  shows "session_inv b se segs [] c' s'" "snk_sample_rate s' = rate"
  using open_segment_ok [OF assms(1)] assms(2-5) by (auto simp: session_inv_def)

lemma write_block_ok:
  assumes "audio_recorder_sink_write_block env ss (length ss div 2) rate c s = (c', s', ESP_OK)" "session_inv b se segs cur c s"
    "block_ok (rate, ss)" "length segs < 2 ^ 32 - 1" "record_block (segs, snk_sample_rate s, cur) (rate, ss) = (segs', r', cur')"
  shows "session_inv b se segs' cur' c' s'" "snk_sample_rate s' = r'"
proof -
  note I = assms(2) [unfolded session_inv_def]
  have len: "length ss div 2 * 4 = 2 * length ss" "even (length ss)" "length ss \<le> 512" using assms(3) by (auto simp: block_ok_def)
  have t: "take (2 * length ss) (pcm_bytes ss) = pcm_bytes ss" by simp
  let ?roll = "rate \<noteq> snk_sample_rate s \<or> 2 * length cur + 2 * length ss > AUDIO_RECORDER_SEGMENT_DATA_MAX"
  have "session_inv b se segs' cur' c' s' \<and> snk_sample_rate s' = r'"
  proof (cases "ss = []")
    case True
    then show ?thesis using assms(1,2,5) I by (auto simp: audio_recorder_sink_write_block_def)
  next
    case ne: False
    show ?thesis
    proof (cases ?roll)
      case False
      then have b: "length cur + length ss \<le> 2 ^ 29" by (simp add: AUDIO_RECORDER_SEGMENT_DATA_MAX_def)
      have "\<exists>n. sd_fwrite env (part_path s) (snk_pos s) (pcm_bytes ss) c = (c', n) \<and> n = 2 * length ss \<and>
          s' = s\<lparr>snk_pos := snk_pos s + n, snk_data_bytes := snk_data_bytes s + n\<rparr>"
        using assms(1) ne False I len by (auto simp: audio_recorder_sink_write_block_def Let_def split: prod.splits if_splits)
      then show ?thesis using fwrite_block [OF assms(2) _ _ b len(2)] assms(5) ne False by auto
    next
      case True
      obtain c1 s1 c2 s2 n where r: "audio_recorder_sink_finalize env c s = (c1, s1, ESP_OK)"
        "open_segment env (s1\<lparr>snk_segment := snk_segment s1 + 1\<rparr>) rate c1 = (c2, s2, ESP_OK)"
        "sd_fwrite env (part_path s2) (snk_pos s2) (pcm_bytes ss) c2 = (c', n)" "n = 2 * length ss"
        "s' = s2\<lparr>snk_pos := snk_pos s2 + n, snk_data_bytes := snk_data_bytes s2 + n\<rparr>"
        using assms(1) ne True I len by (auto simp: audio_recorder_sink_write_block_def Let_def split: prod.splits if_splits)
      note f = finalize_ok [OF r(1) assms(2)] finalize_files(2) [OF r(1) assms(2)]
      have "session_inv b se (segs @ [(snk_sample_rate s, cur)]) [] c2 s2" "snk_sample_rate s2 = rate"
        using open_segment_inv [OF r(2)] f assms(4) by simp_all
      then show ?thesis using fwrite_block [OF _ r(3,4), of b se _ "[]"] len r(5) assms(5) ne True by auto
    qed
  qed
  then show "session_inv b se segs' cur' c' s'" "snk_sample_rate s' = r'" by simp_all
qed

text \<open>A whole session: open the sink, write the blocks until one fails, finalize.\<close>

fun write_blocks :: "sd_env \<Rightarrow> segment list \<Rightarrow> sd_card \<Rightarrow> audio_recorder_sink \<Rightarrow> sd_card \<times> audio_recorder_sink \<times> esp_err" where
  "write_blocks env [] c s = (c, s, ESP_OK)"
| "write_blocks env ((rate, ss) # blocks) c s =
     (case audio_recorder_sink_write_block env ss (length ss div 2) rate c s of
        (c1, s1, rc) \<Rightarrow> if rc \<noteq> ESP_OK then (c1, s1, rc) else write_blocks env blocks c1 s1)"

definition record_session :: "sd_env \<Rightarrow> u32 \<Rightarrow> u32 \<Rightarrow> u32 \<Rightarrow> segment list \<Rightarrow> sd_card \<Rightarrow> audio_recorder_sink \<Rightarrow> sd_card \<times> esp_err" where
  "record_session env rate boot session blocks c s =
     (case audio_recorder_sink_open env rate boot session c s of
        (c1, s1, rc) \<Rightarrow> if rc \<noteq> ESP_OK then (c1, rc)
        else case write_blocks env blocks c1 s1 of
          (c2, s2, rc2) \<Rightarrow> if rc2 \<noteq> ESP_OK then (fst (audio_recorder_sink_abort env c2 s2), rc2)
          else case audio_recorder_sink_finalize env c2 s2 of (c3, s3, rc3) \<Rightarrow> (c3, rc3))"

lemma write_blocks_ok:
  assumes "write_blocks env blocks c s = (c', s', ESP_OK)" "session_inv b se segs cur c s" "list_all block_ok blocks"
    "length segs + length blocks < 2 ^ 32"
  shows "\<exists>segs' r' cur'. foldl record_block (segs, snk_sample_rate s, cur) blocks = (segs', r', cur') \<and>
     session_inv b se segs' cur' c' s' \<and> snk_sample_rate s' = r' \<and> length segs' \<le> length segs + length blocks"
  using assms
proof (induction blocks arbitrary: c s segs cur)
  case (Cons x blocks)
  obtain rate ss where x: "x = (rate, ss)" by (cases x)
  obtain c1 s1 where w: "audio_recorder_sink_write_block env ss (length ss div 2) rate c s = (c1, s1, ESP_OK)"
    "write_blocks env blocks c1 s1 = (c', s', ESP_OK)"
    using Cons.prems(1) x by (auto split: prod.splits if_splits)
  obtain segs1 r1 cur1 where r: "record_block (segs, snk_sample_rate s, cur) (rate, ss) = (segs1, r1, cur1)" by (metis prod_cases3)
  have l: "length segs1 \<le> Suc (length segs)" using r by (auto split: if_splits)
  have "length segs < 2 ^ 32 - 1" using Cons.prems(4) by simp
  note i = write_block_ok [OF w(1) Cons.prems(2) _ this r]
  show ?case using Cons.IH [OF w(2), of segs1 cur1] i Cons.prems(3,4) l r x by fastforce
qed auto

lemma tagged_record_block:
  "record_block (segs, r, cur) (rate, ss) = (segs', r', cur') \<Longrightarrow>
   concat (map (\<lambda>(r, ss). map (Pair r) ss) (segs' @ [(r', cur')])) =
   concat (map (\<lambda>(r, ss). map (Pair r) ss) (segs @ [(r, cur)])) @ map (Pair rate) ss"
  by (auto split: if_splits)

lemma session_segments_content:
  "concat (map (\<lambda>(r, ss). map (Pair r) ss) (session_segments rate blocks)) = concat (map (\<lambda>(r, ss). map (Pair r) ss) blocks)"
proof -
  have "foldl record_block (segs, r, cur) blocks = (segs', r', cur') \<Longrightarrow>
      concat (map (\<lambda>(r, ss). map (Pair r) ss) (segs' @ [(r', cur')])) =
      concat (map (\<lambda>(r, ss). map (Pair r) ss) (segs @ [(r, cur)])) @ concat (map (\<lambda>(r, ss). map (Pair r) ss) blocks)"
    for segs r cur segs' r' cur'
  proof (induction blocks arbitrary: segs r cur)
    case (Cons x blocks)
    obtain segs1 r1 cur1 where s: "record_block (segs, r, cur) x = (segs1, r1, cur1)" by (metis prod_cases3)
    obtain rate ss where x: "x = (rate, ss)" by (cases x)
    show ?case using Cons.IH [of segs1 r1 cur1] Cons.prems s tagged_record_block [OF s [unfolded x]] x
      by (simp del: record_block.simps)
  qed simp
  then show ?thesis
    by (cases "foldl record_block ([], rate, []) blocks") (fastforce simp: session_segments_def)
qed

lemma record_session_ok:
  assumes "record_session env rate b se blocks c s = (c', ESP_OK)" "list_all block_ok blocks" "length blocks < 2 ^ 32"
  shows "segments_on_card b se (session_segments rate blocks) c'"
proof -
  obtain c1 s1 c2 s2 s3 where r: "audio_recorder_sink_open env rate b se c s = (c1, s1, ESP_OK)"
    "write_blocks env blocks c1 s1 = (c2, s2, ESP_OK)" "audio_recorder_sink_finalize env c2 s2 = (c', s3, ESP_OK)"
    using assms(1) by (auto simp: record_session_def split: prod.splits if_splits)
  have i: "session_inv b se [] [] c1 s1" "snk_sample_rate s1 = rate"
    using r(1) open_segment_inv [of env _ rate c c1 s1 b se "[]"]
    by (auto simp: audio_recorder_sink_open_def segments_on_card_def split: if_splits)
  from write_blocks_ok [OF r(2) i(1) assms(2)] assms(3) i(2) obtain segs' r' cur' where
    w: "foldl record_block ([], rate, []) blocks = (segs', r', cur')" "session_inv b se segs' cur' c2 s2"
      "snk_sample_rate s2 = r'" "length segs' \<le> length blocks" by auto
  then show ?thesis using finalize_ok [OF r(3) w(2)] assms(3) by (simp add: session_segments_def)
qed

section \<open>Recovery\<close>

definition sd_good :: "sd_env" where
  "sd_good = \<lparr>sd_ok = (\<lambda>n. True), sd_short = (\<lambda>n. 0)\<rparr>"

lemma good_fwrite:
  assumes "\<forall>n. sd_ok env n" "sd_files c path = Some bs"
  shows "sd_files (fst (sd_fwrite env path pos data c)) = (sd_files c)(path \<mapsto> mem_copy pos data bs)"
  using assms by (simp add: sd_fwrite_def Let_def)

lemma recover_none:
  assumes "\<forall>n. sd_ok env n" "sd_files c path = Some bs" "audio_recorder_wav_recover_data_bytes (length bs) = None"
  shows "sd_files (recover_one env path c) = (sd_files c)(path := None)"
  using assms by (simp add: recover_one_def sd_call_def)

lemma length_patch [simp]: "length hdr = 44 \<Longrightarrow> length (audio_recorder_wav_patch_sizes hdr d) = 44"
  by (simp add: audio_recorder_wav_patch_sizes_def)

lemma recover_some:
  assumes "\<forall>n. sd_ok env n" "sd_files c path = Some (hdr @ rest)" "length hdr = 44" "take 4 hdr = tag_RIFF" "take 4 (drop 8 hdr) = tag_WAVE"
    "audio_recorder_wav_recover_data_bytes (44 + length rest) = Some d" "recovered_path path = Some new" "new \<noteq> path"
  shows "sd_files (recover_one env path c) =
    (sd_files c)(new \<mapsto> take (44 + unat d) (audio_recorder_wav_patch_sizes hdr d @ rest), path := None)"
  using assms by (simp add: recover_one_def sd_call_def Let_def sd_rename_def sd_fwrite_def mem_copy_def fun_eq_iff)

lemma recover_part:
  assumes ok: "\<forall>n. sd_ok env n" and f: "sd_files c path = Some (take k (audio_recorder_wav_build_header rate m @ pcm_bytes ss))"
    and p: "recovered_path path = Some new" "new \<noteq> path" and len: "length ss < 2 ^ 31 - 22" and k: "k \<le> 44 + 2 * length ss"
  defines "n \<equiv> (k - 44) div 4"
  shows "sd_files (recover_one env path c) =
    (if n = 0 then (sd_files c)(path := None) else (sd_files c)(new \<mapsto> recorded_file rate (take (2 * n) ss), path := None))"
proof -
  let ?bs = "take k (audio_recorder_wav_build_header rate m @ pcm_bytes ss)"
  have lb: "length ?bs = k" using k by simp
  show ?thesis
  proof (cases "n = 0")
    case True
    then have "(k - 44) mod 4 = k - 44" by (simp only: n_def div_eq_0_iff) simp
    then have "audio_recorder_wav_recover_data_bytes k = None" by (simp add: audio_recorder_wav_recover_data_bytes_def)
    then have "sd_files (recover_one env path c) = (sd_files c)(path := None)"
      by (intro recover_none [OF ok f]) (simp only: lb)
    then show ?thesis using True by simp
  next
    case False
    then have k44: "k \<ge> 48" by (simp add: n_def div_eq_0_iff)
    have "k - 44 < 2 ^ 32" using k len by simp
    then have r: "audio_recorder_wav_recover_data_bytes k = Some (of_nat (4 * n))"
      using recover_data_bytes [of "k - 44" k] k44 False by (simp add: n_def)
    have u: "unat (of_nat (4 * n) :: u32) = 4 * n" using \<open>k - 44 < 2 ^ 32\<close> by (intro unat_of_nat32) (simp add: n_def)
    have bs: "?bs = audio_recorder_wav_build_header rate m @ take (k - 44) (pcm_bytes ss)" using k44 by simp
    have n4: "4 * n \<le> k - 44" by (simp add: n_def)
    have l2: "min (length ss) (2 * n) = 2 * n" using n4 k k44 by linarith
    have "take (4 * n) (take (k - 44) (pcm_bytes ss)) = take (2 * (2 * n)) (pcm_bytes ss)" using n4 by (simp add: min_def)
    then have cut: "take (44 + 4 * n) (audio_recorder_wav_build_header rate (of_nat (4 * n)) @ take (k - 44) (pcm_bytes ss))
        = recorded_file rate (take (2 * n) ss)"
      using take_pcm_bytes [of "2 * n" ss] l2 by (simp add: recorded_file_def)
    have magic: "take 4 (audio_recorder_wav_build_header rate m) = tag_RIFF"
      "take 4 (drop 8 (audio_recorder_wav_build_header rate m)) = tag_WAVE" by (simp_all add: header_shape)
    have "44 + length (take (k - 44) (pcm_bytes ss)) = k" using k k44 by simp
    then show ?thesis
      using recover_some [OF ok f [unfolded bs] length_build_header magic _ p, of "of_nat (4 * n)"] r u cut False
      by (simp only: patch_header if_False)
  qed
qed

section \<open>What is published is complete\<close>

definition published_ok :: "u32 \<Rightarrow> u32 \<Rightarrow> sd_card \<Rightarrow> bool" where
  "published_ok b se c \<longleftrightarrow>
     (\<forall>g r bs. sd_files c (final_name b se g r) = Some bs \<longrightarrow> (\<exists>ss. bs = recorded_file r ss \<and> even (length ss) \<and> length ss \<le> 2 ^ 29))"

text \<open>A step that writes to one file at most.\<close>

definition touches :: "string \<Rightarrow> sd_card \<Rightarrow> sd_card \<Rightarrow> bool" where
  "touches path c c' \<longleftrightarrow> (\<forall>q. q \<noteq> path \<longrightarrow> sd_files c' q = sd_files c q)"

lemma touches_refl [simp]: "touches path c c"
  by (simp add: touches_def)

lemma touches_trans: "touches path c c1 \<Longrightarrow> touches path c1 c2 \<Longrightarrow> touches path c c2"
  by (simp add: touches_def)

lemma touches_call: "sd_call env c = (c', ok) \<Longrightarrow> touches path c c'"
  by (simp add: touches_def sd_call_files)

lemma touches_fwrite: "sd_fwrite env path pos data c = (c', n) \<Longrightarrow> touches path c c'"
  by (auto simp: touches_def sd_fwrite_def Let_def)

lemma touches_patch: "patch_header_locked env s r n c = (c', s', rc) \<Longrightarrow> touches (part_path s) c c' \<and> part_path s' = part_path s"
  by (auto simp: patch_header_locked_def touches_def Let_def split: prod.splits if_splits dest!: sd_call_files touches_fwrite)

lemma touches_published:
  "touches (part_name b1 s1 g1 r1) c c' \<Longrightarrow> published_ok b se c \<Longrightarrow> published_ok b se c'"
  by (auto simp: touches_def published_ok_def part_not_final [symmetric])

lemma open_touches:
  assumes "open_segment env s r c = (c', s', rc)"
  shows "touches (part_name (snk_boot_id s) (snk_session s) (snk_segment s) r) c c'"
proof -
  let ?p = "part_name (snk_boot_id s) (snk_session s) (snk_segment s) r"
  have t: "touches ?p c (c1\<lparr>sd_files := (sd_files c1)(?p := x)\<rparr>)" if "sd_call env c = (c1, ok)" for c1 ok x
    using sd_call_files [OF that] by (simp add: touches_def)
  show ?thesis
    using assms unfolding open_segment_def format_segment option.case Let_def part_name_def [symmetric]
    by (auto split: prod.splits if_splits intro: touches_call touches_trans [OF t touches_fwrite])
qed

lemma sync_touches: "recorder_finalize_sync env (s, c) = ((s', c'), ok) \<Longrightarrow> s' = s \<and> touches p c c'"
  by (auto simp: recorder_finalize_sync_def Let_def split: prod.splits if_splits intro: touches_call touches_trans [OF touches_call])

lemma close_touches: "recorder_finalize_close env (s, c) = ((s', c'), ok) \<Longrightarrow> part_path s' = part_path s \<and> touches p c c'"
  by (auto simp: recorder_finalize_close_def Let_def split: prod.splits intro: touches_call)

lemma publish_fails: "recorder_finalize_publish env path (s, c) = ((s', c'), False) \<Longrightarrow> sd_files c' = sd_files c"
  by (auto simp: recorder_finalize_publish_def sd_rename_def Let_def split: prod.splits if_splits)

lemma close_any:
  assumes "audio_recorder_sink_close env allow c s = (c', s', rc)" "rc \<noteq> ESP_OK \<or> \<not> allow"
  shows "touches (part_path s) c c'"
proof (cases "is_open s")
  case True
  let ?fin = "if allow then final_path_of (part_path s) else []"
  obtain s1 c1 p1 s2 c2 p2 s3 c3 p3 where st: "recorder_finalize_patch env (s, c) = ((s1, c1), p1)"
    "recorder_finalize_sync env (s1, c1) = ((s2, c2), p2)" "recorder_finalize_close env (s2, c2) = ((s3, c3), p3)"
    by (metis surj_pair)
  obtain rc1 where "patch_header_locked env s (snk_sample_rate s) (of_nat (snk_data_bytes s)) c = (c1, s1, rc1)"
    using st(1) by (auto simp: recorder_finalize_patch_def Let_def split: prod.splits)
  from touches_patch [OF this] sync_touches [OF st(2), of "part_path s"] close_touches [OF st(3), of "part_path s"]
  have t: "touches (part_path s) c c3" by (auto simp: touches_def)
  have "c' = c3 \<or> (\<exists>s4. recorder_finalize_publish env ?fin (s3, c3) = ((s4, c'), False))"
    using assms True st
    by (auto simp: audio_recorder_sink_close_def audio_recorder_finalize_run_def note_failure_def Let_def split: prod.splits if_splits)
  then show ?thesis using t publish_fails by (auto simp: touches_def)
qed (use assms in \<open>simp add: audio_recorder_sink_close_def\<close>)

lemma segments_published:
  assumes "published_ok b se c" "sd_files c' = (sd_files c)(final_name b se g r \<mapsto> recorded_file r cur, part_name b1 s1 g1 r1 := x)"
    "length cur \<le> 2 ^ 29" "even (length cur)"
  shows "published_ok b se c'"
  using assms by (auto simp: published_ok_def final_name_inj part_not_final [symmetric])

lemma finalize_published:
  assumes "audio_recorder_sink_finalize env c s = (c', s', rc)" "session_inv b se segs cur c s" "published_ok b se c"
  shows "published_ok b se c'"
proof (cases "rc = ESP_OK")
  case True
  have p: "part_path s = part_name b se (snk_segment s) (snk_sample_rate s)" "length cur \<le> 2 ^ 29" "even (length cur)"
    using assms(2) by (auto simp: session_inv_def)
  show ?thesis
    using segments_published [OF assms(3) _ p(2,3)] finalize_files(1) [OF assms(1) [unfolded True] assms(2)] p(1) by simp
next
  case False
  have "touches (part_name b se (snk_segment s) (snk_sample_rate s)) c c'"
    using close_any [of env True c s c' s' rc] assms(1,2) False by (simp add: audio_recorder_sink_finalize_def session_inv_def)
  then show ?thesis using touches_published assms(3) by blast
qed

lemma close_ids:
  assumes "audio_recorder_sink_close env allow c s = (c', s', rc)"
  shows "part_path s' = part_path s \<and> snk_boot_id s' = snk_boot_id s \<and> snk_session s' = snk_session s"
proof (cases "is_open s")
  case True
  let ?fin = "if allow then final_path_of (part_path s) else []"
  obtain s1 c1 p1 s2 c2 p2 s3 c3 p3 s4 c4 p4 where st: "recorder_finalize_patch env (s, c) = ((s1, c1), p1)"
    "recorder_finalize_sync env (s1, c1) = ((s2, c2), p2)" "recorder_finalize_close env (s2, c2) = ((s3, c3), p3)"
    "recorder_finalize_publish env ?fin (s3, c3) = ((s4, c4), p4)"
    by (metis surj_pair)
  obtain rc1 where pt: "patch_header_locked env s (snk_sample_rate s) (of_nat (snk_data_bytes s)) c = (c1, s1, rc1)"
    using st(1) by (auto simp: recorder_finalize_patch_def Let_def split: prod.splits)
  have "s2 = s1" "s3 = s2\<lparr>is_open := False\<rparr>" using sync_touches [OF st(2)] close_step [OF st(3)] by auto
  moreover have "s4 = s3" using st(4) by (auto simp: recorder_finalize_publish_def Let_def split: prod.splits if_splits)
  moreover have "s' = s3 \<or> s' = s4" using assms True st
    by (auto simp: audio_recorder_sink_close_def audio_recorder_finalize_run_def Let_def split: prod.splits if_splits)
  ultimately show ?thesis using touches_patch [OF pt] patch_ids [OF pt] by auto
qed (use assms in \<open>simp add: audio_recorder_sink_close_def\<close>)

lemma open_path:
  assumes "open_segment env s r c = (c', s', rc)"
  shows "part_path s' = part_name (snk_boot_id s) (snk_session s) (snk_segment s) r"
proof -
  have "\<not> 96 \<le> length (part_name (snk_boot_id s) (snk_session s) (snk_segment s) r)"
    unfolding part_final using length_final [of "snk_boot_id s" "snk_session s" "snk_segment s" r] by simp
  then show ?thesis
    using assms unfolding open_segment_def format_segment option.case Let_def part_name_def [symmetric]
    by (auto split: prod.splits if_splits)
qed

lemma fwrite_published:
  "sd_fwrite env (part_name b1 s1 g1 r1) pos data c = (c', n) \<Longrightarrow> published_ok b se c \<Longrightarrow> published_ok b se c'"
  by (rule touches_published [OF touches_fwrite])

lemma write_block_published:
  assumes "audio_recorder_sink_write_block env ss (length ss div 2) rate c s = (c', s', rc)" "session_inv b se segs cur c s"
    "published_ok b se c"
  shows "published_ok b se c' \<and> (\<exists>g r. part_path s' = part_name b se g r)"
proof -
  let ?len = "length ss div 2 * 4"
  let ?roll = "rate \<noteq> snk_sample_rate s \<or> snk_data_bytes s + ?len > AUDIO_RECORDER_SEGMENT_DATA_MAX"
  have I: "is_open s" "snk_boot_id s = b" "snk_session s = se" "part_path s = part_name b se (snk_segment s) (snk_sample_rate s)"
    using assms(2) by (auto simp: session_inv_def)
  show ?thesis
  proof (cases "?len = 0 \<or> \<not> ?roll")
    case True
    then show ?thesis using assms(1,3) I
      by (auto simp: audio_recorder_sink_write_block_def Let_def split: prod.splits if_splits dest: fwrite_published) blast+
  next
    case False
    obtain c1 s1 rc1 where f: "audio_recorder_sink_finalize env c s = (c1, s1, rc1)" by (metis prod_cases3)
    note fp = finalize_published [OF f assms(2,3)]
      and fi = close_ids [OF f [unfolded audio_recorder_sink_finalize_def]]
    obtain c2 s2 rc2 where o: "open_segment env (s1\<lparr>snk_segment := snk_segment s1 + 1\<rparr>) rate c1 = (c2, s2, rc2)" by (metis prod_cases3)
    have op: "published_ok b se c2" using touches_published [OF open_touches [OF o] fp] .
    have pp: "part_path s2 = part_name b se (snk_segment s1 + 1) rate" using open_path [OF o] fi I by simp
    show ?thesis using assms(1) I False f o fp op pp fi
      by (auto simp: audio_recorder_sink_write_block_def Let_def split: prod.splits if_splits dest: fwrite_published) blast+
  qed
qed

lemma write_blocks_published:
  assumes "write_blocks env blocks c s = (c', s', rc)" "session_inv b se segs cur c s" "published_ok b se c" "list_all block_ok blocks"
    "length segs + length blocks < 2 ^ 32"
  shows "published_ok b se c' \<and> (\<exists>g r. part_path s' = part_name b se g r)"
  using assms
proof (induction blocks arbitrary: c s segs cur)
  case Nil
  then show ?case by (auto simp: session_inv_def)
next
  case (Cons x blocks)
  obtain rate ss where x: "x = (rate, ss)" by (cases x)
  obtain c1 s1 rc1 where w: "audio_recorder_sink_write_block env ss (length ss div 2) rate c s = (c1, s1, rc1)" by (metis prod_cases3)
  note p = write_block_published [OF w Cons.prems(2,3)]
  show ?case
  proof (cases "rc1 = ESP_OK")
    case True
    obtain segs1 r1 cur1 where r: "record_block (segs, snk_sample_rate s, cur) (rate, ss) = (segs1, r1, cur1)" by (metis prod_cases3)
    have l: "length segs1 \<le> Suc (length segs)" using r by (auto split: if_splits)
    have "session_inv b se segs1 cur1 c1 s1"
      using write_block_ok(1) [OF w [unfolded True] Cons.prems(2) _ _ r] Cons.prems(4,5) x by simp
    then show ?thesis using Cons.IH [of c1 s1 segs1 cur1] p Cons.prems w x True l by simp
  qed (use Cons.prems(1) w x p in simp)
qed

lemma record_session_published:
  assumes "record_session env rate b se blocks c s = (c', rc)" "published_ok b se c" "list_all block_ok blocks" "length blocks < 2 ^ 32"
  shows "published_ok b se c'"
proof -
  obtain c1 s1 rc1 where o: "audio_recorder_sink_open env rate b se c s = (c1, s1, rc1)" by (metis prod_cases3)
  have p1: "published_ok b se c1"
    using o assms(2) touches_published [OF open_touches] by (auto simp: audio_recorder_sink_open_def split: if_splits)
  show ?thesis
  proof (cases "rc1 = ESP_OK")
    case True
    have i: "session_inv b se [] [] c1 s1"
      using o True open_segment_inv(1) [of env _ rate c c1 s1 b se "[]"]
      by (auto simp: audio_recorder_sink_open_def segments_on_card_def split: if_splits)
    obtain c2 s2 rc2 where w: "write_blocks env blocks c1 s1 = (c2, s2, rc2)" by (metis prod_cases3)
    from write_blocks_published [OF w i p1 assms(3)] assms(4) obtain g r where
      p2: "published_ok b se c2" "part_path s2 = part_name b se g r" by auto
    show ?thesis
    proof (cases "rc2 = ESP_OK")
      case True
      from write_blocks_ok [OF w [unfolded True] i assms(3)] assms(4) obtain segs' cur' where "session_inv b se segs' cur' c2 s2" by auto
      then show ?thesis using assms(1) o w True \<open>rc1 = ESP_OK\<close> finalize_published [OF _ _ p2(1)]
        by (auto simp: record_session_def split: prod.splits)
    next
      case False
      obtain c3 s3 rc3 where a: "audio_recorder_sink_abort env c2 s2 = (c3, s3, rc3)" by (metis prod_cases3)
      have "touches (part_name b se g r) c2 c3" using close_any [of env False c2 s2 c3 s3 rc3] a p2(2) by (simp add: audio_recorder_sink_abort_def)
      then show ?thesis using touches_published p2(1) assms(1) o w False \<open>rc1 = ESP_OK\<close> a by (auto simp: record_session_def)
    qed
  qed (use assms(1) o p1 in \<open>auto simp: record_session_def\<close>)
qed

section \<open>A card that works\<close>

lemma good_call: "\<forall>n. sd_ok env n \<Longrightarrow> snd (sd_call env c)"
  by (simp add: sd_call_def)

lemma good_written: "\<forall>n. sd_ok env n \<Longrightarrow> snd (sd_fwrite env path pos data c) = length data"
  by (simp add: sd_fwrite_def Let_def)

lemma good_open_segment: "\<forall>n. sd_ok env n \<Longrightarrow> snd (snd (open_segment env s r c)) = ESP_OK"
  using good_call [of env] good_written [of env] length_final [of "snk_boot_id s" "snk_session s" "snk_segment s" r]
  unfolding open_segment_def format_segment option.case Let_def part_name_def [symmetric] part_final
  by (auto split: prod.splits) (metis snd_conv length_build_header)+

lemma good_patch: "\<forall>n. sd_ok env n \<Longrightarrow> snd (snd (patch_header_locked env s r n c)) = ESP_OK"
  by (simp add: patch_header_locked_def Let_def sd_call_def sd_fwrite_def)

lemma good_finalize:
  assumes ok: "\<forall>n. sd_ok env n" and p: "part_path s = part_name b se g r"
  shows "snd (snd (audio_recorder_sink_finalize env c s)) = ESP_OK"
proof -
  obtain c1 s1 where pt: "patch_header_locked env s (snk_sample_rate s) (of_nat (snk_data_bytes s)) c = (c1, s1, ESP_OK)"
    using good_patch [OF ok] by (metis prod.collapse)
  show ?thesis using ok p pt
    by (simp add: audio_recorder_sink_finalize_def audio_recorder_sink_close_def audio_recorder_finalize_run_def Let_def final_path_part
        recorder_finalize_patch_def recorder_finalize_sync_def recorder_finalize_close_def recorder_finalize_publish_def
        sd_call_def sd_rename_def note_failure_def)
qed

lemma good_write:
  assumes ok: "\<forall>n. sd_ok env n" and i: "session_inv b se segs cur c s" and bo: "block_ok (rate, ss)"
  shows "snd (snd (audio_recorder_sink_write_block env ss (length ss div 2) rate c s)) = ESP_OK"
proof -
  have I: "is_open s" "part_path s = part_name b se (snk_segment s) (snk_sample_rate s)" using i by (auto simp: session_inv_def)
  have "snd (sd_fwrite env path pos (take (length ss div 2 * 4) (pcm_bytes ss)) c) = length ss div 2 * 4" for path pos c
    using good_written [OF ok] bo by (auto simp: block_ok_def)
  then show ?thesis
    using I good_finalize [OF ok I(2), of c] good_open_segment [OF ok]
    by (auto simp: audio_recorder_sink_write_block_def Let_def split: prod.splits) (metis snd_conv)+
qed

lemma good_session:
  assumes ok: "\<forall>n. sd_ok env n" and r: "rate \<noteq> 0" and b: "list_all block_ok blocks" "length blocks < 2 ^ 32"
  shows "snd (record_session env rate boot session blocks c s) = ESP_OK"
proof -
  obtain c1 s1 where o: "audio_recorder_sink_open env rate boot session c s = (c1, s1, ESP_OK)"
    using good_open_segment [OF ok] r by (metis audio_recorder_sink_open_def prod.collapse)
  have i: "session_inv boot session [] [] c1 s1"
    using o open_segment_inv(1) [of env _ rate c c1 s1 boot session "[]"]
    by (auto simp: audio_recorder_sink_open_def segments_on_card_def split: if_splits)
  have "\<exists>c2 s2. write_blocks env bs c s = (c2, s2, ESP_OK)"
    if "session_inv boot session segs cur c s" "list_all block_ok bs" "length segs + length bs < 2 ^ 32" for bs c s segs cur
    using that
  proof (induction bs arbitrary: c s segs cur)
    case (Cons x bs)
    obtain rate ss where x: "x = (rate, ss)" by (cases x)
    obtain c1 s1 where w: "audio_recorder_sink_write_block env ss (length ss div 2) rate c s = (c1, s1, ESP_OK)"
      using good_write [OF ok Cons.prems(1), of rate ss] Cons.prems(2) x by (metis list.pred_inject(2) prod.collapse)
    obtain segs1 r1 cur1 where rb: "record_block (segs, snk_sample_rate s, cur) (rate, ss) = (segs1, r1, cur1)" by (metis prod_cases3)
    have l: "length segs1 \<le> Suc (length segs)" using rb by (auto split: if_splits)
    have "session_inv boot session segs1 cur1 c1 s1"
      using write_block_ok(1) [OF w Cons.prems(1) _ _ rb] Cons.prems(2,3) x by simp
    then show ?case using Cons.IH [of segs1 cur1 c1 s1] Cons.prems w x l by simp
  qed simp
  from this [OF i b(1)] b(2) obtain c2 s2 where w: "write_blocks env blocks c1 s1 = (c2, s2, ESP_OK)" by auto
  from write_blocks_ok [OF w i b(1)] b(2) obtain segs' cur' where "session_inv boot session segs' cur' c2 s2" by auto
  then have "part_path s2 = part_name boot session (snk_segment s2) (snk_sample_rate s2)" by (simp add: session_inv_def)
  from good_finalize [OF ok this, of c2] o w show ?thesis by (auto simp: record_session_def split: prod.splits)
qed

section \<open>Sessions do not disturb each other\<close>

text \<open>\<open>session_playable\<close>: the final files of a session hold its blocks and play back; only files with its names matter.\<close>

definition session_playable :: "u32 \<Rightarrow> u32 \<Rightarrow> u32 \<Rightarrow> segment list \<Rightarrow> sd_card \<Rightarrow> bool" where
  "session_playable boot session rate blocks c \<longleftrightarrow>
     (let segs = session_segments rate blocks in
      concat (map (\<lambda>(r, ss). map (Pair r) ss) segs) = concat (map (\<lambda>(r, ss). map (Pair r) ss) blocks) \<and>
      list_all (\<lambda>i. let (r, ss) = segs ! i; n = length ss div 2 in
        map_option (\<lambda>bs. play_wav bs 0 n) (sd_files c (final_name boot session (of_nat i) r)) = Some (Some (recorded_info r n, ss)))
        [0..<length segs])"

lemma session_playable_cong:
  "(\<And>g r. sd_files c' (final_name b se g r) = sd_files c (final_name b se g r)) \<Longrightarrow>
   session_playable b se rate blocks c' = session_playable b se rate blocks c"
  by (simp add: session_playable_def)

lemma segments_playable:
  assumes "segments_on_card boot session (session_segments rate blocks) c"
  shows "session_playable boot session rate blocks c"
proof -
  let ?segs = "session_segments rate blocks"
  have "map_option (\<lambda>bs. play_wav bs 0 (length ss div 2)) (sd_files c (final_name boot session (of_nat i) r)) =
      Some (Some (recorded_info r (length ss div 2), ss))" if "i < length ?segs" "?segs ! i = (r, ss)" for i r ss
  proof -
    have f: "sd_files c (final_name boot session (of_nat i) r) = Some (recorded_file r ss)" "length ss \<le> 2 ^ 29" "even (length ss)"
      using assms that unfolding segments_on_card_def list_all_iff by (metis atLeastLessThan_iff fst_conv snd_conv set_upt le0)+
    have "length ss = 2 * (length ss div 2)" "length ss div 2 < 2 ^ 29 - 11" using f(2,3) by auto
    from play_recorded [OF this, of r "[]" 0 "length ss div 2"] f show ?thesis by simp
  qed
  then show ?thesis using session_segments_content by (simp add: session_playable_def Let_def list_all_iff split: prod.splits)
qed

text \<open>Every operation of the sink touches only files of its own session.\<close>

definition own_files :: "u32 \<Rightarrow> u32 \<Rightarrow> sd_card \<Rightarrow> sd_card \<Rightarrow> bool" where
  "own_files b se c c' \<longleftrightarrow>
     (\<forall>se' g r. se' \<noteq> se \<longrightarrow> sd_files c' (final_name b se' g r) = sd_files c (final_name b se' g r))"

definition sink_named :: "u32 \<Rightarrow> u32 \<Rightarrow> audio_recorder_sink \<Rightarrow> bool" where
  "sink_named b se s \<longleftrightarrow> snk_boot_id s = b \<and> snk_session s = se \<and> (is_open s \<longrightarrow> (\<exists>g r. part_path s = part_name b se g r))"

lemma own_files_refl [simp]: "own_files b se c c"
  by (simp add: own_files_def)

lemma own_files_trans: "own_files b se c c1 \<Longrightarrow> own_files b se c1 c2 \<Longrightarrow> own_files b se c c2"
  by (simp add: own_files_def)

lemma touches_own: "touches (part_name b1 s1 g1 r1) c c' \<Longrightarrow> own_files b se c c'"
  by (simp add: touches_def own_files_def part_not_final [symmetric])

lemma close_own:
  assumes "audio_recorder_sink_close env allow c s = (c', s', rc)" "sink_named b se s"
  shows "own_files b se c c' \<and> sink_named b se s'"
proof (cases "is_open s")
  case True
  obtain g r where p: "part_path s = part_name b se g r" using assms(2) True by (auto simp: sink_named_def)
  note ids = close_ids [OF assms(1)]
  let ?fin = "if allow then final_path_of (part_path s) else []"
  obtain s1 c1 p1 s2 c2 p2 s3 c3 p3 where st: "recorder_finalize_patch env (s, c) = ((s1, c1), p1)"
    "recorder_finalize_sync env (s1, c1) = ((s2, c2), p2)" "recorder_finalize_close env (s2, c2) = ((s3, c3), p3)"
    by (metis surj_pair)
  obtain rc1 where "patch_header_locked env s (snk_sample_rate s) (of_nat (snk_data_bytes s)) c = (c1, s1, rc1)"
    using st(1) by (auto simp: recorder_finalize_patch_def Let_def split: prod.splits)
  from touches_patch [OF this] sync_touches [OF st(2), of "part_path s"] close_touches [OF st(3), of "part_path s"]
  have t: "touches (part_path s) c c3" "part_path s3 = part_path s" by (auto simp: touches_def)
  have "c' = c3 \<or> (\<exists>s4 ok. allow \<and> recorder_finalize_publish env ?fin (s3, c3) = ((s4, c'), ok))"
    using assms(1) True st
    by (auto simp: audio_recorder_sink_close_def audio_recorder_finalize_run_def Let_def split: prod.splits if_splits)
  then have "c' = c3 \<or> sd_files c' = sd_files c3 \<or>
      sd_files c' = (sd_files c3)(final_name b se g r := sd_files c3 (part_path s), part_path s := None)"
    using p t(2) by (auto simp: recorder_finalize_publish_def sd_rename_def final_path_part Let_def split: prod.splits if_splits)
  then have "own_files b se c3 c'" using p by (auto simp: own_files_def part_not_final [symmetric] final_name_inj)
  then have "own_files b se c c'" by (rule own_files_trans [OF touches_own [OF t(1) [unfolded p]]])
  then show ?thesis using ids assms(2) p by (auto simp: sink_named_def)
qed (use assms in \<open>simp add: audio_recorder_sink_close_def\<close>)

lemma open_own:
  assumes "open_segment env s rate c = (c', s', rc)" "snk_boot_id s = b" "snk_session s = se"
  shows "own_files b se c c' \<and> sink_named b se s'"
proof -
  have "snk_boot_id s' = snk_boot_id s \<and> snk_session s' = snk_session s"
    using assms(1) unfolding open_segment_def format_segment option.case Let_def by (auto split: prod.splits if_splits)
  then show ?thesis using touches_own [OF open_touches [OF assms(1)]] open_path [OF assms(1)] assms(2,3) by (auto simp: sink_named_def)
qed

lemma fwrite_own: "sd_fwrite env (part_name b1 s1 g1 r1) pos data c = (c', n) \<Longrightarrow> own_files b se c c'"
  by (rule touches_own [OF touches_fwrite])

lemma write_block_own:
  assumes "audio_recorder_sink_write_block env ss n rate c s = (c', s', rc)" "sink_named b se s"
  shows "own_files b se c c' \<and> sink_named b se s'"
proof -
  let ?len = "n * 4"
  let ?roll = "rate \<noteq> snk_sample_rate s \<or> snk_data_bytes s + ?len > AUDIO_RECORDER_SEGMENT_DATA_MAX"
  show ?thesis
  proof (cases "\<not> is_open s \<or> ?len = 0 \<or> \<not> ?roll")
    case True
    then show ?thesis using assms
      by (auto simp: audio_recorder_sink_write_block_def sink_named_def Let_def split: prod.splits if_splits dest: fwrite_own) blast+
  next
    case False
    obtain c1 s1 rc1 where f: "audio_recorder_sink_finalize env c s = (c1, s1, rc1)" by (metis prod_cases3)
    note fo = close_own [OF f [unfolded audio_recorder_sink_finalize_def] assms(2)]
    obtain c2 s2 rc2 where o: "open_segment env (s1\<lparr>snk_segment := snk_segment s1 + 1\<rparr>) rate c1 = (c2, s2, rc2)" by (metis prod_cases3)
    have ids: "snk_boot_id s1 = b" "snk_session s1 = se" using fo by (simp_all add: sink_named_def)
    have oo: "own_files b se c1 c2" "sink_named b se s2" using open_own [OF o] ids by simp_all
    have pp: "part_path s2 = part_name b se (snk_segment s1 + 1) rate" using open_path [OF o] ids by simp
    have t: "own_files b se c c2" using fo oo(1) own_files_trans by blast
    show ?thesis using assms(1) False f o fo oo t pp own_files_trans [OF t fwrite_own]
      by (auto simp: audio_recorder_sink_write_block_def sink_named_def Let_def split: prod.splits if_splits) blast+
  qed
qed

lemma sink_open_own:
  assumes "audio_recorder_sink_open env rate b se c s = (c', s', ESP_OK)"
  shows "own_files b se c c' \<and> sink_named b se s' \<and> session_inv b se [] [] c' s' \<and> snk_sample_rate s' = rate"
  using assms open_own [of env _ rate c c' s' ESP_OK b se] open_segment_inv [of env _ rate c c' s' b se "[]"]
  by (auto simp: audio_recorder_sink_open_def segments_on_card_def split: if_splits)

lemma sink_open_any: "audio_recorder_sink_open env rate b se c s = (c', s', rc) \<Longrightarrow> own_files b se c c'"
  using open_own [of env _ rate c c' s' rc b se] by (auto simp: audio_recorder_sink_open_def split: if_splits)

lemma write_block_prefix:
  "2 * n \<le> length ss \<Longrightarrow>
   audio_recorder_sink_write_block env ss n rate c s = audio_recorder_sink_write_block env (take (2 * n) ss) n rate c s"
proof -
  have "take (n * 4) (pcm_bytes (take (2 * n) ss)) = take (n * 4) (pcm_bytes ss)"
    using take_pcm_bytes [of "2 * n" ss] by (simp add: mult.commute)
  then show ?thesis unfolding audio_recorder_sink_write_block_def Let_def by (simp only:)
qed

section \<open>Properties\<close>

text \<open>
  Claim C31.  When a recording session reports success, its final files hold exactly what was recorded: the samples of all
  blocks in order and under the rate they were recorded with, split into segments that each open in the WAV decoder and
  play back in full.  This holds however the card behaved, since every failure is reported.
\<close>

theorem recorded_session_plays_back:
  assumes "record_session env rate boot session blocks c s = (c', ESP_OK)" "list_all block_ok blocks" "length blocks < 2 ^ 32"
  shows "session_playable boot session rate blocks c'"
  using record_session_ok [OF assms] by (rule segments_playable)

definition empty_card :: sd_card where
  "empty_card = \<lparr>sd_files = (\<lambda>path. None), sd_calls = 0\<rparr>"

definition no_sink :: audio_recorder_sink where
  "no_sink = \<lparr>snk_pos = 0, snk_sample_rate = 0, snk_boot_id = 0, snk_session = 0, snk_segment = 0, snk_data_bytes = 0, part_path = [],
     is_open = False\<rparr>"

theorem recorded_session_plays_back_witness:
  "let c' = fst (record_session sd_good 48000 1 1 [(48000, [1, 2]), (44100, [3, 4])] empty_card no_sink) in
     map_option (\<lambda>bs. play_wav bs 0 1) (sd_files c' (final_name 1 1 0 48000)) = Some (Some (recorded_info 48000 1, [1, 2])) \<and>
     map_option (\<lambda>bs. play_wav bs 0 1) (sd_files c' (final_name 1 1 1 44100)) = Some (Some (recorded_info 44100 1, [3, 4]))"
proof -
  let ?b = "[(48000, [1, 2]), (44100, [3, 4])] :: segment list"
  have "snd (record_session sd_good 48000 1 1 ?b empty_card no_sink) = ESP_OK"
    by (rule good_session) (simp_all add: sd_good_def block_ok_def)
  then have r: "record_session sd_good 48000 1 1 ?b empty_card no_sink = (fst (record_session sd_good 48000 1 1 ?b empty_card no_sink), ESP_OK)"
    by (metis prod.collapse)
  have g: "session_segments 48000 ?b = ?b" by (simp add: session_segments_def AUDIO_RECORDER_SEGMENT_DATA_MAX_def)
  show ?thesis using recorded_session_plays_back [OF r] by (simp add: block_ok_def session_playable_def Let_def g)
qed

text \<open>
  Claim C34.  Whatever the card does, and whatever a session returns, every file the session has published under a final
  name is a complete WAV file with the header of its samples: an interrupted or failed segment keeps its \<open>.part\<close> name.
\<close>

theorem published_recordings_complete:
  assumes "list_all block_ok blocks" "length blocks < 2 ^ 32" "\<And>g r. sd_files c (final_name boot session g r) = None"
    "sd_files (fst (record_session env rate boot session blocks c s)) (final_name boot session g r) = Some bs"
  shows "\<exists>ss. bs = recorded_file r ss \<and> even (length ss) \<and> length ss \<le> 2 ^ 29"
proof -
  have "published_ok boot session c" using assms(3) by (simp add: published_ok_def)
  from record_session_published [OF _ this assms(1,2), of env rate s "fst (record_session env rate boot session blocks c s)"] assms(4)
  show ?thesis by (metis prod.collapse published_ok_def)
qed

theorem published_recordings_complete_witness:
  "\<exists>ss. the (sd_files (fst (record_session sd_good 48000 1 1 [(48000, [1, 2])] empty_card no_sink)) (final_name 1 1 0 48000)) =
     recorded_file 48000 ss \<and> even (length ss) \<and> length ss \<le> 2 ^ 29"
proof -
  let ?b = "[(48000, [1, 2])] :: segment list"
  have "snd (record_session sd_good 48000 1 1 ?b empty_card no_sink) = ESP_OK"
    by (rule good_session) (simp_all add: sd_good_def block_ok_def)
  then have r: "record_session sd_good 48000 1 1 ?b empty_card no_sink = (fst (record_session sd_good 48000 1 1 ?b empty_card no_sink), ESP_OK)"
    by (metis prod.collapse)
  have g: "session_segments 48000 ?b = ?b" by (simp add: session_segments_def AUDIO_RECORDER_SEGMENT_DATA_MAX_def)
  have "segments_on_card 1 1 ?b (fst (record_session sd_good 48000 1 1 ?b empty_card no_sink))"
    using record_session_ok [OF r] g by (simp add: block_ok_def)
  then have "sd_files (fst (record_session sd_good 48000 1 1 ?b empty_card no_sink)) (final_name 1 1 0 48000) = Some (recorded_file 48000 [1, 2])"
    by (simp add: segments_on_card_def)
  then show ?thesis
    using published_recordings_complete [of ?b empty_card 1 1 sd_good 48000 no_sink 0 48000] by (simp add: block_ok_def empty_card_def)
qed

text \<open>
  Claim C32.  Power loss while recording: when the card keeps the first \<open>k\<close> bytes of a segment in progress, recovery at boot
  turns it into a \<open>.recovered.wav\<close> that opens and plays back all whole frames among them, or removes it when there is none.
\<close>

definition recovered_name :: "u32 \<Rightarrow> u32 \<Rightarrow> u32 \<Rightarrow> u32 \<Rightarrow> string" where
  "recovered_name b s g r = ''/sd/recordings/REC_B'' @ decimal (unat b) @ ''_'' @ decimal (unat s) @ ''_'' @
     decimal (unat g) @ ''_'' @ decimal (unat r) @ ''Hz.recovered.wav''"

lemma ends_with_append: "xs \<noteq> [] \<Longrightarrow> ends_with (xs @ suffix) suffix"
  by (simp add: ends_with_def)

lemma recovered_part: "recovered_path (part_name b s g r) = Some (recovered_name b s g r)" "recovered_name b s g r \<noteq> part_name b s g r"
proof -
  let ?stem = "''/sd/recordings/REC_B'' @ decimal (unat b) @ ''_'' @ decimal (unat s) @ ''_'' @ decimal (unat g) @ ''_'' @ decimal (unat r) @ ''Hz''"
  have p: "part_name b s g r = ?stem @ ''.wav.part''" "recovered_name b s g r = ?stem @ ''.recovered.wav''"
    by (simp_all add: part_name_def segment_name_def recovered_name_def)
  have "length ?stem \<le> 69" using length_u32 [of b] length_u32 [of s] length_u32 [of g] length_u32 [of r] by simp
  then show "recovered_path (part_name b s g r) = Some (recovered_name b s g r)"
    unfolding p by (simp add: recovered_path_def ends_with_def Let_def del: append_assoc append.simps)
  show "recovered_name b s g r \<noteq> part_name b s g r" unfolding p by (simp del: append_assoc)
qed

theorem interrupted_recording_recovered:
  assumes "\<forall>n. sd_ok env n" "length ss = 2 * m" "m < 2 ^ 29 - 11" "k \<le> 44 + 4 * m"
    "sd_files c (part_name b se g r) = Some (take k (audio_recorder_wav_build_header r 0 @ pcm_bytes ss))"
  shows "let c' = audio_recorder_sink_recover_orphans env (Some [segment_name b se g r]) c; n = (k - 44) div 4 in
    sd_files c' (part_name b se g r) = None \<and>
    (if n = 0 then sd_files c' (recovered_name b se g r) = sd_files c (recovered_name b se g r)
     else map_option (\<lambda>bs. play_wav bs 0 n) (sd_files c' (recovered_name b se g r)) = Some (Some (recorded_info r n, take (2 * n) ss)))"
proof -
  let ?n = "(k - 44) div 4" and ?p = "part_name b se g r" and ?q = "recovered_name b se g r"
  have path: "''/sd/recordings'' @ ''/'' @ segment_name b se g r = ?p" by (simp add: part_name_def)
  have len: "\<not> 96 \<le> length ?p" unfolding part_final using length_final [of b se g r] by simp
  have "segment_name b se g r = (''REC_B'' @ decimal (unat b) @ ''_'' @ decimal (unat se) @ ''_'' @ decimal (unat g) @ ''_'' @
      decimal (unat r) @ ''Hz'') @ ''.wav.part''" by (simp add: segment_name_def)
  then have ends: "ends_with (segment_name b se g r) ''.wav.part''"
    by (simp only:) (rule ends_with_append, simp)
  have c': "audio_recorder_sink_recover_orphans env (Some [segment_name b se g r]) c = recover_one env ?p c"
    using len ends by (simp add: audio_recorder_sink_recover_orphans_def Let_def path [simplified])
  have k: "k \<le> 44 + 2 * length ss" "length ss < 2 ^ 31 - 22" using assms(2,3,4) by simp_all
  note r = recover_part [OF assms(1,5) recovered_part k(2,1)]
  have "length (take (2 * ?n) ss) = 2 * ?n" "?n < 2 ^ 29 - 11" using assms(2,3,4) by auto
  from play_recorded [OF this, of r "[]" 0 ?n] r recovered_part(2) show ?thesis by (auto simp: c' Let_def)
qed

definition cut_segment :: sd_card where
  "cut_segment = empty_card\<lparr>sd_files := [part_name 1 1 0 48000 \<mapsto> take 55 (audio_recorder_wav_build_header 48000 0 @ pcm_bytes [1, 2, 3, 4, 5, 6])]\<rparr>"

theorem interrupted_recording_recovered_witness:
  "map_option (\<lambda>bs. play_wav bs 0 2) (sd_files (audio_recorder_sink_recover_orphans sd_good (Some [segment_name 1 1 0 48000]) cut_segment)
     (recovered_name 1 1 0 48000)) = Some (Some (recorded_info 48000 2, [1, 2, 3, 4]))"
  using interrupted_recording_recovered [of sd_good "[1, 2, 3, 4, 5, 6]" 3 55 cut_segment 1 1 0 48000]
  by (simp add: sd_good_def cut_segment_def Let_def)

end
