(* ===== verification/Recorder_Ring.thy ===== *)
theory Recorder_Ring
  imports Recorder_Sink
begin

text \<open>
  The block ring between the audio output task and the recorder's writer task (\<open>audio_recorder_ring.c\<close>), the drain step
  (\<open>audio_recorder_writer.c\<close>) and the gate that STOP closes to the producers (\<open>audio_recorder_stop_gate.c\<close>).  The atomic
  accesses of a function are functions of their own here, so that the theory \<open>Recorder\<close> can interleave them.
\<close>

section \<open>The block ring\<close>

abbreviation (input) AUDIO_RECORDER_BLOCK_FRAMES :: nat where "AUDIO_RECORDER_BLOCK_FRAMES \<equiv> 256"
abbreviation (input) AUDIO_RECORDER_BLOCK_SAMPLES :: nat where "AUDIO_RECORDER_BLOCK_SAMPLES \<equiv> 512"

record audio_recorder_block =
  blk_sample_rate :: u32
  blk_frames :: u32
  blk_samples :: "i16 list"

record audio_recorder_ring =
  rr_slots :: "audio_recorder_block list"
  rr_capacity :: u32
  rr_write_seq :: u32
  rr_read_seq :: u32
  rr_high_water :: u32
  rr_dropped_blocks :: u32
  rr_dropped_frames :: u64
  rr_pushed_blocks :: u64

definition audio_recorder_ring_init :: "audio_recorder_block list \<Rightarrow> u32 \<Rightarrow> audio_recorder_ring" where
  "audio_recorder_ring_init slots capacity =
     \<lparr>rr_slots = slots, rr_capacity = capacity, rr_write_seq = 0, rr_read_seq = 0, rr_high_water = 0,
      rr_dropped_blocks = 0, rr_dropped_frames = 0, rr_pushed_blocks = 0\<rparr>"

text \<open>The producer's part after it has loaded the consumer's \<open>read_seq\<close> as \<open>r\<close>, which may be out of date.\<close>

definition push_loaded :: "u32 \<Rightarrow> audio_recorder_ring \<Rightarrow> i16 list \<Rightarrow> u32 \<Rightarrow> u32 \<Rightarrow> audio_recorder_ring \<times> bool" where
  "push_loaded r ring samples frames sample_rate =
     (let w = rr_write_seq ring
      in if w - r \<ge> rr_capacity ring
         then (ring\<lparr>rr_dropped_blocks := rr_dropped_blocks ring + 1, rr_dropped_frames := rr_dropped_frames ring + ucast frames\<rparr>, False)
         else let frames' = (if frames > 256 then 256 else frames);
                  i = unat w mod unat (rr_capacity ring);
                  slot = (rr_slots ring ! i)\<lparr>blk_sample_rate := sample_rate, blk_frames := frames',
                           blk_samples := mem_copy 0 (take (2 * unat frames') samples) (blk_samples (rr_slots ring ! i))\<rparr>;
                  used = (w + 1) - r
              in (ring\<lparr>rr_slots := (rr_slots ring)[i := slot], rr_write_seq := w + 1,
                       rr_high_water := (if used > rr_high_water ring then used else rr_high_water ring),
                       rr_pushed_blocks := rr_pushed_blocks ring + 1\<rparr>, True))"

definition audio_recorder_ring_push :: "audio_recorder_ring \<Rightarrow> i16 list \<Rightarrow> u32 \<Rightarrow> u32 \<Rightarrow> audio_recorder_ring \<times> bool" where
  "audio_recorder_ring_push ring samples frames sample_rate =
     (if rr_capacity ring = 0 then (ring, False) else push_loaded (rr_read_seq ring) ring samples frames sample_rate)"

definition audio_recorder_ring_peek :: "audio_recorder_ring \<Rightarrow> audio_recorder_block option" where
  "audio_recorder_ring_peek ring =
     (let r = rr_read_seq ring; w = rr_write_seq ring
      in if r = w then None else Some (rr_slots ring ! (unat r mod unat (rr_capacity ring))))"

definition audio_recorder_ring_consume :: "audio_recorder_ring \<Rightarrow> audio_recorder_ring" where
  "audio_recorder_ring_consume ring =
     (let r = rr_read_seq ring; w = rr_write_seq ring in if r = w then ring else ring\<lparr>rr_read_seq := r + 1\<rparr>)"

definition audio_recorder_ring_used :: "audio_recorder_ring \<Rightarrow> u32" where
  "audio_recorder_ring_used ring = rr_write_seq ring - rr_read_seq ring"

text \<open>What a block holds: its rate and its valid samples.\<close>

definition block_view :: "audio_recorder_block \<Rightarrow> segment" where
  "block_view blk = (blk_sample_rate blk, take (2 * unat (blk_frames blk)) (blk_samples blk))"

definition accepted_block :: "i16 list \<Rightarrow> u32 \<Rightarrow> u32 \<Rightarrow> segment" where
  "accepted_block samples frames sample_rate = (sample_rate, take (2 * unat (if frames > 256 then 256 else frames)) samples)"

text \<open>
  \<open>ring_rep ring pushed k\<close>: of the blocks \<open>pushed\<close> since the ring was initialised the first \<open>k\<close> are consumed and the others are in
  the ring.
\<close>

definition ring_rep :: "audio_recorder_ring \<Rightarrow> segment list \<Rightarrow> nat \<Rightarrow> bool" where
  "ring_rep ring pushed k \<longleftrightarrow>
     (let cap = unat (rr_capacity ring) in
      0 < cap \<and> length (rr_slots ring) = cap \<and> (\<forall>slot \<in> set (rr_slots ring). length (blk_samples slot) = 512) \<and>
      rr_write_seq ring = of_nat (length pushed) \<and> rr_read_seq ring = of_nat k \<and> length pushed < 2 ^ 32 \<and>
      k \<le> length pushed \<and> length pushed - k \<le> cap \<and>
      (\<forall>i. k \<le> i \<and> i < length pushed \<longrightarrow>
         block_view (rr_slots ring ! (i mod cap)) = pushed ! i \<and> unat (blk_frames (rr_slots ring ! (i mod cap))) \<le> 256))"

lemma seq_distance:
  assumes "j \<le> n" "n < 2 ^ 32"
  shows "unat (of_nat n - of_nat j :: u32) = n - j"
  using assms unat_of_nat32 [of "n - j"] by (simp add: of_nat_diff)

lemma ring_rep_init:
  assumes "0 < unat cap" "length slots = unat cap" "\<forall>slot \<in> set slots. length (blk_samples slot) = 512"
  shows "ring_rep (audio_recorder_ring_init slots cap) [] 0"
  using assms by (simp add: ring_rep_def audio_recorder_ring_init_def Let_def)

lemma block_push_rep:
  assumes rep: "ring_rep ring pushed k" and j: "j \<le> k" "r = of_nat j" and room: "length pushed < 2 ^ 32 - 1"
    and len: "length samples = 2 * unat frames"
  shows "snd (push_loaded r ring samples frames rate) \<Longrightarrow>
      ring_rep (fst (push_loaded r ring samples frames rate)) (pushed @ [accepted_block samples frames rate]) k"
    and "\<not> snd (push_loaded r ring samples frames rate) \<Longrightarrow> ring_rep (fst (push_loaded r ring samples frames rate)) pushed k"
proof -
  let ?n = "length pushed"
  define cap where "cap = unat (rr_capacity ring)"
  have R: "0 < cap" "length (rr_slots ring) = cap" "\<And>i. i < cap \<Longrightarrow> length (blk_samples (rr_slots ring ! i)) = 512"
    "rr_write_seq ring = of_nat ?n" "?n < 2 ^ 32" "k \<le> ?n"
    "\<And>i. k \<le> i \<Longrightarrow> i < ?n \<Longrightarrow> block_view (rr_slots ring ! (i mod cap)) = pushed ! i \<and> unat (blk_frames (rr_slots ring ! (i mod cap))) \<le> 256"
    using rep by (auto simp: ring_rep_def cap_def Let_def)
  have d: "unat (rr_write_seq ring - r) = ?n - j" using seq_distance [of j ?n] R(4,5,6) j by simp
  have full: "rr_write_seq ring - r \<ge> rr_capacity ring \<longleftrightarrow> cap \<le> ?n - j" by (simp add: word_le_nat_alt d cap_def)
  define f where "f = (if frames > 256 then 256 else frames)"
  have f: "unat f \<le> 256" "unat f \<le> unat frames" by (auto simp: f_def word_less_nat_alt)
  let ?i = "?n mod cap"
  define slot where "slot = (rr_slots ring ! ?i)\<lparr>blk_sample_rate := rate, blk_frames := f,
      blk_samples := mem_copy 0 (take (2 * unat f) samples) (blk_samples (rr_slots ring ! ?i))\<rparr>"
  have i: "?i < cap" using R(1) by simp
  have sl: "length (blk_samples slot) = 512" using R(3) [OF i] f len by (simp add: slot_def)
  have v: "block_view slot = accepted_block samples frames rate" "unat (blk_frames slot) \<le> 256"
    using f len by (simp_all add: slot_def block_view_def accepted_block_def f_def [symmetric] mem_copy_def)
  have un: "unat (of_nat ?n :: u32) = ?n" using R(5) unat_of_nat32 by simp
  show "ring_rep (fst (push_loaded r ring samples frames rate)) pushed k" if "\<not> snd (push_loaded r ring samples frames rate)"
    using that rep by (auto simp: push_loaded_def Let_def ring_rep_def split: if_splits)
  show "ring_rep (fst (push_loaded r ring samples frames rate)) (pushed @ [accepted_block samples frames rate]) k"
    if s: "snd (push_loaded r ring samples frames rate)"
  proof -
    have nf: "\<not> cap \<le> ?n - j" using s full by (auto simp: push_loaded_def Let_def split: if_splits)
    have nz: "m mod cap \<noteq> ?i" if "k \<le> m" "m < ?n" for m
      using mod_add_neq [of 0 "?n - m" cap m] that nf j(1) by auto
    obtain hw where st: "fst (push_loaded r ring samples frames rate) = ring\<lparr>rr_slots := (rr_slots ring)[?i := slot], rr_write_seq := of_nat (Suc ?n),
        rr_high_water := hw, rr_pushed_blocks := rr_pushed_blocks ring + 1\<rparr>"
      using nf full by (simp add: push_loaded_def Let_def un cap_def [symmetric] slot_def f_def [symmetric] R(4) add.commute split: if_splits)
    have all: "\<forall>x \<in> set ((rr_slots ring)[?i := slot]). length (blk_samples x) = 512"
      using sl rep set_update_subset_insert [of "rr_slots ring" ?i slot] by (auto simp: ring_rep_def Let_def)
    have at: "(rr_slots ring)[?i := slot] ! (m mod cap) = (if m = ?n then slot else rr_slots ring ! (m mod cap))" if "k \<le> m" "m < Suc ?n" for m
      using that nz [of m] R(2) i by (auto simp: nth_list_update less_Suc_eq)
    have vals: "\<forall>m. k \<le> m \<and> m < length (pushed @ [accepted_block samples frames rate]) \<longrightarrow>
        block_view ((rr_slots ring)[?i := slot] ! (m mod cap)) = (pushed @ [accepted_block samples frames rate]) ! m \<and>
        unat (blk_frames ((rr_slots ring)[?i := slot] ! (m mod cap))) \<le> 256"
    proof (intro allI impI)
      fix m assume m: "k \<le> m \<and> m < length (pushed @ [accepted_block samples frames rate])"
      then show "block_view ((rr_slots ring)[?i := slot] ! (m mod cap)) = (pushed @ [accepted_block samples frames rate]) ! m \<and>
          unat (blk_frames ((rr_slots ring)[?i := slot] ! (m mod cap))) \<le> 256"
        using at [of m] v R(7) [of m] by (cases "m = ?n") (auto simp: nth_append)
    qed
    show ?thesis
      unfolding st ring_rep_def Let_def
      using all vals R(1,2,6) rep nf j(1) room by (auto simp: ring_rep_def Let_def cap_def [symmetric])
  qed
qed

lemma peek_rep:
  assumes "ring_rep ring pushed k"
  shows "audio_recorder_ring_peek ring = None \<longleftrightarrow> k = length pushed"
    and "audio_recorder_ring_peek ring = Some blk \<Longrightarrow> block_view blk = pushed ! k \<and> unat (blk_frames blk) \<le> 256 \<and> k < length pushed
      \<and> length (blk_samples blk) = 512"
proof -
  have R: "rr_write_seq ring = of_nat (length pushed)" "rr_read_seq ring = of_nat k" "length pushed < 2 ^ 32" "k \<le> length pushed"
    "0 < unat (rr_capacity ring)" "length (rr_slots ring) = unat (rr_capacity ring)"
    "k < length pushed \<Longrightarrow> block_view (rr_slots ring ! (k mod unat (rr_capacity ring))) = pushed ! k \<and>
       unat (blk_frames (rr_slots ring ! (k mod unat (rr_capacity ring)))) \<le> 256"
    "\<forall>slot \<in> set (rr_slots ring). length (blk_samples slot) = 512"
    using assms by (auto simp: ring_rep_def Let_def)
  have u: "unat (rr_read_seq ring) = k" using R(2,3,4) unat_of_nat32 [of k] by simp
  have e: "rr_read_seq ring = rr_write_seq ring \<longleftrightarrow> k = length pushed"
    using u R(1,3) unat_of_nat32 [of "length pushed"] by (metis R(2))
  show "audio_recorder_ring_peek ring = None \<longleftrightarrow> k = length pushed" using e by (simp add: audio_recorder_ring_peek_def Let_def)
  show "block_view blk = pushed ! k \<and> unat (blk_frames blk) \<le> 256 \<and> k < length pushed \<and> length (blk_samples blk) = 512"
    if "audio_recorder_ring_peek ring = Some blk"
    using that e u R(4-8) by (auto simp: audio_recorder_ring_peek_def Let_def split: if_splits)
qed

lemma consume_rep:
  assumes "ring_rep ring pushed k" "k < length pushed"
  shows "ring_rep (audio_recorder_ring_consume ring) pushed (Suc k)"
proof -
  have "audio_recorder_ring_peek ring \<noteq> None" using peek_rep(1) [OF assms(1)] assms(2) by simp
  then have "rr_read_seq ring \<noteq> rr_write_seq ring" by (auto simp: audio_recorder_ring_peek_def Let_def)
  then show ?thesis using assms by (auto simp: audio_recorder_ring_consume_def ring_rep_def Let_def add.commute)
qed

section \<open>The drain step\<close>

record drain_result =
  blocks_written :: nat
  bytes_written :: nat
  sink_error :: bool

text \<open>The storage sink is a parameter: it gets the bytes of a block and returns how many it wrote, or a negative number.\<close>

fun writer_drain :: "('c \<Rightarrow> u8 list \<Rightarrow> 'c \<times> int) \<Rightarrow> nat \<Rightarrow> audio_recorder_ring \<Rightarrow> 'c \<Rightarrow> drain_result
    \<Rightarrow> audio_recorder_ring \<times> 'c \<times> drain_result" where
  "writer_drain sink 0 ring ctx res = (ring, ctx, res)"
| "writer_drain sink (Suc max_blocks) ring ctx res =
     (case audio_recorder_ring_peek ring of
        None \<Rightarrow> (ring, ctx, res)
      | Some blk \<Rightarrow>
          let len = unat (blk_frames blk) * AUDIO_RECORDER_WAV_FRAME_BYTES;
              (ctx', n) = sink ctx (take len (pcm_bytes (blk_samples blk)))
          in if n < 0 \<or> n \<noteq> int len then (ring, ctx', res\<lparr>sink_error := True\<rparr>)
             else writer_drain sink max_blocks (audio_recorder_ring_consume ring) ctx'
                    (res\<lparr>blocks_written := blocks_written res + 1, bytes_written := bytes_written res + len\<rparr>))"

definition audio_recorder_writer_drain ::
    "('c \<Rightarrow> u8 list \<Rightarrow> 'c \<times> int) \<Rightarrow> nat \<Rightarrow> audio_recorder_ring \<Rightarrow> 'c \<Rightarrow> audio_recorder_ring \<times> 'c \<times> drain_result" where
  "audio_recorder_writer_drain sink max_blocks ring ctx =
     writer_drain sink max_blocks ring ctx \<lparr>blocks_written = 0, bytes_written = 0, sink_error = False\<rparr>"

section \<open>The gate\<close>

record audio_recorder_stop_gate =
  accepting :: u32
  active_producers :: u32

definition audio_recorder_stop_gate_init :: "audio_recorder_stop_gate \<Rightarrow> audio_recorder_stop_gate" where
  "audio_recorder_stop_gate_init gate = gate\<lparr>accepting := 0, active_producers := 0\<rparr>"

definition audio_recorder_stop_gate_is_quiescent :: "audio_recorder_stop_gate \<Rightarrow> bool" where
  "audio_recorder_stop_gate_is_quiescent gate \<longleftrightarrow> active_producers gate = 0"

definition audio_recorder_stop_gate_active :: "audio_recorder_stop_gate \<Rightarrow> u32" where
  "audio_recorder_stop_gate_active gate = active_producers gate"

definition gate_admit :: "audio_recorder_stop_gate \<Rightarrow> audio_recorder_stop_gate" where
  "gate_admit gate = gate\<lparr>accepting := 1\<rparr>"

definition audio_recorder_stop_gate_open :: "audio_recorder_stop_gate \<Rightarrow> audio_recorder_stop_gate \<times> bool" where
  "audio_recorder_stop_gate_open gate =
     (if \<not> audio_recorder_stop_gate_is_quiescent gate then (gate, False) else (gate_admit gate, True))"

definition audio_recorder_stop_gate_close :: "audio_recorder_stop_gate \<Rightarrow> audio_recorder_stop_gate" where
  "audio_recorder_stop_gate_close gate = gate\<lparr>accepting := 0\<rparr>"

definition gate_count :: "audio_recorder_stop_gate \<Rightarrow> audio_recorder_stop_gate" where
  "gate_count gate = gate\<lparr>active_producers := active_producers gate + 1\<rparr>"

definition gate_uncount :: "audio_recorder_stop_gate \<Rightarrow> audio_recorder_stop_gate" where
  "gate_uncount gate = gate\<lparr>active_producers := active_producers gate - 1\<rparr>"

definition audio_recorder_stop_gate_try_enter :: "audio_recorder_stop_gate \<Rightarrow> audio_recorder_stop_gate \<times> bool" where
  "audio_recorder_stop_gate_try_enter gate =
     (if accepting gate = 0 then (gate, False)
      else let counted = gate_count gate
           in if accepting counted = 0 then (gate_uncount counted, False) else (counted, True))"

text \<open>The second component tells whether the assertion of an unpaired leave fails; the counter is then restored.\<close>

definition audio_recorder_stop_gate_leave :: "audio_recorder_stop_gate \<Rightarrow> audio_recorder_stop_gate \<times> bool" where
  "audio_recorder_stop_gate_leave gate =
     (let previous = active_producers gate; left = gate_uncount gate
      in if previous = 0 then (left\<lparr>active_producers := 0\<rparr>, True) else (left, False))"

section \<open>Draining in order\<close>

text \<open>A drain without a sink error hands over the oldest blocks, as many as allowed, and consumes exactly those.\<close>

definition collecting_sink :: "u8 list list \<Rightarrow> u8 list \<Rightarrow> u8 list list \<times> int" where
  "collecting_sink written data = (written @ [data], int (length data))"

lemma block_bytes:
  assumes "unat (blk_frames blk) \<le> 256" "length (blk_samples blk) = 512"
  shows "take (unat (blk_frames blk) * 4) (pcm_bytes (blk_samples blk)) = pcm_bytes (snd (block_view blk))"
  using take_pcm_bytes [of "2 * unat (blk_frames blk)" "blk_samples blk"] by (simp add: block_view_def mult.commute)

lemma drain_collects:
  "ring_rep ring pushed k \<Longrightarrow> writer_drain collecting_sink n ring ctx res = (ring', ctx', res') \<Longrightarrow> \<not> sink_error res \<Longrightarrow>
   (let m = min n (length pushed - k) in
    ring_rep ring' pushed (k + m) \<and> ctx' = ctx @ map (\<lambda>b. pcm_bytes (snd b)) (take m (drop k pushed)) \<and>
    \<not> sink_error res' \<and> blocks_written res' = blocks_written res + m)"
proof (induction n arbitrary: ring k ctx res)
  case 0
  then show ?case by simp
next
  case (Suc n)
  show ?case
  proof (cases "audio_recorder_ring_peek ring")
    case None
    then show ?thesis using Suc.prems peek_rep(1) [OF Suc.prems(1)] by simp
  next
    case (Some blk)
    note p = peek_rep(2) [OF Suc.prems(1) Some]
    then have k: "k < length pushed" and b: "take (unat (blk_frames blk) * 4) (pcm_bytes (blk_samples blk)) = pcm_bytes (snd (pushed ! k))"
      using block_bytes [of blk] by auto
    have l: "length (pcm_bytes (snd (pushed ! k))) = unat (blk_frames blk) * 4"
      using p by (simp flip: b)
    let ?res = "res\<lparr>blocks_written := blocks_written res + 1, bytes_written := bytes_written res + unat (blk_frames blk) * 4\<rparr>"
    have cs: "collecting_sink ctx (take (unat (blk_frames blk) * 4) (pcm_bytes (blk_samples blk))) =
        (ctx @ [pcm_bytes (snd (pushed ! k))], int (unat (blk_frames blk) * 4))"
      unfolding b collecting_sink_def l by (rule refl)
    have w: "writer_drain collecting_sink n (audio_recorder_ring_consume ring) (ctx @ [pcm_bytes (snd (pushed ! k))]) ?res = (ring', ctx', res')"
      using Suc.prems(2) Some by (simp add: cs Let_def)
    have "min (Suc n) (length pushed - k) = Suc (min n (length pushed - Suc k))" using k by simp
    moreover have "drop k pushed = pushed ! k # drop (Suc k) pushed" using k by (simp add: Cons_nth_drop_Suc)
    ultimately show ?thesis
      using Suc.IH [OF consume_rep [OF Suc.prems(1) k] w] Suc.prems(3) by (simp add: Let_def)
  qed
qed

end
