(* ===== verification/Recorder.thy ===== *)
theory Recorder
  imports Recorder_Ring
begin

text \<open>
  The master recorder (\<open>audio_recorder.c\<close>) with its three tasks: the audio output task in \<open>audio_recorder_push_master\<close>, the
  writer task, and the one task that calls \<open>audio_recorder_start\<close> and \<open>audio_recorder_stop\<close>.  Each function is a program counter
  and a step function, one step for each access to a variable another task uses, so that a run is a list of steps of the
  three tasks in any order, on a sequentially consistent memory.  The statistics, the journal and the time measurements are left out;
  the clock, the allocator, NVS and the free space are inputs of the steps.
\<close>

section \<open>The state\<close>

datatype audio_recorder_state =
  AUDIO_RECORDER_STOPPED | AUDIO_RECORDER_STARTING | AUDIO_RECORDER_RECORDING | AUDIO_RECORDER_STOPPING | AUDIO_RECORDER_ERROR

datatype producer_pc =
    P_Idle
  | P_Gate "i16 list" u32 u32
  | P_Count "i16 list" u32 u32
  | P_Recheck "i16 list" u32 u32
  | P_BackOut
  | P_Load "i16 list" u32 u32
  | P_Push "i16 list" u32 u32 u32
  | P_Leave bool
  | P_Overflow

datatype writer_pc =
    W_None
  | W_Top
  | W_State
  | W_Peek audio_recorder_state
  | W_Write nat
  | W_Consume
  | W_Checkpoint int
  | W_Fault esp_err
  | W_FaultGate
  | W_FaultState
  | W_Exit

datatype control_pc =
    C_Idle
  | C_Check u32 | C_Starting u32 | C_Alloc u32 | C_Prepare u32 | C_Open u32 | C_Ring u32
  | C_Gate | C_Admit | C_Recording | C_Create
  | C_AbortSink | C_Release | C_Stopped
  | C_FailGate | C_FailState | C_FailSink | C_FailRelease
  | S_Noop | S_Close audio_recorder_state | S_Wait audio_recorder_state | S_Mark audio_recorder_state
  | S_Join | S_Sink | S_Release | S_Done

text \<open>
  The static variables, the program counters of the three tasks and the card.  \<open>rec_slots\<close> is the memory of the ring while it
  is allocated; from \<open>audio_recorder_ring_init\<close> on its contents are in \<open>rec_ring\<close>.  The last five fields are for the proofs
  only: the blocks \<open>push_master\<close> has accepted in this session, how many of them the writer has consumed, the rate the session
  started with, the sessions whose stop returned \<open>ESP_OK\<close>, and whether freed memory was used or an assertion failed.
\<close>

record recorder =
  rec_state :: audio_recorder_state
  rec_slots :: "audio_recorder_block list option"
  rec_ring :: audio_recorder_ring
  rec_gate :: audio_recorder_stop_gate
  rec_sink :: audio_recorder_sink
  rec_card :: sd_card
  rec_boot_id :: u32
  rec_session :: u32
  rec_sample_rate :: u32
  rec_writer :: bool
  rec_event_group :: bool
  rec_exited :: bool
  rec_overflow :: bool
  rec_last_error :: esp_err
  rec_last_checkpoint_us :: int
  rec_frames_written :: u64
  rec_bytes_written :: u64
  rec_producer :: producer_pc
  rec_writer_pc :: writer_pc
  rec_control :: control_pc
  rec_pushed :: "segment list"
  rec_consumed :: nat
  rec_rate :: u32
  rec_results :: "(u32 \<times> u32 \<times> segment list) list"
  rec_bad :: bool

definition no_ring :: audio_recorder_ring where
  "no_ring = \<lparr>rr_slots = [], rr_capacity = 0, rr_write_seq = 0, rr_read_seq = 0, rr_high_water = 0, rr_dropped_blocks = 0,
     rr_dropped_frames = 0, rr_pushed_blocks = 0\<rparr>"

text \<open>The static variables at power on, before \<open>audio_recorder_init\<close>.\<close>

definition power_on :: "sd_card \<Rightarrow> recorder" where
  "power_on sd =
     \<lparr>rec_state = AUDIO_RECORDER_STOPPED, rec_slots = None, rec_ring = no_ring, rec_gate = \<lparr>accepting = 0, active_producers = 0\<rparr>,
      rec_sink = no_sink, rec_card = sd, rec_boot_id = 0, rec_session = 0, rec_sample_rate = 0, rec_writer = False,
      rec_event_group = False, rec_exited = False, rec_overflow = False, rec_last_error = ESP_OK, rec_last_checkpoint_us = 0,
      rec_frames_written = 0, rec_bytes_written = 0, rec_producer = P_Idle, rec_writer_pc = W_None, rec_control = C_Idle,
      rec_pushed = [], rec_consumed = 0, rec_rate = 0, rec_results = [], rec_bad = False\<rparr>"

section \<open>The audio output task\<close>

definition push_master_step :: "i16 list \<Rightarrow> u32 \<Rightarrow> u32 \<Rightarrow> recorder \<Rightarrow> recorder" where
  "push_master_step stereo frames sample_rate s =
     (case rec_producer s of
        P_Idle \<Rightarrow> (if rec_state s \<noteq> AUDIO_RECORDER_RECORDING then s else s\<lparr>rec_producer := P_Gate stereo frames sample_rate\<rparr>)
      | P_Gate ss n r \<Rightarrow> s\<lparr>rec_producer := (if accepting (rec_gate s) = 0 then P_Idle else P_Count ss n r)\<rparr>
      | P_Count ss n r \<Rightarrow> s\<lparr>rec_gate := gate_count (rec_gate s), rec_producer := P_Recheck ss n r\<rparr>
      | P_Recheck ss n r \<Rightarrow> s\<lparr>rec_producer := (if accepting (rec_gate s) = 0 then P_BackOut else P_Load ss n r)\<rparr>
      | P_BackOut \<Rightarrow> s\<lparr>rec_gate := gate_uncount (rec_gate s), rec_producer := P_Idle\<rparr>
      | P_Load ss n r \<Rightarrow>
          s\<lparr>rec_producer := (if rr_capacity (rec_ring s) = 0 then P_Leave False else P_Push ss n r (rr_read_seq (rec_ring s)))\<rparr>
      | P_Push ss n r read_seq \<Rightarrow>
          let (ring, ok) = push_loaded read_seq (rec_ring s) ss n r
          in s\<lparr>rec_ring := ring, rec_producer := P_Leave ok, rec_bad := (rec_bad s \<or> rec_slots s = None),
               rec_pushed := (if ok then rec_pushed s @ [accepted_block ss n r] else rec_pushed s)\<rparr>
      | P_Leave ok \<Rightarrow>
          let (gate, failed) = audio_recorder_stop_gate_leave (rec_gate s)
          in s\<lparr>rec_gate := gate, rec_bad := (rec_bad s \<or> failed), rec_producer := (if ok then P_Idle else P_Overflow)\<rparr>
      | P_Overflow \<Rightarrow> s\<lparr>rec_overflow := True, rec_producer := P_Idle\<rparr>)"

section \<open>The writer task\<close>

abbreviation (input) AUDIO_RECORDER_CHECKPOINT_US :: int where "AUDIO_RECORDER_CHECKPOINT_US \<equiv> 10000000"
definition AUDIO_RECORDER_STOP_RESERVE_BYTES :: u64 where "AUDIO_RECORDER_STOP_RESERVE_BYTES = 64 * 1024 * 1024"
definition AUDIO_RECORDER_MIN_FREE_BYTES :: u64 where "AUDIO_RECORDER_MIN_FREE_BYTES = 128 * 1024 * 1024"

text \<open>\<open>now\<close> is the clock, \<open>free_bytes\<close> the free space of the card when asking for it succeeds.\<close>

definition writer_task_step :: "sd_env \<Rightarrow> int \<Rightarrow> u64 option \<Rightarrow> recorder \<Rightarrow> recorder" where
  "writer_task_step env now free_bytes s =
     (case rec_writer_pc s of
        W_None \<Rightarrow> s
      | W_Top \<Rightarrow> s\<lparr>rec_overflow := False, rec_writer_pc := W_State\<rparr>
      | W_State \<Rightarrow>
          let st = rec_state s
          in s\<lparr>rec_writer_pc := (if st \<noteq> AUDIO_RECORDER_RECORDING \<and> st \<noteq> AUDIO_RECORDER_STOPPING then W_Exit else W_Peek st)\<rparr>
      | W_Peek st \<Rightarrow>
          s\<lparr>rec_writer_pc :=
              (case audio_recorder_ring_peek (rec_ring s) of
                 Some _ \<Rightarrow> W_Write (unat (rr_read_seq (rec_ring s)) mod unat (rr_capacity (rec_ring s)))
               | None \<Rightarrow> if st = AUDIO_RECORDER_STOPPING then W_Exit else W_Top)\<rparr>
      | W_Write i \<Rightarrow>
          let blk = rr_slots (rec_ring s) ! i;
              (sd, sink, rc) = audio_recorder_sink_write_block env (blk_samples blk) (unat (blk_frames blk)) (blk_sample_rate blk)
                                   (rec_card s) (rec_sink s);
              s1 = s\<lparr>rec_card := sd, rec_sink := sink, rec_bad := (rec_bad s \<or> rec_slots s = None)\<rparr>
          in if rc \<noteq> ESP_OK then s1\<lparr>rec_writer_pc := W_Fault rc\<rparr>
             else s1\<lparr>rec_bytes_written := rec_bytes_written s + ucast (blk_frames blk) * 4,
                     rec_frames_written := rec_frames_written s + ucast (blk_frames blk), rec_writer_pc := W_Consume\<rparr>
      | W_Consume \<Rightarrow>
          s\<lparr>rec_ring := audio_recorder_ring_consume (rec_ring s), rec_consumed := Suc (rec_consumed s),
            rec_writer_pc := (if now - rec_last_checkpoint_us s \<ge> AUDIO_RECORDER_CHECKPOINT_US then W_Checkpoint now else W_Top)\<rparr>
      | W_Checkpoint checked \<Rightarrow>
          let (sd, rc) = audio_recorder_sink_checkpoint env (rec_card s) (rec_sink s); s1 = s\<lparr>rec_card := sd\<rparr>
          in if rc \<noteq> ESP_OK then s1\<lparr>rec_writer_pc := W_Fault rc\<rparr>
             else s1\<lparr>rec_last_checkpoint_us := checked,
                     rec_writer_pc := (case free_bytes of
                                         Some freeb \<Rightarrow> if freeb < AUDIO_RECORDER_STOP_RESERVE_BYTES then W_Fault ESP_ERR_NO_MEM else W_Top
                                       | None \<Rightarrow> W_Top)\<rparr>
      | W_Fault rc \<Rightarrow> s\<lparr>rec_last_error := rc, rec_writer_pc := W_FaultGate\<rparr>
      | W_FaultGate \<Rightarrow> s\<lparr>rec_gate := audio_recorder_stop_gate_close (rec_gate s), rec_writer_pc := W_FaultState\<rparr>
      | W_FaultState \<Rightarrow> s\<lparr>rec_state := AUDIO_RECORDER_ERROR, rec_writer_pc := W_Exit\<rparr>
      | W_Exit \<Rightarrow> s\<lparr>rec_exited := True, rec_writer_pc := W_None\<rparr>)"

section \<open>Starting and stopping\<close>

text \<open>
  What a step of start may learn from outside: whether the event group can be created, the boot number in NVS when NVS can be
  opened, a random number, the directory of the recordings, the block the allocator returns (its contents are whatever was there),
  the outcome of \<open>audio_recorder_sink_prepare\<close> with the free bytes, the clock, and whether the task can be created.
\<close>

record start_env =
  se_event_group :: bool
  se_nvs :: "u32 option"
  se_random :: u32
  se_dir :: "string list option"
  se_malloc :: "(nat \<Rightarrow> audio_recorder_block) option"
  se_prepare :: esp_err
  se_free_bytes :: u64
  se_now :: int
  se_task :: bool

datatype recorder_call = Start u32 | Stop

definition load_persistent_boot_id :: "u32 option \<Rightarrow> u32 \<Rightarrow> u32" where
  "load_persistent_boot_id nvs random =
     (let id = (case nvs of None \<Rightarrow> 0 | Some stored \<Rightarrow> if stored + 1 = 0 then 1 else stored + 1)
      in if id = 0 then or random 1 else id)"

definition audio_recorder_init :: "sd_env \<Rightarrow> start_env \<Rightarrow> recorder \<Rightarrow> recorder \<times> esp_err" where
  "audio_recorder_init env e s =
     (if \<not> rec_event_group s \<and> \<not> se_event_group e then (s, ESP_ERR_NO_MEM)
      else let s1 = (if rec_event_group s then s
                     else s\<lparr>rec_event_group := True,
                            rec_boot_id := (if rec_boot_id s = 0 then load_persistent_boot_id (se_nvs e) (se_random e) else rec_boot_id s),
                            rec_card := audio_recorder_sink_recover_orphans env (se_dir e) (rec_card s)\<rparr>)
           in (s1\<lparr>rec_gate := audio_recorder_stop_gate_init (rec_gate s1), rec_state := AUDIO_RECORDER_STOPPED\<rparr>, ESP_OK))"

definition ring_blocks :: "nat \<Rightarrow> u32" where
  "ring_blocks ring_budget = (let capacity = of_nat (ring_budget div 1032) in if capacity < 2 then 2 else capacity)"

definition raw_block :: "audio_recorder_block \<Rightarrow> audio_recorder_block" where
  "raw_block b = b\<lparr>blk_samples := take 512 (blk_samples b @ replicate 512 0)\<rparr>"

definition release_ring :: "recorder \<Rightarrow> recorder" where
  "release_ring s = s\<lparr>rec_slots := None, rec_sample_rate := 0\<rparr>"

definition abort_sink :: "sd_env \<Rightarrow> recorder \<Rightarrow> recorder" where
  "abort_sink env s = (let (sd, sink, rc) = audio_recorder_sink_abort env (rec_card s) (rec_sink s) in s\<lparr>rec_card := sd, rec_sink := sink\<rparr>)"

definition start_step :: "sd_env \<Rightarrow> nat \<Rightarrow> start_env \<Rightarrow> recorder \<Rightarrow> recorder" where
  "start_step env ring_budget e s =
     (case rec_control s of
        C_Check rate \<Rightarrow>
          s\<lparr>rec_control := (if rec_state s \<noteq> AUDIO_RECORDER_STOPPED \<or> rate = 0 then C_Idle else C_Starting rate)\<rparr>
      | C_Starting rate \<Rightarrow> s\<lparr>rec_state := AUDIO_RECORDER_STARTING, rec_control := C_Alloc rate\<rparr>
      | C_Alloc rate \<Rightarrow>
          (case se_malloc e of
             None \<Rightarrow> s\<lparr>rec_control := C_Stopped\<rparr>
           | Some raw \<Rightarrow> s\<lparr>rec_slots := Some (map (\<lambda>i. raw_block (raw i)) [0..<unat (ring_blocks ring_budget)]), rec_control := C_Prepare rate\<rparr>)
      | C_Prepare rate \<Rightarrow>
          s\<lparr>rec_control := (if se_prepare e \<noteq> ESP_OK \<or> se_free_bytes e < AUDIO_RECORDER_MIN_FREE_BYTES then C_Release else C_Open rate)\<rparr>
      | C_Open rate \<Rightarrow>
          let boot = (if rec_boot_id s = 0 then or (se_random e) 1 else rec_boot_id s);
              session = rec_session s + 1;
              (sd, sink, rc) = audio_recorder_sink_open env rate boot session (rec_card s) (rec_sink s)
          in s\<lparr>rec_boot_id := boot, rec_session := session, rec_card := sd, rec_sink := sink,
               rec_control := (if rc \<noteq> ESP_OK then C_Release else C_Ring rate)\<rparr>
      | C_Ring rate \<Rightarrow>
          s\<lparr>rec_ring := audio_recorder_ring_init (the (rec_slots s)) (ring_blocks ring_budget), rec_sample_rate := rate,
            rec_bytes_written := 0, rec_frames_written := 0, rec_last_error := ESP_OK, rec_last_checkpoint_us := se_now e,
            rec_overflow := False, rec_exited := False, rec_pushed := [], rec_consumed := 0, rec_rate := rate, rec_control := C_Gate\<rparr>
      | C_Gate \<Rightarrow> s\<lparr>rec_control := (if \<not> audio_recorder_stop_gate_is_quiescent (rec_gate s) then C_AbortSink else C_Admit)\<rparr>
      | C_Admit \<Rightarrow> s\<lparr>rec_gate := gate_admit (rec_gate s), rec_control := C_Recording\<rparr>
      | C_Recording \<Rightarrow> s\<lparr>rec_state := AUDIO_RECORDER_RECORDING, rec_control := C_Create\<rparr>
      | C_Create \<Rightarrow>
          (if se_task e then s\<lparr>rec_writer_pc := W_Top, rec_writer := True, rec_control := C_Idle\<rparr>
           else s\<lparr>rec_control := C_FailGate\<rparr>)
      | C_AbortSink \<Rightarrow> (abort_sink env s)\<lparr>rec_control := C_Release\<rparr>
      | C_Release \<Rightarrow> (release_ring s)\<lparr>rec_control := C_Stopped\<rparr>
      | C_Stopped \<Rightarrow> s\<lparr>rec_state := AUDIO_RECORDER_STOPPED, rec_control := C_Idle\<rparr>
      | C_FailGate \<Rightarrow> s\<lparr>rec_gate := audio_recorder_stop_gate_close (rec_gate s), rec_control := C_FailState\<rparr>
      | C_FailState \<Rightarrow> s\<lparr>rec_state := AUDIO_RECORDER_STOPPED, rec_control := C_FailSink\<rparr>
      | C_FailSink \<Rightarrow> (abort_sink env s)\<lparr>rec_control := C_FailRelease\<rparr>
      | C_FailRelease \<Rightarrow> (release_ring s)\<lparr>rec_control := C_Idle\<rparr>
      | _ \<Rightarrow> s)"

text \<open>The waits of stop, for the producers to leave and for the writer to exit, are steps that change nothing until they may go on.\<close>

definition stop_step :: "sd_env \<Rightarrow> recorder \<Rightarrow> recorder" where
  "stop_step env s =
     (case rec_control s of
        S_Noop \<Rightarrow> s\<lparr>rec_gate := audio_recorder_stop_gate_close (rec_gate s), rec_control := C_Idle\<rparr>
      | S_Close st \<Rightarrow> s\<lparr>rec_gate := audio_recorder_stop_gate_close (rec_gate s), rec_control := S_Wait st\<rparr>
      | S_Wait st \<Rightarrow> (if \<not> audio_recorder_stop_gate_is_quiescent (rec_gate s) then s else s\<lparr>rec_control := S_Mark st\<rparr>)
      | S_Mark st \<Rightarrow>
          s\<lparr>rec_state := (if st = AUDIO_RECORDER_RECORDING \<or> st = AUDIO_RECORDER_STARTING then AUDIO_RECORDER_STOPPING else rec_state s),
            rec_control := S_Join\<rparr>
      | S_Join \<Rightarrow>
          (if rec_writer s then if rec_exited s then s\<lparr>rec_writer := False, rec_control := S_Sink\<rparr> else s
           else s\<lparr>rec_control := S_Sink\<rparr>)
      | S_Sink \<Rightarrow>
          let session_ok = (rec_last_error s = ESP_OK \<and> rec_state s \<noteq> AUDIO_RECORDER_ERROR);
              (sd, sink, rc) = (if session_ok then audio_recorder_sink_finalize env (rec_card s) (rec_sink s)
                                else audio_recorder_sink_abort env (rec_card s) (rec_sink s))
          in s\<lparr>rec_card := sd, rec_sink := sink,
               rec_last_error := (if rc \<noteq> ESP_OK \<and> rec_last_error s = ESP_OK then rc else rec_last_error s), rec_control := S_Release\<rparr>
      | S_Release \<Rightarrow> (release_ring s)\<lparr>rec_control := S_Done\<rparr>
      | S_Done \<Rightarrow>
          s\<lparr>rec_state := AUDIO_RECORDER_STOPPED, rec_control := C_Idle,
            rec_results := (if rec_last_error s = ESP_OK then rec_results s @ [(rec_session s, rec_rate s, rec_pushed s)] else rec_results s)\<rparr>
      | _ \<Rightarrow> s)"

definition call_step :: "sd_env \<Rightarrow> start_env \<Rightarrow> recorder_call \<Rightarrow> recorder \<Rightarrow> recorder" where
  "call_step env e call s =
     (case call of
        Start rate \<Rightarrow>
          (if rec_event_group s then s\<lparr>rec_control := C_Check rate\<rparr>
           else let (s1, rc) = audio_recorder_init env e s in if rc \<noteq> ESP_OK then s1 else s1\<lparr>rec_control := C_Check rate\<rparr>)
      | Stop \<Rightarrow>
          let st = rec_state s
          in s\<lparr>rec_control := (if st = AUDIO_RECORDER_STOPPED \<and> rec_slots s = None then S_Noop else S_Close st)\<rparr>)"

definition control_step :: "sd_env \<Rightarrow> nat \<Rightarrow> start_env \<Rightarrow> recorder_call \<Rightarrow> recorder \<Rightarrow> recorder" where
  "control_step env ring_budget e call s =
     (case rec_control s of
        C_Idle \<Rightarrow> call_step env e call s
      | S_Noop \<Rightarrow> stop_step env s | S_Close st \<Rightarrow> stop_step env s | S_Wait st \<Rightarrow> stop_step env s | S_Mark st \<Rightarrow> stop_step env s
      | S_Join \<Rightarrow> stop_step env s | S_Sink \<Rightarrow> stop_step env s | S_Release \<Rightarrow> stop_step env s | S_Done \<Rightarrow> stop_step env s
      | _ \<Rightarrow> start_step env ring_budget e s)"

section \<open>Runs\<close>

datatype recorder_action =
    Producer "i16 list" u32 u32
  | Writer int "u64 option"
  | Control start_env recorder_call

fun recorder_step :: "sd_env \<Rightarrow> nat \<Rightarrow> recorder_action \<Rightarrow> recorder \<Rightarrow> recorder" where
  "recorder_step env ring_budget (Producer stereo frames rate) s = push_master_step stereo frames rate s"
| "recorder_step env ring_budget (Writer now free_bytes) s = writer_task_step env now free_bytes s"
| "recorder_step env ring_budget (Control e call) s = control_step env ring_budget e call s"

definition recorder_run :: "sd_env \<Rightarrow> nat \<Rightarrow> recorder_action list \<Rightarrow> recorder \<Rightarrow> recorder" where
  "recorder_run env ring_budget acts s = fold (recorder_step env ring_budget) acts s"

section \<open>The invariant\<close>

text \<open>The producer is counted by the gate, and inside it: it may touch the ring.\<close>

fun counted :: "producer_pc \<Rightarrow> bool" where
  "counted (P_Recheck ss n r) = True"
| "counted P_BackOut = True"
| "counted (P_Load ss n r) = True"
| "counted (P_Push ss n r read_seq) = True"
| "counted (P_Leave ok) = True"
| "counted _ = False"

fun inside :: "producer_pc \<Rightarrow> bool" where
  "inside (P_Load ss n r) = True"
| "inside (P_Push ss n r read_seq) = True"
| "inside (P_Leave ok) = True"
| "inside _ = False"

fun producer_ok :: "nat \<Rightarrow> producer_pc \<Rightarrow> bool" where
  "producer_ok k (P_Gate ss n r) = (length ss = 2 * unat n)"
| "producer_ok k (P_Count ss n r) = (length ss = 2 * unat n)"
| "producer_ok k (P_Recheck ss n r) = (length ss = 2 * unat n)"
| "producer_ok k (P_Load ss n r) = (length ss = 2 * unat n)"
| "producer_ok k (P_Push ss n r read_seq) = (length ss = 2 * unat n \<and> (\<exists>j \<le> k. read_seq = of_nat j))"
| "producer_ok k _ = True"

text \<open>
  The sink holds the first \<open>m\<close> accepted blocks of the session.  \<open>written\<close> counts those handed to the sink, one more than
  consumed between the write and the consumption.
\<close>

definition sink_holds :: "nat \<Rightarrow> recorder \<Rightarrow> bool" where
  "sink_holds m s \<longleftrightarrow>
     (\<exists>segs cur. foldl record_block ([], rec_rate s, []) (take m (rec_pushed s)) = (segs, snk_sample_rate (rec_sink s), cur) \<and>
        session_inv (rec_boot_id s) (rec_session s) segs cur (rec_card s) (rec_sink s))"

definition written :: "recorder \<Rightarrow> nat" where
  "written s = (if rec_writer_pc s = W_Consume then Suc (rec_consumed s) else rec_consumed s)"

fun faulting :: "writer_pc \<Rightarrow> bool" where
  "faulting (W_Fault rc) = True"
| "faulting _ = False"

text \<open>What holds of the ring and the files from \<open>audio_recorder_ring_init\<close> until the sink is closed.\<close>

definition session_data :: "recorder \<Rightarrow> bool" where
  "session_data s \<longleftrightarrow>
     rec_event_group s \<and> rec_slots s \<noteq> None \<and> sink_named (rec_boot_id s) (rec_session s) (rec_sink s) \<and>
     ring_rep (rec_ring s) (rec_pushed s) (rec_consumed s) \<and>
     (rec_last_error s = ESP_OK \<and> \<not> faulting (rec_writer_pc s) \<longrightarrow> sink_holds (written s) s)"

text \<open>The writer's part while a session runs: its local values, and what it leaves behind.\<close>

fun writer_ok :: "recorder \<Rightarrow> writer_pc \<Rightarrow> bool" where
  "writer_ok s (W_Peek st) = (rec_last_error s = ESP_OK \<and> (st = AUDIO_RECORDER_RECORDING \<or> st = AUDIO_RECORDER_STOPPING \<and> rec_control s = S_Join))"
| "writer_ok s (W_Write i) = (rec_last_error s = ESP_OK \<and> rec_consumed s < length (rec_pushed s) \<and>
     i = unat (rr_read_seq (rec_ring s)) mod unat (rr_capacity (rec_ring s)))"
| "writer_ok s W_Consume = (rec_last_error s = ESP_OK \<and> rec_consumed s < length (rec_pushed s))"
| "writer_ok s (W_Fault rc) = (rec_last_error s = ESP_OK \<and> rc \<noteq> ESP_OK)"
| "writer_ok s W_FaultGate = (rec_last_error s \<noteq> ESP_OK)"
| "writer_ok s W_FaultState = (rec_last_error s \<noteq> ESP_OK)"
| "writer_ok s W_Exit = (rec_last_error s = ESP_OK \<longrightarrow> rec_control s = S_Join \<and> rec_consumed s = length (rec_pushed s))"
| "writer_ok s W_None = (rec_exited s \<and> (rec_last_error s = ESP_OK \<longrightarrow> rec_control s = S_Join \<and> rec_consumed s = length (rec_pushed s)))"
| "writer_ok s _ = (rec_last_error s = ESP_OK)"

definition faulted :: "recorder \<Rightarrow> bool" where
  "faulted s \<longleftrightarrow> rec_writer_pc s \<in> {W_None, W_Exit} \<and> rec_last_error s \<noteq> ESP_OK"

definition running :: "audio_recorder_state \<Rightarrow> recorder \<Rightarrow> bool" where
  "running st s \<longleftrightarrow> session_data s \<and> rec_writer s \<and> (rec_writer_pc s \<noteq> W_None \<longrightarrow> \<not> rec_exited s) \<and>
     writer_ok s (rec_writer_pc s) \<and> (rec_state s = st \<or> rec_state s = AUDIO_RECORDER_ERROR \<and> faulted s)"

definition no_writer :: "recorder \<Rightarrow> bool" where
  "no_writer s \<longleftrightarrow> rec_writer_pc s = W_None \<and> \<not> rec_writer s"

definition stopped :: "recorder \<Rightarrow> bool" where
  "stopped s \<longleftrightarrow> no_writer s \<and> rec_state s = AUDIO_RECORDER_STOPPED \<and> rec_slots s = None"

definition fresh_session :: "recorder \<Rightarrow> bool" where
  "fresh_session s \<longleftrightarrow> session_data s \<and> no_writer s \<and> rec_last_error s = ESP_OK \<and> rec_consumed s = 0 \<and> \<not> rec_exited s"

definition ring_memory :: "nat \<Rightarrow> recorder \<Rightarrow> bool" where
  "ring_memory ring_budget s \<longleftrightarrow> (case rec_slots s of None \<Rightarrow> False
     | Some slots \<Rightarrow> length slots = unat (ring_blocks ring_budget) \<and> (\<forall>slot \<in> set slots. length (blk_samples slot) = 512))"

text \<open>The session's files are final when the sink has been closed without an error.\<close>

definition session_final :: "recorder \<Rightarrow> bool" where
  "session_final s \<longleftrightarrow>
     (rec_last_error s = ESP_OK \<longrightarrow> session_playable (rec_boot_id s) (rec_session s) (rec_rate s) (rec_pushed s) (rec_card s))"

fun control_ok :: "nat \<Rightarrow> recorder \<Rightarrow> control_pc \<Rightarrow> bool" where
  "control_ok bud s C_Idle = (stopped s \<or> running AUDIO_RECORDER_RECORDING s)"
| "control_ok bud s (C_Check rate) = (stopped s \<or> running AUDIO_RECORDER_RECORDING s)"
| "control_ok bud s (C_Starting rate) = stopped s"
| "control_ok bud s (C_Alloc rate) = (no_writer s \<and> rec_slots s = None)"
| "control_ok bud s (C_Prepare rate) = (no_writer s \<and> ring_memory bud s)"
| "control_ok bud s (C_Open rate) = (no_writer s \<and> ring_memory bud s)"
| "control_ok bud s (C_Ring rate) = (no_writer s \<and> ring_memory bud s \<and> sink_named (rec_boot_id s) (rec_session s) (rec_sink s) \<and>
     session_inv (rec_boot_id s) (rec_session s) [] [] (rec_card s) (rec_sink s) \<and> snk_sample_rate (rec_sink s) = rate)"
| "control_ok bud s C_Gate = fresh_session s"
| "control_ok bud s C_Admit = fresh_session s"
| "control_ok bud s C_Recording = fresh_session s"
| "control_ok bud s C_Create = (fresh_session s \<and> rec_state s = AUDIO_RECORDER_RECORDING)"
| "control_ok bud s C_AbortSink = (no_writer s \<and> sink_named (rec_boot_id s) (rec_session s) (rec_sink s))"
| "control_ok bud s C_Release = no_writer s"
| "control_ok bud s C_Stopped = (no_writer s \<and> rec_slots s = None)"
| "control_ok bud s S_Noop = stopped s"
| "control_ok bud s (S_Close st) = (running AUDIO_RECORDER_RECORDING s \<and> (st = AUDIO_RECORDER_RECORDING \<or> faulted s))"
| "control_ok bud s (S_Wait st) = (running AUDIO_RECORDER_RECORDING s \<and> (st = AUDIO_RECORDER_RECORDING \<or> faulted s))"
| "control_ok bud s (S_Mark st) = (running AUDIO_RECORDER_RECORDING s \<and> (st = AUDIO_RECORDER_RECORDING \<or> faulted s))"
| "control_ok bud s S_Join = (running AUDIO_RECORDER_STOPPING s \<or> running (rec_state s) s \<and> faulted s)"
| "control_ok bud s S_Sink = (no_writer s \<and> session_data s \<and>
     (rec_last_error s = ESP_OK \<longrightarrow> rec_consumed s = length (rec_pushed s) \<and> rec_state s \<noteq> AUDIO_RECORDER_ERROR))"
| "control_ok bud s S_Release = (no_writer s \<and> session_final s)"
| "control_ok bud s S_Done = (no_writer s \<and> rec_slots s = None \<and> session_final s)"
| "control_ok bud s _ = False"

text \<open>Producers are admitted, and may still be inside, only while the ring is allocated.\<close>

fun admitting :: "control_pc \<Rightarrow> bool" where
  "admitting C_Recording = True"
| "admitting C_Create = True"
| "admitting C_Idle = True"
| "admitting (C_Check rate) = True"
| "admitting (S_Close st) = True"
| "admitting _ = False"

fun leaving :: "control_pc \<Rightarrow> bool" where
  "leaving (S_Wait st) = True"
| "leaving c = admitting c"

text \<open>The session number belongs to a session that has no result yet.\<close>

fun session_open :: "control_pc \<Rightarrow> bool" where
  "session_open (C_Ring rate) = True"
| "session_open C_Gate = True"
| "session_open C_Admit = True"
| "session_open C_Recording = True"
| "session_open C_Create = True"
| "session_open C_AbortSink = True"
| "session_open (S_Close st) = True"
| "session_open (S_Wait st) = True"
| "session_open (S_Mark st) = True"
| "session_open S_Join = True"
| "session_open S_Sink = True"
| "session_open S_Release = True"
| "session_open S_Done = True"
| "session_open _ = False"

definition result_ok :: "recorder \<Rightarrow> u32 \<times> u32 \<times> segment list \<Rightarrow> bool" where
  "result_ok s = (\<lambda>(session, rate, blocks). session_playable (rec_boot_id s) session rate blocks (rec_card s) \<and>
     session \<le> rec_session s \<and> (session_open (rec_control s) \<or> rec_writer s \<longrightarrow> session \<noteq> rec_session s))"

definition recorder_inv :: "nat \<Rightarrow> nat \<Rightarrow> recorder \<Rightarrow> bool" where
  "recorder_inv bud n s \<longleftrightarrow>
     \<not> rec_bad s \<and>
     active_producers (rec_gate s) = of_bool (counted (rec_producer s)) \<and>
     producer_ok (rec_consumed s) (rec_producer s) \<and>
     (accepting (rec_gate s) \<noteq> 0 \<longrightarrow> admitting (rec_control s) \<and> rec_slots s \<noteq> None) \<and>
     (inside (rec_producer s) \<longrightarrow> leaving (rec_control s) \<and> rec_slots s \<noteq> None) \<and>
     length (rec_pushed s) \<le> n \<and> unat (rec_session s) \<le> n \<and> list_all block_ok (rec_pushed s) \<and>
     (\<not> rec_event_group s \<longrightarrow> rec_control s \<in> {C_Idle, S_Noop} \<and> stopped s \<and> rec_producer s = P_Idle \<and> rec_results s = []) \<and>
     (rec_event_group s \<longrightarrow> rec_boot_id s \<noteq> 0) \<and>
     list_all (result_ok s) (rec_results s) \<and>
     control_ok bud s (rec_control s)"
section \<open>Every step keeps the invariant\<close>

lemma sink_holds_frame [simp]:
  "sink_holds m (s\<lparr>rec_producer := p\<rparr>) = sink_holds m s" "sink_holds m (s\<lparr>rec_gate := g\<rparr>) = sink_holds m s"
  "sink_holds m (s\<lparr>rec_overflow := ov\<rparr>) = sink_holds m s" "sink_holds m (s\<lparr>rec_bad := b\<rparr>) = sink_holds m s"
  "sink_holds m (s\<lparr>rec_ring := r\<rparr>) = sink_holds m s" "sink_holds m (s\<lparr>rec_writer_pc := w\<rparr>) = sink_holds m s"
  "sink_holds m (s\<lparr>rec_control := c\<rparr>) = sink_holds m s" "sink_holds m (s\<lparr>rec_state := st\<rparr>) = sink_holds m s"
  "sink_holds m (s\<lparr>rec_last_error := e\<rparr>) = sink_holds m s" "sink_holds m (s\<lparr>rec_exited := x\<rparr>) = sink_holds m s"
  "sink_holds m (s\<lparr>rec_consumed := k\<rparr>) = sink_holds m s" "sink_holds m (s\<lparr>rec_writer := wr\<rparr>) = sink_holds m s"
  "sink_holds m (s\<lparr>rec_bytes_written := bw\<rparr>) = sink_holds m s" "sink_holds m (s\<lparr>rec_frames_written := fw\<rparr>) = sink_holds m s"
  "sink_holds m (s\<lparr>rec_last_checkpoint_us := t\<rparr>) = sink_holds m s"
  by (simp_all add: sink_holds_def)

lemmas inv_defs = recorder_inv_def session_data_def running_def no_writer_def stopped_def fresh_session_def ring_memory_def
  session_final_def faulted_def written_def

lemma control_ok_producer [simp]:
  "control_ok bud (s\<lparr>rec_producer := p\<rparr>) c = control_ok bud s c" "control_ok bud (s\<lparr>rec_gate := g\<rparr>) c = control_ok bud s c"
  "control_ok bud (s\<lparr>rec_overflow := ov\<rparr>) c = control_ok bud s c" "control_ok bud (s\<lparr>rec_bad := b\<rparr>) c = control_ok bud s c"
proof -
  have w: "writer_ok (s\<lparr>rec_producer := p\<rparr>) w = writer_ok s w" "writer_ok (s\<lparr>rec_gate := g\<rparr>) w = writer_ok s w"
    "writer_ok (s\<lparr>rec_overflow := ov\<rparr>) w = writer_ok s w" "writer_ok (s\<lparr>rec_bad := b\<rparr>) w = writer_ok s w" for w
    by (cases w; simp)+
  show "control_ok bud (s\<lparr>rec_producer := p\<rparr>) c = control_ok bud s c" "control_ok bud (s\<lparr>rec_gate := g\<rparr>) c = control_ok bud s c"
    "control_ok bud (s\<lparr>rec_overflow := ov\<rparr>) c = control_ok bud s c" "control_ok bud (s\<lparr>rec_bad := b\<rparr>) c = control_ok bud s c"
    by (cases c; simp add: inv_defs w)+
qed

lemma result_ok_frame [simp]:
  "result_ok (s\<lparr>rec_producer := p\<rparr>) = result_ok s" "result_ok (s\<lparr>rec_gate := g\<rparr>) = result_ok s"
  "result_ok (s\<lparr>rec_overflow := ov\<rparr>) = result_ok s" "result_ok (s\<lparr>rec_bad := b\<rparr>) = result_ok s"
  "result_ok (s\<lparr>rec_ring := r\<rparr>) = result_ok s" "result_ok (s\<lparr>rec_pushed := bs\<rparr>) = result_ok s"
  "result_ok (s\<lparr>rec_writer_pc := w\<rparr>) = result_ok s" "result_ok (s\<lparr>rec_state := st\<rparr>) = result_ok s"
  "result_ok (s\<lparr>rec_last_error := e\<rparr>) = result_ok s" "result_ok (s\<lparr>rec_exited := x\<rparr>) = result_ok s"
  "result_ok (s\<lparr>rec_consumed := k\<rparr>) = result_ok s" "result_ok (s\<lparr>rec_bytes_written := bw\<rparr>) = result_ok s"
  "result_ok (s\<lparr>rec_frames_written := fw\<rparr>) = result_ok s" "result_ok (s\<lparr>rec_last_checkpoint_us := t\<rparr>) = result_ok s"
  by (simp_all add: result_ok_def)

lemma stopped_frame [simp]:
  "stopped (s\<lparr>rec_producer := p\<rparr>) = stopped s" "stopped (s\<lparr>rec_gate := g\<rparr>) = stopped s"
  "stopped (s\<lparr>rec_overflow := ov\<rparr>) = stopped s" "stopped (s\<lparr>rec_bad := b\<rparr>) = stopped s"
  by (simp_all add: stopped_def no_writer_def)

text \<open>A block the ring accepts extends what is pushed; nothing else of the session changes.\<close>

lemma pushed_control:
  assumes "control_ok bud s c" "c = rec_control s" "leaving c" "rec_slots s \<noteq> None"
    "ring_rep ring (rec_pushed s @ bs) (rec_consumed s)"
    "rr_read_seq ring = rr_read_seq (rec_ring s)" "rr_capacity ring = rr_capacity (rec_ring s)"
  shows "control_ok bud (s\<lparr>rec_ring := ring, rec_pushed := rec_pushed s @ bs\<rparr>) c" (is "control_ok bud ?s c")
proof -
  have k: "session_data s \<Longrightarrow> rec_consumed s \<le> length (rec_pushed s)" by (simp add: session_data_def ring_rep_def Let_def)
  have h: "m \<le> length (rec_pushed s) \<Longrightarrow> sink_holds m ?s = sink_holds m s" for m by (simp add: sink_holds_def)
  have w: "rec_control s \<noteq> S_Join \<Longrightarrow> writer_ok s w \<Longrightarrow> writer_ok ?s w" for w using assms(6,7) by (cases w) auto
  have wr: "session_data s \<Longrightarrow> writer_ok s (rec_writer_pc s) \<Longrightarrow> written s \<le> length (rec_pushed s)"
    using k by (auto simp: written_def)
  have wq: "session_data s \<Longrightarrow> rec_writer_pc s = W_None \<Longrightarrow> written s \<le> length (rec_pushed s)"
    using k by (auto simp: written_def)
  have ww: "written ?s = written s" by (simp add: written_def)
  have d: "session_data s \<Longrightarrow> writer_ok s (rec_writer_pc s) \<or> rec_writer_pc s = W_None \<Longrightarrow> session_data ?s"
    using assms(4,5) wr wq h by (auto simp: session_data_def ww)
  have r: "rec_control s \<noteq> S_Join \<Longrightarrow> running st s \<Longrightarrow> running st ?s" for st
    using d w by (auto simp: running_def faulted_def)
  show ?thesis using assms(1,3,4) r d unfolding assms(2)
    by (cases "rec_control s") (auto simp: fresh_session_def no_writer_def stopped_def faulted_def)
qed

lemma push_loaded_keeps:
  "rr_read_seq (fst (push_loaded r ring ss n rate)) = rr_read_seq ring" "rr_capacity (fst (push_loaded r ring ss n rate)) = rr_capacity ring"
  by (simp_all add: push_loaded_def Let_def)

lemma accepted_block_ok: "length ss = 2 * unat n \<Longrightarrow> block_ok (accepted_block ss n rate)"
  by (auto simp: block_ok_def accepted_block_def word_less_nat_alt)

lemma leaving_session:
  "control_ok bud s (rec_control s) \<Longrightarrow> leaving (rec_control s) \<Longrightarrow> rec_slots s \<noteq> None \<Longrightarrow> session_data s"
  by (cases "rec_control s") (auto simp: stopped_def running_def fresh_session_def)

lemma admitting_leaving: "admitting c \<Longrightarrow> leaving c"
  by (cases c) auto

lemma producer_inv:
  assumes "recorder_inv bud n s" "length ss = 2 * unat fr" "n < 2 ^ 32 - 1"
  shows "recorder_inv bud (Suc n) (push_master_step ss fr rate s)"
proof (cases "rec_producer s")
  case (P_Push bs m r read_seq)
  note I = assms(1) [unfolded recorder_inv_def]
  obtain ring ok where p: "push_loaded read_seq (rec_ring s) bs m r = (ring, ok)" by fastforce
  have keep: "rr_read_seq ring = rr_read_seq (rec_ring s)" "rr_capacity ring = rr_capacity (rec_ring s)"
    using push_loaded_keeps [of read_seq "rec_ring s" bs m r] p by simp_all
  obtain j where j: "j \<le> rec_consumed s" "read_seq = of_nat j" and len: "length bs = 2 * unat m" using I P_Push by auto
  have lv: "leaving (rec_control s)" "rec_slots s \<noteq> None" using I P_Push by auto
  have rep: "ring_rep (rec_ring s) (rec_pushed s) (rec_consumed s)"
    using leaving_session [of bud s] lv I by (simp add: session_data_def)
  have room: "length (rec_pushed s) < 2 ^ 32 - 1" using I assms(3) by simp
  let ?bs = "if ok then [accepted_block bs m r] else []"
  have rep': "ring_rep ring (rec_pushed s @ ?bs) (rec_consumed s)"
    using block_push_rep [OF rep j room len, of r] p by simp
  have c: "control_ok bud (s\<lparr>rec_ring := ring, rec_pushed := rec_pushed s @ ?bs\<rparr>) (rec_control s)"
    using pushed_control [OF _ _ lv rep' keep] I by blast
  have s': "push_master_step ss fr rate s = s\<lparr>rec_ring := ring, rec_pushed := rec_pushed s @ ?bs, rec_bad := False, rec_producer := P_Leave ok\<rparr>"
    using P_Push p lv I by (simp add: push_master_step_def)
  show ?thesis unfolding s' recorder_inv_def using I P_Push c lv accepted_block_ok [OF len, of r] by simp
next
  case (P_Load bs m r)
  note I = assms(1) [unfolded recorder_inv_def]
  have "ring_rep (rec_ring s) (rec_pushed s) (rec_consumed s)"
    using leaving_session [of bud s] P_Load I by (simp add: session_data_def)
  then have "rr_read_seq (rec_ring s) = of_nat (rec_consumed s)" by (simp add: ring_rep_def Let_def)
  then have "producer_ok (rec_consumed s) (P_Push bs m r (rr_read_seq (rec_ring s)))" using P_Load I by auto
  then show ?thesis using I P_Load by (auto simp: recorder_inv_def push_master_step_def)
qed (use assms in \<open>auto simp: recorder_inv_def push_master_step_def gate_count_def gate_uncount_def audio_recorder_stop_gate_leave_def
    stopped_def Let_def intro: admitting_leaving\<close>)
lemma producer_ok_mono: "producer_ok k p \<Longrightarrow> k \<le> k' \<Longrightarrow> producer_ok k' p"
  by (cases p) (auto intro: order_trans)

text \<open>A step of the writer need only be shown to keep the session running: everything else of the invariant is framed.\<close>

lemma writer_step_inv:
  assumes inv: "recorder_inv bud n s" and wr: "rec_writer_pc s \<noteq> W_None"
    and run: "\<And>st. running st s \<Longrightarrow> st = AUDIO_RECORDER_RECORDING \<or> st = AUDIO_RECORDER_STOPPING \<and> rec_control s = S_Join \<or> faulted s
        \<Longrightarrow> running st s'"
    and flt: "faulted s \<Longrightarrow> faulted s' \<and> rec_state s' = rec_state s"
    and fr: "rec_control s' = rec_control s" "rec_producer s' = rec_producer s" "active_producers (rec_gate s') = active_producers (rec_gate s)"
      "accepting (rec_gate s') \<noteq> 0 \<longrightarrow> accepting (rec_gate s) \<noteq> 0" "rec_slots s' = rec_slots s" "rec_pushed s' = rec_pushed s"
      "rec_session s' = rec_session s" "rec_event_group s' = rec_event_group s" "rec_boot_id s' = rec_boot_id s"
      "rec_results s' = rec_results s" "\<not> rec_bad s'" "rec_consumed s \<le> rec_consumed s'" "list_all (result_ok s') (rec_results s')"
  shows "recorder_inv bud (Suc n) s'"
proof -
  note I = inv [unfolded recorder_inv_def]
  have c: "control_ok bud s (rec_control s)" using I by blast
  have "control_ok bud s' (rec_control s)"
    using c wr run flt by (cases "rec_control s") (auto simp: stopped_def no_writer_def fresh_session_def)
  then show ?thesis using I wr fr producer_ok_mono [of "rec_consumed s" "rec_producer s" "rec_consumed s'"]
    by (auto simp: recorder_inv_def stopped_def no_writer_def)
qed

lemma writer_runs:
  assumes "recorder_inv bud n s" "rec_writer_pc s \<noteq> W_None"
  shows "\<exists>st. running st s" "rec_slots s \<noteq> None" "session_data s" "writer_ok s (rec_writer_pc s)" "rec_writer s"
proof -
  have "control_ok bud s (rec_control s)" using assms(1) by (simp add: recorder_inv_def)
  then show "\<exists>st. running st s"
    using assms(2) by (cases "rec_control s") (auto simp: stopped_def no_writer_def fresh_session_def)
  then show "rec_slots s \<noteq> None" "session_data s" "writer_ok s (rec_writer_pc s)" "rec_writer s"
    by (auto simp: running_def session_data_def)
qed

text \<open>Writing to the files of the running session does not disturb the results of the earlier ones.\<close>

lemma results_own:
  assumes "list_all (result_ok s) (rec_results s)" "own_files (rec_boot_id s) (rec_session s) (rec_card s) c"
    "session_open (rec_control s) \<or> rec_writer s"
  shows "list_all (result_ok (s\<lparr>rec_card := c, rec_sink := sk\<rparr>)) (rec_results s)"
proof -
  have "result_ok (s\<lparr>rec_card := c, rec_sink := sk\<rparr>) r" if "result_ok s r" for r
  proof -
    obtain se rate bs where r: "r = (se, rate, bs)" by (metis prod_cases3)
    then have "se \<noteq> rec_session s" using that assms(3) by (auto simp: result_ok_def)
    then have "session_playable (rec_boot_id s) se rate bs c = session_playable (rec_boot_id s) se rate bs (rec_card s)"
      using assms(2) by (intro session_playable_cong) (simp add: own_files_def)
    then show ?thesis using that r by (simp add: result_ok_def)
  qed
  then show ?thesis using assms(1) by (simp add: list_all_iff)
qed

lemma record_block_length: "length (fst (record_block (segs, r, cur) b)) \<le> Suc (length segs)"
  by (cases b) (auto split: if_splits)

lemma recorded_length: "length (fst (foldl record_block (segs, r, cur) bs)) \<le> length segs + length bs"
proof (induction bs arbitrary: segs r cur)
  case (Cons b bs)
  obtain segs1 r1 cur1 where b: "record_block (segs, r, cur) b = (segs1, r1, cur1)" by (metis prod_cases3)
  show ?case using Cons.IH [of segs1 r1 cur1] record_block_length [of segs r cur b] b by simp
qed simp

lemma write_inv:
  assumes inv: "recorder_inv bud n s" and w: "rec_writer_pc s = W_Write i" and n: "n < 2 ^ 32 - 1"
  shows "recorder_inv bud (Suc n) (writer_task_step env now free s)"
proof -
  note I = inv [unfolded recorder_inv_def]
  have ne: "rec_writer_pc s \<noteq> W_None" using w by simp
  note R = writer_runs [OF inv ne]
  let ?k = "rec_consumed s"
  have k: "?k < length (rec_pushed s)" "rec_last_error s = ESP_OK" "i = unat (rr_read_seq (rec_ring s)) mod unat (rr_capacity (rec_ring s))"
    using R(4) w by auto
  note D = R(3) [unfolded session_data_def]
  define blk where "blk = rr_slots (rec_ring s) ! i"
  have rep: "ring_rep (rec_ring s) (rec_pushed s) ?k" using D by blast
  then have "audio_recorder_ring_peek (rec_ring s) \<noteq> None" using peek_rep(1) k(1) by simp
  then have "audio_recorder_ring_peek (rec_ring s) = Some blk"
    by (auto simp: audio_recorder_ring_peek_def Let_def k(3) blk_def split: if_splits)
  note b = peek_rep(2) [OF rep this]
  let ?ss = "take (2 * unat (blk_frames blk)) (blk_samples blk)"
  have bv: "rec_pushed s ! ?k = (blk_sample_rate blk, ?ss)" using b by (simp add: block_view_def)
  obtain sd sink rc where wb: "audio_recorder_sink_write_block env (blk_samples blk) (unat (blk_frames blk)) (blk_sample_rate blk)
      (rec_card s) (rec_sink s) = (sd, sink, rc)" by (metis prod_cases3)
  have own: "own_files (rec_boot_id s) (rec_session s) (rec_card s) sd" "sink_named (rec_boot_id s) (rec_session s) sink"
    using write_block_own [OF wb] D by blast+
  have res: "list_all (result_ok (s\<lparr>rec_card := sd, rec_sink := sink\<rparr>)) (rec_results s)"
    using results_own [OF _ own(1)] I R(5) by blast
  have wb': "audio_recorder_sink_write_block env ?ss (length ?ss div 2) (blk_sample_rate blk) (rec_card s) (rec_sink s) = (sd, sink, rc)"
    using write_block_prefix [of "unat (blk_frames blk)" "blk_samples blk" env "blk_sample_rate blk" "rec_card s" "rec_sink s"] wb b by simp
  have holds: "sink_holds (Suc ?k) (s\<lparr>rec_card := sd, rec_sink := sink\<rparr>)" if "rc = ESP_OK"
  proof -
    have "sink_holds ?k s" using D k(2) w by (simp add: written_def)
    then obtain segs cur where h: "foldl record_block ([], rec_rate s, []) (take ?k (rec_pushed s)) = (segs, snk_sample_rate (rec_sink s), cur)"
      "session_inv (rec_boot_id s) (rec_session s) segs cur (rec_card s) (rec_sink s)" unfolding sink_holds_def by blast
    obtain segs' r' cur' where rb: "record_block (segs, snk_sample_rate (rec_sink s), cur) (blk_sample_rate blk, ?ss) = (segs', r', cur')"
      by (metis prod_cases3)
    have "length segs \<le> ?k" using recorded_length [of "[]" "rec_rate s" "[]" "take ?k (rec_pushed s)"] h(1) k(1) by simp
    then have l: "length segs < 2 ^ 32 - 1" using k(1) I n by simp
    have bo: "block_ok (blk_sample_rate blk, ?ss)" using I k(1) bv by (auto simp: list_all_length)
    have "take (Suc ?k) (rec_pushed s) = take ?k (rec_pushed s) @ [(blk_sample_rate blk, ?ss)]"
      using k(1) bv by (simp add: take_Suc_conv_app_nth)
    then show ?thesis using write_block_ok [OF wb' [unfolded that] h(2) bo l rb] h(1) rb by (auto simp: sink_holds_def)
  qed
  have s': "writer_task_step env now free s = (if rc \<noteq> ESP_OK then s\<lparr>rec_card := sd, rec_sink := sink, rec_bad := False, rec_writer_pc := W_Fault rc\<rparr>
     else s\<lparr>rec_card := sd, rec_sink := sink, rec_bad := False, rec_bytes_written := rec_bytes_written s + ucast (blk_frames blk) * 4,
            rec_frames_written := rec_frames_written s + ucast (blk_frames blk), rec_writer_pc := W_Consume\<rparr>)"
    using w wb I R(2) by (simp add: writer_task_step_def blk_def [symmetric])
  show ?thesis
    by (rule writer_step_inv [OF inv ne])
      (use I w D own k res holds R(2) in \<open>auto simp: s' running_def session_data_def faulted_def written_def\<close>)
qed

lemma checkpoint_files: "audio_recorder_sink_checkpoint env c s = (c', rc) \<Longrightarrow> sd_files c' = sd_files c"
  by (auto simp: audio_recorder_sink_checkpoint_def Let_def sd_call_def split: if_splits)

lemma session_inv_files: "sd_files c' = sd_files c \<Longrightarrow> session_inv b se segs cur c' s = session_inv b se segs cur c s"
  by (simp add: session_inv_def segments_on_card_def)

lemma writer_inv:
  assumes inv: "recorder_inv bud n s" and n: "n < 2 ^ 32 - 1"
  shows "recorder_inv bud (Suc n) (writer_task_step env now free s)"
proof (cases "rec_writer_pc s")
  case W_None
  then show ?thesis using inv by (auto simp: recorder_inv_def writer_task_step_def)
next
  case (W_Write i)
  then show ?thesis by (rule write_inv [OF inv _ n])
next
  case (W_Checkpoint checked)
  note I = inv [unfolded recorder_inv_def]
  have ne: "rec_writer_pc s \<noteq> W_None" using W_Checkpoint by simp
  note R = writer_runs [OF inv ne]
  obtain sd rc where c: "audio_recorder_sink_checkpoint env (rec_card s) (rec_sink s) = (sd, rc)" by fastforce
  have "own_files (rec_boot_id s) (rec_session s) (rec_card s) sd" using checkpoint_files [OF c] by (simp add: own_files_def)
  then have res: "list_all (result_ok (s\<lparr>rec_card := sd, rec_sink := rec_sink s\<rparr>)) (rec_results s)" using results_own I R(5) by blast
  have h: "sink_holds m (s\<lparr>rec_card := sd\<rparr>) = sink_holds m s" for m
    using session_inv_files [OF checkpoint_files [OF c]] by (simp add: sink_holds_def)
  have "result_ok (s\<lparr>rec_card := sd, rec_sink := rec_sink s\<rparr>) = result_ok (s\<lparr>rec_card := sd\<rparr>)" by (simp add: result_ok_def)
  then show ?thesis
    by (intro writer_step_inv [OF inv ne])
      (use I c h res W_Checkpoint in \<open>auto simp: writer_task_step_def Let_def running_def session_data_def faulted_def written_def
         split: option.splits\<close>)
next
  case W_Consume
  note I = inv [unfolded recorder_inv_def]
  have ne: "rec_writer_pc s \<noteq> W_None" using W_Consume by simp
  note R = writer_runs [OF inv ne]
  have "ring_rep (rec_ring s) (rec_pushed s) (rec_consumed s)" "rec_consumed s < length (rec_pushed s)"
    using R(3,4) W_Consume by (auto simp: session_data_def)
  note cr = consume_rep [OF this]
  show ?thesis
    by (rule writer_step_inv [OF inv ne])
      (use I cr W_Consume in \<open>auto simp: writer_task_step_def running_def session_data_def faulted_def written_def\<close>)
next
  case (W_Peek st)
  note I = inv [unfolded recorder_inv_def]
  have ne: "rec_writer_pc s \<noteq> W_None" using W_Peek by simp
  note R = writer_runs [OF inv ne]
  have pk: "audio_recorder_ring_peek (rec_ring s) = None \<longleftrightarrow> rec_consumed s = length (rec_pushed s)"
    "rec_consumed s \<le> length (rec_pushed s)"
    using peek_rep(1) [of "rec_ring s"] R(3) by (auto simp: session_data_def ring_rep_def Let_def)
  show ?thesis
    by (rule writer_step_inv [OF inv ne])
      (use I pk W_Peek R(4) in \<open>auto simp: writer_task_step_def running_def session_data_def faulted_def written_def split: option.splits\<close>)
qed (rule writer_step_inv [OF inv]; use inv in \<open>auto simp: writer_task_step_def Let_def running_def session_data_def faulted_def written_def
       recorder_inv_def audio_recorder_stop_gate_close_def\<close>)+
lemma raw_memory: "raw_memory = Some (map (\<lambda>i. raw_block (raw i)) [0..<unat (ring_blocks bud)]) \<Longrightarrow> ring_memory bud (s\<lparr>rec_slots := raw_memory\<rparr>)"
  by (auto simp: ring_memory_def raw_block_def)

lemma producer_ok_outside: "producer_ok k p \<Longrightarrow> \<not> inside p \<Longrightarrow> producer_ok k' p"
  by (cases p) auto

lemma ring_blocks_pos: "0 < unat (ring_blocks bud)"
  by (auto simp: ring_blocks_def Let_def word_less_nat_alt)

text \<open>Opening a sink for the next session number leaves the results alone, and starts an empty session.\<close>

lemma next_session:
  assumes "list_all (result_ok s) (rec_results s)" "own_files (rec_boot_id s) (rec_session s + 1) (rec_card s) c"
    "unat (rec_session s) < 2 ^ 32 - 1"
  shows "list_all (result_ok (s\<lparr>rec_session := rec_session s + 1, rec_card := c, rec_sink := sk, rec_control := pc\<rparr>)) (rec_results s)"
proof -
  have u: "unat (rec_session s + 1) = Suc (unat (rec_session s))" using assms(3) by (simp add: unat_word_ariths)
  have "result_ok (s\<lparr>rec_session := rec_session s + 1, rec_card := c, rec_sink := sk, rec_control := pc\<rparr>) r" if "result_ok s r" for r
  proof -
    obtain se rate bs where r: "r = (se, rate, bs)" by (metis prod_cases3)
    have "unat se \<le> unat (rec_session s)" using that r by (simp add: result_ok_def word_le_nat_alt)
    then have se: "se \<noteq> rec_session s + 1" "se \<le> rec_session s + 1" using u by (auto simp: word_le_nat_alt)
    then have "session_playable (rec_boot_id s) se rate bs c = session_playable (rec_boot_id s) se rate bs (rec_card s)"
      using assms(2) by (intro session_playable_cong) (simp add: own_files_def)
    then show ?thesis using that r se by (simp add: result_ok_def)
  qed
  then show ?thesis using assms(1) by (simp add: list_all_iff)
qed

lemma results_closed:
  "list_all (result_ok s) rs \<Longrightarrow> session_open c \<longrightarrow> session_open (rec_control s) \<or> rec_writer s \<Longrightarrow> list_all (result_ok (s\<lparr>rec_control := c\<rparr>)) rs"
  by (auto simp: list_all_iff result_ok_def)

lemma fresh_data:
  assumes "ring_memory bud s" "rec_event_group s" "sink_named (rec_boot_id s) (rec_session s) (rec_sink s)"
    "session_inv (rec_boot_id s) (rec_session s) [] [] (rec_card s) (rec_sink s)" "snk_sample_rate (rec_sink s) = rate" "no_writer s"
  shows "fresh_session (s\<lparr>rec_ring := audio_recorder_ring_init (the (rec_slots s)) (ring_blocks bud), rec_sample_rate := sr,
            rec_bytes_written := 0, rec_frames_written := 0, rec_last_error := ESP_OK, rec_last_checkpoint_us := t,
            rec_overflow := False, rec_exited := False, rec_pushed := [], rec_consumed := 0, rec_rate := rate, rec_control := C_Gate\<rparr>)"
proof -
  obtain slots where s: "rec_slots s = Some slots" "length slots = unat (ring_blocks bud)" "\<forall>slot \<in> set slots. length (blk_samples slot) = 512"
    using assms(1) by (auto simp: ring_memory_def split: option.splits)
  show ?thesis
    using assms s ring_rep_init [OF ring_blocks_pos s(2,3)]
    by (auto simp: fresh_session_def session_data_def no_writer_def written_def sink_holds_def)
qed

lemma start_frame [simp]:
  "fresh_session (s\<lparr>rec_gate := g\<rparr>) = fresh_session s" "fresh_session (s\<lparr>rec_state := st\<rparr>) = fresh_session s"
  "fresh_session (s\<lparr>rec_control := c\<rparr>) = fresh_session s"
  "no_writer (s\<lparr>rec_state := st\<rparr>) = no_writer s" "no_writer (s\<lparr>rec_control := c\<rparr>) = no_writer s" "no_writer (s\<lparr>rec_slots := m\<rparr>) = no_writer s"
  "no_writer (s\<lparr>rec_session := se\<rparr>) = no_writer s" "no_writer (s\<lparr>rec_sink := sk\<rparr>) = no_writer s" "no_writer (s\<lparr>rec_card := sd\<rparr>) = no_writer s"
  "ring_memory bud (s\<lparr>rec_control := c\<rparr>) = ring_memory bud s"
  by (simp_all add: fresh_session_def session_data_def no_writer_def written_def ring_memory_def)

text \<open>All control points of a start before the ring is initialised are quiet: no writer, and no producer inside.\<close>

lemma open_inv:
  assumes inv: "recorder_inv bud n s" and pc: "rec_control s = C_Open rate" and n: "n < 2 ^ 32 - 1"
  shows "recorder_inv bud (Suc n) (start_step env bud e s)"
proof -
  note I = inv [unfolded recorder_inv_def]
  have b: "rec_boot_id s \<noteq> 0" using I pc by auto
  obtain sd sink rc where o: "audio_recorder_sink_open env rate (rec_boot_id s) (rec_session s + 1) (rec_card s) (rec_sink s) = (sd, sink, rc)"
    by (metis prod_cases3)
  have u: "unat (rec_session s + 1) = Suc (unat (rec_session s))" using I n by (simp add: unat_word_ariths)
  have res: "list_all (result_ok (s\<lparr>rec_session := rec_session s + 1, rec_card := sd, rec_sink := sink, rec_control := pc\<rparr>)) (rec_results s)" for pc
    using next_session [OF _ sink_open_any [OF o]] I n by auto
  have st: "start_step env bud e s = s\<lparr>rec_session := rec_session s + 1, rec_card := sd, rec_sink := sink,
      rec_control := (if rc \<noteq> ESP_OK then C_Release else C_Ring rate)\<rparr>"
    using pc o b by (simp add: start_step_def)
  show ?thesis
  proof (cases "rc = ESP_OK")
    case True
    note so = sink_open_own [OF o [unfolded True]]
    show ?thesis unfolding st recorder_inv_def using I pc res so u True by (auto simp: ring_memory_def)
  next
    case False
    then show ?thesis unfolding st recorder_inv_def using I pc res u by auto
  qed
qed

lemma abort_own:
  assumes "sink_named (rec_boot_id s) (rec_session s) (rec_sink s)"
  shows "\<exists>sd sink. abort_sink env s = s\<lparr>rec_card := sd, rec_sink := sink\<rparr> \<and> own_files (rec_boot_id s) (rec_session s) (rec_card s) sd"
proof -
  obtain sd sink rc where "audio_recorder_sink_abort env (rec_card s) (rec_sink s) = (sd, sink, rc)" by (metis prod_cases3)
  then show ?thesis using close_own assms by (fastforce simp: abort_sink_def audio_recorder_sink_abort_def)
qed

lemma start_inv:
  assumes inv: "recorder_inv bud n s" and n: "n < 2 ^ 32 - 1" and task: "se_task e"
  shows "recorder_inv bud (Suc n) (start_step env bud e s)"
proof (cases "rec_control s")
  case (C_Open rate)
  then show ?thesis by (rule open_inv [OF inv _ n])
next
  case (C_Ring rate)
  note I = inv [unfolded recorder_inv_def]
  have f: "fresh_session (start_step env bud e s)"
    using fresh_data [of bud s rate] I C_Ring by (auto simp: start_step_def)
  show ?thesis using I C_Ring f by (auto simp: recorder_inv_def start_step_def result_ok_def intro: producer_ok_outside)
next
  case C_AbortSink
  note I = inv [unfolded recorder_inv_def]
  obtain sd sink where a: "abort_sink env s = s\<lparr>rec_card := sd, rec_sink := sink\<rparr>" "own_files (rec_boot_id s) (rec_session s) (rec_card s) sd"
    using abort_own [of s env] I C_AbortSink by auto
  have "list_all (result_ok (s\<lparr>rec_card := sd, rec_sink := sink\<rparr>)) (rec_results s)" using results_own [OF _ a(2)] I C_AbortSink by simp
  then have "list_all (result_ok (s\<lparr>rec_card := sd, rec_sink := sink, rec_control := C_Release\<rparr>)) (rec_results s)"
    using results_closed by fastforce
  then show ?thesis using I C_AbortSink a(1) by (auto simp: recorder_inv_def start_step_def)
next
  case C_Create
  note I = inv [unfolded recorder_inv_def]
  have "running AUDIO_RECORDER_RECORDING (start_step env bud e s)"
    using I C_Create task by (auto simp: start_step_def running_def fresh_session_def session_data_def no_writer_def written_def)
  then show ?thesis using I C_Create task by (auto simp: recorder_inv_def start_step_def result_ok_def)
next
  case (C_Check rate)
  note I = inv [unfolded recorder_inv_def]
  have "\<not> running AUDIO_RECORDER_RECORDING s \<or> rec_state s \<noteq> AUDIO_RECORDER_STOPPED" by (auto simp: running_def)
  moreover have "running st (s\<lparr>rec_control := C_Idle\<rparr>)" if "running st s" for st
    using that C_Check by (cases "rec_writer_pc s") (auto simp: running_def session_data_def written_def faulted_def)
  ultimately show ?thesis using I C_Check results_closed [of s]
    by (auto simp: recorder_inv_def start_step_def stopped_def)
next
  case (C_Alloc rate)
  then show ?thesis using inv results_closed [of s] raw_memory
    by (auto simp: recorder_inv_def start_step_def result_ok_def ring_memory_def raw_block_def split: option.splits)
qed (use inv in \<open>auto simp: recorder_inv_def start_step_def result_ok_def stopped_def release_ring_def gate_admit_def
       audio_recorder_stop_gate_is_quiescent_def no_writer_def fresh_session_def session_data_def written_def sink_holds_def
       split: if_splits\<close>)
lemma running_control:
  assumes "running st s" "c = S_Join \<or> rec_control s \<noteq> S_Join"
  shows "running st (s\<lparr>rec_control := c\<rparr>)"
  using assms by (cases "rec_writer_pc s") (auto simp: running_def session_data_def written_def faulted_def)

lemma running_gate [simp]: "running st (s\<lparr>rec_gate := g\<rparr>) = running st s"
  by (cases "rec_writer_pc s") (auto simp: running_def session_data_def written_def faulted_def)

lemma faulted_frame [simp]:
  "faulted (s\<lparr>rec_control := c\<rparr>) = faulted s" "faulted (s\<lparr>rec_gate := g\<rparr>) = faulted s" "faulted (s\<lparr>rec_state := st\<rparr>) = faulted s"
  by (simp_all add: faulted_def)

lemma running_mark:
  assumes "running AUDIO_RECORDER_RECORDING s" "rec_control s = S_Mark st"
  shows "running AUDIO_RECORDER_STOPPING (s\<lparr>rec_state := AUDIO_RECORDER_STOPPING, rec_control := S_Join\<rparr>)"
    "faulted s \<Longrightarrow> running (rec_state s) (s\<lparr>rec_control := S_Join\<rparr>)"
  using assms by (cases "rec_writer_pc s"; auto simp: running_def session_data_def written_def faulted_def)+

lemma call_inv:
  assumes inv: "recorder_inv bud n s" and pc: "rec_control s = C_Idle"
  shows "recorder_inv bud (Suc n) (call_step env e call s)"
proof -
  note I = inv [unfolded recorder_inv_def]
  have run: "running st s \<Longrightarrow> running st (s\<lparr>rec_control := c\<rparr>)" for st c using running_control pc by auto
  show ?thesis
  proof (cases call)
    case (Start rate)
    show ?thesis
    proof (cases "rec_event_group s")
      case True
      then show ?thesis using I Start pc run results_closed [of s "rec_results s"]
        by (auto simp: recorder_inv_def call_step_def stopped_def no_writer_def)
    next
      case False
      have "load_persistent_boot_id a b \<noteq> 0" for a b
      proof -
        have "(or b 1 :: u32) \<noteq> 0" by (metis bit_0 bit_or_iff even_zero odd_one)
        then show ?thesis by (auto simp: load_persistent_boot_id_def Let_def split: option.splits)
      qed
      then show ?thesis using I Start False pc
        by (auto simp: recorder_inv_def call_step_def audio_recorder_init_def audio_recorder_stop_gate_init_def
              stopped_def no_writer_def Let_def)
    qed
  next
    case Stop
    have "rec_state s = AUDIO_RECORDER_STOPPED \<and> rec_slots s = None \<Longrightarrow> \<not> running AUDIO_RECORDER_RECORDING s"
      by (auto simp: running_def)
    moreover have "running AUDIO_RECORDER_RECORDING s \<Longrightarrow> rec_state s = AUDIO_RECORDER_RECORDING \<or> faulted s" by (auto simp: running_def)
    moreover have "running AUDIO_RECORDER_RECORDING s \<Longrightarrow> rec_writer s" by (simp add: running_def)
    ultimately show ?thesis using I Stop pc run results_closed [of s "rec_results s"]
      by (auto simp: recorder_inv_def call_step_def Let_def stopped_def no_writer_def)
  qed
qed

lemma sink_inv:
  assumes inv: "recorder_inv bud n s" and pc: "rec_control s = S_Sink" and n: "n < 2 ^ 32 - 1"
  shows "recorder_inv bud (Suc n) (stop_step env s)"
proof -
  note I = inv [unfolded recorder_inv_def]
  have D: "no_writer s" "session_data s"
    "rec_last_error s = ESP_OK \<Longrightarrow> rec_consumed s = length (rec_pushed s) \<and> rec_state s \<noteq> AUDIO_RECORDER_ERROR" using I pc by auto
  let ?ok = "rec_last_error s = ESP_OK \<and> rec_state s \<noteq> AUDIO_RECORDER_ERROR"
  obtain sd sink rc where cl: "audio_recorder_sink_close env ?ok (rec_card s) (rec_sink s) = (sd, sink, rc)" by (metis prod_cases3)
  have own: "own_files (rec_boot_id s) (rec_session s) (rec_card s) sd" using close_own [OF cl] D(2) by (auto simp: session_data_def)
  let ?s = "s\<lparr>rec_card := sd, rec_sink := sink,
      rec_last_error := (if rc \<noteq> ESP_OK \<and> rec_last_error s = ESP_OK then rc else rec_last_error s), rec_control := S_Release\<rparr>"
  have st: "stop_step env s = ?s"
    using pc cl by (auto simp: stop_step_def audio_recorder_sink_finalize_def audio_recorder_sink_abort_def Let_def)
  have "list_all (result_ok (s\<lparr>rec_card := sd, rec_sink := sink\<rparr>)) (rec_results s)" using results_own [OF _ own] I pc by simp
  then have res: "list_all (result_ok ?s) (rec_results s)" using pc by (auto simp: list_all_iff result_ok_def)
  have fin: "session_final ?s"
  proof (cases "rec_last_error s = ESP_OK \<and> rc = ESP_OK")
    case True
    then have f: "audio_recorder_sink_finalize env (rec_card s) (rec_sink s) = (sd, sink, ESP_OK)"
      using cl D(3) by (simp add: audio_recorder_sink_finalize_def)
    have "sink_holds (length (rec_pushed s)) s" using D True by (simp add: session_data_def no_writer_def written_def)
    then obtain segs cur where h: "foldl record_block ([], rec_rate s, []) (rec_pushed s) = (segs, snk_sample_rate (rec_sink s), cur)"
      "session_inv (rec_boot_id s) (rec_session s) segs cur (rec_card s) (rec_sink s)" by (auto simp: sink_holds_def)
    have "length segs < 2 ^ 32" using recorded_length [of "[]" "rec_rate s" "[]" "rec_pushed s"] h(1) I n by simp
    from finalize_ok [OF f h(2) this] have "session_playable (rec_boot_id s) (rec_session s) (rec_rate s) (rec_pushed s) sd"
      using h(1) by (intro segments_playable) (simp add: session_segments_def)
    then show ?thesis by (simp add: session_final_def)
  qed (auto simp: session_final_def)
  have "no_writer ?s" using D(1) by (simp add: no_writer_def)
  then show ?thesis unfolding st recorder_inv_def using I pc res fin by auto
qed

lemma stop_inv:
  assumes inv: "recorder_inv bud n s" and n: "n < 2 ^ 32 - 1"
  shows "recorder_inv bud (Suc n) (stop_step env s)"
proof (cases "rec_control s")
  case S_Sink
  then show ?thesis by (rule sink_inv [OF inv _ n])
next
  case S_Noop
  then show ?thesis using inv
    by (auto simp: recorder_inv_def stop_step_def audio_recorder_stop_gate_close_def stopped_def no_writer_def result_ok_def)
next
  case (S_Close st)
  then show ?thesis using inv running_control [of _ "s\<lparr>rec_gate := audio_recorder_stop_gate_close (rec_gate s)\<rparr>" "S_Wait st"]
    by (auto simp: recorder_inv_def stop_step_def audio_recorder_stop_gate_close_def result_ok_def list_all_iff)
next
  case (S_Wait st)
  have "inside p \<Longrightarrow> counted p" for p by (cases p) auto
  then show ?thesis using inv S_Wait running_control [of _ s "S_Mark st"]
    by (auto simp: recorder_inv_def stop_step_def audio_recorder_stop_gate_is_quiescent_def result_ok_def list_all_iff)
next
  case (S_Mark st)
  note I = inv [unfolded recorder_inv_def]
  note m = running_mark [OF _ S_Mark]
  have "control_ok bud (stop_step env s) S_Join" using I S_Mark m by (auto simp: stop_step_def running_def)
  then show ?thesis using I S_Mark by (auto simp: recorder_inv_def stop_step_def result_ok_def list_all_iff)
next
  case S_Join
  note I = inv [unfolded recorder_inv_def]
  show ?thesis
  proof (cases "rec_writer s \<and> \<not> rec_exited s")
    case False
    have r: "\<exists>st. running st s" using I S_Join by auto
    then have "rec_exited s" "rec_writer_pc s = W_None" using False by (auto simp: running_def)
    then have "control_ok bud (stop_step env s) S_Sink" using I S_Join False
      by (auto simp: stop_step_def running_def no_writer_def session_data_def written_def faulted_def)
    then show ?thesis using I S_Join False by (auto simp: recorder_inv_def stop_step_def result_ok_def list_all_iff)
  qed (use I S_Join in \<open>auto simp: recorder_inv_def stop_step_def\<close>)
next
  case S_Release
  then show ?thesis using inv
    by (auto simp: recorder_inv_def stop_step_def release_ring_def result_ok_def session_final_def no_writer_def)
next
  case S_Done
  note I = inv [unfolded recorder_inv_def]
  have "list_all (result_ok (stop_step env s)) (rec_results (stop_step env s))"
    using I S_Done by (auto simp: stop_step_def list_all_iff result_ok_def no_writer_def session_final_def)
  then show ?thesis using I S_Done by (auto simp: recorder_inv_def stop_step_def stopped_def no_writer_def)
qed (use inv in \<open>auto simp: recorder_inv_def stop_step_def\<close>)

lemma control_inv:
  assumes "recorder_inv bud n s" "n < 2 ^ 32 - 1" "se_task e"
  shows "recorder_inv bud (Suc n) (control_step env bud e call s)"
  using call_inv [OF assms(1)] stop_inv [OF assms(1,2)] start_inv [OF assms]
  by (cases "rec_control s") (simp_all add: control_step_def)
text \<open>
  The assumptions of a run: the blocks have the samples their frame count announces, and the writer task can be created.
\<close>

fun action_ok :: "recorder_action \<Rightarrow> bool" where
  "action_ok (Producer stereo frames rate) = (length stereo = 2 * unat frames)"
| "action_ok (Writer now free_bytes) = True"
| "action_ok (Control e call) = se_task e"

lemma step_inv:
  "recorder_inv bud n s \<Longrightarrow> n < 2 ^ 32 - 1 \<Longrightarrow> action_ok a \<Longrightarrow> recorder_inv bud (Suc n) (recorder_step env bud a s)"
  by (cases a) (auto simp: producer_inv writer_inv control_inv)

lemma run_inv:
  "recorder_inv bud n s \<Longrightarrow> n + length acts < 2 ^ 32 \<Longrightarrow> list_all action_ok acts \<Longrightarrow>
   recorder_inv bud (n + length acts) (recorder_run env bud acts s)"
proof (induction acts arbitrary: n s)
  case (Cons a acts)
  have "recorder_inv bud (Suc n) (recorder_step env bud a s)" using step_inv Cons.prems by simp
  from Cons.IH [OF this] Cons.prems show ?case by (simp add: recorder_run_def)
qed (simp add: recorder_run_def)

lemma power_on_inv: "recorder_inv bud 0 (power_on sd)"
  by (simp add: recorder_inv_def power_on_def stopped_def no_writer_def)

lemma booted_inv: "recorder_inv bud 0 (fst (audio_recorder_init env e (power_on sd)))"
proof -
  have "(or b 1 :: u32) \<noteq> 0" for b :: u32 by (metis bit_0 bit_or_iff even_zero odd_one)
  then have "load_persistent_boot_id a b \<noteq> 0" for a b by (auto simp: load_persistent_boot_id_def Let_def split: option.splits)
  then show ?thesis using power_on_inv [of bud sd]
    by (auto simp: recorder_inv_def audio_recorder_init_def power_on_def stopped_def no_writer_def Let_def
          audio_recorder_stop_gate_init_def)
qed

section \<open>Stop comes to an end\<close>

text \<open>
  How far the producer is from being outside a closed gate, and the writer from its exit once stop waits for it.
\<close>

fun producer_left :: "producer_pc \<Rightarrow> nat" where
  "producer_left (P_Count ss n r) = 6"
| "producer_left (P_Recheck ss n r) = 5"
| "producer_left (P_Load ss n r) = 4"
| "producer_left (P_Push ss n r read_seq) = 3"
| "producer_left (P_Leave ok) = 2"
| "producer_left P_BackOut = 1"
| "producer_left P_Overflow = 1"
| "producer_left _ = 0"

fun writer_left :: "writer_pc \<Rightarrow> nat" where
  "writer_left (W_Peek st) = (if st = AUDIO_RECORDER_STOPPING then 9 else 19)"
| "writer_left (W_Checkpoint t) = 12"
| "writer_left W_Top = 11"
| "writer_left W_State = 10"
| "writer_left (W_Write i) = 8"
| "writer_left W_Consume = 7"
| "writer_left (W_Fault rc) = 4"
| "writer_left W_FaultGate = 3"
| "writer_left W_FaultState = 2"
| "writer_left W_Exit = 1"
| "writer_left W_None = 0"

definition drain_left :: "recorder \<Rightarrow> nat" where
  "drain_left s = (if rec_writer_pc s = W_None then 0
     else 20 * (length (rec_pushed s) - rec_consumed s) + writer_left (rec_writer_pc s))"

fun is_producer :: "recorder_action \<Rightarrow> bool" where
  "is_producer (Producer ss n r) = True"
| "is_producer _ = False"

fun is_writer :: "recorder_action \<Rightarrow> bool" where
  "is_writer (Writer now free) = True"
| "is_writer _ = False"

lemma writer_frame:
  "rec_control (writer_task_step env now free s) = rec_control s" "rec_producer (writer_task_step env now free s) = rec_producer s"
  "accepting (rec_gate s) = 0 \<Longrightarrow> accepting (rec_gate (writer_task_step env now free s)) = 0"
  "rr_capacity (rec_ring (writer_task_step env now free s)) = rr_capacity (rec_ring s)"
  by (auto simp: writer_task_step_def audio_recorder_stop_gate_close_def audio_recorder_ring_consume_def Let_def
      split: writer_pc.split prod.split option.split)

lemma producer_frame:
  "rec_control (push_master_step ss n r s) = rec_control s" "rec_writer_pc (push_master_step ss n r s) = rec_writer_pc s"
  "accepting (rec_gate (push_master_step ss n r s)) = accepting (rec_gate s)"
  "rr_capacity (rec_ring (push_master_step ss n r s)) = rr_capacity (rec_ring s)"
  "rec_consumed (push_master_step ss n r s) = rec_consumed s"
  "\<not> inside (rec_producer s) \<Longrightarrow> rec_pushed (push_master_step ss n r s) = rec_pushed s"
  using push_loaded_keeps
  by (auto simp: push_master_step_def gate_count_def gate_uncount_def audio_recorder_stop_gate_leave_def Let_def
      split: producer_pc.split prod.split) (metis fst_conv)+

lemma producer_leaves:
  "accepting (rec_gate s) = 0 \<Longrightarrow> producer_left (rec_producer (push_master_step ss n r s)) \<le> producer_left (rec_producer s) - 1"
  by (cases "rec_producer s") (auto simp: push_master_step_def Let_def split: prod.split)

text \<open>The gate empties while stop waits.\<close>

lemma gate_empties:
  "accepting (rec_gate s) = 0 \<Longrightarrow> list_all (\<lambda>a. is_producer a \<or> is_writer a) acts \<Longrightarrow>
   accepting (rec_gate (recorder_run env bud acts s)) = 0 \<and> rec_control (recorder_run env bud acts s) = rec_control s \<and>
   rr_capacity (rec_ring (recorder_run env bud acts s)) = rr_capacity (rec_ring s) \<and>
   producer_left (rec_producer (recorder_run env bud acts s)) \<le> producer_left (rec_producer s) - length (filter is_producer acts)"
proof (induction acts arbitrary: s)
  case (Cons a acts)
  let ?s = "recorder_step env bud a s"
  have "accepting (rec_gate ?s) = 0" "rec_control ?s = rec_control s" "rr_capacity (rec_ring ?s) = rr_capacity (rec_ring s)"
    "producer_left (rec_producer ?s) \<le> producer_left (rec_producer s) - of_bool (is_producer a)"
    using Cons.prems producer_leaves [of s] by (cases a; simp add: writer_frame producer_frame)+
  then show ?case using Cons.IH [of ?s] Cons.prems by (auto simp: recorder_run_def)
qed (simp add: recorder_run_def)

lemma writer_drains:
  assumes inv: "recorder_inv bud n s" and pc: "rec_control s = S_Join" and w: "rec_writer_pc s \<noteq> W_None"
  shows "drain_left (writer_task_step env now free s) < drain_left s"
proof -
  note R = writer_runs [OF inv w]
  have state: "rec_state s = AUDIO_RECORDER_STOPPING \<or> faulted s"
    using inv pc by (auto simp: recorder_inv_def running_def)
  have rep: "ring_rep (rec_ring s) (rec_pushed s) (rec_consumed s)" using R(3) by (simp add: session_data_def)
  have pk: "audio_recorder_ring_peek (rec_ring s) \<noteq> None \<Longrightarrow> rec_consumed s < length (rec_pushed s)"
    using peek_rep(1) [OF rep] rep by (auto simp: ring_rep_def Let_def)
  show ?thesis using R(4) w state pk
    by (cases "rec_writer_pc s")
      (auto simp: writer_task_step_def drain_left_def faulted_def Let_def split: option.split prod.split)
qed

lemma writer_exits:
  assumes "recorder_inv bud n s" "rec_control s = S_Join" "list_all action_ok acts" "list_all (\<lambda>a. is_producer a \<or> is_writer a) acts"
    "n + length acts < 2 ^ 32" "drain_left s \<le> length (filter is_writer acts)"
  shows "rec_writer_pc (recorder_run env bud acts s) = W_None \<and> rec_control (recorder_run env bud acts s) = S_Join"
  using assms
proof (induction acts arbitrary: s n)
  case Nil
  then show ?case by (cases "rec_writer_pc s") (auto simp: drain_left_def recorder_run_def split: if_splits)
next
  case (Cons a acts)
  let ?s = "recorder_step env bud a s"
  have i: "recorder_inv bud (Suc n) ?s" using step_inv [OF Cons.prems(1)] Cons.prems(3,5) by simp
  have c: "rec_control ?s = S_Join" using Cons.prems(2,4) by (cases a) (auto simp: writer_frame producer_frame)
  have out: "\<not> inside (rec_producer s)" using Cons.prems(1,2) by (auto simp: recorder_inv_def)
  have d: "drain_left ?s \<le> length (filter is_writer acts)"
  proof (cases a)
    case (Producer ss n r)
    then show ?thesis using Cons.prems(6) out by (auto simp: drain_left_def producer_frame split: if_splits)
  next
    case (Writer now free)
    show ?thesis
    proof (cases "rec_writer_pc s = W_None")
      case True
      then show ?thesis using Writer by (simp add: drain_left_def writer_task_step_def)
    next
      case False
      then show ?thesis using writer_drains [OF Cons.prems(1,2) False, of env now free] Cons.prems(6) Writer by simp
    qed
  qed (use Cons.prems(4) in simp)
  show ?case using Cons.IH [OF i c _ _ _ d] Cons.prems(3,4,5) by (simp add: recorder_run_def)
qed

lemma run_append: "recorder_run env b (xs @ ys) s = recorder_run env b ys (recorder_run env b xs s)"
  by (simp add: recorder_run_def)

lemma join_to_end:
  assumes "recorder_inv bud n s" "rec_control s = S_Join" "rec_writer_pc s = W_None"
  shows "let s' = recorder_run env bud [Control e call, Control e call, Control e call, Control e call] s in
     rec_control s' = C_Idle \<and> rec_state s' = AUDIO_RECORDER_STOPPED \<and> rec_slots s' = None"
proof -
  have "rec_writer s" "rec_exited s" using assms by (auto simp: recorder_inv_def running_def)
  then show ?thesis using assms(2)
    by (simp add: recorder_run_def control_step_def stop_step_def release_ring_def Let_def split: prod.split)
qed

lemma producer_left_le: "producer_left p \<le> 6"
  by (cases p) auto

lemma drain_bound:
  assumes "recorder_inv bud n s" "rec_control s = S_Join"
  shows "drain_left s \<le> 20 * unat (rr_capacity (rec_ring s)) + 19"
proof -
  have "session_data s" using assms by (auto simp: recorder_inv_def running_def)
  then have "length (rec_pushed s) - rec_consumed s \<le> unat (rr_capacity (rec_ring s))"
    by (simp add: session_data_def ring_rep_def Let_def)
  moreover have "writer_left w \<le> 19" for w by (cases w) auto
  ultimately show ?thesis by (auto simp: drain_left_def intro: add_mono)
qed
section \<open>A session from start to stop\<close>

definition demo_env :: start_env where
  "demo_env = \<lparr>se_event_group = True, se_nvs = Some 0, se_random = 0, se_dir = None,
     se_malloc = Some (\<lambda>i. \<lparr>blk_sample_rate = 0, blk_frames = 0, blk_samples = []\<rparr>), se_prepare = ESP_OK,
     se_free_bytes = 1024 * 1024 * 1024, se_now = 0, se_task = True\<rparr>"

text \<open>Start until producers are admitted, push the block \<open>[1, 2]\<close>, stop until it waits for the writer, the writer until it exits, the rest of stop.\<close>

abbreviation (input) demo_control :: recorder_action where "demo_control \<equiv> Control demo_env Stop"
abbreviation (input) demo_push :: recorder_action where "demo_push \<equiv> Producer [1, 2] 1 48000"
abbreviation (input) demo_write :: recorder_action where "demo_write \<equiv> Writer 0 None"

definition started :: "recorder_action list" where
  "started = replicate 9 (Control demo_env (Start 48000))"

definition recorded :: "recorder_action list" where
  "recorded = [demo_control, demo_push, demo_push, demo_push, demo_push, demo_push, demo_push, demo_push,
     demo_control, demo_control, demo_control, demo_control, demo_control, demo_write, demo_write, demo_write]"

definition finished :: "recorder_action list" where
  "finished = [demo_write, demo_write, demo_write, demo_write, demo_write, demo_write,
     demo_control, demo_control, demo_control, demo_control]"

definition demo_run :: "recorder_action list" where
  "demo_run = started @ recorded @ finished"

definition demo_booted :: recorder where
  "demo_booted = fst (audio_recorder_init sd_good demo_env (power_on empty_card))"

lemma demo_booted: "demo_booted = (power_on empty_card)\<lparr>rec_event_group := True, rec_boot_id := 1\<rparr>"
  by (simp add: demo_booted_def audio_recorder_init_def demo_env_def power_on_def load_persistent_boot_id_def
      audio_recorder_sink_recover_orphans_def audio_recorder_stop_gate_init_def)

lemma ring_blocks_demo: "ring_blocks 524288 = 508"
  by (simp add: ring_blocks_def)

definition demo_slots :: "audio_recorder_block list" where
  "demo_slots = map (\<lambda>i. raw_block \<lparr>blk_sample_rate = 0, blk_frames = 0, blk_samples = []\<rparr>) [0..<unat (ring_blocks 524288)]"

lemma started_steps: "started = [Control demo_env (Start 48000), Control demo_env (Start 48000), Control demo_env (Start 48000),
    Control demo_env (Start 48000), Control demo_env (Start 48000), Control demo_env (Start 48000), Control demo_env (Start 48000),
    Control demo_env (Start 48000), Control demo_env (Start 48000)]"
  by (simp add: started_def eval_nat_numeral)

lemma demo_started:
  assumes "audio_recorder_sink_open sd_good 48000 1 1 empty_card no_sink = (sd, sink, ESP_OK)"
  shows "recorder_run sd_good 524288 started demo_booted =
    demo_booted\<lparr>rec_state := AUDIO_RECORDER_STARTING, rec_slots := Some demo_slots, rec_session := 1, rec_card := sd, rec_sink := sink,
      rec_ring := audio_recorder_ring_init demo_slots (ring_blocks 524288), rec_sample_rate := 48000, rec_rate := 48000,
      rec_gate := \<lparr>accepting = 1, active_producers = 0\<rparr>, rec_control := C_Recording\<rparr>"
  unfolding started_steps demo_booted recorder_run_def
  using assms
  by (simp add: control_step_def call_step_def start_step_def demo_env_def power_on_def demo_slots_def [symmetric]
      AUDIO_RECORDER_MIN_FREE_BYTES_def audio_recorder_stop_gate_is_quiescent_def gate_admit_def)

definition pushed_slot :: audio_recorder_block where
  "pushed_slot = (demo_slots ! 0)\<lparr>blk_sample_rate := 48000, blk_frames := 1, blk_samples := mem_copy 0 [1, 2] (blk_samples (demo_slots ! 0))\<rparr>"

lemma demo_slots_length: "length demo_slots = 508"
  by (simp add: demo_slots_def ring_blocks_demo)

lemma demo_pushed:
  assumes "s = demo_booted\<lparr>rec_state := AUDIO_RECORDER_STARTING, rec_slots := Some demo_slots, rec_session := 1, rec_card := sd, rec_sink := sink,
      rec_ring := audio_recorder_ring_init demo_slots (ring_blocks 524288), rec_sample_rate := 48000, rec_rate := 48000,
      rec_gate := \<lparr>accepting = 1, active_producers = 0\<rparr>, rec_control := C_Recording\<rparr>"
  shows "recorder_run sd_good 524288 recorded s =
    s\<lparr>rec_state := AUDIO_RECORDER_STOPPING, rec_gate := \<lparr>accepting = 0, active_producers = 0\<rparr>, rec_control := S_Join,
      rec_writer := True, rec_writer_pc := W_Write 0, rec_pushed := [(48000, [1, 2])],
      rec_ring := \<lparr>rr_slots = demo_slots[0 := pushed_slot], rr_capacity = 508, rr_write_seq = 1, rr_read_seq = 0, rr_high_water = 1,
        rr_dropped_blocks = 0, rr_dropped_frames = 0, rr_pushed_blocks = 1\<rparr>\<rparr>"
  unfolding recorder_run_def recorded_def assms demo_booted
  by (simp add: control_step_def call_step_def start_step_def stop_step_def push_master_step_def writer_task_step_def power_on_def
      gate_count_def gate_uncount_def audio_recorder_stop_gate_leave_def audio_recorder_stop_gate_close_def
      audio_recorder_stop_gate_is_quiescent_def push_loaded_def audio_recorder_ring_init_def audio_recorder_ring_peek_def
      ring_blocks_demo accepted_block_def pushed_slot_def Let_def demo_env_def)

lemma demo_open: "\<exists>sd sink. audio_recorder_sink_open sd_good 48000 1 1 empty_card no_sink = (sd, sink, ESP_OK)"
proof -
  have "snd (snd (audio_recorder_sink_open sd_good 48000 1 1 empty_card no_sink)) = ESP_OK"
    using good_open_segment [of sd_good] by (simp add: audio_recorder_sink_open_def sd_good_def)
  then show ?thesis by (metis prod.collapse)
qed

lemma demo_finished:
  assumes w: "audio_recorder_sink_write_block sd_good (blk_samples pushed_slot) 1 48000 sd sink = (sd2, sink2, ESP_OK)"
    and p: "blk_frames pushed_slot = 1" "blk_sample_rate pushed_slot = 48000"
    and f: "audio_recorder_sink_finalize sd_good sd2 sink2 = (sd3, sink3, ESP_OK)"
    and s: "s = demo_booted\<lparr>rec_slots := Some demo_slots, rec_session := 1, rec_card := sd, rec_sink := sink,
      rec_sample_rate := 48000, rec_rate := 48000, rec_state := AUDIO_RECORDER_STOPPING,
      rec_gate := \<lparr>accepting = 0, active_producers = 0\<rparr>, rec_control := S_Join, rec_writer := True, rec_writer_pc := W_Write 0,
      rec_pushed := [(48000, [1, 2])],
      rec_ring := \<lparr>rr_slots = demo_slots[0 := pushed_slot], rr_capacity = 508, rr_write_seq = 1, rr_read_seq = 0, rr_high_water = 1,
        rr_dropped_blocks = 0, rr_dropped_frames = 0, rr_pushed_blocks = 1\<rparr>\<rparr>"
  shows "rec_results (recorder_run sd_good 524288 finished s) = [(1, 48000, [(48000, [1, 2])])]"
    "rec_boot_id (recorder_run sd_good 524288 finished s) = 1"
proof -
  have ps: "demo_slots[0 := pushed_slot] ! 0 = pushed_slot" by (simp add: demo_slots_length)
  show "rec_results (recorder_run sd_good 524288 finished s) = [(1, 48000, [(48000, [1, 2])])]"
    "rec_boot_id (recorder_run sd_good 524288 finished s) = 1"
    using w p f
    by (simp_all add: s recorder_run_def finished_def demo_booted control_step_def stop_step_def writer_task_step_def power_on_def ps
      audio_recorder_ring_peek_def audio_recorder_ring_consume_def release_ring_def)
qed

lemma demo_results:
  "rec_results (recorder_run sd_good 524288 demo_run demo_booted) = [(1, 48000, [(48000, [1, 2])])]"
  "rec_boot_id (recorder_run sd_good 524288 demo_run demo_booted) = 1"
proof -
  have good: "\<forall>n. sd_ok sd_good n" by (simp add: sd_good_def)
  obtain sd sink where o: "audio_recorder_sink_open sd_good 48000 1 1 empty_card no_sink = (sd, sink, ESP_OK)" using demo_open by blast
  note so = sink_open_own [OF o]
  have p: "blk_frames pushed_slot = 1" "blk_sample_rate pushed_slot = 48000" "take 2 (blk_samples pushed_slot) = [1, 2]"
    "2 \<le> length (blk_samples pushed_slot)" by (simp_all add: pushed_slot_def mem_copy_def)
  have bo: "block_ok (48000, [1, 2])" by (simp add: block_ok_def)
  obtain sd2 sink2 where w: "audio_recorder_sink_write_block sd_good [1, 2] 1 48000 sd sink = (sd2, sink2, ESP_OK)"
    using good_write [OF good conjunct1 [OF conjunct2 [OF conjunct2 [OF so]]] bo] by (auto simp: prod_eq_iff)
  then have w': "audio_recorder_sink_write_block sd_good (blk_samples pushed_slot) 1 48000 sd sink = (sd2, sink2, ESP_OK)"
    using write_block_prefix [of 1 "blk_samples pushed_slot"] p by simp
  obtain segs r cur where rb: "record_block ([], snk_sample_rate sink, []) (48000, [1, 2]) = (segs, r, cur)" by (metis prod_cases3)
  have "session_inv 1 1 segs cur sd2 sink2" using write_block_ok(1) [OF _ _ bo _ rb] w so by simp
  then have "part_path sink2 = part_name 1 1 (snk_segment sink2) (snk_sample_rate sink2)" by (simp add: session_inv_def)
  from good_finalize [OF good this, of sd2] obtain sd3 sink3 where
    f: "audio_recorder_sink_finalize sd_good sd2 sink2 = (sd3, sink3, ESP_OK)" by (metis prod.collapse)
  show "rec_results (recorder_run sd_good 524288 demo_run demo_booted) = [(1, 48000, [(48000, [1, 2])])]"
    "rec_boot_id (recorder_run sd_good 524288 demo_run demo_booted) = 1"
    unfolding demo_run_def run_append demo_started [OF o] demo_pushed [OF refl]
    using demo_finished [OF w' p(1,2) f refl] by simp_all
qed

text \<open>A start whose writer task cannot be created, with a producer that enters just before.\<close>

definition no_task :: recorder_action where
  "no_task = Control (demo_env\<lparr>se_task := False\<rparr>) Stop"

definition failed_start :: "recorder_action list" where
  "failed_start = started @ [demo_control, demo_push, demo_push, demo_push, demo_push, demo_push,
     no_task, no_task, no_task, no_task, no_task, demo_push]"

section \<open>Properties\<close>

text \<open>
  Claim C3.  However the audio output task, the writer task and the task that starts and stops the recorder are interleaved, and
  whatever the card, the allocator and NVS do, the audio output and the writer never touch a freed ring and no producer leaves
  the gate unpaired; and for every session whose stop returned \<open>ESP_OK\<close> the card holds, under the names of that session, files
  that play back exactly the blocks that \<open>audio_recorder_push_master\<close> accepted in it, in order.  The blocks have the
  samples they announce, the writer task can be created, and the run has fewer than \<open>2 ^ 32\<close> steps.
\<close>

theorem recorder_keeps_accepted_blocks:
  assumes "list_all action_ok acts" "length acts < 2 ^ 32"
  shows "let s = recorder_run env ring_budget acts (fst (audio_recorder_init env e (power_on sd))) in
     \<not> rec_bad s \<and> list_all (\<lambda>(session, rate, blocks). session_playable (rec_boot_id s) session rate blocks (rec_card s)) (rec_results s)"
proof -
  have "recorder_inv ring_budget (length acts) (recorder_run env ring_budget acts (fst (audio_recorder_init env e (power_on sd))))"
    using run_inv [OF booted_inv, of acts] assms by simp
  then show ?thesis by (auto simp: recorder_inv_def list_all_iff result_ok_def Let_def)
qed

theorem recorder_keeps_accepted_blocks_witness:
  "let s = recorder_run sd_good 524288 demo_run (fst (audio_recorder_init sd_good demo_env (power_on empty_card))) in
     \<not> rec_bad s \<and> rec_results s = [(1, 48000, [(48000, [1, 2])])] \<and> session_playable 1 1 48000 [(48000, [1, 2])] (rec_card s)"
proof -
  have ok: "list_all action_ok demo_run" "length demo_run < 2 ^ 32" by (simp_all add: demo_run_def started_steps recorded_def finished_def demo_env_def)
  have r: "rec_results (recorder_run sd_good 524288 demo_run demo_booted) = [(1, 48000, [(48000, [1, 2])])]"
    "rec_boot_id (recorder_run sd_good 524288 demo_run demo_booted) = 1"
    by (rule demo_results)+
  show ?thesis
    using recorder_keeps_accepted_blocks [OF ok, of sd_good 524288 demo_env empty_card] r by (simp add: demo_booted_def)
qed

text \<open>
  When the writer task cannot be created, start closes the gate and frees the ring without waiting for a
  producer that is already inside: in this run the audio output task passes the gate between the store of RECORDING and
  the failed \<open>xTaskCreate\<close>, and then copies its block into the freed ring.
\<close>

lemma failed_start_frees_ring_under_producer:
  "rec_bad (recorder_run sd_good 524288 failed_start (fst (audio_recorder_init sd_good demo_env (power_on empty_card))))"
proof -
  obtain sd sink where "audio_recorder_sink_open sd_good 48000 1 1 empty_card no_sink = (sd, sink, ESP_OK)" using demo_open by blast
  note st = demo_started [OF this]
  show ?thesis
    unfolding failed_start_def run_append demo_booted_def [symmetric] st
    by (simp add: recorder_run_def no_task_def demo_booted control_step_def start_step_def push_master_step_def power_on_def
      gate_count_def audio_recorder_stop_gate_close_def audio_recorder_ring_init_def ring_blocks_demo release_ring_def abort_sink_def demo_env_def
      split: prod.splits)
qed
text \<open>
  Claim C16.  A stop that finds a session returns: once it has closed the gate it may be interrupted by any steps of the
  other two tasks, and when the audio output task has made six of them and then the writer twenty for each slot of the
  ring and twenty more, its own seven steps bring the recorder to STOPPED with the ring released, whatever the card does.
\<close>

theorem stop_returns:
  assumes "list_all action_ok (acts @ while_closing @ while_draining)"
    "length (acts @ while_closing @ while_draining) < 2 ^ 32 - 7" "se_task e"
    "s = recorder_run env ring_budget acts (fst (audio_recorder_init env e0 (power_on sd)))" "rec_control s = S_Close st"
    "list_all (\<lambda>a. is_producer a \<or> is_writer a) (while_closing @ while_draining)"
    "6 \<le> length (filter is_producer while_closing)"
    "20 * unat (rr_capacity (rec_ring s)) + 20 \<le> length (filter is_writer while_draining)"
  shows "let c = Control e Stop;
       s' = recorder_run env ring_budget ([c] @ while_closing @ [c, c] @ while_draining @ [c, c, c, c]) s in
     rec_control s' = C_Idle \<and> rec_state s' = AUDIO_RECORDER_STOPPED \<and> rec_slots s' = None"
proof -
  let ?run = "recorder_run env ring_budget" and ?c = "Control e Stop"
  let ?n = "length acts"
  have i0: "recorder_inv ring_budget ?n s" using run_inv [OF booted_inv, of acts] assms(1,2,4) by simp
  have c: "action_ok ?c" using assms(3) by simp
  define s1 where "s1 = ?run [?c] s"
  have i1: "recorder_inv ring_budget (?n + 1) s1" using run_inv [OF i0, of "[?c]"] c assms(2) by (simp add: s1_def)
  have s1: "rec_control s1 = S_Wait st" "accepting (rec_gate s1) = 0" "rr_capacity (rec_ring s1) = rr_capacity (rec_ring s)"
    using assms(5) by (simp_all add: s1_def recorder_run_def control_step_def stop_step_def audio_recorder_stop_gate_close_def)
  define s2 where "s2 = ?run while_closing s1"
  have i2: "recorder_inv ring_budget (?n + 1 + length while_closing) s2"
    using run_inv [OF i1, of while_closing] assms(1,2) by (simp add: s2_def)
  have s2: "rec_control s2 = S_Wait st" "rr_capacity (rec_ring s2) = rr_capacity (rec_ring s)" "producer_left (rec_producer s2) = 0"
    using gate_empties [OF s1(2), of while_closing env ring_budget] assms(6,7) s1 producer_left_le [of "rec_producer s1"] by (simp_all add: s2_def)
  then have "\<not> counted (rec_producer s2)" by (cases "rec_producer s2") auto
  then have q: "active_producers (rec_gate s2) = 0" using i2 by (simp add: recorder_inv_def)
  define s3 where "s3 = ?run [?c, ?c] s2"
  have i3: "recorder_inv ring_budget (?n + 1 + length while_closing + 2) s3"
    using run_inv [OF i2, of "[?c, ?c]"] c assms(2) by (simp add: s3_def)
  have s3: "rec_control s3 = S_Join" "rr_capacity (rec_ring s3) = rr_capacity (rec_ring s)"
    using s2 q by (simp_all add: s3_def recorder_run_def control_step_def stop_step_def audio_recorder_stop_gate_is_quiescent_def)
  define s4 where "s4 = ?run while_draining s3"
  have i4: "recorder_inv ring_budget (?n + 1 + length while_closing + 2 + length while_draining) s4"
    using run_inv [OF i3, of while_draining] assms(1,2) by (simp add: s4_def)
  have "drain_left s3 \<le> length (filter is_writer while_draining)" using drain_bound [OF i3 s3(1)] s3(2) assms(8) by simp
  then have s4: "rec_writer_pc s4 = W_None" "rec_control s4 = S_Join"
    using writer_exits [OF i3 s3(1), of while_draining env] assms(1,2,6) by (simp_all add: s4_def)
  have "?run ([?c] @ while_closing @ [?c, ?c] @ while_draining @ [?c, ?c, ?c, ?c]) s = ?run [?c, ?c, ?c, ?c] s4"
    unfolding s4_def s3_def s2_def s1_def run_append ..
  then show ?thesis using join_to_end [OF i4 s4(2,1), of env e Stop] by (simp add: Let_def)
qed

definition closing_run :: "recorder_action list" where
  "closing_run = started @ [demo_control, demo_control, demo_control]"

theorem stop_returns_witness:
  "let c = Control demo_env Stop;
       s = recorder_run sd_good 524288 closing_run (fst (audio_recorder_init sd_good demo_env (power_on empty_card)));
       s' = recorder_run sd_good 524288 ([c] @ replicate 6 demo_push @ [c, c] @ replicate 10180 demo_write @ [c, c, c, c]) s in
     rec_control s' = C_Idle \<and> rec_state s' = AUDIO_RECORDER_STOPPED \<and> rec_slots s' = None"
proof -
  obtain sd sink where "audio_recorder_sink_open sd_good 48000 1 1 empty_card no_sink = (sd, sink, ESP_OK)" using demo_open by blast
  note st = demo_started [OF this]
  define s where "s = recorder_run sd_good 524288 closing_run demo_booted"
  have s: "rec_control s = S_Close AUDIO_RECORDER_RECORDING" "rr_capacity (rec_ring s) = 508"
    unfolding s_def closing_run_def run_append st
    by (simp_all add: recorder_run_def demo_booted control_step_def call_step_def start_step_def power_on_def demo_env_def
      audio_recorder_ring_init_def ring_blocks_demo)
  have ok: "list_all action_ok (closing_run @ replicate 6 demo_push @ replicate 10180 demo_write)"
    "length (closing_run @ replicate 6 demo_push @ replicate 10180 demo_write) < 2 ^ 32 - 7" "se_task demo_env"
    by (simp_all add: closing_run_def started_steps demo_env_def list_all_iff)
  show ?thesis
    using stop_returns [OF ok s_def [unfolded demo_booted_def] s(1)] s(2)
    by (simp add: s_def demo_booted_def list_all_iff)
qed

end
