(* ===== verification/Media_Text.thy ===== *)
theory Media_Text
  imports Prelude "HOL-Library.Monad_Syntax"
begin

text \<open>
  What the readers of the Rekordbox files (\<open>rekordbox_pdb.c\<close>, \<open>rekordbox_anlz.c\<close>) share: memory that is read with a bounds
  check, the conversion of UTF-16 to UTF-8, and C strings in buffers.  A computation that would read outside its memory is
  \<open>None\<close>, so that a result \<open>Some\<close> is a proof that it does not.
\<close>

section \<open>Checked memory\<close>

text \<open>A \<open>size_t\<close> has 32 bits on the target: every sum and product that could leave it is wrapped explicitly.\<close>

definition size_t :: "nat \<Rightarrow> nat" where
  "size_t n = n mod 2 ^ 32"

lemma size_t_small [simp]: "n < 2 ^ 32 \<Longrightarrow> size_t n = n"
  by (simp add: size_t_def)

lemma size_t_wrap:
  assumes "k \<le> n" "n < 2 ^ 32"
  shows "size_t (2 ^ 32 + n - k) = n - k"
proof -
  have "(M + n - k) mod M = n - k" if "n < M" for M
  proof -
    have "M + n - k = M + (n - k)" using assms(1) by (rule Nat.diff_add_assoc)
    moreover have "n - k < M" using that by (rule le_less_trans [OF diff_le_self])
    ultimately show ?thesis by (simp only: mod_add_self1 mod_less)
  qed
  then show ?thesis unfolding size_t_def using assms(2) by blast
qed

definition load8 :: "u8 list \<Rightarrow> nat \<Rightarrow> u8 option" where
  "load8 data i = (if i < length data then Some (data ! i) else None)"

definition load_bytes :: "u8 list \<Rightarrow> nat \<Rightarrow> nat \<Rightarrow> u8 list option" where
  "load_bytes data i n = (if i + n \<le> length data then Some (take n (drop i data)) else None)"

definition rd_le16 :: "u8 list \<Rightarrow> nat \<Rightarrow> u16 option" where
  "rd_le16 data i = do { bs \<leftarrow> load_bytes data i 2; Some (rd_u16 bs 0) }"

definition rd_le32 :: "u8 list \<Rightarrow> nat \<Rightarrow> u32 option" where
  "rd_le32 data i = do { bs \<leftarrow> load_bytes data i 4; Some (rd_u32 bs 0) }"

text \<open>\<open>safely m P\<close>: the computation stays in its memory and its result satisfies \<open>P\<close>.\<close>

definition safely :: "'a option \<Rightarrow> ('a \<Rightarrow> bool) \<Rightarrow> bool" where
  "safely m P \<longleftrightarrow> (case m of None \<Rightarrow> False | Some x \<Rightarrow> P x)"

lemma safely_simps [simp]: "safely (Some x) P = P x" "\<not> safely None P"
  by (simp_all add: safely_def)

lemma safely_bind: "safely m Q \<Longrightarrow> (\<And>x. Q x \<Longrightarrow> safely (f x) P) \<Longrightarrow> safely (m \<bind> f) P"
  by (cases m) (auto simp: safely_def)

lemma safely_mono: "safely m Q \<Longrightarrow> (\<And>x. Q x \<Longrightarrow> P x) \<Longrightarrow> safely m P"
  by (auto simp: safely_def split: option.splits)

text \<open>Loads inside the memory succeed.\<close>

lemma load_ok [simp]:
  "i < length data \<Longrightarrow> load8 data i = Some (data ! i)"
  "i + n \<le> length data \<Longrightarrow> load_bytes data i n = Some (take n (drop i data))"
  "i + 2 \<le> length data \<Longrightarrow> rd_le16 data i = Some (rd_u16 data i)"
  "i + 4 \<le> length data \<Longrightarrow> rd_le32 data i = Some (rd_u32 data i)"
  by (simp_all add: load8_def load_bytes_def rd_le16_def rd_le32_def rd_u16_def rd_u32_def)

section \<open>UTF-16 to UTF-8\<close>

text \<open>
  \<open>out\<close> is what the destination holds so far; the index of the C code is its length.  The result is \<open>None\<close> when the code
  point does not fit, is zero or is no code point.
\<close>

definition utf8_append_codepoint :: "nat \<Rightarrow> u8 list \<Rightarrow> u32 \<Rightarrow> u8 list option" where
  "utf8_append_codepoint dst_sz out cp =
     (let i = length out
      in if dst_sz = 0 \<or> cp = 0 then None
         else if cp \<le> 0x7F then (if i + 1 \<ge> dst_sz then None else Some (out @ [ucast cp]))
         else if cp \<le> 0x7FF then
           (if i + 2 \<ge> dst_sz then None else Some (out @ [ucast (0xC0 OR drop_bit 6 cp), ucast (0x80 OR (cp AND 0x3F))]))
         else if cp \<le> 0xFFFF then
           (if i + 3 \<ge> dst_sz then None
            else Some (out @ [ucast (0xE0 OR drop_bit 12 cp), ucast (0x80 OR (drop_bit 6 cp AND 0x3F)), ucast (0x80 OR (cp AND 0x3F))]))
         else if cp \<le> 0x10FFFF then
           (if i + 4 \<ge> dst_sz then None
            else Some (out @ [ucast (0xF0 OR drop_bit 18 cp), ucast (0x80 OR (drop_bit 12 cp AND 0x3F)),
                              ucast (0x80 OR (drop_bit 6 cp AND 0x3F)), ucast (0x80 OR (cp AND 0x3F))]))
         else None)"

definition surrogate_pair :: "u16 \<Rightarrow> u16 \<Rightarrow> u32" where
  "surrogate_pair hi lo = 0x10000 + (push_bit 10 (ucast hi - 0xD800) OR (ucast lo - 0xDC00))"

abbreviation (input) high_surrogate :: "u16 \<Rightarrow> bool" where "high_surrogate w \<equiv> 0xD800 \<le> w \<and> w \<le> 0xDBFF"
abbreviation (input) low_surrogate :: "u16 \<Rightarrow> bool" where "low_surrogate w \<equiv> 0xDC00 \<le> w \<and> w \<le> 0xDFFF"

text \<open>Backslashes of a path become slashes.\<close>

definition slash :: "u32 \<Rightarrow> u32" where
  "slash cp = (if cp = 0x5C then 0x2F else cp)"

text \<open>The two encodings of a character, without regard to space.\<close>

definition utf8 :: "u32 \<Rightarrow> u8 list" where
  "utf8 cp =
     (if cp \<le> 0x7F then [ucast cp]
      else if cp \<le> 0x7FF then [ucast (0xC0 OR drop_bit 6 cp), ucast (0x80 OR (cp AND 0x3F))]
      else if cp \<le> 0xFFFF then
        [ucast (0xE0 OR drop_bit 12 cp), ucast (0x80 OR (drop_bit 6 cp AND 0x3F)), ucast (0x80 OR (cp AND 0x3F))]
      else [ucast (0xF0 OR drop_bit 18 cp), ucast (0x80 OR (drop_bit 12 cp AND 0x3F)),
            ucast (0x80 OR (drop_bit 6 cp AND 0x3F)), ucast (0x80 OR (cp AND 0x3F))])"

definition utf16 :: "u32 \<Rightarrow> u16 list" where
  "utf16 cp = (if cp \<le> 0xFFFF then [ucast cp]
     else [0xD800 OR ucast (drop_bit 10 (cp - 0x10000)), 0xDC00 OR ucast ((cp - 0x10000) AND 0x3FF)])"

definition scalar :: "u32 \<Rightarrow> bool" where
  "scalar cp \<longleftrightarrow> 0 < cp \<and> cp \<le> 0x10FFFF \<and> \<not> (0xD800 \<le> cp \<and> cp \<le> 0xDFFF)"

lemma append_utf8:
  "utf8_append_codepoint dst_sz out cp =
     (if cp = 0 \<or> cp > 0x10FFFF \<or> dst_sz \<le> length out + length (utf8 cp) then None else Some (out @ utf8 cp))"
proof -
  have n: "cp = 0 \<longleftrightarrow> unat cp = 0" "cp > 0x10FFFF \<longleftrightarrow> unat cp > 0x10FFFF" "cp \<le> 0x7F \<longleftrightarrow> unat cp \<le> 0x7F"
    "cp \<le> 0x7FF \<longleftrightarrow> unat cp \<le> 0x7FF" "cp \<le> 0xFFFF \<longleftrightarrow> unat cp \<le> 0xFFFF" "cp \<le> 0x10FFFF \<longleftrightarrow> unat cp \<le> 0x10FFFF"
    by (simp_all add: word_le_nat_alt word_less_nat_alt unat_eq_0)
  show ?thesis unfolding utf8_append_codepoint_def utf8_def Let_def n by simp
qed

lemma append_bound: "utf8_append_codepoint dst_sz out cp = Some out' \<Longrightarrow> length out' < dst_sz"
  by (auto simp: append_utf8 split: if_splits)

lemma or_add_word:
  assumes "take_bit k a = (0 :: 'a::len word)" "unat x < 2 ^ k"
  shows "a OR x = a + x"
proof -
  have x: "take_bit k x = x" using assms(2) by (simp add: word_unat_eq_iff unsigned_take_bit_eq take_bit_nat_eq_self)
  have "\<not> bit a n \<or> \<not> bit x n" for n
  proof (cases "n < k")
    case True
    then show ?thesis using arg_cong [OF assms(1), of "\<lambda>w. bit w n"] by (simp add: bit_take_bit_iff)
  next
    case False
    then show ?thesis using arg_cong [OF x, of "\<lambda>w. bit w n"] by (simp add: bit_take_bit_iff)
  qed
  then show ?thesis by (simp add: disjunctive_add)
qed

lemma utf16_small: "scalar cp \<Longrightarrow> cp \<le> 0xFFFF \<Longrightarrow> ucast (ucast cp :: u16) = cp \<and> (ucast cp :: u16) \<noteq> 0 \<and> \<not> high_surrogate (ucast cp :: u16)"
proof -
  assume c: "scalar cp" "cp \<le> 0xFFFF"
  have u: "unat (ucast cp :: u16) = unat cp" using c(2) by (simp add: unsigned_ucast_eq take_bit_nat_eq_self word_le_nat_alt)
  show ?thesis using c u
    by (auto simp: scalar_def word_le_nat_alt word_less_nat_alt word_unat_eq_iff unsigned_ucast_eq unsigned_take_bit_eq take_bit_nat_eq_self)
qed

lemma utf16_pair:
  assumes "scalar cp" "cp > 0xFFFF"
  shows "high_surrogate (0xD800 OR ucast (drop_bit 10 (cp - 0x10000)))" "low_surrogate (0xDC00 OR ucast ((cp - 0x10000) AND 0x3FF))"
    "surrogate_pair (0xD800 OR ucast (drop_bit 10 (cp - 0x10000))) (0xDC00 OR ucast ((cp - 0x10000) AND 0x3FF)) = cp"
proof -
  define v where "v = cp - 0x10000"
  have v: "unat v = unat cp - 0x10000" "unat v < 2 ^ 20"
    using assms unat_sub [of "0x10000" cp] by (auto simp: v_def scalar_def word_le_nat_alt word_less_nat_alt)
  let ?h = "drop_bit 10 v" and ?l = "v AND 0x3FF"
  have l': "?l = take_bit 10 v" by (simp add: take_bit_eq_mask mask_eq_exp_minus_1)
  have h: "unat ?h = unat v div 1024" by (simp add: drop_bit_eq_div unat_div)
  have l: "unat ?l = unat v mod 1024" unfolding l' unsigned_take_bit_eq by (simp add: take_bit_eq_mod)
  have uh: "unat (ucast ?h :: u16) = unat v div 1024" using v(2) h by (simp add: unsigned_ucast_eq take_bit_nat_eq_self)
  have ul: "unat (ucast ?l :: u16) = unat v mod 1024" using l by (simp add: unsigned_ucast_eq take_bit_nat_eq_self)
  have oh: "0xD800 OR (ucast ?h :: u16) = 0xD800 + ucast ?h"
    using uh v(2) by (intro or_add_word [of 10]) simp_all
  have ol: "0xDC00 OR (ucast ?l :: u16) = 0xDC00 + ucast ?l"
    using ul by (intro or_add_word [of 10]) simp_all
  have nh: "unat (0xD800 + (ucast ?h :: u16)) = 0xD800 + unat v div 1024" using uh v(2) by (simp add: unat_word_ariths)
  have nl: "unat (0xDC00 + (ucast ?l :: u16)) = 0xDC00 + unat v mod 1024" using ul by (simp add: unat_word_ariths)
  show "high_surrogate (0xD800 OR ucast (drop_bit 10 (cp - 0x10000)))" "low_surrogate (0xDC00 OR ucast ((cp - 0x10000) AND 0x3FF))"
    unfolding v_def [symmetric] oh ol word_le_nat_alt nh nl using v(2) by simp_all
  have eh: "(ucast (0xD800 + (ucast ?h :: u16)) :: u32) - 0xD800 = ?h"
    using nh h v(2) by (simp add: word_unat_eq_iff unsigned_ucast_eq take_bit_nat_eq_self unat_sub word_le_nat_alt)
  have el: "(ucast (0xDC00 + (ucast ?l :: u16)) :: u32) - 0xDC00 = ?l"
    using nl l by (simp add: word_unat_eq_iff unsigned_ucast_eq take_bit_nat_eq_self unat_sub word_le_nat_alt)
  have "push_bit 10 ?h OR ?l = v"
    unfolding l' by (rule bit_word_eqI) (auto simp: bit_simps)
  then show "surrogate_pair (0xD800 OR ucast (drop_bit 10 (cp - 0x10000))) (0xDC00 OR ucast ((cp - 0x10000) AND 0x3FF)) = cp"
    unfolding surrogate_pair_def v_def [symmetric] oh ol eh el by (simp add: v_def)
qed

end
