(* ===== verification/Rekordbox_Pdb.thy ===== *)
theory Rekordbox_Pdb
  imports Media_Text
begin

text \<open>
  The reader of the track database on a USB stick (\<open>rekordbox_pdb.c\<close>).  The file is in memory as a whole; its contents are
  whatever is on the stick.  Every load is checked against the bounds of that memory.  A string is the bytes the decoder wrote
  into its buffer, without the terminating zero.  Logging is left out.
\<close>

section \<open>Constants and records\<close>

abbreviation (input) TABLE_TYPE_TRACKS :: u32 where "TABLE_TYPE_TRACKS \<equiv> 0x00"
abbreviation (input) TABLE_TYPE_ARTISTS :: u32 where "TABLE_TYPE_ARTISTS \<equiv> 0x02"
abbreviation (input) TABLE_TYPE_ALBUMS :: u32 where "TABLE_TYPE_ALBUMS \<equiv> 0x03"
abbreviation (input) TABLE_TYPE_KEYS :: u32 where "TABLE_TYPE_KEYS \<equiv> 0x05"
abbreviation (input) PAGE_HEAP_OFFSET :: nat where "PAGE_HEAP_OFFSET \<equiv> 0x28"
abbreviation (input) PAGE_NROWS_OFF :: nat where "PAGE_NROWS_OFF \<equiv> 0x18"
abbreviation (input) PAGE_NEXT_OFF :: nat where "PAGE_NEXT_OFF \<equiv> 0x0C"
abbreviation (input) TRACK_OFF_KEY_ID :: nat where "TRACK_OFF_KEY_ID \<equiv> 0x20"
abbreviation (input) TRACK_OFF_TEMPO :: nat where "TRACK_OFF_TEMPO \<equiv> 0x38"
abbreviation (input) TRACK_OFF_ALBUM_ID :: nat where "TRACK_OFF_ALBUM_ID \<equiv> 0x40"
abbreviation (input) TRACK_OFF_ARTIST_ID :: nat where "TRACK_OFF_ARTIST_ID \<equiv> 0x44"
abbreviation (input) TRACK_OFF_TRACK_ID :: nat where "TRACK_OFF_TRACK_ID \<equiv> 0x48"
abbreviation (input) TRACK_OFF_DURATION :: nat where "TRACK_OFF_DURATION \<equiv> 0x54"
abbreviation (input) TRACK_OFF_STR_OFFS :: nat where "TRACK_OFF_STR_OFFS \<equiv> 0x5E"
abbreviation (input) TRACK_ROW_MIN_SIZE :: nat where "TRACK_ROW_MIN_SIZE \<equiv> 136"
abbreviation (input) TRACK_ROW_SUBTYPE :: u16 where "TRACK_ROW_SUBTYPE \<equiv> 0x0024"
abbreviation (input) STR_IDX_ANLZ_PATH :: nat where "STR_IDX_ANLZ_PATH \<equiv> 14"
abbreviation (input) STR_IDX_TITLE :: nat where "STR_IDX_TITLE \<equiv> 18"
abbreviation (input) STR_IDX_FILENAME :: nat where "STR_IDX_FILENAME \<equiv> 19"
abbreviation (input) STR_IDX_FILE_PATH :: nat where "STR_IDX_FILE_PATH \<equiv> 20"
abbreviation (input) NAME_ROW_ID_OFF :: nat where "NAME_ROW_ID_OFF \<equiv> 4"
abbreviation (input) NAME_ROW_STR_OFF :: nat where "NAME_ROW_STR_OFF \<equiv> 10"
abbreviation (input) NAME_ROW_MIN_SIZE :: nat where "NAME_ROW_MIN_SIZE \<equiv> 14"
abbreviation (input) KEY_ROW_ID_OFF :: nat where "KEY_ROW_ID_OFF \<equiv> 0"
abbreviation (input) KEY_ROW_STR_OFF :: nat where "KEY_ROW_STR_OFF \<equiv> 8"
abbreviation (input) KEY_ROW_MIN_SIZE :: nat where "KEY_ROW_MIN_SIZE \<equiv> 9"
abbreviation (input) PDB_MAX_TRACKS :: nat where "PDB_MAX_TRACKS \<equiv> 1024"
abbreviation (input) PDB_MAX_NAMES :: nat where "PDB_MAX_NAMES \<equiv> 512"
abbreviation (input) PDB_STR_MAX :: nat where "PDB_STR_MAX \<equiv> 128"
abbreviation (input) PDB_PATH_MAX :: nat where "PDB_PATH_MAX \<equiv> 256"
abbreviation (input) PDB_STR_NAME_MAX :: nat where "PDB_STR_NAME_MAX \<equiv> 96"

record pdb_track =
  track_id :: u32
  bpm :: u16
  duration_s :: u16
  track_key :: "u8 list"
  title :: "u8 list"
  artist :: "u8 list"
  album :: "u8 list"
  file_path :: "u8 list"
  anlz_path :: "u8 list"

record name_entry =
  ne_id :: u32
  ne_name :: "u8 list"

record pdb_table =
  tbl_type :: u32
  tbl_first_page :: u32

record pdb =
  pdb_data :: "u8 list"
  pdb_page_size :: u32
  pdb_tables :: "pdb_table list"
  pdb_total_pages :: u32
  pdb_tracks :: "pdb_track list"
  pdb_artists :: "name_entry list"
  pdb_albums :: "name_entry list"
  pdb_keys :: "name_entry list"

section \<open>Strings\<close>

text \<open>The string that a C function sees in a buffer.\<close>

definition c_string :: "u8 list \<Rightarrow> u8 list" where
  "c_string buf = takeWhile (\<lambda>c. c \<noteq> 0) buf"

definition pdb_copy_str :: "nat \<Rightarrow> u8 list \<Rightarrow> u8 list" where
  "pdb_copy_str dst_len src = (if dst_len = 0 then [] else take (dst_len - 1) (c_string src))"

definition strip_nuls :: "u8 list \<Rightarrow> u8 list" where
  "strip_nuls s = rev (dropWhile (\<lambda>c. c = 0) (rev s))"

definition read_utf16_unit :: "u8 list \<Rightarrow> nat \<Rightarrow> bool \<Rightarrow> u16 option" where
  "read_utf16_unit data pos le =
     do { p0 \<leftarrow> load8 data pos; p1 \<leftarrow> load8 data (pos + 1);
          Some (if le then ucast p0 OR push_bit 8 (ucast p1) else push_bit 8 (ucast p0) OR ucast p1) }"

text \<open>The conversion loop: \<open>n\<close> units remain at \<open>pos\<close>, \<open>out\<close> is written.\<close>

fun utf16_copy :: "u8 list \<Rightarrow> bool \<Rightarrow> nat \<Rightarrow> nat \<Rightarrow> nat \<Rightarrow> u8 list \<Rightarrow> u8 list option" where
  "utf16_copy data le dst_sz pos 0 out = Some out"
| "utf16_copy data le dst_sz pos (Suc n) out =
     (if length out \<ge> dst_sz - 1 then Some out
      else do { wc \<leftarrow> read_utf16_unit data pos le;
        if wc = 0 then Some out
        else do { next \<leftarrow> (if high_surrogate wc \<and> n > 0 then read_utf16_unit data (pos + 2) le else Some 0);
          if low_surrogate next
          then (case utf8_append_codepoint dst_sz out (slash (surrogate_pair wc next)) of
                  None \<Rightarrow> Some out | Some out' \<Rightarrow> utf16_copy data le dst_sz (pos + 4) (n - 1) out')
          else (case utf8_append_codepoint dst_sz out (slash (ucast wc)) of
                  None \<Rightarrow> Some out | Some out' \<Rightarrow> utf16_copy data le dst_sz (pos + 2) n out') } })"

text \<open>The string and the number of bytes of the field.\<close>

definition decode_devicesql :: "u8 list \<Rightarrow> nat \<Rightarrow> nat \<Rightarrow> (u8 list \<times> nat) option" where
  "decode_devicesql data abs_off dst_sz =
     (if dst_sz = 0 \<or> abs_off \<ge> length data then Some ([], 1)
      else do { flag \<leftarrow> load8 data abs_off;
        if flag = 0x40 \<or> flag = 0x00 then Some ([], 1)
        else if flag AND 1 \<noteq> 0 then
          let total = unat (drop_bit 1 flag); nbytes = (if total > 0 then total - 1 else 0); field = (if total > 0 then total else 1)
          in if nbytes > 0 \<and> size_t (abs_off + 1 + nbytes) \<le> length data
             then do { s \<leftarrow> load_bytes data (size_t (abs_off + 1)) (if nbytes < dst_sz - 1 then nbytes else dst_sz - 1);
                       Some (strip_nuls s, field) }
             else Some ([], field)
        else if size_t (abs_off + 3) \<ge> length data then Some ([], 1)
        else do { len16 \<leftarrow> rd_le16 data (size_t (abs_off + 1));
          let total_len = unat len16; data_start = size_t (abs_off + 4); data_bytes = (if total_len \<ge> 4 then total_len - 4 else 0);
              field = (if total_len > 0 then total_len else 1)
          in if data_bytes = 0 \<or> size_t (data_start + data_bytes) > length data then Some ([], field)
             else if flag AND 0x10 \<noteq> 0
             then do { s \<leftarrow> utf16_copy data (flag AND 0x80 \<noteq> 0) dst_sz data_start (data_bytes div 2) []; Some (s, field) }
             else do { s \<leftarrow> load_bytes data data_start (if data_bytes < dst_sz - 1 then data_bytes else dst_sz - 1);
                       Some (strip_nuls s, field) } } })"

section \<open>Pages\<close>

definition page_base_off :: "pdb \<Rightarrow> u32 \<Rightarrow> nat" where
  "page_base_off p pn = size_t (unat pn * unat (pdb_page_size p))"

definition page_nrows :: "pdb \<Rightarrow> u32 \<Rightarrow> u32 option" where
  "page_nrows p pn =
     (let off = size_t (page_base_off p pn + PAGE_NROWS_OFF)
      in if size_t (off + 4) > length (pdb_data p) then Some 0
         else do { v \<leftarrow> rd_le32 (pdb_data p) off; Some (v AND 0x1FFF) })"

definition page_next :: "pdb \<Rightarrow> u32 \<Rightarrow> u32 option" where
  "page_next p pn =
     (let off = size_t (page_base_off p pn + PAGE_NEXT_OFF)
      in if size_t (off + 4) > length (pdb_data p) then Some 0xFFFFFFFF else rd_le32 (pdb_data p) off)"

text \<open>
  A row callback gets the page, the heap offset and its context; it returns the new context and whether to go on.  The slots
  of a group: \<open>n\<close> remain from slot \<open>i\<close> on.  The result tells whether the page goes on.
\<close>

type_synonym 's row_cb = "u32 \<Rightarrow> nat \<Rightarrow> 's \<Rightarrow> ('s \<times> bool) option"

fun iter_slots :: "pdb \<Rightarrow> 's row_cb \<Rightarrow> u32 \<Rightarrow> nat \<Rightarrow> nat \<Rightarrow> u16 \<Rightarrow> nat \<Rightarrow> nat \<Rightarrow> 's \<Rightarrow> ('s \<times> bool) option" where
  "iter_slots p cb pn pb ptr rowpf i 0 s = Some (s, True)"
| "iter_slots p cb pn pb ptr rowpf i (Suc n) s =
     (let slot = size_t (2 ^ 32 + ptr - (4 + 2 * (i + 1)))
      in if slot < pb \<or> size_t (slot + 2) > length (pdb_data p) then iter_slots p cb pn pb ptr rowpf (Suc i) n s
         else do { ho \<leftarrow> rd_le16 (pdb_data p) slot;
           if bit rowpf i
           then do { (s', go) \<leftarrow> cb pn (unat ho) s;
                     if go then iter_slots p cb pn pb ptr rowpf (Suc i) n s' else Some (s', False) }
           else iter_slots p cb pn pb ptr rowpf (Suc i) n s })"

function iter_groups :: "pdb \<Rightarrow> 's row_cb \<Rightarrow> u32 \<Rightarrow> nat \<Rightarrow> nat \<Rightarrow> nat \<Rightarrow> 's \<Rightarrow> 's option" where
  "iter_groups p cb pn pb ptr remaining s =
     (if remaining = 0 then Some s
      else let m = (if remaining < 16 then remaining else 16); group_bytes = 4 + m * 2
      in if ptr > length (pdb_data p) \<or> ptr < pb \<or> ptr - pb < group_bytes then Some s
         else do { rowpf \<leftarrow> rd_le16 (pdb_data p) (ptr - 4);
                   (s', go) \<leftarrow> iter_slots p cb pn pb ptr rowpf 0 m s;
                   if go then iter_groups p cb pn pb (ptr - group_bytes) (remaining - m) s' else Some s' })"
  by pat_completeness auto
termination by (relation "measure (\<lambda>(p, cb, pn, pb, ptr, remaining, s). remaining)") auto

declare iter_groups.simps [simp del]

definition iter_page_rows :: "pdb \<Rightarrow> 's row_cb \<Rightarrow> u32 \<Rightarrow> 's \<Rightarrow> 's option" where
  "iter_page_rows p cb pn s =
     do { n \<leftarrow> page_nrows p pn;
          if n = 0 then Some s
          else let pb = page_base_off p pn in iter_groups p cb pn pb (size_t (pb + unat (pdb_page_size p))) (unat n) s }"

text \<open>The chain of pages; \<open>left\<close> is how many may still be visited.\<close>

fun walk_pages :: "pdb \<Rightarrow> 's row_cb \<Rightarrow> nat \<Rightarrow> u32 \<Rightarrow> 's \<Rightarrow> 's option" where
  "walk_pages p cb 0 pn s = Some s"
| "walk_pages p cb (Suc left) pn s =
     (if pn = 0xFFFFFFFF \<or> pn \<ge> pdb_total_pages p then Some s
      else do { s' \<leftarrow> iter_page_rows p cb pn s; next \<leftarrow> page_next p pn; walk_pages p cb left next s' })"

definition walk_table :: "pdb \<Rightarrow> u32 \<Rightarrow> 's row_cb \<Rightarrow> 's \<Rightarrow> 's option" where
  "walk_table p table_type cb s =
     (case find (\<lambda>t. tbl_type t = table_type) (pdb_tables p) of
        None \<Rightarrow> Some s
      | Some t \<Rightarrow> walk_pages p cb (unat (pdb_total_pages p)) (tbl_first_page t) s)"

section \<open>Rows\<close>

definition name_cb :: "pdb \<Rightarrow> nat \<Rightarrow> nat \<Rightarrow> nat \<Rightarrow> nat \<Rightarrow> name_entry list row_cb" where
  "name_cb p limit id_off str_off min_size pn heap_off arr =
     (if length arr \<ge> limit then Some (arr, False)
      else let row = size_t (page_base_off p pn + PAGE_HEAP_OFFSET + heap_off)
      in if size_t (row + min_size) > length (pdb_data p) then Some (arr, True)
         else do { row_id \<leftarrow> rd_le32 (pdb_data p) (size_t (row + id_off));
           if row_id = 0 then Some (arr, True)
           else do { (name, used) \<leftarrow> decode_devicesql (pdb_data p) (size_t (row + str_off)) PDB_STR_NAME_MAX;
             Some (if c_string name \<noteq> [] then arr @ [\<lparr>ne_id = row_id, ne_name = name\<rparr>] else arr, True) } })"

text \<open>\<open>allocated\<close>: the table could be allocated; otherwise it stays empty.\<close>

definition parse_name_table :: "pdb \<Rightarrow> u32 \<Rightarrow> bool \<Rightarrow> nat \<Rightarrow> nat \<Rightarrow> nat \<Rightarrow> nat \<Rightarrow> name_entry list option" where
  "parse_name_table p table_type allocated limit id_off str_off min_size =
     (if \<not> allocated then Some [] else walk_table p table_type (name_cb p limit id_off str_off min_size) [])"

definition lookup_name :: "name_entry list \<Rightarrow> u32 \<Rightarrow> u8 list option" where
  "lookup_name arr name_id = (if name_id = 0 then None else map_option ne_name (find (\<lambda>e. ne_id e = name_id) arr))"

definition read_str :: "pdb \<Rightarrow> nat \<Rightarrow> nat \<Rightarrow> nat \<Rightarrow> u8 list option" where
  "read_str p row idx dst_sz =
     (let off = size_t (row + TRACK_OFF_STR_OFFS + idx * 2)
      in if size_t (off + 2) \<le> length (pdb_data p)
         then do { soff \<leftarrow> rd_le16 (pdb_data p) off;
                   if soff > 0 then map_option fst (decode_devicesql (pdb_data p) (size_t (row + unat soff)) dst_sz) else Some [] }
         else Some [])"

text \<open>The context of the track callback: the tracks so far and whether some were left out.\<close>

definition track_cb :: "pdb \<Rightarrow> (pdb_track list \<times> bool) row_cb" where
  "track_cb p pn heap_off ctx =
     (let (tracks, truncated) = ctx
      in if length tracks \<ge> PDB_MAX_TRACKS then Some ((tracks, True), False)
         else let row = size_t (page_base_off p pn + PAGE_HEAP_OFFSET + heap_off); data = pdb_data p
         in if size_t (row + TRACK_ROW_MIN_SIZE) > length data then Some (ctx, True)
            else do { subtype \<leftarrow> rd_le16 data row;
              if subtype \<noteq> TRACK_ROW_SUBTYPE then Some (ctx, True)
              else do {
                tid \<leftarrow> rd_le32 data (size_t (row + TRACK_OFF_TRACK_ID));
                bpm100 \<leftarrow> rd_le32 data (size_t (row + TRACK_OFF_TEMPO));
                duration \<leftarrow> rd_le16 data (size_t (row + TRACK_OFF_DURATION));
                artist_id \<leftarrow> rd_le32 data (size_t (row + TRACK_OFF_ARTIST_ID));
                album_id \<leftarrow> rd_le32 data (size_t (row + TRACK_OFF_ALBUM_ID));
                key_id \<leftarrow> rd_le32 data (size_t (row + TRACK_OFF_KEY_ID));
                tagged \<leftarrow> read_str p row STR_IDX_TITLE PDB_STR_MAX;
                filename \<leftarrow> read_str p row STR_IDX_FILENAME PDB_STR_MAX;
                path \<leftarrow> read_str p row STR_IDX_FILE_PATH PDB_PATH_MAX;
                anlz \<leftarrow> read_str p row STR_IDX_ANLZ_PATH PDB_PATH_MAX;
                let name = (\<lambda>dst_len found. case found of None \<Rightarrow> [] | Some s \<Rightarrow> pdb_copy_str dst_len s)
                in Some ((tracks @ [\<lparr>track_id = tid, bpm = ucast ((bpm100 + 50) div 100), duration_s = duration,
                       track_key = name 8 (lookup_name (pdb_keys p) key_id),
                       title = pdb_copy_str PDB_STR_MAX (if c_string tagged \<noteq> [] then tagged else filename),
                       artist = name PDB_STR_MAX (lookup_name (pdb_artists p) artist_id),
                       album = name PDB_STR_MAX (lookup_name (pdb_albums p) album_id),
                       file_path = path, anlz_path = anlz\<rparr>], truncated), True) } })"

section \<open>Opening a database\<close>

text \<open>
  Whether the n-th allocation succeeds (the handle, the file's memory, the three name tables, the tracks), and the bytes that
  reading the file delivers.
\<close>

record pdb_env =
  pe_alloc :: "nat \<Rightarrow> bool"
  pe_read :: "u8 list \<Rightarrow> u8 list"

fun read_tables :: "u8 list \<Rightarrow> nat \<Rightarrow> nat \<Rightarrow> pdb_table list option" where
  "read_tables data i 0 = Some []"
| "read_tables data i (Suc n) =
     (let off = size_t (0x1C + i * 16)
      in if size_t (off + 16) > length data then Some []
         else do { t \<leftarrow> rd_le32 data off; first \<leftarrow> rd_le32 data (off + 8); rest \<leftarrow> read_tables data (Suc i) n;
                   Some (\<lparr>tbl_type = t, tbl_first_page = first\<rparr> # rest) })"

text \<open>The rest of \<open>pdb_open\<close> once the header is read: the name tables, the tracks, and the memory that is no longer needed.\<close>

definition build_index :: "pdb_env \<Rightarrow> pdb \<Rightarrow> (esp_err + pdb) option" where
  "build_index env p =
     do { artists \<leftarrow> parse_name_table p TABLE_TYPE_ARTISTS (pe_alloc env 2) PDB_MAX_NAMES NAME_ROW_ID_OFF NAME_ROW_STR_OFF NAME_ROW_MIN_SIZE;
          albums \<leftarrow> parse_name_table p TABLE_TYPE_ALBUMS (pe_alloc env 3) PDB_MAX_NAMES NAME_ROW_ID_OFF NAME_ROW_STR_OFF NAME_ROW_MIN_SIZE;
          keys \<leftarrow> parse_name_table p TABLE_TYPE_KEYS (pe_alloc env 4) PDB_MAX_NAMES KEY_ROW_ID_OFF KEY_ROW_STR_OFF KEY_ROW_MIN_SIZE;
          let p1 = p\<lparr>pdb_artists := artists, pdb_albums := albums, pdb_keys := keys\<rparr>
          in if \<not> pe_alloc env 5 then Some (Inl ESP_ERR_NO_MEM)
             else do { (tracks, truncated) \<leftarrow> walk_table p1 TABLE_TYPE_TRACKS (track_cb p1) ([], False);
                       Some (Inr (p1\<lparr>pdb_tracks := tracks, pdb_data := [], pdb_artists := [], pdb_albums := [], pdb_keys := []\<rparr>)) } }"

definition pdb_open :: "pdb_env \<Rightarrow> u8 list option \<Rightarrow> (esp_err + pdb) option" where
  "pdb_open env stick =
     (case stick of None \<Rightarrow> Some (Inl ESP_ERR_NOT_FOUND)
      | Some contents \<Rightarrow>
        if length contents < 28 then Some (Inl ESP_FAIL)
        else if \<not> pe_alloc env 0 \<or> \<not> pe_alloc env 1 then Some (Inl ESP_ERR_NO_MEM)
        else let data = pe_read env contents
        in if length data \<noteq> length contents then Some (Inl ESP_FAIL)
        else do { page_size \<leftarrow> rd_le32 data 4; num_tables \<leftarrow> rd_le32 data 8;
          if page_size = 0 \<or> page_size > 65536 then Some (Inl ESP_FAIL)
          else do {
            tables \<leftarrow> read_tables data 0 (if num_tables > 32 then 32 else unat num_tables);
            build_index env \<lparr>pdb_data = data, pdb_page_size = page_size, pdb_tables = tables,
              pdb_total_pages = of_nat (length data div unat page_size), pdb_tracks = [],
              pdb_artists = [], pdb_albums = [], pdb_keys = []\<rparr> } })"

definition pdb_track_count :: "pdb option \<Rightarrow> nat" where
  "pdb_track_count pdb = (case pdb of None \<Rightarrow> 0 | Some p \<Rightarrow> length (pdb_tracks p))"

definition pdb_get_track :: "pdb option \<Rightarrow> int \<Rightarrow> esp_err + pdb_track" where
  "pdb_get_track pdb index =
     (case pdb of None \<Rightarrow> Inl ESP_ERR_INVALID_ARG
      | Some p \<Rightarrow> if index < 0 \<or> index \<ge> int (length (pdb_tracks p)) then Inl ESP_ERR_INVALID_ARG
                  else Inr (pdb_tracks p ! nat index))"

section \<open>No access leaves the file\<close>

lemma unit_ok [simp]:
  "pos + 2 \<le> length data \<Longrightarrow> read_utf16_unit data pos le =
     Some (if le then ucast (data ! pos) OR push_bit 8 (ucast (data ! (pos + 1)))
           else push_bit 8 (ucast (data ! pos)) OR ucast (data ! (pos + 1)))"
  by (simp add: read_utf16_unit_def)

lemma utf16_copy_safe:
  "pos + 2 * n \<le> length data \<Longrightarrow> length out < dst_sz \<Longrightarrow> safely (utf16_copy data le dst_sz pos n out) (\<lambda>s. length s < dst_sz)"
proof (induction data le dst_sz pos n out rule: utf16_copy.induct)
  case (1 data le dst_sz pos out)
  then show ?case by (simp add: safely_def)
next
  case (2 data le dst_sz pos n out)
  show ?case
  proof (cases "length out \<ge> dst_sz - 1")
    case True
    then show ?thesis using 2(4) by (simp add: safely_def)
  next
    case room: False
    obtain wc where wc: "read_utf16_unit data pos le = Some wc" using 2(3) by simp
    show ?thesis
    proof (cases "wc = 0")
      case True
      then show ?thesis using room wc 2(4) by (simp add: safely_def)
    next
      case False
      define next1 where "next1 = (if high_surrogate wc \<and> n > 0 then read_utf16_unit data (pos + 2) le else Some 0)"
      have "next1 \<noteq> None" using 2(3) by (auto simp: next1_def)
      then obtain nx where nx: "next1 = Some nx" by blast
      have low: "low_surrogate nx \<Longrightarrow> n > 0" using nx by (auto simp: next1_def split: if_splits)
      note ih = 2(1,2) [OF room wc False nx [unfolded next1_def]]
      have eq: "utf16_copy data le dst_sz pos (Suc n) out =
          (if low_surrogate nx
           then (case utf8_append_codepoint dst_sz out (slash (surrogate_pair wc nx)) of
                   None \<Rightarrow> Some out | Some out' \<Rightarrow> utf16_copy data le dst_sz (pos + 4) (n - 1) out')
           else (case utf8_append_codepoint dst_sz out (slash (ucast wc)) of
                   None \<Rightarrow> Some out | Some out' \<Rightarrow> utf16_copy data le dst_sz (pos + 2) n out'))"
        using room False by (simp only: utf16_copy.simps wc next1_def [symmetric] nx if_False bind.bind_lunit not_False_eq_True)
      have stop: "safely (Some out) (\<lambda>s. length s < dst_sz)" using 2(4) by (simp add: safely_def)
      show ?thesis
      proof (cases "low_surrogate nx")
        case True
        have "pos + 4 + 2 * (n - 1) \<le> length data" using 2(3) low [OF True] by simp
        then show ?thesis unfolding eq if_P [OF True] using stop ih(1) [OF True] append_bound by (auto split: option.split)
      next
        case not_low: False
        have "pos + 2 + 2 * n \<le> length data" using 2(3) by simp
        then show ?thesis unfolding eq if_not_P [OF not_low] using stop ih(2) [OF not_low] append_bound by (auto split: option.split)
      qed
    qed
  qed
qed

lemma length_strip: "length (strip_nuls s) \<le> length s"
  using length_dropWhile_le [of "\<lambda>c. c = 0" "rev s"] by (simp add: strip_nuls_def)

lemma strip_take: "m < d \<Longrightarrow> length (strip_nuls (take m xs)) < d"
  using length_strip [of "take m xs"] by simp

lemma decode_safe:
  assumes "length data < 2 ^ 31" "0 < dst_sz"
  shows "safely (decode_devicesql data abs_off dst_sz) (\<lambda>(s, used). length s < dst_sz)"
proof (cases "abs_off < length data")
  case False
  then show ?thesis using assms(2) by (simp add: decode_devicesql_def safely_def)
next
  case True
  have s: "size_t (abs_off + 1) = abs_off + 1" "size_t (abs_off + 3) = abs_off + 3" "size_t (abs_off + 4) = abs_off + 4"
    using True assms(1) by simp_all
  have flag: "load8 data abs_off = Some (data ! abs_off)" using True by simp
  let ?flag = "data ! abs_off" and ?total = "unat (drop_bit 1 (data ! abs_off))"
  have wide: "safely (utf16_copy data le dst_sz i m [] \<bind> (\<lambda>s. Some (s, f))) (\<lambda>(s, used). length s < dst_sz)"
    if "i + 2 * m \<le> length data" for i m le f
    using that assms(2) by (intro safely_bind [OF utf16_copy_safe]) (auto simp: safely_def)
  have t: "?total \<le> 127" using unsigned_less [of ?flag, where 'a = nat] unfolding unat_drop_bit_eq by (simp add: drop_bit_eq_div)
  show ?thesis
  proof (cases "?flag AND 1 \<noteq> 0")
    case odd: True
    have "size_t (abs_off + 1 + (?total - 1)) = abs_off + 1 + (?total - 1)" using True assms(1) t by simp
    then show ?thesis using True assms(2) flag s odd
      by (auto simp: decode_devicesql_def Let_def intro!: strip_take)
  next
    case even: False
    show ?thesis
    proof (cases "abs_off + 3 < length data")
      case room: True
      have l: "rd_le16 data (abs_off + 1) = Some (rd_u16 data (abs_off + 1))" using room by simp
      have u: "unat (rd_u16 data (abs_off + 1)) < 2 ^ 16" using unsigned_less [of "rd_u16 data (abs_off + 1)"] by simp
      then have z: "size_t (abs_off + 4 + (unat (rd_u16 data (abs_off + 1)) - 4)) = abs_off + 4 + (unat (rd_u16 data (abs_off + 1)) - 4)"
        using True assms(1) by simp
      show ?thesis using True assms(2) flag s even room l z
        by (auto simp: decode_devicesql_def Let_def intro!: strip_take wide)
    next
      case False
      then show ?thesis using True assms(2) flag s even by (simp add: decode_devicesql_def safely_def)
    qed
  qed
qed

text \<open>A database whose pages lie in the file, and a callback that is safe for every row such a page can name.\<close>

definition pdb_ok :: "pdb \<Rightarrow> bool" where
  "pdb_ok p \<longleftrightarrow> length (pdb_data p) < 2 ^ 31 \<and> 0 < pdb_page_size p \<and> pdb_page_size p \<le> 65536 \<and>
     pdb_total_pages p = of_nat (length (pdb_data p) div unat (pdb_page_size p))"

definition cb_safe :: "pdb \<Rightarrow> ('s \<Rightarrow> bool) \<Rightarrow> 's row_cb \<Rightarrow> bool" where
  "cb_safe p P cb \<longleftrightarrow> (\<forall>pn ho s. pn < pdb_total_pages p \<longrightarrow> ho < 2 ^ 16 \<longrightarrow> P s \<longrightarrow> safely (cb pn ho s) (\<lambda>(s', go). P s'))"

lemma page_bounds:
  assumes "pdb_ok p" "pn < pdb_total_pages p"
  shows "page_base_off p pn = unat pn * unat (pdb_page_size p)"
    "unat pn * unat (pdb_page_size p) + unat (pdb_page_size p) \<le> length (pdb_data p)" "unat (pdb_page_size p) \<le> 65536"
    "0 < unat (pdb_page_size p)"
proof -
  let ?ps = "unat (pdb_page_size p)" and ?len = "length (pdb_data p)"
  have ps: "0 < ?ps" "?ps \<le> 65536" "?len < 2 ^ 31" using assms(1) by (auto simp: pdb_ok_def word_le_nat_alt word_less_nat_alt)
  have "?len div ?ps \<le> ?len" by (rule div_le_dividend)
  then have "?len div ?ps < 2 ^ 32" by (rule le_less_trans) (use ps(3) in simp)
  then have "unat (of_nat (?len div ?ps) :: u32) = ?len div ?ps" by (simp add: unat_of_nat)
  then have "unat pn < ?len div ?ps" using assms by (simp add: pdb_ok_def word_less_nat_alt)
  then have "Suc (unat pn) * ?ps \<le> ?len div ?ps * ?ps" by (intro mult_le_mono1) simp
  also have "\<dots> \<le> ?len" by simp
  finally show b: "unat pn * ?ps + ?ps \<le> ?len" by simp
  then show "page_base_off p pn = unat pn * ?ps" using ps(3) by (simp add: page_base_off_def)
  show "?ps \<le> 65536" "0 < ?ps" by (rule ps)+
qed

lemma iter_slots_safe:
  assumes "pdb_ok p" "pn < pdb_total_pages p" "cb_safe p P cb"
  shows "ptr \<le> length (pdb_data p) \<Longrightarrow> 4 + 2 * (i + n) \<le> ptr - pb \<Longrightarrow> P s \<Longrightarrow>
     safely (iter_slots p cb pn pb ptr rowpf i n s) (\<lambda>(s', go). P s')"
proof (induction n arbitrary: i s)
  case (Suc n)
  have len: "length (pdb_data p) < 2 ^ 31" using assms(1) by (simp add: pdb_ok_def)
  have slot: "size_t (2 ^ 32 + ptr - (4 + 2 * (i + 1))) = ptr - (4 + 2 * (i + 1))"
  proof (rule size_t_wrap)
    show "4 + 2 * (i + 1) \<le> ptr" using Suc.prems(2) by simp
    show "ptr < 2 ^ 32" by (rule le_less_trans [OF Suc.prems(1)]) (use len in simp)
  qed
  define slot where "slot = ptr - (4 + 2 * (i + 1))"
  have "slot + (4 + 2 * (i + 1)) = ptr" "4 + 2 * (i + Suc n) + pb \<le> ptr" using Suc.prems(2) by (simp_all add: slot_def)
  then have sl: "slot + 2 \<le> length (pdb_data p)" "\<not> slot < pb" using Suc.prems(1) by (linarith, simp)
  have "slot + 2 < 2 ^ 32" by (intro le_less_trans [OF sl(1)]) (use len in simp)
  then have sz: "size_t (slot + 2) = slot + 2" by (rule size_t_small)
  have next1: "safely (iter_slots p cb pn pb ptr rowpf (Suc i) n s') (\<lambda>(s', go). P s')" if "P s'" for s'
    using Suc.IH [of "Suc i" s'] Suc.prems that by simp
  let ?ho = "rd_u16 (pdb_data p) slot"
  have "unat ?ho < 2 ^ 16" using unsigned_less [of ?ho, where 'a = nat] by simp
  then have cb: "safely (cb pn (unat ?ho) s) (\<lambda>(s', go). P s')" using assms(2,3) Suc.prems(3) by (simp add: cb_safe_def)
  have go: "safely (cb pn (unat ?ho) s \<bind> (\<lambda>(s', go). if go then iter_slots p cb pn pb ptr rowpf (Suc i) n s' else Some (s', False)))
      (\<lambda>(s', go). P s')"
    by (rule safely_bind [OF cb]) (auto intro: next1)
  have "iter_slots p cb pn pb ptr rowpf i (Suc n) s =
      (if bit rowpf i then cb pn (unat ?ho) s \<bind> (\<lambda>(s', go). if go then iter_slots p cb pn pb ptr rowpf (Suc i) n s' else Some (s', False))
       else iter_slots p cb pn pb ptr rowpf (Suc i) n s)"
    unfolding iter_slots.simps Let_def slot slot_def [symmetric] sz using sl by simp
  then show ?case using next1 [OF Suc.prems(3)] go by (cases "bit rowpf i") (simp_all only: if_True if_False)
qed simp

lemma iter_groups_safe:
  assumes "pdb_ok p" "pn < pdb_total_pages p" "cb_safe p P cb"
  shows "P s \<Longrightarrow> safely (iter_groups p cb pn pb ptr remaining s) P"
proof (induction remaining arbitrary: ptr s rule: less_induct)
  case (less remaining)
  define m where "m = (if remaining < 16 then remaining else 16)"
  show ?case
  proof (cases "remaining = 0 \<or> ptr > length (pdb_data p) \<or> ptr < pb \<or> ptr - pb < 4 + m * 2")
    case True
    then show ?thesis using less.prems by (subst iter_groups.simps) (auto simp: Let_def m_def)
  next
    case False
    then have m: "m > 0" "ptr \<le> length (pdb_data p)" "4 + 2 * (0 + m) \<le> ptr - pb" by (auto simp: m_def)
    have r: "rd_le16 (pdb_data p) (ptr - 4) = Some (rd_u16 (pdb_data p) (ptr - 4))" using m by simp
    note sl = iter_slots_safe [OF assms m(2,3) less.prems]
    have rest: "safely (iter_groups p cb pn pb (ptr - (4 + m * 2)) (remaining - m) s') P" if "P s'" for s'
      using less.IH [of "remaining - m"] m(1) False that by auto
    have "iter_groups p cb pn pb ptr remaining s =
        iter_slots p cb pn pb ptr (rd_u16 (pdb_data p) (ptr - 4)) 0 m s \<bind>
          (\<lambda>(s', go). if go then iter_groups p cb pn pb (ptr - (4 + m * 2)) (remaining - m) s' else Some s')"
      using False r by (subst iter_groups.simps) (simp add: Let_def m_def [symmetric])
    then show ?thesis by (simp only:) (rule safely_bind [OF sl], auto intro: rest)
  qed
qed

lemma page_reads:
  assumes "pdb_ok p" "pn < pdb_total_pages p"
  shows "safely (page_nrows p pn) (\<lambda>n. True)" "safely (page_next p pn) (\<lambda>n. True)"
  using page_bounds [OF assms] assms(1) by (auto simp: page_nrows_def page_next_def pdb_ok_def Let_def)

lemma walk_pages_safe:
  assumes "pdb_ok p" "cb_safe p P cb"
  shows "P s \<Longrightarrow> safely (walk_pages p cb left pn s) P"
proof (induction left arbitrary: pn s)
  case (Suc left)
  show ?case
  proof (cases "pn = 0xFFFFFFFF \<or> pn \<ge> pdb_total_pages p")
    case True
    then show ?thesis using Suc.prems by simp
  next
    case False
    then have pn: "pn < pdb_total_pages p" by (simp add: not_le)
    have rows: "safely (iter_page_rows p cb pn s) P"
      unfolding iter_page_rows_def
      by (rule safely_bind [OF page_reads(1) [OF assms(1) pn]]) (use iter_groups_safe [OF assms(1) pn assms(2)] Suc.prems in \<open>simp add: Let_def\<close>)
    have "safely (do { s' \<leftarrow> iter_page_rows p cb pn s; next \<leftarrow> page_next p pn; walk_pages p cb left next s' }) P"
      by (rule safely_bind [OF rows], rule safely_bind [OF page_reads(2) [OF assms(1) pn]], rule Suc.IH)
    then show ?thesis using False by simp
  qed
qed simp

lemma walk_table_safe: "pdb_ok p \<Longrightarrow> cb_safe p P cb \<Longrightarrow> P s \<Longrightarrow> safely (walk_table p ty cb s) P"
  by (auto simp: walk_table_def walk_pages_safe split: option.split)

section \<open>The rows are read inside the file\<close>

lemma row_start:
  assumes "pdb_ok p" "pn < pdb_total_pages p" "ho < 2 ^ 16" "k \<le> 2 ^ 17"
  shows "size_t (page_base_off p pn + 0x28 + ho) = page_base_off p pn + 0x28 + ho"
    "size_t (page_base_off p pn + 0x28 + ho + k) = page_base_off p pn + 0x28 + ho + k"
proof -
  have "page_base_off p pn + 0x28 + ho + k < 2 ^ 32" "page_base_off p pn + 0x28 + ho < 2 ^ 32"
    using page_bounds [OF assms(1,2)] assms by (simp_all add: pdb_ok_def)
  then show "size_t (page_base_off p pn + 0x28 + ho) = page_base_off p pn + 0x28 + ho"
    "size_t (page_base_off p pn + 0x28 + ho + k) = page_base_off p pn + 0x28 + ho + k" by (simp_all only: size_t_small)
qed

definition names_ok :: "nat \<Rightarrow> name_entry list \<Rightarrow> bool" where
  "names_ok limit arr \<longleftrightarrow> length arr \<le> limit \<and> list_all (\<lambda>e. length (ne_name e) < PDB_STR_NAME_MAX \<and> ne_id e \<noteq> 0) arr"

definition track_ok :: "pdb_track \<Rightarrow> bool" where
  "track_ok t \<longleftrightarrow> length (title t) < PDB_STR_MAX \<and> length (artist t) < PDB_STR_MAX \<and> length (album t) < PDB_STR_MAX \<and>
     length (track_key t) < 8 \<and> length (file_path t) < PDB_PATH_MAX \<and> length (anlz_path t) < PDB_PATH_MAX"

lemma name_cb_safe:
  assumes ok: "pdb_ok p" and off: "id_off + 4 \<le> min_size" "min_size \<le> 2 ^ 16" "str_off \<le> 2 ^ 16"
  shows "cb_safe p (names_ok limit) (name_cb p limit id_off str_off min_size)"
  unfolding cb_safe_def
proof (intro allI impI)
  fix pn ho arr
  assume pn: "pn < pdb_total_pages p" and ho: "ho < (2::nat) ^ 16" and arr: "names_ok limit arr"
  let ?row = "page_base_off p pn + 0x28 + ho"
  have sz: "size_t ?row = ?row" "size_t (?row + min_size) = ?row + min_size" "size_t (?row + id_off) = ?row + id_off"
    using row_start(1) [OF ok pn ho, of 0] row_start(2) [OF ok pn ho, of min_size] row_start(2) [OF ok pn ho, of id_off] off by simp_all
  show "safely (name_cb p limit id_off str_off min_size pn ho arr) (\<lambda>(arr', go). names_ok limit arr')"
  proof (cases "length arr \<ge> limit \<or> ?row + min_size > length (pdb_data p)")
    case True
    then show ?thesis using arr by (auto simp: name_cb_def Let_def sz)
  next
    case False
    have rd: "rd_le32 (pdb_data p) (?row + id_off) = Some (rd_u32 (pdb_data p) (?row + id_off))" using False off by simp
    have dec: "safely (decode_devicesql (pdb_data p) a 96) (\<lambda>(s, used). length s < 96)" for a
      using decode_safe [of "pdb_data p" 96] ok by (simp add: pdb_ok_def)
    have "safely (decode_devicesql (pdb_data p) a 96 \<bind> (\<lambda>(name, used).
        Some (if c_string name \<noteq> [] then arr @ [\<lparr>ne_id = i, ne_name = name\<rparr>] else arr, True))) (\<lambda>(arr', go). names_ok limit arr')"
      if "i \<noteq> 0" for a i
      by (rule safely_bind [OF dec]) (use False arr that in \<open>auto simp: names_ok_def\<close>)
    then show ?thesis using False rd arr by (auto simp: name_cb_def Let_def sz)
  qed
qed

lemma read_str_safe:
  assumes "pdb_ok p" "0 < dst_sz" "row + 200 < 2 ^ 32" "idx \<le> 20"
  shows "safely (read_str p row idx dst_sz) (\<lambda>s. length s < dst_sz)"
proof -
  have dec: "safely (map_option fst (decode_devicesql (pdb_data p) a dst_sz)) (\<lambda>s. length s < dst_sz)" for a
    using decode_safe [of "pdb_data p" dst_sz a] assms by (auto simp: pdb_ok_def safely_def split: option.splits)
  have sz: "size_t (row + 94 + idx * 2) = row + 94 + idx * 2" "size_t (row + 94 + idx * 2 + 2) = row + 94 + idx * 2 + 2"
    using assms(3,4) by simp_all
  show ?thesis
  proof (cases "row + 94 + idx * 2 + 2 \<le> length (pdb_data p)")
    case True
    then have "rd_le16 (pdb_data p) (row + 94 + idx * 2) = Some (rd_u16 (pdb_data p) (row + 94 + idx * 2))" by simp
    then show ?thesis unfolding read_str_def Let_def sz if_P [OF True] using dec assms(2) by simp
  next
    case False
    then show ?thesis unfolding read_str_def Let_def sz if_not_P [OF False] using assms(2) by simp
  qed
qed

lemma copy_str_length: "0 < n \<Longrightarrow> length (pdb_copy_str n s) < n"
  by (auto simp: pdb_copy_str_def)

lemma track_cb_safe:
  assumes ok: "pdb_ok p"
  shows "cb_safe p (\<lambda>(tracks, truncated). length tracks \<le> PDB_MAX_TRACKS \<and> list_all track_ok tracks) (track_cb p)"
  unfolding cb_safe_def
proof (intro allI impI)
  let ?P = "\<lambda>(tracks, truncated :: bool). length tracks \<le> PDB_MAX_TRACKS \<and> list_all track_ok tracks"
  fix pn ho and ctx :: "pdb_track list \<times> bool"
  assume pn: "pn < pdb_total_pages p" and ho: "ho < (2::nat) ^ 16" and ctx: "?P ctx"
  obtain tracks truncated where c: "ctx = (tracks, truncated)" by fastforce
  define row where "row = page_base_off p pn + 0x28 + ho"
  have sr: "size_t row = row" using row_start(1) [OF ok pn ho, of 0] by (simp add: row_def)
  have sz: "size_t (row + k) = row + k" if "k \<le> 2 ^ 17" for k using row_start(2) [OF ok pn ho that] by (simp add: row_def)
  have rowb: "row + 200 < 2 ^ 32" using page_bounds [OF ok pn] ok ho by (simp add: row_def pdb_ok_def)
  show "safely (track_cb p pn ho ctx) (\<lambda>(ctx', go). ?P ctx')"
  proof (cases "length tracks \<ge> 1024 \<or> row + 136 > length (pdb_data p)")
    case True
    then show ?thesis using ctx c by (auto simp: track_cb_def Let_def row_def [symmetric] sr sz)
  next
    case False
    have str: "safely (read_str p row idx d) (\<lambda>s. length s < d)" if "0 < d" "idx \<le> 20" for d idx
      by (rule read_str_safe [OF ok that(1) rowb that(2)])
    have name: "length (case found of None \<Rightarrow> [] | Some s \<Rightarrow> pdb_copy_str d s) < d" if "0 < d" for d found
      using that copy_str_length by (cases found) auto
    have rest: "safely (do { tagged \<leftarrow> read_str p row 18 128; filename \<leftarrow> read_str p row 19 128;
        path \<leftarrow> read_str p row 20 256; anlz \<leftarrow> read_str p row 14 256; f tagged filename path anlz }) Q"
      if "\<And>tagged filename path anlz. length path < 256 \<Longrightarrow> length anlz < 256 \<Longrightarrow> safely (f tagged filename path anlz) Q" for f Q
      by (intro safely_bind [OF str] that) simp_all
    show ?thesis
      unfolding track_cb_def c Let_def split row_def [symmetric] sr
      using False ctx c
      by (auto simp: sz intro!: rest name copy_str_length simp: track_ok_def)
  qed
qed

lemma read_tables_safe: "length data < 2 ^ 31 \<Longrightarrow> i + n \<le> 32 \<Longrightarrow> safely (read_tables data i n) (\<lambda>ts. length ts \<le> n)"
proof (induction n arbitrary: i)
  case (Suc n)
  have sz: "size_t (0x1C + i * 16) = 28 + i * 16" "size_t (28 + i * 16 + 16) = 28 + i * 16 + 16" using Suc.prems(2) by simp_all
  have ih: "safely (read_tables data (Suc i) n \<bind> (\<lambda>rest. Some (t # rest))) (\<lambda>ts. length ts \<le> Suc n)" for t
    by (rule safely_bind [OF Suc.IH]) (use Suc.prems in simp_all)
  show ?case
  proof (cases "28 + i * 16 + 16 \<le> length data")
    case True
    then have "rd_le32 data (28 + i * 16) = Some (rd_u32 data (28 + i * 16))"
      "rd_le32 data (28 + i * 16 + 8) = Some (rd_u32 data (28 + i * 16 + 8))" by simp_all
    then show ?thesis unfolding read_tables.simps Let_def sz using True ih by simp
  next
    case False
    then show ?thesis unfolding read_tables.simps Let_def sz by simp
  qed
qed simp

lemma name_table_safe:
  assumes "pdb_ok p" "id_off + 4 \<le> min_size" "min_size \<le> 2 ^ 16" "str_off \<le> 2 ^ 16"
  shows "safely (parse_name_table p ty allocated limit id_off str_off min_size) (names_ok limit)"
  using walk_table_safe [OF assms(1) name_cb_safe [OF assms], where s = "[]"]
  by (simp add: parse_name_table_def names_ok_def)

definition opened_ok :: "esp_err + pdb \<Rightarrow> bool" where
  "opened_ok r \<longleftrightarrow> (case r of Inl e \<Rightarrow> e \<noteq> ESP_OK
     | Inr p \<Rightarrow> length (pdb_tracks p) \<le> PDB_MAX_TRACKS \<and> list_all track_ok (pdb_tracks p))"

lemma build_safe:
  assumes ok: "pdb_ok p"
  shows "safely (build_index env p) opened_ok"
proof -
  have names: "safely (parse_name_table p ty al 512 4 10 14) (names_ok 512)" "safely (parse_name_table p ty al 512 0 8 9) (names_ok 512)" for ty al
    by (rule name_table_safe [OF ok]; simp)+
  have ok1: "pdb_ok (p\<lparr>pdb_artists := a, pdb_albums := b, pdb_keys := k\<rparr>)" for a b k using ok by (simp add: pdb_ok_def)
  have tracks: "safely (walk_table p1 ty (track_cb p1) ([], False) \<bind> (\<lambda>(tracks, truncated). Some (Inr (f tracks)))) opened_ok"
    if "pdb_ok p1" "\<And>tracks. pdb_tracks (f tracks) = tracks" for p1 ty f
    by (rule safely_bind [OF walk_table_safe [OF that(1) track_cb_safe [OF that(1)]]]) (auto simp: opened_ok_def that(2))
  show ?thesis
    unfolding build_index_def Let_def
    by (rule safely_bind [OF names(1)], rule safely_bind [OF names(1)], rule safely_bind [OF names(2)])
      (auto simp: opened_ok_def intro!: tracks ok1)
qed

lemma open_safe:
  assumes "\<forall>contents. stick = Some contents \<longrightarrow> length contents < 2 ^ 31"
  shows "safely (pdb_open env stick) opened_ok"
proof (cases stick)
  case (Some contents)
  let ?data = "pe_read env contents"
  show ?thesis
  proof (cases "length contents < 28 \<or> \<not> pe_alloc env 0 \<or> \<not> pe_alloc env 1 \<or> length ?data \<noteq> length contents")
    case True
    then show ?thesis using Some by (auto simp: pdb_open_def opened_ok_def Let_def)
  next
    case False
    then have len: "28 \<le> length ?data" "length ?data < 2 ^ 31" using assms Some by auto
    then have rd: "rd_le32 ?data 4 = Some (rd_u32 ?data 4)" "rd_le32 ?data 8 = Some (rd_u32 ?data 8)" by simp_all
    let ?ps = "rd_u32 ?data 4" and ?n = "if rd_u32 ?data 8 > 32 then 32 else unat (rd_u32 ?data 8)"
    have n: "0 + ?n \<le> 32" by (simp add: word_less_nat_alt)
    have "pdb_ok \<lparr>pdb_data = ?data, pdb_page_size = ?ps, pdb_tables = tables, pdb_total_pages = of_nat (length ?data div unat ?ps),
        pdb_tracks = [], pdb_artists = [], pdb_albums = [], pdb_keys = []\<rparr>" if "?ps \<noteq> 0" "\<not> ?ps > 65536" for tables
      using that len(2) by (simp add: pdb_ok_def word_neq_0_conv not_less)
    from safely_bind [OF read_tables_safe [OF len(2) n] build_safe [OF this]]
    have index: "?ps \<noteq> 0 \<Longrightarrow> \<not> ?ps > 65536 \<Longrightarrow> safely (read_tables ?data 0 ?n \<bind> (\<lambda>tables. build_index env
        \<lparr>pdb_data = ?data, pdb_page_size = ?ps, pdb_tables = tables, pdb_total_pages = of_nat (length ?data div unat ?ps),
        pdb_tracks = [], pdb_artists = [], pdb_albums = [], pdb_keys = []\<rparr>)) opened_ok" .
    show ?thesis
      unfolding pdb_open_def Some option.case Let_def rd bind.bind_lunit using False index by (simp add: opened_ok_def)
  qed
qed (simp add: pdb_open_def opened_ok_def)

text \<open>A database of two pages with one track of number 5 and title \<open>Hi\<close>.\<close>

definition tiny_pdb :: "u8 list" where
  "tiny_pdb = (replicate 512 0) [5 := 1, 8 := 1, 36 := 1, 280 := 1, 508 := 1, 296 := 0x24, 368 := 5, 426 := 136, 432 := 7, 433 := 72, 434 := 105]"

lemma tiny_length [simp]: "length tiny_pdb = 512"
  by (simp add: tiny_pdb_def)

lemma tiny_nth: "k < 512 \<Longrightarrow> tiny_pdb ! k = (if k = 434 then 105 else if k = 433 then 72 else if k = 432 then 7 else if k = 426 then 136
    else if k = 368 then 5 else if k = 296 then 0x24 else if k = 508 then 1 else if k = 280 then 1 else if k = 36 then 1
    else if k = 8 then 1 else if k = 5 then 1 else 0)"
  by (simp add: tiny_pdb_def nth_list_update)

lemma tiny_tables: "read_tables tiny_pdb 0 (Suc 0) = Some [\<lparr>tbl_type = 0, tbl_first_page = 1\<rparr>]"
  by (simp add: rd_u32_def tiny_nth)

lemma tiny_title: "take 2 (drop 433 tiny_pdb) = [72, 105]"
  by (rule nth_equalityI) (auto simp: tiny_nth less_2_cases_iff)

lemma walk_pages_numeral:
  "walk_pages p cb (numeral k) pn s =
     (if pn = 0xFFFFFFFF \<or> pn \<ge> pdb_total_pages p then Some s
      else do { s' \<leftarrow> iter_page_rows p cb pn s; next \<leftarrow> page_next p pn; walk_pages p cb (pred_numeral k) next s' })"
  by (simp add: numeral_eq_Suc)

lemma tiny_slot: "size_t 4294967802 = 506" "\<not> (2 :: u32) \<le> 1"
  by (simp_all add: size_t_def word_le_nat_alt)

lemma tiny_opens:
  "(case pdb_open \<lparr>pe_alloc = (\<lambda>n. True), pe_read = (\<lambda>bytes. bytes)\<rparr> (Some tiny_pdb) of
      Some (Inr p) \<Rightarrow> map (\<lambda>t. (track_id t, title t)) (pdb_tracks p) | _ \<Rightarrow> []) = [(5, [72, 105])]"
  apply (simp add: pdb_open_def tiny_nth rd_u32_def tiny_tables)
  apply (simp add: build_index_def parse_name_table_def walk_table_def walk_pages_numeral page_next_def page_base_off_def Let_def)
  apply (simp add: iter_page_rows_def page_nrows_def page_base_off_def rd_u32_def tiny_nth)
  apply (simp add: iter_groups.simps tiny_slot Let_def rd_u16_def tiny_nth)
  apply (simp add: track_cb_def Let_def page_base_off_def rd_u16_def rd_u32_def tiny_nth)
  apply (simp add: read_str_def rd_u16_def tiny_nth)
  apply (simp add: decode_devicesql_def rd_u16_def tiny_nth)
  apply (simp add: c_string_def strip_nuls_def pdb_copy_str_def lookup_name_def iter_groups.simps page_next_def page_base_off_def tiny_nth tiny_title)
  done

text \<open>
  Claim C38.  Opening a database never reads outside the file, whatever its bytes are: every page, row and string offset in it
  is checked before use.  It ends with an error, or with at most 1024 tracks whose strings fit their buffers.
\<close>

theorem pdb_open_stays_in_file:
  assumes "length contents < 2 ^ 31"
  shows "\<exists>r. pdb_open env (Some contents) = Some r \<and>
    (case r of Inl e \<Rightarrow> e \<noteq> ESP_OK
     | Inr p \<Rightarrow> length (pdb_tracks p) \<le> PDB_MAX_TRACKS \<and> list_all track_ok (pdb_tracks p) \<and>
         pdb_track_count (Some p) \<le> 1024 \<and> (\<forall>index. case pdb_get_track (Some p) index of Inl e \<Rightarrow> e = ESP_ERR_INVALID_ARG | Inr t \<Rightarrow> track_ok t))"
proof -
  obtain r where r: "pdb_open env (Some contents) = Some r" "opened_ok r"
    using open_safe [of "Some contents" env] assms by (auto simp: safely_def split: option.splits)
  then show ?thesis
    by (auto simp: opened_ok_def pdb_track_count_def pdb_get_track_def list_all_length split: sum.splits)
qed

theorem pdb_open_stays_in_file_witness:
  "\<exists>r. pdb_open \<lparr>pe_alloc = (\<lambda>n. True), pe_read = (\<lambda>bytes. bytes)\<rparr> (Some tiny_pdb) = Some r \<and>
    (case r of Inl e \<Rightarrow> False
     | Inr p \<Rightarrow> list_all track_ok (pdb_tracks p) \<and> map (\<lambda>t. (track_id t, title t)) (pdb_tracks p) = [(5, [72, 105])])"
proof -
  let ?env = "\<lparr>pe_alloc = (\<lambda>n. True), pe_read = (\<lambda>bytes. bytes)\<rparr>"
  obtain r where r: "pdb_open ?env (Some tiny_pdb) = Some r" "case r of Inl e \<Rightarrow> True | Inr p \<Rightarrow> list_all track_ok (pdb_tracks p)"
    using pdb_open_stays_in_file [of tiny_pdb ?env] by (fastforce split: sum.splits)
  then show ?thesis using tiny_opens by (cases r) auto
qed

end
