(* ===== verification/Rekordbox_Anlz.thy ===== *)
theory Rekordbox_Anlz
  imports Media_Text Wav_File
begin

text \<open>
  The reader of the analysis files of a track (\<open>rekordbox_anlz.c\<close>): path, beat grid, cues, seek table and waveforms.  A file is
  its bytes with a read position; reading stops at its end, which sets the latch of a short read.  Allocations may fail as the
  environment says.  Logging is left out.
\<close>

section \<open>Records\<close>

abbreviation (input) ANLZ_TAG_PMAI :: u32 where "ANLZ_TAG_PMAI \<equiv> 0x504D4149"
abbreviation (input) ANLZ_TAG_PPTH :: u32 where "ANLZ_TAG_PPTH \<equiv> 0x50505448"
abbreviation (input) ANLZ_TAG_PVBR :: u32 where "ANLZ_TAG_PVBR \<equiv> 0x50564252"
abbreviation (input) ANLZ_TAG_PQTZ :: u32 where "ANLZ_TAG_PQTZ \<equiv> 0x5051545A"
abbreviation (input) ANLZ_TAG_PWAV :: u32 where "ANLZ_TAG_PWAV \<equiv> 0x50574156"
abbreviation (input) ANLZ_TAG_PCOB :: u32 where "ANLZ_TAG_PCOB \<equiv> 0x50434F42"
abbreviation (input) ANLZ_TAG_PWV3 :: u32 where "ANLZ_TAG_PWV3 \<equiv> 0x50575633"
abbreviation (input) ANLZ_WAVEFORM_LOW_LEN :: nat where "ANLZ_WAVEFORM_LOW_LEN \<equiv> 400"
abbreviation (input) ANLZ_VBR_TABLE_LEN :: nat where "ANLZ_VBR_TABLE_LEN \<equiv> 400"
abbreviation (input) ANLZ_MAX_CUES :: nat where "ANLZ_MAX_CUES \<equiv> 8"
abbreviation (input) ANLZ_WAVEFORM_HIGH_MAX :: nat where "ANLZ_WAVEFORM_HIGH_MAX \<equiv> 131072"
abbreviation (input) ANLZ_PATH_MAX :: nat where "ANLZ_PATH_MAX \<equiv> 512"
abbreviation (input) ANLZ_MAX_BEATS :: nat where "ANLZ_MAX_BEATS \<equiv> 0xFFFF"

record anlz_beat =
  beat_phase :: u16
  bpm_x100 :: u16
  time_ms :: u32

datatype anlz_cue_type = ANLZ_CUE_SINGLE | ANLZ_CUE_LOOP

record anlz_cue =
  cue_type :: anlz_cue_type
  cue_index :: u8
  start_ms :: u32
  end_ms :: u32

text \<open>The heap arrays are options: \<open>None\<close> is NULL.  The cues beyond \<open>cue_count\<close> are not in the list.\<close>

record anlz_metadata =
  audio_path :: "u8 list"
  beats :: "anlz_beat list option"
  beat_count :: u16
  anlz_bpm :: u16
  cues :: "anlz_cue list"
  vbr :: "u32 list"
  has_vbr :: bool
  waveform_low :: "u8 list"
  has_waveform_low :: bool
  waveform_high :: "u8 list option"
  waveform_high_len :: u32

definition anlz_zero :: anlz_metadata where
  "anlz_zero = \<lparr>audio_path = [], beats = None, beat_count = 0, anlz_bpm = 0, cues = [], vbr = replicate 400 0, has_vbr = False,
     waveform_low = replicate 400 0, has_waveform_low = False, waveform_high = None, waveform_high_len = 0\<rparr>"

text \<open>Which allocations succeed: the beat grid, the waveform, and those of \<open>anlz_clone\<close>.\<close>

record anlz_env =
  ae_beats :: bool
  ae_high :: bool
  ae_clone_beats :: bool
  ae_clone_high :: bool

section \<open>Reading\<close>

record anlz_in =
  a_fp :: in_file
  short_read :: bool

definition anlz_read_exact :: "nat \<Rightarrow> anlz_in \<Rightarrow> anlz_in \<times> u8 list \<times> bool" where
  "anlz_read_exact n s = (let (fp, got) = fread n (a_fp s); ok = (length got = n)
     in (s\<lparr>a_fp := fp, short_read := (short_read s \<or> \<not> ok)\<rparr>, got, ok))"

definition anlz_read_u8 :: "anlz_in \<Rightarrow> anlz_in \<times> u8 option" where
  "anlz_read_u8 s = (let (s1, got, ok) = anlz_read_exact 1 s in (s1, if ok then Some (hd got) else None))"

definition be16 :: "u8 list \<Rightarrow> u16" where
  "be16 b = push_bit 8 (ucast (b ! 0)) OR ucast (b ! 1)"

definition be32 :: "u8 list \<Rightarrow> u32" where
  "be32 b = push_bit 24 (ucast (b ! 0)) OR push_bit 16 (ucast (b ! 1)) OR push_bit 8 (ucast (b ! 2)) OR ucast (b ! 3)"

definition read_be16 :: "anlz_in \<Rightarrow> anlz_in \<times> u16" where
  "read_be16 s = (let (s1, b, ok) = anlz_read_exact 2 s in (s1, if ok then be16 b else 0))"

definition read_be32 :: "anlz_in \<Rightarrow> anlz_in \<times> u32" where
  "read_be32 s = (let (s1, b, ok) = anlz_read_exact 4 s in (s1, if ok then be32 b else 0))"

text \<open>\<open>fseek\<close> with SEEK_SET and SEEK_CUR; the offset is a signed \<open>long\<close>.\<close>

definition seek_set :: "u32 \<Rightarrow> anlz_in \<Rightarrow> anlz_in \<times> bool" where
  "seek_set off s = (let (fp, ok) = seek_file off (a_fp s) in (s\<lparr>a_fp := fp\<rparr>, ok))"

definition seek_cur :: "u32 \<Rightarrow> anlz_in \<Rightarrow> anlz_in \<times> bool" where
  "seek_cur off s =
     (let pos = int (f_pos (a_fp s)) + sint off
      in if pos < 0 \<or> pos \<ge> 2 ^ 31 then (s, False) else (s\<lparr>a_fp := (a_fp s)\<lparr>f_pos := nat pos\<rparr>\<rparr>, True))"

section \<open>The sections of a file\<close>

datatype tag_walk_result = TAG_WALK_FOUND | TAG_WALK_ABSENT | TAG_WALK_MALFORMED

lemma walk_decreases:
  assumes "\<not> advance < (12 :: u32)" "\<not> advance > file_len - pos"
  shows "unat (file_len - (pos + advance)) < unat (file_len - pos)"
proof -
  have eq: "file_len - (pos + advance) = (file_len - pos) - advance" by simp
  have a: "unat advance \<le> unat (file_len - pos)" "12 \<le> unat advance" using assms by (auto simp: word_le_nat_alt word_less_nat_alt)
  have u: "unat ((file_len - pos) - advance) = unat (file_len - pos) - unat advance"
    by (rule unat_sub) (use a(1) in \<open>simp add: word_le_nat_alt\<close>)
  show ?thesis unfolding eq u using a by linarith
qed

function walk_from :: "u32 \<Rightarrow> u32 \<Rightarrow> u32 \<Rightarrow> anlz_in \<Rightarrow> anlz_in \<times> tag_walk_result" where
  "walk_from target file_len pos s =
     (if \<not> pos + 12 \<le> file_len then (s, if pos = file_len then TAG_WALK_ABSENT else TAG_WALK_MALFORMED)
      else let (s1, sought) = seek_set pos s
      in if \<not> sought then (s1, TAG_WALK_MALFORMED)
         else let (s2, tag) = read_be32 s1; (s3, header_size) = read_be32 s2; (s4, segment_size) = read_be32 s3;
                  advance = (if tag = ANLZ_TAG_PMAI then header_size else segment_size)
         in if short_read s4 then (s4, TAG_WALK_MALFORMED)
            else if header_size < 12 \<or> (tag \<noteq> ANLZ_TAG_PMAI \<and> segment_size < header_size) \<or> advance < 12 \<or> advance > file_len - pos
            then (s4, TAG_WALK_MALFORMED)
            else if tag = target
            then (let (s5, sought5) = seek_set (pos + 4) s4 in (s5, if sought5 then TAG_WALK_FOUND else TAG_WALK_MALFORMED))
            else walk_from target file_len (pos + advance) s4)"
  by pat_completeness auto

termination
  by (relation "measure (\<lambda>(target, file_len, pos, s). unat (file_len - pos))") (auto simp: walk_decreases)

declare walk_from.simps [simp del]

definition walk_sections_for_tag :: "u32 \<Rightarrow> anlz_in \<Rightarrow> anlz_in \<times> tag_walk_result" where
  "walk_sections_for_tag target s =
     (let fsz = length (f_data (a_fp s))
      in if fsz < 12 \<or> fsz \<ge> 2 ^ 31 then (s, TAG_WALK_MALFORMED) else walk_from target (of_nat fsz) 0 s)"

section \<open>The tags\<close>

text \<open>What all parsers begin with: the two sizes, their check, and the seek over the rest of the header.\<close>

definition parse_sizes :: "anlz_in \<Rightarrow> anlz_in \<times> (esp_err + u32)" where
  "parse_sizes s =
     (let (s1, header_size) = read_be32 s; (s2, segment_size) = read_be32 s1
      in if segment_size < header_size \<or> header_size < 12 then (s2, Inl ESP_ERR_INVALID_SIZE)
         else let (s3, sought) = seek_cur (header_size - 12) s2
         in if \<not> sought then (s3, Inl ESP_ERR_INVALID_ARG) else (s3, Inr (segment_size - header_size)))"

text \<open>The path: \<open>left\<close> bytes of it remain.\<close>

fun ppth_loop :: "nat \<Rightarrow> u8 list \<Rightarrow> anlz_in \<Rightarrow> anlz_in \<times> u8 list" where
  "ppth_loop left out s =
     (if left < 2 then (s, out)
      else let (s1, hi) = anlz_read_u8 s; (s2, lo) = anlz_read_u8 s1
      in case (hi, lo) of
           (Some h, Some l) \<Rightarrow>
             let wc = be16 [h, l]
             in if wc = 0 then (s2, out)
                else if high_surrogate wc \<and> left \<ge> 4
                then let (s3, hi2) = anlz_read_u8 s2; (s4, lo2) = anlz_read_u8 s3
                     in (case (hi2, lo2) of
                           (Some h2, Some l2) \<Rightarrow>
                             let wc2 = be16 [h2, l2]
                             in if low_surrogate wc2
                                then (case utf8_append_codepoint ANLZ_PATH_MAX out (slash (surrogate_pair wc wc2)) of
                                        None \<Rightarrow> (s4, out) | Some out' \<Rightarrow> ppth_loop (left - 4) out' s4)
                                else (case utf8_append_codepoint ANLZ_PATH_MAX out (slash (ucast wc)) of
                                        None \<Rightarrow> (s4, out) | Some out' \<Rightarrow> ppth_loop (left - 2) out' s4)
                         | _ \<Rightarrow> (s4, out))
                else (case utf8_append_codepoint ANLZ_PATH_MAX out (slash (ucast wc)) of
                        None \<Rightarrow> (s2, out) | Some out' \<Rightarrow> ppth_loop (left - 2) out' s2)
         | _ \<Rightarrow> (s2, out))"

declare ppth_loop.simps [simp del]

definition parse_ppth :: "anlz_metadata \<Rightarrow> anlz_in \<Rightarrow> anlz_in \<times> anlz_metadata \<times> esp_err" where
  "parse_ppth out s =
     (case parse_sizes s of
        (s1, Inl rc) \<Rightarrow> (s1, out, rc)
      | (s1, Inr data_len) \<Rightarrow>
          if data_len = 0 \<or> data_len > 1024 then (s1, out, ESP_ERR_INVALID_SIZE)
          else let (s2, path) = ppth_loop (unat data_len) [] s1 in (s2, out\<lparr>audio_path := path\<rparr>, ESP_OK))"

fun read_vbr :: "nat \<Rightarrow> nat \<Rightarrow> u32 list \<Rightarrow> anlz_in \<Rightarrow> anlz_in \<times> u32 list" where
  "read_vbr i 0 table s = (s, table)"
| "read_vbr i (Suc n) table s = (let (s1, v) = read_be32 s in read_vbr (Suc i) n (table[i := v]) s1)"

definition parse_pvbr :: "anlz_metadata \<Rightarrow> anlz_in \<Rightarrow> anlz_in \<times> anlz_metadata \<times> esp_err" where
  "parse_pvbr out s =
     (case parse_sizes s of
        (s1, Inl rc) \<Rightarrow> (s1, out, rc)
      | (s1, Inr data_len) \<Rightarrow>
          let entries = min (unat (data_len div 4)) ANLZ_VBR_TABLE_LEN; (s2, table) = read_vbr 0 entries (vbr out) s1
          in (s2, out\<lparr>vbr := table, has_vbr := entries > 0\<rparr>, ESP_OK))"

fun read_beats :: "nat \<Rightarrow> anlz_in \<Rightarrow> anlz_in \<times> anlz_beat list" where
  "read_beats 0 s = (s, [])"
| "read_beats (Suc n) s =
     (let (s1, phase) = read_be16 s; (s2, tempo) = read_be16 s1; (s3, t) = read_be32 s2; (s4, rest) = read_beats n s3
      in (s4, \<lparr>beat_phase = phase, bpm_x100 = tempo, time_ms = t\<rparr> # rest))"

definition parse_pqtz :: "anlz_env \<Rightarrow> anlz_metadata \<Rightarrow> anlz_in \<Rightarrow> anlz_in \<times> anlz_metadata \<times> esp_err" where
  "parse_pqtz env out s =
     (case parse_sizes s of
        (s1, Inl rc) \<Rightarrow> (s1, out, rc)
      | (s1, Inr data_len) \<Rightarrow>
          let count = unat (data_len div 8); stored_count = (if count > ANLZ_MAX_BEATS then ANLZ_MAX_BEATS else count)
          in if count = 0 then (s1, out, ESP_OK)
             else if \<not> ae_beats env then (s1, out\<lparr>beats := None\<rparr>, ESP_ERR_NO_MEM)
             else let (s2, bs) = read_beats stored_count s1; out1 = out\<lparr>beats := Some bs, beat_count := of_nat stored_count\<rparr>;
                      (s3, sought) = (if count > stored_count then seek_cur (of_nat (count - stored_count) * 8) s2 else (s2, True))
             in if \<not> sought then (s3, out1, ESP_ERR_INVALID_ARG)
                else (s3, (if bpm_x100 (hd bs) > 0 then out1\<lparr>anlz_bpm := ucast ((ucast (bpm_x100 (hd bs)) + 50 :: u32) div 100)\<rparr> else out1),
                      ESP_OK))"

definition parse_pwav :: "anlz_metadata \<Rightarrow> anlz_in \<Rightarrow> anlz_in \<times> anlz_metadata \<times> esp_err" where
  "parse_pwav out s =
     (case parse_sizes s of
        (s1, Inl rc) \<Rightarrow> (s1, out, rc)
      | (s1, Inr data_len) \<Rightarrow>
          let bytes = min (unat data_len) ANLZ_WAVEFORM_LOW_LEN; (s2, got, ok) = anlz_read_exact bytes s1
          in (s2, out\<lparr>waveform_low := mem_copy 0 got (waveform_low out), has_waveform_low := ok\<rparr>, if ok then ESP_OK else ESP_FAIL))"

definition pcpt_cue :: "u8 list \<Rightarrow> anlz_cue" where
  "pcpt_cue buf =
     (let ty = (if buf ! 0 = 2 then ANLZ_CUE_LOOP else ANLZ_CUE_SINGLE)
      in \<lparr>cue_type = ty, cue_index = buf ! 1, start_ms = be32 (drop 4 buf),
          end_ms = (if ty = ANLZ_CUE_LOOP then be32 (drop 8 buf) else 0)\<rparr>)"

fun read_cues :: "nat \<Rightarrow> anlz_cue list \<Rightarrow> anlz_in \<Rightarrow> anlz_in \<times> anlz_cue list" where
  "read_cues 0 cs s = (s, cs)"
| "read_cues (Suc n) cs s =
     (let (s1, buf, ok) = anlz_read_exact 56 s
      in if \<not> ok then (s1, cs)
         else if unat (buf ! 1) \<ge> ANLZ_MAX_CUES then read_cues n cs s1
         else let cs' = cs @ [pcpt_cue buf] in if length cs' \<ge> ANLZ_MAX_CUES then (s1, cs') else read_cues n cs' s1)"

definition parse_pcob :: "anlz_metadata \<Rightarrow> anlz_in \<Rightarrow> anlz_in \<times> anlz_metadata \<times> esp_err" where
  "parse_pcob out s =
     (case parse_sizes s of
        (s1, Inl rc) \<Rightarrow> (s1, out, rc)
      | (s1, Inr data_len) \<Rightarrow> let (s2, cs) = read_cues (unat (data_len div 56)) [] s1 in (s2, out\<lparr>cues := cs\<rparr>, ESP_OK))"

definition parse_pwv3 :: "anlz_env \<Rightarrow> anlz_metadata \<Rightarrow> anlz_in \<Rightarrow> anlz_in \<times> anlz_metadata \<times> esp_err" where
  "parse_pwv3 env meta s =
     (case parse_sizes s of
        (s1, Inl rc) \<Rightarrow> (s1, meta, rc)
      | (s1, Inr data_len) \<Rightarrow>
          let n = min (unat data_len) ANLZ_WAVEFORM_HIGH_MAX;
              meta1 = (if waveform_high meta = None then meta else meta\<lparr>waveform_high := None, waveform_high_len := 0\<rparr>)
          in if data_len = 0 then (s1, meta, ESP_OK)
             else if \<not> ae_high env then (s1, meta1, ESP_ERR_NO_MEM)
             else let (s2, got, complete) = anlz_read_exact n s1
             in (s2, meta1\<lparr>waveform_high := Some got, waveform_high_len := (if complete then of_nat n else 0)\<rparr>,
                 if complete then ESP_OK else ESP_FAIL))"

section \<open>Transactions\<close>

definition tag_parser :: "anlz_env \<Rightarrow> u32 \<Rightarrow> anlz_metadata \<Rightarrow> anlz_in \<Rightarrow> anlz_in \<times> anlz_metadata \<times> esp_err" where
  "tag_parser env tag meta s =
     (if tag = ANLZ_TAG_PPTH then parse_ppth meta s
      else if tag = ANLZ_TAG_PVBR then parse_pvbr meta s
      else if tag = ANLZ_TAG_PQTZ then parse_pqtz env meta s
      else if tag = ANLZ_TAG_PWAV then parse_pwav meta s
      else if tag = ANLZ_TAG_PCOB then parse_pcob meta s
      else if tag = ANLZ_TAG_PWV3 then parse_pwv3 env meta s
      else (s, meta, ESP_ERR_INVALID_ARG))"

text \<open>The third component tells whether the tag was found.\<close>

definition parse_one_strict :: "anlz_env \<Rightarrow> u32 \<Rightarrow> anlz_metadata \<Rightarrow> anlz_in \<Rightarrow> anlz_in \<times> anlz_metadata \<times> bool \<times> esp_err" where
  "parse_one_strict env tag meta s =
     (let (s1, walk) = walk_sections_for_tag tag (s\<lparr>short_read := False\<rparr>)
      in if short_read s1 \<or> walk = TAG_WALK_MALFORMED then (s1, meta, False, ESP_ERR_INVALID_SIZE)
         else if walk = TAG_WALK_ABSENT then (s1, meta, False, ESP_OK)
         else let (s2, meta', rc) = tag_parser env tag meta s1
         in (s2, meta', True, if short_read s2 \<and> rc = ESP_OK then ESP_ERR_INVALID_SIZE else rc))"

fun parse_tags :: "anlz_env \<Rightarrow> u32 list \<Rightarrow> anlz_metadata \<Rightarrow> bool \<Rightarrow> anlz_in \<Rightarrow> anlz_metadata \<times> bool \<times> esp_err" where
  "parse_tags env [] next has_path s = (next, has_path, ESP_OK)"
| "parse_tags env (tag # tags) next has_path s =
     (let (s1, next1, found, rc) = parse_one_strict env tag next s
      in if rc \<noteq> ESP_OK then (next1, has_path, rc)
         else parse_tags env tags next1 (if tag = ANLZ_TAG_PPTH then found \<and> audio_path next1 \<noteq> [] else has_path) s1)"

definition open_in :: "u8 list \<Rightarrow> anlz_in" where
  "open_in bytes = \<lparr>a_fp = \<lparr>f_data = bytes, f_pos = 0\<rparr>, short_read = False\<rparr>"

text \<open>The new contents of \<open>*out\<close> and the result; a file that cannot be opened leaves \<open>*out\<close> alone.\<close>

definition anlz_parse_dat :: "anlz_env \<Rightarrow> u8 list option \<Rightarrow> anlz_metadata \<Rightarrow> anlz_metadata \<times> esp_err" where
  "anlz_parse_dat env dat out =
     (case dat of None \<Rightarrow> (out, ESP_ERR_NOT_FOUND)
      | Some bytes \<Rightarrow>
          let (next, has_path, rc) = parse_tags env [ANLZ_TAG_PPTH, ANLZ_TAG_PVBR, ANLZ_TAG_PQTZ, ANLZ_TAG_PWAV, ANLZ_TAG_PCOB]
                anlz_zero False (open_in bytes);
              result = (if rc = ESP_OK \<and> \<not> has_path then ESP_ERR_NOT_FOUND else rc)
          in if result \<noteq> ESP_OK then (anlz_zero, result) else (next, ESP_OK))"

definition anlz_clone :: "anlz_env \<Rightarrow> anlz_metadata \<Rightarrow> anlz_metadata \<times> esp_err" where
  "anlz_clone env src =
     (let out = src\<lparr>beats := None, waveform_high := None\<rparr>
      in if beat_count src > 0 \<and> beats src = None then (anlz_zero, ESP_ERR_INVALID_ARG)
         else if beat_count src > 0 \<and> \<not> ae_clone_beats env then (anlz_zero, ESP_ERR_NO_MEM)
         else let out1 = (if beat_count src > 0 then out\<lparr>beats := map_option (take (unat (beat_count src))) (beats src)\<rparr> else out)
         in if waveform_high_len src > 0 \<and> waveform_high src = None then (anlz_zero, ESP_ERR_INVALID_ARG)
            else if waveform_high_len src > 0 \<and> \<not> ae_clone_high env then (anlz_zero, ESP_ERR_NO_MEM)
            else (if waveform_high_len src > 0
                  then out1\<lparr>waveform_high := map_option (take (unat (waveform_high_len src))) (waveform_high src)\<rparr> else out1, ESP_OK))"

definition anlz_parse_ext :: "anlz_env \<Rightarrow> u8 list option \<Rightarrow> anlz_metadata \<Rightarrow> anlz_metadata \<times> esp_err" where
  "anlz_parse_ext env ext meta =
     (case ext of None \<Rightarrow> (meta, ESP_ERR_NOT_FOUND)
      | Some bytes \<Rightarrow>
          let (next, rc) = anlz_clone env meta
          in if rc \<noteq> ESP_OK then (meta, rc)
             else let (s, next1, found, rc1) = parse_one_strict env ANLZ_TAG_PWV3 next (open_in bytes);
                      result = (if rc1 = ESP_OK \<and> \<not> found then ESP_ERR_NOT_FOUND else rc1)
             in if result \<noteq> ESP_OK then (meta, result) else (next1, ESP_OK))"

definition anlz_free :: "anlz_metadata \<Rightarrow> anlz_metadata" where
  "anlz_free meta =
     (let m1 = (if beats meta = None then meta else meta\<lparr>beats := None, beat_count := 0\<rparr>)
      in if waveform_high m1 = None then m1 else m1\<lparr>waveform_high := None, waveform_high_len := 0\<rparr>)"

section \<open>Published metadata are consistent\<close>

definition path_ok :: "u8 list \<Rightarrow> bool" where
  "path_ok out \<longleftrightarrow> length out < ANLZ_PATH_MAX \<and> 0 \<notin> set out"

definition cue_ok :: "anlz_cue \<Rightarrow> bool" where
  "cue_ok c \<longleftrightarrow> unat (cue_index c) < ANLZ_MAX_CUES \<and> (if cue_type c = ANLZ_CUE_SINGLE then end_ms c = 0 else True)"

definition anlz_ok :: "anlz_metadata \<Rightarrow> bool" where
  "anlz_ok m \<longleftrightarrow>
     path_ok (audio_path m) \<and>
     (if beat_count m = 0 then beats m = None else map_option length (beats m) = Some (unat (beat_count m))) \<and>
     length (cues m) \<le> ANLZ_MAX_CUES \<and>
     list_all cue_ok (cues m) \<and>
     length (vbr m) = ANLZ_VBR_TABLE_LEN \<and> length (waveform_low m) = ANLZ_WAVEFORM_LOW_LEN \<and>
     (if waveform_high_len m = 0 then waveform_high m = None
      else map_option length (waveform_high m) = Some (unat (waveform_high_len m)) \<and> unat (waveform_high_len m) \<le> ANLZ_WAVEFORM_HIGH_MAX)"

lemma utf8_no_nul: "cp \<noteq> 0 \<Longrightarrow> 0 \<notin> set (utf8 cp)"
proof -
  assume c: "cp \<noteq> 0"
  have "(ucast (0x80 OR x) :: u8) \<noteq> 0" "(ucast (0xC0 OR x) :: u8) \<noteq> 0" "(ucast (0xE0 OR x) :: u8) \<noteq> 0" "(ucast (0xF0 OR x) :: u8) \<noteq> 0" for x :: u32
  proof -
    have "bit (ucast (0x80 OR x) :: u8) 7" "bit (ucast (0xC0 OR x) :: u8) 7" "bit (ucast (0xE0 OR x) :: u8) 7" "bit (ucast (0xF0 OR x) :: u8) 7"
      by (simp_all add: bit_simps)
    then show "(ucast (0x80 OR x) :: u8) \<noteq> 0" "(ucast (0xC0 OR x) :: u8) \<noteq> 0" "(ucast (0xE0 OR x) :: u8) \<noteq> 0" "(ucast (0xF0 OR x) :: u8) \<noteq> 0"
      by auto
  qed
  note or = this
  have "(ucast cp :: u8) \<noteq> 0" if "cp \<le> 0x7F"
  proof -
    have "unat (ucast cp :: u8) = unat cp" using that by (simp add: unsigned_ucast_eq word_le_nat_alt take_bit_nat_eq_self)
    then show ?thesis using c by (metis unat_eq_zero)
  qed
  then show ?thesis using or [of "drop_bit 6 cp"] or [of "cp AND 0x3F"] or [of "drop_bit 12 cp"] or [of "drop_bit 6 cp AND 0x3F"]
      or [of "drop_bit 18 cp"] or [of "drop_bit 12 cp AND 0x3F"]
    by (auto simp: utf8_def)
qed

lemma append_no_nul: "utf8_append_codepoint n out cp = Some out' \<Longrightarrow> 0 \<notin> set out \<Longrightarrow> 0 \<notin> set out'"
  using utf8_no_nul [of cp] by (auto simp: append_utf8 split: if_splits)

lemma append_path_ok: "utf8_append_codepoint 512 out cp = Some out' \<Longrightarrow> path_ok out \<Longrightarrow> path_ok out'"
  using append_bound append_no_nul by (auto simp: path_ok_def)

lemma ppth_ok: "path_ok out \<Longrightarrow> path_ok (snd (ppth_loop left out s))"
proof (induction left arbitrary: out s rule: less_induct)
  case (less left)
  have ih: "utf8_append_codepoint 512 out cp = Some out' \<Longrightarrow> \<not> left < 2 \<Longrightarrow> path_ok (snd (ppth_loop (left - 2) out' s'))"
    "utf8_append_codepoint 512 out cp = Some out' \<Longrightarrow> 4 \<le> left \<Longrightarrow> path_ok (snd (ppth_loop (left - 4) out' s'))" for cp out' s'
    using less append_path_ok by auto
  show ?case using less.prems
    by (subst ppth_loop.simps) (auto simp: split_beta Let_def intro: ih split: option.split)
qed

lemma read_vbr_length: "length (snd (read_vbr i n t s)) = length t"
  by (induction i n t s rule: read_vbr.induct) (auto simp: split_beta)

lemma read_beats_length: "length (snd (read_beats n s)) = n"
  by (induction n arbitrary: s) (simp_all add: split_beta Let_def)

lemma read_cues_ok:
  "length cs < 8 \<Longrightarrow> list_all cue_ok cs \<Longrightarrow> length (snd (read_cues n cs s)) \<le> 8 \<and> list_all cue_ok (snd (read_cues n cs s))"
proof (induction n arbitrary: cs s)
  case (Suc n)
  obtain s1 buf ok where r: "anlz_read_exact 56 s = (s1, buf, ok)" using prod_cases3 by blast
  have "cue_ok (pcpt_cue buf)" if "\<not> unat (buf ! 1) \<ge> 8" using that by (simp add: cue_ok_def pcpt_cue_def Let_def)
  then show ?case using Suc.prems Suc.IH [of cs s1] Suc.IH [of "cs @ [pcpt_cue buf]" s1] by (simp add: r Let_def)
qed simp

lemma mem_copy_length: "length got \<le> length buf \<Longrightarrow> length (mem_copy 0 got buf) = length buf"
  by (simp add: mem_copy_def)

lemma read_exact_length: "anlz_read_exact n s = (s', got, ok) \<Longrightarrow> length got \<le> n \<and> (ok \<longleftrightarrow> length got = n)"
  by (auto simp: anlz_read_exact_def fread_def Let_def)

lemmas anlz_ok_simps = anlz_ok_def path_ok_def

lemma zero_ok: "anlz_ok anlz_zero"
  by (simp add: anlz_ok_def anlz_zero_def path_ok_def)

lemma parse_ppth_ok: "parse_ppth m s = (s', m', rc) \<Longrightarrow> anlz_ok m \<Longrightarrow> anlz_ok m'"
proof -
  assume p: "parse_ppth m s = (s', m', rc)" and ok: "anlz_ok m"
  have "path_ok (snd (ppth_loop n [] s1))" for n s1 by (rule ppth_ok) (simp add: path_ok_def)
  then show ?thesis using p ok by (auto simp: parse_ppth_def anlz_ok_def split_beta Let_def split: prod.splits sum.splits if_splits)
qed

lemma parse_pvbr_ok: "parse_pvbr m s = (s', m', rc) \<Longrightarrow> anlz_ok m \<Longrightarrow> anlz_ok m'"
  by (auto simp: parse_pvbr_def anlz_ok_def read_vbr_length split_beta Let_def split: prod.splits sum.splits if_splits)

lemma unat_of_nat16: "n < 2 ^ 16 \<Longrightarrow> unat (of_nat n :: u16) = n"
  by (simp add: unat_of_nat take_bit_nat_eq_self)

lemma parse_pqtz_ok: "parse_pqtz env m s = (s', m', rc) \<Longrightarrow> anlz_ok m \<Longrightarrow> rc = ESP_OK \<Longrightarrow> anlz_ok m'"
proof -
  assume p: "parse_pqtz env m s = (s', m', rc)" and ok: "anlz_ok m" and rc: "rc = ESP_OK"
  have grid: "anlz_ok (m\<lparr>beats := Some bs, beat_count := of_nat n\<rparr>)" "anlz_ok (m\<lparr>beats := Some bs, beat_count := of_nat n, anlz_bpm := b\<rparr>)"
    if "0 < n" "n \<le> 0xFFFF" "length bs = n" for bs n b
  proof -
    have "unat (of_nat n :: u16) = n" using that by (simp add: unat_of_nat16)
    moreover from this have "(of_nat n :: u16) \<noteq> 0" using that(1) by (metis less_irrefl unat_0)
    ultimately show "anlz_ok (m\<lparr>beats := Some bs, beat_count := of_nat n\<rparr>)" "anlz_ok (m\<lparr>beats := Some bs, beat_count := of_nat n, anlz_bpm := b\<rparr>)"
      using ok that by (simp_all add: anlz_ok_def)
  qed
  obtain s1 r where z: "parse_sizes s = (s1, r)" by fastforce
  show ?thesis
  proof (cases r)
    case (Inr data_len)
    define count where "count = unat (data_len div 8)"
    define stored where "stored = (if count > 0xFFFF then 0xFFFF else count)"
    obtain s2 bs where b: "read_beats stored s1 = (s2, bs)" by fastforce
    have len: "length bs = stored" using read_beats_length [of stored s1] b by simp
    obtain s3 sought where k: "(if count > stored then seek_cur (of_nat (count - stored) * 8) s2 else (s2, True)) = (s3, sought)" by fastforce
    note def = p [unfolded parse_pqtz_def z Inr prod.case sum.case Let_def, folded count_def, folded stored_def, unfolded b prod.case k]
    show ?thesis
    proof (cases "count = 0 \<or> \<not> ae_beats env \<or> \<not> sought")
      case True
      then show ?thesis using def ok rc by (auto split: if_splits)
    next
      case False
      then have "0 < stored" "stored \<le> 0xFFFF" by (auto simp: stored_def)
      note g = grid [OF this len]
      show ?thesis using def False g by (auto split: if_splits)
    qed
  qed (use p z ok in \<open>simp add: parse_pqtz_def\<close>)
qed

lemma parse_pwav_ok: "parse_pwav m s = (s', m', rc) \<Longrightarrow> anlz_ok m \<Longrightarrow> anlz_ok m'"
proof -
  assume p: "parse_pwav m s = (s', m', rc)" and ok: "anlz_ok m"
  obtain s1 r where z: "parse_sizes s = (s1, r)" by fastforce
  show ?thesis
  proof (cases r)
    case (Inr data_len)
    obtain s2 got k where g: "anlz_read_exact (min (unat data_len) 400) s1 = (s2, got, k)" using prod_cases3 by blast
    have "length got \<le> length (waveform_low m)" using read_exact_length [OF g] ok by (simp add: anlz_ok_def)
    then show ?thesis using p ok by (auto simp: parse_pwav_def z Inr Let_def g anlz_ok_def mem_copy_length)
  qed (use p z ok in \<open>simp add: parse_pwav_def\<close>)
qed

lemma parse_pcob_ok: "parse_pcob m s = (s', m', rc) \<Longrightarrow> anlz_ok m \<Longrightarrow> anlz_ok m'"
  using read_cues_ok [of "[]"]
  by (auto simp: parse_pcob_def anlz_ok_def split_beta Let_def split: prod.splits sum.splits if_splits)

lemma parse_pwv3_ok: "parse_pwv3 env m s = (s', m', rc) \<Longrightarrow> anlz_ok m \<Longrightarrow> rc = ESP_OK \<Longrightarrow> anlz_ok m'"
proof -
  assume p: "parse_pwv3 env m s = (s', m', rc)" and ok: "anlz_ok m" and rc: "rc = ESP_OK"
  obtain s1 r where z: "parse_sizes s = (s1, r)" by fastforce
  show ?thesis
  proof (cases r)
    case (Inr data_len)
    define n where "n = min (unat data_len) 131072"
    obtain s2 got complete where g: "anlz_read_exact n s1 = (s2, got, complete)" using prod_cases3 by blast
    have len: "complete \<Longrightarrow> length got = n" using read_exact_length [OF g] by simp
    have n: "n < 2 ^ 32" "n \<le> 131072" "data_len \<noteq> 0 \<Longrightarrow> 0 < n" by (auto simp: n_def unat_gt_0)
    have u: "unat (of_nat n :: u32) = n" using n(1) by (rule unat_of_nat32)
    have nz: "data_len \<noteq> 0 \<Longrightarrow> (of_nat n :: u32) \<noteq> 0" using u n(3) by (metis less_irrefl unat_0)
    show ?thesis using p ok rc len n nz u
      by (auto simp: parse_pwv3_def z Inr Let_def n_def [symmetric] g anlz_ok_def split: if_splits)
  qed (use p z ok in \<open>simp add: parse_pwv3_def\<close>)
qed

lemma parse_one_ok:
  assumes "parse_one_strict env tag m s = (s', m', found, rc)" "anlz_ok m" "rc = ESP_OK"
  shows "anlz_ok m'"
proof -
  obtain s1 walk where w: "walk_sections_for_tag tag (s\<lparr>short_read := False\<rparr>) = (s1, walk)" by fastforce
  show ?thesis
    using assms parse_ppth_ok parse_pvbr_ok parse_pqtz_ok parse_pwav_ok parse_pcob_ok parse_pwv3_ok
    unfolding parse_one_strict_def tag_parser_def w Let_def by (fastforce split: prod.splits if_splits)
qed

lemma parse_tags_ok: "parse_tags env tags m has s = (m', has', rc) \<Longrightarrow> anlz_ok m \<Longrightarrow> rc = ESP_OK \<Longrightarrow> anlz_ok m'"
proof (induction tags arbitrary: m has s)
  case (Cons tag tags)
  obtain s1 next1 found rc1 where o: "parse_one_strict env tag m s = (s1, next1, found, rc1)" using prod_cases4 by blast
  show ?case using Cons parse_one_ok [OF o Cons.prems(2)] by (auto simp: o split: if_splits)
qed simp

lemma parse_one_path:
  assumes "parse_one_strict env tag m s = (s', m', found, rc)" "tag \<noteq> ANLZ_TAG_PPTH"
  shows "audio_path m' = audio_path m"
proof -
  have "audio_path (fst (snd (parse_pvbr m s1))) = audio_path m" "audio_path (fst (snd (parse_pwav m s1))) = audio_path m"
    "audio_path (fst (snd (parse_pcob m s1))) = audio_path m" "audio_path (fst (snd (parse_pwv3 env m s1))) = audio_path m" for s1
    by (auto simp: parse_pvbr_def parse_pwav_def parse_pcob_def parse_pwv3_def split_beta Let_def split: sum.split)
  moreover have "audio_path (fst (snd (parse_pqtz env m s1))) = audio_path m" for s1
    by (auto simp: parse_pqtz_def split_beta Let_def split: sum.split)
  ultimately show ?thesis using assms
    by (auto simp: parse_one_strict_def tag_parser_def split_beta Let_def split: if_splits)
qed

lemma parse_tags_path:
  "parse_tags env tags m has s = (m', has', rc) \<Longrightarrow> ANLZ_TAG_PPTH \<notin> set tags \<Longrightarrow> audio_path m' = audio_path m \<and> has' = has"
proof (induction tags arbitrary: m has s)
  case (Cons tag tags)
  obtain s1 next1 found rc1 where o: "parse_one_strict env tag m s = (s1, next1, found, rc1)" using prod_cases4 by blast
  show ?case using Cons parse_one_path [OF o] by (auto simp: o split: if_splits)
qed simp

lemma parse_dat_ok:
  assumes "anlz_parse_dat env (Some bytes) out = (m, ESP_OK)"
  shows "anlz_ok m \<and> audio_path m \<noteq> []"
proof -
  obtain s1 next1 found rc1 where o: "parse_one_strict env ANLZ_TAG_PPTH anlz_zero (open_in bytes) = (s1, next1, found, rc1)"
    using prod_cases4 by blast
  let ?rest = "[ANLZ_TAG_PVBR, ANLZ_TAG_PQTZ, ANLZ_TAG_PWAV, ANLZ_TAG_PCOB]"
  let ?has = "found \<and> audio_path next1 \<noteq> []"
  obtain m' has' rc' where r: "parse_tags env ?rest next1 ?has s1 = (m', has', rc')" using prod_cases3 by blast
  have k: "parse_tags env (ANLZ_TAG_PPTH # ?rest) anlz_zero False (open_in bytes) = (if rc1 \<noteq> ESP_OK then (next1, False, rc1) else (m', has', rc'))"
    by (simp only: parse_tags.simps(2) [of _ ANLZ_TAG_PPTH] o r Let_def prod.case simp_thms if_True)
  have "rc1 = ESP_OK" "has'" "m = m'" "rc' = ESP_OK"
    using assms unfolding anlz_parse_dat_def option.case k by (auto simp: Let_def split: if_splits)
  then show ?thesis
    using parse_tags_ok [OF r parse_one_ok [OF o zero_ok]] parse_tags_path [OF r] by auto
qed

lemma parse_dat_failed: "anlz_parse_dat env dat out = (m, rc) \<Longrightarrow> rc \<noteq> ESP_OK \<Longrightarrow> m = (if dat = None then out else anlz_zero)"
  by (auto simp: anlz_parse_dat_def Let_def split: option.splits prod.splits if_splits)

lemma clone_exact: "anlz_clone env m = (m', ESP_OK) \<Longrightarrow> anlz_ok m \<Longrightarrow> m' = m"
  by (cases m) (auto simp: anlz_clone_def anlz_ok_def Let_def word_gt_0 split: if_splits)

lemma parse_pwv3_only: "parse_pwv3 env m s = (s', m', rc) \<Longrightarrow> m'\<lparr>waveform_high := w, waveform_high_len := n\<rparr> = m\<lparr>waveform_high := w, waveform_high_len := n\<rparr>"
  by (auto simp: parse_pwv3_def split_beta Let_def split: prod.splits sum.splits if_splits)

lemma parse_ext_ok:
  assumes "anlz_parse_ext env (Some bytes) m = (m', ESP_OK)" "anlz_ok m"
  shows "anlz_ok m'" "m'\<lparr>waveform_high := w, waveform_high_len := n\<rparr> = m\<lparr>waveform_high := w, waveform_high_len := n\<rparr>"
proof -
  obtain c rc where c: "anlz_clone env m = (c, rc)" by fastforce
  obtain s1 next1 found rc1 where o: "parse_one_strict env ANLZ_TAG_PWV3 c (open_in bytes) = (s1, next1, found, rc1)"
    using prod_cases4 by blast
  have "rc = ESP_OK \<and> rc1 = ESP_OK \<and> m' = next1"
    using assms(1) unfolding anlz_parse_ext_def option.case c by (auto simp: o Let_def split: if_splits)
  then have e: "c = m" "rc1 = ESP_OK" "m' = next1" using clone_exact c assms(2) by auto
  show "anlz_ok m'" using parse_one_ok [OF o] e assms(2) by simp
  show "m'\<lparr>waveform_high := w, waveform_high_len := n\<rparr> = m\<lparr>waveform_high := w, waveform_high_len := n\<rparr>"
    using o e by (auto simp: parse_one_strict_def tag_parser_def Let_def parse_pwv3_only split: if_splits prod.splits)
qed

lemma parse_ext_failed: "anlz_parse_ext env ext m = (m', rc) \<Longrightarrow> rc \<noteq> ESP_OK \<Longrightarrow> m' = m"
  by (auto simp: anlz_parse_ext_def Let_def split: option.splits prod.splits if_splits)

lemma free_parsed: "anlz_ok m \<Longrightarrow> anlz_ok (anlz_free m) \<and> beats (anlz_free m) = None \<and> waveform_high (anlz_free m) = None"
  by (auto simp: anlz_ok_def anlz_free_def Let_def split: if_splits)


end
