(* ===== verification/Anlz_Format.thy ===== *)
theory Anlz_Format
  imports Rekordbox_Anlz
begin

text \<open>
  The format of the analysis files, as a writer that the reader of \<open>Rekordbox_Anlz\<close> inverts: sections in any order, each with
  padding in its header, among sections the reader does not know.
\<close>

section \<open>Files and sections\<close>

definition wr_be16 :: "u16 \<Rightarrow> u8 list" where
  "wr_be16 v = rev (wr_u16 v)"

definition wr_be32 :: "u32 \<Rightarrow> u8 list" where
  "wr_be32 v = rev (wr_u32 v)"

text \<open>A section has a tag, the rest of its header and its data.\<close>

type_synonym section_spec = "u32 \<times> u8 list \<times> u8 list"

fun section_bytes :: "section_spec \<Rightarrow> u8 list" where
  "section_bytes (tag, pad, body) =
     wr_be32 tag @ wr_be32 (of_nat (12 + length pad)) @ wr_be32 (of_nat (12 + length pad + length body)) @ pad @ body"

definition anlz_file :: "u8 list \<Rightarrow> u32 \<Rightarrow> section_spec list \<Rightarrow> u8 list" where
  "anlz_file pad filesz secs = wr_be32 ANLZ_TAG_PMAI @ wr_be32 (of_nat (12 + length pad)) @ wr_be32 filesz @ pad @ concat (map section_bytes secs)"

definition section_data :: "u32 \<Rightarrow> section_spec list \<Rightarrow> u8 list option" where
  "section_data tag secs = map_option (snd \<circ> snd) (find (\<lambda>sec. fst sec = tag) secs)"

lemma wr_be_length [simp]: "length (wr_be16 h) = 2" "length (wr_be32 w) = 4"
  by (simp_all add: wr_be16_def wr_be32_def length_wr_u16 length_wr_u32)

lemma be16_wr [simp]: "be16 (wr_be16 v @ xs) = v" "be16 (wr_be16 v) = v"
proof -
  show "be16 (wr_be16 v @ xs) = v"
    using u16_split_join [of v] by (simp add: be16_def wr_be16_def wr_u16_def or.commute)
  then show "be16 (wr_be16 v) = v" by (simp add: be16_def wr_be16_def wr_u16_def)
qed

lemma be32_wr [simp]: "be32 (wr_be32 v @ xs) = v" "be32 (wr_be32 v) = v"
proof -
  show "be32 (wr_be32 v @ xs) = v"
    using u32_split_join [of v] by (simp add: be32_def wr_be32_def wr_u32_def ac_simps)
  then show "be32 (wr_be32 v) = v" by (simp add: be32_def wr_be32_def wr_u32_def)
qed

section \<open>Reading what is written\<close>

text \<open>The reader is in file \<open>data\<close> with \<open>rest\<close> still to read, and no read has been short.\<close>

definition unread :: "u8 list \<Rightarrow> anlz_in \<Rightarrow> u8 list \<Rightarrow> bool" where
  "unread data s rest \<longleftrightarrow> f_data (a_fp s) = data \<and> \<not> short_read s \<and> f_pos (a_fp s) \<le> length data \<and> drop (f_pos (a_fp s)) data = rest"

definition skipped :: "nat \<Rightarrow> anlz_in \<Rightarrow> anlz_in" where
  "skipped n s = s\<lparr>a_fp := (a_fp s)\<lparr>f_pos := f_pos (a_fp s) + n\<rparr>\<rparr>"

lemma unread_length: "unread data s rest \<Longrightarrow> f_pos (a_fp s) + length rest = length data"
  by (auto simp: unread_def)

lemma unread_skipped:
  assumes "unread data s (xs @ rest)" "length xs = n"
  shows "unread data (skipped n s) rest"
proof -
  have d: "drop (f_pos (a_fp s)) data = xs @ rest" using assms(1) by (simp add: unread_def)
  have "drop (f_pos (a_fp s) + n) data = drop n (drop (f_pos (a_fp s)) data)" by (simp add: add.commute)
  then have "drop (f_pos (a_fp s) + n) data = rest" using d assms(2) by simp
  moreover have "f_pos (a_fp s) + n \<le> length data" using unread_length [OF assms(1)] assms(2) by simp
  ultimately show ?thesis using assms(1) by (simp add: unread_def skipped_def)
qed

lemma read_at:
  assumes "unread data s (xs @ rest)" "length xs = n"
  shows "anlz_read_exact n s = (skipped n s, xs, True)"
proof -
  have "take n (drop (f_pos (a_fp s)) data) = xs" using assms by (simp add: unread_def)
  then show ?thesis using assms by (simp add: anlz_read_exact_def fread_def skipped_def unread_def Let_def)
qed

lemma read_be_at:
  assumes "unread data s (wr_be32 v @ rest)"
  shows "read_be32 s = (skipped 4 s, v)" "unread data (skipped 4 s) rest"
  using read_at [OF assms] unread_skipped [OF assms] by (simp_all add: read_be32_def)

lemma read_be16_at:
  assumes "unread data s (wr_be16 v @ rest)"
  shows "read_be16 s = (skipped 2 s, v)" "unread data (skipped 2 s) rest"
  using read_at [OF assms] unread_skipped [OF assms] by (simp_all add: read_be16_def)

lemma seek_set_at:
  assumes "f_data (a_fp s) = data" "\<not> short_read s" "data = pre @ rest" "length data < 2 ^ 31" "off = of_nat (length pre)"
  shows "\<exists>s'. seek_set off s = (s', True) \<and> unread data s' rest"
proof -
  have l: "length pre < 2 ^ 31" using assms(3,4) by simp
  then have u: "unat off = length pre" unfolding assms(5) by (intro unat_of_nat32) simp
  then have "\<not> sint off < 0" using l by (intro sint_small32) simp
  then show ?thesis using assms u by (simp add: seek_set_def seek_file_def unread_def)
qed

lemma seek_cur_at:
  assumes "unread data s (xs @ rest)" "length data < 2 ^ 31" "n = length xs"
  shows "seek_cur (of_nat n) s = (skipped n s, True)" "unread data (skipped n s) rest"
proof -
  have l: "f_pos (a_fp s) + n \<le> length data" using unread_length [OF assms(1)] assms(3) by simp
  then have "n < 2 ^ 31" using assms(2) by simp
  then have "sint (of_nat n :: u32) = int n" using sint_unat [of "of_nat n :: u32"] by (simp add: unat_of_nat32)
  then show "seek_cur (of_nat n) s = (skipped n s, True)"
    using l assms(2) by (simp add: seek_cur_def skipped_def Let_def nat_add_distrib)
  show "unread data (skipped n s) rest" using unread_skipped [OF assms(1)] assms(3) by simp
qed

section \<open>Finding a section\<close>

text \<open>What is left of a section after its tag.\<close>

fun section_tail :: "section_spec \<Rightarrow> u8 list" where
  "section_tail (tag, pad, body) = wr_be32 (of_nat (12 + length pad)) @ wr_be32 (of_nat (12 + length pad + length body)) @ pad @ body"

lemma section_bytes_tail: "section_bytes sec = wr_be32 (fst sec) @ section_tail sec"
  by (cases sec) simp

text \<open>One turn of the walk, at a header of \<open>hs\<close> bytes after which \<open>adv\<close> bytes are skipped in all.\<close>

lemma walk_turn:
  assumes data: "f_data (a_fp s) = data" "\<not> short_read s" "length data < 2 ^ 31"
    "data = pre @ wr_be32 tag @ wr_be32 (of_nat hs) @ wr_be32 ss @ rest"
    and size: "12 \<le> hs" "hs \<le> length data" "tag = ANLZ_TAG_PMAI \<or> of_nat hs \<le> ss"
    and adv: "of_nat n = (if tag = ANLZ_TAG_PMAI then of_nat hs else ss)" "12 \<le> n" "length pre + n \<le> length data"
  shows "\<exists>s'. f_data (a_fp s') = data \<and> \<not> short_read s' \<and>
    walk_from target (of_nat (length data)) (of_nat (length pre)) s =
      (if tag = target
       then (let (s5, sought5) = seek_set (of_nat (length pre) + 4) s' in (s5, if sought5 then TAG_WALK_FOUND else TAG_WALK_MALFORMED))
       else walk_from target (of_nat (length data)) (of_nat (length pre + n)) s')"
proof -
  let ?pos = "of_nat (length pre) :: u32" and ?len = "of_nat (length data) :: u32"
  have lens: "length data < 2 ^ 32" "length pre + 12 \<le> length data" "length pre < 2 ^ 32" "n < 2 ^ 32" "hs < 2 ^ 32"
    using data(3) adv(2,3) size(2) by simp_all
  have u: "unat ?pos = length pre" "unat ?len = length data" "unat (of_nat n :: u32) = n" "unat (of_nat hs :: u32) = hs"
    using lens by (simp_all only: unat_of_nat32)
  have pos12: "?pos + 12 \<le> ?len"
  proof -
    have "?pos + 12 = of_nat (length pre + 12)" by simp
    then have "unat (?pos + 12) = length pre + 12" using lens(1,2) by (simp only:) (rule unat_of_nat32, simp)
    then show ?thesis using lens(2) u(2) by (simp add: word_le_nat_alt)
  qed
  obtain s1 where s1: "seek_set ?pos s = (s1, True)" "unread data s1 (wr_be32 tag @ wr_be32 (of_nat hs) @ wr_be32 ss @ rest)"
    using seek_set_at [OF data(1,2,4,3) refl] by blast
  note r1 = read_be_at [OF s1(2)]
  note r2 = read_be_at [OF r1(2)]
  note r3 = read_be_at [OF r2(2)]
  let ?s4 = "skipped 4 (skipped 4 (skipped 4 s1))"
  have s4: "f_data (a_fp ?s4) = data" "\<not> short_read ?s4" using r3(2) by (auto simp: unread_def)
  have "unat (?len - ?pos) = length data - length pre" using unat_sub [of ?pos ?len] u lens(2) by (simp add: word_le_nat_alt)
  then have room: "\<not> of_nat n > ?len - ?pos" using u(3) adv(3) by (simp add: word_less_nat_alt)
  have big: "\<not> (of_nat n :: u32) < 12" "\<not> (of_nat hs :: u32) < 12" using u(3,4) adv(2) size(1) by (simp_all add: word_less_nat_alt)
  have adv_eq: "(if tag = ANLZ_TAG_PMAI then of_nat hs else ss) = (of_nat n :: u32)" using adv(1) by simp
  have ss: "\<not> (tag \<noteq> ANLZ_TAG_PMAI \<and> ss < of_nat hs)" using size(3) by (auto simp: not_less)
  have "walk_from target ?len ?pos s =
      (if tag = target
       then (let (s5, sought5) = seek_set (?pos + 4) ?s4 in (s5, if sought5 then TAG_WALK_FOUND else TAG_WALK_MALFORMED))
       else walk_from target ?len (?pos + of_nat n) ?s4)"
    by (subst walk_from.simps)
      (use pos12 s4(2) room big ss in \<open>simp only: s1(1) r1(1) r2(1) r3(1) adv_eq Let_def prod.case if_False simp_thms not_True_eq_False not_False_eq_True\<close>)
  then show ?thesis using s4 by (intro exI [of _ ?s4]) simp
qed

definition walked :: "u32 \<Rightarrow> u8 list \<Rightarrow> section_spec list \<Rightarrow> anlz_in \<times> tag_walk_result \<Rightarrow> bool" where
  "walked target data secs r \<longleftrightarrow> f_data (a_fp (fst r)) = data \<and> \<not> short_read (fst r) \<and>
     (case find (\<lambda>sec. fst sec = target) secs of None \<Rightarrow> snd r = TAG_WALK_ABSENT
      | Some sec \<Rightarrow> snd r = TAG_WALK_FOUND \<and> (\<exists>rest. unread data (fst r) (section_tail sec @ rest)))"

lemma walk_sections:
  assumes "length data < 2 ^ 31" "list_all (\<lambda>sec. fst sec \<noteq> ANLZ_TAG_PMAI) secs"
    "data = pre @ concat (map section_bytes secs)" "f_data (a_fp s) = data" "\<not> short_read s"
  shows "walked target data secs (walk_from target (of_nat (length data)) (of_nat (length pre)) s)"
  using assms(2-5)
proof (induction secs arbitrary: pre s)
  case Nil
  have "length data + 12 < 2 ^ 32" using assms(1) by simp
  then have u: "unat (of_nat (length data + 12) :: u32) = length data + 12" "unat (of_nat (length data) :: u32) = length data"
    by (simp_all add: unat_of_nat32 del: of_nat_add)
  have "\<not> (of_nat (length data) :: u32) + 12 \<le> of_nat (length data)"
    using u by (simp add: word_le_nat_alt)
  then show ?case using Nil by (subst walk_from.simps) (simp add: walked_def)
next
  case (Cons sec secs)
  obtain tag pad body where sec: "sec = (tag, pad, body)" by (cases sec)
  define hs where "hs = 12 + length pad"
  define n where "n = 12 + length pad + length body"
  let ?more = "concat (map section_bytes secs)"
  have d: "data = pre @ wr_be32 tag @ wr_be32 (of_nat hs) @ wr_be32 (of_nat n) @ (pad @ body @ ?more)"
    using Cons.prems(2) by (simp add: sec hs_def n_def)
  then have len: "length pre + n \<le> length data" by (simp add: n_def)
  have tag: "tag \<noteq> ANLZ_TAG_PMAI" using Cons.prems(1) by (simp add: sec)
  have le: "(of_nat hs :: u32) \<le> of_nat n"
  proof -
    have "hs \<le> n" "n < 2 ^ 32" using len assms(1) by (simp_all add: hs_def n_def)
    then show ?thesis by (simp add: word_le_nat_alt unat_of_nat32)
  qed
  have hs: "12 \<le> hs" "hs \<le> length data" "12 \<le> n" using len by (simp_all add: hs_def n_def)
  obtain s' where s': "f_data (a_fp s') = data" "\<not> short_read s'"
    and turn: "walk_from target (of_nat (length data)) (of_nat (length pre)) s =
      (if tag = target
       then (let (s5, sought5) = seek_set (of_nat (length pre) + 4) s' in (s5, if sought5 then TAG_WALK_FOUND else TAG_WALK_MALFORMED))
       else walk_from target (of_nat (length data)) (of_nat (length pre + n)) s')"
    using walk_turn [OF Cons.prems(3,4) assms(1) d hs(1,2), of n] tag le hs(3) len by auto
  show ?case
  proof (cases "tag = target")
    case True
    have "data = (pre @ wr_be32 tag) @ section_tail sec @ ?more" "of_nat (length pre) + 4 = (of_nat (length (pre @ wr_be32 tag)) :: u32)"
      using d by (simp_all add: sec hs_def n_def)
    then obtain s5 where "seek_set (of_nat (length pre) + 4) s' = (s5, True)" "unread data s5 (section_tail sec @ ?more)"
      using seek_set_at [OF s' _ assms(1)] by blast
    then show ?thesis using True turn by (auto simp: walked_def sec unread_def)
  next
    case False
    have "data = (pre @ section_bytes sec) @ ?more" "length (pre @ section_bytes sec) = length pre + n"
      using d by (simp_all add: sec n_def hs_def)
    then show ?thesis using Cons.IH [of "pre @ section_bytes sec" s'] Cons.prems(1) s' turn False by (simp add: walked_def sec)
  qed
qed

lemma walk_file:
  assumes "length data < 2 ^ 31" "list_all (\<lambda>sec. fst sec \<noteq> ANLZ_TAG_PMAI) secs" "target \<noteq> ANLZ_TAG_PMAI"
    "data = anlz_file pad filesz secs" "f_data (a_fp s) = data" "\<not> short_read s"
  shows "walked target data secs (walk_sections_for_tag target s)"
proof -
  define hs where "hs = 12 + length pad"
  let ?more = "concat (map section_bytes secs)"
  have d: "data = [] @ wr_be32 ANLZ_TAG_PMAI @ wr_be32 (of_nat hs) @ wr_be32 filesz @ (pad @ ?more)"
    using assms(4) by (simp add: anlz_file_def hs_def)
  then have hs: "12 \<le> hs" "hs \<le> length data" by (simp_all add: hs_def)
  obtain s' where s': "f_data (a_fp s') = data" "\<not> short_read s'"
    and turn: "walk_from target (of_nat (length data)) 0 s = walk_from target (of_nat (length data)) (of_nat hs) s'"
    using walk_turn [OF assms(5,6,1) d hs, of hs target] assms(3) hs by auto
  have "data = (wr_be32 ANLZ_TAG_PMAI @ wr_be32 (of_nat hs) @ wr_be32 filesz @ pad) @ ?more" using d by simp
  from walk_sections [OF assms(1,2) this s'] have "walked target data secs (walk_from target (of_nat (length data)) (of_nat hs) s')"
    by (simp add: hs_def)
  moreover have "walk_sections_for_tag target s = walk_from target (of_nat (length data)) 0 s"
    using assms(1,5) hs by (simp add: walk_sections_for_tag_def Let_def)
  ultimately show ?thesis using turn by simp
qed

lemma sizes_at:
  assumes "unread data s (section_tail (tag, pad, body) @ rest)" "length data < 2 ^ 31"
  shows "\<exists>s'. parse_sizes s = (s', Inr (of_nat (length body))) \<and> unread data s' (body @ rest)"
proof -
  define hs where "hs = 12 + length pad"
  define n where "n = 12 + length pad + length body"
  have a: "unread data s (wr_be32 (of_nat hs) @ wr_be32 (of_nat n) @ pad @ body @ rest)" using assms(1) by (simp add: hs_def n_def)
  note r1 = read_be_at [OF a]
  note r2 = read_be_at [OF r1(2)]
  note k = seek_cur_at [OF r2(2) assms(2) refl]
  have len: "n < 2 ^ 32" "hs \<le> n" using unread_length [OF a] assms(2) by (simp_all add: hs_def n_def)
  then have u: "unat (of_nat hs :: u32) = hs" "unat (of_nat n :: u32) = n" by (simp_all add: unat_of_nat32)
  have g: "\<not> ((of_nat n :: u32) < of_nat hs \<or> (of_nat hs :: u32) < 12)" using u len by (simp add: word_less_nat_alt hs_def)
  have e: "(of_nat hs :: u32) - 12 = of_nat (length pad)" "(of_nat n :: u32) - of_nat hs = of_nat (length body)"
    by (simp_all add: hs_def n_def)
  show ?thesis using k by (simp add: parse_sizes_def r1(1) r2(1) g e Let_def)
qed

section \<open>What the sections hold\<close>

definition path_body :: "u32 list \<Rightarrow> u8 list" where
  "path_body cps = concat (map wr_be16 (concat (map utf16 cps))) @ [0, 0]"

definition path_text :: "u32 list \<Rightarrow> u8 list" where
  "path_text cps = concat (map (utf8 \<circ> slash) cps)"

definition vbr_body :: "u32 list \<Rightarrow> u8 list" where
  "vbr_body offs = concat (map wr_be32 offs)"

definition beats_body :: "anlz_beat list \<Rightarrow> u8 list" where
  "beats_body bs = concat (map (\<lambda>b. wr_be16 (beat_phase b) @ wr_be16 (bpm_x100 b) @ wr_be32 (time_ms b)) bs)"

definition cue_body :: "anlz_cue \<Rightarrow> u8 list" where
  "cue_body c = [if cue_type c = ANLZ_CUE_LOOP then 2 else 1, cue_index c, 0, 0] @ wr_be32 (start_ms c) @ wr_be32 (end_ms c) @ replicate 44 0"

definition cues_body :: "anlz_cue list \<Rightarrow> u8 list" where
  "cues_body cs = concat (map cue_body cs)"

text \<open>The path.\<close>

lemma utf8_length: "1 \<le> length (utf8 cp)" "length (utf8 cp) \<le> 4"
  by (simp_all add: utf8_def)

lemma slash_scalar: "scalar cp \<Longrightarrow> slash cp \<noteq> 0 \<and> \<not> slash cp > 0x10FFFF"
  by (auto simp: slash_def scalar_def not_less word_neq_0_conv)

lemma read_unit:
  assumes "unread data s (wr_be16 u @ rest)"
  shows "\<exists>s1 hi s2 lo. anlz_read_u8 s = (s1, Some hi) \<and> anlz_read_u8 s1 = (s2, Some lo) \<and> be16 [hi, lo] = u \<and> unread data s2 rest"
proof -
  obtain hi lo where b: "wr_be16 u = [hi, lo]" by (simp add: wr_be16_def wr_u16_def)
  have a: "unread data s ([hi] @ [lo] @ rest)" using assms b by simp
  note r1 = read_at [OF a, of 1, simplified] note k1 = unread_skipped [OF a, of 1, simplified]
  note r2 = read_at [of data _ "[lo]" rest 1, simplified, OF k1] note k2 = unread_skipped [of data _ "[lo]" rest 1, simplified, OF k1]
  have "be16 [hi, lo] = u" using be16_wr(2) [of u] b by simp
  then show ?thesis using r1 r2 k2 by (auto simp: anlz_read_u8_def)
qed

lemma units_length: "length (concat (map wr_be16 us)) = 2 * length us"
  by (induction us) simp_all

lemma ppth_reads:
  "list_all scalar cps \<Longrightarrow> unread data s (path_body cps @ rest) \<Longrightarrow> n = length (path_body cps) \<Longrightarrow>
   length out + length (path_text cps) < 512 \<Longrightarrow>
   \<exists>s'. ppth_loop n out s = (s', out @ path_text cps) \<and> f_data (a_fp s') = data \<and> \<not> short_read s'"
proof (induction cps arbitrary: out s n)
  case Nil
  then have n: "n = 2" and a: "unread data s (wr_be16 0 @ rest)" by (simp_all add: path_body_def wr_be16_def wr_u16_def)
  obtain s1 hi s2 lo where r: "anlz_read_u8 s = (s1, Some hi)" "anlz_read_u8 s1 = (s2, Some lo)" "be16 [hi, lo] = 0" "unread data s2 rest"
    using read_unit [OF a] by blast
  then show ?case using n by (subst ppth_loop.simps) (simp add: unread_def path_text_def)
next
  case (Cons cp cps)
  have cp: "scalar cp" and rest: "list_all scalar cps" using Cons.prems(1) by simp_all
  have room: "length (utf8 (slash cp)) + length out < 512" "length (out @ utf8 (slash cp)) + length (path_text cps) < 512"
    using Cons.prems(4) by (simp_all add: path_text_def)
  have app: "utf8_append_codepoint 512 out (slash cp) = Some (out @ utf8 (slash cp))"
    using slash_scalar [OF cp] room(1) by (simp add: append_utf8)
  note ih = Cons.IH [OF rest _ refl room(2)]
  have shown: "out @ path_text (cp # cps) = (out @ utf8 (slash cp)) @ path_text cps" by (simp add: path_text_def)
  show ?case
  proof (cases "cp \<le> 0xFFFF")
    case True
    note u = utf16_small [OF cp True]
    have nh: "(0xD800 \<le> (ucast cp :: u16) \<and> ucast cp \<le> (0xDBFF :: u16) \<and> X) = False" for X using u by blast
    have a: "unread data s (wr_be16 (ucast cp) @ path_body cps @ rest)" and n: "n = 2 + length (path_body cps)"
      using Cons.prems(2,3) True by (simp_all add: path_body_def utf16_def)
    obtain s1 hi s2 lo where r: "anlz_read_u8 s = (s1, Some hi)" "anlz_read_u8 s1 = (s2, Some lo)" "be16 [hi, lo] = ucast cp"
        "unread data s2 (path_body cps @ rest)"
      using read_unit [OF a] by blast
    have "ppth_loop n out s = ppth_loop (length (path_body cps)) (out @ utf8 (slash cp)) s2"
      using u app n by (subst ppth_loop.simps) (simp add: nh r(1-3) Let_def split del: if_split)
    then show ?thesis using ih [OF r(4)] shown by simp
  next
    case False
    define h where "h = (0xD800 OR ucast (drop_bit 10 (cp - 0x10000)) :: u16)"
    define l where "l = (0xDC00 OR ucast ((cp - 0x10000) AND 0x3FF) :: u16)"
    note p = utf16_pair [OF cp, folded h_def l_def]
    have big: "cp > 0xFFFF" using False by simp
    have a: "unread data s (wr_be16 h @ wr_be16 l @ path_body cps @ rest)" and n: "n = 4 + length (path_body cps)"
      using Cons.prems(2,3) False by (simp_all add: path_body_def utf16_def h_def l_def)
    obtain s1 hi s2 lo where r: "anlz_read_u8 s = (s1, Some hi)" "anlz_read_u8 s1 = (s2, Some lo)" "be16 [hi, lo] = h"
        "unread data s2 (wr_be16 l @ path_body cps @ rest)"
      using read_unit [OF a] by blast
    obtain s3 hi2 s4 lo2 where q: "anlz_read_u8 s2 = (s3, Some hi2)" "anlz_read_u8 s3 = (s4, Some lo2)" "be16 [hi2, lo2] = l"
        "unread data s4 (path_body cps @ rest)"
      using read_unit [OF r(4)] by blast
    have h0: "h \<noteq> 0" using p(1) [OF big] by auto
    have "ppth_loop n out s = ppth_loop (length (path_body cps)) (out @ utf8 (slash cp)) s4"
      using p [OF big] h0 app n by (subst ppth_loop.simps) (simp add: r(1-3) q(1-3) Let_def split del: if_split)
    then show ?thesis using ih [OF q(4)] shown by simp
  qed
qed

text \<open>The tables: every entry is read back.\<close>

lemma body_lengths: "length (vbr_body offs) = 4 * length offs" "length (beats_body bs) = 8 * length bs" "length (cue_body c) = 56"
    "length (cues_body cs) = 56 * length cs"
proof -
  show c: "length (cue_body c) = 56" for c by (simp add: cue_body_def)
  show "length (vbr_body offs) = 4 * length offs" "length (beats_body bs) = 8 * length bs"
    by (induction offs; simp add: vbr_body_def) (induction bs; simp add: beats_body_def)
  show "length (cues_body cs) = 56 * length cs" by (induction cs) (simp_all add: cues_body_def c)
qed

lemma vbr_reads:
  "unread data s (vbr_body offs @ rest) \<Longrightarrow> i + length offs \<le> length t \<Longrightarrow>
   \<exists>s'. read_vbr i (length offs) t s = (s', take i t @ offs @ drop (i + length offs) t) \<and> unread data s' rest"
proof (induction offs arbitrary: i t s)
  case (Cons v offs)
  have a: "unread data s (wr_be32 v @ vbr_body offs @ rest)" using Cons.prems(1) by (simp add: vbr_body_def)
  note r = read_be_at [OF a]
  obtain s' where s': "read_vbr (Suc i) (length offs) (t[i := v]) (skipped 4 s) =
      (s', take (Suc i) (t[i := v]) @ offs @ drop (Suc i + length offs) (t[i := v]))" "unread data s' rest"
    using Cons.IH [OF r(2), of "Suc i" "t[i := v]"] Cons.prems(2) by auto
  have "take (Suc i) (t[i := v]) = take i t @ [v]" using Cons.prems(2) by (simp add: take_Suc_conv_app_nth)
  then show ?case using s' by (simp add: r(1))
qed (simp add: vbr_body_def)

lemma beats_read:
  "unread data s (beats_body bs @ rest) \<Longrightarrow> \<exists>s'. read_beats (length bs) s = (s', bs) \<and> unread data s' rest"
proof (induction bs arbitrary: s)
  case (Cons b bs)
  have a: "unread data s (wr_be16 (beat_phase b) @ wr_be16 (bpm_x100 b) @ wr_be32 (time_ms b) @ beats_body bs @ rest)"
    using Cons.prems by (simp add: beats_body_def)
  note r1 = read_be16_at [OF a] note r2 = read_be16_at [OF r1(2)] note r3 = read_be_at [OF r2(2)]
  obtain s' where "read_beats (length bs) (skipped 4 (skipped 2 (skipped 2 s))) = (s', bs)" "unread data s' rest"
    using Cons.IH [OF r3(2)] by auto
  then show ?case by (simp add: r1(1) r2(1) r3(1) Let_def)
qed (simp add: beats_body_def)

lemma cue_bytes:
  assumes "cue_ok c"
  shows "pcpt_cue (cue_body c) = c" "\<not> unat (cue_body c ! 1) \<ge> 8"
proof -
  have "drop 4 (cue_body c) = wr_be32 (start_ms c) @ wr_be32 (end_ms c) @ replicate 44 0"
    "drop 8 (cue_body c) = wr_be32 (end_ms c) @ replicate 44 0" by (simp_all add: cue_body_def)
  then show "pcpt_cue (cue_body c) = c"
    using assms by (cases c; cases "cue_type c") (simp_all add: pcpt_cue_def cue_body_def cue_ok_def Let_def)
  show "\<not> unat (cue_body c ! 1) \<ge> 8" using assms by (simp add: cue_body_def cue_ok_def)
qed

lemma cues_read:
  "unread data s (cues_body cs @ rest) \<Longrightarrow> list_all cue_ok cs \<Longrightarrow> length acc + length cs \<le> 8 \<Longrightarrow>
   \<exists>s' more. read_cues (length cs) acc s = (s', acc @ cs) \<and> unread data s' more"
proof (induction cs arbitrary: acc s)
  case (Cons c cs)
  have a: "unread data s (cue_body c @ cues_body cs @ rest)" using Cons.prems(1) by (simp add: cues_body_def)
  note r = read_at [OF a body_lengths(3)] note k = unread_skipped [OF a body_lengths(3)]
  have c: "cue_ok c" using Cons.prems(2) by simp
  show ?case
  proof (cases "length (acc @ [c]) \<ge> 8")
    case True
    then have "cs = []" using Cons.prems(3) by (cases cs) auto
    then show ?thesis using True k cue_bytes [OF c] by (auto simp: r Let_def)
  next
    case False
    obtain s' more where "read_cues (length cs) (acc @ [c]) (skipped 56 s) = (s', acc @ c # cs)" "unread data s' more"
      using Cons.IH [OF k, of "acc @ [c]"] Cons.prems(2,3) by auto
    then show ?thesis using False cue_bytes [OF c] by (auto simp: r Let_def)
  qed
qed (auto simp: cues_body_def)

section \<open>Each section is read back\<close>

text \<open>\<open>kept data s\<close>: the reader is still in the file and no read was short.\<close>

abbreviation (input) kept :: "u8 list \<Rightarrow> anlz_in \<Rightarrow> bool" where
  "kept data s \<equiv> f_data (a_fp s) = data \<and> \<not> short_read s"

lemma unread_kept: "unread data s rest \<Longrightarrow> kept data s"
  by (simp add: unread_def)

lemma word_count: "n < 2 ^ 32 \<Longrightarrow> unat ((of_nat n :: u32) div 4) = n div 4" "n < 2 ^ 32 \<Longrightarrow> unat ((of_nat n :: u32) div 8) = n div 8"
    "n < 2 ^ 32 \<Longrightarrow> unat ((of_nat n :: u32) div 56) = n div 56"
  by (simp_all add: unat_div unat_of_nat32)

lemma body_small: "unread data s (body @ rest) \<Longrightarrow> length data < 2 ^ 31 \<Longrightarrow> length body < 2 ^ 32"
  using unread_length [of data s "body @ rest"] by simp

lemma ppth_parsed:
  assumes "unread data s (section_tail (tag, pad, path_body cps) @ rest)" "length data < 2 ^ 31" "list_all scalar cps"
    "length (path_text cps) < 512" "length (path_body cps) \<le> 1024"
  shows "\<exists>s'. parse_ppth m s = (s', m\<lparr>audio_path := path_text cps\<rparr>, ESP_OK) \<and> kept data s'"
proof -
  obtain s1 where s1: "parse_sizes s = (s1, Inr (of_nat (length (path_body cps))))" "unread data s1 (path_body cps @ rest)"
    using sizes_at [OF assms(1,2)] by blast
  have u: "unat (of_nat (length (path_body cps)) :: u32) = length (path_body cps)"
    by (rule unat_of_nat32) (rule le_less_trans [OF assms(5)], simp)
  have "length (path_body cps) \<noteq> 0" by (simp add: path_body_def)
  then have g: "\<not> ((of_nat (length (path_body cps)) :: u32) = 0 \<or> (of_nat (length (path_body cps)) :: u32) > 1024)"
    using u assms(5) by (auto simp: word_less_nat_alt word_unat_eq_iff)
  obtain s' where "ppth_loop (length (path_body cps)) [] s1 = (s', path_text cps)" "kept data s'"
    using ppth_reads [OF assms(3) s1(2) refl, of "[]"] assms(4) by auto
  then show ?thesis using g by (simp add: parse_ppth_def s1(1) u Let_def)
qed

lemma pvbr_parsed:
  assumes "unread data s (section_tail (tag, pad, vbr_body offs) @ rest)" "length data < 2 ^ 31" "length offs \<le> 400" "length (vbr m) = 400"
  shows "\<exists>s'. parse_pvbr m s = (s', m\<lparr>vbr := offs @ drop (length offs) (vbr m), has_vbr := offs \<noteq> []\<rparr>, ESP_OK) \<and> kept data s'"
proof -
  obtain s1 where s1: "parse_sizes s = (s1, Inr (of_nat (length (vbr_body offs))))" "unread data s1 (vbr_body offs @ rest)"
    using sizes_at [OF assms(1,2)] by blast
  have n: "min (unat ((of_nat (length (vbr_body offs)) :: u32) div 4)) 400 = length offs"
    using word_count(1) [OF body_small [OF s1(2) assms(2)]] assms(3) by (simp add: body_lengths)
  obtain s' where "read_vbr 0 (length offs) (vbr m) s1 = (s', offs @ drop (length offs) (vbr m))" "unread data s' rest"
    using vbr_reads [OF s1(2), of 0 "vbr m"] assms(3,4) by auto
  then show ?thesis unfolding parse_pvbr_def s1(1) prod.case sum.case Let_def n using unread_kept by auto
qed

definition with_beats :: "anlz_beat list \<Rightarrow> anlz_metadata \<Rightarrow> anlz_metadata" where
  "with_beats bs m =
     (if bs = [] then m
      else let m1 = m\<lparr>beats := Some bs, beat_count := of_nat (length bs)\<rparr>
      in if bpm_x100 (hd bs) > 0 then m1\<lparr>anlz_bpm := of_nat ((unat (bpm_x100 (hd bs)) + 50) div 100)\<rparr> else m1)"

lemma rounded_bpm: "(ucast ((ucast (b :: u16) + 50 :: u32) div 100) :: u16) = of_nat ((unat b + 50) div 100)"
proof -
  have b: "unat b < 2 ^ 16" using unsigned_less [of b, where 'a = nat] by simp
  have "unat (ucast b + 50 :: u32) = unat b + 50" using b by (simp add: unat_word_ariths unsigned_ucast_eq take_bit_nat_eq_self)
  then have "unat ((ucast b + 50 :: u32) div 100) = (unat b + 50) div 100" by (simp add: unat_div)
  moreover have "(ucast w :: u16) = of_nat (unat w)" for w :: u32 by simp
  ultimately show ?thesis by metis
qed

lemma pqtz_parsed:
  assumes "unread data s (section_tail (tag, pad, beats_body bs) @ rest)" "length data < 2 ^ 31" "length bs \<le> 0xFFFF" "ae_beats env"
  shows "\<exists>s'. parse_pqtz env m s = (s', with_beats bs m, ESP_OK) \<and> kept data s'"
proof -
  obtain s1 where s1: "parse_sizes s = (s1, Inr (of_nat (length (beats_body bs))))" "unread data s1 (beats_body bs @ rest)"
    using sizes_at [OF assms(1,2)] by blast
  have n: "unat ((of_nat (length (beats_body bs)) :: u32) div 8) = length bs"
    using word_count(2) [OF body_small [OF s1(2) assms(2)]] by (simp add: body_lengths)
  obtain s' where s': "read_beats (length bs) s1 = (s', bs)" "unread data s' rest" using beats_read [OF s1(2)] by blast
  show ?thesis
  proof (cases "bs = []")
    case True
    then show ?thesis using unread_kept [OF s1(2)] n by (simp add: parse_pqtz_def s1(1) with_beats_def Let_def)
  next
    case False
    then show ?thesis using unread_kept [OF s'(2)] s'(1) assms(3,4) n
      by (auto simp: parse_pqtz_def s1(1) with_beats_def rounded_bpm Let_def)
  qed
qed

lemma pwav_parsed:
  assumes "unread data s (section_tail (tag, pad, cols) @ rest)" "length data < 2 ^ 31" "length cols \<le> 400" "length (waveform_low m) = 400"
  shows "\<exists>s'. parse_pwav m s = (s', m\<lparr>waveform_low := cols @ drop (length cols) (waveform_low m), has_waveform_low := True\<rparr>, ESP_OK) \<and> kept data s'"
proof -
  obtain s1 where s1: "parse_sizes s = (s1, Inr (of_nat (length cols)))" "unread data s1 (cols @ rest)"
    using sizes_at [OF assms(1,2)] by blast
  have n: "min (unat (of_nat (length cols) :: u32)) 400 = length cols"
    using unat_of_nat32 [OF body_small [OF s1(2) assms(2)]] assms(3) by simp
  have "mem_copy 0 cols (waveform_low m) = cols @ drop (length cols) (waveform_low m)" by (simp add: mem_copy_def)
  then show ?thesis using unread_kept [OF unread_skipped [OF s1(2) refl]]
    by (simp add: parse_pwav_def s1(1) n read_at [OF s1(2) refl] Let_def)
qed

lemma pcob_parsed:
  assumes "unread data s (section_tail (tag, pad, cues_body cs) @ rest)" "length data < 2 ^ 31" "length cs \<le> 8" "list_all cue_ok cs"
  shows "\<exists>s'. parse_pcob m s = (s', m\<lparr>cues := cs\<rparr>, ESP_OK) \<and> kept data s'"
proof -
  obtain s1 where s1: "parse_sizes s = (s1, Inr (of_nat (length (cues_body cs))))" "unread data s1 (cues_body cs @ rest)"
    using sizes_at [OF assms(1,2)] by blast
  have n: "unat ((of_nat (length (cues_body cs)) :: u32) div 56) = length cs"
    using word_count(3) [OF body_small [OF s1(2) assms(2)]] by (simp add: body_lengths)
  obtain s' more where "read_cues (length cs) [] s1 = (s', cs)" "unread data s' more"
    using cues_read [OF s1(2) assms(4), of "[]"] assms(3) by auto
  then show ?thesis using unread_kept by (auto simp: parse_pcob_def s1(1) n Let_def)
qed

lemma pwv3_parsed:
  assumes "unread data s (section_tail (tag, pad, cols) @ rest)" "length data < 2 ^ 31" "0 < length cols" "length cols \<le> 131072" "ae_high env"
  shows "\<exists>s'. parse_pwv3 env m s = (s', m\<lparr>waveform_high := Some cols, waveform_high_len := of_nat (length cols)\<rparr>, ESP_OK) \<and> kept data s'"
proof -
  obtain s1 where s1: "parse_sizes s = (s1, Inr (of_nat (length cols)))" "unread data s1 (cols @ rest)"
    using sizes_at [OF assms(1,2)] by blast
  have u: "unat (of_nat (length cols) :: u32) = length cols" by (rule unat_of_nat32 [OF body_small [OF s1(2) assms(2)]])
  then have nz: "(of_nat (length cols) :: u32) \<noteq> 0" using assms(3) by (metis less_irrefl unat_0)
  have n: "min (unat (of_nat (length cols) :: u32)) 131072 = length cols" using u assms(4) by simp
  show ?thesis using unread_kept [OF unread_skipped [OF s1(2) refl]] nz assms(5)
    by (simp add: parse_pwv3_def s1(1) n read_at [OF s1(2) refl] Let_def)
qed

section \<open>Whole files\<close>

text \<open>What a DAT file says of a track; the optional parts may be missing from the file.\<close>

record analysis =
  an_path :: "u32 list"
  an_vbr :: "u32 list option"
  an_beats :: "anlz_beat list option"
  an_wave :: "u8 list option"
  an_cues :: "anlz_cue list option"

definition given :: "'a list option \<Rightarrow> 'a list" where
  "given x = (case x of None \<Rightarrow> [] | Some xs \<Rightarrow> xs)"

definition analysis_ok :: "analysis \<Rightarrow> bool" where
  "analysis_ok a \<longleftrightarrow> an_path a \<noteq> [] \<and> list_all scalar (an_path a) \<and> length (path_text (an_path a)) < ANLZ_PATH_MAX \<and>
     length (path_body (an_path a)) \<le> 1024 \<and> length (given (an_vbr a)) \<le> ANLZ_VBR_TABLE_LEN \<and> length (given (an_beats a)) \<le> ANLZ_MAX_BEATS \<and>
     length (given (an_wave a)) \<le> ANLZ_WAVEFORM_LOW_LEN \<and> length (given (an_cues a)) \<le> ANLZ_MAX_CUES \<and> list_all cue_ok (given (an_cues a))"

text \<open>The sections hold the analysis, in any order and among sections of other tags.\<close>

definition dat_sections :: "analysis \<Rightarrow> section_spec list \<Rightarrow> bool" where
  "dat_sections a secs \<longleftrightarrow> list_all (\<lambda>sec. fst sec \<noteq> ANLZ_TAG_PMAI) secs \<and>
     section_data ANLZ_TAG_PPTH secs = Some (path_body (an_path a)) \<and>
     section_data ANLZ_TAG_PVBR secs = map_option vbr_body (an_vbr a) \<and>
     section_data ANLZ_TAG_PQTZ secs = map_option beats_body (an_beats a) \<and>
     section_data ANLZ_TAG_PWAV secs = an_wave a \<and>
     section_data ANLZ_TAG_PCOB secs = map_option cues_body (an_cues a)"

definition metadata_of :: "analysis \<Rightarrow> anlz_metadata" where
  "metadata_of a =
     (let bs = given (an_beats a)
      in \<lparr>audio_path = path_text (an_path a), beats = (if bs = [] then None else Some bs), beat_count = of_nat (length bs),
          anlz_bpm = (if bs = [] then 0 else of_nat ((unat (bpm_x100 (hd bs)) + 50) div 100)), cues = given (an_cues a),
          vbr = given (an_vbr a) @ replicate (400 - length (given (an_vbr a))) 0, has_vbr = (given (an_vbr a) \<noteq> []),
          waveform_low = given (an_wave a) @ replicate (400 - length (given (an_wave a))) 0, has_waveform_low = (an_wave a \<noteq> None),
          waveform_high = None, waveform_high_len = 0\<rparr>)"

lemma parse_one_read:
  assumes "length data < 2 ^ 31" "list_all (\<lambda>sec. fst sec \<noteq> ANLZ_TAG_PMAI) secs" "tag \<noteq> ANLZ_TAG_PMAI"
    "data = anlz_file pad filesz secs" "f_data (a_fp s) = data"
  shows "section_data tag secs = None \<Longrightarrow> \<exists>s'. parse_one_strict env tag m s = (s', m, False, ESP_OK) \<and> f_data (a_fp s') = data"
    "section_data tag secs = Some body \<Longrightarrow>
     (\<And>s1 pad rest. unread data s1 (section_tail (tag, pad, body) @ rest) \<Longrightarrow> \<exists>s2. tag_parser env tag m s1 = (s2, m', ESP_OK) \<and> kept data s2) \<Longrightarrow>
     \<exists>s'. parse_one_strict env tag m s = (s', m', True, ESP_OK) \<and> f_data (a_fp s') = data"
proof -
  obtain s1 walk where w: "walk_sections_for_tag tag (s\<lparr>short_read := False\<rparr>) = (s1, walk)" by fastforce
  have ok: "walked tag data secs (s1, walk)"
    using walk_file [OF assms(1,2,3,4), of "s\<lparr>short_read := False\<rparr>"] assms(5) w by simp
  show "\<exists>s'. parse_one_strict env tag m s = (s', m, False, ESP_OK) \<and> f_data (a_fp s') = data" if "section_data tag secs = None"
    using ok that by (simp add: walked_def section_data_def parse_one_strict_def w Let_def)
  show "\<exists>s'. parse_one_strict env tag m s = (s', m', True, ESP_OK) \<and> f_data (a_fp s') = data"
    if body: "section_data tag secs = Some body"
      and parse: "\<And>s1 pad rest. unread data s1 (section_tail (tag, pad, body) @ rest) \<Longrightarrow>
        \<exists>s2. tag_parser env tag m s1 = (s2, m', ESP_OK) \<and> kept data s2"
  proof -
    obtain sec where sec: "find (\<lambda>sec. fst sec = tag) secs = Some sec" "snd (snd sec) = body" using body by (auto simp: section_data_def)
    then have "fst sec = tag" by (simp add: find_Some_iff) blast
    then obtain pd where pd: "sec = (tag, pd, body)" using sec(2) by (cases sec) auto
    obtain rest where "walk = TAG_WALK_FOUND" "\<not> short_read s1" "unread data s1 (section_tail (tag, pd, body) @ rest)"
      using ok sec(1) pd by (auto simp: walked_def)
    then show ?thesis using parse by (fastforce simp: parse_one_strict_def w Let_def)
  qed
qed

text \<open>A file of the format, for the lemmas below.\<close>

definition dat_file :: "u8 list \<Rightarrow> section_spec list \<Rightarrow> bool" where
  "dat_file data secs \<longleftrightarrow> length data < 2 ^ 31 \<and> list_all (\<lambda>sec. fst sec \<noteq> ANLZ_TAG_PMAI) secs \<and> (\<exists>pad filesz. data = anlz_file pad filesz secs)"

lemma tag_absent:
  "dat_file data secs \<Longrightarrow> f_data (a_fp s) = data \<Longrightarrow> tag \<noteq> ANLZ_TAG_PMAI \<Longrightarrow> section_data tag secs = None \<Longrightarrow>
   \<exists>s'. parse_one_strict env tag m s = (s', m, False, ESP_OK) \<and> f_data (a_fp s') = data"
  using parse_one_read(1) by (auto simp: dat_file_def)

text \<open>The parser of a tag turns \<open>m\<close> into \<open>m'\<close> wherever a section with this body stands.\<close>

definition parses :: "u8 list \<Rightarrow> anlz_env \<Rightarrow> u32 \<Rightarrow> u8 list \<Rightarrow> anlz_metadata \<Rightarrow> anlz_metadata \<Rightarrow> bool" where
  "parses data env tag body m m' \<longleftrightarrow>
     (\<forall>s pad rest. unread data s (section_tail (tag, pad, body) @ rest) \<longrightarrow> (\<exists>s'. tag_parser env tag m s = (s', m', ESP_OK) \<and> kept data s'))"

lemma parsesI:
  "(\<And>s pad rest. unread data s (section_tail (tag, pad, body) @ rest) \<Longrightarrow> \<exists>s'. tag_parser env tag m s = (s', m', ESP_OK) \<and> kept data s') \<Longrightarrow>
   parses data env tag body m m'"
  unfolding parses_def by blast

lemma tag_found:
  assumes "dat_file data secs" "f_data (a_fp s) = data" "tag \<noteq> ANLZ_TAG_PMAI" "section_data tag secs = Some body" "parses data env tag body m m'"
  shows "\<exists>s'. parse_one_strict env tag m s = (s', m', True, ESP_OK) \<and> f_data (a_fp s') = data"
proof -
  obtain pad filesz where "length data < 2 ^ 31" "list_all (\<lambda>sec. fst sec \<noteq> ANLZ_TAG_PMAI) secs" "data = anlz_file pad filesz secs"
    using assms(1) by (auto simp: dat_file_def)
  note read = parse_one_read(2) [OF this(1,2) assms(3) this(3) assms(2,4)]
  show ?thesis by (rule read) (insert assms(5) [unfolded parses_def], blast)
qed

lemma vbr_step:
  assumes f: "dat_file data secs" "f_data (a_fp s) = data" and d: "section_data ANLZ_TAG_PVBR secs = map_option vbr_body x"
    "length (given x) \<le> 400" and m: "length (vbr m) = 400" "\<not> has_vbr m"
  shows "\<exists>s' found. parse_one_strict env ANLZ_TAG_PVBR m s =
      (s', m\<lparr>vbr := given x @ drop (length (given x)) (vbr m), has_vbr := given x \<noteq> []\<rparr>, found, ESP_OK) \<and> f_data (a_fp s') = data"
proof (cases x)
  case None
  then have "m\<lparr>vbr := given x @ drop (length (given x)) (vbr m), has_vbr := given x \<noteq> []\<rparr> = m" using m(2) by (cases m) (simp add: given_def)
  then show ?thesis using tag_absent [OF f, of ANLZ_TAG_PVBR env m] d(1) None by auto
next
  case (Some offs)
  have p: "parses data env ANLZ_TAG_PVBR (vbr_body offs) m (m\<lparr>vbr := offs @ drop (length offs) (vbr m), has_vbr := offs \<noteq> []\<rparr>)"
  proof (rule parsesI)
    fix s1 pad rest assume that: "unread data s1 (section_tail (ANLZ_TAG_PVBR, pad, vbr_body offs) @ rest)"
    show "\<exists>s2. tag_parser env ANLZ_TAG_PVBR m s1 = (s2, m\<lparr>vbr := offs @ drop (length offs) (vbr m), has_vbr := offs \<noteq> []\<rparr>, ESP_OK) \<and> kept data s2"
      using pvbr_parsed [OF that _ _ m(1)] f(1) d(2) Some by (simp add: tag_parser_def dat_file_def given_def)
  qed
  show ?thesis using tag_found [OF f _ _ p] d(1) Some by (auto simp: given_def)
qed

lemma beats_step:
  assumes f: "dat_file data secs" "f_data (a_fp s) = data" and d: "section_data ANLZ_TAG_PQTZ secs = map_option beats_body x"
    "length (given x) \<le> 0xFFFF" and env: "ae_beats env"
  shows "\<exists>s' found. parse_one_strict env ANLZ_TAG_PQTZ m s = (s', with_beats (given x) m, found, ESP_OK) \<and> f_data (a_fp s') = data"
proof (cases x)
  case None
  then show ?thesis using tag_absent [OF f, of ANLZ_TAG_PQTZ env m] d(1) by (auto simp: given_def with_beats_def)
next
  case (Some bs)
  have p: "parses data env ANLZ_TAG_PQTZ (beats_body bs) m (with_beats bs m)"
  proof (rule parsesI)
    fix s1 pad rest assume that: "unread data s1 (section_tail (ANLZ_TAG_PQTZ, pad, beats_body bs) @ rest)"
    show "\<exists>s2. tag_parser env ANLZ_TAG_PQTZ m s1 = (s2, with_beats bs m, ESP_OK) \<and> kept data s2"
      using pqtz_parsed [OF that _ _ env] f(1) d(2) Some by (simp add: tag_parser_def dat_file_def given_def)
  qed
  show ?thesis using tag_found [OF f _ _ p] d(1) Some by (auto simp: given_def)
qed

lemma wave_step:
  assumes f: "dat_file data secs" "f_data (a_fp s) = data" and d: "section_data ANLZ_TAG_PWAV secs = x" "length (given x) \<le> 400"
    and m: "length (waveform_low m) = 400" "\<not> has_waveform_low m"
  shows "\<exists>s' found. parse_one_strict env ANLZ_TAG_PWAV m s =
      (s', m\<lparr>waveform_low := given x @ drop (length (given x)) (waveform_low m), has_waveform_low := x \<noteq> None\<rparr>, found, ESP_OK) \<and> f_data (a_fp s') = data"
proof (cases x)
  case None
  then have "m\<lparr>waveform_low := given x @ drop (length (given x)) (waveform_low m), has_waveform_low := x \<noteq> None\<rparr> = m"
    using m(2) by (cases m) (simp add: given_def)
  then show ?thesis using tag_absent [OF f, of ANLZ_TAG_PWAV env m] d(1) None by auto
next
  case (Some cols)
  have p: "parses data env ANLZ_TAG_PWAV cols m (m\<lparr>waveform_low := cols @ drop (length cols) (waveform_low m), has_waveform_low := True\<rparr>)"
  proof (rule parsesI)
    fix s1 pad rest assume that: "unread data s1 (section_tail (ANLZ_TAG_PWAV, pad, cols) @ rest)"
    show "\<exists>s2. tag_parser env ANLZ_TAG_PWAV m s1 = (s2, m\<lparr>waveform_low := cols @ drop (length cols) (waveform_low m), has_waveform_low := True\<rparr>, ESP_OK) \<and> kept data s2"
      using pwav_parsed [OF that _ _ m(1)] f(1) d(2) Some by (simp add: tag_parser_def dat_file_def given_def)
  qed
  show ?thesis using tag_found [OF f _ _ p] d(1) Some by (auto simp: given_def)
qed

lemma cues_step:
  assumes f: "dat_file data secs" "f_data (a_fp s) = data" and d: "section_data ANLZ_TAG_PCOB secs = map_option cues_body x"
    "length (given x) \<le> 8" "list_all cue_ok (given x)" and m: "cues m = []"
  shows "\<exists>s' found. parse_one_strict env ANLZ_TAG_PCOB m s = (s', m\<lparr>cues := given x\<rparr>, found, ESP_OK) \<and> f_data (a_fp s') = data"
proof (cases x)
  case None
  then have "m\<lparr>cues := given x\<rparr> = m" using m by (cases m) (simp add: given_def)
  then show ?thesis using tag_absent [OF f, of ANLZ_TAG_PCOB env m] d(1) None by auto
next
  case (Some cs)
  have p: "parses data env ANLZ_TAG_PCOB (cues_body cs) m (m\<lparr>cues := cs\<rparr>)"
  proof (rule parsesI)
    fix s1 pad rest assume that: "unread data s1 (section_tail (ANLZ_TAG_PCOB, pad, cues_body cs) @ rest)"
    show "\<exists>s2. tag_parser env ANLZ_TAG_PCOB m s1 = (s2, m\<lparr>cues := cs\<rparr>, ESP_OK) \<and> kept data s2"
      using pcob_parsed [OF that] f(1) d(2,3) Some by (simp add: tag_parser_def dat_file_def given_def)
  qed
  show ?thesis using tag_found [OF f _ _ p] d(1) Some by (auto simp: given_def)
qed

lemma path_step:
  assumes f: "dat_file data secs" "f_data (a_fp s) = data" and d: "section_data ANLZ_TAG_PPTH secs = Some (path_body cps)"
    "list_all scalar cps" "length (path_text cps) < 512" "length (path_body cps) \<le> 1024"
  shows "\<exists>s'. parse_one_strict env ANLZ_TAG_PPTH m s = (s', m\<lparr>audio_path := path_text cps\<rparr>, True, ESP_OK) \<and> f_data (a_fp s') = data"
proof -
  have p: "parses data env ANLZ_TAG_PPTH (path_body cps) m (m\<lparr>audio_path := path_text cps\<rparr>)"
  proof (rule parsesI)
    fix s1 pad rest assume that: "unread data s1 (section_tail (ANLZ_TAG_PPTH, pad, path_body cps) @ rest)"
    show "\<exists>s2. tag_parser env ANLZ_TAG_PPTH m s1 = (s2, m\<lparr>audio_path := path_text cps\<rparr>, ESP_OK) \<and> kept data s2"
      using ppth_parsed [OF that _ d(2,3,4)] f(1) by (simp add: tag_parser_def dat_file_def)
  qed
  show ?thesis using tag_found [OF f _ d(1) p] by simp
qed

lemma path_text_nonempty: "cps \<noteq> [] \<Longrightarrow> path_text cps \<noteq> []"
  using utf8_length(1) [of "slash (hd cps)"] by (cases cps) (auto simp: path_text_def)

lemma with_beats_fields:
  "cues (with_beats bs m) = cues m" "vbr (with_beats bs m) = vbr m" "waveform_low (with_beats bs m) = waveform_low m"
  "has_waveform_low (with_beats bs m) = has_waveform_low m" "audio_path (with_beats bs m) = audio_path m" "has_vbr (with_beats bs m) = has_vbr m"
  by (simp_all add: with_beats_def Let_def)

lemma metadata_steps:
  "metadata_of a = (with_beats (given (an_beats a)) (anlz_zero\<lparr>audio_path := path_text (an_path a),
       vbr := given (an_vbr a) @ drop (length (given (an_vbr a))) (replicate 400 0), has_vbr := given (an_vbr a) \<noteq> []\<rparr>))
     \<lparr>waveform_low := given (an_wave a) @ drop (length (given (an_wave a))) (replicate 400 0), has_waveform_low := an_wave a \<noteq> None,
      cues := given (an_cues a)\<rparr>"
proof -
  have "\<not> 0 < bpm_x100 b \<Longrightarrow> unat (bpm_x100 b) = 0" for b :: anlz_beat by (simp add: word_neq_0_conv [symmetric])
  then show ?thesis by (auto simp: metadata_of_def with_beats_def anlz_zero_def Let_def)
qed

lemma dat_read:
  assumes "dat_file data secs" "analysis_ok a" "dat_sections a secs" "ae_beats env"
  shows "anlz_parse_dat env (Some data) out = (metadata_of a, ESP_OK)"
proof -
  note ok = assms(2) [unfolded analysis_ok_def] and d = assms(3) [unfolded dat_sections_def]
  define m1 where "m1 = anlz_zero\<lparr>audio_path := path_text (an_path a)\<rparr>"
  define m2 where "m2 = m1\<lparr>vbr := given (an_vbr a) @ drop (length (given (an_vbr a))) (vbr m1), has_vbr := given (an_vbr a) \<noteq> []\<rparr>"
  define m3 where "m3 = with_beats (given (an_beats a)) m2"
  define m4 where "m4 = m3\<lparr>waveform_low := given (an_wave a) @ drop (length (given (an_wave a))) (waveform_low m3), has_waveform_low := an_wave a \<noteq> None\<rparr>"
  define m5 where "m5 = m4\<lparr>cues := given (an_cues a)\<rparr>"
  have z: "length (vbr m1) = 400" "\<not> has_vbr m1" "length (waveform_low m3) = 400" "\<not> has_waveform_low m3" "cues m4 = []"
    by (simp_all add: m1_def m2_def m3_def m4_def with_beats_fields anlz_zero_def)
  have o: "f_data (a_fp (open_in data)) = data" by (simp add: open_in_def)
  obtain s1 where s1: "parse_one_strict env ANLZ_TAG_PPTH anlz_zero (open_in data) = (s1, m1, True, ESP_OK)" "f_data (a_fp s1) = data"
    using path_step [OF assms(1) o, of "an_path a" env anlz_zero] ok d by (auto simp: m1_def)
  obtain s2 f2 where s2: "parse_one_strict env ANLZ_TAG_PVBR m1 s1 = (s2, m2, f2, ESP_OK)" "f_data (a_fp s2) = data"
    using vbr_step [OF assms(1) s1(2), of "an_vbr a" m1 env] ok d z by (auto simp: m2_def)
  obtain s3 f3 where s3: "parse_one_strict env ANLZ_TAG_PQTZ m2 s2 = (s3, m3, f3, ESP_OK)" "f_data (a_fp s3) = data"
    using beats_step [OF assms(1) s2(2), of "an_beats a" env m2] ok d assms(4) by (auto simp: m3_def)
  obtain s4 f4 where s4: "parse_one_strict env ANLZ_TAG_PWAV m3 s3 = (s4, m4, f4, ESP_OK)" "f_data (a_fp s4) = data"
    using wave_step [OF assms(1) s3(2), of "an_wave a" m3 env] ok d z by (auto simp: m4_def)
  obtain s5 f5 where s5: "parse_one_strict env ANLZ_TAG_PCOB m4 s4 = (s5, m5, f5, ESP_OK)" "f_data (a_fp s5) = data"
    using cues_step [OF assms(1) s4(2), of "an_cues a" m4 env] ok d z by (auto simp: m5_def)
  have path: "audio_path m1 \<noteq> []" using ok path_text_nonempty by (simp add: m1_def)
  have m: "m5 = metadata_of a"
    unfolding metadata_steps m5_def m4_def m3_def m2_def m1_def by (simp add: with_beats_fields anlz_zero_def)
  show ?thesis using path m by (simp add: anlz_parse_dat_def s1(1) s2(1) s3(1) s4(1) s5(1) Let_def)
qed

lemma ext_read:
  assumes "dat_file data secs" "section_data ANLZ_TAG_PWV3 secs = Some cols" "0 < length cols" "length cols \<le> 131072" "ae_high env"
    "anlz_ok m" "beat_count m > 0 \<longrightarrow> ae_clone_beats env" "waveform_high_len m > 0 \<longrightarrow> ae_clone_high env"
  shows "anlz_parse_ext env (Some data) m = (m\<lparr>waveform_high := Some cols, waveform_high_len := of_nat (length cols)\<rparr>, ESP_OK)"
proof -
  have "snd (anlz_clone env m) = ESP_OK"
    using assms(6,7,8) by (auto simp: anlz_clone_def anlz_ok_def Let_def split: if_splits)
  then have c: "anlz_clone env m = (m, ESP_OK)" using clone_exact [OF _ assms(6)] by (metis prod.collapse)
  have p: "parses data env ANLZ_TAG_PWV3 cols m (m\<lparr>waveform_high := Some cols, waveform_high_len := of_nat (length cols)\<rparr>)"
  proof (rule parsesI)
    fix s pad rest assume that: "unread data s (section_tail (ANLZ_TAG_PWV3, pad, cols) @ rest)"
    show "\<exists>s'. tag_parser env ANLZ_TAG_PWV3 m s = (s', m\<lparr>waveform_high := Some cols, waveform_high_len := of_nat (length cols)\<rparr>, ESP_OK) \<and> kept data s'"
      using pwv3_parsed [OF that _ assms(3,4,5)] assms(1) by (simp add: tag_parser_def dat_file_def)
  qed
  obtain s' where "parse_one_strict env ANLZ_TAG_PWV3 m (open_in data) =
      (s', m\<lparr>waveform_high := Some cols, waveform_high_len := of_nat (length cols)\<rparr>, True, ESP_OK)"
    using tag_found [OF assms(1) _ _ assms(2) p, of "open_in data"] by (auto simp: open_in_def)
  then show ?thesis by (simp add: anlz_parse_ext_def c)
qed

text \<open>A track \<open>\A\<close> followed by a character outside the basic plane, with one beat and one cue; an unknown section holds the bytes of a tag.\<close>

definition demo_analysis :: analysis where
  "demo_analysis = \<lparr>an_path = [0x5C, 0x41, 0x1F3B5], an_vbr = None, an_beats = Some [\<lparr>beat_phase = 1, bpm_x100 = 12850, time_ms = 25\<rparr>],
     an_wave = None, an_cues = Some [\<lparr>cue_type = ANLZ_CUE_SINGLE, cue_index = 0, start_ms = 1000, end_ms = 0\<rparr>]\<rparr>"

definition demo_sections :: "section_spec list" where
  "demo_sections = [(ANLZ_TAG_PQTZ, replicate 12 0, beats_body (given (an_beats demo_analysis))),
     (0x50515432, [], wr_be32 ANLZ_TAG_PPTH @ wr_be32 12 @ wr_be32 0),
     (ANLZ_TAG_PPTH, [0, 0, 0, 0], path_body (an_path demo_analysis)),
     (ANLZ_TAG_PCOB, [], cues_body (given (an_cues demo_analysis)))]"

lemma demo_path: "path_body (an_path demo_analysis) = [0, 0x5C, 0, 0x41, 0xD8, 0x3C, 0xDF, 0xB5, 0, 0]"
    "path_text (an_path demo_analysis) = [0x2F, 0x41, 0xF0, 0x9F, 0x8E, 0xB5]"
  by (simp_all add: path_body_def path_text_def demo_analysis_def utf16_def utf8_def slash_def wr_be16_def wr_u16_def)

lemma demo_ok: "analysis_ok demo_analysis"
  unfolding analysis_ok_def demo_path by (simp add: demo_analysis_def scalar_def given_def cue_ok_def)

lemma demo_holds: "dat_sections demo_analysis demo_sections"
  by (simp add: dat_sections_def demo_sections_def section_data_def) (simp add: demo_analysis_def given_def)

lemma demo_length: "length (anlz_file [] 0 demo_sections) = 12 + 32 + 24 + 26 + 68"
  unfolding anlz_file_def demo_sections_def demo_path by (simp add: body_lengths) (simp add: demo_analysis_def given_def)

text \<open>
  Claim C39.  Analysis files are read back exactly: from a DAT file that holds the path, the seek table, the beat grid, the
  waveform and the cues in sections of any order, with any padding, among sections of any other tags and contents, the reader
  delivers exactly those, the path in UTF-8 with forward slashes; an EXT file then adds exactly its waveform.
\<close>

theorem analysis_read_back:
  assumes "analysis_ok a" "dat_sections a secs" "length (anlz_file pad filesz secs) < 2 ^ 31" "ae_beats env"
    "list_all (\<lambda>sec. fst sec \<noteq> ANLZ_TAG_PMAI) ext_secs" "section_data ANLZ_TAG_PWV3 ext_secs = Some cols"
    "0 < length cols" "length cols \<le> ANLZ_WAVEFORM_HIGH_MAX" "length (anlz_file ext_pad ext_filesz ext_secs) < 2 ^ 31" "ae_high env" "ae_clone_beats env"
  shows "anlz_parse_dat env (Some (anlz_file pad filesz secs)) out = (metadata_of a, ESP_OK) \<and>
    anlz_parse_ext env (Some (anlz_file ext_pad ext_filesz ext_secs)) (metadata_of a) =
      ((metadata_of a)\<lparr>waveform_high := Some cols, waveform_high_len := of_nat (length cols)\<rparr>, ESP_OK)"
proof -
  have dat: "dat_file (anlz_file pad filesz secs) secs" and ext: "dat_file (anlz_file ext_pad ext_filesz ext_secs) ext_secs"
    using assms(2,3,5,9) by (auto simp: dat_file_def dat_sections_def)
  note read = dat_read [OF dat assms(1,2,4)]
  have "anlz_ok (metadata_of a)" using parse_dat_ok read by blast
  moreover have "waveform_high_len (metadata_of a) = 0" by (simp add: metadata_of_def Let_def)
  ultimately show ?thesis using read ext_read [OF ext assms(6,7,8,10)] assms(11) by simp
qed

theorem analysis_read_back_witness:
  "\<exists>m. anlz_parse_dat \<lparr>ae_beats = True, ae_high = True, ae_clone_beats = True, ae_clone_high = True\<rparr> (Some (anlz_file [] 0 demo_sections)) anlz_zero = (m, ESP_OK) \<and>
     audio_path m = [0x2F, 0x41, 0xF0, 0x9F, 0x8E, 0xB5] \<and> anlz_bpm m = 129 \<and> length (cues m) = 1 \<and>
     anlz_parse_ext \<lparr>ae_beats = True, ae_high = True, ae_clone_beats = True, ae_clone_high = True\<rparr>
       (Some (anlz_file [] 0 [(ANLZ_TAG_PWV3, [], [7, 8, 9])])) m = (m\<lparr>waveform_high := Some [7, 8, 9], waveform_high_len := 3\<rparr>, ESP_OK)"
proof -
  have "length (anlz_file [] 0 demo_sections) < 2 ^ 31" unfolding demo_length by simp
  moreover have "length (anlz_file [] 0 [(ANLZ_TAG_PWV3, [], [7, 8, 9])]) < 2 ^ 31" by (simp add: anlz_file_def)
  moreover have "audio_path (metadata_of demo_analysis) = [0x2F, 0x41, 0xF0, 0x9F, 0x8E, 0xB5]" "anlz_bpm (metadata_of demo_analysis) = 129"
    "length (cues (metadata_of demo_analysis)) = 1"
    by (simp_all add: metadata_of_def demo_path Let_def) (simp_all add: demo_analysis_def given_def)
  ultimately show ?thesis
    using analysis_read_back [OF demo_ok demo_holds, of "[]" 0 "\<lparr>ae_beats = True, ae_high = True, ae_clone_beats = True, ae_clone_high = True\<rparr>"
      "[(ANLZ_TAG_PWV3, [], [7, 8, 9])]" "[7, 8, 9]" "[]" 0 anlz_zero] by (simp add: section_data_def)
qed

end
