(* ===== verification/Ota_Manifest.thy ===== *)
theory Ota_Manifest
  imports Media_Text
begin

text \<open>
  The header of a firmware bundle (\<open>ota_manifest.c\<close>) and the check of its signature (\<open>ota_manifest_crypto.c\<close>).  The hash and
  the elliptic-curve verification of the crypto library, and the release key in the image, are parameters.
\<close>

section \<open>The header\<close>

abbreviation (input) DDJ_OTA_BUNDLE_MAGIC :: "u8 list" where "DDJ_OTA_BUNDLE_MAGIC \<equiv> [0x44, 0x44, 0x4A, 0x4F, 0x54, 0x41, 0x31, 0]"
abbreviation (input) DDJ_OTA_SCHEMA_VERSION :: u16 where "DDJ_OTA_SCHEMA_VERSION \<equiv> 1"
abbreviation (input) DDJ_OTA_HEADER_SIZE :: nat where "DDJ_OTA_HEADER_SIZE \<equiv> 188"
abbreviation (input) DDJ_OTA_SIGNED_SIZE :: nat where "DDJ_OTA_SIGNED_SIZE \<equiv> 124"
abbreviation (input) DDJ_OTA_SIGNATURE_SIZE :: nat where "DDJ_OTA_SIGNATURE_SIZE \<equiv> 64"
abbreviation (input) DDJ_OTA_PROJECT_SIZE :: nat where "DDJ_OTA_PROJECT_SIZE \<equiv> 32"
abbreviation (input) DDJ_OTA_VERSION_SIZE :: nat where "DDJ_OTA_VERSION_SIZE \<equiv> 32"
abbreviation (input) DDJ_OTA_SHA256_SIZE :: nat where "DDJ_OTA_SHA256_SIZE \<equiv> 32"
abbreviation (input) DDJ_OTA_KEY_ID_SIZE :: nat where "DDJ_OTA_KEY_ID_SIZE \<equiv> 8"
abbreviation (input) DDJ_OTA_RELEASE_KEY_ID :: "u8 list" where "DDJ_OTA_RELEASE_KEY_ID \<equiv> [0x72, 0x65, 0x6C, 0x2D, 0x30, 0x30, 0x31]"
abbreviation (input) DDJ_OTA_OFFSET_SCHEMA :: nat where "DDJ_OTA_OFFSET_SCHEMA \<equiv> 8"
abbreviation (input) DDJ_OTA_OFFSET_HEADER_SIZE :: nat where "DDJ_OTA_OFFSET_HEADER_SIZE \<equiv> 10"
abbreviation (input) DDJ_OTA_OFFSET_TARGET :: nat where "DDJ_OTA_OFFSET_TARGET \<equiv> 12"
abbreviation (input) DDJ_OTA_OFFSET_FLAGS :: nat where "DDJ_OTA_OFFSET_FLAGS \<equiv> 13"
abbreviation (input) DDJ_OTA_OFFSET_CHIP_ID :: nat where "DDJ_OTA_OFFSET_CHIP_ID \<equiv> 14"
abbreviation (input) DDJ_OTA_OFFSET_IMAGE_SIZE :: nat where "DDJ_OTA_OFFSET_IMAGE_SIZE \<equiv> 16"
abbreviation (input) DDJ_OTA_OFFSET_PROJECT :: nat where "DDJ_OTA_OFFSET_PROJECT \<equiv> 20"
abbreviation (input) DDJ_OTA_OFFSET_VERSION :: nat where "DDJ_OTA_OFFSET_VERSION \<equiv> 52"
abbreviation (input) DDJ_OTA_OFFSET_SHA256 :: nat where "DDJ_OTA_OFFSET_SHA256 \<equiv> 84"
abbreviation (input) DDJ_OTA_OFFSET_KEY_ID :: nat where "DDJ_OTA_OFFSET_KEY_ID \<equiv> 116"
abbreviation (input) DDJ_OTA_OFFSET_SIGNATURE :: nat where "DDJ_OTA_OFFSET_SIGNATURE \<equiv> 124"

text \<open>A string literal of the code, as bytes.\<close>

definition ascii :: "string \<Rightarrow> u8 list" where
  "ascii s = map of_char s"

datatype ddj_ota_target = DDJ_OTA_TARGET_P4 | DDJ_OTA_TARGET_S3

fun target_code :: "ddj_ota_target \<Rightarrow> u8" where
  "target_code DDJ_OTA_TARGET_P4 = 1"
| "target_code DDJ_OTA_TARGET_S3 = 2"

datatype ddj_ota_manifest_result =
    DDJ_OTA_MANIFEST_OK | DDJ_OTA_MANIFEST_INVALID_ARGUMENT | DDJ_OTA_MANIFEST_BAD_MAGIC | DDJ_OTA_MANIFEST_BAD_SCHEMA
  | DDJ_OTA_MANIFEST_BAD_HEADER_SIZE | DDJ_OTA_MANIFEST_WRONG_TARGET | DDJ_OTA_MANIFEST_WRONG_CHIP | DDJ_OTA_MANIFEST_BAD_FLAGS
  | DDJ_OTA_MANIFEST_BAD_IMAGE_SIZE | DDJ_OTA_MANIFEST_WRONG_PROJECT | DDJ_OTA_MANIFEST_BAD_VERSION | DDJ_OTA_MANIFEST_WRONG_KEY
  | DDJ_OTA_MANIFEST_BAD_SIGNATURE

record ddj_ota_manifest =
  om_target :: ddj_ota_target
  om_chip_id :: u16
  om_image_size :: u32
  om_project :: "u8 list"
  om_version :: "u8 list"
  om_image_sha256 :: "u8 list"
  om_key_id :: "u8 list"

text \<open>A text in a field of fixed size: the string before the first zero, which must be there, with only zeros after it.\<close>

definition copy_fixed_text :: "nat \<Rightarrow> u8 list \<Rightarrow> u8 list option" where
  "copy_fixed_text dst_size src =
     (let n = length (takeWhile (\<lambda>c. c \<noteq> 0) src)
      in if n = length src \<or> n = 0 then None
         else if n \<ge> dst_size then None
         else if \<not> list_all (\<lambda>c. c = 0) (drop (n + 1) src) then None
         else Some (take n src))"

definition header_field :: "nat \<Rightarrow> nat \<Rightarrow> u8 list \<Rightarrow> u8 list" where
  "header_field off n header = take n (drop off header)"

definition ddj_ota_manifest_parse ::
  "u8 list \<Rightarrow> ddj_ota_target \<Rightarrow> u16 \<Rightarrow> u8 list \<Rightarrow> nat \<Rightarrow> ddj_ota_manifest_result + ddj_ota_manifest" where
  "ddj_ota_manifest_parse header expected_target expected_chip_id expected_project max_image_size =
     (if length header < DDJ_OTA_HEADER_SIZE then Inl DDJ_OTA_MANIFEST_BAD_HEADER_SIZE
      else if header_field 0 8 header \<noteq> DDJ_OTA_BUNDLE_MAGIC then Inl DDJ_OTA_MANIFEST_BAD_MAGIC
      else if rd_u16 header DDJ_OTA_OFFSET_SCHEMA \<noteq> DDJ_OTA_SCHEMA_VERSION then Inl DDJ_OTA_MANIFEST_BAD_SCHEMA
      else if rd_u16 header DDJ_OTA_OFFSET_HEADER_SIZE \<noteq> 188 then Inl DDJ_OTA_MANIFEST_BAD_HEADER_SIZE
      else if header ! DDJ_OTA_OFFSET_TARGET \<noteq> target_code expected_target then Inl DDJ_OTA_MANIFEST_WRONG_TARGET
      else if header ! DDJ_OTA_OFFSET_FLAGS \<noteq> 0 then Inl DDJ_OTA_MANIFEST_BAD_FLAGS
      else if rd_u16 header DDJ_OTA_OFFSET_CHIP_ID \<noteq> expected_chip_id then Inl DDJ_OTA_MANIFEST_WRONG_CHIP
      else let image_size = rd_u32 header DDJ_OTA_OFFSET_IMAGE_SIZE
      in if unat image_size < 24 \<or> unat image_size > max_image_size then Inl DDJ_OTA_MANIFEST_BAD_IMAGE_SIZE
         else case copy_fixed_text DDJ_OTA_PROJECT_SIZE (header_field DDJ_OTA_OFFSET_PROJECT DDJ_OTA_PROJECT_SIZE header) of
           None \<Rightarrow> Inl DDJ_OTA_MANIFEST_WRONG_PROJECT
         | Some project \<Rightarrow>
             if project \<noteq> expected_project then Inl DDJ_OTA_MANIFEST_WRONG_PROJECT
             else case copy_fixed_text DDJ_OTA_VERSION_SIZE (header_field DDJ_OTA_OFFSET_VERSION DDJ_OTA_VERSION_SIZE header) of
               None \<Rightarrow> Inl DDJ_OTA_MANIFEST_BAD_VERSION
             | Some version \<Rightarrow>
                 case copy_fixed_text (DDJ_OTA_KEY_ID_SIZE + 1) (header_field DDJ_OTA_OFFSET_KEY_ID DDJ_OTA_KEY_ID_SIZE header) of
                   None \<Rightarrow> Inl DDJ_OTA_MANIFEST_WRONG_KEY
                 | Some key_id \<Rightarrow>
                     if key_id \<noteq> DDJ_OTA_RELEASE_KEY_ID then Inl DDJ_OTA_MANIFEST_WRONG_KEY
                     else Inr \<lparr>om_target = expected_target, om_chip_id = expected_chip_id, om_image_size = image_size,
                       om_project = project, om_version = version,
                       om_image_sha256 = header_field DDJ_OTA_OFFSET_SHA256 DDJ_OTA_SHA256_SIZE header, om_key_id = key_id\<rparr>)"

section \<open>The signature\<close>

text \<open>The crypto library: SHA-256 (which may fail), and whether the release key can be used and accepts a signature.\<close>

record ota_crypto =
  psa_hash_compute :: "u8 list \<Rightarrow> u8 list option"
  release_key_ok :: bool
  pk_verify :: "u8 list \<Rightarrow> u8 list \<Rightarrow> bool"

definition write_der_integer :: "u8 list \<Rightarrow> u8 list" where
  "write_der_integer raw =
     (let first = length (takeWhile (\<lambda>b. b = 0) (take 31 raw));
          value_size = 32 - first;
          leading_zero = (raw ! first AND 0x80 \<noteq> 0)
      in [0x02, of_nat (value_size + (if leading_zero then 1 else 0))] @ (if leading_zero then [0] else []) @ take value_size (drop first raw))"

definition raw_signature_to_der :: "u8 list \<Rightarrow> u8 list" where
  "raw_signature_to_der raw =
     (let r = write_der_integer (take 32 raw); s = write_der_integer (take 32 (drop 32 raw))
      in [0x30, of_nat (length r + length s)] @ r @ s)"

definition ddj_ota_manifest_verify_signature :: "ota_crypto \<Rightarrow> u8 list \<Rightarrow> bool" where
  "ddj_ota_manifest_verify_signature crypto header =
     (if length header < DDJ_OTA_HEADER_SIZE then False
      else case psa_hash_compute crypto (take DDJ_OTA_SIGNED_SIZE header) of
        None \<Rightarrow> False
      | Some digest \<Rightarrow>
          if length digest \<noteq> DDJ_OTA_SHA256_SIZE then False
          else if \<not> release_key_ok crypto then False
          else pk_verify crypto digest (raw_signature_to_der (header_field DDJ_OTA_OFFSET_SIGNATURE DDJ_OTA_SIGNATURE_SIZE header)))"

section \<open>The parser accepts exactly the well-formed headers\<close>

definition text_field :: "nat \<Rightarrow> u8 list \<Rightarrow> u8 list" where
  "text_field n s = s @ replicate (n - length s) 0"

definition manifest_bytes :: "ddj_ota_manifest \<Rightarrow> u8 list" where
  "manifest_bytes m = DDJ_OTA_BUNDLE_MAGIC @ wr_u16 1 @ wr_u16 188 @ [target_code (om_target m), 0] @ wr_u16 (om_chip_id m) @
     wr_u32 (om_image_size m) @ text_field 32 (om_project m) @ text_field 32 (om_version m) @ om_image_sha256 m @ text_field 8 (om_key_id m)"

definition text_ok :: "nat \<Rightarrow> u8 list \<Rightarrow> bool" where
  "text_ok n s \<longleftrightarrow> s \<noteq> [] \<and> 0 \<notin> set s \<and> length s < n"

lemma all_zero: "list_all (\<lambda>c. c = 0) xs \<Longrightarrow> xs = replicate (length xs) (0 :: u8)"
  by (induction xs) auto

lemma fixed_text_iff:
  assumes "length src = n" "n \<le> dst"
  shows "copy_fixed_text dst src = Some s \<longleftrightarrow> text_ok n s \<and> src = text_field n s"
proof
  assume c: "copy_fixed_text dst src = Some s"
  let ?p = "takeWhile (\<lambda>c. c \<noteq> 0) src"
  have n: "length ?p \<noteq> length src" "length ?p \<noteq> 0" "list_all (\<lambda>c. c = 0) (drop (length ?p + 1) src)" "s = take (length ?p) src"
    using c by (auto simp: copy_fixed_text_def Let_def split: if_splits)
  have le: "length ?p < length src" using n(1) length_takeWhile_le [of "\<lambda>c. c \<noteq> 0" src] by linarith
  have s: "s = ?p" by (rule trans [OF n(4) takeWhile_eq_take [symmetric]])
  have z: "src ! length ?p = 0" using nth_length_takeWhile [OF le] by simp
  have d: "drop (length ?p) src = 0 # drop (length ?p + 1) src" using Cons_nth_drop_Suc [OF le] z by simp
  have "drop (length ?p + 1) src = replicate (length src - (length ?p + 1)) 0"
    using all_zero [OF n(3)] by simp
  moreover have "n - length s = Suc (length src - (length ?p + 1))" using le s assms(1) by simp
  ultimately have "drop (length ?p) src = replicate (n - length s) 0" unfolding d by (simp only: replicate_Suc)
  then have "src = text_field n s" using append_take_drop_id [of "length ?p" src] n(4) by (simp add: text_field_def)
  moreover have "text_ok n s" using n(2) le assms(1) set_takeWhileD [of 0 "\<lambda>c. c \<noteq> 0" src] by (auto simp: s text_ok_def)
  ultimately show "text_ok n s \<and> src = text_field n s" by simp
next
  assume r: "text_ok n s \<and> src = text_field n s"
  then have nz: "x \<in> set s \<Longrightarrow> x \<noteq> 0" for x by (auto simp: text_ok_def)
  have tw: "takeWhile (\<lambda>c. c \<noteq> 0) src = s"
    using r takeWhile_append2 [of s "\<lambda>c. c \<noteq> 0" "replicate (n - length s) 0", OF nz] by (simp add: text_field_def)
  have "length s < n" "s \<noteq> []" using r by (simp_all add: text_ok_def)
  then show "copy_fixed_text dst src = Some s" using r tw assms by (simp add: copy_fixed_text_def Let_def text_field_def list_all_iff)
qed

lemma wr_u32_rd: "wr_u32 (rd_u32 p i) = [p ! i, p ! (i + 1), p ! (i + 2), p ! (i + 3)]"
  unfolding wr_u32_def rd_u32_def and_ff by (simp, intro conjI bit_word_eqI) (auto simp: bit_simps dest: bit_imp_le_length)

text \<open>The fields of a header, and the header from its fields.\<close>

lemma header_split:
  assumes "188 \<le> length header"
  shows "take 124 header = header_field 0 8 header @ wr_u16 (rd_u16 header 8) @ wr_u16 (rd_u16 header 10) @ [header ! 12, header ! 13] @
    wr_u16 (rd_u16 header 14) @ wr_u32 (rd_u32 header 16) @ header_field 20 32 header @ header_field 52 32 header @
    header_field 84 32 header @ header_field 116 8 header"
proof -
  have w16: "wr_u16 (rd_u16 header i) = take 2 (drop i header)" if "i + 2 \<le> length header" for i
    using that by (simp add: wr_u16_rd take_Suc_conv_app_nth numeral_2_eq_2)
  have w32: "wr_u32 (rd_u32 header i) = take 4 (drop i header)" if "i + 4 \<le> length header" for i
    using that by (simp add: wr_u32_rd take_Suc_conv_app_nth numeral_eq_Suc)
  have two: "[header ! 12, header ! 13] = take 2 (drop 12 header)" using assms by (simp add: take_Suc_conv_app_nth numeral_2_eq_2)
  have cut: "take (a + b) xs = take a xs @ take b (drop a xs)" for a b and xs :: "u8 list" by (rule take_add)
  show ?thesis
    using assms cut [of 8 2 header] cut [of 10 2 header] cut [of 12 2 header] cut [of 14 2 header] cut [of 16 4 header] cut [of 20 32 header]
      cut [of 52 32 header] cut [of 84 32 header] cut [of 116 8 header]
    by (simp add: w16 w32 two header_field_def)
qed

definition manifest_ok :: "ddj_ota_target \<Rightarrow> u16 \<Rightarrow> u8 list \<Rightarrow> nat \<Rightarrow> ddj_ota_manifest \<Rightarrow> bool" where
  "manifest_ok target chip project max_size m \<longleftrightarrow>
     om_target m = target \<and> om_chip_id m = chip \<and> 24 \<le> unat (om_image_size m) \<and> unat (om_image_size m) \<le> max_size \<and>
     om_project m = project \<and> text_ok 32 project \<and> text_ok 32 (om_version m) \<and> length (om_image_sha256 m) = 32 \<and>
     om_key_id m = DDJ_OTA_RELEASE_KEY_ID"

lemma parse_sound:
  assumes "ddj_ota_manifest_parse header target chip project max_size = Inr m"
  shows "188 \<le> length header \<and> manifest_ok target chip project max_size m \<and> take 124 header = manifest_bytes m"
proof -
  have len: "188 \<le> length header" using assms by (auto simp: ddj_ota_manifest_parse_def split: if_splits)
  have fl: "length (header_field off n header) = n" if "off + n \<le> 188" for off n using that len by (simp add: header_field_def)
  note fx = fixed_text_iff [OF fl]
  show ?thesis
    using assms len header_split [OF len]
    by (auto simp: ddj_ota_manifest_parse_def manifest_ok_def manifest_bytes_def Let_def fx fl split: if_splits option.splits)
qed

lemma wr_inj: "wr_u16 a = wr_u16 b \<longleftrightarrow> a = b" "wr_u32 c = wr_u32 d \<longleftrightarrow> c = d"
proof -
  have "rd_u16 (wr_u16 v) 0 = v" "rd_u32 (wr_u32 w) 0 = w" for v w using rd_u16_wr [of 0 "[]" v "[]"] rd_u32_wr [of 0 "[]" w "[]"] by simp_all
  then show "wr_u16 a = wr_u16 b \<longleftrightarrow> a = b" "wr_u32 c = wr_u32 d \<longleftrightarrow> c = d" by metis+
qed

lemma same_length_append: "length a = length b \<Longrightarrow> a @ x = b @ y \<longleftrightarrow> a = b \<and> x = y"
  by simp

lemma text_field_length: "length s \<le> n \<Longrightarrow> length (text_field n s) = n"
  by (simp add: text_field_def)

lemma fixed_text_read: "text_ok n s \<Longrightarrow> n \<le> dst \<Longrightarrow> copy_fixed_text dst (text_field n s) = Some s"
  using fixed_text_iff [of "text_field n s" n dst s] text_field_length [of s n] by (simp add: text_ok_def)

lemma parse_complete:
  assumes len: "188 \<le> length header" and ok: "manifest_ok target chip project max_size m" and bytes: "take 124 header = manifest_bytes m"
  shows "ddj_ota_manifest_parse header target chip project max_size = Inr m"
proof -
  have fl: "length (header_field off n header) = n" if "off + n \<le> 188" for off n using that len by (simp add: header_field_def)
  have tl: "length (text_field 32 (om_project m)) = 32" "length (text_field 32 (om_version m)) = 32" "length (text_field 8 (om_key_id m)) = 8"
    "length (om_image_sha256 m) = 32"
    using ok by (auto simp: manifest_ok_def text_ok_def intro!: text_field_length)
  define magic where "magic = DDJ_OTA_BUNDLE_MAGIC"
  have "length magic = 8" by (simp add: magic_def)
  then have f: "header_field 0 8 header = magic" "rd_u16 header 8 = 1" "rd_u16 header 10 = 188" "header ! 12 = target_code (om_target m)"
    "header ! 13 = 0" "rd_u16 header 14 = om_chip_id m" "rd_u32 header 16 = om_image_size m" "header_field 20 32 header = text_field 32 (om_project m)"
    "header_field 52 32 header = text_field 32 (om_version m)" "header_field 84 32 header = om_image_sha256 m"
    "header_field 116 8 header = text_field 8 (om_key_id m)"
    using bytes unfolding header_split [OF len] manifest_bytes_def magic_def [symmetric]
    by (simp_all add: fl tl same_length_append wr_inj length_wr_u16 length_wr_u32)
  have strs: "copy_fixed_text 32 (header_field 20 32 header) = Some (om_project m)" "copy_fixed_text 32 (header_field 52 32 header) = Some (om_version m)"
    "copy_fixed_text 9 (header_field 116 8 header) = Some (om_key_id m)"
    unfolding f using ok by (auto simp: manifest_ok_def text_ok_def intro!: fixed_text_read)
  show ?thesis using len ok strs f(1) [unfolded magic_def]
    by (simp add: ddj_ota_manifest_parse_def f manifest_ok_def Let_def)
qed

text \<open>
  Claim C24. The parser of update headers is exact: it accepts precisely the byte strings of at least 188 bytes whose signed part is
  the encoding of a manifest for this target, chip and project with an image size in bounds, a non-empty version, the release key
  and every unused byte zero, and delivers that manifest; so two headers with the same manifest have the same signed bytes.
\<close>

theorem signed_header_exact:
  "ddj_ota_manifest_parse header target chip project max_size = Inr m \<longleftrightarrow>
     188 \<le> length header \<and> manifest_ok target chip project max_size m \<and> take 124 header = manifest_bytes m"
  by (blast dest: parse_sound intro: parse_complete)

section \<open>The signature is handed over unchanged\<close>

text \<open>The number that a big-endian string stands for.\<close>

definition be_value :: "u8 list \<Rightarrow> nat" where
  "be_value bs = foldl (\<lambda>v b. 256 * v + unat b) 0 bs"

text \<open>A DER integer of a number that is not negative: tag, length, and the shortest contents whose top bit is clear.\<close>

definition der_integer :: "nat \<Rightarrow> u8 list \<Rightarrow> bool" where
  "der_integer v bs \<longleftrightarrow> (case bs of t # n # c \<Rightarrow> t = 0x02 \<and> unat n = length c \<and> c \<noteq> [] \<and> hd c < 0x80 \<and> be_value c = v \<and>
     (length c = 1 \<or> hd c \<noteq> 0 \<or> 0x80 \<le> c ! 1) | _ \<Rightarrow> False)"

lemma be_value_zeros: "list_all (\<lambda>b. b = 0) xs \<Longrightarrow> be_value (xs @ ys) = be_value ys"
  by (induction xs) (auto simp: be_value_def)

lemma top_bit: "(b AND 0x80 \<noteq> 0) \<longleftrightarrow> (0x80 :: u8) \<le> b"
  by (rule u8_enumerate [of "\<lambda>b. (b AND 0x80 \<noteq> 0) \<longleftrightarrow> (0x80 :: u8) \<le> b"]) code_simp

lemma der_written:
  assumes "length raw = 32"
  shows "der_integer (be_value raw) (write_der_integer raw)" "length (write_der_integer raw) \<le> 35"
proof -
  define first where "first = length (takeWhile (\<lambda>b. b = 0) (take 31 raw))"
  have f: "first \<le> 31" unfolding first_def using length_takeWhile_le [of "\<lambda>b. b = 0" "take 31 raw"] assms by simp
  have tw: "takeWhile (\<lambda>b. b = 0) (take 31 raw) = take first raw"
    using takeWhile_eq_take [of "\<lambda>b. b = 0" "take 31 raw"] f by (simp add: first_def [symmetric])
  have "list_all (\<lambda>b. b = 0) (take first raw)" unfolding tw [symmetric] by (auto simp: list_all_iff dest: set_takeWhileD)
  then have val: "be_value (drop first raw) = be_value raw" using be_value_zeros [of "take first raw" "drop first raw"] by simp
  have nz: "raw ! first \<noteq> 0" if "first < 31"
    using that nth_length_takeWhile [of "\<lambda>b. b = 0" "take 31 raw"] assms by (simp add: first_def)
  let ?c = "drop first raw"
  have c: "length ?c = 32 - first" "hd ?c = raw ! first" "take (32 - first) ?c = ?c" "?c \<noteq> []" using f assms by (simp_all add: hd_drop_conv_nth)
  have w: "write_der_integer raw =
      (if 0x80 \<le> raw ! first then [2, of_nat (33 - first), 0] @ ?c else [2, of_nat (32 - first)] @ ?c)"
    using f by (auto simp: write_der_integer_def Let_def first_def [symmetric] top_bit c(3) Suc_diff_le)
  have u: "unat (of_nat (33 - first) :: u8) = 33 - first" "unat (of_nat (32 - first) :: u8) = 32 - first"
    by (simp_all add: unat_of_nat take_bit_nat_eq_self)
  have v0: "be_value (0 # ?c) = be_value raw" using val by (simp add: be_value_def)
  show "length (write_der_integer raw) \<le> 35" unfolding w using assms by (auto intro: le_trans [OF diff_le_self])
  show "der_integer (be_value raw) (write_der_integer raw)"
  proof (cases "0x80 \<le> raw ! first")
    case True
    have "length (0 # ?c) = 33 - first" "(0 # ?c) ! 1 = raw ! first" using c f by (simp_all add: hd_conv_nth)
    then show ?thesis using True u(1) v0 by (simp add: w der_integer_def)
  next
    case False
    have "length ?c = 1 \<or> hd ?c \<noteq> 0" using nz c f by (cases "first < 31") auto
    then show ?thesis using False u(2) val c by (auto simp: w der_integer_def not_le)
  qed
qed

lemma der_signature:
  assumes "length raw = 64"
  shows "\<exists>r s. raw_signature_to_der raw = [0x30, of_nat (length r + length s)] @ r @ s \<and> length r + length s < 128 \<and>
    der_integer (be_value (take 32 raw)) r \<and> der_integer (be_value (drop 32 raw)) s \<and> length (raw_signature_to_der raw) \<le> 72"
proof -
  let ?r = "write_der_integer (take 32 raw)" and ?s = "write_der_integer (drop 32 raw)"
  have "length (take 32 raw) = 32" "length (drop 32 raw) = 32" "take 32 (drop 32 raw) = drop 32 raw" using assms by simp_all
  then show ?thesis using der_written [of "take 32 raw"] der_written [of "drop 32 raw"]
    by (intro exI [of _ ?r] exI [of _ ?s]) (simp add: raw_signature_to_der_def Let_def)
qed

end
