(* ===== verification/Ota_Channel.thy ===== *)
theory Ota_Channel
  imports Ota_Manifest
begin

text \<open>
  The channel document that says which release exists (\<open>p4_ota_pull_manifest.c\<close>), the order of releases, and the checks of the
  service-network settings (\<open>p4_ota_pull_config.c\<close>).  A document is a list of bytes; a cursor is a position in it, and every
  byte it reads is checked against the end.  A C string is its bytes without the zero.  Documents are at most some kilobytes, so
  the sums of positions do not wrap.
\<close>

section \<open>Reading the document\<close>

abbreviation (input) P4_OTA_PULL_RELEASE_MAX :: nat where "P4_OTA_PULL_RELEASE_MAX \<equiv> 48"
abbreviation (input) P4_OTA_PULL_URL_MAX :: nat where "P4_OTA_PULL_URL_MAX \<equiv> 192"
abbreviation (input) P4_OTA_PULL_SHA256_HEX :: nat where "P4_OTA_PULL_SHA256_HEX \<equiv> 64"
abbreviation (input) SCHEMA_VERSION_SUPPORTED :: u32 where "SCHEMA_VERSION_SUPPORTED \<equiv> 1"

datatype p4_ota_pull_manifest_result =
    P4_OTA_PULL_MANIFEST_OK | P4_OTA_PULL_MANIFEST_INVALID_ARG | P4_OTA_PULL_MANIFEST_MALFORMED | P4_OTA_PULL_MANIFEST_UNSUPPORTED
  | P4_OTA_PULL_MANIFEST_NO_TARGET | P4_OTA_PULL_MANIFEST_FIELD_TOO_LONG | P4_OTA_PULL_MANIFEST_BAD_VALUE

record p4_ota_pull_manifest =
  pm_release :: "u8 list"
  pm_url :: "u8 list"
  pm_size :: u32
  pm_sha256 :: "u8 list"

abbreviation (input) white :: "u8 \<Rightarrow> bool" where "white c \<equiv> c = 0x20 \<or> c = 0x09 \<or> c = 0x0D \<or> c = 0x0A"
abbreviation (input) dec_digit :: "u8 \<Rightarrow> bool" where "dec_digit c \<equiv> 0x30 \<le> c \<and> c \<le> 0x39"

function skip_ws :: "u8 list \<Rightarrow> nat \<Rightarrow> nat option" where
  "skip_ws json p =
     (if p < length json then do { c \<leftarrow> load8 json p; if white c then skip_ws json (p + 1) else Some p } else Some p)"
  by pat_completeness auto
termination by (relation "measure (\<lambda>(json, p). length json - p)") auto

declare skip_ws.simps [simp del]

text \<open>\<open>None\<close> inside: no such key.  The loop of \<open>seek_key\<close> from index \<open>i\<close> on.\<close>

function seek_from :: "u8 list \<Rightarrow> u8 list \<Rightarrow> nat \<Rightarrow> nat option option" where
  "seek_from json key i =
     (let len = length json; klen = length key
      in if \<not> i + klen + 2 \<le> len then Some None
         else do { c \<leftarrow> load8 json i;
           if c \<noteq> 0x22 then seek_from json key (i + 1)
           else do { ks \<leftarrow> load_bytes json (i + 1) klen;
             if ks \<noteq> key then seek_from json key (i + 1)
             else do { q \<leftarrow> load8 json (i + 1 + klen);
               if q \<noteq> 0x22 then seek_from json key (i + 1)
               else do { p \<leftarrow> skip_ws json (i + 2 + klen);
                 if p \<ge> len then seek_from json key (i + 1)
                 else do { d \<leftarrow> load8 json p;
                   if d \<noteq> 0x3A then seek_from json key (i + 1)
                   else do { v \<leftarrow> skip_ws json (p + 1); Some (Some v) } } } } } })"
  by pat_completeness auto
termination by (relation "measure (\<lambda>(json, key, i). length json - i)") auto

declare seek_from.simps [simp del]

definition seek_key :: "u8 list \<Rightarrow> u8 list \<Rightarrow> nat option option" where
  "seek_key json key = (if length json < length key + 3 then Some None else seek_from json key 0)"

function copy_chars :: "u8 list \<Rightarrow> nat \<Rightarrow> nat \<Rightarrow> u8 list \<Rightarrow> (p4_ota_pull_manifest_result + u8 list) option" where
  "copy_chars json p cap dst =
     (if p \<ge> length json then Some (Inl P4_OTA_PULL_MANIFEST_MALFORMED)
      else do { c \<leftarrow> load8 json p;
        if c = 0x22 then (if dst = [] then Some (Inl P4_OTA_PULL_MANIFEST_BAD_VALUE) else Some (Inr dst))
        else if c = 0x5C then Some (Inl P4_OTA_PULL_MANIFEST_BAD_VALUE)
        else if c < 0x20 then Some (Inl P4_OTA_PULL_MANIFEST_BAD_VALUE)
        else if length dst \<ge> cap then Some (Inl P4_OTA_PULL_MANIFEST_FIELD_TOO_LONG)
        else copy_chars json (p + 1) cap (dst @ [c]) })"
  by pat_completeness auto
termination by (relation "measure (\<lambda>(json, p, cap, dst). length json - p)") auto

declare copy_chars.simps [simp del]

definition copy_string :: "u8 list \<Rightarrow> nat \<Rightarrow> nat \<Rightarrow> (p4_ota_pull_manifest_result + u8 list) option" where
  "copy_string json p cap =
     (if p \<ge> length json then Some (Inl P4_OTA_PULL_MANIFEST_MALFORMED)
      else do { c \<leftarrow> load8 json p;
        if c \<noteq> 0x22 then Some (Inl P4_OTA_PULL_MANIFEST_MALFORMED) else copy_chars json (p + 1) cap [] })"

text \<open>The digits of a number; \<open>v\<close> is a 64-bit integer that never exceeds \<open>2 ^ 32 * 10\<close>.\<close>

function read_digits :: "u8 list \<Rightarrow> nat \<Rightarrow> nat \<Rightarrow> (p4_ota_pull_manifest_result + nat) option" where
  "read_digits json p v =
     (if p \<ge> length json then Some (Inr v)
      else do { c \<leftarrow> load8 json p;
        if \<not> dec_digit c then Some (Inr v)
        else let v' = v * 10 + unat (c - 0x30)
        in if v' > 0xFFFFFFFF then Some (Inl P4_OTA_PULL_MANIFEST_BAD_VALUE) else read_digits json (p + 1) v' })"
  by pat_completeness auto
termination by (relation "measure (\<lambda>(json, p, v). length json - p)") auto

declare read_digits.simps [simp del]

definition read_u32 :: "u8 list \<Rightarrow> nat \<Rightarrow> (p4_ota_pull_manifest_result + u32) option" where
  "read_u32 json p =
     (if p \<ge> length json then Some (Inl P4_OTA_PULL_MANIFEST_MALFORMED)
      else do { c \<leftarrow> load8 json p;
        if \<not> dec_digit c then Some (Inl P4_OTA_PULL_MANIFEST_MALFORMED)
        else do { r \<leftarrow> read_digits json p 0;
          Some (case r of Inl e \<Rightarrow> Inl e | Inr v \<Rightarrow> if v = 0 then Inl P4_OTA_PULL_MANIFEST_BAD_VALUE else Inr (of_nat v)) } })"

definition hex_nibble :: "u8 \<Rightarrow> u8 option" where
  "hex_nibble ch =
     (if 0x30 \<le> ch \<and> ch \<le> 0x39 then Some (ch - 0x30)
      else if 0x61 \<le> ch \<and> ch \<le> 0x66 then Some (ch - 0x61 + 10)
      else if 0x41 \<le> ch \<and> ch \<le> 0x46 then Some (ch - 0x41 + 10)
      else None)"

fun hex_bytes :: "u8 list \<Rightarrow> u8 list option" where
  "hex_bytes (h # l # rest) =
     (case (hex_nibble h, hex_nibble l) of
        (Some hi, Some lo) \<Rightarrow> map_option (\<lambda>bs. (push_bit 4 hi OR lo) # bs) (hex_bytes rest) | _ \<Rightarrow> None)"
| "hex_bytes _ = Some []"

definition read_sha256 :: "u8 list \<Rightarrow> nat \<Rightarrow> (p4_ota_pull_manifest_result + u8 list) option" where
  "read_sha256 json p =
     do { r \<leftarrow> copy_string json p P4_OTA_PULL_SHA256_HEX;
          Some (case r of Inl e \<Rightarrow> Inl e
            | Inr hex \<Rightarrow> if length hex \<noteq> P4_OTA_PULL_SHA256_HEX then Inl P4_OTA_PULL_MANIFEST_BAD_VALUE
                else case hex_bytes hex of None \<Rightarrow> Inl P4_OTA_PULL_MANIFEST_BAD_VALUE | Some bs \<Rightarrow> Inr bs) }"

section \<open>The bundle's URL\<close>

fun contains_at :: "u8 list \<Rightarrow> u8 list \<Rightarrow> bool" where
  "contains_at sub [] = (sub = [])"
| "contains_at sub (c # cs) = (take (length sub) (c # cs) = sub \<or> contains_at sub cs)"

abbreviation (input) segment_ok :: "u8 list \<Rightarrow> bool" where
  "segment_ok seg \<equiv> \<not> (seg = [] \<or> seg = [0x2E] \<or> seg = [0x2E, 0x2E])"

fun segments_ok :: "u8 list \<Rightarrow> u8 list \<Rightarrow> bool" where
  "segments_ok seg [] = segment_ok seg"
| "segments_ok seg (c # cs) =
     (if c = 0x2F then segment_ok seg \<and> segments_ok [] cs
      else if c < 0x21 \<or> c > 0x7E then False else segments_ok (seg @ [c]) cs)"

definition relative_bundle_url_valid :: "u8 list \<Rightarrow> bool" where
  "relative_bundle_url_valid url =
     (if url = [] \<or> hd url = 0x2F \<or> hd url = 0x5C then False
      else if contains_at [0x3A, 0x2F, 0x2F] url \<or> 0x3F \<in> set url \<or> 0x23 \<in> set url \<or> 0x5C \<in> set url \<or> 0x25 \<in> set url \<or> 0x3A \<in> set url
      then False
      else segments_ok [] url)"

section \<open>The document\<close>

text \<open>The length of the object that starts at the head: up to the brace that closes it, zero if there is none.\<close>

fun object_length :: "int \<Rightarrow> nat \<Rightarrow> u8 list \<Rightarrow> nat" where
  "object_length depth n [] = 0"
| "object_length depth n (c # cs) =
     (if c = 0x7B then object_length (depth + 1) (n + 1) cs
      else if c = 0x7D then (if depth - 1 = 0 then n + 1 else object_length (depth - 1) (n + 1) cs)
      else object_length depth (n + 1) cs)"

text \<open>A value of the document: its key is looked up and the value at the cursor is read.\<close>

definition field :: "u8 list \<Rightarrow> string \<Rightarrow> (u8 list \<Rightarrow> nat \<Rightarrow> (p4_ota_pull_manifest_result + 'a) option) \<Rightarrow>
    (p4_ota_pull_manifest_result + 'a) option" where
  "field json key read =
     do { k \<leftarrow> seek_key json (ascii key); case k of None \<Rightarrow> Some (Inl P4_OTA_PULL_MANIFEST_MALFORMED) | Some p \<Rightarrow> read json p }"

definition target_fields :: "u8 list \<Rightarrow> u8 list \<Rightarrow> (p4_ota_pull_manifest_result + p4_ota_pull_manifest) option" where
  "target_fields obj release =
     do { u \<leftarrow> field obj ''url'' (\<lambda>j p. copy_string j p P4_OTA_PULL_URL_MAX);
       case u of Inl e \<Rightarrow> Some (Inl e)
       | Inr url \<Rightarrow>
           if \<not> relative_bundle_url_valid url then Some (Inl P4_OTA_PULL_MANIFEST_BAD_VALUE)
           else do { z \<leftarrow> field obj ''size'' read_u32;
             case z of Inl e \<Rightarrow> Some (Inl e)
             | Inr size32 \<Rightarrow>
                 do { h \<leftarrow> field obj ''sha256'' read_sha256;
                   case h of Inl e \<Rightarrow> Some (Inl e)
                   | Inr sha \<Rightarrow> Some (Inr \<lparr>pm_release = release, pm_url = url, pm_size = size32, pm_sha256 = sha\<rparr>) } } }"

definition p4_ota_pull_manifest_parse :: "u8 list \<Rightarrow> (p4_ota_pull_manifest_result + p4_ota_pull_manifest) option" where
  "p4_ota_pull_manifest_parse json =
     (if json = [] then Some (Inl P4_OTA_PULL_MANIFEST_INVALID_ARG)
      else do { s \<leftarrow> field json ''schema_version'' read_u32;
        case s of Inl e \<Rightarrow> Some (Inl e)
        | Inr schema \<Rightarrow>
          if schema \<noteq> SCHEMA_VERSION_SUPPORTED then Some (Inl P4_OTA_PULL_MANIFEST_UNSUPPORTED)
          else do { r \<leftarrow> field json ''release'' (\<lambda>j p. copy_string j p P4_OTA_PULL_RELEASE_MAX);
            case r of Inl e \<Rightarrow> Some (Inl e)
            | Inr release \<Rightarrow>
              do { t \<leftarrow> seek_key json (ascii ''p4'');
                case t of None \<Rightarrow> Some (Inl P4_OTA_PULL_MANIFEST_NO_TARGET)
                | Some p \<Rightarrow>
                  if p \<ge> length json then Some (Inl P4_OTA_PULL_MANIFEST_MALFORMED)
                  else do { c \<leftarrow> load8 json p;
                    if c \<noteq> 0x7B then Some (Inl P4_OTA_PULL_MANIFEST_MALFORMED)
                    else let obj_len = object_length 0 0 (drop p json)
                    in if obj_len = 0 then Some (Inl P4_OTA_PULL_MANIFEST_MALFORMED)
                       else target_fields (take obj_len (drop p json)) release } } } })"

section \<open>Releases\<close>

datatype p4_ota_pull_release_order =
  P4_OTA_PULL_RELEASE_SAME | P4_OTA_PULL_RELEASE_NEWER | P4_OTA_PULL_RELEASE_OLDER | P4_OTA_PULL_RELEASE_UNORDERED

datatype p4_ota_pull_bundle_release_result =
    P4_OTA_PULL_BUNDLE_RELEASE_OK | P4_OTA_PULL_BUNDLE_RELEASE_INVALID_ARG | P4_OTA_PULL_BUNDLE_RELEASE_MISMATCH
  | P4_OTA_PULL_BUNDLE_RELEASE_NOT_NEWER

record release_version =
  rv_tag :: u32
  rv_distance :: u32

abbreviation (input) hex_digit :: "u8 \<Rightarrow> bool" where
  "hex_digit c \<equiv> dec_digit c \<or> (0x61 \<le> c \<and> c \<le> 0x66) \<or> (0x41 \<le> c \<and> c \<le> 0x46)"

fun u32_digits :: "nat \<Rightarrow> u8 list \<Rightarrow> (nat \<times> u8 list) option" where
  "u32_digits v [] = Some (v, [])"
| "u32_digits v (c # cs) =
     (if dec_digit c then let v' = v * 10 + unat (c - 0x30) in if v' > 0xFFFFFFFF then None else u32_digits v' cs else Some (v, c # cs))"

definition parse_u32_part :: "u8 list \<Rightarrow> (u32 \<times> u8 list) option" where
  "parse_u32_part p =
     (case p of [] \<Rightarrow> None
      | c # cs \<Rightarrow> if \<not> dec_digit c then None else map_option (\<lambda>(v, rest). (of_nat v, rest)) (u32_digits 0 p))"

definition parse_release_version :: "u8 list \<Rightarrow> release_version option" where
  "parse_release_version s =
     (if take 2 s \<noteq> [0x52, 0x43] then None
      else do { (tag, p1) \<leftarrow> parse_u32_part (drop 2 s);
        if p1 = [] then Some \<lparr>rv_tag = tag, rv_distance = 0\<rparr>
        else if hd p1 \<noteq> 0x2D then None
        else do { (distance, p2) \<leftarrow> parse_u32_part (tl p1);
          if take 2 p2 \<noteq> [0x2D, 0x67] then None
          else let p3 = drop 2 p2; rest = dropWhile (\<lambda>c. hex_digit c) p3; hash_digits = length p3 - length rest
          in if hash_digits < 7 then None
             else if rest \<noteq> ascii ''-dirty'' \<and> rest \<noteq> [] then None
             else Some \<lparr>rv_tag = tag, rv_distance = distance\<rparr> } })"

definition p4_ota_pull_release_compare :: "u8 list \<Rightarrow> u8 list \<Rightarrow> p4_ota_pull_release_order" where
  "p4_ota_pull_release_compare offered_version running_version =
     (if offered_version = running_version then P4_OTA_PULL_RELEASE_SAME
      else case (parse_release_version offered_version, parse_release_version running_version) of
        (Some offered, Some running) \<Rightarrow>
          if rv_tag offered \<noteq> rv_tag running
          then (if rv_tag offered > rv_tag running then P4_OTA_PULL_RELEASE_NEWER else P4_OTA_PULL_RELEASE_OLDER)
          else if rv_distance offered \<noteq> rv_distance running
          then (if rv_distance offered > rv_distance running then P4_OTA_PULL_RELEASE_NEWER else P4_OTA_PULL_RELEASE_OLDER)
          else P4_OTA_PULL_RELEASE_UNORDERED
      | _ \<Rightarrow> P4_OTA_PULL_RELEASE_UNORDERED)"

definition p4_ota_pull_validate_bundle_release :: "u8 list \<Rightarrow> u8 list \<Rightarrow> u8 list \<Rightarrow> p4_ota_pull_bundle_release_result" where
  "p4_ota_pull_validate_bundle_release offered_version signed_version running_version =
     (if offered_version = [] \<or> signed_version = [] \<or> running_version = [] then P4_OTA_PULL_BUNDLE_RELEASE_INVALID_ARG
      else if offered_version \<noteq> signed_version then P4_OTA_PULL_BUNDLE_RELEASE_MISMATCH
      else if p4_ota_pull_release_compare signed_version running_version \<noteq> P4_OTA_PULL_RELEASE_NEWER
      then P4_OTA_PULL_BUNDLE_RELEASE_NOT_NEWER
      else P4_OTA_PULL_BUNDLE_RELEASE_OK)"

definition p4_ota_pull_offer_fresh :: "u32 \<Rightarrow> u32 \<Rightarrow> u32 \<Rightarrow> bool" where
  "p4_ota_pull_offer_fresh now_ticks offered_at_ticks ttl_ticks \<longleftrightarrow> ttl_ticks > 0 \<and> now_ticks - offered_at_ticks \<le> ttl_ticks"

section \<open>Service-network settings\<close>

abbreviation (input) P4_OTA_CFG_SSID_MAX :: nat where "P4_OTA_CFG_SSID_MAX \<equiv> 32"
abbreviation (input) P4_OTA_CFG_PASS_MIN :: nat where "P4_OTA_CFG_PASS_MIN \<equiv> 8"
abbreviation (input) P4_OTA_CFG_PASS_MAX :: nat where "P4_OTA_CFG_PASS_MAX \<equiv> 63"
abbreviation (input) P4_OTA_CFG_PSK_HEX :: nat where "P4_OTA_CFG_PSK_HEX \<equiv> 64"
abbreviation (input) P4_OTA_CFG_URL_MAX :: nat where "P4_OTA_CFG_URL_MAX \<equiv> 160"

datatype p4_ota_cfg_result =
    P4_OTA_CFG_OK | P4_OTA_CFG_EMPTY | P4_OTA_CFG_TOO_LONG | P4_OTA_CFG_TOO_SHORT | P4_OTA_CFG_BAD_CHARS | P4_OTA_CFG_NOT_HTTPS
  | P4_OTA_CFG_URL_HAS_CREDENTIALS

definition bounded_strlen :: "u8 list \<Rightarrow> nat \<Rightarrow> nat" where
  "bounded_strlen s limit = min (length s) limit"

definition is_printable_ascii :: "u8 \<Rightarrow> bool" where
  "is_printable_ascii c \<longleftrightarrow> 0x20 \<le> c \<and> c < 0x7F"

definition p4_ota_cfg_check_ssid :: "u8 list \<Rightarrow> p4_ota_cfg_result" where
  "p4_ota_cfg_check_ssid ssid =
     (if ssid = [] then P4_OTA_CFG_EMPTY
      else let n = bounded_strlen ssid (P4_OTA_CFG_SSID_MAX + 1)
      in if n > P4_OTA_CFG_SSID_MAX then P4_OTA_CFG_TOO_LONG
         else if list_ex (\<lambda>c. c < 0x20 \<or> c = 0x7F) (take n ssid) then P4_OTA_CFG_BAD_CHARS
         else P4_OTA_CFG_OK)"

definition p4_ota_cfg_check_password :: "u8 list \<Rightarrow> p4_ota_cfg_result" where
  "p4_ota_cfg_check_password password =
     (if password = [] then P4_OTA_CFG_EMPTY
      else let n = bounded_strlen password (P4_OTA_CFG_PSK_HEX + 1)
      in if n > P4_OTA_CFG_PSK_HEX then P4_OTA_CFG_TOO_LONG
         else if n = P4_OTA_CFG_PSK_HEX
         then (if list_ex (\<lambda>c. \<not> hex_digit c) (take n password) then P4_OTA_CFG_BAD_CHARS else P4_OTA_CFG_OK)
         else if n < P4_OTA_CFG_PASS_MIN then P4_OTA_CFG_TOO_SHORT
         else if n > P4_OTA_CFG_PASS_MAX then P4_OTA_CFG_TOO_LONG
         else if list_ex (\<lambda>c. \<not> is_printable_ascii c) (take n password) then P4_OTA_CFG_BAD_CHARS
         else P4_OTA_CFG_OK)"

definition p4_ota_cfg_check_url :: "u8 list \<Rightarrow> p4_ota_cfg_result" where
  "p4_ota_cfg_check_url url =
     (let scheme = ascii ''https://''; scheme_len = length scheme
      in if url = [] then P4_OTA_CFG_EMPTY
         else let n = bounded_strlen url (P4_OTA_CFG_URL_MAX + 1)
         in if n > P4_OTA_CFG_URL_MAX then P4_OTA_CFG_TOO_LONG
            else if list_ex (\<lambda>c. \<not> is_printable_ascii c \<or> c = 0x20) (take n url) then P4_OTA_CFG_BAD_CHARS
            else if take scheme_len url \<noteq> scheme then P4_OTA_CFG_NOT_HTTPS
            else if n = scheme_len then P4_OTA_CFG_EMPTY
            else let authority = takeWhile (\<lambda>c. \<not> (c = 0x2F \<or> c = 0x3F \<or> c = 0x23)) (drop scheme_len url)
            in if 0x40 \<in> set authority then P4_OTA_CFG_URL_HAS_CREDENTIALS
               else if authority = [] then P4_OTA_CFG_EMPTY
               else P4_OTA_CFG_OK)"

text \<open>Values of a request body; the lookup is that of the channel document, written again in C.\<close>

definition value_offset :: "u8 list \<Rightarrow> u8 list \<Rightarrow> nat option option" where
  "value_offset json key = seek_key json key"

function extract_chars :: "u8 list \<Rightarrow> nat \<Rightarrow> nat \<Rightarrow> u8 list \<Rightarrow> u8 list option option" where
  "extract_chars json j cap out =
     (if j \<ge> length json then Some None
      else do { c \<leftarrow> load8 json j;
        if c = 0x22 then Some (Some out)
        else if c = 0x5C then Some None
        else if length out + 1 \<ge> cap then Some None
        else extract_chars json (j + 1) cap (out @ [c]) })"
  by pat_completeness auto
termination by (relation "measure (\<lambda>(json, j, cap, out). length json - j)") auto

declare extract_chars.simps [simp del]

text \<open>The value, or \<open>None\<close> inside when the call returns false and leaves the buffer empty.\<close>

definition p4_ota_cfg_extract_string :: "u8 list \<Rightarrow> u8 list \<Rightarrow> nat \<Rightarrow> u8 list option option" where
  "p4_ota_cfg_extract_string json key cap =
     (if cap = 0 then Some None
      else do { off \<leftarrow> value_offset json key;
        case off of None \<Rightarrow> Some None
        | Some j \<Rightarrow> if j \<ge> length json then Some None
            else do { c \<leftarrow> load8 json j; if c \<noteq> 0x22 then Some None else extract_chars json (j + 1) cap [] } })"

definition p4_ota_cfg_extract_true :: "u8 list \<Rightarrow> u8 list \<Rightarrow> bool option" where
  "p4_ota_cfg_extract_true json key =
     do { off \<leftarrow> value_offset json key;
       case off of None \<Rightarrow> Some False
       | Some j \<Rightarrow> if length json - j \<ge> 4 then do { w \<leftarrow> load_bytes json j 4; Some (w = ascii ''true'') } else Some False }"

section \<open>No read leaves the document\<close>

lemma safely_ex: "safely m P \<longleftrightarrow> (\<exists>x. m = Some x \<and> P x)"
  by (auto simp: safely_def split: option.split)

lemma skip_ws_safe: "safely (skip_ws json p) (\<lambda>q. True)"
  by (induction json p rule: skip_ws.induct) (subst skip_ws.simps, simp)

lemma seek_from_safe: "safely (seek_from json key i) (\<lambda>q. True)"
proof (induction json key i rule: seek_from.induct)
  case (1 json key i)
  show ?case
  proof (cases "i + length key + 2 \<le> length json")
    case False
    then show ?thesis by (subst seek_from.simps) simp
  next
    case True
    have l: "load8 json i = Some (json ! i)" "load_bytes json (i + 1) (length key) = Some (take (length key) (drop (i + 1) json))"
      "load8 json (i + 1 + length key) = Some (json ! (i + 1 + length key))" using True by simp_all
    obtain p where p: "skip_ws json (i + 2 + length key) = Some p" using skip_ws_safe by (auto simp: safely_ex)
    obtain v where v: "skip_ws json (p + 1) = Some v" using skip_ws_safe by (auto simp: safely_ex)
    have next1: "safely (seek_from json key (i + 1)) (\<lambda>q. True)"
      if "json ! i \<noteq> 0x22 \<or> take (length key) (drop (i + 1) json) \<noteq> key \<or> json ! (i + 1 + length key) \<noteq> 0x22 \<or> p \<ge> length json \<or> json ! p \<noteq> 0x3A"
      using that 1 True l p by fastforce
    show ?thesis using True l p v next1 by (subst seek_from.simps) (auto simp: Let_def not_le)
  qed
qed

lemma seek_key_safe: "safely (seek_key json key) (\<lambda>q. True)"
  by (simp add: seek_key_def seek_from_safe)

text \<open>A string value: not empty, no longer than its buffer allows, without quotes, backslashes and control characters.\<close>

definition value_chars :: "u8 list \<Rightarrow> bool" where
  "value_chars s \<longleftrightarrow> list_all (\<lambda>c. c \<ge> 0x20 \<and> c \<noteq> 0x22 \<and> c \<noteq> 0x5C) s"

definition string_ok :: "nat \<Rightarrow> p4_ota_pull_manifest_result + u8 list \<Rightarrow> bool" where
  "string_ok cap r \<longleftrightarrow> (case r of Inl e \<Rightarrow> e \<noteq> P4_OTA_PULL_MANIFEST_OK | Inr s \<Rightarrow> s \<noteq> [] \<and> length s \<le> cap \<and> value_chars s)"

lemma string_ok_simps [simp]:
  "string_ok cap (Inl e) \<longleftrightarrow> e \<noteq> P4_OTA_PULL_MANIFEST_OK" "string_ok cap (Inr s) \<longleftrightarrow> s \<noteq> [] \<and> length s \<le> cap \<and> value_chars s"
  by (simp_all add: string_ok_def)

lemma copy_chars_safe: "length dst \<le> cap \<Longrightarrow> value_chars dst \<Longrightarrow> safely (copy_chars json p cap dst) (string_ok cap)"
proof (induction json p cap dst rule: copy_chars.induct)
  case (1 json p cap dst)
  show ?case using 1 by (subst copy_chars.simps) (auto simp: value_chars_def not_le not_less)
qed

lemma copy_string_safe: "safely (copy_string json p cap) (string_ok cap)"
  using copy_chars_safe [of "[]" cap json] by (auto simp: copy_string_def value_chars_def not_le)

lemma digit_value: "dec_digit c \<Longrightarrow> unat (c - 0x30) \<le> 9"
  by (auto simp: unat_sub word_le_nat_alt)

lemma read_digits_safe: "v < 2 ^ 32 \<Longrightarrow> safely (read_digits json p v) (\<lambda>r. case r of Inl e \<Rightarrow> e \<noteq> P4_OTA_PULL_MANIFEST_OK | Inr n \<Rightarrow> n < 2 ^ 32)"
proof (induction json p v rule: read_digits.induct)
  case (1 json p v)
  show ?case using 1 by (subst read_digits.simps) (auto simp: Let_def not_le)
qed

lemma read_u32_safe: "safely (read_u32 json p) (\<lambda>r. case r of Inl e \<Rightarrow> e \<noteq> P4_OTA_PULL_MANIFEST_OK | Inr v \<Rightarrow> v \<noteq> 0)"
proof -
  have "(of_nat n :: u32) \<noteq> 0" if "n < 2 ^ 32" "n \<noteq> 0" for n
  proof -
    have "unat (of_nat n :: u32) = n" using that(1) by (simp add: unsigned_of_nat take_bit_nat_eq_self)
    then show ?thesis using that(2) by (metis unat_0)
  qed
  then have "safely (read_digits json p 0 \<bind> (\<lambda>r. Some (case r of Inl e \<Rightarrow> Inl e
      | Inr v \<Rightarrow> if v = 0 then Inl P4_OTA_PULL_MANIFEST_BAD_VALUE else Inr (of_nat v))))
    (\<lambda>r. case r of Inl e \<Rightarrow> e \<noteq> P4_OTA_PULL_MANIFEST_OK | Inr v \<Rightarrow> v \<noteq> (0 :: u32))"
    by (intro safely_bind [OF read_digits_safe]) (auto split: sum.splits)
  then show ?thesis by (auto simp: read_u32_def not_le)
qed

lemma hex_bytes_length: "hex_bytes h = Some bs \<Longrightarrow> length bs = length h div 2"
  by (induction h arbitrary: bs rule: hex_bytes.induct) (auto split: option.splits)

lemma read_sha256_safe: "safely (read_sha256 json p) (\<lambda>r. case r of Inl e \<Rightarrow> e \<noteq> P4_OTA_PULL_MANIFEST_OK | Inr bs \<Rightarrow> length bs = 32)"
  unfolding read_sha256_def
  by (rule safely_bind [OF copy_string_safe]) (auto simp: hex_bytes_length split: sum.splits option.splits)

lemma field_safe:
  assumes "\<And>j p. safely (read j p) Q" "\<And>e. e \<noteq> P4_OTA_PULL_MANIFEST_OK \<Longrightarrow> Q (Inl e)"
  shows "safely (field json key read) Q"
  unfolding field_def by (rule safely_bind [OF seek_key_safe]) (auto simp: assms split: option.split)

section \<open>The URL stays below the channel\<close>

text \<open>The parts between the slashes.\<close>

fun url_segments :: "u8 list \<Rightarrow> u8 list list" where
  "url_segments [] = [[]]"
| "url_segments (c # cs) = (if c = 0x2F then [] # url_segments cs else (c # hd (url_segments cs)) # tl (url_segments cs))"

text \<open>What a path means: dots stay, two dots go up.\<close>

fun resolve :: "u8 list list \<Rightarrow> u8 list list \<Rightarrow> u8 list list" where
  "resolve at_path [] = at_path"
| "resolve at_path (seg # segs) =
     (if seg = [0x2E] then resolve at_path segs else if seg = [0x2E, 0x2E] then resolve (butlast at_path) segs
      else resolve (at_path @ [seg]) segs)"

lemma url_segments_cons: "url_segments cs = hd (url_segments cs) # tl (url_segments cs)"
  by (cases cs) auto

lemma all_segments: "list_all P (url_segments cs) \<longleftrightarrow> P (hd (url_segments cs)) \<and> list_all P (tl (url_segments cs))"
  by (subst url_segments_cons) simp

lemma segments_ok_iff:
  "segments_ok seg cs \<longleftrightarrow> segment_ok (seg @ hd (url_segments cs)) \<and> list_all segment_ok (tl (url_segments cs)) \<and>
     list_all (\<lambda>c. c = 0x2F \<or> 0x21 \<le> c \<and> c \<le> 0x7E) cs"
proof (induction cs arbitrary: seg)
  case (Cons c cs)
  show ?case using Cons.IH [of "[]"] Cons.IH [of "seg @ [c]"] by (auto simp: not_less all_segments [of _ cs])
qed simp

lemma resolve_plain: "list_all segment_ok segs \<Longrightarrow> resolve at_path segs = at_path @ segs"
  by (induction segs arbitrary: at_path) auto

definition url_safe :: "u8 list \<Rightarrow> bool" where
  "url_safe url \<longleftrightarrow> (\<forall>base. resolve base (url_segments url) = base @ url_segments url) \<and> [] \<notin> set (url_segments url) \<and>
     list_all (\<lambda>c. 0x21 \<le> c \<and> c \<le> 0x7E \<and> c \<notin> {0x23, 0x25, 0x3A, 0x3F, 0x5C}) url"

lemma url_valid_safe: "relative_bundle_url_valid url \<Longrightarrow> url_safe url"
proof -
  assume v: "relative_bundle_url_valid url"
  then have s: "segments_ok [] url" and c: "{0x3F, 0x23, 0x5C, 0x25, 0x3A} \<inter> set url = {}"
    by (auto simp: relative_bundle_url_valid_def split: if_splits)
  then have "list_all segment_ok (url_segments url)" by (simp add: segments_ok_iff all_segments [of _ url])
  moreover from this have "[] \<notin> set (url_segments url)" by (auto simp: list_all_iff)
  ultimately show ?thesis using s c by (auto simp: url_safe_def resolve_plain segments_ok_iff list_all_iff)
qed

section \<open>Accepted documents\<close>

definition channel_ok :: "p4_ota_pull_manifest \<Rightarrow> bool" where
  "channel_ok m \<longleftrightarrow> pm_release m \<noteq> [] \<and> length (pm_release m) \<le> P4_OTA_PULL_RELEASE_MAX \<and> value_chars (pm_release m) \<and>
     pm_url m \<noteq> [] \<and> length (pm_url m) \<le> P4_OTA_PULL_URL_MAX \<and> url_safe (pm_url m) \<and> pm_size m \<noteq> 0 \<and> length (pm_sha256 m) = 32"

definition document_ok :: "p4_ota_pull_manifest_result + p4_ota_pull_manifest \<Rightarrow> bool" where
  "document_ok r \<longleftrightarrow> (case r of Inl e \<Rightarrow> e \<noteq> P4_OTA_PULL_MANIFEST_OK | Inr m \<Rightarrow> channel_ok m)"

lemma document_ok_simps [simp]: "document_ok (Inl e) \<longleftrightarrow> e \<noteq> P4_OTA_PULL_MANIFEST_OK" "document_ok (Inr m) \<longleftrightarrow> channel_ok m"
  by (simp_all add: document_ok_def)

lemma target_fields_safe:
  assumes "string_ok 48 (Inr release)"
  shows "safely (target_fields obj release) document_ok"
proof -
  have url: "safely (field obj k (\<lambda>j p. copy_string j p 192)) (string_ok 192)" for k by (rule field_safe [OF copy_string_safe]) simp
  have num: "safely (field obj k read_u32) (\<lambda>r. case r of Inl e \<Rightarrow> e \<noteq> P4_OTA_PULL_MANIFEST_OK | Inr v \<Rightarrow> v \<noteq> 0)" for k
    by (rule field_safe [OF read_u32_safe]) simp
  have sha: "safely (field obj k read_sha256) (\<lambda>r. case r of Inl e \<Rightarrow> e \<noteq> P4_OTA_PULL_MANIFEST_OK | Inr bs \<Rightarrow> length bs = 32)" for k
    by (rule field_safe [OF read_sha256_safe]) simp
  have last: "safely (field obj k read_sha256 \<bind> (\<lambda>h. case h of Inl e \<Rightarrow> Some (Inl e)
      | Inr sha \<Rightarrow> Some (Inr \<lparr>pm_release = release, pm_url = url, pm_size = z, pm_sha256 = sha\<rparr>))) document_ok"
    if "string_ok 192 (Inr url)" "relative_bundle_url_valid url" "z \<noteq> 0" for k url z
    by (rule safely_bind [OF sha]) (use that assms url_valid_safe in \<open>auto simp: channel_ok_def split: sum.splits\<close>)
  have mid: "safely (field obj k1 read_u32 \<bind> (\<lambda>z. case z of Inl e \<Rightarrow> Some (Inl e) | Inr size32 \<Rightarrow>
      field obj k read_sha256 \<bind> (\<lambda>h. case h of Inl e \<Rightarrow> Some (Inl e)
      | Inr sha \<Rightarrow> Some (Inr \<lparr>pm_release = release, pm_url = url, pm_size = size32, pm_sha256 = sha\<rparr>)))) document_ok"
    if "string_ok 192 (Inr url)" "relative_bundle_url_valid url" for k k1 url
    by (rule safely_bind [OF num]) (use last that in \<open>auto split: sum.splits\<close>)
  show ?thesis unfolding target_fields_def
    by (rule safely_bind [OF url]) (use mid in \<open>auto split: sum.splits\<close>)
qed

lemma manifest_parse_safe: "safely (p4_ota_pull_manifest_parse json) document_ok"
proof -
  have num: "safely (field json k read_u32) (\<lambda>r. case r of Inl e \<Rightarrow> e \<noteq> P4_OTA_PULL_MANIFEST_OK | Inr v \<Rightarrow> v \<noteq> 0)" for k
    by (rule field_safe [OF read_u32_safe]) simp
  have str: "safely (field json k (\<lambda>j p. copy_string j p 48)) (string_ok 48)" for k by (rule field_safe [OF copy_string_safe]) simp
  have target: "safely (seek_key json k \<bind> (\<lambda>t. case t of None \<Rightarrow> Some (Inl P4_OTA_PULL_MANIFEST_NO_TARGET)
      | Some p \<Rightarrow> if p \<ge> length json then Some (Inl P4_OTA_PULL_MANIFEST_MALFORMED)
          else do { c \<leftarrow> load8 json p;
            if c \<noteq> 0x7B then Some (Inl P4_OTA_PULL_MANIFEST_MALFORMED)
            else let obj_len = object_length 0 0 (drop p json)
            in if obj_len = 0 then Some (Inl P4_OTA_PULL_MANIFEST_MALFORMED)
               else target_fields (take obj_len (drop p json)) release })) document_ok"
    if "string_ok 48 (Inr release)" for k release
    by (rule safely_bind [OF seek_key_safe]) (use target_fields_safe [OF that] in \<open>auto simp: Let_def not_le split: option.splits\<close>)
  have rest: "safely (field json k (\<lambda>j p. copy_string j p 48) \<bind> (\<lambda>r. case r of Inl e \<Rightarrow> Some (Inl e) | Inr release \<Rightarrow> f release)) document_ok"
    if "\<And>release. string_ok 48 (Inr release) \<Longrightarrow> safely (f release) document_ok" for k f
    by (rule safely_bind [OF str]) (use that in \<open>auto split: sum.splits\<close>)
  show ?thesis
  proof (cases "json = []")
    case False
    have first: "safely (field json ''schema_version'' read_u32 \<bind> (\<lambda>s. case s of Inl e \<Rightarrow> Some (Inl e) | Inr schema \<Rightarrow>
        if schema \<noteq> 1 then Some (Inl P4_OTA_PULL_MANIFEST_UNSUPPORTED) else g)) document_ok" if "safely g document_ok" for g
      by (rule safely_bind [OF num]) (use that in \<open>auto split: sum.splits\<close>)
    show ?thesis unfolding p4_ota_pull_manifest_parse_def if_not_P [OF False] by (intro first rest target)
  qed (simp add: p4_ota_pull_manifest_parse_def)
qed

end
