(* ===== verification/P4_Ota.thy ===== *)
theory P4_Ota
  imports Ota_Channel
begin

text \<open>
  The firmware receiver of the main deck (\<open>p4_ota.c\<close>, \<open>p4_ota_policy.c\<close>).  One record holds its static variables, and beside them
  what its calls have done to the flash: the bytes of each slot, the slot the open handle writes, and the calls that selected a
  slot for the next boot, each with the bytes of the slot at that time.  What the flash, hash and health libraries answer during
  one operation is a record of answers; the operations run under the semaphore of the file, so each is one step.  Sizes are natural
  numbers: the guard of \<open>p4_ota_write\<close> keeps every sum at or below a 32-bit size.
\<close>

section \<open>The policy\<close>

abbreviation (input) P4_OTA_ESP_IMAGE_MAGIC :: u8 where "P4_OTA_ESP_IMAGE_MAGIC \<equiv> 0xE9"
abbreviation (input) P4_OTA_ESP32P4_CHIP_ID :: u16 where "P4_OTA_ESP32P4_CHIP_ID \<equiv> 0x0012"
abbreviation (input) P4_OTA_IMAGE_HEADER_SIZE :: nat where "P4_OTA_IMAGE_HEADER_SIZE \<equiv> 24"
abbreviation (input) P4_OTA_CHIP_ID_OFFSET :: nat where "P4_OTA_CHIP_ID_OFFSET \<equiv> 12"
abbreviation (input) P4_OTA_MAX_IMAGE_SIZE :: nat where "P4_OTA_MAX_IMAGE_SIZE \<equiv> 0x400000"

datatype p4_ota_finish_policy = P4_OTA_FINISH_INVALID_STATE | P4_OTA_FINISH_INCOMPLETE | P4_OTA_FINISH_VERIFY

definition p4_ota_policy_size_valid :: "nat \<Rightarrow> nat \<Rightarrow> bool" where
  "p4_ota_policy_size_valid image_size slot_size \<longleftrightarrow> image_size \<ge> P4_OTA_IMAGE_HEADER_SIZE \<and> slot_size > 0 \<and> image_size \<le> slot_size"

definition p4_ota_policy_header_valid :: "u8 list \<Rightarrow> bool" where
  "p4_ota_policy_header_valid data =
     (if length data < P4_OTA_IMAGE_HEADER_SIZE \<or> data ! 0 \<noteq> P4_OTA_ESP_IMAGE_MAGIC then False
      else rd_u16 data P4_OTA_CHIP_ID_OFFSET = P4_OTA_ESP32P4_CHIP_ID)"

definition p4_ota_policy_finish :: "bool \<Rightarrow> bool \<Rightarrow> nat \<Rightarrow> nat \<Rightarrow> p4_ota_finish_policy" where
  "p4_ota_policy_finish receiving handle_open received_size expected_size =
     (if \<not> receiving then P4_OTA_FINISH_INVALID_STATE
      else if \<not> handle_open \<or> received_size \<noteq> expected_size then P4_OTA_FINISH_INCOMPLETE
      else P4_OTA_FINISH_VERIFY)"

section \<open>State\<close>

datatype p4_ota_state = P4_OTA_IDLE | P4_OTA_RECEIVING | P4_OTA_READY_TO_REBOOT | P4_OTA_FAILED

record p4_ota_status =
  os_state :: p4_ota_state
  os_expected_size :: nat
  os_received_size :: nat
  os_running_slot :: "u8 list"
  os_running_version :: "u8 list"
  os_target_slot :: "u8 list"
  os_target_version :: "u8 list"
  os_last_error :: "u8 list"

record ota_partition =
  pt_label :: "u8 list"
  pt_size :: nat

text \<open>The flash as the calls leave it.\<close>

record ota_flash =
  fl_slots :: "u8 list \<Rightarrow> u8 list"
  fl_handle :: "u8 list"
  fl_boots :: "(u8 list \<times> u8 list) list"

record p4_ota =
  po_lock :: bool
  po_status :: p4_ota_status
  po_target :: "ota_partition option"
  po_handle_open :: bool
  po_image_sha :: "u8 list"
  po_image_sha_active :: bool
  po_expected_sha256 :: "u8 list"
  po_expected_version :: "u8 list"
  po_flash :: ota_flash

text \<open>
  The platform: beside the crypto library, the project and version that an image describes itself with, and the names of errors.
  The answers: what the libraries return during one operation, and the bytes a failed erase or write leaves in a slot.
\<close>

record ota_platform = ota_crypto +
  image_desc :: "u8 list \<Rightarrow> u8 list \<times> u8 list"
  err_name :: "esp_err \<Rightarrow> u8 list"

record ota_answers =
  an_mutex :: bool
  an_health :: "(u8 list \<times> u8 list) option"
  an_next :: "ota_partition option"
  an_begin :: esp_err
  an_setup :: bool
  an_write :: esp_err
  an_update :: bool
  an_finish :: bool
  an_end :: esp_err
  an_desc :: esp_err
  an_boot :: esp_err
  an_torn :: "u8 list"

section \<open>Operations\<close>

definition copy_text :: "nat \<Rightarrow> u8 list \<Rightarrow> u8 list" where
  "copy_text dst_size src = take (dst_size - 1) src"

definition zero_ota_status :: p4_ota_status where
  "zero_ota_status = \<lparr>os_state = P4_OTA_IDLE, os_expected_size = 0, os_received_size = 0, os_running_slot = [], os_running_version = [],
     os_target_slot = [], os_target_version = [], os_last_error = []\<rparr>"

definition ota_start :: "p4_ota" where
  "ota_start = \<lparr>po_lock = False, po_status = zero_ota_status, po_target = None, po_handle_open = False, po_image_sha = [],
     po_image_sha_active = False, po_expected_sha256 = replicate 32 0, po_expected_version = [],
     po_flash = \<lparr>fl_slots = (\<lambda>_. []), fl_handle = [], fl_boots = []\<rparr>\<rparr>"

definition set_error :: "u8 list \<Rightarrow> p4_ota \<Rightarrow> p4_ota" where
  "set_error msg st = st\<lparr>po_status := (po_status st)\<lparr>os_last_error := copy_text 64 msg\<rparr>\<rparr>"

definition set_state :: "p4_ota_state \<Rightarrow> p4_ota \<Rightarrow> p4_ota" where
  "set_state s st = st\<lparr>po_status := (po_status st)\<lparr>os_state := s\<rparr>\<rparr>"

definition store_slot :: "u8 list \<Rightarrow> u8 list \<Rightarrow> p4_ota \<Rightarrow> p4_ota" where
  "store_slot label bytes st = st\<lparr>po_flash := (po_flash st)\<lparr>fl_slots := (fl_slots (po_flash st))(label := bytes)\<rparr>\<rparr>"

definition refresh_running_locked :: "ota_answers \<Rightarrow> p4_ota \<Rightarrow> p4_ota" where
  "refresh_running_locked a st =
     (case an_health a of None \<Rightarrow> st
      | Some (label, version) \<Rightarrow>
          st\<lparr>po_status := (po_status st)\<lparr>os_running_slot := copy_text 17 label, os_running_version := copy_text 33 version\<rparr>\<rparr>)"

definition close_receive_resources_locked :: "p4_ota \<Rightarrow> p4_ota" where
  "close_receive_resources_locked st =
     (let st1 = (if po_handle_open st then st\<lparr>po_handle_open := False\<rparr> else st)
      in if po_image_sha_active st1 then st1\<lparr>po_image_sha := [], po_image_sha_active := False\<rparr> else st1)"

definition p4_ota_init :: "ota_answers \<Rightarrow> p4_ota \<Rightarrow> esp_err \<times> p4_ota" where
  "p4_ota_init a st =
     (if \<not> po_lock st \<and> \<not> an_mutex a then (ESP_ERR_NO_MEM, st)
      else (ESP_OK, refresh_running_locked a
        (st\<lparr>po_lock := True, po_status := zero_ota_status, po_image_sha := [], po_image_sha_active := False\<rparr>)))"

definition p4_ota_begin :: "ota_platform \<Rightarrow> ota_answers \<Rightarrow> ddj_ota_manifest \<Rightarrow> p4_ota \<Rightarrow> esp_err \<times> p4_ota" where
  "p4_ota_begin plat a manifest st =
     (if \<not> po_lock st then (ESP_ERR_INVALID_STATE, st)
      else if om_target manifest \<noteq> DDJ_OTA_TARGET_P4 then (ESP_ERR_INVALID_ARG, st)
      else if os_state (po_status st) = P4_OTA_RECEIVING then (ESP_ERR_INVALID_STATE, st)
      else let image_size = unat (om_image_size manifest); st = st\<lparr>po_target := an_next a\<rparr>
      in case an_next a of
        None \<Rightarrow> (ESP_ERR_NOT_FOUND, set_state P4_OTA_FAILED (set_error (ascii ''no OTA target slot'') st))
      | Some p \<Rightarrow>
          if \<not> p4_ota_policy_size_valid image_size (pt_size p)
          then (ESP_ERR_INVALID_SIZE, set_state P4_OTA_FAILED (set_error (ascii ''invalid image size'') st))
          else if an_begin a \<noteq> ESP_OK
          then (an_begin a, set_state P4_OTA_FAILED (set_error (err_name plat (an_begin a)) (store_slot (pt_label p) (an_torn a) st)))
          else let st = store_slot (pt_label p) [] st;
                   st = st\<lparr>po_flash := (po_flash st)\<lparr>fl_handle := pt_label p\<rparr>, po_handle_open := True, po_image_sha := []\<rparr>
          in if \<not> an_setup a
             then (ESP_FAIL, set_state P4_OTA_FAILED (set_error (ascii ''SHA-256 init failed'') (st\<lparr>po_handle_open := False\<rparr>)))
             else (ESP_OK, st\<lparr>po_image_sha_active := True, po_expected_sha256 := om_image_sha256 manifest,
               po_expected_version := copy_text 32 (om_version manifest),
               po_status := (po_status st)\<lparr>os_state := P4_OTA_RECEIVING, os_expected_size := image_size, os_received_size := 0,
                 os_target_version := [], os_last_error := [], os_target_slot := copy_text 17 (pt_label p)\<rparr>\<rparr>))"

definition p4_ota_write :: "ota_platform \<Rightarrow> ota_answers \<Rightarrow> u8 list \<Rightarrow> p4_ota \<Rightarrow> esp_err \<times> p4_ota" where
  "p4_ota_write plat a data st =
     (let s = po_status st; fl = po_flash st
      in if data = [] \<or> \<not> po_lock st then (ESP_ERR_INVALID_ARG, st)
         else if \<not> po_handle_open st \<or> os_state s \<noteq> P4_OTA_RECEIVING \<or> os_received_size s > os_expected_size s \<or>
           length data > os_expected_size s - os_received_size s then (ESP_ERR_INVALID_STATE, st)
         else if an_write a = ESP_OK
         then (let st = store_slot (fl_handle fl) (fl_slots fl (fl_handle fl) @ data) st
               in if an_update a
                  then (ESP_OK, st\<lparr>po_image_sha := po_image_sha st @ data,
                    po_status := s\<lparr>os_received_size := os_received_size s + length data\<rparr>\<rparr>)
                  else (ESP_FAIL, set_state P4_OTA_FAILED (set_error (ascii ''SHA-256 update failed'') st)))
         else (an_write a, set_state P4_OTA_FAILED (set_error (err_name plat (an_write a)) (store_slot (fl_handle fl) (an_torn a) st))))"

text \<open>The failing end of \<open>p4_ota_finish\<close>: the message, or the name of the error where there is none yet.\<close>

definition finish_failed :: "ota_platform \<Rightarrow> esp_err \<Rightarrow> p4_ota \<Rightarrow> esp_err \<times> p4_ota" where
  "finish_failed plat rc st =
     (rc, set_state P4_OTA_FAILED (if os_last_error (po_status st) = [] then set_error (err_name plat rc) st else st))"

definition select_boot :: "ota_partition \<Rightarrow> p4_ota \<Rightarrow> p4_ota" where
  "select_boot p st = st\<lparr>po_flash := (po_flash st)\<lparr>fl_boots := fl_boots (po_flash st) @ [(pt_label p, fl_slots (po_flash st) (pt_label p))]\<rparr>\<rparr>"

definition finish_described :: "ota_platform \<Rightarrow> ota_answers \<Rightarrow> ota_partition \<Rightarrow> p4_ota \<Rightarrow> esp_err \<times> p4_ota" where
  "finish_described plat a p st =
     (let (project_name, version) = image_desc plat (fl_slots (po_flash st) (pt_label p))
      in if an_desc a \<noteq> ESP_OK then finish_failed plat (an_desc a) st
         else if project_name \<noteq> ascii ''main-deck-p4''
         then finish_failed plat ESP_ERR_INVALID_RESPONSE (set_error (ascii ''wrong firmware project'') st)
         else if version \<noteq> po_expected_version st
         then finish_failed plat ESP_ERR_INVALID_RESPONSE (set_error (ascii ''signed version does not match image'') st)
         else let st = select_boot p st
         in if an_boot a \<noteq> ESP_OK then finish_failed plat (an_boot a) st
            else (ESP_OK, st\<lparr>po_status := (po_status st)\<lparr>os_target_version := copy_text 33 version, os_state := P4_OTA_READY_TO_REBOOT\<rparr>\<rparr>))"

definition p4_ota_finish :: "ota_platform \<Rightarrow> ota_answers \<Rightarrow> p4_ota \<Rightarrow> esp_err \<times> p4_ota" where
  "p4_ota_finish plat a st =
     (if \<not> po_lock st then (ESP_ERR_INVALID_STATE, st)
      else case p4_ota_policy_finish (os_state (po_status st) = P4_OTA_RECEIVING) (po_handle_open st)
          (os_received_size (po_status st)) (os_expected_size (po_status st)) of
        P4_OTA_FINISH_INVALID_STATE \<Rightarrow> (ESP_ERR_INVALID_STATE, close_receive_resources_locked st)
      | P4_OTA_FINISH_INCOMPLETE \<Rightarrow>
          (ESP_ERR_INVALID_SIZE, set_state P4_OTA_FAILED (set_error (ascii ''incomplete OTA image'') (close_receive_resources_locked st)))
      | P4_OTA_FINISH_VERIFY \<Rightarrow>
          (let actual = (if an_finish a then psa_hash_compute plat (po_image_sha st) else None);
               st = st\<lparr>po_image_sha := [], po_image_sha_active := False, po_handle_open := False\<rparr>
           in case actual of
             None \<Rightarrow> finish_failed plat ESP_FAIL st
           | Some digest \<Rightarrow>
               if length digest \<noteq> DDJ_OTA_SHA256_SIZE then finish_failed plat ESP_FAIL st
               else if digest \<noteq> po_expected_sha256 st
               then finish_failed plat ESP_ERR_INVALID_CRC (set_error (ascii ''firmware SHA-256 mismatch'') st)
               else if an_end a \<noteq> ESP_OK then finish_failed plat (an_end a) st
               else case po_target st of
                 None \<Rightarrow> finish_failed plat ESP_ERR_INVALID_ARG st
               | Some p \<Rightarrow> finish_described plat a p st))"

definition p4_ota_abort :: "u8 list \<Rightarrow> p4_ota \<Rightarrow> p4_ota" where
  "p4_ota_abort reason st =
     (if \<not> po_lock st then st else set_state P4_OTA_FAILED (set_error reason (close_receive_resources_locked st)))"

definition p4_ota_get_status :: "ota_answers \<Rightarrow> p4_ota \<Rightarrow> p4_ota_status \<times> p4_ota" where
  "p4_ota_get_status a st =
     (if \<not> po_lock st then (zero_ota_status, st) else let st = refresh_running_locked a st in (po_status st, st))"

text \<open>The operations as values, and a run of them in any order by any callers.\<close>

datatype ota_op =
    Ota_Init ota_answers | Ota_Begin ota_answers ddj_ota_manifest | Ota_Write ota_answers "u8 list" | Ota_Finish ota_answers
  | Ota_Abort "u8 list" | Ota_Status ota_answers

fun run_op :: "ota_platform \<Rightarrow> ota_op \<Rightarrow> p4_ota \<Rightarrow> p4_ota" where
  "run_op plat (Ota_Init a) st = snd (p4_ota_init a st)"
| "run_op plat (Ota_Begin a m) st = snd (p4_ota_begin plat a m st)"
| "run_op plat (Ota_Write a data) st = snd (p4_ota_write plat a data st)"
| "run_op plat (Ota_Finish a) st = snd (p4_ota_finish plat a st)"
| "run_op plat (Ota_Abort reason) st = p4_ota_abort reason st"
| "run_op plat (Ota_Status a) st = snd (p4_ota_get_status a st)"

definition run_ops :: "ota_platform \<Rightarrow> ota_op list \<Rightarrow> p4_ota \<Rightarrow> p4_ota" where
  "run_ops plat ops st = fold (run_op plat) ops st"

section \<open>What may be selected for boot\<close>

text \<open>The images of the manifests that satisfy \<open>M\<close>.\<close>

definition image_of :: "ota_platform \<Rightarrow> (ddj_ota_manifest \<Rightarrow> bool) \<Rightarrow> u8 list \<Rightarrow> bool" where
  "image_of plat M img \<longleftrightarrow> (\<exists>m. M m \<and> length img = unat (om_image_size m) \<and> psa_hash_compute plat img = Some (om_image_sha256 m) \<and>
     image_desc plat img = (ascii ''main-deck-p4'', copy_text 32 (om_version m)))"

text \<open>While receiving, the slot holds the bytes that were hashed, and the expectations are those of one accepted manifest.\<close>

definition receiving_ok :: "(ddj_ota_manifest \<Rightarrow> bool) \<Rightarrow> p4_ota \<Rightarrow> bool" where
  "receiving_ok M st \<longleftrightarrow> (os_state (po_status st) = P4_OTA_RECEIVING \<longrightarrow>
     po_handle_open st \<and> os_received_size (po_status st) \<le> os_expected_size (po_status st) \<and>
     (\<exists>p. po_target st = Some p \<and> fl_handle (po_flash st) = pt_label p) \<and>
     fl_slots (po_flash st) (fl_handle (po_flash st)) = po_image_sha st \<and> length (po_image_sha st) = os_received_size (po_status st) \<and>
     (\<exists>m. M m \<and> os_expected_size (po_status st) = unat (om_image_size m) \<and> po_expected_sha256 st = om_image_sha256 m \<and>
        po_expected_version st = copy_text 32 (om_version m)))"

definition ota_inv :: "ota_platform \<Rightarrow> (ddj_ota_manifest \<Rightarrow> bool) \<Rightarrow> p4_ota \<Rightarrow> bool" where
  "ota_inv plat M st \<longleftrightarrow> receiving_ok M st \<and> (\<forall>(slot, img) \<in> set (fl_boots (po_flash st)). image_of plat M img)"

named_theorems ota_defs \<open>the small operations of the receiver\<close>

declare set_error_def [ota_defs] set_state_def [ota_defs] store_slot_def [ota_defs] select_boot_def [ota_defs]
  close_receive_resources_locked_def [ota_defs] finish_failed_def [ota_defs]

lemma ota_start_inv: "ota_inv plat M ota_start"
  by (simp add: ota_inv_def receiving_ok_def ota_start_def zero_ota_status_def)

lemma refresh_inv: "ota_inv plat M st \<Longrightarrow> ota_inv plat M (refresh_running_locked a st)"
  by (auto simp: ota_inv_def receiving_ok_def refresh_running_locked_def split: option.splits)

lemma init_inv: "ota_inv plat M st \<Longrightarrow> ota_inv plat M (snd (p4_ota_init a st))"
  by (auto simp: p4_ota_init_def intro!: refresh_inv) (simp_all add: ota_inv_def receiving_ok_def zero_ota_status_def)

lemma begin_inv: "ota_inv plat M st \<Longrightarrow> M m \<Longrightarrow> ota_inv plat M (snd (p4_ota_begin plat a m st))"
  by (auto simp: p4_ota_begin_def ota_inv_def receiving_ok_def ota_defs Let_def split: option.splits if_splits)

lemma ota_write_inv: "ota_inv plat M st \<Longrightarrow> ota_inv plat M (snd (p4_ota_write plat a data st))"
  by (auto simp: p4_ota_write_def ota_inv_def receiving_ok_def ota_defs Let_def split: if_splits)

lemma close_inv: "ota_inv plat M st \<Longrightarrow> ota_inv plat M (set_state P4_OTA_FAILED (set_error msg (close_receive_resources_locked st)))"
  by (auto simp: ota_inv_def receiving_ok_def ota_defs Let_def)

lemma close_idle_inv: "ota_inv plat M st \<Longrightarrow> os_state (po_status st) \<noteq> P4_OTA_RECEIVING \<Longrightarrow> ota_inv plat M (close_receive_resources_locked st)"
  by (auto simp: ota_inv_def receiving_ok_def ota_defs Let_def)

lemma abort_inv: "ota_inv plat M st \<Longrightarrow> ota_inv plat M (p4_ota_abort reason st)"
  by (simp add: p4_ota_abort_def close_inv)

lemma status_inv: "ota_inv plat M st \<Longrightarrow> ota_inv plat M (snd (p4_ota_get_status a st))"
  by (simp add: p4_ota_get_status_def Let_def refresh_inv)

lemma failed_inv: "\<forall>(slot, img) \<in> set (fl_boots (po_flash st)). image_of plat M img \<Longrightarrow> ota_inv plat M (snd (finish_failed plat rc st))"
  by (auto simp: ota_inv_def receiving_ok_def ota_defs)

lemma described_inv:
  assumes "\<forall>(slot, img) \<in> set (fl_boots (po_flash st)). image_of plat M img"
    and "fst (image_desc plat img) = ascii ''main-deck-p4'' \<Longrightarrow> snd (image_desc plat img) = po_expected_version st \<Longrightarrow> image_of plat M img"
    and "fl_slots (po_flash st) (pt_label p) = img"
  shows "ota_inv plat M (snd (finish_described plat a p st))"
proof -
  have boots: "\<forall>(slot, img) \<in> set (fl_boots (po_flash (select_boot p st))). image_of plat M img"
    if "fst (image_desc plat img) = ascii ''main-deck-p4''" "snd (image_desc plat img) = po_expected_version st"
    using assms that by (auto simp: select_boot_def)
  have err: "\<forall>(slot, img) \<in> set (fl_boots (po_flash (set_error msg st))). image_of plat M img" for msg
    using assms(1) by (simp add: set_error_def)
  show ?thesis
    using assms boots err
    by (auto simp: finish_described_def Let_def failed_inv case_prod_beta)
       (auto simp: ota_inv_def receiving_ok_def)
qed

lemma finish_inv:
  assumes inv: "ota_inv plat M st"
  shows "ota_inv plat M (snd (p4_ota_finish plat a st))"
proof (cases "po_lock st \<and> os_state (po_status st) = P4_OTA_RECEIVING \<and> os_received_size (po_status st) = os_expected_size (po_status st)")
  case False
  then show ?thesis using inv by (auto simp: p4_ota_finish_def p4_ota_policy_finish_def close_inv close_idle_inv)
next
  case True
  let ?st = "st\<lparr>po_image_sha := [], po_image_sha_active := False, po_handle_open := False\<rparr>"
  obtain p m where pm: "po_target st = Some p" "fl_slots (po_flash st) (pt_label p) = po_image_sha st" "M m" "po_handle_open st"
      "length (po_image_sha st) = unat (om_image_size m)" "po_expected_sha256 st = om_image_sha256 m"
      "po_expected_version st = copy_text 32 (om_version m)"
    using inv True by (auto simp: ota_inv_def receiving_ok_def)
  have boots: "\<forall>(slot, img) \<in> set (fl_boots (po_flash st)). image_of plat M img" using inv by (simp add: ota_inv_def)
  have img: "image_of plat M (po_image_sha st)" if "psa_hash_compute plat (po_image_sha st) = Some (po_expected_sha256 st)"
      "fst (image_desc plat (po_image_sha st)) = ascii ''main-deck-p4''" "snd (image_desc plat (po_image_sha st)) = po_expected_version st"
    using that pm unfolding image_of_def by (metis prod.collapse)
  have "ota_inv plat M (snd (finish_described plat a p ?st))" if "psa_hash_compute plat (po_image_sha st) = Some (po_expected_sha256 st)"
    by (rule described_inv [where img = "po_image_sha st"]) (use boots pm img [OF that] in simp_all)
  then show ?thesis using True pm boots
    by (auto simp: p4_ota_finish_def p4_ota_policy_finish_def Let_def failed_inv set_error_def split: option.splits)
qed

lemma op_inv: "ota_inv plat M st \<Longrightarrow> (\<And>a m. op = Ota_Begin a m \<Longrightarrow> M m) \<Longrightarrow> ota_inv plat M (run_op plat op st)"
  by (cases op) (simp_all add: init_inv begin_inv ota_write_inv finish_inv abort_inv status_inv)

definition begins_with :: "(ddj_ota_manifest \<Rightarrow> bool) \<Rightarrow> ota_op list \<Rightarrow> bool" where
  "begins_with M ops \<longleftrightarrow> (\<forall>a m. Ota_Begin a m \<in> set ops \<longrightarrow> M m)"

lemma ops_inv: "ota_inv plat M st \<Longrightarrow> begins_with M ops \<Longrightarrow> ota_inv plat M (run_ops plat ops st)"
proof (induction ops arbitrary: st)
  case (Cons op ops)
  then have "ota_inv plat M (run_op plat op st)" by (intro op_inv) (auto simp: begins_with_def)
  with Cons show ?case by (simp add: run_ops_def begins_with_def)
qed (simp add: run_ops_def)

section \<open>A good image is installed\<close>

text \<open>Answers without any failure, for a slot.\<close>

definition all_ok :: "ota_partition \<Rightarrow> ota_answers \<Rightarrow> bool" where
  "all_ok p a \<longleftrightarrow> an_next a = Some p \<and> an_begin a = ESP_OK \<and> an_setup a \<and> an_write a = ESP_OK \<and> an_update a \<and> an_finish a \<and>
     an_end a = ESP_OK \<and> an_desc a = ESP_OK \<and> an_boot a = ESP_OK"

text \<open>Receiving an image of \<open>m\<close> into \<open>p\<close>, with \<open>got\<close> written.\<close>

definition receiving :: "ddj_ota_manifest \<Rightarrow> ota_partition \<Rightarrow> (u8 list \<times> u8 list) list \<Rightarrow> u8 list \<Rightarrow> p4_ota \<Rightarrow> bool" where
  "receiving m p boots got st \<longleftrightarrow> po_lock st \<and> os_state (po_status st) = P4_OTA_RECEIVING \<and> po_handle_open st \<and> po_target st = Some p \<and>
     fl_handle (po_flash st) = pt_label p \<and> fl_slots (po_flash st) (pt_label p) = got \<and> po_image_sha st = got \<and>
     os_received_size (po_status st) = length got \<and> os_expected_size (po_status st) = unat (om_image_size m) \<and>
     po_expected_sha256 st = om_image_sha256 m \<and> po_expected_version st = copy_text 32 (om_version m) \<and> fl_boots (po_flash st) = boots"

lemma begin_receiving:
  assumes "po_lock st" "os_state (po_status st) \<noteq> P4_OTA_RECEIVING" "all_ok p a" "om_target m = DDJ_OTA_TARGET_P4"
    "p4_ota_policy_size_valid (unat (om_image_size m)) (pt_size p)"
  shows "fst (p4_ota_begin plat a m st) = ESP_OK \<and> receiving m p (fl_boots (po_flash st)) [] (snd (p4_ota_begin plat a m st))"
  using assms by (simp add: p4_ota_begin_def Let_def all_ok_def receiving_def store_slot_def)

lemma write_receiving:
  assumes "receiving m p boots got st" "all_ok p a" "data \<noteq> []" "length got + length data \<le> unat (om_image_size m)"
  shows "fst (p4_ota_write plat a data st) = ESP_OK \<and> receiving m p boots (got @ data) (snd (p4_ota_write plat a data st))"
  using assms by (auto simp: p4_ota_write_def Let_def all_ok_def receiving_def store_slot_def)

lemma finish_receiving:
  assumes "receiving m p boots img st" "all_ok p a" "length img = unat (om_image_size m)" "length (om_image_sha256 m) = 32"
    "psa_hash_compute plat img = Some (om_image_sha256 m)" "image_desc plat img = (ascii ''main-deck-p4'', copy_text 32 (om_version m))"
  shows "fst (p4_ota_finish plat a st) = ESP_OK" "os_state (po_status (snd (p4_ota_finish plat a st))) = P4_OTA_READY_TO_REBOOT"
    "fl_boots (po_flash (snd (p4_ota_finish plat a st))) = boots @ [(pt_label p, img)]"
  using assms by (simp_all add: p4_ota_finish_def p4_ota_policy_finish_def finish_described_def select_boot_def Let_def all_ok_def receiving_def)

text \<open>
  A transfer may begin in the state \<open>P4_OTA_READY_TO_REBOOT\<close> too, and it erases the slot that is selected for the next boot: until it
  is complete the deck would boot into an empty slot.
\<close>

lemma begin_empties_selected_slot:
  assumes "po_lock st" "os_state (po_status st) = P4_OTA_READY_TO_REBOOT" "fl_boots (po_flash st) = boots @ [(pt_label p, img)]"
    "all_ok p a" "om_target m = DDJ_OTA_TARGET_P4" "p4_ota_policy_size_valid (unat (om_image_size m)) (pt_size p)"
  shows "fst (p4_ota_begin plat a m st) = ESP_OK" "fl_slots (po_flash (snd (p4_ota_begin plat a m st))) (pt_label p) = []"
    "fl_boots (po_flash (snd (p4_ota_begin plat a m st))) = boots @ [(pt_label p, img)]"
  using begin_receiving [of st p a m plat] assms by (auto simp: receiving_def)

lemma writes_receiving:
  assumes "receiving m p boots got st" "\<forall>(a, c) \<in> set cs. all_ok p a \<and> c \<noteq> []" "length got + length (concat (map snd cs)) \<le> unat (om_image_size m)"
  shows "receiving m p boots (got @ concat (map snd cs)) (run_ops plat (map (\<lambda>(a, c). Ota_Write a c) cs) st)"
  using assms
proof (induction cs arbitrary: got st)
  case (Cons x cs)
  obtain a c where x: "x = (a, c)" by (cases x)
  have w: "receiving m p boots (got @ c) (snd (p4_ota_write plat a c st))"
    using Cons.prems by (intro conjunct2 [OF write_receiving]) (auto simp: x)
  show ?case using Cons.IH [OF w] Cons.prems by (simp add: x run_ops_def)
qed (simp add: run_ops_def)

end
