(* ===== verification/Ota_Install.thy ===== *)
theory Ota_Install
  imports P4_Ota
begin

text \<open>
  The two paths that bring an image to the firmware receiver: the download of an offered release (\<open>download_and_install\<close> of
  \<open>p4_ota_pull.c\<close>) and the upload over the local web page (\<open>api_p4_ota_handler\<close> of \<open>web_server.c\<close>), and the fetch of the channel
  document.  The HTTP client and server, the heap, the hash operation over the bundle and the audio engine are parameters: what
  they answer, call by call.  Between two calls of the receiver other tasks may use it too, so the operations they do before the
  \<open>k\<close>-th call of this task are a parameter as well.
\<close>

section \<open>Error codes\<close>

fun err_code :: "esp_err \<Rightarrow> int" where
  "err_code ESP_OK = 0"
| "err_code ESP_FAIL = - 1"
| "err_code ESP_ERR_NO_MEM = 0x101"
| "err_code ESP_ERR_INVALID_ARG = 0x102"
| "err_code ESP_ERR_INVALID_STATE = 0x103"
| "err_code ESP_ERR_INVALID_SIZE = 0x104"
| "err_code ESP_ERR_NOT_FOUND = 0x105"
| "err_code ESP_ERR_NOT_SUPPORTED = 0x106"
| "err_code ESP_ERR_TIMEOUT = 0x107"
| "err_code ESP_ERR_INVALID_RESPONSE = 0x108"
| "err_code ESP_ERR_INVALID_CRC = 0x109"
| "err_code ESP_ERR_INVALID_VERSION = 0x10A"
| "err_code ESP_ERR_INVALID_MAC = 0x10B"
| "err_code ESP_ERR_NVS_NOT_FOUND = 0x1102"

lemma err_code_zero [simp]: "err_code e = 0 \<longleftrightarrow> e = ESP_OK"
  by (cases e) simp_all

section \<open>Reading over HTTP\<close>

abbreviation (input) APP_SETTINGS_OTA_URL_CAP :: nat where "APP_SETTINGS_OTA_URL_CAP \<equiv> 161"
abbreviation (input) CHANNEL_DOC_MAX :: nat where "CHANNEL_DOC_MAX \<equiv> 4096"
abbreviation (input) DL_CHUNK :: nat where "DL_CHUNK \<equiv> 4096"

text \<open>A request: \<open>None\<close> is a read that fails, \<open>Some []\<close> the end; a read returns at most the bytes that were asked for.\<close>

record http =
  ht_client :: bool
  ht_open :: int
  ht_length :: int
  ht_status :: int
  ht_read :: "nat \<Rightarrow> u8 list option"

definition http_read :: "http \<Rightarrow> nat \<Rightarrow> nat \<Rightarrow> u8 list" where
  "http_read h n want = (case ht_read h n of None \<Rightarrow> [] | Some bs \<Rightarrow> take want bs)"

definition request_url :: "u8 list \<Rightarrow> u8 list \<Rightarrow> u8 list" where
  "request_url base rel =
     (let n = length (take APP_SETTINGS_OTA_URL_CAP base); slash = (n > 0 \<and> base ! (n - 1) = 0x2F)
      in base @ (if slash then [] else [0x2F]) @ rel)"

text \<open>The reads of the channel document, after \<open>got\<close>: whether none failed, and what arrived.\<close>

function fetch_loop :: "http \<Rightarrow> nat \<Rightarrow> nat \<Rightarrow> u8 list \<Rightarrow> bool \<times> u8 list" where
  "fetch_loop h cap n arrived =
     (if length arrived < cap
      then if ht_read h n = None then (False, arrived)
           else let got = http_read h n (cap - length arrived)
           in if got = [] then (True, arrived) else fetch_loop h cap (n + 1) (arrived @ got)
      else (True, arrived))"
  by pat_completeness auto
termination
  by (relation "measure (\<lambda>(h, cap, n, arrived). cap - length arrived)") (auto simp: length_greater_0_conv [symmetric] simp del: length_greater_0_conv)

declare fetch_loop.simps [simp del]

text \<open>The byte count or a negative error, and the buffer: what arrived, then what was there before.\<close>

definition fetch_channel_doc :: "(u8 list \<Rightarrow> http) \<Rightarrow> u8 list \<Rightarrow> nat \<Rightarrow> u8 list \<Rightarrow> int \<times> u8 list" where
  "fetch_channel_doc web base_url cap buf =
     (let h = web (request_url base_url (ascii ''latest.json''))
      in if \<not> ht_client h then (- err_code ESP_ERR_NO_MEM, buf)
         else if ht_open h \<noteq> 0 then (- ht_open h, buf)
         else if ht_status h \<noteq> 200 then (- err_code ESP_ERR_NOT_FOUND, buf)
         else if ht_length h > int cap then (- err_code ESP_ERR_INVALID_SIZE, buf)
         else let (ok, doc) = fetch_loop h cap 0 []; buf = doc @ drop (length doc) buf
         in if \<not> ok then (- err_code ESP_FAIL, buf)
            else if length doc \<ge> cap then (- err_code ESP_ERR_INVALID_SIZE, buf) else (int (length doc), buf))"

text \<open>A header is read whole, in as many reads as it takes; \<open>None\<close> when it ends early.  With it the number of the next read.\<close>

function header_loop :: "(nat \<Rightarrow> nat \<Rightarrow> u8 list) \<Rightarrow> nat \<Rightarrow> u8 list \<Rightarrow> (u8 list \<times> nat) option" where
  "header_loop rd n hdr =
     (if length hdr < DDJ_OTA_HEADER_SIZE
      then let got = take (DDJ_OTA_HEADER_SIZE - length hdr) (rd n (DDJ_OTA_HEADER_SIZE - length hdr))
           in if got = [] then None else header_loop rd (n + 1) (hdr @ got)
      else Some (hdr, n))"
  by pat_completeness auto
termination
  by (relation "measure (\<lambda>(rd, n, hdr). 188 - length hdr)") (auto simp: length_greater_0_conv [symmetric] simp del: length_greater_0_conv)

declare header_loop.simps [simp del]

section \<open>Download\<close>

text \<open>
  What surrounds a download: the server, the heap, the hash over the bundle, the audio engine, what other tasks do with the receiver
  before the \<open>k\<close>-th call of this one, and the answers of the libraries to that call.
\<close>

record dl_env =
  dl_web :: "u8 list \<Rightarrow> http"
  dl_malloc :: bool
  dl_setup :: bool
  dl_update :: "nat \<Rightarrow> bool"
  dl_finish :: bool
  dl_suspend :: int
  dl_others :: "nat \<Rightarrow> ota_op list"
  dl_answers :: "nat \<Rightarrow> ota_answers"

record dl_result =
  dr_rc :: int
  dr_ota :: p4_ota
  dr_written :: nat
  dr_barrier :: bool

definition others :: "ota_platform \<Rightarrow> dl_env \<Rightarrow> nat \<Rightarrow> p4_ota \<Rightarrow> p4_ota" where
  "others plat e k st = run_ops plat (dl_others e k) st"

text \<open>The reads and writes of the image, from read \<open>n\<close> and call \<open>k\<close> on; the result has the error, the image and the next call.\<close>

function body_loop :: "ota_platform \<Rightarrow> dl_env \<Rightarrow> http \<Rightarrow> nat \<Rightarrow> nat \<Rightarrow> nat \<Rightarrow> u8 list \<Rightarrow> p4_ota \<Rightarrow> int \<times> u8 list \<times> nat \<times> p4_ota" where
  "body_loop plat e h image_size n k written st =
     (if length written < image_size
      then let want = min (image_size - length written) DL_CHUNK; got = http_read h n want
      in if got = [] then (err_code ESP_ERR_INVALID_RESPONSE, written, k, p4_ota_abort (ascii ''download truncated'') (others plat e k st))
         else let (rc, st1) = p4_ota_write plat (dl_answers e k) got (others plat e k st)
         in if rc \<noteq> ESP_OK then (err_code rc, written, k, p4_ota_abort (ascii ''flash write failed'') (others plat e (k + 1) st1))
            else if \<not> dl_update e k
            then (err_code ESP_FAIL, written, k, p4_ota_abort (ascii ''bundle hash failed'') (others plat e (k + 1) st1))
            else body_loop plat e h image_size (n + 1) (k + 1) (written @ got) st1
      else (0, written, k, st))"
  by pat_completeness auto
termination
  by (relation "measure (\<lambda>(plat, e, h, image_size, n, k, written, st). image_size - length written)")
     (auto simp: length_greater_0_conv [symmetric] simp del: length_greater_0_conv)

declare body_loop.simps [simp del]

definition p4_manifest :: "u8 list \<Rightarrow> ddj_ota_manifest_result + ddj_ota_manifest" where
  "p4_manifest header =
     ddj_ota_manifest_parse header DDJ_OTA_TARGET_P4 P4_OTA_ESP32P4_CHIP_ID (ascii ''main-deck-p4'') P4_OTA_MAX_IMAGE_SIZE"

text \<open>From the start of the transfer: the receiver is begun, fed and finished.\<close>

definition install_image ::
  "ota_platform \<Rightarrow> dl_env \<Rightarrow> http \<Rightarrow> u8 list \<Rightarrow> nat \<Rightarrow> ddj_ota_manifest \<Rightarrow> u8 list \<Rightarrow> p4_ota \<Rightarrow> int \<times> nat \<times> p4_ota" where
  "install_image plat e h header n manifest expect_sha256 st =
     (let (rc, st) = p4_ota_begin plat (dl_answers e 0) manifest (others plat e 0 st)
      in if rc \<noteq> ESP_OK then (err_code rc, 0, st)
         else let (rc, img, k, st) = body_loop plat e h (unat (om_image_size manifest)) n 1 [] st
         in if rc \<noteq> 0 then (rc, length img, st)
            else case (if dl_finish e then psa_hash_compute plat (header @ img) else None) of
              None \<Rightarrow> (err_code ESP_FAIL, length img, p4_ota_abort (ascii ''bundle hash failed'') (others plat e k st))
            | Some actual \<Rightarrow>
                if length actual \<noteq> 32
                then (err_code ESP_FAIL, length img, p4_ota_abort (ascii ''bundle hash failed'') (others plat e k st))
                else if actual \<noteq> expect_sha256
                then (err_code ESP_ERR_INVALID_CRC, length img, p4_ota_abort (ascii ''channel sha256 mismatch'') (others plat e k st))
                else let (rc, st) = p4_ota_finish plat (dl_answers e k) (others plat e k st) in (err_code rc, length img, st))"

definition download_and_install ::
  "ota_platform \<Rightarrow> dl_env \<Rightarrow> u8 list \<Rightarrow> u8 list \<Rightarrow> u8 list \<Rightarrow> u8 list \<Rightarrow> u32 \<Rightarrow> u8 list \<Rightarrow> p4_ota \<Rightarrow> dl_result" where
  "download_and_install plat e running base_url rel_url expected_release expect_size expect_sha256 st =
     (let h = dl_web e (request_url base_url rel_url);
          stop = (\<lambda>rc. \<lparr>dr_rc = rc, dr_ota = st, dr_written = 0, dr_barrier = False\<rparr>)
      in if \<not> ht_client h then stop (err_code ESP_ERR_NO_MEM)
         else if \<not> dl_malloc e then stop (err_code ESP_ERR_NO_MEM)
         else if \<not> dl_setup e then stop (err_code ESP_FAIL)
         else if ht_open h \<noteq> 0 then stop (ht_open h)
         else if ht_status h \<noteq> 200 then stop (err_code ESP_ERR_NOT_FOUND)
         else if ht_length h \<noteq> int (unat expect_size) then stop (err_code ESP_ERR_INVALID_SIZE)
         else case header_loop (http_read h) 0 [] of
           None \<Rightarrow> stop (err_code ESP_ERR_INVALID_RESPONSE)
         | Some (header, n) \<Rightarrow>
             if \<not> dl_update e 0 then stop (err_code ESP_FAIL)
             else case p4_manifest header of
               Inl err \<Rightarrow> stop (err_code ESP_ERR_INVALID_RESPONSE)
             | Inr manifest \<Rightarrow>
                 if \<not> ddj_ota_manifest_verify_signature (ota_crypto.truncate plat) header then stop (err_code ESP_ERR_INVALID_MAC)
                 else if unat expect_size \<noteq> DDJ_OTA_HEADER_SIZE + unat (om_image_size manifest) then stop (err_code ESP_ERR_INVALID_SIZE)
                 else if p4_ota_pull_validate_bundle_release expected_release (om_version manifest) running \<noteq> P4_OTA_PULL_BUNDLE_RELEASE_OK
                 then stop (err_code ESP_ERR_INVALID_VERSION)
                 else if dl_suspend e \<noteq> 0 then stop (dl_suspend e)
                 else let (rc, written, st') = install_image plat e h header n manifest expect_sha256 st
                 in \<lparr>dr_rc = rc, dr_ota = st', dr_written = written, dr_barrier = (rc = 0)\<rparr>)"

section \<open>Upload\<close>

text \<open>What the web server hands over: a read times out, fails, or brings at most the bytes that were asked for.\<close>

datatype recv = Recv_Timeout | Recv_Error | Recv_Bytes "u8 list"

fun ota_http_recv :: "(nat \<Rightarrow> recv) \<Rightarrow> nat \<Rightarrow> nat \<Rightarrow> nat \<Rightarrow> recv \<times> nat" where
  "ota_http_recv rcv n 0 wanted = (Recv_Timeout, n)"
| "ota_http_recv rcv n (Suc t) wanted =
     (case rcv n of Recv_Timeout \<Rightarrow> ota_http_recv rcv (n + 1) t wanted
      | Recv_Error \<Rightarrow> (Recv_Error, n + 1) | Recv_Bytes bs \<Rightarrow> (Recv_Bytes (take wanted bs), n + 1))"

datatype response = Response nat | Dropped

definition recv_failed :: "recv \<Rightarrow> response" where
  "recv_failed r = (if r = Recv_Timeout then Response 408 else Dropped)"

abbreviation (input) max_timeouts :: nat where "max_timeouts \<equiv> 5"

text \<open>Reads until \<open>need\<close> bytes are there, never past \<open>limit\<close>.\<close>

function recv_until :: "(nat \<Rightarrow> recv) \<Rightarrow> nat \<Rightarrow> nat \<Rightarrow> nat \<Rightarrow> u8 list \<Rightarrow> (response + u8 list) \<times> nat" where
  "recv_until rcv n need limit buf =
     (if length buf < need
      then case ota_http_recv rcv n max_timeouts (limit - length buf) of
        (Recv_Bytes got, n') \<Rightarrow> if got = [] then (Inl Dropped, n') else recv_until rcv n' need limit (buf @ got)
      | (r, n') \<Rightarrow> (Inl (recv_failed r), n')
      else (Inr buf, n))"
  by pat_completeness auto
termination
  by (relation "measure (\<lambda>(rcv, n, need, limit, buf). need - length buf)") (auto simp: length_greater_0_conv [symmetric] simp del: length_greater_0_conv)

declare recv_until.simps [simp del]

record up_env =
  up_allowed :: bool
  up_target :: "u8 list option"
  up_content_len :: nat
  up_malloc :: bool
  up_recv :: "nat \<Rightarrow> recv"
  up_suspend :: int
  up_others :: "nat \<Rightarrow> ota_op list"
  up_answers :: "nat \<Rightarrow> ota_answers"

text \<open>The result: the response, the receiver, whether the audio barrier is still held, and whether a restart is under way.\<close>

record up_result =
  ur_response :: response
  ur_ota :: p4_ota
  ur_barrier :: bool
  ur_restart :: bool

definition up_stop :: "response \<Rightarrow> p4_ota \<Rightarrow> up_result" where
  "up_stop r st = \<lparr>ur_response = r, ur_ota = st, ur_barrier = False, ur_restart = False\<rparr>"

definition up_others_run :: "ota_platform \<Rightarrow> up_env \<Rightarrow> nat \<Rightarrow> p4_ota \<Rightarrow> p4_ota" where
  "up_others_run plat e k st = run_ops plat (up_others e k) st"

text \<open>The rest of the image after the first block; \<open>Inr\<close> is the number of the next call.\<close>

function upload_loop :: "ota_platform \<Rightarrow> up_env \<Rightarrow> nat \<Rightarrow> nat \<Rightarrow> nat \<Rightarrow> p4_ota \<Rightarrow> (response + nat) \<times> p4_ota" where
  "upload_loop plat e remaining n k st =
     (if remaining > 0
      then let wanted = (if remaining < 4096 then remaining else 4096)
           in case ota_http_recv (up_recv e) n max_timeouts wanted of
             (Recv_Bytes got, n') \<Rightarrow>
               if got = [] then (Inl Dropped, p4_ota_abort (ascii ''HTTP upload interrupted'') (up_others_run plat e k st))
               else let (rc, st1) = p4_ota_write plat (up_answers e k) got (up_others_run plat e k st)
               in if rc \<noteq> ESP_OK then (Inl (Response 500), p4_ota_abort (err_name plat rc) (up_others_run plat e (k + 1) st1))
                  else upload_loop plat e (remaining - length got) n' (k + 1) st1
           | (r, n') \<Rightarrow> (Inl (recv_failed r), p4_ota_abort (ascii ''HTTP upload interrupted'') (up_others_run plat e k st))
      else (Inr k, st))"
  by pat_completeness auto
termination
  by (relation "measure (\<lambda>(plat, e, remaining, n, k, st). remaining)") (auto simp: length_greater_0_conv [symmetric] simp del: length_greater_0_conv)

declare upload_loop.simps [simp del]

text \<open>From the audio barrier on, with the first block \<open>buffer\<close> of the image read.\<close>

definition upload_image :: "ota_platform \<Rightarrow> up_env \<Rightarrow> ddj_ota_manifest \<Rightarrow> u8 list \<Rightarrow> nat \<Rightarrow> p4_ota \<Rightarrow> up_result" where
  "upload_image plat e manifest buffer n st =
     (let (rc, st) = p4_ota_begin plat (up_answers e 0) manifest (up_others_run plat e 0 st)
      in if rc \<noteq> ESP_OK then up_stop (Response (if rc = ESP_ERR_INVALID_STATE then 409 else 400)) st
         else let (rc, st) = p4_ota_write plat (up_answers e 1) buffer (up_others_run plat e 1 st)
         in if rc \<noteq> ESP_OK then up_stop (Response 500) (p4_ota_abort (err_name plat rc) (up_others_run plat e 2 st))
            else case upload_loop plat e (unat (om_image_size manifest) - length buffer) n 2 st of
              (Inl r, st) \<Rightarrow> up_stop r st
            | (Inr k, st) \<Rightarrow>
                let (rc, st) = p4_ota_finish plat (up_answers e k) (up_others_run plat e k st)
                in if rc \<noteq> ESP_OK then up_stop (Response 400) st
                   else \<lparr>ur_response = Response 200, ur_ota = st, ur_barrier = True, ur_restart = True\<rparr>)"

definition api_p4_ota_handler :: "ota_platform \<Rightarrow> up_env \<Rightarrow> p4_ota \<Rightarrow> up_result" where
  "api_p4_ota_handler plat e st =
     (if \<not> up_allowed e then up_stop (Response 403) st
      else if up_target e \<noteq> Some (ascii ''p4'') then up_stop (Response 400) st
      else if up_content_len e < DDJ_OTA_HEADER_SIZE + P4_OTA_IMAGE_HEADER_SIZE then up_stop (Response 400) st
      else if \<not> up_malloc e then up_stop (Response 500) st
      else case recv_until (up_recv e) 0 DDJ_OTA_HEADER_SIZE DDJ_OTA_HEADER_SIZE [] of
        (Inl r, _) \<Rightarrow> up_stop r st
      | (Inr manifest_header, n) \<Rightarrow>
          (case p4_manifest manifest_header of
            Inl err \<Rightarrow> up_stop (Response 400) st
          | Inr manifest \<Rightarrow>
              if \<not> ddj_ota_manifest_verify_signature (ota_crypto.truncate plat) manifest_header then up_stop (Response 403) st
              else if up_content_len e \<noteq> DDJ_OTA_HEADER_SIZE + unat (om_image_size manifest) then up_stop (Response 400) st
              else case recv_until (up_recv e) n P4_OTA_IMAGE_HEADER_SIZE (min (unat (om_image_size manifest)) 4096) [] of
                (Inl r, _) \<Rightarrow> up_stop r st
              | (Inr buffer, n) \<Rightarrow>
                  if \<not> p4_ota_policy_header_valid buffer then up_stop (Response 400) st
                  else if up_suspend e \<noteq> 0 then up_stop (Response 500) st
                  else upload_image plat e manifest buffer n st))"

section \<open>Only signed images\<close>

definition signed_manifest :: "ota_platform \<Rightarrow> ddj_ota_manifest \<Rightarrow> bool" where
  "signed_manifest plat m \<longleftrightarrow>
     (\<exists>header. p4_manifest header = Inr m \<and> ddj_ota_manifest_verify_signature (ota_crypto.truncate plat) header)"

text \<open>What the receiver went through since \<open>st0\<close>: operations whose transfers are of manifests that satisfy \<open>M\<close>.\<close>

definition ota_steps :: "ota_platform \<Rightarrow> (ddj_ota_manifest \<Rightarrow> bool) \<Rightarrow> p4_ota \<Rightarrow> p4_ota \<Rightarrow> bool" where
  "ota_steps plat M st0 st \<longleftrightarrow> (\<exists>ops. begins_with M ops \<and> st = run_ops plat ops st0)"

lemma ota_steps_refl: "ota_steps plat M st st"
  unfolding ota_steps_def by (intro exI [of _ "[]"]) (simp add: begins_with_def run_ops_def)

lemma ops_steps: "ota_steps plat M st0 st \<Longrightarrow> begins_with M ops \<Longrightarrow> ota_steps plat M st0 (run_ops plat ops st)"
proof -
  assume "ota_steps plat M st0 st" "begins_with M ops"
  then obtain before where "begins_with M before" "st = run_ops plat before st0" by (auto simp: ota_steps_def)
  with \<open>begins_with M ops\<close> show ?thesis unfolding ota_steps_def
    by (intro exI [of _ "before @ ops"]) (auto simp: begins_with_def run_ops_def)
qed

lemma op_steps:
  assumes "ota_steps plat M st0 st"
  shows "M m \<Longrightarrow> ota_steps plat M st0 (snd (p4_ota_begin plat a m st))" "ota_steps plat M st0 (snd (p4_ota_write plat a data st))"
    "ota_steps plat M st0 (snd (p4_ota_finish plat a st))" "ota_steps plat M st0 (p4_ota_abort reason st)"
  using ops_steps [OF assms, of "[Ota_Begin a m]"] ops_steps [OF assms, of "[Ota_Write a data]"] ops_steps [OF assms, of "[Ota_Finish a]"]
    ops_steps [OF assms, of "[Ota_Abort reason]"]
  by (simp_all add: begins_with_def run_ops_def)

lemmas begin_steps = op_steps(1) and write_steps = op_steps(2) and finish_steps = op_steps(3) and abort_steps = op_steps(4)

lemma steps_inv: "ota_steps plat M st0 st \<Longrightarrow> ota_inv plat M st0 \<Longrightarrow> ota_inv plat M st"
  by (auto simp: ota_steps_def intro: ops_inv)

lemma body_steps:
  "ota_steps plat M st0 st \<Longrightarrow> \<forall>k. begins_with M (dl_others e k) \<Longrightarrow> ota_steps plat M st0 (snd (snd (snd (body_loop plat e h total_size n k written st))))"
proof (induction plat e h total_size n k written st rule: body_loop.induct)
  case (1 plat e h total_size n k written st)
  have o: "ota_steps plat M st0 (others plat e k s)" if "ota_steps plat M st0 s" for k s using that "1.prems" by (simp add: others_def ops_steps)
  let ?got = "http_read h n (min (total_size - length written) DL_CHUNK)"
  obtain rc st1 where w: "p4_ota_write plat (dl_answers e k) ?got (others plat e k st) = (rc, st1)"
    by (cases "p4_ota_write plat (dl_answers e k) ?got (others plat e k st)")
  have i: "ota_steps plat M st0 st1" using write_steps [OF o [OF "1.prems"(1)], of "dl_answers e k" ?got k] w by simp
  show ?case using "1.prems" "1.IH" o i by (subst body_loop.simps) (simp add: Let_def w abort_steps)
qed

lemma install_image_steps:
  assumes "ota_steps plat M st0 st" "\<forall>k. begins_with M (dl_others e k)" "M m"
  shows "ota_steps plat M st0 (snd (snd (install_image plat e h header n m sha st)))"
proof -
  have o: "ota_steps plat M st0 (others plat e k s)" if "ota_steps plat M st0 s" for k s using that assms by (simp add: others_def ops_steps)
  obtain rc st1 where b: "p4_ota_begin plat (dl_answers e 0) m (others plat e 0 st) = (rc, st1)" by (cases "p4_ota_begin plat (dl_answers e 0) m (others plat e 0 st)")
  have i1: "ota_steps plat M st0 st1" using begin_steps [OF o [OF assms(1)] assms(3), of "dl_answers e 0" 0] b by simp
  obtain rc2 img k st2 where l: "body_loop plat e h (unat (om_image_size m)) n 1 [] st1 = (rc2, img, k, st2)"
    by (cases "body_loop plat e h (unat (om_image_size m)) n 1 [] st1")
  have i2: "ota_steps plat M st0 st2" using body_steps [OF i1 assms(2), of h "unat (om_image_size m)" n 1 "[]"] l by simp
  obtain rc3 st3 where f: "p4_ota_finish plat (dl_answers e k) (others plat e k st2) = (rc3, st3)"
    by (cases "p4_ota_finish plat (dl_answers e k) (others plat e k st2)")
  have i3: "ota_steps plat M st0 st3" using finish_steps [OF o [OF i2], of "dl_answers e k" k] f by simp
  show ?thesis using i1 i2 i3 o unfolding install_image_def b l
    by (simp add: l [simplified] f Let_def abort_steps split: option.splits)
qed

lemma download_steps:
  assumes "ota_steps plat M st0 st" "\<forall>k. begins_with M (dl_others e k)"
    "\<And>m. signed_manifest plat m \<Longrightarrow> M m"
  shows "ota_steps plat M st0 (dr_ota (download_and_install plat e running base rel release expect sha st))"
proof -
  have "ota_steps plat M st0 (snd (snd (install_image plat e h header n m sha st)))"
    if "p4_manifest header = Inr m" "ddj_ota_manifest_verify_signature (ota_crypto.truncate plat) header" for h header n m
    using that by (intro install_image_steps assms) (auto simp: signed_manifest_def)
  then show ?thesis using assms(1) by (auto simp: download_and_install_def Let_def case_prod_beta split: option.splits sum.splits)
qed

lemma upload_loop_steps:
  "ota_steps plat M st0 st \<Longrightarrow> \<forall>k. begins_with M (up_others e k) \<Longrightarrow> ota_steps plat M st0 (snd (upload_loop plat e remaining n k st))"
proof (induction plat e remaining n k st rule: upload_loop.induct)
  case (1 plat e remaining n k st)
  have o: "ota_steps plat M st0 (up_others_run plat e k s)" if "ota_steps plat M st0 s" for k s using that "1.prems" by (simp add: up_others_run_def ops_steps)
  let ?wanted = "if remaining < 4096 then remaining else 4096"
  obtain r n' where r: "ota_http_recv (up_recv e) n max_timeouts ?wanted = (r, n')" by (cases "ota_http_recv (up_recv e) n max_timeouts ?wanted")
  show ?case
  proof (cases r)
    case (Recv_Bytes got)
    obtain rc st1 where w: "p4_ota_write plat (up_answers e k) got (up_others_run plat e k st) = (rc, st1)"
      by (cases "p4_ota_write plat (up_answers e k) got (up_others_run plat e k st)")
    have i: "ota_steps plat M st0 st1" using write_steps [OF o [OF "1.prems"(1)], of "up_answers e k" got k] w by simp
    show ?thesis using "1.prems" "1.IH" [OF _ refl r [symmetric] Recv_Bytes _ w [symmetric]] o i
      by (subst upload_loop.simps) (simp only: Let_def r Recv_Bytes w prod.case recv.case if_True if_False, simp add: abort_steps)
  qed (subst upload_loop.simps, simp only: Let_def r prod.case recv.case, simp add: abort_steps o "1.prems")+
qed

lemma upload_image_steps:
  assumes "ota_steps plat M st0 st" "\<forall>k. begins_with M (up_others e k)" "M m"
  shows "ota_steps plat M st0 (ur_ota (upload_image plat e m buffer n st))"
proof -
  have o: "ota_steps plat M st0 (up_others_run plat e k s)" if "ota_steps plat M st0 s" for k s using that assms by (simp add: up_others_run_def ops_steps)
  obtain rc st1 where b: "p4_ota_begin plat (up_answers e 0) m (up_others_run plat e 0 st) = (rc, st1)"
    by (cases "p4_ota_begin plat (up_answers e 0) m (up_others_run plat e 0 st)")
  have i1: "ota_steps plat M st0 st1" using begin_steps [OF o [OF assms(1)] assms(3), of "up_answers e 0" 0] b by simp
  obtain rc2 st2 where w: "p4_ota_write plat (up_answers e 1) buffer (up_others_run plat e 1 st1) = (rc2, st2)"
    by (cases "p4_ota_write plat (up_answers e 1) buffer (up_others_run plat e 1 st1)")
  have i2: "ota_steps plat M st0 st2" using write_steps [OF o [OF i1], of "up_answers e 1" buffer 1] w by simp
  obtain x st3 where l: "upload_loop plat e (unat (om_image_size m) - length buffer) n 2 st2 = (x, st3)"
    by (cases "upload_loop plat e (unat (om_image_size m) - length buffer) n 2 st2")
  have i3: "ota_steps plat M st0 st3" using upload_loop_steps [OF i2 assms(2), of "unat (om_image_size m) - length buffer" n 2] l by simp
  have f: "ota_steps plat M st0 (snd (p4_ota_finish plat (up_answers e k) (up_others_run plat e k st3)))" for k
    by (rule finish_steps [OF o [OF i3]])
  show ?thesis using i1 i2 i3 o f unfolding upload_image_def b w l Let_def prod.case
    by (simp add: up_stop_def w [simplified] l abort_steps case_prod_beta split: sum.splits)
qed

lemma upload_steps:
  assumes "ota_steps plat M st0 st" "\<forall>k. begins_with M (up_others e k)"
    "\<And>m. signed_manifest plat m \<Longrightarrow> M m"
  shows "ota_steps plat M st0 (ur_ota (api_p4_ota_handler plat e st))"
proof -
  have "ota_steps plat M st0 (ur_ota (upload_image plat e m buffer n st))"
    if "p4_manifest header = Inr m" "ddj_ota_manifest_verify_signature (ota_crypto.truncate plat) header" for header n m buffer
    using that by (intro upload_image_steps assms) (auto simp: signed_manifest_def)
  then show ?thesis using assms(1) by (auto simp: api_p4_ota_handler_def up_stop_def split: sum.splits prod.splits)
qed

section \<open>What an accepted download installs\<close>

lemma header_loop_length: "header_loop rd n hdr = Some (header, n') \<Longrightarrow> length hdr \<le> 188 \<Longrightarrow> length header = 188"
proof (induction rd n hdr rule: header_loop.induct)
  case (1 rd n hdr)
  then show ?case by (subst (asm) (2) header_loop.simps) (auto simp: Let_def split: if_splits)
qed

text \<open>The operations another task does while a transfer runs that it did not begin.\<close>

definition bystander :: "ota_op list \<Rightarrow> bool" where
  "bystander ops \<longleftrightarrow> list_all (\<lambda>op. case op of Ota_Begin a m \<Rightarrow> True | Ota_Status a \<Rightarrow> True | _ \<Rightarrow> False) ops"

lemma bystander_receiving: "bystander ops \<Longrightarrow> receiving m p boots got st \<Longrightarrow> receiving m p boots got (run_ops plat ops st)"
proof (induction ops arbitrary: st)
  case (Cons op ops)
  have "receiving m p boots got (run_op plat op st)" using Cons.prems
    by (cases op)
       (auto simp: bystander_def receiving_def p4_ota_begin_def p4_ota_get_status_def refresh_running_locked_def Let_def split: option.splits)
  then show ?case using Cons by (simp add: run_ops_def bystander_def)
qed (simp add: run_ops_def)

lemma begin_accepted:
  assumes "p4_ota_begin plat a m st = (ESP_OK, st')"
  shows "\<exists>p. receiving m p (fl_boots (po_flash st)) [] st'"
  using assms by (auto simp: p4_ota_begin_def Let_def receiving_def store_slot_def split: if_splits option.splits)

lemma write_accepted:
  assumes "p4_ota_write plat a data st = (ESP_OK, st')" "receiving m p boots got st"
  shows "receiving m p boots (got @ data) st'"
  using assms by (auto simp: p4_ota_write_def Let_def receiving_def store_slot_def split: if_splits)

lemma finish_accepted:
  assumes "p4_ota_finish plat a st = (ESP_OK, st')" "receiving m p boots img st"
  shows "psa_hash_compute plat img = Some (om_image_sha256 m)" "image_desc plat img = (ascii ''main-deck-p4'', copy_text 32 (om_version m))"
    "fl_boots (po_flash st') = boots @ [(pt_label p, img)]" "fl_slots (po_flash st') (pt_label p) = img"
    "os_state (po_status st') = P4_OTA_READY_TO_REBOOT"
  using assms
  by (auto simp: p4_ota_finish_def p4_ota_policy_finish_def finish_described_def finish_failed_def select_boot_def Let_def receiving_def
      split: if_splits option.splits prod.splits)

lemma body_accepted:
  "receiving m p boots written st \<Longrightarrow> \<forall>k>0. bystander (dl_others e k) \<Longrightarrow> 0 < k \<Longrightarrow> length written \<le> total_size \<Longrightarrow>
   body_loop plat e h total_size n k written st = (0, img, k', st') \<Longrightarrow> receiving m p boots img st' \<and> length img = total_size \<and> 0 < k'"
proof (induction plat e h total_size n k written st rule: body_loop.induct)
  case (1 plat e h total_size n k written st)
  let ?got = "http_read h n (min (total_size - length written) DL_CHUNK)"
  obtain rc st1 where w: "p4_ota_write plat (dl_answers e k) ?got (others plat e k st) = (rc, st1)"
    by (cases "p4_ota_write plat (dl_answers e k) ?got (others plat e k st)")
  have "receiving m p boots written (others plat e k st)" unfolding others_def by (rule bystander_receiving) (use "1.prems" in auto)
  then have i: "rc = ESP_OK \<Longrightarrow> receiving m p boots (written @ ?got) st1" using write_accepted w by blast
  have len: "length ?got \<le> total_size - length written" by (auto simp: http_read_def split: option.splits)
  have ih: "receiving m p boots img st' \<and> length img = total_size \<and> 0 < k'"
    if "length written < total_size" "?got \<noteq> []" "rc = ESP_OK" "dl_update e k" "body_loop plat e h total_size (n + 1) (k + 1) (written @ ?got) st1 = (0, img, k', st')"
    by (rule "1.IH" [OF that(1) refl refl that(2) w [symmetric]]) (use that i "1.prems"(2) len in auto)
  note eq = "1.prems"(5) [unfolded body_loop.simps [of plat e h total_size n k written st] Let_def w prod.case]
  show ?case
  proof (cases "length written < total_size")
    case True
    with eq ih show ?thesis by (auto split: if_splits)
  next
    case False
    with eq "1.prems" show ?thesis by auto
  qed
qed

lemma install_image_accepted:
  assumes quiet: "\<forall>k>0. bystander (dl_others e k)" and r: "install_image plat e h header n m sha st = (0, w, st')"
  shows "\<exists>slot boots img. length img = unat (om_image_size m) \<and> psa_hash_compute plat (header @ img) = Some sha \<and>
    psa_hash_compute plat img = Some (om_image_sha256 m) \<and> image_desc plat img = (ascii ''main-deck-p4'', copy_text 32 (om_version m)) \<and>
    fl_boots (po_flash st') = boots @ [(slot, img)] \<and> fl_slots (po_flash st') slot = img \<and>
    os_state (po_status st') = P4_OTA_READY_TO_REBOOT"
proof -
  obtain rc st1 where b: "p4_ota_begin plat (dl_answers e 0) m (others plat e 0 st) = (rc, st1)" by (cases "p4_ota_begin plat (dl_answers e 0) m (others plat e 0 st)")
  obtain rc2 img k st2 where l: "body_loop plat e h (unat (om_image_size m)) n 1 [] st1 = (rc2, img, k, st2)"
    by (cases "body_loop plat e h (unat (om_image_size m)) n 1 [] st1")
  obtain rc3 st3 where f: "p4_ota_finish plat (dl_answers e k) (others plat e k st2) = (rc3, st3)"
    by (cases "p4_ota_finish plat (dl_answers e k) (others plat e k st2)")
  have ok: "rc = ESP_OK" "rc2 = 0" "rc3 = ESP_OK" "psa_hash_compute plat (header @ img) = Some sha" "st' = st3"
    using r unfolding install_image_def b Let_def prod.case l f
    by (auto split: if_splits option.splits)
  obtain p where "receiving m p (fl_boots (po_flash (others plat e 0 st))) [] st1" using begin_accepted b ok by blast
  from body_accepted [OF this quiet _ _ l [unfolded ok(2)]]
  have "receiving m p (fl_boots (po_flash (others plat e 0 st))) img st2" and len: "length img = unat (om_image_size m)" and "0 < k" by simp_all
  then have "receiving m p (fl_boots (po_flash (others plat e 0 st))) img (others plat e k st2)"
    unfolding others_def using quiet by (intro bystander_receiving) auto
  note fin = finish_accepted [OF f [unfolded ok(3)] this]
  show ?thesis
    by (intro exI [of _ "pt_label p"] exI [of _ "fl_boots (po_flash (others plat e 0 st))"] exI [of _ img]) (use fin ok len in simp)
qed

section \<open>A sample release\<close>

text \<open>A platform whose digest is the padded start of the bytes and whose key accepts; one image of thirty bytes, its header, its servers.\<close>

definition sample_platform :: ota_platform where
  "sample_platform = \<lparr>psa_hash_compute = \<lambda>bs. Some (take 32 (bs @ replicate 32 0)), release_key_ok = True, pk_verify = \<lambda>d s. True,
     image_desc = \<lambda>img. (ascii ''main-deck-p4'', ascii ''RC6''), err_name = \<lambda>rc. ascii ''ERROR''\<rparr>"

definition sample_image :: "u8 list" where
  "sample_image = [0xE9, 0, 0, 0, 0, 0, 0, 0, 0, 0, 0, 0, 0x12, 0] @ replicate 16 7"

definition sample_manifest :: ddj_ota_manifest where
  "sample_manifest = \<lparr>om_target = DDJ_OTA_TARGET_P4, om_chip_id = 0x12, om_image_size = 30, om_project = ascii ''main-deck-p4'',
     om_version = ascii ''RC6'', om_image_sha256 = take 32 (sample_image @ replicate 32 0), om_key_id = DDJ_OTA_RELEASE_KEY_ID\<rparr>"

definition sample_bundle_header :: "u8 list" where
  "sample_bundle_header = manifest_bytes sample_manifest @ replicate 64 1"

definition sample_answers :: ota_answers where
  "sample_answers = \<lparr>an_mutex = True, an_health = None, an_next = Some \<lparr>pt_label = ascii ''ota_1'', pt_size = 4096\<rparr>, an_begin = ESP_OK,
     an_setup = True, an_write = ESP_OK, an_update = True, an_finish = True, an_end = ESP_OK, an_desc = ESP_OK, an_boot = ESP_OK, an_torn = []\<rparr>"

definition sample_download :: dl_env where
  "sample_download = \<lparr>dl_web = \<lambda>url. \<lparr>ht_client = True, ht_open = 0, ht_length = 218, ht_status = 200,
       ht_read = \<lambda>n. if n = 0 then Some (take 100 sample_bundle_header) else if n = 1 then Some (drop 100 sample_bundle_header) else
         if n = 2 then Some (take 20 sample_image) else Some (drop 20 sample_image)\<rparr>,
     dl_malloc = True, dl_setup = True, dl_update = \<lambda>k. True, dl_finish = True, dl_suspend = 0,
     dl_others = \<lambda>k. if k = 2 then [Ota_Status sample_answers] else [], dl_answers = \<lambda>k. sample_answers\<rparr>"

definition sample_upload :: up_env where
  "sample_upload = \<lparr>up_allowed = True, up_target = Some (ascii ''p4''), up_content_len = 218, up_malloc = True,
     up_recv = \<lambda>n. if n = 0 then Recv_Timeout else if n = 1 then Recv_Bytes sample_bundle_header else
       if n = 2 then Recv_Bytes (take 25 sample_image) else Recv_Bytes (drop 25 sample_image),
     up_suspend = 0, up_others = \<lambda>k. [], up_answers = \<lambda>k. sample_answers\<rparr>"

lemma sample_parsed: "p4_manifest sample_bundle_header = Inr sample_manifest"
proof -
  have len: "length (manifest_bytes sample_manifest) = 124"
    by (simp add: manifest_bytes_def sample_manifest_def sample_image_def ascii_def text_field_def wr_u16_def wr_u32_def)
  have "manifest_ok DDJ_OTA_TARGET_P4 P4_OTA_ESP32P4_CHIP_ID (ascii ''main-deck-p4'') P4_OTA_MAX_IMAGE_SIZE sample_manifest"
    by (simp add: manifest_ok_def sample_manifest_def sample_image_def text_ok_def ascii_def)
  then show ?thesis unfolding p4_manifest_def by (rule parse_complete [rotated]) (simp_all add: sample_bundle_header_def len)
qed

lemma sample_release:
  "p4_ota_pull_validate_bundle_release (ascii ''RC6'') (om_version sample_manifest) (ascii ''RC5-3-gabcdef0'') = P4_OTA_PULL_BUNDLE_RELEASE_OK"
  by (simp add: p4_ota_pull_validate_bundle_release_def p4_ota_pull_release_compare_def parse_release_version_def parse_u32_part_def
      sample_manifest_def ascii_def)

lemma sample_read: "header_loop (http_read (dl_web sample_download url)) 0 [] = Some (sample_bundle_header, 2)"
proof -
  have "header_loop (http_read (dl_web sample_download [])) 0 [] = Some (sample_bundle_header, 2)" by code_simp
  then show ?thesis by (simp add: sample_download_def)
qed

lemma sample_signed: "ddj_ota_manifest_verify_signature (ota_crypto.truncate sample_platform) sample_bundle_header"
  by code_simp

lemma sample_installed:
  "fst (install_image sample_platform sample_download (dl_web sample_download url) sample_bundle_header 2 sample_manifest (take 32 sample_bundle_header)
     (run_ops sample_platform [Ota_Init sample_answers] ota_start)) = 0"
proof -
  have "fst (install_image sample_platform sample_download (dl_web sample_download []) sample_bundle_header 2 sample_manifest (take 32 sample_bundle_header)
     (run_ops sample_platform [Ota_Init sample_answers] ota_start)) = 0" by code_simp
  then show ?thesis by (simp add: sample_download_def)
qed

lemma sample_uploaded:
  "recv_until (up_recv sample_upload) 0 188 188 [] = (Inr sample_bundle_header, 2)"
  "recv_until (up_recv sample_upload) 2 24 30 [] = (Inr (take 25 sample_image), 3)"
  "ur_response (upload_image sample_platform sample_upload sample_manifest (take 25 sample_image) 3
     (run_ops sample_platform [Ota_Init sample_answers] ota_start)) = Response 200"
  by code_simp+

lemma sample_runs:
  "dr_rc (download_and_install sample_platform sample_download (ascii ''RC5-3-gabcdef0'') base rel
     (ascii ''RC6'') 218 (take 32 sample_bundle_header) (run_ops sample_platform [Ota_Init sample_answers] ota_start)) = 0"
  "ur_response (api_p4_ota_handler sample_platform sample_upload (run_ops sample_platform [Ota_Init sample_answers] ota_start)) = Response 200"
proof -
  have env: "ht_client (dl_web sample_download u)" "ht_open (dl_web sample_download u) = 0" "ht_status (dl_web sample_download u) = 200"
      "ht_length (dl_web sample_download u) = 218" "dl_malloc sample_download" "dl_setup sample_download" "dl_update sample_download 0"
      "dl_suspend sample_download = 0" "up_allowed sample_upload" "up_target sample_upload = Some (ascii ''p4'')" "up_content_len sample_upload = 218"
      "up_malloc sample_upload" "up_suspend sample_upload = 0" "om_image_size sample_manifest = 30" for u
    by (simp_all add: sample_download_def sample_upload_def sample_manifest_def)
  have valid: "p4_ota_policy_header_valid (take 25 sample_image)" by code_simp
  show "dr_rc (download_and_install sample_platform sample_download (ascii ''RC5-3-gabcdef0'') base rel
     (ascii ''RC6'') 218 (take 32 sample_bundle_header) (run_ops sample_platform [Ota_Init sample_answers] ota_start)) = 0"
    by (simp add: download_and_install_def Let_def env sample_read sample_parsed sample_signed sample_release case_prod_beta sample_installed)
  show "ur_response (api_p4_ota_handler sample_platform sample_upload (run_ops sample_platform [Ota_Init sample_answers] ota_start)) = Response 200"
    by (simp add: api_p4_ota_handler_def Let_def env sample_parsed sample_signed sample_uploaded valid)
qed

lemma sample_quiet: "0 < k \<Longrightarrow> bystander (dl_others sample_download k)" "begins_with M (dl_others sample_download k)" "begins_with M (up_others sample_upload k)"
  by (auto simp: sample_download_def sample_upload_def bystander_def begins_with_def)

section \<open>The properties\<close>

text \<open>
  A download that reports success: the first 188 bytes the server sent are a signed header for this deck, its version is the offered
  release and newer than the running one, the header and the image together have the size and the SHA-256 of the channel document,
  the image has the length and the SHA-256 of the header and describes itself with the project and that version, the slot holds it
  and is selected for boot, and the decks stay stopped.  Before the transfer other tasks may have done anything with the receiver,
  and during it they may try to begin a transfer of their own.
\<close>

lemma download_accepted:
  assumes "\<forall>k>0. bystander (dl_others e k)"
    and "dr_rc (download_and_install plat e running base rel release expect sha st) = 0"
  shows "\<exists>header m slot img boots. length header = 188 \<and> p4_manifest header = Inr m \<and>
    ddj_ota_manifest_verify_signature (ota_crypto.truncate plat) header \<and>
    om_version m = release \<and> p4_ota_pull_release_compare release running = P4_OTA_PULL_RELEASE_NEWER \<and>
    unat expect = 188 + length img \<and> psa_hash_compute plat (header @ img) = Some sha \<and>
    length img = unat (om_image_size m) \<and> psa_hash_compute plat img = Some (om_image_sha256 m) \<and>
    image_desc plat img = (ascii ''main-deck-p4'', copy_text 32 release) \<and>
    fl_boots (po_flash (dr_ota (download_and_install plat e running base rel release expect sha st))) = boots @ [(slot, img)] \<and>
    fl_slots (po_flash (dr_ota (download_and_install plat e running base rel release expect sha st))) slot = img \<and>
    os_state (po_status (dr_ota (download_and_install plat e running base rel release expect sha st))) = P4_OTA_READY_TO_REBOOT \<and>
    dr_barrier (download_and_install plat e running base rel release expect sha st)"
proof -
  let ?h = "dl_web e (request_url base rel)" and ?r = "download_and_install plat e running base rel release expect sha st"
  have z: "err_code ESP_ERR_INVALID_SIZE \<noteq> 0" by simp
  obtain header n m where ok: "header_loop (http_read ?h) 0 [] = Some (header, n)" "p4_manifest header = Inr m"
      "ddj_ota_manifest_verify_signature (ota_crypto.truncate plat) header" "unat expect = 188 + unat (om_image_size m)"
      "p4_ota_pull_validate_bundle_release release (om_version m) running = P4_OTA_PULL_BUNDLE_RELEASE_OK"
    and more: "ht_client ?h" "dl_malloc e" "dl_setup e" "ht_open ?h = 0" "ht_status ?h = 200" "ht_length ?h = int (unat expect)" "dl_update e 0"
      "dl_suspend e = 0"
    using assms(2) unfolding download_and_install_def Let_def
    by (simp only: dl_result.simps if_cancel split: if_split_asm option.split_asm sum.split_asm prod.split_asm) simp_all
  have r: "?r = (let (rc, written, st') = install_image plat e ?h header n m sha st
      in \<lparr>dr_rc = rc, dr_ota = st', dr_written = written, dr_barrier = (rc = 0)\<rparr>)"
    unfolding download_and_install_def Let_def by (simp only: ok more prod.case option.case sum.case if_False if_True not_True_eq_False not_False_eq_True simp_thms)
  obtain rc w st' where i: "install_image plat e ?h header n m sha st = (rc, w, st')" by (cases "install_image plat e ?h header n m sha st")
  have rc: "rc = 0" using assms(2) by (simp add: r i)
  have v: "om_version m = release" "p4_ota_pull_release_compare release running = P4_OTA_PULL_RELEASE_NEWER"
    using ok(5) by (auto simp: p4_ota_pull_validate_bundle_release_def split: if_splits)
  have len: "length header = 188" by (rule header_loop_length [OF ok(1)]) simp
  obtain slot boots img where fin: "length img = unat (om_image_size m) \<and> psa_hash_compute plat (header @ img) = Some sha \<and>
    psa_hash_compute plat img = Some (om_image_sha256 m) \<and> image_desc plat img = (ascii ''main-deck-p4'', copy_text 32 (om_version m)) \<and>
    fl_boots (po_flash st') = boots @ [(slot, img)] \<and> fl_slots (po_flash st') slot = img \<and>
    os_state (po_status st') = P4_OTA_READY_TO_REBOOT"
    using install_image_accepted [OF assms(1) i [unfolded rc]] by blast
  show ?thesis
    by (intro exI [of _ header] exI [of _ m] exI [of _ slot] exI [of _ img] exI [of _ boots]) (use fin ok len v in \<open>simp add: r i rc\<close>)
qed

text \<open>
  Claim C5. Whatever the server, the browser, the flash and the tasks do, no image is selected for boot without a signed header:
  from the start of the receiver, after any operations whose transfers are of signed manifests, and with other tasks that also
  begin only such, every slot selected during a download or an upload held at that moment an image whose length, SHA-256, project
  and version are those of a manifest whose header has a valid signature.  Both tasks keep the rule that they rely on: what they do
  to the receiver is a sequence of its operations that begins no transfer but of signed manifests.
\<close>

theorem only_signed_images_boot:
  assumes "begins_with (signed_manifest plat) ops" "st = run_ops plat ops ota_start"
    and "\<forall>k. begins_with (signed_manifest plat) (dl_others e k)" "\<forall>k. begins_with (signed_manifest plat) (up_others u k)"
  shows "list_all (\<lambda>(slot, img). image_of plat (signed_manifest plat) img)
      (fl_boots (po_flash (dr_ota (download_and_install plat e running base rel release expect sha st)))) \<and>
    list_all (\<lambda>(slot, img). image_of plat (signed_manifest plat) img) (fl_boots (po_flash (ur_ota (api_p4_ota_handler plat u st)))) \<and>
    ota_steps plat (signed_manifest plat) st (dr_ota (download_and_install plat e running base rel release expect sha st)) \<and>
    ota_steps plat (signed_manifest plat) st (ur_ota (api_p4_ota_handler plat u st))"
proof -
  have start: "ota_inv plat (signed_manifest plat) st" unfolding assms(2) by (rule ops_inv [OF ota_start_inv assms(1)])
  have down: "ota_steps plat (signed_manifest plat) st (dr_ota (download_and_install plat e running base rel release expect sha st))"
    by (rule download_steps [OF ota_steps_refl assms(3)])
  have up: "ota_steps plat (signed_manifest plat) st (ur_ota (api_p4_ota_handler plat u st))" by (rule upload_steps [OF ota_steps_refl assms(4)])
  from steps_inv [OF down start] steps_inv [OF up start] down up show ?thesis by (simp add: ota_inv_def list_all_iff)
qed

theorem only_signed_images_boot_witness:
  "list_all (\<lambda>(slot, img). image_of sample_platform (signed_manifest sample_platform) img) (fl_boots (po_flash (ur_ota
      (api_p4_ota_handler sample_platform sample_upload (run_ops sample_platform [Ota_Init sample_answers] ota_start))))) \<and>
   ur_response (api_p4_ota_handler sample_platform sample_upload (run_ops sample_platform [Ota_Init sample_answers] ota_start)) = Response 200"
proof -
  have "begins_with (signed_manifest sample_platform) [Ota_Init sample_answers]" by (simp add: begins_with_def)
  from only_signed_images_boot [OF this refl, where e = sample_download and u = sample_upload] sample_quiet(2,3) sample_runs(2)
  show ?thesis by blast
qed

end
