(* ===== verification/Ota_Pull.thy ===== *)
theory Ota_Pull
  imports Ota_Install
begin

text \<open>
  The update service of the main deck (\<open>p4_ota_pull.c\<close>, \<open>p4_ota_pull_gate.h\<close>, \<open>wifi_transition_lease.c\<close>): the check of the
  channel, the offer it publishes, the start of an install, and the two tasks.  A call or a task is a thread: the list of the steps it
  has still to run, one for each critical section, for each operation on the gate and the lease, for the creation of a task and for each
  use of the radio, so that other threads can come between any two of them.  The network, the settings and the result of the download
  are parameters.  The offer lasts ten minutes of a clock of milliseconds with 32 bits.
\<close>

section \<open>State\<close>

abbreviation (input) OFFER_TTL :: u32 where "OFFER_TTL \<equiv> 600000"

datatype p4_ota_pull_state =
    P4_OTA_PULL_IDLE | P4_OTA_PULL_CHECKING | P4_OTA_PULL_UP_TO_DATE | P4_OTA_PULL_AVAILABLE | P4_OTA_PULL_DOWNLOADING
  | P4_OTA_PULL_READY_TO_REBOOT | P4_OTA_PULL_FAILED

datatype wifi_transition_owner = WIFI_TRANSITION_OWNER_NONE | WIFI_TRANSITION_OWNER_PROBE | WIFI_TRANSITION_OWNER_OTA

record p4_ota_pull_status =
  us_state :: p4_ota_pull_state
  us_last_error :: int
  us_detail :: "u8 list"
  us_available_release :: "u8 list"
  us_available_size :: u32
  us_downloaded :: u32

record p4_ota_pull =
  pl_status :: p4_ota_pull_status
  pl_install_url :: "u8 list"
  pl_install_sha256 :: "u8 list"
  pl_offer_tick :: u32
  pl_gate :: u32
  pl_owner :: wifi_transition_owner

record install_offer =
  io_release :: "u8 list"
  io_url :: "u8 list"
  io_sha256 :: "u8 list"
  io_size :: u32

definition pull_start :: p4_ota_pull where
  "pull_start = \<lparr>pl_status = \<lparr>us_state = P4_OTA_PULL_IDLE, us_last_error = 0, us_detail = [], us_available_release = [],
     us_available_size = 0, us_downloaded = 0\<rparr>, pl_install_url = [], pl_install_sha256 = replicate 32 0, pl_offer_tick = 0, pl_gate = 0,
     pl_owner = WIFI_TRANSITION_OWNER_NONE\<rparr>"

section \<open>The gate and the lease\<close>

definition p4_ota_pull_gate_try_acquire :: "u32 \<Rightarrow> bool \<times> u32" where
  "p4_ota_pull_gate_try_acquire claimed = (if claimed = 0 then (True, 1) else (False, claimed))"

definition p4_ota_pull_gate_release :: "u32 \<Rightarrow> u32" where
  "p4_ota_pull_gate_release claimed = 0"

definition p4_ota_pull_gate_is_claimed :: "u32 \<Rightarrow> bool" where
  "p4_ota_pull_gate_is_claimed claimed \<longleftrightarrow> claimed \<noteq> 0"

definition wifi_transition_lease_acquire :: "wifi_transition_owner \<Rightarrow> wifi_transition_owner \<Rightarrow> esp_err \<times> wifi_transition_owner" where
  "wifi_transition_lease_acquire s_owner owner =
     (if owner = WIFI_TRANSITION_OWNER_NONE then (ESP_ERR_INVALID_ARG, s_owner)
      else if s_owner = WIFI_TRANSITION_OWNER_NONE then (ESP_OK, owner) else (ESP_ERR_INVALID_STATE, s_owner))"

definition wifi_transition_lease_release :: "wifi_transition_owner \<Rightarrow> wifi_transition_owner \<Rightarrow> wifi_transition_owner" where
  "wifi_transition_lease_release s_owner owner = (if s_owner = owner then WIFI_TRANSITION_OWNER_NONE else s_owner)"

section \<open>Critical sections\<close>

definition note_locked :: "p4_ota_pull_state \<Rightarrow> int \<Rightarrow> u8 list \<Rightarrow> p4_ota_pull \<Rightarrow> p4_ota_pull" where
  "note_locked state err detail p =
     p\<lparr>pl_status := (pl_status p)\<lparr>us_state := state, us_last_error := err, us_detail := copy_text 64 detail\<rparr>\<rparr>"

definition clear_offer_locked :: "p4_ota_pull \<Rightarrow> p4_ota_pull" where
  "clear_offer_locked p =
     p\<lparr>pl_status := (pl_status p)\<lparr>us_available_release := [], us_available_size := 0, us_downloaded := 0\<rparr>, pl_install_url := [],
       pl_install_sha256 := replicate 32 0, pl_offer_tick := 0\<rparr>"

definition publish_manifest_result :: "u32 \<Rightarrow> p4_ota_pull_manifest \<Rightarrow> p4_ota_pull_state \<Rightarrow> int \<Rightarrow> u8 list \<Rightarrow> bool \<Rightarrow> p4_ota_pull \<Rightarrow> p4_ota_pull" where
  "publish_manifest_result now manifest state err detail installable p =
     (let p = p\<lparr>pl_status := (pl_status p)\<lparr>us_available_release := copy_text 49 (pm_release manifest), us_available_size := pm_size manifest\<rparr>\<rparr>;
          p = (if installable
               then p\<lparr>pl_install_url := copy_text 193 (pm_url manifest), pl_install_sha256 := pm_sha256 manifest, pl_offer_tick := now\<rparr>
               else p)
      in note_locked state err detail p)"

definition update_downloaded :: "u32 \<Rightarrow> p4_ota_pull \<Rightarrow> p4_ota_pull" where
  "update_downloaded downloaded p = p\<lparr>pl_status := (pl_status p)\<lparr>us_downloaded := downloaded\<rparr>\<rparr>"

datatype task_section =
    Note p4_ota_pull_state int "u8 list" | Publish p4_ota_pull_manifest p4_ota_pull_state int "u8 list" bool | Downloaded u32
  | Lease_Release | Gate_Release

fun run_section :: "u32 \<Rightarrow> task_section \<Rightarrow> p4_ota_pull \<Rightarrow> p4_ota_pull" where
  "run_section now (Note state err detail) p = note_locked state err detail p"
| "run_section now (Publish m state err detail installable) p = publish_manifest_result now m state err detail installable p"
| "run_section now (Downloaded n) p = update_downloaded n p"
| "run_section now Lease_Release p = p\<lparr>pl_owner := wifi_transition_lease_release (pl_owner p) WIFI_TRANSITION_OWNER_OTA\<rparr>"
| "run_section now Gate_Release p = p\<lparr>pl_gate := p4_ota_pull_gate_release (pl_gate p)\<rparr>"

section \<open>The check\<close>

fun p4_ota_pull_manifest_result_name :: "p4_ota_pull_manifest_result \<Rightarrow> u8 list" where
  "p4_ota_pull_manifest_result_name P4_OTA_PULL_MANIFEST_OK = ascii ''ok''"
| "p4_ota_pull_manifest_result_name P4_OTA_PULL_MANIFEST_INVALID_ARG = ascii ''invalid-arg''"
| "p4_ota_pull_manifest_result_name P4_OTA_PULL_MANIFEST_MALFORMED = ascii ''malformed''"
| "p4_ota_pull_manifest_result_name P4_OTA_PULL_MANIFEST_UNSUPPORTED = ascii ''unsupported-schema''"
| "p4_ota_pull_manifest_result_name P4_OTA_PULL_MANIFEST_NO_TARGET = ascii ''no-p4-target''"
| "p4_ota_pull_manifest_result_name P4_OTA_PULL_MANIFEST_FIELD_TOO_LONG = ascii ''field-too-long''"
| "p4_ota_pull_manifest_result_name P4_OTA_PULL_MANIFEST_BAD_VALUE = ascii ''bad-value''"

definition p4_ota_pull_manifest_order :: "p4_ota_pull_manifest \<Rightarrow> u8 list \<Rightarrow> p4_ota_pull_release_order" where
  "p4_ota_pull_manifest_order m running_version = p4_ota_pull_release_compare (pm_release m) running_version"

text \<open>What a parsed document becomes.\<close>

definition check_document :: "u8 list \<Rightarrow> p4_ota_pull_manifest_result + p4_ota_pull_manifest \<Rightarrow> task_section" where
  "check_document running r =
     (case r of
        Inl pr \<Rightarrow> Note P4_OTA_PULL_FAILED (err_code ESP_ERR_INVALID_RESPONSE) (p4_ota_pull_manifest_result_name pr)
      | Inr m \<Rightarrow>
          (case p4_ota_pull_manifest_order m running of
            P4_OTA_PULL_RELEASE_NEWER \<Rightarrow> Publish m P4_OTA_PULL_AVAILABLE 0 (pm_release m) True
          | P4_OTA_PULL_RELEASE_SAME \<Rightarrow> Publish m P4_OTA_PULL_UP_TO_DATE 0 (ascii ''already running this build'') False
          | P4_OTA_PULL_RELEASE_OLDER \<Rightarrow>
              Publish m P4_OTA_PULL_UP_TO_DATE 0 (ascii ''older release ignored; use signed local upload to roll back'') False
          | P4_OTA_PULL_RELEASE_UNORDERED \<Rightarrow>
              Publish m P4_OTA_PULL_FAILED (err_code ESP_ERR_NOT_SUPPORTED) (ascii ''release version is not comparable'') False))"

text \<open>What the fetch returned: a negative number is an error.  The document is a buffer that keeps what the last check left in it.\<close>

definition check_fetched :: "u8 list \<Rightarrow> int \<Rightarrow> u8 list \<Rightarrow> task_section option" where
  "check_fetched running got doc =
     (if got < 0
      then let herr = - got
           in Some (Note P4_OTA_PULL_FAILED herr
             (if herr = err_code ESP_ERR_NOT_FOUND then ascii ''no update published''
              else if herr = err_code ESP_ERR_INVALID_SIZE then ascii ''channel document too large''
              else ascii ''could not reach update server''))
      else map_option (check_document running) (p4_ota_pull_manifest_parse (take (nat got) doc)))"

record check_env =
  ck_web :: "u8 list \<Rightarrow> http"
  ck_url :: "u8 list"
  ck_join :: int
  ck_restore :: int
  ck_doc :: "u8 list"

text \<open>
  The steps of a thread.  A call that cannot allocate or create its task is told so by the flag of the step; \<open>Use_Radio\<close> is a use of
  the network interface (joining the service network, a transfer, bringing the access point back); \<open>Restart\<close> ends the run.
\<close>

datatype radio_use = Switch_To_Sta | Transfer | Restore_Ap

datatype pull_instr =
    Try_Gate | Alloc bool | Take_Offer "u8 list" | Try_Lease | Begin_Check | Begin_Install
  | Create_Check bool check_env | Create_Install bool int "u32 list" "install_offer \<Rightarrow> int"
  | Sec task_section | Use_Radio radio_use | Restart

text \<open>The check task, and the bytes it hands to the parser.\<close>

definition check_task :: "u8 list \<Rightarrow> check_env \<Rightarrow> (pull_instr list \<times> u8 list) option" where
  "check_task running e =
     do { (result, doc) \<leftarrow> (if ck_join e \<noteq> 0
           then Some ([Sec (Note P4_OTA_PULL_FAILED (ck_join e)
             (if ck_join e = err_code ESP_ERR_TIMEOUT then ascii ''no address from network'' else ascii ''could not join network''))], [])
           else let (got, doc) = fetch_channel_doc (ck_web e) (ck_url e) CHANNEL_DOC_MAX (ck_doc e)
           in map_option (\<lambda>s. ([Sec (Note P4_OTA_PULL_CHECKING 0 (ascii ''reading update channel'')), Use_Radio Transfer, Sec s], take (nat got) doc))
                (check_fetched running got doc));
       Some ([Sec (Note P4_OTA_PULL_CHECKING 0 (ascii ''joining service network'')), Use_Radio Switch_To_Sta] @ result @ [Use_Radio Restore_Ap] @
         (if ck_restore e \<noteq> 0 then [Sec (Note P4_OTA_PULL_FAILED (ck_restore e) (ascii ''AP DID NOT COME BACK''))] else []) @
         [Sec Lease_Release, Sec Gate_Release], doc) }"

text \<open>The start of a check: the service network and the address of the channel must be set, and nothing else may be under way.\<close>

definition p4_ota_pull_check_start :: "u8 list \<Rightarrow> u8 list \<Rightarrow> bool \<Rightarrow> check_env \<Rightarrow> esp_err \<times> pull_instr list" where
  "p4_ota_pull_check_start ssid url task_created e =
     (if ssid = [] \<or> url = [] then (ESP_ERR_INVALID_ARG, [])
      else if p4_ota_cfg_check_url url \<noteq> P4_OTA_CFG_OK then (ESP_ERR_INVALID_ARG, [])
      else (ESP_OK, [Try_Gate, Try_Lease, Begin_Check, Create_Check task_created e]))"

section \<open>The install\<close>

definition pull_offer_expired :: "u32 \<Rightarrow> p4_ota_pull \<Rightarrow> bool" where
  "pull_offer_expired now p \<longleftrightarrow> \<not> p4_ota_pull_offer_fresh now (pl_offer_tick p) OFFER_TTL"

definition expire_offer :: "p4_ota_pull \<Rightarrow> p4_ota_pull" where
  "expire_offer p =
     note_locked P4_OTA_PULL_FAILED (err_code ESP_ERR_TIMEOUT) (ascii ''update offer expired; check again'') (clear_offer_locked p)"

text \<open>The section that decides: the offer, or why there is none.\<close>

definition install_offer_locked :: "u32 \<Rightarrow> u8 list \<Rightarrow> p4_ota_pull \<Rightarrow> (esp_err + install_offer) \<times> p4_ota_pull" where
  "install_offer_locked now expected_release p =
     (let s = pl_status p
      in if us_state s \<noteq> P4_OTA_PULL_AVAILABLE then (Inl ESP_ERR_INVALID_STATE, p)
         else if pull_offer_expired now p then (Inl ESP_ERR_INVALID_STATE, expire_offer p)
         else if expected_release = [] \<or> expected_release \<noteq> us_available_release s then (Inl ESP_ERR_INVALID_ARG, p)
         else if pl_install_url p = [] \<or> us_available_size s = 0 then (Inl ESP_ERR_INVALID_STATE, p)
         else (Inr \<lparr>io_release = us_available_release s, io_url = pl_install_url p, io_sha256 = pl_install_sha256 p,
           io_size = us_available_size s\<rparr>, p))"

text \<open>
  The start of an install; \<open>join\<close>, \<open>progress\<close> and \<open>download\<close> are what the task will meet: the answer of the network, the sizes reported
  on the way and the result of \<open>download_and_install\<close> for the offer.
\<close>

definition p4_ota_pull_install_start ::
  "u8 list \<Rightarrow> bool \<Rightarrow> bool \<Rightarrow> int \<Rightarrow> u32 list \<Rightarrow> (install_offer \<Rightarrow> int) \<Rightarrow> pull_instr list" where
  "p4_ota_pull_install_start expected_release allocated task_created join progress download =
     [Try_Gate, Alloc allocated, Take_Offer expected_release, Try_Lease, Begin_Install, Create_Install task_created join progress download]"

definition install_result :: "int \<Rightarrow> task_section" where
  "install_result rc =
     (if rc = 0 then Note P4_OTA_PULL_READY_TO_REBOOT 0 (ascii ''verified, restarting'')
      else Note P4_OTA_PULL_FAILED rc
        (if rc = err_code ESP_ERR_INVALID_MAC then ascii ''signature is not ours - NOT installed''
         else if rc = err_code ESP_ERR_INVALID_SIZE then ascii ''size does not match the manifest''
         else if rc = err_code ESP_ERR_INVALID_CRC then ascii ''bundle hash does not match the channel''
         else if rc = err_code ESP_ERR_INVALID_VERSION then ascii ''signed bundle version does not match a newer offered release''
         else if rc = err_code ESP_ERR_NOT_FOUND then ascii ''bundle not on the server''
         else ascii ''download or flash failed''))"

text \<open>The task after a join that returned \<open>join\<close> and a download that returned \<open>rc\<close>; after a success it keeps the lease and restarts the deck.\<close>

definition install_task :: "int \<Rightarrow> u32 list \<Rightarrow> int \<Rightarrow> pull_instr list" where
  "install_task join progress rc =
     [Sec (Note P4_OTA_PULL_DOWNLOADING 0 (ascii ''joining service network'')), Use_Radio Switch_To_Sta] @
     (if join \<noteq> 0 then [Sec (Note P4_OTA_PULL_FAILED join (ascii ''could not join network''))]
      else [Sec (Note P4_OTA_PULL_DOWNLOADING 0 (ascii ''downloading'')), Use_Radio Transfer] @
        concat (map (\<lambda>n. [Sec (Downloaded n), Use_Radio Transfer]) progress) @ [Sec (install_result rc)]) @
     [Use_Radio Restore_Ap] @
     (if join = 0 \<and> rc = 0 then [Sec Gate_Release, Restart] else [Sec Lease_Release, Sec Gate_Release])"

section \<open>The status\<close>

text \<open>The gate is read before the section; \<open>claimed\<close> is what the read returned.\<close>

definition p4_ota_pull_get_status :: "u32 \<Rightarrow> u32 \<Rightarrow> p4_ota_pull \<Rightarrow> p4_ota_pull_status \<times> p4_ota_pull" where
  "p4_ota_pull_get_status claimed now p =
     (let running = p4_ota_pull_gate_is_claimed claimed;
          p = (if \<not> running \<and> us_state (pl_status p) = P4_OTA_PULL_AVAILABLE \<and> pull_offer_expired now p then expire_offer p else p)
      in (pl_status p, p))"

section \<open>The service and its threads\<close>

text \<open>
  A thread: its remaining steps, the bytes its check handed to the parser, the offer it works on with the release its caller named and the
  clock when the offer was taken, and what the call returns.
\<close>

record pull_thread =
  th_prog :: "pull_instr list"
  th_doc :: "u8 list"
  th_offer :: "(install_offer \<times> u8 list \<times> u32) option"
  th_rc :: esp_err

definition pull_thread_of :: "pull_instr list \<Rightarrow> pull_thread" where
  "pull_thread_of prog = \<lparr>th_prog = prog, th_doc = [], th_offer = None, th_rc = ESP_OK\<rparr>"

definition create_failed :: "pull_instr list" where
  "create_failed = [Sec (Note P4_OTA_PULL_FAILED (err_code ESP_ERR_NO_MEM) (ascii ''could not start task'')), Sec Lease_Release, Sec Gate_Release]"

text \<open>
  One step of a thread at the clock \<open>now\<close>: the state of the service, the thread, the task it creates, and the document
  it publishes as an available update.
\<close>

definition exec_instr ::
  "u8 list \<Rightarrow> u32 \<Rightarrow> pull_thread \<Rightarrow> p4_ota_pull \<Rightarrow> p4_ota_pull \<times> pull_thread \<times> pull_thread list \<times> (u32 \<times> u8 list) list" where
  "exec_instr running now t p =
     (case th_prog t of
        [] \<Rightarrow> (p, t, [], [])
      | Try_Gate # q \<Rightarrow>
          (case p4_ota_pull_gate_try_acquire (pl_gate p) of (acquired, gate) \<Rightarrow>
             (p\<lparr>pl_gate := gate\<rparr>, if acquired then t\<lparr>th_prog := q\<rparr> else t\<lparr>th_prog := [], th_rc := ESP_ERR_INVALID_STATE\<rparr>, [], []))
      | Alloc allocated # q \<Rightarrow>
          (p, if allocated then t\<lparr>th_prog := q\<rparr> else t\<lparr>th_prog := [Sec Gate_Release], th_rc := ESP_ERR_NO_MEM\<rparr>, [], [])
      | Take_Offer expected # q \<Rightarrow>
          (case install_offer_locked now expected p of
             (Inl validation, p1) \<Rightarrow> (p1, t\<lparr>th_prog := [Sec Gate_Release], th_rc := validation\<rparr>, [], [])
           | (Inr offer, p1) \<Rightarrow> (p1, t\<lparr>th_prog := q, th_offer := Some (offer, expected, now)\<rparr>, [], []))
      | Try_Lease # q \<Rightarrow>
          (case wifi_transition_lease_acquire (pl_owner p) WIFI_TRANSITION_OWNER_OTA of (lease_rc, owner) \<Rightarrow>
             (p\<lparr>pl_owner := owner\<rparr>,
              if lease_rc = ESP_OK then t\<lparr>th_prog := q\<rparr> else t\<lparr>th_prog := [Sec Gate_Release], th_offer := None, th_rc := ESP_ERR_INVALID_STATE\<rparr>, [], []))
      | Begin_Check # q \<Rightarrow> (note_locked P4_OTA_PULL_CHECKING 0 (ascii ''starting'') (clear_offer_locked p), t\<lparr>th_prog := q\<rparr>, [], [])
      | Begin_Install # q \<Rightarrow> (note_locked P4_OTA_PULL_DOWNLOADING 0 (ascii ''starting'') (update_downloaded 0 p), t\<lparr>th_prog := q\<rparr>, [], [])
      | Create_Check created e # q \<Rightarrow>
          (if \<not> created then (p, t\<lparr>th_prog := create_failed, th_rc := ESP_ERR_NO_MEM\<rparr>, [], [])
           else case check_task running e of
             None \<Rightarrow> (p, t, [], [])
           | Some (prog, doc) \<Rightarrow> (p, t\<lparr>th_prog := q\<rparr>, [(pull_thread_of prog)\<lparr>th_doc := doc\<rparr>], []))
      | Create_Install created join progress download # q \<Rightarrow>
          (if \<not> created then (p, t\<lparr>th_prog := create_failed, th_offer := None, th_rc := ESP_ERR_NO_MEM\<rparr>, [], [])
           else case th_offer t of
             None \<Rightarrow> (p, t, [], [])
           | Some (offer, expected, taken) \<Rightarrow>
               (p, t\<lparr>th_prog := q\<rparr>,
                [(pull_thread_of (install_task join progress (download offer)))\<lparr>th_offer := Some (offer, expected, taken)\<rparr>], []))
      | Sec sec # q \<Rightarrow>
          (run_section now sec p, t\<lparr>th_prog := q\<rparr>, [],
           case sec of Publish m state err detail installable \<Rightarrow> if state = P4_OTA_PULL_AVAILABLE then [(now, th_doc t)] else []
           | _ \<Rightarrow> [])
      | Use_Radio r # q \<Rightarrow> (p, t\<lparr>th_prog := q\<rparr>, [], [])
      | Restart # q \<Rightarrow> (p, t, [], []))"

text \<open>
  The service with its threads, whether a connectivity probe holds the radio, the clock, and the documents published as available with
  the clock at that moment.  Calls come at any time, any thread takes the next step, and the clock moves at will.
\<close>

record pull_sys =
  ps_pull :: p4_ota_pull
  ps_threads :: "pull_thread list"
  ps_probe :: bool
  ps_now :: u32
  ps_published :: "(u32 \<times> u8 list) list"

definition pull_sys_start :: "u32 \<Rightarrow> pull_sys" where
  "pull_sys_start now = \<lparr>ps_pull = pull_start, ps_threads = [], ps_probe = False, ps_now = now, ps_published = []\<rparr>"

definition thread_turn :: "u8 list \<Rightarrow> nat \<Rightarrow> pull_sys \<Rightarrow> pull_sys" where
  "thread_turn running i s =
     (case exec_instr running (ps_now s) (ps_threads s ! i) (ps_pull s) of (p, t, spawned, published) \<Rightarrow>
        s\<lparr>ps_pull := p, ps_threads := (ps_threads s)[i := t] @ spawned, ps_published := ps_published s @ published\<rparr>)"

definition new_call :: "esp_err \<Rightarrow> pull_instr list \<Rightarrow> pull_sys \<Rightarrow> pull_sys" where
  "new_call rc prog s = s\<lparr>ps_threads := ps_threads s @ [(pull_thread_of prog)\<lparr>th_rc := rc\<rparr>]\<rparr>"

inductive pull_reach :: "u8 list \<Rightarrow> pull_sys \<Rightarrow> bool" for running where
  Start: "pull_reach running (pull_sys_start now)"
| Clock: "pull_reach running s \<Longrightarrow> pull_reach running (s\<lparr>ps_now := now\<rparr>)"
| Check: "pull_reach running s \<Longrightarrow> p4_ota_pull_check_start ssid url created e = (rc, prog) \<Longrightarrow> pull_reach running (new_call rc prog s)"
| Install: "pull_reach running s \<Longrightarrow>
    pull_reach running (new_call ESP_OK (p4_ota_pull_install_start expected allocated created join progress download) s)"
| Status: "pull_reach running s \<Longrightarrow> p4_ota_pull_get_status claimed (ps_now s) (ps_pull s) = (status, p) \<Longrightarrow> pull_reach running (s\<lparr>ps_pull := p\<rparr>)"
| Turn: "pull_reach running s \<Longrightarrow> i < length (ps_threads s) \<Longrightarrow> pull_reach running (thread_turn running i s)"
| Probe: "pull_reach running s \<Longrightarrow> wifi_transition_lease_acquire (pl_owner (ps_pull s)) WIFI_TRANSITION_OWNER_PROBE = (ESP_OK, owner) \<Longrightarrow>
    pull_reach running (s\<lparr>ps_pull := (ps_pull s)\<lparr>pl_owner := owner\<rparr>, ps_probe := True\<rparr>)"
| Probe_End: "pull_reach running s \<Longrightarrow> ps_probe s \<Longrightarrow> pull_reach running (s\<lparr>ps_pull := (ps_pull s)\<lparr>pl_owner :=
    wifi_transition_lease_release (pl_owner (ps_pull s)) WIFI_TRANSITION_OWNER_PROBE\<rparr>, ps_probe := False\<rparr>)"

section \<open>Who holds the gate and the lease\<close>

text \<open>
  What a thread holds follows from the steps it has left: it holds what it will give back before it tries to take it.  A task
  that restarts the deck never gives the lease back.
\<close>

fun holds_gate :: "pull_instr list \<Rightarrow> bool" where
  "holds_gate [] = False"
| "holds_gate (x # q) =
     (case x of Try_Gate \<Rightarrow> False | Create_Check created e \<Rightarrow> True | Create_Install created join progress download \<Rightarrow> True
      | Sec sec \<Rightarrow> sec = Gate_Release \<or> holds_gate q | Restart \<Rightarrow> False | _ \<Rightarrow> holds_gate q)"

fun holds_lease :: "pull_instr list \<Rightarrow> bool" where
  "holds_lease [] = False"
| "holds_lease (x # q) =
     (case x of Try_Lease \<Rightarrow> False | Create_Check created e \<Rightarrow> True | Create_Install created join progress download \<Rightarrow> True
      | Sec sec \<Rightarrow> sec = Lease_Release \<or> holds_lease q | Restart \<Rightarrow> True | _ \<Rightarrow> holds_lease q)"

text \<open>The order of the steps: the radio is used with the lease, the status is written with the gate, and both are given back once.\<close>

fun prog_ok :: "bool \<Rightarrow> bool \<Rightarrow> pull_instr list \<Rightarrow> bool" where
  "prog_ok g l [] \<longleftrightarrow> \<not> g \<and> \<not> l"
| "prog_ok g l (x # q) \<longleftrightarrow>
     (case x of
        Try_Gate \<Rightarrow> \<not> g \<and> \<not> l \<and> prog_ok True False q
      | Alloc allocated \<Rightarrow> g \<and> \<not> l \<and> prog_ok True False q
      | Take_Offer expected \<Rightarrow> g \<and> \<not> l \<and> prog_ok True False q
      | Try_Lease \<Rightarrow> g \<and> \<not> l \<and> prog_ok True True q
      | Begin_Check \<Rightarrow> g \<and> prog_ok g l q
      | Begin_Install \<Rightarrow> g \<and> prog_ok g l q
      | Create_Check created e \<Rightarrow> g \<and> l \<and> q = []
      | Create_Install created join progress download \<Rightarrow> g \<and> l \<and> q = []
      | Sec sec \<Rightarrow> (case sec of
            Lease_Release \<Rightarrow> l \<and> prog_ok g False q
          | Gate_Release \<Rightarrow> g \<and> prog_ok False l q
          | _ \<Rightarrow> g \<and> prog_ok g l q)
      | Use_Radio r \<Rightarrow> l \<and> prog_ok g l q
      | Restart \<Rightarrow> \<not> g \<and> l \<and> q = [])"

lemma prog_ok_holds: "prog_ok g l p \<Longrightarrow> holds_gate p = g \<and> holds_lease p = l"
  by (induction p arbitrary: g l) (auto split: pull_instr.splits task_section.splits)

lemma check_document_plain: "check_document running r \<noteq> Gate_Release" "check_document running r \<noteq> Lease_Release"
  by (auto simp: check_document_def split: sum.splits p4_ota_pull_release_order.splits)

lemma check_prog_ok:
  assumes "check_task running e = Some (prog, doc)"
  shows "prog_ok True True prog"
proof -
  obtain got d where f: "fetch_channel_doc (ck_web e) (ck_url e) CHANNEL_DOC_MAX (ck_doc e) = (got, d)" by fastforce
  have plain: "sec \<noteq> Gate_Release \<and> sec \<noteq> Lease_Release" if "check_fetched running got d = Some sec" for sec
    using that check_document_plain by (auto simp: check_fetched_def Let_def split: if_splits)
  show ?thesis
    using assms plain
    by (fastforce simp: check_task_def f Let_def bind_eq_Some_conv split: if_splits task_section.splits)
qed

lemma download_prog_ok: "prog_ok g l (concat (map (\<lambda>n. [Sec (Downloaded n), Use_Radio Transfer]) progress) @ q) \<longleftrightarrow>
    prog_ok g l q \<and> (progress \<noteq> [] \<longrightarrow> g \<and> l)"
  by (induction progress) auto

lemma install_prog_ok: "prog_ok True True (install_task join progress rc)"
  by (simp add: install_task_def download_prog_ok install_result_def)

lemma start_progs_ok:
  "p4_ota_pull_check_start ssid url created e = (rc, prog) \<Longrightarrow> prog_ok False False prog"
  "prog_ok False False (p4_ota_pull_install_start expected allocated created join progress download)"
  by (auto simp: p4_ota_pull_check_start_def p4_ota_pull_install_start_def split: if_splits)

definition gate_holders :: "pull_thread list \<Rightarrow> nat" where
  "gate_holders ts = length (filter (\<lambda>t. holds_gate (th_prog t)) ts)"

definition lease_holders :: "pull_thread list \<Rightarrow> nat" where
  "lease_holders ts = length (filter (\<lambda>t. holds_lease (th_prog t)) ts)"

definition locks_ok :: "pull_sys \<Rightarrow> bool" where
  "locks_ok s \<longleftrightarrow> (\<forall>t\<in>set (ps_threads s). prog_ok (holds_gate (th_prog t)) (holds_lease (th_prog t)) (th_prog t)) \<and>
     gate_holders (ps_threads s) = (if pl_gate (ps_pull s) = 0 then 0 else 1) \<and>
     lease_holders (ps_threads s) = (if pl_owner (ps_pull s) = WIFI_TRANSITION_OWNER_OTA then 1 else 0) \<and>
     (ps_probe s \<longleftrightarrow> pl_owner (ps_pull s) = WIFI_TRANSITION_OWNER_PROBE)"

named_theorems pull_defs \<open>the critical sections of the update service\<close>

declare note_locked_def [pull_defs] clear_offer_locked_def [pull_defs] publish_manifest_result_def [pull_defs] update_downloaded_def [pull_defs]
  wifi_transition_lease_acquire_def [pull_defs] wifi_transition_lease_release_def [pull_defs] p4_ota_pull_gate_try_acquire_def [pull_defs]
  p4_ota_pull_gate_release_def [pull_defs] expire_offer_def [pull_defs]

lemma section_owner: "pl_owner (run_section now sec p) =
    (if sec = Lease_Release then wifi_transition_lease_release (pl_owner p) WIFI_TRANSITION_OWNER_OTA else pl_owner p)"
  "pl_gate (run_section now sec p) = (if sec = Gate_Release then 0 else pl_gate p)"
  by (cases sec; simp add: pull_defs Let_def)+

lemma install_locked_keeps:
  "install_offer_locked now expected p = (r, p') \<Longrightarrow> pl_gate p' = pl_gate p \<and> pl_owner p' = pl_owner p"
  by (auto simp: install_offer_locked_def pull_defs Let_def split: if_splits)

text \<open>What one step does to the holders: the thread, with the task it creates, holds what the gate and the lease say it took or gave back.\<close>

lemma holders_update:
  assumes "i < length ts"
  shows "gate_holders (ts[i := t]) + (if holds_gate (th_prog (ts ! i)) then 1 else 0) = gate_holders ts + (if holds_gate (th_prog t) then 1 else 0)"
    "lease_holders (ts[i := t]) + (if holds_lease (th_prog (ts ! i)) then 1 else 0) = lease_holders ts + (if holds_lease (th_prog t) then 1 else 0)"
proof -
  have "ts = take i ts @ ts ! i # drop (Suc i) ts" using assms by (simp add: id_take_nth_drop)
  then have e: "gate_holders ts = gate_holders (take i ts) + gate_holders [ts ! i] + gate_holders (drop (Suc i) ts)"
    "lease_holders ts = lease_holders (take i ts) + lease_holders [ts ! i] + lease_holders (drop (Suc i) ts)"
    unfolding gate_holders_def lease_holders_def by (metis filter_append length_append append_Cons append_Nil add.assoc)+
  have u: "gate_holders (ts[i := t]) = gate_holders (take i ts) + gate_holders [t] + gate_holders (drop (Suc i) ts)"
    "lease_holders (ts[i := t]) = lease_holders (take i ts) + lease_holders [t] + lease_holders (drop (Suc i) ts)"
    using assms by (simp_all add: upd_conv_take_nth_drop gate_holders_def lease_holders_def)
  show "gate_holders (ts[i := t]) + (if holds_gate (th_prog (ts ! i)) then 1 else 0) = gate_holders ts + (if holds_gate (th_prog t) then 1 else 0)"
    "lease_holders (ts[i := t]) + (if holds_lease (th_prog (ts ! i)) then 1 else 0) = lease_holders ts + (if holds_lease (th_prog t) then 1 else 0)"
    unfolding e u by (simp_all add: gate_holders_def lease_holders_def)
qed

lemma holders_append: "gate_holders (ts @ us) = gate_holders ts + gate_holders us" "lease_holders (ts @ us) = lease_holders ts + lease_holders us"
  by (simp_all add: gate_holders_def lease_holders_def)

lemma holders_Cons:
  "gate_holders (t # ts) = (if holds_gate (th_prog t) then Suc (gate_holders ts) else gate_holders ts)"
  "lease_holders (t # ts) = (if holds_lease (th_prog t) then Suc (lease_holders ts) else lease_holders ts)"
  "gate_holders [] = 0" "lease_holders [] = 0"
  by (simp_all add: gate_holders_def lease_holders_def)

lemma holder_counts:
  "t \<in> set ts \<Longrightarrow> holds_gate (th_prog t) \<Longrightarrow> gate_holders ts \<noteq> 0" "t \<in> set ts \<Longrightarrow> holds_lease (th_prog t) \<Longrightarrow> lease_holders ts \<noteq> 0"
  by (auto simp: gate_holders_def lease_holders_def filter_empty_conv)

lemma exec_locks:
  assumes "exec_instr running now t p = (p', t', spawned, published)"
    and ok: "prog_ok (holds_gate (th_prog t)) (holds_lease (th_prog t)) (th_prog t)"
    and held: "holds_gate (th_prog t) \<Longrightarrow> pl_gate p \<noteq> 0" "holds_lease (th_prog t) \<Longrightarrow> pl_owner p = WIFI_TRANSITION_OWNER_OTA"
  shows "(\<forall>u\<in>set (t' # spawned). prog_ok (holds_gate (th_prog u)) (holds_lease (th_prog u)) (th_prog u)) \<and>
    gate_holders (t' # spawned) + (if pl_gate p = 0 then 0 else 1) = gate_holders [t] + (if pl_gate p' = 0 then 0 else 1) \<and>
    lease_holders (t' # spawned) + (if pl_owner p = WIFI_TRANSITION_OWNER_OTA then 1 else 0) =
       lease_holders [t] + (if pl_owner p' = WIFI_TRANSITION_OWNER_OTA then 1 else 0) \<and>
    (pl_owner p' = WIFI_TRANSITION_OWNER_PROBE \<longleftrightarrow> pl_owner p = WIFI_TRANSITION_OWNER_PROBE)"
proof (cases "th_prog t")
  case Nil
  then show ?thesis using assms(1) by (simp add: exec_instr_def gate_holders_def lease_holders_def)
next
  case (Cons x q)
  note simps = Cons exec_instr_def gate_holders_def lease_holders_def
  show ?thesis
  proof (cases x)
    case (Take_Offer expected)
    obtain r p1 where o: "install_offer_locked now expected p = (r, p1)" by fastforce
    have q: "holds_gate q \<and> \<not> holds_lease q" using ok prog_ok_holds [of True False q] by (simp add: Cons Take_Offer)
    then show ?thesis using assms install_locked_keeps [OF o] by (cases r) (auto simp: simps Take_Offer o)
  next
    case (Create_Check created e)
    show ?thesis
    proof (cases "check_task running e")
      case None
      then show ?thesis
      proof (cases created)
        case True
        then have "p' = p \<and> t' = t \<and> spawned = []" using assms(1) None by (simp add: exec_instr_def Cons Create_Check)
        then show ?thesis using ok by (simp add: gate_holders_def lease_holders_def)
      qed (use assms in \<open>auto simp: simps Create_Check create_failed_def\<close>)
    next
      case (Some pd)
      obtain prog doc where pd: "pd = (prog, doc)" by fastforce
      note c = check_prog_ok [OF Some [unfolded pd]]
      show ?thesis using assms c prog_ok_holds [OF c]
        by (auto simp: simps Create_Check Some pd create_failed_def pull_thread_of_def split: if_splits)
    qed
  next
    case (Create_Install created join progress download)
    show ?thesis
    proof (cases "created")
      case True
      show ?thesis
      proof (cases "th_offer t")
        case None
        then have "p' = p \<and> t' = t \<and> spawned = []" using assms(1) True by (simp add: exec_instr_def Cons Create_Install)
        then show ?thesis using ok by (simp add: gate_holders_def lease_holders_def)
      next
        case (Some o')
        obtain offer expected taken where o: "o' = (offer, expected, taken)" by (cases o')
        note c = install_prog_ok [of join progress "download offer"]
        have "q = []" using ok by (simp add: Cons Create_Install)
        then have "p' = p \<and> t' = t\<lparr>th_prog := []\<rparr> \<and> th_prog (spawned ! 0) = install_task join progress (download offer) \<and> length spawned = 1"
          using assms(1) True Some o by (auto simp: exec_instr_def Cons Create_Install pull_thread_of_def)
        then obtain u where "p' = p" "t' = t\<lparr>th_prog := []\<rparr>" "spawned = [u]" "th_prog u = install_task join progress (download offer)"
          by (cases spawned) auto
        then show ?thesis using c prog_ok_holds [OF c] by (simp add: Cons Create_Install gate_holders_def lease_holders_def)
      qed
    next
      case False
      then show ?thesis using assms by (simp add: simps Create_Install create_failed_def) auto
    qed
  next
    case (Sec sec)
    show ?thesis
    proof (cases sec)
      case Lease_Release
      have k: "prog_ok (holds_gate q) False q" using ok by (simp add: Cons Sec Lease_Release)
      show ?thesis using assms k prog_ok_holds [OF k] by (auto simp: simps Sec Lease_Release section_owner wifi_transition_lease_release_def)
    next
      case Gate_Release
      have k: "prog_ok False (holds_lease q) q" using ok by (simp add: Cons Sec Gate_Release)
      show ?thesis using assms k prog_ok_holds [OF k] by (auto simp: simps Sec Gate_Release section_owner p4_ota_pull_gate_release_def)
    qed (use assms in \<open>auto simp: simps Sec pull_defs Let_def split: if_splits\<close>)
  next
    case Try_Gate
    have "holds_gate q \<and> \<not> holds_lease q \<and> prog_ok True False q" using ok prog_ok_holds [of True False q] by (simp add: Cons Try_Gate)
    then show ?thesis using assms by (auto simp: simps Try_Gate p4_ota_pull_gate_try_acquire_def split: if_splits)
  next
    case Try_Lease
    have "holds_gate q \<and> holds_lease q \<and> prog_ok True True q" using ok prog_ok_holds [of True True q] by (simp add: Cons Try_Lease)
    then show ?thesis using assms by (auto simp: simps Try_Lease wifi_transition_lease_acquire_def split: if_splits)
  next
    case (Alloc allocated)
    have "holds_gate q \<and> \<not> holds_lease q \<and> prog_ok True False q" using ok prog_ok_holds [of True False q] by (simp add: Cons Alloc)
    then show ?thesis using assms by (auto simp: simps Alloc split: if_splits)
  qed (use assms in \<open>auto simp: simps pull_defs\<close>)
qed

lemma turn_locks:
  assumes "locks_ok s" "i < length (ps_threads s)"
  shows "locks_ok (thread_turn running i s)"
proof -
  let ?ts = "ps_threads s" and ?t = "ps_threads s ! i"
  obtain p' t' spawned published where e: "exec_instr running (ps_now s) ?t (ps_pull s) = (p', t', spawned, published)"
    using prod_cases4 by blast
  have mem: "?t \<in> set ?ts" using assms(2) by simp
  have held: "holds_gate (th_prog ?t) \<Longrightarrow> pl_gate (ps_pull s) \<noteq> 0"
    "holds_lease (th_prog ?t) \<Longrightarrow> pl_owner (ps_pull s) = WIFI_TRANSITION_OWNER_OTA"
    using assms(1) holder_counts [OF mem] by (auto simp: locks_ok_def split: if_splits)
  have ok: "prog_ok (holds_gate (th_prog ?t)) (holds_lease (th_prog ?t)) (th_prog ?t)" using assms(1) mem by (simp add: locks_ok_def)
  note x = exec_locks [OF e ok held]
  note u = holders_update [OF assms(2), of t']
  have g: "gate_holders (?ts[i := t'] @ spawned) + gate_holders [?t] = gate_holders ?ts + gate_holders (t' # spawned)"
    "lease_holders (?ts[i := t'] @ spawned) + lease_holders [?t] = lease_holders ?ts + lease_holders (t' # spawned)"
    using u by (simp_all add: holders_append holders_Cons split: if_splits)
  have "\<forall>v\<in>set (?ts[i := t'] @ spawned). prog_ok (holds_gate (th_prog v)) (holds_lease (th_prog v)) (th_prog v)"
    using x assms(1) set_update_subset_insert [of ?ts i t'] by (fastforce simp: locks_ok_def)
  then show ?thesis
    using assms(1) x g unfolding locks_ok_def thread_turn_def e by (simp split: if_splits)
qed

lemma reach_locks: "pull_reach running s \<Longrightarrow> locks_ok s"
proof (induction rule: pull_reach.induct)
  case (Start now)
  show ?case by (simp add: locks_ok_def pull_sys_start_def pull_start_def gate_holders_def lease_holders_def)
next
  case (Check s ssid url created e rc prog)
  note ok = start_progs_ok(1) [OF Check.hyps(2)]
  show ?case using Check.IH ok prog_ok_holds [OF ok]
    by (auto simp: locks_ok_def new_call_def pull_thread_of_def gate_holders_def lease_holders_def)
next
  case (Install s expected allocated created join progress download)
  note ok = start_progs_ok(2) [of expected allocated created join progress download]
  show ?case using Install.IH ok prog_ok_holds [OF ok]
    by (auto simp: locks_ok_def new_call_def pull_thread_of_def gate_holders_def lease_holders_def)
next
  case (Status s claimed status p)
  then show ?case by (auto simp: locks_ok_def p4_ota_pull_get_status_def pull_defs Let_def split: if_splits)
next
  case (Turn s i)
  then show ?case using turn_locks by blast
next
  case (Probe s owner)
  then show ?case by (auto simp: locks_ok_def wifi_transition_lease_acquire_def split: if_splits)
next
  case (Probe_End s)
  then show ?case by (auto simp: locks_ok_def wifi_transition_lease_release_def)
qed (simp add: locks_ok_def)

section \<open>Where an offer comes from\<close>

text \<open>The document \<open>D\<close> names an update of a deck that runs \<open>running\<close>.\<close>

definition offers :: "u8 list \<Rightarrow> u8 list \<Rightarrow> p4_ota_pull_manifest \<Rightarrow> bool" where
  "offers running D m \<longleftrightarrow> p4_ota_pull_manifest_parse D = Some (Inr m) \<and>
     p4_ota_pull_release_compare (pm_release m) running = P4_OTA_PULL_RELEASE_NEWER"

definition offer_held :: "u8 list \<Rightarrow> (u32 \<times> u8 list) list \<Rightarrow> p4_ota_pull \<Rightarrow> bool" where
  "offer_held running published p \<longleftrightarrow> (us_state (pl_status p) = P4_OTA_PULL_AVAILABLE \<longrightarrow>
     (\<exists>D m. (pl_offer_tick p, D) \<in> set published \<and> offers running D m \<and> us_available_release (pl_status p) = pm_release m \<and>
        us_available_size (pl_status p) = pm_size m \<and> pl_install_url p = pm_url m \<and> pl_install_sha256 p = pm_sha256 m))"

definition offer_from :: "u8 list \<Rightarrow> (u32 \<times> u8 list) list \<Rightarrow> install_offer \<Rightarrow> u8 list \<Rightarrow> u32 \<Rightarrow> bool" where
  "offer_from running published offer expected taken \<longleftrightarrow>
     (\<exists>tick D m. (tick, D) \<in> set published \<and> offers running D m \<and> expected = pm_release m \<and> io_release offer = pm_release m \<and>
        io_url offer = pm_url m \<and> io_sha256 offer = pm_sha256 m \<and> io_size offer = pm_size m \<and> taken - tick \<le> OFFER_TTL)"

fun instr_ok :: "u8 list \<Rightarrow> u8 list \<Rightarrow> pull_instr \<Rightarrow> bool" where
  "instr_ok running D (Sec (Note state err detail)) \<longleftrightarrow> state \<noteq> P4_OTA_PULL_AVAILABLE"
| "instr_ok running D (Sec (Publish m state err detail installable)) \<longleftrightarrow>
     (state = P4_OTA_PULL_AVAILABLE \<longrightarrow> installable \<and> offers running D m)"
| "instr_ok running D x \<longleftrightarrow> True"

definition thread_ok :: "u8 list \<Rightarrow> (u32 \<times> u8 list) list \<Rightarrow> pull_thread \<Rightarrow> bool" where
  "thread_ok running published t \<longleftrightarrow> list_all (instr_ok running (th_doc t)) (th_prog t) \<and>
     (\<forall>offer expected taken. th_offer t = Some (offer, expected, taken) \<longrightarrow> offer_from running published offer expected taken)"

definition offers_ok :: "u8 list \<Rightarrow> pull_sys \<Rightarrow> bool" where
  "offers_ok running s \<longleftrightarrow> offer_held running (ps_published s) (ps_pull s) \<and> (\<forall>t\<in>set (ps_threads s). thread_ok running (ps_published s) t)"

lemma offers_fields: "offers running D m \<Longrightarrow> copy_text 49 (pm_release m) = pm_release m \<and> copy_text 193 (pm_url m) = pm_url m"
  using manifest_parse_safe [of D] by (auto simp: offers_def safely_ex channel_ok_def copy_text_def)

lemma published_more:
  "offer_held running published p \<Longrightarrow> offer_held running (published @ newer) p"
  "thread_ok running published t \<Longrightarrow> thread_ok running (published @ newer) t"
  unfolding offer_held_def thread_ok_def offer_from_def by fastforce+

lemma offer_held_locks [simp]:
  "offer_held running published (p\<lparr>pl_gate := g\<rparr>) = offer_held running published p"
  "offer_held running published (p\<lparr>pl_owner := w\<rparr>) = offer_held running published p"
  by (simp_all add: offer_held_def)

lemma note_offer: "state \<noteq> P4_OTA_PULL_AVAILABLE \<Longrightarrow> offer_held running published (note_locked state err detail p)"
  by (simp add: offer_held_def note_locked_def)

lemma check_instrs_ok:
  assumes "check_task running e = Some (prog, doc)"
  shows "list_all (instr_ok running doc) prog"
proof -
  obtain got d where f: "fetch_channel_doc (ck_web e) (ck_url e) CHANNEL_DOC_MAX (ck_doc e) = (got, d)" by fastforce
  have "instr_ok running (take (nat got) d) (Sec (check_document running r))" if "p4_ota_pull_manifest_parse (take (nat got) d) = Some r" for r
    using that
    by (auto simp: check_document_def p4_ota_pull_manifest_order_def offers_def split: sum.splits p4_ota_pull_release_order.splits)
  then have "instr_ok running (take (nat got) d) (Sec sec)" if "check_fetched running got d = Some sec" for sec
    using that by (auto simp: check_fetched_def Let_def split: if_splits)
  then show ?thesis using assms by (auto simp: check_task_def f Let_def bind_eq_Some_conv split: if_splits)
qed

lemma install_instrs_ok: "list_all (instr_ok running D) (install_task join progress rc)"
  by (auto simp: install_task_def install_result_def list_all_iff)

lemma install_locked_offer:
  assumes "install_offer_locked now expected p = (r, p')" "offer_held running published p"
  shows "offer_held running published p'" "r = Inr offer \<Longrightarrow> offer_from running published offer expected now"
proof -
  show "offer_held running published p'"
    using assms by (auto simp: install_offer_locked_def offer_held_def pull_defs Let_def split: if_splits)
  assume "r = Inr offer"
  then have r: "us_state (pl_status p) = P4_OTA_PULL_AVAILABLE" "now - pl_offer_tick p \<le> OFFER_TTL" "expected = us_available_release (pl_status p)"
    "offer = \<lparr>io_release = us_available_release (pl_status p), io_url = pl_install_url p, io_sha256 = pl_install_sha256 p,
       io_size = us_available_size (pl_status p)\<rparr>"
    using assms(1) by (auto simp: install_offer_locked_def pull_offer_expired_def p4_ota_pull_offer_fresh_def Let_def split: if_splits)
  from assms(2) r(1) obtain D m where "(pl_offer_tick p, D) \<in> set published" "offers running D m"
    "us_available_release (pl_status p) = pm_release m" "us_available_size (pl_status p) = pm_size m" "pl_install_url p = pm_url m"
    "pl_install_sha256 p = pm_sha256 m"
    by (auto simp: offer_held_def)
  then show "offer_from running published offer expected now"
    unfolding offer_from_def using r by (intro exI [of _ "pl_offer_tick p"] exI [of _ D] exI [of _ m]) simp
qed

lemma exec_offers:
  assumes "exec_instr running now t p = (p', t', spawned, published')"
    and "offer_held running published p" "thread_ok running published t"
  shows "offer_held running (published @ published') p' \<and> (\<forall>u\<in>set (t' # spawned). thread_ok running (published @ published') u)"
proof (cases "th_prog t")
  case Nil
  then show ?thesis using assms by (auto simp: exec_instr_def)
next
  case (Cons x q)
  have q: "list_all (instr_ok running (th_doc t)) q" "instr_ok running (th_doc t) x" using assms(3) by (auto simp: thread_ok_def Cons)
  note simps = exec_instr_def Cons
  show ?thesis
  proof (cases x)
    case (Take_Offer expected)
    obtain r p1 where o: "install_offer_locked now expected p = (r, p1)" by fastforce
    note k = install_locked_offer [OF o assms(2)]
    show ?thesis
    proof (cases r)
      case (Inl e)
      then show ?thesis using assms(1,3) q k(1) by (auto simp: simps Take_Offer o thread_ok_def)
    next
      case (Inr offer)
      then show ?thesis using assms(1) q k(1) k(2) [OF Inr] by (auto simp: simps Take_Offer o thread_ok_def)
    qed
  next
    case (Create_Check created e)
    show ?thesis
    proof (cases "created \<and> check_task running e = None")
      case True
      then have "p' = p \<and> t' = t \<and> spawned = [] \<and> published' = []" using assms(1) by (simp add: simps Create_Check)
      then show ?thesis using assms(2,3) by simp
    qed (use assms q check_instrs_ok in \<open>auto simp: simps Create_Check thread_ok_def create_failed_def pull_thread_of_def split: if_splits option.splits\<close>)
  next
    case (Create_Install created join progress download)
    show ?thesis
    proof (cases "created \<and> th_offer t = None")
      case True
      then have "p' = p \<and> t' = t \<and> spawned = [] \<and> published' = []" using assms(1) by (simp add: simps Create_Install)
      then show ?thesis using assms(2,3) by simp
    qed (use assms q install_instrs_ok in \<open>auto simp: simps Create_Install thread_ok_def create_failed_def pull_thread_of_def split: if_splits option.splits\<close>)
  next
    case (Sec sec)
    have e: "p' = run_section now sec p" "published' = (case sec of Publish m state err detail installable \<Rightarrow>
        if state = P4_OTA_PULL_AVAILABLE then [(now, th_doc t)] else [] | _ \<Rightarrow> [])"
      using assms(1) by (simp_all add: simps Sec)
    have p: "offer_held running (published @ published') p'"
    proof (cases "\<exists>m err detail installable. sec = Publish m P4_OTA_PULL_AVAILABLE err detail installable")
      case True
      then obtain m err detail installable where sec: "sec = Publish m P4_OTA_PULL_AVAILABLE err detail installable" by blast
      then have i: "installable" "offers running (th_doc t) m" using q(2) by (simp_all add: Sec)
      then show ?thesis unfolding e sec offer_held_def
        by (intro impI exI [of _ "th_doc t"] exI [of _ m]) (simp add: pull_defs Let_def offers_fields [OF i(2)])
    next
      case False
      have "offer_held running published (run_section now sec p)"
        using assms(2) q(2) False by (cases sec) (auto simp: Sec offer_held_def pull_defs Let_def)
      then show ?thesis unfolding e(1) by (rule published_more(1))
    qed
    then show ?thesis using assms q published_more(2) [OF assms(3)] by (auto simp: simps Sec thread_ok_def)
  qed (use assms q in \<open>auto simp: simps thread_ok_def note_offer p4_ota_pull_gate_try_acquire_def wifi_transition_lease_acquire_def
      split: if_splits\<close>)
qed

lemma reach_offers: "pull_reach running s \<Longrightarrow> offers_ok running s"
proof (induction rule: pull_reach.induct)
  case (Start now)
  show ?case by (simp add: offers_ok_def pull_sys_start_def pull_start_def offer_held_def)
next
  case (Check s ssid url created e rc prog)
  then show ?case by (auto simp: offers_ok_def new_call_def thread_ok_def pull_thread_of_def p4_ota_pull_check_start_def split: if_splits)
next
  case (Install s expected allocated created join progress download)
  then show ?case by (auto simp: offers_ok_def new_call_def thread_ok_def pull_thread_of_def p4_ota_pull_install_start_def)
next
  case (Status s claimed status p)
  then show ?case by (auto simp: offers_ok_def p4_ota_pull_get_status_def offer_held_def pull_defs Let_def split: if_splits)
next
  case (Turn s i)
  obtain p' t' spawned published where e: "exec_instr running (ps_now s) (ps_threads s ! i) (ps_pull s) = (p', t', spawned, published)"
    using prod_cases4 by blast
  have "offer_held running (ps_published s) (ps_pull s)" "thread_ok running (ps_published s) (ps_threads s ! i)"
    using Turn by (auto simp: offers_ok_def)
  note x = exec_offers [OF e this]
  show ?case using x Turn.IH published_more(2) set_update_subset_insert [of "ps_threads s" i t']
    by (auto simp: offers_ok_def thread_turn_def e)
next
  case (Probe s owner)
  then show ?case by (simp add: offers_ok_def offer_held_def)
next
  case (Probe_End s)
  then show ?case by (simp add: offers_ok_def offer_held_def)
qed (simp add: offers_ok_def)

section \<open>A sample channel\<close>

lemma read_digits_code [code]:
  "read_digits json p v =
     (if p < length json
      then do { c \<leftarrow> load8 json p;
        if dec_digit c
        then let v' = v * 10 + unat (c - 0x30) in if int v' > 0xFFFFFFFF then Some (Inl P4_OTA_PULL_MANIFEST_BAD_VALUE) else read_digits json (p + 1) v'
        else Some (Inr v) }
      else Some (Inr v))"
  by (subst read_digits.simps) (simp add: Let_def)

lemma u32_digits_code [code]:
  "u32_digits v cs =
     (case cs of [] \<Rightarrow> Some (v, [])
      | c # cs' \<Rightarrow> if dec_digit c then let v' = v * 10 + unat (c - 0x30) in if int v' > 0xFFFFFFFF then None else u32_digits v' cs' else Some (v, cs))"
  by (cases cs) (simp_all add: Let_def)

definition hex_text :: "u8 list \<Rightarrow> u8 list" where
  "hex_text bs = concat (map (\<lambda>b. map (\<lambda>n. if n < 10 then 0x30 + n else 0x57 + n) [drop_bit 4 b, b AND 0x0F]) bs)"

definition sample_doc :: "u8 list" where
  \<open>sample_doc = ascii ''{"schema_version":1,"release":"RC6","p4":{"url":"a","size":218,"sha256":"'' @ hex_text (take 32 sample_bundle_header) @ ascii ''"}}''\<close>

definition sample_offer :: p4_ota_pull_manifest where
  "sample_offer = \<lparr>pm_release = ascii ''RC6'', pm_url = ascii ''a'', pm_size = 218, pm_sha256 = take 32 sample_bundle_header\<rparr>"

lemma sample_doc_parsed: "p4_ota_pull_manifest_parse sample_doc = Some (Inr sample_offer)"
  by code_simp

definition sample_check :: check_env where
  "sample_check = \<lparr>ck_web = \<lambda>url. \<lparr>ht_client = True, ht_open = 0, ht_length = -1, ht_status = 200,
       ht_read = \<lambda>n. if n = 0 then Some sample_doc else Some []\<rparr>,
     ck_url = ascii ''https://u'', ck_join = 0, ck_restore = 0, ck_doc = []\<rparr>"

definition sample_prog :: "pull_instr list" where
  "sample_prog = [Sec (Note P4_OTA_PULL_CHECKING 0 (ascii ''joining service network'')), Use_Radio Switch_To_Sta,
     Sec (Note P4_OTA_PULL_CHECKING 0 (ascii ''reading update channel'')), Use_Radio Transfer,
     Sec (Publish sample_offer P4_OTA_PULL_AVAILABLE 0 (ascii ''RC6'') True), Use_Radio Restore_Ap, Sec Lease_Release, Sec Gate_Release]"

abbreviation (input) sample_running :: "u8 list" where "sample_running \<equiv> ascii ''RC5-3-gabcdef0''"

lemma sample_checked: "check_task sample_running sample_check = Some (sample_prog, sample_doc)"
proof -
  have f: "fetch_channel_doc (ck_web sample_check) (ck_url sample_check) CHANNEL_DOC_MAX (ck_doc sample_check) = (int (length sample_doc), sample_doc)"
    by code_simp
  have o: "p4_ota_pull_manifest_order sample_offer sample_running = P4_OTA_PULL_RELEASE_NEWER" by code_simp
  have "check_fetched sample_running (int (length sample_doc)) sample_doc = Some (Publish sample_offer P4_OTA_PULL_AVAILABLE 0 (ascii ''RC6'') True)"
    by (simp add: check_fetched_def sample_doc_parsed check_document_def o) (simp add: sample_offer_def)
  moreover have "ck_join sample_check = 0" "ck_restore sample_check = 0" by (simp_all add: sample_check_def)
  ultimately show ?thesis by (simp add: check_task_def f sample_prog_def)
qed

text \<open>The check has just created its task.\<close>

definition sample_checking :: pull_sys where
  "sample_checking = \<lparr>ps_pull = (note_locked P4_OTA_PULL_CHECKING 0 (ascii ''starting'') (clear_offer_locked
         (pull_start\<lparr>pl_gate := 1, pl_owner := WIFI_TRANSITION_OWNER_OTA\<rparr>))),
     ps_threads = [pull_thread_of [], (pull_thread_of sample_prog)\<lparr>th_doc := sample_doc\<rparr>], ps_probe = False, ps_now = 1000, ps_published = []\<rparr>"

lemma turns_reach:
  "\<lbrakk>pull_reach running s; \<forall>i\<in>set is. i < length (ps_threads s)\<rbrakk> \<Longrightarrow> pull_reach running (fold (thread_turn running) is s)"
proof (induction "is" arbitrary: s)
  case (Cons i is')
  have "length (ps_threads s) \<le> length (ps_threads (thread_turn running i s))" by (simp add: thread_turn_def split: prod.split)
  then show ?case using Cons.prems by (auto intro!: Cons.IH pull_reach.Turn)
qed simp

lemma sample_checking_reach: "pull_reach sample_running sample_checking"
proof -
  have "p4_ota_cfg_check_url (ascii ''https://u'') = P4_OTA_CFG_OK" "ascii ''net'' \<noteq> []" "ascii ''https://u'' \<noteq> []" by code_simp+
  then have c: "p4_ota_pull_check_start (ascii ''net'') (ascii ''https://u'') True sample_check =
      (ESP_OK, [Try_Gate, Try_Lease, Begin_Check, Create_Check True sample_check])"
    by (simp add: p4_ota_pull_check_start_def)
  let ?s = "new_call ESP_OK [Try_Gate, Try_Lease, Begin_Check, Create_Check True sample_check] (pull_sys_start 1000)"
  have "pull_reach sample_running ?s" by (rule pull_reach.Check [OF pull_reach.Start c])
  then have "pull_reach sample_running (fold (thread_turn sample_running) [0, 0, 0, 0] ?s)"
    by (rule turns_reach) (simp add: new_call_def)
  moreover have "fold (thread_turn sample_running) [0, 0, 0, 0] ?s = sample_checking"
    by (simp add: thread_turn_def exec_instr_def new_call_def pull_thread_of_def pull_sys_start_def pull_start_def sample_checked sample_checking_def
        p4_ota_pull_gate_try_acquire_def wifi_transition_lease_acquire_def note_locked_def clear_offer_locked_def)
  ultimately show ?thesis by simp
qed

text \<open>The document is published; then an install of it creates its task.\<close>

definition sample_started :: pull_sys where
  "sample_started = fold (thread_turn sample_running) [2, 2, 2, 2, 2, 2]
     (new_call ESP_OK (p4_ota_pull_install_start (ascii ''RC6'') True True 0 [] (\<lambda>offer. 0))
        (fold (thread_turn sample_running) [1, 1, 1, 1, 1, 1, 1, 1] sample_checking))"

lemma sample_started_reach: "pull_reach sample_running sample_started"
proof -
  define s where "s = fold (thread_turn sample_running) [1, 1, 1, 1, 1, 1, 1, 1] sample_checking"
  have "pull_reach sample_running s"
    unfolding s_def by (rule turns_reach [OF sample_checking_reach]) (simp add: sample_checking_def)
  note call = pull_reach.Install [OF this, of "ascii ''RC6''" True True 0 "[]" "\<lambda>offer. 0"]
  have "length (ps_threads s) = 2" unfolding s_def by code_simp
  then have "\<forall>i\<in>set [2, 2, 2, 2, 2, 2]. i < length (ps_threads
      (new_call ESP_OK (p4_ota_pull_install_start (ascii ''RC6'') True True 0 [] (\<lambda>offer. 0)) s))"
    by (simp add: new_call_def)
  then show ?thesis unfolding sample_started_def s_def [symmetric] by (rule turns_reach [OF call])
qed

abbreviation (input) sample_taken :: install_offer where
  "sample_taken \<equiv> \<lparr>io_release = ascii ''RC6'', io_url = ascii ''a'', io_sha256 = take 32 sample_bundle_header, io_size = 218\<rparr>"

lemma sample_started_offer:
  "3 < length (ps_threads sample_started)" "th_offer (ps_threads sample_started ! 3) = Some (sample_taken, ascii ''RC6'', 1000)"
  by code_simp+

section \<open>The property\<close>

text \<open>
  Claim C4. An update installed over the network is the one that was offered: in every state the service can reach, with calls,
  tasks, the connectivity probe and the clock in any order, an offer that a started install works on carries the release, path, size and
  digest that the parser read from one document fetched from the channel, newer than the running firmware, named by the caller, and
  published as available at most ten minutes before by the clock; and whenever its download reports success, the image selected for boot
  follows a signed header of that very release and has, with the header, that size and that digest.
\<close>

theorem update_installed_is_the_one_offered:
  assumes reach: "pull_reach running s"
    and "i < length (ps_threads s)" "th_offer (ps_threads s ! i) = Some (offer, expected, taken)"
  shows "(\<exists>tick D m. (tick, D) \<in> set (ps_published s) \<and> p4_ota_pull_manifest_parse D = Some (Inr m) \<and>
      p4_ota_pull_release_compare (pm_release m) running = P4_OTA_PULL_RELEASE_NEWER \<and> expected = pm_release m \<and>
      io_release offer = pm_release m \<and> io_url offer = pm_url m \<and> io_size offer = pm_size m \<and> io_sha256 offer = pm_sha256 m \<and>
      taken - tick \<le> OFFER_TTL) \<and>
    (\<forall>plat e base st. (\<forall>k>0. bystander (dl_others e k)) \<longrightarrow>
      dr_rc (download_and_install plat e running base (io_url offer) (io_release offer) (io_size offer) (io_sha256 offer) st) = 0 \<longrightarrow>
      (\<exists>header img slot boots. ddj_ota_manifest_verify_signature (ota_crypto.truncate plat) header \<and>
        (\<exists>sm. p4_manifest header = Inr sm \<and> om_version sm = io_release offer \<and> psa_hash_compute plat img = Some (om_image_sha256 sm)) \<and>
        unat (io_size offer) = length header + length img \<and> psa_hash_compute plat (header @ img) = Some (io_sha256 offer) \<and>
        fl_boots (po_flash (dr_ota (download_and_install plat e running base (io_url offer) (io_release offer) (io_size offer)
          (io_sha256 offer) st))) = boots @ [(slot, img)]))"
proof (intro conjI allI impI)
  have "thread_ok running (ps_published s) (ps_threads s ! i)" using reach_offers [OF reach] assms(2) by (simp add: offers_ok_def)
  then have "offer_from running (ps_published s) offer expected taken" using assms(3) by (simp add: thread_ok_def)
  then show "\<exists>tick D m. (tick, D) \<in> set (ps_published s) \<and> p4_ota_pull_manifest_parse D = Some (Inr m) \<and>
      p4_ota_pull_release_compare (pm_release m) running = P4_OTA_PULL_RELEASE_NEWER \<and> expected = pm_release m \<and>
      io_release offer = pm_release m \<and> io_url offer = pm_url m \<and> io_size offer = pm_size m \<and> io_sha256 offer = pm_sha256 m \<and>
      taken - tick \<le> OFFER_TTL"
    unfolding offer_from_def offers_def by blast
next
  fix plat e base st
  assume quiet: "\<forall>k>0. bystander (dl_others e k)"
    and ok: "dr_rc (download_and_install plat e running base (io_url offer) (io_release offer) (io_size offer) (io_sha256 offer) st) = 0"
  from download_accepted [OF quiet ok] obtain header sm slot img boots where d: "length header = 188" "p4_manifest header = Inr sm"
      "ddj_ota_manifest_verify_signature (ota_crypto.truncate plat) header" "om_version sm = io_release offer"
      "unat (io_size offer) = 188 + length img" "psa_hash_compute plat (header @ img) = Some (io_sha256 offer)"
      "psa_hash_compute plat img = Some (om_image_sha256 sm)"
      "fl_boots (po_flash (dr_ota (download_and_install plat e running base (io_url offer) (io_release offer) (io_size offer)
        (io_sha256 offer) st))) = boots @ [(slot, img)]"
    by blast
  show "\<exists>header img slot boots. ddj_ota_manifest_verify_signature (ota_crypto.truncate plat) header \<and>
        (\<exists>sm. p4_manifest header = Inr sm \<and> om_version sm = io_release offer \<and> psa_hash_compute plat img = Some (om_image_sha256 sm)) \<and>
        unat (io_size offer) = length header + length img \<and> psa_hash_compute plat (header @ img) = Some (io_sha256 offer) \<and>
        fl_boots (po_flash (dr_ota (download_and_install plat e running base (io_url offer) (io_release offer) (io_size offer)
          (io_sha256 offer) st))) = boots @ [(slot, img)]"
    by (intro exI [of _ header] exI [of _ img] exI [of _ slot] exI [of _ boots] conjI exI [of _ sm]) (use d in simp_all)
qed

theorem update_installed_is_the_one_offered_witness:
  "(\<exists>tick D m. (tick, D) \<in> set (ps_published sample_started) \<and> p4_ota_pull_manifest_parse D = Some (Inr m) \<and> pm_url m = ascii ''a'') \<and>
    (\<exists>header img slot boots. 218 = length header + length img \<and>
      psa_hash_compute sample_platform (header @ img) = Some (take 32 sample_bundle_header) \<and>
      fl_boots (po_flash (dr_ota (download_and_install sample_platform sample_download sample_running (ascii ''https://u'') (ascii ''a'')
        (ascii ''RC6'') 218 (take 32 sample_bundle_header) (run_ops sample_platform [Ota_Init sample_answers] ota_start)))) = boots @ [(slot, img)])"
proof -
  note all = update_installed_is_the_one_offered [OF sample_started_reach sample_started_offer]
  have quiet: "\<forall>k>0. bystander (dl_others sample_download k)" using sample_quiet(1) by blast
  have "dr_rc (download_and_install sample_platform sample_download sample_running (ascii ''https://u'') (io_url sample_taken)
      (io_release sample_taken) (io_size sample_taken) (io_sha256 sample_taken) (run_ops sample_platform [Ota_Init sample_answers] ota_start)) = 0"
    using sample_runs(1) by simp
  from conjunct2 [OF all, rule_format, OF _ this] quiet
  have b: "\<exists>header img slot boots. 218 = length header + length img \<and>
      psa_hash_compute sample_platform (header @ img) = Some (take 32 sample_bundle_header) \<and>
      fl_boots (po_flash (dr_ota (download_and_install sample_platform sample_download sample_running (ascii ''https://u'') (ascii ''a'')
        (ascii ''RC6'') 218 (take 32 sample_bundle_header) (run_ops sample_platform [Ota_Init sample_answers] ota_start)))) = boots @ [(slot, img)]"
    unfolding install_offer.simps by simp blast
  from conjunct1 [OF all] obtain tick D m where "(tick, D) \<in> set (ps_published sample_started)" "p4_ota_pull_manifest_parse D = Some (Inr m)"
    "io_url sample_taken = pm_url m" by blast
  then have "\<exists>tick D m. (tick, D) \<in> set (ps_published sample_started) \<and> p4_ota_pull_manifest_parse D = Some (Inr m) \<and> pm_url m = ascii ''a''"
    by (intro exI [of _ tick] exI [of _ D] exI [of _ m]) simp
  then show ?thesis using b by (rule conjI)
qed

definition uses_radio :: "pull_thread \<Rightarrow> bool" where
  "uses_radio t \<longleftrightarrow> (case th_prog t of Use_Radio r # q \<Rightarrow> True | _ \<Rightarrow> False)"

definition writes_status :: "pull_thread \<Rightarrow> bool" where
  "writes_status t \<longleftrightarrow> (case th_prog t of Take_Offer expected # q \<Rightarrow> True | Begin_Check # q \<Rightarrow> True | Begin_Install # q \<Rightarrow> True
     | Sec sec # q \<Rightarrow> sec \<noteq> Lease_Release \<and> sec \<noteq> Gate_Release | _ \<Rightarrow> False)"

lemma uses_radio_lease: "prog_ok g l (th_prog t) \<Longrightarrow> uses_radio t \<Longrightarrow> l"
  by (cases "th_prog t") (auto simp: uses_radio_def split: pull_instr.splits)

lemma writes_status_gate: "prog_ok g l (th_prog t) \<Longrightarrow> writes_status t \<Longrightarrow> g"
  by (cases "th_prog t") (auto simp: writes_status_def split: pull_instr.splits task_section.splits)

lemma one_holder:
  assumes "length (filter P xs) \<le> 1" "i < length xs" "j < length xs" "P (xs ! i)" "P (xs ! j)"
  shows "i = j"
proof -
  have "card {k. k < length xs \<and> P (xs ! k)} \<le> 1" using assms(1) by (simp add: length_filter_conv_card)
  moreover have "finite {k. k < length xs \<and> P (xs ! k)}" by simp
  ultimately show ?thesis using assms(2-5) card_le_Suc0_iff_eq [of "{k. k < length xs \<and> P (xs ! k)}"] by auto
qed

text \<open>
  Claim C25. The radio and the update service have one user at a time: in every state the service can reach, when a thread is about to
  use the radio, no other thread is and no connectivity probe runs; at most one thread at a time is about to write the status or to take an
  offer; after a successful install the lease is never given back, so that the radio stays untouched until the deck restarts; and
  when every thread has run to its end, the gate is free and the service does not hold the lease.
\<close>

theorem update_tasks_exclusive:
  assumes "pull_reach running s"
  shows "(\<forall>i j. i < length (ps_threads s) \<and> j < length (ps_threads s) \<longrightarrow>
      (uses_radio (ps_threads s ! i) \<longrightarrow> \<not> ps_probe s \<and> (uses_radio (ps_threads s ! j) \<longrightarrow> i = j)) \<and>
      (writes_status (ps_threads s ! i) \<and> writes_status (ps_threads s ! j) \<longrightarrow> i = j) \<and>
      (th_prog (ps_threads s ! i) = [Restart] \<longrightarrow> \<not> ps_probe s \<and> \<not> uses_radio (ps_threads s ! j))) \<and>
    ((\<forall>t\<in>set (ps_threads s). th_prog t = []) \<longrightarrow>
      \<not> p4_ota_pull_gate_is_claimed (pl_gate (ps_pull s)) \<and> pl_owner (ps_pull s) \<noteq> WIFI_TRANSITION_OWNER_OTA)"
proof -
  let ?ts = "ps_threads s"
  note inv = reach_locks [OF assms]
  have ok: "prog_ok (holds_gate (th_prog (?ts ! i))) (holds_lease (th_prog (?ts ! i))) (th_prog (?ts ! i))" if "i < length ?ts" for i
    using inv that by (simp add: locks_ok_def)
  have radio: "holds_lease (th_prog (?ts ! i))" if "i < length ?ts" "uses_radio (?ts ! i)" for i
    using uses_radio_lease [OF ok] that by blast
  have writer: "holds_gate (th_prog (?ts ! i))" if "i < length ?ts" "writes_status (?ts ! i)" for i
    using writes_status_gate [OF ok] that by blast
  have g1: "length (filter (\<lambda>t. holds_gate (th_prog t)) ?ts) \<le> 1" and l1: "length (filter (\<lambda>t. holds_lease (th_prog t)) ?ts) \<le> 1"
    using inv by (auto simp: locks_ok_def gate_holders_def lease_holders_def split: if_splits)
  have lease: "i = j" if "i < length ?ts" "j < length ?ts" "holds_lease (th_prog (?ts ! i))" "holds_lease (th_prog (?ts ! j))" for i j
    using one_holder [OF l1 that] .
  have gate: "i = j" if "i < length ?ts" "j < length ?ts" "holds_gate (th_prog (?ts ! i))" "holds_gate (th_prog (?ts ! j))" for i j
    using one_holder [OF g1 that] .
  have probe: "\<not> ps_probe s" if "i < length ?ts" "holds_lease (th_prog (?ts ! i))" for i
    using holder_counts(2) [of "?ts ! i" ?ts] that inv by (auto simp: locks_ok_def split: if_splits)
  have restart: "holds_lease (th_prog (?ts ! i)) \<and> \<not> uses_radio (?ts ! i)" if "th_prog (?ts ! i) = [Restart]" for i
    using that by (simp add: uses_radio_def)
  have idle: "\<not> p4_ota_pull_gate_is_claimed (pl_gate (ps_pull s)) \<and> pl_owner (ps_pull s) \<noteq> WIFI_TRANSITION_OWNER_OTA"
    if "\<forall>t\<in>set ?ts. th_prog t = []"
  proof -
    have "gate_holders ?ts = 0" "lease_holders ?ts = 0" using that by (auto simp: gate_holders_def lease_holders_def filter_empty_conv)
    then show ?thesis using inv by (auto simp: locks_ok_def p4_ota_pull_gate_is_claimed_def split: if_splits)
  qed
  show ?thesis
  proof (intro conjI allI impI)
    fix i j
    assume ij: "i < length ?ts \<and> j < length ?ts"
    then show "\<not> ps_probe s" if "uses_radio (?ts ! i)" using probe radio that by blast
    show "i = j" if "uses_radio (?ts ! i)" "uses_radio (?ts ! j)" using lease radio that ij by blast
    show "i = j" if "writes_status (?ts ! i) \<and> writes_status (?ts ! j)" using gate writer that ij by blast
    show "\<not> ps_probe s" if "th_prog (?ts ! i) = [Restart]" using probe restart that ij by blast
    show "\<not> uses_radio (?ts ! j)" if "th_prog (?ts ! i) = [Restart]" using lease radio restart that ij by blast
  qed (use idle in blast)+
qed

text \<open>The task of a check is about to join the service network.\<close>

theorem update_tasks_exclusive_witness:
  "uses_radio (ps_threads (thread_turn sample_running 1 sample_checking) ! 1) \<and> \<not> ps_probe (thread_turn sample_running 1 sample_checking)"
proof -
  have r: "pull_reach sample_running (thread_turn sample_running 1 sample_checking)"
    by (rule pull_reach.Turn [OF sample_checking_reach]) (simp add: sample_checking_def)
  have "uses_radio (ps_threads (thread_turn sample_running 1 sample_checking) ! 1)"
    "1 < length (ps_threads (thread_turn sample_running 1 sample_checking))" by code_simp+
  with conjunct1 [OF update_tasks_exclusive [OF r], rule_format, of 1 1] show ?thesis by simp
qed

section \<open>A failed read is taken for a document\<close>

text \<open>
  \<open>ESP_FAIL\<close> is minus one, so the negated error of a failed read is a byte count of one: the check parses the first byte that the last
  check left in the buffer and reports a malformed document from the server, not that the server could not be reached.
\<close>

lemma failed_read_is_a_document:
  assumes "ht_client (web (request_url url (ascii ''latest.json'')))" "ht_open (web (request_url url (ascii ''latest.json''))) = 0"
    "ht_status (web (request_url url (ascii ''latest.json''))) = 200" "ht_length (web (request_url url (ascii ''latest.json''))) \<le> 4096"
    "ht_read (web (request_url url (ascii ''latest.json''))) 0 = None" "buf \<noteq> []"
  shows "fetch_channel_doc web url CHANNEL_DOC_MAX buf = (1, buf)"
    "check_fetched running 1 buf = Some (Note P4_OTA_PULL_FAILED (err_code ESP_ERR_INVALID_RESPONSE) (ascii ''malformed''))"
proof -
  have "fetch_loop (web (request_url url (ascii ''latest.json''))) 4096 0 [] = (False, [])" using assms by (subst fetch_loop.simps) simp
  then show "fetch_channel_doc web url CHANNEL_DOC_MAX buf = (1, buf)" using assms by (simp add: fetch_channel_doc_def Let_def)
  obtain b rest where b: "buf = b # rest" using assms(6) by (cases buf) auto
  have "seek_key [b] (ascii ''schema_version'') = Some None"
    unfolding seek_key_def by (subst seek_from.simps) (simp add: ascii_def)
  then show "check_fetched running 1 buf = Some (Note P4_OTA_PULL_FAILED (err_code ESP_ERR_INVALID_RESPONSE) (ascii ''malformed''))"
    by (simp add: check_fetched_def b p4_ota_pull_manifest_parse_def field_def check_document_def)
qed

end
