(* ===== verification/Step_Monad.thy ===== *)
theory Step_Monad
  imports Prelude "HOL-Library.State_Monad" "HOL-Library.Log_Nat"
begin

text \<open>
  State passing for the components whose functions call one another many times, with the rules that carry a relation between the
  state before and after through a body; and the single-precision numbers of the C code.
\<close>

section \<open>Statements\<close>

abbreviation ret :: "'a \<Rightarrow> ('s, 'a) state" where "ret \<equiv> State_Monad.return"

definition gets :: "('s \<Rightarrow> 'a) \<Rightarrow> ('s, 'a) state" where
  "gets f = State (\<lambda>s. (f s, s))"

definition modify :: "('s \<Rightarrow> 's) \<Rightarrow> ('s, unit) state" where
  "modify f = State (\<lambda>s. ((), f s))"

definition cond :: "bool \<Rightarrow> ('s, unit) state \<Rightarrow> ('s, unit) state" where
  "cond b m = (if b then m else ret ())"

primrec for_each :: "'a list \<Rightarrow> ('a \<Rightarrow> ('s, unit) state) \<Rightarrow> ('s, unit) state" where
  "for_each [] f = ret ()"
| "for_each (x # xs) f = do { f x; for_each xs f }"

lemma run_gets [simp]: "run_state (gets f) s = (f s, s)"
  by (simp add: gets_def)

lemma run_modify [simp]: "run_state (modify f) s = ((), f s)"
  by (simp add: modify_def)

lemma run_cond [simp]: "run_state (cond b m) s = (if b then run_state m s else ((), s))"
  by (simp add: cond_def)

lemma run_if [simp]: "run_state (if b then m else n) s = (if b then run_state m s else run_state n s)"
  by simp

abbreviation exec :: "('s, 'a) state \<Rightarrow> 's \<Rightarrow> 's" where
  "exec m s \<equiv> snd (run_state m s)"

abbreviation eval :: "('s, 'a) state \<Rightarrow> 's \<Rightarrow> 'a" where
  "eval m s \<equiv> fst (run_state m s)"

section \<open>Relations carried through a body\<close>

locale carried =
  fixes R :: "'s \<Rightarrow> 's \<Rightarrow> bool"
  assumes R_refl: "R s s"
    and R_trans: "R s t \<Longrightarrow> R t u \<Longrightarrow> R s u"
begin

definition keeps :: "('s, 'a) state \<Rightarrow> bool" where
  "keeps m \<longleftrightarrow> (\<forall>s. R s (exec m s))"

lemma keepsD: "keeps m \<Longrightarrow> R s (exec m s)"
  by (simp add: keeps_def)

lemma ret_keeps [intro!]: "keeps (ret x)"
  by (simp add: keeps_def R_refl)

lemma gets_keeps [intro!]: "keeps (gets f)"
  by (simp add: keeps_def R_refl)

lemma modify_keeps: "(\<And>s. R s (f s)) \<Longrightarrow> keeps (modify f)"
  by (simp add: keeps_def)

lemma bind_keeps [intro!]: "keeps m \<Longrightarrow> (\<And>x. keeps (f x)) \<Longrightarrow> keeps (m \<bind> f)"
  by (auto simp: keeps_def split: prod.splits) (metis R_trans snd_conv)

lemma if_keeps [intro!]: "(b \<Longrightarrow> keeps m) \<Longrightarrow> (\<not> b \<Longrightarrow> keeps n) \<Longrightarrow> keeps (if b then m else n)"
  by simp

lemma cond_keeps [intro!]: "(b \<Longrightarrow> keeps m) \<Longrightarrow> keeps (cond b m)"
  by (simp add: cond_def ret_keeps)

lemma for_each_keeps [intro!]: "(\<And>x. keeps (f x)) \<Longrightarrow> keeps (for_each xs f)"
  by (induction xs) (auto intro!: bind_keeps ret_keeps)

lemma option_keeps [intro!]: "keeps m \<Longrightarrow> (\<And>x. keeps (f x)) \<Longrightarrow> keeps (case z of None \<Rightarrow> m | Some x \<Rightarrow> f x)"
  by (cases z) simp_all

lemma prod_keeps [intro!]: "(\<And>x y. keeps (f x y)) \<Longrightarrow> keeps (case z of (x, y) \<Rightarrow> f x y)"
  by (cases z) simp

end

section \<open>Single precision\<close>

text \<open>
  A \<open>float\<close> is the rational number it denotes.  Every operation of C rounds its exact result to 24 significant bits, ties to even,
  with gradual underflow; no value of the modelled code is near the largest float.
\<close>

definition pow2 :: "int \<Rightarrow> rat" where
  "pow2 e = (if 0 \<le> e then 2 ^ nat e else 1 / 2 ^ nat (- e))"

definition binade :: "rat \<Rightarrow> int" where
  "binade x = (let (n, d) = quotient_of x; k = bitlen n - bitlen d in if pow2 k \<le> x then k else k - 1)"

definition round_even :: "rat \<Rightarrow> int" where
  "round_even q = (let f = \<lfloor>q\<rfloor>; r = q - of_int f in if r < 1 / 2 \<or> (r = 1 / 2 \<and> even f) then f else f + 1)"

definition f32 :: "rat \<Rightarrow> rat" where
  "f32 x = (if x = 0 then 0 else let u = pow2 (max (binade \<bar>x\<bar> - 23) (-149)) in of_int (round_even (x / u)) * u)"

text \<open>The compiler may compute a product and a sum with one rounding.\<close>

definition madd :: "bool \<Rightarrow> rat \<Rightarrow> rat \<Rightarrow> rat \<Rightarrow> rat" where
  "madd fused a b c = (if fused then f32 (a * b + c) else f32 (f32 (a * b) + c))"

text \<open>A conversion to an integer type cuts the fraction off.\<close>

definition cut :: "rat \<Rightarrow> int" where
  "cut q = (if 0 \<le> q then \<lfloor>q\<rfloor> else \<lceil>q\<rceil>)"

lemma f32_zero [simp]: "f32 0 = 0"
  by (simp add: f32_def)

lemma round_even_int [simp]: "round_even (of_int n) = n"
  by (simp add: round_even_def)

lemma round_even_error: "\<bar>of_int (round_even q) - q\<bar> \<le> 1 / 2"
proof -
  have f: "of_int \<lfloor>q\<rfloor> \<le> q" "q < of_int \<lfloor>q\<rfloor> + 1" by linarith+
  show ?thesis
  proof (cases "q - of_int \<lfloor>q\<rfloor> < 1 / 2 \<or> (q - of_int \<lfloor>q\<rfloor> = 1 / 2 \<and> even \<lfloor>q\<rfloor>)")
    case True
    then show ?thesis using f by (auto simp: round_even_def Let_def abs_le_iff)
  next
    case False
    then show ?thesis using f by (auto simp: round_even_def Let_def abs_le_iff)
  qed
qed

lemma cut_int [simp]: "cut (of_int n) = n"
  by (simp add: cut_def)

end
