(* ===== verification/Audio_Control.thy ===== *)
theory Audio_Control
  imports Step_Monad
begin

text \<open>
  The control side of the audio engine (\<open>audio_engine.c\<close>): transport, loops, platter hold, scratch, tempo, mixer and effects as the
  deck core commands them, on the fields both sides share.  The loader, decoder and output tasks are not modelled: between any two
  calls they may change the engine as \<open>ae_others\<close> says, and answers that depend on their buffers are parameters of the call.
  The firmware build is modelled; every deck supports transport there.
\<close>

abbreviation (input) AUDIO_ENGINE_DECK_COUNT :: nat where "AUDIO_ENGINE_DECK_COUNT \<equiv> 2"
abbreviation (input) AUDIO_MIXER_CONTROL_MAX :: u16 where "AUDIO_MIXER_CONTROL_MAX \<equiv> 16383"
abbreviation (input) AUDIO_MIXER_CONTROL_CENTER :: u16 where "AUDIO_MIXER_CONTROL_CENTER \<equiv> 8192"
abbreviation (input) AUDIO_EQ_BAND_COUNT :: nat where "AUDIO_EQ_BAND_COUNT \<equiv> 3"
abbreviation (input) AUDIO_ENGINE_BEAT_FX_ECHO_MAX_DELAY_MS :: u32 where "AUDIO_ENGINE_BEAT_FX_ECHO_MAX_DELAY_MS \<equiv> 1000"

definition AE_JOG_BEND_PER_TICK :: rat where "AE_JOG_BEND_PER_TICK = f32 (2 / 100)"
definition AE_JOG_BEND_MAX :: rat where "AE_JOG_BEND_MAX = f32 (30 / 100)"

datatype audio_engine_beat_fx_target =
  AUDIO_ENGINE_BEAT_FX_TARGET_CH1 | AUDIO_ENGINE_BEAT_FX_TARGET_CH2 | AUDIO_ENGINE_BEAT_FX_TARGET_BOTH

datatype audio_delay_fx_mode = AUDIO_DELAY_FX_MODE_ECHO | AUDIO_DELAY_FX_MODE_DELAY

datatype audio_pad_fx_mode = AUDIO_PAD_FX_MODE_PAD_FX1 | AUDIO_PAD_FX_MODE_PAD_FX2

datatype ae_state = AE_IDLE | AE_LOADING | AE_READY | AE_PLAYING | AE_ERROR

datatype ae_seek_reason = AE_SEEK_REASON_USER | AE_SEEK_REASON_LOOP | AE_SEEK_REASON_SCRATCH_RELEASE | AE_SEEK_REASON_SCRATCH_ABORT

datatype ae_scratch_command = AE_SCRATCH_COMMAND_NONE | AE_SCRATCH_COMMAND_RELEASE | AE_SCRATCH_COMMAND_REGRAB

record audio_delay_fx_config =
  dl_enabled :: bool
  dl_mode :: audio_delay_fx_mode
  dl_delay_ms :: u32
  dl_wet_q15 :: u16
  dl_feedback_q15 :: u16

record audio_flanger_fx_config =
  fl_enabled :: bool
  fl_period_ms :: u32
  fl_depth_q15 :: u16

record audio_pad_fx_config =
  pf_mode :: audio_pad_fx_mode
  pf_pad :: u8
  pf_active :: bool

text \<open>
  A deck of the engine.  \<open>en_source\<close> is whether the track's file is open; \<open>en_scratch_position\<close> the track position of the scratch
  head while it is what is heard; \<open>en_echo_buffer\<close> and \<open>en_flanger_buffer\<close> whether the effect has its delay line.
\<close>

record audio_engine_state =
  en_loaded :: bool
  en_loading :: bool
  en_load_progress :: u8
  en_last_error :: esp_err
  en_source :: bool
  en_sample_rate :: u32
  en_playing :: bool
  en_paused :: bool
  en_eof :: bool
  en_playback_finished :: bool
  en_start_waiting :: bool
  en_seek_target_ms :: u32
  en_seek_requested :: bool
  en_seek_reason :: ae_seek_reason
  en_seek_base_ms :: u32
  en_frames_since_seek :: u64
  en_output_base_ms :: u32
  en_output_frames_since_seek :: u64
  en_loop_start_ms :: u32
  en_loop_end_ms :: u32
  en_loop_active :: bool
  en_pitch_factor :: rat
  en_pending_pitch :: "rat option"
  en_hold :: bool
  en_jog_bend :: rat
  en_scratch_playing :: bool
  en_scratch_position :: "u32 option"
  en_scratch_command :: ae_scratch_command
  en_scratch_abort_seek :: "u32 option"
  en_scratch_started_paused :: bool
  en_scratch_return_paused :: bool
  en_scratch_origin_pos_ms :: u32
  en_capture_freeze :: bool
  en_scratch_ticks :: int
  en_master_tempo :: bool
  en_master_tempo_epoch :: u32
  en_session_generation :: u32
  en_peak :: u16
  en_channel_volume :: u16
  en_pregain :: u16
  en_eq :: "u16 list"
  en_filter_raw :: u16
  en_pfl :: bool
  en_beat_filter :: "u16 \<times> bool"
  en_beat_echo :: audio_delay_fx_config
  en_echo_buffer :: bool
  en_beat_flanger :: audio_flanger_fx_config
  en_flanger_buffer :: bool
  en_pad_fx :: audio_pad_fx_config

record audio_engine =
  ae_decks :: "audio_engine_state list"
  ae_crossfader :: u16
  ae_master_volume :: u16
  ae_headphone_mix :: u16
  ae_headphone_level :: u16
  ae_smart_cfx :: bool
  ae_smart_fader :: bool
  ae_master_cue :: bool
  ae_calls :: nat

record ae_env =
  ae_others :: "nat \<Rightarrow> audio_engine \<Rightarrow> audio_engine"
  ae_prebuffered :: "nat \<Rightarrow> bool"
  ae_scratch_window :: "nat \<Rightarrow> bool"
  ae_stopped :: "nat \<Rightarrow> esp_err"
  ae_sqrtf :: "rat \<Rightarrow> rat"
  ae_fused :: bool

text \<open>The other tasks run before a call; the call is one step.\<close>

definition ae_turn :: "ae_env \<Rightarrow> audio_engine \<Rightarrow> audio_engine" where
  "ae_turn env e = (ae_others env (ae_calls e) e)\<lparr>ae_calls := ae_calls e + 1\<rparr>"

definition ae_call :: "ae_env \<Rightarrow> (audio_engine, 'a) state \<Rightarrow> (audio_engine, 'a) state" where
  "ae_call env m = do { modify (ae_turn env); m }"

definition on_deck :: "nat \<Rightarrow> (audio_engine_state \<Rightarrow> audio_engine_state) \<Rightarrow> audio_engine \<Rightarrow> audio_engine" where
  "on_deck deck f e = e\<lparr>ae_decks := (ae_decks e)[deck := f (ae_decks e ! deck)]\<rparr>"

definition deck_is_valid :: "nat \<Rightarrow> bool" where
  "deck_is_valid deck \<longleftrightarrow> deck < AUDIO_ENGINE_DECK_COUNT"

section \<open>Transport\<close>

definition audio_engine_seek_for_deck_reason :: "nat \<Rightarrow> u32 \<Rightarrow> ae_seek_reason \<Rightarrow> (audio_engine, esp_err) state" where
  "audio_engine_seek_for_deck_reason deck position_ms reason = do {
     eng \<leftarrow> gets (\<lambda>e. ae_decks e ! deck);
     if \<not> en_loaded eng \<or> \<not> en_source eng then ret ESP_ERR_INVALID_STATE
     else do {
       modify (on_deck deck (\<lambda>eng. eng\<lparr>en_seek_target_ms := position_ms, en_seek_reason := reason, en_seek_requested := True, en_eof := False,
         en_playback_finished := False, en_output_base_ms := position_ms, en_output_frames_since_seek := 0, en_seek_base_ms := position_ms,
         en_frames_since_seek := 0\<rparr>));
       ret ESP_OK } }"

definition audio_engine_request_user_seek :: "nat \<Rightarrow> u32 \<Rightarrow> (audio_engine, esp_err) state" where
  "audio_engine_request_user_seek deck position_ms = do {
     eng \<leftarrow> gets (\<lambda>e. ae_decks e ! deck);
     if en_scratch_playing eng
     then do { modify (on_deck deck (\<lambda>eng. eng\<lparr>en_scratch_abort_seek := Some position_ms\<rparr>)); ret ESP_OK }
     else audio_engine_seek_for_deck_reason deck position_ms AE_SEEK_REASON_USER }"

definition audio_engine_deck_seek :: "ae_env \<Rightarrow> nat \<Rightarrow> u32 \<Rightarrow> (audio_engine, esp_err) state" where
  "audio_engine_deck_seek env deck position_ms = ae_call env (
     if \<not> deck_is_valid deck then ret ESP_ERR_INVALID_ARG else audio_engine_request_user_seek deck position_ms)"

definition audio_engine_play_for_deck :: "ae_env \<Rightarrow> nat \<Rightarrow> (audio_engine, esp_err) state" where
  "audio_engine_play_for_deck env deck = do {
     eng \<leftarrow> gets (\<lambda>e. ae_decks e ! deck);
     if \<not> en_loaded eng then ret ESP_ERR_INVALID_STATE
     else do {
       seek_rc \<leftarrow> (if en_playback_finished eng then audio_engine_seek_for_deck_reason deck 0 AE_SEEK_REASON_USER else ret ESP_OK);
       if seek_rc \<noteq> ESP_OK then ret seek_rc
       else do {
         n \<leftarrow> gets ae_calls;
         modify (on_deck deck (\<lambda>eng. eng\<lparr>en_start_waiting := \<not> ae_prebuffered env n, en_paused := False, en_playing := True\<rparr>));
         ret ESP_OK } } }"

definition audio_engine_deck_play :: "ae_env \<Rightarrow> nat \<Rightarrow> (audio_engine, esp_err) state" where
  "audio_engine_deck_play env deck = ae_call env (if \<not> deck_is_valid deck then ret ESP_ERR_INVALID_ARG else audio_engine_play_for_deck env deck)"

definition audio_engine_pause_for_deck :: "nat \<Rightarrow> (audio_engine, esp_err) state" where
  "audio_engine_pause_for_deck deck = do {
     eng \<leftarrow> gets (\<lambda>e. ae_decks e ! deck);
     if \<not> en_loaded eng then ret ESP_ERR_INVALID_STATE
     else do { modify (on_deck deck (\<lambda>eng. eng\<lparr>en_paused := True, en_playing := False, en_start_waiting := False\<rparr>)); ret ESP_OK } }"

definition audio_engine_deck_pause :: "ae_env \<Rightarrow> nat \<Rightarrow> (audio_engine, esp_err) state" where
  "audio_engine_deck_pause env deck = ae_call env (if \<not> deck_is_valid deck then ret ESP_ERR_INVALID_ARG else audio_engine_pause_for_deck deck)"

definition clear_scratch_playback_state :: "audio_engine_state \<Rightarrow> audio_engine_state" where
  "clear_scratch_playback_state eng = eng\<lparr>en_scratch_ticks := 0, en_scratch_command := AE_SCRATCH_COMMAND_REGRAB, en_scratch_playing := False,
     en_capture_freeze := False, en_scratch_abort_seek := None, en_scratch_started_paused := False, en_scratch_return_paused := False,
     en_pending_pitch := None\<rparr>"

definition audio_engine_reset_state :: "esp_err \<Rightarrow> audio_engine_state \<Rightarrow> audio_engine_state" where
  "audio_engine_reset_state err eng = (clear_scratch_playback_state eng)\<lparr>en_hold := False, en_start_waiting := False, en_loaded := False,
     en_loading := False, en_load_progress := 100, en_last_error := err, en_sample_rate := 0, en_playing := False, en_paused := False,
     en_eof := False, en_playback_finished := False, en_seek_target_ms := 0, en_seek_requested := False, en_seek_reason := AE_SEEK_REASON_USER,
     en_seek_base_ms := 0, en_frames_since_seek := 0, en_output_base_ms := 0, en_output_frames_since_seek := 0, en_loop_start_ms := 0,
     en_loop_end_ms := 0, en_loop_active := False, en_pitch_factor := 1\<rparr>"

text \<open>Joining the tasks of the session may time out; then the state is not reset.\<close>

definition audio_engine_stop_for_deck :: "ae_env \<Rightarrow> nat \<Rightarrow> (audio_engine, esp_err) state" where
  "audio_engine_stop_for_deck env deck = do {
     modify (on_deck deck (\<lambda>eng. eng\<lparr>en_playing := False, en_paused := False, en_playback_finished := False, en_start_waiting := False,
       en_loading := False, en_load_progress := 100\<rparr>));
     n \<leftarrow> gets ae_calls;
     if ae_stopped env n \<noteq> ESP_OK
     then do { modify (on_deck deck (\<lambda>eng. eng\<lparr>en_eof := False\<rparr>)); ret (ae_stopped env n) }
     else do { modify (on_deck deck (\<lambda>eng. audio_engine_reset_state ESP_OK (eng\<lparr>en_source := False\<rparr>))); ret ESP_OK } }"

definition lifecycle_advance_generation :: "nat \<Rightarrow> (audio_engine, u32) state" where
  "lifecycle_advance_generation deck = do {
     eng \<leftarrow> gets (\<lambda>e. ae_decks e ! deck);
     let next = en_session_generation eng + 1; next = (if next = 0 then 1 else next) in
     do { modify (on_deck deck (\<lambda>eng. eng\<lparr>en_session_generation := next\<rparr>)); ret next } }"

definition audio_engine_deck_stop :: "ae_env \<Rightarrow> nat \<Rightarrow> (audio_engine, esp_err) state" where
  "audio_engine_deck_stop env deck = ae_call env (
     if \<not> deck_is_valid deck then ret ESP_ERR_INVALID_ARG
     else do { g \<leftarrow> lifecycle_advance_generation deck; audio_engine_stop_for_deck env deck })"

definition position_of :: "audio_engine_state \<Rightarrow> u32" where
  "position_of eng =
     (if \<not> en_loaded eng \<or> en_sample_rate eng = 0 then en_output_base_ms eng
      else en_output_base_ms eng + ucast (en_output_frames_since_seek eng * 1000 div ucast (en_sample_rate eng)))"

definition audio_engine_position_ms_for_deck :: "audio_engine_state \<Rightarrow> u32" where
  "audio_engine_position_ms_for_deck eng =
     (case (if en_scratch_playing eng then en_scratch_position eng else None) of Some pos \<Rightarrow> pos | None \<Rightarrow> position_of eng)"

definition audio_engine_deck_position_ms :: "ae_env \<Rightarrow> nat \<Rightarrow> (audio_engine, u32) state" where
  "audio_engine_deck_position_ms env deck = ae_call env (
     if \<not> deck_is_valid deck then ret 0 else gets (\<lambda>e. audio_engine_position_ms_for_deck (ae_decks e ! deck)))"

definition audio_engine_deck_is_playing :: "ae_env \<Rightarrow> nat \<Rightarrow> (audio_engine, bool) state" where
  "audio_engine_deck_is_playing env deck = ae_call env (
     if \<not> deck_is_valid deck then ret False else gets (\<lambda>e. en_playing (ae_decks e ! deck) \<and> \<not> en_paused (ae_decks e ! deck)))"

definition engine_lifecycle_state :: "audio_engine_state \<Rightarrow> ae_state" where
  "engine_lifecycle_state eng =
     (if en_last_error eng \<noteq> ESP_OK then AE_ERROR else if \<not> en_loaded eng then AE_IDLE else if en_loading eng then AE_LOADING
      else if en_playing eng \<and> \<not> en_paused eng then AE_PLAYING else AE_READY)"

record audio_engine_deck_status =
  as_state :: ae_state
  as_load_progress :: u8
  as_last_error :: esp_err
  as_loaded :: bool
  as_playing :: bool
  as_position_ms :: u32

definition audio_engine_deck_get_status :: "ae_env \<Rightarrow> nat \<Rightarrow> (audio_engine, audio_engine_deck_status option) state" where
  "audio_engine_deck_get_status env deck = ae_call env (
     if \<not> deck_is_valid deck then ret None
     else gets (\<lambda>e. let eng = ae_decks e ! deck in Some
       \<lparr>as_state = engine_lifecycle_state eng, as_load_progress = en_load_progress eng, as_last_error = en_last_error eng, as_loaded = en_loaded eng,
        as_playing = (en_playing eng \<and> \<not> en_paused eng),
        as_position_ms = (if en_scratch_playing eng then audio_engine_position_ms_for_deck eng else position_of eng)\<rparr>))"

definition audio_engine_get_deck_peak :: "ae_env \<Rightarrow> nat \<Rightarrow> (audio_engine, u16) state" where
  "audio_engine_get_deck_peak env deck = ae_call env (
     if \<not> deck_is_valid deck then ret 0
     else do { peak \<leftarrow> gets (\<lambda>e. en_peak (ae_decks e ! deck)); modify (on_deck deck (\<lambda>eng. eng\<lparr>en_peak := 0\<rparr>)); ret peak })"

section \<open>Loops\<close>

definition audio_engine_deck_set_loop :: "ae_env \<Rightarrow> nat \<Rightarrow> u32 \<Rightarrow> u32 \<Rightarrow> (audio_engine, esp_err) state" where
  "audio_engine_deck_set_loop env deck start_ms end_ms = ae_call env (
     if \<not> deck_is_valid deck then ret ESP_ERR_INVALID_ARG
     else do { modify (on_deck deck (\<lambda>eng. eng\<lparr>en_loop_start_ms := start_ms, en_loop_end_ms := end_ms, en_loop_active := True\<rparr>)); ret ESP_OK })"

definition audio_engine_deck_clear_loop :: "ae_env \<Rightarrow> nat \<Rightarrow> (audio_engine, esp_err) state" where
  "audio_engine_deck_clear_loop env deck = ae_call env (
     if \<not> deck_is_valid deck then ret ESP_ERR_INVALID_ARG
     else do { modify (on_deck deck (\<lambda>eng. eng\<lparr>en_loop_active := False\<rparr>)); ret ESP_OK })"

definition audio_engine_deck_get_loop_state :: "ae_env \<Rightarrow> nat \<Rightarrow> (audio_engine, (bool \<times> u32 \<times> u32) option) state" where
  "audio_engine_deck_get_loop_state env deck = ae_call env (
     if \<not> deck_is_valid deck then ret None
     else gets (\<lambda>e. let eng = ae_decks e ! deck in Some (en_loop_active eng, en_loop_start_ms eng, en_loop_end_ms eng)))"

section \<open>Tempo and jog\<close>

definition audio_engine_set_pitch_percent_for_deck :: "nat \<Rightarrow> rat \<Rightarrow> (audio_engine, unit) state" where
  "audio_engine_set_pitch_percent_for_deck deck percent = do {
     eng \<leftarrow> gets (\<lambda>e. ae_decks e ! deck);
     let factor = f32 (1 + f32 (percent / 100));
         factor = (if factor < f32 (80 / 100) then f32 (80 / 100) else factor);
         factor = (if factor > f32 (120 / 100) then f32 (120 / 100) else factor) in
     if en_scratch_playing eng then modify (on_deck deck (\<lambda>eng. eng\<lparr>en_pending_pitch := Some factor\<rparr>))
     else modify (on_deck deck (\<lambda>eng. eng\<lparr>en_pitch_factor := factor\<rparr>)) }"

definition audio_engine_deck_set_pitch_percent :: "ae_env \<Rightarrow> nat \<Rightarrow> rat \<Rightarrow> (audio_engine, unit) state" where
  "audio_engine_deck_set_pitch_percent env deck percent = ae_call env (
     if \<not> deck_is_valid deck then ret () else audio_engine_set_pitch_percent_for_deck deck percent)"

definition audio_engine_deck_set_master_tempo :: "ae_env \<Rightarrow> nat \<Rightarrow> bool \<Rightarrow> (audio_engine, unit) state" where
  "audio_engine_deck_set_master_tempo env deck enabled = ae_call env (
     if \<not> deck_is_valid deck then ret ()
     else modify (on_deck deck (\<lambda>eng. eng\<lparr>en_master_tempo := enabled, en_master_tempo_epoch := en_master_tempo_epoch eng + 1\<rparr>)))"

definition jog_bend_add :: "nat \<Rightarrow> rat \<Rightarrow> (audio_engine, unit) state" where
  "jog_bend_add deck delta = modify (on_deck deck (\<lambda>eng.
     let bend = f32 (en_jog_bend eng + delta);
         bend = (if bend > AE_JOG_BEND_MAX then AE_JOG_BEND_MAX else bend);
         bend = (if bend < - AE_JOG_BEND_MAX then - AE_JOG_BEND_MAX else bend)
     in eng\<lparr>en_jog_bend := bend\<rparr>))"

definition audio_engine_deck_jog_nudge :: "ae_env \<Rightarrow> nat \<Rightarrow> int \<Rightarrow> (audio_engine, unit) state" where
  "audio_engine_deck_jog_nudge env deck delta = ae_call env (
     if \<not> deck_is_valid deck \<or> delta = 0 then ret () else jog_bend_add deck (f32 (of_int delta * AE_JOG_BEND_PER_TICK)))"

definition audio_engine_deck_set_hold :: "ae_env \<Rightarrow> nat \<Rightarrow> bool \<Rightarrow> (audio_engine, unit) state" where
  "audio_engine_deck_set_hold env deck held = ae_call env (
     if \<not> deck_is_valid deck then ret ()
     else do {
       cond (\<not> held) (modify (on_deck deck (\<lambda>eng. eng\<lparr>en_jog_bend := 0\<rparr>)));
       modify (on_deck deck (\<lambda>eng. eng\<lparr>en_hold := held\<rparr>)) })"

text \<open>
  Scratch begins on a loaded deck whose decoded window is usable (\<open>ae_scratch_window\<close>: the timeline exists, the cue pre-roll and the
  running capture batch finished in time, and the playhead lies inside the captured frames).
\<close>

definition audio_engine_deck_scratch_begin :: "ae_env \<Rightarrow> nat \<Rightarrow> (audio_engine, bool) state" where
  "audio_engine_deck_scratch_begin env deck = ae_call env (
     if \<not> deck_is_valid deck then ret False
     else do {
       eng \<leftarrow> gets (\<lambda>e. ae_decks e ! deck);
       n \<leftarrow> gets ae_calls;
       if en_scratch_playing eng
       then do { modify (on_deck deck (\<lambda>eng. eng\<lparr>en_scratch_command := AE_SCRATCH_COMMAND_REGRAB\<rparr>)); ret True }
       else if \<not> en_loaded eng \<or> en_sample_rate eng = 0 \<or> en_loading eng then ret False
       else if \<not> ae_scratch_window env n then do { modify (on_deck deck (\<lambda>eng. eng\<lparr>en_capture_freeze := False\<rparr>)); ret False }
       else do {
         modify (on_deck deck (\<lambda>eng. eng\<lparr>en_capture_freeze := True, en_scratch_started_paused := (\<not> en_playing eng \<or> en_paused eng),
           en_scratch_return_paused := False, en_scratch_origin_pos_ms := audio_engine_position_ms_for_deck eng, en_scratch_ticks := 0,
           en_scratch_command := AE_SCRATCH_COMMAND_REGRAB, en_scratch_playing := True\<rparr>));
         ret True } })"

definition audio_engine_deck_scratch_move :: "ae_env \<Rightarrow> nat \<Rightarrow> int \<Rightarrow> (audio_engine, unit) state" where
  "audio_engine_deck_scratch_move env deck delta = ae_call env (
     if \<not> deck_is_valid deck then ret () else modify (on_deck deck (\<lambda>eng. eng\<lparr>en_scratch_ticks := en_scratch_ticks eng + delta\<rparr>)))"

definition audio_engine_deck_scratch_end :: "ae_env \<Rightarrow> nat \<Rightarrow> (audio_engine, unit) state" where
  "audio_engine_deck_scratch_end env deck = ae_call env (
     if \<not> deck_is_valid deck then ret ()
     else do {
       eng \<leftarrow> gets (\<lambda>e. ae_decks e ! deck);
       if \<not> en_scratch_playing eng then ret ()
       else do {
         cond (en_scratch_started_paused eng) (modify (on_deck deck (\<lambda>eng. eng\<lparr>en_output_base_ms := en_scratch_origin_pos_ms eng,
           en_output_frames_since_seek := 0, en_scratch_return_paused := True\<rparr>)));
         cond (\<not> en_scratch_started_paused eng) (modify (on_deck deck (\<lambda>eng.
           case en_scratch_position eng of None \<Rightarrow> eng
           | Some target \<Rightarrow> eng\<lparr>en_output_base_ms := target, en_output_frames_since_seek := 0\<rparr>)));
         modify (on_deck deck (\<lambda>eng. eng\<lparr>en_scratch_command := AE_SCRATCH_COMMAND_RELEASE\<rparr>)) } })"

section \<open>Mixer\<close>

definition at_most :: "u16 \<Rightarrow> u16 \<Rightarrow> u16" where
  "at_most limit raw = (if raw > limit then limit else raw)"

definition audio_engine_set_channel_volume :: "ae_env \<Rightarrow> nat \<Rightarrow> u16 \<Rightarrow> (audio_engine, esp_err) state" where
  "audio_engine_set_channel_volume env deck raw_volume = ae_call env (
     if \<not> deck_is_valid deck then ret ESP_ERR_INVALID_ARG
     else do { modify (on_deck deck (\<lambda>eng. eng\<lparr>en_channel_volume := at_most AUDIO_MIXER_CONTROL_MAX raw_volume\<rparr>)); ret ESP_OK })"

definition audio_engine_set_crossfader :: "ae_env \<Rightarrow> u16 \<Rightarrow> (audio_engine, esp_err) state" where
  "audio_engine_set_crossfader env raw_crossfader = ae_call env (do {
     modify (\<lambda>e. e\<lparr>ae_crossfader := at_most AUDIO_MIXER_CONTROL_MAX raw_crossfader\<rparr>); ret ESP_OK })"

definition audio_engine_set_pregain :: "ae_env \<Rightarrow> nat \<Rightarrow> u16 \<Rightarrow> (audio_engine, esp_err) state" where
  "audio_engine_set_pregain env deck raw_pregain = ae_call env (
     if \<not> deck_is_valid deck then ret ESP_ERR_INVALID_ARG
     else do { modify (on_deck deck (\<lambda>eng. eng\<lparr>en_pregain := at_most AUDIO_MIXER_CONTROL_MAX raw_pregain\<rparr>)); ret ESP_OK })"

definition audio_engine_set_master_volume :: "ae_env \<Rightarrow> u16 \<Rightarrow> (audio_engine, esp_err) state" where
  "audio_engine_set_master_volume env raw_volume = ae_call env (do {
     modify (\<lambda>e. e\<lparr>ae_master_volume := at_most AUDIO_MIXER_CONTROL_MAX raw_volume\<rparr>); ret ESP_OK })"

definition audio_engine_set_headphone_mix :: "ae_env \<Rightarrow> u16 \<Rightarrow> (audio_engine, esp_err) state" where
  "audio_engine_set_headphone_mix env raw_mix = ae_call env (do {
     modify (\<lambda>e. e\<lparr>ae_headphone_mix := at_most AUDIO_MIXER_CONTROL_MAX raw_mix\<rparr>); ret ESP_OK })"

definition audio_engine_set_headphone_level :: "ae_env \<Rightarrow> u16 \<Rightarrow> (audio_engine, esp_err) state" where
  "audio_engine_set_headphone_level env raw_level = ae_call env (do {
     modify (\<lambda>e. e\<lparr>ae_headphone_level := at_most AUDIO_MIXER_CONTROL_MAX raw_level\<rparr>); ret ESP_OK })"

text \<open>\<open>audio_eq_set_band_raw\<close> clamps like the others; bands are numbered low, mid, high.\<close>

abbreviation (input) AUDIO_EQ_BAND_LOW :: nat where "AUDIO_EQ_BAND_LOW \<equiv> 0"
abbreviation (input) AUDIO_EQ_BAND_MID :: nat where "AUDIO_EQ_BAND_MID \<equiv> 1"
abbreviation (input) AUDIO_EQ_BAND_HIGH :: nat where "AUDIO_EQ_BAND_HIGH \<equiv> 2"

definition audio_engine_set_eq :: "ae_env \<Rightarrow> nat \<Rightarrow> nat \<Rightarrow> u16 \<Rightarrow> (audio_engine, esp_err) state" where
  "audio_engine_set_eq env deck band raw = ae_call env (
     if \<not> deck_is_valid deck \<or> band \<ge> AUDIO_EQ_BAND_COUNT then ret ESP_ERR_INVALID_ARG
     else do { modify (on_deck deck (\<lambda>eng. eng\<lparr>en_eq := (en_eq eng)[band := at_most AUDIO_MIXER_CONTROL_MAX raw]\<rparr>)); ret ESP_OK })"

definition audio_engine_set_filter :: "ae_env \<Rightarrow> nat \<Rightarrow> u16 \<Rightarrow> (audio_engine, esp_err) state" where
  "audio_engine_set_filter env deck raw_filter = ae_call env (
     if \<not> deck_is_valid deck then ret ESP_ERR_INVALID_ARG
     else do { modify (on_deck deck (\<lambda>eng. eng\<lparr>en_filter_raw := at_most AUDIO_MIXER_CONTROL_MAX raw_filter\<rparr>)); ret ESP_OK })"

definition audio_engine_toggle_pfl :: "ae_env \<Rightarrow> nat \<Rightarrow> (audio_engine, esp_err) state" where
  "audio_engine_toggle_pfl env deck = ae_call env (
     if \<not> deck_is_valid deck then ret ESP_ERR_INVALID_ARG
     else do { modify (on_deck deck (\<lambda>eng. eng\<lparr>en_pfl := \<not> en_pfl eng\<rparr>)); ret ESP_OK })"

definition audio_engine_get_pfl_enabled :: "ae_env \<Rightarrow> nat \<Rightarrow> (audio_engine, bool) state" where
  "audio_engine_get_pfl_enabled env deck = ae_call env (if \<not> deck_is_valid deck then ret False else gets (\<lambda>e. en_pfl (ae_decks e ! deck)))"

definition audio_engine_toggle_smart_cfx :: "ae_env \<Rightarrow> (audio_engine, esp_err) state" where
  "audio_engine_toggle_smart_cfx env = ae_call env (do { modify (\<lambda>e. e\<lparr>ae_smart_cfx := \<not> ae_smart_cfx e\<rparr>); ret ESP_OK })"

definition audio_engine_get_smart_cfx_enabled :: "ae_env \<Rightarrow> (audio_engine, bool) state" where
  "audio_engine_get_smart_cfx_enabled env = ae_call env (gets ae_smart_cfx)"

definition audio_engine_toggle_smart_fader :: "ae_env \<Rightarrow> (audio_engine, esp_err) state" where
  "audio_engine_toggle_smart_fader env = ae_call env (do { modify (\<lambda>e. e\<lparr>ae_smart_fader := \<not> ae_smart_fader e\<rparr>); ret ESP_OK })"

definition audio_engine_get_smart_fader_enabled :: "ae_env \<Rightarrow> (audio_engine, bool) state" where
  "audio_engine_get_smart_fader_enabled env = ae_call env (gets ae_smart_fader)"

definition audio_engine_toggle_master_cue :: "ae_env \<Rightarrow> (audio_engine, esp_err) state" where
  "audio_engine_toggle_master_cue env = ae_call env (do { modify (\<lambda>e. e\<lparr>ae_master_cue := \<not> ae_master_cue e\<rparr>); ret ESP_OK })"

definition audio_engine_get_master_cue_enabled :: "ae_env \<Rightarrow> (audio_engine, bool) state" where
  "audio_engine_get_master_cue_enabled env = ae_call env (gets ae_master_cue)"

section \<open>Effects\<close>

definition beat_fx_filter_raw_from_depth :: "u8 \<Rightarrow> u16" where
  "beat_fx_filter_raw_from_depth depth =
     (if depth = 0 then AUDIO_MIXER_CONTROL_CENTER
      else let sweep = ((ucast AUDIO_MIXER_CONTROL_CENTER :: u32) * ucast depth + 63) div 127;
               sweep = (if sweep > ucast AUDIO_MIXER_CONTROL_CENTER then ucast AUDIO_MIXER_CONTROL_CENTER else sweep)
      in ucast ((ucast AUDIO_MIXER_CONTROL_CENTER :: u32) - sweep))"

definition beat_fx_target_includes_deck :: "audio_engine_beat_fx_target \<Rightarrow> nat \<Rightarrow> bool" where
  "beat_fx_target_includes_deck target deck =
     (case target of AUDIO_ENGINE_BEAT_FX_TARGET_CH1 \<Rightarrow> deck = 0 | AUDIO_ENGINE_BEAT_FX_TARGET_CH2 \<Rightarrow> deck = 1
      | AUDIO_ENGINE_BEAT_FX_TARGET_BOTH \<Rightarrow> deck < AUDIO_ENGINE_DECK_COUNT)"

definition audio_engine_set_beat_fx_filter :: "ae_env \<Rightarrow> audio_engine_beat_fx_target \<Rightarrow> u8 \<Rightarrow> bool \<Rightarrow> (audio_engine, esp_err) state" where
  "audio_engine_set_beat_fx_filter env target depth enabled = ae_call env (
     let raw = beat_fx_filter_raw_from_depth depth; active = (enabled \<and> depth > 0) in do {
       for_each [0..<AUDIO_ENGINE_DECK_COUNT] (\<lambda>deck.
         let deck_enabled = (active \<and> beat_fx_target_includes_deck target deck)
         in modify (on_deck deck (\<lambda>eng. eng\<lparr>en_beat_filter := (if deck_enabled then raw else AUDIO_MIXER_CONTROL_CENTER, deck_enabled)\<rparr>)));
       ret ESP_OK })"

definition beat_fx_time_wet_from_depth :: "ae_env \<Rightarrow> u8 \<Rightarrow> u16" where
  "beat_fx_time_wet_from_depth env depth =
     (let depth = (if depth > 127 then 127 else depth); x = f32 (of_int (uint depth) / 127)
      in word_of_int (cut (madd (ae_fused env) 22938 (ae_sqrtf env x) (1 / 2))))"

definition beat_fx_echo_feedback_from_depth :: "ae_env \<Rightarrow> u8 \<Rightarrow> u16" where
  "beat_fx_echo_feedback_from_depth env depth =
     (let depth = (if depth > 127 then 127 else depth); x = f32 (of_int (uint depth) / 127)
      in word_of_int (cut (f32 (madd (ae_fused env) x (f32 (22282 - 6554)) 6554 + 1 / 2))))"

definition audio_engine_set_beat_fx_time_effect ::
  "ae_env \<Rightarrow> audio_engine_beat_fx_target \<Rightarrow> u8 \<Rightarrow> u32 \<Rightarrow> audio_delay_fx_mode \<Rightarrow> bool \<Rightarrow> (audio_engine, esp_err) state" where
  "audio_engine_set_beat_fx_time_effect env target depth delay_ms requested_mode enabled = ae_call env (
     let delay_ms = (if delay_ms = 0 then 1 else delay_ms);
         delay_ms = (if delay_ms > AUDIO_ENGINE_BEAT_FX_ECHO_MAX_DELAY_MS then AUDIO_ENGINE_BEAT_FX_ECHO_MAX_DELAY_MS else delay_ms);
         active = (enabled \<and> depth > 0) in do {
       for_each [0..<AUDIO_ENGINE_DECK_COUNT] (\<lambda>deck. modify (on_deck deck (\<lambda>eng.
         let deck_enabled = (active \<and> beat_fx_target_includes_deck target deck \<and> en_echo_buffer eng);
             mode = (if deck_enabled then requested_mode else dl_mode (en_beat_echo eng))
         in eng\<lparr>en_beat_echo := \<lparr>dl_enabled = deck_enabled, dl_mode = mode, dl_delay_ms = delay_ms, dl_wet_q15 = beat_fx_time_wet_from_depth env depth,
              dl_feedback_q15 = (if mode = AUDIO_DELAY_FX_MODE_ECHO then beat_fx_echo_feedback_from_depth env depth else 0)\<rparr>\<rparr>)));
       ret ESP_OK })"

definition audio_engine_set_beat_fx_echo :: "ae_env \<Rightarrow> audio_engine_beat_fx_target \<Rightarrow> u8 \<Rightarrow> u32 \<Rightarrow> bool \<Rightarrow> (audio_engine, esp_err) state" where
  "audio_engine_set_beat_fx_echo env target depth delay_ms enabled =
     audio_engine_set_beat_fx_time_effect env target depth delay_ms AUDIO_DELAY_FX_MODE_ECHO enabled"

definition audio_engine_set_beat_fx_delay :: "ae_env \<Rightarrow> audio_engine_beat_fx_target \<Rightarrow> u8 \<Rightarrow> u32 \<Rightarrow> bool \<Rightarrow> (audio_engine, esp_err) state" where
  "audio_engine_set_beat_fx_delay env target depth delay_ms enabled =
     audio_engine_set_beat_fx_time_effect env target depth delay_ms AUDIO_DELAY_FX_MODE_DELAY enabled"

definition beat_fx_flanger_depth_q15 :: "u8 \<Rightarrow> u16" where
  "beat_fx_flanger_depth_q15 depth =
     (let depth = (if depth > 127 then 127 else depth) in ucast ((ucast depth :: u32) * 32767 div 127))"

definition audio_engine_set_beat_fx_flanger :: "ae_env \<Rightarrow> audio_engine_beat_fx_target \<Rightarrow> u8 \<Rightarrow> u32 \<Rightarrow> bool \<Rightarrow> (audio_engine, esp_err) state" where
  "audio_engine_set_beat_fx_flanger env target depth period_ms enabled = ae_call env (
     let active = (enabled \<and> depth > 0) in do {
       for_each [0..<AUDIO_ENGINE_DECK_COUNT] (\<lambda>deck. modify (on_deck deck (\<lambda>eng.
         eng\<lparr>en_beat_flanger := \<lparr>fl_enabled = (active \<and> beat_fx_target_includes_deck target deck \<and> en_flanger_buffer eng),
           fl_period_ms = period_ms, fl_depth_q15 = beat_fx_flanger_depth_q15 depth\<rparr>\<rparr>)));
       ret ESP_OK })"

definition audio_engine_set_pad_fx :: "ae_env \<Rightarrow> nat \<Rightarrow> audio_pad_fx_mode \<Rightarrow> u8 \<Rightarrow> bool \<Rightarrow> (audio_engine, esp_err) state" where
  "audio_engine_set_pad_fx env deck mode pad active = ae_call env (
     if \<not> deck_is_valid deck then ret ESP_ERR_INVALID_ARG
     else do { modify (on_deck deck (\<lambda>eng. eng\<lparr>en_pad_fx := \<lparr>pf_mode = mode, pf_pad = pad, pf_active = active\<rparr>\<rparr>)); ret ESP_OK })"

end
