(* ===== verification/Beat_Grid.thy ===== *)
theory Beat_Grid
  imports Rekordbox_Anlz
begin

text \<open>
  Arithmetic on the beat grid of a track: beat jumps, loop lengths and phase alignment (\<open>beat_jump.c\<close>), and the search for the
  nearest beat of \<open>deck_core.c\<close>.  A metadata pointer is an option, as is the array of beats; \<open>int64_t\<close> values are integers.
\<close>

section \<open>Beats\<close>

definition grid :: "anlz_metadata option \<Rightarrow> (anlz_beat list \<times> nat) option" where
  "grid meta = (case meta of None \<Rightarrow> None | Some m \<Rightarrow>
     (case beats m of None \<Rightarrow> None | Some bs \<Rightarrow> if beat_count m = 0 then None else Some (bs, unat (beat_count m))))"

definition ms_apart :: "u32 \<Rightarrow> u32 \<Rightarrow> u32" where
  "ms_apart a b = (if b < a then a - b else b - a)"

function closest_from :: "anlz_beat list \<Rightarrow> nat \<Rightarrow> u32 \<Rightarrow> nat \<Rightarrow> u32 \<Rightarrow> nat \<Rightarrow> nat" where
  "closest_from bs n position_ms i min_diff closest_idx =
     (if i < n
      then let diff = ms_apart position_ms (time_ms (bs ! i))
           in if diff < min_diff then closest_from bs n position_ms (Suc i) diff i
              else closest_from bs n position_ms (Suc i) min_diff closest_idx
      else closest_idx)"

  by pat_completeness auto
termination by (relation "measure (\<lambda>(bs, n, p, i, m, c). n - i)") auto

declare closest_from.simps [simp del]

definition nearest_beat_index :: "u32 \<Rightarrow> anlz_metadata option \<Rightarrow> nat option" where
  "nearest_beat_index position_ms meta =
     (case grid meta of None \<Rightarrow> None | Some (bs, n) \<Rightarrow> Some (closest_from bs n position_ms 0 0xFFFFFFFF 0))"

definition safe_bpm :: "u16 \<Rightarrow> u16" where
  "safe_bpm bpm = (if bpm > 0 then bpm else 120)"

definition beat_jump_calculate_target_ms :: "u32 \<Rightarrow> u16 \<Rightarrow> int \<Rightarrow> anlz_metadata option \<Rightarrow> u32" where
  "beat_jump_calculate_target_ms position_ms bpm beat_shift meta =
     (case grid meta of
        Some (bs, n) \<Rightarrow>
          let target_idx = int (closest_from bs n position_ms 0 0xFFFFFFFF 0) + beat_shift;
              target_idx = (if target_idx < 0 then 0 else target_idx);
              target_idx = (if target_idx \<ge> int n then int n - 1 else target_idx)
          in time_ms (bs ! nat target_idx)
      | None \<Rightarrow>
          let beat_len_ms = 60000 div uint (safe_bpm bpm);
              target_ms = uint position_ms + beat_len_ms * beat_shift
          in if target_ms > 0 then word_of_int target_ms else 0)"

definition beat_len :: "u32 \<Rightarrow> anlz_metadata option \<Rightarrow> u32" where
  "beat_len position_ms meta =
     (case grid meta of
        Some (bs, n) \<Rightarrow>
          if n \<ge> 2
          then let closest_idx = closest_from bs n position_ms 0 0xFFFFFFFF 0
               in if closest_idx + 1 < n then time_ms (bs ! (closest_idx + 1)) - time_ms (bs ! closest_idx)
                  else time_ms (bs ! closest_idx) - time_ms (bs ! (closest_idx - 1))
          else 0
      | None \<Rightarrow> 0)"

definition beat_loop_calculate_duration_ms :: "u32 \<Rightarrow> u16 \<Rightarrow> u16 \<Rightarrow> u16 \<Rightarrow> anlz_metadata option \<Rightarrow> u32" where
  "beat_loop_calculate_duration_ms position_ms bpm beat_numerator beat_denominator meta =
     (let beat_len_ms = beat_len position_ms meta;
          beat_len_ms = (if beat_len_ms = 0 then 60000 div ucast (safe_bpm bpm) else beat_len_ms);
          numerator = (if beat_numerator > 0 then ucast beat_numerator else 1);
          denominator = (if beat_denominator > 0 then ucast beat_denominator else (1 :: u64));
          duration = (ucast beat_len_ms * numerator + denominator - 1) div denominator
      in if duration > 0 then ucast duration else 1)"

function phase_from :: "anlz_beat list \<Rightarrow> nat \<Rightarrow> u16 \<Rightarrow> int \<Rightarrow> u32 \<Rightarrow> nat \<Rightarrow> (u32 \<times> u32) option \<Rightarrow> (u32 \<times> u32) option" where
  "phase_from bs n target_phase reference_offset_ms target_position_ms i best =
     (if i < n
      then if beat_phase (bs ! i) \<noteq> target_phase then phase_from bs n target_phase reference_offset_ms target_position_ms (Suc i) best
           else let candidate_ms = uint (time_ms (bs ! i)) + reference_offset_ms;
                    beat_ms = (if candidate_ms < 0 then 0 else word_of_int candidate_ms);
                    diff = ms_apart target_position_ms beat_ms
                in phase_from bs n target_phase reference_offset_ms target_position_ms (Suc i)
                     (case best of None \<Rightarrow> Some (diff, beat_ms)
                      | Some (min_diff, best_ms) \<Rightarrow> if diff < min_diff then Some (diff, beat_ms) else best)
      else best)"

  by pat_completeness auto
termination by (relation "measure (\<lambda>(bs, n, ph, off, p, i, b). n - i)") auto

declare phase_from.simps [simp del]

definition beat_phase_align_target_ms :: "u32 \<Rightarrow> anlz_metadata option \<Rightarrow> u32 \<Rightarrow> anlz_metadata option \<Rightarrow> u32 option" where
  "beat_phase_align_target_ms target_position_ms target_meta reference_position_ms reference_meta =
     (case (grid target_meta, grid reference_meta) of
        (Some (tbs, tn), Some (rbs, rn)) \<Rightarrow>
          let reference_idx = closest_from rbs rn reference_position_ms 0 0xFFFFFFFF 0;
              target_phase = beat_phase (rbs ! reference_idx);
              reference_offset_ms = uint reference_position_ms - uint (time_ms (rbs ! reference_idx))
          in map_option snd (phase_from tbs tn target_phase reference_offset_ms target_position_ms 0 None)
      | _ \<Rightarrow> None)"

text \<open>The binary search of \<open>nearest_beat_ms\<close>: the first beat at or after the position.  \<open>lo\<close> and \<open>hi\<close> stay at 16 bits.\<close>

function first_at_or_after :: "anlz_beat list \<Rightarrow> u32 \<Rightarrow> nat \<Rightarrow> nat \<Rightarrow> nat" where
  "first_at_or_after bs position_ms lo hi =
     (if lo < hi
      then let mid = lo + (hi - lo) div 2
           in if time_ms (bs ! mid) < position_ms then first_at_or_after bs position_ms (mid + 1) hi
              else first_at_or_after bs position_ms lo mid
      else lo)"

  by pat_completeness auto
termination by (relation "measure (\<lambda>(bs, p, lo, hi). hi - lo)") auto

declare first_at_or_after.simps [simp del]

definition nearest_in_grid :: "anlz_beat list \<Rightarrow> nat \<Rightarrow> u32 \<Rightarrow> u32" where
  "nearest_in_grid bs n position_ms =
     (let lo = first_at_or_after bs position_ms 0 n
      in if lo = 0 then time_ms (bs ! 0)
         else if lo \<ge> n then time_ms (bs ! (n - 1))
         else let after_ms = time_ms (bs ! lo); before_ms = time_ms (bs ! (lo - 1));
                  after_delta = after_ms - position_ms; before_delta = position_ms - before_ms
              in if before_delta \<le> after_delta then before_ms else after_ms)"

section \<open>The closest beat\<close>

lemma ms_apart_int: "uint (ms_apart a b) = \<bar>uint a - uint b\<bar>"
  using uint_sub_lem [of a b] uint_sub_lem [of b a] by (auto simp: ms_apart_def word_less_def)

lemma word_max32: "(x :: u32) \<le> 0xFFFFFFFF"
  using unsigned_less [of x, where ?'a = nat] by (simp add: word_le_nat_alt)

lemma grid_mono:
  assumes "sorted (map time_ms (take n bs))" "n \<le> length bs" "i \<le> j" "j < n"
  shows "time_ms (bs ! i) \<le> time_ms (bs ! j)"
  using sorted_nth_mono [OF assms(1,3)] assms(2-4) by simp

lemma closest_from_spec:
  assumes "i \<le> n" "idx < n" "\<forall>j<i. min_diff \<le> ms_apart p (time_ms (bs ! j))"
    "min_diff = ms_apart p (time_ms (bs ! idx)) \<or> (min_diff = 0xFFFFFFFF \<and> idx = 0)"
  shows "closest_from bs n p i min_diff idx < n \<and>
    (\<forall>j<n. ms_apart p (time_ms (bs ! closest_from bs n p i min_diff idx)) \<le> ms_apart p (time_ms (bs ! j)))"
  using assms
proof (induction bs n p i min_diff idx rule: closest_from.induct)
  case (1 bs n p i min_diff idx)
  show ?case
  proof (cases "i < n")
    case True
    show ?thesis
    proof (cases "ms_apart p (time_ms (bs ! i)) < min_diff")
      case less: True
      have "closest_from bs n p (Suc i) (ms_apart p (time_ms (bs ! i))) i < n \<and>
        (\<forall>j<n. ms_apart p (time_ms (bs ! closest_from bs n p (Suc i) (ms_apart p (time_ms (bs ! i))) i)) \<le> ms_apart p (time_ms (bs ! j)))"
        by (rule "1.IH"(1) [OF True refl less]) (use True less "1.prems" in \<open>auto simp: less_Suc_eq dest: order.strict_trans2 intro: less_imp_le\<close>)
      then show ?thesis using True less by (simp add: closest_from.simps [of bs n p i min_diff idx])
    next
      case False
      have "closest_from bs n p (Suc i) min_diff idx < n \<and>
        (\<forall>j<n. ms_apart p (time_ms (bs ! closest_from bs n p (Suc i) min_diff idx)) \<le> ms_apart p (time_ms (bs ! j)))"
        by (rule "1.IH"(2) [OF True refl False]) (use True False "1.prems" in \<open>auto simp: less_Suc_eq not_less\<close>)
      then show ?thesis using True False by (simp add: closest_from.simps [of bs n p i min_diff idx])
    qed
  next
    case False
    then have r: "closest_from bs n p i min_diff idx = idx" by (simp add: closest_from.simps [of bs n p i min_diff idx])
    have "ms_apart p (time_ms (bs ! idx)) \<le> min_diff"
      using "1.prems"(4) word_max32 [of "ms_apart p (time_ms (bs ! idx))"] by auto
    then show ?thesis using False "1.prems" r by (auto intro: order.trans)
  qed
qed

lemma closest_beat:
  assumes "0 < n"
  shows "closest_from bs n p 0 0xFFFFFFFF 0 < n"
    "\<forall>j<n. ms_apart p (time_ms (bs ! closest_from bs n p 0 0xFFFFFFFF 0)) \<le> ms_apart p (time_ms (bs ! j))"
  using closest_from_spec [of 0 n 0 "0xFFFFFFFF" p bs] assms by auto

lemma first_at_or_after_spec:
  assumes "sorted (map time_ms (take n bs))" "hi \<le> n" "n \<le> length bs" "lo \<le> hi"
    "\<forall>j<lo. time_ms (bs ! j) < p" "\<forall>j. hi \<le> j \<and> j < n \<longrightarrow> p \<le> time_ms (bs ! j)"
  shows "lo \<le> first_at_or_after bs p lo hi \<and> first_at_or_after bs p lo hi \<le> hi \<and> (\<forall>j<first_at_or_after bs p lo hi. time_ms (bs ! j) < p) \<and>
    (\<forall>j. first_at_or_after bs p lo hi \<le> j \<and> j < n \<longrightarrow> p \<le> time_ms (bs ! j))"
  using assms
proof (induction bs p lo hi rule: first_at_or_after.induct)
  case (1 bs p lo hi)
  show ?case
  proof (cases "lo < hi")
    case True
    define mid where "mid = lo + (hi - lo) div 2"
    have mid: "lo \<le> mid" "mid < hi" using True by (auto simp: mid_def)
    have mono: "time_ms (bs ! i) \<le> time_ms (bs ! j)" if "i \<le> j" "j < n" for i j
      by (rule grid_mono [OF "1.prems"(1,3) that])
    show ?thesis
    proof (cases "time_ms (bs ! mid) < p")
      case less: True
      have "time_ms (bs ! j) < p" if "j < mid + 1" for j
        using mono [of j mid] that mid "1.prems"(2) less by (simp add: order.strict_trans1)
      have above: "\<forall>j. hi \<le> j \<and> j < n \<longrightarrow> p \<le> time_ms (bs ! j)" by (rule "1.prems"(6))
      from \<open>\<And>j. j < mid + 1 \<Longrightarrow> time_ms (bs ! j) < p\<close> have "mid + 1 \<le> first_at_or_after bs p (mid + 1) hi \<and> first_at_or_after bs p (mid + 1) hi \<le> hi \<and>
          (\<forall>j<first_at_or_after bs p (mid + 1) hi. time_ms (bs ! j) < p) \<and>
          (\<forall>j. first_at_or_after bs p (mid + 1) hi \<le> j \<and> j < n \<longrightarrow> p \<le> time_ms (bs ! j))"
        by (intro "1.IH"(1) [OF True mid_def less]) (use mid "1.prems" in auto)
      then show ?thesis using True less mid by (auto simp: first_at_or_after.simps [of bs p lo hi] mid_def)
    next
      case False
      have "p \<le> time_ms (bs ! j)" if "mid \<le> j" "j < n" for j
        using mono [of mid j] that False by (simp add: not_less)
      then have "lo \<le> first_at_or_after bs p lo mid \<and> first_at_or_after bs p lo mid \<le> mid \<and>
          (\<forall>j<first_at_or_after bs p lo mid. time_ms (bs ! j) < p) \<and>
          (\<forall>j. first_at_or_after bs p lo mid \<le> j \<and> j < n \<longrightarrow> p \<le> time_ms (bs ! j))"
        by (intro "1.IH"(2) [OF True mid_def False]) (use mid "1.prems" in auto)
      then show ?thesis using True False mid by (auto simp: first_at_or_after.simps [of bs p lo hi] mid_def)
    qed
  next
    case False
    then have "first_at_or_after bs p lo hi = lo" by (simp add: first_at_or_after.simps [of bs p lo hi])
    then show ?thesis using False "1.prems" by simp
  qed
qed

text \<open>On a grid whose times increase the search finds a beat as close as any.\<close>

lemma nearest_in_grid_closest:
  assumes "0 < n" "n \<le> length bs" "sorted (map time_ms (take n bs))"
  shows "\<exists>i<n. nearest_in_grid bs n p = time_ms (bs ! i) \<and> (\<forall>j<n. ms_apart p (time_ms (bs ! i)) \<le> ms_apart p (time_ms (bs ! j)))"
proof -
  define lo where "lo = first_at_or_after bs p 0 n"
  have lo: "lo \<le> n" "\<forall>j<lo. time_ms (bs ! j) < p" "\<forall>j. lo \<le> j \<and> j < n \<longrightarrow> p \<le> time_ms (bs ! j)"
    using first_at_or_after_spec [OF assms(3) order.refl assms(2), of 0 p] unfolding lo_def by fastforce+
  have mono: "time_ms (bs ! i) \<le> time_ms (bs ! j)" if "i \<le> j" "j < n" for i j
    by (rule grid_mono [OF assms(3,2) that])
  have after: "ms_apart p (time_ms (bs ! i)) \<le> ms_apart p (time_ms (bs ! j))" if "lo \<le> i" "i \<le> j" "j < n" for i j
    using mono [OF that(2,3)] lo(3) that by (auto simp: word_le_def ms_apart_int)
  have before: "ms_apart p (time_ms (bs ! i)) \<le> ms_apart p (time_ms (bs ! j))" if "i < lo" "j \<le> i" for i j
    using mono [OF that(2)] lo(1,2) that by (auto simp: word_le_def word_less_def ms_apart_int)
  consider "lo = 0" | "lo = n" "0 < lo" | "0 < lo" "lo < n" using lo(1) by linarith
  then show ?thesis
  proof cases
    case 1
    then show ?thesis using after [of 0] assms(1) by (intro exI [of _ 0]) (auto simp: nearest_in_grid_def lo_def [symmetric])
  next
    case 2
    then show ?thesis using before [of "n - 1"] assms(1)
      by (intro exI [of _ "n - 1"]) (auto simp: nearest_in_grid_def lo_def [symmetric])
  next
    case 3
    have d: "time_ms (bs ! lo) - p = ms_apart p (time_ms (bs ! lo))" "p - time_ms (bs ! (lo - 1)) = ms_apart p (time_ms (bs ! (lo - 1)))"
      using lo(2,3) 3 by (auto simp: ms_apart_def not_less)
    let ?i = "if ms_apart p (time_ms (bs ! (lo - 1))) \<le> ms_apart p (time_ms (bs ! lo)) then lo - 1 else lo"
    have n: "nearest_in_grid bs n p = time_ms (bs ! ?i)" using 3 d by (simp add: nearest_in_grid_def lo_def [symmetric] Let_def)
    have "ms_apart p (time_ms (bs ! ?i)) \<le> ms_apart p (time_ms (bs ! j))" if "j < n" for j
      using after [of lo j] before [of "lo - 1" j] 3 that by (cases "j < lo") (auto simp: not_le intro: order.trans less_imp_le)
    then show ?thesis using n 3 by (intro exI [of _ ?i]) auto
  qed
qed

text \<open>From a beat, a jump over beats that exist lands exactly, and the opposite jump returns.\<close>

lemma closest_on_beat:
  assumes "i < n" "n \<le> length bs" "sorted_wrt (<) (map time_ms (take n bs))"
  shows "closest_from bs n (time_ms (bs ! i)) 0 0xFFFFFFFF 0 = i"
proof -
  let ?c = "closest_from bs n (time_ms (bs ! i)) 0 0xFFFFFFFF 0"
  have c: "?c < n" "ms_apart (time_ms (bs ! i)) (time_ms (bs ! ?c)) \<le> ms_apart (time_ms (bs ! i)) (time_ms (bs ! i))"
    using closest_beat [of n, where bs = bs and p = "time_ms (bs ! i)"] assms(1) by auto
  have "ms_apart (time_ms (bs ! i)) (time_ms (bs ! i)) = 0" by (simp add: ms_apart_def)
  then have "time_ms (bs ! i) = time_ms (bs ! ?c)" using c(2) by (auto simp: ms_apart_def split: if_splits)
  moreover have "distinct (map time_ms (take n bs))" using assms(3) strict_sorted_iff by blast
  ultimately show ?thesis using c(1) assms(1,2) nth_eq_iff_index_eq [of "map time_ms (take n bs)" ?c i] by simp
qed

lemma beat_jump_exact:
  assumes "grid meta = Some (bs, n)" "n \<le> length bs" "sorted_wrt (<) (map time_ms (take n bs))" "i < n" "0 \<le> int i + k" "int i + k < int n"
  shows "beat_jump_calculate_target_ms (time_ms (bs ! i)) bpm k meta = time_ms (bs ! nat (int i + k))"
  using assms(1,5,6) closest_on_beat [OF assms(4,2,3)] by (simp add: beat_jump_calculate_target_ms_def Let_def)

lemma beat_jump_returns:
  assumes "grid meta = Some (bs, n)" "n \<le> length bs" "sorted_wrt (<) (map time_ms (take n bs))" "i < n" "0 \<le> int i + k" "int i + k < int n"
  shows "beat_jump_calculate_target_ms (beat_jump_calculate_target_ms (time_ms (bs ! i)) bpm k meta) bpm (- k) meta = time_ms (bs ! i)"
proof -
  have "nat (int i + k) < n" "int (nat (int i + k)) = int i + k" using assms(5,6) by auto
  then show ?thesis unfolding beat_jump_exact [OF assms]
    using beat_jump_exact [OF assms(1-3), of "nat (int i + k)" "- k" bpm] assms(4) by simp
qed

end
