(* ===== verification/Hot_Cues.thy ===== *)
theory Hot_Cues
  imports Step_Monad
begin

text \<open>
  The hot cues kept in flash for every track (\<open>hot_cue_store.c\<close>).  The non-volatile storage is a map from keys to byte strings: what
  has been set is visible at once, and survives for certain after a commit.  Every call of it may fail; the answers of the \<open>n\<close>-th call
  are parameters.
\<close>

section \<open>The storage\<close>

record nvs =
  nv_stored :: "string \<Rightarrow> u8 list option"
  nv_written :: "string \<Rightarrow> u8 list option"
  nv_calls :: nat

text \<open>A fault of a call, and whether what was not committed is kept when the handle is closed.\<close>

record nvs_env =
  nv_fault :: "nat \<Rightarrow> esp_err"
  nv_kept :: "nat \<Rightarrow> bool"

definition nvs_answer :: "nvs_env \<Rightarrow> (nvs, esp_err) state" where
  "nvs_answer env = do { n \<leftarrow> gets nv_calls; modify (\<lambda>s. s\<lparr>nv_calls := n + 1\<rparr>); ret (nv_fault env n) }"

definition nvs_open :: "nvs_env \<Rightarrow> (nvs, esp_err) state" where
  "nvs_open env = do { rc \<leftarrow> nvs_answer env; modify (\<lambda>s. s\<lparr>nv_written := nv_stored s\<rparr>); ret rc }"

definition nvs_get_blob :: "nvs_env \<Rightarrow> string \<Rightarrow> nat \<Rightarrow> (nvs, esp_err \<times> u8 list) state" where
  "nvs_get_blob env key len = do {
     rc \<leftarrow> nvs_answer env;
     v \<leftarrow> gets (\<lambda>s. nv_written s key);
     ret (if rc \<noteq> ESP_OK then (rc, [])
          else case v of None \<Rightarrow> (ESP_ERR_NVS_NOT_FOUND, [])
          | Some bytes \<Rightarrow> if length bytes > len then (ESP_ERR_INVALID_SIZE, []) else (ESP_OK, bytes)) }"

definition nvs_set_blob :: "nvs_env \<Rightarrow> string \<Rightarrow> u8 list \<Rightarrow> (nvs, esp_err) state" where
  "nvs_set_blob env key bytes = do {
     rc \<leftarrow> nvs_answer env;
     cond (rc = ESP_OK) (modify (\<lambda>s. s\<lparr>nv_written := (nv_written s)(key \<mapsto> bytes)\<rparr>));
     ret rc }"

definition nvs_erase_key :: "nvs_env \<Rightarrow> string \<Rightarrow> (nvs, esp_err) state" where
  "nvs_erase_key env key = do {
     rc \<leftarrow> nvs_answer env;
     v \<leftarrow> gets (\<lambda>s. nv_written s key);
     if rc \<noteq> ESP_OK then ret rc
     else if v = None then ret ESP_ERR_NVS_NOT_FOUND
     else do { modify (\<lambda>s. s\<lparr>nv_written := (nv_written s)(key := None)\<rparr>); ret ESP_OK } }"

definition nvs_commit :: "nvs_env \<Rightarrow> (nvs, esp_err) state" where
  "nvs_commit env = do {
     rc \<leftarrow> nvs_answer env;
     cond (rc = ESP_OK) (modify (\<lambda>s. s\<lparr>nv_stored := nv_written s\<rparr>));
     ret rc }"

definition nvs_close :: "nvs_env \<Rightarrow> (nvs, unit) state" where
  "nvs_close env = do {
     n \<leftarrow> gets nv_calls;
     modify (\<lambda>s. s\<lparr>nv_calls := n + 1, nv_stored := (if nv_kept env n then nv_written s else nv_stored s)\<rparr>) }"

section \<open>Cues\<close>

abbreviation (input) HOT_CUE_STORE_SLOT_COUNT :: nat where "HOT_CUE_STORE_SLOT_COUNT \<equiv> 8"
abbreviation (input) HOT_CUE_STORE_TYPE_SINGLE :: u8 where "HOT_CUE_STORE_TYPE_SINGLE \<equiv> 1"
abbreviation (input) HOT_CUE_STORE_TYPE_LOOP :: u8 where "HOT_CUE_STORE_TYPE_LOOP \<equiv> 2"
abbreviation (input) HOT_CUE_STORE_VERSION :: u32 where "HOT_CUE_STORE_VERSION \<equiv> 1"
abbreviation (input) HOT_CUE_SLOT_SIZE :: nat where "HOT_CUE_SLOT_SIZE \<equiv> 12"
abbreviation (input) HOT_CUE_BLOB_SIZE :: nat where "HOT_CUE_BLOB_SIZE \<equiv> 104"

record hot_cue_store_slot =
  hc_pos_ms :: u32
  hc_end_ms :: u32
  hc_type :: u8
  hc_reserved :: "u8 list"

record hot_cue_store_blob =
  hc_version :: u32
  hc_valid_mask :: u32
  hc_slots :: "hot_cue_store_slot list"

definition zero_slot :: hot_cue_store_slot where
  "zero_slot = \<lparr>hc_pos_ms = 0, hc_end_ms = 0, hc_type = 0, hc_reserved = replicate 3 0\<rparr>"

definition zero_blob :: hot_cue_store_blob where
  "zero_blob = \<lparr>hc_version = 0, hc_valid_mask = 0, hc_slots = replicate HOT_CUE_STORE_SLOT_COUNT zero_slot\<rparr>"

text \<open>The bytes of the C structures.\<close>

definition slot_bytes :: "hot_cue_store_slot \<Rightarrow> u8 list" where
  "slot_bytes s = wr_u32 (hc_pos_ms s) @ wr_u32 (hc_end_ms s) @ hc_type s # hc_reserved s"

definition blob_bytes :: "hot_cue_store_blob \<Rightarrow> u8 list" where
  "blob_bytes b = wr_u32 (hc_version b) @ wr_u32 (hc_valid_mask b) @ concat (map slot_bytes (hc_slots b))"

definition slot_at :: "u8 list \<Rightarrow> nat \<Rightarrow> hot_cue_store_slot" where
  "slot_at p i = \<lparr>hc_pos_ms = rd_u32 p i, hc_end_ms = rd_u32 p (i + 4), hc_type = p ! (i + 8), hc_reserved = take 3 (drop (i + 9) p)\<rparr>"

definition blob_at :: "u8 list \<Rightarrow> hot_cue_store_blob" where
  "blob_at p = \<lparr>hc_version = rd_u32 p 0, hc_valid_mask = rd_u32 p 4,
     hc_slots = map (\<lambda>i. slot_at p (8 + HOT_CUE_SLOT_SIZE * i)) [0..<HOT_CUE_STORE_SLOT_COUNT]\<rparr>"

text \<open>\<open>"hc%08lx"\<close>\<close>

definition hex_char :: "u32 \<Rightarrow> char" where
  "hex_char d = ''0123456789abcdef'' ! unat (d AND 0xF)"

definition make_key :: "u32 \<Rightarrow> string" where
  "make_key track_key = ''hc'' @ map (\<lambda>i. hex_char (drop_bit (4 * (7 - i)) track_key)) [0..<8]"

definition normalize_slot :: "u32 \<Rightarrow> nat \<Rightarrow> hot_cue_store_slot \<Rightarrow> hot_cue_store_slot" where
  "normalize_slot valid_mask i slot =
     (if \<not> bit valid_mask i then zero_slot
      else if hc_type slot \<noteq> HOT_CUE_STORE_TYPE_LOOP then slot\<lparr>hc_type := HOT_CUE_STORE_TYPE_SINGLE, hc_end_ms := 0\<rparr>
      else slot)"

definition normalize_blob :: "hot_cue_store_blob \<Rightarrow> hot_cue_store_blob" where
  "normalize_blob blob =
     (let cue_mask = hc_valid_mask blob AND 0xFF
      in \<lparr>hc_version = HOT_CUE_STORE_VERSION, hc_valid_mask = cue_mask,
          hc_slots = map (\<lambda>i. normalize_slot cue_mask i (hc_slots blob ! i)) [0..<HOT_CUE_STORE_SLOT_COUNT]\<rparr>)"

text \<open>A load answers \<open>Inr\<close> the cues or \<open>Inl\<close> the error; on an error the caller's structure is not used.\<close>

definition not_found :: "esp_err \<Rightarrow> esp_err" where
  "not_found rc = (if rc = ESP_ERR_NVS_NOT_FOUND then ESP_ERR_NOT_FOUND else rc)"

definition hot_cue_store_load :: "nvs_env \<Rightarrow> u32 \<Rightarrow> (nvs, esp_err + hot_cue_store_blob) state" where
  "hot_cue_store_load env track_key =
     (if track_key = 0 then ret (Inl ESP_ERR_INVALID_ARG)
      else do {
        rc \<leftarrow> nvs_open env;
        if rc \<noteq> ESP_OK then ret (Inl (not_found rc))
        else do {
          (rc, bytes) \<leftarrow> nvs_get_blob env (make_key track_key) HOT_CUE_BLOB_SIZE;
          nvs_close env;
          ret (if rc \<noteq> ESP_OK then Inl (not_found rc)
               else if length bytes \<noteq> HOT_CUE_BLOB_SIZE \<or> hc_version (blob_at bytes) \<noteq> HOT_CUE_STORE_VERSION then Inl ESP_ERR_INVALID_SIZE
               else Inr (normalize_blob (blob_at bytes))) } })"

definition hot_cue_store_save :: "nvs_env \<Rightarrow> u32 \<Rightarrow> hot_cue_store_blob \<Rightarrow> (nvs, esp_err) state" where
  "hot_cue_store_save env track_key blob =
     (if track_key = 0 then ret ESP_ERR_INVALID_ARG
      else do {
        rc \<leftarrow> nvs_open env;
        if rc \<noteq> ESP_OK then ret rc
        else do {
          rc \<leftarrow> nvs_set_blob env (make_key track_key) (blob_bytes (normalize_blob blob));
          rc \<leftarrow> (if rc = ESP_OK then nvs_commit env else ret rc);
          nvs_close env;
          ret rc } })"

definition hot_cue_store_clear :: "nvs_env \<Rightarrow> u32 \<Rightarrow> (nvs, esp_err) state" where
  "hot_cue_store_clear env track_key =
     (if track_key = 0 then ret ESP_ERR_INVALID_ARG
      else do {
        rc \<leftarrow> nvs_open env;
        if rc \<noteq> ESP_OK then ret rc
        else do {
          rc \<leftarrow> nvs_erase_key env (make_key track_key);
          let rc = (if rc = ESP_ERR_NVS_NOT_FOUND then ESP_OK else rc);
          rc \<leftarrow> (if rc = ESP_OK then nvs_commit env else ret rc);
          nvs_close env;
          ret rc } })"

section \<open>What is saved is loaded\<close>

definition blob_ok :: "hot_cue_store_blob \<Rightarrow> bool" where
  "blob_ok b \<longleftrightarrow> length (hc_slots b) = HOT_CUE_STORE_SLOT_COUNT \<and> list_all (\<lambda>s. length (hc_reserved s) = 3) (hc_slots b)"

lemma normalize_ok: "blob_ok b \<Longrightarrow> blob_ok (normalize_blob b)"
  by (auto simp: blob_ok_def normalize_blob_def normalize_slot_def zero_slot_def list_all_length Let_def)

lemma slot_bytes_length: "length (hc_reserved s) = 3 \<Longrightarrow> length (slot_bytes s) = HOT_CUE_SLOT_SIZE"
  by (simp add: slot_bytes_def)

lemma rd_u32_mid: "i = length xs \<Longrightarrow> rd_u32 (xs @ wr_u32 v @ ys) i = v"
  by (rule rd_u32_wr)

lemma slot_read:
  assumes "length (hc_reserved s) = 3" "i = length xs"
  shows "slot_at (xs @ slot_bytes s @ ys) i = s"
proof -
  have "rd_u32 (xs @ slot_bytes s @ ys) i = hc_pos_ms s"
    using rd_u32_wr [OF assms(2)] by (simp add: slot_bytes_def)
  moreover have "rd_u32 (xs @ slot_bytes s @ ys) (i + 4) = hc_end_ms s"
    using rd_u32_wr [of "i + 4" "xs @ wr_u32 (hc_pos_ms s)" "hc_end_ms s"] assms(2) by (simp add: slot_bytes_def)
  ultimately show ?thesis
    using assms by (simp add: slot_at_def slot_bytes_def nth_append)
qed

lemma slots_length: "list_all (\<lambda>s. length (hc_reserved s) = 3) ss \<Longrightarrow> length (concat (map slot_bytes ss)) = HOT_CUE_SLOT_SIZE * length ss"
  by (induction ss) (simp_all add: slot_bytes_length)

lemma slots_read:
  assumes "list_all (\<lambda>s. length (hc_reserved s) = 3) ss" "i < length ss" "length xs = 8"
  shows "slot_at (xs @ concat (map slot_bytes ss)) (8 + HOT_CUE_SLOT_SIZE * i) = ss ! i"
proof -
  have split: "concat (map slot_bytes ss) = concat (map slot_bytes (take i ss)) @ slot_bytes (ss ! i) @ concat (map slot_bytes (drop (Suc i) ss))"
    using id_take_nth_drop [OF assms(2)] by (metis append.assoc append_Cons append_Nil concat.simps(2) concat_append list.simps(9) map_append)
  have "list_all (\<lambda>s. length (hc_reserved s) = 3) (take i ss)" using assms(1) by (auto simp: list_all_iff dest: in_set_takeD)
  from slots_length [OF this] assms(2,3)
  have len: "8 + HOT_CUE_SLOT_SIZE * i = length (xs @ concat (map slot_bytes (take i ss)))" by simp
  have "length (hc_reserved (ss ! i)) = 3" using assms(1,2) by (simp add: list_all_length)
  from slot_read [OF this len] show ?thesis unfolding split by simp
qed

lemma blob_read:
  assumes "blob_ok b"
  shows "length (blob_bytes b) = HOT_CUE_BLOB_SIZE" "blob_at (blob_bytes b) = b"
proof -
  let ?h = "wr_u32 (hc_version b) @ wr_u32 (hc_valid_mask b)"
  have b: "length (hc_slots b) = HOT_CUE_STORE_SLOT_COUNT" "list_all (\<lambda>s. length (hc_reserved s) = 3) (hc_slots b)"
    using assms by (auto simp: blob_ok_def)
  show "length (blob_bytes b) = HOT_CUE_BLOB_SIZE" using slots_length [OF b(2)] b(1) by (simp add: blob_bytes_def)
  have "map (\<lambda>i. slot_at (blob_bytes b) (8 + HOT_CUE_SLOT_SIZE * i)) [0..<HOT_CUE_STORE_SLOT_COUNT] = map ((!) (hc_slots b)) [0..<HOT_CUE_STORE_SLOT_COUNT]"
    using slots_read [OF b(2), of _ ?h] b(1) by (intro map_cong) (simp_all add: blob_bytes_def)
  also have "\<dots> = hc_slots b" using map_nth [of "hc_slots b"] b(1) by simp
  finally show "blob_at (blob_bytes b) = b"
    using rd_u32_wr [of 0 "[]" "hc_version b"] rd_u32_wr [of 4 "wr_u32 (hc_version b)" "hc_valid_mask b"]
    by (simp add: blob_at_def blob_bytes_def)
qed

lemma normalize_twice: "normalize_blob (normalize_blob b) = normalize_blob b"
  by (auto simp: normalize_blob_def normalize_slot_def Let_def word_bw_assocs)

lemma normalize_version: "hc_version (normalize_blob b) = HOT_CUE_STORE_VERSION"
  by (simp add: normalize_blob_def Let_def)

lemma hex_char_inj: "hex_char a = hex_char b \<Longrightarrow> a AND 0xF = b AND 0xF"
proof -
  assume "hex_char a = hex_char b"
  moreover have "unat (a AND 0xF) < 16" "unat (b AND 0xF) < 16"
    using word_and_le1 [of a "0xF"] word_and_le1 [of b "0xF"] by (simp_all add: word_le_nat_alt)
  moreover have "distinct ''0123456789abcdef''" "length ''0123456789abcdef'' = 16" by simp_all
  ultimately have "unat (a AND 0xF) = unat (b AND 0xF)"
    unfolding hex_char_def by (metis nth_eq_iff_index_eq)
  then show ?thesis by (rule unsigned_word_eqI)
qed

text \<open>Tracks do not share a key.\<close>

lemma make_key_inj: "make_key a = make_key b \<longleftrightarrow> a = b"
proof
  assume "make_key a = make_key b"
  then have d: "drop_bit (4 * k) a AND 0xF = drop_bit (4 * k) b AND 0xF" if "k < 8" for k
    using that hex_char_inj [of "drop_bit (4 * k) a" "drop_bit (4 * k) b"]
    by (auto simp: make_key_def dest!: bspec [of _ _ "7 - k"])
  have m: "(0xF :: u32) = mask 4" by (simp add: mask_eq_exp_minus_1)
  show "a = b"
  proof (rule bit_word_eqI)
    fix n assume "n < LENGTH(32)"
    then have n: "n div 4 < 8" "4 * (n div 4) + n mod 4 = n" "n mod 4 < 4" by auto
    have "bit (drop_bit (4 * (n div 4)) a AND 0xF) (n mod 4) = bit (drop_bit (4 * (n div 4)) b AND 0xF) (n mod 4)" using d [OF n(1)] by simp
    then show "bit a n = bit b n" using n unfolding m by (simp add: bit_simps)
  qed
qed simp

definition stored_cues :: "nvs \<Rightarrow> u32 \<Rightarrow> hot_cue_store_blob option" where
  "stored_cues s track_key =
     (case nv_stored s (make_key track_key) of None \<Rightarrow> None
      | Some bytes \<Rightarrow> if length bytes = HOT_CUE_BLOB_SIZE \<and> hc_version (blob_at bytes) = HOT_CUE_STORE_VERSION
                      then Some (normalize_blob (blob_at bytes)) else None)"

lemma save_stores:
  assumes "blob_ok b" "eval (hot_cue_store_save env track_key b) s = ESP_OK"
  shows "stored_cues (exec (hot_cue_store_save env track_key b) s) k = (if k = track_key then Some (normalize_blob b) else stored_cues s k)"
  using assms(2) blob_read [OF normalize_ok [OF assms(1)]]
  by (auto simp: hot_cue_store_save_def nvs_open_def nvs_answer_def nvs_set_blob_def nvs_commit_def nvs_close_def stored_cues_def make_key_inj
      normalize_twice normalize_version split: if_splits)

lemma load_stored:
  assumes "eval (hot_cue_store_load env track_key) s = Inr b"
  shows "stored_cues s track_key = Some b"
  using assms
  by (auto simp: hot_cue_store_load_def nvs_open_def nvs_answer_def nvs_get_blob_def nvs_close_def stored_cues_def split: if_splits option.splits)

lemma load_keeps: "stored_cues (exec (hot_cue_store_load env track_key) s) k = stored_cues s k"
  by (auto simp: hot_cue_store_load_def nvs_open_def nvs_answer_def nvs_get_blob_def nvs_close_def stored_cues_def split: if_splits option.splits prod.splits)

end
