(* ===== verification/Led_Snapshot.thy ===== *)
theory Led_Snapshot
  imports Step_Monad Control_Ids
begin

text \<open>
  The lights of the controller as a function of the state of the decks, and the publisher that sends the differences
  (\<open>flx4_led_snapshot.c\<close>).  The function that sends a light is a parameter, as in the code.
\<close>

abbreviation (input) FLX4_LED_SNAPSHOT_COUNT :: nat where "FLX4_LED_SNAPSHOT_COUNT \<equiv> 51"

record led_deck_input =
  li_cue :: u8
  li_play :: u8
  li_pfl :: u8
  li_sync :: u8
  li_pad_mode :: u8
  li_loop_in_marker :: u8
  li_loop_active :: u8
  li_loop_start_ms :: u32
  li_loop_end_ms :: u32
  li_beat_loop_pad_active :: u8
  li_beat_loop_active_pad :: u8
  li_hot_cue_exists_mask :: u8
  li_pad_fx_active :: u8
  li_pad_fx_active_mode :: u8
  li_pad_fx_active_pad :: u8
  li_censor_active :: u8

record flx4_led_snapshot_input =
  li_decks :: "led_deck_input list"
  li_smart_cfx :: u8
  li_smart_fader :: u8
  li_beat_fx_on :: u8
  li_master_cue :: u8

record flx4_led_publisher =
  pb_last :: "u8 list list"
  pb_valid :: "bool list list"

definition s_led_ids :: "u8 list" where
  "s_led_ids = [LED_CUE, LED_PLAY, LED_PFL, LED_SYNC, LED_PAD_MODE_HOT_CUE, LED_PAD_MODE_KEYBOARD, LED_PAD_MODE_PAD_FX1, LED_PAD_MODE_PAD_FX2,
     LED_PAD_MODE_BEAT_JUMP, LED_PAD_MODE_BEAT_LOOP, LED_PAD_MODE_SAMPLER, LED_PAD_MODE_KEY_SHIFT, LED_LOOP_IN, LED_LOOP_OUT,
     LED_BEAT_LOOP_PAD_1, LED_BEAT_LOOP_PAD_2, LED_BEAT_LOOP_PAD_3, LED_BEAT_LOOP_PAD_4,
     LED_BEAT_LOOP_PAD_5, LED_BEAT_LOOP_PAD_6, LED_BEAT_LOOP_PAD_7, LED_BEAT_LOOP_PAD_8,
     LED_PAD_FX1_PAD_1, LED_PAD_FX1_PAD_2, LED_PAD_FX1_PAD_3, LED_PAD_FX1_PAD_4, LED_PAD_FX1_PAD_5, LED_PAD_FX1_PAD_6, LED_PAD_FX1_PAD_7, LED_PAD_FX1_PAD_8,
     LED_PAD_FX2_PAD_1, LED_PAD_FX2_PAD_2, LED_PAD_FX2_PAD_3, LED_PAD_FX2_PAD_4, LED_PAD_FX2_PAD_5, LED_PAD_FX2_PAD_6, LED_PAD_FX2_PAD_7, LED_PAD_FX2_PAD_8,
     LED_SMART_CFX, LED_SMART_FADER, LED_BEAT_FX_ON, LED_MASTER_CUE,
     LED_HOT_CUE_PAD_1, LED_HOT_CUE_PAD_2, LED_HOT_CUE_PAD_3, LED_HOT_CUE_PAD_4, LED_HOT_CUE_PAD_5, LED_HOT_CUE_PAD_6, LED_HOT_CUE_PAD_7, LED_HOT_CUE_PAD_8,
     LED_CENSOR]"

definition s_pad_modes :: "u8 list" where
  "s_pad_modes = [CTRL_PAD_MODE_HOT_CUE, 0xFF, CTRL_PAD_MODE_PAD_FX1, CTRL_PAD_MODE_PAD_FX2, CTRL_PAD_MODE_BEAT_JUMP, CTRL_PAD_MODE_BEAT_LOOP, 0xFF, 0xFF]"

definition beat_loop_pad_value :: "led_deck_input \<Rightarrow> u8 \<Rightarrow> u8" where
  "beat_loop_pad_value d pad =
     (if li_pad_mode d \<noteq> CTRL_PAD_MODE_BEAT_LOOP \<or> li_loop_active d = 0 \<or> li_beat_loop_pad_active d = 0 \<or> li_beat_loop_active_pad d \<noteq> pad \<or> pad \<ge> 8
      then 0 else 1)"

definition pad_fx_pad_value :: "led_deck_input \<Rightarrow> u8 \<Rightarrow> u8 \<Rightarrow> u8" where
  "pad_fx_pad_value d mode pad =
     (if li_pad_fx_active d = 0 \<or> li_pad_fx_active_mode d \<noteq> mode \<or> li_pad_fx_active_pad d \<noteq> pad \<or> li_pad_mode d \<noteq> mode \<or> pad \<ge> 8 then 0 else 1)"

definition hot_cue_pad_value :: "led_deck_input \<Rightarrow> u8 \<Rightarrow> u8" where
  "hot_cue_pad_value d pad =
     (if li_pad_mode d \<noteq> CTRL_PAD_MODE_HOT_CUE \<or> pad \<ge> 8 then 0
      else if li_hot_cue_exists_mask d AND push_bit (unat pad) 1 \<noteq> 0 then 1 else 0)"

definition snapshot_value :: "flx4_led_snapshot_input \<Rightarrow> nat \<Rightarrow> nat \<Rightarrow> u8" where
  "snapshot_value input deck index =
     (let d = li_decks input ! deck in
      if index = 0 then li_cue d
      else if index = 1 then li_play d
      else if index = 2 then li_pfl d
      else if index = 3 then li_sync d
      else if index = 12 then (if li_loop_in_marker d \<noteq> 0 \<or> li_loop_active d \<noteq> 0 then 1 else 0)
      else if index = 13 then li_loop_active d
      else if 14 \<le> index \<and> index \<le> 21 then beat_loop_pad_value d (of_nat (index - 14))
      else if 22 \<le> index \<and> index \<le> 29 then pad_fx_pad_value d CTRL_PAD_MODE_PAD_FX1 (of_nat (index - 22))
      else if 30 \<le> index \<and> index \<le> 37 then pad_fx_pad_value d CTRL_PAD_MODE_PAD_FX2 (of_nat (index - 30))
      else if index = 38 then li_smart_cfx input
      else if index = 39 then li_smart_fader input
      else if index = 40 then li_beat_fx_on input
      else if index = 41 then li_master_cue input
      else if 42 \<le> index \<and> index \<le> 49 then hot_cue_pad_value d (of_nat (index - 42))
      else if index = 50 then (if li_censor_active d \<noteq> 0 then 1 else 0)
      else if index < 4 \<or> index - 4 \<ge> 8 then 0
      else if li_pad_mode d = s_pad_modes ! (index - 4) then 1 else 0)"

definition flx4_led_publisher_init :: flx4_led_publisher where
  "flx4_led_publisher_init =
     \<lparr>pb_last = replicate 2 (replicate FLX4_LED_SNAPSHOT_COUNT 0), pb_valid = replicate 2 (replicate FLX4_LED_SNAPSHOT_COUNT False)\<rparr>"

text \<open>The lights of the pass: deck by deck, and those of the whole controller with the first deck only.\<close>

definition shared_led :: "u8 \<Rightarrow> bool" where
  "shared_led led \<longleftrightarrow> led = LED_SMART_CFX \<or> led = LED_SMART_FADER \<or> led = LED_BEAT_FX_ON \<or> led = LED_MASTER_CUE"

definition published_lights :: "(nat \<times> nat) list" where
  "published_lights = filter (\<lambda>(deck, index). \<not> (deck = 1 \<and> shared_led (s_led_ids ! index)))
     (List.product [0..<2] [0..<FLX4_LED_SNAPSHOT_COUNT])"

definition cached_value :: "flx4_led_publisher \<Rightarrow> nat \<Rightarrow> nat \<Rightarrow> u8 option" where
  "cached_value p deck index = (if pb_valid p ! deck ! index then Some (pb_last p ! deck ! index) else None)"

definition cache_value :: "nat \<Rightarrow> nat \<Rightarrow> u8 \<Rightarrow> flx4_led_publisher \<Rightarrow> flx4_led_publisher" where
  "cache_value deck index value p =
     p\<lparr>pb_last := (pb_last p)[deck := (pb_last p ! deck)[index := value]], pb_valid := (pb_valid p)[deck := (pb_valid p ! deck)[index := True]]\<rparr>"

fun publish_lights ::
  "flx4_led_snapshot_input \<Rightarrow> bool \<Rightarrow> (u8 \<Rightarrow> u8 \<Rightarrow> nat \<Rightarrow> ('s, esp_err) state) \<Rightarrow> (nat \<times> nat) list \<Rightarrow> flx4_led_publisher \<Rightarrow> esp_err \<Rightarrow>
   ('s, flx4_led_publisher \<times> esp_err) state" where
  "publish_lights input force send [] p first_error = ret (p, first_error)"
| "publish_lights input force send ((deck, index) # ls) p first_error =
     (let value = snapshot_value input deck index in
      if \<not> force \<and> cached_value p deck index = Some value then publish_lights input force send ls p first_error
      else do {
        rc \<leftarrow> send (s_led_ids ! index) value deck;
        if rc = ESP_OK then publish_lights input force send ls (cache_value deck index value p) first_error
        else publish_lights input force send ls p (if first_error = ESP_OK then rc else first_error) })"

definition flx4_led_publisher_publish ::
  "flx4_led_publisher \<Rightarrow> flx4_led_snapshot_input \<Rightarrow> bool \<Rightarrow> (u8 \<Rightarrow> u8 \<Rightarrow> nat \<Rightarrow> ('s, esp_err) state) \<Rightarrow> ('s, flx4_led_publisher \<times> esp_err) state" where
  "flx4_led_publisher_publish p input force send = publish_lights input force send published_lights p ESP_OK"

section \<open>What the controller shows\<close>

definition publisher_ok :: "flx4_led_publisher \<Rightarrow> bool" where
  "publisher_ok p \<longleftrightarrow> map length (pb_last p) = [FLX4_LED_SNAPSHOT_COUNT, FLX4_LED_SNAPSHOT_COUNT] \<and>
     map length (pb_valid p) = [FLX4_LED_SNAPSHOT_COUNT, FLX4_LED_SNAPSHOT_COUNT]"

lemma publisher_ok_init: "publisher_ok flx4_led_publisher_init"
  by (simp add: publisher_ok_def flx4_led_publisher_init_def numeral_2_eq_2)

lemma publisher_lengths:
  assumes "publisher_ok p" "deck < 2"
  shows "length (pb_last p) = 2" "length (pb_valid p) = 2" "length (pb_last p ! deck) = FLX4_LED_SNAPSHOT_COUNT" "length (pb_valid p ! deck) = FLX4_LED_SNAPSHOT_COUNT"
proof -
  have l: "map length (pb_last p) = [FLX4_LED_SNAPSHOT_COUNT, FLX4_LED_SNAPSHOT_COUNT]" "map length (pb_valid p) = [FLX4_LED_SNAPSHOT_COUNT, FLX4_LED_SNAPSHOT_COUNT]"
    using assms(1) by (auto simp: publisher_ok_def)
  show n: "length (pb_last p) = 2" "length (pb_valid p) = 2" using arg_cong [OF l(1), of length] arg_cong [OF l(2), of length] by simp_all
  have "[FLX4_LED_SNAPSHOT_COUNT, FLX4_LED_SNAPSHOT_COUNT] ! deck = FLX4_LED_SNAPSHOT_COUNT" using assms(2) by (auto simp: less_2_cases_iff)
  then show "length (pb_last p ! deck) = FLX4_LED_SNAPSHOT_COUNT" "length (pb_valid p ! deck) = FLX4_LED_SNAPSHOT_COUNT"
    using arg_cong [OF l(1), of "\<lambda>xs. xs ! deck"] arg_cong [OF l(2), of "\<lambda>xs. xs ! deck"] n assms(2) by simp_all
qed

lemma publisher_ok_cache:
  assumes "publisher_ok p" "deck < 2"
  shows "publisher_ok (cache_value deck index v p)"
proof -
  have "[FLX4_LED_SNAPSHOT_COUNT, FLX4_LED_SNAPSHOT_COUNT][deck := FLX4_LED_SNAPSHOT_COUNT] = [FLX4_LED_SNAPSHOT_COUNT, FLX4_LED_SNAPSHOT_COUNT]"
    using assms(2) by (auto simp: less_2_cases_iff)
  then show ?thesis using assms(1) publisher_lengths [OF assms] by (simp add: publisher_ok_def cache_value_def map_update)
qed

lemma cached_cache:
  assumes "publisher_ok p" "deck < 2" "index < FLX4_LED_SNAPSHOT_COUNT" "d < 2" "i < FLX4_LED_SNAPSHOT_COUNT"
  shows "cached_value (cache_value deck index v p) d i = (if d = deck \<and> i = index then Some v else cached_value p d i)"
  using publisher_lengths [OF assms(1,2)] publisher_lengths [OF assms(1,4)] assms(2-5)
  by (auto simp: cached_value_def cache_value_def nth_list_update)

lemma led_ids_length: "length s_led_ids = FLX4_LED_SNAPSHOT_COUNT"
  by (simp add: s_led_ids_def)

lemma led_ids_distinct: "distinct s_led_ids"
  by (simp add: s_led_ids_def)

lemma led_ids_inj: "i < FLX4_LED_SNAPSHOT_COUNT \<Longrightarrow> j < FLX4_LED_SNAPSHOT_COUNT \<Longrightarrow> s_led_ids ! i = s_led_ids ! j \<longleftrightarrow> i = j"
  using nth_eq_iff_index_eq [OF led_ids_distinct] by (simp add: led_ids_length)

lemma published_range: "(d, i) \<in> set published_lights \<Longrightarrow> d < 2 \<and> i < FLX4_LED_SNAPSHOT_COUNT"
  by (auto simp: published_lights_def)

lemma published_distinct: "distinct published_lights"
  by (simp add: published_lights_def distinct_product)

text \<open>
  A way to send lights.  \<open>lit\<close> is what the controller shows; a light that could not be sent stays as it was.  A light that
  is \<open>quiet\<close> may be left out when it is to be put out, as for a controller that has just been connected: it must be dark already.
\<close>

locale led_target =
  fixes send :: "u8 \<Rightarrow> u8 \<Rightarrow> nat \<Rightarrow> ('s, esp_err) state"
    and lit :: "'s \<Rightarrow> nat \<Rightarrow> u8 \<Rightarrow> u8"
    and quiet :: "'s \<Rightarrow> u8 \<Rightarrow> bool"
    and usable :: "'s \<Rightarrow> bool"
  assumes send_ok: "usable s \<Longrightarrow> deck < 2 \<Longrightarrow> led \<in> set s_led_ids \<Longrightarrow> eval (send led v deck) s = ESP_OK \<Longrightarrow> \<not> quiet s led \<or> v \<noteq> 0 \<or> lit s deck led = 0 \<Longrightarrow>
      lit (exec (send led v deck) s) d l = (if d = deck \<and> l = led then v else lit s d l)"
    and send_failed: "usable s \<Longrightarrow> deck < 2 \<Longrightarrow> led \<in> set s_led_ids \<Longrightarrow> eval (send led v deck) s \<noteq> ESP_OK \<Longrightarrow> lit (exec (send led v deck) s) d l = lit s d l"
    and send_quiet: "quiet (exec (send led v deck) s) = quiet s"
    and send_usable: "usable s \<Longrightarrow> usable (exec (send led v deck) s)"
begin

definition cache_true :: "flx4_led_publisher \<Rightarrow> 's \<Rightarrow> bool" where
  "cache_true p s \<longleftrightarrow> (\<forall>d<2. \<forall>i<FLX4_LED_SNAPSHOT_COUNT. cached_value p d i \<noteq> None \<longrightarrow> cached_value p d i = Some (lit s d (s_led_ids ! i)))"

definition displays :: "(nat \<times> nat) list \<Rightarrow> flx4_led_snapshot_input \<Rightarrow> 's \<Rightarrow> bool" where
  "displays ls input s \<longleftrightarrow> (\<forall>(d, i) \<in> set ls. lit s d (s_led_ids ! i) = snapshot_value input d i)"

definition dark :: "(nat \<times> nat) list \<Rightarrow> flx4_led_snapshot_input \<Rightarrow> 's \<Rightarrow> bool" where
  "dark ls input s \<longleftrightarrow> (\<forall>(d, i) \<in> set ls. quiet s (s_led_ids ! i) \<longrightarrow> snapshot_value input d i = 0 \<longrightarrow> lit s d (s_led_ids ! i) = 0)"

lemma cache_trueD:
  "cache_true p s \<Longrightarrow> d < 2 \<Longrightarrow> i < FLX4_LED_SNAPSHOT_COUNT \<Longrightarrow> cached_value p d i = Some v \<Longrightarrow> lit s d (s_led_ids ! i) = v"
  unfolding cache_true_def by fastforce

lemma publish_lights_spec:
  assumes "publisher_ok p" "usable s" "\<forall>(d, i) \<in> set ls. d < 2 \<and> i < FLX4_LED_SNAPSHOT_COUNT" "distinct ls"
    "force \<or> cache_true p s" "dark ls input s"
    "run_state (publish_lights input force send ls p e) s = ((p', rc), s')"
  shows "publisher_ok p' \<and> usable s' \<and> quiet s' = quiet s \<and>
    (cache_true p s \<longrightarrow> cache_true p' s') \<and>
    (rc = ESP_OK \<longrightarrow> e = ESP_OK \<and> displays ls input s' \<and> (\<forall>(d, i) \<in> set ls. cached_value p' d i = Some (snapshot_value input d i))) \<and>
    (\<forall>d<2. \<forall>i<FLX4_LED_SNAPSHOT_COUNT. (d, i) \<notin> set ls \<longrightarrow> lit s' d (s_led_ids ! i) = lit s d (s_led_ids ! i) \<and> cached_value p' d i = cached_value p d i)"
  using assms
proof (induction ls arbitrary: p e s)
  case Nil
  then show ?case by (auto simp: displays_def)
next
  case (Cons di ls)
  obtain deck index where di: "di = (deck, index)" by (cases di)
  note prems = Cons.prems [unfolded di]
  let ?v = "snapshot_value input deck index"
  have r: "deck < 2" "index < FLX4_LED_SNAPSHOT_COUNT" and rs: "\<forall>(d, i) \<in> set ls. d < 2 \<and> i < FLX4_LED_SNAPSHOT_COUNT"
    and new: "(deck, index) \<notin> set ls" "distinct ls" using prems(3,4) by auto
  show ?case
  proof (cases "\<not> force \<and> cached_value p deck index = Some ?v")
    case True
    have dark': "dark ls input s" using prems(6) by (auto simp: dark_def)
    have run: "run_state (publish_lights input force send ls p e) s = ((p', rc), s')" using prems(7) True by (simp add: Let_def)
    note ih = Cons.IH [OF prems(1,2) rs new(2) prems(5) dark' run]
    have "lit s deck (s_led_ids ! index) = ?v" using cache_trueD [OF _ r] True prems(5) by blast
    then show ?thesis using ih r new True by (auto simp: displays_def di)
  next
    case False
    obtain rc1 s1 where one: "run_state (send (s_led_ids ! index) ?v deck) s = (rc1, s1)" by fastforce
    have led: "s_led_ids ! index \<in> set s_led_ids" using r by (simp add: led_ids_length)
    have quiet1: "quiet s1 = quiet s" using send_quiet [of "s_led_ids ! index" ?v deck s] one by simp
    have usable1: "usable s1" using send_usable [OF prems(2), of "s_led_ids ! index" ?v deck] one by simp
    show ?thesis
    proof (cases "rc1 = ESP_OK")
      case ok: True
      have lit1: "lit s1 d (s_led_ids ! i) = (if d = deck \<and> i = index then ?v else lit s d (s_led_ids ! i))" if "i < FLX4_LED_SNAPSHOT_COUNT" for d i
        using send_ok [OF prems(2) r(1) led, of ?v d "s_led_ids ! i"] one ok prems(6) led_ids_inj [OF that r(2)] by (auto simp: dark_def)
      have pok: "publisher_ok (cache_value deck index ?v p)" by (rule publisher_ok_cache [OF prems(1) r(1)])
      note cached = cached_cache [OF prems(1) r]
      have ct: "cache_true (cache_value deck index ?v p) s1" if "cache_true p s"
        using that by (auto simp: cache_true_def cached lit1)
      have "lit s1 a (s_led_ids ! b) = lit s a (s_led_ids ! b)" if "(a, b) \<in> set ls" for a b
        using that rs new(1) lit1 [of b a] by auto
      then have dark1: "dark ls input s1" using prems(6) quiet1 by (auto simp: dark_def)
      have run: "run_state (publish_lights input force send ls (cache_value deck index ?v p) e) s1 = ((p', rc), s')"
        using prems(7) False one ok by (auto simp: Let_def split: if_splits)
      have f1: "force \<or> cache_true (cache_value deck index ?v p) s1" using prems(5) ct by blast
      note ih = Cons.IH [OF pok usable1 rs new(2) f1 dark1 run]
      have here: "lit s' deck (s_led_ids ! index) = ?v" "cached_value p' deck index = Some ?v"
        using ih r new lit1 [of index deck] cached [of deck index] by auto
      have there: "lit s' d (s_led_ids ! i) = lit s d (s_led_ids ! i) \<and> cached_value p' d i = cached_value p d i"
        if "d < 2" "i < FLX4_LED_SNAPSHOT_COUNT" "(d, i) \<notin> set ((deck, index) # ls)" for d i
        using ih that lit1 [of i d] cached [of d i] by auto
      show ?thesis using ih ct here there quiet1 by (auto simp: displays_def di)
    next
      case bad: False
      have lit1: "lit s1 d l = lit s d l" for d l
        using send_failed [OF prems(2) r(1) led, of ?v d l] one bad by simp
      have dark1: "dark ls input s1" using prems(6) lit1 quiet1 by (auto simp: dark_def)
      have run: "run_state (publish_lights input force send ls p (if e = ESP_OK then rc1 else e)) s1 = ((p', rc), s')"
        using prems(7) False one bad by (auto simp: Let_def split: if_splits)
      have ct: "cache_true p s1 = cache_true p s" by (simp add: cache_true_def lit1)
      have f1: "force \<or> cache_true p s1" using prems(5) ct by blast
      note ih = Cons.IH [OF prems(1) usable1 rs new(2) f1 dark1 run]
      show ?thesis using ih ct bad quiet1 lit1 by (auto simp: di split: if_splits)
    qed
  qed
qed

text \<open>A pass that reports success has brought the controller to the state of the decks, whether it sent all lights or only the differences.\<close>

lemma publish_spec:
  assumes "publisher_ok p" "usable s" "force \<or> cache_true p s" "dark published_lights input s"
    "run_state (flx4_led_publisher_publish p input force send) s = ((p', rc), s')"
  shows "publisher_ok p'" "usable s'" "cache_true p s \<Longrightarrow> cache_true p' s'" "rc = ESP_OK \<Longrightarrow> displays published_lights input s'"
    "rc = ESP_OK \<Longrightarrow> (d, i) \<in> set published_lights \<Longrightarrow> cached_value p' d i = Some (snapshot_value input d i)"
  using publish_lights_spec [OF assms(1,2) _ published_distinct assms(3,4), of ESP_OK p' rc s'] assms(5) published_range
  by (auto simp: flx4_led_publisher_publish_def)

end

text \<open>Publishing the same state again sends nothing.\<close>

lemma publish_lights_idle:
  assumes "\<forall>(d, i) \<in> set ls. cached_value p d i = Some (snapshot_value input d i)"
  shows "publish_lights input False send ls p e = ret (p, e)"
  using assms by (induction ls) auto

end
