(* ===== verification/Loaded_Tracks.thy ===== *)
theory Loaded_Tracks
  imports Rekordbox_Anlz "HOL-Library.Multiset"
begin

text \<open>
  Analysis shared between tasks: snapshots with a reference count (\<open>anlz_snapshot.c\<close>), the tracks the decks have loaded
  (\<open>deck_loaded_track_store.c\<close>) and the snapshots the user interface draws (\<open>ui_deck_anlz_store.c\<close>).  Memory is a map from
  addresses to snapshots; using an address that is not allocated is \<open>None\<close>.  Each critical section and each atomic operation on a
  count is one function; the functions of the stores compose them, and tasks may be interleaved between any two.
\<close>

section \<open>Snapshots\<close>

record anlz_snapshot =
  sn_ref_count :: u32
  sn_version :: u32
  sn_metadata :: anlz_metadata

datatype anlz_snapshot_kind = ANLZ_SNAPSHOT_COMPACT | ANLZ_SNAPSHOT_FULL

record snap_mem =
  sm_heap :: "nat \<Rightarrow> anlz_snapshot option"
  sm_next_version :: u32

definition next_snapshot_version :: "snap_mem \<Rightarrow> u32 \<times> snap_mem" where
  "next_snapshot_version mem =
     (let version = sm_next_version mem + 1; version = (if version = 0 then 1 else version)
      in (version, mem\<lparr>sm_next_version := version\<rparr>))"

text \<open>\<open>calloc\<close> is the address the allocator returns, if any.\<close>

definition anlz_snapshot_create ::
  "anlz_env \<Rightarrow> nat option \<Rightarrow> anlz_metadata \<Rightarrow> anlz_snapshot_kind \<Rightarrow> snap_mem \<Rightarrow> nat option \<times> snap_mem" where
  "anlz_snapshot_create env calloc meta kind mem =
     (case calloc of None \<Rightarrow> (None, mem)
      | Some p \<Rightarrow>
          let source = (if kind = ANLZ_SNAPSHOT_COMPACT then meta\<lparr>waveform_high := None, waveform_high_len := 0\<rparr> else meta);
              (metadata, rc) = anlz_clone env source
          in if rc \<noteq> ESP_OK then (None, mem)
             else let (version, mem) = next_snapshot_version mem
             in (Some p, mem\<lparr>sm_heap := (sm_heap mem)(p \<mapsto> \<lparr>sn_ref_count = 1, sn_version = version, sn_metadata = metadata\<rparr>)\<rparr>))"

definition anlz_snapshot_retain :: "nat option \<Rightarrow> snap_mem \<Rightarrow> (nat option \<times> snap_mem) option" where
  "anlz_snapshot_retain snapshot mem =
     (case snapshot of None \<Rightarrow> Some (None, mem)
      | Some p \<Rightarrow>
          do { s \<leftarrow> sm_heap mem p;
            if sn_ref_count s \<noteq> 0 \<and> sn_ref_count s \<noteq> 0xFFFFFFFF
            then Some (Some p, mem\<lparr>sm_heap := (sm_heap mem)(p \<mapsto> s\<lparr>sn_ref_count := sn_ref_count s + 1\<rparr>)\<rparr>)
            else Some (None, mem) })"

text \<open>A release takes one reference away, and after the last one frees the snapshot, as a step of its own.\<close>

definition release_reference :: "nat \<Rightarrow> snap_mem \<Rightarrow> (bool \<times> snap_mem) option" where
  "release_reference p mem =
     do { s \<leftarrow> sm_heap mem p;
       Some (sn_ref_count s = 1, mem\<lparr>sm_heap := (sm_heap mem)(p \<mapsto> s\<lparr>sn_ref_count := sn_ref_count s - 1\<rparr>)\<rparr>) }"

definition free_snapshot :: "nat \<Rightarrow> snap_mem \<Rightarrow> snap_mem option" where
  "free_snapshot p mem = do { s \<leftarrow> sm_heap mem p; Some (mem\<lparr>sm_heap := (sm_heap mem)(p := None)\<rparr>) }"

definition anlz_snapshot_release :: "nat option \<Rightarrow> snap_mem \<Rightarrow> snap_mem option" where
  "anlz_snapshot_release snapshot mem =
     (case snapshot of None \<Rightarrow> Some mem
      | Some p \<Rightarrow> do { (last, mem) \<leftarrow> release_reference p mem; if last then free_snapshot p mem else Some mem })"

definition anlz_snapshot_metadata :: "nat option \<Rightarrow> snap_mem \<Rightarrow> anlz_metadata option option" where
  "anlz_snapshot_metadata snapshot mem =
     (case snapshot of None \<Rightarrow> Some None | Some p \<Rightarrow> do { s \<leftarrow> sm_heap mem p; Some (Some (sn_metadata s)) })"

definition anlz_snapshot_version :: "nat option \<Rightarrow> snap_mem \<Rightarrow> u32 option" where
  "anlz_snapshot_version snapshot mem =
     (case snapshot of None \<Rightarrow> Some 0 | Some p \<Rightarrow> do { s \<leftarrow> sm_heap mem p; Some (sn_version s) })"

section \<open>Loaded tracks\<close>

abbreviation (input) DECK_LOADED_TRACK_COUNT :: nat where "DECK_LOADED_TRACK_COUNT \<equiv> 2"

datatype deck_loaded_track_result =
  DECK_LOADED_TRACK_OK | DECK_LOADED_TRACK_INVALID | DECK_LOADED_TRACK_STALE | DECK_LOADED_TRACK_NO_MEMORY

record deck_loaded_track_summary =
  lt_generation :: u32
  lt_media_generation :: u32
  lt_track_key :: u32
  lt_duration_ms :: u32
  lt_bpm_x100 :: u32
  lt_bpm :: u16
  lt_deck :: nat
  lt_valid :: bool
  lt_has_anlz :: bool

record deck_loaded_track_payload =
  lp_media_generation :: u32
  lp_track_key :: u32
  lp_duration_ms :: u32
  lp_bpm :: u16
  lp_anlz :: "anlz_metadata option"

record deck_loaded_track_store =
  ls_summary :: "deck_loaded_track_summary list"
  ls_anlz :: "nat option list"
  ls_next_generation :: u32
  ls_media_floor :: u32

definition empty_summary :: deck_loaded_track_summary where
  "empty_summary = \<lparr>lt_generation = 0, lt_media_generation = 0, lt_track_key = 0, lt_duration_ms = 0, lt_bpm_x100 = 0, lt_bpm = 0, lt_deck = 0,
     lt_valid = False, lt_has_anlz = False\<rparr>"

definition empty_store :: deck_loaded_track_store where
  "empty_store = \<lparr>ls_summary = [empty_summary, empty_summary], ls_anlz = [None, None], ls_next_generation = 0, ls_media_floor = 0\<rparr>"

definition next_generation :: "deck_loaded_track_store \<Rightarrow> u32 \<times> deck_loaded_track_store" where
  "next_generation store =
     (let g = ls_next_generation store + 1; g = (if g = 0 then g + 1 else g) in (g, store\<lparr>ls_next_generation := g\<rparr>))"

definition snapshot_newer_than :: "deck_loaded_track_store \<Rightarrow> u32 \<Rightarrow> bool" where
  "snapshot_newer_than store media_generation \<longleftrightarrow> list_ex (\<lambda>s. lt_media_generation s > media_generation) (ls_summary store)"

text \<open>The sections under the mutex.  What a section takes out of the store is handed to the caller, who releases it outside.\<close>

definition reset_locked :: "deck_loaded_track_store \<Rightarrow> nat option list \<times> deck_loaded_track_store" where
  "reset_locked store = (ls_anlz store, empty_store)"

definition publish_locked ::
  "snap_mem \<Rightarrow> nat \<Rightarrow> deck_loaded_track_payload \<Rightarrow> nat option \<Rightarrow> deck_loaded_track_store \<Rightarrow>
   (deck_loaded_track_result \<times> nat option \<times> deck_loaded_track_store) option" where
  "publish_locked mem deck payload next_anlz store =
     (if lp_media_generation payload < ls_media_floor store \<or>
         lp_media_generation payload < lt_media_generation (ls_summary store ! deck)
      then Some (DECK_LOADED_TRACK_STALE, None, store)
      else do { next_meta \<leftarrow> anlz_snapshot_metadata next_anlz mem;
        let old_anlz = ls_anlz store ! deck;
            bpm = (case next_meta of
                Some m \<Rightarrow> (case beats m of
                    Some (b # bs) \<Rightarrow> if beat_count m > 0 \<and> bpm_x100 b > 0 then ucast (bpm_x100 b) else ucast (lp_bpm payload) * 100
                  | _ \<Rightarrow> ucast (lp_bpm payload) * 100)
              | None \<Rightarrow> ucast (lp_bpm payload) * 100);
            (generation, store) = next_generation store
        in Some (DECK_LOADED_TRACK_OK, old_anlz,
             store\<lparr>ls_anlz := (ls_anlz store)[deck := next_anlz],
               ls_summary := (ls_summary store)[deck := \<lparr>lt_generation = generation, lt_media_generation = lp_media_generation payload,
                 lt_track_key = lp_track_key payload, lt_duration_ms = lp_duration_ms payload, lt_bpm_x100 = bpm, lt_bpm = lp_bpm payload,
                 lt_deck = deck, lt_valid = True, lt_has_anlz = (next_anlz \<noteq> None)\<rparr>]\<rparr>) })"

definition clear_deck :: "nat \<Rightarrow> u32 \<Rightarrow> deck_loaded_track_store \<Rightarrow> nat option \<times> deck_loaded_track_store" where
  "clear_deck deck media_generation store =
     (let (generation, store) = next_generation store
      in (ls_anlz store ! deck, store\<lparr>ls_anlz := (ls_anlz store)[deck := None],
        ls_summary := (ls_summary store)[deck := empty_summary\<lparr>lt_generation := generation, lt_media_generation := media_generation, lt_deck := deck\<rparr>]\<rparr>))"

definition clear_locked :: "nat \<Rightarrow> u32 \<Rightarrow> deck_loaded_track_store \<Rightarrow> deck_loaded_track_result \<times> nat option \<times> deck_loaded_track_store" where
  "clear_locked deck media_generation store =
     (if media_generation < ls_media_floor store \<or> media_generation < lt_media_generation (ls_summary store ! deck)
      then (DECK_LOADED_TRACK_STALE, None, store)
      else let (old, store) = clear_deck deck media_generation store in (DECK_LOADED_TRACK_OK, old, store))"

definition clear_all_locked :: "u32 \<Rightarrow> deck_loaded_track_store \<Rightarrow> deck_loaded_track_result \<times> nat option list \<times> deck_loaded_track_store" where
  "clear_all_locked media_generation store =
     (if media_generation < ls_media_floor store \<or> snapshot_newer_than store media_generation
      then (DECK_LOADED_TRACK_STALE, [], store)
      else let store = store\<lparr>ls_media_floor := media_generation\<rparr>;
               (old0, store) = clear_deck 0 media_generation store;
               (old1, store) = clear_deck 1 media_generation store
      in (DECK_LOADED_TRACK_OK, [old0, old1], store))"

definition acquire_locked ::
  "nat \<Rightarrow> deck_loaded_track_store \<Rightarrow> snap_mem \<Rightarrow> (deck_loaded_track_summary \<times> nat option \<times> snap_mem) option" where
  "acquire_locked deck store mem =
     (let summary = ls_summary store ! deck
      in if lt_valid summary \<and> ls_anlz store ! deck \<noteq> None
         then do { (anlz, mem) \<leftarrow> anlz_snapshot_retain (ls_anlz store ! deck) mem; Some (summary, anlz, mem) }
         else Some (summary, None, mem))"

text \<open>The functions of the store, undisturbed.\<close>

definition deck_loaded_track_store_publish ::
  "anlz_env \<Rightarrow> nat option \<Rightarrow> nat \<Rightarrow> deck_loaded_track_payload \<Rightarrow> snap_mem \<times> deck_loaded_track_store \<Rightarrow>
   (deck_loaded_track_result \<times> snap_mem \<times> deck_loaded_track_store) option" where
  "deck_loaded_track_store_publish env calloc deck payload ms =
     (let (mem, store) = ms
      in if \<not> deck < DECK_LOADED_TRACK_COUNT \<or> lp_track_key payload = 0 then Some (DECK_LOADED_TRACK_INVALID, mem, store)
         else let (next_anlz, mem) = (case lp_anlz payload of None \<Rightarrow> (None, mem) | Some m \<Rightarrow> anlz_snapshot_create env calloc m ANLZ_SNAPSHOT_COMPACT mem)
         in if lp_anlz payload \<noteq> None \<and> next_anlz = None then Some (DECK_LOADED_TRACK_NO_MEMORY, mem, store)
            else do { (result, old_anlz, store) \<leftarrow> publish_locked mem deck payload next_anlz store;
              mem \<leftarrow> (if result \<noteq> DECK_LOADED_TRACK_OK then anlz_snapshot_release next_anlz mem else Some mem);
              mem \<leftarrow> anlz_snapshot_release old_anlz mem;
              Some (result, mem, store) })"

definition deck_loaded_track_store_clear ::
  "nat \<Rightarrow> u32 \<Rightarrow> snap_mem \<times> deck_loaded_track_store \<Rightarrow> (deck_loaded_track_result \<times> snap_mem \<times> deck_loaded_track_store) option" where
  "deck_loaded_track_store_clear deck media_generation ms =
     (let (mem, store) = ms
      in if \<not> deck < DECK_LOADED_TRACK_COUNT then Some (DECK_LOADED_TRACK_INVALID, mem, store)
         else let (result, old_anlz, store) = clear_locked deck media_generation store
         in do { mem \<leftarrow> anlz_snapshot_release old_anlz mem; Some (result, mem, store) })"

fun release_all :: "nat option list \<Rightarrow> snap_mem \<Rightarrow> snap_mem option" where
  "release_all [] mem = Some mem"
| "release_all (p # ps) mem = do { mem \<leftarrow> anlz_snapshot_release p mem; release_all ps mem }"

definition deck_loaded_track_store_clear_all ::
  "u32 \<Rightarrow> snap_mem \<times> deck_loaded_track_store \<Rightarrow> (deck_loaded_track_result \<times> snap_mem \<times> deck_loaded_track_store) option" where
  "deck_loaded_track_store_clear_all media_generation ms =
     (let (mem, store) = ms; (result, old, store) = clear_all_locked media_generation store
      in do { mem \<leftarrow> release_all old mem; Some (result, mem, store) })"

definition deck_loaded_track_store_reset :: "snap_mem \<times> deck_loaded_track_store \<Rightarrow> (snap_mem \<times> deck_loaded_track_store) option" where
  "deck_loaded_track_store_reset ms =
     (let (mem, store) = ms; (old, store) = reset_locked store in do { mem \<leftarrow> release_all old mem; Some (mem, store) })"

definition deck_loaded_track_store_get :: "nat \<Rightarrow> deck_loaded_track_store \<Rightarrow> deck_loaded_track_summary option" where
  "deck_loaded_track_store_get deck store = (if \<not> deck < DECK_LOADED_TRACK_COUNT then None else Some (ls_summary store ! deck))"

text \<open>Inside: the summary and the snapshot, or that there is none to be had.\<close>

definition deck_loaded_track_store_acquire ::
  "nat \<Rightarrow> snap_mem \<times> deck_loaded_track_store \<Rightarrow> ((deck_loaded_track_summary \<times> nat option) option \<times> snap_mem) option" where
  "deck_loaded_track_store_acquire deck ms =
     (let (mem, store) = ms
      in if \<not> deck < DECK_LOADED_TRACK_COUNT then Some (None, mem)
         else do { (summary, anlz, mem) \<leftarrow> acquire_locked deck store mem;
           if \<not> lt_valid summary \<or> (lt_has_anlz summary \<and> anlz = None)
           then do { mem \<leftarrow> anlz_snapshot_release anlz mem; Some (None, mem) }
           else Some (Some (summary, anlz), mem) })"

section \<open>The snapshots the user interface draws\<close>

abbreviation (input) UI_DECK_ANLZ_STORE_DECK_COUNT :: nat where "UI_DECK_ANLZ_STORE_DECK_COUNT \<equiv> 2"

text \<open>The section that exchanges a slot.\<close>

definition ui_swap_locked :: "nat \<Rightarrow> nat option \<Rightarrow> nat option list \<Rightarrow> nat option \<times> nat option list" where
  "ui_swap_locked idx next slots = (slots ! idx, slots[idx := next])"

definition ui_deck_anlz_store_clear :: "nat \<Rightarrow> snap_mem \<times> nat option list \<Rightarrow> (snap_mem \<times> nat option list) option" where
  "ui_deck_anlz_store_clear deck ms =
     (let (mem, slots) = ms
      in if \<not> deck < UI_DECK_ANLZ_STORE_DECK_COUNT then Some (mem, slots)
         else let (old, slots) = ui_swap_locked deck None slots in do { mem \<leftarrow> anlz_snapshot_release old mem; Some (mem, slots) })"

definition ui_deck_anlz_store_clear_all :: "snap_mem \<times> nat option list \<Rightarrow> (snap_mem \<times> nat option list) option" where
  "ui_deck_anlz_store_clear_all ms = do { ms \<leftarrow> ui_deck_anlz_store_clear 0 ms; ui_deck_anlz_store_clear 1 ms }"

definition ui_deck_anlz_store_set ::
  "anlz_env \<Rightarrow> nat option \<Rightarrow> nat \<Rightarrow> anlz_metadata \<Rightarrow> snap_mem \<times> nat option list \<Rightarrow> (bool \<times> snap_mem \<times> nat option list) option" where
  "ui_deck_anlz_store_set env calloc deck meta ms =
     (let (mem, slots) = ms
      in if \<not> deck < UI_DECK_ANLZ_STORE_DECK_COUNT then Some (False, mem, slots)
         else let (next, mem) = anlz_snapshot_create env calloc meta ANLZ_SNAPSHOT_FULL mem
         in if next = None then Some (False, mem, slots)
            else let (old, slots) = ui_swap_locked deck next slots in do { mem \<leftarrow> anlz_snapshot_release old mem; Some (True, mem, slots) })"

definition ui_deck_anlz_store_acquire :: "nat \<Rightarrow> snap_mem \<times> nat option list \<Rightarrow> (nat option \<times> snap_mem) option" where
  "ui_deck_anlz_store_acquire deck ms =
     (let (mem, slots) = ms
      in if \<not> deck < UI_DECK_ANLZ_STORE_DECK_COUNT then Some (None, mem) else anlz_snapshot_retain (slots ! deck) mem)"

section \<open>Tasks\<close>

text \<open>
  Any number of tasks use the stores at once.  A task owns the references its variables hold (all tasks together: \<open>ss_refs\<close>), and
  the snapshots whose last reference it has taken away and is about to free (\<open>ss_dying\<close>).  It may create a snapshot, run a critical
  section, retain, read or release what it owns, in any order; the functions above are such sequences.
\<close>

record snap_sys =
  ss_mem :: snap_mem
  ss_store :: deck_loaded_track_store
  ss_ui :: "nat option list"
  ss_refs :: "nat multiset"
  ss_dying :: "nat multiset"

datatype snap_op =
    Create anlz_env "nat option" anlz_metadata anlz_snapshot_kind | Publish nat deck_loaded_track_payload "nat option" | Clear nat u32
  | Clear_All u32 | Reset | Acquire nat | Ui_Swap nat "nat option" | Ui_Acquire nat | Retain nat | Release nat | Free nat | Read_Meta nat

definition opt_ref :: "nat option \<Rightarrow> nat multiset" where
  "opt_ref p = (case p of None \<Rightarrow> {#} | Some a \<Rightarrow> {#a#})"

definition slot_refs :: "nat option list \<Rightarrow> nat multiset" where
  "slot_refs slots = sum_list (map opt_ref slots)"

text \<open>What a task may do: the allocator returns free memory, and a task uses what it owns.\<close>

definition snap_enabled :: "snap_op \<Rightarrow> snap_sys \<Rightarrow> bool" where
  "snap_enabled op s =
     (case op of
        Create env calloc m kind \<Rightarrow> (case calloc of None \<Rightarrow> True | Some p \<Rightarrow> sm_heap (ss_mem s) p = None)
      | Publish deck payload next \<Rightarrow> deck < DECK_LOADED_TRACK_COUNT \<and> opt_ref next \<subseteq># ss_refs s
      | Clear deck g \<Rightarrow> deck < DECK_LOADED_TRACK_COUNT
      | Acquire deck \<Rightarrow> deck < DECK_LOADED_TRACK_COUNT
      | Ui_Swap deck next \<Rightarrow> deck < UI_DECK_ANLZ_STORE_DECK_COUNT \<and> opt_ref next \<subseteq># ss_refs s
      | Ui_Acquire deck \<Rightarrow> deck < UI_DECK_ANLZ_STORE_DECK_COUNT
      | Retain p \<Rightarrow> p \<in># ss_refs s
      | Release p \<Rightarrow> p \<in># ss_refs s
      | Free p \<Rightarrow> p \<in># ss_dying s
      | Read_Meta p \<Rightarrow> p \<in># ss_refs s
      | _ \<Rightarrow> True)"

text \<open>The step, \<open>None\<close> when it uses memory that is not allocated.\<close>

fun snap_step :: "snap_op \<Rightarrow> snap_sys \<Rightarrow> snap_sys option" where
  "snap_step (Create env calloc m kind) s =
     (let (p, mem) = anlz_snapshot_create env calloc m kind (ss_mem s) in Some (s\<lparr>ss_mem := mem, ss_refs := ss_refs s + opt_ref p\<rparr>))"
| "snap_step (Publish deck payload next) s =
     do { (result, old, store) \<leftarrow> publish_locked (ss_mem s) deck payload next (ss_store s);
       Some (s\<lparr>ss_store := store, ss_refs := (if result = DECK_LOADED_TRACK_OK then ss_refs s - opt_ref next + opt_ref old else ss_refs s)\<rparr>) }"
| "snap_step (Clear deck g) s =
     (let (result, old, store) = clear_locked deck g (ss_store s) in Some (s\<lparr>ss_store := store, ss_refs := ss_refs s + opt_ref old\<rparr>))"
| "snap_step (Clear_All g) s =
     (let (result, old, store) = clear_all_locked g (ss_store s) in Some (s\<lparr>ss_store := store, ss_refs := ss_refs s + slot_refs old\<rparr>))"
| "snap_step Reset s = (let (old, store) = reset_locked (ss_store s) in Some (s\<lparr>ss_store := store, ss_refs := ss_refs s + slot_refs old\<rparr>))"
| "snap_step (Acquire deck) s =
     do { (summary, p, mem) \<leftarrow> acquire_locked deck (ss_store s) (ss_mem s); Some (s\<lparr>ss_mem := mem, ss_refs := ss_refs s + opt_ref p\<rparr>) }"
| "snap_step (Ui_Swap deck next) s =
     (let (old, slots) = ui_swap_locked deck next (ss_ui s) in Some (s\<lparr>ss_ui := slots, ss_refs := ss_refs s - opt_ref next + opt_ref old\<rparr>))"
| "snap_step (Ui_Acquire deck) s =
     do { (p, mem) \<leftarrow> anlz_snapshot_retain (ss_ui s ! deck) (ss_mem s); Some (s\<lparr>ss_mem := mem, ss_refs := ss_refs s + opt_ref p\<rparr>) }"
| "snap_step (Retain p) s =
     do { (q, mem) \<leftarrow> anlz_snapshot_retain (Some p) (ss_mem s); Some (s\<lparr>ss_mem := mem, ss_refs := ss_refs s + opt_ref q\<rparr>) }"
| "snap_step (Release p) s =
     do { (last, mem) \<leftarrow> release_reference p (ss_mem s);
       Some (s\<lparr>ss_mem := mem, ss_refs := ss_refs s - {#p#}, ss_dying := (if last then ss_dying s + {#p#} else ss_dying s)\<rparr>) }"
| "snap_step (Free p) s = do { mem \<leftarrow> free_snapshot p (ss_mem s); Some (s\<lparr>ss_mem := mem, ss_dying := ss_dying s - {#p#}\<rparr>) }"
| "snap_step (Read_Meta p) s = do { m \<leftarrow> anlz_snapshot_metadata (Some p) (ss_mem s); Some s }"

definition snap_start :: snap_sys where
  "snap_start = \<lparr>ss_mem = \<lparr>sm_heap = (\<lambda>_. None), sm_next_version = 0\<rparr>, ss_store = empty_store, ss_ui = [None, None], ss_refs = {#}, ss_dying = {#}\<rparr>"

inductive snap_reach :: "snap_sys \<Rightarrow> bool" where
  snap_reach_start: "snap_reach snap_start"
| snap_reach_step: "snap_reach s \<Longrightarrow> snap_enabled op s \<Longrightarrow> snap_step op s = Some s' \<Longrightarrow> snap_reach s'"

section \<open>References are counted exactly\<close>

definition holders :: "snap_sys \<Rightarrow> nat multiset" where
  "holders s = slot_refs (ls_anlz (ss_store s)) + slot_refs (ss_ui s) + ss_refs s"

text \<open>An address with \<open>r\<close> references and \<open>d\<close> frees to come: free memory has neither, and an allocated snapshot counts its references.\<close>

definition address_ok :: "anlz_snapshot option \<Rightarrow> nat \<Rightarrow> nat \<Rightarrow> bool" where
  "address_ok h r d \<longleftrightarrow> (case h of None \<Rightarrow> r = 0 \<and> d = 0 | Some sn \<Rightarrow> unat (sn_ref_count sn) = r \<and> d = (if r = 0 then 1 else 0))"

definition ref_counted :: "snap_mem \<Rightarrow> nat multiset \<Rightarrow> nat multiset \<Rightarrow> bool" where
  "ref_counted mem refs dying \<longleftrightarrow> (\<forall>p. address_ok (sm_heap mem p) (count refs p) (count dying p))"

definition store_ok :: "deck_loaded_track_store \<Rightarrow> bool" where
  "store_ok st \<longleftrightarrow> length (ls_summary st) = 2 \<and> length (ls_anlz st) = 2 \<and>
     (\<forall>d<2. (lt_has_anlz (ls_summary st ! d) \<longleftrightarrow> ls_anlz st ! d \<noteq> None) \<and> (lt_valid (ls_summary st ! d) \<or> ls_anlz st ! d = None) \<and>
        ls_media_floor st \<le> lt_media_generation (ls_summary st ! d))"

definition snap_inv :: "snap_sys \<Rightarrow> bool" where
  "snap_inv s \<longleftrightarrow> ref_counted (ss_mem s) (holders s) (ss_dying s) \<and> store_ok (ss_store s) \<and> length (ss_ui s) = 2"

lemma opt_ref_simps [simp]: "opt_ref None = {#}" "opt_ref (Some p) = {#p#}"
  by (simp_all add: opt_ref_def)

lemma slot_refs_simps [simp]: "slot_refs [] = {#}" "slot_refs (p # ps) = opt_ref p + slot_refs ps"
  by (simp_all add: slot_refs_def)

lemma slot_refs_update: "i < length xs \<Longrightarrow> slot_refs (xs[i := v]) + opt_ref (xs ! i) = slot_refs xs + opt_ref v"
  by (induction xs arbitrary: i) (auto split: nat.splits simp: ac_simps)

lemma slot_in: "i < length xs \<Longrightarrow> xs ! i = Some p \<Longrightarrow> p \<in># slot_refs xs"
  by (induction xs arbitrary: i) (auto simp: nth_Cons split: nat.splits)

lemma counted_update:
  assumes "ref_counted mem refs dying" "\<And>q. q \<noteq> p \<Longrightarrow> sm_heap mem' q = sm_heap mem q \<and> count refs' q = count refs q \<and> count dying' q = count dying q"
    and "address_ok (sm_heap mem' p) (count refs' p) (count dying' p)"
  shows "ref_counted mem' refs' dying'"
  unfolding ref_counted_def
proof
  fix q
  show "address_ok (sm_heap mem' q) (count refs' q) (count dying' q)"
    by (cases "q = p") (use assms in \<open>auto simp: ref_counted_def\<close>)
qed

lemma counted_live:
  assumes "ref_counted mem refs dying" "p \<in># refs"
  shows "\<exists>sn r. sm_heap mem p = Some sn \<and> count refs p = Suc r \<and> unat (sn_ref_count sn) = Suc r \<and> count dying p = 0"
proof -
  obtain r where r: "count refs p = Suc r" using assms(2) by (metis count_eq_zero_iff not0_implies_Suc)
  have "address_ok (sm_heap mem p) (count refs p) (count dying p)" using assms(1) by (simp add: ref_counted_def)
  then show ?thesis by (auto simp: address_ok_def r split: option.splits)
qed

lemma retain_counted:
  assumes "ref_counted mem refs dying" "p \<in># refs"
  shows "\<exists>q mem'. anlz_snapshot_retain (Some p) mem = Some (q, mem') \<and> ref_counted mem' (refs + opt_ref q) dying \<and> (q = None \<or> q = Some p)"
proof -
  obtain sn r where sn: "sm_heap mem p = Some sn" "count refs p = Suc r" "unat (sn_ref_count sn) = Suc r" "count dying p = 0"
    using counted_live [OF assms] by blast
  have nz: "sn_ref_count sn \<noteq> 0" using sn(3) by auto
  show ?thesis
  proof (cases "sn_ref_count sn = 0xFFFFFFFF")
    case False
    have "1 + sn_ref_count sn \<noteq> 0"
    proof
      assume "1 + sn_ref_count sn = 0"
      then have "sn_ref_count sn = - 1" by (metis add.commute eq_neg_iff_add_eq_0)
      then show False using False by simp
    qed
    then have u: "unat (sn_ref_count sn + 1) = Suc (Suc r)" using unatSuc [of "sn_ref_count sn"] sn(3) by (simp add: add.commute)
    have "ref_counted (mem\<lparr>sm_heap := (sm_heap mem)(p \<mapsto> sn\<lparr>sn_ref_count := sn_ref_count sn + 1\<rparr>)\<rparr>) (refs + opt_ref (Some p)) dying"
      by (rule counted_update [OF assms(1), where p = p]) (use u sn in \<open>simp_all add: address_ok_def\<close>)
    then show ?thesis using False sn nz by (simp add: anlz_snapshot_retain_def)
  qed (use sn assms in \<open>simp add: anlz_snapshot_retain_def\<close>)
qed

lemma release_counted:
  assumes "ref_counted mem refs dying" "p \<in># refs"
  shows "\<exists>last mem'. release_reference p mem = Some (last, mem') \<and>
    ref_counted mem' (refs - {#p#}) (if last then dying + {#p#} else dying)"
proof -
  obtain sn r where sn: "sm_heap mem p = Some sn" "count refs p = Suc r" "unat (sn_ref_count sn) = Suc r" "count dying p = 0"
    using counted_live [OF assms] by blast
  have "sn_ref_count sn \<noteq> 0" using sn(3) by auto
  then have less: "unat (sn_ref_count sn - 1) = r" using sn(3) unat_minus_one [of "sn_ref_count sn"] by simp
  have last: "sn_ref_count sn = 1 \<longleftrightarrow> r = 0" using sn(3) by (metis One_nat_def Suc_inject unat_1 word_unat_eq_iff)
  have "ref_counted (mem\<lparr>sm_heap := (sm_heap mem)(p \<mapsto> sn\<lparr>sn_ref_count := sn_ref_count sn - 1\<rparr>)\<rparr>) (refs - {#p#})
      (if sn_ref_count sn = 1 then dying + {#p#} else dying)"
    by (rule counted_update [OF assms(1), where p = p]) (use less last sn in \<open>simp_all add: address_ok_def\<close>)
  then show ?thesis using sn by (simp add: release_reference_def)
qed

lemma create_counted:
  assumes "ref_counted mem refs dying" "case calloc of None \<Rightarrow> True | Some p \<Rightarrow> sm_heap mem p = None" "anlz_snapshot_create env calloc m kind mem = (q, mem')"
  shows "ref_counted mem' (refs + opt_ref q) dying"
proof (cases q)
  case None
  then show ?thesis using assms
    by (auto simp: anlz_snapshot_create_def Let_def next_snapshot_version_def split: option.splits prod.splits if_splits)
next
  case (Some p)
  then have h: "sm_heap mem p = None" "\<exists>sn. sm_heap mem' = (sm_heap mem)(p \<mapsto> sn) \<and> sn_ref_count sn = 1"
    using assms(2,3) by (auto simp: anlz_snapshot_create_def Let_def next_snapshot_version_def split: option.splits prod.splits if_splits intro!: exI)
  have "address_ok (sm_heap mem p) (count refs p) (count dying p)" using assms(1) by (simp add: ref_counted_def)
  then have "count refs p = 0" "count dying p = 0" using h(1) by (simp_all add: address_ok_def)
  then show ?thesis unfolding Some
    by (intro counted_update [OF assms(1), where p = p]) (use h(2) in \<open>auto simp: address_ok_def\<close>)
qed

lemma free_counted:
  assumes "ref_counted mem refs dying" "p \<in># dying"
  shows "\<exists>mem'. free_snapshot p mem = Some mem' \<and> ref_counted mem' refs (dying - {#p#})"
proof -
  have a: "address_ok (sm_heap mem p) (count refs p) (count dying p)" using assms(1) by (simp add: ref_counted_def)
  obtain d where d: "count dying p = Suc d" using assms(2) by (metis count_eq_zero_iff not0_implies_Suc)
  obtain sn where sn: "sm_heap mem p = Some sn" using a d by (cases "sm_heap mem p") (simp_all add: address_ok_def)
  have c: "count refs p = 0" "d = 0" using a d sn by (cases "count refs p"; simp add: address_ok_def)+
  have "ref_counted (mem\<lparr>sm_heap := (sm_heap mem)(p := None)\<rparr>) refs (dying - {#p#})"
    by (rule counted_update [OF assms(1), where p = p]) (use d c in \<open>simp_all add: address_ok_def\<close>)
  then show ?thesis using sn by (simp add: free_snapshot_def)
qed

lemma two: "(\<forall>d<2. P d) \<longleftrightarrow> P 0 \<and> P (1 :: nat)"
  by (auto simp: less_2_cases_iff)

text \<open>Later media only: no deck goes back to an earlier one.\<close>

definition media_later :: "deck_loaded_track_store \<Rightarrow> deck_loaded_track_store \<Rightarrow> bool" where
  "media_later st st' \<longleftrightarrow> ls_media_floor st \<le> ls_media_floor st' \<and>
     (\<forall>d<2. lt_media_generation (ls_summary st ! d) \<le> lt_media_generation (ls_summary st' ! d))"

lemma transfer_refs:
  assumes "a + old = b + n" "n \<subseteq># (r :: nat multiset)"
  shows "a + (r - n + old) = b + r"
proof -
  obtain k where k: "r = n + k" using assms(2) by (metis subset_mset.le_iff_add)
  have "a + (r - n + old) = k + (a + old)" unfolding k by (simp add: ac_simps)
  then show ?thesis by (simp add: assms(1) k ac_simps)
qed

lemma clear_deck_ok:
  assumes "store_ok st" "deck < 2" "ls_media_floor st \<le> g" "clear_deck deck g st = (old, st')"
  shows "store_ok st' \<and> slot_refs (ls_anlz st') + opt_ref old = slot_refs (ls_anlz st) \<and> ls_media_floor st' = ls_media_floor st \<and>
    ls_summary st' = (ls_summary st)[deck := ls_summary st' ! deck] \<and> lt_media_generation (ls_summary st' ! deck) = g"
proof -
  have len: "length (ls_summary st) = 2" "length (ls_anlz st) = 2" using assms(1) by (simp_all add: store_ok_def)
  obtain k where k: "st' = st\<lparr>ls_next_generation := k, ls_anlz := (ls_anlz st)[deck := None],
      ls_summary := (ls_summary st)[deck := empty_summary\<lparr>lt_generation := k, lt_media_generation := g, lt_deck := deck\<rparr>]\<rparr>" "old = ls_anlz st ! deck"
    using assms(4) by (auto simp: clear_deck_def next_generation_def Let_def)
  have d: "deck = 0 \<or> deck = 1" using assms(2) by (simp add: less_2_cases_iff)
  have "store_ok st'" using assms(1,3) d unfolding k(1) store_ok_def two by (auto simp: empty_summary_def nth_list_update)
  then show ?thesis using assms(2) len slot_refs_update [of deck "ls_anlz st" None] by (simp add: k)
qed

lemma publish_ok:
  assumes "store_ok st" "deck < 2" "ref_counted mem refs dying" "opt_ref next \<subseteq># refs"
  shows "\<exists>r old st'. publish_locked mem deck payload next st = Some (r, old, st') \<and> store_ok st' \<and> media_later st st' \<and>
    (if r = DECK_LOADED_TRACK_OK then slot_refs (ls_anlz st') + opt_ref old = slot_refs (ls_anlz st) + opt_ref next else st' = st)"
proof -
  have "\<exists>m. anlz_snapshot_metadata next mem = Some m"
  proof (cases "next")
    case (Some a)
    then show ?thesis using counted_live [OF assms(3), of a] assms(4) by (auto simp: anlz_snapshot_metadata_def)
  qed (simp add: anlz_snapshot_metadata_def)
  then obtain m where m: "anlz_snapshot_metadata next mem = Some m" by blast
  show ?thesis using assms(1,2) slot_refs_update [of deck "ls_anlz st" "next"]
    by (auto simp: publish_locked_def m next_generation_def Let_def store_ok_def media_later_def nth_list_update)
qed

lemma clear_locked_ok:
  assumes "store_ok st" "deck < 2" "clear_locked deck g st = (r, old, st')"
  shows "store_ok st' \<and> media_later st st' \<and> slot_refs (ls_anlz st') + opt_ref old = slot_refs (ls_anlz st)"
proof (cases "g < ls_media_floor st \<or> g < lt_media_generation (ls_summary st ! deck)")
  case False
  obtain o2 st2 where c: "clear_deck deck g st = (o2, st2)" by fastforce
  have "old = o2" "st' = st2" using assms(3) False by (auto simp: clear_locked_def c)
  moreover have "deck < length (ls_summary st)" using assms(1,2) by (simp add: store_ok_def)
  ultimately show ?thesis using clear_deck_ok [OF assms(1,2) _ c] False
    by (auto simp: media_later_def not_less nth_list_update) (metis nth_list_update nle_le)
qed (use assms in \<open>auto simp: clear_locked_def media_later_def\<close>)

lemma clear_final:
  assumes "store_ok st" "clear_deck 0 g (st\<lparr>ls_media_floor := g\<rparr>) = (o0, s0)" "clear_deck 1 g s0 = (o1, s1)"
  shows "slot_refs (ls_anlz s0) + opt_ref o0 = slot_refs (ls_anlz st) \<and> slot_refs (ls_anlz s1) + opt_ref o1 = slot_refs (ls_anlz s0) \<and>
    store_ok s1 \<and> ls_media_floor s1 = g \<and> lt_media_generation (ls_summary s1 ! 0) = g \<and> lt_media_generation (ls_summary s1 ! 1) = g"
proof -
  obtain a b where a: "ls_anlz st = [a, b]" using assms(1) by (auto simp: store_ok_def numeral_2_eq_2 length_Suc_conv)
  obtain x y where x: "ls_summary st = [x, y]" using assms(1) by (auto simp: store_ok_def numeral_2_eq_2 length_Suc_conv)
  have s0: "o0 = a" "ls_anlz s0 = [None, b]" "ls_media_floor s0 = g" "\<exists>k. ls_summary s0 = [empty_summary\<lparr>lt_generation := k, lt_media_generation := g\<rparr>, y]"
    using assms(2) by (auto simp: clear_deck_def next_generation_def Let_def a x empty_summary_def)
  then have s1: "o1 = b" "ls_anlz s1 = [None, None]" "ls_media_floor s1 = g"
      "\<exists>k l. ls_summary s1 = [empty_summary\<lparr>lt_generation := k, lt_media_generation := g\<rparr>,
         empty_summary\<lparr>lt_generation := l, lt_media_generation := g, lt_deck := 1\<rparr>]"
    using assms(3) by (auto simp: clear_deck_def next_generation_def Let_def empty_summary_def)
  show ?thesis using s0 s1 by (auto simp: store_ok_def two a empty_summary_def)
qed

lemma clear_all_ok:
  assumes "store_ok st" "clear_all_locked g st = (r, olds, st')"
  shows "store_ok st' \<and> media_later st st' \<and> slot_refs (ls_anlz st') + slot_refs olds = slot_refs (ls_anlz st)"
proof (cases "g < ls_media_floor st \<or> snapshot_newer_than st g")
  case False
  let ?f = "st\<lparr>ls_media_floor := g\<rparr>"
  have len: "length (ls_summary st) = 2" using assms(1) by (simp add: store_ok_def)
  have newer: "lt_media_generation (ls_summary st ! d) \<le> g" if "d < 2" for d
    using False nth_mem [of d "ls_summary st"] len that by (auto simp: snapshot_newer_than_def list_ex_iff not_less)
  obtain o0 s0 where c0: "clear_deck 0 g ?f = (o0, s0)" by fastforce
  obtain o1 s1 where c1: "clear_deck 1 g s0 = (o1, s1)" by fastforce
  have e: "olds = [o0, o1]" "st' = s1" using assms(2) False c1 by (auto simp: clear_all_locked_def Let_def c0)
  have d: "slot_refs (ls_anlz s0) + opt_ref o0 = slot_refs (ls_anlz st)" "slot_refs (ls_anlz s1) + opt_ref o1 = slot_refs (ls_anlz s0)"
    "store_ok s1" "ls_media_floor s1 = g" "lt_media_generation (ls_summary s1 ! 0) = g" "lt_media_generation (ls_summary s1 ! 1) = g"
    using clear_final [OF assms(1) c0 c1] by simp_all
  show ?thesis using d newer False unfolding e by (auto simp: media_later_def two ac_simps)
qed (use assms in \<open>auto simp: clear_all_locked_def media_later_def\<close>)

lemma acquire_ok:
  assumes "store_ok st" "deck < 2" "ref_counted mem refs dying" "slot_refs (ls_anlz st) \<subseteq># refs"
  shows "\<exists>sm p mem'. acquire_locked deck st mem = Some (sm, p, mem') \<and> ref_counted mem' (refs + opt_ref p) dying"
proof (cases "ls_anlz st ! deck")
  case (Some q)
  then have "q \<in># refs" using slot_in [of deck "ls_anlz st" q] assms by (auto simp: store_ok_def dest: mset_subset_eqD)
  from retain_counted [OF assms(3) this] show ?thesis using Some assms(3) by (auto simp: acquire_locked_def Let_def)
qed (use assms in \<open>auto simp: acquire_locked_def Let_def\<close>)

lemma gain_inv:
  assumes "ref_counted mem (holders s + x) (ss_dying s)" "snap_inv s"
  shows "snap_inv (s\<lparr>ss_mem := mem, ss_refs := ss_refs s + x\<rparr>)"
  using assms by (simp add: snap_inv_def holders_def add.assoc)

lemma retain_inv:
  assumes "snap_inv s" "p \<in># holders s"
  shows "\<exists>q mem. anlz_snapshot_retain (Some p) (ss_mem s) = Some (q, mem) \<and> snap_inv (s\<lparr>ss_mem := mem, ss_refs := ss_refs s + opt_ref q\<rparr>)"
  using retain_counted [of "ss_mem s" "holders s" "ss_dying s" p] assms gain_inv [OF _ assms(1)] by (metis snap_inv_def)

lemma snap_step_inv:
  assumes "snap_inv s" "snap_enabled op s"
  shows "\<exists>s'. snap_step op s = Some s' \<and> snap_inv s' \<and> (op \<noteq> Reset \<longrightarrow> media_later (ss_store s) (ss_store s'))"
proof -
  have c: "ref_counted (ss_mem s) (holders s) (ss_dying s)" and st: "store_ok (ss_store s)" and ui: "length (ss_ui s) = 2"
    using assms(1) by (simp_all add: snap_inv_def)
  have own: "p \<in># holders s" if "p \<in># ss_refs s" for p using that by (simp add: holders_def)
  have later: "media_later (ss_store s) (ss_store s)" by (simp add: media_later_def)
  show ?thesis
  proof (cases op)
    case (Create env calloc m kind)
    obtain q mem where r: "anlz_snapshot_create env calloc m kind (ss_mem s) = (q, mem)" by fastforce
    have "ref_counted mem (holders s + opt_ref q) (ss_dying s)"
      by (rule create_counted [OF c _ r]) (use assms(2) Create in \<open>simp add: snap_enabled_def\<close>)
    from gain_inv [OF this assms(1)] show ?thesis using Create r later by simp
  next
    case (Publish deck payload nxt)
    then have e: "deck < 2" "opt_ref nxt \<subseteq># ss_refs s" using assms(2) by (simp_all add: snap_enabled_def)
    then have "opt_ref nxt \<subseteq># holders s" by (simp add: holders_def subset_mset.add_increasing)
    from publish_ok [OF st e(1) c this, of payload] obtain r old st' where p: "publish_locked (ss_mem s) deck payload nxt (ss_store s) = Some (r, old, st')"
        "store_ok st'" "media_later (ss_store s) st'"
        "if r = DECK_LOADED_TRACK_OK then slot_refs (ls_anlz st') + opt_ref old = slot_refs (ls_anlz (ss_store s)) + opt_ref nxt else st' = ss_store s"
      by blast
    have "holders (s\<lparr>ss_store := st', ss_refs := (if r = DECK_LOADED_TRACK_OK then ss_refs s - opt_ref nxt + opt_ref old else ss_refs s)\<rparr>) = holders s"
    proof (cases "r = DECK_LOADED_TRACK_OK")
      case True
      have "slot_refs (ls_anlz st') + (ss_refs s - opt_ref nxt + opt_ref old) = slot_refs (ls_anlz (ss_store s)) + ss_refs s"
        by (rule transfer_refs) (use p(4) True e(2) in simp_all)
      then show ?thesis using True by (simp add: holders_def ac_simps)
    qed (use p(4) in \<open>simp add: holders_def\<close>)
    then show ?thesis using Publish p c ui by (simp add: snap_inv_def)
  next
    case (Clear deck g)
    obtain r old st' where l: "clear_locked deck g (ss_store s) = (r, old, st')" by (cases "clear_locked deck g (ss_store s)")
    have o: "store_ok st' \<and> media_later (ss_store s) st' \<and> slot_refs (ls_anlz st') + opt_ref old = slot_refs (ls_anlz (ss_store s))"
      by (rule clear_locked_ok [OF st _ l]) (use assms(2) Clear in \<open>simp add: snap_enabled_def\<close>)
    then have "holders (s\<lparr>ss_store := st', ss_refs := ss_refs s + opt_ref old\<rparr>) = holders s" by (auto simp: holders_def ac_simps)
    then show ?thesis using Clear l o c ui by (simp add: snap_inv_def)
  next
    case (Clear_All g)
    obtain r olds st' where l: "clear_all_locked g (ss_store s) = (r, olds, st')" by (cases "clear_all_locked g (ss_store s)")
    have o: "store_ok st' \<and> media_later (ss_store s) st' \<and> slot_refs (ls_anlz st') + slot_refs olds = slot_refs (ls_anlz (ss_store s))"
      by (rule clear_all_ok [OF st l])
    then have "holders (s\<lparr>ss_store := st', ss_refs := ss_refs s + slot_refs olds\<rparr>) = holders s" by (auto simp: holders_def ac_simps)
    then show ?thesis using Clear_All l o c ui by (simp add: snap_inv_def)
  next
    case Reset
    have "holders (s\<lparr>ss_store := empty_store, ss_refs := ss_refs s + slot_refs (ls_anlz (ss_store s))\<rparr>) = holders s"
      by (simp add: holders_def empty_store_def ac_simps)
    moreover have "store_ok empty_store" by (simp add: store_ok_def empty_store_def two empty_summary_def)
    ultimately show ?thesis using Reset c ui by (simp add: snap_inv_def reset_locked_def)
  next
    case (Acquire deck)
    have "slot_refs (ls_anlz (ss_store s)) \<subseteq># holders s" by (simp add: holders_def)
    from acquire_ok [OF st _ c this, of deck] obtain sm p mem where "acquire_locked deck (ss_store s) (ss_mem s) = Some (sm, p, mem)"
        "ref_counted mem (holders s + opt_ref p) (ss_dying s)"
      using assms(2) Acquire by (auto simp: snap_enabled_def)
    with gain_inv [OF _ assms(1)] show ?thesis using Acquire later by simp
  next
    case (Ui_Swap deck nxt)
    then have e: "deck < length (ss_ui s)" "opt_ref nxt \<subseteq># ss_refs s" using assms(2) ui by (simp_all add: snap_enabled_def)
    have "holders (s\<lparr>ss_ui := (ss_ui s)[deck := nxt], ss_refs := ss_refs s - opt_ref nxt + opt_ref (ss_ui s ! deck)\<rparr>) = holders s"
      using transfer_refs [OF slot_refs_update [OF e(1)] e(2)] by (simp add: holders_def ac_simps)
    then show ?thesis using Ui_Swap c st ui later by (simp add: snap_inv_def ui_swap_locked_def)
  next
    case (Ui_Acquire deck)
    then have e: "deck < length (ss_ui s)" using assms(2) ui by (simp add: snap_enabled_def)
    show ?thesis
    proof (cases "ss_ui s ! deck")
      case (Some q)
      then have "q \<in># holders s" using slot_in [OF e] by (simp add: holders_def)
      from retain_inv [OF assms(1) this] show ?thesis using Ui_Acquire Some later by auto
    qed (use Ui_Acquire c st ui later in \<open>simp add: anlz_snapshot_retain_def snap_inv_def holders_def\<close>)
  next
    case (Retain p)
    then have "p \<in># holders s" using assms(2) own by (simp add: snap_enabled_def)
    from retain_inv [OF assms(1) this] show ?thesis using Retain later by auto
  next
    case (Release p)
    then have e: "p \<in># ss_refs s" using assms(2) by (simp add: snap_enabled_def)
    have h: "holders s - {#p#} = slot_refs (ls_anlz (ss_store s)) + slot_refs (ss_ui s) + (ss_refs s - {#p#})"
      unfolding holders_def using e by (rule multiset_diff_union_assoc [OF iffD2 [OF single_subset_iff]])
    obtain last mem where m: "release_reference p (ss_mem s) = Some (last, mem)"
        "ref_counted mem (holders s - {#p#}) (if last then ss_dying s + {#p#} else ss_dying s)"
      using release_counted [OF c own [OF e]] by blast
    have "snap_inv (s\<lparr>ss_mem := mem, ss_refs := ss_refs s - {#p#}, ss_dying := (if last then ss_dying s + {#p#} else ss_dying s)\<rparr>)"
      using m(2) st ui unfolding h by (simp add: snap_inv_def holders_def)
    then show ?thesis using Release m(1) later by simp
  next
    case (Free p)
    then have "p \<in># ss_dying s" using assms(2) by (simp add: snap_enabled_def)
    from free_counted [OF c this] show ?thesis using Free st ui later by (auto simp: snap_inv_def holders_def)
  next
    case (Read_Meta p)
    then have "p \<in># holders s" using assms(2) own by (simp add: snap_enabled_def)
    from counted_live [OF c this] show ?thesis using Read_Meta assms(1) later by (auto simp: anlz_snapshot_metadata_def)
  qed
qed

lemma reach_snap_inv: "snap_reach s \<Longrightarrow> snap_inv s"
proof (induction rule: snap_reach.induct)
  case snap_reach_start
  have "ref_counted (ss_mem snap_start) {#} {#}" by (simp add: ref_counted_def address_ok_def snap_start_def)
  then show ?case by (simp add: snap_inv_def snap_start_def holders_def store_ok_def empty_store_def two empty_summary_def)
next
  case (snap_reach_step s op s')
  then show ?case using snap_step_inv [of s op] by auto
qed


section \<open>The functions of the stores are sequences of these steps\<close>

text \<open>So they never use memory that is not allocated, whatever the other tasks did before.\<close>

lemma release_reach:
  assumes "snap_reach s" "opt_ref p \<subseteq># ss_refs s"
  shows "\<exists>mem. anlz_snapshot_release p (ss_mem s) = Some mem \<and> snap_reach (s\<lparr>ss_mem := mem, ss_refs := ss_refs s - opt_ref p\<rparr>)"
proof (cases p)
  case (Some a)
  have e: "snap_enabled (Release a) s" using assms(2) Some by (simp add: snap_enabled_def)
  obtain s' where r: "snap_step (Release a) s = Some s'" using snap_step_inv [OF reach_snap_inv [OF assms(1)] e] by blast
  obtain last mem where m: "release_reference a (ss_mem s) = Some (last, mem)"
      "s' = s\<lparr>ss_mem := mem, ss_refs := ss_refs s - {#a#}, ss_dying := (if last then ss_dying s + {#a#} else ss_dying s)\<rparr>"
    using r by (auto split: bind_splits)
  have s': "snap_reach s'" by (rule snap_reach_step [OF assms(1) e r])
  show ?thesis
  proof (cases last)
    case True
    have f: "snap_enabled (Free a) s'" using True m(2) by (simp add: snap_enabled_def)
    obtain s2 where r2: "snap_step (Free a) s' = Some s2" using snap_step_inv [OF reach_snap_inv [OF s'] f] by blast
    then obtain mem2 where "free_snapshot a mem = Some mem2" "s2 = s\<lparr>ss_mem := mem2, ss_refs := ss_refs s - {#a#}\<rparr>"
      using m(2) True by (auto split: bind_splits)
    then show ?thesis using m(1) True Some snap_reach_step [OF s' f r2] by (simp add: anlz_snapshot_release_def)
  qed (use s' m Some in \<open>simp add: anlz_snapshot_release_def\<close>)
qed (use assms in \<open>simp add: anlz_snapshot_release_def\<close>)

lemma create_reach:
  assumes "snap_reach s" "case calloc of None \<Rightarrow> True | Some p \<Rightarrow> sm_heap (ss_mem s) p = None"
    "anlz_snapshot_create env calloc m kind (ss_mem s) = (p, mem)"
  shows "snap_reach (s\<lparr>ss_mem := mem, ss_refs := ss_refs s + opt_ref p\<rparr>)"
  by (rule snap_reach_step [OF assms(1), where op = "Create env calloc m kind"]) (use assms(2,3) in \<open>simp_all add: snap_enabled_def\<close>)

lemma store_mem_swap: "s\<lparr>ss_store := a, ss_mem := b\<rparr> = s\<lparr>ss_mem := b, ss_store := a :: deck_loaded_track_store\<rparr>"
  by (cases s) simp

lemma ui_mem_swap: "s\<lparr>ss_ui := a, ss_mem := b\<rparr> = s\<lparr>ss_mem := b, ss_ui := a\<rparr>"
  by (cases s) simp

lemma deck_loaded_track_store_publish_safe:
  assumes "snap_reach s" "case calloc of None \<Rightarrow> True | Some p \<Rightarrow> sm_heap (ss_mem s) p = None"
  shows "\<exists>r mem store. deck_loaded_track_store_publish env calloc deck payload (ss_mem s, ss_store s) = Some (r, mem, store) \<and>
    snap_reach (s\<lparr>ss_mem := mem, ss_store := store\<rparr>)"
proof (cases "\<not> deck < 2 \<or> lp_track_key payload = 0")
  case False
  define made where "made = (case lp_anlz payload of None \<Rightarrow> (None, ss_mem s) | Some m \<Rightarrow> anlz_snapshot_create env calloc m ANLZ_SNAPSHOT_COMPACT (ss_mem s))"
  obtain p mem where pm: "made = (p, mem)" by fastforce
  let ?s1 = "s\<lparr>ss_mem := mem, ss_refs := ss_refs s + opt_ref p\<rparr>"
  have s1: "snap_reach ?s1"
  proof (cases "lp_anlz payload")
    case None
    have "s\<lparr>ss_mem := ss_mem s\<rparr> = s" by (cases s) simp
    then show ?thesis using None pm assms(1) by (auto simp: made_def)
  next
    case (Some m)
    then show ?thesis using create_reach [OF assms] pm by (simp add: made_def)
  qed
  show ?thesis
  proof (cases "lp_anlz payload \<noteq> None \<and> p = None")
    case True
    then show ?thesis using False s1 pm by (simp add: deck_loaded_track_store_publish_def made_def [symmetric])
  next
    case np: False
    have e: "snap_enabled (Publish deck payload p) ?s1" using False by (simp add: snap_enabled_def)
    obtain s2 where r2: "snap_step (Publish deck payload p) ?s1 = Some s2" using snap_step_inv [OF reach_snap_inv [OF s1] e] by blast
    then obtain res old store where l: "publish_locked mem deck payload p (ss_store s) = Some (res, old, store)"
        "s2 = s\<lparr>ss_mem := mem, ss_store := store, ss_refs := (if res = DECK_LOADED_TRACK_OK then ss_refs s + opt_ref old else ss_refs s + opt_ref p)\<rparr>"
      by (auto split: bind_splits)
    have s2: "snap_reach s2" by (rule snap_reach_step [OF s1 e r2])
    have none: "old = None" if "res \<noteq> DECK_LOADED_TRACK_OK"
      using l(1) that by (auto simp: publish_locked_def Let_def split: if_splits bind_splits prod.splits)
    let ?q = "if res = DECK_LOADED_TRACK_OK then old else p"
    have "opt_ref ?q \<subseteq># ss_refs s2" using l(2) by simp
    from release_reach [OF s2 this] obtain mem2 where "anlz_snapshot_release ?q mem = Some mem2" "snap_reach (s\<lparr>ss_mem := mem2, ss_store := store\<rparr>)"
      using l(2) by (auto simp: store_mem_swap split: if_splits)
    then show ?thesis using False np pm l(1) none
      by (auto simp: deck_loaded_track_store_publish_def made_def [symmetric] anlz_snapshot_release_def [of None] split: if_splits)
  qed
qed (use assms(1) in \<open>auto simp: deck_loaded_track_store_publish_def\<close>)

lemma deck_loaded_track_store_clear_safe:
  assumes "snap_reach s"
  shows "\<exists>r mem store. deck_loaded_track_store_clear deck g (ss_mem s, ss_store s) = Some (r, mem, store) \<and>
    snap_reach (s\<lparr>ss_mem := mem, ss_store := store\<rparr>)"
proof (cases "deck < 2")
  case True
  obtain r old store where l: "clear_locked deck g (ss_store s) = (r, old, store)" by (cases "clear_locked deck g (ss_store s)")
  have "snap_reach (s\<lparr>ss_store := store, ss_refs := ss_refs s + opt_ref old\<rparr>)"
    by (rule snap_reach_step [OF assms, where op = "Clear deck g"]) (use True l in \<open>simp_all add: snap_enabled_def\<close>)
  from release_reach [OF this, of old] show ?thesis using True l by (auto simp: deck_loaded_track_store_clear_def store_mem_swap)
next
  case False
  have "s\<lparr>ss_mem := ss_mem s, ss_store := ss_store s\<rparr> = s" by (cases s) simp
  then show ?thesis using False assms by (auto simp: deck_loaded_track_store_clear_def)
qed

lemma release_all_reach:
  assumes "snap_reach s" "slot_refs ps \<subseteq># ss_refs s"
  shows "\<exists>mem. release_all ps (ss_mem s) = Some mem \<and> snap_reach (s\<lparr>ss_mem := mem, ss_refs := ss_refs s - slot_refs ps\<rparr>)"
  using assms
proof (induction ps arbitrary: s)
  case (Cons p ps)
  obtain k where k: "ss_refs s = opt_ref p + (slot_refs ps + k)"
    using Cons.prems(2) by (metis add.assoc slot_refs_simps(2) subset_mset.le_iff_add)
  have "opt_ref p \<subseteq># ss_refs s" by (simp add: k)
  from release_reach [OF Cons.prems(1) this] obtain mem where m: "anlz_snapshot_release p (ss_mem s) = Some mem"
      "snap_reach (s\<lparr>ss_mem := mem, ss_refs := slot_refs ps + k\<rparr>)" by (auto simp: k)
  have "ss_refs s - slot_refs (p # ps) = k" using add_diff_cancel_left' [of "opt_ref p + slot_refs ps" k] by (simp add: k add.assoc)
  with Cons.IH [OF m(2)] show ?case using m(1) by auto
next
  case Nil
  have "s\<lparr>ss_mem := ss_mem s\<rparr> = s" by (cases s) simp
  then show ?case using Nil by auto
qed

lemma deck_loaded_track_store_clear_all_safe:
  assumes "snap_reach s"
  shows "\<exists>r mem store. deck_loaded_track_store_clear_all g (ss_mem s, ss_store s) = Some (r, mem, store) \<and>
    snap_reach (s\<lparr>ss_mem := mem, ss_store := store\<rparr>)"
proof -
  obtain r old store where l: "clear_all_locked g (ss_store s) = (r, old, store)" by (cases "clear_all_locked g (ss_store s)")
  have "snap_reach (s\<lparr>ss_store := store, ss_refs := ss_refs s + slot_refs old\<rparr>)"
    by (rule snap_reach_step [OF assms, where op = "Clear_All g"]) (use l in \<open>simp_all add: snap_enabled_def\<close>)
  from release_all_reach [OF this, of old] show ?thesis using l by (auto simp: deck_loaded_track_store_clear_all_def store_mem_swap)
qed

lemma ui_deck_anlz_store_set_safe:
  assumes "snap_reach s" "case calloc of None \<Rightarrow> True | Some p \<Rightarrow> sm_heap (ss_mem s) p = None"
  shows "\<exists>r mem slots. ui_deck_anlz_store_set env calloc deck meta (ss_mem s, ss_ui s) = Some (r, mem, slots) \<and>
    snap_reach (s\<lparr>ss_mem := mem, ss_ui := slots\<rparr>)"
proof (cases "deck < 2")
  case True
  obtain p mem where l: "anlz_snapshot_create env calloc meta ANLZ_SNAPSHOT_FULL (ss_mem s) = (p, mem)" by fastforce
  note s1 = create_reach [OF assms l]
  show ?thesis
  proof (cases p)
    case None
    have "s\<lparr>ss_mem := mem, ss_refs := ss_refs s + opt_ref None\<rparr> = s\<lparr>ss_mem := mem, ss_ui := ss_ui s\<rparr>" by (cases s) simp
    then show ?thesis using s1 True l None by (auto simp: ui_deck_anlz_store_set_def)
  next
    case (Some a)
    have "snap_reach (s\<lparr>ss_mem := mem, ss_ui := (ss_ui s)[deck := p], ss_refs := ss_refs s + opt_ref (ss_ui s ! deck)\<rparr>)"
      by (rule snap_reach_step [OF s1, where op = "Ui_Swap deck p"]) (use True in \<open>simp_all add: snap_enabled_def ui_swap_locked_def\<close>)
    from release_reach [OF this, of "ss_ui s ! deck"] obtain mem2 where m: "anlz_snapshot_release (ss_ui s ! deck) mem = Some mem2"
        "snap_reach (s\<lparr>ss_ui := (ss_ui s)[deck := p], ss_mem := mem2\<rparr>)" by auto
    note m [unfolded ui_mem_swap]
    then show ?thesis using True l Some by (auto simp: ui_deck_anlz_store_set_def ui_swap_locked_def)
  qed
next
  case False
  have "s\<lparr>ss_mem := ss_mem s, ss_ui := ss_ui s\<rparr> = s" by (cases s) simp
  then show ?thesis using False assms by (auto simp: ui_deck_anlz_store_set_def)
qed

section \<open>No snapshot is used after it is freed, and none is lost\<close>

text \<open>
  Claim C37.  However the tasks interleave, no step touches a snapshot that was freed, the count of every snapshot is the number of
  slots and variables that hold it, memory is in use exactly while something holds it or its last holder is about to free it, and
  no step but a reset takes a deck back to an earlier medium.
\<close>
theorem snapshots_live_while_held:
  assumes "snap_reach s" "snap_enabled op s"
  shows "\<exists>s'. snap_step op s = Some s' \<and>
    (\<forall>p. case sm_heap (ss_mem s') p of
        None \<Rightarrow> p \<notin># holders s' \<and> p \<notin># ss_dying s'
      | Some sn \<Rightarrow> count (holders s') p = unat (sn_ref_count sn) \<and> count (ss_dying s') p = (if p \<in># holders s' then 0 else 1)) \<and>
    (op \<noteq> Reset \<longrightarrow> media_later (ss_store s) (ss_store s'))"
proof -
  obtain s' where s': "snap_step op s = Some s'" "snap_inv s'" "op \<noteq> Reset \<longrightarrow> media_later (ss_store s) (ss_store s')"
    using snap_step_inv [OF reach_snap_inv [OF assms(1)] assms(2)] by blast
  have "case sm_heap (ss_mem s') p of None \<Rightarrow> p \<notin># holders s' \<and> p \<notin># ss_dying s'
      | Some sn \<Rightarrow> count (holders s') p = unat (sn_ref_count sn) \<and> count (ss_dying s') p = (if p \<in># holders s' then 0 else 1)" for p
  proof -
    have "address_ok (sm_heap (ss_mem s') p) (count (holders s') p) (count (ss_dying s') p)" using s'(2) by (simp add: snap_inv_def ref_counted_def)
    then show ?thesis by (auto simp: address_ok_def not_in_iff split: option.splits if_splits)
  qed
  then show ?thesis using s'(1,3) by blast
qed

text \<open>A track published on deck 0 and acquired by a task, whose deck is then cleared: the task's reference is the last.\<close>

fun snap_run :: "snap_op list \<Rightarrow> snap_sys \<Rightarrow> snap_sys option" where
  "snap_run [] s = Some s"
| "snap_run (op # ops) s = (if snap_enabled op s then do { s \<leftarrow> snap_step op s; snap_run ops s } else None)"

lemma snap_run_reach: "snap_run ops s = Some s' \<Longrightarrow> snap_reach s \<Longrightarrow> snap_reach s'"
  by (induction ops s rule: snap_run.induct) (auto split: if_splits bind_splits intro: snap_reach_step)

definition held_ops :: "snap_op list" where
  "held_ops = [Create \<lparr>ae_beats = True, ae_high = True, ae_clone_beats = True, ae_clone_high = True\<rparr> (Some 4) anlz_zero ANLZ_SNAPSHOT_COMPACT,
     Publish 0 \<lparr>lp_media_generation = 1, lp_track_key = 7, lp_duration_ms = 1000, lp_bpm = 128, lp_anlz = None\<rparr> (Some 4),
     Acquire 0, Clear 0 1, Release 4]"

definition held_state :: snap_sys where
  "held_state = the (snap_run held_ops snap_start)"

lemmas snap_eval = held_state_def held_ops_def snap_start_def snap_enabled_def anlz_snapshot_create_def anlz_clone_def anlz_zero_def Let_def
  next_snapshot_version_def publish_locked_def anlz_snapshot_metadata_def next_generation_def empty_store_def empty_summary_def acquire_locked_def
  anlz_snapshot_retain_def clear_locked_def clear_deck_def release_reference_def holders_def

lemma held_runs: "snap_run held_ops snap_start = Some held_state" "snap_enabled (Release 4) held_state"
  by (simp_all add: snap_eval)

lemma held_release: "\<exists>s'. snap_step (Release 4) held_state = Some s' \<and> ss_dying s' = {#4#} \<and> holders s' = {#}"
  by (simp add: snap_eval)

theorem snapshots_live_while_held_witness:
  "\<exists>s'. snap_step (Release 4) held_state = Some s' \<and> sm_heap (ss_mem s') 4 \<noteq> None \<and> ss_dying s' = {#4#} \<and> holders s' = {#}"
proof -
  have r: "snap_reach held_state" by (rule snap_run_reach [OF held_runs(1) snap_reach_start])
  obtain s' where s': "snap_step (Release 4) held_state = Some s'" "ss_dying s' = {#4#}" "holders s' = {#}" using held_release by blast
  have "case sm_heap (ss_mem s') 4 of None \<Rightarrow> 4 \<notin># holders s' \<and> 4 \<notin># ss_dying s'
      | Some sn \<Rightarrow> count (holders s') 4 = unat (sn_ref_count sn) \<and> count (ss_dying s') 4 = (if 4 \<in># holders s' then 0 else 1)"
    using snapshots_live_while_held [OF r held_runs(2)] s'(1) by auto
  then show ?thesis using s' by (auto split: option.splits)
qed

end
