(* ===== verification/Deck_State.thy ===== *)
theory Deck_State
  imports Audio_Control Beat_Grid Hot_Cues Led_Snapshot Loaded_Tracks P4_Link
begin

text \<open>
  The state of the deck core (\<open>deck_core.c\<close>), the functions that read it, and the lights it sends.  The arrays of the file indexed by a
  deck are one record per deck, \<open>deck_slot\<close>.  The audio engine, the store of cues and the store of loaded tracks are parts of the
  state; the engine and the tracks may be changed by their own tasks before every access.  What the core sends to the controller and
  to its callbacks is recorded in order.  The firmware build is modelled, with audible scratch.
\<close>

section \<open>Data\<close>

abbreviation (input) DECK_CORE_DECK_COUNT :: nat where "DECK_CORE_DECK_COUNT \<equiv> 2"
abbreviation (input) DECK_CORE_COMPAT_DECK :: nat where "DECK_CORE_COMPAT_DECK \<equiv> 0"
abbreviation (input) PITCH_CENTER :: int where "PITCH_CENTER \<equiv> 8192"
abbreviation (input) DEFAULT_TEMPO_RANGE_PERCENT :: u16 where "DEFAULT_TEMPO_RANGE_PERCENT \<equiv> 10"
abbreviation (input) BEAT_SYNC_MAX_PERCENT :: u16 where "BEAT_SYNC_MAX_PERCENT \<equiv> 20"
abbreviation (input) DECK_UI_COMMAND_QUEUE_LEN :: nat where "DECK_UI_COMMAND_QUEUE_LEN \<equiv> 16"
abbreviation (input) CTRL_QUEUE_LEN :: nat where "CTRL_QUEUE_LEN \<equiv> 32"

datatype perf_mode = PERF_MODE_HOT_CUE | PERF_MODE_LOOP_ROLL | PERF_MODE_BEAT_JUMP | PERF_MODE_KEY_SHIFT

record deck_state =
  ds_playing :: bool
  ds_position_ms :: u32
  ds_cue_point_ms :: u32
  ds_pitch :: i16
  ds_pitch_centipercent :: i16
  ds_tempo_range_percent :: u16
  ds_perf_mode :: perf_mode
  ds_pad_mode :: u8
  ds_sync_enabled :: bool
  ds_sync_master :: bool
  ds_quantize_enabled :: bool
  ds_censor_active :: bool
  ds_master_tempo :: bool
  ds_control_link_connected :: bool
  ds_last_heartbeat_age_ms :: u32

datatype deck_core_beat_fx_effect =
  DECK_CORE_BEAT_FX_NONE | DECK_CORE_BEAT_FX_FILTER | DECK_CORE_BEAT_FX_ECHO | DECK_CORE_BEAT_FX_FLANGER | DECK_CORE_BEAT_FX_DELAY

text \<open>The beat is counted up and down in its enumeration, so it is a number here too.\<close>

abbreviation (input) DECK_CORE_BEAT_FX_BEAT_1_4 :: nat where "DECK_CORE_BEAT_FX_BEAT_1_4 \<equiv> 0"
abbreviation (input) DECK_CORE_BEAT_FX_BEAT_1_2 :: nat where "DECK_CORE_BEAT_FX_BEAT_1_2 \<equiv> 1"
abbreviation (input) DECK_CORE_BEAT_FX_BEAT_1 :: nat where "DECK_CORE_BEAT_FX_BEAT_1 \<equiv> 2"
abbreviation (input) DECK_CORE_BEAT_FX_BEAT_2 :: nat where "DECK_CORE_BEAT_FX_BEAT_2 \<equiv> 3"
abbreviation (input) DECK_CORE_BEAT_FX_BEAT_4 :: nat where "DECK_CORE_BEAT_FX_BEAT_4 \<equiv> 4"

datatype ctrl_beat_fx_target = TARGET_CH1 | TARGET_CH2 | TARGET_BOTH

record deck_core_beat_fx_state =
  fx_effect :: deck_core_beat_fx_effect
  fx_beat :: nat
  fx_target :: ctrl_beat_fx_target
  fx_depth :: u8
  fx_enabled :: bool

record deck_loop_shadow =
  lo_pending_in :: bool
  lo_pending_start_ms :: u32
  lo_last_valid :: bool
  lo_last_start_ms :: u32
  lo_last_end_ms :: u32

record deck_shifted_loop_roll =
  ro_active :: bool
  ro_previous_active :: bool
  ro_previous_start_ms :: u32
  ro_previous_end_ms :: u32

record deck_pad_fx_led_state =
  px_active :: bool
  px_mode :: u8
  px_pad :: u8

record deck_beat_loop_led_state =
  bl_active :: bool
  bl_pad :: u8

record deck_censor_shadow =
  ce_active :: bool
  ce_was_playing :: bool
  ce_origin_ms :: u32
  ce_press_tick :: u32

text \<open>A light whose cached value is not valid is \<open>None\<close>.\<close>

record deck_slot =
  dk_state :: deck_state
  dk_track_load_led :: "u8 option"
  dk_loaded_hot_cue_mask :: "u8 option"
  dk_beat_jump_pad_led :: "u8 option list"
  dk_shift_held :: bool
  dk_jog_touched :: bool
  dk_jog_hold_active :: bool
  dk_jog_scratch_active :: bool
  dk_shift_helper_led :: "u8 option list"
  dk_loop :: deck_loop_shadow
  dk_roll :: deck_shifted_loop_roll
  dk_pad_fx_led :: deck_pad_fx_led_state
  dk_beat_loop_led :: deck_beat_loop_led_state
  dk_censor :: deck_censor_shadow
  dk_mask_key :: u32
  dk_mask_value :: u8
  dk_vu_level :: u8

datatype deck_ui_command_kind =
  DECK_UI_CMD_LOAD_SELECTED | DECK_UI_CMD_LIBRARY_SELECT_DELTA_IF_ACTIVE | DECK_UI_CMD_BROWSE_DELTA | DECK_UI_CMD_TOGGLE_LIBRARY_VIEW
  | DECK_UI_CMD_SHOW_LIBRARY

record deck_ui_command =
  uc_kind :: deck_ui_command_kind
  uc_deck :: nat
  uc_id :: u8
  uc_value :: int

record deck_snapshot =
  sp_decks :: "deck_state list"
  sp_loops :: "deck_loop_shadow list"
  sp_beat_fx :: deck_core_beat_fx_state
  sp_heartbeat_tick :: u32

text \<open>What leaves the core: lights, calls of the status callbacks, and calls of the user interface.\<close>

datatype deck_out =
  Led u8 u8 nat | Ap_Status u8 | Ap_Token u32 | Ui_Load_Selected nat | Ui_Select_Delta int | Ui_Zoom_Delta int | Ui_Toggle_View | Ui_Show_Library

record deck_core =
  dc_decks :: "deck_slot list"
  dc_published :: deck_snapshot
  dc_tracks :: "snap_mem \<times> deck_loaded_track_store"
  dc_publisher :: flx4_led_publisher
  dc_beat_fx :: deck_core_beat_fx_state
  dc_suppress_inactive_pads :: bool
  dc_heartbeat_tick :: u32
  dc_flx4_state_valid :: bool
  dc_flx4_connected :: bool
  dc_sync_master :: nat
  dc_token_hi :: u16
  dc_token_hi_valid :: bool
  dc_status_cb :: bool
  dc_token_cb :: bool
  dc_queue :: "ctrl_event list"
  dc_ui_commands :: "deck_ui_command list"
  dc_drop_count :: u32
  dc_reset_done :: bool
  dc_vu_meters_active :: bool
  dc_engine :: audio_engine
  dc_nvs :: nvs
  dc_reads :: nat
  dc_ticks :: nat
  dc_ui_calls :: nat
  dc_out :: "deck_out list"

text \<open>
  The environment: the engine and the storage; what other tasks do to the loaded tracks before the \<open>n\<close>-th access; the clock in
  milliseconds at its \<open>n\<close>-th reading; the answers of the user interface.
\<close>

record deck_env =
  de_audio :: ae_env
  de_nvs :: nvs_env
  de_tracks :: "nat \<Rightarrow> snap_mem \<times> deck_loaded_track_store \<Rightarrow> snap_mem \<times> deck_loaded_track_store"
  de_tick :: "nat \<Rightarrow> u32"
  de_ui_answer :: "nat \<Rightarrow> esp_err"
  de_library_active :: "nat \<Rightarrow> bool"
  de_overview_active :: "nat \<Rightarrow> bool"

type_synonym 'a deck_action = "(deck_core, 'a) state"

section \<open>Access\<close>

definition engine :: "(audio_engine, 'a) state \<Rightarrow> 'a deck_action" where
  "engine m = State (\<lambda>s. let (x, e) = run_state m (dc_engine s) in (x, s\<lparr>dc_engine := e\<rparr>))"

definition storage :: "(nvs, 'a) state \<Rightarrow> 'a deck_action" where
  "storage m = State (\<lambda>s. let (x, n) = run_state m (dc_nvs s) in (x, s\<lparr>dc_nvs := n\<rparr>))"

definition emit :: "deck_out \<Rightarrow> unit deck_action" where
  "emit out = modify (\<lambda>s. s\<lparr>dc_out := dc_out s @ [out]\<rparr>)"

definition slot_of :: "nat \<Rightarrow> deck_slot deck_action" where
  "slot_of deck = gets (\<lambda>s. dc_decks s ! deck)"

definition on_slot :: "nat \<Rightarrow> (deck_slot \<Rightarrow> deck_slot) \<Rightarrow> unit deck_action" where
  "on_slot deck f = modify (\<lambda>s. s\<lparr>dc_decks := (dc_decks s)[deck := f (dc_decks s ! deck)]\<rparr>)"

definition state_of :: "nat \<Rightarrow> deck_state deck_action" where
  "state_of deck = gets (\<lambda>s. dk_state (dc_decks s ! deck))"

definition on_state :: "nat \<Rightarrow> (deck_state \<Rightarrow> deck_state) \<Rightarrow> unit deck_action" where
  "on_state deck f = on_slot deck (\<lambda>d. d\<lparr>dk_state := f (dk_state d)\<rparr>)"

definition xTaskGetTickCount :: "deck_env \<Rightarrow> u32 deck_action" where
  "xTaskGetTickCount env = do { n \<leftarrow> gets dc_ticks; modify (\<lambda>s. s\<lparr>dc_ticks := n + 1\<rparr>); ret (de_tick env n) }"

text \<open>
  An acquired snapshot lives until it is released (\<open>Loaded_Tracks\<close>), so acquiring, reading and releasing are one access here: the
  summary and the metadata, \<open>None\<close> when the deck has no track.
\<close>

definition loaded_view :: "nat \<Rightarrow> snap_mem \<times> deck_loaded_track_store \<Rightarrow> (deck_loaded_track_summary \<times> anlz_metadata option) option" where
  "loaded_view deck ms =
     (let (mem, store) = ms; summary = ls_summary store ! deck;
          meta = (case ls_anlz store ! deck of None \<Rightarrow> None
                  | Some p \<Rightarrow> (case sm_heap mem p of None \<Rightarrow> None
                               | Some sn \<Rightarrow> if sn_ref_count sn \<noteq> 0 \<and> sn_ref_count sn \<noteq> 0xFFFFFFFF then Some (sn_metadata sn) else None))
      in if \<not> deck < DECK_LOADED_TRACK_COUNT \<or> \<not> lt_valid summary \<or> (lt_has_anlz summary \<and> meta = None) then None else Some (summary, meta))"

definition tracks_turn :: "deck_env \<Rightarrow> unit deck_action" where
  "tracks_turn env = modify (\<lambda>s. s\<lparr>dc_tracks := de_tracks env (dc_reads s) (dc_tracks s), dc_reads := dc_reads s + 1\<rparr>)"

definition acquire_loaded_track_for_deck :: "deck_env \<Rightarrow> nat \<Rightarrow> (deck_loaded_track_summary \<times> anlz_metadata option) option deck_action" where
  "acquire_loaded_track_for_deck env deck = do { tracks_turn env; gets (\<lambda>s. loaded_view deck (dc_tracks s)) }"

definition loaded_summary :: "deck_env \<Rightarrow> nat \<Rightarrow> deck_loaded_track_summary option deck_action" where
  "loaded_summary env deck = do { tracks_turn env; gets (\<lambda>s. deck_loaded_track_store_get deck (snd (dc_tracks s))) }"

text \<open>The metadata the core uses: only of a track that is there and has analysis.\<close>

definition usable_meta :: "(deck_loaded_track_summary \<times> anlz_metadata option) option \<Rightarrow> anlz_metadata option" where
  "usable_meta loaded = (case loaded of None \<Rightarrow> None | Some (summary, meta) \<Rightarrow> if lt_has_anlz summary then meta else None)"

section \<open>Initial values\<close>

definition zero_deck_state :: deck_state where
  "zero_deck_state = \<lparr>ds_playing = False, ds_position_ms = 0, ds_cue_point_ms = 0, ds_pitch = 0, ds_pitch_centipercent = 0, ds_tempo_range_percent = 0,
     ds_perf_mode = PERF_MODE_HOT_CUE, ds_pad_mode = 0, ds_sync_enabled = False, ds_sync_master = False, ds_quantize_enabled = False,
     ds_censor_active = False, ds_master_tempo = False, ds_control_link_connected = False, ds_last_heartbeat_age_ms = 0\<rparr>"

definition init_deck_state :: deck_state where
  "init_deck_state = zero_deck_state\<lparr>ds_pitch := word_of_int PITCH_CENTER, ds_pitch_centipercent := 0,
     ds_tempo_range_percent := DEFAULT_TEMPO_RANGE_PERCENT, ds_pad_mode := CTRL_PAD_MODE_HOT_CUE\<rparr>"

definition init_beat_fx_state :: deck_core_beat_fx_state where
  "init_beat_fx_state = \<lparr>fx_effect = DECK_CORE_BEAT_FX_FILTER, fx_beat = DECK_CORE_BEAT_FX_BEAT_1, fx_target = TARGET_BOTH,
     fx_depth = 64, fx_enabled = False\<rparr>"

definition zero_loop :: deck_loop_shadow where
  "zero_loop = \<lparr>lo_pending_in = False, lo_pending_start_ms = 0, lo_last_valid = False, lo_last_start_ms = 0, lo_last_end_ms = 0\<rparr>"

definition zero_roll :: deck_shifted_loop_roll where
  "zero_roll = \<lparr>ro_active = False, ro_previous_active = False, ro_previous_start_ms = 0, ro_previous_end_ms = 0\<rparr>"

definition zero_pad_fx_led :: deck_pad_fx_led_state where
  "zero_pad_fx_led = \<lparr>px_active = False, px_mode = 0, px_pad = 0\<rparr>"

definition zero_beat_loop_led :: deck_beat_loop_led_state where
  "zero_beat_loop_led = \<lparr>bl_active = False, bl_pad = 0\<rparr>"

definition zero_censor :: deck_censor_shadow where
  "zero_censor = \<lparr>ce_active = False, ce_was_playing = False, ce_origin_ms = 0, ce_press_tick = 0\<rparr>"

section \<open>Small functions\<close>

definition normalize_deck :: "nat \<Rightarrow> nat" where
  "normalize_deck deck = (if deck < DECK_CORE_DECK_COUNT then deck else DECK_CORE_COMPAT_DECK)"

definition deck_uses_audio_engine :: "nat \<Rightarrow> bool" where
  "deck_uses_audio_engine deck \<longleftrightarrow> deck < DECK_CORE_DECK_COUNT"

definition deck_index_for_event :: "ctrl_event \<Rightarrow> nat" where
  "deck_index_for_event ev =
     (if ev_id ev = CTRL_ID_LOAD_DECK1 \<or> ev_id ev = CTRL_ID_SHIFT_LOAD_DECK1 then 0
      else if ev_id ev = CTRL_ID_LOAD_DECK2 \<or> ev_id ev = CTRL_ID_SHIFT_LOAD_DECK2 then 1
      else if control_link_id_is_deck (ev_id ev) then unat (control_link_id_deck (ev_id ev))
      else if unat (ev_deck ev) < DECK_CORE_DECK_COUNT then unat (ev_deck ev)
      else DECK_CORE_COMPAT_DECK)"

text \<open>Division of C, towards zero.\<close>

definition quotient :: "int \<Rightarrow> int \<Rightarrow> int" where
  "quotient a b = (if a < 0 then - ((- a) div b) else a div b)"

definition tempo_centipercent_from_raw :: "i16 \<Rightarrow> u16 \<Rightarrow> i16" where
  "tempo_centipercent_from_raw raw range_percent =
     (let clamped = (if sint raw < 0 then 0 else if sint raw > 16383 then 16383 else sint raw);
          centi_range = uint range_percent * 100
      in word_of_int (quotient ((PITCH_CENTER - clamped) * centi_range) PITCH_CENTER))"

definition next_tempo_range_percent :: "u16 \<Rightarrow> u16" where
  "next_tempo_range_percent current = (if current = 6 then 10 else if current = 10 then 16 else 6)"

fun next_perf_mode :: "perf_mode \<Rightarrow> perf_mode" where
  "next_perf_mode PERF_MODE_HOT_CUE = PERF_MODE_LOOP_ROLL"
| "next_perf_mode PERF_MODE_LOOP_ROLL = PERF_MODE_BEAT_JUMP"
| "next_perf_mode PERF_MODE_BEAT_JUMP = PERF_MODE_KEY_SHIFT"
| "next_perf_mode PERF_MODE_KEY_SHIFT = PERF_MODE_HOT_CUE"

definition clamp_centipercent_to_range :: "int \<Rightarrow> u16 \<Rightarrow> i16" where
  "clamp_centipercent_to_range centipercent range_percent =
     (let limit = uint range_percent * 100
      in if centipercent > limit then word_of_int limit else if centipercent < - limit then word_of_int (- limit) else word_of_int centipercent)"

definition deck_core_pitch_percent :: "deck_state \<Rightarrow> rat" where
  "deck_core_pitch_percent st = f32 (of_int (sint (ds_pitch_centipercent st)) / 100)"

section \<open>Published state\<close>

definition publish_state_snapshot :: "unit deck_action" where
  "publish_state_snapshot = modify (\<lambda>s. s\<lparr>dc_published := \<lparr>sp_decks = map dk_state (dc_decks s), sp_loops = map dk_loop (dc_decks s),
     sp_beat_fx = dc_beat_fx s, sp_heartbeat_tick = dc_heartbeat_tick s\<rparr>\<rparr>)"

definition deck_core_get_deck_state :: "deck_env \<Rightarrow> nat \<Rightarrow> deck_state deck_action" where
  "deck_core_get_deck_state env deck = (let idx = normalize_deck deck in do {
     p \<leftarrow> gets dc_published;
     let snap = sp_decks p ! idx;
     snap \<leftarrow> (if deck_uses_audio_engine idx
       then do {
         playing \<leftarrow> engine (audio_engine_deck_is_playing (de_audio env) idx);
         position \<leftarrow> engine (audio_engine_deck_position_ms (de_audio env) idx);
         ret (snap\<lparr>ds_playing := playing, ds_position_ms := position\<rparr>) }
       else ret snap);
     now \<leftarrow> xTaskGetTickCount env;
     ret (if sp_heartbeat_tick p \<noteq> 0
          then let age_ms = now - sp_heartbeat_tick p in snap\<lparr>ds_last_heartbeat_age_ms := age_ms, ds_control_link_connected := (age_ms \<le> 10000)\<rparr>
          else snap\<lparr>ds_last_heartbeat_age_ms := 0xFFFFFFFF, ds_control_link_connected := False\<rparr>) })"

definition deck_core_get_state :: "deck_env \<Rightarrow> deck_state deck_action" where
  "deck_core_get_state env = deck_core_get_deck_state env DECK_CORE_COMPAT_DECK"

definition deck_core_get_beat_fx_state :: "deck_core_beat_fx_state deck_action" where
  "deck_core_get_beat_fx_state = gets (\<lambda>s. sp_beat_fx (dc_published s))"

section \<open>Tempo\<close>

definition deck_base_bpm :: "deck_env \<Rightarrow> nat \<Rightarrow> u16 deck_action" where
  "deck_base_bpm env deck = do {
     loaded \<leftarrow> loaded_summary env deck;
     ret (case loaded of None \<Rightarrow> 120
          | Some t \<Rightarrow> if \<not> lt_valid t then 120
                      else if lt_bpm_x100 t > 0 then ucast ((lt_bpm_x100 t + 50) div 100)
                      else if lt_bpm t > 0 then lt_bpm t else 120) }"

definition deck_base_bpm_x100 :: "deck_env \<Rightarrow> nat \<Rightarrow> u32 deck_action" where
  "deck_base_bpm_x100 env deck = do {
     loaded \<leftarrow> loaded_summary env deck;
     case loaded of
       Some t \<Rightarrow> if lt_valid t \<and> lt_bpm_x100 t > 0 then ret (lt_bpm_x100 t) else do { bpm \<leftarrow> deck_base_bpm env deck; ret (ucast bpm * 100) }
     | None \<Rightarrow> do { bpm \<leftarrow> deck_base_bpm env deck; ret (ucast bpm * 100) } }"

definition float_u32 :: "u32 \<Rightarrow> rat" where
  "float_u32 x = f32 (of_int (uint x))"

definition deck_effective_bpm :: "deck_env \<Rightarrow> nat \<Rightarrow> deck_state \<Rightarrow> rat deck_action" where
  "deck_effective_bpm env deck st = do {
     base \<leftarrow> deck_base_bpm_x100 env deck;
     let bpm = f32 (float_u32 base / 100);
     ret (f32 (bpm * f32 (1 + f32 (deck_core_pitch_percent st / 100)))) }"

text \<open>The tempo that makes a deck run at the speed of the reference, in hundredths of a percent.\<close>

definition required_centipercent :: "deck_env \<Rightarrow> nat \<Rightarrow> nat \<Rightarrow> int deck_action" where
  "required_centipercent env deck reference_deck = do {
     target_base_x100 \<leftarrow> deck_base_bpm_x100 env deck;
     let target_base_x100 = (if target_base_x100 = 0 then 12000 else target_base_x100);
     reference \<leftarrow> state_of reference_deck;
     reference_bpm \<leftarrow> deck_effective_bpm env reference_deck reference;
     let target_base_bpm = f32 (float_u32 target_base_x100 / 100);
     let target_percent = f32 (f32 (f32 (reference_bpm / target_base_bpm) - 1) * 100);
     ret (cut (madd (ae_fused (de_audio env)) target_percent 100 (if target_percent \<ge> 0 then 1 / 2 else - 1 / 2))) }"

definition centipercent_for_bpm_match :: "deck_env \<Rightarrow> nat \<Rightarrow> nat \<Rightarrow> i16 deck_action" where
  "centipercent_for_bpm_match env deck reference_deck = do {
     centipercent \<leftarrow> required_centipercent env deck reference_deck;
     ret (clamp_centipercent_to_range centipercent BEAT_SYNC_MAX_PERCENT) }"

definition beat_sync_requires_clamp :: "deck_env \<Rightarrow> nat \<Rightarrow> nat \<Rightarrow> i16 \<Rightarrow> bool deck_action" where
  "beat_sync_requires_clamp env deck reference_deck applied = do {
     centipercent \<leftarrow> required_centipercent env deck reference_deck; ret (centipercent \<noteq> sint applied) }"

definition deck_synced_bpm_after_pitch :: "deck_env \<Rightarrow> nat \<Rightarrow> i16 \<Rightarrow> rat deck_action" where
  "deck_synced_bpm_after_pitch env deck pitch_centipercent = do {
     base \<leftarrow> deck_base_bpm_x100 env deck;
     ret (f32 (f32 (float_u32 base / 100) * f32 (1 + f32 (of_int (sint pitch_centipercent) / 10000)))) }"

definition current_deck_position_ms :: "deck_env \<Rightarrow> nat \<Rightarrow> u32 deck_action" where
  "current_deck_position_ms env deck =
     (if deck_uses_audio_engine deck then engine (audio_engine_deck_position_ms (de_audio env) deck)
      else do { st \<leftarrow> state_of deck; ret (ds_position_ms st) })"

section \<open>Hot cues of the loaded track\<close>

definition hot_cue_mask_cache_invalidate :: "nat \<Rightarrow> unit deck_action" where
  "hot_cue_mask_cache_invalidate deck =
     (if deck \<ge> DECK_CORE_DECK_COUNT then ret () else on_slot deck (\<lambda>d. d\<lparr>dk_mask_key := 0, dk_mask_value := 0\<rparr>))"

definition hot_cue_mask_cache_store :: "nat \<Rightarrow> u32 \<Rightarrow> u8 \<Rightarrow> unit deck_action" where
  "hot_cue_mask_cache_store deck track_key cue_mask = do {
     cond (deck < DECK_CORE_DECK_COUNT) (on_slot deck (\<lambda>d. d\<lparr>dk_mask_key := track_key, dk_mask_value := cue_mask\<rparr>));
     for_each [0..<DECK_CORE_DECK_COUNT] (\<lambda>i. on_slot i (\<lambda>d. if i \<noteq> deck \<and> dk_mask_key d = track_key then d\<lparr>dk_mask_value := cue_mask\<rparr> else d)) }"

definition loaded_track_key_for_deck :: "deck_env \<Rightarrow> nat \<Rightarrow> u32 deck_action" where
  "loaded_track_key_for_deck env deck =
     (if deck \<ge> DECK_CORE_DECK_COUNT then ret 0
      else do { loaded \<leftarrow> loaded_summary env deck;
        ret (case loaded of None \<Rightarrow> 0 | Some t \<Rightarrow> if lt_valid t then lt_track_key t else 0) })"

definition hot_cue_exists_mask_for_deck :: "deck_env \<Rightarrow> nat \<Rightarrow> u8 deck_action" where
  "hot_cue_exists_mask_for_deck env deck = do {
     track_key \<leftarrow> loaded_track_key_for_deck env deck;
     d \<leftarrow> slot_of deck;
     if track_key = 0 then ret 0
     else if deck < DECK_CORE_DECK_COUNT \<and> dk_mask_key d = track_key then ret (dk_mask_value d)
     else do {
       r \<leftarrow> storage (hot_cue_store_load (de_nvs env) track_key);
       let cue_mask = (case r of Inl _ \<Rightarrow> 0 | Inr blob \<Rightarrow> ucast (hc_valid_mask blob AND 0xFF));
       hot_cue_mask_cache_store deck track_key cue_mask;
       ret cue_mask } }"

section \<open>Lights\<close>

definition deck_has_loaded_track :: "deck_env \<Rightarrow> nat \<Rightarrow> bool deck_action" where
  "deck_has_loaded_track env deck = do {
     status \<leftarrow> engine (audio_engine_deck_get_status (de_audio env) deck);
     ret (case status of None \<Rightarrow> False | Some st \<Rightarrow> as_loaded st) }"

definition deck_send_led :: "deck_env \<Rightarrow> u8 \<Rightarrow> u8 \<Rightarrow> nat \<Rightarrow> unit deck_action" where
  "deck_send_led env led value deck = do {
     value \<leftarrow> (if deck < DECK_CORE_DECK_COUNT
       then do {
         d \<leftarrow> slot_of deck;
         let beat_jump_mode = (ds_pad_mode (dk_state d) = CTRL_PAD_MODE_BEAT_JUMP);
         loaded \<leftarrow> deck_has_loaded_track env deck;
         ret (if led \<ge> LED_BEAT_JUMP_PAD_1 \<and> led \<le> LED_BEAT_JUMP_PAD_8 then (if beat_jump_mode \<and> loaded then 1 else 0)
              else if led \<ge> LED_BEAT_JUMP_SHIFT_HELPER_7 \<and> led \<le> LED_BEAT_JUMP_SHIFT_HELPER_8
              then (if beat_jump_mode \<and> dk_shift_held d \<and> loaded then 1 else 0)
              else value) }
       else ret value);
     emit (Led led value deck) }"

definition sync_legacy_compat_leds :: "nat \<Rightarrow> unit deck_action" where
  "sync_legacy_compat_leds deck =
     (if deck \<noteq> DECK_CORE_COMPAT_DECK then ret ()
      else do {
        st \<leftarrow> state_of deck;
        emit (Led LED_PLAY (if ds_playing st then 1 else 0) 0);
        emit (Led LED_CUE (if ds_position_ms st = ds_cue_point_ms st then 1 else 0) 0) })"

definition performance_pad :: "u8 \<Rightarrow> bool" where
  "performance_pad led \<longleftrightarrow>
     (led \<ge> LED_BEAT_LOOP_PAD_1 \<and> led \<le> LED_BEAT_LOOP_PAD_8) \<or> (led \<ge> LED_PAD_FX1_PAD_1 \<and> led \<le> LED_PAD_FX2_PAD_8) \<or>
     (led \<ge> LED_HOT_CUE_PAD_1 \<and> led \<le> LED_HOT_CUE_PAD_8)"

definition send_snapshot_led :: "deck_env \<Rightarrow> u8 \<Rightarrow> u8 \<Rightarrow> nat \<Rightarrow> esp_err deck_action" where
  "send_snapshot_led env led value deck = do {
     suppress \<leftarrow> gets dc_suppress_inactive_pads;
     if suppress \<and> performance_pad led \<and> value = 0 then ret ESP_OK
     else do { deck_send_led env led value deck; ret ESP_OK } }"

definition send_momentary_led :: "deck_env \<Rightarrow> u8 \<Rightarrow> nat \<Rightarrow> unit deck_action" where
  "send_momentary_led env led deck = do { deck_send_led env led 1 deck; deck_send_led env led 0 deck }"

definition track_load_led_for_deck :: "nat \<Rightarrow> u8" where
  "track_load_led_for_deck deck = (if deck = 1 then LED_TRACK_LOAD_DECK2 else LED_TRACK_LOAD_DECK1)"

definition publish_track_load_leds :: "deck_env \<Rightarrow> bool \<Rightarrow> unit deck_action" where
  "publish_track_load_leds env force = for_each [0..<DECK_CORE_DECK_COUNT] (\<lambda>deck. do {
     loaded \<leftarrow> deck_has_loaded_track env deck;
     d \<leftarrow> slot_of deck;
     let value = (if loaded then 1 else 0);
     cond (force \<or> dk_track_load_led d \<noteq> Some value) (do {
       deck_send_led env (track_load_led_for_deck deck) value deck;
       on_slot deck (\<lambda>d. d\<lparr>dk_track_load_led := Some value\<rparr>) }) })"

definition publish_beat_jump_pad_leds_for_deck :: "deck_env \<Rightarrow> nat \<Rightarrow> bool \<Rightarrow> unit deck_action" where
  "publish_beat_jump_pad_leds_for_deck env deck force =
     (if deck \<ge> DECK_CORE_DECK_COUNT then ret ()
      else do {
        st \<leftarrow> deck_core_get_deck_state env deck;
        loaded \<leftarrow> (if ds_pad_mode st = CTRL_PAD_MODE_BEAT_JUMP then deck_has_loaded_track env deck else ret False);
        let value = (if loaded then 1 else 0);
        for_each [0..<8] (\<lambda>pad. do {
          d \<leftarrow> slot_of deck;
          cond (force \<or> dk_beat_jump_pad_led d ! pad \<noteq> Some value) (do {
            cond (\<not> (force \<and> value = 0)) (deck_send_led env (LED_BEAT_JUMP_PAD_1 + of_nat pad) value deck);
            on_slot deck (\<lambda>d. d\<lparr>dk_beat_jump_pad_led := (dk_beat_jump_pad_led d)[pad := Some value]\<rparr>) }) }) })"

definition publish_beat_jump_pad_leds :: "deck_env \<Rightarrow> bool \<Rightarrow> unit deck_action" where
  "publish_beat_jump_pad_leds env force = for_each [0..<DECK_CORE_DECK_COUNT] (\<lambda>deck. publish_beat_jump_pad_leds_for_deck env deck force)"

definition publish_beat_jump_shift_helper_leds_for_deck :: "deck_env \<Rightarrow> nat \<Rightarrow> bool \<Rightarrow> unit deck_action" where
  "publish_beat_jump_shift_helper_leds_for_deck env deck force =
     (if deck \<ge> DECK_CORE_DECK_COUNT then ret ()
      else do {
        st \<leftarrow> deck_core_get_deck_state env deck;
        d \<leftarrow> slot_of deck;
        loaded \<leftarrow> (if ds_pad_mode st = CTRL_PAD_MODE_BEAT_JUMP \<and> dk_shift_held d then deck_has_loaded_track env deck else ret False);
        let value = (if loaded then 1 else 0);
        for_each [0..<2] (\<lambda>pad. do {
          d \<leftarrow> slot_of deck;
          cond (force \<or> dk_shift_helper_led d ! pad \<noteq> Some value) (do {
            cond (\<not> (force \<and> value = 0)) (deck_send_led env (LED_BEAT_JUMP_SHIFT_HELPER_7 + of_nat pad) value deck);
            on_slot deck (\<lambda>d. d\<lparr>dk_shift_helper_led := (dk_shift_helper_led d)[pad := Some value]\<rparr>) }) }) })"

definition publish_beat_jump_shift_helper_leds :: "deck_env \<Rightarrow> bool \<Rightarrow> unit deck_action" where
  "publish_beat_jump_shift_helper_leds env force =
     for_each [0..<DECK_CORE_DECK_COUNT] (\<lambda>deck. publish_beat_jump_shift_helper_leds_for_deck env deck force)"

text \<open>The input of the publisher for one deck: first from the published state, then corrected from the live state.\<close>

definition flag :: "bool \<Rightarrow> u8" where
  "flag b = (if b then 1 else 0)"

definition led_input :: "deck_env \<Rightarrow> nat \<Rightarrow> led_deck_input deck_action" where
  "led_input env deck = do {
     st \<leftarrow> deck_core_get_deck_state env deck;
     pfl \<leftarrow> engine (audio_engine_get_pfl_enabled (de_audio env) deck);
     d \<leftarrow> slot_of deck;
     cue_mask \<leftarrow> hot_cue_exists_mask_for_deck env deck;
     lp \<leftarrow> engine (audio_engine_deck_get_loop_state (de_audio env) deck);
     let (loop_active, loop_start, loop_end) = (case lp of Some l \<Rightarrow> l | None \<Rightarrow> (False, 0, 0));
     ret \<lparr>li_cue = flag (ds_position_ms st = ds_cue_point_ms st), li_play = flag (ds_playing st), li_pfl = flag pfl,
       li_sync = flag (ds_sync_enabled st), li_pad_mode = ds_pad_mode st, li_loop_in_marker = flag (lo_pending_in (dk_loop d)),
       li_loop_active = flag loop_active, li_loop_start_ms = loop_start, li_loop_end_ms = loop_end,
       li_beat_loop_pad_active = flag (bl_active (dk_beat_loop_led d)), li_beat_loop_active_pad = bl_pad (dk_beat_loop_led d),
       li_hot_cue_exists_mask = cue_mask, li_pad_fx_active = flag (px_active (dk_pad_fx_led d)), li_pad_fx_active_mode = px_mode (dk_pad_fx_led d),
       li_pad_fx_active_pad = px_pad (dk_pad_fx_led d), li_censor_active = flag (ds_censor_active st)\<rparr> }"

definition live_led_input :: "deck_env \<Rightarrow> nat \<Rightarrow> led_deck_input \<Rightarrow> led_deck_input deck_action" where
  "live_led_input env deck i = do {
     d \<leftarrow> slot_of deck;
     let st = dk_state d;
     st \<leftarrow> (if deck_uses_audio_engine deck
       then do {
         playing \<leftarrow> engine (audio_engine_deck_is_playing (de_audio env) deck);
         position \<leftarrow> engine (audio_engine_deck_position_ms (de_audio env) deck);
         ret (st\<lparr>ds_playing := playing, ds_position_ms := position\<rparr>) }
       else ret st);
     ret (i\<lparr>li_cue := flag (ds_position_ms st = ds_cue_point_ms st), li_play := flag (ds_playing st), li_sync := flag (ds_sync_enabled st),
       li_pad_mode := ds_pad_mode st, li_censor_active := flag (ds_censor_active st), li_loop_in_marker := flag (lo_pending_in (dk_loop d))\<rparr>) }"

definition snapshot_input :: "deck_env \<Rightarrow> flx4_led_snapshot_input deck_action" where
  "snapshot_input env = do {
     smart_cfx \<leftarrow> engine (audio_engine_get_smart_cfx_enabled (de_audio env));
     smart_fader \<leftarrow> engine (audio_engine_get_smart_fader_enabled (de_audio env));
     fx \<leftarrow> gets dc_beat_fx;
     master_cue \<leftarrow> engine (audio_engine_get_master_cue_enabled (de_audio env));
     d0 \<leftarrow> led_input env 0;
     d1 \<leftarrow> led_input env 1;
     d0 \<leftarrow> live_led_input env 0 d0;
     d1 \<leftarrow> live_led_input env 1 d1;
     ret \<lparr>li_decks = [d0, d1], li_smart_cfx = flag smart_cfx, li_smart_fader = flag smart_fader, li_beat_fx_on = flag (fx_enabled fx),
       li_master_cue = flag master_cue\<rparr> }"

definition publish_snapshot :: "deck_env \<Rightarrow> flx4_led_snapshot_input \<Rightarrow> bool \<Rightarrow> unit deck_action" where
  "publish_snapshot env input force = do {
     modify (\<lambda>s. s\<lparr>dc_suppress_inactive_pads := force\<rparr>);
     p \<leftarrow> gets dc_publisher;
     (p, rc) \<leftarrow> flx4_led_publisher_publish p input force (send_snapshot_led env);
     modify (\<lambda>s. s\<lparr>dc_publisher := p, dc_suppress_inactive_pads := False\<rparr>) }"

definition publish_flx4_led_snapshot :: "deck_env \<Rightarrow> bool \<Rightarrow> unit deck_action" where
  "publish_flx4_led_snapshot env force = do {
     input \<leftarrow> snapshot_input env;
     publish_state_snapshot;
     publish_snapshot env input force;
     publish_track_load_leds env force;
     publish_beat_jump_pad_leds env force;
     publish_beat_jump_shift_helper_leds env force }"

definition publish_loaded_track_hot_cue_leds :: "deck_env \<Rightarrow> nat \<Rightarrow> unit deck_action" where
  "publish_loaded_track_hot_cue_leds env deck =
     (if deck \<ge> DECK_CORE_DECK_COUNT then ret ()
      else do {
        st \<leftarrow> deck_core_get_deck_state env deck;
        cue_mask \<leftarrow> hot_cue_exists_mask_for_deck env deck;
        for_each [0..<HOT_CUE_STORE_SLOT_COUNT] (\<lambda>pad. do {
          d \<leftarrow> slot_of deck;
          let value = flag (ds_pad_mode st = CTRL_PAD_MODE_HOT_CUE \<and> bit cue_mask pad);
          cond (case dk_loaded_hot_cue_mask d of None \<Rightarrow> value \<noteq> 0 | Some previous \<Rightarrow> value \<noteq> flag (bit previous pad))
            (deck_send_led env (LED_HOT_CUE_PAD_1 + of_nat pad) value deck) });
        on_slot deck (\<lambda>d. d\<lparr>dk_loaded_hot_cue_mask := Some (if ds_pad_mode st = CTRL_PAD_MODE_HOT_CUE then cue_mask else 0)\<rparr>) })"

end
