(* ===== verification/Deck_Handlers.thy ===== *)
theory Deck_Handlers
  imports Deck_State
begin

text \<open>
  The handlers of the deck core (\<open>deck_core.c\<close>): beat effects, hot cues, beat jumps, loops, censor, platter, tempo and sync, mixer,
  transport and the status events of the other board.  Where the code takes a deck and a pointer to the state of that deck, the deck
  alone is the argument.
\<close>

section \<open>Beat effects\<close>

abbreviation (input) BEAT_FX_ECHO_FALLBACK_BPM :: rat where "BEAT_FX_ECHO_FALLBACK_BPM \<equiv> 120"
abbreviation (input) BEAT_FX_ECHO_MIN_BPM :: rat where "BEAT_FX_ECHO_MIN_BPM \<equiv> 40"
abbreviation (input) BEAT_FX_ECHO_MAX_BPM :: rat where "BEAT_FX_ECHO_MAX_BPM \<equiv> 300"
abbreviation (input) BEAT_FX_ECHO_MAX_DELAY_MS :: u32 where "BEAT_FX_ECHO_MAX_DELAY_MS \<equiv> 1000"
abbreviation (input) BEAT_FX_FLANGER_MIN_PERIOD_MS :: u32 where "BEAT_FX_FLANGER_MIN_PERIOD_MS \<equiv> 100"
abbreviation (input) BEAT_FX_FLANGER_MAX_PERIOD_MS :: u32 where "BEAT_FX_FLANGER_MAX_PERIOD_MS \<equiv> 8000"

fun beat_fx_audio_target :: "ctrl_beat_fx_target \<Rightarrow> audio_engine_beat_fx_target" where
  "beat_fx_audio_target TARGET_CH1 = AUDIO_ENGINE_BEAT_FX_TARGET_CH1"
| "beat_fx_audio_target TARGET_CH2 = AUDIO_ENGINE_BEAT_FX_TARGET_CH2"
| "beat_fx_audio_target TARGET_BOTH = AUDIO_ENGINE_BEAT_FX_TARGET_BOTH"

definition beat_fx_beat_ratio :: "nat \<Rightarrow> (int \<times> int) option" where
  "beat_fx_beat_ratio beat =
     (if beat = DECK_CORE_BEAT_FX_BEAT_1_4 then Some (1, 4)
      else if beat = DECK_CORE_BEAT_FX_BEAT_1_2 then Some (1, 2)
      else if beat = DECK_CORE_BEAT_FX_BEAT_1 then Some (1, 1)
      else if beat = DECK_CORE_BEAT_FX_BEAT_2 then Some (2, 1)
      else if beat = DECK_CORE_BEAT_FX_BEAT_4 then Some (4, 1)
      else None)"

definition beat_fx_target_bpm :: "deck_env \<Rightarrow> ctrl_beat_fx_target \<Rightarrow> rat deck_action" where
  "beat_fx_target_bpm env target = (let deck = (if target = TARGET_CH2 then 1 else 0) in do {
     st \<leftarrow> state_of deck;
     bpm \<leftarrow> deck_effective_bpm env deck st;
     ret (if bpm < BEAT_FX_ECHO_MIN_BPM \<or> bpm > BEAT_FX_ECHO_MAX_BPM then BEAT_FX_ECHO_FALLBACK_BPM else bpm) })"

text \<open>The time of a number of beats, in milliseconds, rounded.\<close>

definition beats_ms :: "int \<Rightarrow> int \<Rightarrow> rat \<Rightarrow> u32" where
  "beats_ms numerator denominator bpm =
     word_of_int (cut (f32 (f32 (f32 (60000 * of_int numerator) / f32 (bpm * of_int denominator)) + 1 / 2)))"

definition beat_fx_delay_ms :: "deck_env \<Rightarrow> nat \<Rightarrow> ctrl_beat_fx_target \<Rightarrow> u32 deck_action" where
  "beat_fx_delay_ms env beat target =
     (case beat_fx_beat_ratio beat of
        None \<Rightarrow> ret 500
      | Some (numerator, denominator) \<Rightarrow> do {
          bpm \<leftarrow> beat_fx_target_bpm env target;
          let delay_ms = beats_ms numerator denominator bpm;
          let delay_ms = (if delay_ms < 1 then 1 else delay_ms);
          ret (if delay_ms > BEAT_FX_ECHO_MAX_DELAY_MS then BEAT_FX_ECHO_MAX_DELAY_MS else delay_ms) })"

definition beat_fx_flanger_period_ms :: "deck_env \<Rightarrow> nat \<Rightarrow> ctrl_beat_fx_target \<Rightarrow> u32 deck_action" where
  "beat_fx_flanger_period_ms env beat target =
     (case beat_fx_beat_ratio beat of
        None \<Rightarrow> ret 500
      | Some (numerator, denominator) \<Rightarrow> do {
          bpm \<leftarrow> beat_fx_target_bpm env target;
          let period_ms = beats_ms numerator denominator bpm;
          let period_ms = (if period_ms < BEAT_FX_FLANGER_MIN_PERIOD_MS then BEAT_FX_FLANGER_MIN_PERIOD_MS else period_ms);
          ret (if period_ms > BEAT_FX_FLANGER_MAX_PERIOD_MS then BEAT_FX_FLANGER_MAX_PERIOD_MS else period_ms) })"

fun beat_fx_next_effect :: "deck_core_beat_fx_effect \<Rightarrow> deck_core_beat_fx_effect" where
  "beat_fx_next_effect DECK_CORE_BEAT_FX_FILTER = DECK_CORE_BEAT_FX_ECHO"
| "beat_fx_next_effect DECK_CORE_BEAT_FX_ECHO = DECK_CORE_BEAT_FX_FLANGER"
| "beat_fx_next_effect DECK_CORE_BEAT_FX_FLANGER = DECK_CORE_BEAT_FX_DELAY"
| "beat_fx_next_effect _ = DECK_CORE_BEAT_FX_FILTER"

fun beat_fx_previous_effect :: "deck_core_beat_fx_effect \<Rightarrow> deck_core_beat_fx_effect" where
  "beat_fx_previous_effect DECK_CORE_BEAT_FX_FILTER = DECK_CORE_BEAT_FX_DELAY"
| "beat_fx_previous_effect DECK_CORE_BEAT_FX_DELAY = DECK_CORE_BEAT_FX_FLANGER"
| "beat_fx_previous_effect DECK_CORE_BEAT_FX_FLANGER = DECK_CORE_BEAT_FX_ECHO"
| "beat_fx_previous_effect DECK_CORE_BEAT_FX_ECHO = DECK_CORE_BEAT_FX_FILTER"
| "beat_fx_previous_effect _ = DECK_CORE_BEAT_FX_DELAY"

definition sync_beat_fx_audio_state :: "deck_env \<Rightarrow> unit deck_action" where
  "sync_beat_fx_audio_state env = do {
     fx \<leftarrow> gets dc_beat_fx;
     let target = beat_fx_audio_target (fx_target fx);
     engine (audio_engine_set_beat_fx_filter (de_audio env) target (fx_depth fx) (fx_enabled fx \<and> fx_effect fx = DECK_CORE_BEAT_FX_FILTER));
     delay_ms \<leftarrow> beat_fx_delay_ms env (fx_beat fx) (fx_target fx);
     (if fx_effect fx = DECK_CORE_BEAT_FX_DELAY
      then engine (audio_engine_set_beat_fx_delay (de_audio env) target (fx_depth fx) delay_ms (fx_enabled fx \<and> fx_effect fx = DECK_CORE_BEAT_FX_DELAY))
      else engine (audio_engine_set_beat_fx_echo (de_audio env) target (fx_depth fx) delay_ms (fx_enabled fx \<and> fx_effect fx = DECK_CORE_BEAT_FX_ECHO)));
     period_ms \<leftarrow> beat_fx_flanger_period_ms env (fx_beat fx) (fx_target fx);
     engine (audio_engine_set_beat_fx_flanger (de_audio env) target (fx_depth fx) period_ms (fx_enabled fx \<and> fx_effect fx = DECK_CORE_BEAT_FX_FLANGER));
     ret () }"

definition set_beat_fx :: "deck_env \<Rightarrow> (deck_core_beat_fx_state \<Rightarrow> deck_core_beat_fx_state) \<Rightarrow> unit deck_action" where
  "set_beat_fx env f = do { modify (\<lambda>s. s\<lparr>dc_beat_fx := f (dc_beat_fx s)\<rparr>); sync_beat_fx_audio_state env }"

section \<open>Hot cues\<close>

definition seek_deck :: "deck_env \<Rightarrow> nat \<Rightarrow> u32 \<Rightarrow> unit deck_action" where
  "seek_deck env deck target_ms = do {
     rc \<leftarrow> engine (audio_engine_deck_seek (de_audio env) deck target_ms);
     cond (rc = ESP_OK) (on_state deck (\<lambda>st. st\<lparr>ds_position_ms := target_ms\<rparr>)) }"

definition save_hot_cues :: "deck_env \<Rightarrow> nat \<Rightarrow> u32 \<Rightarrow> hot_cue_store_blob \<Rightarrow> unit deck_action" where
  "save_hot_cues env deck track_key blob = do {
     rc \<leftarrow> storage (hot_cue_store_save (de_nvs env) track_key blob);
     cond (rc = ESP_OK) (do {
       hot_cue_mask_cache_store deck track_key (ucast (hc_valid_mask blob AND 0xFF));
       publish_flx4_led_snapshot env False }) }"

definition handle_hot_cue_pad_action :: "deck_env \<Rightarrow> nat \<Rightarrow> nat \<Rightarrow> bool \<Rightarrow> unit deck_action" where
  "handle_hot_cue_pad_action env deck pad shifted =
     (if deck \<ge> DECK_CORE_DECK_COUNT \<or> pad \<ge> HOT_CUE_STORE_SLOT_COUNT then ret ()
      else do {
        track_key \<leftarrow> loaded_track_key_for_deck env deck;
        if track_key = 0 then ret ()
        else do {
          r \<leftarrow> storage (hot_cue_store_load (de_nvs env) track_key);
          case (case r of Inr blob \<Rightarrow> Some blob | Inl rc \<Rightarrow> if rc = ESP_ERR_NOT_FOUND then Some zero_blob else None) of
            None \<Rightarrow> ret ()
          | Some blob \<Rightarrow>
              if shifted
              then if \<not> bit (hc_valid_mask blob) pad then ret ()
                   else save_hot_cues env deck track_key
                     (blob\<lparr>hc_valid_mask := hc_valid_mask blob AND NOT (push_bit pad 1), hc_slots := (hc_slots blob)[pad := zero_slot]\<rparr>)
              else if bit (hc_valid_mask blob) pad then seek_deck env deck (hc_pos_ms (hc_slots blob ! pad))
              else do {
                pos_ms \<leftarrow> current_deck_position_ms env deck;
                save_hot_cues env deck track_key
                  (blob\<lparr>hc_valid_mask := hc_valid_mask blob OR push_bit pad 1,
                    hc_slots := (hc_slots blob)[pad := zero_slot\<lparr>hc_pos_ms := pos_ms, hc_end_ms := 0, hc_type := HOT_CUE_STORE_TYPE_SINGLE\<rparr>]\<rparr>) } } })"

section \<open>Beat jumps and loops\<close>

definition s_beat_jump_pad_shifts :: "int list" where
  "s_beat_jump_pad_shifts = [-32, -16, -8, -4, 4, 8, 16, 32]"

definition beat_jump_shift_for_pad :: "nat \<Rightarrow> int option" where
  "beat_jump_shift_for_pad pad = (if pad \<ge> 8 then None else Some (s_beat_jump_pad_shifts ! pad))"

definition handle_beat_jump :: "deck_env \<Rightarrow> nat \<Rightarrow> int \<Rightarrow> unit deck_action" where
  "handle_beat_jump env deck beat_shift =
     (if deck \<ge> DECK_CORE_DECK_COUNT \<or> beat_shift = 0 then ret ()
      else do {
        position_ms \<leftarrow> current_deck_position_ms env deck;
        loaded \<leftarrow> acquire_loaded_track_for_deck env deck;
        bpm \<leftarrow> (case loaded of
            Some (summary, meta) \<Rightarrow> if lt_bpm summary > 0 then ret (lt_bpm summary) else deck_base_bpm env deck
          | None \<Rightarrow> deck_base_bpm env deck);
        seek_deck env deck (beat_jump_calculate_target_ms position_ms bpm beat_shift (usable_meta loaded)) })"

definition s_beat_loop_pad_lengths :: "(u16 \<times> u16) list" where
  "s_beat_loop_pad_lengths = [(1, 32), (1, 16), (1, 8), (1, 4), (1, 2), (1, 1), (2, 1), (4, 1)]"

definition beat_loop_length_for_pad :: "nat \<Rightarrow> (u16 \<times> u16) option" where
  "beat_loop_length_for_pad pad = (if pad \<ge> 8 then None else Some (s_beat_loop_pad_lengths ! pad))"

definition on_loop :: "nat \<Rightarrow> (deck_loop_shadow \<Rightarrow> deck_loop_shadow) \<Rightarrow> unit deck_action" where
  "on_loop deck f = on_slot deck (\<lambda>d. d\<lparr>dk_loop := f (dk_loop d)\<rparr>)"

definition beat_loop_led_off :: "nat \<Rightarrow> unit deck_action" where
  "beat_loop_led_off deck = on_slot deck (\<lambda>d. d\<lparr>dk_beat_loop_led := (dk_beat_loop_led d)\<lparr>bl_active := False\<rparr>\<rparr>)"

definition remember_last_loop :: "nat \<Rightarrow> u32 \<Rightarrow> u32 \<Rightarrow> unit deck_action" where
  "remember_last_loop deck start_at end_at =
     (if deck \<ge> DECK_CORE_DECK_COUNT \<or> end_at \<le> start_at then ret ()
      else on_loop deck (\<lambda>l. l\<lparr>lo_last_valid := True, lo_last_start_ms := start_at, lo_last_end_ms := end_at\<rparr>))"

definition read_active_loop :: "deck_env \<Rightarrow> nat \<Rightarrow> (bool \<times> u32 \<times> u32) option deck_action" where
  "read_active_loop env deck =
     (if deck \<ge> DECK_CORE_DECK_COUNT then ret None else engine (audio_engine_deck_get_loop_state (de_audio env) deck))"

definition set_deck_loop :: "deck_env \<Rightarrow> nat \<Rightarrow> u32 \<Rightarrow> u32 \<Rightarrow> unit deck_action" where
  "set_deck_loop env deck start_at end_at =
     (if deck \<ge> DECK_CORE_DECK_COUNT \<or> end_at \<le> start_at then ret ()
      else do {
        rc \<leftarrow> engine (audio_engine_deck_set_loop (de_audio env) deck start_at end_at);
        cond (rc = ESP_OK) (do { remember_last_loop deck start_at end_at; publish_flx4_led_snapshot env False }) })"

definition nearest_beat_ms :: "deck_env \<Rightarrow> nat \<Rightarrow> u32 \<Rightarrow> u32 deck_action" where
  "nearest_beat_ms env deck position_ms = do {
     loaded \<leftarrow> acquire_loaded_track_for_deck env deck;
     ret (case grid (usable_meta loaded) of None \<Rightarrow> position_ms | Some (bs, n) \<Rightarrow> nearest_in_grid bs n position_ms) }"

definition quantized_deck_position_ms :: "deck_env \<Rightarrow> nat \<Rightarrow> u32 deck_action" where
  "quantized_deck_position_ms env deck = do {
     position_ms \<leftarrow> current_deck_position_ms env deck;
     st \<leftarrow> state_of deck;
     if \<not> ds_quantize_enabled st then ret position_ms else nearest_beat_ms env deck position_ms }"

definition stop_and_forget_loop :: "deck_env \<Rightarrow> nat \<Rightarrow> unit deck_action" where
  "stop_and_forget_loop env deck =
     (if deck \<ge> DECK_CORE_DECK_COUNT then ret ()
      else do {
        engine (audio_engine_deck_clear_loop (de_audio env) deck);
        on_slot deck (\<lambda>d. d\<lparr>dk_loop := zero_loop, dk_roll := zero_roll, dk_beat_loop_led := zero_beat_loop_led\<rparr>);
        publish_flx4_led_snapshot env False })"

definition adjust_loop_boundary :: "deck_env \<Rightarrow> nat \<Rightarrow> bool \<Rightarrow> unit deck_action" where
  "adjust_loop_boundary env deck adjust_in = do {
     l \<leftarrow> read_active_loop env deck;
     case l of
       Some (True, start_at, end_at) \<Rightarrow> do {
         position_ms \<leftarrow> quantized_deck_position_ms env deck;
         if adjust_in then cond (position_ms < end_at) (set_deck_loop env deck position_ms end_at)
         else cond (position_ms > start_at) (set_deck_loop env deck start_at position_ms) }
     | _ \<Rightarrow> ret () }"

abbreviation (input) CENSOR_REPEAT_BACK_MS :: u32 where "CENSOR_REPEAT_BACK_MS \<equiv> 1000"

definition handle_censor :: "deck_env \<Rightarrow> nat \<Rightarrow> bool \<Rightarrow> unit deck_action" where
  "handle_censor env deck pressed =
     (if deck \<ge> DECK_CORE_DECK_COUNT then ret ()
      else do {
        d \<leftarrow> slot_of deck;
        if pressed
        then if ce_active (dk_censor d) then ret ()
             else do {
               origin \<leftarrow> current_deck_position_ms env deck;
               let repeat_ms = (if origin > CENSOR_REPEAT_BACK_MS then origin - CENSOR_REPEAT_BACK_MS else 0);
               playing \<leftarrow> engine (audio_engine_deck_is_playing (de_audio env) deck);
               tick \<leftarrow> xTaskGetTickCount env;
               on_slot deck (\<lambda>d. d\<lparr>dk_censor := \<lparr>ce_active = True, ce_was_playing = playing, ce_origin_ms = origin, ce_press_tick = tick\<rparr>,
                 dk_state := (dk_state d)\<lparr>ds_censor_active := True\<rparr>\<rparr>);
               seek_deck env deck repeat_ms;
               publish_flx4_led_snapshot env False }
        else if \<not> ce_active (dk_censor d) then ret ()
        else do {
          target \<leftarrow> (if ce_was_playing (dk_censor d)
            then do { now \<leftarrow> xTaskGetTickCount env; ret (ce_origin_ms (dk_censor d) + (now - ce_press_tick (dk_censor d))) }
            else ret (ce_origin_ms (dk_censor d)));
          seek_deck env deck target;
          on_slot deck (\<lambda>d. d\<lparr>dk_state := (dk_state d)\<lparr>ds_censor_active := False\<rparr>, dk_censor := zero_censor\<rparr>);
          publish_flx4_led_snapshot env False } })"

definition handle_beat_loop_pad_action :: "deck_env \<Rightarrow> nat \<Rightarrow> nat \<Rightarrow> unit deck_action" where
  "handle_beat_loop_pad_action env deck pad =
     (if deck \<ge> DECK_CORE_DECK_COUNT then ret ()
      else case beat_loop_length_for_pad pad of
        None \<Rightarrow> ret ()
      | Some (numerator, denominator) \<Rightarrow> do {
          start_at \<leftarrow> current_deck_position_ms env deck;
          loaded \<leftarrow> acquire_loaded_track_for_deck env deck;
          bpm \<leftarrow> deck_base_bpm env deck;
          let duration_ms = beat_loop_calculate_duration_ms start_at bpm numerator denominator (usable_meta loaded);
          if duration_ms = 0 \<or> start_at > 0xFFFFFFFF - duration_ms then ret ()
          else do {
            on_slot deck (\<lambda>d. d\<lparr>dk_beat_loop_led := \<lparr>bl_active = True, bl_pad = of_nat pad\<rparr>\<rparr>);
            set_deck_loop env deck start_at (start_at + duration_ms) } })"

definition handle_shifted_beat_loop_press :: "deck_env \<Rightarrow> nat \<Rightarrow> nat \<Rightarrow> unit deck_action" where
  "handle_shifted_beat_loop_press env deck pad =
     (if deck \<ge> DECK_CORE_DECK_COUNT then ret ()
      else do {
        l \<leftarrow> read_active_loop env deck;
        case l of
          None \<Rightarrow> ret ()
        | Some (active, start_at, end_at) \<Rightarrow> do {
            on_slot deck (\<lambda>d. d\<lparr>dk_roll := \<lparr>ro_active = True, ro_previous_active = active, ro_previous_start_ms = start_at, ro_previous_end_ms = end_at\<rparr>\<rparr>);
            handle_beat_loop_pad_action env deck pad } })"

definition handle_shifted_beat_loop_release :: "deck_env \<Rightarrow> nat \<Rightarrow> unit deck_action" where
  "handle_shifted_beat_loop_release env deck =
     (if deck \<ge> DECK_CORE_DECK_COUNT then ret ()
      else do {
        d \<leftarrow> slot_of deck;
        let roll = dk_roll d;
        if \<not> ro_active roll then ret ()
        else do {
          (if ro_previous_active roll \<and> ro_previous_end_ms roll > ro_previous_start_ms roll
           then do { beat_loop_led_off deck; set_deck_loop env deck (ro_previous_start_ms roll) (ro_previous_end_ms roll) }
           else do {
             rc \<leftarrow> engine (audio_engine_deck_clear_loop (de_audio env) deck);
             cond (rc = ESP_OK) (do { beat_loop_led_off deck; publish_flx4_led_snapshot env False }) });
          on_slot deck (\<lambda>d. d\<lparr>dk_roll := zero_roll\<rparr>) } })"

text \<open>Halving and doubling: the loop that results, if any.\<close>

definition resized_loop :: "bool \<Rightarrow> u32 \<Rightarrow> u32 \<Rightarrow> u32 option" where
  "resized_loop halve start_at end_at =
     (let duration = end_at - start_at in
      if halve then if duration < 2 then None else Some (duration div 2)
      else if duration > 0xFFFFFFFF - start_at \<or> duration > (0xFFFFFFFF - start_at) div 2 then None else Some (duration * 2))"

definition on_loop_control :: "deck_env \<Rightarrow> nat \<Rightarrow> u8 \<Rightarrow> unit deck_action" where
  "on_loop_control env deck control =
     (if deck \<ge> DECK_CORE_DECK_COUNT then ret ()
      else do {
        position_ms \<leftarrow> quantized_deck_position_ms env deck;
        if control = CTRL_DECK_CTL_LOOP_IN
        then do {
          beat_loop_led_off deck;
          on_loop deck (\<lambda>l. l\<lparr>lo_pending_in := True, lo_pending_start_ms := position_ms\<rparr>);
          publish_flx4_led_snapshot env False }
        else if control = CTRL_DECK_CTL_LOOP_OUT
        then do {
          d \<leftarrow> slot_of deck;
          cond (lo_pending_in (dk_loop d) \<and> position_ms > lo_pending_start_ms (dk_loop d)) (do {
            beat_loop_led_off deck;
            set_deck_loop env deck (lo_pending_start_ms (dk_loop d)) position_ms;
            on_loop deck (\<lambda>l. l\<lparr>lo_pending_in := False\<rparr>) }) }
        else if control = CTRL_DECK_CTL_RELOOP_EXIT
        then do {
          l \<leftarrow> read_active_loop env deck;
          case l of
            None \<Rightarrow> ret ()
          | Some (True, start_at, end_at) \<Rightarrow> do {
              remember_last_loop deck start_at end_at;
              rc \<leftarrow> engine (audio_engine_deck_clear_loop (de_audio env) deck);
              cond (rc = ESP_OK) (do { beat_loop_led_off deck; publish_flx4_led_snapshot env False }) }
          | Some (False, start_at, end_at) \<Rightarrow> do {
              d \<leftarrow> slot_of deck;
              cond (lo_last_valid (dk_loop d)) (do {
                beat_loop_led_off deck;
                set_deck_loop env deck (lo_last_start_ms (dk_loop d)) (lo_last_end_ms (dk_loop d)) }) } }
        else if control = CTRL_DECK_CTL_LOOP_HALVE \<or> control = CTRL_DECK_CTL_LOOP_DOUBLE
        then do {
          l \<leftarrow> read_active_loop env deck;
          case l of
            Some (True, start_at, end_at) \<Rightarrow>
              if end_at \<le> start_at then ret ()
              else (case resized_loop (control = CTRL_DECK_CTL_LOOP_HALVE) start_at end_at of
                  None \<Rightarrow> ret ()
                | Some next_duration \<Rightarrow> do { beat_loop_led_off deck; set_deck_loop env deck start_at (start_at + next_duration) })
          | _ \<Rightarrow> ret () }
        else ret () })"

definition loop_size_steps :: "i16 \<Rightarrow> nat" where
  "loop_size_steps delta = nat \<bar>sint delta\<bar>"

definition on_loop_size_delta :: "deck_env \<Rightarrow> nat \<Rightarrow> i16 \<Rightarrow> unit deck_action" where
  "on_loop_size_delta env deck delta =
     (let steps = loop_size_steps delta; steps = (if steps > 32 then 32 else steps);
          control = (if sint delta < 0 then CTRL_DECK_CTL_LOOP_HALVE else CTRL_DECK_CTL_LOOP_DOUBLE)
      in for_each [0..<steps] (\<lambda>_. on_loop_control env deck control))"

section \<open>Platter\<close>

definition handle_jog_touch :: "deck_env \<Rightarrow> nat \<Rightarrow> bool \<Rightarrow> unit deck_action" where
  "handle_jog_touch env deck pressed =
     (if deck \<ge> DECK_CORE_DECK_COUNT then ret ()
      else do {
        d \<leftarrow> slot_of deck;
        if pressed
        then if dk_jog_touched d then ret ()
             else do {
               on_slot deck (\<lambda>d. d\<lparr>dk_jog_touched := True, dk_jog_hold_active := True\<rparr>);
               begun \<leftarrow> engine (audio_engine_deck_scratch_begin (de_audio env) deck);
               on_slot deck (\<lambda>d. d\<lparr>dk_jog_scratch_active := begun\<rparr>);
               st \<leftarrow> state_of deck;
               if begun then ret ()
               else if ds_playing st
               then do {
                 position_ms \<leftarrow> current_deck_position_ms env deck;
                 on_state deck (\<lambda>st. st\<lparr>ds_position_ms := position_ms\<rparr>);
                 engine (audio_engine_deck_set_hold (de_audio env) deck True) }
               else on_slot deck (\<lambda>d. d\<lparr>dk_jog_hold_active := False\<rparr>) }
        else if \<not> dk_jog_touched d then ret ()
        else do {
          on_slot deck (\<lambda>d. d\<lparr>dk_jog_touched := False\<rparr>);
          cond (dk_jog_hold_active d) (do {
            on_slot deck (\<lambda>d. d\<lparr>dk_jog_hold_active := False\<rparr>);
            (if dk_jog_scratch_active d then engine (audio_engine_deck_scratch_end (de_audio env) deck)
             else engine (audio_engine_deck_set_hold (de_audio env) deck False));
            on_slot deck (\<lambda>d. d\<lparr>dk_jog_scratch_active := False\<rparr>) }) } })"

text \<open>A position moved by a signed distance, stopped at the start.\<close>

definition moved_position :: "int \<Rightarrow> u32" where
  "moved_position target = (if target < 0 then 0 else word_of_int target)"

definition on_jog :: "deck_env \<Rightarrow> nat \<Rightarrow> u8 \<Rightarrow> i16 \<Rightarrow> unit deck_action" where
  "on_jog env deck control delta = (let idx = normalize_deck deck in do {
     d \<leftarrow> slot_of idx;
     let touched = (deck < DECK_CORE_DECK_COUNT \<and> dk_jog_touched d);
     if touched \<and> dk_jog_scratch_active d \<and> control = CTRL_DECK_CTL_JOG_SCRATCH
     then cond (deck_uses_audio_engine deck) (engine (audio_engine_deck_scratch_move (de_audio env) deck (sint delta)))
     else if ds_playing (dk_state d) \<and> (\<not> touched \<or> control = CTRL_DECK_CTL_JOG_BEND)
     then cond (deck_uses_audio_engine deck) (engine (audio_engine_deck_jog_nudge (de_audio env) deck (sint delta)))
     else do {
       let pos = moved_position (sint (ds_position_ms (dk_state d)) + sint delta * 3);
       on_state idx (\<lambda>st. st\<lparr>ds_position_ms := pos\<rparr>);
       cond (deck_uses_audio_engine deck) (do { rc \<leftarrow> engine (audio_engine_deck_seek (de_audio env) deck pos); ret () }) } })"

abbreviation (input) JOG_SEARCH_STEP_MS :: int where "JOG_SEARCH_STEP_MS \<equiv> 1000"
abbreviation (input) SEARCH_STEP_MS :: int where "SEARCH_STEP_MS \<equiv> 5000"

text \<open>Seek where the engine plays the deck, or just move where it does not.\<close>

definition search_to :: "deck_env \<Rightarrow> nat \<Rightarrow> u32 \<Rightarrow> unit deck_action" where
  "search_to env deck target = do {
     rc \<leftarrow> (if deck_uses_audio_engine deck then engine (audio_engine_deck_seek (de_audio env) deck target) else ret ESP_OK);
     cond (rc = ESP_OK) (on_state (normalize_deck deck) (\<lambda>st. st\<lparr>ds_position_ms := target\<rparr>)) }"

definition on_jog_search :: "deck_env \<Rightarrow> nat \<Rightarrow> i16 \<Rightarrow> unit deck_action" where
  "on_jog_search env deck delta =
     (if sint delta = 0 then ret ()
      else do {
        current \<leftarrow> (if deck_uses_audio_engine deck then engine (audio_engine_deck_position_ms (de_audio env) deck)
          else do { st \<leftarrow> state_of (normalize_deck deck); ret (ds_position_ms st) });
        search_to env deck (moved_position (uint current + sint delta * JOG_SEARCH_STEP_MS)) })"

section \<open>Tempo and sync\<close>

definition apply_deck_pitch :: "deck_env \<Rightarrow> nat \<Rightarrow> unit deck_action" where
  "apply_deck_pitch env deck = do {
     on_state (normalize_deck deck) (\<lambda>st. st\<lparr>ds_pitch_centipercent := tempo_centipercent_from_raw (ds_pitch st) (ds_tempo_range_percent st)\<rparr>);
     st \<leftarrow> state_of (normalize_deck deck);
     cond (deck_uses_audio_engine deck) (engine (audio_engine_deck_set_pitch_percent (de_audio env) deck (deck_core_pitch_percent st))) }"

definition on_pitch :: "deck_env \<Rightarrow> nat \<Rightarrow> i16 \<Rightarrow> unit deck_action" where
  "on_pitch env deck raw = (let idx = normalize_deck deck in do {
     st \<leftarrow> state_of idx;
     on_state idx (\<lambda>st. st\<lparr>ds_sync_enabled := False, ds_pitch := raw\<rparr>);
     apply_deck_pitch env deck;
     cond (ds_sync_enabled st) (publish_flx4_led_snapshot env False) })"

definition beat_sync_reference_deck :: "nat \<Rightarrow> nat deck_action" where
  "beat_sync_reference_deck deck = gets (\<lambda>s.
     if dc_sync_master s < DECK_CORE_DECK_COUNT \<and> dc_sync_master s \<noteq> deck then dc_sync_master s else if deck = 0 then 1 else 0)"

definition apply_beat_sync :: "deck_env \<Rightarrow> nat \<Rightarrow> bool deck_action" where
  "apply_beat_sync env deck =
     (if deck \<ge> DECK_CORE_DECK_COUNT then ret False
      else do {
        reference_deck \<leftarrow> beat_sync_reference_deck deck;
        target_centipercent \<leftarrow> centipercent_for_bpm_match env deck reference_deck;
        st \<leftarrow> state_of deck;
        let changed = (ds_pitch_centipercent st \<noteq> target_centipercent \<or> \<not> ds_sync_enabled st);
        on_state deck (\<lambda>st. st\<lparr>ds_sync_enabled := True, ds_pitch_centipercent := target_centipercent\<rparr>);
        st \<leftarrow> state_of deck;
        cond (deck_uses_audio_engine deck) (engine (audio_engine_deck_set_pitch_percent (de_audio env) deck (deck_core_pitch_percent st)));
        position_ms \<leftarrow> current_deck_position_ms env deck;
        target_loaded \<leftarrow> acquire_loaded_track_for_deck env deck;
        reference_loaded \<leftarrow> acquire_loaded_track_for_deck env reference_deck;
        reference_position_ms \<leftarrow> current_deck_position_ms env reference_deck;
        (case beat_phase_align_target_ms position_ms (usable_meta target_loaded) reference_position_ms (usable_meta reference_loaded) of
           None \<Rightarrow> ret ()
         | Some aligned_ms \<Rightarrow> seek_deck env deck aligned_ms);
        base \<leftarrow> deck_base_bpm env deck;
        reference \<leftarrow> state_of reference_deck;
        reference_bpm \<leftarrow> deck_effective_bpm env reference_deck reference;
        synced_bpm \<leftarrow> deck_synced_bpm_after_pitch env deck target_centipercent;
        sync_clamped \<leftarrow> beat_sync_requires_clamp env deck reference_deck target_centipercent;
        ret changed })"

definition set_sync_master :: "deck_env \<Rightarrow> nat \<Rightarrow> unit deck_action" where
  "set_sync_master env deck =
     (if deck \<ge> DECK_CORE_DECK_COUNT then ret ()
      else do {
        modify (\<lambda>s. s\<lparr>dc_sync_master := deck\<rparr>);
        for_each [0..<DECK_CORE_DECK_COUNT] (\<lambda>i. on_state i (\<lambda>st. st\<lparr>ds_sync_master := (i = deck)\<rparr>));
        on_state deck (\<lambda>st. st\<lparr>ds_sync_enabled := False\<rparr>);
        publish_flx4_led_snapshot env False })"

end
