(* ===== verification/Deck_Core.thy ===== *)
theory Deck_Core
  imports Deck_Handlers
begin

text \<open>
  The deck core as a whole (\<open>deck_core.c\<close>): the handlers of the event classes, the loop of the deck task, the commands of the user
  interface, the meters, and the functions other components call.  A step is one turn of a task.
\<close>

section \<open>Commands for the user interface\<close>

definition enqueue_ui_command :: "deck_ui_command \<Rightarrow> bool deck_action" where
  "enqueue_ui_command cmd = do {
     q \<leftarrow> gets dc_ui_commands;
     if length q \<ge> DECK_UI_COMMAND_QUEUE_LEN then ret False
     else do { modify (\<lambda>s. s\<lparr>dc_ui_commands := q @ [cmd]\<rparr>); ret True } }"

definition ui_command :: "deck_ui_command_kind \<Rightarrow> deck_ui_command" where
  "ui_command kind = \<lparr>uc_kind = kind, uc_deck = 0, uc_id = 0, uc_value = 0\<rparr>"

abbreviation (input) BROWSE_SHIFT_LIBRARY_MULTIPLIER :: int where "BROWSE_SHIFT_LIBRARY_MULTIPLIER \<equiv> 10"
abbreviation (input) BROWSE_SHIFT_OVERVIEW_MULTIPLIER :: int where "BROWSE_SHIFT_OVERVIEW_MULTIPLIER \<equiv> 4"
abbreviation (input) DECK_UI_COMMANDS_PER_FRAME :: nat where "DECK_UI_COMMANDS_PER_FRAME \<equiv> 8"

text \<open>A call of the user interface, all of whose functions the firmware links.\<close>

definition ui_call :: "deck_env \<Rightarrow> deck_out \<Rightarrow> esp_err deck_action" where
  "ui_call env call = do {
     n \<leftarrow> gets dc_ui_calls; modify (\<lambda>s. s\<lparr>dc_ui_calls := n + 1\<rparr>); emit call; ret (de_ui_answer env n) }"

definition ui_query :: "(nat \<Rightarrow> bool) \<Rightarrow> bool deck_action" where
  "ui_query active = do { n \<leftarrow> gets dc_ui_calls; modify (\<lambda>s. s\<lparr>dc_ui_calls := n + 1\<rparr>); ret (active n) }"

definition execute_ui_command :: "deck_env \<Rightarrow> deck_ui_command \<Rightarrow> unit deck_action" where
  "execute_ui_command env cmd =
     (case uc_kind cmd of
        DECK_UI_CMD_LOAD_SELECTED \<Rightarrow> do {
          rc \<leftarrow> ui_call env (Ui_Load_Selected (uc_deck cmd));
          cond (rc = ESP_OK) (do {
            publish_loaded_track_hot_cue_leds env (uc_deck cmd);
            publish_track_load_leds env False;
            publish_beat_jump_pad_leds_for_deck env (uc_deck cmd) False;
            publish_beat_jump_shift_helper_leds_for_deck env (uc_deck cmd) False }) }
      | DECK_UI_CMD_LIBRARY_SELECT_DELTA_IF_ACTIVE \<Rightarrow> do {
          active \<leftarrow> ui_query (de_library_active env);
          cond active (do { rc \<leftarrow> ui_call env (Ui_Select_Delta (uc_value cmd)); ret () }) }
      | DECK_UI_CMD_BROWSE_DELTA \<Rightarrow> do {
          let shifted = (uc_id cmd = CTRL_ID_BROWSE_SHIFT_DELTA);
          library_active \<leftarrow> ui_query (de_library_active env);
          overview_active \<leftarrow> ui_query (de_overview_active env);
          if library_active
          then do { rc \<leftarrow> ui_call env (Ui_Select_Delta (if shifted then uc_value cmd * BROWSE_SHIFT_LIBRARY_MULTIPLIER else uc_value cmd)); ret () }
          else cond overview_active (do {
            rc \<leftarrow> ui_call env (Ui_Zoom_Delta (if shifted then uc_value cmd * BROWSE_SHIFT_OVERVIEW_MULTIPLIER else uc_value cmd)); ret () }) }
      | DECK_UI_CMD_TOGGLE_LIBRARY_VIEW \<Rightarrow> do { rc \<leftarrow> ui_call env Ui_Toggle_View; ret () }
      | DECK_UI_CMD_SHOW_LIBRARY \<Rightarrow> do { rc \<leftarrow> ui_call env Ui_Show_Library; ret () })"

primrec drain_ui_commands :: "deck_env \<Rightarrow> nat \<Rightarrow> unit deck_action" where
  "drain_ui_commands env 0 = ret ()"
| "drain_ui_commands env (Suc n) = do {
     q \<leftarrow> gets dc_ui_commands;
     case q of [] \<Rightarrow> ret ()
     | cmd # rest \<Rightarrow> do { modify (\<lambda>s. s\<lparr>dc_ui_commands := rest\<rparr>); execute_ui_command env cmd; drain_ui_commands env n } }"

definition deck_core_process_ui_commands :: "deck_env \<Rightarrow> unit deck_action" where
  "deck_core_process_ui_commands env = drain_ui_commands env DECK_UI_COMMANDS_PER_FRAME"

definition on_browse_event :: "u8 \<Rightarrow> i16 \<Rightarrow> unit deck_action" where
  "on_browse_event cid delta =
     (if sint delta = 0 then ret ()
      else do { queued \<leftarrow> enqueue_ui_command ((ui_command DECK_UI_CMD_BROWSE_DELTA)\<lparr>uc_id := cid, uc_value := sint delta\<rparr>); ret () })"

definition on_browse_press :: "unit deck_action" where
  "on_browse_press = do { queued \<leftarrow> enqueue_ui_command (ui_command DECK_UI_CMD_TOGGLE_LIBRARY_VIEW); ret () }"

definition on_browse_shift_press :: "unit deck_action" where
  "on_browse_shift_press = do { queued \<leftarrow> enqueue_ui_command (ui_command DECK_UI_CMD_SHOW_LIBRARY); ret () }"

section \<open>Status of the other board\<close>

abbreviation (input) CTRL_S3_DEBUG_AP_OFF :: i16 where "CTRL_S3_DEBUG_AP_OFF \<equiv> 0"
abbreviation (input) CTRL_S3_DEBUG_AP_STARTING :: i16 where "CTRL_S3_DEBUG_AP_STARTING \<equiv> 1"
abbreviation (input) CTRL_S3_DEBUG_AP_ERROR :: i16 where "CTRL_S3_DEBUG_AP_ERROR \<equiv> 3"

definition on_flx4_connection :: "deck_env \<Rightarrow> i16 \<Rightarrow> unit deck_action" where
  "on_flx4_connection env v =
     (if v = ucast CTRL_FLX4_CONNECTED
      then do {
        s \<leftarrow> gets (\<lambda>s. dc_flx4_state_valid s \<and> dc_flx4_connected s);
        cond (\<not> s) (publish_flx4_led_snapshot env True);
        modify (\<lambda>s. s\<lparr>dc_flx4_state_valid := True, dc_flx4_connected := True\<rparr>) }
      else if v = ucast CTRL_FLX4_DISCONNECTED
      then do {
        modify (\<lambda>s. s\<lparr>dc_flx4_state_valid := True, dc_flx4_connected := False\<rparr>);
        for_each [0..<DECK_CORE_DECK_COUNT] (\<lambda>deck. handle_jog_touch env deck False) }
      else ret ())"

definition on_state_event :: "deck_env \<Rightarrow> ctrl_event \<Rightarrow> unit deck_action" where
  "on_state_event env ev =
     (if ev_id ev = CTRL_ID_S3_DEBUG_AP
      then do {
        cond (ev_value ev = CTRL_S3_DEBUG_AP_OFF \<or> ev_value ev = CTRL_S3_DEBUG_AP_STARTING \<or> ev_value ev = CTRL_S3_DEBUG_AP_ERROR) (do {
          modify (\<lambda>s. s\<lparr>dc_token_hi := 0, dc_token_hi_valid := False\<rparr>);
          cb \<leftarrow> gets dc_token_cb;
          cond cb (emit (Ap_Token 0)) });
        cb \<leftarrow> gets dc_status_cb;
        cond cb (emit (Ap_Status (ucast (ev_value ev)))) }
      else if ev_id ev = CTRL_ID_S3_DEBUG_TOKEN_HI
      then cond (0 \<le> sint (ev_value ev) \<and> sint (ev_value ev) \<le> 999)
        (modify (\<lambda>s. s\<lparr>dc_token_hi := ev_value ev, dc_token_hi_valid := True\<rparr>))
      else if ev_id ev = CTRL_ID_S3_DEBUG_TOKEN_LO
      then do {
        valid \<leftarrow> gets dc_token_hi_valid;
        cond (valid \<and> 0 \<le> sint (ev_value ev) \<and> sint (ev_value ev) \<le> 999) (do {
          hi \<leftarrow> gets dc_token_hi;
          let token = ucast hi * 1000 + ucast (ev_value ev);
          modify (\<lambda>s. s\<lparr>dc_token_hi_valid := False\<rparr>);
          cb \<leftarrow> gets dc_token_cb;
          cond (cb \<and> (token = 0 \<or> (token \<ge> 100000 \<and> token \<le> 999999))) (emit (Ap_Token token)) }) }
      else if ev_id ev \<noteq> CTRL_ID_FLX4_CONNECTION then ret ()
      else on_flx4_connection env (ev_value ev))"

section \<open>Controls of the whole controller\<close>

text \<open>A press of a switch: toggle, then show the new setting.\<close>

definition toggle_switch :: "deck_env \<Rightarrow> (audio_engine, esp_err) state \<Rightarrow> (audio_engine, bool) state \<Rightarrow> u8 \<Rightarrow> i16 \<Rightarrow> unit deck_action" where
  "toggle_switch env toggle read led v =
     cond (v \<noteq> 0) (do { rc \<leftarrow> engine toggle; on \<leftarrow> engine read; deck_send_led env led (flag on) 0 })"

definition on_system_button :: "deck_env \<Rightarrow> ctrl_event \<Rightarrow> bool deck_action" where
  "on_system_button env ev =
     (let c = ev_id ev; v = ev_value ev; pressed = (v \<noteq> 0) in
      if ev_type ev \<noteq> CTRL_EV_BUTTON then ret False
      else if c = CTRL_ID_SMART_CFX
      then do { toggle_switch env (audio_engine_toggle_smart_cfx (de_audio env)) (audio_engine_get_smart_cfx_enabled (de_audio env)) LED_SMART_CFX v; ret True }
      else if c = CTRL_ID_SMART_FADER
      then do { toggle_switch env (audio_engine_toggle_smart_fader (de_audio env)) (audio_engine_get_smart_fader_enabled (de_audio env)) LED_SMART_FADER v; ret True }
      else if c = CTRL_ID_SMART_CFX_SHIFT \<or> c = CTRL_ID_SMART_FADER_SHIFT then ret True
      else if c = CTRL_ID_MASTER_CUE
      then do { toggle_switch env (audio_engine_toggle_master_cue (de_audio env)) (audio_engine_get_master_cue_enabled (de_audio env)) LED_MASTER_CUE v; ret True }
      else if c = CTRL_ID_BEAT_FX_SELECT_NEXT
      then do { cond pressed (set_beat_fx env (\<lambda>fx. fx\<lparr>fx_effect := beat_fx_next_effect (fx_effect fx)\<rparr>)); ret True }
      else if c = CTRL_ID_BEAT_FX_SELECT_PREV
      then do { cond pressed (set_beat_fx env (\<lambda>fx. fx\<lparr>fx_effect := beat_fx_previous_effect (fx_effect fx)\<rparr>)); ret True }
      else if c = CTRL_ID_BEAT_FX_BEAT_DEC
      then do {
        fx \<leftarrow> gets dc_beat_fx;
        cond (pressed \<and> fx_beat fx > DECK_CORE_BEAT_FX_BEAT_1_4) (set_beat_fx env (\<lambda>fx. fx\<lparr>fx_beat := fx_beat fx - 1\<rparr>));
        ret True }
      else if c = CTRL_ID_BEAT_FX_BEAT_INC
      then do {
        fx \<leftarrow> gets dc_beat_fx;
        cond (pressed \<and> fx_beat fx < DECK_CORE_BEAT_FX_BEAT_4) (set_beat_fx env (\<lambda>fx. fx\<lparr>fx_beat := fx_beat fx + 1\<rparr>));
        ret True }
      else if c = CTRL_ID_BEAT_FX_BEAT_DEC_SHIFT
      then do {
        fx \<leftarrow> gets dc_beat_fx;
        let beat = (if fx_beat fx > DECK_CORE_BEAT_FX_BEAT_1_2 then fx_beat fx - 2 else DECK_CORE_BEAT_FX_BEAT_1_4);
        cond (pressed \<and> beat \<noteq> fx_beat fx) (set_beat_fx env (\<lambda>fx. fx\<lparr>fx_beat := beat\<rparr>));
        ret True }
      else if c = CTRL_ID_BEAT_FX_BEAT_INC_SHIFT
      then do {
        fx \<leftarrow> gets dc_beat_fx;
        let beat = (if fx_beat fx < DECK_CORE_BEAT_FX_BEAT_2 then fx_beat fx + 2 else DECK_CORE_BEAT_FX_BEAT_4);
        cond (pressed \<and> beat \<noteq> fx_beat fx) (set_beat_fx env (\<lambda>fx. fx\<lparr>fx_beat := beat\<rparr>));
        ret True }
      else if c = CTRL_ID_BEAT_FX_TARGET
      then do {
        (if v = 0 then set_beat_fx env (\<lambda>fx. fx\<lparr>fx_target := TARGET_CH1\<rparr>)
         else if v = 1 then set_beat_fx env (\<lambda>fx. fx\<lparr>fx_target := TARGET_CH2\<rparr>)
         else if v = 2 then set_beat_fx env (\<lambda>fx. fx\<lparr>fx_target := TARGET_BOTH\<rparr>)
         else ret ());
        ret True }
      else if c = CTRL_ID_BEAT_FX_ON
      then do {
        cond pressed (do {
          set_beat_fx env (\<lambda>fx. fx\<lparr>fx_enabled := \<not> fx_enabled fx\<rparr>);
          fx \<leftarrow> gets dc_beat_fx;
          deck_send_led env LED_BEAT_FX_ON (flag (fx_enabled fx)) 0 });
        ret True }
      else if c = CTRL_ID_BEAT_FX_CLEAR
      then do { cond pressed (do { set_beat_fx env (\<lambda>fx. init_beat_fx_state); deck_send_led env LED_BEAT_FX_ON 0 0 }); ret True }
      else ret False)"

definition on_system_value :: "deck_env \<Rightarrow> ctrl_event \<Rightarrow> bool deck_action" where
  "on_system_value env ev =
     (if ev_type ev \<noteq> CTRL_EV_PITCH then ret False
      else if ev_id ev = CTRL_ID_HEADPHONE_LEVEL
      then do { rc \<leftarrow> engine (audio_engine_set_headphone_level (de_audio env) (if sint (ev_value ev) < 0 then 0 else ev_value ev)); ret True }
      else if ev_id ev \<noteq> CTRL_ID_BEAT_FX_DEPTH then ret False
      else let depth = (if sint (ev_value ev) < 0 then 0 else if sint (ev_value ev) > 127 then 127 else sint (ev_value ev)) in do {
        set_beat_fx env (\<lambda>fx. fx\<lparr>fx_depth := word_of_int depth\<rparr>);
        ret True })"

definition event_is_mixer_control :: "ctrl_event \<Rightarrow> bool" where
  "event_is_mixer_control ev \<longleftrightarrow> ev_id ev \<in> {CTRL_ID_CH1_VOLUME, CTRL_ID_CH2_VOLUME, CTRL_ID_CROSSFADER, CTRL_ID_DECK1_PFL, CTRL_ID_DECK2_PFL,
     CTRL_ID_CH1_TRIM, CTRL_ID_CH2_TRIM, CTRL_ID_CH1_EQ_HIGH, CTRL_ID_CH2_EQ_HIGH, CTRL_ID_CH1_EQ_MID, CTRL_ID_CH2_EQ_MID, CTRL_ID_CH1_EQ_LOW,
     CTRL_ID_CH2_EQ_LOW, CTRL_ID_CH1_FILTER, CTRL_ID_CH2_FILTER, CTRL_ID_HEADPHONE_MIX, CTRL_ID_MASTER_VOLUME}"

definition mixer_call :: "ae_env \<Rightarrow> u8 \<Rightarrow> i16 \<Rightarrow> (audio_engine, esp_err) state option" where
  "mixer_call a c raw =
     (let value = (if sint raw < 0 then 0 else raw) in
      if c = CTRL_ID_CH1_VOLUME then Some (audio_engine_set_channel_volume a 0 value)
      else if c = CTRL_ID_CH2_VOLUME then Some (audio_engine_set_channel_volume a 1 value)
      else if c = CTRL_ID_CROSSFADER then Some (audio_engine_set_crossfader a value)
      else if c = CTRL_ID_DECK1_PFL then (if raw \<noteq> 0 then Some (audio_engine_toggle_pfl a 0) else None)
      else if c = CTRL_ID_DECK2_PFL then (if raw \<noteq> 0 then Some (audio_engine_toggle_pfl a 1) else None)
      else if c = CTRL_ID_CH1_EQ_HIGH then Some (audio_engine_set_eq a 0 AUDIO_EQ_BAND_HIGH value)
      else if c = CTRL_ID_CH2_EQ_HIGH then Some (audio_engine_set_eq a 1 AUDIO_EQ_BAND_HIGH value)
      else if c = CTRL_ID_CH1_EQ_MID then Some (audio_engine_set_eq a 0 AUDIO_EQ_BAND_MID value)
      else if c = CTRL_ID_CH2_EQ_MID then Some (audio_engine_set_eq a 1 AUDIO_EQ_BAND_MID value)
      else if c = CTRL_ID_CH1_EQ_LOW then Some (audio_engine_set_eq a 0 AUDIO_EQ_BAND_LOW value)
      else if c = CTRL_ID_CH2_EQ_LOW then Some (audio_engine_set_eq a 1 AUDIO_EQ_BAND_LOW value)
      else if c = CTRL_ID_CH1_FILTER then Some (audio_engine_set_filter a 0 value)
      else if c = CTRL_ID_CH2_FILTER then Some (audio_engine_set_filter a 1 value)
      else if c = CTRL_ID_CH1_TRIM then Some (audio_engine_set_pregain a 0 value)
      else if c = CTRL_ID_CH2_TRIM then Some (audio_engine_set_pregain a 1 value)
      else if c = CTRL_ID_MASTER_VOLUME then Some (audio_engine_set_master_volume a value)
      else if c = CTRL_ID_HEADPHONE_MIX then Some (audio_engine_set_headphone_mix a value)
      else None)"

definition on_mixer_control :: "deck_env \<Rightarrow> u8 \<Rightarrow> i16 \<Rightarrow> unit deck_action" where
  "on_mixer_control env c raw = (case mixer_call (de_audio env) c raw of None \<Rightarrow> ret () | Some m \<Rightarrow> do { rc \<leftarrow> engine m; ret () })"

section \<open>Buttons\<close>

abbreviation (input) BTN_EJECT :: u8 where "BTN_EJECT \<equiv> 0"
abbreviation (input) BTN_TRACK_PREV :: u8 where "BTN_TRACK_PREV \<equiv> 1"
abbreviation (input) BTN_TRACK_NEXT :: u8 where "BTN_TRACK_NEXT \<equiv> 2"
abbreviation (input) BTN_SEARCH_BACK :: u8 where "BTN_SEARCH_BACK \<equiv> 3"
abbreviation (input) BTN_SEARCH_FWD :: u8 where "BTN_SEARCH_FWD \<equiv> 4"
abbreviation (input) BTN_CUE :: u8 where "BTN_CUE \<equiv> 5"
abbreviation (input) BTN_PLAY :: u8 where "BTN_PLAY \<equiv> 6"
abbreviation (input) BTN_MODE :: u8 where "BTN_MODE \<equiv> 11"
abbreviation (input) BTN_MASTER_TEMPO :: u8 where "BTN_MASTER_TEMPO \<equiv> 12"
abbreviation (input) BTN_LOAD :: u8 where "BTN_LOAD \<equiv> 13"
abbreviation (input) BTN_COUNT :: u8 where "BTN_COUNT \<equiv> 14"

definition button_for_event :: "ctrl_event \<Rightarrow> u8" where
  "button_for_event ev =
     (if ev_id ev = CTRL_ID_LOAD_DECK1 \<or> ev_id ev = CTRL_ID_LOAD_DECK2 \<or> ev_id ev = CTRL_ID_SHIFT_LOAD_DECK1 \<or> ev_id ev = CTRL_ID_SHIFT_LOAD_DECK2
      then BTN_LOAD
      else if control_link_id_is_deck (ev_id ev)
      then if control_link_id_control (ev_id ev) = CTRL_DECK_CTL_PLAY then BTN_PLAY
           else if control_link_id_control (ev_id ev) = CTRL_DECK_CTL_CUE then BTN_CUE
           else BTN_COUNT
      else ev_id ev)"

definition on_button :: "deck_env \<Rightarrow> nat \<Rightarrow> u8 \<Rightarrow> bool \<Rightarrow> unit deck_action" where
  "on_button env deck btn pressed = (let idx = normalize_deck deck; a = de_audio env; uses_audio = deck_uses_audio_engine deck in
     if \<not> pressed then ret ()
     else if btn = BTN_PLAY
     then do {
       playing \<leftarrow> (if uses_audio then engine (audio_engine_deck_is_playing a deck) else ret False);
       (if uses_audio \<and> playing
        then do { rc \<leftarrow> engine (audio_engine_deck_pause a deck); cond (rc = ESP_OK) (on_state idx (\<lambda>st. st\<lparr>ds_playing := False\<rparr>)) }
        else if uses_audio
        then do { rc \<leftarrow> engine (audio_engine_deck_play a deck); cond (rc = ESP_OK) (on_state idx (\<lambda>st. st\<lparr>ds_playing := True\<rparr>)) }
        else on_state idx (\<lambda>st. st\<lparr>ds_playing := \<not> ds_playing st\<rparr>));
       sync_legacy_compat_leds deck }
     else if btn = BTN_CUE
     then do {
       st \<leftarrow> state_of idx;
       cond uses_audio (do { rc \<leftarrow> engine (audio_engine_deck_pause a deck); rc \<leftarrow> engine (audio_engine_deck_seek a deck (ds_cue_point_ms st)); ret () });
       on_state idx (\<lambda>st. st\<lparr>ds_playing := False, ds_position_ms := ds_cue_point_ms st\<rparr>);
       sync_legacy_compat_leds deck }
     else if btn = BTN_MODE then on_state idx (\<lambda>st. st\<lparr>ds_perf_mode := next_perf_mode (ds_perf_mode st)\<rparr>)
     else if btn = BTN_MASTER_TEMPO
     then do {
       on_state idx (\<lambda>st. st\<lparr>ds_master_tempo := \<not> ds_master_tempo st\<rparr>);
       st \<leftarrow> state_of idx;
       cond uses_audio (engine (audio_engine_deck_set_master_tempo a deck (ds_master_tempo st))) }
     else if btn = BTN_EJECT
     then do {
       cond uses_audio (do { rc \<leftarrow> engine (audio_engine_deck_stop a deck); ret () });
       on_state idx (\<lambda>st. st\<lparr>ds_playing := False, ds_position_ms := 0, ds_cue_point_ms := 0\<rparr>);
       sync_legacy_compat_leds deck }
     else if btn = BTN_LOAD
     then do { queued \<leftarrow> enqueue_ui_command ((ui_command DECK_UI_CMD_LOAD_SELECTED)\<lparr>uc_deck := deck\<rparr>); ret () }
     else if btn = BTN_TRACK_PREV \<or> btn = BTN_TRACK_NEXT
     then do {
       queued \<leftarrow> enqueue_ui_command ((ui_command DECK_UI_CMD_LIBRARY_SELECT_DELTA_IF_ACTIVE)\<lparr>uc_value := (if btn = BTN_TRACK_NEXT then 1 else -1)\<rparr>);
       ret () }
     else if btn = BTN_SEARCH_BACK \<or> btn = BTN_SEARCH_FWD
     then do {
       current \<leftarrow> (if uses_audio then engine (audio_engine_deck_position_ms a deck) else do { st \<leftarrow> state_of idx; ret (ds_position_ms st) });
       search_to env deck (moved_position (sint current + (if btn = BTN_SEARCH_FWD then SEARCH_STEP_MS else - SEARCH_STEP_MS))) }
     else ret ())"

text \<open>The extended actions and the pad actions of a deck.\<close>

definition on_ext_action :: "deck_env \<Rightarrow> nat \<Rightarrow> i16 \<Rightarrow> unit deck_action" where
  "on_ext_action env deck v =
     (let action = CTRL_DECK_EXT_ACTION v; pressed = CTRL_DECK_EXT_PRESSED v in
      if action = CTRL_DECK_EXT_ACTION_CENSOR then handle_censor env deck pressed
      else if \<not> pressed then ret ()
      else if action = CTRL_DECK_EXT_ACTION_SYNC_MASTER then set_sync_master env deck
      else if action = CTRL_DECK_EXT_ACTION_RELOOP_STOP then stop_and_forget_loop env deck
      else if action = CTRL_DECK_EXT_ACTION_LOOP_ADJUST_IN
      then do { adjust_loop_boundary env deck True; send_momentary_led env LED_LOOP_ADJUST_IN deck }
      else if action = CTRL_DECK_EXT_ACTION_LOOP_ADJUST_OUT
      then do { adjust_loop_boundary env deck False; send_momentary_led env LED_LOOP_ADJUST_OUT deck }
      else if action = CTRL_DECK_EXT_ACTION_QUANTIZE then on_state deck (\<lambda>st. st\<lparr>ds_quantize_enabled := \<not> ds_quantize_enabled st\<rparr>)
      else if action = CTRL_DECK_EXT_ACTION_SYNC_OFF
      then do {
        st \<leftarrow> state_of deck;
        cond (ds_sync_enabled st) (do { on_state deck (\<lambda>st. st\<lparr>ds_sync_enabled := False\<rparr>); publish_flx4_led_snapshot env False }) }
      else ret ())"

definition on_pad_fx :: "deck_env \<Rightarrow> nat \<Rightarrow> u8 \<Rightarrow> u8 \<Rightarrow> bool \<Rightarrow> unit deck_action" where
  "on_pad_fx env deck pad_fx_mode pad_fx_pad pressed = do {
     rc \<leftarrow> engine (audio_engine_set_pad_fx (de_audio env) deck
       (if pad_fx_mode = CTRL_PAD_MODE_PAD_FX2 then AUDIO_PAD_FX_MODE_PAD_FX2 else AUDIO_PAD_FX_MODE_PAD_FX1) pad_fx_pad pressed);
     cond (rc = ESP_OK) (do {
       on_slot deck (\<lambda>d.
         if pressed then d\<lparr>dk_pad_fx_led := \<lparr>px_active = True, px_mode = pad_fx_mode, px_pad = pad_fx_pad\<rparr>\<rparr>
         else if px_active (dk_pad_fx_led d) \<and> px_mode (dk_pad_fx_led d) = pad_fx_mode \<and> px_pad (dk_pad_fx_led d) = pad_fx_pad
         then d\<lparr>dk_pad_fx_led := (dk_pad_fx_led d)\<lparr>px_active := False\<rparr>\<rparr>
         else d);
       publish_flx4_led_snapshot env False }) }"

definition on_pad_action :: "deck_env \<Rightarrow> nat \<Rightarrow> i16 \<Rightarrow> unit deck_action" where
  "on_pad_action env deck v =
     (let mode = CTRL_PAD_ACTION_MODE v; pad = CTRL_PAD_ACTION_PAD v; shifted = CTRL_PAD_ACTION_SHIFTED v; pressed = CTRL_PAD_ACTION_PRESSED v in
      if pressed \<and> mode = CTRL_PAD_MODE_HOT_CUE then handle_hot_cue_pad_action env deck (unat pad) shifted
      else if pressed \<and> mode = CTRL_PAD_MODE_BEAT_JUMP \<and> \<not> shifted
      then (case beat_jump_shift_for_pad (unat pad) of None \<Rightarrow> ret () | Some shift \<Rightarrow> handle_beat_jump env deck shift)
      else if pressed \<and> mode = CTRL_PAD_MODE_BEAT_LOOP \<and> \<not> shifted then handle_beat_loop_pad_action env deck (unat pad)
      else if mode = CTRL_PAD_MODE_BEAT_LOOP \<and> shifted
      then (if pressed then handle_shifted_beat_loop_press env deck (unat pad) else handle_shifted_beat_loop_release env deck)
      else if mode = CTRL_PAD_MODE_PAD_FX1 \<or> mode = CTRL_PAD_MODE_PAD_FX2 then on_pad_fx env deck mode pad pressed
      else ret ())"

definition set_pad_mode :: "deck_env \<Rightarrow> nat \<Rightarrow> bool \<Rightarrow> (deck_state \<Rightarrow> deck_state) \<Rightarrow> unit deck_action" where
  "set_pad_mode env deck pressed f = cond pressed (do { on_state deck f; publish_flx4_led_snapshot env False })"

text \<open>The action of a deck button, \<open>None\<close> when it is not one of these.\<close>

definition deck_button_action :: "deck_env \<Rightarrow> nat \<Rightarrow> u8 \<Rightarrow> i16 \<Rightarrow> unit deck_action option" where
  "deck_button_action env deck c v =
     (let pressed = (v \<noteq> 0); a = de_audio env in
      if c = CTRL_DECK_CTL_JOG_TOUCH then Some (handle_jog_touch env deck pressed)
      else if c = CTRL_DECK_CTL_SHIFT
      then Some (do { on_slot deck (\<lambda>d. d\<lparr>dk_shift_held := pressed\<rparr>); publish_beat_jump_shift_helper_leds env False })
      else if c = CTRL_DECK_CTL_TO_START
      then Some (cond pressed (do {
        cond (deck_uses_audio_engine deck) (do { rc \<leftarrow> engine (audio_engine_deck_pause a deck); rc \<leftarrow> engine (audio_engine_deck_seek a deck 0); ret () });
        on_state deck (\<lambda>st. st\<lparr>ds_playing := False, ds_position_ms := 0, ds_cue_point_ms := 0\<rparr>);
        sync_legacy_compat_leds deck;
        send_momentary_led env LED_CUE_SHIFT deck }))
      else if c = CTRL_DECK_CTL_SYNC
      then Some (cond pressed (do {
        st \<leftarrow> state_of deck;
        (if ds_sync_enabled st then on_state deck (\<lambda>st. st\<lparr>ds_sync_enabled := False\<rparr>)
         else do { applied \<leftarrow> apply_beat_sync env deck; ret () });
        publish_flx4_led_snapshot env False }))
      else if c = CTRL_DECK_CTL_TEMPO_RANGE
      then Some (cond pressed (do {
        st \<leftarrow> state_of deck;
        on_state deck (\<lambda>st. st\<lparr>ds_sync_enabled := False, ds_tempo_range_percent := next_tempo_range_percent (ds_tempo_range_percent st)\<rparr>);
        apply_deck_pitch env deck;
        cond (ds_sync_enabled st) (publish_flx4_led_snapshot env False) }))
      else if c \<in> {CTRL_DECK_CTL_LOOP_IN, CTRL_DECK_CTL_LOOP_OUT, CTRL_DECK_CTL_RELOOP_EXIT, CTRL_DECK_CTL_LOOP_HALVE, CTRL_DECK_CTL_LOOP_DOUBLE}
      then Some (cond pressed (on_loop_control env deck c))
      else if c = CTRL_DECK_CTL_EXT_ACTION then Some (on_ext_action env deck v)
      else if c = CTRL_DECK_CTL_BEAT_JUMP_BACK \<or> c = CTRL_DECK_CTL_BEAT_JUMP_FORWARD
      then Some (cond pressed (handle_beat_jump env deck (if c = CTRL_DECK_CTL_BEAT_JUMP_BACK then -1 else 1)))
      else if c = CTRL_DECK_CTL_PAD_MODE_HOT_CUE
      then Some (set_pad_mode env deck pressed (\<lambda>st. st\<lparr>ds_perf_mode := PERF_MODE_HOT_CUE, ds_pad_mode := CTRL_PAD_MODE_HOT_CUE\<rparr>))
      else if c = CTRL_DECK_CTL_PAD_MODE_KEYBOARD then Some (ret ())
      else if c = CTRL_DECK_CTL_PAD_MODE_PAD_FX1 then Some (set_pad_mode env deck pressed (\<lambda>st. st\<lparr>ds_pad_mode := CTRL_PAD_MODE_PAD_FX1\<rparr>))
      else if c = CTRL_DECK_CTL_PAD_MODE_PAD_FX2 then Some (set_pad_mode env deck pressed (\<lambda>st. st\<lparr>ds_pad_mode := CTRL_PAD_MODE_PAD_FX2\<rparr>))
      else if c = CTRL_DECK_CTL_PAD_MODE_BEAT_LOOP
      then Some (set_pad_mode env deck pressed (\<lambda>st. st\<lparr>ds_perf_mode := PERF_MODE_LOOP_ROLL, ds_pad_mode := CTRL_PAD_MODE_BEAT_LOOP\<rparr>))
      else if c = CTRL_DECK_CTL_PAD_MODE_BEAT_JUMP
      then Some (set_pad_mode env deck pressed (\<lambda>st. st\<lparr>ds_perf_mode := PERF_MODE_BEAT_JUMP, ds_pad_mode := CTRL_PAD_MODE_BEAT_JUMP\<rparr>))
      else if c = CTRL_DECK_CTL_PAD_MODE_KEY_SHIFT \<or> c = CTRL_DECK_CTL_PAD_MODE_SAMPLER then Some (ret ())
      else if c = CTRL_DECK_CTL_PAD_ACTION then Some (on_pad_action env deck v)
      else None)"

definition on_deck_extension_button :: "deck_env \<Rightarrow> ctrl_event \<Rightarrow> bool deck_action" where
  "on_deck_extension_button env ev =
     (if ev_type ev \<noteq> CTRL_EV_BUTTON \<or> \<not> control_link_id_is_deck (ev_id ev) then ret False
      else case deck_button_action env (deck_index_for_event ev) (control_link_id_control (ev_id ev)) (ev_value ev) of
        None \<Rightarrow> ret False
      | Some m \<Rightarrow> do { m; ret True })"

section \<open>The deck task\<close>

abbreviation (input) DECK_CORE_INTERNAL_RESET_ID :: u8 where "DECK_CORE_INTERNAL_RESET_ID \<equiv> 0xFE"

definition event_uses_ui_without_deck_state :: "ctrl_event \<Rightarrow> bool" where
  "event_uses_ui_without_deck_state ev =
     (if control_link_id_is_deck (ev_id ev) then False
      else if ev_type ev = CTRL_EV_BROWSE then True
      else if ev_type ev \<noteq> CTRL_EV_BUTTON \<or> ev_value ev = 0 then False
      else ev_id ev \<in> {BTN_LOAD, BTN_TRACK_PREV, BTN_TRACK_NEXT, CTRL_ID_BROWSE_PRESS, CTRL_ID_BROWSE_SHIFT_PRESS})"

text \<open>\<open>CTRL_DECK_NONE\<close> as the sync master.\<close>

abbreviation (input) no_master :: nat where "no_master \<equiv> 255"

definition reset_deck_slot :: "nat \<Rightarrow> unit deck_action" where
  "reset_deck_slot idx = do {
     on_slot idx (\<lambda>d. d\<lparr>dk_state := init_deck_state, dk_jog_touched := False, dk_jog_hold_active := False, dk_jog_scratch_active := False\<rparr>);
     modify (\<lambda>s. s\<lparr>dc_sync_master := (if dc_sync_master s = idx then no_master else dc_sync_master s)\<rparr>);
     on_slot idx (\<lambda>d. d\<lparr>dk_loop := zero_loop, dk_roll := zero_roll, dk_pad_fx_led := zero_pad_fx_led, dk_beat_loop_led := zero_beat_loop_led,
       dk_censor := zero_censor\<rparr>);
     hot_cue_mask_cache_invalidate idx;
     publish_state_snapshot;
     modify (\<lambda>s. s\<lparr>dc_reset_done := True\<rparr>) }"

definition on_deck_event :: "deck_env \<Rightarrow> ctrl_event \<Rightarrow> unit deck_action" where
  "on_deck_event env ev =
     (let deck = deck_index_for_event ev; c = control_link_id_control (ev_id ev) in
      case ev_type ev of
        CTRL_EV_BUTTON \<Rightarrow> on_button env deck (button_for_event ev) (ev_value ev \<noteq> 0)
      | CTRL_EV_JOG \<Rightarrow>
          if c = CTRL_DECK_CTL_LOOP_SIZE then on_loop_size_delta env deck (ev_value ev)
          else if c = CTRL_DECK_CTL_JOG_SEARCH then on_jog_search env deck (ev_value ev)
          else on_jog env deck c (ev_value ev)
      | CTRL_EV_BROWSE \<Rightarrow> on_browse_event (ev_id ev) (ev_value ev)
      | CTRL_EV_PITCH \<Rightarrow> on_pitch env deck (ev_value ev)
      | CTRL_EV_HEARTBEAT \<Rightarrow> do { now \<leftarrow> xTaskGetTickCount env; modify (\<lambda>s. s\<lparr>dc_heartbeat_tick := now\<rparr>) }
      | CTRL_EV_STATE \<Rightarrow> on_state_event env ev)"

definition deck_event_turn :: "deck_env \<Rightarrow> ctrl_event \<Rightarrow> unit deck_action" where
  "deck_event_turn env ev =
     (if ev_type ev = CTRL_EV_STATE \<and> ev_id ev = DECK_CORE_INTERNAL_RESET_ID then reset_deck_slot (normalize_deck (unat (ev_deck ev)))
      else if event_uses_ui_without_deck_state ev
      then if ev_type ev = CTRL_EV_BROWSE then on_browse_event (ev_id ev) (ev_value ev)
           else if ev_id ev = CTRL_ID_BROWSE_PRESS then on_browse_press
           else if ev_id ev = CTRL_ID_BROWSE_SHIFT_PRESS then cond (ev_value ev \<noteq> 0) on_browse_shift_press
           else on_button env DECK_CORE_COMPAT_DECK (button_for_event ev) (ev_value ev \<noteq> 0)
      else if ev_type ev = CTRL_EV_STATE then on_state_event env ev
      else do {
        handled \<leftarrow> on_system_button env ev;
        if handled then ret ()
        else do {
          handled \<leftarrow> on_system_value env ev;
          if handled then ret ()
          else if event_is_mixer_control ev then on_mixer_control env (ev_id ev) (ev_value ev)
          else do {
            handled \<leftarrow> on_deck_extension_button env ev;
            if handled then ret () else on_deck_event env ev } } })"

definition deck_task :: "deck_env \<Rightarrow> unit deck_action" where
  "deck_task env = do {
     publish_state_snapshot;
     q \<leftarrow> gets dc_queue;
     case q of [] \<Rightarrow> ret () | ev # rest \<Rightarrow> do { modify (\<lambda>s. s\<lparr>dc_queue := rest\<rparr>); deck_event_turn env ev } }"

section \<open>Meters\<close>

abbreviation (input) VU_DECAY_STEP_PER_TICK :: u8 where "VU_DECAY_STEP_PER_TICK \<equiv> 12"

definition peak_to_midi_level :: "u16 \<Rightarrow> u8" where
  "peak_to_midi_level peak = (let level = (ucast peak * 127) div (32768 :: u32) in ucast (if level > 127 then 127 else level))"

definition ballistic :: "u8 \<Rightarrow> u8 \<Rightarrow> u8" where
  "ballistic prev raw =
     (if raw \<ge> prev then raw
      else if prev > VU_DECAY_STEP_PER_TICK then (let disp = prev - VU_DECAY_STEP_PER_TICK in if disp < raw then raw else disp)
      else raw)"

definition vu_ballistic_level :: "nat \<Rightarrow> u8 \<Rightarrow> u8 deck_action" where
  "vu_ballistic_level deck raw = do {
     d \<leftarrow> slot_of deck;
     let disp = ballistic (if deck < DECK_CORE_DECK_COUNT then dk_vu_level d else 0) raw;
     cond (deck < DECK_CORE_DECK_COUNT) (on_slot deck (\<lambda>d. d\<lparr>dk_vu_level := disp\<rparr>));
     ret disp }"

definition vu_task :: "deck_env \<Rightarrow> unit deck_action" where
  "vu_task env = (let a = de_audio env in do {
     connected \<leftarrow> gets dc_flx4_connected;
     if \<not> connected then modify (\<lambda>s. s\<lparr>dc_vu_meters_active := False\<rparr>)
     else do {
       first \<leftarrow> engine (audio_engine_deck_is_playing a 0);
       any_playing \<leftarrow> (if first then ret True else engine (audio_engine_deck_is_playing a 1));
       active \<leftarrow> gets dc_vu_meters_active;
       if \<not> any_playing \<and> \<not> active then ret ()
       else do {
         modify (\<lambda>s. s\<lparr>dc_vu_meters_active := any_playing\<rparr>);
         for_each [0..<DECK_CORE_DECK_COUNT] (\<lambda>deck. do {
           level \<leftarrow> (if any_playing
             then do { peak \<leftarrow> engine (audio_engine_get_deck_peak a deck); vu_ballistic_level deck (peak_to_midi_level peak) }
             else do { on_slot deck (\<lambda>d. d\<lparr>dk_vu_level := 0\<rparr>); ret 0 });
           deck_send_led env LED_VU_METER level deck }) } } })"

section \<open>Functions for other components\<close>

text \<open>An event for the deck; \<open>consumed\<close> when it only wakes the screen.\<close>

definition deck_core_queue_event :: "bool \<Rightarrow> ctrl_event \<Rightarrow> esp_err deck_action" where
  "deck_core_queue_event consumed ev =
     (if consumed then ret ESP_OK
      else do {
        q \<leftarrow> gets dc_queue;
        if length q \<ge> CTRL_QUEUE_LEN
        then do { modify (\<lambda>s. s\<lparr>dc_drop_count := dc_drop_count s + 1\<rparr>); ret ESP_FAIL }
        else do { modify (\<lambda>s. s\<lparr>dc_queue := q @ [ev]\<rparr>); ret ESP_OK } })"

definition queued_event :: "ctrl_event_type \<Rightarrow> u8 \<Rightarrow> i16 \<Rightarrow> nat \<Rightarrow> ctrl_event" where
  "queued_event ty cid v deck = \<lparr>ev_type = ty, ev_id = cid, ev_value = v, ev_seq = 0, ev_deck = of_nat deck, ev_control = 0\<rparr>"

definition deck_core_toggle_master_tempo :: "nat \<Rightarrow> unit deck_action" where
  "deck_core_toggle_master_tempo deck =
     (if deck \<ge> DECK_CORE_DECK_COUNT then ret ()
      else do {
        q \<leftarrow> gets dc_queue;
        cond (length q < CTRL_QUEUE_LEN) (modify (\<lambda>s. s\<lparr>dc_queue := q @ [queued_event CTRL_EV_BUTTON BTN_MASTER_TEMPO 1 deck]\<rparr>)) })"

text \<open>A reset is asked for once the queue has room; the caller then waits for the deck task to have done it.\<close>

definition deck_core_reset_deck :: "nat \<Rightarrow> bool deck_action" where
  "deck_core_reset_deck deck = do {
     modify (\<lambda>s. s\<lparr>dc_reset_done := False\<rparr>);
     q \<leftarrow> gets dc_queue;
     if length q \<ge> CTRL_QUEUE_LEN then ret False
     else do { modify (\<lambda>s. s\<lparr>dc_queue := q @ [queued_event CTRL_EV_STATE DECK_CORE_INTERNAL_RESET_ID 0 (normalize_deck deck)]\<rparr>); ret True } }"

definition reset_wait :: "bool deck_action" where
  "reset_wait = do { done_sem \<leftarrow> gets dc_reset_done; modify (\<lambda>s. s\<lparr>dc_reset_done := False\<rparr>); ret done_sem }"

record deck_core_loop_display =
  ld_active :: bool
  ld_armed :: bool
  ld_start_ms :: u32
  ld_end_ms :: u32

definition deck_core_get_loop_display :: "deck_env \<Rightarrow> nat \<Rightarrow> deck_core_loop_display deck_action" where
  "deck_core_get_loop_display env deck = (let out = \<lparr>ld_active = False, ld_armed = False, ld_start_ms = 0, ld_end_ms = 0\<rparr> in
     if deck \<ge> DECK_CORE_DECK_COUNT then ret out
     else do {
       shadow \<leftarrow> gets (\<lambda>s. sp_loops (dc_published s) ! deck);
       l \<leftarrow> read_active_loop env deck;
       ret (case l of
           Some (active, start_at, end_at) \<Rightarrow>
             if active \<and> end_at > start_at then out\<lparr>ld_active := True, ld_start_ms := start_at, ld_end_ms := end_at\<rparr>
             else if lo_pending_in shadow then out\<lparr>ld_armed := True, ld_start_ms := lo_pending_start_ms shadow\<rparr> else out
         | None \<Rightarrow> if lo_pending_in shadow then out\<lparr>ld_armed := True, ld_start_ms := lo_pending_start_ms shadow\<rparr> else out) })"

definition deck_core_set_s3_debug_ap_status_cb :: "bool \<Rightarrow> unit deck_action" where
  "deck_core_set_s3_debug_ap_status_cb cb = modify (\<lambda>s. s\<lparr>dc_status_cb := cb\<rparr>)"

definition deck_core_set_s3_debug_ap_token_cb :: "bool \<Rightarrow> unit deck_action" where
  "deck_core_set_s3_debug_ap_token_cb cb = modify (\<lambda>s. s\<lparr>dc_token_cb := cb\<rparr>)"

fun loaded_track_result_to_esp :: "deck_loaded_track_result \<Rightarrow> esp_err" where
  "loaded_track_result_to_esp DECK_LOADED_TRACK_OK = ESP_OK"
| "loaded_track_result_to_esp DECK_LOADED_TRACK_INVALID = ESP_ERR_INVALID_ARG"
| "loaded_track_result_to_esp DECK_LOADED_TRACK_STALE = ESP_ERR_INVALID_STATE"
| "loaded_track_result_to_esp DECK_LOADED_TRACK_NO_MEMORY = ESP_ERR_NO_MEM"

text \<open>Publishing and clearing loaded tracks, on the store alone; \<open>None\<close> would be a use of freed memory.\<close>

definition deck_core_publish_loaded_track ::
  "anlz_env \<Rightarrow> nat option \<Rightarrow> nat \<Rightarrow> deck_loaded_track_payload \<Rightarrow> snap_mem \<times> deck_loaded_track_store \<Rightarrow>
   (esp_err \<times> snap_mem \<times> deck_loaded_track_store) option" where
  "deck_core_publish_loaded_track e calloc deck payload ms =
     map_option (\<lambda>(r, ms). (loaded_track_result_to_esp r, ms)) (deck_loaded_track_store_publish e calloc deck payload ms)"

definition deck_core_clear_loaded_track ::
  "nat \<Rightarrow> u32 \<Rightarrow> snap_mem \<times> deck_loaded_track_store \<Rightarrow> (esp_err \<times> snap_mem \<times> deck_loaded_track_store) option" where
  "deck_core_clear_loaded_track deck g ms = map_option (\<lambda>(r, ms). (loaded_track_result_to_esp r, ms)) (deck_loaded_track_store_clear deck g ms)"

definition deck_core_clear_loaded_tracks ::
  "u32 \<Rightarrow> snap_mem \<times> deck_loaded_track_store \<Rightarrow> (esp_err \<times> snap_mem \<times> deck_loaded_track_store) option" where
  "deck_core_clear_loaded_tracks g ms = map_option (\<lambda>(r, ms). (loaded_track_result_to_esp r, ms)) (deck_loaded_track_store_clear_all g ms)"

definition deck_core_get_loaded_track :: "nat \<Rightarrow> deck_loaded_track_store \<Rightarrow> deck_loaded_track_summary option" where
  "deck_core_get_loaded_track deck store = deck_loaded_track_store_get deck store"

section \<open>Start\<close>

definition zero_deck_slot :: deck_slot where
  "zero_deck_slot = \<lparr>dk_state = init_deck_state, dk_track_load_led = None, dk_loaded_hot_cue_mask = None, dk_beat_jump_pad_led = replicate 8 None,
     dk_shift_held = False, dk_jog_touched = False, dk_jog_hold_active = False, dk_jog_scratch_active = False, dk_shift_helper_led = replicate 2 None,
     dk_loop = zero_loop, dk_roll = zero_roll, dk_pad_fx_led = zero_pad_fx_led, dk_beat_loop_led = zero_beat_loop_led, dk_censor = zero_censor,
     dk_mask_key = 0, dk_mask_value = 0, dk_vu_level = 0\<rparr>"

text \<open>The core after a successful \<open>deck_core_init\<close>, with the engine and the storage as they are; before, its memory is zero.\<close>

definition deck_core_init :: "audio_engine \<Rightarrow> nvs \<Rightarrow> deck_core" where
  "deck_core_init e n = \<lparr>dc_decks = [zero_deck_slot, zero_deck_slot],
     dc_published = \<lparr>sp_decks = [init_deck_state, init_deck_state], sp_loops = [zero_loop, zero_loop], sp_beat_fx = init_beat_fx_state, sp_heartbeat_tick = 0\<rparr>,
     dc_tracks = (\<lparr>sm_heap = (\<lambda>_. None), sm_next_version = 0\<rparr>, empty_store), dc_publisher = flx4_led_publisher_init, dc_beat_fx = init_beat_fx_state,
     dc_suppress_inactive_pads = False, dc_heartbeat_tick = 0, dc_flx4_state_valid = False, dc_flx4_connected = False, dc_sync_master = no_master,
     dc_token_hi = 0, dc_token_hi_valid = False, dc_status_cb = False, dc_token_cb = False, dc_queue = [], dc_ui_commands = [], dc_drop_count = 0,
     dc_reset_done = False, dc_vu_meters_active = False, dc_engine = e, dc_nvs = n, dc_reads = 0, dc_ticks = 0, dc_ui_calls = 0, dc_out = []\<rparr>"

section \<open>An example\<close>

text \<open>Both decks loaded, no other task busy, and the scratch window never usable.\<close>

definition example_env :: deck_env where
  "example_env = \<lparr>de_audio = \<lparr>ae_others = \<lambda>_ e. e, ae_prebuffered = \<lambda>_. True, ae_scratch_window = \<lambda>_. False, ae_stopped = \<lambda>_. ESP_OK,
     ae_sqrtf = \<lambda>x. x, ae_fused = True\<rparr>, de_nvs = \<lparr>nv_fault = \<lambda>_. ESP_OK, nv_kept = \<lambda>_. True\<rparr>, de_tracks = \<lambda>_ t. t, de_tick = of_nat,
     de_ui_answer = \<lambda>_. ESP_OK, de_library_active = \<lambda>_. True, de_overview_active = \<lambda>_. True\<rparr>"

definition example_deck :: audio_engine_state where
  "example_deck = \<lparr>en_loaded = True, en_loading = False, en_load_progress = 100, en_last_error = ESP_OK, en_source = True, en_sample_rate = 44100,
     en_playing = False, en_paused = False, en_eof = False, en_playback_finished = False, en_start_waiting = False, en_seek_target_ms = 0,
     en_seek_requested = False, en_seek_reason = AE_SEEK_REASON_USER, en_seek_base_ms = 0, en_frames_since_seek = 0, en_output_base_ms = 1000,
     en_output_frames_since_seek = 0, en_loop_start_ms = 0, en_loop_end_ms = 0, en_loop_active = False, en_pitch_factor = 1,
     en_pending_pitch = None, en_hold = False, en_jog_bend = 0, en_scratch_playing = False, en_scratch_position = None,
     en_scratch_command = AE_SCRATCH_COMMAND_NONE, en_scratch_abort_seek = None, en_scratch_started_paused = False, en_scratch_return_paused = False,
     en_scratch_origin_pos_ms = 0, en_capture_freeze = False, en_scratch_ticks = 0, en_master_tempo = False, en_master_tempo_epoch = 0,
     en_session_generation = 1, en_peak = 0, en_channel_volume = 16383, en_pregain = 8192, en_eq = [8192, 8192, 8192], en_filter_raw = 8192,
     en_pfl = False, en_beat_filter = (8192, False),
     en_beat_echo = \<lparr>dl_enabled = False, dl_mode = AUDIO_DELAY_FX_MODE_ECHO, dl_delay_ms = 1, dl_wet_q15 = 0, dl_feedback_q15 = 0\<rparr>,
     en_echo_buffer = True, en_beat_flanger = \<lparr>fl_enabled = False, fl_period_ms = 500, fl_depth_q15 = 0\<rparr>, en_flanger_buffer = True,
     en_pad_fx = \<lparr>pf_mode = AUDIO_PAD_FX_MODE_PAD_FX1, pf_pad = 0, pf_active = False\<rparr>\<rparr>"

definition example_engine :: audio_engine where
  "example_engine = \<lparr>ae_decks = [example_deck, example_deck], ae_crossfader = 8192, ae_master_volume = 16383, ae_headphone_mix = 8192,
     ae_headphone_level = 16383, ae_smart_cfx = False, ae_smart_fader = False, ae_master_cue = False, ae_calls = 0\<rparr>"

definition example_nvs :: nvs where
  "example_nvs = \<lparr>nv_stored = \<lambda>_. None, nv_written = \<lambda>_. None, nv_calls = 0\<rparr>"

text \<open>The same with a track of the database on deck 1.\<close>

definition example_tracks :: "snap_mem \<times> deck_loaded_track_store" where
  "example_tracks = (\<lparr>sm_heap = (\<lambda>_. None), sm_next_version = 0\<rparr>, empty_store\<lparr>ls_summary := [\<lparr>lt_generation = 1, lt_media_generation = 1,
     lt_track_key = 7, lt_duration_ms = 240000, lt_bpm_x100 = 12800, lt_bpm = 128, lt_deck = 0, lt_valid = True, lt_has_anlz = False\<rparr>, empty_summary]\<rparr>)"

end
