(* ===== verification/Deck_Lights.thy ===== *)
theory Deck_Lights
  imports Deck_Core
begin

text \<open>
  What the controller shows after the deck core has published: the publisher of \<open>Led_Snapshot\<close> on the core's own way of sending.
\<close>

lemma run_engine [simp]: "run_state (engine m) s = (eval m (dc_engine s), s\<lparr>dc_engine := exec m (dc_engine s)\<rparr>)"
  by (simp add: engine_def split: prod.split)

lemma run_storage [simp]: "run_state (storage m) s = (eval m (dc_nvs s), s\<lparr>dc_nvs := exec m (dc_nvs s)\<rparr>)"
  by (simp add: storage_def split: prod.split)

lemma run_emit [simp]: "run_state (emit x) s = ((), s\<lparr>dc_out := dc_out s @ [x]\<rparr>)"
  by (simp add: emit_def)

lemma run_slot_of [simp]: "run_state (slot_of deck) s = (dc_decks s ! deck, s)"
  by (simp add: slot_of_def)

lemma run_state_of [simp]: "run_state (state_of deck) s = (dk_state (dc_decks s ! deck), s)"
  by (simp add: state_of_def)

lemma run_on_slot [simp]: "run_state (on_slot deck f) s = ((), s\<lparr>dc_decks := (dc_decks s)[deck := f (dc_decks s ! deck)]\<rparr>)"
  by (simp add: on_slot_def)

lemma run_on_state [simp]:
  "run_state (on_state deck f) s = ((), s\<lparr>dc_decks := (dc_decks s)[deck := (dc_decks s ! deck)\<lparr>dk_state := f (dk_state (dc_decks s ! deck))\<rparr>]\<rparr>)"
  by (simp add: on_state_def)

text \<open>The light a controller shows: what it was last sent.\<close>

definition lit_by :: "deck_out list \<Rightarrow> nat \<Rightarrow> u8 \<Rightarrow> u8" where
  "lit_by outs deck led = fold (\<lambda>x v. case x of Led l w d \<Rightarrow> if l = led \<and> d = deck then w else v | _ \<Rightarrow> v) outs 0"

definition controller_light :: "deck_core \<Rightarrow> nat \<Rightarrow> u8 \<Rightarrow> u8" where
  "controller_light s deck led = lit_by (dc_out s) deck led"

lemma lit_by_snoc: "lit_by (outs @ [Led l v d]) deck led = (if l = led \<and> d = deck then v else lit_by outs deck led)"
  by (simp add: lit_by_def)

definition jump_led :: "u8 \<Rightarrow> bool" where
  "jump_led led \<longleftrightarrow> led \<ge> LED_BEAT_JUMP_PAD_1 \<and> led \<le> LED_BEAT_JUMP_SHIFT_HELPER_8"

text \<open>Sending a light asks the engine whether the deck has a track.\<close>

definition asked :: "deck_env \<Rightarrow> nat \<Rightarrow> deck_core \<Rightarrow> deck_core" where
  "asked env deck s =
     (if deck < DECK_CORE_DECK_COUNT then s\<lparr>dc_engine := exec (audio_engine_deck_get_status (de_audio env) deck) (dc_engine s)\<rparr> else s)"

lemma run_has_loaded: "exec (deck_has_loaded_track env deck) s = s\<lparr>dc_engine := exec (audio_engine_deck_get_status (de_audio env) deck) (dc_engine s)\<rparr>"
  by (simp add: deck_has_loaded_track_def)

definition sent_value :: "deck_env \<Rightarrow> u8 \<Rightarrow> u8 \<Rightarrow> nat \<Rightarrow> deck_core \<Rightarrow> u8" where
  "sent_value env led v deck s =
     (let d = dc_decks s ! deck; loaded = eval (deck_has_loaded_track env deck) s; mode = (ds_pad_mode (dk_state d) = CTRL_PAD_MODE_BEAT_JUMP) in
      if deck \<ge> DECK_CORE_DECK_COUNT then v
      else if led \<ge> LED_BEAT_JUMP_PAD_1 \<and> led \<le> LED_BEAT_JUMP_PAD_8 then (if mode \<and> loaded then 1 else 0)
      else if led \<ge> LED_BEAT_JUMP_SHIFT_HELPER_7 \<and> led \<le> LED_BEAT_JUMP_SHIFT_HELPER_8 then (if mode \<and> dk_shift_held d \<and> loaded then 1 else 0)
      else v)"

lemma send_led_run:
  "run_state (deck_send_led env led v deck) s = ((), (asked env deck s)\<lparr>dc_out := dc_out s @ [Led led (sent_value env led v deck s) deck]\<rparr>)"
  by (simp add: deck_send_led_def asked_def sent_value_def Let_def deck_has_loaded_track_def)

lemma sent_value_plain: "\<not> jump_led led \<Longrightarrow> sent_value env led v deck s = v"
  by (auto simp: sent_value_def jump_led_def Let_def word_le_nat_alt)

lemma snapshot_leds_plain: "led \<in> set s_led_ids \<Longrightarrow> \<not> jump_led led"
  by (auto simp: s_led_ids_def jump_led_def word_le_nat_alt)

definition left_out :: "deck_core \<Rightarrow> u8 \<Rightarrow> bool" where
  "left_out s led \<longleftrightarrow> dc_suppress_inactive_pads s \<and> performance_pad led"

lemma send_snapshot_run:
  "run_state (send_snapshot_led env led v deck) s =
    (ESP_OK, if left_out s led \<and> v = 0 then s else (asked env deck s)\<lparr>dc_out := dc_out s @ [Led led (sent_value env led v deck s) deck]\<rparr>)"
  by (simp add: send_snapshot_led_def left_out_def send_led_run)

interpretation board: led_target "send_snapshot_led env" controller_light left_out "\<lambda>s. True" for env
  by unfold_locales
    (auto simp: send_snapshot_run sent_value_plain snapshot_leds_plain controller_light_def lit_by_snoc left_out_def asked_def)

lemma publish_lights_rc:
  assumes "\<And>led v deck s. eval (send led v deck) s = ESP_OK"
  shows "snd (eval (publish_lights input force send ls p e) s) = e"
proof (induction ls arbitrary: p s)
  case (Cons di ls)
  obtain d i where "di = (d, i)" by (cases di)
  then show ?case using Cons.IH assms by (auto simp: Let_def split_beta)
qed simp

text \<open>The cache of the publisher agrees with the controller.\<close>

definition cache_agrees :: "deck_core \<Rightarrow> bool" where
  "cache_agrees s \<longleftrightarrow> (\<forall>d<2. \<forall>i<FLX4_LED_SNAPSHOT_COUNT. \<forall>v. cached_value (dc_publisher s) d i = Some v \<longrightarrow> controller_light s d (s_led_ids ! i) = v)"

lemma cache_agrees_board: "cache_agrees s \<longleftrightarrow> board.cache_true (dc_publisher s) s"
  by (force simp: cache_agrees_def board.cache_true_def)

lemma light_out_cong: "dc_out s = dc_out t \<Longrightarrow> controller_light s = controller_light t"
  by (simp add: controller_light_def fun_eq_iff)

lemma publish_snapshot_spec:
  fixes env :: deck_env and input :: flx4_led_snapshot_input
  assumes "publisher_ok (dc_publisher s)" "force \<or> cache_agrees s"
    "force \<longrightarrow> (\<forall>(d, i) \<in> set published_lights. performance_pad (s_led_ids ! i) \<longrightarrow> controller_light s d (s_led_ids ! i) = 0)"
    "(d, i) \<in> set published_lights"
  defines "t \<equiv> exec (publish_snapshot env input force) s"
  shows "publisher_ok (dc_publisher t)" "cache_agrees s \<Longrightarrow> cache_agrees t" "controller_light t d (s_led_ids ! i) = snapshot_value input d i"
    "cached_value (dc_publisher t) d i = Some (snapshot_value input d i)"
proof -
  let ?s = "s\<lparr>dc_suppress_inactive_pads := force\<rparr>"
  obtain p rc s' where run: "run_state (flx4_led_publisher_publish (dc_publisher s) input force (send_snapshot_led env)) ?s = ((p, rc), s')"
    by (metis surj_pair)
  have t: "t = s'\<lparr>dc_publisher := p, dc_suppress_inactive_pads := False\<rparr>" using run by (simp add: t_def publish_snapshot_def)
  have light: "controller_light t = controller_light s'" by (rule light_out_cong) (simp add: t)
  have light0: "controller_light (s\<lparr>dc_suppress_inactive_pads := b\<rparr>) = controller_light s" for b by (rule light_out_cong) simp
  have rc: "rc = ESP_OK"
    using publish_lights_rc [of "send_snapshot_led env" input force published_lights "dc_publisher s" ESP_OK ?s] run
    by (simp add: send_snapshot_run flx4_led_publisher_publish_def)
  have cache: "force \<or> board.cache_true (dc_publisher s) ?s" using assms(2) by (auto simp: cache_agrees_board board.cache_true_def light0)
  have dark: "board.dark published_lights input ?s" using assms(3) by (auto simp: board.dark_def left_out_def light0)
  note spec = board.publish_spec [OF assms(1) TrueI cache dark run]
  show "publisher_ok (dc_publisher t)" using spec(1) by (simp add: t)
  show "cache_agrees t" if "cache_agrees s"
    using spec(3) that by (simp add: cache_agrees_board board.cache_true_def light light0) (simp add: t)
  show "controller_light t d (s_led_ids ! i) = snapshot_value input d i"
    using spec(4) [OF rc] assms(4) by (auto simp: board.displays_def light)
  show "cached_value (dc_publisher t) d i = Some (snapshot_value input d i)"
    using spec(5) [OF rc assms(4)] by (simp add: t)
qed

end
