(* ===== verification/Deck_Safety.thy ===== *)
theory Deck_Safety
  imports Deck_Lights
begin

text \<open>
  Invariants of the deck core over every turn of its tasks, and the platter: a deck is silenced by a held platter only while its
  platter is touched, so that a disconnect leaves no deck silent.
\<close>

section \<open>What the core alone commands\<close>

text \<open>
  The deck core alone puts a deck on hold and commands its beat effects; the other tasks of the engine may end a hold, and play what
  is commanded.
\<close>

type_synonym fx_commands = "(u16 \<times> bool) \<times> audio_delay_fx_config \<times> bool \<times> audio_flanger_fx_config \<times> bool"

definition fx_commands :: "audio_engine_state \<Rightarrow> fx_commands" where
  "fx_commands eng = (en_beat_filter eng, en_beat_echo eng, en_echo_buffer eng, en_beat_flanger eng, en_flanger_buffer eng)"

definition left_alone :: "audio_engine \<Rightarrow> audio_engine \<Rightarrow> bool" where
  "left_alone e e' \<longleftrightarrow> map fx_commands (ae_decks e') = map fx_commands (ae_decks e) \<and> (\<forall>d. en_hold (ae_decks e' ! d) \<longrightarrow> en_hold (ae_decks e ! d))"

definition engine_quiet :: "ae_env \<Rightarrow> bool" where
  "engine_quiet a \<longleftrightarrow> (\<forall>n e. left_alone e (ae_others a n e))"

lemma left_alone_length: "left_alone e e' \<Longrightarrow> length (ae_decks e') = length (ae_decks e)"
  by (auto simp: left_alone_def dest: map_eq_imp_length_eq)

interpretation eng: carried left_alone
  by unfold_locales (auto simp: left_alone_def)

lemma map_update_same: "g y = g (xs ! i) \<Longrightarrow> map g (xs[i := y]) = map g xs"
  by (cases "i < length xs") (simp_all add: map_update list_update_same_conv list_update_beyond)

lemma on_deck_falls:
  assumes "\<And>eng. en_hold (f eng) \<Longrightarrow> en_hold eng" "\<And>eng. fx_commands (f eng) = fx_commands eng"
  shows "eng.keeps (modify (on_deck deck f))"
proof (rule eng.modify_keeps)
  fix e
  have "en_hold (ae_decks (on_deck deck f e) ! d) \<Longrightarrow> en_hold (ae_decks e ! d)" for d
    using assms(1) by (cases "deck < length (ae_decks e)") (auto simp: on_deck_def nth_list_update list_update_beyond split: if_splits)
  then show "left_alone e (on_deck deck f e)"
    using map_update_same [of fx_commands, OF assms(2)] by (simp add: left_alone_def on_deck_def)
qed

lemma ae_call_falls:
  assumes "engine_quiet a" "eng.keeps m"
  shows "eng.keeps (ae_call a m)"
proof -
  have "eng.keeps (modify (ae_turn a))"
    by (rule eng.modify_keeps) (use assms(1) in \<open>auto simp: engine_quiet_def left_alone_def ae_turn_def\<close>)
  then show ?thesis using assms(2) by (auto simp: ae_call_def)
qed

lemma scratch_state_hold [simp]: "en_hold (clear_scratch_playback_state eng) = en_hold eng" "fx_commands (clear_scratch_playback_state eng) = fx_commands eng"
  by (simp_all add: clear_scratch_playback_state_def fx_commands_def)

lemma reset_state_hold [simp]: "\<not> en_hold (audio_engine_reset_state err eng)" "fx_commands (audio_engine_reset_state err eng) = fx_commands eng"
  by (simp_all add: audio_engine_reset_state_def fx_commands_def clear_scratch_playback_state_def)

lemmas same_commands [simp] = reset_state_hold(2) [unfolded fx_commands_def prod.inject]

lemmas engine_calls = audio_engine_deck_seek_def audio_engine_request_user_seek_def audio_engine_seek_for_deck_reason_def audio_engine_deck_play_def
  audio_engine_play_for_deck_def audio_engine_deck_pause_def audio_engine_pause_for_deck_def audio_engine_deck_stop_def audio_engine_stop_for_deck_def
  lifecycle_advance_generation_def audio_engine_deck_position_ms_def audio_engine_deck_is_playing_def audio_engine_deck_get_status_def
  audio_engine_get_deck_peak_def audio_engine_deck_set_loop_def audio_engine_deck_clear_loop_def audio_engine_deck_get_loop_state_def
  audio_engine_deck_set_pitch_percent_def audio_engine_set_pitch_percent_for_deck_def audio_engine_deck_set_master_tempo_def jog_bend_add_def
  audio_engine_deck_jog_nudge_def audio_engine_deck_scratch_begin_def audio_engine_deck_scratch_move_def audio_engine_deck_scratch_end_def
  audio_engine_set_channel_volume_def audio_engine_set_crossfader_def audio_engine_set_pregain_def audio_engine_set_master_volume_def
  audio_engine_set_headphone_mix_def audio_engine_set_headphone_level_def audio_engine_set_eq_def audio_engine_set_filter_def
  audio_engine_toggle_pfl_def audio_engine_get_pfl_enabled_def audio_engine_toggle_smart_cfx_def audio_engine_get_smart_cfx_enabled_def
  audio_engine_toggle_smart_fader_def audio_engine_get_smart_fader_enabled_def audio_engine_toggle_master_cue_def
  audio_engine_get_master_cue_enabled_def audio_engine_set_beat_fx_filter_def audio_engine_set_beat_fx_time_effect_def
  audio_engine_set_beat_fx_echo_def audio_engine_set_beat_fx_delay_def audio_engine_set_beat_fx_flanger_def audio_engine_set_pad_fx_def

lemma global_falls: "(\<And>e. ae_decks (f e) = ae_decks e) \<Longrightarrow> eng.keeps (modify f)"
  by (rule eng.modify_keeps) (simp add: left_alone_def)

lemma mixer_wide_falls:
  "eng.keeps (modify (ae_crossfader_update g))" "eng.keeps (modify (ae_master_volume_update g))" "eng.keeps (modify (ae_headphone_mix_update g))"
  "eng.keeps (modify (ae_headphone_level_update g))" "eng.keeps (modify (\<lambda>e. e\<lparr>ae_smart_cfx := h e\<rparr>))"
  "eng.keeps (modify (\<lambda>e. e\<lparr>ae_smart_fader := h e\<rparr>))" "eng.keeps (modify (\<lambda>e. e\<lparr>ae_master_cue := h e\<rparr>))"
  by (rule global_falls, simp)+

lemmas falls = ae_call_falls on_deck_falls mixer_wide_falls

lemma transport_falls:
  assumes "engine_quiet a"
  shows "eng.keeps (audio_engine_deck_seek a deck pos)" "eng.keeps (audio_engine_deck_play a deck)" "eng.keeps (audio_engine_deck_pause a deck)"
    "eng.keeps (audio_engine_deck_stop a deck)" "eng.keeps (audio_engine_deck_position_ms a deck)" "eng.keeps (audio_engine_deck_is_playing a deck)"
    "eng.keeps (audio_engine_deck_get_status a deck)" "eng.keeps (audio_engine_get_deck_peak a deck)"
    "eng.keeps (audio_engine_deck_set_loop a deck b e)" "eng.keeps (audio_engine_deck_clear_loop a deck)" "eng.keeps (audio_engine_deck_get_loop_state a deck)"
    "eng.keeps (audio_engine_deck_set_pitch_percent a deck pc)" "eng.keeps (audio_engine_deck_set_master_tempo a deck on)"
    "eng.keeps (audio_engine_deck_jog_nudge a deck n)" "eng.keeps (audio_engine_deck_scratch_begin a deck)"
    "eng.keeps (audio_engine_deck_scratch_move a deck n)" "eng.keeps (audio_engine_deck_scratch_end a deck)"
  using assms by (auto simp: engine_calls fx_commands_def Let_def intro!: falls split: option.splits if_splits)

lemma mixer_falls:
  assumes "engine_quiet a"
  shows "eng.keeps (audio_engine_set_channel_volume a deck v)" "eng.keeps (audio_engine_set_crossfader a v)" "eng.keeps (audio_engine_set_pregain a deck v)"
    "eng.keeps (audio_engine_set_master_volume a v)" "eng.keeps (audio_engine_set_headphone_mix a v)" "eng.keeps (audio_engine_set_headphone_level a v)"
    "eng.keeps (audio_engine_set_eq a deck band v)" "eng.keeps (audio_engine_set_filter a deck v)" "eng.keeps (audio_engine_toggle_pfl a deck)"
    "eng.keeps (audio_engine_get_pfl_enabled a deck)" "eng.keeps (audio_engine_toggle_smart_cfx a)" "eng.keeps (audio_engine_get_smart_cfx_enabled a)"
    "eng.keeps (audio_engine_toggle_smart_fader a)" "eng.keeps (audio_engine_get_smart_fader_enabled a)" "eng.keeps (audio_engine_toggle_master_cue a)"
    "eng.keeps (audio_engine_get_master_cue_enabled a)" "eng.keeps (audio_engine_set_pad_fx a deck mode pad on)"
  using assms by (auto simp: engine_calls fx_commands_def Let_def intro!: falls split: option.splits if_splits)

section \<open>The invariant\<close>

definition slot_ok :: "deck_slot \<Rightarrow> bool" where
  "slot_ok d \<longleftrightarrow>
     \<bar>sint (ds_pitch_centipercent (dk_state d))\<bar> \<le> 2000 \<and>
     ds_tempo_range_percent (dk_state d) \<in> {6, 10, 16} \<and>
     ds_pad_mode (dk_state d) \<in> {CTRL_PAD_MODE_HOT_CUE, CTRL_PAD_MODE_BEAT_LOOP, CTRL_PAD_MODE_BEAT_JUMP, CTRL_PAD_MODE_PAD_FX1, CTRL_PAD_MODE_PAD_FX2} \<and>
     (ds_censor_active (dk_state d) \<longleftrightarrow> ce_active (dk_censor d)) \<and>
     (dk_jog_scratch_active d \<longrightarrow> dk_jog_hold_active d) \<and>
     (dk_jog_hold_active d \<longrightarrow> dk_jog_touched d) \<and>
     (lo_last_valid (dk_loop d) \<longrightarrow> lo_last_start_ms (dk_loop d) < lo_last_end_ms (dk_loop d)) \<and>
     length (dk_beat_jump_pad_led d) = 8 \<and> length (dk_shift_helper_led d) = 2"

text \<open>The beat effects a deck of the engine has on, and those the state of the core chooses for it.\<close>

definition effects_on :: "fx_commands \<Rightarrow> deck_core_beat_fx_effect set" where
  "effects_on c = (case c of (filt, echo, _, flanger, _) \<Rightarrow>
     {x. x = DECK_CORE_BEAT_FX_FILTER \<and> snd filt \<or> x = DECK_CORE_BEAT_FX_ECHO \<and> dl_enabled echo \<and> dl_mode echo = AUDIO_DELAY_FX_MODE_ECHO \<or>
       x = DECK_CORE_BEAT_FX_DELAY \<and> dl_enabled echo \<and> dl_mode echo = AUDIO_DELAY_FX_MODE_DELAY \<or>
       x = DECK_CORE_BEAT_FX_FLANGER \<and> fl_enabled flanger})"

definition has_line :: "deck_core_beat_fx_effect \<Rightarrow> fx_commands \<Rightarrow> bool" where
  "has_line x c = (case c of (_, _, echo_line, _, flanger_line) \<Rightarrow>
     x = DECK_CORE_BEAT_FX_FILTER \<or> x \<in> {DECK_CORE_BEAT_FX_ECHO, DECK_CORE_BEAT_FX_DELAY} \<and> echo_line \<or> x = DECK_CORE_BEAT_FX_FLANGER \<and> flanger_line)"

definition effects_chosen :: "deck_core_beat_fx_state \<Rightarrow> nat \<Rightarrow> fx_commands \<Rightarrow> deck_core_beat_fx_effect set" where
  "effects_chosen fx d c =
     (if fx_enabled fx \<and> fx_depth fx > 0 \<and> beat_fx_target_includes_deck (beat_fx_audio_target (fx_target fx)) d \<and> has_line (fx_effect fx) c
      then {fx_effect fx} else {})"

definition effects_agree :: "deck_core_beat_fx_state \<Rightarrow> fx_commands list \<Rightarrow> bool" where
  "effects_agree fx cs \<longleftrightarrow> (\<forall>d<DECK_CORE_DECK_COUNT. effects_on (cs ! d) = effects_chosen fx d (cs ! d))"

definition core_ok :: "deck_core \<Rightarrow> bool" where
  "core_ok s \<longleftrightarrow>
     length (ae_decks (dc_engine s)) = DECK_CORE_DECK_COUNT \<and> effects_agree (dc_beat_fx s) (map fx_commands (ae_decks (dc_engine s))) \<and>
     length (dc_decks s) = DECK_CORE_DECK_COUNT \<and> (\<forall>i<DECK_CORE_DECK_COUNT. slot_ok (dc_decks s ! i)) \<and>
     (\<forall>i<DECK_CORE_DECK_COUNT. ds_sync_master (dk_state (dc_decks s ! i)) \<longleftrightarrow> dc_sync_master s = i) \<and>
     fx_beat (dc_beat_fx s) \<le> DECK_CORE_BEAT_FX_BEAT_4 \<and> fx_depth (dc_beat_fx s) \<le> 127 \<and>
     publisher_ok (dc_publisher s) \<and> length (dc_ui_commands s) \<le> DECK_UI_COMMAND_QUEUE_LEN \<and>
     (dc_token_hi_valid s \<longrightarrow> dc_token_hi s \<le> 999) \<and> length (dc_queue s) \<le> CTRL_QUEUE_LEN \<and>
     length (sp_decks (dc_published s)) = DECK_CORE_DECK_COUNT \<and> length (sp_loops (dc_published s)) = DECK_CORE_DECK_COUNT"

text \<open>
  Of the decks in \<open>D\<close>, one that the engine holds silent has its platter touched and no scratch, and no reset of it is waiting.
\<close>

definition resets_deck :: "nat \<Rightarrow> ctrl_event \<Rightarrow> bool" where
  "resets_deck d ev \<longleftrightarrow> ev_type ev = CTRL_EV_STATE \<and> ev_id ev = DECK_CORE_INTERNAL_RESET_ID \<and> normalize_deck (unat (ev_deck ev)) = d"

definition silent_ok :: "nat set \<Rightarrow> deck_core \<Rightarrow> bool" where
  "silent_ok D s \<longleftrightarrow> (\<forall>ev\<in>set (dc_queue s). \<forall>d\<in>D. \<not> resets_deck d ev) \<and>
     (\<forall>d\<in>D. d < DECK_CORE_DECK_COUNT \<longrightarrow> en_hold (ae_decks (dc_engine s) ! d) \<longrightarrow>
       dk_jog_touched (dc_decks s ! d) \<and> dk_jog_hold_active (dc_decks s ! d) \<and> \<not> dk_jog_scratch_active (dc_decks s ! d))"

definition safe :: "nat set \<Rightarrow> deck_core \<Rightarrow> bool" where
  "safe D s \<longleftrightarrow> core_ok s \<and> silent_ok D s"

definition stays_safe :: "nat set \<Rightarrow> deck_core \<Rightarrow> deck_core \<Rightarrow> bool" where
  "stays_safe D s t \<longleftrightarrow> (safe D s \<longrightarrow> safe D t)"

interpretation turn: carried "stays_safe D" for D
  by unfold_locales (auto simp: stays_safe_def)

lemma turn_keepsI: "(\<And>s. safe D s \<Longrightarrow> safe D (exec m s)) \<Longrightarrow> turn.keeps D m"
  by (simp add: turn.keeps_def stays_safe_def)

lemma turn_keepsD: "turn.keeps D m \<Longrightarrow> safe D s \<Longrightarrow> safe D (exec m s)"
  by (simp add: turn.keeps_def stays_safe_def)

lemma engine_keeps: "eng.keeps m \<Longrightarrow> turn.keeps D (engine m)"
proof (rule turn_keepsI)
  fix s assume "eng.keeps m" "safe D s"
  then show "safe D (exec (engine m) s)"
    using eng.keepsD [of m "dc_engine s"] left_alone_length [OF eng.keepsD [of m "dc_engine s"]]
    by (auto simp: safe_def core_ok_def silent_ok_def left_alone_def)
qed

definition same_platter :: "deck_slot \<Rightarrow> deck_slot \<Rightarrow> bool" where
  "same_platter d d' \<longleftrightarrow> dk_jog_touched d' = dk_jog_touched d \<and> dk_jog_hold_active d' = dk_jog_hold_active d \<and>
     dk_jog_scratch_active d' = dk_jog_scratch_active d \<and> ds_sync_master (dk_state d') = ds_sync_master (dk_state d)"

lemma on_slot_keeps:
  assumes "\<And>d. slot_ok d \<Longrightarrow> slot_ok (f d) \<and> same_platter d (f d)"
  shows "turn.keeps D (on_slot deck f)"
proof (rule turn_keepsI)
  fix s assume s: "safe D s"
  then have len: "length (dc_decks s) = DECK_CORE_DECK_COUNT" by (simp add: safe_def core_ok_def)
  show "safe D (exec (on_slot deck f) s)"
  proof (cases "deck < DECK_CORE_DECK_COUNT")
    case True
    then have "slot_ok (f (dc_decks s ! deck))" "same_platter (dc_decks s ! deck) (f (dc_decks s ! deck))"
      using assms [of "dc_decks s ! deck"] s by (auto simp: safe_def core_ok_def)
    then show ?thesis using s True len by (auto simp: safe_def core_ok_def silent_ok_def same_platter_def nth_list_update)
  next
    case False
    then show ?thesis using s len by (simp add: list_update_beyond)
  qed
qed

lemma on_state_keeps:
  assumes "\<And>d. slot_ok d \<Longrightarrow> slot_ok (d\<lparr>dk_state := f (dk_state d)\<rparr>) \<and> ds_sync_master (f (dk_state d)) = ds_sync_master (dk_state d)"
  shows "turn.keeps D (on_state deck f)"
  unfolding on_state_def by (rule on_slot_keeps) (use assms in \<open>auto simp: same_platter_def\<close>)

lemma field_keeps:
  "turn.keeps D (modify (\<lambda>s. s\<lparr>dc_tracks := f1 s, dc_reads := f2 s\<rparr>))"
  "turn.keeps D (modify (\<lambda>s. s\<lparr>dc_ticks := f3 s\<rparr>))"
  "turn.keeps D (modify (\<lambda>s. s\<lparr>dc_ui_calls := f4 s\<rparr>))"
  "turn.keeps D (modify (\<lambda>s. s\<lparr>dc_heartbeat_tick := f5 s\<rparr>))"
  "turn.keeps D (modify (\<lambda>s. s\<lparr>dc_suppress_inactive_pads := f6 s\<rparr>))"
  "turn.keeps D (modify (\<lambda>s. s\<lparr>dc_flx4_state_valid := f7 s, dc_flx4_connected := f8 s\<rparr>))"
  "turn.keeps D (modify (\<lambda>s. s\<lparr>dc_token_hi_valid := False\<rparr>))"
  "turn.keeps D (modify (\<lambda>s. s\<lparr>dc_token_hi := f9 s, dc_token_hi_valid := False\<rparr>))"
  "turn.keeps D (modify (\<lambda>s. s\<lparr>dc_reset_done := f10 s\<rparr>))"
  "turn.keeps D (modify (\<lambda>s. s\<lparr>dc_vu_meters_active := f11 s\<rparr>))"
  "turn.keeps D (modify (\<lambda>s. s\<lparr>dc_drop_count := f12 s\<rparr>))"
  by (rule turn_keepsI; simp add: safe_def core_ok_def silent_ok_def)+

lemma basic_keeps:
  "turn.keeps D (storage n)" "turn.keeps D (emit x)" "turn.keeps D (slot_of deck)" "turn.keeps D (state_of deck)" "turn.keeps D (tracks_turn env)"
  "turn.keeps D publish_state_snapshot" "turn.keeps D (xTaskGetTickCount env)"
  by (rule turn_keepsI; simp add: safe_def core_ok_def silent_ok_def tracks_turn_def publish_state_snapshot_def xTaskGetTickCount_def)+

text \<open>Values the handlers compute.\<close>

lemma quotient_bound:
  assumes "0 < b" "\<bar>a\<bar> \<le> b * k"
  shows "\<bar>quotient a b\<bar> \<le> k"
proof -
  have "0 \<le> \<bar>a\<bar> div b" using assms(1) by (simp add: pos_imp_zdiv_nonneg_iff)
  then have "\<bar>quotient a b\<bar> = \<bar>a\<bar> div b" by (cases "a < 0") (simp_all add: quotient_def)
  also have "\<dots> \<le> (b * k) div b" using assms by (intro zdiv_mono1)
  finally show ?thesis using assms(1) by simp
qed

lemma sint_small: "\<bar>c\<bar> \<le> 2000 \<Longrightarrow> sint (word_of_int c :: i16) = c"
  by (simp add: signed_of_int signed_take_bit_int_eq_self)

lemma tempo_bound:
  assumes "pc \<in> {6, 10, 16 :: u16}"
  shows "\<bar>sint (tempo_centipercent_from_raw raw pc)\<bar> \<le> uint pc * 100"
proof -
  let ?c = "if sint raw < 0 then 0 else if sint raw > 16383 then 16383 else sint raw"
  have r: "0 \<le> uint pc" "uint pc \<le> 16" using assms by auto
  have "\<bar>PITCH_CENTER - ?c\<bar> \<le> PITCH_CENTER" by auto
  from mult_right_mono [OF this, of "uint pc * 100"] r(1)
  have "\<bar>(PITCH_CENTER - ?c) * (uint pc * 100)\<bar> \<le> PITCH_CENTER * (uint pc * 100)"
    by (simp only: abs_mult) simp
  then have q: "\<bar>quotient ((PITCH_CENTER - ?c) * (uint pc * 100)) PITCH_CENTER\<bar> \<le> uint pc * 100"
    by (intro quotient_bound) auto
  then show ?thesis using r(2) sint_small [of "quotient ((PITCH_CENTER - ?c) * (uint pc * 100)) PITCH_CENTER"]
    by (simp add: tempo_centipercent_from_raw_def Let_def)
qed

lemma clamp_bound: "\<bar>sint (clamp_centipercent_to_range c BEAT_SYNC_MAX_PERCENT)\<bar> \<le> 2000"
  by (auto simp: clamp_centipercent_to_range_def Let_def sint_small)

lemma next_range: "next_tempo_range_percent r \<in> {6, 10, 16}"
  by (simp add: next_tempo_range_percent_def)

section \<open>Every handler keeps the invariant\<close>

named_theorems keeps_rules \<open>functions of the deck core that keep the invariant\<close>

lemmas [keeps_rules] = engine_keeps basic_keeps field_keeps transport_falls mixer_falls

lemma publisher_kept: "publisher_ok p \<Longrightarrow> \<forall>(d, i) \<in> set ls. d < 2 \<Longrightarrow> publisher_ok (fst (eval (publish_lights input force send ls p e) s))"
proof (induction ls arbitrary: p e s)
  case (Cons di ls)
  obtain d i where "di = (d, i)" by (cases di)
  then show ?case using Cons publisher_ok_cache [of p d i] by (auto simp: Let_def split_beta)
qed simp

text \<open>Updates of a slot that keep it well formed, whatever the new values are.\<close>

lemma slot_updates [keeps_rules]:
  "turn.keeps D (on_slot deck (\<lambda>d. d\<lparr>dk_track_load_led := x1\<rparr>))"
  "turn.keeps D (on_slot deck (\<lambda>d. d\<lparr>dk_loaded_hot_cue_mask := x2\<rparr>))"
  "turn.keeps D (on_slot deck (\<lambda>d. d\<lparr>dk_beat_jump_pad_led := (dk_beat_jump_pad_led d)[pad := x3]\<rparr>))"
  "turn.keeps D (on_slot deck (\<lambda>d. d\<lparr>dk_shift_helper_led := (dk_shift_helper_led d)[pad := x4]\<rparr>))"
  "turn.keeps D (on_slot deck (\<lambda>d. d\<lparr>dk_shift_held := x5\<rparr>))"
  "turn.keeps D (on_slot deck (\<lambda>d. d\<lparr>dk_mask_key := x6, dk_mask_value := x7\<rparr>))"
  "turn.keeps D (on_slot deck (\<lambda>d. if g d then d\<lparr>dk_mask_value := x8\<rparr> else d))"
  "turn.keeps D (on_slot deck (\<lambda>d. d\<lparr>dk_vu_level := x9\<rparr>))"
  "turn.keeps D (on_slot deck (\<lambda>d. d\<lparr>dk_beat_loop_led := x10\<rparr>))"
  "turn.keeps D (on_slot deck (\<lambda>d. d\<lparr>dk_roll := x11\<rparr>))"
  "turn.keeps D (on_slot deck (\<lambda>d. d\<lparr>dk_loop := zero_loop, dk_roll := x12, dk_beat_loop_led := x13\<rparr>))"
  "turn.keeps D (on_slot deck (\<lambda>d. if h1 then d\<lparr>dk_pad_fx_led := x14\<rparr> else if h2 d then d\<lparr>dk_pad_fx_led := k d\<rparr> else d))"
  by (rule on_slot_keeps; simp add: slot_ok_def same_platter_def zero_loop_def)+

lemma state_updates [keeps_rules]:
  "turn.keeps D (on_state deck (\<lambda>st. st\<lparr>ds_position_ms := y1\<rparr>))"
  "turn.keeps D (on_state deck (\<lambda>st. st\<lparr>ds_playing := y2 st\<rparr>))"
  "turn.keeps D (on_state deck (\<lambda>st. st\<lparr>ds_playing := False, ds_position_ms := y3 st\<rparr>))"
  "turn.keeps D (on_state deck (\<lambda>st. st\<lparr>ds_playing := False, ds_position_ms := 0, ds_cue_point_ms := 0\<rparr>))"
  "turn.keeps D (on_state deck (\<lambda>st. st\<lparr>ds_perf_mode := y4 st\<rparr>))"
  "turn.keeps D (on_state deck (\<lambda>st. st\<lparr>ds_master_tempo := y5 st\<rparr>))"
  "turn.keeps D (on_state deck (\<lambda>st. st\<lparr>ds_quantize_enabled := y6 st\<rparr>))"
  "turn.keeps D (on_state deck (\<lambda>st. st\<lparr>ds_sync_enabled := False\<rparr>))"
  "turn.keeps D (on_state deck (\<lambda>st. st\<lparr>ds_sync_enabled := False, ds_pitch := y7\<rparr>))"
  "turn.keeps D (on_state deck (\<lambda>st. st\<lparr>ds_sync_enabled := False, ds_tempo_range_percent := next_tempo_range_percent (ds_tempo_range_percent st)\<rparr>))"
  by (rule on_state_keeps; use next_range in \<open>simp add: slot_ok_def\<close>)+

lemma pitch_update [keeps_rules]:
  "turn.keeps D (on_state deck (\<lambda>st. st\<lparr>ds_pitch_centipercent := tempo_centipercent_from_raw (ds_pitch st) (ds_tempo_range_percent st)\<rparr>))"
proof (rule on_state_keeps)
  fix d assume d: "slot_ok d"
  have "\<bar>sint (tempo_centipercent_from_raw (ds_pitch (dk_state d)) (ds_tempo_range_percent (dk_state d)))\<bar> \<le> uint (ds_tempo_range_percent (dk_state d)) * 100"
    using d by (intro tempo_bound) (simp add: slot_ok_def)
  moreover have "uint (ds_tempo_range_percent (dk_state d)) \<le> 16" using d by (auto simp: slot_ok_def)
  ultimately show "slot_ok (d\<lparr>dk_state := (dk_state d)\<lparr>ds_pitch_centipercent := tempo_centipercent_from_raw (ds_pitch (dk_state d)) (ds_tempo_range_percent (dk_state d))\<rparr>\<rparr>) \<and>
    ds_sync_master ((dk_state d)\<lparr>ds_pitch_centipercent := tempo_centipercent_from_raw (ds_pitch (dk_state d)) (ds_tempo_range_percent (dk_state d))\<rparr>) = ds_sync_master (dk_state d)"
    using d by (simp add: slot_ok_def)
qed

lemma loop_updates [keeps_rules]:
  "turn.keeps D (on_loop deck (\<lambda>l. l\<lparr>lo_pending_in := z1, lo_pending_start_ms := z2\<rparr>))"
  "turn.keeps D (on_loop deck (\<lambda>l. l\<lparr>lo_pending_in := z1\<rparr>))"
  "b < e \<Longrightarrow> turn.keeps D (on_loop deck (\<lambda>l. l\<lparr>lo_last_valid := True, lo_last_start_ms := b, lo_last_end_ms := e\<rparr>))"
  unfolding on_loop_def by (rule on_slot_keeps; simp add: slot_ok_def same_platter_def)+

subsection \<open>Lights\<close>

lemma get_state_keeps [keeps_rules]: "engine_quiet (de_audio env) \<Longrightarrow> turn.keeps D (deck_core_get_deck_state env deck)"
  by (auto simp: deck_core_get_deck_state_def Let_def intro!: keeps_rules)

lemma loaded_keeps [keeps_rules]:
  "turn.keeps D (loaded_summary env deck)" "turn.keeps D (acquire_loaded_track_for_deck env deck)" "turn.keeps D (loaded_track_key_for_deck env deck)"
  by (auto simp: loaded_summary_def acquire_loaded_track_for_deck_def loaded_track_key_for_deck_def intro!: keeps_rules)

lemma mask_keeps [keeps_rules]:
  "turn.keeps D (hot_cue_mask_cache_store deck key m)" "turn.keeps D (hot_cue_mask_cache_invalidate deck)"
  "turn.keeps D (hot_cue_exists_mask_for_deck env deck)"
  by (auto simp: hot_cue_mask_cache_store_def hot_cue_mask_cache_invalidate_def hot_cue_exists_mask_for_deck_def Let_def intro!: keeps_rules)

lemma send_keeps [keeps_rules]:
  "engine_quiet (de_audio env) \<Longrightarrow> turn.keeps D (deck_has_loaded_track env deck)"
  "engine_quiet (de_audio env) \<Longrightarrow> turn.keeps D (deck_send_led env led v deck)"
  "engine_quiet (de_audio env) \<Longrightarrow> turn.keeps D (send_momentary_led env led deck)"
  "engine_quiet (de_audio env) \<Longrightarrow> turn.keeps D (send_snapshot_led env led v deck)"
  "turn.keeps D (sync_legacy_compat_leds deck)"
  by (auto simp: deck_has_loaded_track_def deck_send_led_def send_momentary_led_def send_snapshot_led_def sync_legacy_compat_leds_def Let_def intro!: keeps_rules)

lemma pad_lights_keep [keeps_rules]:
  "engine_quiet (de_audio env) \<Longrightarrow> turn.keeps D (publish_track_load_leds env force)"
  "engine_quiet (de_audio env) \<Longrightarrow> turn.keeps D (publish_beat_jump_pad_leds_for_deck env deck force)"
  "engine_quiet (de_audio env) \<Longrightarrow> turn.keeps D (publish_beat_jump_pad_leds env force)"
  "engine_quiet (de_audio env) \<Longrightarrow> turn.keeps D (publish_beat_jump_shift_helper_leds_for_deck env deck force)"
  "engine_quiet (de_audio env) \<Longrightarrow> turn.keeps D (publish_beat_jump_shift_helper_leds env force)"
  "engine_quiet (de_audio env) \<Longrightarrow> turn.keeps D (publish_loaded_track_hot_cue_leds env deck)"
  by (auto simp: publish_track_load_leds_def publish_beat_jump_pad_leds_for_deck_def publish_beat_jump_pad_leds_def
      publish_beat_jump_shift_helper_leds_for_deck_def publish_beat_jump_shift_helper_leds_def publish_loaded_track_hot_cue_leds_def Let_def intro!: keeps_rules)

lemma publish_lights_keep: "engine_quiet (de_audio env) \<Longrightarrow> turn.keeps D (publish_lights input force (send_snapshot_led env) ls p e)"
  by (induction ls arbitrary: p e) (auto simp: Let_def intro!: keeps_rules)

lemma publish_snapshot_keeps [keeps_rules]:
  assumes "engine_quiet (de_audio env)"
  shows "turn.keeps D (publish_snapshot env input force)"
proof (rule turn_keepsI)
  fix s assume s: "safe D s"
  let ?s = "s\<lparr>dc_suppress_inactive_pads := force\<rparr>"
  have "safe D ?s" using s by (simp add: safe_def core_ok_def silent_ok_def)
  then have "safe D (exec (flx4_led_publisher_publish (dc_publisher s) input force (send_snapshot_led env)) ?s)"
    unfolding flx4_led_publisher_publish_def by (rule turn_keepsD [OF publish_lights_keep [OF assms]])
  moreover have "publisher_ok (fst (eval (flx4_led_publisher_publish (dc_publisher s) input force (send_snapshot_led env)) ?s))"
    unfolding flx4_led_publisher_publish_def
    by (rule publisher_kept) (use s published_range in \<open>auto simp: safe_def core_ok_def\<close>)
  ultimately show "safe D (exec (publish_snapshot env input force) s)"
    by (auto simp: publish_snapshot_def safe_def core_ok_def silent_ok_def split_beta)
qed

lemma publish_keeps [keeps_rules]: "engine_quiet (de_audio env) \<Longrightarrow> turn.keeps D (publish_flx4_led_snapshot env force)"
  by (auto simp: publish_flx4_led_snapshot_def snapshot_input_def led_input_def live_led_input_def Let_def split: prod.split option.split intro!: keeps_rules)

subsection \<open>Tempo, cues, loops\<close>

lemma tempo_keeps [keeps_rules]:
  "turn.keeps D (deck_base_bpm env deck)" "turn.keeps D (deck_base_bpm_x100 env deck)" "turn.keeps D (deck_effective_bpm env deck st)"
  "turn.keeps D (required_centipercent env deck r)" "turn.keeps D (beat_sync_requires_clamp env deck r c)"
  "turn.keeps D (deck_synced_bpm_after_pitch env deck c)" "turn.keeps D (beat_sync_reference_deck deck)"
  by (auto simp: deck_base_bpm_def deck_base_bpm_x100_def deck_effective_bpm_def required_centipercent_def beat_sync_requires_clamp_def
      deck_synced_bpm_after_pitch_def beat_sync_reference_deck_def Let_def split: option.splits intro!: keeps_rules)

lemma position_keeps [keeps_rules]:
  "engine_quiet (de_audio env) \<Longrightarrow> turn.keeps D (current_deck_position_ms env deck)"
  "engine_quiet (de_audio env) \<Longrightarrow> turn.keeps D (quantized_deck_position_ms env deck)"
  "engine_quiet (de_audio env) \<Longrightarrow> turn.keeps D (seek_deck env deck pos)"
  "engine_quiet (de_audio env) \<Longrightarrow> turn.keeps D (search_to env deck pos)"
  by (auto simp: current_deck_position_ms_def quantized_deck_position_ms_def nearest_beat_ms_def seek_deck_def search_to_def Let_def split: option.splits
      intro!: keeps_rules)

lemma hot_cue_keeps [keeps_rules]: "engine_quiet (de_audio env) \<Longrightarrow> turn.keeps D (handle_hot_cue_pad_action env deck pad shifted)"
  by (auto simp: handle_hot_cue_pad_action_def save_hot_cues_def Let_def split: option.splits sum.splits intro!: keeps_rules)

lemma beat_jump_keeps [keeps_rules]: "engine_quiet (de_audio env) \<Longrightarrow> turn.keeps D (handle_beat_jump env deck n)"
  by (auto simp: handle_beat_jump_def Let_def split: option.splits prod.splits intro!: keeps_rules)

lemma set_loop_keeps [keeps_rules]:
  "turn.keeps D (remember_last_loop deck b e)"
  "engine_quiet (de_audio env) \<Longrightarrow> turn.keeps D (read_active_loop env deck)"
  "engine_quiet (de_audio env) \<Longrightarrow> turn.keeps D (set_deck_loop env deck b e)"
  "engine_quiet (de_audio env) \<Longrightarrow> turn.keeps D (stop_and_forget_loop env deck)"
  "turn.keeps D (beat_loop_led_off deck)"
  by (auto simp: remember_last_loop_def read_active_loop_def set_deck_loop_def stop_and_forget_loop_def beat_loop_led_off_def not_le
      slot_ok_def same_platter_def intro!: keeps_rules on_slot_keeps)

lemma loops_keep [keeps_rules]:
  "engine_quiet (de_audio env) \<Longrightarrow> turn.keeps D (adjust_loop_boundary env deck b)"
  "engine_quiet (de_audio env) \<Longrightarrow> turn.keeps D (handle_beat_loop_pad_action env deck pad)"
  "engine_quiet (de_audio env) \<Longrightarrow> turn.keeps D (handle_shifted_beat_loop_press env deck pad)"
  "engine_quiet (de_audio env) \<Longrightarrow> turn.keeps D (handle_shifted_beat_loop_release env deck)"
  "engine_quiet (de_audio env) \<Longrightarrow> turn.keeps D (on_loop_control env deck c)"
  "engine_quiet (de_audio env) \<Longrightarrow> turn.keeps D (on_loop_size_delta env deck delta)"
  by (auto simp: adjust_loop_boundary_def handle_beat_loop_pad_action_def handle_shifted_beat_loop_press_def handle_shifted_beat_loop_release_def
      on_loop_control_def on_loop_size_delta_def Let_def split: option.splits prod.splits bool.splits intro!: keeps_rules)

lemma censor_keeps [keeps_rules]:
  assumes "engine_quiet (de_audio env)"
  shows "turn.keeps D (handle_censor env deck pressed)"
proof -
  have "turn.keeps D (on_slot deck (\<lambda>d. d\<lparr>dk_censor := \<lparr>ce_active = True, ce_was_playing = w, ce_origin_ms = o', ce_press_tick = tk\<rparr>,
      dk_state := (dk_state d)\<lparr>ds_censor_active := True\<rparr>\<rparr>))" for w o' tk
    by (rule on_slot_keeps) (simp add: slot_ok_def same_platter_def)
  moreover have "turn.keeps D (on_slot deck (\<lambda>d. d\<lparr>dk_state := (dk_state d)\<lparr>ds_censor_active := False\<rparr>, dk_censor := zero_censor\<rparr>))"
    by (rule on_slot_keeps) (simp add: slot_ok_def same_platter_def zero_censor_def)
  ultimately show ?thesis using assms by (auto simp: handle_censor_def Let_def intro!: keeps_rules)
qed

subsection \<open>Platter, sync and reset\<close>

lemma set_hold_spec:
  assumes "engine_quiet a"
  shows "map fx_commands (ae_decks (exec (audio_engine_deck_set_hold a deck held) e)) = map fx_commands (ae_decks e)"
    "d \<noteq> deck \<or> \<not> held \<Longrightarrow> en_hold (ae_decks (exec (audio_engine_deck_set_hold a deck held) e) ! d) \<Longrightarrow> en_hold (ae_decks e ! d)"
    "deck < length (ae_decks e) \<Longrightarrow> deck < AUDIO_ENGINE_DECK_COUNT \<Longrightarrow> en_hold (ae_decks (exec (audio_engine_deck_set_hold a deck held) e) ! deck) = held"
proof -
  have f: "left_alone e (ae_turn a e)" using assms by (auto simp: engine_quiet_def left_alone_def ae_turn_def)
  note d = audio_engine_deck_set_hold_def ae_call_def on_deck_def deck_is_valid_def
  show "map fx_commands (ae_decks (exec (audio_engine_deck_set_hold a deck held) e)) = map fx_commands (ae_decks e)"
    using f map_update_same [of fx_commands _ "ae_decks (ae_turn a e)" deck]
    by (cases "deck < length (ae_decks (ae_turn a e))") (simp_all add: d left_alone_def list_update_beyond, simp_all add: fx_commands_def)
  show "en_hold (ae_decks (exec (audio_engine_deck_set_hold a deck held) e) ! deck) = held" if "deck < length (ae_decks e)" "deck < AUDIO_ENGINE_DECK_COUNT"
    using left_alone_length [OF f] that by (simp add: d)
  show "en_hold (ae_decks e ! d)" if "d \<noteq> deck \<or> \<not> held" "en_hold (ae_decks (exec (audio_engine_deck_set_hold a deck held) e) ! d)"
    using f left_alone_length [OF f] that by (cases "d = deck"; cases "deck < length (ae_decks e)") (auto simp: d left_alone_def nth_list_update list_update_beyond split: if_splits)
qed

text \<open>A slot of a safe core replaced by another one, and the engine by a later one.\<close>

lemma replaced_safe:
  assumes s: "safe D s" and deck: "deck < DECK_CORE_DECK_COUNT" and x: "slot_ok x" "ds_sync_master (dk_state x) = ds_sync_master (dk_state (dc_decks s ! deck))"
    and e: "map fx_commands (ae_decks e) = map fx_commands (ae_decks (dc_engine s))" "\<And>d. d \<noteq> deck \<Longrightarrow> en_hold (ae_decks e ! d) \<Longrightarrow> en_hold (ae_decks (dc_engine s) ! d)"
    and h: "deck \<in> D \<Longrightarrow> en_hold (ae_decks e ! deck) \<Longrightarrow> dk_jog_touched x \<and> dk_jog_hold_active x \<and> \<not> dk_jog_scratch_active x"
  shows "safe D (s\<lparr>dc_decks := (dc_decks s)[deck := x], dc_engine := e\<rparr>)"
  using s deck x e(1) map_eq_imp_length_eq [OF e(1)] e(2) h by (auto simp: safe_def core_ok_def silent_ok_def nth_list_update)

lemma press_safe:
  assumes quiet: "engine_quiet (de_audio env)" and s: "safe D s" and deck: "deck < DECK_CORE_DECK_COUNT" and untouched: "\<not> dk_jog_touched (dc_decks s ! deck)"
  shows "safe D (exec (handle_jog_touch env deck True) s)"
proof -
  let ?d = "dc_decks s ! deck" and ?a = "de_audio env" and ?e = "dc_engine s"
  have len: "length (dc_decks s) = DECK_CORE_DECK_COUNT" "length (ae_decks ?e) = DECK_CORE_DECK_COUNT"
    using s by (auto simp: safe_def core_ok_def silent_ok_def)
  have d: "slot_ok ?d" using s deck by (simp add: safe_def core_ok_def)
  have held: "deck \<in> D \<Longrightarrow> en_hold (ae_decks ?e ! deck) \<Longrightarrow> dk_jog_touched ?d \<and> dk_jog_hold_active ?d \<and> \<not> dk_jog_scratch_active ?d"
    using s deck by (auto simp: safe_def silent_ok_def)
  let ?r = "run_state (audio_engine_deck_scratch_begin ?a deck) ?e"
  let ?pos = "run_state (audio_engine_deck_position_ms ?a deck) (snd ?r)"
  let ?e3 = "exec (audio_engine_deck_set_hold ?a deck True) (snd ?pos)"
  have f1: "left_alone ?e (snd ?r)" by (rule eng.keepsD) (rule transport_falls [OF quiet])
  have f2: "left_alone (snd ?r) (snd ?pos)" by (rule eng.keepsD) (rule transport_falls [OF quiet])
  have not_held: "deck \<in> D \<Longrightarrow> \<not> en_hold (ae_decks ?e ! deck)" using held untouched by blast
  consider "fst ?r" | "\<not> fst ?r" "ds_playing (dk_state ?d)" | "\<not> fst ?r" "\<not> ds_playing (dk_state ?d)" by blast
  then show ?thesis
  proof cases
    case 1
    have run: "exec (handle_jog_touch env deck True) s = s\<lparr>dc_decks := (dc_decks s)[deck :=
        ?d\<lparr>dk_jog_touched := True, dk_jog_hold_active := True, dk_jog_scratch_active := True\<rparr>], dc_engine := snd ?r\<rparr>"
      using 1 deck untouched len by (simp add: handle_jog_touch_def)
    show ?thesis unfolding run
      by (rule replaced_safe [OF s deck]) (use d f1 len not_held in \<open>auto simp: slot_ok_def left_alone_def\<close>)
  next
    case 2
    have run: "exec (handle_jog_touch env deck True) s = s\<lparr>dc_decks := (dc_decks s)[deck :=
        ?d\<lparr>dk_jog_touched := True, dk_jog_hold_active := True, dk_jog_scratch_active := False, dk_state := (dk_state ?d)\<lparr>ds_position_ms := fst ?pos\<rparr>\<rparr>],
        dc_engine := ?e3\<rparr>"
      using 2 deck untouched len by (simp add: handle_jog_touch_def current_deck_position_ms_def deck_uses_audio_engine_def)
    show ?thesis unfolding run
      by (rule replaced_safe [OF s deck])
        (use d f1 f2 len set_hold_spec(1) [OF quiet, of deck True "snd ?pos"] set_hold_spec(2) [OF quiet, of _ deck True "snd ?pos"]
          in \<open>auto simp: slot_ok_def left_alone_def\<close>)
  next
    case 3
    have run: "exec (handle_jog_touch env deck True) s = s\<lparr>dc_decks := (dc_decks s)[deck :=
        ?d\<lparr>dk_jog_touched := True, dk_jog_scratch_active := False, dk_jog_hold_active := False\<rparr>], dc_engine := snd ?r\<rparr>"
      using 3 deck untouched len by (simp add: handle_jog_touch_def)
    show ?thesis unfolding run
      by (rule replaced_safe [OF s deck]) (use d f1 len not_held in \<open>auto simp: slot_ok_def left_alone_def\<close>)
  qed
qed

lemma release_safe:
  assumes quiet: "engine_quiet (de_audio env)" and s: "safe D s" and deck: "deck < DECK_CORE_DECK_COUNT"
  shows "safe D (exec (handle_jog_touch env deck False) s)"
proof -
  let ?d = "dc_decks s ! deck" and ?a = "de_audio env" and ?e = "dc_engine s"
  have len: "length (dc_decks s) = DECK_CORE_DECK_COUNT" "length (ae_decks ?e) = DECK_CORE_DECK_COUNT"
    using s by (auto simp: safe_def core_ok_def silent_ok_def)
  have d: "slot_ok ?d" using s deck by (simp add: safe_def core_ok_def)
  have held: "deck \<in> D \<Longrightarrow> en_hold (ae_decks ?e ! deck) \<Longrightarrow> dk_jog_touched ?d \<and> dk_jog_hold_active ?d \<and> \<not> dk_jog_scratch_active ?d"
    using s deck by (auto simp: safe_def silent_ok_def)
  let ?e1 = "exec (audio_engine_deck_scratch_end ?a deck) ?e" and ?e2 = "exec (audio_engine_deck_set_hold ?a deck False) ?e"
  have f1: "left_alone ?e ?e1" by (rule eng.keepsD) (rule transport_falls [OF quiet])
  consider "\<not> dk_jog_touched ?d" | "dk_jog_touched ?d" "\<not> dk_jog_hold_active ?d"
    | "dk_jog_touched ?d" "dk_jog_hold_active ?d" "dk_jog_scratch_active ?d" | "dk_jog_touched ?d" "dk_jog_hold_active ?d" "\<not> dk_jog_scratch_active ?d" by blast
  then show ?thesis
  proof cases
    case 1
    then show ?thesis using s deck by (simp add: handle_jog_touch_def)
  next
    case 2
    have run: "exec (handle_jog_touch env deck False) s = s\<lparr>dc_decks := (dc_decks s)[deck := ?d\<lparr>dk_jog_touched := False\<rparr>], dc_engine := ?e\<rparr>"
      using 2 deck len by (simp add: handle_jog_touch_def)
    show ?thesis unfolding run
      by (rule replaced_safe [OF s deck]) (use 2 d len held in \<open>auto simp: slot_ok_def\<close>)
  next
    case 3
    have run: "exec (handle_jog_touch env deck False) s = s\<lparr>dc_decks := (dc_decks s)[deck :=
        ?d\<lparr>dk_jog_touched := False, dk_jog_hold_active := False, dk_jog_scratch_active := False\<rparr>], dc_engine := ?e1\<rparr>"
      using 3 deck len by (simp add: handle_jog_touch_def)
    show ?thesis unfolding run
      by (rule replaced_safe [OF s deck]) (use 3 d f1 len held in \<open>auto simp: slot_ok_def left_alone_def\<close>)
  next
    case 4
    have run: "exec (handle_jog_touch env deck False) s = s\<lparr>dc_decks := (dc_decks s)[deck :=
        ?d\<lparr>dk_jog_touched := False, dk_jog_hold_active := False, dk_jog_scratch_active := False\<rparr>], dc_engine := ?e2\<rparr>"
      using 4 deck len by (simp add: handle_jog_touch_def)
    show ?thesis unfolding run
      by (rule replaced_safe [OF s deck])
        (use 4 d len deck set_hold_spec(1) [OF quiet, of deck False ?e] set_hold_spec(3) [OF quiet, of deck ?e False] set_hold_spec(2) [OF quiet, of _ deck False ?e] in \<open>auto simp: slot_ok_def\<close>)
  qed
qed

lemma touch_keeps [keeps_rules]:
  assumes "engine_quiet (de_audio env)"
  shows "turn.keeps D (handle_jog_touch env deck pressed)"
proof (rule turn_keepsI)
  fix s assume s: "safe D s"
  consider "\<not> deck < DECK_CORE_DECK_COUNT \<or> (pressed \<and> dk_jog_touched (dc_decks s ! deck))"
    | "deck < DECK_CORE_DECK_COUNT" "pressed" "\<not> dk_jog_touched (dc_decks s ! deck)" | "deck < DECK_CORE_DECK_COUNT" "\<not> pressed" by blast
  then show "safe D (exec (handle_jog_touch env deck pressed) s)"
  proof cases
    case 1
    then show ?thesis using s by (auto simp: handle_jog_touch_def)
  qed (use press_safe [OF assms s] release_safe [OF assms s] in auto)
qed

lemma beat_sync_keeps [keeps_rules]:
  assumes "engine_quiet (de_audio env)"
  shows "turn.keeps D (apply_beat_sync env deck)"
proof -
  have "turn.keeps D (on_state deck (\<lambda>st. st\<lparr>ds_sync_enabled := True, ds_pitch_centipercent := clamp_centipercent_to_range c BEAT_SYNC_MAX_PERCENT\<rparr>))" for c
    by (rule on_state_keeps) (use clamp_bound [of c] in \<open>simp add: slot_ok_def\<close>)
  then show ?thesis using assms
    by (auto simp: apply_beat_sync_def centipercent_for_bpm_match_def Let_def split: option.splits intro!: keeps_rules)
qed

lemma sync_master_keeps [keeps_rules]:
  assumes "engine_quiet (de_audio env)"
  shows "turn.keeps D (set_sync_master env deck)"
proof (rule turn_keepsI)
  fix s assume s: "safe D s"
  show "safe D (exec (set_sync_master env deck) s)"
  proof (cases "deck < DECK_CORE_DECK_COUNT")
    case deck: True
    let ?set = "\<lambda>i d. d\<lparr>dk_state := (dk_state d)\<lparr>ds_sync_master := (i = deck)\<rparr>\<rparr>"
    define t where "t = s\<lparr>dc_sync_master := deck, dc_decks := [?set 0 (dc_decks s ! 0), ?set 1 (dc_decks s ! 1)]\<rparr>"
    obtain d0 d1 where ds: "dc_decks s = [d0, d1]"
      using s by (auto simp: safe_def core_ok_def numeral_2_eq_2 length_Suc_conv)
    have t: "safe D t" using s deck by (auto simp: t_def safe_def core_ok_def silent_ok_def slot_ok_def ds less_2_cases_iff)
    have "turn.keeps D (do { on_state deck (\<lambda>st. st\<lparr>ds_sync_enabled := False\<rparr>); publish_flx4_led_snapshot env False })"
      using assms by (auto intro!: keeps_rules)
    from turn_keepsD [OF this t] show ?thesis
      using deck by (simp add: set_sync_master_def t_def ds upt_rec numeral_2_eq_2)
  qed (use s in \<open>simp add: set_sync_master_def\<close>)
qed

text \<open>A reset forgets the platter of its deck, so that nothing is known of its hold until it is touched again.\<close>

lemma reset_safe:
  assumes "safe D s" "idx < DECK_CORE_DECK_COUNT"
  shows "safe (D - {idx}) (exec (reset_deck_slot idx) s)"
  using assms
  by (auto simp: reset_deck_slot_def hot_cue_mask_cache_invalidate_def publish_state_snapshot_def safe_def core_ok_def silent_ok_def slot_ok_def
      nth_list_update init_deck_state_def zero_deck_state_def zero_loop_def zero_censor_def)

end
