(* ===== verification/Deck_Turns.thy ===== *)
theory Deck_Turns
  imports Deck_Safety
begin

text \<open>
  Runs of the deck core: turns of the deck task, frames of the user interface, ticks of the meters and reads by other components, in any
  order; the invariant and the release of held platters over them.
\<close>

section \<open>Turns\<close>

lemma ui_keeps [keeps_rules]:
  "turn.keeps D (enqueue_ui_command cmd)" "turn.keeps D (ui_call env call)" "turn.keeps D (ui_query active)"
  "turn.keeps D (on_browse_event cid v)" "turn.keeps D on_browse_press" "turn.keeps D on_browse_shift_press"
proof -
  show q: "turn.keeps D (enqueue_ui_command cmd)" for cmd
    by (rule turn_keepsI) (simp add: enqueue_ui_command_def safe_def core_ok_def silent_ok_def)
  show "turn.keeps D (ui_call env call)" "turn.keeps D (ui_query active)" by (auto simp: ui_call_def ui_query_def intro!: keeps_rules)
  show "turn.keeps D (on_browse_event cid v)" "turn.keeps D on_browse_press" "turn.keeps D on_browse_shift_press"
    by (auto simp: on_browse_event_def on_browse_press_def on_browse_shift_press_def intro!: q)
qed

lemma execute_keeps [keeps_rules]: "engine_quiet (de_audio env) \<Longrightarrow> turn.keeps D (execute_ui_command env cmd)"
  by (cases "uc_kind cmd") (auto simp: execute_ui_command_def Let_def intro!: keeps_rules)

lemma drain_keeps: "engine_quiet (de_audio env) \<Longrightarrow> turn.keeps D (drain_ui_commands env n)"
proof (induction n)
  case (Suc n)
  show ?case
  proof (rule turn_keepsI)
    fix s assume s: "safe D s"
    show "safe D (exec (drain_ui_commands env (Suc n)) s)"
    proof (cases "dc_ui_commands s")
      case (Cons cmd rest)
      have "safe D (s\<lparr>dc_ui_commands := rest\<rparr>)" using s Cons by (simp add: safe_def core_ok_def silent_ok_def)
      moreover have "turn.keeps D (do { execute_ui_command env cmd; drain_ui_commands env n })" using Suc by (auto intro!: keeps_rules)
      ultimately have "safe D (exec (do { execute_ui_command env cmd; drain_ui_commands env n }) (s\<lparr>dc_ui_commands := rest\<rparr>))"
        by (intro turn_keepsD)
      then show ?thesis using Cons by simp
    qed (use s in simp)
  qed
qed auto

lemma connection_keeps [keeps_rules]: "engine_quiet (de_audio env) \<Longrightarrow> turn.keeps D (on_flx4_connection env v)"
  by (auto simp: on_flx4_connection_def intro!: keeps_rules)

lemma token_keeps [keeps_rules]: "sint v \<le> 999 \<Longrightarrow> 0 \<le> sint v \<Longrightarrow> turn.keeps D (modify (\<lambda>s. s\<lparr>dc_token_hi := v, dc_token_hi_valid := True\<rparr>))"
  by (rule turn_keepsI)
    (use order_trans [of "sint v" 999 32767] in \<open>auto simp: safe_def core_ok_def silent_ok_def word_le_def sint_unat uint_sint take_bit_int_eq_self\<close>)

lemma state_event_keeps [keeps_rules]: "engine_quiet (de_audio env) \<Longrightarrow> turn.keeps D (on_state_event env ev)"
  by (auto simp: on_state_event_def Let_def intro!: keeps_rules)

text \<open>A change of the beat effect keeps its ranges.\<close>

definition fx_ok :: "deck_core_beat_fx_state \<Rightarrow> bool" where
  "fx_ok fx \<longleftrightarrow> fx_beat fx \<le> DECK_CORE_BEAT_FX_BEAT_4 \<and> fx_depth fx \<le> 127"

definition reads_only :: "deck_core \<Rightarrow> deck_core \<Rightarrow> bool" where
  "reads_only s t \<longleftrightarrow> (\<exists>tr n. t = s\<lparr>dc_tracks := tr, dc_reads := n\<rparr>)"

interpretation lookup: carried reads_only
proof
  show "reads_only s s" for s :: deck_core unfolding reads_only_def by (rule exI [of _ "dc_tracks s"], rule exI [of _ "dc_reads s"]) simp
  show "reads_only s t \<Longrightarrow> reads_only t u \<Longrightarrow> reads_only s u" for s t u :: deck_core unfolding reads_only_def by fastforce
qed

lemma lookup_times: "lookup.keeps (beat_fx_delay_ms env beat target)" "lookup.keeps (beat_fx_flanger_period_ms env beat target)"
proof -
  have t: "lookup.keeps (tracks_turn env)" unfolding tracks_turn_def by (rule lookup.modify_keeps) (unfold reads_only_def, blast)
  have b: "lookup.keeps (beat_fx_target_bpm env target)"
    by (auto simp: beat_fx_target_bpm_def state_of_def deck_effective_bpm_def deck_base_bpm_def deck_base_bpm_x100_def acquire_loaded_track_for_deck_def
        loaded_summary_def Let_def split: option.splits intro!: t)
  show "lookup.keeps (beat_fx_delay_ms env beat target)" "lookup.keeps (beat_fx_flanger_period_ms env beat target)"
    by (auto simp: beat_fx_delay_ms_def beat_fx_flanger_period_ms_def Let_def split: option.splits prod.splits intro!: b)
qed

text \<open>A command to both decks of the engine.\<close>

lemma both_decks:
  assumes "engine_quiet a" "length (ae_decks e) = DECK_CORE_DECK_COUNT"
    and c: "\<And>d eng. fx_commands (g d eng) = h d (fx_commands eng)" "\<And>d eng. en_hold (g d eng) = en_hold eng"
  defines "e' \<equiv> exec (ae_call a (do { for_each [0..<AUDIO_ENGINE_DECK_COUNT] (\<lambda>deck. modify (on_deck deck (g deck))); ret ESP_OK })) e"
  shows "map fx_commands (ae_decks e') = [h 0 (map fx_commands (ae_decks e) ! 0), h 1 (map fx_commands (ae_decks e) ! 1)]"
    "en_hold (ae_decks e' ! d) \<Longrightarrow> d < DECK_CORE_DECK_COUNT \<Longrightarrow> en_hold (ae_decks e ! d)"
proof -
  have f: "left_alone e (ae_turn a e)" using assms(1) by (auto simp: engine_quiet_def left_alone_def ae_turn_def)
  obtain x y where xy: "ae_decks (ae_turn a e) = [x, y]"
    using left_alone_length [OF f] assms(2) by (auto simp: numeral_2_eq_2 length_Suc_conv)
  have c0: "map fx_commands (ae_decks e) = [fx_commands x, fx_commands y]" using f xy by (simp add: left_alone_def)
  have e': "ae_decks e' = [g 0 x, g 1 y]" by (simp add: e'_def ae_call_def upt_rec on_deck_def xy)
  show "map fx_commands (ae_decks e') = [h 0 (map fx_commands (ae_decks e) ! 0), h 1 (map fx_commands (ae_decks e) ! 1)]"
    by (simp add: e' c(1) c0)
  show "en_hold (ae_decks e' ! d) \<Longrightarrow> d < DECK_CORE_DECK_COUNT \<Longrightarrow> en_hold (ae_decks e ! d)"
    using f xy by (auto simp: e' c(2) left_alone_def less_2_cases_iff dest: spec [of _ 0] spec [of _ 1])
qed


definition filter_to :: "u16 \<Rightarrow> bool \<Rightarrow> fx_commands \<Rightarrow> fx_commands" where
  "filter_to raw on c = (case c of (_, rest) \<Rightarrow> ((if on then raw else AUDIO_MIXER_CONTROL_CENTER, on), rest))"

definition echo_to :: "ae_env \<Rightarrow> u8 \<Rightarrow> u32 \<Rightarrow> audio_delay_fx_mode \<Rightarrow> bool \<Rightarrow> fx_commands \<Rightarrow> fx_commands" where
  "echo_to a depth ms requested on c = (case c of (filt, echo, line, rest) \<Rightarrow>
     let mode = (if on \<and> line then requested else dl_mode echo)
     in (filt, \<lparr>dl_enabled = on \<and> line, dl_mode = mode, dl_delay_ms = ms, dl_wet_q15 = beat_fx_time_wet_from_depth a depth,
          dl_feedback_q15 = (if mode = AUDIO_DELAY_FX_MODE_ECHO then beat_fx_echo_feedback_from_depth a depth else 0)\<rparr>, line, rest))"

definition flanger_to :: "u8 \<Rightarrow> u32 \<Rightarrow> bool \<Rightarrow> fx_commands \<Rightarrow> fx_commands" where
  "flanger_to depth ms on c = (case c of (filt, echo, echo_line, flanger, line) \<Rightarrow>
     (filt, echo, echo_line, \<lparr>fl_enabled = on \<and> line, fl_period_ms = ms, fl_depth_q15 = beat_fx_flanger_depth_q15 depth\<rparr>, line))"

definition targeted :: "audio_engine_beat_fx_target \<Rightarrow> u8 \<Rightarrow> bool \<Rightarrow> nat \<Rightarrow> bool" where
  "targeted target depth on d \<longleftrightarrow> on \<and> depth > 0 \<and> beat_fx_target_includes_deck target d"

definition line_delay :: "u32 \<Rightarrow> u32" where
  "line_delay ms = (let ms = (if ms = 0 then 1 else ms) in if ms > AUDIO_ENGINE_BEAT_FX_ECHO_MAX_DELAY_MS then AUDIO_ENGINE_BEAT_FX_ECHO_MAX_DELAY_MS else ms)"

lemma filter_command:
  assumes "engine_quiet a" "length (ae_decks e) = DECK_CORE_DECK_COUNT"
  shows "map fx_commands (ae_decks (exec (audio_engine_set_beat_fx_filter a target depth on) e)) =
      [filter_to (beat_fx_filter_raw_from_depth depth) (targeted target depth on 0) (map fx_commands (ae_decks e) ! 0),
       filter_to (beat_fx_filter_raw_from_depth depth) (targeted target depth on 1) (map fx_commands (ae_decks e) ! 1)]"
    "en_hold (ae_decks (exec (audio_engine_set_beat_fx_filter a target depth on) e) ! d) \<Longrightarrow> d < DECK_CORE_DECK_COUNT \<Longrightarrow> en_hold (ae_decks e ! d)"
  unfolding audio_engine_set_beat_fx_filter_def Let_def
  by (rule both_decks [OF assms(1,2), where h = "\<lambda>d. filter_to (beat_fx_filter_raw_from_depth depth) (targeted target depth on d)"];
      simp add: fx_commands_def filter_to_def targeted_def)+

lemma echo_command:
  assumes "engine_quiet a" "length (ae_decks e) = DECK_CORE_DECK_COUNT"
  shows "map fx_commands (ae_decks (exec (audio_engine_set_beat_fx_time_effect a target depth ms mode on) e)) =
      [echo_to a depth (line_delay ms) mode (targeted target depth on 0) (map fx_commands (ae_decks e) ! 0),
       echo_to a depth (line_delay ms) mode (targeted target depth on 1) (map fx_commands (ae_decks e) ! 1)]"
    "en_hold (ae_decks (exec (audio_engine_set_beat_fx_time_effect a target depth ms mode on) e) ! d) \<Longrightarrow> d < DECK_CORE_DECK_COUNT \<Longrightarrow> en_hold (ae_decks e ! d)"
  unfolding audio_engine_set_beat_fx_time_effect_def Let_def
  by (rule both_decks [OF assms(1,2), where h = "\<lambda>d. echo_to a depth (line_delay ms) mode (targeted target depth on d)"];
      simp add: fx_commands_def echo_to_def targeted_def line_delay_def Let_def)+

lemma flanger_command:
  assumes "engine_quiet a" "length (ae_decks e) = DECK_CORE_DECK_COUNT"
  shows "map fx_commands (ae_decks (exec (audio_engine_set_beat_fx_flanger a target depth ms on) e)) =
      [flanger_to depth ms (targeted target depth on 0) (map fx_commands (ae_decks e) ! 0),
       flanger_to depth ms (targeted target depth on 1) (map fx_commands (ae_decks e) ! 1)]"
    "en_hold (ae_decks (exec (audio_engine_set_beat_fx_flanger a target depth ms on) e) ! d) \<Longrightarrow> d < DECK_CORE_DECK_COUNT \<Longrightarrow> en_hold (ae_decks e ! d)"
  unfolding audio_engine_set_beat_fx_flanger_def Let_def
  by (rule both_decks [OF assms(1,2), where h = "\<lambda>d. flanger_to depth ms (targeted target depth on d)"];
      simp add: fx_commands_def flanger_to_def targeted_def)+

text \<open>The three commands of a synchronisation leave on exactly the chosen effect.\<close>

lemma chosen_alone:
  "effects_on (flanger_to depth ms (targeted t (fx_depth fx) (fx_enabled fx \<and> fx_effect fx = DECK_CORE_BEAT_FX_FLANGER) d)
     (echo_to a depth' ms' (if fx_effect fx = DECK_CORE_BEAT_FX_DELAY then AUDIO_DELAY_FX_MODE_DELAY else AUDIO_DELAY_FX_MODE_ECHO)
       (targeted t (fx_depth fx) (fx_enabled fx \<and> fx_effect fx \<in> {DECK_CORE_BEAT_FX_DELAY, DECK_CORE_BEAT_FX_ECHO}) d)
       (filter_to raw (targeted t (fx_depth fx) (fx_enabled fx \<and> fx_effect fx = DECK_CORE_BEAT_FX_FILTER) d) c))) =
   (if fx_enabled fx \<and> fx_depth fx > 0 \<and> beat_fx_target_includes_deck t d \<and> has_line (fx_effect fx) c then {fx_effect fx} else {})"
  by (cases c; cases "fx_effect fx")
    (auto simp: effects_on_def flanger_to_def echo_to_def filter_to_def has_line_def targeted_def Let_def)

lemma has_line_same:
  "has_line x (flanger_to depth ms on (echo_to a depth' ms' mode on' (filter_to raw on'' c))) = has_line x c"
  by (cases c) (auto simp: has_line_def flanger_to_def echo_to_def filter_to_def Let_def)

lemma chosen_agrees:
  fixes fx :: deck_core_beat_fx_state
  defines "t \<equiv> beat_fx_audio_target (fx_target fx)"
  assumes "c' = flanger_to depth ms (targeted t (fx_depth fx) (fx_enabled fx \<and> fx_effect fx = DECK_CORE_BEAT_FX_FLANGER) d)
     (echo_to a depth' ms' (if fx_effect fx = DECK_CORE_BEAT_FX_DELAY then AUDIO_DELAY_FX_MODE_DELAY else AUDIO_DELAY_FX_MODE_ECHO)
       (targeted t (fx_depth fx) (fx_enabled fx \<and> fx_effect fx \<in> {DECK_CORE_BEAT_FX_DELAY, DECK_CORE_BEAT_FX_ECHO}) d)
       (filter_to raw (targeted t (fx_depth fx) (fx_enabled fx \<and> fx_effect fx = DECK_CORE_BEAT_FX_FILTER) d) c))"
  shows "effects_on c' = effects_chosen fx d c'"
  unfolding assms effects_chosen_def chosen_alone has_line_same ..

lemma agree_pair: "effects_on c = effects_chosen fx 0 c \<Longrightarrow> effects_on c' = effects_chosen fx 1 c' \<Longrightarrow> effects_agree fx [c, c']"
  by (auto simp: effects_agree_def less_2_cases_iff)

lemma sync_run:
  assumes "engine_quiet (de_audio env)" "length (ae_decks (dc_engine s)) = DECK_CORE_DECK_COUNT"
  obtains tr n e where "exec (sync_beat_fx_audio_state env) s = s\<lparr>dc_tracks := tr, dc_reads := n, dc_engine := e\<rparr>"
    "length (ae_decks e) = DECK_CORE_DECK_COUNT" "effects_agree (dc_beat_fx s) (map fx_commands (ae_decks e))"
    "\<And>d. d < DECK_CORE_DECK_COUNT \<Longrightarrow> en_hold (ae_decks e ! d) \<Longrightarrow> en_hold (ae_decks (dc_engine s) ! d)"
proof -
  let ?fx = "dc_beat_fx s" and ?a = "de_audio env"
  let ?t = "beat_fx_audio_target (fx_target ?fx)"
  let ?mode = "if fx_effect ?fx = DECK_CORE_BEAT_FX_DELAY then AUDIO_DELAY_FX_MODE_DELAY else AUDIO_DELAY_FX_MODE_ECHO"
  let ?time = "fx_enabled ?fx \<and> fx_effect ?fx \<in> {DECK_CORE_BEAT_FX_DELAY, DECK_CORE_BEAT_FX_ECHO}"
  define e1 where "e1 = exec (audio_engine_set_beat_fx_filter ?a ?t (fx_depth ?fx) (fx_enabled ?fx \<and> fx_effect ?fx = DECK_CORE_BEAT_FX_FILTER)) (dc_engine s)"
  let ?s1 = "s\<lparr>dc_engine := e1\<rparr>"
  define ms where "ms = eval (beat_fx_delay_ms env (fx_beat ?fx) (fx_target ?fx)) ?s1"
  obtain tr1 n1 where s2: "exec (beat_fx_delay_ms env (fx_beat ?fx) (fx_target ?fx)) ?s1 = ?s1\<lparr>dc_tracks := tr1, dc_reads := n1\<rparr>"
    using lookup.keepsD [OF lookup_times(1)] unfolding reads_only_def by blast
  define e2 where "e2 = exec (audio_engine_set_beat_fx_time_effect ?a ?t (fx_depth ?fx) ms ?mode ?time) e1"
  let ?s3 = "s\<lparr>dc_tracks := tr1, dc_reads := n1, dc_engine := e2\<rparr>"
  define period where "period = eval (beat_fx_flanger_period_ms env (fx_beat ?fx) (fx_target ?fx)) ?s3"
  obtain tr2 n2 where s4: "exec (beat_fx_flanger_period_ms env (fx_beat ?fx) (fx_target ?fx)) ?s3 = ?s3\<lparr>dc_tracks := tr2, dc_reads := n2\<rparr>"
    using lookup.keepsD [OF lookup_times(2)] unfolding reads_only_def by blast
  define e3 where "e3 = exec (audio_engine_set_beat_fx_flanger ?a ?t (fx_depth ?fx) period (fx_enabled ?fx \<and> fx_effect ?fx = DECK_CORE_BEAT_FX_FLANGER)) e2"
  have "exec (sync_beat_fx_audio_state env) s = s\<lparr>dc_tracks := tr2, dc_reads := n2, dc_engine := e3\<rparr>"
    using s2 s4
    by (cases "fx_effect ?fx = DECK_CORE_BEAT_FX_DELAY")
      (simp_all add: sync_beat_fx_audio_state_def Let_def split_beta e1_def e2_def e3_def ms_def period_def
        audio_engine_set_beat_fx_delay_def audio_engine_set_beat_fx_echo_def)
  moreover have l1: "length (ae_decks e1) = DECK_CORE_DECK_COUNT"
    using arg_cong [where f = length, OF filter_command(1) [OF assms]] by (simp add: e1_def)
  moreover have l2: "length (ae_decks e2) = DECK_CORE_DECK_COUNT"
    using arg_cong [where f = length, OF echo_command(1) [OF assms(1) l1]] by (simp add: e2_def)
  moreover have l3: "length (ae_decks e3) = DECK_CORE_DECK_COUNT"
    using arg_cong [where f = length, OF flanger_command(1) [OF assms(1) l2]] by (simp add: e3_def)
  moreover have "effects_agree ?fx (map fx_commands (ae_decks e3))"
    unfolding e3_def flanger_command(1) [OF assms(1) l2] unfolding e2_def echo_command(1) [OF assms(1) l1]
    unfolding e1_def filter_command(1) [OF assms]
    by (rule agree_pair; rule chosen_agrees; simp only: nth_Cons_0 nth_Cons_Suc One_nat_def)
  moreover have "en_hold (ae_decks (dc_engine s) ! d)" if d: "d < DECK_CORE_DECK_COUNT" and "en_hold (ae_decks e3 ! d)" for d
    using filter_command(2) [OF assms _ d] echo_command(2) [OF assms(1) l1 _ d] flanger_command(2) [OF assms(1) l2 _ d] that
    unfolding e1_def e2_def e3_def by blast
  ultimately show ?thesis using that by blast
qed

lemma set_fx_safe:
  assumes "engine_quiet (de_audio env)" "safe D s" "fx_ok (f (dc_beat_fx s))"
  shows "safe D (exec (set_beat_fx env f) s)"
proof -
  let ?s = "s\<lparr>dc_beat_fx := f (dc_beat_fx s)\<rparr>"
  have len: "length (ae_decks (dc_engine ?s)) = DECK_CORE_DECK_COUNT" using assms(2) by (simp add: safe_def core_ok_def)
  obtain tr n e where "exec (sync_beat_fx_audio_state env) ?s = ?s\<lparr>dc_tracks := tr, dc_reads := n, dc_engine := e\<rparr>"
    "length (ae_decks e) = DECK_CORE_DECK_COUNT" "effects_agree (f (dc_beat_fx s)) (map fx_commands (ae_decks e))"
    "\<And>d. d < DECK_CORE_DECK_COUNT \<Longrightarrow> en_hold (ae_decks e ! d) \<Longrightarrow> en_hold (ae_decks (dc_engine s) ! d)"
    by (rule sync_run [OF assms(1) len]) auto
  then show ?thesis using assms(2,3) by (simp add: set_beat_fx_def safe_def core_ok_def silent_ok_def fx_ok_def)
qed

lemma set_fx_keeps: "engine_quiet (de_audio env) \<Longrightarrow> (\<And>fx. fx_ok fx \<Longrightarrow> fx_ok (f fx)) \<Longrightarrow> turn.keeps D (set_beat_fx env f)"
  by (rule turn_keepsI, rule set_fx_safe, assumption, assumption) (simp add: safe_def core_ok_def fx_ok_def)

lemma fx_step_keeps:
  assumes "engine_quiet (de_audio env)" "\<And>fx. fx_ok fx \<Longrightarrow> P fx \<Longrightarrow> fx_ok (f fx fx)"
  shows "turn.keeps D (do { fx \<leftarrow> gets dc_beat_fx; cond (P fx) (set_beat_fx env (f fx)); ret True })"
proof (rule turn_keepsI)
  fix s assume s: "safe D s"
  have "fx_ok (dc_beat_fx s)" using s by (simp add: safe_def core_ok_def fx_ok_def)
  then show "safe D (exec (do { fx \<leftarrow> gets dc_beat_fx; cond (P fx) (set_beat_fx env (f fx)); ret True }) s)"
    using s set_fx_safe [OF assms(1) s, of "f (dc_beat_fx s)"] assms(2) [of "dc_beat_fx s"] by (auto simp: split_beta)
qed

lemma switch_keeps: "engine_quiet (de_audio env) \<Longrightarrow> eng.keeps m \<Longrightarrow> eng.keeps r \<Longrightarrow> turn.keeps D (toggle_switch env m r led v)"
  by (auto simp: toggle_switch_def intro!: keeps_rules)

lemma system_button_keeps [keeps_rules]:
  assumes "engine_quiet (de_audio env)"
  shows "turn.keeps D (on_system_button env ev)"
  unfolding on_system_button_def Let_def
  by (intro turn.if_keeps turn.ret_keeps;
      ((rule fx_step_keeps [OF assms]; auto simp: fx_ok_def) |
       (use assms in \<open>auto simp: fx_ok_def init_beat_fx_state_def intro!: keeps_rules set_fx_keeps switch_keeps\<close>)))

lemma depth_small: "sint v \<le> 127 \<Longrightarrow> 0 \<le> sint v \<Longrightarrow> (scast (v :: i16) :: u8) \<le> 127"
  unfolding scast_eq word_le_def uint_word_of_int by simp

lemma system_value_keeps [keeps_rules]: "engine_quiet (de_audio env) \<Longrightarrow> turn.keeps D (on_system_value env ev)"
  by (auto simp: on_system_value_def Let_def fx_ok_def not_less intro!: keeps_rules set_fx_keeps depth_small)

lemma mixer_keeps [keeps_rules]: "engine_quiet (de_audio env) \<Longrightarrow> turn.keeps D (on_mixer_control env c raw)"
  by (auto simp: on_mixer_control_def mixer_call_def Let_def intro!: keeps_rules)

lemma button_keeps [keeps_rules]: "engine_quiet (de_audio env) \<Longrightarrow> turn.keeps D (on_button env deck btn pressed)"
  by (auto simp: on_button_def Let_def intro!: keeps_rules)


lemma action_keeps [keeps_rules]:
  assumes "engine_quiet (de_audio env)"
  shows "turn.keeps D (on_ext_action env deck v)" "turn.keeps D (on_pad_fx env deck mode pad pressed)" "turn.keeps D (on_pad_action env deck v)"
proof -
  show fx: "turn.keeps D (on_pad_fx env deck mode pad pressed)" for mode pad pressed
    using assms by (auto simp: on_pad_fx_def intro!: keeps_rules)
  show "turn.keeps D (on_ext_action env deck v)" using assms by (auto simp: on_ext_action_def Let_def intro!: keeps_rules)
  show "turn.keeps D (on_pad_action env deck v)" using assms fx by (auto simp: on_pad_action_def Let_def split: option.splits intro!: keeps_rules)
qed

lemma set_pad_mode_keeps:
  assumes "engine_quiet (de_audio env)"
    and "\<And>st. ds_pad_mode (f st) \<in> {CTRL_PAD_MODE_HOT_CUE, CTRL_PAD_MODE_BEAT_LOOP, CTRL_PAD_MODE_BEAT_JUMP, CTRL_PAD_MODE_PAD_FX1, CTRL_PAD_MODE_PAD_FX2}"
    and "\<And>st. ds_pitch_centipercent (f st) = ds_pitch_centipercent st" "\<And>st. ds_tempo_range_percent (f st) = ds_tempo_range_percent st"
    and "\<And>st. ds_censor_active (f st) = ds_censor_active st" "\<And>st. ds_sync_master (f st) = ds_sync_master st"
  shows "turn.keeps D (set_pad_mode env deck pressed f)"
proof -
  have "turn.keeps D (on_state deck f)" by (rule on_state_keeps) (use assms(2-6) in \<open>simp add: slot_ok_def\<close>)
  then show ?thesis using assms(1) by (auto simp: set_pad_mode_def intro!: keeps_rules)
qed

lemma apply_pitch_keeps [keeps_rules]:
  "engine_quiet (de_audio env) \<Longrightarrow> turn.keeps D (apply_deck_pitch env deck)"
  "engine_quiet (de_audio env) \<Longrightarrow> turn.keeps D (on_pitch env deck raw)"
  by (auto simp: apply_deck_pitch_def on_pitch_def Let_def intro!: keeps_rules)

lemma jog_keeps [keeps_rules]:
  "engine_quiet (de_audio env) \<Longrightarrow> turn.keeps D (on_jog env deck c delta)"
  "engine_quiet (de_audio env) \<Longrightarrow> turn.keeps D (on_jog_search env deck delta)"
  by (auto simp: on_jog_def on_jog_search_def Let_def intro!: keeps_rules)

lemma deck_button_keeps:
  assumes "engine_quiet (de_audio env)" "deck_button_action env deck c v = Some m"
  shows "turn.keeps D m"
  using assms(2) unfolding deck_button_action_def Let_def
  by (auto simp: assms(1) split: if_splits intro!: keeps_rules set_pad_mode_keeps)

lemma extension_keeps [keeps_rules]: "engine_quiet (de_audio env) \<Longrightarrow> turn.keeps D (on_deck_extension_button env ev)"
  by (auto simp: on_deck_extension_button_def split: option.split intro!: deck_button_keeps)

lemma deck_event_keeps [keeps_rules]: "engine_quiet (de_audio env) \<Longrightarrow> turn.keeps D (on_deck_event env ev)"
  by (cases "ev_type ev") (auto simp: on_deck_event_def Let_def intro!: keeps_rules)


lemma event_keeps [keeps_rules]:
  assumes "engine_quiet (de_audio env)" "\<And>d. d \<in> D \<Longrightarrow> \<not> resets_deck d ev"
  shows "turn.keeps D (deck_event_turn env ev)"
proof (cases "ev_type ev = CTRL_EV_STATE \<and> ev_id ev = DECK_CORE_INTERNAL_RESET_ID")
  case True
  let ?idx = "normalize_deck (unat (ev_deck ev))"
  have "D - {?idx} = D" "?idx < DECK_CORE_DECK_COUNT" using assms(2) [of ?idx] True by (auto simp: resets_deck_def normalize_deck_def)
  then have "turn.keeps D (reset_deck_slot ?idx)" using reset_safe [of D _ ?idx] by (intro turn_keepsI) auto
  then show ?thesis using True by (simp add: deck_event_turn_def)
next
  case False
  then show ?thesis using assms(1) by (auto simp: deck_event_turn_def intro!: keeps_rules)
qed

lemma task_safe:
  assumes "engine_quiet (de_audio env)" "safe D s"
  shows "safe D (exec (deck_task env) s)"
proof -
  let ?p = "exec publish_state_snapshot s"
  have p: "safe D ?p" using assms(2) by (intro turn_keepsD [OF basic_keeps(6)])
  have q: "dc_queue ?p = dc_queue s" by (simp add: publish_state_snapshot_def)
  show ?thesis
  proof (cases "dc_queue s")
    case Nil
    then show ?thesis using p q by (simp add: deck_task_def split_beta)
  next
    case (Cons ev rest)
    have "safe D (?p\<lparr>dc_queue := rest\<rparr>)" using p q Cons by (simp add: safe_def core_ok_def silent_ok_def)
    moreover have "turn.keeps D (deck_event_turn env ev)" using assms Cons by (intro event_keeps) (auto simp: safe_def silent_ok_def)
    ultimately have "safe D (exec (deck_event_turn env ev) (?p\<lparr>dc_queue := rest\<rparr>))" by (intro turn_keepsD)
    then show ?thesis using Cons q by (simp add: deck_task_def split_beta)
  qed
qed

lemma meters_keep [keeps_rules]: "engine_quiet (de_audio env) \<Longrightarrow> turn.keeps D (vu_task env)"
  by (auto simp: vu_task_def vu_ballistic_level_def Let_def intro!: keeps_rules)

section \<open>Runs\<close>

text \<open>One turn of a task, or one call of another component.\<close>

datatype deck_step =
  Deck_Task | Ui_Frame | Vu_Task | Queue_Event bool ctrl_event | Toggle_Master_Tempo nat | Reset_Deck nat | Reset_Wait | Get_Deck_State nat
  | Get_Loop_Display nat | Set_Status_Cb bool | Set_Token_Cb bool

fun deck_step_action :: "deck_env \<Rightarrow> deck_step \<Rightarrow> unit deck_action" where
  "deck_step_action env Deck_Task = deck_task env"
| "deck_step_action env Ui_Frame = deck_core_process_ui_commands env"
| "deck_step_action env Vu_Task = vu_task env"
| "deck_step_action env (Queue_Event consumed ev) = do { rc \<leftarrow> deck_core_queue_event consumed ev; ret () }"
| "deck_step_action env (Toggle_Master_Tempo deck) = deck_core_toggle_master_tempo deck"
| "deck_step_action env (Reset_Deck deck) = do { queued \<leftarrow> deck_core_reset_deck deck; ret () }"
| "deck_step_action env Reset_Wait = do { reset \<leftarrow> reset_wait; ret () }"
| "deck_step_action env (Get_Deck_State deck) = do { st \<leftarrow> deck_core_get_deck_state env deck; ret () }"
| "deck_step_action env (Get_Loop_Display deck) = do { display \<leftarrow> deck_core_get_loop_display env deck; ret () }"
| "deck_step_action env (Set_Status_Cb cb) = deck_core_set_s3_debug_ap_status_cb cb"
| "deck_step_action env (Set_Token_Cb cb) = deck_core_set_s3_debug_ap_token_cb cb"

definition deck_run :: "deck_env \<Rightarrow> deck_step list \<Rightarrow> deck_core \<Rightarrow> deck_core" where
  "deck_run env steps s = fold (\<lambda>st s. exec (deck_step_action env st) s) steps s"

text \<open>The steps that ask for a reset of a deck.\<close>

fun asks_reset :: "nat \<Rightarrow> deck_step \<Rightarrow> bool" where
  "asks_reset d (Queue_Event consumed ev) = (\<not> consumed \<and> resets_deck d ev)"
| "asks_reset d (Reset_Deck deck) = (normalize_deck deck = d)"
| "asks_reset d _ = False"

lemma enqueue_safe:
  assumes "safe D s" "length (dc_queue s) < CTRL_QUEUE_LEN" "\<And>d. d \<in> D \<Longrightarrow> \<not> resets_deck d ev"
  shows "safe D (s\<lparr>dc_queue := dc_queue s @ [ev]\<rparr>)"
  using assms by (auto simp: safe_def core_ok_def silent_ok_def)

lemma resets_queued: "resets_deck d (queued_event CTRL_EV_STATE DECK_CORE_INTERNAL_RESET_ID 0 (normalize_deck deck)) \<longleftrightarrow> normalize_deck deck = d"
  "\<not> resets_deck d (queued_event CTRL_EV_BUTTON c v deck)"
  by (auto simp: resets_deck_def queued_event_def normalize_deck_def less_2_cases_iff)

lemma step_safe:
  assumes "engine_quiet (de_audio env)" "safe D s" "\<And>d. d \<in> D \<Longrightarrow> \<not> asks_reset d st"
  shows "safe D (exec (deck_step_action env st) s)"
proof (cases st)
  case Deck_Task
  then show ?thesis using assms by (simp add: task_safe)
next
  case Ui_Frame
  then show ?thesis using turn_keepsD [OF drain_keeps [OF assms(1)] assms(2)] by (simp add: deck_core_process_ui_commands_def)
next
  case Vu_Task
  then show ?thesis using turn_keepsD [OF meters_keep [OF assms(1)] assms(2)] by simp
next
  case (Queue_Event consumed ev)
  then show ?thesis using assms(2) enqueue_safe [OF assms(2), of ev] assms(3) turn_keepsD [OF field_keeps(11) assms(2)]
    by (auto simp: deck_core_queue_event_def)
next
  case (Toggle_Master_Tempo deck)
  then show ?thesis using assms(2) enqueue_safe [OF assms(2)] resets_queued(2) by (auto simp: deck_core_toggle_master_tempo_def)
next
  case (Reset_Deck deck)
  let ?s = "s\<lparr>dc_reset_done := False\<rparr>"
  have "safe D ?s" using assms(2) by (simp add: safe_def core_ok_def silent_ok_def)
  from enqueue_safe [OF this] show ?thesis
    using assms(3) Reset_Deck resets_queued(1) \<open>safe D ?s\<close> by (auto simp: deck_core_reset_deck_def)
next
  case Reset_Wait
  then show ?thesis using assms(2) by (simp add: reset_wait_def safe_def core_ok_def silent_ok_def)
next
  case (Get_Deck_State deck)
  then show ?thesis using turn_keepsD [OF get_state_keeps [OF assms(1)] assms(2)] by (simp add: split_beta)
next
  case (Get_Loop_Display deck)
  have "turn.keeps D (deck_core_get_loop_display env deck)"
    using assms(1) by (auto simp: deck_core_get_loop_display_def Let_def intro!: keeps_rules)
  from turn_keepsD [OF this assms(2)] show ?thesis using Get_Loop_Display by (simp add: split_beta)
qed (use assms(2) in \<open>simp_all add: deck_core_set_s3_debug_ap_status_cb_def deck_core_set_s3_debug_ap_token_cb_def safe_def core_ok_def silent_ok_def\<close>)

lemma run_safe:
  assumes "engine_quiet (de_audio env)" "safe D s" "\<And>d st. d \<in> D \<Longrightarrow> st \<in> set steps \<Longrightarrow> \<not> asks_reset d st"
  shows "safe D (deck_run env steps s)"
  using assms(2,3)
proof (induction steps arbitrary: s)
  case (Cons st steps)
  from Cons.IH [OF step_safe [OF assms(1) Cons.prems(1)]] Cons.prems(2) show ?case by (simp add: deck_run_def)
qed (simp add: deck_run_def)

text \<open>An engine in which no deck is on hold and no effect is on.\<close>

definition engine_idle :: "audio_engine \<Rightarrow> bool" where
  "engine_idle e \<longleftrightarrow> length (ae_decks e) = DECK_CORE_DECK_COUNT \<and>
     (\<forall>d<DECK_CORE_DECK_COUNT. \<not> en_hold (ae_decks e ! d) \<and> effects_on (fx_commands (ae_decks e ! d)) = {})"

lemma init_safe:
  assumes "engine_idle e"
  shows "safe D (deck_core_init e n)"
proof -
  have "effects_agree init_beat_fx_state (map fx_commands (ae_decks e))"
    using assms by (simp add: effects_agree_def engine_idle_def effects_chosen_def init_beat_fx_state_def)
  then show ?thesis
    using assms
    by (auto simp: safe_def core_ok_def silent_ok_def engine_idle_def deck_core_init_def zero_deck_slot_def slot_ok_def init_deck_state_def
      zero_deck_state_def zero_loop_def zero_censor_def init_beat_fx_state_def less_2_cases_iff nth_Cons' publisher_ok_init)
qed

lemma release_untouches:
  assumes "length (dc_decks s) = DECK_CORE_DECK_COUNT" "deck < DECK_CORE_DECK_COUNT" "d < DECK_CORE_DECK_COUNT"
  shows "dk_jog_touched (dc_decks (exec (handle_jog_touch env deck False) s) ! d) \<longleftrightarrow> d \<noteq> deck \<and> dk_jog_touched (dc_decks s ! d)"
    "length (dc_decks (exec (handle_jog_touch env deck False) s)) = DECK_CORE_DECK_COUNT"
  using assms by (auto simp: handle_jog_touch_def nth_list_update)

definition disconnects :: "ctrl_event \<Rightarrow> bool" where
  "disconnects ev \<longleftrightarrow> ev_type ev = CTRL_EV_STATE \<and> ev_id ev = CTRL_ID_FLX4_CONNECTION \<and> ev_value ev = ucast CTRL_FLX4_DISCONNECTED"

lemma disconnect_untouches:
  assumes "length (dc_decks s) = DECK_CORE_DECK_COUNT" "disconnects ev" "d < DECK_CORE_DECK_COUNT"
  shows "\<not> dk_jog_touched (dc_decks (exec (deck_event_turn env ev) s) ! d)"
proof -
  have turn: "deck_event_turn env ev = on_flx4_connection env (ucast CTRL_FLX4_DISCONNECTED)"
    using assms(2) by (simp add: deck_event_turn_def disconnects_def event_uses_ui_without_deck_state_def on_state_event_def)
  let ?s = "s\<lparr>dc_flx4_state_valid := True, dc_flx4_connected := False\<rparr>"
  have run: "exec (on_flx4_connection env (ucast CTRL_FLX4_DISCONNECTED)) s =
      exec (handle_jog_touch env 1 False) (exec (handle_jog_touch env 0 False) ?s)"
    by (simp add: on_flx4_connection_def upt_rec split_beta)
  have s: "length (dc_decks ?s) = DECK_CORE_DECK_COUNT" using assms(1) by simp
  show ?thesis
    unfolding turn run
    using release_untouches(1) [OF release_untouches(2) [OF s, of 0 0 env], of 1 d env] release_untouches(1) [OF s, of 0 d env] assms(3)
    by (auto simp: less_2_cases_iff)
qed

lemma safe_lengths: "safe D s \<Longrightarrow> length (dc_decks s) = DECK_CORE_DECK_COUNT"
  by (simp add: safe_def core_ok_def)

lemma disconnect_task:
  assumes "safe {d} s" "engine_quiet (de_audio env)" "d < DECK_CORE_DECK_COUNT" "dc_queue s = ev # rest" "disconnects ev"
  shows "\<not> en_hold (ae_decks (dc_engine (exec (deck_task env) s)) ! d)"
proof -
  let ?p = "(exec publish_state_snapshot s)\<lparr>dc_queue := rest\<rparr>"
  have run: "exec (deck_task env) s = exec (deck_event_turn env ev) ?p"
    using assms(4) by (simp add: deck_task_def publish_state_snapshot_def split_beta)
  have "length (dc_decks ?p) = DECK_CORE_DECK_COUNT" using safe_lengths [OF assms(1)] by (simp add: publish_state_snapshot_def)
  from disconnect_untouches [OF this assms(5,3), of env] task_safe [OF assms(2,1)] show ?thesis
    using assms(3) unfolding run by (auto simp: safe_def silent_ok_def)
qed

section \<open>An example\<close>

definition event_step :: "ctrl_event_type \<Rightarrow> u8 \<Rightarrow> i16 \<Rightarrow> deck_step" where
  "event_step ty cid v = Queue_Event False \<lparr>ev_type = ty, ev_id = cid, ev_value = v, ev_seq = 0, ev_deck = 0, ev_control = 0\<rparr>"

text \<open>Play, touch the platter, lose the controller.\<close>

definition touch_and_unplug :: "deck_step list" where
  "touch_and_unplug = [event_step CTRL_EV_BUTTON CTRL_ID_DECK1_PLAY 1, Deck_Task, event_step CTRL_EV_BUTTON CTRL_ID_DECK1_JOG_TOUCH 1, Deck_Task,
     event_step CTRL_EV_STATE CTRL_ID_FLX4_CONNECTION (ucast CTRL_FLX4_DISCONNECTED)]"

lemma touched_and_unplugged:
  "let s = deck_run example_env touch_and_unplug (deck_core_init example_engine example_nvs) in
     en_hold (ae_decks (dc_engine s) ! 0) \<and> list_all disconnects (dc_queue s) \<and> length (dc_queue s) = 1"
  by code_simp

lemma example_quiet: "engine_quiet (de_audio example_env)" "engine_idle example_engine"
  by (auto simp: engine_quiet_def left_alone_def example_env_def engine_idle_def example_engine_def example_deck_def less_2_cases_iff
      effects_on_def fx_commands_def)

section \<open>Properties\<close>

text \<open>
  Whatever the users of the deck core do, its state stays well formed as long as nobody else puts a deck on hold or commands
  a beat effect: pitch, tempo range, pad mode, effect and token values in range, at most one sync master, a censor or a scratch only where
  one was begun, remembered loops not empty, every array and queue within its length; and on every deck the audio engine has on exactly
  the beat effect the core has chosen for it, no other one.
\<close>

theorem deck_core_invariant:
  fixes env :: deck_env
  assumes "engine_quiet (de_audio env)" "engine_idle e"
  shows "core_ok (deck_run env steps (deck_core_init e n))"
  using run_safe [OF assms(1) init_safe [OF assms(2)], of "{}"] by (simp add: safe_def)

theorem deck_core_invariant_witness: "core_ok (deck_run example_env touch_and_unplug (deck_core_init example_engine example_nvs))"
  by (rule deck_core_invariant [OF example_quiet])



end
