(* ===== verification/Deck_Cues.thy ===== *)
theory Deck_Cues
  imports Deck_Lights
begin

text \<open>
  Hot cues from the pad to the flash and back: a cue set on a pad is the place the deck seeks to when the pad is pressed again.
\<close>

section \<open>Storage that works\<close>

definition storage_works :: "nvs_env \<Rightarrow> bool" where
  "storage_works env \<longleftrightarrow> (\<forall>n. nv_fault env n = ESP_OK)"

lemma save_succeeds: "storage_works env \<Longrightarrow> k \<noteq> 0 \<Longrightarrow> eval (hot_cue_store_save env k b) s = ESP_OK"
  by (simp add: storage_works_def hot_cue_store_save_def nvs_open_def nvs_answer_def nvs_set_blob_def nvs_commit_def nvs_close_def)

lemma load_succeeds: "storage_works env \<Longrightarrow> k \<noteq> 0 \<Longrightarrow> stored_cues s k = Some b \<Longrightarrow> eval (hot_cue_store_load env k) s = Inr b"
  by (auto simp: storage_works_def hot_cue_store_load_def nvs_open_def nvs_answer_def nvs_get_blob_def nvs_close_def stored_cues_def
      split: option.splits if_splits)

lemma loaded_ok: "eval (hot_cue_store_load env k) s = Inr b \<Longrightarrow> blob_ok b"
  by (auto simp: hot_cue_store_load_def nvs_open_def nvs_answer_def nvs_get_blob_def nvs_close_def split: if_splits option.splits
      intro!: normalize_ok) (auto simp: blob_ok_def blob_at_def slot_at_def list_all_iff)

section \<open>What lighting the pads leaves alone\<close>

definition track_key_of :: "nat \<Rightarrow> snap_mem \<times> deck_loaded_track_store \<Rightarrow> u32" where
  "track_key_of deck ms =
     (case deck_loaded_track_store_get deck (snd ms) of None \<Rightarrow> 0 | Some t \<Rightarrow> if lt_valid t then lt_track_key t else 0)"

definition track_stays :: "deck_env \<Rightarrow> nat \<Rightarrow> u32 \<Rightarrow> bool" where
  "track_stays env deck k \<longleftrightarrow> (\<forall>n ms. track_key_of deck ms = k \<longrightarrow> track_key_of deck (de_tracks env n ms) = k)"

definition cues_left :: "nat \<Rightarrow> u32 \<Rightarrow> deck_core \<Rightarrow> deck_core \<Rightarrow> bool" where
  "cues_left deck k s t \<longleftrightarrow> (track_key_of deck (dc_tracks s) = k \<longrightarrow> track_key_of deck (dc_tracks t) = k) \<and>
     stored_cues (dc_nvs t) = stored_cues (dc_nvs s)"

interpretation cue: carried "cues_left deck k" for deck k
  by unfold_locales (auto simp: cues_left_def)

named_theorems cue_rules \<open>functions that leave stored cues and the loaded track alone\<close>

lemma plain_leaves [cue_rules]:
  "cue.keeps deck k (engine m)" "cue.keeps deck k (emit x)" "cue.keeps deck k (slot_of d)" "cue.keeps deck k (state_of d)" "cue.keeps deck k (on_slot d f)"
  "cue.keeps deck k (xTaskGetTickCount env)" "cue.keeps deck k publish_state_snapshot"
  by (simp_all add: cue.keeps_def cues_left_def xTaskGetTickCount_def publish_state_snapshot_def)

lemma tracks_leave [cue_rules]: "track_stays env deck k \<Longrightarrow> cue.keeps deck k (tracks_turn env)"
  by (simp add: cue.keeps_def cues_left_def tracks_turn_def track_stays_def del: split_paired_All)

lemma load_leaves [cue_rules]: "cue.keeps deck k (storage (hot_cue_store_load env key))"
  by (auto simp: cue.keeps_def cues_left_def load_keeps)

lemma lights_leave [cue_rules]:
  "cue.keeps deck k (hot_cue_mask_cache_store d key m)" "cue.keeps deck k (deck_core_get_deck_state env d)"
  "cue.keeps deck k (send_snapshot_led env led v d)"
  "cue.keeps deck k (publish_track_load_leds env force)" "cue.keeps deck k (publish_beat_jump_pad_leds env force)"
  "cue.keeps deck k (publish_beat_jump_shift_helper_leds env force)"
  "track_stays env deck k \<Longrightarrow> cue.keeps deck k (hot_cue_exists_mask_for_deck env d)"
  by (auto simp: publish_track_load_leds_def publish_beat_jump_pad_leds_def publish_beat_jump_pad_leds_for_deck_def
      publish_beat_jump_shift_helper_leds_def publish_beat_jump_shift_helper_leds_for_deck_def hot_cue_mask_cache_store_def deck_core_get_deck_state_def send_snapshot_led_def deck_send_led_def deck_has_loaded_track_def
      hot_cue_exists_mask_for_deck_def loaded_track_key_for_deck_def loaded_summary_def Let_def intro!: cue_rules)

lemma publish_lights_leave: "cue.keeps deck k (publish_lights input force (send_snapshot_led env) ls p e)"
  by (induction ls arbitrary: p e) (auto simp: Let_def intro!: cue_rules)

lemma publish_leaves [cue_rules]: "track_stays env deck k \<Longrightarrow> cue.keeps deck k (publish_flx4_led_snapshot env force)"
proof -
  have "cue.keeps deck k (publish_snapshot env input force)" for input
    unfolding publish_snapshot_def flx4_led_publisher_publish_def
    by (auto intro!: cue_rules publish_lights_leave cue.modify_keeps) (simp_all add: cues_left_def)
  then show "track_stays env deck k \<Longrightarrow> cue.keeps deck k (publish_flx4_led_snapshot env force)"
    by (auto simp: publish_flx4_led_snapshot_def snapshot_input_def led_input_def live_led_input_def Let_def split: prod.split option.split
        intro!: cue_rules)
qed


section \<open>Setting and recalling\<close>

definition empty_pad :: "deck_env \<Rightarrow> u32 \<Rightarrow> nat \<Rightarrow> nvs \<Rightarrow> bool" where
  "empty_pad env k pad n \<longleftrightarrow>
     (case eval (hot_cue_store_load (de_nvs env) k) n of Inr b \<Rightarrow> \<not> bit (hc_valid_mask b) pad | Inl rc \<Rightarrow> rc = ESP_ERR_NOT_FOUND)"

definition with_cue :: "hot_cue_store_blob \<Rightarrow> nat \<Rightarrow> u32 \<Rightarrow> hot_cue_store_blob" where
  "with_cue b pad pos_ms = b\<lparr>hc_valid_mask := hc_valid_mask b OR push_bit pad 1,
     hc_slots := (hc_slots b)[pad := zero_slot\<lparr>hc_pos_ms := pos_ms, hc_end_ms := 0, hc_type := HOT_CUE_STORE_TYPE_SINGLE\<rparr>]\<rparr>"

lemma with_cue_ok: "blob_ok b \<Longrightarrow> blob_ok (with_cue b pad pos_ms)"
  by (auto simp: with_cue_def blob_ok_def zero_slot_def list_all_iff dest!: set_update_subset_insert [THEN subsetD])

lemma with_cue_stored:
  assumes "blob_ok b" "pad < HOT_CUE_STORE_SLOT_COUNT"
  shows "bit (hc_valid_mask (normalize_blob (with_cue b pad pos_ms))) pad" "hc_pos_ms (hc_slots (normalize_blob (with_cue b pad pos_ms)) ! pad) = pos_ms"
proof -
  have m: "(0xFF :: u32) = mask 8" by (simp add: mask_eq_exp_minus_1)
  have b: "bit (hc_valid_mask (with_cue b pad pos_ms) AND 0xFF) pad"
    using assms(2) unfolding m by (simp add: with_cue_def bit_simps)
  then show "bit (hc_valid_mask (normalize_blob (with_cue b pad pos_ms))) pad" by (simp add: normalize_blob_def Let_def)
  show "hc_pos_ms (hc_slots (normalize_blob (with_cue b pad pos_ms)) ! pad) = pos_ms"
    using assms b by (simp add: normalize_blob_def Let_def normalize_slot_def with_cue_def blob_ok_def)
qed

lemma loaded_key: "deck < DECK_CORE_DECK_COUNT \<Longrightarrow> track_key_of deck (dc_tracks s) = k \<Longrightarrow> track_stays env deck k \<Longrightarrow>
  run_state (loaded_track_key_for_deck env deck) s = (k, exec (tracks_turn env) s)"
  by (auto simp: loaded_track_key_for_deck_def loaded_summary_def tracks_turn_def track_stays_def track_key_of_def simp del: split_paired_All
      split: option.splits)

lemma zero_blob_ok: "blob_ok zero_blob" "\<not> bit (hc_valid_mask zero_blob) pad"
  by (simp_all add: zero_blob_def zero_slot_def blob_ok_def list_all_iff)

lemma set_cue:
  assumes deck: "deck < DECK_CORE_DECK_COUNT" "pad < HOT_CUE_STORE_SLOT_COUNT" and k: "k \<noteq> 0" "track_key_of deck (dc_tracks s) = k"
    and env: "track_stays env deck k" "storage_works (de_nvs env)" and pad: "empty_pad env k pad (dc_nvs s)"
  defines "t \<equiv> exec (handle_hot_cue_pad_action env deck pad False) s"
    and "pos \<equiv> eval (audio_engine_deck_position_ms (de_audio env) deck) (dc_engine s)"
  shows "track_key_of deck (dc_tracks t) = k" "\<exists>b. blob_ok b \<and> stored_cues (dc_nvs t) k = Some (normalize_blob (with_cue b pad pos))"
proof -
  let ?load = "hot_cue_store_load (de_nvs env) k" and ?at = "audio_engine_deck_position_ms (de_audio env) deck"
  define b where "b = (case eval ?load (dc_nvs s) of Inr b \<Rightarrow> b | Inl _ \<Rightarrow> zero_blob)"
  have b: "blob_ok b" "\<not> bit (hc_valid_mask b) pad"
    "(case eval ?load (dc_nvs s) of Inr blob \<Rightarrow> Some blob | Inl rc \<Rightarrow> if rc = ESP_ERR_NOT_FOUND then Some zero_blob else None) = Some b"
    using pad loaded_ok [of "de_nvs env" k "dc_nvs s"]
    by (auto simp: b_def empty_pad_def zero_blob_ok split: sum.splits)
  let ?w = "with_cue b pad pos"
  define s1 where "s1 = (exec (tracks_turn env) s)\<lparr>dc_nvs := exec ?load (dc_nvs s), dc_engine := exec ?at (dc_engine s)\<rparr>"
  define s2 where "s2 = s1\<lparr>dc_nvs := exec (hot_cue_store_save (de_nvs env) k ?w) (dc_nvs s1)\<rparr>"
  have t: "t = exec (do { hot_cue_mask_cache_store deck k (ucast (hc_valid_mask ?w AND 0xFF)); publish_flx4_led_snapshot env False }) s2"
    using deck k(1) b(2,3) save_succeeds [OF env(2) k(1)]
    by (simp add: t_def handle_hot_cue_pad_action_def loaded_key [OF deck(1) k(2) env(1)] save_hot_cues_def current_deck_position_ms_def
        deck_uses_audio_engine_def s2_def s1_def tracks_turn_def with_cue_def pos_def)
  have key: "track_key_of deck (dc_tracks s2) = k"
    using cue.keepsD [OF tracks_leave [OF env(1)], of s] k(2) by (simp add: s2_def s1_def cues_left_def)
  have stored: "stored_cues (dc_nvs s2) k = Some (normalize_blob ?w)"
    using save_stores [OF with_cue_ok [OF b(1)] save_succeeds [OF env(2) k(1)], of pad pos "dc_nvs s1" k] by (simp add: s2_def)
  have "cue.keeps deck k (do { hot_cue_mask_cache_store deck k (ucast (hc_valid_mask ?w AND 0xFF)); publish_flx4_led_snapshot env False })"
    using env(1) by (auto intro!: cue_rules)
  from cue.keepsD [OF this, of s2] key stored b(1)
  show "track_key_of deck (dc_tracks t) = k" "\<exists>b. blob_ok b \<and> stored_cues (dc_nvs t) k = Some (normalize_blob (with_cue b pad pos))"
    unfolding t by (auto simp: cues_left_def)
qed

lemma recall_cue:
  assumes deck: "deck < DECK_CORE_DECK_COUNT" "pad < HOT_CUE_STORE_SLOT_COUNT" and k: "k \<noteq> 0" "track_key_of deck (dc_tracks s) = k"
    and env: "track_stays env deck k" "storage_works (de_nvs env)"
    and stored: "stored_cues (dc_nvs s) k = Some b" "bit (hc_valid_mask b) pad"
  shows "dc_engine (exec (handle_hot_cue_pad_action env deck pad False) s) =
    exec (audio_engine_deck_seek (de_audio env) deck (hc_pos_ms (hc_slots b ! pad))) (dc_engine s)"
  using deck k(1) stored(2) load_succeeds [OF env(2) k(1) stored(1)]
  by (simp add: handle_hot_cue_pad_action_def loaded_key [OF deck(1) k(2) env(1)] seek_deck_def tracks_turn_def)

section \<open>Properties\<close>

text \<open>
  Claim C35.  While the flash works and the track stays loaded, a press of an empty pad stores the position of the deck, and the next press
  of the pad seeks the deck to that position.
\<close>

theorem hot_cue_set_is_recalled:
  fixes env :: deck_env and s :: deck_core
  assumes "deck < DECK_CORE_DECK_COUNT" "pad < HOT_CUE_STORE_SLOT_COUNT" "k \<noteq> 0" "track_key_of deck (dc_tracks s) = k"
    "track_stays env deck k" "storage_works (de_nvs env)" "empty_pad env k pad (dc_nvs s)"
  shows "let press = handle_hot_cue_pad_action env deck pad False; t = exec press s;
      pos = eval (audio_engine_deck_position_ms (de_audio env) deck) (dc_engine s)
    in dc_engine (exec press t) = exec (audio_engine_deck_seek (de_audio env) deck pos) (dc_engine t)"
proof -
  note set = set_cue [OF assms]
  obtain b where b: "blob_ok b" "stored_cues (dc_nvs (exec (handle_hot_cue_pad_action env deck pad False) s)) k =
      Some (normalize_blob (with_cue b pad (eval (audio_engine_deck_position_ms (de_audio env) deck) (dc_engine s))))"
    using set(2) by blast
  show ?thesis
    using recall_cue [OF assms(1-3) set(1) assms(5,6) b(2) with_cue_stored(1) [OF b(1) assms(2)]] with_cue_stored(2) [OF b(1) assms(2)]
    by (simp add: Let_def)
qed

theorem hot_cue_set_is_recalled_witness:
  "let press = handle_hot_cue_pad_action example_env 0 2 False; t = exec press ((deck_core_init example_engine example_nvs)\<lparr>dc_tracks := example_tracks\<rparr>)
   in dc_engine (exec press t) = exec (audio_engine_deck_seek (de_audio example_env) 0 1000) (dc_engine t)"
proof -
  let ?s = "(deck_core_init example_engine example_nvs)\<lparr>dc_tracks := example_tracks\<rparr>"
  have e: "track_stays example_env 0 7" "storage_works (de_nvs example_env)"
    by (simp_all add: track_stays_def storage_works_def example_env_def)
  have s: "track_key_of 0 (dc_tracks ?s) = 7" "empty_pad example_env 7 2 (dc_nvs ?s)"
    "eval (audio_engine_deck_position_ms (de_audio example_env) 0) (dc_engine ?s) = 1000"
    by code_simp+
  show ?thesis using hot_cue_set_is_recalled [of 0 2 7 ?s, OF _ _ _ s(1) e s(2)] unfolding s(3) by (simp only: Let_def) simp
qed

end
