(* ===== verification/Spec2Isabelle.thy ===== *)
theory Spec2Isabelle
  imports Event_Scheduler Held_State S3_Link Profile_Manager Profile_Storage P4_Link S3_App Pcm_Buffers Recorder Rekordbox_Pdb Anlz_Format Ota_Pull
    Deck_Turns Deck_Cues
begin

text \<open>
  Verification of the Pajoniiir dual-deck firmware.

  \<^bold>\<open>The program.\<close>  Two boards joined by a UART make a DJ deck without a computer.  The S3 control board
  (\<open>src/firmware/control-board-s3\<close>) is the USB host of the DJ controller: it turns MIDI messages into control
  events, sends them to the P4 and shows the LED states the P4 asks for.  The P4 main deck
  (\<open>src/firmware/main-deck-p4\<close>) owns the playback state, matches a connected controller with the profiles on its
  SD card, streams the profile to the S3, plays and mixes the tracks, and records the master output.
  \<open>src/firmware/common\<close> holds what both boards share.

  \<^bold>\<open>Theories and sources.\<close>
  \<^item> \<open>Prelude\<close>: machine integers, little-endian helpers, ring contents, round-robin scans.  \<open>Interfaces\<close>: the locales
    \<open>bounded_fifo\<close>, \<open>round_robin\<close> and \<open>frame_stream\<close>.  \<open>Held_Delivery\<close>: the locale \<open>held_flush\<close>.
  \<^item> \<open>Event_Scheduler\<close>: \<open>common/control_event_scheduler\<close>.  A FIFO of discrete commands (interprets \<open>bounded_fifo\<close>) and
    coalescing slots of continuous controls (interprets \<open>round_robin\<close>); refinement to a map of owed values.
  \<^item> \<open>Held_State\<close>: \<open>common/control_state_reconciler\<close>, the levels of held controls and their delivery marks.
  \<^item> \<open>Control_Ids\<close>, \<open>Ctrl_Bulk\<close>, \<open>Frame_Rx\<close>, \<open>Cp_Xfer\<close>: \<open>control_link.h\<close>, \<open>ctrl_bulk.c\<close>, the byte receiver of
    \<open>control_link_uart.c\<close> and \<open>cp_xfer.c\<close>: codecs, CRCs, resynchronisation, the transfer buffer.
  \<^item> \<open>Controller_Profile\<close>: \<open>controller_profile.c\<close> and \<open>controller_profile_runtime.c\<close>.  \<open>Flx4_Map\<close>: \<open>flx4_map.c\<close>.
  \<^item> \<open>Led_Output\<close>: \<open>flx4_led_midi.c\<close>, \<open>controller_output_policy.c\<close>, \<open>controller_led_reconciler.c\<close>.
  \<^item> \<open>S3_Link\<close>, \<open>S3_App\<close>: \<open>control_link_uart.c\<close>, \<open>control_link_tx_serializer.c\<close> and \<open>app_main.c\<close> of the S3,
    \<open>firmware_boot_gate.c\<close> and \<open>firmware_health.c\<close>.
  \<^item> \<open>P4_Link\<close>: \<open>control_link_uart.c\<close> and \<open>control_link_rx_stats.c\<close> of the P4.
  \<^item> \<open>Profile_Manager\<close>, \<open>Profile_Storage\<close>: \<open>controller_profile_manager.c\<close>, its tasks and its file operations.
  \<^item> \<open>Pcm_Buffers\<close>: \<open>audio_pcm_ring.c\<close>, \<open>audio_pcm_timeline.c\<close>.
  \<^item> \<open>Wav_File\<close>: \<open>audio_format.c\<close>, \<open>audio_wav_decoder.c\<close>, \<open>audio_recorder_wav.c\<close>.
  \<^item> \<open>Recorder_Sink\<close>: \<open>audio_recorder_sink.c\<close>, \<open>audio_recorder_finalize.c\<close>.  \<open>Recorder_Ring\<close>:
    \<open>audio_recorder_ring.c\<close>, \<open>audio_recorder_writer.c\<close>, \<open>audio_recorder_stop_gate.c\<close>.  \<open>Recorder\<close>: \<open>audio_recorder.c\<close> with
    its three tasks interleaved.
  \<^item> \<open>Media_Text\<close>: checked memory and UTF-16.  \<open>Rekordbox_Pdb\<close>: \<open>rekordbox_pdb.c\<close>.  \<open>Rekordbox_Anlz\<close>: \<open>rekordbox_anlz.c\<close>;
    \<open>Anlz_Format\<close>: a writer of the same format, for the round trip.  \<open>Loaded_Tracks\<close>: \<open>anlz_snapshot.c\<close>,
    \<open>deck_loaded_track_store.c\<close>, \<open>ui_deck_anlz_store.c\<close>, with the tasks interleaved over one explicit memory.
  \<^item> \<open>Step_Monad\<close>: state passing, the locale \<open>carried\<close> of relations that bodies carry, single-precision numbers.
    \<open>Audio_Control\<close>: the calls of \<open>audio_engine.c\<close> that control a deck.  \<open>Beat_Grid\<close>: \<open>beat_jump.c\<close>.  \<open>Hot_Cues\<close>:
    \<open>hot_cue_store.c\<close>.  \<open>Led_Snapshot\<close>: \<open>flx4_led_snapshot.c\<close>.
  \<^item> \<open>Deck_State\<close>, \<open>Deck_Handlers\<close>, \<open>Deck_Core\<close>: \<open>deck_core.c\<close>, its state and lights, its handlers, its tasks and public
    functions.  \<open>Deck_Lights\<close>, \<open>Deck_Safety\<close>, \<open>Deck_Turns\<close>, \<open>Deck_Cues\<close>: what holds over their turns.
  \<^item> \<open>Ota_Manifest\<close>: \<open>ota_manifest.c\<close>, \<open>ota_manifest_crypto.c\<close>.  \<open>Ota_Channel\<close>: \<open>p4_ota_pull_manifest.c\<close>,
    \<open>p4_ota_pull_config.c\<close>.  \<open>P4_Ota\<close>: \<open>p4_ota.c\<close>, \<open>p4_ota_policy.c\<close>.  \<open>Ota_Install\<close>: the download of \<open>p4_ota_pull.c\<close> and the
    upload of \<open>web_server.c\<close>.  \<open>Ota_Pull\<close>: the rest of \<open>p4_ota_pull.c\<close>, its gate and \<open>wifi_transition_lease.c\<close>.

  \<^bold>\<open>How the parts interact.\<close>  A MIDI message becomes events in the map or in the active profile (\<open>Flx4_Map\<close>,
  \<open>Controller_Profile\<close>); \<open>S3_App\<close> records the levels of held controls, queues the rest in the scheduler and sends what
  is due over \<open>S3_Link\<close>; \<open>P4_Link\<close> parses the frames (\<open>Frame_Rx\<close>) and hands events to the deck queue, keeping held
  levels and continuous values while the queue is full.  The deck core (\<open>Deck_Core\<close>) takes the
  events from that queue one by one, commands the audio engine (\<open>Audio_Control\<close>), keeps the hot cues of a track in flash
  (\<open>Hot_Cues\<close>) and publishes its lights (\<open>Led_Snapshot\<close>); LED states go the other way through \<open>Led_Output\<close>.  A
  controller descriptor reaches \<open>Profile_Manager\<close>, which streams the matching file as bulk frames to the transfer
  receiver of the S3; an activated profile drives the runtime.  The recorder writes the blocks of the master output as
  WAV segments that the decks can load again.  The tracks of a USB stick come from its Rekordbox database, and their beat
  grids, cues and waveforms from one analysis file per track; decks, screens and the loader share them as reference-counted
  snapshots.  The firmware of the main deck is replaced through
  \<open>P4_Ota\<close> by two clients: an upload over the local web page, and the update service, which offers a newer release of the
  channel and downloads it on request.

  \<^bold>\<open>What the lemmas show.\<close>  Each component has an invariant that every operation keeps (\<open>sched_inv\<close>, \<open>held_inv\<close>,
  \<open>rx_demux_inv\<close>, \<open>led_inv\<close>, \<open>s3_inv\<close>, \<open>app_inv\<close>, \<open>p4_inv\<close>, \<open>cpm_hist_inv\<close>, \<open>fs_ok\<close>, \<open>timeline_rep\<close>, \<open>session_inv\<close>,
  \<open>recorder_inv\<close>, \<open>ota_inv\<close>, \<open>locks_ok\<close>, \<open>offers_ok\<close>, \<open>core_ok\<close>, \<open>snap_inv\<close>); the
  properties rest on them.  They are numbered C1, C2, ... in the text blocks before the theorems.  Where a property speaks of what
  was asked, fetched or sent, that is read from the inputs of the run or from a log of what happened outside the component
  (\<open>last_asked\<close>, the events of \<open>cpm_run\<close>, \<open>ps_published\<close>, \<open>fl_boots\<close>), not from the component's own fields.

  \<^bold>\<open>Conventions.\<close>  State is passed explicitly; a handler is a function from the state to the new state and its result.
  Everything the firmware only calls (UART, heap, USB host, FreeRTOS queues, files, clocks) is a parameter: an
  environment record whose fields may depend on the number of calls made so far, so that any pattern of failures is
  covered.  Loops are structural recursion, or recursion with a measure; the chunk loop of the WAV decoder is a partial
  function because it need not end.  A load from memory that is checked against its bounds is an option (\<open>safely\<close>), and a
  \<open>size_t\<close> is a number below \<open>2 ^ 32\<close> with its wrap-around written out.  The bounds used are those of the code (32 queued commands, 32 continuous slots, 136
  bytes of bulk payload, 16384 bytes of profile); the fuel of the P4 receive pass is the flush budget of its proof,
  which is shown to suffice.

  \<^bold>\<open>Not modelled.\<close>  Checks for NULL arguments, logging, statistics that only logs read, and priorities; of timing, only the
  clock readings the code compares.  Locks and critical sections: the functions they protect are atomic steps.  Where tasks share
  memory without a lock (\<open>Recorder\<close>), they interleave at every access, on a sequentially consistent memory, and one task alone
  starts and stops the recorder.  Directory creation and \<open>stat\<close> are reliable.  The theorem on held levels at the wire covers the
  built-in map.  The calls and tasks of the update service are threads that interleave at each lock, critical section and use of
  the radio (\<open>pull_reach\<close>); of the web server only the firmware upload is modelled, of the firmware health the build that does
  not force a rollback.  Of the audio engine the calls that control a deck are modelled, and its tasks are an arbitrary change
  between two calls; the properties of the deck core assume that they neither put a deck on hold nor command an effect
  (\<open>engine_quiet\<close>).  A turn of a task of the deck core is one step, its sequence lock is not modelled, and its start does not fail.
  The track index, user interface, USB storage, network, signal processing and the update of the S3 are listed in the manifest with
  the reason: they are glue over ESP-IDF, FreeRTOS and LVGL, floating-point signal processing, or vendored.
\<close>

section \<open>From one board to the other\<close>

lemma token_frames:
  assumes "sl_wire (app_link (s3_debug_ap_token_cb e token a)) = sl_wire (app_link a) @ [hi, lo]"
  shows "\<exists>q1 q2. build_fixed_frame CTRL_FRAME_LEN q1 \<lparr>ff_type = CTRL_TYPE_STATE, ff_id = CTRL_ID_S3_DEBUG_TOKEN_HI, ff_value = ucast (token div 1000)\<rparr> = Some hi \<and>
    build_fixed_frame CTRL_FRAME_LEN q2 \<lparr>ff_type = CTRL_TYPE_STATE, ff_id = CTRL_ID_S3_DEBUG_TOKEN_LO, ff_value = ucast (token mod 1000)\<rparr> = Some lo"
  using assms
  by (auto simp: s3_debug_ap_token_cb_def app_send_def control_link_send_semantic_def send_fixed_frame_def tx_send_def control_link_tx_serializer_send_def
      Let_def split: option.splits if_splits prod.splits)

lemma value_halves: "(ucast (ucast (v AND 0xFF) :: u8) OR push_bit 8 (ucast (ucast (drop_bit 8 v AND 0xFF) :: u8)) :: i16) = v"
proof (rule bit_word_eqI)
  have m: "(0xFF :: i16) = mask 8" by (simp add: mask_eq_exp_minus_1)
  fix i assume "i < LENGTH(16)"
  then show "bit (ucast (ucast (v AND 0xFF) :: u8) OR push_bit 8 (ucast (ucast (drop_bit 8 v AND 0xFF) :: u8)) :: i16) i = bit v i"
    unfolding m by (cases "i < 8") (auto simp: bit_simps)
qed

lemma built_event:
  assumes "build_fixed_frame CTRL_FRAME_LEN q \<lparr>ff_type = CTRL_TYPE_STATE, ff_id = cid, ff_value = v\<rparr> = Some f" "cid \<noteq> CTRL_ID_S3_BOOT_CHALLENGE"
  obtains ev where "deck_event f = Some ev" "ctrl_event.ev_type ev = CTRL_EV_STATE" "ctrl_event.ev_id ev = cid" "ctrl_event.ev_value ev = v"
  using assms value_halves [of v]
  by (auto simp: build_fixed_frame_def Let_def deck_event_def frame_event_type_def frame_event_def split: if_splits)

lemma token_value:
  fixes token :: u32
  assumes "token \<le> 999999"
  shows "0 \<le> sint (ucast (token div 1000) :: i16)" "sint (ucast (token div 1000) :: i16) \<le> 999"
    "0 \<le> sint (ucast (token mod 1000) :: i16)" "sint (ucast (token mod 1000) :: i16) \<le> 999"
    "ucast (ucast (token div 1000) :: u16) * 1000 + ucast (ucast (token mod 1000) :: u16) = token"
proof -
  have small: "unat (token div 1000) \<le> 999" "unat (token mod 1000) \<le> 999"
    using assms by (auto simp: word_le_nat_alt unat_div unat_mod)
  have s: "sint (ucast w :: i16) = int (unat w)" "ucast (ucast w :: u16) = w" if "unat w \<le> 999" for w :: u32
  proof -
    have "int (unat w) \<le> int 999" using that by (rule zle_int [THEN iffD2])
    then have "\<bar>uint w\<bar> \<le> 2000" by simp
    from sint_small [OF this] show "sint (ucast w :: i16) = int (unat w)" by (simp only: ucast_eq uint_nat)
    have "unat (ucast (ucast w :: u16) :: u32) = unat w" using that by (simp add: unsigned_ucast_eq unsigned_take_bit_eq take_bit_nat_eq_self)
    then show "ucast (ucast w :: u16) = w" by (rule unsigned_word_eqI)
  qed
  show "0 \<le> sint (ucast (token div 1000) :: i16)" "sint (ucast (token div 1000) :: i16) \<le> 999"
    "0 \<le> sint (ucast (token mod 1000) :: i16)" "sint (ucast (token mod 1000) :: i16) \<le> 999"
    using small by (simp_all only: s(1) [OF small(1)] s(1) [OF small(2)])
  show "ucast (ucast (token div 1000) :: u16) * 1000 + ucast (ucast (token mod 1000) :: u16) = token"
    by (simp only: s(2) [OF small(1)] s(2) [OF small(2)] div_mult_mod_eq)
qed

text \<open>
  The access token of the S3's debug network reaches the display of the P4 digit by digit: when both frames of the callback
  go out, the deck core, fed with the events the P4 makes of them, announces exactly that token.
\<close>

theorem debug_token_displayed:
  fixes token :: u32
  assumes "sl_wire (app_link (s3_debug_ap_token_cb e token a)) = sl_wire (app_link a) @ [hi, lo]"
    "token = 0 \<or> 100000 \<le> token \<and> token \<le> 999999" "dc_token_cb s"
  shows "case (deck_event hi, deck_event lo) of
      (Some ev1, Some ev2) \<Rightarrow> dc_out (exec (deck_event_turn env ev2) (exec (deck_event_turn env ev1) s)) = dc_out s @ [Ap_Token token]
    | _ \<Rightarrow> False"
proof -
  have range: "token \<le> 999999" using assms(2) by auto
  obtain q1 q2 where
    hi: "build_fixed_frame CTRL_FRAME_LEN q1 \<lparr>ff_type = CTRL_TYPE_STATE, ff_id = CTRL_ID_S3_DEBUG_TOKEN_HI, ff_value = ucast (token div 1000)\<rparr> = Some hi" and
    lo: "build_fixed_frame CTRL_FRAME_LEN q2 \<lparr>ff_type = CTRL_TYPE_STATE, ff_id = CTRL_ID_S3_DEBUG_TOKEN_LO, ff_value = ucast (token mod 1000)\<rparr> = Some lo"
    using token_frames [OF assms(1)] by blast
  obtain e1 where e1: "deck_event hi = Some e1" "ctrl_event.ev_type e1 = CTRL_EV_STATE" "ctrl_event.ev_id e1 = CTRL_ID_S3_DEBUG_TOKEN_HI"
    "ctrl_event.ev_value e1 = ucast (token div 1000)" by (rule built_event [OF hi]) simp
  obtain e2 where e2: "deck_event lo = Some e2" "ctrl_event.ev_type e2 = CTRL_EV_STATE" "ctrl_event.ev_id e2 = CTRL_ID_S3_DEBUG_TOKEN_LO"
    "ctrl_event.ev_value e2 = ucast (token mod 1000)" by (rule built_event [OF lo]) simp
  have turn: "deck_event_turn env ev = on_state_event env ev"
    if "ctrl_event.ev_type ev = CTRL_EV_STATE" "ctrl_event.ev_id ev \<in> {CTRL_ID_S3_DEBUG_TOKEN_HI, CTRL_ID_S3_DEBUG_TOKEN_LO}" for ev
    using that by (auto simp: deck_event_turn_def event_uses_ui_without_deck_state_def)
  have v: "ucast (ucast (token div 1000) :: i16) * 1000 + ucast (ucast (token mod 1000) :: i16) = token" by (rule token_value(5) [OF range])
  show ?thesis
    using e1 e2 token_value(1-4) [OF range] assms(2,3) v by (simp add: turn on_state_event_def)
qed

theorem debug_token_displayed_witness:
  "let hi = [0xA5, 0x82, CTRL_ID_S3_DEBUG_TOKEN_HI, 123, 0, 0, 0x82 XOR CTRL_ID_S3_DEBUG_TOKEN_HI XOR 123];
       lo = [0xA5, 0x82, CTRL_ID_S3_DEBUG_TOKEN_LO, 0xC8, 1, 1, 0x82 XOR CTRL_ID_S3_DEBUG_TOKEN_LO XOR 0xC8];
       s = exec (deck_core_set_s3_debug_ap_token_cb True) (deck_core_init example_engine example_nvs)
   in case (deck_event hi, deck_event lo) of
      (Some ev1, Some ev2) \<Rightarrow> dc_out (exec (deck_event_turn example_env ev2) (exec (deck_event_turn example_env ev1) s)) = dc_out s @ [Ap_Token 123456]
    | _ \<Rightarrow> False"
proof -
  let ?a = "app_main 7 profile_runtime_zero"
  have w: "sl_wire (app_link (s3_debug_ap_token_cb good_uart 123456 ?a)) = sl_wire (app_link ?a) @
    [[0xA5, 0x82, CTRL_ID_S3_DEBUG_TOKEN_HI, 123, 0, 0, 0x82 XOR CTRL_ID_S3_DEBUG_TOKEN_HI XOR 123],
     [0xA5, 0x82, CTRL_ID_S3_DEBUG_TOKEN_LO, 0xC8, 1, 1, 0x82 XOR CTRL_ID_S3_DEBUG_TOKEN_LO XOR 0xC8]]"
    by code_simp
  show ?thesis
    unfolding Let_def by (rule debug_token_displayed [OF w]) (simp_all add: deck_core_set_s3_debug_ap_token_cb_def)
qed

end
